(* ===== verification/Prelude.thy ===== *)
theory Prelude
  imports
    Complex_Main
    "HOL-Library.Char_ord"
    "HOL-Library.List_Lexorder"
    "HOL-Library.Product_Lexorder"
begin

text \<open>
  Shared vocabulary of the development: a table of the household's SQLite file as the list of
  its rows, the SQL statements the stores issue as functions on such lists, and the write
  transaction of \<open>hermes_cloud/core/db.py\<close>.

  A table keeps its rows in insertion order.  \<open>SELECT ... fetchone\<close> is \<open>find\<close>,
  \<open>UPDATE ... WHERE\<close> is \<open>tbl_update\<close>, its \<open>rowcount\<close> is \<open>tbl_count\<close>,
  \<open>DELETE\<close> is \<open>tbl_delete\<close> and \<open>ORDER BY k LIMIT 1\<close> is \<open>tbl_first\<close>.
  Text columns order by their bytes, which is the library's lexicographic order on \<open>string\<close>.
\<close>

type_synonym time = real
type_synonym uid = string

named_theorems tbl_simps
named_theorems frame_simps

section \<open>SQL statements on a list of rows\<close>

definition tbl_update :: "('r \<Rightarrow> bool) \<Rightarrow> ('r \<Rightarrow> 'r) \<Rightarrow> 'r list \<Rightarrow> 'r list" where
  "tbl_update P f T = map (\<lambda>r. if P r then f r else r) T"

definition tbl_count :: "('r \<Rightarrow> bool) \<Rightarrow> 'r list \<Rightarrow> nat" where
  "tbl_count P T = length (filter P T)"

definition tbl_delete :: "('r \<Rightarrow> bool) \<Rightarrow> 'r list \<Rightarrow> 'r list" where
  "tbl_delete P T = filter (\<lambda>r. \<not> P r) T"

definition tbl_first :: "('r \<Rightarrow> 'k::linorder) \<Rightarrow> ('r \<Rightarrow> bool) \<Rightarrow> 'r list \<Rightarrow> 'r option" where
  "tbl_first k P T = (case sort_key k (filter P T) of [] \<Rightarrow> None | r # _ \<Rightarrow> Some r)"

definition tbl_get :: "('r \<Rightarrow> 'i) \<Rightarrow> 'i \<Rightarrow> 'r list \<Rightarrow> 'r option" where
  "tbl_get rid i T = find (\<lambda>r. rid r = i) T"

section \<open>The write transaction\<close>

text \<open>
  \<open>Database.write\<close>: the body runs between \<open>BEGIN IMMEDIATE\<close> and \<open>COMMIT\<close>; an
  exception rolls every statement of the body back and is raised again.
\<close>

definition write_tx :: "('d \<Rightarrow> ('e + 'a) \<times> 'd) \<Rightarrow> 'd \<Rightarrow> ('e + 'a) \<times> 'd" where
  "write_tx body d =
     (case body d of
        (Inl e, _) \<Rightarrow> (Inl e, d)
      | (Inr v, d') \<Rightarrow> (Inr v, d'))"

lemma write_tx_Inl: "fst (write_tx body d) = Inl e \<Longrightarrow> snd (write_tx body d) = d"
  by (auto simp: write_tx_def split: prod.splits sum.splits)

lemma write_tx_Inr: "write_tx body d = (Inr v, d') \<longleftrightarrow> body d = (Inr v, d')"
  by (auto simp: write_tx_def split: prod.splits sum.splits)

section \<open>Laws of the statements\<close>

lemma tbl_get_Nil [simp]: "tbl_get rid i [] = None"
  by (simp add: tbl_get_def)

lemma tbl_get_Cons: "tbl_get rid i (r # T) = (if rid r = i then Some r else tbl_get rid i T)"
  by (simp add: tbl_get_def)

lemma tbl_get_SomeD: "tbl_get rid i T = Some r \<Longrightarrow> r \<in> set T \<and> rid r = i"
  by (induction T) (auto simp: tbl_get_Cons split: if_splits)

lemma tbl_get_None_iff: "tbl_get rid i T = None \<longleftrightarrow> i \<notin> set (map rid T)"
  by (induction T) (auto simp: tbl_get_Cons)

lemma tbl_get_ex: "i \<in> set (map rid T) \<Longrightarrow> \<exists>r. tbl_get rid i T = Some r"
  by (metis not_None_eq tbl_get_None_iff)

lemma tbl_get_append:
  "tbl_get rid i (T @ U) = (case tbl_get rid i T of None \<Rightarrow> tbl_get rid i U | Some r \<Rightarrow> Some r)"
  by (induction T) (auto simp: tbl_get_Cons)

lemma tbl_get_update [tbl_simps]:
  assumes "\<And>r. rid (f r) = rid r"
  shows "tbl_get rid i (tbl_update P f T) =
    map_option (\<lambda>r. if P r then f r else r) (tbl_get rid i T)"
  by (induction T) (auto simp: tbl_get_Cons tbl_update_def assms)

lemma tbl_update_ids [tbl_simps]:
  assumes "\<And>r. rid (f r) = rid r"
  shows "map rid (tbl_update P f T) = map rid T"
  by (simp add: tbl_update_def assms)

lemma set_tbl_update: "set (tbl_update P f T) = (\<lambda>r. if P r then f r else r) ` set T"
  by (simp add: tbl_update_def)

lemma image_tbl_update [tbl_simps]:
  assumes "\<And>r. g (f r) = g r"
  shows "g ` set (tbl_update P f T) = g ` set T"
proof -
  have "g (if P r then f r else r) = g r" for r by (simp add: assms)
  then show ?thesis by (simp only: set_tbl_update image_image)
qed

lemma tbl_update_Nil [simp]: "tbl_update P f [] = []"
  by (simp add: tbl_update_def)

lemma tbl_update_Cons [simp]:
  "tbl_update P f (r # T) = (if P r then f r else r) # tbl_update P f T"
  by (simp add: tbl_update_def)

lemma tbl_update_append [simp]: "tbl_update P f (T @ U) = tbl_update P f T @ tbl_update P f U"
  by (simp add: tbl_update_def)

lemma length_tbl_update [simp]: "length (tbl_update P f T) = length T"
  by (simp add: tbl_update_def)

lemma tbl_update_none: "(\<And>r. r \<in> set T \<Longrightarrow> \<not> P r) \<Longrightarrow> tbl_update P f T = T"
  by (induction T) (auto simp: tbl_update_def)

lemma tbl_update_related:
  assumes "c \<in> set T" "R c c" "P c \<Longrightarrow> R c (f c)"
  shows "\<exists>c' \<in> set (tbl_update P f T). R c c'"
  using assms by (cases "P c") (auto simp: set_tbl_update)

lemma tbl_count_0: "tbl_count P T = 0 \<longleftrightarrow> (\<forall>r \<in> set T. \<not> P r)"
  by (auto simp: tbl_count_def filter_empty_conv)

lemma set_tbl_delete [simp]: "set (tbl_delete P T) = {r \<in> set T. \<not> P r}"
  by (simp add: tbl_delete_def)

lemma tbl_delete_idem: "tbl_delete P (tbl_delete P T) = tbl_delete P T"
  by (simp add: tbl_delete_def)

lemma distinct_tbl_delete: "distinct (map rid T) \<Longrightarrow> distinct (map rid (tbl_delete P T))"
  by (simp add: tbl_delete_def distinct_map_filter)

lemma tbl_get_delete_other:
  "(\<And>r. r \<in> set T \<Longrightarrow> rid r = i \<Longrightarrow> \<not> P r) \<Longrightarrow> tbl_get rid i (tbl_delete P T) = tbl_get rid i T"
  by (induction T) (auto simp: tbl_get_Cons tbl_delete_def)

lemma distinct_same_row:
  "distinct (map rid T) \<Longrightarrow> r \<in> set T \<Longrightarrow> r' \<in> set T \<Longrightarrow> rid r = rid r' \<Longrightarrow> r = r'"
  by (induction T) (auto simp: image_iff)

lemma tbl_get_mem:
  assumes "distinct (map rid T)" "r \<in> set T"
  shows "tbl_get rid (rid r) T = Some r"
  using assms by (induction T) (auto simp: tbl_get_Cons image_iff)

lemma find_Some_mem: "find P T = Some r \<Longrightarrow> r \<in> set T \<and> P r"
  by (induction T) (auto split: if_splits)

lemma find_None_all: "find P T = None \<longleftrightarrow> (\<forall>r \<in> set T. \<not> P r)"
  by (induction T) auto

lemma find_append_case:
  "find P (T @ U) = (case find P T of None \<Rightarrow> find P U | Some x \<Rightarrow> Some x)"
  by (induction T) auto

lemma tbl_first_SomeD:
  assumes "tbl_first k P T = Some r"
  shows "r \<in> set T" and "P r" and "\<And>r'. r' \<in> set T \<Longrightarrow> P r' \<Longrightarrow> k r \<le> k r'"
proof -
  obtain rs where rs: "sort_key k (filter P T) = r # rs"
    using assms by (auto simp: tbl_first_def split: list.splits)
  then have mem: "set (r # rs) = {x \<in> set T. P x}"
    by (metis set_sort set_filter)
  then show "r \<in> set T" "P r" by auto
  have "sorted (map k (r # rs))" using rs by (metis sorted_sort_key)
  then show "\<And>r'. r' \<in> set T \<Longrightarrow> P r' \<Longrightarrow> k r \<le> k r'" using mem by auto
qed

lemma tbl_first_None_iff: "tbl_first k P T = None \<longleftrightarrow> (\<forall>r \<in> set T. \<not> P r)"
proof -
  have "tbl_first k P T = None \<longleftrightarrow> sort_key k (filter P T) = []"
    by (auto simp: tbl_first_def split: list.splits)
  also have "\<dots> \<longleftrightarrow> filter P T = []"
    by (metis length_0_conv length_sort)
  finally show ?thesis by (simp add: filter_empty_conv)
qed

section \<open>Taking a row\<close>

text \<open>
  The body of the stores' \<open>lease\<close>: select the first row that qualifies, update it by its
  id, and read it back.
\<close>

definition tbl_take ::
  "('r \<Rightarrow> 'i) \<Rightarrow> ('r \<Rightarrow> 'k::linorder) \<Rightarrow> ('r \<Rightarrow> bool) \<Rightarrow> ('r \<Rightarrow> 'r) \<Rightarrow> 'r list \<Rightarrow> 'r option \<times> 'r list" where
  "tbl_take rid k P f T =
     (case tbl_first k P T of
        None \<Rightarrow> (None, T)
      | Some r \<Rightarrow>
          let T' = tbl_update (\<lambda>x. rid x = rid r) f T in (tbl_get rid (rid r) T', T'))"

lemma tbl_take_Some:
  assumes "tbl_take rid k P f T = (Some r, T')" "\<And>x. rid (f x) = rid x"
  obtains r0 where "r0 \<in> set T" "P r0" "rid r = rid r0" "\<And>x. x \<in> set T \<Longrightarrow> P x \<Longrightarrow> k r0 \<le> k x"
    "T' = tbl_update (\<lambda>x. rid x = rid r0) f T" "r \<in> set T'"
proof (cases "tbl_first k P T")
  case None
  then have "fst (tbl_take rid k P f T) = None" by (simp add: tbl_take_def)
  then show ?thesis using assms(1) by simp
next
  case (Some r0)
  note first = tbl_first_SomeD [OF Some]
  let ?U = "tbl_update (\<lambda>x. rid x = rid r0) f T"
  have "(tbl_get rid (rid r0) ?U, ?U) = (Some r, T')"
    using assms(1) by (simp only: tbl_take_def Some option.case Let_def)
  then have U: "T' = ?U" and get: "tbl_get rid (rid r0) T' = Some r" by auto
  have "r \<in> set T'" "rid r = rid r0" using tbl_get_SomeD [OF get] by auto
  then show ?thesis using that [OF first(1,2) _ first(3) U] by blast
qed

lemma tbl_take_None:
  assumes "tbl_take rid k P f T = (None, T')" "\<And>x. rid (f x) = rid x"
  shows "T' = T" "\<And>x. x \<in> set T \<Longrightarrow> \<not> P x"
proof -
  have n: "tbl_first k P T = None"
  proof (cases "tbl_first k P T")
    case (Some r0)
    let ?U = "tbl_update (\<lambda>x. rid x = rid r0) f T"
    have "rid r0 \<in> set (map rid ?U)"
      using tbl_first_SomeD(1) [OF Some] by (simp add: tbl_update_ids assms(2))
    then have "tbl_get rid (rid r0) ?U \<noteq> None" by (simp only: tbl_get_None_iff not_not)
    moreover have "fst (tbl_take rid k P f T) = tbl_get rid (rid r0) ?U"
      by (simp only: tbl_take_def Some option.case Let_def fst_conv)
    ultimately show ?thesis using assms(1) by simp
  qed
  then show "T' = T" using assms(1) by (simp add: tbl_take_def)
  show "\<And>x. x \<in> set T \<Longrightarrow> \<not> P x" using n by (simp add: tbl_first_None_iff)
qed

lemma tbl_take_map:
  assumes "\<And>x. g (f x) = g x"
  shows "map g (snd (tbl_take rid k P f T)) = map g T"
  using assms by (simp add: tbl_take_def Let_def tbl_update_def split: option.splits)

text \<open>The queue behind the first row: taking it leaves the others in their order.\<close>

lemma sort_key_tl:
  assumes "tbl_first k P T = Some r" "distinct (map rid T)"
  shows "sort_key k (filter P T) = r # sort_key k (filter (\<lambda>x. P x \<and> rid x \<noteq> rid r) T)"
proof -
  obtain rs where rs: "sort_key k (filter P T) = r # rs"
    using assms(1) by (auto simp: tbl_first_def split: list.splits)
  have "distinct (map rid (filter P T))" using assms(2) by (simp add: distinct_map_filter)
  then have "distinct (map rid (sort_key k (filter P T)))" by (simp add: distinct_map)
  then have "distinct (map rid (r # rs))" using rs by simp
  then have "filter (\<lambda>x. rid x \<noteq> rid r) rs = rs" by (auto simp: filter_id_conv image_iff)
  moreover have "sort_key k (filter (\<lambda>x. P x \<and> rid x \<noteq> rid r) T) =
      filter (\<lambda>x. rid x \<noteq> rid r) (sort_key k (filter P T))"
    by (simp add: filter_sort conj_commute)
  ultimately show ?thesis using rs by simp
qed

text \<open>A measure over a table drops when every row's share shrinks or stays and one shrinks.\<close>

lemma sum_list_map_less:
  fixes w :: "'r \<Rightarrow> nat"
  assumes "\<And>x. x \<in> set T \<Longrightarrow> w (g x) \<le> w x" "y \<in> set T" "w (g y) < w y"
  shows "sum_list (map w (map g T)) < sum_list (map w T)"
  using assms
proof (induction T)
  case (Cons a T)
  have le: "sum_list (map w (map g T)) \<le> sum_list (map w T)"
    using Cons.prems(1) by (simp add: comp_def sum_list_mono)
  have a: "w (g a) \<le> w a" using Cons.prems(1) by simp
  show ?case
  proof (cases "y = a")
    case True
    then show ?thesis using le Cons.prems(3) by simp
  next
    case False
    then have "sum_list (map w (map g T)) < sum_list (map w T)" using Cons by simp
    then show ?thesis using a by simp
  qed
qed simp

section \<open>Optional values\<close>

text \<open>SQL's \<open>COALESCE(?, column)\<close> and Python's \<open>a or b\<close> on optional text.\<close>

definition coalesce :: "'a option \<Rightarrow> 'a option \<Rightarrow> 'a option" where
  "coalesce a b = (case a of None \<Rightarrow> b | Some v \<Rightarrow> Some v)"

lemma coalesce_simps [simp]: "coalesce None b = b" "coalesce (Some v) b = Some v"
  by (simp_all add: coalesce_def)

text \<open>Python's truth value of an optional string: \<open>None\<close> and \<open>''\<close> are false.\<close>

definition str_or_none :: "string option \<Rightarrow> string option" where
  "str_or_none s = (case s of None \<Rightarrow> None | Some t \<Rightarrow> if t = [] then None else Some t)"

section \<open>Python's \<open>str.strip\<close>, \<open>lower\<close> and decimal numerals\<close>

text \<open>The ASCII white space of \<open>str.strip\<close>: tab, line feed, vertical tab, form feed, carriage
  return, the four separators 28 to 31 and space (and 133 and 160 beyond ASCII).\<close>

definition is_space :: "char \<Rightarrow> bool" where
  "is_space c \<longleftrightarrow> of_char c \<in> {9, 10, 11, 12, 13, 28, 29, 30, 31, 32, 133, 160 :: nat}"

definition py_lstrip :: "string \<Rightarrow> string" where
  "py_lstrip s = dropWhile is_space s"

definition py_strip :: "string \<Rightarrow> string" where
  "py_strip s = rev (dropWhile is_space (rev (dropWhile is_space s)))"

definition lower_char :: "char \<Rightarrow> char" where
  "lower_char c = (let n = of_char c :: nat in
     if 65 \<le> n \<and> n \<le> 90 then char_of (n + 32) else c)"

text \<open>\<open>str.lower\<close> also maps the accented capitals up to code point 255.\<close>

definition lower_latin :: "char \<Rightarrow> char" where
  "lower_latin c = (let n = of_char c :: nat in
     if 192 \<le> n \<and> n \<le> 222 \<and> n \<noteq> 215 then char_of (n + 32) else lower_char c)"

definition py_lower :: "string \<Rightarrow> string" where
  "py_lower s = map lower_latin s"

lemma dropWhile_hd_id: "s = [] \<or> \<not> P (hd s) \<Longrightarrow> dropWhile P s = s"
  by (cases s) auto

lemma py_strip_id:
  assumes "s = [] \<or> (\<not> is_space (hd s) \<and> \<not> is_space (last s))"
  shows "py_strip s = s"
proof -
  have "dropWhile is_space s = s" using assms by (auto intro: dropWhile_hd_id)
  moreover have "dropWhile is_space (rev s) = rev s"
    using assms by (auto intro!: dropWhile_hd_id simp: hd_rev)
  ultimately show ?thesis by (simp add: py_strip_def)
qed

fun nat_digits :: "nat \<Rightarrow> string" where
  "nat_digits n =
     (if n < 10 then [char_of (n + 48)] else nat_digits (n div 10) @ [char_of (n mod 10 + 48)])"

declare nat_digits.simps [simp del]

definition int_str :: "int \<Rightarrow> string" where
  "int_str i = (if i < 0 then CHR ''-'' # nat_digits (nat (- i)) else nat_digits (nat i))"

section \<open>Lines and words\<close>

definition nl :: string where "nl = [CHR 0x0A]"

text \<open>\<open>str.splitlines\<close>.\<close>

definition line_break :: "char \<Rightarrow> bool" where
  "line_break c \<longleftrightarrow> of_char c \<in> {10, 11, 12, 13, 28, 29, 30, 133 :: nat}"

fun splitlines_from :: "string \<Rightarrow> string \<Rightarrow> string list" where
  "splitlines_from acc [] = (if acc = [] then [] else [rev acc])"
| "splitlines_from acc (c # s) =
     (if line_break c then
        rev acc # splitlines_from [] (drop (if c = CHR 0x0D \<and> take 1 s = nl then 1 else 0) s)
      else splitlines_from (c # acc) s)"

definition splitlines :: "string \<Rightarrow> string list" where "splitlines s = splitlines_from [] s"

text \<open>\<open>\\w\<close> of the regular expressions, up to code point 255.\<close>

definition word_char :: "char \<Rightarrow> bool" where
  "word_char c \<longleftrightarrow> (let n = of_char c :: nat in
     (48 \<le> n \<and> n \<le> 57) \<or> (65 \<le> n \<and> n \<le> 90) \<or> n = 95 \<or> (97 \<le> n \<and> n \<le> 122) \<or>
     n \<in> {170, 178, 179, 181, 185, 186, 188, 189, 190} \<or> (192 \<le> n \<and> n \<noteq> 215 \<and> n \<noteq> 247))"

fun py_split :: "string \<Rightarrow> string \<Rightarrow> string list" where
  "py_split run [] = (if run = [] then [] else [rev run])"
| "py_split run (c # s) =
     (if is_space c then (if run = [] then [] else [rev run]) @ py_split [] s else py_split (c # run) s)"

end
