(* ===== verification/Payload.thy ===== *)
theory Payload
  imports Prelude "HOL-Library.Multiset"
begin

text \<open>
  JSON values, as \<open>json.loads\<close> returns them and \<open>json.dumps\<close> writes them: the
  payload of an approval, of a commitment and of a webhook.  A dict is its items in insertion
  order, so \<open>sort_keys=True\<close> is a real step of the canonical form that
  \<open>approvals.payload_sha\<close> hashes.  A Python \<open>str\<close> is a list of characters here; the
  code points above 255 that a \<open>string\<close> cannot hold do not change any branch modelled.
\<close>

datatype json =
    JNull
  | JBool bool
  | JInt int
  | JReal real
  | JStr string
  | JArr "json list"
  | JObj "(string \<times> json) list"

section \<open>Reading a dict\<close>

text \<open>\<open>payload.get(key)\<close>: \<open>None\<close> and a stored \<open>null\<close> look the same to the callers.\<close>

definition dict_get :: "(string \<times> json) list \<Rightarrow> string \<Rightarrow> json" where
  "dict_get d k = (case map_of d k of None \<Rightarrow> JNull | Some v \<Rightarrow> v)"

definition jget :: "json \<Rightarrow> string \<Rightarrow> json" where
  "jget p k = (case p of JObj d \<Rightarrow> dict_get d k | _ \<Rightarrow> JNull)"

text \<open>Assignment \<open>d[key] = value\<close>: an existing key keeps its place, a new one goes last.\<close>

fun dict_set :: "(string \<times> json) list \<Rightarrow> string \<Rightarrow> json \<Rightarrow> (string \<times> json) list" where
  "dict_set [] k v = [(k, v)]"
| "dict_set ((k', v') # d) k v = (if k' = k then (k, v) # d else (k', v') # dict_set d k v)"

definition jset :: "json \<Rightarrow> string \<Rightarrow> json \<Rightarrow> json" where
  "jset p k v = (case p of JObj d \<Rightarrow> JObj (dict_set d k v) | _ \<Rightarrow> p)"

fun truthy :: "json \<Rightarrow> bool" where
  "truthy JNull = False"
| "truthy (JBool b) = b"
| "truthy (JInt i) = (i \<noteq> 0)"
| "truthy (JReal r) = (r \<noteq> 0)"
| "truthy (JStr s) = (s \<noteq> [])"
| "truthy (JArr xs) = (xs \<noteq> [])"
| "truthy (JObj d) = (d \<noteq> [])"

definition jstr :: "json \<Rightarrow> string option" where
  "jstr v = (case v of JStr s \<Rightarrow> Some s | _ \<Rightarrow> None)"

text \<open>\<open>str(payload.get(key) or "")\<close> for a text field.\<close>

definition jtext :: "json \<Rightarrow> string \<Rightarrow> string" where
  "jtext p k = (case jget p k of JStr s \<Rightarrow> s | _ \<Rightarrow> [])"

text \<open>\<open>payload.get(key) or None\<close> for a text field.\<close>

definition jtext_or_none :: "json \<Rightarrow> string \<Rightarrow> string option" where
  "jtext_or_none p k = str_or_none (jstr (jget p k))"

lemma dict_get_set: "dict_get (dict_set d k v) k' = (if k' = k then v else dict_get d k')"
  by (induction d k v rule: dict_set.induct) (auto simp: dict_get_def)

lemma jget_jset [simp]:
  "jget (jset (JObj d) k v) k' = (if k' = k then v else jget (JObj d) k')"
  by (simp add: jget_def jset_def dict_get_set)

lemma jget_non_dict [simp]:
  "jget JNull k = JNull" "jget (JStr s) k = JNull" "jget (JInt i) k = JNull"
  "jget (JBool b) k = JNull" "jget (JArr xs) k = JNull" "jget (JReal r) k = JNull"
  by (simp_all add: jget_def)

section \<open>The canonical text of a value\<close>

text \<open>
  \<open>json.dumps(payload, sort_keys=True, ensure_ascii=False, separators=(",", ":"))\<close>.
  \<open>frepr\<close> is \<open>float.__repr__\<close>.  The escapes are the ones of the C encoder: quotation
  mark, backslash, the five short ones, and \<open>\\u00XX\<close> for the other control characters.
\<close>

definition hex_digit :: "nat \<Rightarrow> char" where
  "hex_digit n = (if n < 10 then char_of (n + 48) else char_of (n + 87))"

definition esc_char :: "char \<Rightarrow> string" where
  "esc_char c = (let n = of_char c :: nat in
     if n = 34 then [CHR 0x5C, CHR 0x22]
     else if n = 92 then [CHR 0x5C, CHR 0x5C]
     else if n = 10 then [CHR 0x5C, CHR ''n'']
     else if n = 13 then [CHR 0x5C, CHR ''r'']
     else if n = 9 then [CHR 0x5C, CHR ''t'']
     else if n = 8 then [CHR 0x5C, CHR ''b'']
     else if n = 12 then [CHR 0x5C, CHR ''f'']
     else if n < 32 then
       [CHR 0x5C, CHR ''u'', CHR ''0'', CHR ''0'', hex_digit (n div 16), hex_digit (n mod 16)]
     else [c])"

definition quote_json :: "string \<Rightarrow> string" where
  "quote_json s = CHR 0x22 # concat (map esc_char s) @ [CHR 0x22]"

fun join :: "string \<Rightarrow> string list \<Rightarrow> string" where
  "join sep [] = []"
| "join sep [x] = x"
| "join sep (x # y # zs) = x @ sep @ join sep (y # zs)"

fun canonical :: "(real \<Rightarrow> string) \<Rightarrow> json \<Rightarrow> string" where
  "canonical frepr JNull = ''null''"
| "canonical frepr (JBool b) = (if b then ''true'' else ''false'')"
| "canonical frepr (JInt i) = int_str i"
| "canonical frepr (JReal r) = frepr r"
| "canonical frepr (JStr s) = quote_json s"
| "canonical frepr (JArr xs) = ''['' @ join '','' (map (canonical frepr) xs) @ '']''"
| "canonical frepr (JObj d) =
     ''{'' @ join '',''
       (map (\<lambda>(k, s). quote_json k @ '':'' @ s)
         (sort_key fst (map (\<lambda>(k, v). (k, canonical frepr v)) d))) @ ''}''"

text \<open>Two dicts with the same items, whatever their order, have one canonical text.\<close>

lemma sort_key_perm_eq:
  assumes "mset xs = mset ys" "distinct (map fst xs)"
  shows "sort_key fst xs = sort_key fst ys"
  by (rule sort_key_inj_key_eq) (use assms in \<open>auto simp: distinct_map dest: mset_eq_setD\<close>)

lemma canonical_key_order:
  assumes "mset d = mset d'" "distinct (map fst d)"
  shows "canonical fr (JObj d) = canonical fr (JObj d')"
proof -
  let ?f = "\<lambda>(k, v). (k, canonical fr v)"
  have ms: "mset (map ?f d) = mset (map ?f d')" using assms(1) by simp
  have "map fst (map ?f e) = map fst e" for e by (induction e) auto
  then have "distinct (map fst (map ?f d))" using assms(2) by metis
  then show ?thesis by (simp only: canonical.simps sort_key_perm_eq [OF ms])
qed

end
