(* ===== verification/Schema.thy ===== *)
theory Schema
  imports Payload
begin

text \<open>
  The household's SQLite file: one record per table of
  \<open>hermes_cloud/core/migrations/*.sql\<close>, in the shape the stores' dataclasses read it
  (\<open>Event.from_row\<close>, \<open>Effect.from_row\<close>, \<dots>), and the record \<open>db\<close> of all
  tables.  Every store of \<open>hermes_cloud\<close> works on this one file, which is what makes a
  claim and the journal entry it writes one transaction.

  Columns with a closed set of values are datatypes with the source's constants; other text
  columns are strings.  The message texts of the source are Russian literals: the model
  carries an ASCII tag for each (\<open>''TEXT_GONE''\<close>), never its wording.
\<close>

section \<open>Ingress\<close>

datatype event_status = Ev_received | Ev_processing | Ev_done | Ev_failed | Ev_dlq

record event =
  ev_id :: uid
  ev_source :: string
  ev_external_id :: string
  ev_context_key :: "string option"
  ev_raw :: string
  ev_received_at :: time
  ev_status :: event_status
  ev_attempts :: nat
  ev_lease_until :: "time option"
  ev_leased_by :: "string option"
  ev_last_error :: "string option"
  ev_updated_at :: time

section \<open>Approvals and effects\<close>

datatype effect_status = Ef_pending | Ef_done | Ef_failed | Ef_outcome_unknown

record effect =
  ef_id :: uid
  ef_run_id :: string
  ef_tool_use_id :: string
  ef_kind :: string
  ef_approval_id :: "uid option"
  ef_payload_sha :: "string option"
  ef_status :: effect_status
  ef_result :: "string option"
  ef_error :: "string option"
  ef_attempts :: nat
  ef_lease_until :: "time option"
  ef_created_at :: time
  ef_updated_at :: time

datatype approval_status =
  Ap_staged | Ap_claimed | Ap_executing | Ap_done | Ap_failed | Ap_cancelled | Ap_expired

record approval =
  ap_id :: uid
  ap_event_id :: "uid option"
  ap_kind :: string
  ap_payload :: json
  ap_payload_sha :: string
  ap_code_sha :: string
  ap_chat :: string
  ap_thread :: "int option"
  ap_context_key :: "string option"
  ap_actor :: string
  ap_claimed_by :: "string option"
  ap_status :: approval_status
  ap_last_error :: "string option"
  ap_receipt :: "string option"
  ap_created_at :: time
  ap_expires_at :: time
  ap_updated_at :: time

record attempt =
  at_id :: uid
  at_actor :: string
  at_chat :: string
  at_attempted_at :: time

datatype reminder_status = Re_pending | Re_delivering | Re_done | Re_cancelled

record reminder =
  re_id :: uid
  re_approval_id :: "uid option"
  re_chat :: string
  re_thread :: "int option"
  re_text :: string
  re_due_at :: time
  re_status :: reminder_status
  re_lease_until :: "time option"
  re_attempts :: nat
  re_created_at :: time
  re_updated_at :: time

section \<open>Ontology\<close>

record extraction_run =
  er_id :: uid
  er_event_id :: "uid option"
  er_model :: string
  er_prompt_sha :: string
  er_input_tokens :: nat
  er_output_tokens :: nat
  er_created_at :: time

record evidence_ref =
  rf_id :: uid
  rf_run_id :: uid
  rf_event_id :: "uid option"
  rf_sender_domain :: "string option"
  rf_message_date :: "string option"
  rf_content_sha :: string
  rf_span_start :: "int option"
  rf_span_end :: "int option"
  rf_created_at :: time

datatype fact_status = Candidate | Confirmed | Rejected | Superseded

record commitment =
  co_id :: uid
  co_run_id :: "uid option"
  co_kind :: string
  co_payload :: json
  co_status :: fact_status
  co_supersedes :: "uid option"
  co_confidence :: "real option"
  co_observed_at :: "time option"
  co_recorded_at :: time
  co_approval_id :: "uid option"
  co_reminder_id :: "uid option"
  co_calendar_event_id :: "string option"
  co_updated_at :: time

record statement =
  me_id :: uid
  me_kind :: string
  me_subject :: "string option"
  me_text :: string
  me_status :: fact_status
  me_supersedes :: "uid option"
  me_run_id :: "uid option"
  me_actor :: "string option"
  me_approval_id :: "uid option"
  me_observed_at :: "time option"
  me_recorded_at :: time
  me_valid_from :: "time option"
  me_valid_to :: "time option"
  me_updated_at :: time

section \<open>Email identity, delivery and webhook journal\<close>

datatype binding_state = Bs_active | Bs_superseded | Bs_needs_attention | Bs_deleted

record email_binding_row =
  eb_identity_id :: string
  eb_revision :: int
  eb_provider :: string
  eb_address :: string
  eb_provider_ref :: "string option"
  eb_secret_names :: "string list"
  eb_state :: binding_state
  eb_activated_at :: time
  eb_updated_at :: time

datatype send_state = Se_pending | Se_accepted | Se_failed | Se_outcome_unknown

record email_send =
  es_effect_id :: uid
  es_approval_id :: uid
  es_identity_id :: string
  es_revision :: int
  es_request_sha256 :: string
  es_state :: send_state
  es_message_id :: string
  es_provider_ref :: "string option"
  es_error_code :: "string option"
  es_created_at :: time
  es_updated_at :: time

record delivery_row =
  dr_effect_id :: uid
  dr_approval_id :: uid
  dr_message_id :: string
  dr_provider_ref :: "string option"
  dr_state :: send_state
  dr_accepted_at :: "time option"
  dr_reconciled_at :: "time option"
  dr_created_at :: time
  dr_updated_at :: time

record ingress_receipt =
  ir_id :: uid
  ir_identity_id :: "string option"
  ir_revision :: "int option"
  ir_source :: string
  ir_provider_event_id :: string
  ir_message_id :: "string option"
  ir_content_sha256 :: string
  ir_event_id :: uid
  ir_received_at :: time
  ir_created_at :: time

datatype nerve_state = Nv_queued | Nv_processing | Nv_materialized | Nv_diverted | Nv_dlq

record nerve_event =
  nv_id :: uid
  nv_identity_id :: string
  nv_revision :: int
  nv_org_id :: string
  nv_inbox_id :: string
  nv_thread_id :: string
  nv_message_id :: string
  nv_attachment_count :: int
  nv_payload :: string
  nv_payload_sha256 :: string
  nv_signature_sha256 :: string
  nv_webhook_timestamp :: int
  nv_state :: nerve_state
  nv_attempts :: nat
  nv_lease_until :: "time option"
  nv_leased_by :: "string option"
  nv_canonical_event_id :: "uid option"
  nv_last_error_code :: "string option"
  nv_received_at :: time
  nv_updated_at :: time

record nerve_signature =
  ns_signature_sha256 :: string
  ns_event_id :: uid
  ns_seen_at :: time

record nerve_attachment =
  na_id :: uid
  na_event_id :: uid
  na_message_id :: string
  na_attachment_id :: string
  na_filename :: string
  na_content_type :: string
  na_expected_size :: "int option"
  na_actual_size :: int
  na_content_sha256 :: string
  na_content :: string
  na_retention_until :: time
  na_created_at :: time

datatype credential_state = Cr_unknown | Cr_valid | Cr_revoked

record nerve_health =
  nh_identity_id :: string
  nh_revision :: int
  nh_last_webhook_at :: "time option"
  nh_last_materialized_at :: "time option"
  nh_credential_state :: credential_state
  nh_last_error_code :: "string option"
  nh_updated_at :: time

datatype forwarding_status = Fw_pending | Fw_active | Fw_stale

record forwarding_row =
  fw_identity_id :: string
  fw_revision :: int
  fw_state :: forwarding_status
  fw_confirmation_link :: "string option"
  fw_confirmation_at :: "time option"
  fw_confirmation_shown_at :: "time option"
  fw_last_letter_at :: "time option"
  fw_last_check_at :: "time option"
  fw_created_at :: time
  fw_updated_at :: time
  fw_check_sent_at :: "time option"
  fw_check_token :: "string option"
  fw_check_seen_token :: "string option"
  fw_miss_counted :: bool
  fw_misses :: nat
  fw_check_requested_at :: "time option"
  fw_stale_since :: "time option"
  fw_stale_notified_at :: "time option"
  fw_check_attempts :: nat

record usage_row =
  us_household_id :: string
  us_day :: string
  us_prompt_tokens :: int
  us_completion_tokens :: int
  us_usd_estimate :: real
  us_updated_at :: time

record channel_state =
  cs_key :: string
  cs_value :: string
  cs_updated_at :: time

section \<open>The file\<close>

text \<open>
  \<open>jobs\<close>, \<open>oauth_grants\<close> and \<open>email_sync_state\<close> are written by code outside the
  modelled components; they appear by primary key because \<open>wipe_household\<close> empties them.
\<close>

record db =
  t_events :: "event list"
  t_jobs :: "uid list"
  t_effects :: "effect list"
  t_approvals :: "approval list"
  t_attempts :: "attempt list"
  t_reminders :: "reminder list"
  t_channel_state :: "channel_state list"
  t_runs :: "extraction_run list"
  t_refs :: "evidence_ref list"
  t_commitments :: "commitment list"
  t_memory :: "statement list"
  t_bindings :: "email_binding_row list"
  t_receipts :: "ingress_receipt list"
  t_oauth_grants :: "(string \<times> int) list"
  t_sync_state :: "(string \<times> int) list"
  t_sends :: "email_send list"
  t_deliveries :: "delivery_row list"
  t_nerve_events :: "nerve_event list"
  t_nerve_signatures :: "nerve_signature list"
  t_nerve_attachments :: "nerve_attachment list"
  t_nerve_health :: "nerve_health list"
  t_forwarding :: "forwarding_row list"
  t_usage :: "usage_row list"

definition empty_db :: db where
  "empty_db = \<lparr>t_events = [], t_jobs = [], t_effects = [], t_approvals = [], t_attempts = [],
     t_reminders = [], t_channel_state = [], t_runs = [], t_refs = [], t_commitments = [],
     t_memory = [], t_bindings = [], t_receipts = [], t_oauth_grants = [], t_sync_state = [],
     t_sends = [], t_deliveries = [], t_nerve_events = [], t_nerve_signatures = [],
     t_nerve_attachments = [], t_nerve_health = [], t_forwarding = [], t_usage = []\<rparr>"

lemma empty_db_sel [simp]:
  "t_events empty_db = []" "t_jobs empty_db = []" "t_effects empty_db = []"
  "t_approvals empty_db = []" "t_attempts empty_db = []" "t_reminders empty_db = []"
  "t_channel_state empty_db = []" "t_runs empty_db = []" "t_refs empty_db = []"
  "t_commitments empty_db = []" "t_memory empty_db = []" "t_bindings empty_db = []"
  "t_receipts empty_db = []" "t_sends empty_db = []" "t_deliveries empty_db = []"
  "t_nerve_events empty_db = []" "t_nerve_signatures empty_db = []"
  "t_nerve_attachments empty_db = []" "t_nerve_health empty_db = []"
  "t_forwarding empty_db = []" "t_usage empty_db = []"
  by (simp_all add: empty_db_def)

end
