(* ===== verification/Dsar.thy ===== *)
theory Dsar
  imports Schema
begin

text \<open>
  \<open>hermes_cloud/core/dsar.py\<close>: export and erasure of a household.  A query of the
  export is a parameter: \<open>q table\<close> lists the rows of a table as functions from columns to
  values.  \<open>fr\<close> is \<open>float.__repr__\<close>.
\<close>

section \<open>Export\<close>

definition EXPORTED :: "(string \<times> string list) list" where
  "EXPORTED =
    [(''events'', [''id'', ''source'', ''external_id'', ''context_key'', ''received_at'',
       ''status'', ''raw'']),
     (''approvals'', [''id'', ''event_id'', ''kind'', ''payload'', ''chat'', ''thread'', ''actor'',
       ''claimed_by'', ''status'', ''created_at'', ''expires_at'', ''receipt'', ''last_error'']),
     (''effects'', [''id'', ''run_id'', ''tool_use_id'', ''kind'', ''approval_id'', ''status'',
       ''result'', ''error'', ''attempts'', ''created_at'', ''updated_at'']),
     (''reminders'', [''id'', ''approval_id'', ''chat'', ''thread'', ''text'', ''due_at'',
       ''status'', ''attempts'', ''created_at'', ''updated_at'']),
     (''extraction_runs'', [''id'', ''event_id'', ''model'', ''prompt_sha'', ''input_tokens'',
       ''output_tokens'', ''created_at'']),
     (''evidence_refs'', [''id'', ''extraction_run_id'', ''event_id'', ''sender_domain'',
       ''message_date'', ''content_sha'', ''span_start'', ''span_end'', ''created_at'']),
     (''commitments'', [''id'', ''extraction_run_id'', ''kind'', ''payload'', ''status'',
       ''supersedes'', ''confidence'', ''observed_at'', ''recorded_at'', ''approval_id'',
       ''reminder_id'', ''calendar_event_id'', ''updated_at'']),
     (''memory_statements'', [''id'', ''kind'', ''subject'', ''text'', ''status'', ''supersedes'',
       ''extraction_run_id'', ''actor'', ''approval_id'', ''observed_at'', ''recorded_at'',
       ''valid_from'', ''valid_to'', ''updated_at'']),
     (''jobs'', [''id'', ''event_id'', ''kind'', ''payload'', ''run_at'', ''status'', ''created_at'']),
     (''email_bindings'', [''identity_id'', ''revision'', ''provider'', ''address'',
       ''provider_ref'', ''state'', ''activated_at'', ''updated_at'']),
     (''email_ingress_receipts'', [''id'', ''binding_identity_id'', ''binding_revision'',
       ''source'', ''provider_event_id'', ''canonical_message_id'', ''content_sha256'',
       ''event_id'', ''state'', ''received_at'', ''created_at'']),
     (''email_sync_state'', [''binding_identity_id'', ''binding_revision'', ''cursor'',
       ''connected_at'', ''last_success_at'', ''backoff_until'', ''health'', ''updated_at'']),
     (''gmail_forwarding_state'', [''binding_identity_id'', ''binding_revision'', ''state'',
       ''confirmation_at'', ''confirmation_shown_at'', ''last_letter_at'', ''last_check_at'',
       ''last_check_sent_at'', ''misses'', ''check_requested_at'', ''stale_since'',
       ''stale_notified_at'', ''created_at'', ''updated_at'']),
     (''email_sends'', [''effect_id'', ''approval_id'', ''binding_identity_id'',
       ''binding_revision'', ''request_sha256'', ''state'', ''message_id'', ''provider_ref'',
       ''error_code'', ''created_at'', ''updated_at'']),
     (''email_delivery_receipts'', [''effect_id'', ''approval_id'', ''message_id'',
       ''provider_ref'', ''state'', ''accepted_at'', ''reconciled_at'', ''created_at'',
       ''updated_at'']),
     (''nerve_webhook_events'', [''id'', ''binding_identity_id'', ''binding_revision'', ''org_id'',
       ''inbox_id'', ''thread_id'', ''message_id'', ''attachment_count'', ''payload'',
       ''payload_sha256'', ''state'', ''attempts'', ''canonical_event_id'', ''last_error_code'',
       ''received_at'', ''updated_at'']),
     (''nerve_attachments'', [''id'', ''nerve_event_id'', ''message_id'',
       ''provider_attachment_id'', ''filename'', ''content_type'', ''actual_size'',
       ''content_sha256'', ''classification'', ''content'', ''retention_until'', ''created_at'']),
     (''nerve_runtime_health'', [''binding_identity_id'', ''binding_revision'',
       ''last_webhook_at'', ''last_materialized_at'', ''credential_state'', ''last_error_code'',
       ''updated_at''])]"

definition NOT_EXPORTED :: "string list" where
  "NOT_EXPORTED = [''schema_migrations'', ''channel_state'', ''approval_attempts'',
     ''oauth_grants'', ''nerve_webhook_signatures'', ''usage_daily'']"

definition export_household ::
  "(string \<Rightarrow> (string \<Rightarrow> json) list) \<Rightarrow> (string \<times> (string \<times> json) list list) list" where
  "export_household q = map (\<lambda>(table, columns). (table, map (\<lambda>row. map (\<lambda>c. (c, row c)) columns)
     (q table))) EXPORTED"

section \<open>Erasure\<close>

definition wipe_order :: "(string \<times> (db \<Rightarrow> nat) \<times> (db \<Rightarrow> db)) list" where
  "wipe_order =
    [(''nerve_attachments'', \<lambda>d. length (t_nerve_attachments d), \<lambda>d. d\<lparr>t_nerve_attachments := []\<rparr>),
     (''nerve_webhook_signatures'', \<lambda>d. length (t_nerve_signatures d), \<lambda>d. d\<lparr>t_nerve_signatures := []\<rparr>),
     (''nerve_webhook_events'', \<lambda>d. length (t_nerve_events d), \<lambda>d. d\<lparr>t_nerve_events := []\<rparr>),
     (''nerve_runtime_health'', \<lambda>d. length (t_nerve_health d), \<lambda>d. d\<lparr>t_nerve_health := []\<rparr>),
     (''email_delivery_receipts'', \<lambda>d. length (t_deliveries d), \<lambda>d. d\<lparr>t_deliveries := []\<rparr>),
     (''email_sends'', \<lambda>d. length (t_sends d), \<lambda>d. d\<lparr>t_sends := []\<rparr>),
     (''email_ingress_receipts'', \<lambda>d. length (t_receipts d), \<lambda>d. d\<lparr>t_receipts := []\<rparr>),
     (''oauth_grants'', \<lambda>d. length (t_oauth_grants d), \<lambda>d. d\<lparr>t_oauth_grants := []\<rparr>),
     (''gmail_forwarding_state'', \<lambda>d. length (t_forwarding d), \<lambda>d. d\<lparr>t_forwarding := []\<rparr>),
     (''email_sync_state'', \<lambda>d. length (t_sync_state d), \<lambda>d. d\<lparr>t_sync_state := []\<rparr>),
     (''email_bindings'', \<lambda>d. length (t_bindings d), \<lambda>d. d\<lparr>t_bindings := []\<rparr>),
     (''evidence_refs'', \<lambda>d. length (t_refs d), \<lambda>d. d\<lparr>t_refs := []\<rparr>),
     (''extraction_runs'', \<lambda>d. length (t_runs d), \<lambda>d. d\<lparr>t_runs := []\<rparr>),
     (''effects'', \<lambda>d. length (t_effects d), \<lambda>d. d\<lparr>t_effects := []\<rparr>),
     (''commitments'', \<lambda>d. length (t_commitments d), \<lambda>d. d\<lparr>t_commitments := []\<rparr>),
     (''memory_statements'', \<lambda>d. length (t_memory d), \<lambda>d. d\<lparr>t_memory := []\<rparr>),
     (''reminders'', \<lambda>d. length (t_reminders d), \<lambda>d. d\<lparr>t_reminders := []\<rparr>),
     (''approval_attempts'', \<lambda>d. length (t_attempts d), \<lambda>d. d\<lparr>t_attempts := []\<rparr>),
     (''approvals'', \<lambda>d. length (t_approvals d), \<lambda>d. d\<lparr>t_approvals := []\<rparr>),
     (''jobs'', \<lambda>d. length (t_jobs d), \<lambda>d. d\<lparr>t_jobs := []\<rparr>),
     (''events'', \<lambda>d. length (t_events d), \<lambda>d. d\<lparr>t_events := []\<rparr>),
     (''channel_state'', \<lambda>d. length (t_channel_state d), \<lambda>d. d\<lparr>t_channel_state := []\<rparr>),
     (''usage_daily'', \<lambda>d. length (t_usage d), \<lambda>d. d\<lparr>t_usage := []\<rparr>)]"

fun wipe_tables :: "(string \<times> (db \<Rightarrow> nat) \<times> (db \<Rightarrow> db)) list \<Rightarrow> db \<Rightarrow> (string \<times> nat) list \<times> db" where
  "wipe_tables [] d = ([], d)"
| "wipe_tables ((table, size_of, clear) # rest) d =
     (let (removed, d') = wipe_tables rest (clear d) in ((table, size_of d) # removed, d'))"

text \<open>\<open>INSERT INTO channel_state ... ON CONFLICT (key) DO UPDATE\<close>.\<close>

definition channel_put :: "string \<Rightarrow> string \<Rightarrow> time \<Rightarrow> db \<Rightarrow> db" where
  "channel_put k v now d =
     (let row = \<lparr>cs_key = k, cs_value = v, cs_updated_at = now\<rparr>
      in if find (\<lambda>r. cs_key r = k) (t_channel_state d) = None
         then d\<lparr>t_channel_state := t_channel_state d @ [row]\<rparr>
         else d\<lparr>t_channel_state := tbl_update (\<lambda>r. cs_key r = k) (\<lambda>r. row) (t_channel_state d)\<rparr>)"

definition tombstone_key :: string where "tombstone_key = ''household_deleted_at''"

definition wipe_household :: "(real \<Rightarrow> string) \<Rightarrow> time \<Rightarrow> db \<Rightarrow> (string \<times> nat) list \<times> db" where
  "wipe_household fr now d =
     (let (removed, d') = wipe_tables wipe_order d
      in (removed, channel_put tombstone_key (fr now) now d'))"

definition is_deleted :: "db \<Rightarrow> bool" where
  "is_deleted d \<longleftrightarrow> find (\<lambda>r. cs_key r = tombstone_key) (t_channel_state d) \<noteq> None"

section \<open>Lemmas\<close>

lemma wipe_tables_db: "snd (wipe_tables rest d) = fold (\<lambda>(t, n, clear). clear) rest d"
  by (induction rest d rule: wipe_tables.induct) (auto split: prod.splits)

lemma wipe_tables_names: "map fst (fst (wipe_tables rest d)) = map fst rest"
  by (induction rest d rule: wipe_tables.induct) (auto split: prod.splits)

lemma wipe_tables_all: "\<exists>removed. wipe_tables wipe_order d = (removed, empty_db) \<and>
    map fst removed = map fst wipe_order"
proof -
  obtain removed d' where w: "wipe_tables wipe_order d = (removed, d')" by fastforce
  have "snd (wipe_tables wipe_order d) = empty_db"
    by (simp add: wipe_tables_db wipe_order_def empty_db_def)
  then show ?thesis using w wipe_tables_names [of wipe_order d] by simp
qed

lemma wipe_names: "map fst wipe_order = [''nerve_attachments'', ''nerve_webhook_signatures'',
      ''nerve_webhook_events'', ''nerve_runtime_health'', ''email_delivery_receipts'',
      ''email_sends'', ''email_ingress_receipts'', ''oauth_grants'', ''gmail_forwarding_state'',
      ''email_sync_state'', ''email_bindings'', ''evidence_refs'', ''extraction_runs'',
      ''effects'', ''commitments'', ''memory_statements'', ''reminders'', ''approval_attempts'',
      ''approvals'', ''jobs'', ''events'', ''channel_state'', ''usage_daily'']"
  by (simp add: wipe_order_def)

lemma wipe_names_distinct: "distinct (map fst wipe_order)"
  unfolding wipe_names by code_simp

lemma tables_covered: "set (map fst EXPORTED) \<union> set NOT_EXPORTED =
    insert ''schema_migrations'' (set (map fst wipe_order))"
  unfolding wipe_names by code_simp

definition hidden_columns :: "string list" where
  "hidden_columns = [''code_sha'', ''payload_sha'', ''signature_sha256'', ''secret_names_json'',
     ''encrypted_refresh_credential'', ''confirmation_link'', ''check_token'', ''leased_by'']"

lemma columns_public: "list_all (\<lambda>(t, cs). list_all (\<lambda>c. c \<notin> set hidden_columns) cs) EXPORTED"
  by code_simp

section \<open>Properties\<close>

text \<open>
  Erasure.  Whatever the household's file held, after \<open>wipe_household\<close> it is an empty
  file with the tombstone, the household counts as deleted, and the report names every table
  once, in the source's order.
\<close>

theorem wipe_leaves_only_the_tombstone:
  "snd (wipe_household fr now d) = empty_db\<lparr>t_channel_state :=
     [\<lparr>cs_key = ''household_deleted_at'', cs_value = fr now, cs_updated_at = now\<rparr>]\<rparr> \<and>
   is_deleted (snd (wipe_household fr now d)) \<and>
   map fst (fst (wipe_household fr now d)) = map fst wipe_order \<and>
   distinct (map fst wipe_order)"
proof -
  obtain removed where w: "wipe_tables wipe_order d = (removed, empty_db)"
    "map fst removed = map fst wipe_order" using wipe_tables_all by blast
  then have "wipe_household fr now d = (removed, empty_db\<lparr>t_channel_state :=
      [\<lparr>cs_key = ''household_deleted_at'', cs_value = fr now, cs_updated_at = now\<rparr>]\<rparr>)"
    by (simp add: wipe_household_def channel_put_def tombstone_key_def Let_def)
  then show ?thesis
    using w(2) wipe_names_distinct by (simp add: is_deleted_def tombstone_key_def)
qed

text \<open>
  Export.  The tables that are exported and those declared as not exported are disjoint,
  and together they are the tables the erasure empties and the table of schema versions: no
  table is forgotten by one of the two.  Hashes of codes, replay digests, secret names and
  one-time links are columns of no exported table.
\<close>

theorem export_and_erasure_cover_the_same_tables:
  "map fst (export_household q) = map fst EXPORTED \<and>
   set (map fst EXPORTED) \<inter> set NOT_EXPORTED = {} \<and>
   set (map fst EXPORTED) \<union> set NOT_EXPORTED = insert ''schema_migrations'' (set (map fst wipe_order)) \<and>
   (\<Union>(t, columns) \<in> set EXPORTED. set columns) \<inter> set hidden_columns = {}"
proof -
  have "map fst (export_household q) = map fst EXPORTED"
    by (auto simp: export_household_def)
  moreover have "set (map fst EXPORTED) \<inter> set NOT_EXPORTED = {}" by code_simp
  moreover have "(\<Union>(t, columns) \<in> set EXPORTED. set columns) \<inter> set hidden_columns = {}"
    using columns_public by (fastforce simp: list_all_iff)
  ultimately show ?thesis using tables_covered by (intro conjI)
qed

end
