(* ===== verification/Interfaces.thy ===== *)
theory Interfaces
  imports Prelude
begin

text \<open>
  The three contracts the stores share, as locales with the lemmas their clients rest on:
  \<open>lease_queue\<close> (work is taken under a lease, never twice at once), \<open>insert_once\<close>
  (the first insert under a key wins, whatever happens in between) and \<open>version_store\<close>
  (statements link to the version they supersede).  Each is interpreted in the theory of every
  store that promises it.
\<close>

section \<open>Leases\<close>

text \<open>A worker's calls of \<open>lease\<close> at the given times, and the rows it was given.\<close>

fun take_all :: "(time \<Rightarrow> 'q \<Rightarrow> 'r option \<times> 'q) \<Rightarrow> time list \<Rightarrow> 'q \<Rightarrow> 'r list \<times> 'q" where
  "take_all tk [] q = ([], q)"
| "take_all tk (t # ts) q =
     (let (r, q1) = tk t q; (rs, q2) = take_all tk ts q1
      in ((case r of None \<Rightarrow> rs | Some x \<Rightarrow> x # rs), q2))"

locale lease_queue =
  fixes rid :: "'r \<Rightarrow> uid"
    and held :: "time \<Rightarrow> 'r \<Rightarrow> bool"
    and tk :: "time \<Rightarrow> time \<Rightarrow> 'r list \<Rightarrow> 'r option \<times> 'r list"
  assumes tk_none: "tk s now T = (None, T') \<Longrightarrow> T' = T"
    and tk_ids: "tk s now T = (res, T') \<Longrightarrow> map rid T' = map rid T"
    and tk_free: "tk s now T = (Some r, T') \<Longrightarrow> \<exists>r0 \<in> set T. rid r0 = rid r \<and> \<not> held now r0"
    and tk_held: "tk s now T = (Some r, T') \<Longrightarrow> x \<in> set T' \<Longrightarrow> rid x = rid r \<Longrightarrow>
      distinct (map rid T) \<Longrightarrow> u < now + s \<Longrightarrow> held u x"
    and tk_others: "tk s now T = (Some r, T') \<Longrightarrow> x \<in> set T' \<Longrightarrow> rid x \<noteq> rid r \<Longrightarrow> x \<in> set T"
begin

text \<open>Two rows given within one lease span are different rows.\<close>

lemma exclusive_gen:
  assumes "distinct (map rid T)"
    and "\<And>x u. x \<in> set T \<Longrightarrow> rid x \<in> H \<Longrightarrow> u < t0 + s \<Longrightarrow> held u x"
    and "\<And>t. t \<in> set ts \<Longrightarrow> t0 \<le> t \<and> t < t0 + s"
  shows "distinct (map rid (fst (take_all (tk s) ts T))) \<and>
    rid ` set (fst (take_all (tk s) ts T)) \<inter> H = {}"
  using assms
proof (induction ts arbitrary: T H)
  case Nil
  then show ?case by simp
next
  case (Cons t ts)
  obtain res T1 where t1: "tk s t T = (res, T1)" by fastforce
  obtain rs T2 where t2: "take_all (tk s) ts T1 = (rs, T2)" by fastforce
  have d1: "distinct (map rid T1)" using tk_ids [OF t1] Cons.prems(1) by simp
  show ?case
  proof (cases res)
    case None
    then have "T1 = T" using t1 tk_none by blast
    then show ?thesis using Cons.IH [of T H] Cons.prems t1 t2 None by simp
  next
    case (Some r)
    have now: "t0 \<le> t" "t < t0 + s" using Cons.prems(3) by auto
    obtain r0 where r0: "r0 \<in> set T" "rid r0 = rid r" "\<not> held t r0"
      using tk_free t1 Some by blast
    have notH: "rid r \<notin> H" using Cons.prems(2) [of r0 t] r0 now by auto
    have inv: "held u x" if "x \<in> set T1" "rid x \<in> insert (rid r) H" "u < t0 + s" for x u
    proof (cases "rid x = rid r")
      case True
      then show ?thesis using tk_held [of s t T r T1 x u] t1 Some that now Cons.prems(1) by simp
    next
      case False
      then show ?thesis using tk_others [of s t T r T1 x] t1 Some that Cons.prems(2) by auto
    qed
    have "distinct (map rid rs) \<and> rid ` set rs \<inter> insert (rid r) H = {}"
      using Cons.IH [of T1 "insert (rid r) H"] d1 inv Cons.prems(3) t2 by force
    then show ?thesis using t1 t2 Some notH by auto
  qed
qed

lemma exclusive:
  assumes "distinct (map rid T)"
    and "\<And>t. t \<in> set ts \<Longrightarrow> t0 \<le> t \<and> t < t0 + s"
  shows "distinct (map rid (fst (take_all (tk s) ts T)))"
  using exclusive_gen [of T "{}" t0 s ts] assms by simp

lemma take_all_ids: "map rid (snd (take_all (tk s) ts T)) = map rid T"
proof (induction ts arbitrary: T)
  case (Cons t ts)
  obtain res T1 where "tk s t T = (res, T1)" by fastforce
  then show ?case using Cons.IH [of T1] tk_ids by (auto simp: Let_def split: prod.splits)
qed simp

end

section \<open>First insert wins\<close>

text \<open>
  A run of a keyed table: \<open>Inl a\<close> asks for an insert, \<open>Inr o\<close> is any other operation
  of the store.  The trace lists, per insert, whether the store reported a new row.
\<close>

fun put_trace :: "('a \<Rightarrow> 't \<Rightarrow> bool \<times> 't) \<Rightarrow> ('o \<Rightarrow> 't \<Rightarrow> 't) \<Rightarrow> ('a + 'o) list \<Rightarrow> 't \<Rightarrow>
    ('a \<times> bool) list" where
  "put_trace put other [] T = []"
| "put_trace put other (Inl a # xs) T =
     (let (b, T') = put a T in (a, b) # put_trace put other xs T')"
| "put_trace put other (Inr x # xs) T = put_trace put other xs (other x T)"

locale insert_once =
  fixes keys :: "'t \<Rightarrow> 'k set"
    and key_of :: "'a \<Rightarrow> 'k"
    and put :: "'a \<Rightarrow> 't \<Rightarrow> bool \<times> 't"
    and other :: "'o \<Rightarrow> 't \<Rightarrow> 't"
  assumes put_new: "put a T = (True, T') \<Longrightarrow> key_of a \<notin> keys T"
    and put_stored: "put a T = (True, T') \<Longrightarrow> key_of a \<in> keys T'"
    and put_keeps: "put a T = (b, T') \<Longrightarrow> keys T \<subseteq> keys T'"
    and other_keeps: "keys T \<subseteq> keys (other x T)"
begin

lemma no_second:
  "k \<in> keys T \<Longrightarrow> (a, True) \<in> set (put_trace put other xs T) \<Longrightarrow> key_of a \<noteq> k"
proof (induction xs arbitrary: T)
  case (Cons x xs)
  show ?case
  proof (cases x)
    case (Inl c)
    obtain b T' where p: "put c T = (b, T')" by fastforce
    have "k \<in> keys T'" using put_keeps [OF p] Cons.prems(1) by blast
    moreover have "(a, True) = (c, b) \<or> (a, True) \<in> set (put_trace put other xs T')"
      using Cons.prems(2) Inl p by simp
    ultimately show ?thesis using Cons.IH put_new [of c T T'] p Cons.prems(1) by auto
  next
    case (Inr y)
    have "k \<in> keys (other y T)" using other_keeps Cons.prems(1) by blast
    then show ?thesis using Cons.IH Cons.prems(2) Inr by simp
  qed
qed simp

lemma at_most_once:
  "length (filter (\<lambda>(a, b). b \<and> key_of a = k) (put_trace put other xs T)) \<le> 1"
proof (induction xs arbitrary: T)
  case (Cons x xs)
  show ?case
  proof (cases x)
    case (Inl a)
    obtain b T' where p: "put a T = (b, T')" by fastforce
    show ?thesis
    proof (cases "b \<and> key_of a = k")
      case True
      then have "k \<in> keys T'" using put_stored [of a T T'] p by auto
      then have "filter (\<lambda>(a, b). b \<and> key_of a = k) (put_trace put other xs T') = []"
        using no_second by (fastforce simp: filter_empty_conv)
      then show ?thesis using Inl p by simp
    next
      case False
      then show ?thesis using Inl p Cons.IH [of T'] by auto
    qed
  next
    case (Inr y)
    then show ?thesis using Cons.IH by simp
  qed
qed simp

end

section \<open>Versions\<close>

text \<open>
  The walk both \<open>CommitmentStore.chain\<close> and \<open>MemoryStore.chain\<close> make from a row back
  along \<open>supersedes\<close>: it stops at a row without a predecessor, at a dangling reference, and
  at a row already seen.
\<close>

definition prev_version :: "('r \<Rightarrow> uid) \<Rightarrow> ('r \<Rightarrow> uid option) \<Rightarrow> 'r list \<Rightarrow> 'r \<Rightarrow> 'r option" where
  "prev_version rid prv T r =
     (case prv r of None \<Rightarrow> None | Some s \<Rightarrow> if s = [] then None else tbl_get rid s T)"

function walk :: "('r \<Rightarrow> uid) \<Rightarrow> ('r \<Rightarrow> uid option) \<Rightarrow> 'r list \<Rightarrow> uid list \<Rightarrow> 'r option \<Rightarrow> 'r list" where
  "walk rid prv T seen None = []"
| "walk rid prv T seen (Some r) =
     (if rid r \<in> set seen then []
      else r # walk rid prv T (rid r # seen) (prev_version rid prv T r))"
  by pat_completeness auto
termination
proof (relation "measure (\<lambda>(rid, prv, T, seen, cur).
    card (set (map rid T) - set seen) +
    (case cur of None \<Rightarrow> 0 | Some r \<Rightarrow> if rid r \<in> set (map rid T) then 0 else 1))", goal_cases)
  case 1
  then show ?case by simp
next
  case (2 rid prv T seen r)
  let ?I = "set (map rid T)"
  have nxt: "(case prev_version rid prv T r of None \<Rightarrow> 0
      | Some r' \<Rightarrow> if rid r' \<in> ?I then 0 else 1) = (0::nat)"
    by (auto simp: prev_version_def split: option.splits if_splits dest!: tbl_get_SomeD)
  show ?case
  proof (cases "rid r \<in> ?I")
    case True
    then have "?I - set (rid r # seen) \<subset> ?I - set seen" using 2 by auto
    then have "card (?I - set (rid r # seen)) < card (?I - set seen)"
      by (intro psubset_card_mono) auto
    then show ?thesis using nxt True by simp
  next
    case False
    then have "?I - set (rid r # seen) = ?I - set seen" by auto
    then show ?thesis using nxt False by simp
  qed
qed

definition chain_of :: "('r \<Rightarrow> uid) \<Rightarrow> ('r \<Rightarrow> uid option) \<Rightarrow> 'r list \<Rightarrow> uid \<Rightarrow> 'r list" where
  "chain_of rid prv T i = rev (walk rid prv T [] (tbl_get rid i T))"

lemma walk_not_seen: "x \<in> set (walk rid prv T seen cur) \<Longrightarrow> rid x \<notin> set seen"
  by (induction rid prv T seen cur rule: walk.induct) (auto split: if_splits)

lemma walk_distinct: "distinct (map rid (walk rid prv T seen cur))"
  by (induction rid prv T seen cur rule: walk.induct) (auto dest: walk_not_seen)

lemma prev_version_mem: "prev_version rid prv T r = Some p \<Longrightarrow> p \<in> set T \<and> prv r = Some (rid p)"
  by (auto simp: prev_version_def split: option.splits if_splits dest: tbl_get_SomeD)

lemma walk_mem:
  "x \<in> set (walk rid prv T seen cur) \<Longrightarrow> cur = Some r \<Longrightarrow> r \<in> set T \<Longrightarrow> x \<in> set T"
proof (induction rid prv T seen cur arbitrary: r rule: walk.induct)
  case (2 rid prv T seen r')
  then show ?case
    by (cases "prev_version rid prv T r'") (auto split: if_splits dest: prev_version_mem)
qed simp

text \<open>Every row refers only to rows inserted before it.\<close>

fun wf_from :: "('r \<Rightarrow> uid) \<Rightarrow> ('r \<Rightarrow> uid option) \<Rightarrow> uid list \<Rightarrow> 'r list \<Rightarrow> bool" where
  "wf_from rid prv seen [] = True"
| "wf_from rid prv seen (r # T) =
     ((case prv r of None \<Rightarrow> True | Some s \<Rightarrow> s \<in> set seen) \<and> rid r \<notin> set seen \<and>
      wf_from rid prv (rid r # seen) T)"

definition wf_versions :: "('r \<Rightarrow> uid) \<Rightarrow> ('r \<Rightarrow> uid option) \<Rightarrow> 'r list \<Rightarrow> bool" where
  "wf_versions rid prv T = wf_from rid prv [] T"

lemma wf_from_append:
  "wf_from rid prv seen (T @ U) \<longleftrightarrow>
     wf_from rid prv seen T \<and> wf_from rid prv (rev (map rid T) @ seen) U"
  by (induction T arbitrary: seen) auto

lemma wf_from_distinct:
  "wf_from rid prv seen T \<Longrightarrow> distinct (map rid T) \<and> set (map rid T) \<inter> set seen = {}"
  by (induction rid prv seen T rule: wf_from.induct) auto

lemma wf_versions_distinct: "wf_versions rid prv T \<Longrightarrow> distinct (map rid T)"
  by (simp add: wf_versions_def wf_from_distinct)

lemma wf_from_cols:
  "map (\<lambda>r. (rid r, prv r)) T = map (\<lambda>r. (rid r, prv r)) U \<Longrightarrow>
     wf_from rid prv seen T = wf_from rid prv seen U"
proof (induction T arbitrary: U seen)
  case (Cons r T)
  then obtain r' U' where "U = r' # U'" "rid r = rid r'" "prv r = prv r'"
    "map (\<lambda>r. (rid r, prv r)) T = map (\<lambda>r. (rid r, prv r)) U'"
    by (cases U) auto
  then show ?case using Cons.IH by simp
qed simp

lemma wf_versions_split:
  assumes "wf_versions rid prv (xs @ r # ys)" "prv r = Some s"
  shows "s \<in> set (map rid xs)"
  using assms by (auto simp: wf_versions_def wf_from_append)

lemma wf_versions_snoc:
  "wf_versions rid prv (T @ [r]) \<longleftrightarrow>
     wf_versions rid prv T \<and> rid r \<notin> set (map rid T) \<and>
     (\<forall>s. prv r = Some s \<longrightarrow> s \<in> set (map rid T))"
  by (auto simp: wf_versions_def wf_from_append split: option.splits)

text \<open>On such a table the walk ends at a first version, not at a repeated row.\<close>

lemma walk_root:
  assumes "wf_versions rid prv T" "T = xs @ r # ys" "set seen \<inter> set (map rid (xs @ [r])) = {}"
    and "\<And>x. x \<in> set T \<Longrightarrow> prv x \<noteq> Some []"
  shows "prv (last (walk rid prv T seen (Some r))) = None"
  using assms
proof (induction "length xs" arbitrary: xs r ys seen rule: less_induct)
  case less
  have fresh: "rid r \<notin> set seen" using less.prems(3) by auto
  show ?case
  proof (cases "prev_version rid prv T r")
    case None
    have "prv r = None"
    proof (rule ccontr)
      assume "prv r \<noteq> None"
      then obtain s where s: "prv r = Some s" by blast
      have "s \<in> set (map rid xs)"
        using wf_versions_split less.prems(1,2) s by metis
      then have "tbl_get rid s T \<noteq> None" by (auto simp: tbl_get_None_iff less.prems(2))
      moreover have "s \<noteq> []" using less.prems(2,4) s by auto
      ultimately show False using None s by (simp add: prev_version_def)
    qed
    then show ?thesis using None fresh by simp
  next
    case (Some p)
    have p: "p \<in> set T" "prv r = Some (rid p)" using prev_version_mem [OF Some] by auto
    have "rid p \<in> set (map rid xs)" using p wf_versions_split less.prems(1,2) by metis
    then obtain q where q: "q \<in> set xs" "rid q = rid p" by auto
    then have "p = q"
      using p(1) distinct_same_row [OF wf_versions_distinct [OF less.prems(1)], of p q]
        less.prems(2) by simp
    then have "p \<in> set xs" using q by simp
    then obtain us vs where xs: "xs = us @ p # vs" by (meson split_list)
    have d: "distinct (map rid T)" using less.prems(1) by (rule wf_versions_distinct)
    have "prv (last (walk rid prv T (rid r # seen) (Some p))) = None"
      using less.prems d xs by (intro less.hyps [of us _ "vs @ r # ys"]) auto
    moreover have "rid p \<noteq> rid r" "rid p \<notin> set seen"
      using less.prems(2,3) d xs by auto
    ultimately show ?thesis using Some fresh by simp
  qed
qed

lemma chain_of_root:
  assumes "wf_versions rid prv T" "i \<in> set (map rid T)"
    and "\<And>x. x \<in> set T \<Longrightarrow> prv x \<noteq> Some []"
  shows "chain_of rid prv T i \<noteq> [] \<and> prv (hd (chain_of rid prv T i)) = None \<and>
    rid (last (chain_of rid prv T i)) = i"
proof -
  obtain r where r: "tbl_get rid i T = Some r" using tbl_get_ex [OF assms(2)] by blast
  have mem: "r \<in> set T" "rid r = i" using tbl_get_SomeD [OF r] by auto
  from mem(1) obtain xs ys where "T = xs @ r # ys" by (meson split_list)
  then have "prv (last (walk rid prv T [] (Some r))) = None"
    using walk_root assms by (metis inf_bot_left list.set(1))
  moreover have "walk rid prv T [] (Some r) \<noteq> []" "hd (walk rid prv T [] (Some r)) = r"
    by simp_all
  ultimately show ?thesis
    using r mem(2) by (simp only: chain_of_def hd_rev last_rev rev_is_Nil_conv simp_thms)
qed

section \<open>The newest version\<close>

partial_function (option) latest_from ::
  "('r \<Rightarrow> uid) \<Rightarrow> ('r \<Rightarrow> uid option) \<Rightarrow> ('r \<Rightarrow> time) \<Rightarrow> 'r list \<Rightarrow> 'r \<Rightarrow> 'r option" where
  "latest_from rid prv rec T r =
     (case tbl_first rec (\<lambda>x. prv x = Some (rid r)) T of
        None \<Rightarrow> Some r
      | Some n \<Rightarrow> latest_from rid prv rec T n)"

lemma next_is_later:
  assumes wf: "wf_versions rid prv T" and T: "T = xs @ r # ys" "T = xs' @ n # ys'"
    and n: "prv n = Some (rid r)"
  shows "length xs < length xs'"
proof -
  have "rid r \<in> set (map rid xs')" using wf_versions_split wf T(2) n by metis
  then obtain j where j: "j < length xs'" "rid (xs' ! j) = rid r"
    by (auto simp: in_set_conv_nth)
  have len: "j < length T" using j(1) arg_cong [OF T(2), of length] by simp
  have len': "length xs < length T" using T(1) by simp
  have "map rid T ! j = map rid T ! length xs"
    using j len len' T by (metis (no_types, lifting) nth_append nth_append_length nth_map)
  then have "j = length xs"
    using nth_eq_iff_index_eq [of "map rid T" j "length xs"] wf_versions_distinct [OF wf] len len'
    by simp
  then show ?thesis using j by simp
qed

lemma latest_from_terminates:
  assumes "wf_versions rid prv T" "r \<in> set T"
  shows "\<exists>n. latest_from rid prv rec T r = Some n \<and> n \<in> set T \<and>
    (\<forall>x \<in> set T. prv x \<noteq> Some (rid n))"
proof -
  obtain xs ys where "T = xs @ r # ys" using assms(2) by (meson split_list)
  then show ?thesis
  proof (induction "length ys" arbitrary: xs r ys rule: less_induct)
    case less
    show ?case
    proof (cases "tbl_first rec (\<lambda>x. prv x = Some (rid r)) T")
      case None
      then have "latest_from rid prv rec T r = Some r" by (simp add: latest_from.simps)
      moreover have "r \<in> set T" using less.prems by simp
      ultimately show ?thesis using None by (auto simp: tbl_first_None_iff)
    next
      case (Some n)
      then have n: "n \<in> set T" "prv n = Some (rid r)" using tbl_first_SomeD by fast+
      then obtain us vs where T': "T = us @ n # vs" by (meson split_list)
      have "length xs < length us"
        using next_is_later [OF assms(1) less.prems T' n(2)] .
      then have "length vs < length ys"
        using arg_cong [OF less.prems, of length] arg_cong [OF T', of length] by simp
      then show ?thesis
        using less.hyps [OF _ T'] Some by (subst latest_from.simps) simp
    qed
  qed
qed

text \<open>
  A store of versioned statements: its operations change no id and no \<open>supersedes\<close> link,
  except that a proposal appends one row under a new id whose link, if any, exists.
\<close>

definition appends_version ::
  "('r \<Rightarrow> uid) \<Rightarrow> ('r \<Rightarrow> uid option) \<Rightarrow> 'r list \<Rightarrow> 'r list \<Rightarrow> bool" where
  "appends_version rid prv T T' \<longleftrightarrow>
     (let cols = map (\<lambda>r. (rid r, prv r)) in
      cols T' = cols T \<or>
      (\<exists>n s. cols T' = cols T @ [(n, s)] \<and> n \<notin> set (map rid T) \<and>
         (\<forall>p. s = Some p \<longrightarrow> p \<in> set (map rid T))))"

locale version_store =
  fixes rid :: "'r \<Rightarrow> uid"
    and prv :: "'r \<Rightarrow> uid option"
    and enabled :: "'o \<Rightarrow> 'r list \<Rightarrow> bool"
    and step :: "'o \<Rightarrow> 'r list \<Rightarrow> 'r list"
  assumes step_version: "enabled x T \<Longrightarrow> appends_version rid prv T (step x T)"
begin

inductive reachable_versions :: "'r list \<Rightarrow> bool" where
  "reachable_versions []"
| "reachable_versions T \<Longrightarrow> enabled x T \<Longrightarrow> reachable_versions (step x T)"

lemma step_wf:
  assumes "wf_versions rid prv T" "enabled x T"
  shows "wf_versions rid prv (step x T)"
proof -
  have "appends_version rid prv T (step x T)" using assms(2) by (rule step_version)
  then consider "map (\<lambda>r. (rid r, prv r)) (step x T) = map (\<lambda>r. (rid r, prv r)) T"
    | n s where "map (\<lambda>r. (rid r, prv r)) (step x T) = map (\<lambda>r. (rid r, prv r)) T @ [(n, s)]"
        "n \<notin> set (map rid T)" "\<forall>p. s = Some p \<longrightarrow> p \<in> set (map rid T)"
    by (auto simp: appends_version_def Let_def)
  then show ?thesis
  proof cases
    case 1
    then show ?thesis using assms(1) wf_from_cols by (metis wf_versions_def)
  next
    case 2
    then have "step x T \<noteq> []" by auto
    then obtain U r where U: "step x T = U @ [r]" by (meson rev_exhaust)
    then have cols: "map (\<lambda>r. (rid r, prv r)) U = map (\<lambda>r. (rid r, prv r)) T"
      "rid r = n" "prv r = s" using 2(1) by auto
    have "map rid U = map rid T"
      using arg_cong [OF cols(1), of "map fst"] by (simp add: comp_def)
    moreover have "wf_versions rid prv U"
      using assms(1) wf_from_cols [OF cols(1)] by (simp add: wf_versions_def)
    ultimately show ?thesis using 2(2,3) U cols by (simp add: wf_versions_snoc)
  qed
qed

lemma reachable_wf: "reachable_versions T \<Longrightarrow> wf_versions rid prv T"
  by (induction rule: reachable_versions.induct) (simp add: wf_versions_def, rule step_wf)

end

end
