(* ===== verification/Events.thy ===== *)
theory Events
  imports Dsar Interfaces
begin

text \<open>
  \<open>hermes_cloud/core/events.py\<close> and \<open>hermes_cloud/ingest/worker.py\<close>: durable ingress.
  An event is accepted once per external id, worked on under a lease, one event of a thread at a
  time, and after too many failed attempts it waits in the DLQ.  The primary key of
  \<open>events\<close> refuses an id that is already there; the handler of the worker is a parameter
  that may change the file and may raise.
\<close>

section \<open>The event store\<close>

definition default_lease_seconds :: time where "default_lease_seconds = 5 * 60"

definition default_max_attempts :: nat where "default_max_attempts = 5"

datatype event_error = Household_deleted | Id_not_unique | Key_error uid | Assertion_failed

definition events_get :: "uid \<Rightarrow> db \<Rightarrow> event option" where
  "events_get i d = tbl_get ev_id i (t_events d)"

definition events_by_external_id :: "string \<Rightarrow> db \<Rightarrow> event option" where
  "events_by_external_id x d = tbl_get ev_external_id x (t_events d)"

definition events_append ::
  "uid \<Rightarrow> string \<Rightarrow> string \<Rightarrow> string \<Rightarrow> string option \<Rightarrow> time \<Rightarrow> db \<Rightarrow>
   (event_error + event \<times> bool) \<times> db" where
  "events_append nid source external_id raw context_key now d =
     (if is_deleted d then (Inl Household_deleted, d)
      else case write_tx (\<lambda>d.
             if external_id \<in> set (map ev_external_id (t_events d)) then (Inr (), d)
             else if nid \<in> set (map ev_id (t_events d)) then (Inl Id_not_unique, d)
             else (Inr (), d\<lparr>t_events := t_events d @
               [\<lparr>ev_id = nid, ev_source = source, ev_external_id = external_id,
                 ev_context_key = context_key, ev_raw = raw, ev_received_at = now,
                 ev_status = Ev_received, ev_attempts = 0, ev_lease_until = None,
                 ev_leased_by = None, ev_last_error = None, ev_updated_at = now\<rparr>]\<rparr>)) d of
        (Inl e, d1) \<Rightarrow> (Inl e, d1)
      | (Inr _, d1) \<Rightarrow>
          (case events_by_external_id external_id d1 of
             None \<Rightarrow> (Inl Assertion_failed, d1)
           | Some e \<Rightarrow> (Inr (e, ev_id e = nid), d1)))"

text \<open>A lease that is still running.  A lease without an end compares as false in SQL.\<close>

definition event_live :: "time \<Rightarrow> event \<Rightarrow> bool" where
  "event_live now e \<longleftrightarrow> ev_status e = Ev_processing \<and>
     (case ev_lease_until e of None \<Rightarrow> False | Some l \<Rightarrow> now < l)"

definition event_available :: "time \<Rightarrow> event list \<Rightarrow> event \<Rightarrow> bool" where
  "event_available now T e \<longleftrightarrow>
     (ev_status e = Ev_received \<or> ev_status e = Ev_processing \<and>
        (case ev_lease_until e of None \<Rightarrow> False | Some l \<Rightarrow> l \<le> now)) \<and>
     (ev_context_key e = None \<or> ev_context_key e \<notin> ev_context_key ` {x \<in> set T. event_live now x})"

definition events_take :: "string \<Rightarrow> time \<Rightarrow> time \<Rightarrow> event list \<Rightarrow> event option \<times> event list" where
  "events_take worker s now T =
     tbl_take ev_id (\<lambda>e. (ev_received_at e, ev_id e)) (event_available now T)
       (\<lambda>e. e\<lparr>ev_status := Ev_processing, ev_lease_until := Some (now + s),
               ev_leased_by := Some worker, ev_updated_at := now\<rparr>) T"

definition events_lease :: "string \<Rightarrow> time \<Rightarrow> time \<Rightarrow> db \<Rightarrow> event option \<times> db" where
  "events_lease worker s now d =
     (let (r, T) = events_take worker s now (t_events d) in (r, d\<lparr>t_events := T\<rparr>))"

definition events_set :: "uid \<Rightarrow> (event \<Rightarrow> event) \<Rightarrow> db \<Rightarrow> db" where
  "events_set i f d = d\<lparr>t_events := tbl_update (\<lambda>e. ev_id e = i) f (t_events d)\<rparr>"

definition mark_done :: "uid \<Rightarrow> time \<Rightarrow> db \<Rightarrow> db" where
  "mark_done i now = events_set i (\<lambda>e. e\<lparr>ev_status := Ev_done, ev_lease_until := None,
     ev_leased_by := None, ev_last_error := None, ev_updated_at := now\<rparr>)"

definition mark_failed ::
  "uid \<Rightarrow> string \<Rightarrow> nat \<Rightarrow> time \<Rightarrow> db \<Rightarrow> (event_error + event) \<times> db" where
  "mark_failed i err max_attempts now d =
     (case write_tx (\<lambda>d.
         case events_get i d of
           None \<Rightarrow> (Inl (Key_error i), d)
         | Some r \<Rightarrow>
             let attempts = ev_attempts r + 1;
                 status = (if attempts \<ge> max_attempts then Ev_dlq else Ev_received)
             in (Inr (), events_set i (\<lambda>e. e\<lparr>ev_status := status, ev_attempts := attempts,
                   ev_last_error := Some (take 2000 err), ev_lease_until := None,
                   ev_leased_by := None, ev_updated_at := now\<rparr>) d)) d of
        (Inl e, d1) \<Rightarrow> (Inl e, d1)
      | (Inr _, d1) \<Rightarrow>
          (case events_get i d1 of None \<Rightarrow> (Inl Assertion_failed, d1) | Some e \<Rightarrow> (Inr e, d1)))"

definition replay :: "uid \<Rightarrow> time \<Rightarrow> db \<Rightarrow> (event_error + event) \<times> db" where
  "replay i now d =
     (case write_tx (\<lambda>d.
         let d1 = events_set i (\<lambda>e. e\<lparr>ev_status := Ev_received, ev_attempts := 0,
               ev_last_error := None, ev_lease_until := None, ev_leased_by := None,
               ev_updated_at := now\<rparr>) d
         in if tbl_count (\<lambda>e. ev_id e = i) (t_events d) = 0 then (Inl (Key_error i), d1)
            else (Inr (), d1)) d of
        (Inl e, d1) \<Rightarrow> (Inl e, d1)
      | (Inr _, d1) \<Rightarrow>
          (case events_get i d1 of None \<Rightarrow> (Inl Assertion_failed, d1) | Some e \<Rightarrow> (Inr e, d1)))"

definition event_counts :: "db \<Rightarrow> event_status \<Rightarrow> nat option" where
  "event_counts d st =
     (let n = tbl_count (\<lambda>e. ev_status e = st) (t_events d) in if n = 0 then None else Some n)"

definition dead_letters :: "nat \<Rightarrow> db \<Rightarrow> event list" where
  "dead_letters limit d = take limit (sort_key (\<lambda>e. - ev_updated_at e)
     (filter (\<lambda>e. ev_status e = Ev_dlq) (t_events d)))"

section \<open>The worker\<close>

type_synonym handler = "event \<Rightarrow> db \<Rightarrow> ((string \<times> string) + unit) \<times> db"

record processed =
  pr_event :: event
  pr_ok :: bool
  pr_error :: "string option"

text \<open>\<open>run_once\<close>: the handler's exception, its type and its text, is data of the event.\<close>

definition run_once ::
  "handler \<Rightarrow> string \<Rightarrow> time \<Rightarrow> nat \<Rightarrow> time \<Rightarrow> db \<Rightarrow> (event_error + processed option) \<times> db" where
  "run_once handler worker s max_attempts now d =
     (case events_lease worker s now d of
        (None, d1) \<Rightarrow> (Inr None, d1)
      | (Some e, d1) \<Rightarrow>
          (case handler e d1 of
             (Inl (kind, msg), d2) \<Rightarrow>
               (case mark_failed (ev_id e) (kind @ '': '' @ msg) max_attempts now d2 of
                  (Inl x, d3) \<Rightarrow> (Inl x, d3)
                | (Inr u, d3) \<Rightarrow> (Inr (Some \<lparr>pr_event = u, pr_ok = False, pr_error = Some msg\<rparr>), d3))
           | (Inr _, d2) \<Rightarrow>
               (let d3 = mark_done (ev_id e) now d2
                in case events_get (ev_id e) d3 of
                     None \<Rightarrow> (Inl Assertion_failed, d3)
                   | Some u \<Rightarrow> (Inr (Some \<lparr>pr_event = u, pr_ok = True, pr_error = None\<rparr>), d3))))"

fun drain ::
  "handler \<Rightarrow> string \<Rightarrow> time \<Rightarrow> nat \<Rightarrow> time \<Rightarrow> nat \<Rightarrow> db \<Rightarrow> (event_error + processed list) \<times> db" where
  "drain handler worker s m now 0 d = (Inr [], d)"
| "drain handler worker s m now (Suc limit) d =
     (case run_once handler worker s m now d of
        (Inl x, d1) \<Rightarrow> (Inl x, d1)
      | (Inr None, d1) \<Rightarrow> (Inr [], d1)
      | (Inr (Some p), d1) \<Rightarrow>
          (case drain handler worker s m now limit d1 of
             (Inl x, d2) \<Rightarrow> (Inl x, d2)
           | (Inr ps, d2) \<Rightarrow> (Inr (p # ps), d2)))"

section \<open>Histories of the store\<close>

record append_request =
  aq_id :: uid
  aq_source :: string
  aq_external_id :: string
  aq_raw :: string
  aq_context_key :: "string option"
  aq_now :: time

text \<open>
  \<open>new_id\<close> is \<open>uuid4\<close>, which never returns an id that is already in the table: a
  request with such an id does not occur and is skipped.
\<close>

definition try_append :: "append_request \<Rightarrow> db \<Rightarrow> bool \<times> db" where
  "try_append q d =
     (if aq_id q \<in> set (map ev_id (t_events d)) then (False, d)
      else case events_append (aq_id q) (aq_source q) (aq_external_id q) (aq_raw q)
             (aq_context_key q) (aq_now q) d of
        (Inr (e, created), d') \<Rightarrow> (created, d')
      | (Inl x, d') \<Rightarrow> (False, d'))"

datatype event_op =
    Lease string time time
  | Mark_done uid time
  | Mark_failed uid string nat time
  | Replay uid time

fun event_op_time :: "event_op \<Rightarrow> time" where
  "event_op_time (Lease w s now) = now"
| "event_op_time (Mark_done i now) = now"
| "event_op_time (Mark_failed i e m now) = now"
| "event_op_time (Replay i now) = now"

fun event_step :: "event_op \<Rightarrow> db \<Rightarrow> db" where
  "event_step (Lease w s now) d = snd (events_lease w s now d)"
| "event_step (Mark_done i now) d = mark_done i now d"
| "event_step (Mark_failed i e m now) d = snd (mark_failed i e m now d)"
| "event_step (Replay i now) d = snd (replay i now d)"

fun events_run :: "(append_request + event_op) list \<Rightarrow> db \<Rightarrow> db" where
  "events_run [] d = d"
| "events_run (Inl q # xs) d = events_run xs (snd (try_append q d))"
| "events_run (Inr x # xs) d = events_run xs (event_step x d)"

definition event_ids :: "db \<Rightarrow> uid list" where
  "event_ids d = map ev_id (t_events d)"

text \<open>What of an event never changes: id, source, external id, thread, content and time.\<close>

definition letter :: "event \<Rightarrow> uid \<times> string \<times> string \<times> string option \<times> string \<times> time" where
  "letter e = (ev_id e, ev_source e, ev_external_id e, ev_context_key e, ev_raw e, ev_received_at e)"

section \<open>Lemmas\<close>

lemma letter_update [simp]:
  "(\<And>e. letter (f e) = letter e) \<Longrightarrow> map letter (tbl_update P f T) = map letter T"
  by (simp add: tbl_update_def)

lemma events_take_letters: "map letter (snd (events_take w s now T)) = map letter T"
  unfolding events_take_def by (rule tbl_take_map) (simp add: letter_def)

lemma letters_cols:
  assumes "map letter T' = map letter T"
  shows "map ev_id T' = map ev_id T" "map ev_external_id T' = map ev_external_id T"
proof -
  have "map ev_id U = map fst (map letter U)" "map ev_external_id U = map (fst \<circ> snd \<circ> snd) (map letter U)" for U
    by (simp_all add: letter_def)
  then show "map ev_id T' = map ev_id T" "map ev_external_id T' = map ev_external_id T"
    using assms by metis+
qed

lemma events_take_Some:
  assumes "events_take w s now T = (Some r, T')"
  obtains r0 where "r0 \<in> set T" "event_available now T r0" "ev_id r = ev_id r0"
    "\<And>x. x \<in> set T \<Longrightarrow> event_available now T x \<Longrightarrow> (ev_received_at r0, ev_id r0) \<le> (ev_received_at x, ev_id x)"
    "T' = tbl_update (\<lambda>e. ev_id e = ev_id r0) (\<lambda>e. e\<lparr>ev_status := Ev_processing,
        ev_lease_until := Some (now + s), ev_leased_by := Some w, ev_updated_at := now\<rparr>) T"
    "r \<in> set T'"
  using assms unfolding events_take_def by (rule tbl_take_Some) auto

lemma events_take_None:
  assumes "events_take w s now T = (None, T')"
  shows "T' = T" "\<And>x. x \<in> set T \<Longrightarrow> \<not> event_available now T x"
  using tbl_take_None [OF assms [unfolded events_take_def]] by auto

lemma available_not_live: "event_available now T e \<Longrightarrow> \<not> event_live now e"
  by (cases "ev_lease_until e") (auto simp: event_available_def event_live_def)

text \<open>Leases of the event store keep the contract of \<open>lease_queue\<close>.\<close>

interpretation events: lease_queue ev_id event_live "events_take w"
proof unfold_locales
  fix s now T res T' r x u
  show "T' = T" if "events_take w s now T = (None, T')" using that by (rule events_take_None)
  show "map ev_id T' = map ev_id T" if "events_take w s now T = (res, T')"
    using letters_cols(1) [OF events_take_letters] that by (metis snd_conv)
  show "\<exists>r0 \<in> set T. ev_id r0 = ev_id r \<and> \<not> event_live now r0"
    if "events_take w s now T = (Some r, T')"
    by (rule events_take_Some [OF that]) (use available_not_live in auto)
  show "event_live u x" if "events_take w s now T = (Some r, T')" "x \<in> set T'" "ev_id x = ev_id r"
    "distinct (map ev_id T)" "u < now + s"
    by (rule events_take_Some [OF that(1)])
      (use that(2-) in \<open>auto simp: event_live_def set_tbl_update\<close>)
  show "x \<in> set T" if "events_take w s now T = (Some r, T')" "x \<in> set T'" "ev_id x \<noteq> ev_id r"
    by (rule events_take_Some [OF that(1)]) (use that(2,3) in \<open>auto simp: set_tbl_update\<close>)
qed

lemma events_set_letters:
  "(\<And>e. letter (f e) = letter e) \<Longrightarrow> map letter (t_events (events_set i f d)) = map letter (t_events d)"
  by (simp add: events_set_def)

lemma events_lease_db: "events_lease w s now d =
    (fst (events_take w s now (t_events d)), d\<lparr>t_events := snd (events_take w s now (t_events d))\<rparr>)"
  by (simp add: events_lease_def split: prod.splits)

lemma event_step_letters: "map letter (t_events (event_step x d)) = map letter (t_events d)"
  by (cases x) (auto simp: events_lease_db events_take_letters mark_done_def mark_failed_def
      replay_def write_tx_def events_set_letters letter_def Let_def
      split: prod.splits option.splits sum.splits)

lemma append_cases:
  obtains (refused) x where "events_append nid src ext raw ctx now d = (Inl x, d)"
  | (known) e where "e \<in> set (t_events d)" "ev_external_id e = ext"
      "events_append nid src ext raw ctx now d = (Inr (e, ev_id e = nid), d)"
  | (fresh) e where "ext \<notin> set (map ev_external_id (t_events d))" "nid \<notin> set (map ev_id (t_events d))"
      "letter e = (nid, src, ext, ctx, raw, now)" "ev_status e = Ev_received" "ev_attempts e = 0"
      "events_append nid src ext raw ctx now d = (Inr (e, True), d\<lparr>t_events := t_events d @ [e]\<rparr>)"
proof -
  consider (deleted) "is_deleted d"
    | (known) "\<not> is_deleted d" "ext \<in> set (map ev_external_id (t_events d))"
    | (taken) "\<not> is_deleted d" "ext \<notin> set (map ev_external_id (t_events d))"
        "nid \<in> set (map ev_id (t_events d))"
    | (new) "\<not> is_deleted d" "ext \<notin> set (map ev_external_id (t_events d))"
        "nid \<notin> set (map ev_id (t_events d))" by blast
  then show thesis
  proof cases
    case deleted
    then show thesis by (intro refused) (simp add: events_append_def)
  next
    case known
    then obtain e where e: "tbl_get ev_external_id ext (t_events d) = Some e" using tbl_get_ex by metis
    then have "events_append nid src ext raw ctx now d = (Inr (e, ev_id e = nid), d)"
      using known by (simp add: events_append_def write_tx_def events_by_external_id_def)
    then show thesis using that(2) tbl_get_SomeD [OF e] by blast
  next
    case taken
    then show thesis by (intro refused) (simp add: events_append_def write_tx_def)
  next
    case new
    let ?e = "\<lparr>ev_id = nid, ev_source = src, ev_external_id = ext, ev_context_key = ctx, ev_raw = raw,
      ev_received_at = now, ev_status = Ev_received, ev_attempts = 0, ev_lease_until = None,
      ev_leased_by = None, ev_last_error = None, ev_updated_at = now\<rparr>"
    have "tbl_get ev_external_id ext (t_events d) = None" using new(2) by (simp add: tbl_get_None_iff)
    then have "events_append nid src ext raw ctx now d = (Inr (?e, True), d\<lparr>t_events := t_events d @ [?e]\<rparr>)"
      using new by (simp add: events_append_def write_tx_def events_by_external_id_def
          tbl_get_append tbl_get_Cons)
    then show thesis using that(3) [of ?e] new by (simp add: letter_def)
  qed
qed

lemma try_append_cases:
  obtains (same) "try_append q d = (False, d)"
  | (fresh) e where "try_append q d = (True, d\<lparr>t_events := t_events d @ [e]\<rparr>)"
      "aq_external_id q \<notin> set (map ev_external_id (t_events d))" "aq_id q \<notin> set (map ev_id (t_events d))"
      "ev_external_id e = aq_external_id q" "ev_id e = aq_id q" "ev_status e = Ev_received"
      "ev_attempts e = 0"
proof (cases "aq_id q \<in> set (map ev_id (t_events d))")
  case True
  then show thesis by (intro same) (simp add: try_append_def)
next
  case False
  show thesis
  proof (cases rule: append_cases [of "aq_id q" "aq_source q" "aq_external_id q" "aq_raw q"
        "aq_context_key q" "aq_now q" d])
    case (refused x)
    then show thesis by (intro same) (simp add: try_append_def)
  next
    case (known e)
    have "ev_id e \<noteq> aq_id q" using False known(1) by (metis image_eqI list.set_map)
    then show thesis using known by (intro same) (simp add: try_append_def)
  next
    case (fresh e)
    then show thesis using that(2) [of e] by (auto simp: try_append_def letter_def)
  qed
qed

lemma event_step_ext: "map ev_external_id (t_events (event_step x d)) = map ev_external_id (t_events d)"
  by (rule letters_cols(2) [OF event_step_letters])

text \<open>Accepting an event is first-come: the contract of \<open>insert_once\<close>.\<close>

interpretation ingress: insert_once "\<lambda>d. set (map ev_external_id (t_events d))" aq_external_id
  try_append event_step
proof unfold_locales
  fix q d d' b x
  show "aq_external_id q \<notin> set (map ev_external_id (t_events d))" if "try_append q d = (True, d')"
    by (cases rule: try_append_cases [of q d]) (use that in auto)
  show "aq_external_id q \<in> set (map ev_external_id (t_events d'))" if "try_append q d = (True, d')"
    by (cases rule: try_append_cases [of q d]) (use that in auto)
  show "set (map ev_external_id (t_events d)) \<subseteq> set (map ev_external_id (t_events d'))"
    if "try_append q d = (b, d')"
    by (cases rule: try_append_cases [of q d]) (use that in auto)
  show "set (map ev_external_id (t_events d)) \<subseteq> set (map ev_external_id (t_events (event_step x d)))"
    by (simp only: event_step_ext order_refl)
qed

lemma events_run_letters:
  "\<exists>U. map letter (t_events (events_run xs d)) = map letter (t_events d) @ U"
proof (induction xs d rule: events_run.induct)
  case (2 q xs d)
  have "\<exists>V. map letter (t_events (snd (try_append q d))) = map letter (t_events d) @ V"
    by (cases rule: try_append_cases [of q d]) auto
  then show ?case using 2 by fastforce
next
  case (3 x xs d)
  then show ?case by (simp add: event_step_letters)
qed simp

text \<open>One live lease per thread.\<close>

definition serial_at :: "time \<Rightarrow> db \<Rightarrow> bool" where
  "serial_at t d \<longleftrightarrow> distinct (map ev_id (t_events d)) \<and>
     (\<forall>x \<in> set (t_events d). \<forall>y \<in> set (t_events d). event_live t x \<longrightarrow> event_live t y \<longrightarrow>
        ev_context_key x = ev_context_key y \<longrightarrow> ev_context_key x \<noteq> None \<longrightarrow> x = y)"

lemma event_live_mono: "event_live u e \<Longrightarrow> t \<le> u \<Longrightarrow> event_live t e"
  by (auto simp: event_live_def split: option.splits)

lemma serial_mono: "serial_at t d \<Longrightarrow> t \<le> u \<Longrightarrow> serial_at u d"
  using event_live_mono by (fastforce simp: serial_at_def)

lemma serial_set:
  assumes "serial_at t d" "\<And>e. letter (f e) = letter e" "\<And>e. \<not> event_live t (f e)"
  shows "serial_at t (events_set i f d)"
proof -
  have "map ev_id (t_events (events_set i f d)) = map ev_id (t_events d)"
    using letters_cols(1) [OF events_set_letters [of f]] assms(2) by blast
  then show ?thesis
    using assms(1,3) by (auto simp: serial_at_def events_set_def set_tbl_update split: if_splits)
qed

lemma serial_lease:
  assumes "serial_at now d"
  shows "serial_at now (snd (events_lease w s now d))"
proof -
  let ?T = "t_events d"
  obtain res T' where t: "events_take w s now ?T = (res, T')" by fastforce
  have ids: "map ev_id T' = map ev_id ?T" using events.tk_ids [OF t] .
  show ?thesis
  proof (cases res)
    case None
    then show ?thesis using t events_take_None(1) assms by (fastforce simp: events_lease_db)
  next
    case (Some r)
    from t [unfolded Some] obtain r0 where r0: "r0 \<in> set ?T" "event_available now ?T r0"
      "T' = tbl_update (\<lambda>e. ev_id e = ev_id r0) (\<lambda>e. e\<lparr>ev_status := Ev_processing,
        ev_lease_until := Some (now + s), ev_leased_by := Some w, ev_updated_at := now\<rparr>) ?T"
      by (rule events_take_Some)
    have d: "distinct (map ev_id ?T)" using assms by (simp add: serial_at_def)
    have only: "e = r0" if "e \<in> set ?T" "ev_id e = ev_id r0" for e
      using distinct_same_row [OF d that(1) r0(1)] that(2) .
    have other: "ev_context_key x \<noteq> ev_context_key r0 \<or> ev_context_key x = None"
      if "x \<in> set ?T" "event_live now x" for x
    proof -
      have "ev_context_key x \<in> ev_context_key ` {x \<in> set ?T. event_live now x}" using that by blast
      then show ?thesis using r0(2) by (metis event_available_def)
    qed
    let ?g = "\<lambda>e. e\<lparr>ev_status := Ev_processing, ev_lease_until := Some (now + s),
      ev_leased_by := Some w, ev_updated_at := now\<rparr>"
    have new: "x = ?g r0 \<or> x \<in> set ?T" if "x \<in> set T'" for x
      using that only unfolding r0(3) set_tbl_update by auto
    have "x = y" if xy: "x \<in> set T'" "y \<in> set T'" "event_live now x" "event_live now y"
      "ev_context_key x = ev_context_key y" "ev_context_key x \<noteq> None" for x y
    proof (cases "x = ?g r0 \<or> y = ?g r0")
      case True
      have ctx: "ev_context_key (?g r0) = ev_context_key r0" by simp
      from True show ?thesis
      proof
        assume x: "x = ?g r0"
        then have "y = ?g r0" using new [OF xy(2)] other [of y] xy(4-6) ctx by metis
        then show ?thesis using x by simp
      next
        assume y: "y = ?g r0"
        then have "x = ?g r0" using new [OF xy(1)] other [of x] xy(3,5,6) ctx by metis
        then show ?thesis using y by simp
      qed
    next
      case False
      then show ?thesis using new [OF xy(1)] new [OF xy(2)] assms xy by (auto simp: serial_at_def)
    qed
    then show ?thesis using t ids d by (simp add: serial_at_def events_lease_db)
  qed
qed

lemma serial_append: "serial_at t d \<Longrightarrow> serial_at t (snd (try_append q d))"
  by (cases rule: try_append_cases [of q d]) (auto simp: serial_at_def event_live_def)

lemma serial_failed: "serial_at t d \<Longrightarrow> serial_at t (snd (mark_failed i e m now d))"
  by (auto simp: mark_failed_def write_tx_def Let_def letter_def event_live_def
      split: option.splits sum.splits prod.splits intro!: serial_set)

lemma serial_replay: "serial_at t d \<Longrightarrow> serial_at t (snd (replay i now d))"
  by (auto simp: replay_def write_tx_def Let_def letter_def event_live_def
      split: option.splits sum.splits prod.splits intro!: serial_set)

lemma serial_step:
  assumes "serial_at t d" "t \<le> event_op_time x"
  shows "serial_at (event_op_time x) (event_step x d)"
proof -
  have "serial_at (event_op_time x) d" using serial_mono assms by blast
  then show ?thesis
    by (cases x) (auto simp: serial_lease serial_failed serial_replay mark_done_def letter_def
        event_live_def intro!: serial_set)
qed

fun op_times :: "(append_request + event_op) list \<Rightarrow> time list" where
  "op_times [] = []"
| "op_times (Inl q # xs) = op_times xs"
| "op_times (Inr x # xs) = event_op_time x # op_times xs"

lemma serial_run:
  assumes "serial_at t d" "sorted (op_times xs)" "\<And>v. v \<in> set (op_times xs) \<Longrightarrow> t \<le> v \<and> v \<le> u" "t \<le> u"
  shows "serial_at u (events_run xs d)"
  using assms
proof (induction xs arbitrary: t d rule: op_times.induct)
  case 1
  then show ?case using serial_mono by auto
next
  case (2 q xs)
  have "serial_at u (events_run xs (snd (try_append q d)))"
    by (rule "2.IH" [OF serial_append [OF "2.prems"(1)]]) (use "2.prems" in auto)
  then show ?case by simp
next
  case (3 x xs)
  then have "serial_at (event_op_time x) (event_step x d)" using serial_step by auto
  then show ?case using 3 by auto
qed

text \<open>The work left for a worker with \<open>m\<close> attempts per event.\<close>

definition weight :: "nat \<Rightarrow> event \<Rightarrow> nat" where
  "weight m e = (case ev_status e of
       Ev_received \<Rightarrow> max 1 (m - ev_attempts e)
     | Ev_processing \<Rightarrow> max 1 (m - ev_attempts e)
     | _ \<Rightarrow> 0)"

definition backlog :: "nat \<Rightarrow> db \<Rightarrow> nat" where
  "backlog m d = sum_list (map (weight m) (t_events d))"

lemma weight_pos: "ev_status e = Ev_received \<or> ev_status e = Ev_processing \<Longrightarrow> 0 < weight m e"
  by (auto simp: weight_def)

lemma backlog_set:
  assumes "distinct (map ev_id (t_events d))" "r \<in> set (t_events d)"
  shows "weight m (f r) \<le> weight m r \<Longrightarrow> backlog m (events_set (ev_id r) f d) \<le> backlog m d"
    and "weight m (f r) < weight m r \<Longrightarrow> backlog m (events_set (ev_id r) f d) < backlog m d"
proof -
  let ?g = "\<lambda>e. if ev_id e = ev_id r then f e else e"
  have eq: "backlog m (events_set (ev_id r) f d) = sum_list (map (weight m) (map ?g (t_events d)))"
    by (simp add: backlog_def events_set_def tbl_update_def)
  have le: "weight m (?g x) \<le> weight m x" if "weight m (f r) \<le> weight m r" "x \<in> set (t_events d)" for x
    using distinct_same_row [OF assms(1) that(2) assms(2)] that(1) by (cases "ev_id x = ev_id r") auto
  show "backlog m (events_set (ev_id r) f d) \<le> backlog m d" if "weight m (f r) \<le> weight m r"
    unfolding eq unfolding backlog_def map_map by (rule sum_list_mono) (use le that in auto)
  show "backlog m (events_set (ev_id r) f d) < backlog m d" if "weight m (f r) < weight m r"
    unfolding eq unfolding backlog_def by (rule sum_list_map_less [where y = r]) (use that assms(2) le in auto)
qed

lemma events_lease_Some:
  assumes "events_lease w s now d = (Some r, d1)" "distinct (map ev_id (t_events d))"
  obtains f r0 where "d1 = events_set (ev_id r0) f d" "r0 \<in> set (t_events d)" "r = f r0"
    "ev_status r = Ev_processing" "ev_id r = ev_id r0" "ev_attempts r = ev_attempts r0"
    "ev_status r0 = Ev_received \<or> ev_status r0 = Ev_processing" "\<And>e. letter (f e) = letter e"
proof -
  let ?f = "\<lambda>e. e\<lparr>ev_status := Ev_processing, ev_lease_until := Some (now + s),
    ev_leased_by := Some w, ev_updated_at := now\<rparr>"
  have t: "events_take w s now (t_events d) = (Some r, t_events d1)"
    and d1: "d1 = d\<lparr>t_events := t_events d1\<rparr>"
    using assms(1) by (auto simp: events_lease_db prod_eq_iff)
  from t show thesis
  proof (rule events_take_Some)
    fix r0
    assume r0: "r0 \<in> set (t_events d)" "event_available now (t_events d) r0" "ev_id r = ev_id r0"
      "t_events d1 = tbl_update (\<lambda>e. ev_id e = ev_id r0) ?f (t_events d)" "r \<in> set (t_events d1)"
    have d: "d1 = events_set (ev_id r0) ?f d" using d1 r0(4) by (simp add: events_set_def)
    obtain x where x: "x \<in> set (t_events d)" "r = (if ev_id x = ev_id r0 then ?f x else x)"
      using r0(4,5) by (auto simp: set_tbl_update)
    then have "ev_id x = ev_id r0" using r0(3) by (auto split: if_splits)
    then have "x = r0" using distinct_same_row [OF assms(2) x(1) r0(1)] by blast
    then have r: "r = ?f r0" using x(2) by simp
    have st: "ev_status r0 = Ev_received \<or> ev_status r0 = Ev_processing"
      using r0(2) by (auto simp: event_available_def)
    show thesis by (rule that [OF d r0(1) r _ r0(3) _ st]) (simp_all add: r letter_def)
  qed
qed

text \<open>A handler that leaves the events to the worker.\<close>

definition respects_events :: "handler \<Rightarrow> bool" where
  "respects_events handler \<longleftrightarrow> (\<forall>e d. t_events (snd (handler e d)) = t_events d)"

lemma distinct_events_set:
  "(\<And>e. letter (f e) = letter e) \<Longrightarrow> map ev_id (t_events (events_set i f d)) = map ev_id (t_events d)"
  using letters_cols(1) [OF events_set_letters] by blast

lemma mark_failed_eq:
  assumes "tbl_get ev_id i (t_events d) = Some r"
  shows "\<exists>u. mark_failed i err m now d = (Inr u,
     events_set i (\<lambda>e. e\<lparr>ev_status := (if ev_attempts r + 1 \<ge> m then Ev_dlq else Ev_received),
        ev_attempts := ev_attempts r + 1, ev_last_error := Some (take 2000 err),
        ev_lease_until := None, ev_leased_by := None, ev_updated_at := now\<rparr>) d) \<and>
     ev_id u = i \<and> ev_attempts u = ev_attempts r + 1 \<and>
     ev_status u = (if ev_attempts r + 1 \<ge> m then Ev_dlq else Ev_received)"
proof -
  have "ev_id r = i" using tbl_get_SomeD [OF assms] by simp
  then show ?thesis
    using assms by (simp add: mark_failed_def write_tx_def events_get_def Let_def events_set_def
        tbl_get_update)
qed

lemma run_once_progress:
  assumes "respects_events handler" "distinct (map ev_id (t_events d))"
    and "run_once handler w s m now d = (res, d')"
  shows "distinct (map ev_id (t_events d'))"
    and "(res = Inr None \<and> fst (events_lease w s now d) = None \<and> d' = d) \<or>
      (\<exists>p. res = Inr (Some p) \<and> backlog m d' < backlog m d)"
proof -
  obtain r d1 where l: "events_lease w s now d = (r, d1)" by fastforce
  have "distinct (map ev_id (t_events d')) \<and>
    ((res = Inr None \<and> fst (events_lease w s now d) = None \<and> d' = d) \<or>
      (\<exists>p. res = Inr (Some p) \<and> backlog m d' < backlog m d))"
  proof (cases r)
    case None
    then have "d1 = d" using l events_take_None(1) by (fastforce simp: events_lease_db prod_eq_iff)
    then show ?thesis using assms(2,3) l None by (simp add: run_once_def)
  next
    case (Some e)
    obtain f r0 where f: "d1 = events_set (ev_id r0) f d" "r0 \<in> set (t_events d)" "e = f r0"
      "ev_status e = Ev_processing" "ev_id e = ev_id r0" "ev_attempts e = ev_attempts r0"
      "ev_status r0 = Ev_received \<or> ev_status r0 = Ev_processing" "\<And>e. letter (f e) = letter e"
      by (rule events_lease_Some [OF l [unfolded Some] assms(2)]) (rule that)
    have d1: "distinct (map ev_id (t_events d1))"
      using assms(2) f(1) distinct_events_set [of f] f(8) by simp
    have b1: "backlog m d1 \<le> backlog m d"
      unfolding f(1) by (rule backlog_set(1) [OF assms(2) f(2)])
        (use f(3,4,6,7) in \<open>auto simp: weight_def\<close>)
    obtain h d2 where h: "handler e d1 = (h, d2)" by fastforce
    have ev2: "t_events d2 = t_events d1" using assms(1) h by (metis respects_events_def snd_conv)
    have e1: "e \<in> set (t_events d2)"
      unfolding ev2 f(1) events_set_def using f(2,3) by (auto simp: set_tbl_update image_iff)
    have g: "tbl_get ev_id (ev_id e) (t_events d2) = Some e"
      using tbl_get_mem [OF _ e1] d1 ev2 by simp
    have d2: "distinct (map ev_id (t_events d2))" "backlog m d2 \<le> backlog m d"
      using d1 ev2 b1 by (simp_all add: backlog_def)
    show ?thesis
    proof (cases h)
      case (Inl x)
      obtain kind msg where x: "x = (kind, msg)" by fastforce
      from mark_failed_eq [OF g] obtain u where u: "mark_failed (ev_id e) (kind @ '': '' @ msg) m now d2 =
        (Inr u, events_set (ev_id e) (\<lambda>x. x\<lparr>ev_status := (if ev_attempts e + 1 \<ge> m then Ev_dlq else Ev_received),
        ev_attempts := ev_attempts e + 1, ev_last_error := Some (take 2000 (kind @ '': '' @ msg)),
        ev_lease_until := None, ev_leased_by := None, ev_updated_at := now\<rparr>) d2)"
        (is "_ = (_, events_set _ ?f d2)") by blast
      have "backlog m (events_set (ev_id e) ?f d2) < backlog m d2"
        by (rule backlog_set(2) [OF d2(1) e1]) (use f(4) in \<open>auto simp: weight_def\<close>)
      moreover have "distinct (map ev_id (t_events (events_set (ev_id e) ?f d2)))"
        using d2(1) distinct_events_set [of ?f] by (simp add: letter_def)
      ultimately show ?thesis using assms(3) l Some h Inl x u d2(2) by (auto simp: run_once_def)
    next
      case (Inr x)
      have "backlog m (mark_done (ev_id e) now d2) < backlog m d2"
        unfolding mark_done_def by (rule backlog_set(2) [OF d2(1) e1])
          (use f(4) in \<open>auto simp: weight_def\<close>)
      moreover have "distinct (map ev_id (t_events (mark_done (ev_id e) now d2)))"
        using d2(1) distinct_events_set by (simp add: mark_done_def letter_def)
      moreover obtain v where "events_get (ev_id e) (mark_done (ev_id e) now d2) = Some v"
        using g by (simp add: events_get_def mark_done_def events_set_def tbl_get_update)
      ultimately show ?thesis using assms(3) l Some h Inr d2(2) by (auto simp: run_once_def Let_def)
    qed
  qed
  then show "distinct (map ev_id (t_events d'))"
    "(res = Inr None \<and> fst (events_lease w s now d) = None \<and> d' = d) \<or>
      (\<exists>p. res = Inr (Some p) \<and> backlog m d' < backlog m d)" by auto
qed

section \<open>Properties\<close>

text \<open>
  C6 (accepted once).  In any history of the store, at most one append for an external id is
  answered with a new event, whoever leases, fails, finishes or replays in between.
\<close>

theorem event_accepted_once:
  "length (filter (\<lambda>(q, created). created \<and> aq_external_id q = ext)
     (put_trace try_append event_step history d)) \<le> 1"
  by (rule ingress.at_most_once)

text \<open>
  Accepted is kept.  An append that returns an event has it in the table, under the external
  id asked for, and no operation of the store ever loses or rewrites its content.
\<close>

theorem accepted_event_is_kept:
  assumes "events_append nid src ext raw ctx now d = (Inr (e, created), d')"
  shows "ev_external_id e = ext \<and>
    (\<exists>e' \<in> set (t_events (events_run history d')). letter e' = letter e) \<and>
    (ext \<notin> set (map ev_external_id (t_events d)) \<longrightarrow>
       created \<and> letter e = (nid, src, ext, ctx, raw, now) \<and> ev_status e = Ev_received)"
proof -
  have e: "e \<in> set (t_events d')" "ev_external_id e = ext" "ext \<notin> set (map ev_external_id (t_events d)) \<longrightarrow>
       created \<and> letter e = (nid, src, ext, ctx, raw, now) \<and> ev_status e = Ev_received"
    by (cases rule: append_cases [of nid src ext raw ctx now d]; use assms in \<open>auto simp: letter_def\<close>)+
  obtain U where "map letter (t_events (events_run history d')) = map letter (t_events d') @ U"
    using events_run_letters by blast
  then have "letter ` set (t_events (events_run history d')) = letter ` set (t_events d') \<union> set U"
    by (metis list.set_map set_append)
  then have "letter e \<in> letter ` set (t_events (events_run history d'))" using e(1) by blast
  then have "\<exists>e' \<in> set (t_events (events_run history d')). letter e' = letter e" by auto
  then show ?thesis using e(2,3) by blast
qed

text \<open>
  C7 (one event of a thread at a time).  When the store's clock does not run backwards, at no
  moment are two different events of one thread under a running lease.
\<close>

theorem threads_are_serial:
  assumes "sorted (op_times history)" "\<And>v. v \<in> set (op_times history) \<Longrightarrow> v \<le> now"
    and "x \<in> set (t_events (events_run history empty_db))" "event_live now x"
    and "y \<in> set (t_events (events_run history empty_db))" "event_live now y"
    and "ev_context_key x = Some c" "ev_context_key y = Some c"
  shows "x = y"
proof -
  let ?t = "Min (insert now (set (op_times history)))"
  have "serial_at ?t empty_db" by (simp add: serial_at_def)
  then have "serial_at now (events_run history empty_db)"
    by (rule serial_run) (use assms(1,2) in auto)
  then show ?thesis using assms(3-) by (auto simp: serial_at_def)
qed

text \<open>
  Exclusive leases.  The events handed out within one lease span, by any number of calls,
  are different events.
\<close>

theorem leases_are_exclusive:
  assumes "distinct (map ev_id T)" "\<And>t. t \<in> set ts \<Longrightarrow> t0 \<le> t \<and> t < t0 + s"
  shows "distinct (map ev_id (fst (take_all (events_take worker s) ts T)))"
  using events.exclusive [OF assms] .

text \<open>
  C34 (draining ends).  With a handler that leaves the events to the worker, every round makes
  progress even if the handler always raises: a \<open>drain\<close> whose limit exceeds the backlog (at
  most \<open>m\<close> attempts per event) raises nothing and leaves no event available.
\<close>

theorem drain_empties_the_queue:
  assumes "respects_events handler" "distinct (map ev_id (t_events d))" "backlog m d < limit"
  shows "\<exists>ps. fst (drain handler w s m now limit d) = Inr ps \<and> length ps \<le> backlog m d \<and>
    fst (events_lease w s now (snd (drain handler w s m now limit d))) = None"
  using assms(2,3)
proof (induction limit arbitrary: d)
  case (Suc limit)
  obtain res d1 where r: "run_once handler w s m now d = (res, d1)" by fastforce
  note prog = run_once_progress [OF assms(1) Suc.prems(1) r]
  from prog(2) show ?case
  proof
    assume "res = Inr None \<and> fst (events_lease w s now d) = None \<and> d1 = d"
    then show ?case using r by simp
  next
    assume "\<exists>p. res = Inr (Some p) \<and> backlog m d1 < backlog m d"
    then obtain p where p: "res = Inr (Some p)" "backlog m d1 < backlog m d" by blast
    obtain ps where "fst (drain handler w s m now limit d1) = Inr ps" "length ps \<le> backlog m d1"
      "fst (events_lease w s now (snd (drain handler w s m now limit d1))) = None"
      using Suc.IH [OF prog(1)] p(2) Suc.prems(2) by auto
    then show ?case using r p by (cases "drain handler w s m now limit d1") auto
  qed
qed simp

section \<open>Witnesses\<close>

definition sample_event :: append_request where
  "sample_event = \<lparr>aq_id = ''v1'', aq_source = ''nerve'', aq_external_id = ''m1'', aq_raw = ''hello'',
     aq_context_key = Some ''t'', aq_now = 1\<rparr>"

definition sample_events :: "(append_request + event_op) list" where
  "sample_events = [Inl sample_event, Inl (sample_event\<lparr>aq_id := ''v2'', aq_external_id := ''m2''\<rparr>),
     Inr (Lease ''w'' 300 10)]"

lemmas event_evals = events_append_def is_deleted_def write_tx_def events_by_external_id_def
  tbl_get_def try_append_def

definition sample_letter :: "uid \<Rightarrow> string \<Rightarrow> event" where
  "sample_letter i x = \<lparr>ev_id = i, ev_source = ''nerve'', ev_external_id = x, ev_context_key = Some ''t'',
     ev_raw = ''hello'', ev_received_at = 1, ev_status = Ev_received, ev_attempts = 0,
     ev_lease_until = None, ev_leased_by = None, ev_last_error = None, ev_updated_at = 1\<rparr>"

theorem accepted_event_is_kept_witness:
  "\<exists>e d'. events_append ''v1'' ''nerve'' ''m1'' ''hello'' None 1 empty_db = (Inr (e, True), d') \<and>
     (\<exists>e' \<in> set (t_events (events_run sample_events d')). letter e' = letter e)"
proof -
  obtain e d' where a: "events_append ''v1'' ''nerve'' ''m1'' ''hello'' None 1 empty_db = (Inr (e, True), d')"
    by (simp add: event_evals)
  then show ?thesis using accepted_event_is_kept [OF a] by blast
qed

lemma sample_events_run: "events_run sample_events empty_db =
    empty_db\<lparr>t_events := [(sample_letter ''v1'' ''m1'')\<lparr>ev_status := Ev_processing,
       ev_lease_until := Some 310, ev_leased_by := Some ''w'', ev_updated_at := 10\<rparr>,
     sample_letter ''v2'' ''m2'']\<rparr>"
proof -
  have idle: "{x \<in> {sample_letter ''v1'' ''m1'', sample_letter ''v2'' ''m2''}. event_live 10 x} = {}"
    by (auto simp: event_live_def sample_letter_def)
  have avail: "event_available 10 [sample_letter ''v1'' ''m1'', sample_letter ''v2'' ''m2''] (sample_letter i m)" for i m
    unfolding event_available_def list.set idle by (simp add: sample_letter_def)
  have "events_run [Inl sample_event, Inl (sample_event\<lparr>aq_id := ''v2'', aq_external_id := ''m2''\<rparr>)] empty_db =
      empty_db\<lparr>t_events := [sample_letter ''v1'' ''m1'', sample_letter ''v2'' ''m2'']\<rparr>"
    by (simp add: sample_event_def event_evals sample_letter_def)
  moreover have "events_run [Inr (Lease ''w'' 300 10)] (empty_db\<lparr>t_events :=
      [sample_letter ''v1'' ''m1'', sample_letter ''v2'' ''m2'']\<rparr>) = empty_db\<lparr>t_events :=
      [(sample_letter ''v1'' ''m1'')\<lparr>ev_status := Ev_processing,
       ev_lease_until := Some 310, ev_leased_by := Some ''w'', ev_updated_at := 10\<rparr>,
     sample_letter ''v2'' ''m2'']\<rparr>"
    using avail by (simp add: events_lease_db events_take_def tbl_take_def tbl_first_def tbl_get_def
        sample_letter_def)
  ultimately show ?thesis by (simp add: sample_events_def)
qed

theorem threads_are_serial_witness:
  "\<exists>x. filter (event_live 20) (t_events (events_run sample_events empty_db)) = [x]"
proof -
  let ?x = "(sample_letter ''v1'' ''m1'')\<lparr>ev_status := Ev_processing, ev_lease_until := Some 310,
    ev_leased_by := Some ''w'', ev_updated_at := 10\<rparr>"
  have "?x = ?x"
    by (rule threads_are_serial [of sample_events 20 ?x ?x "''t''"])
      (simp_all only: sample_events_run, simp_all add: sample_events_def sample_letter_def event_live_def)
  then show ?thesis by (simp add: sample_events_run event_live_def sample_letter_def)
qed

theorem leases_are_exclusive_witness:
  "distinct (map ev_id (fst (take_all (events_take ''w'' 300) [10, 20, 300] [sample_letter ''v1'' ''m1''])))"
  by (rule leases_are_exclusive [where ?t0.0 = 5]) (auto simp: sample_letter_def)

theorem drain_empties_the_queue_witness:
  "\<exists>ps. fst (drain (\<lambda>e d. (Inl (''ValueError'', ''bad''), d)) ''w'' 300 5 10 6
     (empty_db\<lparr>t_events := [sample_letter ''v1'' ''m1'']\<rparr>)) = Inr ps \<and> length ps \<le> 5"
proof -
  let ?d = "empty_db\<lparr>t_events := [sample_letter ''v1'' ''m1'']\<rparr>"
  have "respects_events (\<lambda>e d. (Inl (''ValueError'', ''bad''), d))" "distinct (map ev_id (t_events ?d))"
    "backlog 5 ?d = 5" "backlog 5 ?d < 6"
    by (simp_all add: respects_events_def backlog_def weight_def sample_letter_def)
  then show ?thesis using drain_empties_the_queue [of _ ?d 5 6 "''w''" 300 10] by fastforce
qed

end
