(* ===== verification/Evidence.thy ===== *)
theory Evidence
  imports Schema "HOL-Library.Sublist"
begin

text \<open>
  \<open>hermes_cloud/core/evidence.py\<close>: where a fact came from.  A reference keeps the domain of
  the sender, the date, a hash of the text and two offsets, never the text; the quotation is cut
  out of the living letter when a card shows it.  \<open>sha\<close> is SHA-256 in hexadecimal and
  \<open>text_of\<close> is the text \<open>parse_eml\<close> reads from a raw letter.
\<close>

section \<open>Python's searches in a text\<close>

text \<open>\<open>text.find(needle)\<close>, \<open>text.find(needle, start)\<close> and \<open>text.rfind(mark, 0, end)\<close>; not found is \<open>-1\<close>.\<close>

fun find_at :: "string \<Rightarrow> string \<Rightarrow> nat option" where
  "find_at nd [] = (if nd = [] then Some 0 else None)"
| "find_at nd (c # s) = (if prefix nd (c # s) then Some 0 else map_option Suc (find_at nd s))"

definition py_find :: "string \<Rightarrow> string \<Rightarrow> nat \<Rightarrow> int" where
  "py_find text nd from =
     (case find_at nd (drop from text) of None \<Rightarrow> -1 | Some i \<Rightarrow> int (from + i))"

fun last_at :: "char \<Rightarrow> string \<Rightarrow> nat option" where
  "last_at m [] = None"
| "last_at m (c # s) =
     (case last_at m s of Some i \<Rightarrow> Some (Suc i) | None \<Rightarrow> if c = m then Some 0 else None)"

definition py_rfind :: "string \<Rightarrow> char \<Rightarrow> nat \<Rightarrow> int" where
  "py_rfind text m to = (case last_at m (take to text) of None \<Rightarrow> -1 | Some i \<Rightarrow> int i)"

section \<open>Model\<close>

definition quote_limit :: int where "quote_limit = 200"

definition content_sha :: "(string \<Rightarrow> string) \<Rightarrow> string \<Rightarrow> string" where
  "content_sha sha text = sha text"

definition at_sign :: char where "at_sign = CHR 0x40"

definition strip_gt :: "string \<Rightarrow> string" where
  "strip_gt s = rev (dropWhile (\<lambda>c. c = CHR 0x3E) (rev (dropWhile (\<lambda>c. c = CHR 0x3E) s)))"

definition after_last_at :: "string \<Rightarrow> string" where
  "after_last_at s = rev (takeWhile (\<lambda>c. c \<noteq> at_sign) (rev s))"

definition sender_domain :: "string option \<Rightarrow> string option" where
  "sender_domain address =
     (case address of None \<Rightarrow> None
      | Some a \<Rightarrow> if a = [] \<or> at_sign \<notin> set a then None
          else str_or_none (Some (py_lower (strip_gt (py_strip (after_last_at a))))))"

definition sentence_marks :: "char list" where
  "sentence_marks = [CHR ''.'', CHR ''!'', CHR ''?'', CHR 0x0A]"

definition span_at :: "string \<Rightarrow> string \<Rightarrow> nat \<Rightarrow> int \<times> int" where
  "span_at text nd pos =
     (let start = foldr max (map (\<lambda>m. py_rfind text m pos) sentence_marks) (-1);
          cands = filter (\<lambda>i. 0 \<le> i) (map (\<lambda>m. py_find text [m] (pos + length nd)) sentence_marks);
          stop = (if cands \<noteq> [] then foldr min (tl cands) (hd cands) + 1 else int (length text))
      in (max 0 (start + 1), min stop (start + 1 + quote_limit)))"

fun find_span :: "string \<Rightarrow> string list \<Rightarrow> (int \<times> int) option" where
  "find_span text [] = None"
| "find_span text (n # needles) =
     (let nd = py_strip n
      in if length nd < 3 then find_span text needles
         else let pos = py_find text nd 0
              in if pos < 0 then find_span text needles
                 else Some (span_at text nd (nat pos)))"

definition provenance :: "evidence_ref \<Rightarrow> string" where
  "provenance r =
     (case str_or_none (rf_sender_domain r) of None \<Rightarrow> ''UNKNOWN_SENDER'' | Some s \<Rightarrow> s) @
     (case str_or_none (rf_message_date r) of None \<Rightarrow> [] | Some t \<Rightarrow> '', LETTER OF '' @ t)"

definition record_run ::
  "uid \<Rightarrow> uid option \<Rightarrow> string \<Rightarrow> string \<Rightarrow> nat \<Rightarrow> nat \<Rightarrow> time \<Rightarrow> db \<Rightarrow> extraction_run \<times> db" where
  "record_run nid ev model psha inp out now d =
     (let r = \<lparr>er_id = nid, er_event_id = ev, er_model = model, er_prompt_sha = psha,
               er_input_tokens = inp, er_output_tokens = out, er_created_at = now\<rparr>
      in (r, d\<lparr>t_runs := t_runs d @ [r]\<rparr>))"

definition evidence_get :: "uid \<Rightarrow> db \<Rightarrow> evidence_ref option" where
  "evidence_get i d = tbl_get rf_id i (t_refs d)"

definition add_ref ::
  "(string \<Rightarrow> string) \<Rightarrow> uid \<Rightarrow> uid \<Rightarrow> uid option \<Rightarrow> string \<Rightarrow> string option \<Rightarrow> string option \<Rightarrow>
   string list \<Rightarrow> time \<Rightarrow> db \<Rightarrow> evidence_ref option \<times> db" where
  "add_ref sha nid run ev text sender date needles now d =
     (let span = find_span text needles;
          d' = d\<lparr>t_refs := t_refs d @
            [\<lparr>rf_id = nid, rf_run_id = run, rf_event_id = ev, rf_sender_domain = sender_domain sender,
              rf_message_date = date, rf_content_sha = content_sha sha text,
              rf_span_start = map_option fst span, rf_span_end = map_option snd span,
              rf_created_at = now\<rparr>]\<rparr>
      in (evidence_get nid d', d'))"

definition evidence_for_run :: "uid \<Rightarrow> db \<Rightarrow> evidence_ref list" where
  "evidence_for_run run d = sort_key rf_created_at (filter (\<lambda>r. rf_run_id r = run) (t_refs d))"

text \<open>\<open>text[a:b]\<close> for offsets that are not negative, and \<open>re.sub(r"\s+", " ", s)\<close>.\<close>

definition slice :: "string \<Rightarrow> int \<Rightarrow> int \<Rightarrow> string" where
  "slice text a b = drop (nat a) (take (nat b) text)"

fun squeeze :: "bool \<Rightarrow> string \<Rightarrow> string" where
  "squeeze after_space [] = []"
| "squeeze after_space (c # s) =
     (if is_space c then (if after_space then squeeze True s else CHR '' '' # squeeze True s)
      else c # squeeze False s)"

definition quote :: "(string \<Rightarrow> string) \<Rightarrow> (string \<Rightarrow> string) \<Rightarrow> evidence_ref \<Rightarrow> db \<Rightarrow> string option" where
  "quote sha text_of r d =
     (case (rf_event_id r, rf_span_start r, rf_span_end r) of
        (Some e, Some a, Some b) \<Rightarrow>
          (case tbl_get ev_id e (t_events d) of
             None \<Rightarrow> None
           | Some ev \<Rightarrow>
               if ev_raw ev = [] then None
               else let text = text_of (ev_raw ev)
                    in if content_sha sha text \<noteq> rf_content_sha r then None
                       else str_or_none (Some (squeeze False (py_strip (slice text a b)))))
      | _ \<Rightarrow> None)"

definition render_source ::
  "(string \<Rightarrow> string) \<Rightarrow> (string \<Rightarrow> string) \<Rightarrow> evidence_ref \<Rightarrow> db \<Rightarrow> string" where
  "render_source sha text_of r d =
     (case quote sha text_of r d of
        None \<Rightarrow> ''SOURCE: '' @ provenance r @ '' - TEXT_SOURCE_GONE''
      | Some q \<Rightarrow> ''SOURCE: '' @ provenance r @ '' - <'' @ q @ ''>'')"

section \<open>Lemmas on the searches\<close>

lemma find_at_Some:
  "find_at nd s = Some i \<longleftrightarrow> i \<le> length s \<and> prefix nd (drop i s) \<and> (\<forall>j < i. \<not> prefix nd (drop j s))"
proof (induction s arbitrary: i)
  case (Cons c s)
  have all: "(\<forall>j < Suc k. P j) \<longleftrightarrow> P 0 \<and> (\<forall>j < k. P (Suc j))" for k and P :: "nat \<Rightarrow> bool"
    by (auto simp: less_Suc_eq_0_disj)
  show ?case
  proof (cases i)
    case 0
    then show ?thesis by auto
  next
    case (Suc k)
    then show ?thesis using Cons.IH [of k] by (auto simp: all simp del: all_simps)
  qed
qed auto

lemma find_at_None: "find_at nd s = None \<longleftrightarrow> (\<forall>j \<le> length s. \<not> prefix nd (drop j s))"
proof
  show "\<forall>j \<le> length s. \<not> prefix nd (drop j s)" if "find_at nd s = None"
    using that
  proof (induction s)
    case (Cons c s)
    then have n: "find_at nd s = None" "\<not> prefix nd (c # s)" by (auto split: if_splits)
    show ?case
    proof (intro allI impI)
      fix j
      assume "j \<le> length (c # s)"
      then show "\<not> prefix nd (drop j (c # s))" using n Cons.IH by (cases j) auto
    qed
  qed (auto split: if_splits)
  show "find_at nd s = None" if "\<forall>j \<le> length s. \<not> prefix nd (drop j s)"
  proof (cases "find_at nd s")
    case (Some i)
    then show ?thesis using that find_at_Some by blast
  qed
qed

lemma last_at_None: "last_at m s = None \<longleftrightarrow> m \<notin> set s"
  by (induction s) (auto split: option.splits)

lemma last_at_Some:
  "last_at m s = Some i \<Longrightarrow> i < length s \<and> s ! i = m \<and> (\<forall>j. i < j \<and> j < length s \<longrightarrow> s ! j \<noteq> m)"
proof (induction s arbitrary: i)
  case (Cons c s)
  show ?case
  proof (cases "last_at m s")
    case None
    then have "m \<notin> set s" by (simp add: last_at_None)
    then show ?thesis using Cons.prems None by (auto simp: nth_Cons' split: if_splits)
  next
    case (Some k)
    then have i: "i = Suc k" using Cons.prems by simp
    note IH = Cons.IH [OF Some]
    have "(c # s) ! j \<noteq> m" if "i < j" "j < length (c # s)" for j
      using that IH i by (cases j) auto
    then show ?thesis using i IH by simp
  qed
qed simp

text \<open>The start of the sentence: right behind the last mark before the position.\<close>

lemma foldr_max_ge: "x \<in> set xs \<Longrightarrow> x \<le> foldr max xs (b :: int)"
  by (induction xs) auto

lemma foldr_max_mem: "foldr max xs (b :: int) \<in> insert b (set xs)"
  by (induction xs) (auto simp: max_def)

lemma foldr_min_le: "x \<in> insert b (set xs) \<Longrightarrow> foldr min xs (b :: int) \<le> x"
  by (induction xs) (auto simp: min_le_iff_disj)

lemma foldr_min_mem: "foldr min xs (b :: int) \<in> insert b (set xs)"
  by (induction xs) (auto simp: min_def)


lemma sentence_start:
  assumes "start = foldr max (map (\<lambda>m. py_rfind text m pos) sentence_marks) (-1)" "pos \<le> length text"
  shows "-1 \<le> start \<and> start < int pos \<and> (start = -1 \<or> text ! nat start \<in> set sentence_marks) \<and>
    (\<forall>j. start < int j \<and> j < pos \<longrightarrow> text ! j \<notin> set sentence_marks)"
proof -
  have r: "-1 \<le> py_rfind text m pos \<and> py_rfind text m pos < int pos \<and>
      (py_rfind text m pos = -1 \<or> text ! nat (py_rfind text m pos) = m)" for m
    using assms(2) by (auto simp: py_rfind_def dest!: last_at_Some split: option.splits)
  have none: "text ! j \<noteq> m" if "py_rfind text m pos < int j" "j < pos" for m j
  proof (cases "last_at m (take pos text)")
    case None
    then have "m \<notin> set (take pos text)" by (simp add: last_at_None)
    then show ?thesis using that(2) assms(2) by (metis in_set_conv_nth length_take min.absorb2 nth_take)
  next
    case (Some i)
    then show ?thesis using last_at_Some [OF Some] that assms(2) by (auto simp: py_rfind_def)
  qed
  have "start \<in> insert (-1) (set (map (\<lambda>m. py_rfind text m pos) sentence_marks))"
    unfolding assms(1) by (rule foldr_max_mem)
  then consider "start = -1" | m where "m \<in> set sentence_marks" "start = py_rfind text m pos" by auto
  then have "-1 \<le> start \<and> start < int pos \<and> (start = -1 \<or> text ! nat start \<in> set sentence_marks)"
    using r by cases force+
  moreover have le: "py_rfind text m pos \<le> start" if "m \<in> set sentence_marks" for m
    unfolding assms(1) using that by (intro foldr_max_ge) simp
  have "text ! j \<notin> set sentence_marks" if "start < int j" "j < pos" for j
  proof
    assume "text ! j \<in> set sentence_marks"
    then have "py_rfind text (text ! j) pos < int j" using le [of "text ! j"] that(1) by simp
    then show False using none [of "text ! j" j] that(2) by simp
  qed
  ultimately show ?thesis by blast
qed

lemma sentence_stop:
  assumes "cands = filter (\<lambda>i. 0 \<le> i) (map (\<lambda>m. py_find text [m] from) sentence_marks)"
    "stop = (if cands \<noteq> [] then foldr min (tl cands) (hd cands) + 1 else int (length text))"
    "from \<le> length text"
  shows "int from \<le> stop \<and> stop \<le> int (length text) \<and>
    (\<forall>j. from \<le> j \<and> int j < stop - 1 \<longrightarrow> text ! j \<notin> set sentence_marks) \<and>
    (stop < int (length text) \<longrightarrow> text ! nat (stop - 1) \<in> set sentence_marks)"
proof -
  have hit: "prefix [m] (drop j text) \<longleftrightarrow> j < length text \<and> text ! j = m" for m j
    by (cases "j < length text") (auto simp: Cons_nth_drop_Suc [symmetric])
  have pf: "py_find text [m] from = -1 \<and> (\<forall>j. from \<le> j \<and> j < length text \<longrightarrow> text ! j \<noteq> m) \<or>
      (\<exists>k. py_find text [m] from = int k \<and> from \<le> k \<and> k < length text \<and> text ! k = m \<and>
         (\<forall>j. from \<le> j \<and> j < k \<longrightarrow> text ! j \<noteq> m))" for m
  proof (cases "find_at [m] (drop from text)")
    case None
    have "text ! j \<noteq> m" if "from \<le> j" "j < length text" for j
      using find_at_None [THEN iffD1, OF None, rule_format, of "j - from"] that hit [of m j] by simp
    then show ?thesis using None by (simp add: py_find_def)
  next
    case (Some i)
    note f = find_at_Some [THEN iffD1, OF Some]
    have k: "from + i < length text" "text ! (from + i) = m" using f hit [of m "from + i"] by (simp_all add: add.commute)
    have "text ! j \<noteq> m" if "from \<le> j" "j < from + i" for j
    proof -
      have "j - from < i" using that by simp
      then have "\<not> prefix [m] (drop (j - from) (drop from text))" using f by blast
      then show ?thesis using that k(1) hit [of m j] by simp
    qed
    then show ?thesis using Some k by (intro disjI2 exI [of _ "from + i"]) (simp add: py_find_def)
  qed
  show ?thesis
  proof (cases cands)
    case Nil
    have "py_find text [m] from < 0" if "m \<in> set sentence_marks" for m
    proof (rule ccontr)
      assume "\<not> py_find text [m] from < 0"
      then have "py_find text [m] from \<in> set cands" unfolding assms(1) using that by auto
      then show False using Nil by simp
    qed
    then have "text ! j \<notin> set sentence_marks" if "from \<le> j" "j < length text" for j
      using pf [of "text ! j"] that by force
    then show ?thesis using Nil assms(2,3) by auto
  next
    case (Cons x xs)
    have stop: "stop - 1 = foldr min xs x" using Cons assms(2) by simp
    then have "stop - 1 \<in> set cands" using foldr_min_mem [of xs x] Cons by auto
    then obtain m where m: "m \<in> set sentence_marks" "stop - 1 = py_find text [m] from" "0 \<le> stop - 1"
      by (auto simp: assms(1))
    have le: "stop - 1 \<le> py_find text [n] from" if "n \<in> set sentence_marks" "0 \<le> py_find text [n] from" for n
    proof -
      have "py_find text [n] from \<in> set cands" unfolding assms(1) using that by auto
      then show ?thesis unfolding stop by (intro foldr_min_le) (simp add: Cons)
    qed
    obtain k where k: "stop - 1 = int k" "from \<le> k" "k < length text" "text ! k = m"
      using pf [of m] m(2,3) by auto
    have "text ! j \<notin> set sentence_marks" if "from \<le> j" "int j < stop - 1" for j
    proof
      assume n: "text ! j \<in> set sentence_marks"
      have "j < length text" using that k by simp
      from pf [of "text ! j"] show False
      proof
        assume "py_find text [text ! j] from = -1 \<and>
          (\<forall>ja. from \<le> ja \<and> ja < length text \<longrightarrow> text ! ja \<noteq> text ! j)"
        then show False using \<open>j < length text\<close> that(1) by blast
      next
        assume "\<exists>k. py_find text [text ! j] from = int k \<and> from \<le> k \<and> k < length text \<and>
          text ! k = text ! j \<and> (\<forall>ja. from \<le> ja \<and> ja < k \<longrightarrow> text ! ja \<noteq> text ! j)"
        then obtain k' where k': "py_find text [text ! j] from = int k'"
          "\<forall>ja. from \<le> ja \<and> ja < k' \<longrightarrow> text ! ja \<noteq> text ! j" by blast
        have "\<not> j < k'" using k'(2) that(1) by blast
        then show False using le [OF n] k'(1) that(2) by simp
      qed
    qed
    then show ?thesis using k m(1) by (auto simp: nat_add_distrib)
  qed
qed

section \<open>Properties\<close>

text \<open>A needle \<open>find_span\<close> passes over: too short after \<open>strip\<close>, or not in the text.\<close>

definition useless :: "string \<Rightarrow> string \<Rightarrow> bool" where
  "useless text n \<longleftrightarrow> length (py_strip n) < 3 \<or> \<not> sublist (py_strip n) text"

lemma sublist_at: "sublist nd text \<longleftrightarrow> (\<exists>j \<le> length text. prefix nd (drop j text))"
proof
  assume "sublist nd text"
  then obtain ps ss where "text = ps @ nd @ ss" by (auto simp: sublist_def)
  then show "\<exists>j \<le> length text. prefix nd (drop j text)" by (intro exI [of _ "length ps"]) simp
next
  assume "\<exists>j \<le> length text. prefix nd (drop j text)"
  then obtain j ss where "drop j text = nd @ ss" by (auto simp: prefix_def)
  then have "text = take j text @ nd @ ss" by (metis append_take_drop_id)
  then show "sublist nd text" unfolding sublist_def by blast
qed

lemma py_find_0:
  "py_find text nd 0 < 0 \<longleftrightarrow> \<not> sublist nd text"
  "0 \<le> py_find text nd 0 \<Longrightarrow> find_at nd text = Some (nat (py_find text nd 0))"
  by (auto simp: py_find_def sublist_at find_at_None [symmetric] split: option.splits)

lemma find_span_None: "find_span text ns = None \<longleftrightarrow> (\<forall>n \<in> set ns. useless text n)"
  by (induction ns) (auto simp: useless_def Let_def py_find_0(1))

lemma find_span_Some:
  assumes "find_span text ns = Some ab"
  obtains before n rest pos where "ns = before @ n # rest" "\<forall>m \<in> set before. useless text m"
    "3 \<le> length (py_strip n)" "find_at (py_strip n) text = Some pos" "ab = span_at text (py_strip n) pos"
  using assms
proof (induction ns arbitrary: thesis)
  case (Cons n ns)
  show ?case
  proof (cases "useless text n")
    case True
    then have "find_span text ns = Some ab"
      using Cons.prems(2) by (auto simp: useless_def Let_def py_find_0(1) [symmetric] split: if_splits)
    from Cons.IH [OF _ this] obtain before k rest pos where "ns = before @ k # rest"
      "\<forall>m \<in> set before. useless text m" "3 \<le> length (py_strip k)"
      "find_at (py_strip k) text = Some pos" "ab = span_at text (py_strip k) pos" by metis
    then show ?thesis using Cons.prems(1) [of "n # before" k rest pos] True by simp
  next
    case False
    then have "3 \<le> length (py_strip n)" "0 \<le> py_find text (py_strip n) 0"
      by (auto simp: useless_def py_find_0(1) [symmetric])
    then show ?thesis using Cons.prems(2) py_find_0(2)
      by (intro Cons.prems(1) [of "[]" n ns "nat (py_find text (py_strip n) 0)"]) (simp_all add: Let_def)
  qed
qed simp

text \<open>
  The quotation shows what was found.  A span is cut around the first occurrence of the first
  usable needle: it lies in the text, begins right behind a sentence mark (or at the beginning)
  with no mark before the needle, is never empty and never longer than 200 characters, and holds
  the whole needle unless the sentence is longer than that.  No span means that no needle of at
  least three characters occurs in the text.
\<close>

theorem span_shows_the_needle:
  "case find_span text needles of
     None \<Rightarrow> \<forall>n \<in> set needles. useless text n
   | Some (a, b) \<Rightarrow> 0 \<le> a \<and> a < b \<and> b \<le> int (length text) \<and> b \<le> a + 200 \<and>
       (a = 0 \<or> text ! nat (a - 1) \<in> {CHR ''.'', CHR ''!'', CHR ''?'', CHR 0x0A}) \<and>
       (\<exists>before n rest pos. needles = before @ n # rest \<and> (\<forall>m \<in> set before. useless text m) \<and>
          \<not> useless text n \<and> prefix (py_strip n) (drop pos text) \<and>
          (\<forall>q < pos. \<not> prefix (py_strip n) (drop q text)) \<and> a \<le> int pos \<and>
          (\<forall>j. a \<le> int j \<and> j < pos \<longrightarrow> text ! j \<notin> {CHR ''.'', CHR ''!'', CHR ''?'', CHR 0x0A}) \<and>
          (int (pos + length (py_strip n)) \<le> a + 200 \<longrightarrow> int (pos + length (py_strip n)) \<le> b))"
proof (cases "find_span text needles")
  case None
  then have "\<forall>n \<in> set needles. useless text n" by (simp only: find_span_None)
  then show ?thesis by (simp only: None option.case)
next
  case (Some ab)
  from Some obtain before n rest pos where nd: "needles = before @ n # rest"
    "\<forall>m \<in> set before. useless text m" "3 \<le> length (py_strip n)"
    "find_at (py_strip n) text = Some pos" and ab: "ab = span_at text (py_strip n) pos"
    by (rule find_span_Some)
  let ?nd = "py_strip n"
  note f = find_at_Some [THEN iffD1, OF nd(4)]
  have used: "\<not> useless text n" using nd(3) f by (auto simp: useless_def sublist_at)
  have len: "pos + length ?nd \<le> length text" proof -
    have "length ?nd \<le> length text - pos" using f prefix_length_le [of ?nd "drop pos text"] by simp
    then show ?thesis using f by linarith
  qed
  define start where "start = foldr max (map (\<lambda>m. py_rfind text m pos) sentence_marks) (-1)"
  define cands where "cands = filter (\<lambda>i. 0 \<le> i) (map (\<lambda>m. py_find text [m] (pos + length ?nd)) sentence_marks)"
  define stop where "stop = (if cands \<noteq> [] then foldr min (tl cands) (hd cands) + 1 else int (length text))"
  note s1 = sentence_start [OF start_def conjunct1 [OF f]] and s2 = sentence_stop [OF cands_def stop_def len]
  have eq: "ab = (start + 1, min stop (start + 1 + 200))"
    using s1 ab by (simp add: span_at_def Let_def start_def cands_def stop_def quote_limit_def)
  have marks: "set sentence_marks = {CHR ''.'', CHR ''!'', CHR ''?'', CHR 0x0A}"
    by (simp add: sentence_marks_def)
  have a: "0 \<le> start + 1" "start + 1 = 0 \<or> text ! nat (start + 1 - 1) \<in> set sentence_marks"
    using s1 by force+
  have b: "start + 1 < min stop (start + 1 + 200)" "min stop (start + 1 + 200) \<le> int (length text)"
    "min stop (start + 1 + 200) \<le> start + 1 + 200"
    using s1 s2 nd(3) by linarith+
  have c: "start + 1 \<le> int pos" "\<forall>j. start + 1 \<le> int j \<and> j < pos \<longrightarrow> text ! j \<notin> set sentence_marks"
    using s1 by force+
  have d: "int (pos + length ?nd) \<le> start + 1 + 200 \<longrightarrow> int (pos + length ?nd) \<le> min stop (start + 1 + 200)"
    using s2 by linarith
  note e = nd(1,2) used conjunct1 [OF conjunct2 [OF f]] conjunct2 [OF conjunct2 [OF f]] c d
  show ?thesis
    unfolding Some eq option.case prod.case marks [symmetric]
    by (intro conjI exI [of _ before] exI [of _ n] exI [of _ rest] exI [of _ pos] a b e)
qed

section \<open>Witnesses\<close>

theorem span_shows_the_needle_witness:
  "find_span ''Dear all. The trip costs 15,00 EUR! Bye.'' [''7'', ''99,00'', '' 15,00 ''] = Some (9, 35) \<and>
   useless ''Dear all. The trip costs 15,00 EUR! Bye.'' ''99,00''"
proof -
  have f: "find_span ''Dear all. The trip costs 15,00 EUR! Bye.'' [''7'', ''99,00'', '' 15,00 ''] = Some (9, 35)"
    by code_simp
  have "py_strip ''99,00'' = ''99,00''" by code_simp
  moreover have "py_find ''Dear all. The trip costs 15,00 EUR! Bye.'' ''99,00'' 0 < 0" by code_simp
  ultimately have u: "useless ''Dear all. The trip costs 15,00 EUR! Bye.'' ''99,00''"
    by (simp add: useless_def py_find_0)
  show ?thesis
    using span_shows_the_needle [of "[''7'', ''99,00'', '' 15,00 '']"
      "''Dear all. The trip costs 15,00 EUR! Bye.''"] f u
    by simp
qed

end
