(* ===== verification/Commitments.thy ===== *)
theory Commitments
  imports Schema Interfaces
begin

text \<open>
  \<open>hermes_cloud/core/commitments.py\<close>: what the family believes, as statements with a status
  and a version.  The model only proposes candidates; a confirmation needs an approval that a
  person has already claimed; a new version points back to the one it replaces.
\<close>

section \<open>Model\<close>

datatype commitment_error =
    No_version uid
  | Not_approved
  | Not_candidate uid
  | Unknown_memory_kind string
  | Empty_text
  | Text_too_long
  | Dates_of_a_fact

fun claimed_status :: "approval_status \<Rightarrow> bool" where
  "claimed_status Ap_claimed = True"
| "claimed_status Ap_executing = True"
| "claimed_status Ap_done = True"
| "claimed_status _ = False"

definition is_belief :: "commitment \<Rightarrow> bool" where
  "is_belief c \<longleftrightarrow> co_status c = Confirmed"

definition commitment_get :: "uid \<Rightarrow> db \<Rightarrow> commitment option" where
  "commitment_get i d = tbl_get co_id i (t_commitments d)"

definition commitments_set :: "(commitment \<Rightarrow> bool) \<Rightarrow> (commitment \<Rightarrow> commitment) \<Rightarrow> db \<Rightarrow> db" where
  "commitments_set P f d = d\<lparr>t_commitments := tbl_update P f (t_commitments d)\<rparr>"

definition new_commitment ::
  "uid \<Rightarrow> string \<Rightarrow> json \<Rightarrow> uid option \<Rightarrow> real option \<Rightarrow> time option \<Rightarrow> uid option \<Rightarrow> time \<Rightarrow> commitment" where
  "new_commitment nid kind payload run conf obs prv now =
     \<lparr>co_id = nid, co_run_id = run, co_kind = kind, co_payload = payload, co_status = Candidate,
      co_supersedes = prv, co_confidence = conf, co_observed_at = obs, co_recorded_at = now,
      co_approval_id = None, co_reminder_id = None, co_calendar_event_id = None,
      co_updated_at = now\<rparr>"

definition commitment_propose ::
  "uid \<Rightarrow> string \<Rightarrow> json \<Rightarrow> uid option \<Rightarrow> real option \<Rightarrow> time option \<Rightarrow> uid option \<Rightarrow> time \<Rightarrow> db \<Rightarrow>
   (commitment_error + commitment option) \<times> db" where
  "commitment_propose nid kind payload run conf obs prv now d =
     (case write_tx (\<lambda>d.
        case (case prv of
                None \<Rightarrow> Inr d
              | Some s \<Rightarrow>
                  (case commitment_get s d of
                     None \<Rightarrow> Inl (No_version s)
                   | Some _ \<Rightarrow> Inr (commitments_set (\<lambda>c. co_id c = s)
                       (\<lambda>c. c\<lparr>co_status := Superseded, co_updated_at := now\<rparr>) d))) of
          Inl e \<Rightarrow> (Inl e, d)
        | Inr d1 \<Rightarrow> (Inr (), d1\<lparr>t_commitments := t_commitments d1 @
            [new_commitment nid kind payload run conf obs prv now]\<rparr>)) d of
        (Inl e, d') \<Rightarrow> (Inl e, d')
      | (Inr _, d') \<Rightarrow> (Inr (commitment_get nid d'), d'))"

definition commitment_confirm ::
  "uid \<Rightarrow> approval \<Rightarrow> time \<Rightarrow> db \<Rightarrow> (commitment_error + commitment option) \<times> db" where
  "commitment_confirm i a now d =
     (if \<not> claimed_status (ap_status a) then (Inl Not_approved, d)
      else let P = (\<lambda>c. co_id c = i \<and> co_status c = Candidate);
               changed = tbl_count P (t_commitments d);
               d' = commitments_set P (\<lambda>c. c\<lparr>co_status := Confirmed,
                      co_approval_id := Some (ap_id a), co_updated_at := now\<rparr>) d
           in if changed = 0 then (Inl (Not_candidate i), d') else (Inr (commitment_get i d'), d'))"

definition commitment_reject :: "uid \<Rightarrow> time \<Rightarrow> db \<Rightarrow> bool \<times> db" where
  "commitment_reject i now d =
     (let P = (\<lambda>c. co_id c = i \<and> co_status c = Candidate)
      in (tbl_count P (t_commitments d) \<noteq> 0,
          commitments_set P (\<lambda>c. c\<lparr>co_status := Rejected, co_updated_at := now\<rparr>) d))"

definition commitment_link :: "uid \<Rightarrow> uid option \<Rightarrow> string option \<Rightarrow> time \<Rightarrow> db \<Rightarrow> db" where
  "commitment_link i reminder calendar now =
     commitments_set (\<lambda>c. co_id c = i)
       (\<lambda>c. c\<lparr>co_reminder_id := coalesce reminder (co_reminder_id c),
               co_calendar_event_id := coalesce calendar (co_calendar_event_id c),
               co_updated_at := now\<rparr>)"

definition commitment_for_approval :: "uid \<Rightarrow> db \<Rightarrow> commitment option" where
  "commitment_for_approval a d =
     tbl_first co_recorded_at (\<lambda>c. co_approval_id c = Some a) (t_commitments d)"

definition commitments_confirmed :: "string option \<Rightarrow> nat \<Rightarrow> db \<Rightarrow> commitment list" where
  "commitments_confirmed kind limit d =
     take limit (sort_key (\<lambda>c. - co_recorded_at c)
       (filter (\<lambda>c. co_status c = Confirmed \<and> (case kind of None \<Rightarrow> True | Some k \<Rightarrow> co_kind c = k))
         (t_commitments d)))"

definition commitment_candidates :: "nat \<Rightarrow> db \<Rightarrow> commitment list" where
  "commitment_candidates limit d =
     take limit (sort_key (\<lambda>c. - co_recorded_at c)
       (filter (\<lambda>c. co_status c = Candidate) (t_commitments d)))"

definition commitment_chain :: "uid \<Rightarrow> db \<Rightarrow> commitment list" where
  "commitment_chain i d = chain_of co_id co_supersedes (t_commitments d) i"

definition latest_version_of :: "uid \<Rightarrow> db \<Rightarrow> commitment option option" where
  "latest_version_of i d =
     (case commitment_get i d of
        None \<Rightarrow> Some None
      | Some c \<Rightarrow> map_option Some
          (latest_from co_id co_supersedes co_recorded_at (t_commitments d) c))"

section \<open>Histories\<close>

datatype commitment_op =
    Propose uid string json "uid option" "real option" "time option" "uid option" time
  | Confirm uid approval time
  | Reject uid time
  | Link uid "uid option" "string option" time

fun commitment_step :: "commitment_op \<Rightarrow> db \<Rightarrow> db" where
  "commitment_step (Propose nid k p run conf obs prv now) d =
     snd (commitment_propose nid k p run conf obs prv now d)"
| "commitment_step (Confirm i a now) d = snd (commitment_confirm i a now d)"
| "commitment_step (Reject i now) d = snd (commitment_reject i now d)"
| "commitment_step (Link i r c now) d = commitment_link i r c now d"

text \<open>A proposal's id is a fresh, non-empty \<open>uuid4\<close>.\<close>

fun commitment_enabled :: "commitment_op \<Rightarrow> commitment list \<Rightarrow> bool" where
  "commitment_enabled (Propose nid k p run conf obs prv now) T \<longleftrightarrow>
     nid \<noteq> [] \<and> nid \<notin> set (map co_id T)"
| "commitment_enabled _ T \<longleftrightarrow> True"

definition commitment_table_step :: "commitment_op \<Rightarrow> commitment list \<Rightarrow> commitment list" where
  "commitment_table_step x T = t_commitments (commitment_step x (empty_db\<lparr>t_commitments := T\<rparr>))"

inductive commitments_reachable :: "commitment_op list \<Rightarrow> db \<Rightarrow> bool" where
  start: "t_commitments d = [] \<Longrightarrow> commitments_reachable [] d"
| step: "commitments_reachable xs d \<Longrightarrow> commitment_enabled x (t_commitments d) \<Longrightarrow>
    commitments_reachable (xs @ [x]) (commitment_step x d)"

section \<open>Lemmas\<close>

lemma propose_cases:
  obtains (unknown) s where "prv = Some s" "s \<notin> set (map co_id (t_commitments d))"
      "commitment_propose nid k p run conf obs prv now d = (Inl (No_version s), d)"
  | (new) res where "commitment_propose nid k p run conf obs prv now d = (Inr res,
       d\<lparr>t_commitments := tbl_update (\<lambda>c. prv = Some (co_id c))
            (\<lambda>c. c\<lparr>co_status := Superseded, co_updated_at := now\<rparr>) (t_commitments d) @
          [new_commitment nid k p run conf obs prv now]\<rparr>)"
      "\<And>s. prv = Some s \<Longrightarrow> s \<in> set (map co_id (t_commitments d))"
proof (cases prv)
  case None
  have "tbl_update (\<lambda>c. prv = Some (co_id c)) f (t_commitments d) = t_commitments d" for f
    using None by (intro tbl_update_none) simp
  then show thesis using that(2) None
    by (simp add: commitment_propose_def write_tx_def)
next
  case (Some s)
  show thesis
  proof (cases "commitment_get s d")
    case None
    then have "s \<notin> set (map co_id (t_commitments d))"
      by (simp only: commitment_get_def tbl_get_None_iff) simp
    then show thesis using that(1) [of s] Some None
      by (simp add: commitment_propose_def write_tx_def)
  next
    case (Some c)
    have eq: "(\<lambda>c. prv = Some (co_id c)) = (\<lambda>c. co_id c = s)" using \<open>prv = Some s\<close> by auto
    have "s \<in> set (map co_id (t_commitments d))"
      using Some tbl_get_SomeD by (fastforce simp: commitment_get_def)
    moreover have "commitment_propose nid k p run conf obs prv now d = (Inr (commitment_get nid
       (d\<lparr>t_commitments := tbl_update (\<lambda>c. co_id c = s)
            (\<lambda>c. c\<lparr>co_status := Superseded, co_updated_at := now\<rparr>) (t_commitments d) @
          [new_commitment nid k p run conf obs prv now]\<rparr>)),
       d\<lparr>t_commitments := tbl_update (\<lambda>c. co_id c = s)
            (\<lambda>c. c\<lparr>co_status := Superseded, co_updated_at := now\<rparr>) (t_commitments d) @
          [new_commitment nid k p run conf obs prv now]\<rparr>)"
      using Some \<open>prv = Some s\<close> by (simp add: commitment_propose_def write_tx_def commitments_set_def)
    ultimately show thesis using that(2) [unfolded eq] \<open>prv = Some s\<close> by blast
  qed
qed

lemma commitment_step_table:
  "t_commitments (commitment_step x d) = commitment_table_step x (t_commitments d)"
proof (cases x)
  case (Propose nid k p run conf obs prv now)
  have "t_commitments (snd (commitment_propose nid k p run conf obs prv now d)) =
      (if \<exists>s. prv = Some s \<and> s \<notin> set (map co_id (t_commitments d)) then t_commitments d
       else tbl_update (\<lambda>c. prv = Some (co_id c))
            (\<lambda>c. c\<lparr>co_status := Superseded, co_updated_at := now\<rparr>) (t_commitments d) @
          [new_commitment nid k p run conf obs prv now])" for d
    by (cases rule: propose_cases [of prv d nid k p run conf obs now]) auto
  moreover have "t_commitments (empty_db\<lparr>t_commitments := t_commitments d\<rparr>) = t_commitments d" by simp
  ultimately show ?thesis
    by (simp only: Propose commitment_table_step_def commitment_step.simps)
qed (simp_all add: commitment_table_step_def commitment_confirm_def commitment_reject_def
    commitment_link_def commitments_set_def Let_def)

lemma commitment_cols_update:
  assumes "\<And>c. co_id (f c) = co_id c" "\<And>c. co_supersedes (f c) = co_supersedes c"
  shows "map (\<lambda>c. (co_id c, co_supersedes c)) (tbl_update P f T) = map (\<lambda>c. (co_id c, co_supersedes c)) T"
  using assms by (simp add: tbl_update_def)

interpretation commitments: version_store co_id co_supersedes commitment_enabled commitment_table_step
proof unfold_locales
  fix x T
  assume en: "commitment_enabled x T"
  show "appends_version co_id co_supersedes T (commitment_table_step x T)"
  proof (cases x)
    case (Propose nid k p run conf obs prv now)
    then show ?thesis
      by (cases rule: propose_cases [of prv "empty_db\<lparr>t_commitments := T\<rparr>" nid k p run conf obs now])
        (use en in \<open>auto simp: appends_version_def commitment_table_step_def Let_def
          commitment_cols_update new_commitment_def\<close>)
  qed (simp_all add: appends_version_def commitment_table_step_def commitment_confirm_def
      commitment_reject_def commitment_link_def commitments_set_def Let_def commitment_cols_update)
qed

lemma reachable_table: "commitments_reachable xs d \<Longrightarrow>
    commitments.reachable_versions (t_commitments d) \<and>
    (\<forall>c \<in> set (t_commitments d). co_id c \<noteq> [] \<and> co_supersedes c \<noteq> Some [])"
proof (induction rule: commitments_reachable.induct)
  case (start d)
  then show ?case by (simp add: commitments.reachable_versions.intros(1))
next
  case (step xs d x)
  have ok: "\<forall>c \<in> set (t_commitments d). co_id c \<noteq> [] \<and> co_supersedes c \<noteq> Some []" using step.IH by simp
  have "\<forall>c \<in> set (t_commitments (commitment_step x d)). co_id c \<noteq> [] \<and> co_supersedes c \<noteq> Some []"
  proof (cases x)
    case (Propose nid k p run conf obs prv now)
    show ?thesis
    proof (cases rule: propose_cases [of prv d nid k p run conf obs now])
      case (new res)
      then have "prv \<noteq> Some []" using ok by fastforce
      then show ?thesis using new(1) step.hyps Propose ok by (auto simp: set_tbl_update new_commitment_def)
    qed (use Propose ok in auto)
  qed (use ok in \<open>auto simp: commitment_confirm_def commitment_reject_def commitment_link_def
      commitments_set_def Let_def set_tbl_update\<close>)
  then show ?case
    using step by (simp add: commitment_step_table commitments.reachable_versions.intros(2))
qed

text \<open>What a status may become.\<close>

definition status_moves :: "fact_status \<Rightarrow> fact_status \<Rightarrow> bool" where
  "status_moves a b \<longleftrightarrow> a = b \<or> b = Superseded \<or> a = Candidate"

definition same_fact :: "commitment \<Rightarrow> commitment \<Rightarrow> bool" where
  "same_fact c c' \<longleftrightarrow> co_id c' = co_id c \<and> co_kind c' = co_kind c \<and> co_payload c' = co_payload c \<and>
     co_supersedes c' = co_supersedes c \<and> status_moves (co_status c) (co_status c')"

lemma commitment_step_status:
  assumes "c \<in> set (t_commitments d)"
  shows "\<exists>c' \<in> set (t_commitments (commitment_step x d)). same_fact c c'"
proof (cases x)
  case (Propose nid k p run conf obs prv now)
  show ?thesis
  proof (cases rule: propose_cases [of prv d nid k p run conf obs now])
    case (new res)
    have "\<exists>c' \<in> set (tbl_update (\<lambda>c. prv = Some (co_id c))
            (\<lambda>c. c\<lparr>co_status := Superseded, co_updated_at := now\<rparr>) (t_commitments d)). same_fact c c'"
      by (rule tbl_update_related [OF assms]) (auto simp: same_fact_def status_moves_def)
    then show ?thesis using new Propose by auto
  qed (use assms Propose in \<open>auto simp: same_fact_def status_moves_def\<close>)
qed (use assms in \<open>auto simp: commitment_confirm_def commitment_reject_def commitment_link_def
    commitments_set_def Let_def same_fact_def status_moves_def intro!: tbl_update_related\<close>)

text \<open>Confirmed rows name the approval they were confirmed with.\<close>

definition backed :: "commitment_op list \<Rightarrow> commitment \<Rightarrow> bool" where
  "backed xs c \<longleftrightarrow> (co_status c = Confirmed \<longrightarrow>
     (\<exists>a now. Confirm (co_id c) a now \<in> set xs \<and> claimed_status (ap_status a) \<and>
        co_approval_id c = Some (ap_id a)))"

lemma backed_mono: "backed xs c \<Longrightarrow> set xs \<subseteq> set ys \<Longrightarrow> backed ys c"
  by (fastforce simp: backed_def)

lemma backed_step:
  assumes "\<And>c. c \<in> set (t_commitments d) \<Longrightarrow> backed xs c" "c \<in> set (t_commitments (commitment_step x d))"
  shows "backed (xs @ [x]) c"
proof -
  have old: "backed (xs @ [x]) c'" if "c' \<in> set (t_commitments d)" for c'
    by (rule backed_mono [OF assms(1) [OF that]]) auto
  show ?thesis
  proof (cases x)
    case (Propose nid k p run conf obs prv now)
    show ?thesis
      by (cases rule: propose_cases [of prv d nid k p run conf obs now])
        (use assms(2) old Propose in \<open>auto simp: backed_def new_commitment_def set_tbl_update
          split: if_splits\<close>)
  next
    case (Confirm i a now)
    show ?thesis
    proof (cases "claimed_status (ap_status a)")
      case True
      then have "c \<in> set (t_commitments d) \<or> co_id c = i \<and> co_approval_id c = Some (ap_id a)"
        using assms(2) Confirm by (auto simp: commitment_confirm_def commitments_set_def Let_def
            set_tbl_update split: if_splits)
      then show ?thesis using old True Confirm by (auto simp: backed_def)
    next
      case False
      then show ?thesis using assms(2) old Confirm by (simp add: commitment_confirm_def)
    qed
  next
    case (Reject i now)
    have "c \<in> set (t_commitments d) \<or> co_status c = Rejected"
      using assms(2) Reject by (auto simp: commitment_reject_def commitments_set_def Let_def
          set_tbl_update split: if_splits)
    then show ?thesis using old by (auto simp: backed_def)
  next
    case (Link i r cal now)
    obtain c0 where "c0 \<in> set (t_commitments d)" "co_id c0 = co_id c" "co_status c0 = co_status c"
      "co_approval_id c0 = co_approval_id c"
      using assms(2) Link by (auto simp: commitment_link_def commitments_set_def set_tbl_update
          split: if_splits)
    then show ?thesis using old [of c0] by (simp add: backed_def)
  qed
qed

lemma reachable_backed: "commitments_reachable xs d \<Longrightarrow> c \<in> set (t_commitments d) \<Longrightarrow> backed xs c"
  by (induction arbitrary: c rule: commitments_reachable.induct) (auto intro: backed_step)

section \<open>Properties\<close>

text \<open>
  C37 (facts need a person).  What \<open>confirmed\<close> lists after any history of the store are facts
  whose confirmation carried an approval a person had claimed; a candidate, a rejected and a
  superseded statement are never among them.
\<close>

theorem facts_need_a_claimed_approval:
  assumes "commitments_reachable history d" "c \<in> set (commitments_confirmed kind limit d)"
  shows "is_belief c \<and> (\<forall>k. kind = Some k \<longrightarrow> co_kind c = k) \<and>
    (\<exists>a now. Confirm (co_id c) a now \<in> set history \<and> claimed_status (ap_status a) \<and>
       co_approval_id c = Some (ap_id a))"
proof -
  have "c \<in> set (t_commitments d)" "co_status c = Confirmed" "\<forall>k. kind = Some k \<longrightarrow> co_kind c = k"
    using set_take_subset assms(2) by (fastforce simp: commitments_confirmed_def)+
  then show ?thesis
    using reachable_backed [OF assms(1), of c] by (auto simp: is_belief_def backed_def)
qed

text \<open>
  C38 (versions).  In every reachable table the chain of a statement starts at a first version,
  ends at the statement and repeats none, and \<open>latest_version_of\<close> returns a version that
  nothing replaces: neither loop of the source runs forever.
\<close>

theorem versions_are_chains:
  assumes "commitments_reachable history d" "i \<in> set (map co_id (t_commitments d))"
  shows "distinct (map co_id (commitment_chain i d)) \<and> commitment_chain i d \<noteq> [] \<and>
    co_id (last (commitment_chain i d)) = i \<and> co_supersedes (hd (commitment_chain i d)) = None \<and>
    (\<exists>n. latest_version_of i d = Some (Some n) \<and> n \<in> set (t_commitments d) \<and>
       (\<forall>x \<in> set (t_commitments d). co_supersedes x \<noteq> Some (co_id n)))"
proof -
  have r: "commitments.reachable_versions (t_commitments d)"
    "\<And>c. c \<in> set (t_commitments d) \<Longrightarrow> co_supersedes c \<noteq> Some []"
    using reachable_table [OF assms(1)] by auto
  note wf = commitments.reachable_wf [OF r(1)]
  obtain c where c: "tbl_get co_id i (t_commitments d) = Some c" using tbl_get_ex [OF assms(2)] by blast
  then have "c \<in> set (t_commitments d)" using tbl_get_SomeD by fast
  then obtain n where "latest_from co_id co_supersedes co_recorded_at (t_commitments d) c = Some n"
    "n \<in> set (t_commitments d)" "\<forall>x \<in> set (t_commitments d). co_supersedes x \<noteq> Some (co_id n)"
    using latest_from_terminates [OF wf] by blast
  moreover have "distinct (map co_id (commitment_chain i d))"
    using walk_distinct by (metis commitment_chain_def chain_of_def rev_map distinct_rev)
  ultimately show ?thesis
    using chain_of_root [OF wf assms(2) r(2)] c
    by (simp add: commitment_chain_def latest_version_of_def commitment_get_def)
qed

text \<open>
  A candidate hides the fact.  Proposing a new version marks the old one superseded at once:
  when the proposal is then rejected, a fact that was confirmed is listed no more, and neither
  is its replacement.
\<close>

theorem rejected_version_hides_the_fact:
  assumes "commitment_get s d = Some c" "co_status c = Confirmed" "nid \<notin> set (map co_id (t_commitments d))"
    and "d1 = snd (commitment_propose nid k p run conf obs (Some s) now d)"
    and "d2 = snd (commitment_reject nid later d1)"
    and "x \<in> set (commitments_confirmed kind limit d2)"
  shows "co_id x \<noteq> s \<and> co_id x \<noteq> nid"
proof -
  have s: "s \<in> set (map co_id (t_commitments d))"
    using assms(1) tbl_get_SomeD by (fastforce simp: commitment_get_def)
  have d1: "t_commitments d1 = tbl_update (\<lambda>c. Some s = Some (co_id c))
            (\<lambda>c. c\<lparr>co_status := Superseded, co_updated_at := now\<rparr>) (t_commitments d) @
          [new_commitment nid k p run conf obs (Some s) now]"
    by (cases rule: propose_cases [of "Some s" d nid k p run conf obs now]) (use s assms(4) in auto)
  have "x \<in> set (t_commitments d2)" "co_status x = Confirmed"
    using set_take_subset assms(6) by (fastforce simp: commitments_confirmed_def)+
  then have "x \<in> set (t_commitments d1)" "\<not> (co_id x = nid \<and> co_status x = Candidate)"
    using assms(5) by (auto simp: commitment_reject_def commitments_set_def Let_def set_tbl_update
        split: if_splits)
  then show ?thesis
    using d1 assms(3) \<open>co_status x = Confirmed\<close>
    by (auto simp: set_tbl_update new_commitment_def split: if_splits)
qed

section \<open>Witnesses\<close>

definition sample_yes :: approval where
  "sample_yes = \<lparr>ap_id = ''a1'', ap_event_id = None, ap_kind = ''fact'', ap_payload = JNull,
     ap_payload_sha = '''', ap_code_sha = '''', ap_chat = ''c'', ap_thread = None,
     ap_context_key = None, ap_actor = ''anna'', ap_claimed_by = Some ''anna'',
     ap_status = Ap_claimed, ap_last_error = None, ap_receipt = None, ap_created_at = 0,
     ap_expires_at = 900, ap_updated_at = 1\<rparr>"

definition sample_history :: "commitment_op list" where
  "sample_history = [Propose ''k1'' ''payment'' JNull None None None None 0, Confirm ''k1'' sample_yes 1,
     Propose ''k2'' ''payment'' JNull None None None (Some ''k1'') 2, Confirm ''k2'' sample_yes 3]"

definition sample_facts :: "commitment list" where
  "sample_facts =
     [(new_commitment ''k1'' ''payment'' JNull None None None None 0)\<lparr>co_status := Superseded,
        co_approval_id := Some ''a1'', co_updated_at := 2\<rparr>,
      (new_commitment ''k2'' ''payment'' JNull None None None (Some ''k1'') 2)\<lparr>co_status := Confirmed,
        co_approval_id := Some ''a1'', co_updated_at := 3\<rparr>]"

lemma sample_reachable:
  "commitments_reachable sample_history (empty_db\<lparr>t_commitments := sample_facts\<rparr>)"
proof -
  note evals = commitment_propose_def commitment_confirm_def commitments_set_def write_tx_def
    commitment_get_def tbl_get_def tbl_count_def sample_yes_def new_commitment_def Let_def
  let ?d1 = "commitment_step (Propose ''k1'' ''payment'' JNull None None None None 0) empty_db"
  let ?d2 = "commitment_step (Confirm ''k1'' sample_yes 1) ?d1"
  let ?d3 = "commitment_step (Propose ''k2'' ''payment'' JNull None None None (Some ''k1'') 2) ?d2"
  let ?d4 = "commitment_step (Confirm ''k2'' sample_yes 3) ?d3"
  have 0: "commitments_reachable [] empty_db" by (rule commitments_reachable.start) simp
  have "commitment_enabled (Propose ''k1'' ''payment'' JNull None None None None 0) (t_commitments empty_db)"
    by simp
  note 1 = commitments_reachable.step [OF 0 this]
  note 2 = commitments_reachable.step [OF 1, of "Confirm ''k1'' sample_yes 1", simplified commitment_enabled.simps, OF TrueI]
  have "commitment_enabled (Propose ''k2'' ''payment'' JNull None None None (Some ''k1'') 2) (t_commitments ?d2)"
    by (simp add: evals)
  note 3 = commitments_reachable.step [OF 2 this]
  note 4 = commitments_reachable.step [OF 3, of "Confirm ''k2'' sample_yes 3", simplified commitment_enabled.simps, OF TrueI]
  have "?d4 = empty_db\<lparr>t_commitments := sample_facts\<rparr>" by (simp add: evals sample_facts_def)
  then show ?thesis using 4 by (simp add: sample_history_def del: commitment_step.simps)
qed

theorem facts_need_a_claimed_approval_witness:
  "\<exists>c. c \<in> set (commitments_confirmed (Some ''payment'') 10 (empty_db\<lparr>t_commitments := sample_facts\<rparr>)) \<and>
     is_belief c \<and> co_approval_id c = Some ''a1''"
proof -
  let ?c = "sample_facts ! 1"
  have c: "?c \<in> set (commitments_confirmed (Some ''payment'') 10 (empty_db\<lparr>t_commitments := sample_facts\<rparr>))"
    by (simp add: commitments_confirmed_def sample_facts_def new_commitment_def)
  have "co_approval_id ?c = Some ''a1''" by (simp add: sample_facts_def)
  then show ?thesis using facts_need_a_claimed_approval [OF sample_reachable c] c by blast
qed

theorem versions_are_chains_witness:
  "commitment_chain ''k2'' (empty_db\<lparr>t_commitments := sample_facts\<rparr>) \<noteq> [] \<and>
   co_supersedes (hd (commitment_chain ''k2'' (empty_db\<lparr>t_commitments := sample_facts\<rparr>))) = None"
proof -
  have "''k2'' \<in> set (map co_id (t_commitments (empty_db\<lparr>t_commitments := sample_facts\<rparr>)))"
    by (simp add: sample_facts_def new_commitment_def)
  then show ?thesis using versions_are_chains [OF sample_reachable] by blast
qed

theorem rejected_version_hides_the_fact_witness:
  "\<exists>d c. commitment_get ''k2'' d = Some c \<and> co_status c = Confirmed \<and>
     (\<forall>x \<in> set (commitments_confirmed None 9 (snd (commitment_reject ''k3'' 5
        (snd (commitment_propose ''k3'' ''payment'' JNull None None None (Some ''k2'') 4 d))))).
      co_id x \<noteq> ''k2'')"
proof -
  let ?d = "empty_db\<lparr>t_commitments := sample_facts\<rparr>"
  have g: "commitment_get ''k2'' ?d = Some (sample_facts ! 1)" "co_status (sample_facts ! 1) = Confirmed"
    "''k3'' \<notin> set (map co_id (t_commitments ?d))"
    by (simp_all add: commitment_get_def tbl_get_def sample_facts_def new_commitment_def)
  show ?thesis using rejected_version_hides_the_fact [OF g refl refl] g by blast
qed

end
