(* ===== verification/Datetime.thy ===== *)
theory Datetime
  imports Payload
begin

text \<open>
  Python's \<open>datetime.date\<close> and \<open>datetime.datetime\<close> as the executors use them: the
  fields, \<open>isoformat\<close>, \<open>fromisoformat\<close> on the extended formats, the proleptic
  ordinal, adding a \<open>timedelta\<close> and \<open>astimezone(UTC)\<close>.  An aware value carries its
  offset in seconds east of UTC, a naive one carries none.
\<close>

record datetime =
  dt_year :: nat
  dt_month :: nat
  dt_day :: nat
  dt_hour :: nat
  dt_minute :: nat
  dt_second :: nat
  dt_micro :: nat
  dt_offset :: "int option"

section \<open>The calendar\<close>

definition is_leap :: "nat \<Rightarrow> bool" where
  "is_leap y \<longleftrightarrow> 4 dvd y \<and> (100 dvd y \<longrightarrow> 400 dvd y)"

definition days_in_month :: "nat \<Rightarrow> nat \<Rightarrow> nat" where
  "days_in_month y m =
     (if m = 2 then (if is_leap y then 29 else 28) else if m \<in> {4, 6, 9, 11} then 30 else 31)"

definition days_before_year :: "nat \<Rightarrow> nat" where
  "days_before_year y = (let k = y - 1 in k * 365 + k div 4 - k div 100 + k div 400)"

definition days_before_month :: "nat \<Rightarrow> nat \<Rightarrow> nat" where
  "days_before_month y m = sum_list (map (days_in_month y) [1..<m])"

definition ymd_ordinal :: "nat \<Rightarrow> nat \<Rightarrow> nat \<Rightarrow> nat" where
  "ymd_ordinal y m d = days_before_year y + days_before_month y m + d"

text \<open>\<open>_ord2ymd\<close>: periods of 400, 100, 4 years and 1 year, then the month.\<close>

definition ordinal_ymd :: "nat \<Rightarrow> nat \<times> nat \<times> nat" where
  "ordinal_ymd o1 =
     (let n = o1 - 1; n400 = n div 146097; n = n mod 146097; n100 = n div 36524; n = n mod 36524;
          n4 = n div 1461; n = n mod 1461; n1 = n div 365; n = n mod 365;
          year = n400 * 400 + 1 + n100 * 100 + n4 * 4 + n1
      in if n1 = 4 \<or> n100 = 4 then (year - 1, 12, 31)
         else let m0 = (n + 50) div 32;
                  month = (if days_before_month year m0 > n then m0 - 1 else m0)
              in (year, month, n - days_before_month year month + 1))"

definition valid_time :: "datetime \<Rightarrow> bool" where
  "valid_time t \<longleftrightarrow> dt_hour t < 24 \<and> dt_minute t < 60 \<and> dt_second t < 60 \<and> dt_micro t < 1000000"

definition valid_datetime :: "datetime \<Rightarrow> bool" where
  "valid_datetime t \<longleftrightarrow>
     1 \<le> dt_year t \<and> dt_year t \<le> 9999 \<and> 1 \<le> dt_month t \<and> dt_month t \<le> 12 \<and> 1 \<le> dt_day t \<and>
     dt_day t \<le> days_in_month (dt_year t) (dt_month t) \<and> valid_time t \<and>
     (case dt_offset t of None \<Rightarrow> True | Some off \<Rightarrow> \<bar>off\<bar> < 86400)"

section \<open>Arithmetic\<close>

definition to_micros :: "datetime \<Rightarrow> int" where
  "to_micros t =
     (((int (ymd_ordinal (dt_year t) (dt_month t) (dt_day t)) * 24 + int (dt_hour t)) * 60 +
        int (dt_minute t)) * 60 + int (dt_second t)) * 1000000 + int (dt_micro t)"

definition of_micros :: "int \<Rightarrow> int option \<Rightarrow> datetime" where
  "of_micros u off =
     (let s = u div 1000000; (y, m, d) = ordinal_ymd (nat (s div 86400)); r = nat (s mod 86400)
      in \<lparr>dt_year = y, dt_month = m, dt_day = d, dt_hour = r div 3600,
          dt_minute = r div 60 mod 60, dt_second = r mod 60, dt_micro = nat (u mod 1000000),
          dt_offset = off\<rparr>)"

definition add_seconds :: "datetime \<Rightarrow> int \<Rightarrow> datetime" where
  "add_seconds t k = of_micros (to_micros t + k * 1000000) (dt_offset t)"

text \<open>\<open>moment.astimezone(UTC)\<close> of an aware value.\<close>

definition to_utc :: "datetime \<Rightarrow> datetime" where
  "to_utc t = of_micros (to_micros t - (case dt_offset t of None \<Rightarrow> 0 | Some off \<Rightarrow> off) * 1000000) (Some 0)"

section \<open>Text\<close>

definition digit :: "nat \<Rightarrow> char" where "digit n = char_of (n + 48)"

definition pad2 :: "nat \<Rightarrow> string" where "pad2 n = [digit (n div 10), digit (n mod 10)]"

definition pad4 :: "nat \<Rightarrow> string" where "pad4 n = pad2 (n div 100) @ pad2 (n mod 100)"

definition pad6 :: "nat \<Rightarrow> string" where "pad6 n = pad2 (n div 10000) @ pad4 (n mod 10000)"

definition iso_date :: "nat \<Rightarrow> nat \<Rightarrow> nat \<Rightarrow> string" where
  "iso_date y m d = pad4 y @ ''-'' @ pad2 m @ ''-'' @ pad2 d"

definition iso_offset :: "int option \<Rightarrow> string" where
  "iso_offset off = (case off of None \<Rightarrow> []
     | Some k \<Rightarrow>
         (let a = nat \<bar>k\<bar>
          in (if k < 0 then ''-'' else ''+'') @ pad2 (a div 3600) @ '':'' @ pad2 (a div 60 mod 60) @
             (if a mod 60 = 0 then [] else '':'' @ pad2 (a mod 60))))"

definition iso_time :: "datetime \<Rightarrow> string" where
  "iso_time t = pad2 (dt_hour t) @ '':'' @ pad2 (dt_minute t) @ '':'' @ pad2 (dt_second t) @
     (if dt_micro t = 0 then [] else ''.'' @ pad6 (dt_micro t))"

definition isoformat :: "datetime \<Rightarrow> string" where
  "isoformat t =
     iso_date (dt_year t) (dt_month t) (dt_day t) @ ''T'' @ iso_time t @ iso_offset (dt_offset t)"

text \<open>Reading: digit groups of a fixed width, then the parts around their separators.\<close>

definition is_digit :: "char \<Rightarrow> bool" where
  "is_digit c \<longleftrightarrow> (let n = of_char c :: nat in 48 \<le> n \<and> n \<le> 57)"

definition digit_val :: "char \<Rightarrow> nat" where "digit_val c = of_char c - 48"

definition num :: "nat \<Rightarrow> string \<Rightarrow> nat option" where
  "num w s = (if length s = w \<and> list_all is_digit s
     then Some (foldl (\<lambda>a c. a * 10 + digit_val c) 0 s) else None)"

definition read_date :: "string \<Rightarrow> (nat \<times> nat \<times> nat) option" where
  "read_date s =
     (if length s = 10 \<and> s ! 4 = CHR ''-'' \<and> s ! 7 = CHR ''-'' then
        (case (num 4 (take 4 s), num 2 (take 2 (drop 5 s)), num 2 (drop 8 s)) of
           (Some y, Some m, Some d) \<Rightarrow>
             if 1 \<le> y \<and> 1 \<le> m \<and> m \<le> 12 \<and> 1 \<le> d \<and> d \<le> days_in_month y m then Some (y, m, d) else None
         | _ \<Rightarrow> None)
      else None)"

text \<open>\<open>HH[:MM[:SS[.f]]]\<close>, fractions cut or filled to six digits.\<close>

definition read_clock :: "string \<Rightarrow> (nat \<times> nat \<times> nat \<times> nat) option" where
  "read_clock s =
     (case num 2 (take 2 s) of None \<Rightarrow> None
      | Some h \<Rightarrow>
          if drop 2 s = [] then Some (h, 0, 0, 0)
          else (case num 2 (take 2 (drop 3 s)) of None \<Rightarrow> None
            | Some m \<Rightarrow>
                if s ! 2 \<noteq> CHR '':'' then None
                else if drop 5 s = [] then Some (h, m, 0, 0)
                else (case num 2 (take 2 (drop 6 s)) of None \<Rightarrow> None
                  | Some x \<Rightarrow>
                      if s ! 5 \<noteq> CHR '':'' then None
                      else if drop 8 s = [] then Some (h, m, x, 0)
                      else if s ! 8 \<in> {CHR ''.'', CHR '',''} \<and> drop 9 s \<noteq> [] \<and>
                          list_all is_digit (drop 9 s)
                        then (case num 6 (take 6 (drop 9 s @ replicate 6 (CHR ''0''))) of
                            None \<Rightarrow> None | Some f \<Rightarrow> Some (h, m, x, f))
                      else None)))"

definition read_offset :: "string \<Rightarrow> int option option" where
  "read_offset s =
     (case s of [] \<Rightarrow> Some None
      | c # r \<Rightarrow>
          if c = CHR ''Z'' then (if r = [] then Some (Some 0) else None)
          else (case read_clock r of None \<Rightarrow> None
            | Some (h, m, x, f) \<Rightarrow>
                if h < 24 \<and> m < 60 \<and> x < 60 \<and> f = 0 then
                  Some (Some ((if c = CHR ''-'' then -1 else 1) * int (h * 3600 + m * 60 + x)))
                else None))"

definition in_offset :: "char \<Rightarrow> bool" where
  "in_offset c \<longleftrightarrow> c \<in> {CHR ''+'', CHR ''-'', CHR ''Z''}"

definition fromisoformat :: "string \<Rightarrow> datetime option" where
  "fromisoformat s =
     (case read_date (take 10 s) of None \<Rightarrow> None
      | Some (y, m, d) \<Rightarrow>
          if drop 10 s = [] then
            Some \<lparr>dt_year = y, dt_month = m, dt_day = d, dt_hour = 0, dt_minute = 0, dt_second = 0,
                  dt_micro = 0, dt_offset = None\<rparr>
          else
            (let r = drop 11 s
             in case (read_clock (takeWhile (\<lambda>c. \<not> in_offset c) r),
                      read_offset (dropWhile (\<lambda>c. \<not> in_offset c) r)) of
                  (Some (h, mi, x, f), Some off) \<Rightarrow>
                    if h < 24 \<and> mi < 60 \<and> x < 60 then
                      Some \<lparr>dt_year = y, dt_month = m, dt_day = d, dt_hour = h, dt_minute = mi,
                            dt_second = x, dt_micro = f, dt_offset = off\<rparr>
                    else None
                | _ \<Rightarrow> None))"

section \<open>Reading back what was written\<close>

lemma of_char_digit: "n < 10 \<Longrightarrow> of_char (digit n) = n + 48"
  by (simp add: digit_def)

lemma digit_props [simp]:
  assumes "n < 10"
  shows "is_digit (digit n)" "digit_val (digit n) = n" "\<not> in_offset (digit n)"
proof -
  note n = of_char_digit [OF assms]
  show "is_digit (digit n)" "digit_val (digit n) = n"
    using assms by (simp_all add: is_digit_def digit_val_def n)
  have "of_char CHR ''+'' = (43::nat)" "of_char CHR ''-'' = (45::nat)"
    "of_char CHR ''Z'' = (90::nat)" by simp_all
  then show "\<not> in_offset (digit n)" using n assms by (auto simp: in_offset_def)
qed

lemma pads [simp]: "length (pad2 n) = 2" "length (pad4 n) = 4" "length (pad6 n) = 6"
  by (simp_all add: pad2_def pad4_def pad6_def)

lemma num_pad2: "n < 100 \<Longrightarrow> num 2 (pad2 n) = Some n"
  by (simp add: num_def pad2_def)

lemma num_pad4: "n < 10000 \<Longrightarrow> num 4 (pad4 n) = Some n"
  by (simp add: num_def pad4_def pad2_def)

lemma num_pad6: "n < 1000000 \<Longrightarrow> num 6 (pad6 n) = Some n"
  by (simp add: num_def pad6_def pad4_def pad2_def)

lemma pad_digits:
  "n < 100 \<Longrightarrow> c \<in> set (pad2 n) \<Longrightarrow> is_digit c \<and> \<not> in_offset c"
  "n < 1000000 \<Longrightarrow> c \<in> set (pad6 n) \<Longrightarrow> is_digit c \<and> \<not> in_offset c"
  by (auto simp: pad2_def pad4_def pad6_def)

lemma read_iso_date:
  assumes "1 \<le> y" "y \<le> 9999" "1 \<le> m" "m \<le> 12" "1 \<le> d" "d \<le> days_in_month y m"
  shows "read_date (iso_date y m d) = Some (y, m, d)" "length (iso_date y m d) = 10"
proof -
  have d: "d < 100" using assms(6) by (auto simp: days_in_month_def split: if_splits)
  have s: "iso_date y m d = pad4 y @ CHR ''-'' # pad2 m @ CHR ''-'' # pad2 d"
    by (simp add: iso_date_def)
  then show len: "length (iso_date y m d) = 10" by simp
  have parts: "take 4 (iso_date y m d) = pad4 y" "take 2 (drop 5 (iso_date y m d)) = pad2 m"
    "drop 8 (iso_date y m d) = pad2 d" "iso_date y m d ! 4 = CHR ''-''"
    "iso_date y m d ! 7 = CHR ''-''"
    by (simp_all add: s nth_append drop_Cons')
  have "num 4 (pad4 y) = Some y" "num 2 (pad2 m) = Some m" "num 2 (pad2 d) = Some d"
    using assms d by (auto intro: num_pad4 num_pad2)
  then show "read_date (iso_date y m d) = Some (y, m, d)"
    using assms by (simp add: read_date_def len parts)
qed

lemma read_pad_clock:
  assumes "h < 100" "m < 100" "x < 100"
  shows "read_clock (pad2 h @ '':'' @ pad2 m) = Some (h, m, 0, 0)"
    "read_clock (pad2 h @ '':'' @ pad2 m @ '':'' @ pad2 x) = Some (h, m, x, 0)"
    "f < 1000000 \<Longrightarrow>
      read_clock (pad2 h @ '':'' @ pad2 m @ '':'' @ pad2 x @ ''.'' @ pad6 f) = Some (h, m, x, f)"
proof -
  note n = num_pad2 [OF assms(1)] num_pad2 [OF assms(2)] num_pad2 [OF assms(3)]
  show "read_clock (pad2 h @ '':'' @ pad2 m) = Some (h, m, 0, 0)"
    "read_clock (pad2 h @ '':'' @ pad2 m @ '':'' @ pad2 x) = Some (h, m, x, 0)"
    by (simp_all add: read_clock_def n nth_append drop_Cons')
  assume f: "f < 1000000"
  then have "list_all is_digit (pad6 f)" "pad6 f \<noteq> []"
    using pad_digits(2) [OF f] pads(3) [of f] by (auto simp: list_all_iff simp del: pads)
  then show "read_clock (pad2 h @ '':'' @ pad2 m @ '':'' @ pad2 x @ ''.'' @ pad6 f) = Some (h, m, x, f)"
    by (simp add: read_clock_def n num_pad6 [OF f] nth_append drop_Cons')
qed

definition offset_text :: "nat \<Rightarrow> string" where
  "offset_text a = pad2 (a div 3600) @ '':'' @ pad2 (a div 60 mod 60) @
     (if a mod 60 = 0 then [] else '':'' @ pad2 (a mod 60))"

lemma read_offset_text:
  assumes "a < 86400" "c \<noteq> CHR ''Z''"
  shows "read_offset (c # offset_text a) = Some (Some ((if c = CHR ''-'' then - 1 else 1) * int a))"
proof -
  have b: "a div 3600 < 24" "a div 60 mod 60 < 60" "a mod 60 < 60" using assms by auto
  have "a div 3600 = a div 60 div 60" by (simp add: div_mult2_eq [symmetric])
  then have sum: "a div 3600 * 3600 + a div 60 mod 60 * 60 + a mod 60 = a"
    using div_mult_mod_eq [of "a div 60" 60] div_mult_mod_eq [of a 60] by linarith
  have h: "a div 3600 < 100" "a div 60 mod 60 < 100" "a mod 60 < 100" using b by linarith+
  have "read_clock (offset_text a) = Some (a div 3600, a div 60 mod 60, a mod 60, 0)"
    using read_pad_clock(1) [OF h] read_pad_clock(2) [OF h]
    by (cases "a mod 60 = 0") (simp_all only: offset_text_def if_True if_False append_Nil2 simp_thms)
  moreover have "c # offset_text a \<noteq> []" by simp
  ultimately show ?thesis
    using b by (simp only: read_offset_def list.case option.case prod.case assms(2) if_False sum
        simp_thms if_True)
qed

lemma iso_offset_eq:
  "iso_offset (Some k) = (if k < 0 then CHR ''-'' else CHR ''+'') # offset_text (nat \<bar>k\<bar>)"
  by (simp add: iso_offset_def offset_text_def Let_def)

lemma read_iso_offset:
  assumes "case off of None \<Rightarrow> True | Some k \<Rightarrow> \<bar>k\<bar> < 86400"
  shows "read_offset (iso_offset off) = Some off"
    "iso_offset off = [] \<or> in_offset (hd (iso_offset off))"
proof -
  show "read_offset (iso_offset off) = Some off"
  proof (cases off)
    case (Some k)
    then have "nat \<bar>k\<bar> < 86400" using assms by simp
    from read_offset_text [OF this] show ?thesis by (simp add: Some iso_offset_eq)
  qed (simp add: iso_offset_def read_offset_def)
  show "iso_offset off = [] \<or> in_offset (hd (iso_offset off))"
    by (cases off) (simp_all add: iso_offset_eq in_offset_def iso_offset_def [of None])
qed

lemma read_iso_time:
  assumes "valid_time t"
  shows "read_clock (iso_time t) = Some (dt_hour t, dt_minute t, dt_second t, dt_micro t)"
    "c \<in> set (iso_time t) \<Longrightarrow> \<not> in_offset c"
proof -
  have b: "dt_hour t < 100" "dt_minute t < 100" "dt_second t < 100" "dt_micro t < 1000000"
    using assms by (auto simp: valid_time_def)
  show "read_clock (iso_time t) = Some (dt_hour t, dt_minute t, dt_second t, dt_micro t)"
    using read_pad_clock(2,3) [OF b(1-3)] b(4) by (simp add: iso_time_def)
  show "c \<in> set (iso_time t) \<Longrightarrow> \<not> in_offset c"
    using pad_digits(1) [OF b(1)] pad_digits(1) [OF b(2)] pad_digits(1) [OF b(3)]
      pad_digits(2) [OF b(4)]
    by (auto simp: iso_time_def in_offset_def split: if_splits)
qed

lemma fromisoformat_isoformat:
  assumes "valid_datetime t"
  shows "fromisoformat (isoformat t) = Some t"
proof -
  let ?d = "iso_date (dt_year t) (dt_month t) (dt_day t)"
  let ?r = "iso_time t @ iso_offset (dt_offset t)"
  have v: "valid_time t" "case dt_offset t of None \<Rightarrow> True | Some k \<Rightarrow> \<bar>k\<bar> < 86400"
    using assms by (auto simp: valid_datetime_def)
  have date: "read_date ?d = Some (dt_year t, dt_month t, dt_day t)" "length ?d = 10"
    using assms by (auto simp: valid_datetime_def intro!: read_iso_date)
  have s: "isoformat t = ?d @ CHR ''T'' # ?r" by (simp add: isoformat_def)
  have sep: "take 10 (isoformat t) = ?d" "\<not> length (isoformat t) \<le> 10"
    "drop 11 (isoformat t) = ?r"
    using date(2) by (simp_all add: s)
  have off: "iso_offset (dt_offset t) = [] \<or> in_offset (hd (iso_offset (dt_offset t)))"
    using read_iso_offset(2) [OF v(2)] .
  have tw: "takeWhile (\<lambda>c. \<not> in_offset c) ?r = iso_time t"
    "dropWhile (\<lambda>c. \<not> in_offset c) ?r = iso_offset (dt_offset t)"
    using read_iso_time(2) [OF v(1)] off
    by (auto simp: takeWhile_append2 dropWhile_append2 takeWhile_eq_Nil_iff intro: dropWhile_hd_id)
  show ?thesis
    using v(1) by (simp add: fromisoformat_def sep date(1) tw read_iso_time(1) [OF v(1)]
        read_iso_offset(1) [OF v(2)] valid_time_def)
qed

text \<open>The written form has a \<open>T\<close> and no \<open>Z\<close>.\<close>

lemma isoformat_chars:
  assumes "valid_datetime t"
  shows "CHR ''T'' \<in> set (isoformat t)" "CHR ''Z'' \<notin> set (isoformat t)"
proof -
  show "CHR ''T'' \<in> set (isoformat t)" by (simp add: isoformat_def)
  have z: "\<And>n. n < 10 \<Longrightarrow> digit n \<noteq> CHR ''Z''"
    using digit_props(3) by (fastforce simp: in_offset_def)
  have p2: "CHR ''Z'' \<notin> set (pad2 n)" if "n < 100" for n
  proof -
    have "n div 10 < 10" "n mod 10 < 10" using that by auto
    then show ?thesis using z [of "n div 10"] z [of "n mod 10"] by (simp add: pad2_def)
  qed
  have p4: "CHR ''Z'' \<notin> set (pad4 n)" if "n < 10000" for n
    using p2 [of "n div 100"] p2 [of "n mod 100"] that by (simp add: pad4_def)
  have p6: "CHR ''Z'' \<notin> set (pad6 n)" if "n < 1000000" for n
    using p2 [of "n div 10000"] p4 [of "n mod 10000"] that by (simp add: pad6_def)
  have d: "dt_day t < 100"
    using assms by (auto simp: valid_datetime_def days_in_month_def split: if_splits)
  have "CHR ''Z'' \<notin> set (iso_date (dt_year t) (dt_month t) (dt_day t))"
    using assms p4 p2 d by (auto simp: iso_date_def valid_datetime_def)
  moreover have "CHR ''Z'' \<notin> set (iso_time t)"
    using assms p2 p6 by (auto simp: iso_time_def valid_datetime_def valid_time_def)
  moreover have "CHR ''Z'' \<notin> set (iso_offset (dt_offset t))"
  proof (cases "dt_offset t")
    case (Some k)
    define a where "a = nat \<bar>k\<bar>"
    have "a < 86400" using assms Some by (auto simp: valid_datetime_def a_def)
    then have "a div 3600 < 100" "a div 60 mod 60 < 100" "a mod 60 < 100" by auto
    from this [THEN p2] have "CHR ''Z'' \<notin> set (offset_text a)" by (simp add: offset_text_def)
    then show ?thesis by (simp add: Some iso_offset_eq a_def)
  qed (simp add: iso_offset_def)
  ultimately show "CHR ''Z'' \<notin> set (isoformat t)" by (simp add: isoformat_def)
qed

end
