(* ===== verification/Extractor.thy ===== *)
theory Extractor
  imports Datetime "HOL-Library.Sublist"
begin

text \<open>
  \<open>hermes_cloud/runner/extraction.py\<close>: what the model returns about a letter, and the
  boundary the letter is put behind.  The text of the letter goes between two delimiters, which
  are escaped inside it; the model itself is a parameter, the response it gave.
\<close>

section \<open>The structured result\<close>

type_synonym date = "nat \<times> nat \<times> nat"

datatype result_kind = Rk_event | Rk_payment | Rk_task | Rk_info | Rk_spam

record money =
  mo_amount_cents :: int
  mo_currency :: string

record sender_hint =
  sh_email :: string
  sh_name :: "string option"

record extraction_result =
  xr_kind :: result_kind
  xr_title :: string
  xr_summary :: string
  xr_source_language :: string
  xr_action_required :: bool
  xr_due_date :: "date option"
  xr_event_start :: "datetime option"
  xr_event_end :: "datetime option"
  xr_location :: "string option"
  xr_amount :: "money option"
  xr_responsible :: "string option"
  xr_original_sender :: "sender_hint option"
  xr_confidence :: real

definition kind_text :: "result_kind \<Rightarrow> string" where
  "kind_text k = (case k of Rk_event \<Rightarrow> ''event'' | Rk_payment \<Rightarrow> ''payment'' | Rk_task \<Rightarrow> ''task''
     | Rk_info \<Rightarrow> ''info'' | Rk_spam \<Rightarrow> ''spam'')"

record extraction =
  xt_result :: extraction_result
  xt_model :: string
  xt_input_tokens :: int
  xt_output_tokens :: int
  xt_cache_read_tokens :: int

section \<open>The boundary\<close>

definition content_open :: string where "content_open = ''<untrusted_email>''"

definition content_close :: string where "content_close = ''</untrusted_email>''"

text \<open>\<open>text.replace(old, new)\<close> with a non-empty \<open>old\<close>.\<close>

function replace_all :: "string \<Rightarrow> string \<Rightarrow> string \<Rightarrow> string" where
  "replace_all old new s =
     (if old = [] \<or> s = [] then s
      else if prefix old s then new @ replace_all old new (drop (length old) s)
      else hd s # replace_all old new (tl s))"
  by pat_completeness auto
termination
  by (relation "measure (\<lambda>(old, new, s). length s)") auto

declare replace_all.simps [simp del]

definition escaped_open :: string where "escaped_open = ''&lt;untrusted_email&gt;''"

definition escaped_close :: string where "escaped_close = ''&lt;/untrusted_email&gt;''"

definition escape_delimiters :: "string \<Rightarrow> string" where
  "escape_delimiters text =
     replace_all content_close escaped_close (replace_all content_open escaped_open text)"

record mail_attachment =
  mt_filename :: "string option"
  mt_content_type :: string
  mt_size :: nat

record original_sender =
  os_email :: string
  os_name :: "string option"
  os_method :: string
  os_confidence :: string

definition attachment_lines :: "mail_attachment list \<Rightarrow> string" where
  "attachment_lines as =
     (if as = [] then ''NONE''
      else join nl (map (\<lambda>a. ''- '' @ (case str_or_none (mt_filename a) of None \<Rightarrow> ''NO_NAME'' | Some f \<Rightarrow> f) @
        '' ('' @ mt_content_type a @ '', '' @ int_str (int (mt_size a)) @ '' BYTES)'') as))"

definition original_line :: "original_sender option \<Rightarrow> string" where
  "original_line os =
     (case os of None \<Rightarrow> ''NOT_FORWARDED''
      | Some o1 \<Rightarrow> os_email o1 @
          (case str_or_none (os_name o1) of None \<Rightarrow> [] | Some n \<Rightarrow> '' ('' @ n @ '')'') @
          ''; METHOD: '' @ os_method o1 @ '', CONFIDENCE '' @ os_confidence o1)"

definition metadata_lines ::
  "string \<Rightarrow> string option \<Rightarrow> original_sender option \<Rightarrow> mail_attachment list \<Rightarrow> string list" where
  "metadata_lines sender received os as =
     [''TRUSTED_METADATA:'', ''- FROM: '' @ sender,
      ''- RECEIVED: '' @ (case str_or_none received of None \<Rightarrow> ''UNKNOWN'' | Some r \<Rightarrow> r),
      ''- ORIGINAL_SENDER: '' @ original_line os, ''- ATTACHMENTS:'', attachment_lines as, [],
      ''UNTRUSTED_BELOW'']"

definition build_user_content ::
  "string \<Rightarrow> string \<Rightarrow> string \<Rightarrow> string option \<Rightarrow> original_sender option \<Rightarrow> mail_attachment list \<Rightarrow> string" where
  "build_user_content subject body sender received os as =
     join nl (metadata_lines sender received os as @
       [content_open, ''SUBJECT: '' @ escape_delimiters subject, [], escape_delimiters body,
        content_close])"

section \<open>The answer of the model\<close>

record response =
  rs_stop_reason :: "string option"
  rs_parsed :: extraction_result
  rs_model :: "string option"
  rs_usage :: "(int option \<times> int option \<times> int option) option"

datatype extraction_error = Extraction_refused

definition or_zero :: "int option \<Rightarrow> int" where
  "or_zero v = (case v of None \<Rightarrow> 0 | Some n \<Rightarrow> n)"

definition extract_text :: "string \<Rightarrow> (string \<Rightarrow> response) \<Rightarrow> string \<Rightarrow> extraction_error + extraction" where
  "extract_text model client content =
     (let r = client content;
          (i, out, cache) = (case rs_usage r of None \<Rightarrow> (None, None, None) | Some u \<Rightarrow> u)
      in if rs_stop_reason r = Some ''refusal'' then Inl Extraction_refused
         else Inr \<lparr>xt_result = rs_parsed r,
                   xt_model = (case rs_model r of None \<Rightarrow> model | Some m \<Rightarrow> m),
                   xt_input_tokens = or_zero i, xt_output_tokens = or_zero out,
                   xt_cache_read_tokens = or_zero cache\<rparr>)"

section \<open>Replacing leaves no delimiter\<close>

lemma replace_Nil [simp]: "replace_all old new [] = []"
  by (simp add: replace_all.simps)

lemma replace_hit:
  "old \<noteq> [] \<Longrightarrow> prefix old s \<Longrightarrow>
    replace_all old new s = new @ replace_all old new (drop (length old) s)"
  by (subst replace_all.simps) auto

lemma replace_miss:
  "\<not> prefix old (c # s) \<Longrightarrow> replace_all old new (c # s) = c # replace_all old new s"
  by (subst replace_all.simps) auto

lemma sublist_skip:
  assumes "sublist q (r @ t)" "q \<noteq> []" "hd q \<notin> set r"
  shows "sublist q t"
  using assms(1,3)
proof (induction r)
  case (Cons c r)
  have "\<not> prefix q (c # r @ t)" using Cons.prems(2) assms(2) by (cases q) auto
  then show ?case using Cons by (simp add: sublist_Cons_right)
qed simp

text \<open>
  A text \<open>new\<close> that begins with a character \<open>amp\<close> foreign to \<open>q\<close> and does not
  hold the first character of \<open>q\<close> creates no occurrence of \<open>q\<close>.
\<close>

definition inert :: "string \<Rightarrow> string \<Rightarrow> bool" where
  "inert new q \<longleftrightarrow> new \<noteq> [] \<and> q \<noteq> [] \<and> hd new \<notin> set q \<and> hd q \<notin> set new"

lemma replace_prefix:
  assumes "inert new q" "old \<noteq> []" "set p \<subseteq> set q" "prefix p (replace_all old new s)"
  shows "prefix p s"
  using assms(3,4)
proof (induction s arbitrary: p)
  case (Cons c s)
  show ?case
  proof (cases "prefix old (c # s)")
    case True
    then have "prefix p (new @ replace_all old new (drop (length old) (c # s)))"
      using Cons.prems(2) replace_hit assms(2) by metis
    moreover obtain a r where "new = a # r" "a \<notin> set q"
      using assms(1) by (cases new) (auto simp: inert_def)
    ultimately have "p = []" using Cons.prems(1) by (cases p) auto
    then show ?thesis by simp
  next
    case False
    then have "prefix p (c # replace_all old new s)" using Cons.prems(2) replace_miss by metis
    then show ?thesis using Cons by (cases p) auto
  qed
qed simp

lemma replace_creates_none:
  assumes "inert new q" "old \<noteq> []" "sublist q (replace_all old new s)"
  shows "sublist q s"
  using assms(3)
proof (induction "length s" arbitrary: s rule: less_induct)
  case less
  show ?case
  proof (cases s)
    case (Cons c t)
    show ?thesis
    proof (cases "prefix old s")
      case True
      then have "sublist q (replace_all old new (drop (length old) s))"
        using less.prems replace_hit [OF assms(2) True] sublist_skip assms(1)
        by (auto simp: inert_def)
      moreover have "length (drop (length old) s) < length s" using Cons assms(2) by simp
      ultimately have "sublist q (drop (length old) s)" using less.hyps by blast
      then show ?thesis by (meson sublist_drop sublist_order.order_trans)
    next
      case False
      then have eq: "replace_all old new s = c # replace_all old new t"
        using replace_miss Cons by metis
      then consider "prefix q (replace_all old new s)" | "sublist q (replace_all old new t)"
        using less.prems by (metis sublist_Cons_right)
      then show ?thesis
      proof cases
        case 1
        then show ?thesis using replace_prefix [OF assms(1,2) order_refl] by blast
      next
        case 2
        then show ?thesis using less.hyps [of t] Cons by (simp add: sublist_Cons_right)
      qed
    qed
  qed (use less.prems in simp)
qed

lemma replace_removes:
  assumes "inert new old"
  shows "\<not> sublist old (replace_all old new s)"
proof (induction "length s" arbitrary: s rule: less_induct)
  case less
  have ne: "old \<noteq> []" using assms by (simp add: inert_def)
  show ?case
  proof (cases s)
    case Nil
    then show ?thesis using ne by simp
  next
    case (Cons c t)
    show ?thesis
    proof (cases "prefix old s")
      case True
      have "\<not> sublist old (replace_all old new (drop (length old) s))"
        using less Cons ne by simp
      then show ?thesis
        using replace_hit [OF ne True] sublist_skip assms by (auto simp: inert_def)
    next
      case False
      then have eq: "replace_all old new s = c # replace_all old new t"
        using replace_miss Cons by metis
      have "\<not> prefix old (replace_all old new s)"
        using False replace_prefix [OF assms ne order_refl] by blast
      moreover have "\<not> sublist old (replace_all old new t)" using less Cons by simp
      ultimately show ?thesis by (simp only: eq sublist_Cons_right simp_thms)
    qed
  qed
qed

lemma inert_escapes:
  "inert escaped_open content_open" "inert escaped_close content_close"
  "inert escaped_close content_open"
  by (auto simp: inert_def escaped_open_def escaped_close_def content_open_def content_close_def)

lemma prefix_before:
  assumes "prefix q (a @ n # b)" "n \<notin> set q"
  shows "prefix q a"
  using assms
proof (induction a arbitrary: q)
  case Nil
  then show ?case by (cases q) auto
next
  case (Cons c a)
  then show ?case by (cases q) auto
qed

lemma sublist_split:
  assumes "sublist q (a @ n # b)" "n \<notin> set q"
  shows "sublist q a \<or> sublist q b"
  using assms(1)
proof (induction a)
  case Nil
  then have "prefix q ([] @ n # b) \<or> sublist q b" by (simp add: sublist_Cons_right)
  then show ?case using prefix_before assms(2) by fastforce
next
  case (Cons c a)
  then have "prefix q ((c # a) @ n # b) \<or> sublist q (a @ n # b)" by (simp add: sublist_Cons_right)
  then show ?case
    using prefix_before [OF _ assms(2)] Cons.IH by (meson prefix_imp_sublist sublist_Cons_right)
qed

lemma join_append: "xs \<noteq> [] \<Longrightarrow> ys \<noteq> [] \<Longrightarrow> join sep (xs @ ys) = join sep xs @ sep @ join sep ys"
proof (induction sep xs rule: join.induct)
  case (2 sep x)
  then show ?case by (cases ys) auto
qed auto

lemma join_mem: "x \<in> set xs \<Longrightarrow> sublist x (join sep xs)"
proof (induction sep xs rule: join.induct)
  case (3 sep u v zs)
  show ?case
  proof (cases "x = u")
    case True
    then show ?thesis using sublist_appendI [of u "[]"] by simp
  next
    case False
    then have "sublist x (join sep (v # zs))" using 3 by simp
    then show ?thesis
      by (metis join.simps(3) sublist_append_leftI sublist_order.order_trans)
  qed
qed auto

section \<open>Properties\<close>

text \<open>The lines between the delimiters.\<close>

definition letter_block :: "string \<Rightarrow> string \<Rightarrow> string" where
  "letter_block subject body =
     nl @ ''SUBJECT: '' @ escape_delimiters subject @ nl @ nl @ escape_delimiters body @ nl"

text \<open>
  A letter cannot leave its block.  The message for the model is the metadata, an opening
  delimiter, the letter and a closing delimiter, and whatever the subject and the body hold, the
  part between the two delimiters contains neither: escaping removes every occurrence, and the
  escapes with the text around them make no new one.
\<close>

theorem letter_stays_in_its_block:
  "build_user_content subject body sender received os as =
     join nl (metadata_lines sender received os as) @ nl @
     content_open @ letter_block subject body @ content_close \<and>
   \<not> sublist content_open (letter_block subject body) \<and>
   \<not> sublist content_close (letter_block subject body)"
proof -
  have esc: "\<not> sublist content_open (escape_delimiters t)" "\<not> sublist content_close (escape_delimiters t)"
    for t
  proof -
    have "\<not> sublist content_open (replace_all content_open escaped_open t)"
      by (rule replace_removes) (rule inert_escapes)
    then show "\<not> sublist content_open (escape_delimiters t)"
      using replace_creates_none [OF inert_escapes(3), of content_close]
      by (auto simp: escape_delimiters_def content_close_def)
    show "\<not> sublist content_close (escape_delimiters t)"
      unfolding escape_delimiters_def by (rule replace_removes) (rule inert_escapes)
  qed
  have block: "\<not> sublist q (letter_block subject body)"
    if q: "q \<in> {content_open, content_close}" for q
  proof
    assume "sublist q (letter_block subject body)"
    moreover have q': "hd q = CHR ''<''" "q \<noteq> []" "CHR 0x0A \<notin> set q"
      using q by (auto simp: content_open_def content_close_def)
    let ?n = "CHR 0x0A"
    let ?s = "''SUBJECT: '' @ escape_delimiters subject"
    have "letter_block subject body = [] @ ?n # (?s @ ?n # ([] @ ?n # (escape_delimiters body @ ?n # [])))"
      by (simp add: letter_block_def nl_def)
    ultimately consider "sublist q []" | "sublist q ?s" | "sublist q (escape_delimiters body)"
      by (metis sublist_split [OF _ q'(3)])
    then show False
    proof cases
      case 2
      have "hd q \<notin> set ''SUBJECT: ''" by (simp add: q')
      then have "sublist q (escape_delimiters subject)" using sublist_skip [OF 2 q'(2)] by blast
      then show False using esc q by blast
    qed (use esc q q'(2) in auto)
  qed
  have "metadata_lines sender received os as \<noteq> []" by (simp add: metadata_lines_def)
  then have "build_user_content subject body sender received os as =
     join nl (metadata_lines sender received os as) @ nl @
     content_open @ letter_block subject body @ content_close"
    by (simp add: build_user_content_def join_append letter_block_def)
  then show ?thesis using block by simp
qed

text \<open>
  The metadata is not escaped.  The name of an attachment is chosen by the sender like the
  body, but it is printed as it is, in the part announced as trusted: a name that holds a
  delimiter puts the delimiter outside the block.
\<close>

theorem attachment_names_are_not_escaped:
  assumes "a \<in> set as" "mt_filename a = Some f" "f \<noteq> []"
  shows "sublist f (join nl (metadata_lines sender received os as))"
proof -
  have ne: "as \<noteq> []" using assms(1) by auto
  let ?line = "\<lambda>a. ''- '' @ (case str_or_none (mt_filename a) of None \<Rightarrow> ''NO_NAME'' | Some f \<Rightarrow> f) @
        '' ('' @ mt_content_type a @ '', '' @ int_str (int (mt_size a)) @ '' BYTES)''"
  have "sublist f (?line a)"
    by (simp only: assms(2) str_or_none_def option.case assms(3) if_False) (rule sublist_appendI)
  also have "sublist (?line a) (attachment_lines as)"
    unfolding attachment_lines_def using ne assms(1) by (simp only: if_False) (rule join_mem, simp)
  also have "sublist (attachment_lines as) (join nl (metadata_lines sender received os as))"
    by (rule join_mem) (simp add: metadata_lines_def)
  finally show ?thesis .
qed

section \<open>Witnesses\<close>

definition sample_attachment :: mail_attachment where
  "sample_attachment =
     \<lparr>mt_filename = Some content_close, mt_content_type = ''text/plain'', mt_size = 1\<rparr>"

theorem attachment_names_are_not_escaped_witness:
  "sublist content_close (join nl (metadata_lines ''a@b.c'' None None [sample_attachment]))"
  by (rule attachment_names_are_not_escaped [of sample_attachment])
    (simp_all add: sample_attachment_def content_close_def)

end
