(* ===== verification/Cards.thy ===== *)
theory Cards
  imports Extractor
begin

text \<open>
  \<open>hermes_cloud/runner/card.py\<close> and \<open>hermes_cloud/runner/bundle.py\<close>: what a person sees
  before the yes.  A letter becomes a list of actions under one confirmation, each of which can
  be switched off; the payload of the bundle is the dict that is hashed, stored and executed.
  Labels of the cards are Russian literals in the source and ASCII tags here.
\<close>

section \<open>Cards\<close>

definition kind_reminder :: string where "kind_reminder = ''reminder''"
definition kind_calendar :: string where "kind_calendar = ''calendar''"
definition kind_ics :: string where "kind_ics = ''ics''"
definition kind_memory :: string where "kind_memory = ''memory''"
definition kind_export :: string where "kind_export = ''export''"
definition kind_delete :: string where "kind_delete = ''delete''"
definition kind_bundle :: string where "kind_bundle = ''bundle''"
definition kind_email :: string where "kind_email = ''email''"
definition kind_whatsapp :: string where "kind_whatsapp = ''whatsapp''"

lemmas kind_defs = kind_reminder_def kind_calendar_def kind_ics_def kind_memory_def
  kind_export_def kind_delete_def kind_bundle_def kind_email_def kind_whatsapp_def

datatype card_action = Act_confirm | Act_edit | Act_reject | Act_toggle

definition action_text :: "card_action \<Rightarrow> string" where
  "action_text a = (case a of Act_confirm \<Rightarrow> ''confirm'' | Act_edit \<Rightarrow> ''edit''
     | Act_reject \<Rightarrow> ''reject'' | Act_toggle \<Rightarrow> ''toggle'')"

definition low_confidence :: real where "low_confidence = 7 / 10"

record button =
  bt_label :: string
  bt_action :: card_action
  bt_approval_id :: uid
  bt_argument :: "string option"

definition callback_data :: "button \<Rightarrow> string" where
  "callback_data b =
     (let data = action_text (bt_action b) @ '':'' @ bt_approval_id b
      in case bt_argument b of None \<Rightarrow> data | Some a \<Rightarrow> data @ '':'' @ a)"

record card =
  cd_text :: string
  cd_buttons :: "button list"
  cd_proposal :: "json option"

definition actionable :: "card \<Rightarrow> bool" where "actionable c \<longleftrightarrow> cd_buttons c \<noteq> []"

definition upper_char :: "char \<Rightarrow> char" where
  "upper_char c = (let n = of_char c :: nat in if 97 \<le> n \<and> n \<le> 122 then char_of (n - 32) else c)"

text \<open>\<open>f"{amount_cents / 100:.2f} {currency.upper()}".replace(".", ",")\<close>: the quotient of an
  amount below \<open>2 ^ 52\<close> prints its own cents.\<close>

definition format_money :: "int \<Rightarrow> string \<Rightarrow> string" where
  "format_money cents currency =
     (let a = nat \<bar>cents\<bar>;
          s = (if cents < 0 then ''-'' else []) @ nat_digits (a div 100) @ ''.'' @ pad2 (a mod 100) @
              '' '' @ map upper_char currency
      in map (\<lambda>c. if c = CHR ''.'' then CHR '','' else c) s)"

definition format_date :: "date \<Rightarrow> string" where
  "format_date dt = (case dt of (y, m, d) \<Rightarrow> pad2 d @ ''.'' @ pad2 m @ ''.'' @ nat_digits y)"

definition date_of :: "datetime \<Rightarrow> date" where "date_of t = (dt_year t, dt_month t, dt_day t)"

definition format_datetime :: "datetime \<Rightarrow> string" where
  "format_datetime t = format_date (date_of t) @ '' '' @ pad2 (dt_hour t) @ '':'' @ pad2 (dt_minute t)"

definition opt_lines :: "'a option \<Rightarrow> ('a \<Rightarrow> string) \<Rightarrow> string list" where
  "opt_lines v f = (case v of None \<Rightarrow> [] | Some x \<Rightarrow> [f x])"

definition header_facts :: "extraction_result \<Rightarrow> string option \<Rightarrow> string list" where
  "header_facts r source =
     opt_lines (xr_amount r) (\<lambda>m. ''AMOUNT: '' @ format_money (mo_amount_cents m) (mo_currency m)) @
     opt_lines (xr_event_start r) (\<lambda>t. ''WHEN: '' @ format_datetime t) @
     opt_lines (xr_due_date r) (\<lambda>d. ''DUE: '' @ format_date d) @
     opt_lines (str_or_none (xr_location r)) (\<lambda>l. ''WHERE: '' @ l) @
     opt_lines (str_or_none (xr_responsible r)) (\<lambda>p. ''WHO: '' @ p) @
     opt_lines (xr_original_sender r) (\<lambda>s. ''SENDER: '' @
       (case str_or_none (sh_name s) of None \<Rightarrow> sh_email s
        | Some n \<Rightarrow> n @ '' <'' @ sh_email s @ ''>'')) @
     opt_lines (str_or_none source) id"

definition header_lines :: "extraction_result \<Rightarrow> string option \<Rightarrow> string list" where
  "header_lines r source =
     [xr_title r] @ (if xr_summary r = [] then [] else [[], xr_summary r]) @
     (let facts = header_facts r source in if facts = [] then [] else [] # facts)"

definition render_info :: "extraction_result \<Rightarrow> string option \<Rightarrow> card" where
  "render_info r source =
     (let lines = header_lines r source @
            (if xr_kind r = Rk_spam then [[], ''LOOKS_LIKE_SPAM'']
             else if \<not> xr_action_required r then [[], ''NO_ACTION_REQUIRED''] else [])
      in \<lparr>cd_text = join nl lines, cd_buttons = [], cd_proposal = None\<rparr>)"

section \<open>Items\<close>

record item =
  it_payload :: "(string \<times> json) list"
  it_enabled :: bool

definition item_kind :: "item \<Rightarrow> string" where
  "item_kind it = jtext (JObj (it_payload it)) ''kind''"

definition item_json :: "item \<Rightarrow> json" where
  "item_json it = JObj (dict_set (it_payload it) ''enabled'' (JBool (it_enabled it)))"

fun obj_fields :: "json \<Rightarrow> (string \<times> json) list" where
  "obj_fields (JObj d) = d"
| "obj_fields v = []"

definition item_of_json :: "json \<Rightarrow> item" where
  "item_of_json raw =
     (let d = obj_fields raw
      in \<lparr>it_payload = filter (\<lambda>(k, v). k \<noteq> ''enabled'') d,
          it_enabled = (case map_of d ''enabled'' of None \<Rightarrow> True | Some v \<Rightarrow> truthy v)\<rparr>)"

definition opt_json :: "string option \<Rightarrow> json" where
  "opt_json s = (case s of None \<Rightarrow> JNull | Some t \<Rightarrow> JStr t)"

definition reminder_text :: "extraction_result \<Rightarrow> string" where
  "reminder_text r =
     (case xr_amount r of None \<Rightarrow> xr_title r
      | Some m \<Rightarrow> ''PAY '' @ format_money (mo_amount_cents m) (mo_currency m) @ '' - '' @ xr_title r)"

definition date_text :: "date \<Rightarrow> string" where
  "date_text dt = (case dt of (y, m, d) \<Rightarrow> iso_date y m d)"

definition event_item :: "extraction_result \<Rightarrow> bool \<Rightarrow> datetime \<Rightarrow> item" where
  "event_item r calendar start =
     \<lparr>it_payload =
        [(''kind'', JStr (if calendar then kind_calendar else kind_ics)),
         (''title'', JStr (xr_title r)), (''start'', JStr (isoformat start)),
         (''end'', opt_json (map_option isoformat (xr_event_end r))),
         (''location'', opt_json (xr_location r)), (''description'', JStr (xr_summary r))],
      it_enabled = True\<rparr>"

definition reminder_item :: "extraction_result \<Rightarrow> date \<Rightarrow> item" where
  "reminder_item r due =
     \<lparr>it_payload =
        [(''kind'', JStr kind_reminder), (''text'', JStr (reminder_text r)),
         (''due_date'', JStr (date_text due)),
         (''amount_cents'', case xr_amount r of None \<Rightarrow> JNull | Some m \<Rightarrow> JInt (mo_amount_cents m)),
         (''currency'', opt_json (map_option mo_currency (xr_amount r))),
         (''responsible'', opt_json (xr_responsible r))],
      it_enabled = True\<rparr>"

definition items_for :: "extraction_result \<Rightarrow> bool \<Rightarrow> item list" where
  "items_for r calendar =
     (if xr_kind r \<in> {Rk_info, Rk_spam} \<or> \<not> xr_action_required r then []
      else
        (let items = (case xr_event_start r of None \<Rightarrow> [] | Some t \<Rightarrow> [event_item r calendar t]);
             due = coalesce (xr_due_date r) (map_option date_of (xr_event_start r));
             needs = xr_amount r \<noteq> None \<or> xr_kind r \<in> {Rk_payment, Rk_task}
         in case due of
              None \<Rightarrow> items
            | Some d \<Rightarrow> if needs \<or> items = [] then items @ [reminder_item r d] else items))"

section \<open>Bundles\<close>

definition bundle_payload :: "item list \<Rightarrow> string \<Rightarrow> json" where
  "bundle_payload items header =
     JObj [(''kind'', JStr kind_bundle), (''header'', JStr header),
           (''items'', JArr (map item_json items))]"

definition items_of :: "json \<Rightarrow> item list" where
  "items_of p = (case jget p ''items'' of JArr xs \<Rightarrow> map item_of_json xs | _ \<Rightarrow> [])"

definition enabled_items :: "json \<Rightarrow> item list" where
  "enabled_items p = filter it_enabled (items_of p)"

definition toggled :: "json \<Rightarrow> int \<Rightarrow> json" where
  "toggled p index =
     (let items = items_of p
      in if \<not> (0 \<le> index \<and> index < int (length items)) then p
         else
           (let i = nat index; it = items ! i
            in if it_enabled it \<and> length (filter it_enabled items) \<le> 1 then p
               else jset p ''items''
                 (JArr (map item_json (items[i := it\<lparr>it_enabled := \<not> it_enabled it\<rparr>])))))"

definition reconcile_item :: "uid option \<Rightarrow> item \<Rightarrow> item" where
  "reconcile_item prev_reminder it =
     (let p = it_payload it
      in \<lparr>it_payload =
            (if item_kind it \<in> {kind_calendar, kind_ics} then dict_set p ''update'' (JBool True)
             else if item_kind it = kind_reminder then
               (case str_or_none prev_reminder of None \<Rightarrow> p
                | Some r \<Rightarrow> dict_set p ''supersedes_reminder_id'' (JStr r))
             else p),
          it_enabled = it_enabled it\<rparr>)"

definition reconcile_items :: "item list \<Rightarrow> uid option \<Rightarrow> item list" where
  "reconcile_items items prev_reminder = map (reconcile_item prev_reminder) items"

text \<open>
  \<open>item_line\<close>: \<open>None\<close> is a raised \<open>KeyError\<close>, \<open>TypeError\<close> or
  \<open>ValueError\<close>; a text field holds a text.
\<close>

definition need :: "(string \<times> json) list \<Rightarrow> string \<Rightarrow> string option" where
  "need d k = (case map_of d k of Some (JStr s) \<Rightarrow> Some s | _ \<Rightarrow> None)"

definition date_fromiso :: "string \<Rightarrow> date option" where
  "date_fromiso s = read_date s"

definition item_line :: "item \<Rightarrow> string option" where
  "item_line it =
     (let d = it_payload it; p = JObj d; k = item_kind it
      in if k \<in> {kind_calendar, kind_ics} then
           (case Option.bind (need d ''start'') fromisoformat of None \<Rightarrow> None
            | Some t \<Rightarrow>
                (case need d ''title'' of None \<Rightarrow> None
                 | Some title \<Rightarrow>
                     Some ((if truthy (jget p ''update'')
                            then (if k = kind_calendar then ''UPDATE_IN_CALENDAR'' else ''NEW_EVENT_FILE'')
                            else (if k = kind_calendar then ''TO_CALENDAR'' else ''EVENT_FILE'')) @
                       '': '' @ title @ '' - '' @ format_datetime t @
                       (if truthy (jget p ''location'') then '', '' @ jtext p ''location'' else []))))
         else if k = kind_reminder then
           (case Option.bind (need d ''due_date'') date_fromiso of None \<Rightarrow> None
            | Some dt \<Rightarrow>
                map_option (\<lambda>t. (if truthy (jget p ''supersedes_reminder_id'')
                    then ''MOVE_REMINDER_TO'' else ''REMIND'') @ '' '' @ format_date dt @ '': '' @ t)
                  (need d ''text''))
         else if k = kind_email then
           (case (need d ''to'', need d ''subject'') of
              (Some to, Some subject) \<Rightarrow>
                Some (''LETTER'' @ nl @ ''   FROM: '' @
                  (if truthy (jget p ''from_address'') then jtext p ''from_address'' else ''NOT_SET'') @
                  nl @ ''   TO: '' @ to @ nl @ ''   SUBJECT: '' @ subject @
                  (let names = filter (\<lambda>n. n \<noteq> [])
                         (map (\<lambda>a. jtext a ''filename'')
                           (case jget p ''attachments'' of JArr xs \<Rightarrow> xs | _ \<Rightarrow> []))
                   in if names = [] then [] else nl @ ''   FILES: '' @ join '', '' names))
            | _ \<Rightarrow> None)
         else if k = kind_whatsapp then
           (case (need d ''to'', need d ''text'') of
              (Some to, Some t) \<Rightarrow>
                Some (''WHATSAPP'' @ nl @ ''   TO: '' @ to @ nl @ ''   TEXT: '' @ t)
            | _ \<Rightarrow> None)
         else Some (k @ '': '' @
           (if truthy (jget p ''title'') then jtext p ''title'' else jtext p ''text'')))"

definition mark_text :: "bool \<Rightarrow> string" where "mark_text b = (if b then ''[x]'' else ''[ ]'')"

fun item_rows :: "nat \<Rightarrow> bool \<Rightarrow> item list \<Rightarrow> string list option" where
  "item_rows i many [] = Some []"
| "item_rows i many (it # its) =
     (case item_line it of None \<Rightarrow> None
      | Some l \<Rightarrow>
          map_option (\<lambda>rows. (mark_text (it_enabled it) @ '' '' @
              (if many then nat_digits (i + 1) @ ''. '' else []) @ l) # rows)
            (item_rows (i + 1) many its))"

definition toggle_buttons :: "uid \<Rightarrow> item list \<Rightarrow> button list" where
  "toggle_buttons aid items =
     map (\<lambda>(i, it). \<lparr>bt_label = mark_text (it_enabled it) @ '' '' @ nat_digits (i + 1),
             bt_action = Act_toggle, bt_approval_id = aid, bt_argument = Some (nat_digits i)\<rparr>)
       (zip [0..<length items] items)"

definition render_bundle ::
  "extraction_result option \<Rightarrow> item list \<Rightarrow> uid option \<Rightarrow> string option \<Rightarrow> string option \<Rightarrow>
   string option \<Rightarrow> card option" where
  "render_bundle res items aid code source header =
     (case item_rows 0 (1 < length items) items of None \<Rightarrow> None
      | Some rows \<Rightarrow>
          (let head_lines = (case header of Some h \<Rightarrow> splitlines h
                 | None \<Rightarrow> (case res of None \<Rightarrow> [] | Some r \<Rightarrow> header_lines r source));
               warn = (case res of None \<Rightarrow> []
                 | Some r \<Rightarrow> if xr_confidence r < low_confidence then [[], ''CHECK_DATE_AND_AMOUNT''] else []);
               lines = head_lines @ warn @ [[], (if 1 < length items then ''TO_DO:'' else ''TO_DO?'')] @
                 rows @ [[], ''CONFIRM?''] @ opt_lines (str_or_none code) (\<lambda>c. ''CODE: '' @ c);
               buttons = (case str_or_none aid of None \<Rightarrow> []
                 | Some a \<Rightarrow> (if 1 < length items then toggle_buttons a items else []) @
                     [\<lparr>bt_label = ''YES'', bt_action = Act_confirm, bt_approval_id = a, bt_argument = None\<rparr>,
                      \<lparr>bt_label = ''EDIT'', bt_action = Act_edit, bt_approval_id = a, bt_argument = None\<rparr>,
                      \<lparr>bt_label = ''NO'', bt_action = Act_reject, bt_approval_id = a, bt_argument = None\<rparr>])
           in Some \<lparr>cd_text = join nl lines, cd_buttons = buttons,
                    cd_proposal = Some (bundle_payload items (join nl head_lines))\<rparr>))"

section \<open>Reading a bundle back\<close>

definition clean_item :: "item \<Rightarrow> bool" where
  "clean_item it \<longleftrightarrow> ''enabled'' \<notin> fst ` set (it_payload it)"

lemma filter_dict_set:
  "filter (\<lambda>(k, v). k \<noteq> q) (dict_set d q v) = filter (\<lambda>(k, v). k \<noteq> q) d"
  by (induction d q v rule: dict_set.induct) auto

lemma map_of_dict_set: "map_of (dict_set d q v) k = (if k = q then Some v else map_of d k)"
  by (induction d q v rule: dict_set.induct) auto

lemma item_of_item_json [simp]:
  assumes "clean_item it"
  shows "item_of_json (item_json it) = it"
proof -
  have "filter (\<lambda>(k, v). k \<noteq> ''enabled'') (it_payload it) = it_payload it"
    using assms by (force simp: clean_item_def filter_id_conv)
  then show ?thesis
    by (simp add: item_of_json_def item_json_def filter_dict_set map_of_dict_set)
qed

lemma clean_item_of_json [simp]: "clean_item (item_of_json raw)"
  by (auto simp: clean_item_def item_of_json_def Let_def)

lemma items_of_clean: "it \<in> set (items_of p) \<Longrightarrow> clean_item it"
  by (auto simp: items_of_def split: json.splits)

lemma map_item_json: "list_all clean_item its \<Longrightarrow> map item_of_json (map item_json its) = its"
  by (induction its) auto

lemma items_of_set_items:
  assumes "list_all clean_item its"
  shows "items_of (jset (JObj d) ''items'' (JArr (map item_json its))) = its"
proof -
  have "jget (jset (JObj d) ''items'' (JArr (map item_json its))) ''items'' = JArr (map item_json its)"
    by simp
  then show ?thesis using map_item_json [OF assms] by (simp only: items_of_def json.case)
qed

lemma clean_update:
  assumes "list_all clean_item its" "i < length its"
  shows "list_all clean_item (its[i := (its ! i)\<lparr>it_enabled := b\<rparr>])"
proof -
  have "clean_item ((its ! i)\<lparr>it_enabled := b\<rparr>)"
    using assms by (simp add: clean_item_def list_all_length)
  then show ?thesis using assms(1) by (auto simp: list_all_iff dest!: set_update_subset_insert [THEN subsetD])
qed

lemma toggled_cases:
  obtains (same) "toggled (JObj d) index = JObj d"
  | (flip) i it where "index = int i" "i < length (items_of (JObj d))" "it = items_of (JObj d) ! i"
      "it_enabled it \<Longrightarrow> 1 < length (filter it_enabled (items_of (JObj d)))"
      "items_of (toggled (JObj d) index) =
        (items_of (JObj d))[i := it\<lparr>it_enabled := \<not> it_enabled it\<rparr>]"
      "toggled (JObj d) index = jset (JObj d) ''items'' (JArr (map item_json
        ((items_of (JObj d))[i := it\<lparr>it_enabled := \<not> it_enabled it\<rparr>])))"
proof -
  let ?its = "items_of (JObj d)"
  let ?i = "nat index"
  let ?it = "?its ! ?i"
  have clean: "list_all clean_item ?its" using items_of_clean by (auto simp: list_all_iff)
  show thesis
  proof (cases "0 \<le> index \<and> index < int (length ?its) \<and>
      \<not> (it_enabled ?it \<and> length (filter it_enabled ?its) \<le> 1)")
    case True
    then have i: "index = int ?i" "?i < length ?its" by auto
    have t: "toggled (JObj d) index = jset (JObj d) ''items'' (JArr (map item_json
        (?its[?i := ?it\<lparr>it_enabled := \<not> it_enabled ?it\<rparr>])))"
      using True by (simp only: toggled_def Let_def simp_thms if_False if_True not_le)
    have "items_of (toggled (JObj d) index) = ?its[?i := ?it\<lparr>it_enabled := \<not> it_enabled ?it\<rparr>]"
      unfolding t by (rule items_of_set_items) (rule clean_update [OF clean i(2)])
    then show thesis using flip [of ?i ?it] i t True by auto
  next
    case False
    then have "toggled (JObj d) index = JObj d" by (auto simp: toggled_def Let_def)
    then show thesis by (rule same)
  qed
qed

lemma filter_update_count:
  assumes "i < length xs" "P (xs ! i)"
  shows "length (filter P xs) \<le> Suc (length (filter P (xs[i := y])))"
  using assms
proof (induction xs arbitrary: i)
  case (Cons x xs)
  then show ?case by (cases i) auto
qed simp

section \<open>Properties\<close>

text \<open>
  What a switch changes.  Pressing a switch of a bundle either leaves the payload as it is or
  turns exactly one item over and keeps every other item and every other field; a bundle that
  had an enabled item keeps one, so what is confirmed is never an empty list of actions.
\<close>

theorem toggle_keeps_an_item:
  assumes "enabled_items (JObj d) \<noteq> []"
  shows "enabled_items (toggled (JObj d) index) \<noteq> [] \<and>
    map it_payload (items_of (toggled (JObj d) index)) = map it_payload (items_of (JObj d)) \<and>
    card {i. i < length (items_of (JObj d)) \<and>
      items_of (toggled (JObj d) index) ! i \<noteq> items_of (JObj d) ! i} \<le> 1 \<and>
    (\<forall>k. k \<noteq> ''items'' \<longrightarrow> jget (toggled (JObj d) index) k = jget (JObj d) k)"
proof (cases rule: toggled_cases [of d index])
  case same
  then show ?thesis using assms by simp
next
  case (flip i it)
  let ?its = "items_of (JObj d)"
  let ?new = "?its[i := it\<lparr>it_enabled := \<not> it_enabled it\<rparr>]"
  have "filter it_enabled ?new \<noteq> []"
  proof (cases "it_enabled it")
    case True
    then have "1 < Suc (length (filter it_enabled ?new))"
      using flip(3,4) filter_update_count [OF flip(2), of it_enabled] by (metis less_le_trans)
    then show ?thesis by auto
  next
    case False
    then have "it\<lparr>it_enabled := \<not> it_enabled it\<rparr> \<in> set ?new"
      "it_enabled (it\<lparr>it_enabled := \<not> it_enabled it\<rparr>)"
      using flip(2) by (auto intro: set_update_memI)
    then show ?thesis by (metis filter_empty_conv)
  qed
  moreover have "map it_payload ?new = map it_payload ?its"
    using flip(2,3) by (simp add: map_update list_update_same_conv)
  moreover have "{j. j < length ?its \<and> ?new ! j \<noteq> ?its ! j} \<subseteq> {i}"
    using nth_list_update_neq by fastforce
  then have "card {j. j < length ?its \<and> ?new ! j \<noteq> ?its ! j} \<le> card {i}"
    by (rule card_mono [rotated]) simp
  moreover have "\<forall>k. k \<noteq> ''items'' \<longrightarrow> jget (toggled (JObj d) index) k = jget (JObj d) k"
    unfolding flip(6) by simp
  ultimately show ?thesis by (simp add: enabled_items_def flip(5))
qed

text \<open>The dates of a result are real dates.\<close>

definition date_ok :: "date \<Rightarrow> bool" where
  "date_ok dt = (case dt of (y, m, d) \<Rightarrow> 1 \<le> y \<and> y \<le> 9999 \<and> 1 \<le> m \<and> m \<le> 12 \<and> 1 \<le> d \<and>
     d \<le> days_in_month y m)"

definition dates_ok :: "extraction_result \<Rightarrow> bool" where
  "dates_ok r \<longleftrightarrow> pred_option valid_datetime (xr_event_start r) \<and> pred_option date_ok (xr_due_date r)"

lemma date_fromiso_text: "date_ok dt \<Longrightarrow> date_fromiso (date_text dt) = Some dt"
  by (auto simp: date_ok_def date_fromiso_def date_text_def intro: read_iso_date(1) split: prod.splits)

lemma date_of_ok: "valid_datetime t \<Longrightarrow> date_ok (date_of t)"
  by (simp add: valid_datetime_def date_ok_def date_of_def)

lemma event_item_facts:
  "item_kind (event_item r c t) = (if c then kind_calendar else kind_ics)"
  "need (it_payload (event_item r c t)) ''start'' = Some (isoformat t)"
  "need (it_payload (event_item r c t)) ''title'' = Some (xr_title r)"
  "it_enabled (event_item r c t)" "clean_item (event_item r c t)"
  by (auto simp: item_kind_def event_item_def jtext_def jget_def dict_get_def need_def clean_item_def)

lemma reminder_item_facts:
  "item_kind (reminder_item r dt) = kind_reminder"
  "need (it_payload (reminder_item r dt)) ''due_date'' = Some (date_text dt)"
  "need (it_payload (reminder_item r dt)) ''text'' = Some (reminder_text r)"
  "it_enabled (reminder_item r dt)" "clean_item (reminder_item r dt)"
  by (auto simp: item_kind_def reminder_item_def jtext_def jget_def dict_get_def need_def clean_item_def)

lemma items_for_set:
  assumes "it \<in> set (items_for r c)"
  obtains t where "xr_event_start r = Some t" "it = event_item r c t"
  | dt where "coalesce (xr_due_date r) (map_option date_of (xr_event_start r)) = Some dt"
      "it = reminder_item r dt"
  using assms by (cases "xr_event_start r"; cases "coalesce (xr_due_date r) (map_option date_of (xr_event_start r))")
    (auto simp: items_for_def Let_def split: if_splits)

lemma item_line_event:
  assumes "valid_datetime t"
  shows "item_line (event_item r c t) \<noteq> None"
  using assms
  by (simp add: item_line_def Let_def event_item_facts fromisoformat_isoformat kind_defs)

lemma item_line_reminder:
  assumes "date_ok dt"
  shows "item_line (reminder_item r dt) \<noteq> None"
  using assms by (simp add: item_line_def Let_def reminder_item_facts date_fromiso_text kind_defs)

lemma item_rows_some: "(\<forall>it \<in> set its. item_line it \<noteq> None) \<Longrightarrow> item_rows i many its \<noteq> None"
  by (induction i many its rule: item_rows.induct) auto

lemma render_bundle_rows:
  "item_rows 0 (1 < length its) its \<noteq> None \<Longrightarrow> render_bundle res its aid code source header \<noteq> None"
  by (cases "item_rows 0 (1 < length its) its")
    (simp_all only: render_bundle_def option.case Let_def option.distinct simp_thms)

definition asks_for_something :: "extraction_result \<Rightarrow> bool" where
  "asks_for_something r \<longleftrightarrow> xr_kind r \<notin> {Rk_info, Rk_spam} \<and> xr_action_required r"

lemma deadline_ok:
  assumes "dates_ok r" "coalesce (xr_due_date r) (map_option date_of (xr_event_start r)) = Some dt"
  shows "date_ok dt"
  using assms date_of_ok by (cases "xr_due_date r") (auto simp: dates_ok_def)

lemma items_can_be_shown:
  assumes "dates_ok r" "it \<in> set (items_for r c)"
  shows "item_line it \<noteq> None"
  using assms(2)
proof (cases rule: items_for_set)
  case (1 t)
  then show ?thesis using assms(1) item_line_event by (simp add: dates_ok_def)
next
  case (2 dt)
  then show ?thesis using item_line_reminder deadline_ok [OF assms(1)] by simp
qed

lemma items_read_back: "items_of (bundle_payload (items_for r c) h) = items_for r c"
proof -
  have "clean_item it" if "it \<in> set (items_for r c)" for it
    using that by (cases rule: items_for_set) (simp_all add: event_item_facts reminder_item_facts)
  then show ?thesis
    using map_item_json [of "items_for r c"]
    by (simp add: items_of_def bundle_payload_def jget_def dict_get_def list_all_iff)
qed

text \<open>
  No deadline of a letter is lost.  A letter that asks for something becomes one enabled item
  per deadline: an event item whose start reads back as the event's own start, and, when there is
  money or a task, a reminder whose date reads back as the due date (the event's date when none
  is named); nothing comes out only when the letter names no date at all.  The card of these
  items can always be rendered, and its stored payload reads back as the same items.
\<close>

theorem letter_becomes_items:
  assumes "asks_for_something r" "dates_ok r"
  shows "(\<forall>t. xr_event_start r = Some t \<longrightarrow>
      (\<exists>it \<in> set (items_for r c). it_enabled it \<and> item_kind it \<in> {kind_calendar, kind_ics} \<and>
         Option.bind (need (it_payload it) ''start'') fromisoformat = Some t)) \<and>
    (\<forall>dt. coalesce (xr_due_date r) (map_option date_of (xr_event_start r)) = Some dt \<and>
        (xr_amount r \<noteq> None \<or> xr_kind r \<in> {Rk_payment, Rk_task}) \<longrightarrow>
      (\<exists>it \<in> set (items_for r c). it_enabled it \<and> item_kind it = kind_reminder \<and>
         Option.bind (need (it_payload it) ''due_date'') date_fromiso = Some dt)) \<and>
    (items_for r c = [] \<longleftrightarrow> xr_event_start r = None \<and> xr_due_date r = None) \<and>
    render_bundle (Some r) (items_for r c) aid code source header \<noteq> None \<and>
    items_of (bundle_payload (items_for r c) h) = items_for r c"
proof (intro conjI allI impI)
  have ok: "pred_option valid_datetime (xr_event_start r)" "pred_option date_ok (xr_due_date r)"
    using assms(2) by (auto simp: dates_ok_def)
  show "\<exists>it \<in> set (items_for r c). it_enabled it \<and> item_kind it \<in> {kind_calendar, kind_ics} \<and>
      Option.bind (need (it_payload it) ''start'') fromisoformat = Some t"
    if t: "xr_event_start r = Some t" for t
  proof (rule bexI [of _ "event_item r c t"])
    show "event_item r c t \<in> set (items_for r c)"
      using assms(1) t by (auto simp: items_for_def asks_for_something_def Let_def split: option.splits)
    show "it_enabled (event_item r c t) \<and> item_kind (event_item r c t) \<in> {kind_calendar, kind_ics} \<and>
        Option.bind (need (it_payload (event_item r c t)) ''start'') fromisoformat = Some t"
      using ok(1) t by (simp add: event_item_facts fromisoformat_isoformat)
  qed
  show "\<exists>it \<in> set (items_for r c). it_enabled it \<and> item_kind it = kind_reminder \<and>
      Option.bind (need (it_payload it) ''due_date'') date_fromiso = Some dt"
    if dt: "coalesce (xr_due_date r) (map_option date_of (xr_event_start r)) = Some dt \<and>
        (xr_amount r \<noteq> None \<or> xr_kind r \<in> {Rk_payment, Rk_task})" for dt
  proof (rule bexI [of _ "reminder_item r dt"])
    show "reminder_item r dt \<in> set (items_for r c)"
      using assms(1) dt by (auto simp: items_for_def asks_for_something_def Let_def)
    show "it_enabled (reminder_item r dt) \<and> item_kind (reminder_item r dt) = kind_reminder \<and>
        Option.bind (need (it_payload (reminder_item r dt)) ''due_date'') date_fromiso = Some dt"
      using deadline_ok [OF assms(2)] dt by (simp add: reminder_item_facts date_fromiso_text)
  qed
  show "items_for r c = [] \<longleftrightarrow> xr_event_start r = None \<and> xr_due_date r = None"
    using assms(1) by (cases "xr_due_date r")
      (auto simp: items_for_def asks_for_something_def Let_def split: option.splits)
  show "render_bundle (Some r) (items_for r c) aid code source header \<noteq> None"
    by (intro render_bundle_rows item_rows_some ballI items_can_be_shown [OF assms(2)])
  show "items_of (bundle_payload (items_for r c) h) = items_for r c" by (rule items_read_back)
qed

section \<open>Witnesses\<close>

definition sample_result :: extraction_result where
  "sample_result = \<lparr>xr_kind = Rk_event, xr_title = ''Trip'', xr_summary = ''Zoo'',
     xr_source_language = ''de'', xr_action_required = True, xr_due_date = Some (2026, 9, 8),
     xr_event_start = Some \<lparr>dt_year = 2026, dt_month = 9, dt_day = 12, dt_hour = 9,
       dt_minute = 30, dt_second = 0, dt_micro = 0, dt_offset = Some 7200\<rparr>,
     xr_event_end = None, xr_location = None,
     xr_amount = Some \<lparr>mo_amount_cents = 1500, mo_currency = ''EUR''\<rparr>, xr_responsible = None,
     xr_original_sender = None, xr_confidence = 1\<rparr>"

definition sample_bundle :: "(string \<times> json) list" where
  "sample_bundle = [(''items'', JArr [JObj [(''kind'', JStr ''ics'')], JObj [(''kind'', JStr ''reminder'')]])]"

theorem toggle_keeps_an_item_witness:
  "enabled_items (toggled (JObj sample_bundle) 0) \<noteq> [] \<and>
   map it_enabled (items_of (toggled (JObj sample_bundle) 0)) = [False, True]"
proof -
  have "enabled_items (JObj sample_bundle) \<noteq> []"
    by (simp add: sample_bundle_def enabled_items_def items_of_def jget_def dict_get_def item_of_json_def)
  from toggle_keeps_an_item [OF this, of 0] show ?thesis
    by (simp add: sample_bundle_def toggled_def items_of_def jget_def jset_def dict_get_def
        item_of_json_def item_json_def Let_def)
qed

theorem letter_becomes_items_witness:
  "length (items_for sample_result True) = 2 \<and>
   render_bundle (Some sample_result) (items_for sample_result True) None None None None \<noteq> None \<and>
   (\<exists>it \<in> set (items_for sample_result True).
      Option.bind (need (it_payload it) ''due_date'') date_fromiso = Some (2026, 9, 8))"
proof -
  have ask: "asks_for_something sample_result"
    by (simp add: asks_for_something_def sample_result_def)
  have ok: "dates_ok sample_result"
    by (simp add: dates_ok_def sample_result_def valid_datetime_def valid_time_def date_ok_def
        days_in_month_def)
  have "coalesce (xr_due_date sample_result) (map_option date_of (xr_event_start sample_result)) =
      Some (2026, 9, 8)" "xr_amount sample_result \<noteq> None"
    by (simp_all add: sample_result_def)
  then have "\<exists>it \<in> set (items_for sample_result True).
      Option.bind (need (it_payload it) ''due_date'') date_fromiso = Some (2026, 9, 8)"
    "render_bundle (Some sample_result) (items_for sample_result True) None None None None \<noteq> None"
    using letter_becomes_items [OF ask ok] by blast+
  moreover have "length (items_for sample_result True) = 2"
    by (simp add: items_for_def sample_result_def)
  ultimately show ?thesis by blast
qed

end
