(* ===== verification/Matching.thy ===== *)
theory Matching
  imports Evidence Commitments Cards
begin

text \<open>
  \<open>hermes_cloud/core/matching.py\<close> and \<open>update_lines\<close> of \<open>hermes_cloud/runner/bundle.py\<close>:
  is a new letter a new version of a fact the family already knows?  The answer weighs the
  sender's domain, the kind and the similarity of the titles; weights and ratios are exact reals.
  \<open>difflib.SequenceMatcher\<close> is written out, with its rule for popular characters.
\<close>

section \<open>The similarity of two texts\<close>

text \<open>
  \<open>SequenceMatcher(None, a, b)\<close>: in a text of 200 characters or more, a character that
  occurs in more than one place in a hundred starts no match.
\<close>

definition popular :: "string \<Rightarrow> char \<Rightarrow> bool" where
  "popular b c \<longleftrightarrow> 200 \<le> length b \<and> length b div 100 + 1 < count_list b c"

text \<open>
  \<open>find_longest_match\<close>.  \<open>j2len\<close> is a row with an entry for every place of \<open>b\<close>,
  zero where the dictionary has none.
\<close>

definition next_row :: "(char \<Rightarrow> bool) \<Rightarrow> string \<Rightarrow> nat list \<Rightarrow> char \<Rightarrow> nat list" where
  "next_row pop b row c = map2 (\<lambda>k x. if x = c \<and> \<not> pop c then Suc k else 0) (0 # row) b"

fun best_in_row :: "nat \<Rightarrow> nat \<Rightarrow> nat list \<Rightarrow> nat \<times> nat \<times> nat \<Rightarrow> nat \<times> nat \<times> nat" where
  "best_in_row i j [] best = best"
| "best_in_row i j (k # ks) (bi, bj, bk) =
     best_in_row i (Suc j) ks (if bk < k then (Suc i - k, Suc j - k, k) else (bi, bj, bk))"

fun scan_rows ::
  "(char \<Rightarrow> bool) \<Rightarrow> string \<Rightarrow> nat \<Rightarrow> nat list \<Rightarrow> string \<Rightarrow> nat \<times> nat \<times> nat \<Rightarrow> nat \<times> nat \<times> nat" where
  "scan_rows pop b i row [] best = best"
| "scan_rows pop b i row (c # a) best =
     (let row' = next_row pop b row c
      in scan_rows pop b (Suc i) row' a (best_in_row i 0 row' best))"

definition common :: "string \<Rightarrow> string \<Rightarrow> nat" where
  "common x y = length (takeWhile (\<lambda>(p, q). p = q) (zip x y))"

definition longest_match :: "(char \<Rightarrow> bool) \<Rightarrow> string \<Rightarrow> string \<Rightarrow> nat \<times> nat \<times> nat" where
  "longest_match pop a b =
     (case scan_rows pop b 0 (replicate (length b) 0) a (0, 0, 0) of
        (i, j, k) \<Rightarrow>
          let back = common (rev (take i a)) (rev (take j b));
              fwd = common (drop (i + k) a) (drop (j + k) b)
          in (i - back, j - back, k + back + fwd))"

text \<open>The invariants of the scan: a match found lies inside both texts.\<close>

lemma next_row_bound:
  assumes "\<forall>j < length row. row ! j \<le> i \<and> row ! j \<le> Suc j" "length row = length b"
  shows "length (next_row pop b row c) = length b \<and>
    (\<forall>j < length b. next_row pop b row c ! j \<le> Suc i \<and> next_row pop b row c ! j \<le> Suc j)"
proof -
  have "(0 # row) ! j \<le> i \<and> (0 # row) ! j \<le> j" if "j < length b" for j
    using assms that by (cases j) (auto simp: less_Suc_eq_le)
  then show ?thesis using assms(2) by (simp add: next_row_def)
qed

lemma best_in_row_bound:
  assumes "\<forall>m < length ks. ks ! m \<le> Suc i \<and> ks ! m \<le> Suc (j + m)" "j + length ks \<le> n"
    "bi + bk \<le> Suc i" "bj + bk \<le> n" "best_in_row i j ks (bi, bj, bk) = (bi', bj', bk')"
  shows "bi' + bk' \<le> Suc i \<and> bj' + bk' \<le> n"
  using assms
proof (induction ks arbitrary: j bi bj bk)
  case (Cons k ks)
  have "k \<le> Suc i" "k \<le> Suc j" using Cons.prems(1) by (auto dest!: spec [of _ 0])
  moreover have "\<forall>m < length ks. ks ! m \<le> Suc i \<and> ks ! m \<le> Suc (Suc j + m)"
    using Cons.prems(1) by (metis Suc_less_eq add_Suc add_Suc_right length_Cons nth_Cons_Suc)
  ultimately show ?case
    using Cons.IH [of "Suc j" bi bk bj] Cons.IH [of "Suc j" "Suc i - k" k "Suc j - k"] Cons.prems(2-5)
    by (cases "bk < k") auto
qed simp

lemma scan_rows_bound:
  assumes "\<forall>j < length row. row ! j \<le> i \<and> row ! j \<le> Suc j" "length row = length b"
    "bi + bk \<le> i" "bj + bk \<le> length b" "scan_rows pop b i row a (bi, bj, bk) = (bi', bj', bk')"
  shows "bi' + bk' \<le> i + length a \<and> bj' + bk' \<le> length b"
  using assms
proof (induction a arbitrary: i row bi bj bk)
  case (Cons c a)
  let ?row = "next_row pop b row c"
  note row = next_row_bound [OF Cons.prems(1,2), of pop c]
  obtain ci cj ck where best: "best_in_row i 0 ?row (bi, bj, bk) = (ci, cj, ck)" by (metis prod_cases3)
  have "ci + ck \<le> Suc i \<and> cj + ck \<le> length b"
    by (rule best_in_row_bound [OF _ _ _ _ best]) (use row Cons.prems(3,4) in auto)
  then show ?case
    using Cons.IH [of ?row "Suc i" ci ck cj] row Cons.prems(5) best by (simp add: Let_def)
qed simp

lemma common_le: "common x y \<le> length x" "common x y \<le> length y"
  unfolding common_def by (metis length_takeWhile_le length_zip min.boundedE)+

lemma longest_match_inside:
  assumes "longest_match pop a b = (i, j, k)"
  shows "i + k \<le> length a \<and> j + k \<le> length b"
proof -
  obtain i0 j0 k0 where s: "scan_rows pop b 0 (replicate (length b) 0) a (0, 0, 0) = (i0, j0, k0)"
    by (metis prod_cases3)
  have in0: "i0 + k0 \<le> length a" "j0 + k0 \<le> length b"
    using scan_rows_bound [OF _ _ _ _ s] by auto
  define bck where "bck = common (rev (take i0 a)) (rev (take j0 b))"
  define fwd where "fwd = common (drop (i0 + k0) a) (drop (j0 + k0) b)"
  have "bck \<le> i0" "bck \<le> j0"
    using common_le [of "rev (take i0 a)" "rev (take j0 b)"] by (auto simp: bck_def)
  moreover have "fwd \<le> length a - (i0 + k0)" "fwd \<le> length b - (j0 + k0)"
    using common_le [of "drop (i0 + k0) a" "drop (j0 + k0) b"] by (auto simp: fwd_def)
  moreover have "i = i0 - bck" "j = j0 - bck" "k = k0 + bck + fwd"
    using assms by (simp_all add: longest_match_def s bck_def fwd_def Let_def)
  ultimately show ?thesis using in0 by linarith
qed

text \<open>
  \<open>get_matching_blocks\<close> and \<open>ratio\<close>: the sum of the sizes of the blocks, each the longest
  match of what is left before and behind the block around it.
\<close>

function matched :: "(char \<Rightarrow> bool) \<Rightarrow> string \<Rightarrow> string \<Rightarrow> nat" where
  "matched pop a b =
     (case longest_match pop a b of
        (i, j, k) \<Rightarrow>
          if k = 0 then 0
          else k + (if 0 < i \<and> 0 < j then matched pop (take i a) (take j b) else 0) +
            (if i + k < length a \<and> j + k < length b
             then matched pop (drop (i + k) a) (drop (j + k) b) else 0))"
  by pat_completeness auto

termination
  by (relation "measure (\<lambda>(pop, a, b). length a)") (auto dest: longest_match_inside [OF sym])

declare matched.simps [simp del]

definition ratio :: "string \<Rightarrow> string \<Rightarrow> real" where
  "ratio a b =
     (if length a + length b = 0 then 1
      else 2 * real (matched (popular b) a b) / real (length a + length b))"

lemma matched_le: "matched pop a b \<le> length a \<and> matched pop a b \<le> length b"
proof (induction pop a b rule: matched.induct)
  case (1 pop a b)
  obtain i j k where m: "longest_match pop a b = (i, j, k)" by (metis prod_cases3)
  note inside = longest_match_inside [OF m]
  let ?l = "if 0 < i \<and> 0 < j then matched pop (take i a) (take j b) else 0"
  let ?r = "if i + k < length a \<and> j + k < length b then matched pop (drop (i + k) a) (drop (j + k) b) else 0"
  have eq: "matched pop a b = (if k = 0 then 0 else k + ?l + ?r)"
    by (subst matched.simps) (simp only: m prod.case)
  show ?case
  proof (cases "k = 0")
    case False
    have "?l \<le> i \<and> ?l \<le> j" using 1(1) [OF m [symmetric] refl False] inside by auto
    moreover have "?r \<le> length a - (i + k) \<and> ?r \<le> length b - (j + k)"
      using 1(2) [OF m [symmetric] refl False] by auto
    ultimately show ?thesis using eq False inside by (simp only: if_False) linarith
  qed (simp only: eq, simp)
qed

lemma ratio_bounds: "0 \<le> ratio a b \<and> ratio a b \<le> 1"
proof (cases "length a + length b = 0")
  case False
  have "2 * matched (popular b) a b \<le> length a + length b"
    using matched_le [of "popular b" a b] by linarith
  then have "2 * real (matched (popular b) a b) \<le> real (length a + length b)" by linarith
  then show ?thesis using False by (simp add: ratio_def divide_le_eq del: of_nat_add)
qed (simp add: ratio_def)

section \<open>Titles and scores\<close>

text \<open>
  \<open>\w\<close> of \<open>re\<close> on the characters of the model, and the words \<open>_NOISE\<close> drops; the
  Russian ones of the source have letters the model's strings do not hold.
\<close>

definition noise_words :: "string list" where
  "noise_words = [''klassenfahrt'', ''beitrag'', ''zahlung'', ''the'', ''der'', ''die'']"

text \<open>A word of \<open>_NOISE\<close> stands between two boundaries exactly if it is a whole run of word characters.\<close>

fun drop_noise :: "string \<Rightarrow> string \<Rightarrow> string" where
  "drop_noise run [] = (if rev run \<in> set noise_words then '' '' else rev run)"
| "drop_noise run (c # s) =
     (if word_char c then drop_noise (c # run) s
      else (if rev run \<in> set noise_words then '' '' else rev run) @ c # drop_noise [] s)"

definition normalize :: "string \<Rightarrow> string" where
  "normalize title =
     (let lowered = drop_noise [] (py_lower title)
      in join '' '' (py_split [] (map (\<lambda>c. if word_char c \<or> is_space c then c else CHR '' '') lowered)))"

definition title_similarity :: "string \<Rightarrow> string \<Rightarrow> real" where
  "title_similarity l r =
     (let a = normalize l; b = normalize r in if a = [] \<or> b = [] then 0 else ratio a b)"

definition weight_domain :: real where "weight_domain = 35 / 100"
definition weight_kind :: real where "weight_kind = 15 / 100"
definition weight_title :: real where "weight_title = 5 / 10"
definition sure_score :: real where "sure_score = 8 / 10"
definition maybe_score :: real where "maybe_score = 55 / 100"

definition score :: "bool \<Rightarrow> bool \<Rightarrow> string \<Rightarrow> string \<Rightarrow> real" where
  "score same_domain same_kind l r =
     (if same_domain then weight_domain else 0) + (if same_kind then weight_kind else 0) +
     weight_title * title_similarity l r"

section \<open>The match\<close>

record fact_match =
  fm_commitment :: commitment
  fm_score :: real

definition match_sure :: "fact_match \<Rightarrow> bool" where
  "match_sure m \<longleftrightarrow> sure_score \<le> fm_score m"

definition match_maybe :: "fact_match \<Rightarrow> bool" where
  "match_maybe m \<longleftrightarrow> maybe_score \<le> fm_score m \<and> fm_score m < sure_score"

definition title_of :: "json \<Rightarrow> string" where
  "title_of p = (if truthy (jget p ''title'') then jtext p ''title'' else jtext p ''text'')"

definition live_facts :: "nat \<Rightarrow> db \<Rightarrow> commitment list" where
  "live_facts limit d =
     take limit (sort_key (\<lambda>c. - co_recorded_at c)
       (filter (\<lambda>c. co_status c \<in> {Confirmed, Candidate}) (t_commitments d)))"

definition domain_of :: "commitment \<Rightarrow> db \<Rightarrow> string option" where
  "domain_of c d =
     (case co_run_id c of None \<Rightarrow> None
      | Some run \<Rightarrow> (case evidence_for_run run d of [] \<Rightarrow> None | r # _ \<Rightarrow> rf_sender_domain r))"

definition same_sender :: "string option \<Rightarrow> commitment \<Rightarrow> db \<Rightarrow> bool" where
  "same_sender sdom c d \<longleftrightarrow> str_or_none sdom \<noteq> None \<and> domain_of c d = sdom"

definition fact_score :: "string \<Rightarrow> string \<Rightarrow> string option \<Rightarrow> db \<Rightarrow> commitment \<Rightarrow> real" where
  "fact_score kind title sdom d c =
     score (same_sender sdom c d) (co_kind c = kind) title (title_of (co_payload c))"

fun best_of :: "(commitment \<Rightarrow> real) \<Rightarrow> fact_match option \<Rightarrow> commitment list \<Rightarrow> fact_match option" where
  "best_of f best [] = best"
| "best_of f best (c # cs) =
     best_of f (case best of
         None \<Rightarrow> Some \<lparr>fm_commitment = c, fm_score = f c\<rparr>
       | Some m \<Rightarrow> if fm_score m < f c then Some \<lparr>fm_commitment = c, fm_score = f c\<rparr> else best) cs"

definition find_match :: "string \<Rightarrow> string \<Rightarrow> string option \<Rightarrow> nat \<Rightarrow> db \<Rightarrow> fact_match option" where
  "find_match kind title sdom limit d =
     (case best_of (fact_score kind title sdom d) None (live_facts limit d) of
        None \<Rightarrow> None
      | Some m \<Rightarrow> if fm_score m < maybe_score then None else Some m)"

section \<open>What changed\<close>

definition tracked :: "string list" where
  "tracked = [''start'', ''due_date'', ''amount_cents'', ''location'', ''title'', ''text'']"

definition changes :: "json \<Rightarrow> json \<Rightarrow> (string \<times> json \<times> json) list" where
  "changes prev cur =
     map (\<lambda>f. (f, jget prev f, jget cur f))
       (filter (\<lambda>f. jget prev f \<noteq> jget cur f \<and> (jget prev f \<noteq> JNull \<or> jget cur f \<noteq> JNull)) tracked)"

definition field_label :: "string \<Rightarrow> string" where
  "field_label f = (if f = ''start'' then ''BEGIN'' else if f = ''due_date'' then ''DEADLINE''
     else if f = ''amount_cents'' then ''AMOUNT'' else if f = ''location'' then ''PLACE''
     else if f = ''title'' then ''TITLE'' else if f = ''text'' then ''TEXT'' else f)"

text \<open>
  \<open>str(value)\<close> of the values a fact holds; \<open>None\<close> is a raised exception.  \<open>py_str\<close>
  is the text of any other value.
\<close>

definition readable :: "(json \<Rightarrow> string) \<Rightarrow> string \<Rightarrow> json \<Rightarrow> string option" where
  "readable py_str f v =
     (let text = (case v of JStr t \<Rightarrow> t | _ \<Rightarrow> py_str v)
      in if v = JNull then Some ''-''
         else if f = ''amount_cents'' then
           (case v of JInt n \<Rightarrow> Some (format_money n []) | _ \<Rightarrow> None)
         else if f \<in> {''start'', ''end''} then
           map_option (\<lambda>t. case str_or_none (Some (format_datetime t)) of None \<Rightarrow> text | Some s \<Rightarrow> s) (fromisoformat text)
         else if f = ''due_date'' then
           map_option (\<lambda>t. case str_or_none (Some (format_date t)) of None \<Rightarrow> text | Some s \<Rightarrow> s) (date_fromiso text)
         else Some text)"

fun change_lines :: "(json \<Rightarrow> string) \<Rightarrow> (string \<times> json \<times> json) list \<Rightarrow> string list option" where
  "change_lines py_str [] = Some []"
| "change_lines py_str ((f, was, now) # delta) =
     (case (readable py_str f was, readable py_str f now, change_lines py_str delta) of
        (Some a, Some b, Some ls) \<Rightarrow> Some ((''- '' @ field_label f @ '': '' @ a @ '' -> '' @ b) # ls)
      | _ \<Rightarrow> None)"

definition update_lines :: "(json \<Rightarrow> string) \<Rightarrow> json \<Rightarrow> json \<Rightarrow> string list option" where
  "update_lines py_str prev cur =
     (let delta = changes prev cur
      in if delta = [] then Some [''NOTHING_CHANGED'']
         else map_option (\<lambda>ls. ''UPDATE. CHANGED:'' # ls) (change_lines py_str delta))"

section \<open>Lemmas\<close>

lemma similarity_bounds: "0 \<le> title_similarity l r \<and> title_similarity l r \<le> 1"
  using ratio_bounds by (simp add: title_similarity_def Let_def)

lemma best_of_spec:
  "(case best_of f best cs of
      None \<Rightarrow> best = None \<and> cs = []
    | Some m \<Rightarrow> (best = Some m \<or> (fm_commitment m \<in> set cs \<and> fm_score m = f (fm_commitment m))) \<and>
        (\<forall>c \<in> set cs. f c \<le> fm_score m) \<and> (\<forall>b. best = Some b \<longrightarrow> fm_score b \<le> fm_score m))"
proof (induction cs arbitrary: best)
  case (Cons c cs)
  let ?next = "case best of
         None \<Rightarrow> Some \<lparr>fm_commitment = c, fm_score = f c\<rparr>
       | Some m \<Rightarrow> if fm_score m < f c then Some \<lparr>fm_commitment = c, fm_score = f c\<rparr> else best"
  show ?case
    using Cons.IH [of ?next] by (auto split: option.splits if_splits)
qed (auto split: option.splits)

section \<open>Properties\<close>

text \<open>
  A fact is only replaced by its own sender.  The match is the best of the live facts
  looked at, confirmed or proposed, never a rejected or replaced one.  It is sure, so that the
  new letter becomes a new version, only if the letter's sender domain is known and is the one of
  the fact, and the titles are at least 60 percent alike (90 percent when the kinds differ);
  anything else found is shown beside the old fact.
\<close>

theorem sure_match_is_backed:
  assumes "find_match kind title sender limit d = Some m"
  shows "fm_commitment m \<in> set (t_commitments d) \<and> co_status (fm_commitment m) \<in> {Confirmed, Candidate} \<and>
    (\<forall>c \<in> set (live_facts limit d). fact_score kind title sender d c \<le> fact_score kind title sender d (fm_commitment m)) \<and>
    (if match_sure m
     then (\<exists>s. sender = Some s \<and> s \<noteq> [] \<and> domain_of (fm_commitment m) d = Some s) \<and>
       (if co_kind (fm_commitment m) = kind then 6 / 10 else 9 / 10)
         \<le> title_similarity title (title_of (co_payload (fm_commitment m)))
     else match_maybe m)"
proof -
  let ?c = "fm_commitment m" and ?f = "fact_score kind title sender d"
  have best: "best_of ?f None (live_facts limit d) = Some m" and enough: "maybe_score \<le> fm_score m"
    using assms by (auto simp: find_match_def split: option.splits if_splits)
  from best_of_spec [where f = ?f and best = None and cs = "live_facts limit d"]
  have m: "?c \<in> set (live_facts limit d)" "fm_score m = ?f ?c" "\<forall>c \<in> set (live_facts limit d). ?f c \<le> fm_score m"
    by (auto simp: best)
  have "set (live_facts limit d) \<subseteq> {c \<in> set (t_commitments d). co_status c \<in> {Confirmed, Candidate}}"
    unfolding live_facts_def using set_take_subset by fastforce
  then have live: "?c \<in> set (t_commitments d)" "co_status ?c \<in> {Confirmed, Candidate}" using m(1) by auto
  let ?t = "title_similarity title (title_of (co_payload ?c))"
  have t: "0 \<le> ?t" "?t \<le> 1" using similarity_bounds by auto
  have "same_sender sender ?c d \<and> (if co_kind ?c = kind then 6 / 10 else 9 / 10) \<le> ?t" if "match_sure m"
    using that t m(2) by (auto simp: match_sure_def fact_score_def score_def weight_domain_def
        weight_kind_def weight_title_def sure_score_def split: if_splits)
  moreover have "match_maybe m" if "\<not> match_sure m"
    using that enough by (simp add: match_sure_def match_maybe_def)
  ultimately show ?thesis
    using live m(2,3) by (auto simp: same_sender_def str_or_none_def split: option.splits if_splits)
qed

section \<open>Witnesses\<close>

definition sample_facts :: db where
  "sample_facts = empty_db\<lparr>
     t_refs := [\<lparr>rf_id = ''f'', rf_run_id = ''r'', rf_event_id = None, rf_sender_domain = Some ''schule.example'',
        rf_message_date = None, rf_content_sha = [], rf_span_start = None, rf_span_end = None, rf_created_at = 1\<rparr>],
     t_commitments := [new_commitment ''c'' ''event'' (JObj [(''title'', JStr ''Zoo trip'')]) (Some ''r'') None None None 1]\<rparr>"

lemma sample_similarity: "title_similarity ''The zoo trip!'' ''Zoo trip'' = 1"
proof -
  have "normalize ''The zoo trip!'' = ''zoo trip''" "normalize ''Zoo trip'' = ''zoo trip''" by code_simp+
  moreover have "matched (popular ''zoo trip'') ''zoo trip'' ''zoo trip'' = 8" by code_simp
  ultimately show ?thesis by (simp add: title_similarity_def ratio_def)
qed

theorem sure_match_is_backed_witness:
  "\<exists>m. find_match ''event'' ''The zoo trip!'' (Some ''schule.example'') 50 sample_facts = Some m \<and>
     match_sure m \<and> domain_of (fm_commitment m) sample_facts = Some ''schule.example''"
proof -
  let ?c = "new_commitment ''c'' ''event'' (JObj [(''title'', JStr ''Zoo trip'')]) (Some ''r'') None None None 1"
  have live: "live_facts 50 sample_facts = [?c]"
    by (simp add: live_facts_def sample_facts_def new_commitment_def)
  have dom: "domain_of ?c sample_facts = Some ''schule.example''"
    by (simp add: domain_of_def evidence_for_run_def sample_facts_def new_commitment_def)
  have title: "title_of (co_payload ?c) = ''Zoo trip''"
    by (simp add: title_of_def new_commitment_def jget_def dict_get_def jtext_def)
  have s: "fact_score ''event'' ''The zoo trip!'' (Some ''schule.example'') sample_facts ?c = 1"
    unfolding fact_score_def title sample_similarity score_def same_sender_def dom
    by (simp add: str_or_none_def weight_domain_def weight_kind_def weight_title_def new_commitment_def)
  have f: "find_match ''event'' ''The zoo trip!'' (Some ''schule.example'') 50 sample_facts =
      Some \<lparr>fm_commitment = ?c, fm_score = 1\<rparr>"
    by (simp add: find_match_def live s maybe_score_def)
  have "match_sure \<lparr>fm_commitment = ?c, fm_score = 1\<rparr>" by (simp add: match_sure_def sure_score_def)
  then show ?thesis using sure_match_is_backed [OF f] f by auto
qed

end
