(* ===== verification/Retention.thy ===== *)
theory Retention
  imports Evidence
begin

text \<open>
  \<open>hermes_cloud/core/retention.py\<close>: the daily clean-up.  What is old is blanked or
  deleted in one transaction, in the order of the code; the foreign keys of
  \<open>hermes_cloud/core/migrations/*.sql\<close> follow each deletion (\<open>ON DELETE SET NULL\<close>
  clears the reference, \<open>ON DELETE CASCADE\<close> deletes the row).  The table \<open>jobs\<close>, which
  no code of the program fills, is left as it is.
\<close>

section \<open>Deletions with their foreign keys\<close>

definition null_if :: "uid list \<Rightarrow> uid option \<Rightarrow> uid option" where
  "null_if ids v = (case v of Some i \<Rightarrow> if i \<in> set ids then None else v | None \<Rightarrow> None)"

definition ids_of :: "('r \<Rightarrow> uid) \<Rightarrow> ('r \<Rightarrow> bool) \<Rightarrow> 'r list \<Rightarrow> uid list" where
  "ids_of rid P T = map rid (filter P T)"

definition delete_receipts :: "(ingress_receipt \<Rightarrow> bool) \<Rightarrow> db \<Rightarrow> db" where
  "delete_receipts P d = d\<lparr>t_receipts := tbl_delete P (t_receipts d)\<rparr>"

definition delete_nerve_events :: "(nerve_event \<Rightarrow> bool) \<Rightarrow> db \<Rightarrow> db" where
  "delete_nerve_events P d =
     (let gone = ids_of nv_id P (t_nerve_events d)
      in d\<lparr>t_nerve_events := tbl_delete P (t_nerve_events d),
            t_nerve_signatures := tbl_delete (\<lambda>s. ns_event_id s \<in> set gone) (t_nerve_signatures d),
            t_nerve_attachments := tbl_delete (\<lambda>a. na_event_id a \<in> set gone) (t_nerve_attachments d)\<rparr>)"

definition delete_events :: "(event \<Rightarrow> bool) \<Rightarrow> db \<Rightarrow> db" where
  "delete_events P d =
     (let gone = ids_of ev_id P (t_events d)
      in d\<lparr>t_events := tbl_delete P (t_events d),
            t_approvals := map (\<lambda>a. a\<lparr>ap_event_id := null_if gone (ap_event_id a)\<rparr>) (t_approvals d),
            t_runs := map (\<lambda>r. r\<lparr>er_event_id := null_if gone (er_event_id r)\<rparr>) (t_runs d),
            t_refs := map (\<lambda>r. r\<lparr>rf_event_id := null_if gone (rf_event_id r)\<rparr>) (t_refs d),
            t_receipts := tbl_delete (\<lambda>r. ir_event_id r \<in> set gone) (t_receipts d),
            t_nerve_events := map (\<lambda>n. n\<lparr>nv_canonical_event_id := null_if gone (nv_canonical_event_id n)\<rparr>)
              (t_nerve_events d)\<rparr>)"

definition delete_reminders :: "(reminder \<Rightarrow> bool) \<Rightarrow> db \<Rightarrow> db" where
  "delete_reminders P d =
     (let gone = ids_of re_id P (t_reminders d)
      in d\<lparr>t_reminders := tbl_delete P (t_reminders d),
            t_commitments := map (\<lambda>c. c\<lparr>co_reminder_id := null_if gone (co_reminder_id c)\<rparr>) (t_commitments d)\<rparr>)"

definition delete_effects :: "(effect \<Rightarrow> bool) \<Rightarrow> db \<Rightarrow> db" where
  "delete_effects P d = d\<lparr>t_effects := tbl_delete P (t_effects d)\<rparr>"

definition delete_sends :: "(email_send \<Rightarrow> bool) \<Rightarrow> db \<Rightarrow> db" where
  "delete_sends P d =
     (let gone = ids_of es_effect_id P (t_sends d)
      in d\<lparr>t_sends := tbl_delete P (t_sends d),
            t_deliveries := tbl_delete (\<lambda>r. dr_effect_id r \<in> set gone) (t_deliveries d)\<rparr>)"

definition delete_approvals :: "(approval \<Rightarrow> bool) \<Rightarrow> db \<Rightarrow> db" where
  "delete_approvals P d =
     (let gone = ids_of ap_id P (t_approvals d)
      in d\<lparr>t_approvals := tbl_delete P (t_approvals d),
            t_effects := map (\<lambda>e. e\<lparr>ef_approval_id := null_if gone (ef_approval_id e)\<rparr>) (t_effects d),
            t_reminders := map (\<lambda>r. r\<lparr>re_approval_id := null_if gone (re_approval_id r)\<rparr>) (t_reminders d),
            t_commitments := map (\<lambda>c. c\<lparr>co_approval_id := null_if gone (co_approval_id c)\<rparr>) (t_commitments d),
            t_memory := map (\<lambda>m. m\<lparr>me_approval_id := null_if gone (me_approval_id m)\<rparr>) (t_memory d)\<rparr>)"

definition delete_runs :: "(extraction_run \<Rightarrow> bool) \<Rightarrow> db \<Rightarrow> db" where
  "delete_runs P d =
     (let gone = ids_of er_id P (t_runs d)
      in d\<lparr>t_runs := tbl_delete P (t_runs d),
            t_refs := tbl_delete (\<lambda>r. rf_run_id r \<in> set gone) (t_refs d),
            t_commitments := map (\<lambda>c. c\<lparr>co_run_id := null_if gone (co_run_id c)\<rparr>) (t_commitments d),
            t_memory := map (\<lambda>m. m\<lparr>me_run_id := null_if gone (me_run_id m)\<rparr>) (t_memory d)\<rparr>)"

definition delete_commitments :: "(commitment \<Rightarrow> bool) \<Rightarrow> db \<Rightarrow> db" where
  "delete_commitments P d =
     (let gone = ids_of co_id P (t_commitments d)
      in d\<lparr>t_commitments := map (\<lambda>c. c\<lparr>co_supersedes := null_if gone (co_supersedes c)\<rparr>)
              (tbl_delete P (t_commitments d))\<rparr>)"

definition delete_memory :: "(statement \<Rightarrow> bool) \<Rightarrow> db \<Rightarrow> db" where
  "delete_memory P d =
     (let gone = ids_of me_id P (t_memory d)
      in d\<lparr>t_memory := map (\<lambda>m. m\<lparr>me_supersedes := null_if gone (me_supersedes m)\<rparr>)
              (tbl_delete P (t_memory d))\<rparr>)"

section \<open>The job\<close>

definition day :: time where "day = 86400"
definition raw_event_days :: real where "raw_event_days = 30"
definition dlq_metadata_days :: real where "dlq_metadata_days = 90"
definition actions_days :: real where "actions_days = 365"
definition reminder_done_days :: real where "reminder_done_days = 90"
definition memory_review_days :: real where "memory_review_days = 90"
definition candidate_days :: real where "candidate_days = 30"

definition terminal_reminders :: "reminder_status list" where
  "terminal_reminders = [Re_done, Re_cancelled]"

record retention_report =
  rr_raw_blanked :: nat
  rr_events_deleted :: nat
  rr_reminders_deleted :: nat
  rr_approvals_deleted :: nat
  rr_effects_deleted :: nat
  rr_extraction_runs_deleted :: nat
  rr_candidates_deleted :: nat
  rr_memory_candidates_deleted :: nat
  rr_email_ingress_receipts_deleted :: nat
  rr_email_sends_deleted :: nat
  rr_nerve_payloads_blanked :: nat
  rr_nerve_attachments_blanked :: nat
  rr_nerve_webhooks_deleted :: nat
  rr_memory_due_for_review :: "uid list"

definition total_deleted :: "retention_report \<Rightarrow> nat" where
  "total_deleted r = rr_events_deleted r + rr_reminders_deleted r + rr_approvals_deleted r +
     rr_effects_deleted r + rr_extraction_runs_deleted r + rr_candidates_deleted r +
     rr_memory_candidates_deleted r + rr_email_ingress_receipts_deleted r +
     rr_email_sends_deleted r + rr_nerve_webhooks_deleted r"

definition memory_due_for_review :: "time \<Rightarrow> nat \<Rightarrow> db \<Rightarrow> uid list" where
  "memory_due_for_review now limit d =
     map me_id (take limit (sort_key me_updated_at
       (filter (\<lambda>m. me_status m = Confirmed \<and> me_updated_at m \<le> now - memory_review_days * day) (t_memory d))))"

text \<open>The rows each statement of the job is about.\<close>

definition raw_due :: "time \<Rightarrow> event \<Rightarrow> bool" where
  "raw_due now e \<longleftrightarrow> ev_received_at e \<le> now - raw_event_days * day \<and> ev_raw e \<noteq> []"

definition payload_due :: "time \<Rightarrow> nerve_event \<Rightarrow> bool" where
  "payload_due now n \<longleftrightarrow> nv_received_at n \<le> now - raw_event_days * day \<and> nv_payload n \<noteq> []"

definition attachment_due :: "time \<Rightarrow> nerve_attachment \<Rightarrow> bool" where
  "attachment_due now a \<longleftrightarrow> na_retention_until a \<le> now \<and> na_content a \<noteq> []"

definition old_action :: "time \<Rightarrow> time \<Rightarrow> bool" where
  "old_action now t \<longleftrightarrow> t \<le> now - actions_days * day"

definition reminder_over :: "time \<Rightarrow> reminder \<Rightarrow> bool" where
  "reminder_over now r \<longleftrightarrow> re_status r \<in> set terminal_reminders \<and>
     re_updated_at r \<le> now - reminder_done_days * day"

definition dead_commitment :: "time \<Rightarrow> commitment \<Rightarrow> bool" where
  "dead_commitment now c \<longleftrightarrow> co_status c = Candidate \<and> co_recorded_at c \<le> now - candidate_days * day"

definition dead_statement :: "time \<Rightarrow> statement \<Rightarrow> bool" where
  "dead_statement now m \<longleftrightarrow> me_status m = Candidate \<and> me_recorded_at m \<le> now - candidate_days * day"

definition blank_contents :: "time \<Rightarrow> db \<Rightarrow> db" where
  "blank_contents now d =
     d\<lparr>t_events := tbl_update (raw_due now) (\<lambda>e. e\<lparr>ev_raw := [], ev_updated_at := now\<rparr>) (t_events d),
       t_nerve_events := tbl_update (payload_due now) (\<lambda>n. n\<lparr>nv_payload := [], nv_updated_at := now\<rparr>)
         (t_nerve_events d),
       t_nerve_attachments := tbl_update (attachment_due now) (\<lambda>a. a\<lparr>na_content := []\<rparr>)
         (t_nerve_attachments d)\<rparr>"

definition retention_run :: "time \<Rightarrow> db \<Rightarrow> retention_report \<times> db" where
  "retention_run now d =
     (let d1 = blank_contents now d;
          d2 = delete_receipts (\<lambda>r. old_action now (ir_created_at r)) d1;
          d3 = delete_nerve_events (\<lambda>n. old_action now (nv_received_at n)) d2;
          d4 = delete_events (\<lambda>e. old_action now (ev_received_at e)) d3;
          d5 = delete_reminders (reminder_over now) d4;
          d6 = delete_effects (\<lambda>e. old_action now (ef_created_at e)) d5;
          d7 = delete_sends (\<lambda>s. old_action now (es_created_at s)) d6;
          d8 = delete_approvals (\<lambda>a. old_action now (ap_updated_at a)) d7;
          d9 = d8\<lparr>t_attempts := tbl_delete (\<lambda>a. at_attempted_at a \<le> now - dlq_metadata_days * day) (t_attempts d8)\<rparr>;
          d10 = delete_runs (\<lambda>r. old_action now (er_created_at r)) d9;
          d11 = delete_commitments (dead_commitment now) d10;
          d12 = delete_memory (dead_statement now) d11
      in (\<lparr>rr_raw_blanked = tbl_count (raw_due now) (t_events d),
           rr_events_deleted = tbl_count (\<lambda>e. old_action now (ev_received_at e)) (t_events d3),
           rr_reminders_deleted = tbl_count (reminder_over now) (t_reminders d4),
           rr_approvals_deleted = tbl_count (\<lambda>a. old_action now (ap_updated_at a)) (t_approvals d7),
           rr_effects_deleted = tbl_count (\<lambda>e. old_action now (ef_created_at e)) (t_effects d5),
           rr_extraction_runs_deleted = tbl_count (\<lambda>r. old_action now (er_created_at r)) (t_runs d9),
           rr_candidates_deleted = tbl_count (dead_commitment now) (t_commitments d10),
           rr_memory_candidates_deleted = tbl_count (dead_statement now) (t_memory d11),
           rr_email_ingress_receipts_deleted = tbl_count (\<lambda>r. old_action now (ir_created_at r)) (t_receipts d1),
           rr_email_sends_deleted = tbl_count (\<lambda>s. old_action now (es_created_at s)) (t_sends d6),
           rr_nerve_payloads_blanked = tbl_count (payload_due now) (t_nerve_events d),
           rr_nerve_attachments_blanked = tbl_count (attachment_due now) (t_nerve_attachments d),
           rr_nerve_webhooks_deleted = tbl_count (\<lambda>n. old_action now (nv_received_at n)) (t_nerve_events d2),
           rr_memory_due_for_review = memory_due_for_review now 50 d12\<rparr>, d12))"

section \<open>References\<close>

definition linked :: "('r \<Rightarrow> uid option) \<Rightarrow> 'r list \<Rightarrow> ('t \<Rightarrow> uid) \<Rightarrow> 't list \<Rightarrow> bool" where
  "linked f T rid U \<longleftrightarrow> (\<forall>r \<in> set T. \<forall>i. f r = Some i \<longrightarrow> i \<in> rid ` set U)"

text \<open>Every foreign key of the file points at a row that is there.\<close>

definition references_ok :: "db \<Rightarrow> bool" where
  "references_ok d \<longleftrightarrow>
     linked ap_event_id (t_approvals d) ev_id (t_events d) \<and>
     linked er_event_id (t_runs d) ev_id (t_events d) \<and>
     linked rf_event_id (t_refs d) ev_id (t_events d) \<and>
     linked (\<lambda>r. Some (ir_event_id r)) (t_receipts d) ev_id (t_events d) \<and>
     linked nv_canonical_event_id (t_nerve_events d) ev_id (t_events d) \<and>
     linked (\<lambda>r. Some (rf_run_id r)) (t_refs d) er_id (t_runs d) \<and>
     linked co_run_id (t_commitments d) er_id (t_runs d) \<and>
     linked me_run_id (t_memory d) er_id (t_runs d) \<and>
     linked ef_approval_id (t_effects d) ap_id (t_approvals d) \<and>
     linked re_approval_id (t_reminders d) ap_id (t_approvals d) \<and>
     linked co_approval_id (t_commitments d) ap_id (t_approvals d) \<and>
     linked me_approval_id (t_memory d) ap_id (t_approvals d) \<and>
     linked co_reminder_id (t_commitments d) re_id (t_reminders d) \<and>
     linked co_supersedes (t_commitments d) co_id (t_commitments d) \<and>
     linked me_supersedes (t_memory d) me_id (t_memory d) \<and>
     linked (\<lambda>r. Some (dr_effect_id r)) (t_deliveries d) es_effect_id (t_sends d) \<and>
     linked (\<lambda>s. Some (ns_event_id s)) (t_nerve_signatures d) nv_id (t_nerve_events d) \<and>
     linked (\<lambda>a. Some (na_event_id a)) (t_nerve_attachments d) nv_id (t_nerve_events d)"

lemma set_ids_of: "set (ids_of rid P U) = rid ` {u \<in> set U. P u}"
  by (simp add: ids_of_def)

text \<open>What a reference may see of the change: fewer rows, cleared references, the same ids.\<close>

lemma gone_or_left:
  "i \<in> rid ` set U \<Longrightarrow> i \<notin> rid ` {u \<in> set U. P u} \<Longrightarrow> i \<in> rid ` {u \<in> set U. \<not> P u}"
  by blast

lemma linked_delete_source: "linked f T rid U \<Longrightarrow> linked f (tbl_delete P T) rid U"
  by (auto simp: linked_def)

lemma linked_map_source: "(\<And>r. f (g r) = f r) \<Longrightarrow> linked f (map g T) rid U = linked f T rid U"
  by (simp add: linked_def)

lemma linked_map_target: "(\<And>u. rid (g u) = rid u) \<Longrightarrow> linked f T rid (map g U) = linked f T rid U"
  by (simp add: linked_def image_image)

lemma linked_null:
  assumes "linked f T rid U" "\<And>r. f (g r) = null_if (ids_of rid P U) (f r)"
  shows "linked f (map g T) rid (tbl_delete P U)"
proof -
  have "i \<in> rid ` {u \<in> set U. \<not> P u}"
    if "r \<in> set T" "null_if (ids_of rid P U) (f r) = Some i" for r i
    using that assms(1)
    by (auto simp: linked_def null_if_def set_ids_of intro!: gone_or_left split: option.splits if_splits)
  then show ?thesis using assms(2) by (auto simp: linked_def)
qed

lemma linked_cascade:
  assumes "linked (\<lambda>r. Some (k r)) T rid U"
  shows "linked (\<lambda>r. Some (k r)) (tbl_delete (\<lambda>r. k r \<in> set (ids_of rid P U)) T) rid (tbl_delete P U)"
  using assms by (auto simp: linked_def set_ids_of intro!: gone_or_left)

lemma linked_update_source:
  "(\<And>r. f (g r) = f r) \<Longrightarrow> linked f (tbl_update P g T) rid U = linked f T rid U"
  by (simp add: tbl_update_def linked_map_source)

lemma linked_update_target:
  "(\<And>u. rid (g u) = rid u) \<Longrightarrow> linked f T rid (tbl_update P g U) = linked f T rid U"
  by (simp add: tbl_update_def linked_map_target)

lemmas linked_simps = linked_map_source linked_map_target linked_update_source linked_update_target
  linked_delete_source linked_cascade

lemma blank_references: "references_ok d \<Longrightarrow> references_ok (blank_contents now d)"
  by (simp add: references_ok_def blank_contents_def linked_simps)

lemma delete_references:
  assumes "references_ok d"
  shows "references_ok (delete_receipts P1 d)" "references_ok (delete_nerve_events P2 d)"
    "references_ok (delete_events P3 d)" "references_ok (delete_reminders P4 d)"
    "references_ok (delete_effects P5 d)" "references_ok (delete_sends P6 d)"
    "references_ok (delete_approvals P7 d)" "references_ok (delete_runs P8 d)"
    "references_ok (delete_commitments P9 d)" "references_ok (delete_memory P10 d)"
    "references_ok (d\<lparr>t_attempts := A\<rparr>)"
  using assms
  by (simp_all add: references_ok_def delete_receipts_def delete_nerve_events_def delete_events_def
      delete_reminders_def delete_effects_def delete_sends_def delete_approvals_def delete_runs_def
      delete_commitments_def delete_memory_def Let_def linked_simps linked_null)

section \<open>What each statement leaves alone\<close>

lemma statement_frames [frame_simps]:
  "t_effects (blank_contents now d) = t_effects d" "t_approvals (blank_contents now d) = t_approvals d" "t_attempts (blank_contents now d) = t_attempts d"
  "t_reminders (blank_contents now d) = t_reminders d" "t_runs (blank_contents now d) = t_runs d" "t_refs (blank_contents now d) = t_refs d"
  "t_commitments (blank_contents now d) = t_commitments d" "t_memory (blank_contents now d) = t_memory d" "t_receipts (blank_contents now d) = t_receipts d"
  "t_sends (blank_contents now d) = t_sends d" "t_deliveries (blank_contents now d) = t_deliveries d" "t_nerve_signatures (blank_contents now d) = t_nerve_signatures d"
  "t_events (delete_receipts P1 d) = t_events d" "t_effects (delete_receipts P1 d) = t_effects d" "t_approvals (delete_receipts P1 d) = t_approvals d"
  "t_attempts (delete_receipts P1 d) = t_attempts d" "t_reminders (delete_receipts P1 d) = t_reminders d" "t_runs (delete_receipts P1 d) = t_runs d"
  "t_refs (delete_receipts P1 d) = t_refs d" "t_commitments (delete_receipts P1 d) = t_commitments d" "t_memory (delete_receipts P1 d) = t_memory d"
  "t_sends (delete_receipts P1 d) = t_sends d" "t_deliveries (delete_receipts P1 d) = t_deliveries d" "t_nerve_events (delete_receipts P1 d) = t_nerve_events d"
  "t_nerve_signatures (delete_receipts P1 d) = t_nerve_signatures d" "t_nerve_attachments (delete_receipts P1 d) = t_nerve_attachments d"
  "t_events (delete_nerve_events P2 d) = t_events d" "t_effects (delete_nerve_events P2 d) = t_effects d" "t_approvals (delete_nerve_events P2 d) = t_approvals d"
  "t_attempts (delete_nerve_events P2 d) = t_attempts d" "t_reminders (delete_nerve_events P2 d) = t_reminders d" "t_runs (delete_nerve_events P2 d) = t_runs d"
  "t_refs (delete_nerve_events P2 d) = t_refs d" "t_commitments (delete_nerve_events P2 d) = t_commitments d" "t_memory (delete_nerve_events P2 d) = t_memory d"
  "t_receipts (delete_nerve_events P2 d) = t_receipts d" "t_sends (delete_nerve_events P2 d) = t_sends d" "t_deliveries (delete_nerve_events P2 d) = t_deliveries d"
  "t_effects (delete_events P3 d) = t_effects d" "t_attempts (delete_events P3 d) = t_attempts d" "t_reminders (delete_events P3 d) = t_reminders d"
  "t_commitments (delete_events P3 d) = t_commitments d" "t_memory (delete_events P3 d) = t_memory d" "t_sends (delete_events P3 d) = t_sends d"
  "t_deliveries (delete_events P3 d) = t_deliveries d" "t_nerve_signatures (delete_events P3 d) = t_nerve_signatures d" "t_nerve_attachments (delete_events P3 d) = t_nerve_attachments d"
  "t_events (delete_reminders P4 d) = t_events d" "t_effects (delete_reminders P4 d) = t_effects d" "t_approvals (delete_reminders P4 d) = t_approvals d"
  "t_attempts (delete_reminders P4 d) = t_attempts d" "t_runs (delete_reminders P4 d) = t_runs d" "t_refs (delete_reminders P4 d) = t_refs d"
  "t_memory (delete_reminders P4 d) = t_memory d" "t_receipts (delete_reminders P4 d) = t_receipts d" "t_sends (delete_reminders P4 d) = t_sends d"
  "t_deliveries (delete_reminders P4 d) = t_deliveries d" "t_nerve_events (delete_reminders P4 d) = t_nerve_events d" "t_nerve_signatures (delete_reminders P4 d) = t_nerve_signatures d"
  "t_nerve_attachments (delete_reminders P4 d) = t_nerve_attachments d"
  "t_events (delete_effects P5 d) = t_events d" "t_approvals (delete_effects P5 d) = t_approvals d" "t_attempts (delete_effects P5 d) = t_attempts d"
  "t_reminders (delete_effects P5 d) = t_reminders d" "t_runs (delete_effects P5 d) = t_runs d" "t_refs (delete_effects P5 d) = t_refs d"
  "t_commitments (delete_effects P5 d) = t_commitments d" "t_memory (delete_effects P5 d) = t_memory d" "t_receipts (delete_effects P5 d) = t_receipts d"
  "t_sends (delete_effects P5 d) = t_sends d" "t_deliveries (delete_effects P5 d) = t_deliveries d" "t_nerve_events (delete_effects P5 d) = t_nerve_events d"
  "t_nerve_signatures (delete_effects P5 d) = t_nerve_signatures d" "t_nerve_attachments (delete_effects P5 d) = t_nerve_attachments d"
  "t_events (delete_sends P6 d) = t_events d" "t_effects (delete_sends P6 d) = t_effects d" "t_approvals (delete_sends P6 d) = t_approvals d"
  "t_attempts (delete_sends P6 d) = t_attempts d" "t_reminders (delete_sends P6 d) = t_reminders d" "t_runs (delete_sends P6 d) = t_runs d"
  "t_refs (delete_sends P6 d) = t_refs d" "t_commitments (delete_sends P6 d) = t_commitments d" "t_memory (delete_sends P6 d) = t_memory d"
  "t_receipts (delete_sends P6 d) = t_receipts d" "t_nerve_events (delete_sends P6 d) = t_nerve_events d" "t_nerve_signatures (delete_sends P6 d) = t_nerve_signatures d"
  "t_nerve_attachments (delete_sends P6 d) = t_nerve_attachments d"
  "t_events (delete_approvals P7 d) = t_events d" "t_attempts (delete_approvals P7 d) = t_attempts d" "t_runs (delete_approvals P7 d) = t_runs d"
  "t_refs (delete_approvals P7 d) = t_refs d" "t_receipts (delete_approvals P7 d) = t_receipts d" "t_sends (delete_approvals P7 d) = t_sends d"
  "t_deliveries (delete_approvals P7 d) = t_deliveries d" "t_nerve_events (delete_approvals P7 d) = t_nerve_events d" "t_nerve_signatures (delete_approvals P7 d) = t_nerve_signatures d"
  "t_nerve_attachments (delete_approvals P7 d) = t_nerve_attachments d"
  "t_events (delete_runs P8 d) = t_events d" "t_effects (delete_runs P8 d) = t_effects d" "t_approvals (delete_runs P8 d) = t_approvals d"
  "t_attempts (delete_runs P8 d) = t_attempts d" "t_reminders (delete_runs P8 d) = t_reminders d" "t_receipts (delete_runs P8 d) = t_receipts d"
  "t_sends (delete_runs P8 d) = t_sends d" "t_deliveries (delete_runs P8 d) = t_deliveries d" "t_nerve_events (delete_runs P8 d) = t_nerve_events d"
  "t_nerve_signatures (delete_runs P8 d) = t_nerve_signatures d" "t_nerve_attachments (delete_runs P8 d) = t_nerve_attachments d"
  "t_events (delete_commitments P9 d) = t_events d" "t_effects (delete_commitments P9 d) = t_effects d" "t_approvals (delete_commitments P9 d) = t_approvals d"
  "t_attempts (delete_commitments P9 d) = t_attempts d" "t_reminders (delete_commitments P9 d) = t_reminders d" "t_runs (delete_commitments P9 d) = t_runs d"
  "t_refs (delete_commitments P9 d) = t_refs d" "t_memory (delete_commitments P9 d) = t_memory d" "t_receipts (delete_commitments P9 d) = t_receipts d"
  "t_sends (delete_commitments P9 d) = t_sends d" "t_deliveries (delete_commitments P9 d) = t_deliveries d" "t_nerve_events (delete_commitments P9 d) = t_nerve_events d"
  "t_nerve_signatures (delete_commitments P9 d) = t_nerve_signatures d" "t_nerve_attachments (delete_commitments P9 d) = t_nerve_attachments d"
  "t_events (delete_memory P10 d) = t_events d" "t_effects (delete_memory P10 d) = t_effects d" "t_approvals (delete_memory P10 d) = t_approvals d"
  "t_attempts (delete_memory P10 d) = t_attempts d" "t_reminders (delete_memory P10 d) = t_reminders d" "t_runs (delete_memory P10 d) = t_runs d"
  "t_refs (delete_memory P10 d) = t_refs d" "t_commitments (delete_memory P10 d) = t_commitments d" "t_receipts (delete_memory P10 d) = t_receipts d"
  "t_sends (delete_memory P10 d) = t_sends d" "t_deliveries (delete_memory P10 d) = t_deliveries d" "t_nerve_events (delete_memory P10 d) = t_nerve_events d"
  "t_nerve_signatures (delete_memory P10 d) = t_nerve_signatures d" "t_nerve_attachments (delete_memory P10 d) = t_nerve_attachments d"
  by (simp_all add: blank_contents_def delete_receipts_def delete_nerve_events_def delete_events_def
      delete_reminders_def delete_effects_def delete_sends_def delete_approvals_def delete_runs_def
      delete_commitments_def delete_memory_def Let_def)

text \<open>What a deletion leaves in its own table and in the tables that refer to it.\<close>

lemma statement_rows [frame_simps]:
  "t_events (blank_contents now d) = tbl_update (raw_due now) (\<lambda>e. e\<lparr>ev_raw := [], ev_updated_at := now\<rparr>) (t_events d)"
  "t_nerve_events (blank_contents now d) =
     tbl_update (payload_due now) (\<lambda>n. n\<lparr>nv_payload := [], nv_updated_at := now\<rparr>) (t_nerve_events d)"
  "t_nerve_attachments (blank_contents now d) =
     tbl_update (attachment_due now) (\<lambda>a. a\<lparr>na_content := []\<rparr>) (t_nerve_attachments d)"
  "t_receipts (delete_receipts P1 d) = tbl_delete P1 (t_receipts d)"
  "t_nerve_events (delete_nerve_events P2 d) = tbl_delete P2 (t_nerve_events d)"
  "t_nerve_attachments (delete_nerve_events P2 d) =
     tbl_delete (\<lambda>a. na_event_id a \<in> set (ids_of nv_id P2 (t_nerve_events d))) (t_nerve_attachments d)"
  "t_events (delete_events P3 d) = tbl_delete P3 (t_events d)"
  "t_reminders (delete_reminders P4 d) = tbl_delete P4 (t_reminders d)"
  "t_effects (delete_effects P5 d) = tbl_delete P5 (t_effects d)"
  "t_sends (delete_sends P6 d) = tbl_delete P6 (t_sends d)"
  "t_approvals (delete_approvals P7 d) = tbl_delete P7 (t_approvals d)"
  "t_runs (delete_runs P8 d) = tbl_delete P8 (t_runs d)"
  "t_commitments (delete_commitments P9 d) =
     map (\<lambda>c. c\<lparr>co_supersedes := null_if (ids_of co_id P9 (t_commitments d)) (co_supersedes c)\<rparr>)
       (tbl_delete P9 (t_commitments d))"
  "t_memory (delete_memory P10 d) =
     map (\<lambda>m. m\<lparr>me_supersedes := null_if (ids_of me_id P10 (t_memory d)) (me_supersedes m)\<rparr>)
       (tbl_delete P10 (t_memory d))"
  "t_approvals (delete_events P3 d) =
     map (\<lambda>a. a\<lparr>ap_event_id := null_if (ids_of ev_id P3 (t_events d)) (ap_event_id a)\<rparr>) (t_approvals d)"
  "t_runs (delete_events P3 d) =
     map (\<lambda>r. r\<lparr>er_event_id := null_if (ids_of ev_id P3 (t_events d)) (er_event_id r)\<rparr>) (t_runs d)"
  "t_refs (delete_events P3 d) =
     map (\<lambda>r. r\<lparr>rf_event_id := null_if (ids_of ev_id P3 (t_events d)) (rf_event_id r)\<rparr>) (t_refs d)"
  "t_receipts (delete_events P3 d) =
     tbl_delete (\<lambda>r. ir_event_id r \<in> set (ids_of ev_id P3 (t_events d))) (t_receipts d)"
  "t_nerve_events (delete_events P3 d) =
     map (\<lambda>n. n\<lparr>nv_canonical_event_id := null_if (ids_of ev_id P3 (t_events d)) (nv_canonical_event_id n)\<rparr>)
       (t_nerve_events d)"
  "t_commitments (delete_reminders P4 d) =
     map (\<lambda>c. c\<lparr>co_reminder_id := null_if (ids_of re_id P4 (t_reminders d)) (co_reminder_id c)\<rparr>) (t_commitments d)"
  "t_effects (delete_approvals P7 d) =
     map (\<lambda>e. e\<lparr>ef_approval_id := null_if (ids_of ap_id P7 (t_approvals d)) (ef_approval_id e)\<rparr>) (t_effects d)"
  "t_reminders (delete_approvals P7 d) =
     map (\<lambda>r. r\<lparr>re_approval_id := null_if (ids_of ap_id P7 (t_approvals d)) (re_approval_id r)\<rparr>) (t_reminders d)"
  "t_commitments (delete_approvals P7 d) =
     map (\<lambda>c. c\<lparr>co_approval_id := null_if (ids_of ap_id P7 (t_approvals d)) (co_approval_id c)\<rparr>) (t_commitments d)"
  "t_memory (delete_approvals P7 d) =
     map (\<lambda>m. m\<lparr>me_approval_id := null_if (ids_of ap_id P7 (t_approvals d)) (me_approval_id m)\<rparr>) (t_memory d)"
  "t_refs (delete_runs P8 d) =
     tbl_delete (\<lambda>r. rf_run_id r \<in> set (ids_of er_id P8 (t_runs d))) (t_refs d)"
  "t_commitments (delete_runs P8 d) =
     map (\<lambda>c. c\<lparr>co_run_id := null_if (ids_of er_id P8 (t_runs d)) (co_run_id c)\<rparr>) (t_commitments d)"
  "t_memory (delete_runs P8 d) =
     map (\<lambda>m. m\<lparr>me_run_id := null_if (ids_of er_id P8 (t_runs d)) (me_run_id m)\<rparr>) (t_memory d)"
  by (simp_all add: blank_contents_def delete_receipts_def delete_nerve_events_def delete_events_def
      delete_reminders_def delete_effects_def delete_sends_def delete_approvals_def delete_runs_def
      delete_commitments_def delete_memory_def Let_def)

section \<open>After a run nothing is due\<close>

text \<open>No row of the file is due for any statement of the job.\<close>

definition nothing_due :: "time \<Rightarrow> db \<Rightarrow> bool" where
  "nothing_due now d \<longleftrightarrow>
     (\<forall>e \<in> set (t_events d). \<not> raw_due now e \<and> \<not> old_action now (ev_received_at e)) \<and>
     (\<forall>n \<in> set (t_nerve_events d). \<not> payload_due now n \<and> \<not> old_action now (nv_received_at n)) \<and>
     (\<forall>a \<in> set (t_nerve_attachments d). \<not> attachment_due now a) \<and>
     (\<forall>r \<in> set (t_receipts d). \<not> old_action now (ir_created_at r)) \<and>
     (\<forall>r \<in> set (t_reminders d). \<not> reminder_over now r) \<and>
     (\<forall>e \<in> set (t_effects d). \<not> old_action now (ef_created_at e)) \<and>
     (\<forall>s \<in> set (t_sends d). \<not> old_action now (es_created_at s)) \<and>
     (\<forall>a \<in> set (t_approvals d). \<not> old_action now (ap_updated_at a)) \<and>
     (\<forall>a \<in> set (t_attempts d). \<not> at_attempted_at a \<le> now - dlq_metadata_days * day) \<and>
     (\<forall>r \<in> set (t_runs d). \<not> old_action now (er_created_at r)) \<and>
     (\<forall>c \<in> set (t_commitments d). \<not> dead_commitment now c) \<and>
     (\<forall>m \<in> set (t_memory d). \<not> dead_statement now m)"

lemma after_run: "nothing_due now (snd (retention_run now d))"
  unfolding nothing_due_def retention_run_def Let_def snd_conv
  by (intro conjI; simp add: frame_simps set_tbl_update raw_due_def payload_due_def attachment_due_def
      reminder_over_def dead_commitment_def dead_statement_def) auto

lemma null_none [simp]: "null_if [] v = v"
  by (simp add: null_if_def split: option.splits)

lemma ids_of_none: "(\<And>r. r \<in> set T \<Longrightarrow> \<not> P r) \<Longrightarrow> ids_of rid P T = []"
  by (simp add: ids_of_def filter_empty_conv)

lemma tbl_delete_none: "(\<And>r. r \<in> set T \<Longrightarrow> \<not> P r) \<Longrightarrow> tbl_delete P T = T"
  by (simp add: tbl_delete_def filter_id_conv)

lemma statement_idle:
  "(\<And>e. e \<in> set (t_events d) \<Longrightarrow> \<not> raw_due now e) \<Longrightarrow> (\<And>n. n \<in> set (t_nerve_events d) \<Longrightarrow> \<not> payload_due now n) \<Longrightarrow>
     (\<And>a. a \<in> set (t_nerve_attachments d) \<Longrightarrow> \<not> attachment_due now a) \<Longrightarrow> blank_contents now d = d"
  "(\<And>r. r \<in> set (t_receipts d) \<Longrightarrow> \<not> P1 r) \<Longrightarrow> delete_receipts P1 d = d"
  "(\<And>r. r \<in> set (t_nerve_events d) \<Longrightarrow> \<not> P2 r) \<Longrightarrow> delete_nerve_events P2 d = d"
  "(\<And>r. r \<in> set (t_events d) \<Longrightarrow> \<not> P3 r) \<Longrightarrow> delete_events P3 d = d"
  "(\<And>r. r \<in> set (t_reminders d) \<Longrightarrow> \<not> P4 r) \<Longrightarrow> delete_reminders P4 d = d"
  "(\<And>r. r \<in> set (t_effects d) \<Longrightarrow> \<not> P5 r) \<Longrightarrow> delete_effects P5 d = d"
  "(\<And>r. r \<in> set (t_sends d) \<Longrightarrow> \<not> P6 r) \<Longrightarrow> delete_sends P6 d = d"
  "(\<And>r. r \<in> set (t_approvals d) \<Longrightarrow> \<not> P7 r) \<Longrightarrow> delete_approvals P7 d = d"
  "(\<And>r. r \<in> set (t_runs d) \<Longrightarrow> \<not> P8 r) \<Longrightarrow> delete_runs P8 d = d"
  "(\<And>r. r \<in> set (t_commitments d) \<Longrightarrow> \<not> P9 r) \<Longrightarrow> delete_commitments P9 d = d"
  "(\<And>r. r \<in> set (t_memory d) \<Longrightarrow> \<not> P10 r) \<Longrightarrow> delete_memory P10 d = d"
  by (simp_all add: blank_contents_def delete_receipts_def delete_nerve_events_def delete_events_def
      delete_reminders_def delete_effects_def delete_sends_def delete_approvals_def delete_runs_def
      delete_commitments_def delete_memory_def Let_def ids_of_none tbl_delete_none tbl_update_none)

lemma idle_run:
  assumes "nothing_due now d"
  shows "snd (retention_run now d) = d" "total_deleted (fst (retention_run now d)) = 0"
    "rr_raw_blanked (fst (retention_run now d)) = 0" "rr_nerve_payloads_blanked (fst (retention_run now d)) = 0"
    "rr_nerve_attachments_blanked (fst (retention_run now d)) = 0"
    "rr_memory_due_for_review (fst (retention_run now d)) = memory_due_for_review now 50 d"
  using assms
  by (simp_all add: nothing_due_def retention_run_def Let_def statement_idle tbl_delete_none total_deleted_def
      tbl_count_0)

lemma run_references: "references_ok d \<Longrightarrow> references_ok (snd (retention_run now d))"
  by (simp add: retention_run_def Let_def delete_references blank_references)

section \<open>Properties\<close>

text \<open>
  What stays is exactly what is not due.  A run keeps, in order and with their content, every
  fact and memory that is more than a candidate or younger than 30 days, every reminder still to
  be delivered or finished less than 90 days ago, and of events, approvals, effects, extraction
  runs and sent mail those of the last year; of a raw letter or webhook older than 30 days only
  the row stays, its content is blanked.  Only confirmed memories come up for review.
\<close>

theorem retention_keeps_what_is_not_due:
  "let d' = snd (retention_run now d); young = (\<lambda>days t. now - days * 86400 < t) in
   map (\<lambda>e. (ev_id e, ev_external_id e, ev_received_at e, ev_status e, ev_raw e)) (t_events d') =
     map (\<lambda>e. (ev_id e, ev_external_id e, ev_received_at e, ev_status e, if young 30 (ev_received_at e) then ev_raw e else []))
       (filter (\<lambda>e. young 365 (ev_received_at e)) (t_events d)) \<and>
   map (\<lambda>n. (nv_id n, nv_received_at n, nv_state n, nv_payload n)) (t_nerve_events d') =
     map (\<lambda>n. (nv_id n, nv_received_at n, nv_state n, if young 30 (nv_received_at n) then nv_payload n else []))
       (filter (\<lambda>n. young 365 (nv_received_at n)) (t_nerve_events d)) \<and>
   map (\<lambda>c. (co_id c, co_kind c, co_payload c, co_status c, co_recorded_at c)) (t_commitments d') =
     map (\<lambda>c. (co_id c, co_kind c, co_payload c, co_status c, co_recorded_at c))
       (filter (\<lambda>c. \<not> (co_status c = Candidate \<and> \<not> young 30 (co_recorded_at c))) (t_commitments d)) \<and>
   map (\<lambda>m. (me_id m, me_text m, me_status m, me_valid_from m, me_valid_to m)) (t_memory d') =
     map (\<lambda>m. (me_id m, me_text m, me_status m, me_valid_from m, me_valid_to m))
       (filter (\<lambda>m. \<not> (me_status m = Candidate \<and> \<not> young 30 (me_recorded_at m))) (t_memory d)) \<and>
   map (\<lambda>r. (re_id r, re_chat r, re_text r, re_due_at r, re_status r)) (t_reminders d') =
     map (\<lambda>r. (re_id r, re_chat r, re_text r, re_due_at r, re_status r))
       (filter (\<lambda>r. re_status r \<in> {Re_pending, Re_delivering} \<or> young 90 (re_updated_at r)) (t_reminders d)) \<and>
   map (\<lambda>e. (ef_id e, ef_run_id e, ef_tool_use_id e, ef_status e)) (t_effects d') =
     map (\<lambda>e. (ef_id e, ef_run_id e, ef_tool_use_id e, ef_status e))
       (filter (\<lambda>e. young 365 (ef_created_at e)) (t_effects d)) \<and>
   map (\<lambda>a. (ap_id a, ap_status a, ap_payload a)) (t_approvals d') =
     map (\<lambda>a. (ap_id a, ap_status a, ap_payload a)) (filter (\<lambda>a. young 365 (ap_updated_at a)) (t_approvals d)) \<and>
   map er_id (t_runs d') = map er_id (filter (\<lambda>r. young 365 (er_created_at r)) (t_runs d)) \<and>
   t_sends d' = filter (\<lambda>s. young 365 (es_created_at s)) (t_sends d) \<and>
   t_attempts d' = filter (\<lambda>a. young 90 (at_attempted_at a)) (t_attempts d) \<and>
   set (rr_memory_due_for_review (fst (retention_run now d))) \<subseteq> me_id ` {m \<in> set (t_memory d'). me_status m = Confirmed}"
proof -
  have st: "s \<in> {Re_pending, Re_delivering} \<longleftrightarrow> s \<notin> set terminal_reminders" for s
    by (cases s) (simp_all add: terminal_reminders_def)
  have blank: "map f (filter P (tbl_update Q g T)) = map f' (filter P T)"
    if "\<And>r. P (g r) = P r" "\<And>r. f (if Q r then g r else r) = f' r" for f f' g P Q and T :: "'r list"
  proof -
    have "P (if Q r then g r else r) = P r" for r using that(1) by simp
    then show ?thesis by (simp add: tbl_update_def filter_map comp_def that(2))
  qed
  have review: "set (rr_memory_due_for_review (fst (retention_run now d))) \<subseteq>
      me_id ` {m \<in> set (t_memory (snd (retention_run now d))). me_status m = Confirmed}"
    by (auto simp: retention_run_def Let_def memory_due_for_review_def dest!: in_set_takeD)
  show ?thesis
    unfolding Let_def st
    by (intro conjI review; simp add: retention_run_def Let_def frame_simps tbl_delete_def filter_map comp_def
        old_action_def dead_commitment_def dead_statement_def reminder_over_def candidate_days_def
        actions_days_def reminder_done_days_def dlq_metadata_days_def day_def not_le)
      (auto intro!: blank simp: raw_due_def payload_due_def raw_event_days_def day_def not_le)
qed

text \<open>
  A second run changes nothing.  Run again at the same moment, the job deletes and blanks
  nothing and lists the same memories for review.
\<close>

theorem retention_is_idempotent:
  "case retention_run now d of (r, d') \<Rightarrow>
     (case retention_run now d' of (r2, d2) \<Rightarrow>
        d2 = d' \<and> total_deleted r2 = 0 \<and> rr_raw_blanked r2 = 0 \<and> rr_nerve_payloads_blanked r2 = 0 \<and>
        rr_nerve_attachments_blanked r2 = 0 \<and> rr_memory_due_for_review r2 = rr_memory_due_for_review r)"
proof -
  have r: "rr_memory_due_for_review (fst (retention_run now d)) =
      memory_due_for_review now 50 (snd (retention_run now d))"
    by (simp add: retention_run_def Let_def)
  show ?thesis using idle_run [OF after_run [of now d]] r by (simp add: case_prod_beta)
qed

text \<open>The letter of a reference is at hand: its event is younger than 30 days.\<close>

definition letter_kept :: "time \<Rightarrow> evidence_ref \<Rightarrow> db \<Rightarrow> bool" where
  "letter_kept now r d \<longleftrightarrow>
     (\<exists>e \<in> set (t_events d). rf_event_id r = Some (ev_id e) \<and> now - 30 * 86400 < ev_received_at e)"

lemma ids_of_map:
  "(\<And>u. rid (g u) = rid u \<and> P (g u) = P u) \<Longrightarrow> ids_of rid P (map g U) = ids_of rid P U"
  by (simp add: ids_of_def filter_map comp_def)

lemma not_gone: "k \<notin> set (ids_of rid P U) \<longleftrightarrow> (\<forall>x \<in> set U. rid x = k \<longrightarrow> \<not> P x)"
  by (auto simp: set_ids_of)

lemma run_refs:
  "t_refs (snd (retention_run now d)) =
     map (\<lambda>r. r\<lparr>rf_event_id := null_if (ids_of ev_id (\<lambda>e. old_action now (ev_received_at e)) (t_events d)) (rf_event_id r)\<rparr>)
       (filter (\<lambda>r. \<forall>x \<in> set (t_runs d). er_id x = rf_run_id r \<longrightarrow> \<not> old_action now (er_created_at x)) (t_refs d))"
proof -
  have ids: "ids_of ev_id (\<lambda>e. old_action now (ev_received_at e)) (tbl_update (raw_due now) g T) =
      ids_of ev_id (\<lambda>e. old_action now (ev_received_at e)) T"
    if "\<And>e. ev_id (g e) = ev_id e \<and> ev_received_at (g e) = ev_received_at e" for g T
    using that by (induction T) (auto simp: ids_of_def)
  show ?thesis
    by (auto simp: retention_run_def Let_def frame_simps ids ids_of_map tbl_delete_def filter_map comp_def
        not_gone intro!: arg_cong [where f = "map _"] filter_cong)
qed

lemma run_events:
  assumes "distinct (map ev_id (t_events d))" "e \<in> set (t_events d)"
  shows "tbl_get ev_id (ev_id e) (t_events (snd (retention_run now d))) =
    (if old_action now (ev_received_at e) then None
     else Some (if raw_due now e then e\<lparr>ev_raw := [], ev_updated_at := now\<rparr> else e))"
  using assms
proof -
  let ?g = "\<lambda>e. e\<lparr>ev_raw := [], ev_updated_at := now\<rparr>"
  have t: "t_events (snd (retention_run now d)) =
      tbl_delete (\<lambda>e. old_action now (ev_received_at e)) (tbl_update (raw_due now) ?g (t_events d))"
    by (simp add: retention_run_def Let_def frame_simps)
  show ?thesis unfolding t using assms
  proof (induction "t_events d" arbitrary: d)
    case (Cons x T)
    have IH: "tbl_get ev_id (ev_id e) (tbl_delete (\<lambda>e. old_action now (ev_received_at e)) (tbl_update (raw_due now) ?g T)) =
      (if old_action now (ev_received_at e) then None else Some (if raw_due now e then ?g e else e))"
      if "e \<in> set T" using Cons.hyps(1) [of "d\<lparr>t_events := T\<rparr>"] Cons.prems that by (simp add: Cons.hyps(2) [symmetric])
    have out: "tbl_get ev_id i (tbl_delete P (tbl_update (raw_due now) ?g T)) = None"
      if "i \<notin> ev_id ` set T" for i P
      using that by (auto simp: tbl_get_None_iff set_tbl_update image_iff)
    show ?case
      using Cons.prems IH out [of "ev_id x"]
      by (auto simp: Cons.hyps(2) [symmetric] tbl_get_Cons tbl_delete_def)
  qed simp
qed

text \<open>
  The origin of a fact outlives the letter.  As long as its extraction run is kept, a
  reference keeps its sender, date, hash and offsets, so the line of origin on a card stays the
  same; what changes after 30 days is only that the quotation gives way to the note that the
  source is gone.  No reference of the file ever dangles after a run.
\<close>

theorem provenance_outlives_the_letter:
  assumes "references_ok d" "distinct (map ev_id (t_events d))" "r \<in> set (t_refs d)"
    "\<forall>x \<in> set (t_runs d). er_id x = rf_run_id r \<longrightarrow> now - 365 * 86400 < er_created_at x"
  shows "references_ok (snd (retention_run now d)) \<and>
    (\<exists>r' \<in> set (t_refs (snd (retention_run now d))). rf_id r' = rf_id r \<and> rf_content_sha r' = rf_content_sha r \<and>
       rf_span_start r' = rf_span_start r \<and> rf_span_end r' = rf_span_end r \<and>
       render_source sha text_of r' (snd (retention_run now d)) =
         (if letter_kept now r d then render_source sha text_of r d
          else ''SOURCE: '' @ provenance r @ '' - TEXT_SOURCE_GONE''))"
proof -
  let ?d' = "snd (retention_run now d)"
  let ?ids = "ids_of ev_id (\<lambda>e. old_action now (ev_received_at e)) (t_events d)"
  let ?r = "r\<lparr>rf_event_id := null_if ?ids (rf_event_id r)\<rparr>"
  have mem: "?r \<in> set (t_refs ?d')"
    using assms(3,4) by (auto simp: run_refs old_action_def actions_days_def day_def not_le)
  have prov: "provenance ?r = provenance r" by (simp add: provenance_def)
  have "quote sha text_of ?r ?d' = (if letter_kept now r d then quote sha text_of r d else None)"
  proof (cases "rf_event_id r")
    case None
    then show ?thesis by (simp add: quote_def letter_kept_def null_if_def)
  next
    case (Some i)
    have "linked rf_event_id (t_refs d) ev_id (t_events d)" using assms(1) by (simp add: references_ok_def)
    then obtain e where e: "e \<in> set (t_events d)" "ev_id e = i"
      using assms(3) Some by (fastforce simp: linked_def)
    have same: "x = e" if "x \<in> set (t_events d)" "ev_id x = i" for x
      using distinct_same_row [OF assms(2) that(1) e(1)] that(2) e(2) by simp
    have old: "i \<in> set ?ids \<longleftrightarrow> old_action now (ev_received_at e)"
      unfolding set_ids_of using e same by blast
    have kept: "letter_kept now r d \<longleftrightarrow> now - 30 * 86400 < ev_received_at e"
      unfolding letter_kept_def Some option.inject using e same by metis
    have get: "tbl_get ev_id i (t_events d) = Some e" using tbl_get_mem [OF assms(2) e(1)] e(2) by simp
    note get' = run_events [OF assms(2) e(1), of now, unfolded e(2)]
    consider "old_action now (ev_received_at e)" | "\<not> old_action now (ev_received_at e)" "raw_due now e"
      | "\<not> old_action now (ev_received_at e)" "\<not> raw_due now e" by blast
    then show ?thesis
    proof cases
      case 1
      then have "\<not> letter_kept now r d" using kept by (simp add: old_action_def actions_days_def day_def)
      then show ?thesis using 1 old Some by (simp add: quote_def null_if_def)
    next
      case 2
      then have "\<not> letter_kept now r d" using kept by (simp add: raw_due_def raw_event_days_def day_def)
      then show ?thesis using 2 old Some get' by (simp add: quote_def null_if_def split: option.splits)
    next
      case 3
      then have "ev_raw e = [] \<or> letter_kept now r d"
        using kept by (auto simp: raw_due_def raw_event_days_def day_def)
      then show ?thesis using 3 old Some get get' by (auto simp: quote_def null_if_def split: option.splits)
    qed
  qed
  then have "render_source sha text_of ?r ?d' =
      (if letter_kept now r d then render_source sha text_of r d
       else ''SOURCE: '' @ provenance r @ '' - TEXT_SOURCE_GONE'')"
    by (simp only: render_source_def prov split: if_split) simp
  then show ?thesis using mem run_references [OF assms(1)] by (intro conjI bexI [of _ ?r]) simp_all
qed

section \<open>Witnesses\<close>

definition sample_ref :: evidence_ref where
  "sample_ref = \<lparr>rf_id = ''f'', rf_run_id = ''r'', rf_event_id = Some ''e'', rf_sender_domain = Some ''schule.example'',
     rf_message_date = None, rf_content_sha = ''h'', rf_span_start = Some 0, rf_span_end = Some 5, rf_created_at = 0\<rparr>"

definition sample_letter_db :: db where
  "sample_letter_db = empty_db\<lparr>
     t_events := [\<lparr>ev_id = ''e'', ev_source = ''email'', ev_external_id = ''m'', ev_context_key = None, ev_raw = ''Hello'',
        ev_received_at = 0, ev_status = Ev_done, ev_attempts = 1, ev_lease_until = None, ev_leased_by = None,
        ev_last_error = None, ev_updated_at = 0\<rparr>],
     t_runs := [\<lparr>er_id = ''r'', er_event_id = Some ''e'', er_model = [], er_prompt_sha = [], er_input_tokens = 0,
        er_output_tokens = 0, er_created_at = 0\<rparr>],
     t_refs := [sample_ref]\<rparr>"

theorem provenance_outlives_the_letter_witness:
  "\<exists>r' \<in> set (t_refs (snd (retention_run (40 * 86400) sample_letter_db))).
     rf_id r' = ''f'' \<and> render_source (\<lambda>t. ''h'') (\<lambda>t. t) r' (snd (retention_run (40 * 86400) sample_letter_db)) =
       ''SOURCE: schule.example - TEXT_SOURCE_GONE''"
proof -
  have ok: "references_ok sample_letter_db"
    by (simp add: references_ok_def linked_def sample_letter_db_def sample_ref_def)
  have d: "distinct (map ev_id (t_events sample_letter_db))" "sample_ref \<in> set (t_refs sample_letter_db)"
    "\<forall>x \<in> set (t_runs sample_letter_db). er_id x = rf_run_id sample_ref \<longrightarrow> 40 * 86400 - 365 * 86400 < er_created_at x"
    by (simp_all add: sample_letter_db_def)
  have k: "\<not> letter_kept (40 * 86400) sample_ref sample_letter_db"
    by (simp add: letter_kept_def sample_letter_db_def)
  have p: "''SOURCE: '' @ provenance sample_ref @ '' - TEXT_SOURCE_GONE'' = ''SOURCE: schule.example - TEXT_SOURCE_GONE''"
    by (simp add: provenance_def sample_ref_def str_or_none_def)
  have i: "rf_id sample_ref = ''f''" by (simp add: sample_ref_def)
  from provenance_outlives_the_letter [OF ok d, of "\<lambda>t. ''h''" "\<lambda>t. t"]
  show ?thesis unfolding if_not_P [OF k] p i by blast
qed

end
