(* ===== verification/Effects.thy ===== *)
theory Effects
  imports Schema Interfaces
begin

text \<open>
  \<open>hermes_cloud/core/effects.py\<close>: the effect journal.  One row per
  \<open>(run_id, tool_use_id)\<close>, written before the action; \<open>journal_begin\<close> hands the
  action out at most once, and a lease that ran out is never a licence to repeat it.
\<close>

section \<open>Model\<close>

definition approval_tool_use_id :: string where
  "approval_tool_use_id = ''approval''"

definition effect_lease_seconds :: time where
  "effect_lease_seconds = 120"

fun settled_status :: "effect_status \<Rightarrow> bool" where
  "settled_status Ef_pending = False"
| "settled_status Ef_done = True"
| "settled_status Ef_failed = True"
| "settled_status Ef_outcome_unknown = True"

definition settled :: "effect \<Rightarrow> bool" where
  "settled e = settled_status (ef_status e)"

definition effect_key :: "effect \<Rightarrow> string \<times> string" where
  "effect_key e = (ef_run_id e, ef_tool_use_id e)"

datatype journal_error = Effect_in_flight effect | Effect_not_unique | Effect_missing

text \<open>
  \<open>record_attempt\<close> runs inside the caller's transaction; the unique index
  \<open>effects_run_tool\<close> refuses a second row for the same key.
\<close>

definition new_effect ::
  "uid \<Rightarrow> string \<Rightarrow> string \<Rightarrow> string \<Rightarrow> uid option \<Rightarrow> string option \<Rightarrow> time \<Rightarrow> time \<Rightarrow> effect" where
  "new_effect nid run tool kind aid sha now lease =
     \<lparr>ef_id = nid, ef_run_id = run, ef_tool_use_id = tool, ef_kind = kind, ef_approval_id = aid,
      ef_payload_sha = sha, ef_status = Ef_pending, ef_result = None, ef_error = None,
      ef_attempts = 1, ef_lease_until = Some (now + lease), ef_created_at = now,
      ef_updated_at = now\<rparr>"

definition record_attempt ::
  "uid \<Rightarrow> string \<Rightarrow> string \<Rightarrow> string \<Rightarrow> uid option \<Rightarrow> string option \<Rightarrow> time \<Rightarrow> time \<Rightarrow>
   db \<Rightarrow> (journal_error + uid) \<times> db" where
  "record_attempt nid run tool kind aid sha now lease d =
     (if (run, tool) \<in> effect_key ` set (t_effects d) then (Inl Effect_not_unique, d)
      else (Inr nid,
            d\<lparr>t_effects := t_effects d @ [new_effect nid run tool kind aid sha now lease]\<rparr>))"

definition journal_find :: "string \<Rightarrow> string \<Rightarrow> db \<Rightarrow> effect option" where
  "journal_find run tool d = find (\<lambda>e. ef_run_id e = run \<and> ef_tool_use_id e = tool) (t_effects d)"

definition journal_get :: "uid \<Rightarrow> db \<Rightarrow> effect option" where
  "journal_get i d = tbl_get ef_id i (t_effects d)"

definition journal_begin ::
  "uid \<Rightarrow> string \<Rightarrow> string \<Rightarrow> string \<Rightarrow> uid option \<Rightarrow> string option \<Rightarrow> time \<Rightarrow> time \<Rightarrow>
   db \<Rightarrow> (journal_error + effect \<times> bool) \<times> db" where
  "journal_begin nid run tool kind aid sha now lease =
     write_tx (\<lambda>d.
       case journal_find run tool d of
         Some e \<Rightarrow>
           if settled e then (Inr (e, False), d)
           else if (case ef_lease_until e of None \<Rightarrow> 0 | Some l \<Rightarrow> l) > now
             then (Inl (Effect_in_flight e), d)
           else (Inr (e, False), d)
       | None \<Rightarrow>
           (case record_attempt nid run tool kind aid sha now lease d of
              (Inl x, d1) \<Rightarrow> (Inl x, d1)
            | (Inr i, d1) \<Rightarrow>
                (case journal_get i d1 of
                   None \<Rightarrow> (Inl Effect_missing, d1)
                 | Some e \<Rightarrow> (Inr (e, True), d1))))"

definition journal_settle ::
  "uid \<Rightarrow> effect_status \<Rightarrow> string option \<Rightarrow> string option \<Rightarrow> time \<Rightarrow> db \<Rightarrow> db" where
  "journal_settle i st res err now d =
     d\<lparr>t_effects := tbl_update (\<lambda>e. ef_id e = i)
        (\<lambda>e. e\<lparr>ef_status := st, ef_result := res, ef_error := err, ef_lease_until := None,
                ef_updated_at := now\<rparr>) (t_effects d)\<rparr>"

definition journal_complete :: "uid \<Rightarrow> string \<Rightarrow> time \<Rightarrow> db \<Rightarrow> db" where
  "journal_complete i res now = journal_settle i Ef_done (Some res) None now"

definition journal_fail :: "uid \<Rightarrow> string \<Rightarrow> time \<Rightarrow> db \<Rightarrow> db" where
  "journal_fail i err now = journal_settle i Ef_failed None (Some err) now"

definition journal_outcome_unknown :: "uid \<Rightarrow> string \<Rightarrow> time \<Rightarrow> db \<Rightarrow> db" where
  "journal_outcome_unknown i err now = journal_settle i Ef_outcome_unknown None (Some err) now"

definition journal_extend_lease :: "uid \<Rightarrow> time \<Rightarrow> time \<Rightarrow> db \<Rightarrow> db" where
  "journal_extend_lease i seconds now d =
     d\<lparr>t_effects := tbl_update (\<lambda>e. ef_id e = i)
        (\<lambda>e. e\<lparr>ef_lease_until := Some (now + seconds), ef_attempts := ef_attempts e + 1,
                ef_updated_at := now\<rparr>) (t_effects d)\<rparr>"

definition journal_for_run :: "string \<Rightarrow> db \<Rightarrow> effect list" where
  "journal_for_run run d =
     sort_key (\<lambda>e. (ef_created_at e, ef_id e)) (filter (\<lambda>e. ef_run_id e = run) (t_effects d))"

definition journal_has_effects :: "string \<Rightarrow> db \<Rightarrow> bool" where
  "journal_has_effects run d = (find (\<lambda>e. ef_run_id e = run) (t_effects d) \<noteq> None)"

definition is_stale :: "time \<Rightarrow> effect \<Rightarrow> bool" where
  "is_stale now e \<longleftrightarrow> ef_status e = Ef_pending \<and>
     (case ef_lease_until e of None \<Rightarrow> True | Some l \<Rightarrow> l \<le> now)"

definition journal_stale :: "time \<Rightarrow> nat \<Rightarrow> db \<Rightarrow> effect list" where
  "journal_stale now limit d =
     take limit (sort_key ef_created_at (filter (is_stale now) (t_effects d)))"

section \<open>The journal's operations as one type\<close>

record begin_request =
  bq_id :: uid
  bq_run :: string
  bq_tool :: string
  bq_kind :: string
  bq_approval :: "uid option"
  bq_sha :: "string option"
  bq_now :: time
  bq_lease :: time

definition try_begin :: "begin_request \<Rightarrow> db \<Rightarrow> bool \<times> db" where
  "try_begin q d =
     (case journal_begin (bq_id q) (bq_run q) (bq_tool q) (bq_kind q) (bq_approval q) (bq_sha q)
             (bq_now q) (bq_lease q) d of
        (Inr (e, fresh), d') \<Rightarrow> (fresh, d')
      | (Inl x, d') \<Rightarrow> (False, d'))"

datatype settle_op =
    Complete uid string time
  | Fail uid string time
  | Outcome_unknown uid string time
  | Extend_lease uid time time

fun settle_step :: "settle_op \<Rightarrow> db \<Rightarrow> db" where
  "settle_step (Complete i r now) d = journal_complete i r now d"
| "settle_step (Fail i r now) d = journal_fail i r now d"
| "settle_step (Outcome_unknown i r now) d = journal_outcome_unknown i r now d"
| "settle_step (Extend_lease i s now) d = journal_extend_lease i s now d"

definition journal_keys :: "db \<Rightarrow> (string \<times> string) set" where
  "journal_keys d = effect_key ` set (t_effects d)"

section \<open>Lemmas\<close>

lemmas journal_settle_defs =
  journal_complete_def journal_fail_def journal_outcome_unknown_def journal_settle_def

lemma new_effect_key [simp]:
  "effect_key (new_effect nid run tool kind aid sha now lease) = (run, tool)"
  "ef_id (new_effect nid run tool kind aid sha now lease) = nid"
  by (simp_all add: new_effect_def effect_key_def)

lemma journal_find_None: "journal_find run tool d = None \<longleftrightarrow> (run, tool) \<notin> journal_keys d"
  by (auto simp: journal_find_def find_None_all journal_keys_def effect_key_def)

lemma journal_find_Some:
  "journal_find run tool d = Some e \<Longrightarrow> e \<in> set (t_effects d) \<and> effect_key e = (run, tool)"
  by (auto simp: journal_find_def effect_key_def dest: find_Some_mem)

lemma settle_keys [simp]: "journal_keys (journal_settle i st r e now d) = journal_keys d"
  by (simp add: journal_keys_def journal_settle_def image_tbl_update effect_key_def)

lemma extend_keys [simp]: "journal_keys (journal_extend_lease i s now d) = journal_keys d"
  by (simp add: journal_keys_def journal_extend_lease_def image_tbl_update effect_key_def)

lemma settle_step_keys [simp]: "journal_keys (settle_step x d) = journal_keys d"
  by (cases x) (simp_all add: journal_complete_def journal_fail_def journal_outcome_unknown_def)

text \<open>The three outcomes of \<open>journal_begin\<close>.\<close>

lemma begin_new:
  assumes "(run, tool) \<notin> journal_keys d" "nid \<notin> set (map ef_id (t_effects d))"
  shows "journal_begin nid run tool kind aid sha now lease d =
    (Inr (new_effect nid run tool kind aid sha now lease, True),
     d\<lparr>t_effects := t_effects d @ [new_effect nid run tool kind aid sha now lease]\<rparr>)"
proof -
  have "tbl_get ef_id nid (t_effects d) = None" using assms(2) by (simp add: tbl_get_None_iff)
  then show ?thesis
    using assms(1) journal_find_None [of run tool d]
    by (simp add: journal_begin_def write_tx_def record_attempt_def journal_get_def
        journal_keys_def tbl_get_append tbl_get_Cons)
qed

lemma begin_known:
  assumes "journal_find run tool d = Some e"
  shows "journal_begin nid run tool kind aid sha now lease d =
    (if settled e \<or> (case ef_lease_until e of None \<Rightarrow> 0 | Some l \<Rightarrow> l) \<le> now
     then (Inr (e, False), d) else (Inl (Effect_in_flight e), d))"
  using assms by (auto simp: journal_begin_def write_tx_def)

lemma begin_fresh:
  assumes "journal_begin nid run tool kind aid sha now lease d = (Inr (e, True), d')"
  shows "(run, tool) \<notin> journal_keys d"
    and "d' = d\<lparr>t_effects := t_effects d @ [new_effect nid run tool kind aid sha now lease]\<rparr>"
proof -
  have none: "journal_find run tool d = None"
    using assms begin_known by (cases "journal_find run tool d") (auto split: if_splits)
  then show "(run, tool) \<notin> journal_keys d" by (simp add: journal_find_None)
  then show "d' = d\<lparr>t_effects := t_effects d @ [new_effect nid run tool kind aid sha now lease]\<rparr>"
    using assms none
    by (auto simp: journal_begin_def write_tx_def record_attempt_def journal_keys_def
        split: option.splits)
qed

lemma begin_cases:
  obtains (fresh) e where
      "journal_begin nid run tool kind aid sha now lease d =
        (Inr (e, True), d\<lparr>t_effects := t_effects d @ [new_effect nid run tool kind aid sha now lease]\<rparr>)"
      "(run, tool) \<notin> journal_keys d"
  | (same) res where "journal_begin nid run tool kind aid sha now lease d = (res, d)"
      "\<And>e. res \<noteq> Inr (e, True)"
proof (cases "journal_find run tool d")
  case None
  let ?d1 = "d\<lparr>t_effects := t_effects d @ [new_effect nid run tool kind aid sha now lease]\<rparr>"
  have key: "(run, tool) \<notin> journal_keys d" using None by (simp add: journal_find_None)
  have "nid \<in> set (map ef_id (t_effects ?d1))" by simp
  then obtain e where "journal_get nid ?d1 = Some e" using tbl_get_ex journal_get_def by metis
  then have "journal_begin nid run tool kind aid sha now lease d = (Inr (e, True), ?d1)"
    using None key by (simp add: journal_begin_def write_tx_def record_attempt_def journal_keys_def)
  then show thesis using fresh key by blast
next
  case (Some e)
  let ?res = "if settled e \<or> (case ef_lease_until e of None \<Rightarrow> 0 | Some l \<Rightarrow> l) \<le> now
     then Inr (e, False) else Inl (Effect_in_flight e)"
  have "journal_begin nid run tool kind aid sha now lease d = (?res, d)"
    using begin_known [OF Some] by simp
  then show thesis by (rule same) simp
qed

interpretation journal: insert_once journal_keys "\<lambda>q. (bq_run q, bq_tool q)" try_begin settle_step
proof unfold_locales
  fix q d d' b
  show "(bq_run q, bq_tool q) \<notin> journal_keys d" if "try_begin q d = (True, d')"
    using that begin_fresh(1) by (fastforce simp: try_begin_def split: prod.splits sum.splits)
  show "(bq_run q, bq_tool q) \<in> journal_keys d'" if "try_begin q d = (True, d')"
    using that begin_fresh(2)
    by (fastforce simp: try_begin_def journal_keys_def split: prod.splits sum.splits)
  show "journal_keys d \<subseteq> journal_keys d'" if "try_begin q d = (b, d')"
    using that
    by (cases rule: begin_cases [of "bq_id q" "bq_run q" "bq_tool q" "bq_kind q" "bq_approval q"
          "bq_sha q" "bq_now q" "bq_lease q" d])
      (auto simp: try_begin_def journal_keys_def split: sum.splits)
qed simp

text \<open>The journal's invariant: no id and no key occurs twice.\<close>

definition journal_inv :: "db \<Rightarrow> bool" where
  "journal_inv d \<longleftrightarrow> distinct (map ef_id (t_effects d)) \<and> distinct (map effect_key (t_effects d))"

lemma settle_step_inv: "journal_inv d \<Longrightarrow> journal_inv (settle_step x d)"
proof -
  have *: "map ef_id (tbl_update P f T) = map ef_id T"
    "map effect_key (tbl_update P f T) = map effect_key T"
    if "\<And>e. ef_id (f e) = ef_id e \<and> effect_key (f e) = effect_key e" for P f T
    using that by (auto simp: tbl_update_def)
  show "journal_inv d \<Longrightarrow> journal_inv (settle_step x d)"
    by (cases x) (auto simp: journal_inv_def journal_settle_defs journal_extend_lease_def *
        effect_key_def)
qed

lemma begin_inv:
  assumes "journal_inv d" "nid \<notin> set (map ef_id (t_effects d))"
  shows "journal_inv (snd (journal_begin nid run tool kind aid sha now lease d))"
  using assms
  by (cases rule: begin_cases [of nid run tool kind aid sha now lease d])
    (auto simp: journal_inv_def journal_keys_def)

lemma journal_get_settle [simp]:
  "journal_get i (journal_settle j st r e now d) =
     (if i = j then map_option (\<lambda>x. x\<lparr>ef_status := st, ef_result := r, ef_error := e,
        ef_lease_until := None, ef_updated_at := now\<rparr>) (journal_get i d) else journal_get i d)"
  by (cases "tbl_get ef_id i (t_effects d)")
    (auto simp: journal_get_def journal_settle_def tbl_get_update dest: tbl_get_SomeD)

section \<open>Properties\<close>

text \<open>
  C3 (once).  However calls of \<open>begin\<close> for one run and tool use interleave with
  completions, failures, unknown outcomes and lease extensions, at any times, at most one of
  them is told to perform the action.
\<close>

theorem effect_granted_once:
  "length (filter (\<lambda>(q, granted). granted \<and> (bq_run q, bq_tool q) = key)
     (put_trace try_begin settle_step history d)) \<le> 1"
  by (rule journal.at_most_once)

text \<open>
  What \<open>begin\<close> answers.  A granted action has a new pending row under its own lease; a
  refused one is answered with the row that already exists, settled or with its lease run out,
  and changes nothing; while the lease runs the call raises.
\<close>

theorem begin_answers:
  assumes "journal_begin nid run tool kind aid sha now lease d = (res, d')"
    and "journal_inv d" "nid \<notin> set (map ef_id (t_effects d))"
  shows "journal_inv d' \<and>
    (case res of
       Inr (e, granted) \<Rightarrow> effect_key e = (run, tool) \<and> e \<in> set (t_effects d') \<and>
         (if granted then ef_id e = nid \<and> ef_status e = Ef_pending \<and>
            ef_lease_until e = Some (now + lease) \<and> t_effects d' = t_effects d @ [e]
          else d' = d \<and> (settled e \<or> is_stale now e \<or> ef_lease_until e = None \<and> 0 \<le> now))
     | Inl x \<Rightarrow> d' = d \<and> (\<exists>e l. x = Effect_in_flight e \<and> effect_key e = (run, tool) \<and>
         \<not> settled e \<and> now < l \<and> (ef_lease_until e = Some l \<or> ef_lease_until e = None \<and> l = 0)))"
proof (cases "journal_find run tool d")
  case None
  then have "res = Inr (new_effect nid run tool kind aid sha now lease, True)"
    "d' = d\<lparr>t_effects := t_effects d @ [new_effect nid run tool kind aid sha now lease]\<rparr>"
    using begin_new [of run tool d nid] assms(1,3) by (auto simp: journal_find_None)
  moreover have "journal_inv d'" using begin_inv [OF assms(2,3)] assms(1) by (metis snd_conv)
  ultimately show ?thesis by (simp add: new_effect_def effect_key_def)
next
  case (Some e)
  note e = journal_find_Some [OF Some]
  have st: "ef_status e = Ef_pending" if "\<not> settled e"
    using that by (cases "ef_status e") (auto simp: settled_def)
  show ?thesis
    using begin_known [OF Some, of nid kind aid sha now lease] assms(1,2) e st
    by (auto simp: is_stale_def split: if_splits option.splits)
qed

text \<open>\<open>begin\<close> answered twice for one run and tool use: granted, then refused.\<close>

theorem begin_answers_witness:
  "\<exists>e d'. journal_begin ''e1'' ''run'' ''tool'' ''send'' None None 0 120 empty_db = (Inr (e, True), d') \<and>
     journal_inv d' \<and> fst (journal_begin ''e2'' ''run'' ''tool'' ''send'' None None 60 120 d') =
       Inl (Effect_in_flight e)"
proof -
  let ?e = "new_effect ''e1'' ''run'' ''tool'' ''send'' None None 0 120"
  let ?d = "empty_db\<lparr>t_effects := [?e]\<rparr>"
  have b: "journal_begin ''e1'' ''run'' ''tool'' ''send'' None None 0 120 empty_db = (Inr (?e, True), ?d)"
    by (subst begin_new) (simp_all add: journal_keys_def)
  have "journal_inv ?d"
    using begin_answers [OF b] by (simp add: journal_inv_def)
  moreover have "fst (journal_begin ''e2'' ''run'' ''tool'' ''send'' None None 60 120 ?d) =
      Inl (Effect_in_flight ?e)"
    by (subst begin_known [of _ _ _ ?e])
      (simp_all add: journal_find_def new_effect_def settled_def)
  ultimately show ?thesis using b by blast
qed

section \<open>The journal as an abstract map\<close>

text \<open>
  What the callers rely on: a map from the key of a tool use to the status of its row and the
  lease on it.  A key enters once; a settled key answers its status and an unsettled one never
  grants the action again.
\<close>

datatype grant = Granted | Settled_before effect_status | In_flight | Lease_over

type_synonym journal_map = "string \<times> string \<Rightarrow> (effect_status \<times> time option) option"

definition spec_begin :: "string \<times> string \<Rightarrow> time \<Rightarrow> time \<Rightarrow> journal_map \<Rightarrow> grant \<times> journal_map" where
  "spec_begin k now lease V =
     (case V k of
        None \<Rightarrow> (Granted, V(k \<mapsto> (Ef_pending, Some (now + lease))))
      | Some (st, l) \<Rightarrow>
          (if settled_status st then Settled_before st
           else if now < (case l of None \<Rightarrow> 0 | Some t \<Rightarrow> t) then In_flight else Lease_over, V))"

fun spec_settle :: "settle_op \<Rightarrow> effect_status \<times> time option \<Rightarrow> effect_status \<times> time option" where
  "spec_settle (Complete i r now) _ = (Ef_done, None)"
| "spec_settle (Fail i r now) _ = (Ef_failed, None)"
| "spec_settle (Outcome_unknown i r now) _ = (Ef_outcome_unknown, None)"
| "spec_settle (Extend_lease i s now) (st, _) = (st, Some (now + s))"

fun op_row :: "settle_op \<Rightarrow> uid" where
  "op_row (Complete i r now) = i"
| "op_row (Fail i r now) = i"
| "op_row (Outcome_unknown i r now) = i"
| "op_row (Extend_lease i s now) = i"

definition journal_view :: "db \<Rightarrow> journal_map" where
  "journal_view d = (\<lambda>(run, tool).
     map_option (\<lambda>e. (ef_status e, ef_lease_until e)) (journal_find run tool d))"

fun grant_of :: "journal_error + effect \<times> bool \<Rightarrow> grant option" where
  "grant_of (Inr (e, True)) = Some Granted"
| "grant_of (Inr (e, False)) = Some (if settled e then Settled_before (ef_status e) else Lease_over)"
| "grant_of (Inl (Effect_in_flight e)) = Some In_flight"
| "grant_of (Inl _) = None"

lemma journal_find_alt: "journal_find run tool d = find (\<lambda>e. effect_key e = (run, tool)) (t_effects d)"
  by (simp add: journal_find_def effect_key_def)

lemma find_mapped:
  "(\<And>x. P (g x) = P x) \<Longrightarrow> find P (map g xs) = map_option g (find P xs)"
  by (induction xs) auto

lemma find_unique:
  "distinct (map key xs) \<Longrightarrow> x \<in> set xs \<Longrightarrow> find (\<lambda>y. key y = key x) xs = Some x"
  by (induction xs) auto

lemma find_key: "find (\<lambda>e. effect_key e = k) xs = Some e \<Longrightarrow> e \<in> set xs \<and> effect_key e = k"
  by (auto dest: find_Some_mem)

lemma journal_view_alt:
  "journal_view d k = map_option (\<lambda>e. (ef_status e, ef_lease_until e))
     (find (\<lambda>e. effect_key e = k) (t_effects d))"
  by (cases k) (simp add: journal_view_def journal_find_alt)

text \<open>A settlement changes the row with the given id, hence only that row's key.\<close>

lemma view_update:
  assumes "journal_inv d" "\<And>e. effect_key (f e) = effect_key e"
    and "\<And>e. (ef_status (f e), ef_lease_until (f e)) = g (ef_status e, ef_lease_until e)"
  shows "journal_view (d\<lparr>t_effects := tbl_update (\<lambda>e. ef_id e = i) f (t_effects d)\<rparr>) =
    (case journal_get i d of None \<Rightarrow> journal_view d
     | Some e \<Rightarrow> (journal_view d)(effect_key e := map_option g (journal_view d (effect_key e))))"
proof (cases "journal_get i d")
  case None
  then have "\<forall>e \<in> set (t_effects d). ef_id e \<noteq> i" by (auto simp: journal_get_def tbl_get_None_iff)
  then have "tbl_update (\<lambda>e. ef_id e = i) f (t_effects d) = t_effects d"
    by (auto simp: tbl_update_def intro: map_idI)
  then show ?thesis using None by simp
next
  case (Some e)
  then have e: "e \<in> set (t_effects d)" "ef_id e = i" by (auto simp: journal_get_def dest: tbl_get_SomeD)
  have same: "x = e \<longleftrightarrow> ef_id x = i" if "x \<in> set (t_effects d)" for x
    using that e assms(1) distinct_same_row [of ef_id "t_effects d" x e] by (auto simp: journal_inv_def)
  have "journal_view (d\<lparr>t_effects := tbl_update (\<lambda>e. ef_id e = i) f (t_effects d)\<rparr>) k =
      ((journal_view d)(effect_key e := map_option g (journal_view d (effect_key e)))) k" for k
  proof -
    let ?u = "\<lambda>e. if ef_id e = i then f e else e"
    have "find (\<lambda>e. effect_key e = k) (map ?u (t_effects d)) =
        map_option ?u (find (\<lambda>e. effect_key e = k) (t_effects d))"
      by (rule find_mapped) (simp add: assms(2))
    moreover have "find (\<lambda>y. effect_key y = effect_key e) (t_effects d) = Some e"
      using assms(1) e(1) by (auto simp: journal_inv_def intro: find_unique)
    ultimately show ?thesis using e(2) same assms(3)
      by (cases "find (\<lambda>e. effect_key e = k) (t_effects d)")
        (auto simp: journal_view_alt tbl_update_def dest: find_key)
  qed
  then show ?thesis using Some by auto
qed

text \<open>
  C4 (the journal is an abstract map).  On a journal without double ids or keys, \<open>begin\<close>
  answers and writes what the map prescribes: granted with a new pending entry under its lease
  when the key is new, the stored status when it is settled, \<open>EffectInFlight\<close> while the lease
  runs, and neither the action nor a change after that; completing, failing, an unknown outcome
  and an extended lease are the map's update of that one key.  The invariant is kept.
\<close>

theorem journal_refines_its_map:
  assumes "journal_inv d" "nid \<notin> set (map ef_id (t_effects d))"
    "journal_begin nid run tool kind aid sha now lease d = (res, d')"
  shows "journal_inv d' \<and>
    (case spec_begin (run, tool) now lease (journal_view d) of
       (g, V) \<Rightarrow> grant_of res = Some g \<and> journal_view d' = V) \<and>
    journal_inv (settle_step x d) \<and>
    journal_view (settle_step x d) =
      (case journal_get (op_row x) d of None \<Rightarrow> journal_view d
       | Some e \<Rightarrow> (journal_view d)(effect_key e := map_option (spec_settle x) (journal_view d (effect_key e))))"
proof -
  have inv: "journal_inv d'" using begin_inv [OF assms(1,2)] assms(3) by (metis snd_conv)
  have beg: "case spec_begin (run, tool) now lease (journal_view d) of
      (g, V) \<Rightarrow> grant_of res = Some g \<and> journal_view d' = V"
  proof (cases "journal_find run tool d")
    case None
    then have none: "find (\<lambda>e. effect_key e = (run, tool)) (t_effects d) = None" by (simp add: journal_find_alt)
    have "journal_view (d\<lparr>t_effects := t_effects d @ [new_effect nid run tool kind aid sha now lease]\<rparr>) =
        (journal_view d)((run, tool) \<mapsto> (Ef_pending, Some (now + lease)))"
      using none by (auto simp: journal_view_alt find_append_case fun_eq_iff new_effect_def effect_key_def split: option.splits)
    moreover have "journal_view d (run, tool) = None" using none by (simp add: journal_view_alt)
    moreover have "(run, tool) \<notin> journal_keys d" using None by (simp add: journal_find_None)
    ultimately show ?thesis
      using begin_new [of run tool d nid kind aid sha now lease] assms(2,3) by (auto simp: spec_begin_def)
  next
    case (Some e)
    then show ?thesis
      using begin_known [OF Some, of nid kind aid sha now lease] assms(3)
      by (auto simp: spec_begin_def journal_view_def settled_def split: if_splits)
  qed
  have "journal_view (settle_step x d) =
      (case journal_get (op_row x) d of None \<Rightarrow> journal_view d
       | Some e \<Rightarrow> (journal_view d)(effect_key e := map_option (spec_settle x) (journal_view d (effect_key e))))"
    by (cases x) (simp_all add: journal_settle_defs journal_extend_lease_def,
      (rule view_update [OF assms(1)], simp_all add: effect_key_def)+)
  then show ?thesis using inv beg settle_step_inv [OF assms(1)] by blast
qed

text \<open>\<open>begin\<close> twice for one run and tool use, then its completion.\<close>

theorem journal_refines_its_map_witness:
  "\<exists>res d'. journal_begin ''e1'' ''run'' ''tool'' ''send'' None None 0 120 empty_db = (res, d') \<and>
     journal_inv d' \<and> grant_of res = Some Granted \<and>
     journal_view d' (''run'', ''tool'') = Some (Ef_pending, Some 120)"
proof -
  obtain res d' where b: "journal_begin ''e1'' ''run'' ''tool'' ''send'' None None 0 120 empty_db = (res, d')"
    by fastforce
  have "journal_view empty_db = Map.empty" by (simp add: journal_view_alt fun_eq_iff)
  moreover have "journal_inv empty_db" "''e1'' \<notin> set (map ef_id (t_effects empty_db))"
    by (simp_all add: journal_inv_def)
  ultimately show ?thesis
    using journal_refines_its_map [OF _ _ b, of "Complete ''e1'' [] 0"] b by (simp add: spec_begin_def)
qed

end
