(* ===== verification/Approvals.thy ===== *)
theory Approvals
  imports Effects
begin

text \<open>
  \<open>hermes_cloud/core/approvals.py\<close>: nothing leaves the household without a person's yes.
  A proposal is staged under a one-time code; a claim is bound to chat, thread, expiry and the
  payload shown, is rate limited per actor and chat, and writes the journal entry of the action
  in its own transaction.  \<open>h\<close> is SHA-256 in hexadecimal and \<open>fr\<close> is
  \<open>float.__repr__\<close>; the raw code and the new ids are what \<open>secrets\<close> and
  \<open>uuid4\<close> returned.
\<close>

section \<open>Model\<close>

definition ttl_seconds :: time where "ttl_seconds = 15 * 60"

definition failed_window_seconds :: time where "failed_window_seconds = 600"

definition failed_max :: nat where "failed_max = 5"

datatype approval_error =
    Rate_limited
  | Payload_tampered uid
  | Claim_journal journal_error
  | Claim_missing

definition payload_sha :: "(string \<Rightarrow> string) \<Rightarrow> (real \<Rightarrow> string) \<Rightarrow> json \<Rightarrow> string" where
  "payload_sha h fr p = h (canonical fr p)"

definition is_hex_char :: "char \<Rightarrow> bool" where
  "is_hex_char c = (let n = of_char c :: nat in (48 \<le> n \<and> n \<le> 57) \<or> (97 \<le> n \<and> n \<le> 102))"

definition code_ok :: "string \<Rightarrow> bool" where
  "code_ok s \<longleftrightarrow> length s = 16 \<and> list_all is_hex_char s"

definition approval_get :: "uid \<Rightarrow> db \<Rightarrow> approval option" where
  "approval_get i d = tbl_get ap_id i (t_approvals d)"

definition stage ::
  "(string \<Rightarrow> string) \<Rightarrow> (real \<Rightarrow> string) \<Rightarrow> uid \<Rightarrow> string \<Rightarrow> string \<Rightarrow> json \<Rightarrow> string \<Rightarrow> string \<Rightarrow>
   int option \<Rightarrow> string option \<Rightarrow> uid option \<Rightarrow> time \<Rightarrow> time \<Rightarrow> db \<Rightarrow> (uid \<times> string \<times> time) \<times> db" where
  "stage h fr nid code kind payload chat actor thread ctx ev ttl now d =
     (let expires_at = now + ttl;
          row = \<lparr>ap_id = nid, ap_event_id = ev, ap_kind = kind, ap_payload = payload,
                 ap_payload_sha = payload_sha h fr payload, ap_code_sha = h code,
                 ap_chat = chat, ap_thread = thread, ap_context_key = ctx, ap_actor = actor,
                 ap_claimed_by = None, ap_status = Ap_staged, ap_last_error = None,
                 ap_receipt = None, ap_created_at = now, ap_expires_at = expires_at,
                 ap_updated_at = now\<rparr>
      in ((nid, code, expires_at), d\<lparr>t_approvals := t_approvals d @ [row]\<rparr>))"

definition failed_attempts :: "string \<Rightarrow> string \<Rightarrow> time \<Rightarrow> db \<Rightarrow> nat" where
  "failed_attempts actor chat now d =
     tbl_count (\<lambda>a. at_actor a = actor \<and> at_chat a = chat \<and>
        at_attempted_at a > now - failed_window_seconds) (t_attempts d)"

definition rate_limited :: "string \<Rightarrow> string \<Rightarrow> time \<Rightarrow> db \<Rightarrow> bool" where
  "rate_limited actor chat now d \<longleftrightarrow> failed_max \<le> failed_attempts actor chat now d"

definition record_failure :: "uid \<Rightarrow> string \<Rightarrow> string \<Rightarrow> time \<Rightarrow> db \<Rightarrow> db" where
  "record_failure nid actor chat now d =
     d\<lparr>t_attempts := t_attempts d @
        [\<lparr>at_id = nid, at_actor = actor, at_chat = chat, at_attempted_at = now\<rparr>]\<rparr>"

definition approvals_set :: "uid \<Rightarrow> (approval \<Rightarrow> approval) \<Rightarrow> db \<Rightarrow> db" where
  "approvals_set i f d = d\<lparr>t_approvals := tbl_update (\<lambda>r. ap_id r = i) f (t_approvals d)\<rparr>"

text \<open>
  \<open>_claim_where\<close>.  The body of the transaction updates the row and then records the
  attempt; a tampered payload is first marked as failed and then raised, inside the same
  transaction.
\<close>

definition claim_body ::
  "(string \<Rightarrow> string) \<Rightarrow> (real \<Rightarrow> string) \<Rightarrow> uid \<Rightarrow> uid \<Rightarrow> (approval \<Rightarrow> bool) \<Rightarrow> string \<Rightarrow> int option \<Rightarrow>
   string \<Rightarrow> time \<Rightarrow> db \<Rightarrow> (approval_error + uid option) \<times> db" where
  "claim_body h fr aid eid pred chat thread actor now d =
     (case find (\<lambda>r. pred r \<and> ap_status r = Ap_staged \<and> ap_chat r = chat \<and> ap_thread r = thread)
             (t_approvals d) of
        None \<Rightarrow> (Inr None, record_failure aid actor chat now d)
      | Some r \<Rightarrow>
          if ap_expires_at r \<le> now then
            (Inr None, approvals_set (ap_id r)
               (\<lambda>x. x\<lparr>ap_status := Ap_expired, ap_updated_at := now\<rparr>) d)
          else if payload_sha h fr (ap_payload r) \<noteq> ap_payload_sha r then
            (Inl (Payload_tampered (ap_id r)),
             approvals_set (ap_id r)
               (\<lambda>x. x\<lparr>ap_status := Ap_failed, ap_last_error := Some ''payload_changed'',
                       ap_updated_at := now\<rparr>) d)
          else
            (let d1 = approvals_set (ap_id r)
                   (\<lambda>x. x\<lparr>ap_status := Ap_claimed, ap_claimed_by := Some actor,
                           ap_updated_at := now\<rparr>) d
             in case record_attempt eid (ap_id r) approval_tool_use_id (ap_kind r)
                       (Some (ap_id r)) (Some (ap_payload_sha r)) now effect_lease_seconds d1 of
                  (Inl e, d2) \<Rightarrow> (Inl (Claim_journal e), d2)
                | (Inr _, d2) \<Rightarrow> (Inr (Some (ap_id r)), d2)))"

definition claim_where ::
  "(string \<Rightarrow> string) \<Rightarrow> (real \<Rightarrow> string) \<Rightarrow> uid \<Rightarrow> uid \<Rightarrow> (approval \<Rightarrow> bool) \<Rightarrow> string \<Rightarrow> int option \<Rightarrow>
   string \<Rightarrow> time \<Rightarrow> db \<Rightarrow> (approval_error + approval option) \<times> db" where
  "claim_where h fr aid eid pred chat thread actor now d =
     (case write_tx (claim_body h fr aid eid pred chat thread actor now) d of
        (Inl e, d') \<Rightarrow> (Inl e, d')
      | (Inr None, d') \<Rightarrow> (Inr None, d')
      | (Inr (Some i), d') \<Rightarrow>
          (case approval_get i d' of
             None \<Rightarrow> (Inl Claim_missing, d')
           | Some a \<Rightarrow> (Inr (Some a), d')))"

definition claim ::
  "(string \<Rightarrow> string) \<Rightarrow> (real \<Rightarrow> string) \<Rightarrow> uid \<Rightarrow> uid \<Rightarrow> string \<Rightarrow> string \<Rightarrow> int option \<Rightarrow> string \<Rightarrow>
   time \<Rightarrow> db \<Rightarrow> (approval_error + approval option) \<times> db" where
  "claim h fr aid eid raw chat thread actor now d =
     (let code = py_lower (py_strip raw)
      in if rate_limited actor chat now d then (Inl Rate_limited, d)
         else if \<not> code_ok code then (Inr None, record_failure aid actor chat now d)
         else claim_where h fr aid eid (\<lambda>r. ap_code_sha r = h code) chat thread actor now d)"

definition claim_by_id ::
  "(string \<Rightarrow> string) \<Rightarrow> (real \<Rightarrow> string) \<Rightarrow> uid \<Rightarrow> uid \<Rightarrow> uid \<Rightarrow> string \<Rightarrow> int option \<Rightarrow> string \<Rightarrow>
   time \<Rightarrow> db \<Rightarrow> (approval_error + approval option) \<times> db" where
  "claim_by_id h fr aid eid i chat thread actor now d =
     (if rate_limited actor chat now d then (Inl Rate_limited, d)
      else claim_where h fr aid eid (\<lambda>r. ap_id r = i) chat thread actor now d)"

definition approval_mark ::
  "uid \<Rightarrow> approval_status \<Rightarrow> string option \<Rightarrow> string option \<Rightarrow> time \<Rightarrow> db \<Rightarrow> db" where
  "approval_mark i st receipt err now =
     approvals_set i (\<lambda>x. x\<lparr>ap_status := st, ap_receipt := coalesce receipt (ap_receipt x),
       ap_last_error := err, ap_updated_at := now\<rparr>)"

definition approval_cancel :: "uid \<Rightarrow> time \<Rightarrow> db \<Rightarrow> bool \<times> db" where
  "approval_cancel i now d =
     (let P = (\<lambda>r. ap_id r = i \<and> ap_status r = Ap_staged)
      in (tbl_count P (t_approvals d) \<noteq> 0,
          d\<lparr>t_approvals := tbl_update P
             (\<lambda>r. r\<lparr>ap_status := Ap_cancelled, ap_updated_at := now\<rparr>) (t_approvals d)\<rparr>))"

definition pending_for :: "string \<Rightarrow> int option \<Rightarrow> time \<Rightarrow> db \<Rightarrow> approval list" where
  "pending_for chat thread now d =
     sort_key ap_created_at
       (filter (\<lambda>r. ap_chat r = chat \<and> ap_thread r = thread \<and> ap_status r = Ap_staged \<and>
          ap_expires_at r > now) (t_approvals d))"

definition expire_stale :: "time \<Rightarrow> db \<Rightarrow> nat \<times> db" where
  "expire_stale now d =
     (let P = (\<lambda>r. ap_status r = Ap_staged \<and> ap_expires_at r \<le> now)
      in (tbl_count P (t_approvals d),
          d\<lparr>t_approvals := tbl_update P
             (\<lambda>r. r\<lparr>ap_status := Ap_expired, ap_updated_at := now\<rparr>) (t_approvals d)\<rparr>))"

section \<open>Histories\<close>

text \<open>
  Everything that happens to the approval tables: the store's operations, the journal's, and
  \<open>Tamper\<close>, someone editing a stored payload behind the store's back.
\<close>

datatype approval_op =
    Stage uid string string json string string "int option" "string option" "uid option" time time
  | Claim uid uid string string "int option" string time
  | Claim_by_id uid uid uid string "int option" string time
  | Mark uid approval_status "string option" "string option" time
  | Cancel uid time
  | Expire_stale time
  | Journal settle_op
  | Begin begin_request
  | Tamper uid json

fun approval_step ::
  "(string \<Rightarrow> string) \<Rightarrow> (real \<Rightarrow> string) \<Rightarrow> approval_op \<Rightarrow> db \<Rightarrow> (approval_error + approval option) \<times> db" where
  "approval_step h fr (Stage nid code kind p chat actor thread ctx ev ttl now) d =
     (Inr None, snd (stage h fr nid code kind p chat actor thread ctx ev ttl now d))"
| "approval_step h fr (Claim aid eid raw chat thread actor now) d =
     claim h fr aid eid raw chat thread actor now d"
| "approval_step h fr (Claim_by_id aid eid i chat thread actor now) d =
     claim_by_id h fr aid eid i chat thread actor now d"
| "approval_step h fr (Mark i st rc err now) d = (Inr None, approval_mark i st rc err now d)"
| "approval_step h fr (Cancel i now) d = (Inr None, snd (approval_cancel i now d))"
| "approval_step h fr (Expire_stale now) d = (Inr None, snd (expire_stale now d))"
| "approval_step h fr (Journal x) d = (Inr None, settle_step x d)"
| "approval_step h fr (Begin q) d = (Inr None, snd (try_begin q d))"
| "approval_step h fr (Tamper i p) d = (Inr None, approvals_set i (\<lambda>r. r\<lparr>ap_payload := p\<rparr>) d)"

text \<open>The approvals that were successfully claimed in a history, in order, and its last state.\<close>

fun claimed_in ::
  "(string \<Rightarrow> string) \<Rightarrow> (real \<Rightarrow> string) \<Rightarrow> approval_op list \<Rightarrow> db \<Rightarrow> approval list \<times> db" where
  "claimed_in h fr [] d = ([], d)"
| "claimed_in h fr (x # xs) d =
     (let (res, d1) = approval_step h fr x d; (as, d2) = claimed_in h fr xs d1
      in ((case res of Inr (Some a) \<Rightarrow> a # as | _ \<Rightarrow> as), d2))"

fun op_time :: "approval_op \<Rightarrow> time option" where
  "op_time (Claim aid eid raw chat thread actor now) = Some now"
| "op_time (Claim_by_id aid eid i chat thread actor now) = Some now"
| "op_time _ = None"

section \<open>What one claim does\<close>

lemma approvals_set_frame [frame_simps]:
  "t_effects (approvals_set i f d) = t_effects d" "t_attempts (approvals_set i f d) = t_attempts d"
  "t_approvals (approvals_set i f d) = tbl_update (\<lambda>r. ap_id r = i) f (t_approvals d)"
  by (simp_all add: approvals_set_def)

lemma record_failure_frame [frame_simps]:
  "t_effects (record_failure i a c now d) = t_effects d"
  "t_approvals (record_failure i a c now d) = t_approvals d"
  by (simp_all add: record_failure_def)

text \<open>The outcomes of a claim that passed the rate limit.\<close>

lemma claim_where_cases:
  obtains (nothing) "claim_where h fr aid eid pred chat thread actor now d =
      (Inr None, record_failure aid actor chat now d)"
    "\<not> (\<exists>r \<in> set (t_approvals d). pred r \<and> ap_status r = Ap_staged \<and> ap_chat r = chat \<and>
        ap_thread r = thread)"
  | (expired) r where "r \<in> set (t_approvals d)" "pred r" "ap_status r = Ap_staged"
      "ap_chat r = chat" "ap_thread r = thread" "ap_expires_at r \<le> now"
      "claim_where h fr aid eid pred chat thread actor now d =
        (Inr None, approvals_set (ap_id r)
           (\<lambda>x. x\<lparr>ap_status := Ap_expired, ap_updated_at := now\<rparr>) d)"
  | (refused) e where "claim_where h fr aid eid pred chat thread actor now d = (Inl e, d)"
  | (claimed) r a d1 where "r \<in> set (t_approvals d)" "pred r" "ap_status r = Ap_staged"
      "ap_chat r = chat" "ap_thread r = thread" "now < ap_expires_at r"
      "payload_sha h fr (ap_payload r) = ap_payload_sha r"
      "(ap_id r, approval_tool_use_id) \<notin> journal_keys d"
      "d1 = approvals_set (ap_id r) (\<lambda>x. x\<lparr>ap_status := Ap_claimed, ap_claimed_by := Some actor,
         ap_updated_at := now\<rparr>) d"
      "approval_get (ap_id r) d1 = Some a"
      "claim_where h fr aid eid pred chat thread actor now d =
        (Inr (Some a), d1\<lparr>t_effects := t_effects d @ [new_effect eid (ap_id r)
           approval_tool_use_id (ap_kind r) (Some (ap_id r)) (Some (ap_payload_sha r)) now
           effect_lease_seconds]\<rparr>)"
proof -
  let ?Q = "\<lambda>r. pred r \<and> ap_status r = Ap_staged \<and> ap_chat r = chat \<and> ap_thread r = thread"
  show thesis
  proof (cases "find ?Q (t_approvals d)")
    case None
    have "claim_where h fr aid eid pred chat thread actor now d =
        (Inr None, record_failure aid actor chat now d)"
      by (simp add: claim_where_def write_tx_def claim_body_def None)
    moreover have "\<not> (\<exists>r \<in> set (t_approvals d). ?Q r)" using None by (simp add: find_None_all)
    ultimately show thesis by (rule nothing)
  next
    case (Some r)
    then have r: "r \<in> set (t_approvals d)" "?Q r" using find_Some_mem [OF Some] by auto
    let ?d1 = "approvals_set (ap_id r) (\<lambda>x. x\<lparr>ap_status := Ap_claimed,
      ap_claimed_by := Some actor, ap_updated_at := now\<rparr>) d"
    consider (late) "ap_expires_at r \<le> now"
      | (tampered) "now < ap_expires_at r" "payload_sha h fr (ap_payload r) \<noteq> ap_payload_sha r"
      | (dup) "now < ap_expires_at r" "payload_sha h fr (ap_payload r) = ap_payload_sha r"
          "(ap_id r, approval_tool_use_id) \<in> journal_keys d"
      | (ok) "now < ap_expires_at r" "payload_sha h fr (ap_payload r) = ap_payload_sha r"
          "(ap_id r, approval_tool_use_id) \<notin> journal_keys d"
      by fastforce
    then show thesis
    proof cases
      case late
      then show thesis
        using Some r expired by (simp add: claim_where_def write_tx_def claim_body_def)
    next
      case tampered
      then have "claim_where h fr aid eid pred chat thread actor now d =
          (Inl (Payload_tampered (ap_id r)), d)"
        using Some by (simp add: claim_where_def write_tx_def claim_body_def)
      then show thesis by (rule refused)
    next
      case dup
      then have "claim_where h fr aid eid pred chat thread actor now d =
          (Inl (Claim_journal Effect_not_unique), d)"
        using Some by (simp add: claim_where_def write_tx_def claim_body_def record_attempt_def
            journal_keys_def frame_simps)
      then show thesis by (rule refused)
    next
      case ok
      have "ap_id r \<in> set (map ap_id (t_approvals ?d1))"
        using r by (simp add: approvals_set_def tbl_update_ids)
      then obtain a where a: "approval_get (ap_id r) ?d1 = Some a"
        using tbl_get_ex approval_get_def by metis
      let ?e = "new_effect eid (ap_id r) approval_tool_use_id (ap_kind r) (Some (ap_id r))
        (Some (ap_payload_sha r)) now effect_lease_seconds"
      have "claim_where h fr aid eid pred chat thread actor now d =
          (Inr (Some a), ?d1\<lparr>t_effects := t_effects d @ [?e]\<rparr>)"
        using Some ok a
        by (simp add: claim_where_def write_tx_def claim_body_def record_attempt_def
            journal_keys_def frame_simps approval_get_def Let_def)
      then show thesis using r ok a by (intro claimed [of r ?d1 a]) simp_all
    qed
  qed
qed

lemma claim_cases:
  obtains (limited) "rate_limited actor chat now d"
      "claim h fr aid eid raw chat thread actor now d = (Inl Rate_limited, d)"
  | (bad) "\<not> rate_limited actor chat now d" "claim h fr aid eid raw chat thread actor now d =
      (Inr None, record_failure aid actor chat now d)"
  | (search) "\<not> rate_limited actor chat now d" "claim h fr aid eid raw chat thread actor now d =
      claim_where h fr aid eid (\<lambda>r. ap_code_sha r = h (py_lower (py_strip raw)))
        chat thread actor now d"
  by (cases "rate_limited actor chat now d"; cases "code_ok (py_lower (py_strip raw))")
    (simp_all add: claim_def Let_def)

text \<open>What the steps keep: spent keys stay spent, and only a claim spends an approval's key.\<close>

lemma claim_where_effects:
  assumes "claim_where h fr aid eid pred chat thread actor now d = (res, d')"
  shows "journal_keys d \<subseteq> journal_keys d'"
    and "res = Inr (Some a) \<Longrightarrow> (ap_id a, approval_tool_use_id) \<notin> journal_keys d \<and>
      (ap_id a, approval_tool_use_id) \<in> journal_keys d'"
    and "(\<forall>a. res \<noteq> Inr (Some a)) \<Longrightarrow> t_effects d' = t_effects d"
proof -
  have "journal_keys d \<subseteq> journal_keys d' \<and>
    (res = Inr (Some a) \<longrightarrow> (ap_id a, approval_tool_use_id) \<notin> journal_keys d \<and>
      (ap_id a, approval_tool_use_id) \<in> journal_keys d') \<and>
    ((\<forall>a. res \<noteq> Inr (Some a)) \<longrightarrow> t_effects d' = t_effects d)"
  proof (cases rule: claim_where_cases [of h fr aid eid pred chat thread actor now d])
    case (claimed r b d1)
    have "ap_id b = ap_id r" using claimed(10) by (auto simp: approval_get_def dest: tbl_get_SomeD)
    then show ?thesis using assms claimed(8,9,11) by (auto simp: journal_keys_def frame_simps)
  qed (use assms in \<open>auto simp: journal_keys_def frame_simps\<close>)
  then show "journal_keys d \<subseteq> journal_keys d'"
    "res = Inr (Some a) \<Longrightarrow> (ap_id a, approval_tool_use_id) \<notin> journal_keys d \<and>
      (ap_id a, approval_tool_use_id) \<in> journal_keys d'"
    "(\<forall>a. res \<noteq> Inr (Some a)) \<Longrightarrow> t_effects d' = t_effects d" by auto
qed

lemma stage_frame [frame_simps]:
  "t_effects (snd (stage h fr nid code kind p chat actor thread ctx ev ttl now d)) = t_effects d"
  "t_attempts (snd (stage h fr nid code kind p chat actor thread ctx ev ttl now d)) = t_attempts d"
  by (simp_all add: stage_def Let_def)

lemma try_begin_mono: "journal_keys d \<subseteq> journal_keys (snd (try_begin q d))"
  using journal.put_keeps [of q d "fst (try_begin q d)" "snd (try_begin q d)"] by simp

lemma approval_step_keys:
  assumes "approval_step h fr x d = (res, d')"
  shows "journal_keys d \<subseteq> journal_keys d'"
    and "res = Inr (Some a) \<Longrightarrow> (ap_id a, approval_tool_use_id) \<notin> journal_keys d \<and>
      (ap_id a, approval_tool_use_id) \<in> journal_keys d'"
proof -
  have "journal_keys d \<subseteq> journal_keys d' \<and>
    (res = Inr (Some a) \<longrightarrow> (ap_id a, approval_tool_use_id) \<notin> journal_keys d \<and>
      (ap_id a, approval_tool_use_id) \<in> journal_keys d')"
  proof (cases x)
    case (Claim aid eid raw chat thread actor now)
    show ?thesis
    proof (cases rule: claim_cases [of actor chat now d h fr aid eid raw thread])
      case search
      then show ?thesis using assms Claim claim_where_effects(1,2) by (metis approval_step.simps(2))
    qed (use assms Claim in \<open>auto simp: journal_keys_def frame_simps\<close>)
  next
    case (Claim_by_id aid eid i chat thread actor now)
    show ?thesis
    proof (cases "rate_limited actor chat now d")
      case False
      then show ?thesis using assms Claim_by_id claim_where_effects(1,2)
        by (metis approval_step.simps(3) claim_by_id_def)
    qed (use assms Claim_by_id in \<open>auto simp: claim_by_id_def\<close>)
  next
    case (Begin q)
    then show ?thesis using assms try_begin_mono [of d q] by auto
  next
    case (Journal y)
    then show ?thesis using assms by auto
  qed (use assms in \<open>auto simp: journal_keys_def frame_simps approval_mark_def approval_cancel_def
      expire_stale_def Let_def\<close>)
  then show "journal_keys d \<subseteq> journal_keys d'"
    "res = Inr (Some a) \<Longrightarrow> (ap_id a, approval_tool_use_id) \<notin> journal_keys d \<and>
      (ap_id a, approval_tool_use_id) \<in> journal_keys d'" by auto
qed

lemma approval_step_other:
  assumes "approval_step h fr x d = (res, d')" "op_time x = None"
  shows "t_attempts d' = t_attempts d" and "res = Inr None"
proof -
  have "t_attempts (snd (try_begin q d)) = t_attempts d" for q
    by (cases rule: begin_cases [of "bq_id q" "bq_run q" "bq_tool q" "bq_kind q" "bq_approval q"
          "bq_sha q" "bq_now q" "bq_lease q" d])
      (auto simp: try_begin_def split: sum.splits)
  moreover have "t_attempts (settle_step y d) = t_attempts d" for y
    by (cases y) (simp_all add: journal_settle_defs journal_extend_lease_def)
  ultimately show "t_attempts d' = t_attempts d"
    using assms by (cases x) (auto simp: approval_mark_def approval_cancel_def expire_stale_def
        Let_def frame_simps)
  show "res = Inr None" using assms by (cases x) auto
qed

lemma single_use_gen:
  "distinct (map ap_id (fst (claimed_in h fr ops d))) \<and>
   (\<forall>a \<in> set (fst (claimed_in h fr ops d)). (ap_id a, approval_tool_use_id) \<notin> journal_keys d)"
proof (induction ops arbitrary: d)
  case (Cons x xs)
  obtain res d1 where st: "approval_step h fr x d = (res, d1)" by fastforce
  obtain as d2 where tl: "claimed_in h fr xs d1 = (as, d2)" by fastforce
  note keys = approval_step_keys [OF st]
  have "distinct (map ap_id as)"
    and "\<forall>b \<in> set as. (ap_id b, approval_tool_use_id) \<notin> journal_keys d1"
    using Cons.IH [of d1] tl by auto
  then show ?case
    using st tl keys(1) keys(2) by (fastforce split: sum.splits option.splits)
qed simp

text \<open>
  The failures one actor recorded in one chat within a window that ends at \<open>t\<close>.
\<close>

definition failures_until :: "string \<Rightarrow> string \<Rightarrow> time \<Rightarrow> db \<Rightarrow> nat" where
  "failures_until actor chat t d =
     tbl_count (\<lambda>a. at_actor a = actor \<and> at_chat a = chat \<and>
        at_attempted_at a > t - failed_window_seconds \<and> at_attempted_at a \<le> t) (t_attempts d)"

lemma tbl_count_mono: "(\<And>r. P r \<Longrightarrow> Q r) \<Longrightarrow> tbl_count P T \<le> tbl_count Q T"
  by (induction T) (auto simp: tbl_count_def)

lemma failures_until_le:
  assumes "now \<le> t"
  shows "failures_until actor chat t d \<le> failed_attempts actor chat now d"
  using assms by (auto simp: failures_until_def failed_attempts_def intro!: tbl_count_mono)

lemma failures_until_record:
  "failures_until a c t (record_failure i actor chat now d) =
     failures_until a c t d +
       (if a = actor \<and> c = chat \<and> t - failed_window_seconds < now \<and> now \<le> t then 1 else 0)"
  by (auto simp: failures_until_def record_failure_def tbl_count_def)

lemma failures_record_bounded:
  assumes "\<not> rate_limited actor chat now d" "\<And>t. failures_until a c t d \<le> failed_max"
  shows "failures_until a c t (record_failure i actor chat now d) \<le> failed_max"
proof (cases "a = actor \<and> c = chat \<and> now \<le> t")
  case True
  then have "failures_until a c t d < failed_max"
    using assms(1) failures_until_le [of now t actor chat d] by (auto simp: rate_limited_def)
  then show ?thesis using True by (simp add: failures_until_record Suc_le_eq)
next
  case False
  then show ?thesis using assms(2) by (auto simp: failures_until_record)
qed

lemma claim_where_attempts:
  assumes "claim_where h fr aid eid pred chat thread actor now d = (res, d')"
  shows "t_attempts d' = t_attempts d \<or> t_attempts d' = t_attempts (record_failure aid actor chat now d)"
  by (cases rule: claim_where_cases [of h fr aid eid pred chat thread actor now d])
    (use assms in \<open>auto simp: frame_simps\<close>)

lemma failures_until_cong: "t_attempts d' = t_attempts d \<Longrightarrow> failures_until a c t d' = failures_until a c t d"
  by (simp add: failures_until_def)

lemma approval_step_failures:
  assumes st: "approval_step h fr x d = (res, d')" and b: "\<And>t. failures_until a c t d \<le> failed_max"
  shows "failures_until a c t d' \<le> failed_max"
proof -
  have where_ok: "failures_until a c t d' \<le> failed_max"
    if "claim_where h fr aid eid pred chat thread actor now d = (res, d')"
      "\<not> rate_limited actor chat now d" for aid eid pred chat thread actor now
    using claim_where_attempts [OF that(1)] failures_until_cong [of d'] b
      failures_record_bounded [OF that(2) b] by metis
  show ?thesis
  proof (cases x)
    case (Claim aid eid raw chat thread actor now)
    show ?thesis
      by (cases rule: claim_cases [of actor chat now d h fr aid eid raw thread])
        (use st b Claim where_ok failures_record_bounded in auto)
  next
    case (Claim_by_id aid eid i chat thread actor now)
    then show ?thesis
      using st b where_ok by (cases "rate_limited actor chat now d") (auto simp: claim_by_id_def)
  qed (use approval_step_other(1) [OF st] failures_until_cong [of d'] b in \<open>simp_all\<close>)
qed

lemma failures_bounded_gen:
  assumes "\<And>t. failures_until a c t d \<le> failed_max"
  shows "failures_until a c t (snd (claimed_in h fr ops d)) \<le> failed_max"
  using assms
proof (induction ops arbitrary: d)
  case (Cons x xs)
  obtain res d1 where st: "approval_step h fr x d = (res, d1)" by fastforce
  then show ?case
    using Cons.IH [of d1] approval_step_failures [OF st Cons.prems]
    by (cases "claimed_in h fr xs d1") simp
qed simp

text \<open>The row a successful claim returns, when ids are unique.\<close>

lemma claim_where_row:
  assumes "claim_where h fr aid eid pred chat thread actor now d = (Inr (Some a), d')"
    and "distinct (map ap_id (t_approvals d))"
  obtains r where "r \<in> set (t_approvals d)" "pred r" "ap_status r = Ap_staged" "ap_chat r = chat"
    "ap_thread r = thread" "now < ap_expires_at r"
    "payload_sha h fr (ap_payload r) = ap_payload_sha r"
    "a = r\<lparr>ap_status := Ap_claimed, ap_claimed_by := Some actor, ap_updated_at := now\<rparr>"
    "d' = d\<lparr>t_approvals := tbl_update (\<lambda>x. ap_id x = ap_id r)
            (\<lambda>x. x\<lparr>ap_status := Ap_claimed, ap_claimed_by := Some actor, ap_updated_at := now\<rparr>)
            (t_approvals d),
          t_effects := t_effects d @ [new_effect eid (ap_id r) approval_tool_use_id (ap_kind r)
            (Some (ap_id r)) (Some (ap_payload_sha r)) now effect_lease_seconds]\<rparr>"
proof (cases rule: claim_where_cases [of h fr aid eid pred chat thread actor now d])
  case (claimed r b d1)
  have ba: "b = a" using claimed(11) assms(1) by simp
  have "tbl_get ap_id (ap_id r) (t_approvals d) = Some r"
    using tbl_get_mem [OF assms(2)] claimed(1) by blast
  then have "a = r\<lparr>ap_status := Ap_claimed, ap_claimed_by := Some actor, ap_updated_at := now\<rparr>"
    using claimed(9,10) ba by (simp add: approval_get_def approvals_set_def tbl_get_update)
  then show thesis using that [of r] claimed assms(1) by (simp add: approvals_set_def)
qed (use assms in auto)

fun staged_row :: "(string \<Rightarrow> string) \<Rightarrow> (real \<Rightarrow> string) \<Rightarrow> approval_op \<Rightarrow> approval list" where
  "staged_row h fr (Stage nid code kind p chat actor thread ctx ev ttl now) =
     t_approvals (snd (stage h fr nid code kind p chat actor thread ctx ev ttl now empty_db))"
| "staged_row h fr _ = []"

text \<open>The columns no operation changes after the row was staged.\<close>

definition shown :: "approval \<Rightarrow> uid \<times> string \<times> string \<times> string \<times> string \<times> int option \<times> time" where
  "shown r = (ap_id r, ap_kind r, ap_payload_sha r, ap_code_sha r, ap_chat r, ap_thread r,
     ap_expires_at r)"

lemma shown_update [simp]: "(\<And>r. shown (f r) = shown r) \<Longrightarrow> map shown (tbl_update P f T) = map shown T"
  by (simp add: tbl_update_def)

lemma claim_where_shown:
  assumes "claim_where h fr aid eid pred chat thread actor now d = (res, d')"
  shows "map shown (t_approvals d') = map shown (t_approvals d)"
  by (cases rule: claim_where_cases [of h fr aid eid pred chat thread actor now d])
    (use assms in \<open>auto simp: frame_simps shown_def comp_def tbl_update_def\<close>)

lemma approval_step_shown:
  assumes "approval_step h fr x d = (res, d')"
  shows "map shown (t_approvals d') = map shown (t_approvals d @ staged_row h fr x)"
proof -
  have b: "t_approvals (snd (try_begin q d)) = t_approvals d" for q
    by (cases rule: begin_cases [of "bq_id q" "bq_run q" "bq_tool q" "bq_kind q" "bq_approval q"
          "bq_sha q" "bq_now q" "bq_lease q" d])
      (auto simp: try_begin_def split: sum.splits)
  have s: "t_approvals (settle_step y d) = t_approvals d" for y
    by (cases y) (simp_all add: journal_settle_defs journal_extend_lease_def)
  show ?thesis
  proof (cases x)
    case (Claim aid eid raw chat thread actor now)
    show ?thesis
      by (cases rule: claim_cases [of actor chat now d h fr aid eid raw thread])
        (use assms Claim claim_where_shown in \<open>auto simp: frame_simps\<close>)
  next
    case (Claim_by_id aid eid i chat thread actor now)
    then show ?thesis using assms claim_where_shown
      by (cases "rate_limited actor chat now d") (auto simp: claim_by_id_def)
  next
    case (Begin q)
    then show ?thesis using assms b [of q] by auto
  next
    case (Journal y)
    then show ?thesis using assms s [of y] by auto
  qed (use assms in \<open>auto simp: stage_def Let_def approval_mark_def approval_cancel_def
      expire_stale_def frame_simps shown_def comp_def tbl_update_def\<close>)
qed

lemma shown_ids: "map shown T = map shown U \<Longrightarrow> map ap_id T = map ap_id U"
proof -
  have "map ap_id V = map fst (map shown V)" for V by (simp add: shown_def)
  then show "map shown T = map shown U \<Longrightarrow> map ap_id T = map ap_id U" by metis
qed

lemma approval_step_claimed:
  assumes "approval_step h fr x d = (Inr (Some a), d')" "distinct (map ap_id (t_approvals d))"
  shows "payload_sha h fr (ap_payload a) = ap_payload_sha a" "shown a \<in> shown ` set (t_approvals d)"
proof -
  have *: "payload_sha h fr (ap_payload a) = ap_payload_sha a \<and> shown a \<in> shown ` set (t_approvals d)"
    if "claim_where h fr aid eid pred chat thread actor now d = (Inr (Some a), d')"
    for aid eid pred chat thread actor now
    by (rule claim_where_row [OF that assms(2)]) (auto simp: shown_def image_iff)
  have "payload_sha h fr (ap_payload a) = ap_payload_sha a \<and> shown a \<in> shown ` set (t_approvals d)"
  proof (cases "op_time x")
    case None
    then show ?thesis using approval_step_other(2) [OF assms(1)] by simp
  next
    case (Some t)
    then show ?thesis
      using assms(1) * by (cases x) (auto simp: claim_by_id_def claim_def Let_def split: if_splits)
  qed
  then show "payload_sha h fr (ap_payload a) = ap_payload_sha a"
    "shown a \<in> shown ` set (t_approvals d)" by auto
qed

lemma claimed_shown_gen:
  assumes "distinct (map ap_id (t_approvals d @ concat (map (staged_row h fr) ops)))"
    and "a \<in> set (fst (claimed_in h fr ops d))"
  shows "payload_sha h fr (ap_payload a) = ap_payload_sha a \<and>
    shown a \<in> shown ` set (t_approvals d @ concat (map (staged_row h fr) ops))"
  using assms
proof (induction ops arbitrary: d)
  case (Cons x xs)
  obtain res d1 where st: "approval_step h fr x d = (res, d1)" by fastforce
  obtain as d2 where tl: "claimed_in h fr xs d1 = (as, d2)" by fastforce
  note sh = approval_step_shown [OF st]
  have d1: "distinct (map ap_id (t_approvals d1 @ concat (map (staged_row h fr) xs)))"
    using Cons.prems(1) shown_ids [OF sh] by simp
  have img: "shown ` set (t_approvals d1) = shown ` set (t_approvals d @ staged_row h fr x)"
    using arg_cong [OF sh, of set] by (simp add: image_Un)
  show ?case
  proof (cases "a \<in> set as")
    case True
    then show ?thesis using Cons.IH [OF d1] tl img by (auto simp: image_Un)
  next
    case False
    then have "res = Inr (Some a)" using Cons.prems(2) st tl by (auto split: sum.splits option.splits)
    then show ?thesis using approval_step_claimed [of h fr x d a d1] st Cons.prems(1) by auto
  qed
qed simp

section \<open>Properties\<close>

text \<open>
  C1 (single use).  Whatever is staged, claimed by code or by button, marked, cancelled,
  expired, settled, begun or edited, in any order and by anyone: no approval is claimed twice.
\<close>

theorem approval_single_use: "distinct (map ap_id (fst (claimed_in h fr ops d)))"
  using single_use_gen by blast

text \<open>
  C2 (what a claim is).  A claim by code that succeeds found a staged approval with this code's
  hash, in this chat and thread, not yet expired, whose payload still has the hash it was staged
  with, and its actor was below the failure limit; in the same transaction the row becomes
  claimed by the actor and exactly one pending journal entry for it is written.
\<close>

theorem claim_is_bound_and_journaled:
  assumes "claim h fr aid eid raw chat thread actor now d = (Inr (Some a), d')"
    and "distinct (map ap_id (t_approvals d))"
  shows "failed_attempts actor chat now d < 5 \<and> code_ok (py_lower (py_strip raw)) \<and>
    (\<exists>r \<in> set (t_approvals d). ap_status r = Ap_staged \<and>
       ap_code_sha r = h (py_lower (py_strip raw)) \<and> ap_chat r = chat \<and> ap_thread r = thread \<and>
       now < ap_expires_at r \<and> h (canonical fr (ap_payload r)) = ap_payload_sha r \<and>
       a = r\<lparr>ap_status := Ap_claimed, ap_claimed_by := Some actor, ap_updated_at := now\<rparr> \<and>
       d' = d\<lparr>t_approvals := map (\<lambda>x. if ap_id x = ap_id r then a else x) (t_approvals d),
              t_effects := t_effects d @ [new_effect eid (ap_id r) ''approval'' (ap_kind r)
                (Some (ap_id r)) (Some (ap_payload_sha r)) now 120]\<rparr>)"
proof -
  let ?code = "py_lower (py_strip raw)"
  have w: "claim_where h fr aid eid (\<lambda>r. ap_code_sha r = h ?code) chat thread actor now d =
      (Inr (Some a), d')"
    and g: "\<not> rate_limited actor chat now d" "code_ok ?code"
    using assms(1) by (auto simp: claim_def Let_def split: if_splits)
  obtain r where r: "r \<in> set (t_approvals d)" "ap_code_sha r = h ?code" "ap_status r = Ap_staged"
    "ap_chat r = chat" "ap_thread r = thread" "now < ap_expires_at r"
    "payload_sha h fr (ap_payload r) = ap_payload_sha r"
    "a = r\<lparr>ap_status := Ap_claimed, ap_claimed_by := Some actor, ap_updated_at := now\<rparr>"
    "d' = d\<lparr>t_approvals := tbl_update (\<lambda>x. ap_id x = ap_id r)
            (\<lambda>x. x\<lparr>ap_status := Ap_claimed, ap_claimed_by := Some actor, ap_updated_at := now\<rparr>)
            (t_approvals d),
          t_effects := t_effects d @ [new_effect eid (ap_id r) approval_tool_use_id (ap_kind r)
            (Some (ap_id r)) (Some (ap_payload_sha r)) now effect_lease_seconds]\<rparr>"
    by (rule claim_where_row [OF w assms(2)])
  have "tbl_update (\<lambda>x. ap_id x = ap_id r)
            (\<lambda>x. x\<lparr>ap_status := Ap_claimed, ap_claimed_by := Some actor, ap_updated_at := now\<rparr>)
            (t_approvals d) = map (\<lambda>x. if ap_id x = ap_id r then a else x) (t_approvals d)"
    using distinct_same_row [OF assms(2) r(1)] r(8) by (simp add: tbl_update_def) metis
  then show ?thesis
    using r g by (auto simp: rate_limited_def failed_max_def payload_sha_def
        approval_tool_use_id_def effect_lease_seconds_def intro!: bexI [of _ r])
qed

text \<open>
  What was shown is what runs.  Starting from an empty file, every claimed approval is one
  that was staged, with the kind, chat and thread it was staged with, and its payload hashes
  like the payload the card showed, even when someone edits stored payloads in between.
\<close>

theorem claimed_is_what_was_shown:
  assumes "distinct (map ap_id (concat (map (staged_row h fr) ops)))"
    and "a \<in> set (fst (claimed_in h fr ops empty_db))"
  shows "\<exists>code p actor ctx ev ttl t.
    Stage (ap_id a) code (ap_kind a) p (ap_chat a) actor (ap_thread a) ctx ev ttl t \<in> set ops \<and>
    h (canonical fr (ap_payload a)) = h (canonical fr p) \<and> ap_code_sha a = h code"
proof -
  have g: "payload_sha h fr (ap_payload a) = ap_payload_sha a"
    "shown a \<in> shown ` set (concat (map (staged_row h fr) ops))"
    using claimed_shown_gen [of empty_db h fr ops a] assms by auto
  then obtain x r where x: "x \<in> set ops" "r \<in> set (staged_row h fr x)" "shown a = shown r" by auto
  show ?thesis
  proof (cases x)
    case (Stage nid code kind p chat actor thread ctx ev ttl now)
    then have "Stage (ap_id a) code (ap_kind a) p (ap_chat a) actor (ap_thread a) ctx ev ttl now = x"
      "h (canonical fr (ap_payload a)) = h (canonical fr p)" "ap_code_sha a = h code"
      using x(2,3) g(1) by (auto simp: stage_def Let_def shown_def payload_sha_def)
    then show ?thesis using x(1) by blast
  qed (use x(2) in simp_all)
qed

text \<open>
  Guessing.  In no history do more than five failed codes of one actor in one chat count
  within any window of ten minutes.
\<close>

theorem guesses_bounded:
  "tbl_count (\<lambda>a. at_actor a = actor \<and> at_chat a = chat \<and> t - 600 < at_attempted_at a \<and>
     at_attempted_at a \<le> t) (t_attempts (snd (claimed_in h fr ops empty_db))) \<le> 5"
  using failures_bounded_gen [where a = actor and c = chat and d = empty_db and t = t and h = h
      and fr = fr and ops = ops]
  by (simp add: failures_until_def failed_window_seconds_def failed_max_def tbl_count_def)

text \<open>
  A changed payload.  A claim that meets a changed payload raises, and the transaction it
  raises in takes the mark with it: the file is as before, and the approval is still staged.
\<close>

theorem tampered_claim_leaves_no_mark:
  assumes "r \<in> set (t_approvals d)" "ap_status r = Ap_staged" "now < ap_expires_at r"
    "h (canonical fr (ap_payload r)) \<noteq> ap_payload_sha r" "distinct (map ap_id (t_approvals d))"
    "\<not> rate_limited actor (ap_chat r) now d"
  shows "claim_by_id h fr aid eid (ap_id r) (ap_chat r) (ap_thread r) actor now d =
    (Inl (Payload_tampered (ap_id r)), d)"
proof -
  let ?Q = "\<lambda>x. ap_id x = ap_id r \<and> ap_status x = Ap_staged \<and> ap_chat x = ap_chat r \<and>
    ap_thread x = ap_thread r"
  have "find ?Q (t_approvals d) \<noteq> None" using assms(1,2) by (auto simp: find_None_all)
  then obtain x where x: "find ?Q (t_approvals d) = Some x" by blast
  then have "x = r" using find_Some_mem [OF x] distinct_same_row [OF assms(5)] assms(1) by blast
  then show ?thesis
    using x assms by (simp add: claim_by_id_def claim_where_def claim_body_def write_tx_def
        payload_sha_def)
qed

section \<open>Witnesses\<close>

definition sample_code :: string where "sample_code = ''0123456789abcdef''"

definition sample_stage :: approval_op where
  "sample_stage = Stage ''a1'' sample_code ''reminder'' (JObj [(''text'', JStr ''tea'')]) ''c''
     ''agent'' None None None 900 0"

definition sample_claim :: approval_op where
  "sample_claim = Claim ''t1'' ''e1'' '' 0123456789ABCDEF '' ''c'' None ''anna'' 60"

lemma sample_code_ok: "py_lower (py_strip '' 0123456789ABCDEF '') = sample_code" "code_ok sample_code"
  by code_simp+

definition sample_db :: db where
  "sample_db = snd (approval_step (\<lambda>s. s) (\<lambda>r. []) sample_stage empty_db)"

definition sample_row :: approval where
  "sample_row = \<lparr>ap_id = ''a1'', ap_event_id = None, ap_kind = ''reminder'',
     ap_payload = JObj [(''text'', JStr ''tea'')],
     ap_payload_sha = canonical (\<lambda>r. []) (JObj [(''text'', JStr ''tea'')]),
     ap_code_sha = sample_code, ap_chat = ''c'', ap_thread = None, ap_context_key = None,
     ap_actor = ''agent'', ap_claimed_by = None, ap_status = Ap_staged, ap_last_error = None,
     ap_receipt = None, ap_created_at = 0, ap_expires_at = 900, ap_updated_at = 0\<rparr>"

lemma sample_row_sel [simp]:
  "ap_id sample_row = ''a1''" "ap_status sample_row = Ap_staged" "ap_chat sample_row = ''c''"
  "ap_thread sample_row = None" "ap_expires_at sample_row = 900" "ap_code_sha sample_row = sample_code"
  "ap_payload_sha sample_row = canonical (\<lambda>r. []) (ap_payload sample_row)"
  by (simp_all only: sample_row_def approval.select_convs)

lemma sample_db_eq: "sample_db = empty_db\<lparr>t_approvals := [sample_row]\<rparr>"
  by (simp add: sample_db_def sample_stage_def sample_row_def stage_def Let_def payload_sha_def
      del: canonical.simps)

lemma sample_claimed:
  "\<exists>a d'. approval_step (\<lambda>s. s) (\<lambda>r. []) sample_claim sample_db = (Inr (Some a), d') \<and> ap_id a = ''a1''"
  by (simp add: sample_db_eq sample_claim_def claim_def Let_def sample_code_ok
      rate_limited_def failed_attempts_def failed_max_def tbl_count_def claim_where_def
      claim_body_def write_tx_def payload_sha_def approvals_set_def record_attempt_def
      approval_get_def tbl_get_def del: canonical.simps)

theorem claim_is_bound_and_journaled_witness:
  "\<exists>a d'. claim (\<lambda>s. s) (\<lambda>r. []) ''t1'' ''e1'' '' 0123456789ABCDEF '' ''c'' None ''anna'' 60 sample_db =
     (Inr (Some a), d') \<and> length (t_effects d') = 1 \<and> ap_claimed_by a = Some ''anna''"
proof -
  obtain a d' where st: "claim (\<lambda>s. s) (\<lambda>r. []) ''t1'' ''e1'' '' 0123456789ABCDEF '' ''c'' None ''anna''
      60 sample_db = (Inr (Some a), d')"
    using sample_claimed by (auto simp: sample_claim_def)
  have db: "distinct (map ap_id (t_approvals sample_db))" "t_effects sample_db = []"
    by (simp_all add: sample_db_eq)
  show ?thesis using claim_is_bound_and_journaled [OF st db(1)] st db(2) by auto
qed

theorem claimed_is_what_was_shown_witness:
  "\<exists>a. a \<in> set (fst (claimed_in (\<lambda>s. s) (\<lambda>r. []) [sample_stage, Tamper ''a2'' JNull, sample_claim]
       empty_db)) \<and> ap_code_sha a = sample_code"
proof -
  let ?ops = "[sample_stage, Tamper ''a2'' JNull, sample_claim]"
  have same: "approvals_set ''a2'' f sample_db = sample_db" for f
    by (simp add: approvals_set_def sample_db_eq)
  obtain a d' where st: "approval_step (\<lambda>s. s) (\<lambda>r. []) sample_claim sample_db = (Inr (Some a), d')"
    using sample_claimed by auto
  have first: "approval_step (\<lambda>s. s) (\<lambda>r. []) sample_stage empty_db = (Inr None, sample_db)"
    by (simp add: sample_db_def sample_stage_def)
  have a: "a \<in> set (fst (claimed_in (\<lambda>s. s) (\<lambda>r. []) ?ops empty_db))"
    by (simp add: first same st Let_def)
  have "distinct (map ap_id (concat (map (staged_row (\<lambda>s. s) (\<lambda>r. [])) ?ops)))"
    by (simp add: sample_stage_def sample_claim_def stage_def Let_def)
  from claimed_is_what_was_shown [OF this a] obtain code p actor ctx ev ttl t where
    "Stage (ap_id a) code (ap_kind a) p (ap_chat a) actor (ap_thread a) ctx ev ttl t \<in> set ?ops"
    "ap_code_sha a = code" by blast
  then show ?thesis using a by (auto simp: sample_stage_def sample_claim_def)
qed

theorem tampered_claim_leaves_no_mark_witness:
  "claim_by_id (\<lambda>s. s) (\<lambda>r. []) ''t1'' ''e1'' ''a1'' ''c'' None ''anna'' 60
     (approvals_set ''a1'' (\<lambda>r. r\<lparr>ap_payload := JNull\<rparr>) sample_db) =
   (Inl (Payload_tampered ''a1''), approvals_set ''a1'' (\<lambda>r. r\<lparr>ap_payload := JNull\<rparr>) sample_db)"
proof -
  let ?r = "sample_row\<lparr>ap_payload := JNull\<rparr>"
  let ?d = "approvals_set ''a1'' (\<lambda>r. r\<lparr>ap_payload := JNull\<rparr>) sample_db"
  have T: "t_approvals ?d = [?r]" "t_attempts ?d = []" by (simp_all add: approvals_set_def sample_db_eq)
  have sha: "ap_payload_sha ?r = canonical (\<lambda>r. []) (JObj [(''text'', JStr ''tea'')])"
    by (simp only: sample_row_def approval.update_convs approval.select_convs)
  have "\<not> rate_limited ''anna'' (ap_chat ?r) 60 ?d"
    using T(2) by (simp add: rate_limited_def failed_attempts_def tbl_count_def failed_max_def)
  then show ?thesis
    using tampered_claim_leaves_no_mark [of ?r ?d 60 "\<lambda>s. s" "\<lambda>r. []" "''anna''" "''t1''" "''e1''"] T(1) sha
    by simp
qed

section \<open>Code and button\<close>

lemma find_congruent: "(\<And>x. x \<in> set xs \<Longrightarrow> P x = Q x) \<Longrightarrow> find P xs = find Q xs"
  by (induction xs) auto

lemma claim_where_predicate:
  assumes "\<And>b. b \<in> set (t_approvals d) \<Longrightarrow> ap_status b = Ap_staged \<Longrightarrow> ap_chat b = chat \<Longrightarrow>
    ap_thread b = thread \<Longrightarrow> P b = Q b"
  shows "claim_where h fr aid eid P chat thread actor now d = claim_where h fr aid eid Q chat thread actor now d"
proof -
  have "find (\<lambda>r. P r \<and> ap_status r = Ap_staged \<and> ap_chat r = chat \<and> ap_thread r = thread) (t_approvals d) =
      find (\<lambda>r. Q r \<and> ap_status r = Ap_staged \<and> ap_chat r = chat \<and> ap_thread r = thread) (t_approvals d)"
    by (rule find_congruent) (auto simp: assms)
  then show ?thesis by (simp add: claim_where_def claim_body_def write_tx_def)
qed

text \<open>
  The typed code and the button are one confirmation.  Where the hash of a code names one
  proposal of the conversation, typing the code, in capitals or with blanks around it, does what
  the button with that proposal's id does, whatever the state of the file: the same answer or
  the same error, the same rows written, the same failure counted when there is nothing to confirm.
\<close>

theorem code_and_button_agree:
  assumes "code_ok (py_lower (py_strip raw))"
    "\<forall>b \<in> set (t_approvals d). ap_status b = Ap_staged \<and> ap_chat b = chat \<and> ap_thread b = thread \<longrightarrow>
       (ap_code_sha b = h (py_lower (py_strip raw)) \<longleftrightarrow> ap_id b = i)"
  shows "claim h fr aid eid raw chat thread actor now d = claim_by_id h fr aid eid i chat thread actor now d"
  using assms(1) claim_where_predicate [of d chat thread "\<lambda>b. ap_code_sha b = h (py_lower (py_strip raw))" "\<lambda>b. ap_id b = i"]
    assms(2) by (simp add: claim_def claim_by_id_def Let_def)

theorem code_and_button_agree_witness:
  "\<exists>a d'. claim_by_id (\<lambda>s. s) (\<lambda>r. []) ''t1'' ''e1'' ''a1'' ''c'' None ''anna'' 60 sample_db = (Inr (Some a), d') \<and>
     claim (\<lambda>s. s) (\<lambda>r. []) ''t1'' ''e1'' '' 0123456789ABCDEF '' ''c'' None ''anna'' 60 sample_db = (Inr (Some a), d')"
proof -
  obtain a d' where st: "claim (\<lambda>s. s) (\<lambda>r. []) ''t1'' ''e1'' '' 0123456789ABCDEF '' ''c'' None ''anna''
      60 sample_db = (Inr (Some a), d')"
    using sample_claimed by (auto simp: sample_claim_def)
  have "claim (\<lambda>s. s) (\<lambda>r. []) ''t1'' ''e1'' '' 0123456789ABCDEF '' ''c'' None ''anna'' 60 sample_db =
      claim_by_id (\<lambda>s. s) (\<lambda>r. []) ''t1'' ''e1'' ''a1'' ''c'' None ''anna'' 60 sample_db"
    by (rule code_and_button_agree) (simp_all add: sample_code_ok sample_db_eq sample_row_def)
  then show ?thesis using st by metis
qed

end
