(* ===== verification/Memory.thy ===== *)
theory Memory
  imports Commitments
begin

text \<open>
  \<open>hermes_cloud/core/memory.py\<close>: what the family asked to remember.  The contract of
  \<open>Commitments\<close> with two differences: the old version stays in force until the new one is
  confirmed, and routines and preferences have a period of validity.
\<close>

section \<open>Model\<close>

definition max_text :: nat where "max_text = 500"

definition memory_kinds :: "string set" where
  "memory_kinds = {''fact'', ''routine'', ''preference''}"

definition timed_kinds :: "string set" where
  "timed_kinds = {''routine'', ''preference''}"

definition memory_get :: "uid \<Rightarrow> db \<Rightarrow> statement option" where
  "memory_get i d = tbl_get me_id i (t_memory d)"

definition memory_set :: "(statement \<Rightarrow> bool) \<Rightarrow> (statement \<Rightarrow> statement) \<Rightarrow> db \<Rightarrow> db" where
  "memory_set P f d = d\<lparr>t_memory := tbl_update P f (t_memory d)\<rparr>"

definition new_statement ::
  "uid \<Rightarrow> string \<Rightarrow> string \<Rightarrow> string option \<Rightarrow> string option \<Rightarrow> uid option \<Rightarrow> uid option \<Rightarrow> time option \<Rightarrow>
   time option \<Rightarrow> time option \<Rightarrow> time \<Rightarrow> statement" where
  "new_statement nid text kind subject actor run prv obs vfrom vto now =
     \<lparr>me_id = nid, me_kind = kind, me_subject = subject, me_text = text, me_status = Candidate,
      me_supersedes = prv, me_run_id = run, me_actor = actor, me_approval_id = None,
      me_observed_at = obs, me_recorded_at = now, me_valid_from = vfrom, me_valid_to = vto,
      me_updated_at = now\<rparr>"

definition memory_propose ::
  "uid \<Rightarrow> string \<Rightarrow> string \<Rightarrow> string option \<Rightarrow> string option \<Rightarrow> uid option \<Rightarrow> uid option \<Rightarrow> time option \<Rightarrow>
   time option \<Rightarrow> time option \<Rightarrow> time \<Rightarrow> db \<Rightarrow> (commitment_error + statement option) \<times> db" where
  "memory_propose nid raw kind subject actor run prv obs vfrom vto now d =
     (let text = py_strip raw in
      if kind \<notin> memory_kinds then (Inl (Unknown_memory_kind kind), d)
      else if text = [] then (Inl Empty_text, d)
      else if length text > max_text then (Inl Text_too_long, d)
      else if kind \<notin> timed_kinds \<and> (vfrom \<noteq> None \<or> vto \<noteq> None) then (Inl Dates_of_a_fact, d)
      else case write_tx (\<lambda>d.
             case prv of
               Some s \<Rightarrow>
                 if memory_get s d = None then (Inl (No_version s), d)
                 else (Inr (), d\<lparr>t_memory := t_memory d @
                   [new_statement nid text kind subject actor run prv obs vfrom vto now]\<rparr>)
             | None \<Rightarrow> (Inr (), d\<lparr>t_memory := t_memory d @
                   [new_statement nid text kind subject actor run prv obs vfrom vto now]\<rparr>)) d of
          (Inl e, d') \<Rightarrow> (Inl e, d')
        | (Inr _, d') \<Rightarrow> (Inr (memory_get nid d'), d'))"

definition memory_confirm ::
  "uid \<Rightarrow> approval \<Rightarrow> time \<Rightarrow> db \<Rightarrow> (commitment_error + statement option) \<times> db" where
  "memory_confirm i a now d =
     (if \<not> claimed_status (ap_status a) then (Inl Not_approved, d)
      else case write_tx (\<lambda>d.
             case find (\<lambda>r. me_id r = i \<and> me_status r = Candidate) (t_memory d) of
               None \<Rightarrow> (Inl (Not_candidate i), d)
             | Some r \<Rightarrow>
                 (let d1 = memory_set (\<lambda>x. me_id x = i) (\<lambda>x. x\<lparr>me_status := Confirmed,
                        me_approval_id := Some (ap_id a), me_updated_at := now\<rparr>) d
                  in (Inr (), case me_supersedes r of
                        None \<Rightarrow> d1
                      | Some s \<Rightarrow> memory_set (\<lambda>x. me_id x = s) (\<lambda>x. x\<lparr>me_status := Superseded,
                          me_updated_at := now\<rparr>) d1))) d of
          (Inl e, d') \<Rightarrow> (Inl e, d')
        | (Inr _, d') \<Rightarrow> (Inr (memory_get i d'), d'))"

definition memory_reject :: "uid \<Rightarrow> time \<Rightarrow> db \<Rightarrow> bool \<times> db" where
  "memory_reject i now d =
     (let P = (\<lambda>c. me_id c = i \<and> me_status c = Candidate)
      in (tbl_count P (t_memory d) \<noteq> 0,
          memory_set P (\<lambda>c. c\<lparr>me_status := Rejected, me_updated_at := now\<rparr>) d))"

text \<open>
  SQLite's \<open>LIKE\<close>: a percent sign matches any text, an underscore one character, letters
  match in either case (ASCII).  A missing column matches nothing.
\<close>

fun like :: "string \<Rightarrow> string \<Rightarrow> bool" where
  "like [] s = (s = [])"
| "like (p # ps) [] = (p = CHR 0x25 \<and> like ps [])"
| "like (p # ps) (c # s) =
     (if p = CHR 0x25 then like ps (c # s) \<or> like (p # ps) s
      else (p = CHR 0x5F \<or> lower_char p = lower_char c) \<and> like ps s)"

definition like_column :: "string \<Rightarrow> string option \<Rightarrow> bool" where
  "like_column pat col = (case col of None \<Rightarrow> False | Some s \<Rightarrow> like pat s)"

definition in_force :: "time \<Rightarrow> statement \<Rightarrow> bool" where
  "in_force now r \<longleftrightarrow> me_status r = Confirmed \<and>
     (case me_valid_from r of None \<Rightarrow> True | Some t \<Rightarrow> t \<le> now) \<and>
     (case me_valid_to r of None \<Rightarrow> True | Some t \<Rightarrow> t > now)"

definition recall :: "string option \<Rightarrow> string option \<Rightarrow> nat \<Rightarrow> time \<Rightarrow> db \<Rightarrow> statement list" where
  "recall query kind limit now d =
     take limit (sort_key (\<lambda>r. - me_recorded_at r)
       (filter (\<lambda>r. in_force now r \<and>
          (case kind of None \<Rightarrow> True | Some k \<Rightarrow> me_kind r = k) \<and>
          (case str_or_none query of None \<Rightarrow> True
           | Some q \<Rightarrow>
               let needle = CHR 0x25 # py_strip q @ [CHR 0x25]
               in like needle (me_text r) \<or> like_column needle (me_subject r))) (t_memory d)))"

definition memory_chain :: "uid \<Rightarrow> db \<Rightarrow> statement list" where
  "memory_chain i d = chain_of me_id me_supersedes (t_memory d) i"

section \<open>Histories\<close>

datatype memory_op =
    Remember uid string string "string option" "string option" "uid option" "uid option"
      "time option" "time option" "time option" time
  | Confirm_memory uid approval time
  | Reject_memory uid time

fun memory_step :: "memory_op \<Rightarrow> db \<Rightarrow> db" where
  "memory_step (Remember nid raw kind subj actor run prv obs vfrom vto now) d =
     snd (memory_propose nid raw kind subj actor run prv obs vfrom vto now d)"
| "memory_step (Confirm_memory i a now) d = snd (memory_confirm i a now d)"
| "memory_step (Reject_memory i now) d = snd (memory_reject i now d)"

fun memory_enabled :: "memory_op \<Rightarrow> statement list \<Rightarrow> bool" where
  "memory_enabled (Remember nid raw kind subj actor run prv obs vfrom vto now) T \<longleftrightarrow>
     nid \<noteq> [] \<and> nid \<notin> set (map me_id T)"
| "memory_enabled _ T \<longleftrightarrow> True"

definition memory_table_step :: "memory_op \<Rightarrow> statement list \<Rightarrow> statement list" where
  "memory_table_step x T = t_memory (memory_step x (empty_db\<lparr>t_memory := T\<rparr>))"

section \<open>Lemmas\<close>

lemma memory_propose_cases:
  obtains (refused) e where "memory_propose nid raw kind subj actor run prv obs vfrom vto now d = (Inl e, d)"
  | (new) res where "memory_propose nid raw kind subj actor run prv obs vfrom vto now d = (Inr res,
       d\<lparr>t_memory := t_memory d @
          [new_statement nid (py_strip raw) kind subj actor run prv obs vfrom vto now]\<rparr>)"
      "\<And>s. prv = Some s \<Longrightarrow> s \<in> set (map me_id (t_memory d))"
      "kind \<in> memory_kinds" "py_strip raw \<noteq> []" "length (py_strip raw) \<le> max_text"
      "kind \<in> timed_kinds \<or> vfrom = None \<and> vto = None"
proof (cases "kind \<in> memory_kinds \<and> py_strip raw \<noteq> [] \<and> length (py_strip raw) \<le> max_text \<and>
    (kind \<in> timed_kinds \<or> vfrom = None \<and> vto = None)")
  case False
  then have "\<exists>e. memory_propose nid raw kind subj actor run prv obs vfrom vto now d = (Inl e, d)"
    by (auto simp: memory_propose_def Let_def)
  then show thesis using refused by blast
next
  case ok: True
  let ?d = "d\<lparr>t_memory := t_memory d @
    [new_statement nid (py_strip raw) kind subj actor run prv obs vfrom vto now]\<rparr>"
  show thesis
  proof (cases prv)
    case None
    then have "memory_propose nid raw kind subj actor run prv obs vfrom vto now d =
        (Inr (memory_get nid ?d), ?d)"
      using ok by (auto simp: memory_propose_def write_tx_def Let_def)
    then show thesis using that(2) ok None by blast
  next
    case (Some s)
    show thesis
    proof (cases "memory_get s d")
      case None
      then have "memory_propose nid raw kind subj actor run prv obs vfrom vto now d = (Inl (No_version s), d)"
        using ok Some by (auto simp: memory_propose_def write_tx_def Let_def)
      then show thesis by (rule that(1))
    next
      case (Some r)
      then have "memory_propose nid raw kind subj actor run prv obs vfrom vto now d =
          (Inr (memory_get nid ?d), ?d)"
        using ok \<open>prv = Some s\<close> by (auto simp: memory_propose_def write_tx_def Let_def)
      moreover have "s \<in> set (map me_id (t_memory d))"
        using Some tbl_get_SomeD by (fastforce simp: memory_get_def)
      ultimately show thesis using that(2) ok \<open>prv = Some s\<close> by blast
    qed
  qed
qed

lemma memory_confirm_cases:
  obtains (refused) e where "memory_confirm i a now d = (Inl e, d)"
  | (confirmed) r res where "claimed_status (ap_status a)" "r \<in> set (t_memory d)" "me_id r = i"
      "me_status r = Candidate"
      "memory_confirm i a now d = (Inr res, d\<lparr>t_memory :=
         tbl_update (\<lambda>x. me_supersedes r = Some (me_id x))
           (\<lambda>x. x\<lparr>me_status := Superseded, me_updated_at := now\<rparr>)
           (tbl_update (\<lambda>x. me_id x = i) (\<lambda>x. x\<lparr>me_status := Confirmed,
              me_approval_id := Some (ap_id a), me_updated_at := now\<rparr>) (t_memory d))\<rparr>)"
proof (cases "claimed_status (ap_status a)")
  case False
  then show thesis using that(1) by (simp add: memory_confirm_def)
next
  case cl: True
  show thesis
  proof (cases "find (\<lambda>r. me_id r = i \<and> me_status r = Candidate) (t_memory d)")
    case None
    then show thesis using that(1) cl by (simp add: memory_confirm_def write_tx_def)
  next
    case (Some r)
    note r = find_Some_mem [OF Some]
    let ?T = "tbl_update (\<lambda>x. me_id x = i) (\<lambda>x. x\<lparr>me_status := Confirmed,
              me_approval_id := Some (ap_id a), me_updated_at := now\<rparr>) (t_memory d)"
    let ?f = "\<lambda>x. x\<lparr>me_status := Superseded, me_updated_at := now\<rparr>"
    have "\<exists>res. memory_confirm i a now d = (Inr res, d\<lparr>t_memory :=
        tbl_update (\<lambda>x. me_supersedes r = Some (me_id x)) ?f ?T\<rparr>)"
    proof (cases "me_supersedes r")
      case None
      then have "tbl_update (\<lambda>x. me_supersedes r = Some (me_id x)) ?f ?T = ?T"
        by (intro tbl_update_none) simp
      then show ?thesis using Some cl None
        by (simp add: memory_confirm_def write_tx_def memory_set_def Let_def)
    next
      case sup: (Some s)
      have eq: "(\<lambda>x. me_supersedes r = Some (me_id x)) = (\<lambda>x. me_id x = s)" using sup by auto
      show ?thesis unfolding eq using Some cl sup
        by (simp add: memory_confirm_def write_tx_def memory_set_def Let_def)
    qed
    then show thesis using that(2) cl r by blast
  qed
qed

lemma memory_cols_update:
  assumes "\<And>c. me_id (f c) = me_id c" "\<And>c. me_supersedes (f c) = me_supersedes c"
  shows "map (\<lambda>c. (me_id c, me_supersedes c)) (tbl_update P f T) = map (\<lambda>c. (me_id c, me_supersedes c)) T"
  using assms by (simp add: tbl_update_def)

interpretation memory: version_store me_id me_supersedes memory_enabled memory_table_step
proof unfold_locales
  fix x T
  assume en: "memory_enabled x T"
  let ?d = "empty_db\<lparr>t_memory := T\<rparr>"
  show "appends_version me_id me_supersedes T (memory_table_step x T)"
  proof (cases x)
    case (Remember nid raw kind subj actor run prv obs vfrom vto now)
    then show ?thesis
      by (cases rule: memory_propose_cases [of nid raw kind subj actor run prv obs vfrom vto now ?d])
        (use en in \<open>auto simp: appends_version_def memory_table_step_def Let_def new_statement_def\<close>)
  next
    case (Confirm_memory i a now)
    then show ?thesis
      by (cases rule: memory_confirm_cases [of i a now ?d])
        (auto simp: appends_version_def memory_table_step_def Let_def memory_cols_update)
  qed (simp add: appends_version_def memory_table_step_def memory_reject_def memory_set_def Let_def
      memory_cols_update)
qed

lemma filter_update_hidden:
  assumes "\<And>x. P x \<Longrightarrow> \<not> Q x \<and> \<not> Q (f x)"
  shows "filter Q (tbl_update P f T) = filter Q T"
  using assms by (induction T) auto

section \<open>Properties\<close>

text \<open>
  Remembering needs a yes.  No proposal, accepted or refused, and no rejection changes what
  \<open>recall\<close> answers to any query at any time; what it answers is confirmed and valid then.
\<close>

theorem recall_changes_only_by_confirmation:
  "recall q kind limit t (snd (memory_propose nid raw k subj actor run prv obs vfrom vto now d)) =
     recall q kind limit t d \<and>
   recall q kind limit t (snd (memory_reject i now d)) = recall q kind limit t d \<and>
   list_all (in_force t) (recall q kind limit t d)"
proof -
  have "recall q kind limit t (snd (memory_propose nid raw k subj actor run prv obs vfrom vto now d)) =
     recall q kind limit t d"
    by (cases rule: memory_propose_cases [of nid raw k subj actor run prv obs vfrom vto now d])
      (simp_all add: recall_def in_force_def new_statement_def)
  moreover have "recall q kind limit t (snd (memory_reject i now d)) = recall q kind limit t d"
  proof -
    have "t_memory (snd (memory_reject i now d)) = tbl_update (\<lambda>c. me_id c = i \<and> me_status c = Candidate)
        (\<lambda>c. c\<lparr>me_status := Rejected, me_updated_at := now\<rparr>) (t_memory d)"
      by (simp add: memory_reject_def memory_set_def Let_def)
    then show ?thesis
      unfolding recall_def by (simp only:) (subst filter_update_hidden, auto simp: in_force_def)
  qed
  moreover have "list_all (in_force t) (recall q kind limit t d)"
    using set_take_subset by (fastforce simp: recall_def list_all_iff)
  ultimately show ?thesis by blast
qed

text \<open>
  A confirmed version takes over.  A successful confirmation turns exactly the candidate into
  a remembered statement that names the approval, and the version it replaces into a superseded
  one, in one transaction; every other row is as before, and the old version is recalled no more.
\<close>

theorem confirmed_version_takes_over:
  assumes "memory_confirm i a now d = (Inr res, d')" "wf_versions me_id me_supersedes (t_memory d)"
  shows "\<exists>r \<in> set (t_memory d). me_id r = i \<and> me_status r = Candidate \<and> claimed_status (ap_status a) \<and>
    res = Some (r\<lparr>me_status := Confirmed, me_approval_id := Some (ap_id a), me_updated_at := now\<rparr>) \<and>
    t_memory d' = map (\<lambda>x. if me_id x = i then the res
       else if me_supersedes r = Some (me_id x) then x\<lparr>me_status := Superseded, me_updated_at := now\<rparr>
       else x) (t_memory d) \<and>
    (\<forall>x \<in> set (recall q kind limit t d'). me_supersedes r \<noteq> Some (me_id x))"
proof (cases rule: memory_confirm_cases [of i a now d])
  case (refused e)
  then show ?thesis using assms(1) by simp
next
  case (confirmed r res')
  let ?c = "\<lambda>x. x\<lparr>me_status := Confirmed, me_approval_id := Some (ap_id a), me_updated_at := now\<rparr>"
  let ?o = "\<lambda>x. x\<lparr>me_status := Superseded, me_updated_at := now\<rparr>"
  have dist: "distinct (map me_id (t_memory d))" using wf_versions_distinct [OF assms(2)] .
  obtain xs ys where split: "t_memory d = xs @ r # ys" using confirmed(2) by (meson split_list)
  have own: "me_supersedes r \<noteq> Some i"
  proof
    assume "me_supersedes r = Some i"
    then have "i \<in> set (map me_id xs)" using wf_versions_split assms(2) split by metis
    then show False using dist split confirmed(3) by auto
  qed
  have same: "x = r" if "x \<in> set (t_memory d)" "me_id x = i" for x
    using distinct_same_row [OF dist that(1) confirmed(2)] that(2) confirmed(3) by simp
  have d': "d' = d\<lparr>t_memory := tbl_update (\<lambda>x. me_supersedes r = Some (me_id x)) ?o
      (tbl_update (\<lambda>x. me_id x = i) ?c (t_memory d))\<rparr>" "res = memory_get i d'"
    using assms(1) confirmed(5) by (auto simp: memory_confirm_def split: if_splits sum.splits prod.splits)
  have "tbl_get me_id i (t_memory d) = Some r" using tbl_get_mem [OF dist confirmed(2)] confirmed(3) by simp
  then have res: "res = Some (?c r)" using d' own confirmed(3) by (simp add: memory_get_def tbl_get_update)
  have map_eq: "t_memory d' = map (\<lambda>x. if me_id x = i then the res
       else if me_supersedes r = Some (me_id x) then ?o x else x) (t_memory d)"
    using d'(1) own same res by (auto simp: tbl_update_def)
  have "me_supersedes r \<noteq> Some (me_id x)" if "x \<in> set (recall q kind limit t d')" for x
  proof -
    have "x \<in> set (t_memory d')" "me_status x = Confirmed"
      using that set_take_subset by (fastforce simp: recall_def in_force_def)+
    moreover have "me_id (the res) = i" using res confirmed(3) by simp
    ultimately show ?thesis using map_eq own by (auto split: if_splits)
  qed
  then show ?thesis using confirmed res map_eq by blast
qed

text \<open>
  Validity.  A statement is only proposed with a known kind, a text of 1 to 500 characters
  and, unless it is a routine or a preference, without a period; every other call raises and
  writes nothing.
\<close>

theorem propose_validates:
  assumes "memory_propose nid raw kind subj actor run prv obs vfrom vto now d = (res, d')"
    and "nid \<notin> set (map me_id (t_memory d))"
  shows "(\<exists>e. res = Inl e \<and> d' = d) \<or>
    (\<exists>r. res = Inr (Some r) \<and> t_memory d' = t_memory d @ [r] \<and> me_status r = Candidate \<and>
       me_text r = py_strip raw \<and> 0 < length (me_text r) \<and> length (me_text r) \<le> 500 \<and>
       me_kind r \<in> memory_kinds \<and>
       (me_kind r = ''fact'' \<longrightarrow> me_valid_from r = None \<and> me_valid_to r = None) \<and>
       (\<forall>s. me_supersedes r = Some s \<longrightarrow> s \<in> set (map me_id (t_memory d))))"
proof (cases rule: memory_propose_cases [of nid raw kind subj actor run prv obs vfrom vto now d])
  case (refused e)
  then show ?thesis using assms(1) by simp
next
  case (new res')
  let ?r = "new_statement nid (py_strip raw) kind subj actor run prv obs vfrom vto now"
  have d': "d' = d\<lparr>t_memory := t_memory d @ [?r]\<rparr>" "res = Inr res'" using new(1) assms(1) by auto
  have g: "tbl_get me_id nid (t_memory d) = None" using assms(2) by (simp add: tbl_get_None_iff)
  have "res = Inr (memory_get nid d')"
    using new(1) assms(1)
    by (auto simp: memory_propose_def Let_def split: if_splits sum.splits prod.splits)
  then have "res = Inr (Some ?r)"
    using d'(1) g by (simp add: memory_get_def tbl_get_append tbl_get_Cons new_statement_def)
  moreover have "kind = ''fact'' \<longrightarrow> kind \<notin> timed_kinds" by (simp add: timed_kinds_def)
  ultimately show ?thesis using d'(1) new by (auto simp: new_statement_def max_text_def)
qed

section \<open>Witnesses\<close>

definition sample_memory :: "statement list" where
  "sample_memory =
     [(new_statement ''s1'' ''old'' ''fact'' None None None None None None None 0)\<lparr>me_status := Confirmed\<rparr>,
      new_statement ''s2'' ''new'' ''fact'' None None None (Some ''s1'') None None None 1]"

theorem confirmed_version_takes_over_witness:
  "\<exists>res d'. memory_confirm ''s2'' sample_yes 2 (empty_db\<lparr>t_memory := sample_memory\<rparr>) = (Inr res, d') \<and>
     (\<forall>x \<in> set (recall None None 20 3 d'). me_id x \<noteq> ''s1'')"
proof -
  let ?d = "empty_db\<lparr>t_memory := sample_memory\<rparr>"
  have wf: "wf_versions me_id me_supersedes (t_memory ?d)"
    by (simp add: sample_memory_def new_statement_def wf_versions_def)
  obtain res d' where m: "memory_confirm ''s2'' sample_yes 2 ?d = (Inr res, d')"
    by (simp add: memory_confirm_def sample_yes_def write_tx_def sample_memory_def new_statement_def Let_def)
  have prv: "\<And>r. r \<in> set (t_memory ?d) \<Longrightarrow> me_id r = ''s2'' \<Longrightarrow> me_supersedes r = Some ''s1''"
    by (auto simp: sample_memory_def new_statement_def)
  show ?thesis using confirmed_version_takes_over [OF m wf, of None None 20 3] m prv by fastforce
qed

theorem propose_validates_witness:
  "\<exists>r. fst (memory_propose ''s1'' '' tea at five '' ''fact'' None None None None None None None 0 empty_db) =
     Inr (Some r) \<and> me_status r = Candidate \<and> length (me_text r) \<le> 500"
proof -
  let ?p = "memory_propose ''s1'' '' tea at five '' ''fact'' None None None None None None None 0 empty_db"
  have strip: "py_strip '' tea at five '' = ''tea at five''" by code_simp
  have inr: "\<exists>r. fst ?p = Inr r"
    by (simp add: memory_propose_def strip Let_def memory_kinds_def max_text_def write_tx_def)
  have "?p = (fst ?p, snd ?p)" by simp
  from propose_validates [OF this] inr show ?thesis by auto
qed

end
