(* ===== verification/Reminders.thy ===== *)
theory Reminders
  imports Dsar Interfaces
begin

text \<open>
  \<open>hermes_cloud/execute/reminder.py\<close> and \<open>hermes_cloud/scheduler.py\<close>: reminders are
  delivered under a lease; the daily digest is reserved before anything leaves.  The transport,
  the composer of the digest, the time zone (\<open>ZoneInfo\<close>) and the JSON text of the
  scheduler's state are parameters; \<open>'w\<close> is the outside world they act on.
\<close>

section \<open>The reminder store\<close>

definition reminder_lease_seconds :: time where "reminder_lease_seconds = 120"

definition default_hour :: nat where "default_hour = 9"

text \<open>
  A due date is a calendar date (days since the epoch), a moment without a zone (read as UTC)
  or a moment with one.
\<close>

datatype due = Due_date int | Due_naive time | Due_aware time

definition due_timestamp :: "nat \<Rightarrow> due \<Rightarrow> time" where
  "due_timestamp hour due =
     (case due of
        Due_naive t \<Rightarrow> t
      | Due_aware t \<Rightarrow> t
      | Due_date d \<Rightarrow> of_int d * 86400 + of_nat hour * 3600)"

definition reminder_get :: "uid \<Rightarrow> db \<Rightarrow> reminder option" where
  "reminder_get i d = tbl_get re_id i (t_reminders d)"

definition reminders_set :: "(reminder \<Rightarrow> bool) \<Rightarrow> (reminder \<Rightarrow> reminder) \<Rightarrow> db \<Rightarrow> db" where
  "reminders_set P f d = d\<lparr>t_reminders := tbl_update P f (t_reminders d)\<rparr>"

definition reminder_create ::
  "uid \<Rightarrow> string \<Rightarrow> string \<Rightarrow> time \<Rightarrow> int option \<Rightarrow> uid option \<Rightarrow> time \<Rightarrow> db \<Rightarrow> reminder option \<times> db" where
  "reminder_create nid chat text due_at thread approval now d =
     (let d' = d\<lparr>t_reminders := t_reminders d @
            [\<lparr>re_id = nid, re_approval_id = approval, re_chat = chat, re_thread = thread,
              re_text = text, re_due_at = due_at, re_status = Re_pending, re_lease_until = None,
              re_attempts = 0, re_created_at = now, re_updated_at = now\<rparr>]\<rparr>
      in (reminder_get nid d', d'))"

definition reminder_due :: "time \<Rightarrow> reminder \<Rightarrow> bool" where
  "reminder_due now r \<longleftrightarrow> re_due_at r \<le> now \<and>
     (re_status r = Re_pending \<or>
      re_status r = Re_delivering \<and> (case re_lease_until r of None \<Rightarrow> False | Some l \<Rightarrow> l \<le> now))"

definition reminder_held :: "time \<Rightarrow> reminder \<Rightarrow> bool" where
  "reminder_held now r \<longleftrightarrow> re_status r = Re_delivering \<and>
     (case re_lease_until r of None \<Rightarrow> False | Some l \<Rightarrow> now < l)"

definition reminder_key :: "reminder \<Rightarrow> time \<times> uid" where
  "reminder_key r = (re_due_at r, re_id r)"

definition deliver_to :: "time \<Rightarrow> time \<Rightarrow> reminder \<Rightarrow> reminder" where
  "deliver_to s now r = r\<lparr>re_status := Re_delivering, re_lease_until := Some (now + s),
     re_attempts := re_attempts r + 1, re_updated_at := now\<rparr>"

definition reminders_take :: "time \<Rightarrow> time \<Rightarrow> reminder list \<Rightarrow> reminder option \<times> reminder list" where
  "reminders_take s now T = tbl_take re_id reminder_key (reminder_due now) (deliver_to s now) T"

definition claim_due :: "time \<Rightarrow> time \<Rightarrow> db \<Rightarrow> reminder option \<times> db" where
  "claim_due s now d =
     (let (r, T) = reminders_take s now (t_reminders d) in (r, d\<lparr>t_reminders := T\<rparr>))"

definition mark_delivered :: "uid \<Rightarrow> time \<Rightarrow> db \<Rightarrow> db" where
  "mark_delivered i now = reminders_set (\<lambda>r. re_id r = i)
     (\<lambda>r. r\<lparr>re_status := Re_done, re_lease_until := None, re_updated_at := now\<rparr>)"

definition reminder_cancel :: "uid \<Rightarrow> time \<Rightarrow> db \<Rightarrow> bool \<times> db" where
  "reminder_cancel i now d =
     (let P = (\<lambda>r. re_id r = i \<and> (re_status r = Re_pending \<or> re_status r = Re_delivering))
      in (tbl_count P (t_reminders d) \<noteq> 0,
          reminders_set P (\<lambda>r. r\<lparr>re_status := Re_cancelled, re_lease_until := None,
            re_updated_at := now\<rparr>) d))"

definition reminder_for_approval :: "uid \<Rightarrow> db \<Rightarrow> reminder option" where
  "reminder_for_approval a d = tbl_first re_created_at (\<lambda>r. re_approval_id r = Some a) (t_reminders d)"

definition reminders_pending :: "nat \<Rightarrow> db \<Rightarrow> reminder list" where
  "reminders_pending limit d =
     take limit (sort_key re_due_at (filter (\<lambda>r. re_status r = Re_pending) (t_reminders d)))"

section \<open>The scheduler\<close>

datatype send_failure = Send_outcome_unknown | Send_error string

type_synonym 'w transport = "string \<Rightarrow> int option \<Rightarrow> string \<Rightarrow> 'w \<Rightarrow> (send_failure + unit) \<times> 'w"

definition reminder_message :: "reminder \<Rightarrow> string" where
  "reminder_message r = ''TEXT_REMINDER: '' @ re_text r"

lemma reminders_take_shorter:
  assumes "reminders_take s now T = (Some r, T')" "0 < s"
  shows "length (filter (reminder_due now) (tbl_update (\<lambda>x. re_id x = i)
      (\<lambda>x. x\<lparr>re_status := Re_done, re_lease_until := None, re_updated_at := now\<rparr>) T'))
    < length (filter (reminder_due now) T)"
proof -
  let ?g = "\<lambda>x. x\<lparr>re_status := Re_done, re_lease_until := None, re_updated_at := now\<rparr>"
  from assms(1) [unfolded reminders_take_def] obtain r0 where r0: "r0 \<in> set T" "reminder_due now r0"
    "T' = tbl_update (\<lambda>x. re_id x = re_id r0) (deliver_to s now) T"
    by (rule tbl_take_Some) (simp add: deliver_to_def)
  have idle: "\<not> reminder_due now (?g x)" "\<not> reminder_due now (deliver_to s now x)" for x
    using assms(2) by (auto simp: reminder_due_def deliver_to_def)
  have 1: "length (filter (reminder_due now) (tbl_update P ?g U)) \<le> length (filter (reminder_due now) U)" for P U
    using idle by (induction U) auto
  have 2: "length (filter (reminder_due now) (tbl_update (\<lambda>x. re_id x = re_id r0) (deliver_to s now) U))
      \<le> length (filter (reminder_due now) U)" for U
    using idle by (induction U) auto
  have "r0 \<in> set U \<Longrightarrow> length (filter (reminder_due now)
      (tbl_update (\<lambda>x. re_id x = re_id r0) (deliver_to s now) U)) < length (filter (reminder_due now) U)" for U
    using idle r0(2) 2 by (induction U) (auto simp: less_Suc_eq_le)
  from this [OF r0(1)] show ?thesis using 1 [of "\<lambda>x. re_id x = i" T'] r0(3) by simp
qed

lemma claim_due_take:
  "claim_due s now d = (res, d') \<Longrightarrow> reminders_take s now (t_reminders d) = (res, t_reminders d') \<and>
     d' = d\<lparr>t_reminders := t_reminders d'\<rparr>"
  by (auto simp: claim_due_def split: prod.splits)

text \<open>
  \<open>_deliver_reminders\<close>: a loop that ends because every round takes a row that is no longer
  due afterwards.  An unknown outcome settles the row and raises; another failure leaves the row
  under its lease and raises.
\<close>

function deliver_reminders ::
  "'w transport \<Rightarrow> time \<Rightarrow> 'w \<Rightarrow> db \<Rightarrow> (send_failure + nat) \<times> 'w \<times> db" where
  "deliver_reminders send now w d =
     (case claim_due reminder_lease_seconds now d of
        (None, d1) \<Rightarrow> (Inr 0, w, d1)
      | (Some r, d1) \<Rightarrow>
          (case send (re_chat r) (re_thread r) (reminder_message r) w of
             (Inl Send_outcome_unknown, w1) \<Rightarrow>
               (Inl Send_outcome_unknown, w1, mark_delivered (re_id r) now d1)
           | (Inl (Send_error e), w1) \<Rightarrow> (Inl (Send_error e), w1, d1)
           | (Inr _, w1) \<Rightarrow>
               (case deliver_reminders send now w1 (mark_delivered (re_id r) now d1) of
                  (Inl e, w2, d2) \<Rightarrow> (Inl e, w2, d2)
                | (Inr n, w2, d2) \<Rightarrow> (Inr (n + 1), w2, d2))))"
  by pat_completeness auto
termination
proof (relation "measure (\<lambda>(send, now, w, d). length (filter (reminder_due now) (t_reminders d)))", goal_cases)
  case 1
  then show ?case by simp
next
  case (2 send now w d x y r z u v)
  have "reminders_take reminder_lease_seconds now (t_reminders d) = (Some r, t_reminders y)"
    using claim_due_take [of reminder_lease_seconds now d "Some r" y] 2 by simp
  from reminders_take_shorter [OF this, of "re_id r"] show ?case
    by (simp add: mark_delivered_def reminders_set_def reminder_lease_seconds_def)
qed

declare deliver_reminders.simps [simp del]

record sched_config =
  sc_digest_time :: string
  sc_digest_chats :: "string list"
  sc_max_scheduled_runs :: int

definition state_key :: string where "state_key = ''scheduler:v1''"

definition sched_state :: "(string \<Rightarrow> json option) \<Rightarrow> db \<Rightarrow> (string \<times> json) list" where
  "sched_state loads d =
     (case find (\<lambda>r. cs_key r = state_key) (t_channel_state d) of
        None \<Rightarrow> []
      | Some row \<Rightarrow>
          (case loads (cs_value row) of
             Some (JObj s) \<Rightarrow> s
           | _ \<Rightarrow> [(''digest'', JStr ''failed'')]))"

definition write_sched_state :: "(json \<Rightarrow> string) \<Rightarrow> (string \<times> json) list \<Rightarrow> time \<Rightarrow> db \<Rightarrow> db" where
  "write_sched_state dumps s now = channel_put state_key (dumps (JObj s)) now"

definition jint_of :: "json \<Rightarrow> int" where
  "jint_of v = (case v of JInt i \<Rightarrow> i | JBool b \<Rightarrow> of_bool b | JReal r \<Rightarrow> (if r < 0 then - \<lfloor>- r\<rfloor> else \<lfloor>r\<rfloor>) | _ \<Rightarrow> 0)"

fun send_all :: "'w transport \<Rightarrow> string list \<Rightarrow> string \<Rightarrow> 'w \<Rightarrow> (send_failure + unit) \<times> 'w" where
  "send_all send [] text w = (Inr (), w)"
| "send_all send (c # cs) text w =
     (case send c None text w of
        (Inl e, w1) \<Rightarrow> (Inl e, w1)
      | (Inr _, w1) \<Rightarrow> send_all send cs text w1)"

text \<open>
  \<open>_deliver_digest\<close> at a moment whose local date and \<open>HH:MM\<close> the time zone gives.  The
  state is written as reserved before the composer and the transport are called.
\<close>

definition today_state :: "(string \<Rightarrow> json option) \<Rightarrow> string \<Rightarrow> db \<Rightarrow> (string \<times> json) list" where
  "today_state loads today d =
     (let s = sched_state loads d
      in if dict_get s ''date'' \<noteq> JStr today
         then [(''date'', JStr today), (''runs'', JInt 0), (''digest'', JStr ''pending'')] else s)"

definition digest_ready ::
  "(string \<Rightarrow> json option) \<Rightarrow> sched_config \<Rightarrow> (time \<Rightarrow> string \<times> string) \<Rightarrow> time \<Rightarrow> db \<Rightarrow> bool" where
  "digest_ready loads cfg local moment d \<longleftrightarrow>
     sc_digest_chats cfg \<noteq> [] \<and>
     (let (today, hhmm) = local moment; s = today_state loads today d
      in \<not> hhmm < sc_digest_time cfg \<and> dict_get s ''digest'' = JStr ''pending'' \<and>
         \<not> jint_of (dict_get s ''runs'') \<ge> sc_max_scheduled_runs cfg)"

definition deliver_digest ::
  "(json \<Rightarrow> string) \<Rightarrow> (string \<Rightarrow> json option) \<Rightarrow> sched_config \<Rightarrow> (time \<Rightarrow> string \<times> string) \<Rightarrow>
   (time \<Rightarrow> 'w \<Rightarrow> (send_failure + string) \<times> 'w) \<Rightarrow> 'w transport \<Rightarrow> time \<Rightarrow> 'w \<Rightarrow> db \<Rightarrow>
   (send_failure + nat) \<times> 'w \<times> db" where
  "deliver_digest dumps loads cfg local compose send moment w d =
     (if \<not> digest_ready loads cfg local moment d then (Inr 0, w, d)
      else
        let s1 = today_state loads (fst (local moment)) d;
            s2 = dict_set (dict_set s1 ''digest'' (JStr ''reserved'')) ''runs''
                   (JInt (jint_of (dict_get s1 ''runs'') + 1));
            d2 = write_sched_state dumps s2 moment d
        in case compose moment w of
             (Inl e, w1) \<Rightarrow> (Inl e, w1, d2)
           | (Inr raw, w1) \<Rightarrow>
               let text = py_strip raw in
               if text = [] then
                 (Inr 0, w1, write_sched_state dumps (dict_set s2 ''digest'' (JStr ''failed'')) moment d2)
               else
                 (case send_all send (sc_digest_chats cfg) (''TEXT_DIGEST '' @ text) w1 of
                    (Inl e, w2) \<Rightarrow> (Inl e, w2, d2)
                  | (Inr _, w2) \<Rightarrow>
                      (Inr (length (sc_digest_chats cfg)), w2,
                       write_sched_state dumps (dict_set s2 ''digest'' (JStr ''sent'')) moment d2)))"

definition scheduler_run_once ::
  "(json \<Rightarrow> string) \<Rightarrow> (string \<Rightarrow> json option) \<Rightarrow> sched_config \<Rightarrow> (time \<Rightarrow> string \<times> string) \<Rightarrow>
   (time \<Rightarrow> 'w \<Rightarrow> (send_failure + string) \<times> 'w) \<Rightarrow> 'w transport \<Rightarrow> time \<Rightarrow> 'w \<Rightarrow> db \<Rightarrow>
   (send_failure + nat \<times> nat) \<times> 'w \<times> db" where
  "scheduler_run_once dumps loads cfg local compose send moment w d =
     (case deliver_reminders send moment w d of
        (Inl e, w1, d1) \<Rightarrow> (Inl e, w1, d1)
      | (Inr n, w1, d1) \<Rightarrow>
          (case deliver_digest dumps loads cfg local compose send moment w1 d1 of
             (Inl e, w2, d2) \<Rightarrow> (Inl e, w2, d2)
           | (Inr m, w2, d2) \<Rightarrow> (Inr (n, m), w2, d2)))"

section \<open>Lemmas\<close>

lemma deliver_to_sel [simp]:
  "re_id (deliver_to s now r) = re_id r" "re_chat (deliver_to s now r) = re_chat r"
  "re_thread (deliver_to s now r) = re_thread r" "re_text (deliver_to s now r) = re_text r"
  "re_due_at (deliver_to s now r) = re_due_at r" "re_status (deliver_to s now r) = Re_delivering"
  "re_lease_until (deliver_to s now r) = Some (now + s)"
  by (simp_all add: deliver_to_def)

lemma reminders_take_Some:
  assumes "reminders_take s now T = (Some r, T')"
  obtains r0 where "r0 \<in> set T" "reminder_due now r0" "re_id r = re_id r0"
    "\<And>x. x \<in> set T \<Longrightarrow> reminder_due now x \<Longrightarrow> reminder_key r0 \<le> reminder_key x"
    "T' = tbl_update (\<lambda>x. re_id x = re_id r0) (deliver_to s now) T" "r \<in> set T'"
  using assms unfolding reminders_take_def by (rule tbl_take_Some) auto

lemma due_not_held: "reminder_due now r \<Longrightarrow> \<not> reminder_held now r"
  by (cases "re_lease_until r") (auto simp: reminder_due_def reminder_held_def)

interpretation reminders: lease_queue re_id reminder_held reminders_take
proof unfold_locales
  fix s now T res T' r x u
  show "T' = T" if "reminders_take s now T = (None, T')"
    using tbl_take_None(1) that unfolding reminders_take_def by fastforce
  show "map re_id T' = map re_id T" if "reminders_take s now T = (res, T')"
    using tbl_take_map [of re_id "deliver_to s now"] that unfolding reminders_take_def
    by (metis snd_conv deliver_to_sel(1))
  show "\<exists>r0 \<in> set T. re_id r0 = re_id r \<and> \<not> reminder_held now r0"
    if "reminders_take s now T = (Some r, T')"
    by (rule reminders_take_Some [OF that]) (use due_not_held in auto)
  show "reminder_held u x" if "reminders_take s now T = (Some r, T')" "x \<in> set T'" "re_id x = re_id r"
    "distinct (map re_id T)" "u < now + s"
    by (rule reminders_take_Some [OF that(1)])
      (use that(2-) in \<open>auto simp: reminder_held_def set_tbl_update\<close>)
  show "x \<in> set T" if "reminders_take s now T = (Some r, T')" "x \<in> set T'" "re_id x \<noteq> re_id r"
    by (rule reminders_take_Some [OF that(1)]) (use that(2,3) in \<open>auto simp: set_tbl_update\<close>)
qed

definition due_queue :: "time \<Rightarrow> db \<Rightarrow> reminder list" where
  "due_queue now d = sort_key reminder_key (filter (reminder_due now) (t_reminders d))"

definition delivered :: "time \<Rightarrow> reminder \<Rightarrow> reminder" where
  "delivered now r = r\<lparr>re_status := Re_done, re_lease_until := None,
     re_attempts := re_attempts r + 1, re_updated_at := now\<rparr>"

lemma delivered_not_due: "\<not> reminder_due now (delivered now r)"
  by (simp add: delivered_def reminder_due_def)

lemma claim_due_cases:
  assumes "distinct (map re_id (t_reminders d))"
  obtains (none) "claim_due reminder_lease_seconds now d = (None, d)" "due_queue now d = []"
    "\<And>r. r \<in> set (t_reminders d) \<Longrightarrow> \<not> reminder_due now r"
  | (some) r0 d1 where "r0 \<in> set (t_reminders d)" "reminder_due now r0"
      "claim_due reminder_lease_seconds now d = (Some (deliver_to reminder_lease_seconds now r0), d1)"
      "mark_delivered (re_id r0) now d1 = d\<lparr>t_reminders :=
         tbl_update (\<lambda>x. re_id x = re_id r0) (delivered now) (t_reminders d)\<rparr>"
      "due_queue now d = r0 # due_queue now (mark_delivered (re_id r0) now d1)"
proof (cases "tbl_first reminder_key (reminder_due now) (t_reminders d)")
  case None
  have "claim_due reminder_lease_seconds now d = (None, d)"
    using None by (simp add: claim_due_def reminders_take_def tbl_take_def)
  moreover have no: "\<forall>r \<in> set (t_reminders d). \<not> reminder_due now r" using None by (simp add: tbl_first_None_iff)
  moreover have "due_queue now d = []" using no by (simp add: due_queue_def filter_empty_conv)
  ultimately show thesis using that(1) by blast
next
  case (Some r0)
  note first = tbl_first_SomeD [OF Some]
  let ?U = "tbl_update (\<lambda>x. re_id x = re_id r0) (deliver_to reminder_lease_seconds now) (t_reminders d)"
  let ?V = "tbl_update (\<lambda>x. re_id x = re_id r0) (delivered now) (t_reminders d)"
  have "tbl_get re_id (re_id r0) (t_reminders d) = Some r0" using tbl_get_mem [OF assms first(1)] .
  then have get: "tbl_get re_id (re_id r0) ?U = Some (deliver_to reminder_lease_seconds now r0)"
    by (simp add: tbl_get_update)
  have cl: "claim_due reminder_lease_seconds now d =
      (Some (deliver_to reminder_lease_seconds now r0), d\<lparr>t_reminders := ?U\<rparr>)"
    using Some get by (simp add: claim_due_def reminders_take_def tbl_take_def Let_def)
  have md: "mark_delivered (re_id r0) now (d\<lparr>t_reminders := ?U\<rparr>) = d\<lparr>t_reminders := ?V\<rparr>"
    by (simp add: mark_delivered_def reminders_set_def tbl_update_def delivered_def deliver_to_def)
  have "filter (reminder_due now) (tbl_update (\<lambda>x. re_id x = re_id r0) (delivered now) T) =
      filter (\<lambda>x. reminder_due now x \<and> re_id x \<noteq> re_id r0) T" for T
    using delivered_not_due by (induction T) auto
  then have "due_queue now d = r0 # due_queue now (d\<lparr>t_reminders := ?V\<rparr>)"
    using sort_key_tl [OF Some assms] by (simp add: due_queue_def)
  then show thesis using that(2) [OF first(1,2) cl] md by simp
qed

text \<open>What the loop does when the transport never fails.\<close>

lemma deliver_all_gen:
  assumes "\<And>c t x w. fst (send c t x w) = Inr ()" "distinct (map re_id (t_reminders d))"
  shows "deliver_reminders send now w d =
    (Inr (length (due_queue now d)),
     fold (\<lambda>r w. snd (send (re_chat r) (re_thread r) (reminder_message r) w)) (due_queue now d) w,
     d\<lparr>t_reminders := map (\<lambda>r. if reminder_due now r then delivered now r else r) (t_reminders d)\<rparr>)"
  using assms(2)
proof (induction "length (due_queue now d)" arbitrary: d w)
  case 0
  show ?case using 0(2)
  proof (cases rule: claim_due_cases [where now = now])
    case none
    then have "map (\<lambda>r. if reminder_due now r then delivered now r else r) (t_reminders d) = t_reminders d"
      by (simp add: map_idI)
    then show ?thesis using none by (simp add: deliver_reminders.simps)
  qed (use 0 in simp)
next
  case (Suc n)
  show ?case using Suc(3)
  proof (cases rule: claim_due_cases [where now = now])
    case (some r0 d1)
    let ?d = "mark_delivered (re_id r0) now d1"
    let ?r = "deliver_to reminder_lease_seconds now r0"
    have ids: "map re_id (t_reminders ?d) = map re_id (t_reminders d)"
      using some(4) by (simp add: tbl_update_ids delivered_def)
    obtain w1 where w1: "send (re_chat r0) (re_thread r0) (reminder_message r0) w = (Inr (), w1)"
      using assms(1) by (metis prod.collapse)
    have msg: "reminder_message ?r = reminder_message r0" by (simp add: reminder_message_def)
    have rec: "deliver_reminders send now w1 ?d =
      (Inr n, fold (\<lambda>r w. snd (send (re_chat r) (re_thread r) (reminder_message r) w)) (due_queue now ?d) w1,
       ?d\<lparr>t_reminders := map (\<lambda>r. if reminder_due now r then delivered now r else r) (t_reminders ?d)\<rparr>)"
      using Suc(1) [of ?d w1] Suc(2,3) some(5) ids by simp
    have "r = r0" if "r \<in> set (t_reminders d)" "re_id r = re_id r0" for r
      using distinct_same_row [OF Suc(3) that(1) some(1)] that(2) .
    then have rows: "map (\<lambda>r. if reminder_due now r then delivered now r else r) (t_reminders ?d) =
        map (\<lambda>r. if reminder_due now r then delivered now r else r) (t_reminders d)"
      using some(2,4) delivered_not_due by (auto simp: tbl_update_def)
    have db: "?d\<lparr>t_reminders := T\<rparr> = d\<lparr>t_reminders := T\<rparr>" for T using some(4) by simp
    show ?thesis
      using some(3,5) w1 msg rec rows db Suc(2) by (subst deliver_reminders.simps) simp
  qed (use Suc(2) in simp)
qed

section \<open>Properties\<close>

text \<open>
  Reminders.  With a working transport one pass sends every due reminder exactly once, in
  the order of due time and id, marks exactly these as delivered and reports their number.
\<close>

theorem due_reminders_are_delivered_once:
  assumes "\<And>c t x w. fst (send c t x w) = Inr ()" "distinct (map re_id (t_reminders d))"
  shows "deliver_reminders send now w d =
    (Inr (length (due_queue now d)),
     fold (\<lambda>r w. snd (send (re_chat r) (re_thread r) (reminder_message r) w)) (due_queue now d) w,
     d\<lparr>t_reminders := map (\<lambda>r. if reminder_due now r then delivered now r else r) (t_reminders d)\<rparr>)"
  using deliver_all_gen [OF assms] .

text \<open>
  An unknown outcome.  When the transport raises on the first due reminder without saying
  whether it went out, that reminder is settled: it never is due again.
\<close>

theorem unknown_outcome_is_not_resent:
  assumes "distinct (map re_id (t_reminders d))" "due_queue now d = r # rest"
    and "\<And>c t x w. fst (send c t x w) = Inl Send_outcome_unknown"
    and "deliver_reminders send now w d = (res, w', d')"
  shows "res = Inl Send_outcome_unknown \<and> due_queue now d' = rest \<and>
    (\<forall>later x. x \<in> set (t_reminders d') \<longrightarrow> re_id x = re_id r \<longrightarrow> \<not> reminder_due later x)"
using assms(1)
proof (cases rule: claim_due_cases [where now = now])
  case none
  then show ?thesis using assms(2) by simp
next
  case (some r0 d1)
  obtain w1 where w1: "send (re_chat r0) (re_thread r0)
      (reminder_message (deliver_to reminder_lease_seconds now r0)) w = (Inl Send_outcome_unknown, w1)"
    using assms(3) by (metis prod.collapse)
  have "r0 = r" using some(5) assms(2) by simp
  moreover have "(res, w', d') = (Inl Send_outcome_unknown, w1, mark_delivered (re_id r0) now d1)"
    using assms(4) some(3) w1 by (subst (asm) deliver_reminders.simps) simp
  moreover have "\<not> reminder_due later (delivered now x)" for later x
    by (simp add: reminder_due_def delivered_def)
  ultimately show ?thesis
    using some(4,5) assms(2) by (auto simp: set_tbl_update delivered_def)
qed

text \<open>
  The calls of one scheduler: the composer, the transport and the moment of each; the trace says
  which of them got past the guards.
\<close>

fun digest_trace ::
  "(json \<Rightarrow> string) \<Rightarrow> (string \<Rightarrow> json option) \<Rightarrow> sched_config \<Rightarrow> (time \<Rightarrow> string \<times> string) \<Rightarrow>
   ((time \<Rightarrow> 'w \<Rightarrow> (send_failure + string) \<times> 'w) \<times> 'w transport \<times> time) list \<Rightarrow> 'w \<Rightarrow> db \<Rightarrow> bool list" where
  "digest_trace dumps loads cfg local [] w d = []"
| "digest_trace dumps loads cfg local ((compose, send, moment) # xs) w d =
     (let (res, w', d') = deliver_digest dumps loads cfg local compose send moment w d
      in digest_ready loads cfg local moment d # digest_trace dumps loads cfg local xs w' d')"

lemma channel_put_find: "find (\<lambda>r. cs_key r = k) (t_channel_state (channel_put k v now d)) =
    Some \<lparr>cs_key = k, cs_value = v, cs_updated_at = now\<rparr>"
proof (cases "find (\<lambda>r. cs_key r = k) (t_channel_state d)")
  case None
  have "find P T = None \<Longrightarrow> P x \<Longrightarrow> find P (T @ [x]) = Some x" for P T and x :: channel_state
    by (induction T) auto
  then show ?thesis using None by (simp add: channel_put_def Let_def)
next
  case (Some r)
  have "find P T = Some r \<Longrightarrow> P x \<Longrightarrow> find P (tbl_update P (\<lambda>y. x) T) = Some x" for P T and x :: channel_state
    by (induction T) (auto split: if_splits)
  then show ?thesis using Some by (simp add: channel_put_def Let_def)
qed

text \<open>What was written today is not \<open>pending\<close>.\<close>

definition settled_today :: "(string \<Rightarrow> json option) \<Rightarrow> string \<Rightarrow> db \<Rightarrow> bool" where
  "settled_today loads today d \<longleftrightarrow> dict_get (sched_state loads d) ''date'' = JStr today \<and>
     dict_get (sched_state loads d) ''digest'' \<noteq> JStr ''pending''"

lemma settled_not_ready:
  "settled_today loads (fst (local m)) d \<Longrightarrow> \<not> digest_ready loads cfg local m d"
  by (auto simp: settled_today_def digest_ready_def today_state_def Let_def split: prod.splits)

lemma today_state_date: "dict_get (today_state loads today d) ''date'' = JStr today"
  by (simp add: today_state_def Let_def dict_get_def)

text \<open>\<open>json.loads\<close> reads back what \<open>json.dumps\<close> wrote of today's state.\<close>

definition reads_back :: "(string \<Rightarrow> json option) \<Rightarrow> (json \<Rightarrow> string) \<Rightarrow> string \<Rightarrow> bool" where
  "reads_back loads dumps today \<longleftrightarrow>
     (\<forall>s t. dict_get s ''date'' = JStr today \<longrightarrow> dict_get s ''digest'' = JStr t \<longrightarrow>
       (\<exists>s'. loads (dumps (JObj s)) = Some (JObj s') \<and> dict_get s' ''date'' = JStr today \<and>
          dict_get s' ''digest'' = JStr t))"

lemma write_settles:
  assumes "reads_back loads dumps today"
    and "dict_get s ''date'' = JStr today" "dict_get s ''digest'' = JStr t" "t \<noteq> ''pending''"
  shows "settled_today loads today (write_sched_state dumps s now d)"
proof -
  obtain s' where "loads (dumps (JObj s)) = Some (JObj s')" "dict_get s' ''date'' = JStr today"
    "dict_get s' ''digest'' = JStr t" using assms(1-3) by (auto simp: reads_back_def)
  then show ?thesis using assms(4)
    by (simp add: settled_today_def sched_state_def write_sched_state_def channel_put_find)
qed

lemma digest_settles:
  assumes "reads_back loads dumps today"
    and "deliver_digest dumps loads cfg local compose send m w d = (res, w', d')"
    and "fst (local m) = today" "digest_ready loads cfg local m d"
  shows "settled_today loads today d'"
proof -
  let ?s1 = "today_state loads (fst (local m)) d"
  let ?s2 = "dict_set (dict_set ?s1 ''digest'' (JStr ''reserved'')) ''runs''
                   (JInt (jint_of (dict_get ?s1 ''runs'') + 1))"
  have "dict_get ?s1 ''date'' = JStr today" using assms(3) today_state_date by blast
  then have w: "settled_today loads today (write_sched_state dumps ?s2 m d)"
    "settled_today loads today (write_sched_state dumps (dict_set ?s2 ''digest'' (JStr ''failed'')) m x)"
    "settled_today loads today (write_sched_state dumps (dict_set ?s2 ''digest'' (JStr ''sent'')) m x)" for x
    by (auto intro!: write_settles [OF assms(1)] simp: dict_get_set)
  show ?thesis
    using assms(2,4) w by (auto simp: deliver_digest_def Let_def split: prod.splits sum.splits if_splits)
qed

lemma digest_settled_stays:
  assumes "\<And>c s m. (c, s, m) \<in> set calls \<Longrightarrow> fst (local m) = today" "settled_today loads today d"
  shows "True \<notin> set (digest_trace dumps loads cfg local calls w d)"
  using assms
proof (induction calls arbitrary: w d)
  case (Cons x xs)
  obtain c s m where x: "x = (c, s, m)" by (cases x) auto
  have "\<not> digest_ready loads cfg local m d"
    using settled_not_ready [where local = local and m = m] Cons.prems x by fastforce
  moreover from this have "deliver_digest dumps loads cfg local c s m w d = (Inr 0, w, d)"
    by (simp add: deliver_digest_def)
  ultimately show ?case using Cons x by (fastforce simp: Let_def)
qed simp

text \<open>
  One digest a day.  On one local date, whatever the composer and the transport answer, and
  also when they raise halfway, at most one call of the scheduler composes and sends a digest.
  \<open>json.loads\<close> is assumed to read back the date and the digest's state that
  \<open>json.dumps\<close> wrote.
\<close>

theorem digest_once_a_day:
  assumes "reads_back loads dumps today"
    and "\<And>c s m. (c, s, m) \<in> set calls \<Longrightarrow> fst (local m) = today"
  shows "length (filter (\<lambda>sent. sent) (digest_trace dumps loads cfg local calls w d)) \<le> 1"
  using assms(2)
proof (induction calls arbitrary: w d)
  case (Cons x xs)
  obtain c s m where x: "x = (c, s, m)" by (cases x) auto
  obtain res w' d' where del: "deliver_digest dumps loads cfg local c s m w d = (res, w', d')"
    using prod_cases3 by blast
  have same: "\<And>c s m. (c, s, m) \<in> set xs \<Longrightarrow> fst (local m) = today" using Cons.prems by auto
  show ?case
  proof (cases "digest_ready loads cfg local m d")
    case True
    have "settled_today loads today d'"
      by (rule digest_settles [OF assms(1) del _ True]) (use Cons.prems x in auto)
    then have "True \<notin> set (digest_trace dumps loads cfg local xs w' d')"
      using digest_settled_stays [of xs local today] same by blast
    then have "filter (\<lambda>sent. sent) (digest_trace dumps loads cfg local xs w' d') = []"
      by (auto simp: filter_empty_conv)
    then show ?thesis using x del True by (simp add: Let_def)
  next
    case False
    then show ?thesis using Cons.IH [OF same] x del by (simp add: Let_def)
  qed
qed simp

text \<open>
  An unreadable state.  When the stored state cannot be read, the \<open>failed\<close> state that
  stands in for it has no date, so the guard takes it for yesterday's and lets the digest out.
\<close>

theorem unreadable_state_lets_the_digest_out:
  assumes "find (\<lambda>r. cs_key r = ''scheduler:v1'') (t_channel_state d) = Some row"
    "loads (cs_value row) = None" "sc_digest_chats cfg \<noteq> []" "sc_digest_time cfg \<le> snd (local m)"
    "1 \<le> sc_max_scheduled_runs cfg"
  shows "sched_state loads d = [(''digest'', JStr ''failed'')] \<and> digest_ready loads cfg local m d"
proof -
  have st: "sched_state loads d = [(''digest'', JStr ''failed'')]"
    using assms(1,2) by (simp add: sched_state_def state_key_def)
  then show ?thesis using assms(3-5)
    by (auto simp: digest_ready_def today_state_def dict_get_def jint_of_def Let_def not_less
        split: prod.splits)
qed

section \<open>Witnesses\<close>

definition sample_reminder :: "uid \<Rightarrow> time \<Rightarrow> reminder" where
  "sample_reminder i due = \<lparr>re_id = i, re_approval_id = None, re_chat = ''c'', re_thread = None,
     re_text = i, re_due_at = due, re_status = Re_pending, re_lease_until = None, re_attempts = 0,
     re_created_at = 0, re_updated_at = 0\<rparr>"

definition sample_reminders :: db where
  "sample_reminders = empty_db\<lparr>t_reminders := [sample_reminder ''r2'' 20, sample_reminder ''r1'' 10,
     sample_reminder ''r3'' 99]\<rparr>"

lemma sample_queue: "due_queue 50 sample_reminders = [sample_reminder ''r1'' 10, sample_reminder ''r2'' 20]"
  "distinct (map re_id (t_reminders sample_reminders))"
  by (simp_all add: due_queue_def sample_reminders_def sample_reminder_def reminder_due_def reminder_key_def)

theorem due_reminders_are_delivered_once_witness:
  "\<exists>d'. deliver_reminders (\<lambda>c t x log. (Inr (), log @ [x])) 50 [] sample_reminders =
     (Inr 2, [''TEXT_REMINDER: r1'', ''TEXT_REMINDER: r2''], d')"
  by (subst due_reminders_are_delivered_once)
    (simp_all add: sample_queue, simp add: sample_reminder_def reminder_message_def)

theorem unknown_outcome_is_not_resent_witness:
  "\<exists>w' d'. deliver_reminders (\<lambda>c t x log. (Inl Send_outcome_unknown, log @ [x])) 50 [] sample_reminders =
     (Inl Send_outcome_unknown, w', d') \<and> due_queue 50 d' = [sample_reminder ''r2'' 20]"
proof -
  let ?send = "\<lambda>c t x log. (Inl Send_outcome_unknown, log @ [x])"
  obtain res w' d' where r: "deliver_reminders ?send 50 [] sample_reminders = (res, w', d')"
    using prod_cases3 by blast
  show ?thesis
    using unknown_outcome_is_not_resent [OF sample_queue(2,1) _ r] r by auto
qed

definition sample_config :: sched_config where
  "sample_config = \<lparr>sc_digest_time = ''07:00'', sc_digest_chats = [''c''], sc_max_scheduled_runs = 4\<rparr>"

definition sample_loads :: "string \<Rightarrow> json option" where
  "sample_loads x = (if x = ''broken'' then None
     else Some (JObj [(''date'', JStr ''2026-01-01''), (''digest'', JStr (tl x))]))"

definition sample_dumps :: "json \<Rightarrow> string" where
  "sample_dumps v = CHR ''='' # jtext v ''digest''"

theorem digest_once_a_day_witness:
  "length (filter (\<lambda>sent. sent) (digest_trace sample_dumps sample_loads sample_config
     (\<lambda>t. (''2026-01-01'', ''08:00''))
     [(\<lambda>t w. (Inl (Send_error ''down''), w), \<lambda>c t x w. (Inr (), w), 1),
      (\<lambda>t w. (Inr ''morning'', w), \<lambda>c t x w. (Inr (), w), 2)] () empty_db)) \<le> 1"
proof (rule digest_once_a_day [where today = "''2026-01-01''"])
  show "reads_back sample_loads sample_dumps ''2026-01-01''"
    by (auto simp: reads_back_def sample_loads_def sample_dumps_def jtext_def jget_def dict_get_def)
qed auto

theorem unreadable_state_lets_the_digest_out_witness:
  "digest_ready sample_loads sample_config (\<lambda>t. (''2026-01-01'', ''08:00'')) 1
     (channel_put ''scheduler:v1'' ''broken'' 0 empty_db)"
proof -
  have "find (\<lambda>r. cs_key r = ''scheduler:v1'') (t_channel_state (channel_put ''scheduler:v1'' ''broken'' 0 empty_db)) =
      Some \<lparr>cs_key = ''scheduler:v1'', cs_value = ''broken'', cs_updated_at = 0\<rparr>"
    by (rule channel_put_find)
  moreover have "''07:00'' \<le> ''08:00''" by code_simp
  ultimately show ?thesis
    using unreadable_state_lets_the_digest_out [of "channel_put ''scheduler:v1'' ''broken'' 0 empty_db" _
        sample_loads sample_config "\<lambda>t. (''2026-01-01'', ''08:00'')" 1]
    by (simp add: sample_loads_def sample_config_def)
qed

end
