(* ===== verification/RunContext.thy ===== *)
theory RunContext
  imports Payload
begin

text \<open>
  \<open>hermes_cloud/core/runcontext.py\<close>: who may do what in one turn.  The rights come from the
  household's configuration and from the actor and chat the transport verified, never from a
  message.  The environment, the parsed \<open>household.toml\<close> and the runtime manifest are
  arguments; \<open>str_of\<close> is Python's \<open>str\<close> on configuration values.
\<close>

section \<open>Capabilities and roles\<close>

definition all_read :: "string set" where
  "all_read = {''tasks.read'', ''calendar.read'', ''email.read'', ''memory.read''}"

definition all_write :: "string set" where
  "all_write = {''reminder.create'', ''calendar.write'', ''memory.append'', ''email.compose'',
     ''whatsapp.send'', ''data.export'', ''data.delete''}"

datatype role = Owner | Family | Guest | Unknown

fun role_caps :: "role \<Rightarrow> string set \<times> string set" where
  "role_caps Owner = (all_read, all_write)"
| "role_caps Family = (all_read, all_write - {''data.export'', ''data.delete''})"
| "role_caps Guest = ({''tasks.read'', ''calendar.read''}, {})"
| "role_caps Unknown = ({}, {})"

record household =
  hh_id :: string
  hh_owner :: "string option"
  hh_family :: "string set"
  hh_guests :: "string set"
  hh_allowed_chats :: "string set"
  hh_bindings :: "(string \<times> string) set option"

definition role_for :: "household \<Rightarrow> string \<Rightarrow> role" where
  "role_for h actor =
     (if str_or_none (hh_owner h) = Some actor then Owner
      else if actor \<in> hh_family h then Family
      else if actor \<in> hh_guests h then Guest
      else Unknown)"

definition knows_chat :: "household \<Rightarrow> string \<Rightarrow> bool" where
  "knows_chat h chat \<longleftrightarrow> hh_allowed_chats h \<noteq> {} \<and> chat \<in> hh_allowed_chats h"

definition knows_binding :: "household \<Rightarrow> string \<Rightarrow> string \<Rightarrow> bool" where
  "knows_binding h actor chat =
     (case hh_bindings h of None \<Rightarrow> knows_chat h chat | Some B \<Rightarrow> (actor, chat) \<in> B)"

section \<open>Loading the household\<close>

fun split_comma :: "string \<Rightarrow> string list" where
  "split_comma [] = [[]]"
| "split_comma (c # s) =
     (case split_comma s of
        [] \<Rightarrow> [[c]]
      | w # ws \<Rightarrow> if c = CHR '','' then [] # w # ws else (c # w) # ws)"

definition split_names :: "string option \<Rightarrow> string set" where
  "split_names v = py_strip ` set (filter (\<lambda>i. py_strip i \<noteq> [])
     (split_comma (case v of None \<Rightarrow> [] | Some s \<Rightarrow> s)))"

record manifest =
  mf_household_id :: string
  mf_owner :: "string option"
  mf_family :: "string set"
  mf_guests :: "string set"
  mf_allowed_chats :: "string set"
  mf_pairs :: "(string \<times> string) set"

definition items :: "(json \<Rightarrow> string) \<Rightarrow> json \<Rightarrow> string \<Rightarrow> string set" where
  "items str_of v k = (case jget v k of JArr xs \<Rightarrow> str_of ` set xs | _ \<Rightarrow> {})"

definition load_household ::
  "(json \<Rightarrow> string) \<Rightarrow> (string \<Rightarrow> string option) \<Rightarrow> manifest option \<Rightarrow> json option \<Rightarrow> household" where
  "load_household str_of env manifest toml =
     (case manifest of
        Some m \<Rightarrow> \<lparr>hh_id = mf_household_id m, hh_owner = mf_owner m, hh_family = mf_family m,
          hh_guests = mf_guests m, hh_allowed_chats = mf_allowed_chats m, hh_bindings = Some (mf_pairs m)\<rparr>
      | None \<Rightarrow>
        (case toml of
           Some data \<Rightarrow>
             let actors = jget data ''actors''; channels = jget data ''channels''
             in \<lparr>hh_id = (case jget data ''household_id'' of JNull \<Rightarrow> ''household'' | v \<Rightarrow> str_of v),
                 hh_owner = (if truthy (jget actors ''owner'') then Some (str_of (jget actors ''owner''))
                   else None),
                 hh_family = items str_of actors ''family'', hh_guests = items str_of actors ''guests'',
                 hh_allowed_chats = items str_of channels ''allowed_chats'', hh_bindings = None\<rparr>
         | None \<Rightarrow>
             let owner = str_or_none (map_option py_strip (env ''HERMES_OWNER''));
                 family = split_names (env ''HERMES_FAMILY_ACTORS'')
             in \<lparr>hh_id = (case env ''HERMES_HOUSEHOLD_ID'' of None \<Rightarrow> ''household'' | Some s \<Rightarrow> s),
                 hh_owner = owner,
                 hh_family = family \<union> set_option owner,
                 hh_guests = split_names (env ''HERMES_GUEST_ACTORS''),
                 hh_allowed_chats = split_names (env ''HERMES_CHAT''), hh_bindings = None\<rparr>))"

section \<open>The context of a turn\<close>

datatype scope = Personal | Shared

record run_context =
  rc_household_id :: string
  rc_actor_id :: string
  rc_chat_id :: string
  rc_thread_id :: "int option"
  rc_role :: role
  rc_scope :: scope
  rc_read_caps :: "string set"
  rc_mutate_caps :: "string set"
  rc_run_id :: string

definition is_known :: "run_context \<Rightarrow> bool" where "is_known c \<longleftrightarrow> rc_role c \<noteq> Unknown"

definition has_tools :: "run_context \<Rightarrow> bool" where
  "has_tools c \<longleftrightarrow> rc_read_caps c \<noteq> {} \<or> rc_mutate_caps c \<noteq> {}"

definition can :: "run_context \<Rightarrow> string \<Rightarrow> bool" where
  "can c cap \<longleftrightarrow> cap \<in> rc_read_caps c \<or> cap \<in> rc_mutate_caps c"

datatype capability_denied = Capability_denied string role

definition require :: "run_context \<Rightarrow> string \<Rightarrow> capability_denied + unit" where
  "require c cap = (if can c cap then Inr () else Inl (Capability_denied cap (rc_role c)))"

definition build_run_context ::
  "household \<Rightarrow> string \<Rightarrow> string \<Rightarrow> int option \<Rightarrow> string option \<Rightarrow> uid \<Rightarrow> run_context" where
  "build_run_context h actor chat thread run_id nid =
     (let role = (if knows_binding h actor chat then role_for h actor else Unknown);
          caps = role_caps role
      in \<lparr>rc_household_id = hh_id h, rc_actor_id = actor, rc_chat_id = chat, rc_thread_id = thread,
          rc_role = role,
          rc_scope = (case chat of [] \<Rightarrow> Personal | c # s \<Rightarrow> if c = CHR ''-'' then Shared else Personal),
          rc_read_caps = fst caps, rc_mutate_caps = snd caps,
          rc_run_id = (case str_or_none run_id of None \<Rightarrow> nid | Some r \<Rightarrow> r)\<rparr>)"

section \<open>Lemmas\<close>

lemma build_sel [simp]:
  "rc_role (build_run_context h a c t r n) = (if knows_binding h a c then role_for h a else Unknown)"
  "rc_chat_id (build_run_context h a c t r n) = c" "rc_actor_id (build_run_context h a c t r n) = a"
  "rc_thread_id (build_run_context h a c t r n) = t"
  "rc_read_caps (build_run_context h a c t r n) =
     fst (role_caps (if knows_binding h a c then role_for h a else Unknown))"
  "rc_mutate_caps (build_run_context h a c t r n) =
     snd (role_caps (if knows_binding h a c then role_for h a else Unknown))"
  by (simp_all add: build_run_context_def Let_def)

lemma read_write_disjoint: "all_read \<inter> all_write = {}"
  by (simp add: all_read_def all_write_def)

lemma split_comma_Cons: "split_comma s \<noteq> []"
  by (cases s) (auto split: list.splits)

lemma split_names_clean: "x \<in> split_names v \<Longrightarrow> x \<noteq> []"
  by (auto simp: split_names_def)

section \<open>Properties\<close>

text \<open>
  Rights of a turn.  A turn may use a capability only if the household knows the actor in
  this chat and the actor's role grants it: an actor outside every list, and anyone in a chat
  that is not bound, gets no tool at all; a guest changes nothing and reads neither mail nor
  memory; only the owner exports or deletes data; \<open>require\<close> raises exactly when
  \<open>can\<close> refuses.
\<close>

theorem rights_of_a_turn:
  "(can (build_run_context h a c t r n) cap \<longrightarrow> knows_binding h a c \<and> role_for h a \<noteq> Unknown \<and>
      cap \<in> all_read \<union> all_write) \<and>
   (\<not> is_known (build_run_context h a c t r n) \<longleftrightarrow> \<not> has_tools (build_run_context h a c t r n)) \<and>
   (rc_role (build_run_context h a c t r n) = Guest \<and> can (build_run_context h a c t r n) cap \<longrightarrow>
      cap = ''tasks.read'' \<or> cap = ''calendar.read'') \<and>
   (cap \<in> {''data.export'', ''data.delete''} \<and> can (build_run_context h a c t r n) cap \<longrightarrow>
      str_or_none (hh_owner h) = Some a) \<and>
   (require (build_run_context h a c t r n) cap = Inr () \<longleftrightarrow> can (build_run_context h a c t r n) cap)"
proof -
  define ctx where "ctx = build_run_context h a c t r n"
  define role where "role = (if knows_binding h a c then role_for h a else Unknown)"
  have caps: "rc_read_caps ctx = fst (role_caps role)" "rc_mutate_caps ctx = snd (role_caps role)"
    "rc_role ctx = role" by (simp_all add: ctx_def role_def)
  have sub: "fst (role_caps role) \<subseteq> all_read" "snd (role_caps role) \<subseteq> all_write"
    by (cases role; auto simp: all_read_def)+
  have "can ctx cap \<longrightarrow> knows_binding h a c \<and> role_for h a \<noteq> Unknown \<and> cap \<in> all_read \<union> all_write"
    using sub caps by (auto simp: can_def role_def split: if_splits)
  moreover have "\<not> is_known ctx \<longleftrightarrow> \<not> has_tools ctx"
    using caps by (cases role) (auto simp: is_known_def has_tools_def all_read_def)
  moreover have "rc_role ctx = Guest \<and> can ctx cap \<longrightarrow> cap = ''tasks.read'' \<or> cap = ''calendar.read''"
    using caps by (auto simp: can_def)
  moreover have "cap \<in> {''data.export'', ''data.delete''} \<and> can ctx cap \<longrightarrow> str_or_none (hh_owner h) = Some a"
  proof -
    have "role = Owner" if "cap \<in> {''data.export'', ''data.delete''}" "can ctx cap"
      using that caps by (cases role) (auto simp: can_def all_read_def)
    moreover have "role = Owner \<longrightarrow> str_or_none (hh_owner h) = Some a"
      by (auto simp: role_def role_for_def)
    ultimately show ?thesis by blast
  qed
  moreover have "require ctx cap = Inr () \<longleftrightarrow> can ctx cap" by (simp add: require_def)
  ultimately show ?thesis unfolding ctx_def by blast
qed

text \<open>
  Loading.  A runtime manifest takes precedence and admits only its exact pairs of actor and
  chat; without configuration nobody has any right; a household loaded from the environment always
  has its owner among the family, and an empty list of chats admits no chat.
\<close>

theorem loaded_household_denies_by_default:
  "(\<forall>m. knows_binding (load_household str_of env (Some m) toml) a c \<longleftrightarrow> (a, c) \<in> mf_pairs m) \<and>
   (env ''HERMES_CHAT'' = None \<longrightarrow>
      \<not> can (build_run_context (load_household str_of env None None) a c t r n) cap) \<and>
   (\<forall>owner. hh_owner (load_household str_of env None None) = Some owner \<longrightarrow>
      owner \<in> hh_family (load_household str_of env None None) \<and> owner \<noteq> [])"
proof -
  have "split_names None = {}" by (simp add: split_names_def py_strip_def)
  then have "env ''HERMES_CHAT'' = None \<Longrightarrow> \<not> knows_binding (load_household str_of env None None) a c"
    by (simp add: load_household_def knows_binding_def knows_chat_def Let_def)
  then show ?thesis
    by (auto simp: can_def load_household_def knows_binding_def Let_def str_or_none_def
        split: option.splits if_splits)
qed

section \<open>Witnesses\<close>

definition sample_household :: household where
  "sample_household = \<lparr>hh_id = ''h'', hh_owner = Some ''anna'', hh_family = {''ben''},
     hh_guests = {''nanny''}, hh_allowed_chats = {''c''}, hh_bindings = None\<rparr>"

theorem rights_of_a_turn_witness:
  "can (build_run_context sample_household ''anna'' ''c'' None None ''r'') ''data.delete'' \<and>
   \<not> has_tools (build_run_context sample_household ''anna'' ''other'' None None ''r'') \<and>
   \<not> can (build_run_context sample_household ''nanny'' ''c'' None None ''r'') ''email.read'' \<and>
   str_or_none (hh_owner sample_household) = Some ''anna''"
proof -
  have a: "can (build_run_context sample_household ''anna'' ''c'' None None ''r'') ''data.delete''"
    by (simp add: can_def sample_household_def knows_binding_def knows_chat_def role_for_def
        str_or_none_def all_write_def)
  have n: "rc_role (build_run_context sample_household ''nanny'' ''c'' None None ''r'') = Guest"
    by (simp add: sample_household_def knows_binding_def knows_chat_def role_for_def str_or_none_def)
  have o: "\<not> is_known (build_run_context sample_household ''anna'' ''other'' None None ''r'')"
    by (simp add: is_known_def sample_household_def knows_binding_def knows_chat_def)
  have 1: "str_or_none (hh_owner sample_household) = Some ''anna''"
    using rights_of_a_turn [of sample_household "''anna''" "''c''" None None "''r''" "''data.delete''"] a
    by blast
  have 2: "\<not> can (build_run_context sample_household ''nanny'' ''c'' None None ''r'') ''email.read''"
  proof
    assume c: "can (build_run_context sample_household ''nanny'' ''c'' None None ''r'') ''email.read''"
    have "''email.read'' = ''tasks.read'' \<or> ''email.read'' = ''calendar.read''"
      using rights_of_a_turn [of sample_household "''nanny''" "''c''" None None "''r''" "''email.read''"] n c
      by blast
    then show False by simp
  qed
  have 3: "\<not> has_tools (build_run_context sample_household ''anna'' ''other'' None None ''r'')"
    using rights_of_a_turn [of sample_household "''anna''" "''other''" None None "''r''" "''tasks.read''"] o
    by blast
  show ?thesis using a 1 2 3 by (intro conjI)
qed

definition sample_env :: "string \<Rightarrow> string option" where
  "sample_env k = (if k = ''HERMES_OWNER'' then Some '' anna '' else None)"

theorem loaded_household_denies_by_default_witness:
  "\<not> can (build_run_context (load_household (\<lambda>v. []) sample_env None None) ''anna'' ''c'' None None ''r'')
     ''tasks.read'' \<and>
   ''anna'' \<in> hh_family (load_household (\<lambda>v. []) sample_env None None)"
proof -
  have strip: "py_strip '' anna '' = ''anna''" by code_simp
  have "sample_env ''HERMES_CHAT'' = None"
    "hh_owner (load_household (\<lambda>v. []) sample_env None None) = Some ''anna''"
    by (simp_all add: sample_env_def load_household_def strip str_or_none_def)
  then show ?thesis
    using loaded_household_denies_by_default [of "\<lambda>v. []" sample_env None "''anna''" "''c''" None None
        "''r''" "''tasks.read''"] by blast
qed

end
