(* ===== verification/EmailStore.thy ===== *)
theory EmailStore
  imports Schema Interfaces
begin

text \<open>
  \<open>hermes_cloud/email/contracts.py\<close> and \<open>hermes_cloud/email/receipts.py\<close>: which address a
  household sends from, and the journal of what was handed to a mail provider.
\<close>

section \<open>Bindings\<close>

record email_binding =
  em_identity_id :: string
  em_revision :: int
  em_provider :: string
  em_address :: string
  em_provider_ref :: "string option"
  em_secret_names :: "string list"

datatype binding_error = Value_error | Binding_revision_changed

definition row_key :: "string \<Rightarrow> int \<Rightarrow> email_binding_row \<Rightarrow> bool" where
  "row_key i rv r \<longleftrightarrow> eb_identity_id r = i \<and> eb_revision r = rv"

definition same_binding :: "email_binding_row \<Rightarrow> email_binding \<Rightarrow> bool" where
  "same_binding r b \<longleftrightarrow> eb_provider r = em_provider b \<and>
     py_lower (eb_address r) = py_lower (em_address b) \<and>
     eb_provider_ref r = em_provider_ref b \<and> eb_secret_names r = em_secret_names b"

definition new_binding_row :: "email_binding \<Rightarrow> time \<Rightarrow> email_binding_row" where
  "new_binding_row b now =
     \<lparr>eb_identity_id = em_identity_id b, eb_revision = em_revision b, eb_provider = em_provider b,
      eb_address = em_address b, eb_provider_ref = em_provider_ref b,
      eb_secret_names = em_secret_names b, eb_state = Bs_active, eb_activated_at = now,
      eb_updated_at = now\<rparr>"

definition binding_activate ::
  "email_binding \<Rightarrow> time \<Rightarrow> db \<Rightarrow> (binding_error + email_binding) \<times> db" where
  "binding_activate b now d =
     (if em_revision b < 1 then (Inl Value_error, d)
      else if em_identity_id b = [] \<or> em_provider b = [] \<or> CHR ''@'' \<notin> set (em_address b)
        then (Inl Value_error, d)
      else write_tx (\<lambda>d.
        let key = row_key (em_identity_id b) (em_revision b);
            existing = find key (t_bindings d)
        in if (case existing of None \<Rightarrow> False | Some r \<Rightarrow> \<not> same_binding r b) then (Inl Value_error, d)
           else
             let T = tbl_update (\<lambda>r. eb_state r = Bs_active \<and> \<not> key r)
                       (\<lambda>r. r\<lparr>eb_state := Bs_superseded, eb_updated_at := now\<rparr>) (t_bindings d)
             in (Inr b, d\<lparr>t_bindings :=
                  (case existing of
                     None \<Rightarrow> T @ [new_binding_row b now]
                   | Some _ \<Rightarrow> tbl_update key (\<lambda>r. r\<lparr>eb_state := Bs_active, eb_updated_at := now\<rparr>) T)\<rparr>)) d)"

definition binding_of_row :: "email_binding_row \<Rightarrow> email_binding" where
  "binding_of_row r =
     \<lparr>em_identity_id = eb_identity_id r, em_revision = eb_revision r, em_provider = eb_provider r,
      em_address = eb_address r, em_provider_ref = eb_provider_ref r,
      em_secret_names = eb_secret_names r\<rparr>"

definition binding_current :: "db \<Rightarrow> email_binding option" where
  "binding_current d = map_option binding_of_row (find (\<lambda>r. eb_state r = Bs_active) (t_bindings d))"

definition require_current :: "string \<Rightarrow> int \<Rightarrow> db \<Rightarrow> binding_error + email_binding" where
  "require_current i rv d =
     (case binding_current d of
        None \<Rightarrow> Inl Binding_revision_changed
      | Some b \<Rightarrow> if em_identity_id b \<noteq> i \<or> em_revision b \<noteq> rv then Inl Binding_revision_changed
                  else Inr b)"

section \<open>The send journal\<close>

record send_request =
  rq_effect_id :: uid
  rq_approval_id :: uid
  rq_binding :: email_binding
  rq_message_id :: string
  rq_mime :: string
  rq_sha256 :: string

record delivery =
  dl_effect_id :: uid
  dl_approval_id :: uid
  dl_message_id :: string
  dl_provider_ref :: "string option"
  dl_accepted_at :: "time option"
  dl_status :: send_state

definition new_send :: "uid \<Rightarrow> uid \<Rightarrow> email_binding \<Rightarrow> string \<Rightarrow> string \<Rightarrow> time \<Rightarrow> email_send" where
  "new_send eff appr b sha mid now =
     \<lparr>es_effect_id = eff, es_approval_id = appr, es_identity_id = em_identity_id b,
      es_revision = em_revision b, es_request_sha256 = sha, es_state = Se_pending,
      es_message_id = mid, es_provider_ref = None, es_error_code = None, es_created_at = now,
      es_updated_at = now\<rparr>"

definition send_begin ::
  "uid \<Rightarrow> uid \<Rightarrow> email_binding \<Rightarrow> string \<Rightarrow> string \<Rightarrow> time \<Rightarrow> db \<Rightarrow>
   (binding_error + send_state \<times> bool) \<times> db" where
  "send_begin eff appr b sha mid now d =
     (let inserted = eff \<notin> set (map es_effect_id (t_sends d));
          d1 = (if inserted then d\<lparr>t_sends := t_sends d @ [new_send eff appr b sha mid now]\<rparr> else d)
      in case tbl_get es_effect_id eff (t_sends d1) of
           None \<Rightarrow> (Inl Value_error, d1)
         | Some row \<Rightarrow>
             if es_request_sha256 row \<noteq> sha \<or> es_identity_id row \<noteq> em_identity_id b \<or>
                es_revision row \<noteq> em_revision b
             then (Inl Value_error, d1)
             else (Inr (es_state row, inserted), d1))"

definition send_settle :: "delivery \<Rightarrow> string option \<Rightarrow> time \<Rightarrow> db \<Rightarrow> db" where
  "send_settle r err now d =
     (let d1 = d\<lparr>t_sends := tbl_update (\<lambda>x. es_effect_id x = dl_effect_id r)
                 (\<lambda>x. x\<lparr>es_state := dl_status r, es_provider_ref := dl_provider_ref r,
                        es_error_code := err, es_updated_at := now\<rparr>) (t_sends d)\<rparr>;
          reconciled = (if dl_status r \<noteq> Se_accepted then Some now else None)
      in if dl_effect_id r \<in> set (map dr_effect_id (t_deliveries d1))
         then d1\<lparr>t_deliveries := tbl_update (\<lambda>x. dr_effect_id x = dl_effect_id r)
                (\<lambda>x. x\<lparr>dr_provider_ref := dl_provider_ref r, dr_state := dl_status r,
                       dr_accepted_at := dl_accepted_at r, dr_reconciled_at := reconciled,
                       dr_updated_at := now\<rparr>) (t_deliveries d1)\<rparr>
         else d1\<lparr>t_deliveries := t_deliveries d1 @
                [\<lparr>dr_effect_id = dl_effect_id r, dr_approval_id = dl_approval_id r,
                  dr_message_id = dl_message_id r, dr_provider_ref = dl_provider_ref r,
                  dr_state = dl_status r, dr_accepted_at = dl_accepted_at r,
                  dr_reconciled_at = reconciled, dr_created_at = now, dr_updated_at = now\<rparr>]\<rparr>)"

definition delivery_of_row :: "delivery_row \<Rightarrow> delivery" where
  "delivery_of_row r =
     \<lparr>dl_effect_id = dr_effect_id r, dl_approval_id = dr_approval_id r,
      dl_message_id = dr_message_id r, dl_provider_ref = dr_provider_ref r,
      dl_accepted_at = dr_accepted_at r, dl_status = dr_state r\<rparr>"

definition send_get :: "uid \<Rightarrow> db \<Rightarrow> delivery option" where
  "send_get eff d = map_option delivery_of_row (tbl_get dr_effect_id eff (t_deliveries d))"

section \<open>Lemmas\<close>

definition one_active :: "db \<Rightarrow> bool" where
  "one_active d \<longleftrightarrow>
     distinct (map (\<lambda>r. (eb_identity_id r, eb_revision r)) (t_bindings d)) \<and>
     length (filter (\<lambda>r. eb_state r = Bs_active) (t_bindings d)) \<le> 1"

text \<open>What of a binding row is fixed when it is written.\<close>

definition identity :: "email_binding_row \<Rightarrow> string \<times> int \<times> string \<times> string \<times> string option \<times> string list" where
  "identity r = (eb_identity_id r, eb_revision r, eb_provider r, eb_address r, eb_provider_ref r,
     eb_secret_names r)"

lemma identity_update [simp]:
  "(\<And>r. identity (f r) = identity r) \<Longrightarrow> map identity (tbl_update P f T) = map identity T"
  by (simp add: tbl_update_def)

lemma identity_keys:
  assumes "map identity T = map identity U"
  shows "map (\<lambda>r. (eb_identity_id r, eb_revision r)) T = map (\<lambda>r. (eb_identity_id r, eb_revision r)) U"
proof -
  have *: "map (\<lambda>r. (eb_identity_id r, eb_revision r)) V = map (\<lambda>x. (fst x, fst (snd x))) (map identity V)" for V
    by (simp add: identity_def comp_def)
  show ?thesis by (simp only: * assms)
qed

lemma supersede_actives:
  "filter (\<lambda>r. eb_state r = Bs_active) (tbl_update (\<lambda>r. eb_state r = Bs_active \<and> \<not> K r)
     (\<lambda>r. r\<lparr>eb_state := Bs_superseded, eb_updated_at := now\<rparr>) T) =
   filter (\<lambda>r. eb_state r = Bs_active \<and> K r) T"
  by (induction T) auto

lemma key_unique:
  assumes "distinct (map (\<lambda>r. (eb_identity_id r, eb_revision r)) T)"
  shows "length (filter (row_key i rv) T) \<le> 1"
  using assms
proof (induction T)
  case (Cons r T)
  show ?case
  proof (cases "row_key i rv r")
    case True
    then have "\<forall>x \<in> set T. \<not> row_key i rv x"
      using Cons.prems by (auto simp: row_key_def image_iff)
    then have "filter (row_key i rv) T = []" by (simp add: filter_empty_conv)
    then show ?thesis by simp
  qed (use Cons in simp)
qed simp

lemma filter_conj_le: "length (filter (\<lambda>r. P r \<and> Q r) T) \<le> length (filter Q T)"
  by (induction T) auto

lemma activate_cases:
  obtains (refused) e where "binding_activate b now d = (Inl e, d)"
  | (new) "find (row_key (em_identity_id b) (em_revision b)) (t_bindings d) = None" "1 \<le> em_revision b"
      "binding_activate b now d = (Inr b, d\<lparr>t_bindings :=
         tbl_update (\<lambda>r. eb_state r = Bs_active \<and> \<not> row_key (em_identity_id b) (em_revision b) r)
           (\<lambda>r. r\<lparr>eb_state := Bs_superseded, eb_updated_at := now\<rparr>) (t_bindings d) @
         [new_binding_row b now]\<rparr>)"
  | (again) r where "find (row_key (em_identity_id b) (em_revision b)) (t_bindings d) = Some r"
      "same_binding r b" "1 \<le> em_revision b"
      "binding_activate b now d = (Inr b, d\<lparr>t_bindings :=
         tbl_update (row_key (em_identity_id b) (em_revision b))
           (\<lambda>r. r\<lparr>eb_state := Bs_active, eb_updated_at := now\<rparr>)
           (tbl_update (\<lambda>r. eb_state r = Bs_active \<and> \<not> row_key (em_identity_id b) (em_revision b) r)
             (\<lambda>r. r\<lparr>eb_state := Bs_superseded, eb_updated_at := now\<rparr>) (t_bindings d))\<rparr>)"
proof (cases "em_revision b < 1 \<or> em_identity_id b = [] \<or> em_provider b = [] \<or> CHR ''@'' \<notin> set (em_address b)")
  case True
  then have "binding_activate b now d = (Inl Value_error, d)"
    by (cases "em_revision b < 1") (simp_all add: binding_activate_def)
  then show thesis by (rule refused)
next
  case False
  show thesis
  proof (cases "find (row_key (em_identity_id b) (em_revision b)) (t_bindings d)")
    case None
    have "binding_activate b now d = (Inr b, d\<lparr>t_bindings :=
         tbl_update (\<lambda>r. eb_state r = Bs_active \<and> \<not> row_key (em_identity_id b) (em_revision b) r)
           (\<lambda>r. r\<lparr>eb_state := Bs_superseded, eb_updated_at := now\<rparr>) (t_bindings d) @
         [new_binding_row b now]\<rparr>)"
      using False None by (simp add: binding_activate_def write_tx_def Let_def)
    moreover have "1 \<le> em_revision b" using False by simp
    ultimately show thesis using None by (intro new)
  next
    case (Some r)
    show thesis
    proof (cases "same_binding r b")
      case True
      have "binding_activate b now d = (Inr b, d\<lparr>t_bindings :=
         tbl_update (row_key (em_identity_id b) (em_revision b))
           (\<lambda>r. r\<lparr>eb_state := Bs_active, eb_updated_at := now\<rparr>)
           (tbl_update (\<lambda>r. eb_state r = Bs_active \<and> \<not> row_key (em_identity_id b) (em_revision b) r)
             (\<lambda>r. r\<lparr>eb_state := Bs_superseded, eb_updated_at := now\<rparr>) (t_bindings d))\<rparr>)"
        using False Some True by (simp add: binding_activate_def write_tx_def Let_def)
      moreover have "1 \<le> em_revision b" using False by simp
      ultimately show thesis using Some True by (intro again)
    next
      case neg: False
      then have "binding_activate b now d = (Inl Value_error, d)"
        using False Some by (simp add: binding_activate_def write_tx_def Let_def)
      then show thesis by (rule refused)
    qed
  qed
qed

lemma send_begin_cases:
  obtains (fresh) "eff \<notin> set (map es_effect_id (t_sends d))"
      "send_begin eff appr b sha mid now d =
        (Inr (Se_pending, True), d\<lparr>t_sends := t_sends d @ [new_send eff appr b sha mid now]\<rparr>)"
  | (conflict) "eff \<in> set (map es_effect_id (t_sends d))"
      "send_begin eff appr b sha mid now d = (Inl Value_error, d)"
  | (known) row where "tbl_get es_effect_id eff (t_sends d) = Some row" "es_request_sha256 row = sha"
      "send_begin eff appr b sha mid now d = (Inr (es_state row, False), d)"
proof (cases "eff \<in> set (map es_effect_id (t_sends d))")
  case False
  then have "tbl_get es_effect_id eff (t_sends d) = None" by (simp add: tbl_get_None_iff)
  then show thesis
    using that(1) False by (simp add: send_begin_def Let_def tbl_get_append tbl_get_Cons new_send_def)
next
  case True
  then obtain row where row: "tbl_get es_effect_id eff (t_sends d) = Some row" using tbl_get_ex by metis
  show thesis
  proof (cases "es_request_sha256 row \<noteq> sha \<or> es_identity_id row \<noteq> em_identity_id b \<or> es_revision row \<noteq> em_revision b")
    case bad: True
    then show thesis using that(2) True row by (auto simp: send_begin_def Let_def)
  next
    case ok: False
    then have "send_begin eff appr b sha mid now d = (Inr (es_state row, False), d)"
      using True row by (simp add: send_begin_def Let_def)
    then show thesis using that(3) row ok by blast
  qed
qed

text \<open>A request is sent first-come: the contract of \<open>insert_once\<close>.\<close>

record begin_send =
  bs_effect_id :: uid
  bs_approval_id :: uid
  bs_binding :: email_binding
  bs_sha256 :: string
  bs_message_id :: string
  bs_now :: time

definition try_send_begin :: "begin_send \<Rightarrow> db \<Rightarrow> bool \<times> db" where
  "try_send_begin q d =
     (case send_begin (bs_effect_id q) (bs_approval_id q) (bs_binding q) (bs_sha256 q)
             (bs_message_id q) (bs_now q) d of
        (Inl e, d') \<Rightarrow> (False, d')
      | (Inr (st, fresh), d') \<Rightarrow> (fresh, d'))"

definition send_step :: "delivery \<times> string option \<times> time \<Rightarrow> db \<Rightarrow> db" where
  "send_step x = (case x of (r, err, now) \<Rightarrow> send_settle r err now)"

lemma try_send_cases:
  obtains (fresh) "bs_effect_id q \<notin> set (map es_effect_id (t_sends d))"
      "try_send_begin q d = (True, d\<lparr>t_sends := t_sends d @ [new_send (bs_effect_id q)
        (bs_approval_id q) (bs_binding q) (bs_sha256 q) (bs_message_id q) (bs_now q)]\<rparr>)"
  | (same) "try_send_begin q d = (False, d)"
proof (cases rule: send_begin_cases [of "bs_effect_id q" d "bs_approval_id q" "bs_binding q"
      "bs_sha256 q" "bs_message_id q" "bs_now q"])
  case fresh
  show thesis by (rule that(1) [OF fresh(1)]) (simp add: try_send_begin_def fresh(2))
next
  case conflict
  show thesis by (rule that(2)) (simp add: try_send_begin_def conflict(2))
next
  case (known row)
  show thesis by (rule that(2)) (simp add: try_send_begin_def known(3))
qed

lemma settle_sends:
  "map es_effect_id (t_sends (send_settle r err now d)) = map es_effect_id (t_sends d)"
  by (simp add: send_settle_def Let_def tbl_update_ids)

interpretation sends: insert_once "\<lambda>d. set (map es_effect_id (t_sends d))" bs_effect_id
  try_send_begin send_step
proof unfold_locales
  fix q d d' b x
  show "bs_effect_id q \<notin> set (map es_effect_id (t_sends d))" if "try_send_begin q d = (True, d')"
    by (cases rule: try_send_cases [of q d]) (use that in auto)
  show "bs_effect_id q \<in> set (map es_effect_id (t_sends d'))" if "try_send_begin q d = (True, d')"
    by (cases rule: try_send_cases [of q d]) (use that in \<open>auto simp: new_send_def\<close>)
  show "set (map es_effect_id (t_sends d)) \<subseteq> set (map es_effect_id (t_sends d'))"
    if "try_send_begin q d = (b, d')"
    by (cases rule: try_send_cases [of q d]) (use that in auto)
  show "set (map es_effect_id (t_sends d)) \<subseteq> set (map es_effect_id (t_sends (send_step x d)))"
    by (cases x) (simp only: send_step_def prod.case settle_sends order_refl)
qed

text \<open>A row that is no longer pending has its delivery receipt, in the same state.\<close>

definition receipts_match :: "db \<Rightarrow> bool" where
  "receipts_match d \<longleftrightarrow> distinct (map es_effect_id (t_sends d)) \<and>
     (\<forall>x \<in> set (t_sends d). es_state x \<noteq> Se_pending \<longrightarrow>
        (\<exists>r. send_get (es_effect_id x) d = Some r \<and> dl_status r = es_state x))"

lemma send_get_settle:
  "send_get eff (send_settle r err now d) =
     (if eff = dl_effect_id r
      then Some (case send_get eff d of
          None \<Rightarrow> r
        | Some x \<Rightarrow> x\<lparr>dl_provider_ref := dl_provider_ref r, dl_status := dl_status r,
            dl_accepted_at := dl_accepted_at r\<rparr>)
      else send_get eff d)"
proof (cases "dl_effect_id r \<in> set (map dr_effect_id (t_deliveries d))")
  case True
  then obtain x where x: "tbl_get dr_effect_id (dl_effect_id r) (t_deliveries d) = Some x"
    using tbl_get_ex by metis
  show ?thesis
  proof (cases "eff = dl_effect_id r")
    case eq: True
    have "dr_effect_id x = dl_effect_id r" using tbl_get_SomeD [OF x] by simp
    then show ?thesis using True x eq
      by (simp add: send_get_def send_settle_def Let_def tbl_get_update delivery_of_row_def)
  next
    case ne: False
    have "map_option (\<lambda>y. if dr_effect_id y = dl_effect_id r then f y else y)
        (tbl_get dr_effect_id eff (t_deliveries d)) = tbl_get dr_effect_id eff (t_deliveries d)" for f
      by (cases "tbl_get dr_effect_id eff (t_deliveries d)") (use ne tbl_get_SomeD in fastforce)+
    then show ?thesis using True ne by (simp add: send_get_def send_settle_def Let_def tbl_get_update)
  qed
next
  case False
  then have "tbl_get dr_effect_id (dl_effect_id r) (t_deliveries d) = None" by (simp add: tbl_get_None_iff)
  then show ?thesis using False
    by (cases "tbl_get dr_effect_id eff (t_deliveries d)")
      (auto simp: send_get_def send_settle_def Let_def tbl_get_append tbl_get_Cons delivery_of_row_def)
qed

lemma settle_match: "receipts_match d \<Longrightarrow> receipts_match (send_settle r err now d)"
proof -
  assume m: "receipts_match d"
  have T: "t_sends (send_settle r err now d) = tbl_update (\<lambda>x. es_effect_id x = dl_effect_id r)
      (\<lambda>x. x\<lparr>es_state := dl_status r, es_provider_ref := dl_provider_ref r,
        es_error_code := err, es_updated_at := now\<rparr>) (t_sends d)"
    by (simp add: send_settle_def Let_def)
  have "\<exists>q. send_get (es_effect_id x) (send_settle r err now d) = Some q \<and> dl_status q = es_state x"
    if "x \<in> set (t_sends (send_settle r err now d))" "es_state x \<noteq> Se_pending" for x
  proof (cases "es_effect_id x = dl_effect_id r")
    case True
    then have "es_state x = dl_status r" using that(1) unfolding T by (auto simp: set_tbl_update split: if_splits)
    then show ?thesis using True by (auto simp: send_get_settle split: option.splits)
  next
    case False
    then have "x \<in> set (t_sends d)" using that(1) unfolding T by (auto simp: set_tbl_update split: if_splits)
    then show ?thesis using m that(2) False by (auto simp: receipts_match_def send_get_settle)
  qed
  then show ?thesis using m settle_sends [of r err now d] by (auto simp: receipts_match_def)
qed

lemma begin_match: "receipts_match d \<Longrightarrow> receipts_match (snd (send_begin eff appr b sha mid now d))"
  by (cases rule: send_begin_cases [of eff d appr b sha mid now])
    (auto simp: receipts_match_def new_send_def send_get_def)

text \<open>The row an activation leaves active: a new one, or the row of the same identity and revision.\<close>

definition stands_for :: "email_binding \<Rightarrow> email_binding \<Rightarrow> bool" where
  "stands_for b c \<longleftrightarrow> em_identity_id c = em_identity_id b \<and> em_revision c = em_revision b \<and>
     em_provider c = em_provider b \<and> py_lower (em_address c) = py_lower (em_address b)"

lemma activated_new:
  assumes "one_active d" "find (row_key (em_identity_id b) (em_revision b)) (t_bindings d) = None"
    "t_bindings d' = tbl_update (\<lambda>r. eb_state r = Bs_active \<and> \<not> row_key (em_identity_id b) (em_revision b) r)
       (\<lambda>r. r\<lparr>eb_state := Bs_superseded, eb_updated_at := now\<rparr>) (t_bindings d) @ [new_binding_row b now]"
  shows "one_active d' \<and> map identity (t_bindings d') = map identity (t_bindings d) @ [identity (new_binding_row b now)] \<and>
    (\<exists>c. binding_current d' = Some c \<and> stands_for b c)"
proof -
  let ?K = "row_key (em_identity_id b) (em_revision b)"
  let ?T = "tbl_update (\<lambda>r. eb_state r = Bs_active \<and> \<not> ?K r)
    (\<lambda>r. r\<lparr>eb_state := Bs_superseded, eb_updated_at := now\<rparr>) (t_bindings d)"
  have ids: "map identity ?T = map identity (t_bindings d)" by (simp add: identity_def)
  have none: "\<forall>r \<in> set (t_bindings d). \<not> ?K r" using assms(2) by (simp add: find_None_all)
  have fil: "filter (\<lambda>r. eb_state r = Bs_active) ?T = []"
    unfolding supersede_actives using none by (simp add: filter_empty_conv)
  then have "find (\<lambda>r. eb_state r = Bs_active) ?T = None" by (simp add: find_None_all filter_empty_conv)
  then have "find (\<lambda>r. eb_state r = Bs_active) (t_bindings d') = Some (new_binding_row b now)"
    unfolding assms(3) by (simp add: find_append_case new_binding_row_def)
  then have cur: "binding_current d' = Some (binding_of_row (new_binding_row b now))"
    by (simp add: binding_current_def)
  have "distinct (map (\<lambda>r. (eb_identity_id r, eb_revision r)) (t_bindings d'))"
    using assms(1) none identity_keys [OF ids] unfolding assms(3)
    by (auto simp: one_active_def new_binding_row_def row_key_def)
  then have "one_active d'" using fil assms(3) by (simp add: one_active_def new_binding_row_def)
  then show ?thesis
    using cur ids assms(3) by (simp add: stands_for_def binding_of_row_def new_binding_row_def)
qed

lemma reactivate_actives:
  assumes "\<And>x. K (act x) = K x" "\<And>x. eb_state (act x) = Bs_active" "\<And>x. eb_state (old x) = Bs_superseded"
    "\<And>x. K (old x) = K x"
  shows "filter (\<lambda>r. eb_state r = Bs_active) (tbl_update K act (tbl_update (\<lambda>r. eb_state r = Bs_active \<and> \<not> K r) old T)) =
    filter K (tbl_update K act (tbl_update (\<lambda>r. eb_state r = Bs_active \<and> \<not> K r) old T))"
  using assms by (induction T) auto

lemma find_of_filter: "filter P xs = x # ys \<Longrightarrow> find P xs = Some x"
  by (induction xs) (auto split: if_splits)

lemma only_element: "x \<in> set l \<Longrightarrow> length l \<le> 1 \<Longrightarrow> l = [x]"
  by (cases l) auto

lemma activated_again:
  assumes "one_active d" "find (row_key (em_identity_id b) (em_revision b)) (t_bindings d) = Some r" "same_binding r b"
    "t_bindings d' = tbl_update (row_key (em_identity_id b) (em_revision b))
       (\<lambda>r. r\<lparr>eb_state := Bs_active, eb_updated_at := now\<rparr>)
       (tbl_update (\<lambda>r. eb_state r = Bs_active \<and> \<not> row_key (em_identity_id b) (em_revision b) r)
         (\<lambda>r. r\<lparr>eb_state := Bs_superseded, eb_updated_at := now\<rparr>) (t_bindings d))"
  shows "one_active d' \<and> map identity (t_bindings d') = map identity (t_bindings d) \<and>
    (\<exists>c. binding_current d' = Some c \<and> stands_for b c)"
proof -
  let ?K = "row_key (em_identity_id b) (em_revision b)"
  let ?A = "\<lambda>r. eb_state r = Bs_active"
  have ids: "map identity (t_bindings d') = map identity (t_bindings d)"
    unfolding assms(4) by (simp add: identity_def)
  have keys: "distinct (map (\<lambda>r. (eb_identity_id r, eb_revision r)) (t_bindings d))"
    using assms(1) by (simp add: one_active_def)
  then have dU: "distinct (map (\<lambda>r. (eb_identity_id r, eb_revision r)) (t_bindings d'))"
    by (simp only: identity_keys [OF ids])
  have fil: "filter ?A (t_bindings d') = filter ?K (t_bindings d')"
    unfolding assms(4) by (rule reactivate_actives) (simp_all add: row_key_def)
  have one: "one_active d'" using dU fil key_unique [OF dU] by (simp add: one_active_def)
  have "identity r \<in> set (map identity (t_bindings d'))"
    unfolding ids using find_Some_mem [OF assms(2)] by simp
  then obtain x where x: "x \<in> set (t_bindings d')" "identity x = identity r" by auto
  then have xK: "?K x" using find_Some_mem [OF assms(2)] by (simp add: row_key_def identity_def)
  then have "filter ?A (t_bindings d') = [x]"
    unfolding fil by (intro only_element key_unique [OF dU]) (use x(1) xK in simp)
  then have "find ?A (t_bindings d') = Some x"
    by (rule find_of_filter)
  then show ?thesis
    using one ids x(2) xK assms(3)
    by (simp add: binding_current_def stands_for_def binding_of_row_def same_binding_def row_key_def identity_def)
qed

section \<open>Properties\<close>

text \<open>
  One sender address.  A successful activation leaves exactly one active binding, the one
  asked for (its address up to case), which \<open>require_current\<close> then returns for exactly this
  identity and revision; an earlier row keeps its identity, revision, provider, address and
  secrets forever; a refused activation changes nothing.
\<close>

theorem activation_leaves_one_sender:
  assumes "binding_activate b now d = (res, d')" "one_active d"
  shows "one_active d' \<and>
    (\<exists>rest. map identity (t_bindings d') = map identity (t_bindings d) @ rest) \<and>
    (case res of
       Inl e \<Rightarrow> d' = d
     | Inr b' \<Rightarrow> b' = b \<and> (\<exists>c. binding_current d' = Some c \<and>
         em_identity_id c = em_identity_id b \<and> em_revision c = em_revision b \<and>
         em_provider c = em_provider b \<and> py_lower (em_address c) = py_lower (em_address b) \<and>
         (\<forall>i rv. require_current i rv d' =
            (if i = em_identity_id b \<and> rv = em_revision b then Inr c else Inl Binding_revision_changed))))"
proof (cases rule: activate_cases [of b now d])
  case (refused e)
  then show ?thesis using assms by auto
next
  case new
  then have d': "t_bindings d' = t_bindings (snd (binding_activate b now d))" "res = Inr b"
    using assms(1) by auto
  note act = activated_new [OF assms(2) new(1) d'(1) [unfolded new(3), simplified]]
  show ?thesis using act unfolding d'(2) sum.case
    by (auto simp: stands_for_def require_current_def)
next
  case (again r)
  then have d': "t_bindings d' = t_bindings (snd (binding_activate b now d))" "res = Inr b"
    using assms(1) by auto
  note act = activated_again [OF assms(2) again(1,2) d'(1) [unfolded again(4), simplified]]
  show ?thesis using act unfolding d'(2) sum.case
    by (auto simp: stands_for_def require_current_def)
qed

theorem activation_leaves_one_sender_witness:
  "\<exists>d'. binding_activate \<lparr>em_identity_id = ''i'', em_revision = 1, em_provider = ''p'',
     em_address = ''a@b.co'', em_provider_ref = None, em_secret_names = []\<rparr> 5 empty_db =
     (Inr \<lparr>em_identity_id = ''i'', em_revision = 1, em_provider = ''p'',
     em_address = ''a@b.co'', em_provider_ref = None, em_secret_names = []\<rparr>, d') \<and>
     one_active d' \<and> require_current ''i'' 2 d' = Inl Binding_revision_changed"
proof -
  let ?b = "\<lparr>em_identity_id = ''i'', em_revision = 1, em_provider = ''p'',
     em_address = ''a@b.co'', em_provider_ref = None, em_secret_names = []\<rparr>"
  obtain d' where a: "binding_activate ?b 5 empty_db = (Inr ?b, d')"
    by (simp add: binding_activate_def write_tx_def Let_def)
  have "one_active empty_db" by (simp add: one_active_def)
  from activation_leaves_one_sender [OF a this] a show ?thesis by fastforce
qed

end
