(* ===== verification/EmailSend.thy ===== *)
theory EmailSend
  imports EmailStore
begin

text \<open>
  \<open>hermes_cloud/execute/email_send.py\<close>: the one action that cannot be taken back.  The mail
  provider or SMTP server, the MIME text \<open>EmailMessage.as_bytes\<close> renders, SHA-256 and
  \<open>base64.b64decode\<close> are parameters; \<open>'w\<close> is the outside world the backend acts on.
\<close>

section \<open>Letters\<close>

definition max_subject :: nat where "max_subject = 200"
definition max_body :: nat where "max_body = 20000"
definition max_attachment_bytes :: nat where "max_attachment_bytes = 10 * 1024 * 1024"
definition max_attachment_total_bytes :: nat where "max_attachment_total_bytes = 20 * 1024 * 1024"
definition max_attachment_count :: nat where "max_attachment_count = 10"

definition allowed_attachment_types :: "string set" where
  "allowed_attachment_types = {''application/pdf'', ''image/jpeg'', ''image/png'', ''text/plain''}"

datatype send_exn =
    Egress_blocked
  | Rejected string
  | Outcome_unknown string
  | Binding_changed
  | Bad_value
  | Backend_error string

fun exn_name :: "send_exn \<Rightarrow> string" where
  "exn_name Egress_blocked = ''EgressBlocked''"
| "exn_name (Rejected _) = ''EmailRejected''"
| "exn_name (Outcome_unknown _) = ''EmailOutcomeUnknown''"
| "exn_name Binding_changed = ''EmailBindingChanged''"
| "exn_name Bad_value = ''ValueError''"
| "exn_name (Backend_error n) = n"

record attachment =
  oa_filename :: string
  oa_content_type :: string
  oa_content_base64 :: string

record outgoing =
  og_to :: string
  og_subject :: string
  og_body :: string
  og_in_reply_to :: "string option"
  og_references :: "string option"
  og_from_identity_id :: "string option"
  og_binding_revision :: "int option"
  og_from_address :: "string option"
  og_attachments :: "attachment list"

definition attachment_from_payload :: "json \<Rightarrow> attachment" where
  "attachment_from_payload p =
     \<lparr>oa_filename = jtext p ''filename'', oa_content_type = py_lower (jtext p ''content_type''),
      oa_content_base64 = jtext p ''content_base64''\<rparr>"

definition is_obj :: "json \<Rightarrow> bool" where
  "is_obj v = (case v of JObj _ \<Rightarrow> True | _ \<Rightarrow> False)"

text \<open>\<open>payload.get("attachments", ())\<close>: an absent key is an empty list, \<open>null\<close> is refused.\<close>

definition attachment_items :: "json \<Rightarrow> send_exn + json list" where
  "attachment_items p =
     (case (case p of JObj d \<Rightarrow> map_of d ''attachments'' | _ \<Rightarrow> None) of
        None \<Rightarrow> Inr []
      | Some (JArr xs) \<Rightarrow> if list_all is_obj xs then Inr xs else Inl (Rejected ''attachments'')
      | Some _ \<Rightarrow> Inl (Rejected ''attachments''))"

definition outgoing_from_payload :: "json \<Rightarrow> send_exn + outgoing" where
  "outgoing_from_payload p =
     (case attachment_items p of
        Inl e \<Rightarrow> Inl e
      | Inr xs \<Rightarrow>
         (let letter = (\<lambda>rv. \<lparr>og_to = jtext p ''to'', og_subject = jtext p ''subject'',
                og_body = jtext p ''body'', og_in_reply_to = jtext_or_none p ''in_reply_to'',
                og_references = jtext_or_none p ''references'',
                og_from_identity_id = jtext_or_none p ''from_identity_id'',
                og_binding_revision = rv, og_from_address = jtext_or_none p ''from_address'',
                og_attachments = map attachment_from_payload xs\<rparr>)
          in case jget p ''binding_revision'' of
               JNull \<Rightarrow> Inr (letter None)
             | JInt n \<Rightarrow> Inr (letter (Some n))
             | _ \<Rightarrow> Inl Bad_value))"

text \<open>
  The address pattern: one \<open>@\<close>, no white space, comma, semicolon or angle bracket, and a last
  label of at least two ASCII letters behind a dot.  \<open>$\<close> also matches before a final line feed.
\<close>

definition is_ascii_alpha :: "char \<Rightarrow> bool" where
  "is_ascii_alpha c = (let n = of_char c :: nat in (65 \<le> n \<and> n \<le> 90) \<or> (97 \<le> n \<and> n \<le> 122))"

definition address_char :: "char \<Rightarrow> bool" where
  "address_char c \<longleftrightarrow> \<not> is_space c \<and> c \<notin> {CHR ''@'', CHR '','', CHR '';'', CHR ''<'', CHR ''>''}"

definition matches_address :: "string \<Rightarrow> bool" where
  "matches_address s =
     (let body = (if s \<noteq> [] \<and> last s = CHR 0x0A then butlast s else s);
          local = takeWhile (\<lambda>c. c \<noteq> CHR ''@'') body;
          domain = drop (length local + 1) body;
          tld = takeWhile (\<lambda>c. c \<noteq> CHR ''.'') (rev domain);
          label = drop (length tld + 1) (rev domain)
      in length local < length body \<and> local \<noteq> [] \<and> list_all address_char local \<and>
         list_all address_char domain \<and> length tld < length domain \<and> label \<noteq> [] \<and>
         2 \<le> length tld \<and> list_all is_ascii_alpha tld)"

definition has_newline :: "string \<Rightarrow> bool" where
  "has_newline s \<longleftrightarrow> CHR 0x0A \<in> set s \<or> CHR 0x0D \<in> set s"

definition opt_str :: "string option \<Rightarrow> string" where
  "opt_str s = (case s of None \<Rightarrow> [] | Some t \<Rightarrow> t)"

fun check_attachments :: "(string \<Rightarrow> string option) \<Rightarrow> attachment list \<Rightarrow> nat \<Rightarrow> send_exn + nat" where
  "check_attachments b64 [] bytes = Inr bytes"
| "check_attachments b64 (a # as) bytes =
     (let name = oa_filename a in
      if name = [] \<or> name = ''.'' \<or> name = ''..'' \<or> CHR ''/'' \<in> set name \<or> CHR 0x5C \<in> set name \<or>
         has_newline name then Inl (Rejected ''attachment name'')
      else if oa_content_type a \<notin> allowed_attachment_types then Inl (Rejected ''attachment type'')
      else case b64 (oa_content_base64 a) of
          None \<Rightarrow> Inl (Rejected ''attachment base64'')
        | Some content \<Rightarrow>
            if content = [] \<or> length content > max_attachment_bytes
            then Inl (Rejected ''attachment size'')
            else check_attachments b64 as (bytes + length content))"

definition validate :: "(string \<Rightarrow> string option) \<Rightarrow> outgoing \<Rightarrow> send_exn + unit" where
  "validate b64 l =
     (if \<not> matches_address (og_to l) then Inl (Rejected ''to'')
      else if has_newline (og_to l) \<or> has_newline (og_subject l) \<or> has_newline (opt_str (og_in_reply_to l))
        then Inl (Rejected ''header injection'')
      else if py_strip (og_subject l) = [] then Inl (Rejected ''subject'')
      else if length (og_subject l) > max_subject then Inl (Rejected ''subject length'')
      else if py_strip (og_body l) = [] then Inl (Rejected ''body'')
      else if length (og_body l) > max_body then Inl (Rejected ''body length'')
      else if length (og_attachments l) > max_attachment_count then Inl (Rejected ''attachment count'')
      else case check_attachments b64 (og_attachments l) 0 of
          Inl e \<Rightarrow> Inl e
        | Inr bytes \<Rightarrow> if bytes > max_attachment_total_bytes then Inl (Rejected ''attachment total'')
                      else Inr ())"

definition message_id_for :: "uid \<Rightarrow> string" where
  "message_id_for a = ''<hermes-'' @ a @ ''@hermes-cloud.invalid>''"

section \<open>Sending\<close>

record 'w backend =
  bk_provider :: bool
  bk_idempotent :: bool
  bk_send :: "send_request \<Rightarrow> 'w \<Rightarrow> (send_exn + delivery) \<times> 'w"
  bk_smtp :: "string \<Rightarrow> string \<Rightarrow> 'w \<Rightarrow> (send_exn + unit) \<times> 'w"
  bk_reconcile :: "send_request \<Rightarrow> 'w \<Rightarrow> (send_exn + delivery) \<times> 'w"

text \<open>
  The environment of one call: the kill switch, the sender's own binding, which stores it was
  built with, the MIME renderer, hash and base64, and the clock.
\<close>

record send_env =
  sv_switch :: "string option"
  sv_binding :: email_binding
  sv_binding_store :: bool
  sv_send_store :: bool
  sv_render :: "outgoing \<Rightarrow> string \<Rightarrow> uid \<Rightarrow> send_exn + string"
  sv_hash :: "string \<Rightarrow> string"
  sv_b64 :: "string \<Rightarrow> string option"
  sv_now :: time

definition build_message :: "send_env \<Rightarrow> outgoing \<Rightarrow> string \<Rightarrow> uid \<Rightarrow> send_exn + string" where
  "build_message env l sender eff =
     (case validate (sv_b64 env) l of Inl e \<Rightarrow> Inl e | Inr _ \<Rightarrow> sv_render env l sender eff)"

definition resolve_binding :: "send_env \<Rightarrow> outgoing \<Rightarrow> db \<Rightarrow> send_exn + email_binding" where
  "resolve_binding env l d =
     (let i = (case str_or_none (og_from_identity_id l) of None \<Rightarrow> em_identity_id (sv_binding env) | Some x \<Rightarrow> x);
          rv = (case og_binding_revision l of None \<Rightarrow> em_revision (sv_binding env)
                | Some n \<Rightarrow> if n = 0 then em_revision (sv_binding env) else n)
      in if sv_binding_store env then
           (case require_current i rv d of Inl _ \<Rightarrow> Inl Binding_changed | Inr b \<Rightarrow> Inr b)
         else if i \<noteq> em_identity_id (sv_binding env) \<or> rv \<noteq> em_revision (sv_binding env)
           then Inl Binding_changed
         else Inr (sv_binding env))"

definition receipt_of :: "send_request \<Rightarrow> send_state \<Rightarrow> time option \<Rightarrow> delivery" where
  "receipt_of q st acc =
     \<lparr>dl_effect_id = rq_effect_id q, dl_approval_id = rq_approval_id q,
      dl_message_id = rq_message_id q, dl_provider_ref = None, dl_accepted_at = acc, dl_status = st\<rparr>"

definition same_request :: "delivery \<Rightarrow> send_request \<Rightarrow> bool" where
  "same_request r q \<longleftrightarrow> dl_effect_id r = rq_effect_id q \<and> dl_approval_id r = rq_approval_id q \<and>
     dl_message_id r = rq_message_id q"

definition settle_if :: "send_env \<Rightarrow> delivery \<Rightarrow> string option \<Rightarrow> db \<Rightarrow> db" where
  "settle_if env r err d = (if sv_send_store env then send_settle r err (sv_now env) d else d)"

text \<open>A request found pending: a provider that can reconcile is asked, never told to send.\<close>

definition replay_pending ::
  "send_env \<Rightarrow> 'w backend \<Rightarrow> send_request \<Rightarrow> 'w \<Rightarrow> db \<Rightarrow> (send_exn + delivery) \<times> 'w \<times> db" where
  "replay_pending env be q w d =
     (if bk_provider be \<and> bk_idempotent be then
        (case bk_reconcile be q w of
           (Inl e, w1) \<Rightarrow>
             (case e of
                Outcome_unknown _ \<Rightarrow>
                  (Inl (Outcome_unknown ''reconcile''), w1,
                   settle_if env (receipt_of q Se_outcome_unknown None) None d)
              | _ \<Rightarrow>
                  (Inl (Outcome_unknown ''reconcile''), w1,
                   settle_if env (receipt_of q Se_outcome_unknown None) (Some (exn_name e)) d))
         | (Inr r, w1) \<Rightarrow>
             if \<not> same_request r q then
               (Inl (Rejected ''mismatched receipt''), w1,
                settle_if env (receipt_of q Se_failed None) (Some ''mismatched_receipt'') d)
             else
               (let d1 = settle_if env r None d
                in if dl_status r = Se_accepted then (Inr r, w1, d1)
                   else if dl_status r = Se_outcome_unknown
                     then (Inl (Outcome_unknown ''reconcile''), w1, d1)
                   else (Inl (Rejected ''reconcile''), w1, d1)))
      else
        (Inl (Outcome_unknown ''interrupted''), w,
         settle_if env (receipt_of q Se_outcome_unknown None) (Some ''interrupted_before_receipt'') d))"

text \<open>The \<open>try\<close> block around the transport.\<close>

definition transport :: "send_env \<Rightarrow> 'w backend \<Rightarrow> send_request \<Rightarrow> 'w \<Rightarrow> (send_exn + delivery) \<times> 'w" where
  "transport env be q w =
     (if bk_provider be then
        (case bk_send be q w of
           (Inl e, w1) \<Rightarrow> (Inl e, w1)
         | (Inr r, w1) \<Rightarrow>
             if \<not> same_request r q then (Inl (Rejected ''mismatched receipt''), w1)
             else if dl_status r = Se_outcome_unknown then (Inl (Outcome_unknown ''provider''), w1)
             else if dl_status r \<noteq> Se_accepted then (Inl (Rejected ''provider''), w1)
             else (Inr r, w1))
      else
        (case bk_smtp be (rq_message_id q) (rq_mime q) w of
           (Inl e, w1) \<Rightarrow> (Inl e, w1)
         | (Inr _, w1) \<Rightarrow> (Inr (receipt_of q Se_accepted (Some (sv_now env))), w1)))"

definition deliver ::
  "send_env \<Rightarrow> 'w backend \<Rightarrow> send_request \<Rightarrow> 'w \<Rightarrow> db \<Rightarrow> (send_exn + delivery) \<times> 'w \<times> db" where
  "deliver env be q w d =
     (case transport env be q w of
        (Inr r, w1) \<Rightarrow> (Inr r, w1, settle_if env r None d)
      | (Inl (Outcome_unknown m), w1) \<Rightarrow>
          if bk_provider be \<and> bk_idempotent be then
            (let unknown = (\<lambda>name w2. (Inl (Outcome_unknown ''reconcile''), w2,
                   settle_if env (receipt_of q Se_outcome_unknown None) (Some name) d))
             in case bk_reconcile be q w1 of
                  (Inl e, w2) \<Rightarrow> unknown (exn_name e) w2
                | (Inr r, w2) \<Rightarrow>
                    if \<not> same_request r q \<or> dl_status r \<noteq> Se_accepted
                    then unknown ''EmailOutcomeUnknown'' w2
                    else (Inr r, w2, settle_if env r None d))
          else (Inl (Outcome_unknown m), w1,
                settle_if env (receipt_of q Se_outcome_unknown None) (Some ''transport_unknown'') d)
      | (Inl e, w1) \<Rightarrow>
          (Inl e, w1, settle_if env (receipt_of q Se_failed None) (Some (exn_name e)) d))"

definition prepare :: "send_env \<Rightarrow> outgoing \<Rightarrow> uid \<Rightarrow> uid option \<Rightarrow> db \<Rightarrow> send_exn + send_request" where
  "prepare env l appr effect d =
     (if sv_switch env \<noteq> Some ''1'' then Inl Egress_blocked
      else
        let eff = (case str_or_none effect of None \<Rightarrow> appr | Some e \<Rightarrow> e)
        in case resolve_binding env l d of
             Inl e \<Rightarrow> Inl e
           | Inr b \<Rightarrow>
               if (case str_or_none (og_from_address l) of None \<Rightarrow> False
                   | Some a \<Rightarrow> py_lower a \<noteq> py_lower (em_address b)) then Inl Binding_changed
               else case build_message env l (em_address b) eff of
                   Inl e \<Rightarrow> Inl e
                 | Inr raw \<Rightarrow> Inr \<lparr>rq_effect_id = eff, rq_approval_id = appr, rq_binding = b,
                       rq_message_id = message_id_for eff, rq_mime = raw,
                       rq_sha256 = sv_hash env raw\<rparr>)"

definition email_send ::
  "send_env \<Rightarrow> 'w backend \<Rightarrow> outgoing \<Rightarrow> uid \<Rightarrow> uid option \<Rightarrow> 'w \<Rightarrow> db \<Rightarrow> (send_exn + delivery) \<times> 'w \<times> db" where
  "email_send env be l appr effect w d =
     (case prepare env l appr effect d of
        Inl e \<Rightarrow> (Inl e, w, d)
      | Inr q \<Rightarrow>
          if \<not> sv_send_store env then deliver env be q w d
          else
            (case send_begin (rq_effect_id q) appr (rq_binding q) (rq_sha256 q) (rq_message_id q)
                    (sv_now env) d of
               (Inl _, d1) \<Rightarrow> (Inl Bad_value, w, d1)
             | (Inr (previous, fresh), d1) \<Rightarrow>
                 if fresh then deliver env be q w d1
                 else
                   (case send_get (rq_effect_id q) d1 of
                      Some r \<Rightarrow>
                        if dl_status r = Se_outcome_unknown
                          then (Inl (Outcome_unknown ''previous''), w, d1)
                        else if dl_status r = Se_accepted then (Inr r, w, d1)
                        else (Inl (Rejected ''previous''), w, d1)
                    | None \<Rightarrow>
                        if previous = Se_pending then replay_pending env be q w d1
                        else deliver env be q w d1)))"

definition notice_approval_id :: string where "notice_approval_id = ''system-notice''"

definition send_notice ::
  "send_env \<Rightarrow> 'w backend \<Rightarrow> outgoing \<Rightarrow> uid \<Rightarrow> 'w \<Rightarrow> db \<Rightarrow> (send_exn + delivery) \<times> 'w \<times> db" where
  "send_notice env be l notice = email_send env be l notice_approval_id (Some notice)"

section \<open>Lemmas\<close>

text \<open>A log of the message ids handed to the transport; asking again is not handing over.\<close>

definition backend_logs :: "('w \<Rightarrow> string list) \<Rightarrow> 'w backend \<Rightarrow> bool" where
  "backend_logs handed be \<longleftrightarrow>
     (\<forall>q w. handed (snd (bk_send be q w)) = handed w @ [rq_message_id q]) \<and>
     (\<forall>m raw w. handed (snd (bk_smtp be m raw w)) = handed w @ [m]) \<and>
     (\<forall>q w. handed (snd (bk_reconcile be q w)) = handed w)"

lemma message_id_inj: "message_id_for a = message_id_for b \<longleftrightarrow> a = b"
  by (simp add: message_id_for_def)

lemma settle_if_ids [simp]:
  "map es_effect_id (t_sends (settle_if env r err d)) = map es_effect_id (t_sends d)"
  by (simp add: settle_if_def settle_sends)

lemma settle_if_get:
  assumes "sv_send_store env" "tbl_get es_effect_id (dl_effect_id r) (t_sends d) = Some x"
  shows "\<exists>row. tbl_get es_effect_id (dl_effect_id r) (t_sends (settle_if env r err d)) = Some row \<and>
    es_state row = dl_status r"
proof -
  have "es_effect_id x = dl_effect_id r" using tbl_get_SomeD [OF assms(2)] by simp
  then show ?thesis
    using assms by (simp add: settle_if_def send_settle_def Let_def tbl_get_update)
qed

lemma settle_if_match: "receipts_match d \<Longrightarrow> receipts_match (settle_if env r err d)"
  by (simp add: settle_if_def settle_match)

lemma transport_log:
  assumes "backend_logs handed be"
  shows "handed (snd (transport env be q w)) = handed w @ [rq_message_id q]"
proof -
  obtain r1 w1 where 1: "bk_send be q w = (r1, w1)" by fastforce
  obtain r2 w2 where 2: "bk_smtp be (rq_message_id q) (rq_mime q) w = (r2, w2)" by fastforce
  have "handed w1 = handed w @ [rq_message_id q]" "handed w2 = handed w @ [rq_message_id q]"
    using assms 1 2 unfolding backend_logs_def by (metis snd_conv)+
  then show ?thesis using 1 2 by (simp add: transport_def split: sum.splits)
qed

text \<open>\<open>deliver\<close> hands over once and settles the effect on every path.\<close>

lemma transport_accepted:
  "transport env be q w = (Inr r, w1) \<Longrightarrow> dl_status r = Se_accepted \<and> same_request r q"
  by (auto simp: transport_def same_request_def receipt_of_def split: if_splits prod.splits sum.splits)

lemma deliver_cases:
  obtains r err w' res where "deliver env be q w d = (res, w', settle_if env r err d)"
    "dl_effect_id r = rq_effect_id q" "dl_status r \<noteq> Se_pending"
    "res = Inr r \<and> dl_status r = Se_accepted \<or> (\<exists>e. res = Inl e) \<and> dl_status r \<noteq> Se_accepted"
    "w' = snd (transport env be q w) \<or> w' = snd (bk_reconcile be q (snd (transport env be q w)))"
proof -
  obtain t w1 where t: "transport env be q w = (t, w1)" by fastforce
  have rec: "dl_effect_id (receipt_of q st a) = rq_effect_id q" "dl_status (receipt_of q st a) = st" for st a
    by (simp_all add: receipt_of_def)
  show thesis
  proof (cases t)
    case (Inr r)
    then have "dl_status r = Se_accepted" "dl_effect_id r = rq_effect_id q"
      using transport_accepted t by (fastforce simp: same_request_def)+
    moreover have "deliver env be q w d = (Inr r, w1, settle_if env r None d)"
      using t Inr by (simp add: deliver_def)
    ultimately show thesis using that t by simp
  next
    case (Inl e)
    show thesis
    proof (cases "\<exists>m. e = Outcome_unknown m")
      case False
      then have "deliver env be q w d =
          (Inl e, w1, settle_if env (receipt_of q Se_failed None) (Some (exn_name e)) d)"
        using t Inl by (cases e) (simp_all add: deliver_def)
      then show thesis using that rec t by simp
    next
      case True
      then obtain m where m: "e = Outcome_unknown m" by blast
      show thesis
      proof (cases "bk_provider be \<and> bk_idempotent be")
        case False
        then have "deliver env be q w d = (Inl e, w1,
            settle_if env (receipt_of q Se_outcome_unknown None) (Some ''transport_unknown'') d)"
          using t Inl m by (auto simp: deliver_def)
        then show thesis using that rec t by simp
      next
        case rc: True
        obtain k w2 where k: "bk_reconcile be q w1 = (k, w2)" by fastforce
        show thesis
        proof (cases "\<exists>r. k = Inr r \<and> same_request r q \<and> dl_status r = Se_accepted")
          case True
          then obtain r where r: "k = Inr r" "same_request r q" "dl_status r = Se_accepted" by blast
          then have "deliver env be q w d = (Inr r, w2, settle_if env r None d)"
            using t Inl m rc k by (simp add: deliver_def Let_def)
          then show thesis using that r t k by (simp add: same_request_def)
        next
          case False
          then have "\<exists>name. deliver env be q w d = (Inl (Outcome_unknown ''reconcile''), w2,
              settle_if env (receipt_of q Se_outcome_unknown None) (Some name) d)"
            using t Inl m rc k by (auto simp: deliver_def Let_def split: sum.splits)
          then show thesis using that rec t k by fastforce
        qed
      qed
    qed
  qed
qed

lemma deliver_log:
  assumes "backend_logs handed be" "deliver env be q w d = (res, w', d')"
  shows "handed w' = handed w @ [rq_message_id q]"
proof -
  have "handed (snd (bk_reconcile be q v)) = handed v" for v using assms(1) by (simp add: backend_logs_def)
  then show ?thesis
    by (cases rule: deliver_cases [of env be q w d]) (use assms transport_log [OF assms(1)] in auto)
qed

lemma replay_frame:
  assumes "backend_logs handed be" "replay_pending env be q w d = (res, w', d')"
  shows "handed w' = handed w" "\<exists>r err. d' = settle_if env r err d"
proof -
  have rec: "handed (snd (bk_reconcile be q w)) = handed w" using assms(1) by (simp add: backend_logs_def)
  show "handed w' = handed w"
    using assms(2) rec by (auto simp: replay_pending_def Let_def split: if_splits prod.splits sum.splits
        send_exn.splits)
  show "\<exists>r err. d' = settle_if env r err d"
    using assms(2) by (auto simp: replay_pending_def Let_def split: if_splits prod.splits sum.splits
        send_exn.splits)
qed

lemma prepare_Inr:
  assumes "prepare env l appr effect d = Inr q"
  shows "sv_switch env = Some ''1''" "validate (sv_b64 env) l = Inr ()"
    "resolve_binding env l d = Inr (rq_binding q)" "rq_message_id q = message_id_for (rq_effect_id q)"
    "\<And>a. str_or_none (og_from_address l) = Some a \<Longrightarrow> py_lower a = py_lower (em_address (rq_binding q))"
  using assms by (auto simp: prepare_def build_message_def Let_def split: if_splits sum.splits option.splits)

text \<open>One call with a send journal: at most one hand-over, only for an effect that is new.\<close>

lemma email_send_frame:
  assumes "email_send env be l appr effect w d = (res, w', d')"
    and "sv_send_store env" "backend_logs handed be" "receipts_match d"
  shows "receipts_match d' \<and> set (map es_effect_id (t_sends d)) \<subseteq> set (map es_effect_id (t_sends d')) \<and>
    (handed w' = handed w \<or> (\<exists>eff. handed w' = handed w @ [message_id_for eff] \<and>
       eff \<notin> set (map es_effect_id (t_sends d)) \<and> eff \<in> set (map es_effect_id (t_sends d'))))"
proof (cases "prepare env l appr effect d")
  case (Inl e)
  then show ?thesis using assms(1,4) by (simp add: email_send_def)
next
  case (Inr q)
  note mid = prepare_Inr(4) [OF Inr]
  show ?thesis
  proof (cases rule: send_begin_cases [of "rq_effect_id q" d appr "rq_binding q" "rq_sha256 q"
        "rq_message_id q" "sv_now env"])
    case conflict
    then show ?thesis using assms Inr by (simp add: email_send_def)
  next
    case fresh
    let ?d1 = "d\<lparr>t_sends := t_sends d @ [new_send (rq_effect_id q) appr (rq_binding q) (rq_sha256 q)
      (rq_message_id q) (sv_now env)]\<rparr>"
    have del: "deliver env be q w ?d1 = (res, w', d')"
      using assms(1,2) Inr fresh by (simp add: email_send_def)
    have m: "receipts_match ?d1"
      using begin_match [OF assms(4), of "rq_effect_id q" appr "rq_binding q" "rq_sha256 q"
          "rq_message_id q" "sv_now env"] fresh by simp
    obtain r err where d': "d' = settle_if env r err ?d1"
      by (rule deliver_cases [of env be q w ?d1]) (use del in auto)
    have "map es_effect_id (t_sends d') = map es_effect_id (t_sends d) @ [rq_effect_id q]"
      unfolding d' settle_if_ids by (simp add: new_send_def)
    then have "set (map es_effect_id (t_sends d')) = insert (rq_effect_id q) (set (map es_effect_id (t_sends d)))"
      by (simp only: set_append) simp
    then have "rq_effect_id q \<in> set (map es_effect_id (t_sends d'))"
      "set (map es_effect_id (t_sends d)) \<subseteq> set (map es_effect_id (t_sends d'))" by blast+
    moreover have "handed w' = handed w @ [message_id_for (rq_effect_id q)]"
      using deliver_log [OF assms(3) del] mid by simp
    moreover have "receipts_match d'" unfolding d' by (rule settle_if_match [OF m])
    ultimately show ?thesis
      using fresh(1) by (intro conjI disjI2 exI [of _ "rq_effect_id q"])
  next
    case (known row)
    have row: "row \<in> set (t_sends d)" "es_effect_id row = rq_effect_id q"
      using tbl_get_SomeD [OF known(1)] by auto
    show ?thesis
    proof (cases "send_get (rq_effect_id q) d")
      case (Some r)
      then have "w' = w \<and> d' = d" using assms(1,2) Inr known by (auto simp: email_send_def split: if_splits)
      then show ?thesis using assms(4) by simp
    next
      case None
      then have "es_state row = Se_pending" using assms(4) row by (force simp: receipts_match_def)
      then have rp: "replay_pending env be q w d = (res, w', d')"
        using assms(1,2) Inr known None by (simp add: email_send_def)
      obtain r err where "d' = settle_if env r err d" using replay_frame(2) [OF assms(3) rp] by blast
      then show ?thesis using replay_frame(1) [OF assms(3) rp] settle_if_match [OF assms(4)]
        settle_if_ids [of env r err d] by (metis order_refl)
    qed
  qed
qed

section \<open>Histories\<close>

record 'w send_call =
  sl_env :: send_env
  sl_backend :: "'w backend"
  sl_letter :: outgoing
  sl_approval :: uid
  sl_effect :: "uid option"

text \<open>
  A call that ran to its end, or one whose process died: right after the journal entry, between the hand-over
  to the transport and what follows it, or after everything but the write that settles the entry.
\<close>

datatype crash_point = After_entry | After_handover | Before_settling

definition email_send_crashed ::
  "crash_point \<Rightarrow> send_env \<Rightarrow> 'w backend \<Rightarrow> outgoing \<Rightarrow> uid \<Rightarrow> uid option \<Rightarrow> 'w \<Rightarrow> db \<Rightarrow> 'w \<times> db" where
  "email_send_crashed point env be l appr effect w d =
     (case prepare env l appr effect d of
        Inl e \<Rightarrow> (w, d)
      | Inr q \<Rightarrow>
          (case send_begin (rq_effect_id q) appr (rq_binding q) (rq_sha256 q) (rq_message_id q) (sv_now env) d of
             (Inl _, d1) \<Rightarrow> (w, d1)
           | (Inr (previous, fresh), d1) \<Rightarrow>
               (case point of
                  After_entry \<Rightarrow> w
                | After_handover \<Rightarrow> if fresh then snd (transport env be q w) else w
                | Before_settling \<Rightarrow> fst (snd (email_send env be l appr effect w d)), d1)))"

datatype 'w send_event = Send "'w send_call" | Crash crash_point "'w send_call"

fun send_history :: "'w send_event list \<Rightarrow> 'w \<times> db \<Rightarrow> 'w \<times> db" where
  "send_history [] s = s"
| "send_history (Send c # xs) (w, d) =
     send_history xs (snd (email_send (sl_env c) (sl_backend c) (sl_letter c) (sl_approval c) (sl_effect c) w d))"
| "send_history (Crash point c # xs) (w, d) =
     send_history xs (email_send_crashed point (sl_env c) (sl_backend c) (sl_letter c) (sl_approval c) (sl_effect c) w d)"

fun call_of :: "'w send_event \<Rightarrow> 'w send_call" where
  "call_of (Send c) = c"
| "call_of (Crash point c) = c"

definition call_ok :: "('w \<Rightarrow> string list) \<Rightarrow> 'w send_event \<Rightarrow> bool" where
  "call_ok handed x \<longleftrightarrow> sv_send_store (sl_env (call_of x)) \<and> backend_logs handed (sl_backend (call_of x))"

definition journaled :: "('w \<Rightarrow> string list) \<Rightarrow> 'w \<times> db \<Rightarrow> bool" where
  "journaled handed s \<longleftrightarrow> receipts_match (snd s) \<and> distinct (handed (fst s)) \<and>
     set (handed (fst s)) \<subseteq> message_id_for ` set (map es_effect_id (t_sends (snd s)))"

definition hands_over_new :: "('w \<Rightarrow> string list) \<Rightarrow> 'w \<times> db \<Rightarrow> 'w \<times> db \<Rightarrow> bool" where
  "hands_over_new handed s s' \<longleftrightarrow> receipts_match (snd s') \<and>
     set (map es_effect_id (t_sends (snd s))) \<subseteq> set (map es_effect_id (t_sends (snd s'))) \<and>
     (handed (fst s') = handed (fst s) \<or> (\<exists>eff. handed (fst s') = handed (fst s) @ [message_id_for eff] \<and>
        eff \<notin> set (map es_effect_id (t_sends (snd s))) \<and> eff \<in> set (map es_effect_id (t_sends (snd s')))))"

lemma journaled_step:
  assumes "journaled handed s" "hands_over_new handed s s'"
  shows "journaled handed s'"
proof -
  obtain w d w' d' where s: "s = (w, d)" "s' = (w', d')" by fastforce
  have j: "distinct (handed w)" "set (handed w) \<subseteq> message_id_for ` set (map es_effect_id (t_sends d))"
    using assms(1) by (simp_all add: journaled_def s)
  note f = assms(2) [unfolded hands_over_new_def s fst_conv snd_conv]
  have sub: "message_id_for ` set (map es_effect_id (t_sends d)) \<subseteq>
      message_id_for ` set (map es_effect_id (t_sends d'))" using f by (intro image_mono) blast
  have "journaled handed (w', d')"
  proof (cases "handed w' = handed w")
    case True
    then show ?thesis using f j sub unfolding journaled_def fst_conv snd_conv by (metis subset_trans)
  next
    case False
    then obtain eff where eff: "handed w' = handed w @ [message_id_for eff]"
      "eff \<notin> set (map es_effect_id (t_sends d))" "eff \<in> set (map es_effect_id (t_sends d'))"
      using f by blast
    have "message_id_for eff \<notin> set (handed w)"
    proof
      assume "message_id_for eff \<in> set (handed w)"
      then obtain x where "x \<in> set (map es_effect_id (t_sends d))" "message_id_for eff = message_id_for x"
        using j(2) by blast
      then show False using eff(2) message_id_inj by simp
    qed
    then have "distinct (handed w')" using eff(1) j(1) by simp
    moreover have "set (handed w') \<subseteq> message_id_for ` set (map es_effect_id (t_sends d'))"
      unfolding eff(1) using j(2) sub eff(3) by auto
    ultimately show ?thesis using f by (simp add: journaled_def)
  qed
  then show ?thesis by (simp add: s)
qed

lemma crashed_hands_over:
  assumes "sv_send_store env" "backend_logs handed be" "receipts_match d"
  shows "hands_over_new handed (w, d) (email_send_crashed point env be l appr effect w d)"
proof (cases "prepare env l appr effect d")
  case (Inl e)
  then show ?thesis using assms(3) by (simp add: email_send_crashed_def hands_over_new_def)
next
  case (Inr q)
  note mid = prepare_Inr(4) [OF Inr]
  show ?thesis
  proof (cases rule: send_begin_cases [of "rq_effect_id q" d appr "rq_binding q" "rq_sha256 q"
        "rq_message_id q" "sv_now env"])
    case conflict
    then show ?thesis using assms Inr by (simp add: email_send_crashed_def hands_over_new_def)
  next
    case fresh
    let ?d1 = "d\<lparr>t_sends := t_sends d @ [new_send (rq_effect_id q) appr (rq_binding q) (rq_sha256 q)
      (rq_message_id q) (sv_now env)]\<rparr>"
    obtain res w2 d2 where del: "deliver env be q w ?d1 = (res, w2, d2)" using prod_cases3 by blast
    have run: "email_send env be l appr effect w d = (res, w2, d2)"
      using assms(1) Inr fresh del by (simp add: email_send_def)
    have m: "receipts_match ?d1"
      using begin_match [OF assms(3), of "rq_effect_id q" appr "rq_binding q" "rq_sha256 q"
          "rq_message_id q" "sv_now env"] fresh by simp
    have ids: "rq_effect_id q \<notin> set (map es_effect_id (t_sends d))" "rq_effect_id q \<in> set (map es_effect_id (t_sends ?d1))"
        "set (map es_effect_id (t_sends d)) \<subseteq> set (map es_effect_id (t_sends ?d1))"
      using fresh(1) by (auto simp: new_send_def)
    have "\<exists>w1. email_send_crashed point env be l appr effect w d = (w1, ?d1) \<and>
        (handed w1 = handed w \<or> handed w1 = handed w @ [message_id_for (rq_effect_id q)])"
      using fresh Inr run transport_log [OF assms(2), of env q w] deliver_log [OF assms(2) del] mid
      by (cases point) (simp_all add: email_send_crashed_def)
    then show ?thesis using m ids by (auto simp: hands_over_new_def)
  next
    case (known row)
    have row: "row \<in> set (t_sends d)" "es_effect_id row = rq_effect_id q"
      using tbl_get_SomeD [OF known(1)] by auto
    have pending: "es_state row = Se_pending" if "send_get (rq_effect_id q) d = None"
      using assms(3) row that by (force simp: receipts_match_def)
    obtain res w2 d2 where run: "email_send env be l appr effect w d = (res, w2, d2)" using prod_cases3 by blast
    have "handed w2 = handed w"
    proof (cases "send_get (rq_effect_id q) d")
      case (Some r)
      then show ?thesis using run assms(1) Inr known by (auto simp: email_send_def split: if_splits)
    next
      case None
      then have "replay_pending env be q w d = (res, w2, d2)"
        using run assms(1) Inr known pending by (simp add: email_send_def)
      then show ?thesis by (rule replay_frame(1) [OF assms(2)])
    qed
    then have "\<exists>w1. email_send_crashed point env be l appr effect w d = (w1, d) \<and> handed w1 = handed w"
      using Inr known run pending by (cases point) (auto simp: email_send_crashed_def)
    then show ?thesis using assms(3) by (auto simp: hands_over_new_def)
  qed
qed

lemma history_journaled:
  assumes "list_all (call_ok handed) xs" "journaled handed s"
  shows "journaled handed (send_history xs s)"
  using assms
proof (induction xs s rule: send_history.induct)
  case (2 c xs w d)
  obtain res w' d' where e: "email_send (sl_env c) (sl_backend c) (sl_letter c) (sl_approval c)
      (sl_effect c) w d = (res, w', d')" using prod_cases3 by blast
  have ok: "sv_send_store (sl_env c)" "backend_logs handed (sl_backend c)" "receipts_match d"
    using 2(2,3) by (simp_all add: call_ok_def journaled_def)
  have "journaled handed (w', d')"
    by (rule journaled_step [OF 2(3)]) (use email_send_frame [OF e ok] in \<open>simp add: hands_over_new_def\<close>)
  then show ?case using 2 e by simp
next
  case (3 point c xs w d)
  have "sv_send_store (sl_env c)" "backend_logs handed (sl_backend c)" "receipts_match d"
    using 3(2,3) by (simp_all add: call_ok_def journaled_def)
  then have "journaled handed (email_send_crashed point (sl_env c) (sl_backend c) (sl_letter c) (sl_approval c) (sl_effect c) w d)"
    by (rule journaled_step [OF 3(3) crashed_hands_over])
  then show ?case using 3 by (cases "email_send_crashed point (sl_env c) (sl_backend c) (sl_letter c) (sl_approval c) (sl_effect c) w d") simp
qed simp

section \<open>Properties\<close>



text \<open>
  Every hand-over is settled.  A send of a new effect leaves its journal row accepted, failed
  or of unknown outcome, never pending, and the call returns a receipt exactly when the row says
  accepted.
\<close>

theorem new_send_is_settled:
  assumes "email_send env be l appr effect w d = (res, w', d')" "sv_send_store env"
    and "prepare env l appr effect d = Inr q" "rq_effect_id q \<notin> set (map es_effect_id (t_sends d))"
  shows "\<exists>row. tbl_get es_effect_id (rq_effect_id q) (t_sends d') = Some row \<and>
    es_state row \<noteq> Se_pending \<and> (es_state row = Se_accepted \<longleftrightarrow> (\<exists>r. res = Inr r))"
proof (cases rule: send_begin_cases [of "rq_effect_id q" d appr "rq_binding q" "rq_sha256 q"
      "rq_message_id q" "sv_now env"])
  case fresh
  let ?d1 = "d\<lparr>t_sends := t_sends d @ [new_send (rq_effect_id q) appr (rq_binding q) (rq_sha256 q)
    (rq_message_id q) (sv_now env)]\<rparr>"
  have del: "deliver env be q w ?d1 = (res, w', d')"
    using assms(1-3) fresh by (simp add: email_send_def)
  obtain r err where r: "d' = settle_if env r err ?d1" "dl_effect_id r = rq_effect_id q"
    "dl_status r \<noteq> Se_pending" "res = Inr r \<and> dl_status r = Se_accepted \<or> (\<exists>e. res = Inl e) \<and> dl_status r \<noteq> Se_accepted"
    by (rule deliver_cases [of env be q w ?d1]) (use del in auto)
  have "tbl_get es_effect_id (rq_effect_id q) (t_sends ?d1) = Some (new_send (rq_effect_id q) appr
      (rq_binding q) (rq_sha256 q) (rq_message_id q) (sv_now env))"
  proof -
    have "tbl_get es_effect_id (rq_effect_id q) (t_sends d) = None"
      using assms(4) by (simp add: tbl_get_None_iff)
    then show ?thesis by (simp add: tbl_get_append tbl_get_Cons new_send_def)
  qed
  from settle_if_get [OF assms(2) this [folded r(2)], of err]
  have "\<exists>row. tbl_get es_effect_id (rq_effect_id q) (t_sends d') = Some row \<and> es_state row = dl_status r"
    unfolding r(1) r(2) .
  then show ?thesis using r(3,4) by auto
next
  case conflict
  then show ?thesis using assms(4) by simp
next
  case (known row)
  have "tbl_get es_effect_id (rq_effect_id q) (t_sends d) = None"
    using assms(4) by (simp add: tbl_get_None_iff)
  then show ?thesis using known(1) by simp
qed

section \<open>Witnesses\<close>

definition sample_binding :: email_binding where
  "sample_binding = \<lparr>em_identity_id = ''i'', em_revision = 1, em_provider = ''smtp'',
     em_address = ''family@home.org'', em_provider_ref = None, em_secret_names = []\<rparr>"

definition sample_letter :: outgoing where
  "sample_letter = \<lparr>og_to = ''school@city.org'', og_subject = ''Trip'', og_body = ''Yes'',
     og_in_reply_to = None, og_references = None, og_from_identity_id = None,
     og_binding_revision = None, og_from_address = None, og_attachments = []\<rparr>"

definition sample_send_env :: send_env where
  "sample_send_env = \<lparr>sv_switch = Some ''1'', sv_binding = sample_binding, sv_binding_store = False,
     sv_send_store = True, sv_render = (\<lambda>l s e. Inr (s @ og_body l)), sv_hash = (\<lambda>s. s),
     sv_b64 = (\<lambda>s. None), sv_now = 7\<rparr>"

text \<open>An SMTP server that logs the letter and breaks the connection.\<close>

definition sample_backend :: "string list backend" where
  "sample_backend = \<lparr>bk_provider = False, bk_idempotent = False,
     bk_send = (\<lambda>q w. (Inl (Backend_error ''none''), w @ [rq_message_id q])),
     bk_smtp = (\<lambda>m raw w. (Inl (Outcome_unknown ''broken''), w @ [m])),
     bk_reconcile = (\<lambda>q w. (Inl (Backend_error ''none''), w))\<rparr>"

definition sample_call :: "string list send_call" where
  "sample_call = \<lparr>sl_env = sample_send_env, sl_backend = sample_backend, sl_letter = sample_letter,
     sl_approval = ''a1'', sl_effect = None\<rparr>"

lemma sample_validate: "validate b64 sample_letter = Inr ()"
proof -
  have "matches_address ''school@city.org''" by code_simp
  moreover have "py_strip ''Trip'' = ''Trip''" "py_strip ''Yes'' = ''Yes''" by code_simp+
  ultimately show ?thesis
    by (simp add: validate_def sample_letter_def has_newline_def opt_str_def max_subject_def
        max_body_def max_attachment_count_def max_attachment_total_bytes_def)
qed

definition sample_request :: send_request where
  "sample_request = \<lparr>rq_effect_id = ''a1'', rq_approval_id = ''a1'', rq_binding = sample_binding,
     rq_message_id = message_id_for ''a1'', rq_mime = ''family@home.orgYes'',
     rq_sha256 = ''family@home.orgYes''\<rparr>"

lemma sample_prepare: "prepare sample_send_env sample_letter ''a1'' None d = Inr sample_request"
proof -
  have "og_from_identity_id sample_letter = None" "og_binding_revision sample_letter = None"
    "og_from_address sample_letter = None" "og_body sample_letter = ''Yes''"
    by (simp_all add: sample_letter_def)
  then show ?thesis
    by (simp add: prepare_def sample_send_env_def Let_def str_or_none_def resolve_binding_def
        build_message_def sample_validate sample_request_def sample_binding_def)
qed


lemma sample_sent: "\<exists>res d'. email_send sample_send_env sample_backend sample_letter ''a1'' None [] empty_db =
    (res, [message_id_for ''a1''], d')"
proof -
  have env: "sv_send_store sample_send_env" "\<not> bk_provider sample_backend"
    "bk_smtp sample_backend m raw w = (Inl (Outcome_unknown ''broken''), w @ [m])" for m raw w
    by (simp_all add: sample_send_env_def sample_backend_def)
  have rq: "rq_message_id sample_request = message_id_for ''a1''" by (simp add: sample_request_def)
  show ?thesis
  proof (cases rule: send_begin_cases [of "rq_effect_id sample_request" empty_db "''a1''"
        "rq_binding sample_request" "rq_sha256 sample_request" "rq_message_id sample_request"
        "sv_now sample_send_env"])
    case fresh
    then show ?thesis
      by (simp add: email_send_def sample_prepare env deliver_def transport_def rq)
  qed simp_all
qed


theorem new_send_is_settled_witness:
  "\<exists>res w' d' row. email_send sample_send_env sample_backend sample_letter ''a1'' None [] empty_db = (res, w', d') \<and>
     tbl_get es_effect_id ''a1'' (t_sends d') = Some row \<and> es_state row \<noteq> Se_pending"
proof -
  obtain res d' where e: "email_send sample_send_env sample_backend sample_letter ''a1'' None [] empty_db =
    (res, [message_id_for ''a1''], d')" using sample_sent by blast
  have "rq_effect_id sample_request \<notin> set (map es_effect_id (t_sends empty_db))" "sv_send_store sample_send_env"
    by (simp_all add: sample_send_env_def)
  from new_send_is_settled [OF e this(2) sample_prepare this(1)] e show ?thesis
    by (auto simp: sample_request_def)
qed

end
