(* ===== verification/Calendar.thy ===== *)
theory Calendar
  imports Datetime "HOL-Library.AList"
begin

text \<open>
  \<open>hermes_cloud/execute/gcal.py\<close>: a calendar event that cannot be created twice.  The id of
  the event is derived from the fact (the root of its versions) or from the approval, a write is
  preceded by a look, and an event that is already there is patched.

  \<open>sha\<close> is \<open>hashlib.sha256(...).digest()\<close> as a list of bytes.  The Google service is
  a parameter: a record of the five calls, each of which answers with a value or with an
  \<open>HttpError\<close> (a status, or none when the connection broke).
\<close>

section \<open>The id of an event\<close>

definition id_prefix :: string where "id_prefix = ''hc''"

definition id_length :: nat where "id_length = 32"

definition b32_digit :: "nat \<Rightarrow> char" where
  "b32_digit n = (if n < 10 then char_of (n + 48) else char_of (n + 55))"

definition byte_bits :: "char \<Rightarrow> bool list" where
  "byte_bits c = rev (map (bit (of_char c :: nat)) [0..<8])"

definition bits_val :: "bool list \<Rightarrow> nat" where
  "bits_val bs = foldl (\<lambda>a b. 2 * a + of_bool b) 0 bs"

fun b32_groups :: "bool list \<Rightarrow> string" where
  "b32_groups bs =
     (if bs = [] then []
      else b32_digit (bits_val (take 5 (bs @ replicate 4 False))) # b32_groups (drop 5 bs))"

declare b32_groups.simps [simp del]

text \<open>\<open>base64.b32hexencode\<close>: the last group is filled with zero bits, the text with
  \<open>=\<close> to a multiple of eight.\<close>

definition b32hexencode :: "string \<Rightarrow> string" where
  "b32hexencode s =
     (let t = b32_groups (concat (map byte_bits s))
      in t @ replicate ((8 - length t mod 8) mod 8) (CHR ''=''))"

definition rstrip_eq :: "string \<Rightarrow> string" where
  "rstrip_eq s = rev (dropWhile (\<lambda>c. c = CHR ''='') (rev s))"

definition event_id_for :: "(string \<Rightarrow> string) \<Rightarrow> string \<Rightarrow> string" where
  "event_id_for sha seed =
     take id_length (id_prefix @ py_lower (rstrip_eq (b32hexencode (sha seed))))"

section \<open>The event\<close>

type_synonym body = "(string \<times> json) list"

record calendar_event =
  ce_id :: string
  ce_title :: string
  ce_start :: datetime
  ce_end :: datetime
  ce_description :: "string option"
  ce_location :: "string option"
  ce_timezone :: string

text \<open>\<open>_iso\<close> and \<open>_comparison_datetime\<close>: a naive moment counts as UTC.\<close>

definition aware :: "datetime \<Rightarrow> datetime" where
  "aware m = (if dt_offset m = None then m\<lparr>dt_offset := Some 0\<rparr> else m)"

definition iso_moment :: "datetime \<Rightarrow> string" where
  "iso_moment m = isoformat (aware m)"

definition comparison_datetime :: "datetime \<Rightarrow> string" where
  "comparison_datetime m = isoformat (to_utc (aware m))"

text \<open>\<open>_remote_moment\<close>: the texts of a \<open>start\<close> or \<open>end\<close> of the service.\<close>

definition remote_moment :: "json \<Rightarrow> string option" where
  "remote_moment v =
     (case v of JObj _ \<Rightarrow> coalesce (jtext_or_none v ''dateTime'') (jstr (jget v ''date'')) | _ \<Rightarrow> None)"

definition replace_z :: "string \<Rightarrow> string" where
  "replace_z s = concat (map (\<lambda>c. if c = CHR ''Z'' then ''+00:00'' else [c]) s)"

definition comparison_moment :: "json \<Rightarrow> string option" where
  "comparison_moment v =
     (case remote_moment v of
        None \<Rightarrow> None
      | Some raw \<Rightarrow>
          if CHR ''T'' \<notin> set raw then Some raw
          else (case fromisoformat (replace_z raw) of
                  None \<Rightarrow> Some raw
                | Some p \<Rightarrow>
                    if dt_offset p = None then Some (isoformat p) else Some (isoformat (to_utc p))))"

definition moment_obj :: "calendar_event \<Rightarrow> datetime \<Rightarrow> json" where
  "moment_obj e m = JObj [(''dateTime'', JStr (iso_moment m)), (''timeZone'', JStr (ce_timezone e))]"

definition to_body :: "calendar_event \<Rightarrow> body" where
  "to_body e =
     [(''id'', JStr (ce_id e)), (''summary'', JStr (ce_title e)),
      (''start'', moment_obj e (ce_start e)), (''end'', moment_obj e (ce_end e))] @
     (case str_or_none (ce_description e) of None \<Rightarrow> [] | Some s \<Rightarrow> [(''description'', JStr s)]) @
     (case str_or_none (ce_location e) of None \<Rightarrow> [] | Some s \<Rightarrow> [(''location'', JStr s)])"

text \<open>\<open>value or None\<close> for a value of the service and for a text of ours.\<close>

definition or_null :: "json \<Rightarrow> json" where
  "or_null v = (if truthy v then v else JNull)"

definition text_json :: "string option \<Rightarrow> json" where
  "text_json s = (case str_or_none s of None \<Rightarrow> JNull | Some t \<Rightarrow> JStr t)"

definition differs_from :: "calendar_event \<Rightarrow> body \<Rightarrow> bool" where
  "differs_from e remote \<longleftrightarrow>
     or_null (dict_get remote ''summary'') \<noteq> text_json (Some (ce_title e)) \<or>
     comparison_moment (dict_get remote ''start'') \<noteq> Some (comparison_datetime (ce_start e)) \<or>
     comparison_moment (dict_get remote ''end'') \<noteq> Some (comparison_datetime (ce_end e)) \<or>
     or_null (dict_get remote ''location'') \<noteq> text_json (ce_location e) \<or>
     or_null (dict_get remote ''description'') \<noteq> text_json (ce_description e)"

definition default_duration :: int where "default_duration = 3600"

definition build_calendar_event ::
  "(string \<Rightarrow> string) \<Rightarrow> uid \<Rightarrow> uid option \<Rightarrow> string \<Rightarrow> datetime \<Rightarrow> datetime option \<Rightarrow> string option \<Rightarrow>
   string option \<Rightarrow> string \<Rightarrow> calendar_event" where
  "build_calendar_event sha aid cid title start end_at desc loc tz =
     \<lparr>ce_id = event_id_for sha (case str_or_none cid of None \<Rightarrow> aid | Some r \<Rightarrow> r),
      ce_title = title, ce_start = start,
      ce_end = (case end_at of None \<Rightarrow> add_seconds start default_duration | Some t \<Rightarrow> t),
      ce_description = desc, ce_location = loc, ce_timezone = tz\<rparr>"

section \<open>The executor over a backend\<close>

datatype calendar_error =
    Calendar_refused string
  | Calendar_outcome_unknown string
  | Already_exists string

text \<open>\<open>CalendarBackend\<close>: the state \<open>'w\<close> is the calendar's side.\<close>

record 'w calendar_backend =
  cb_get :: "string \<Rightarrow> string \<Rightarrow> 'w \<Rightarrow> (calendar_error + body option) \<times> 'w"
  cb_insert :: "string \<Rightarrow> body \<Rightarrow> 'w \<Rightarrow> (calendar_error + body) \<times> 'w"
  cb_patch :: "string \<Rightarrow> string \<Rightarrow> body \<Rightarrow> 'w \<Rightarrow> (calendar_error + body) \<times> 'w"
  cb_delete :: "string \<Rightarrow> string \<Rightarrow> 'w \<Rightarrow> (calendar_error + unit) \<times> 'w"
  cb_list :: "string \<Rightarrow> datetime \<Rightarrow> datetime \<Rightarrow> nat \<Rightarrow> 'w \<Rightarrow> (calendar_error + body list) \<times> 'w"

record written =
  wr_event :: body
  wr_created :: bool
  wr_updated :: bool

definition written_link :: "written \<Rightarrow> string option" where
  "written_link w = jstr (dict_get (wr_event w) ''htmlLink'')"

definition upsert ::
  "'w calendar_backend \<Rightarrow> string \<Rightarrow> calendar_event \<Rightarrow> 'w \<Rightarrow> (calendar_error + written) \<times> 'w" where
  "upsert be cal e w =
     (case cb_get be cal (ce_id e) w of
        (Inl x, w1) \<Rightarrow> (Inl x, w1)
      | (Inr (Some r), w1) \<Rightarrow>
          if \<not> differs_from e r then
            (Inr \<lparr>wr_event = r, wr_created = False, wr_updated = False\<rparr>, w1)
          else
            (case cb_patch be cal (ce_id e) (to_body e) w1 of
               (Inl x, w2) \<Rightarrow> (Inl x, w2)
             | (Inr p, w2) \<Rightarrow> (Inr \<lparr>wr_event = p, wr_created = False, wr_updated = True\<rparr>, w2))
      | (Inr None, w1) \<Rightarrow>
          (case cb_insert be cal (to_body e) w1 of
             (Inr c, w2) \<Rightarrow> (Inr \<lparr>wr_event = c, wr_created = True, wr_updated = False\<rparr>, w2)
           | (Inl (Already_exists _), w2) \<Rightarrow>
               (case cb_get be cal (ce_id e) w2 of
                  (Inl x, w3) \<Rightarrow> (Inl x, w3)
                | (Inr None, w3) \<Rightarrow> (Inl (Calendar_refused ''there and not there''), w3)
                | (Inr (Some f), w3) \<Rightarrow>
                    (Inr \<lparr>wr_event = f, wr_created = False, wr_updated = False\<rparr>, w3))
           | (Inl x, w2) \<Rightarrow> (Inl x, w2)))"

definition calendar_cancel ::
  "(string \<Rightarrow> string) \<Rightarrow> 'w calendar_backend \<Rightarrow> string \<Rightarrow> string \<Rightarrow> 'w \<Rightarrow> (calendar_error + bool) \<times> 'w" where
  "calendar_cancel sha be cal seed w =
     (let i = event_id_for sha seed
      in case cb_get be cal i w of
           (Inl x, w1) \<Rightarrow> (Inl x, w1)
         | (Inr None, w1) \<Rightarrow> (Inr False, w1)
         | (Inr (Some _), w1) \<Rightarrow>
             (case cb_delete be cal i w1 of
                (Inl x, w2) \<Rightarrow> (Inl x, w2)
              | (Inr _, w2) \<Rightarrow> (Inr True, w2)))"

definition upcoming ::
  "'w calendar_backend \<Rightarrow> string \<Rightarrow> nat \<Rightarrow> datetime \<Rightarrow> 'w \<Rightarrow> (calendar_error + body list) \<times> 'w" where
  "upcoming be cal days now w = cb_list be cal now (add_seconds now (int days * 86400)) 50 w"

section \<open>The in-memory calendar\<close>

record fake_calendar =
  fk_events :: "(string \<times> body) list"
  fk_inserts :: nat
  fk_patches :: nat

definition fake_key :: "string \<Rightarrow> string \<Rightarrow> string" where
  "fake_key cal i = cal @ ''/'' @ i"

definition body_id :: "body \<Rightarrow> string" where
  "body_id b = (case jstr (dict_get b ''id'') of None \<Rightarrow> [] | Some i \<Rightarrow> i)"

definition fake_get :: "string \<Rightarrow> string \<Rightarrow> fake_calendar \<Rightarrow> (calendar_error + body option) \<times> fake_calendar" where
  "fake_get cal i w = (Inr (map_of (fk_events w) (fake_key cal i)), w)"

definition fake_insert :: "string \<Rightarrow> body \<Rightarrow> fake_calendar \<Rightarrow> (calendar_error + body) \<times> fake_calendar" where
  "fake_insert cal b w =
     (let key = fake_key cal (body_id b)
      in if map_of (fk_events w) key \<noteq> None then (Inl (Already_exists (body_id b)), w)
         else
           (let stored = AList.update ''htmlLink'' (JStr (''https://calendar.example/'' @ body_id b)) b
            in (Inr stored,
                w\<lparr>fk_inserts := fk_inserts w + 1, fk_events := AList.update key stored (fk_events w)\<rparr>)))"

text \<open>\<open>{**old, **new}\<close>.\<close>

definition dict_merge :: "body \<Rightarrow> body \<Rightarrow> body" where
  "dict_merge old new = fold (\<lambda>(k, v). AList.update k v) new old"

definition fake_patch ::
  "string \<Rightarrow> string \<Rightarrow> body \<Rightarrow> fake_calendar \<Rightarrow> (calendar_error + body) \<times> fake_calendar" where
  "fake_patch cal i b w =
     (let key = fake_key cal i
      in case map_of (fk_events w) key of
           None \<Rightarrow> (Inl (Calendar_refused i), w)
         | Some old \<Rightarrow>
             (let r = dict_merge old b
              in (Inr r,
                  w\<lparr>fk_patches := fk_patches w + 1, fk_events := AList.update key r (fk_events w)\<rparr>)))"

definition fake_delete :: "string \<Rightarrow> string \<Rightarrow> fake_calendar \<Rightarrow> (calendar_error + unit) \<times> fake_calendar" where
  "fake_delete cal i w = (Inr (), w\<lparr>fk_events := AList.delete (fake_key cal i) (fk_events w)\<rparr>)"

definition starts_with :: "string \<Rightarrow> string \<Rightarrow> bool" where
  "starts_with p s \<longleftrightarrow> take (length p) s = p"

definition fake_list ::
  "string \<Rightarrow> datetime \<Rightarrow> datetime \<Rightarrow> nat \<Rightarrow> fake_calendar \<Rightarrow> (calendar_error + body list) \<times> fake_calendar" where
  "fake_list cal t0 t1 limit w =
     (Inr (take limit (map snd (filter (\<lambda>(k, e). starts_with (cal @ ''/'') k \<and>
        (let s = (case remote_moment (dict_get e ''start'') of None \<Rightarrow> [] | Some t \<Rightarrow> t)
         in iso_moment t0 \<le> s \<and> s \<le> iso_moment t1)) (fk_events w)))), w)"

definition fake_backend :: "fake_calendar calendar_backend" where
  "fake_backend = \<lparr>cb_get = fake_get, cb_insert = fake_insert, cb_patch = fake_patch,
     cb_delete = fake_delete, cb_list = fake_list\<rparr>"

section \<open>The live calendar\<close>

record http_error =
  he_status :: "int option"
  he_text :: string

record 'w google_service =
  gs_get :: "string \<Rightarrow> string \<Rightarrow> 'w \<Rightarrow> (http_error + body) \<times> 'w"
  gs_insert :: "string \<Rightarrow> body \<Rightarrow> 'w \<Rightarrow> (http_error + body) \<times> 'w"
  gs_patch :: "string \<Rightarrow> string \<Rightarrow> body \<Rightarrow> 'w \<Rightarrow> (http_error + body) \<times> 'w"
  gs_delete :: "string \<Rightarrow> string \<Rightarrow> 'w \<Rightarrow> (http_error + unit) \<times> 'w"
  gs_list :: "string \<Rightarrow> string \<Rightarrow> string \<Rightarrow> nat \<Rightarrow> 'w \<Rightarrow> (http_error + body list) \<times> 'w"

text \<open>\<open>_translate\<close>: an answer is a refusal, no answer or a server fault is an unknown
  outcome.\<close>

definition translate_error :: "http_error \<Rightarrow> string \<Rightarrow> calendar_error" where
  "translate_error e op =
     (case he_status e of
        None \<Rightarrow> Calendar_outcome_unknown (op @ '': '' @ he_text e)
      | Some s \<Rightarrow>
          if s \<ge> 500 then Calendar_outcome_unknown (op @ '': HTTP '' @ int_str s)
          else Calendar_refused (op @ '': HTTP '' @ int_str s @ '' '' @ he_text e))"

definition status_gone :: "http_error \<Rightarrow> bool" where
  "status_gone e \<longleftrightarrow> he_status e \<in> {Some 404, Some 410}"

definition google_get ::
  "'w google_service \<Rightarrow> string \<Rightarrow> string \<Rightarrow> 'w \<Rightarrow> (calendar_error + body option) \<times> 'w" where
  "google_get sv cal i w =
     (case gs_get sv cal i w of
        (Inr r, w1) \<Rightarrow> (Inr (Some r), w1)
      | (Inl e, w1) \<Rightarrow> if status_gone e then (Inr None, w1) else (Inl (translate_error e ''get''), w1))"

definition google_insert ::
  "'w google_service \<Rightarrow> string \<Rightarrow> body \<Rightarrow> 'w \<Rightarrow> (calendar_error + body) \<times> 'w" where
  "google_insert sv cal b w =
     (case gs_insert sv cal b w of
        (Inr r, w1) \<Rightarrow> (Inr r, w1)
      | (Inl e, w1) \<Rightarrow>
          if he_status e = Some 409 then (Inl (Already_exists (body_id b)), w1)
          else (Inl (translate_error e ''insert''), w1))"

definition google_patch ::
  "'w google_service \<Rightarrow> string \<Rightarrow> string \<Rightarrow> body \<Rightarrow> 'w \<Rightarrow> (calendar_error + body) \<times> 'w" where
  "google_patch sv cal i b w =
     (case gs_patch sv cal i b w of
        (Inr r, w1) \<Rightarrow> (Inr r, w1)
      | (Inl e, w1) \<Rightarrow> (Inl (translate_error e ''patch''), w1))"

definition google_delete ::
  "'w google_service \<Rightarrow> string \<Rightarrow> string \<Rightarrow> 'w \<Rightarrow> (calendar_error + unit) \<times> 'w" where
  "google_delete sv cal i w =
     (case gs_delete sv cal i w of
        (Inr r, w1) \<Rightarrow> (Inr r, w1)
      | (Inl e, w1) \<Rightarrow> if status_gone e then (Inr (), w1) else (Inl (translate_error e ''delete''), w1))"

definition google_list ::
  "'w google_service \<Rightarrow> string \<Rightarrow> datetime \<Rightarrow> datetime \<Rightarrow> nat \<Rightarrow> 'w \<Rightarrow> (calendar_error + body list) \<times> 'w" where
  "google_list sv cal t0 t1 limit w =
     (case gs_list sv cal (iso_moment t0) (iso_moment t1) limit w of
        (Inr r, w1) \<Rightarrow> (Inr r, w1)
      | (Inl e, w1) \<Rightarrow> (Inl (translate_error e ''list''), w1))"

definition google_backend :: "'w google_service \<Rightarrow> 'w calendar_backend" where
  "google_backend sv = \<lparr>cb_get = google_get sv, cb_insert = google_insert sv,
     cb_patch = google_patch sv, cb_delete = google_delete sv, cb_list = google_list sv\<rparr>"

section \<open>The shape of an id\<close>

definition b32hex_char :: "char \<Rightarrow> bool" where
  "b32hex_char c \<longleftrightarrow> (let n = of_char c :: nat in (48 \<le> n \<and> n \<le> 57) \<or> (97 \<le> n \<and> n \<le> 118))"

lemma b32_digit_props:
  assumes "n < 32"
  shows "b32hex_char (lower_latin (b32_digit n))" "b32_digit n \<noteq> CHR ''=''"
proof -
  have d: "of_char (b32_digit n) = (if n < 10 then n + 48 else n + 55)"
    using assms by (simp add: b32_digit_def)
  show "b32_digit n \<noteq> CHR ''=''"
  proof
    assume "b32_digit n = CHR ''=''"
    then have "of_char (b32_digit n) = (61::nat)" by simp
    then show False using d assms by (simp split: if_splits)
  qed
  show "b32hex_char (lower_latin (b32_digit n))"
    using assms by (simp add: b32hex_char_def lower_latin_def lower_char_def d)
qed

lemma bits_val_less: "bits_val bs < 2 ^ length bs"
proof -
  have "foldl (\<lambda>a b. 2 * a + of_bool b) a bs < (a + 1) * 2 ^ length bs" for a :: nat
  proof (induction bs arbitrary: a)
    case (Cons b bs)
    have "foldl (\<lambda>a b. 2 * a + of_bool b) (2 * a + of_bool b) bs < (2 * a + of_bool b + 1) * 2 ^ length bs"
      by (rule Cons.IH)
    also have "\<dots> \<le> (2 * a + 2) * 2 ^ length bs" by (rule mult_right_mono) simp_all
    finally show ?case by (simp add: algebra_simps)
  qed simp
  from this [of 0] show ?thesis by (simp add: bits_val_def)
qed

lemma b32_groups_chars: "c \<in> set (b32_groups bs) \<Longrightarrow> \<exists>n < 32. c = b32_digit n"
proof (induction bs rule: b32_groups.induct)
  case (1 bs)
  show ?case
  proof (cases "bs = []")
    case True
    then show ?thesis using 1(2) by (simp add: b32_groups.simps)
  next
    case False
    let ?v = "bits_val (take 5 (bs @ replicate 4 False))"
    have "length (take 5 (bs @ replicate 4 False)) = 5" using False by (cases bs) auto
    then have "?v < 2 ^ 5" using bits_val_less [of "take 5 (bs @ replicate 4 False)"] by (simp only:)
    then have "?v < 32" by (simp only: power_numeral) simp
    moreover have "c = b32_digit ?v \<or> c \<in> set (b32_groups (drop 5 bs))"
      using 1(2) False by (subst (asm) b32_groups.simps) auto
    ultimately show ?thesis using 1(1) False by blast
  qed
qed

lemma length_b32_groups: "length (b32_groups bs) = (length bs + 4) div 5"
proof (induction bs rule: b32_groups.induct)
  case (1 bs)
  show ?case
  proof (cases "bs = []")
    case True
    then show ?thesis by (simp add: b32_groups.simps)
  next
    case False
    then have "length (b32_groups bs) = Suc (length (b32_groups (drop 5 bs)))"
      by (subst b32_groups.simps) simp
    also have "\<dots> = Suc ((length (drop 5 bs) + 4) div 5)" using 1 False by simp
    finally show ?thesis using False by (cases "length bs \<ge> 5") (auto simp: div_if)
  qed
qed

lemma rstrip_padding:
  assumes "\<And>c. c \<in> set t \<Longrightarrow> c \<noteq> CHR ''=''"
  shows "rstrip_eq (t @ replicate n (CHR ''='')) = t"
proof -
  have "dropWhile (\<lambda>c. c = CHR ''='') (replicate n (CHR ''='') @ rev t) =
      dropWhile (\<lambda>c. c = CHR ''='') (rev t)"
    by (induction n) auto
  also have "\<dots> = rev t"
    using assms by (intro dropWhile_hd_id) (metis hd_in_set set_rev)
  finally show ?thesis by (simp add: rstrip_eq_def)
qed

lemma event_id_for_eq:
  "event_id_for sha seed =
     take id_length (id_prefix @ py_lower (b32_groups (concat (map byte_bits (sha seed)))))"
proof -
  have "rstrip_eq (b32hexencode s) = b32_groups (concat (map byte_bits s))" for s
    unfolding b32hexencode_def Let_def
    by (rule rstrip_padding) (metis b32_groups_chars b32_digit_props(2))
  then show ?thesis by (simp add: event_id_for_def)
qed

section \<open>Comparing with the remote event\<close>

text \<open>\<open>same_event b r\<close>: the stored event \<open>r\<close> shows the request \<open>b\<close>.\<close>

definition same_event :: "body \<Rightarrow> body \<Rightarrow> bool" where
  "same_event b r \<longleftrightarrow>
     or_null (dict_get r ''summary'') = or_null (dict_get b ''summary'') \<and>
     comparison_moment (dict_get r ''start'') = comparison_moment (dict_get b ''start'') \<and>
     comparison_moment (dict_get r ''end'') = comparison_moment (dict_get b ''end'') \<and>
     or_null (dict_get r ''location'') = or_null (dict_get b ''location'') \<and>
     or_null (dict_get r ''description'') = or_null (dict_get b ''description'')"

definition valid_event :: "calendar_event \<Rightarrow> bool" where
  "valid_event e \<longleftrightarrow> valid_datetime (aware (ce_start e)) \<and> valid_datetime (aware (ce_end e))"

lemma dict_get_Cons [simp]:
  "dict_get ((k', v) # d) k = (if k' = k then v else dict_get d k)" "dict_get [] k = JNull"
  by (simp_all add: dict_get_def)

lemma or_null_text [simp]: "or_null (JStr s) = text_json (Some s)" "or_null JNull = JNull"
  by (simp_all add: or_null_def text_json_def str_or_none_def)

lemma to_body_fields:
  "dict_get (to_body e) ''id'' = JStr (ce_id e)"
  "dict_get (to_body e) ''summary'' = JStr (ce_title e)"
  "dict_get (to_body e) ''start'' = moment_obj e (ce_start e)"
  "dict_get (to_body e) ''end'' = moment_obj e (ce_end e)"
  "dict_get (to_body e) ''location'' = text_json (ce_location e)"
  "dict_get (to_body e) ''description'' = text_json (ce_description e)"
  by (simp_all add: to_body_def text_json_def split: option.splits)

lemma replace_z_id: "CHR ''Z'' \<notin> set s \<Longrightarrow> replace_z s = s"
  by (induction s) (auto simp: replace_z_def)

lemma comparison_of_moment_obj:
  assumes "valid_datetime (aware m)"
  shows "comparison_moment (moment_obj e m) = Some (comparison_datetime m)"
proof -
  have "iso_moment m \<noteq> []" by (simp add: iso_moment_def isoformat_def)
  then have "remote_moment (moment_obj e m) = Some (iso_moment m)"
    by (simp add: remote_moment_def moment_obj_def jtext_or_none_def jget_def jstr_def str_or_none_def)
  moreover have "fromisoformat (replace_z (iso_moment m)) = Some (aware m)"
    using fromisoformat_isoformat [OF assms] isoformat_chars [OF assms]
    by (simp add: iso_moment_def replace_z_id)
  moreover have "CHR ''T'' \<in> set (iso_moment m)" by (simp add: iso_moment_def isoformat_def)
  moreover have "dt_offset (aware m) \<noteq> None" by (simp add: aware_def)
  ultimately show ?thesis
    by (simp only: comparison_moment_def comparison_datetime_def option.case if_False simp_thms)
qed

lemma same_event_not_differs:
  assumes "same_event (to_body e) r" "valid_event e"
  shows "\<not> differs_from e r"
  using assms by (auto simp: same_event_def differs_from_def to_body_fields valid_event_def
      comparison_of_moment_obj text_json_def str_or_none_def or_null_def split: option.splits)

section \<open>The contract of a calendar\<close>

text \<open>
  What the executor relies on in a backend, for one calendar \<open>cal\<close> whose events are
  \<open>view w\<close>: a look changes nothing and tells the truth; an insert adds the event under its
  own id or, when it is refused, nothing; a patch changes the event it names; a call whose
  outcome is unknown may have done either.
\<close>

locale calendar_store =
  fixes be :: "'w calendar_backend" and cal :: string and view :: "'w \<Rightarrow> string \<Rightarrow> body option"
  assumes get_view: "cb_get be cal i w = (res, w') \<Longrightarrow>
      view w' = view w \<and> (\<forall>r. res = Inr r \<longrightarrow> r = view w i)"
    and insert_new: "cb_insert be cal b w = (ires, w') \<Longrightarrow>
      (view w' = view w \<and> (\<forall>r. ires \<noteq> Inr r)) \<or>
      (\<exists>r. view w (body_id b) = None \<and> view w' = (view w)(body_id b \<mapsto> r) \<and> same_event b r \<and>
        (ires = Inr r \<or> (\<exists>t. ires = Inl (Calendar_outcome_unknown t))))"
    and patch_known: "cb_patch be cal i b w = (ires, w') \<Longrightarrow>
      (view w' = view w \<and> (\<forall>r. ires \<noteq> Inr r)) \<or>
      (\<exists>old r. view w i = Some old \<and> view w' = (view w)(i \<mapsto> r) \<and>
        same_event (dict_merge old b) r \<and>
        (ires = Inr r \<or> (\<exists>t. ires = Inl (Calendar_outcome_unknown t))))"
    and delete_one: "cb_delete be cal i w = (dres, w') \<Longrightarrow>
      view w' = view w \<or> view w' = (view w)(i := None)"

lemma dict_get_update: "dict_get (AList.update k v d) k' = (if k' = k then v else dict_get d k')"
  by (simp add: dict_get_def update_conv')

lemma dict_get_merge:
  "distinct (map fst b) \<Longrightarrow>
    dict_get (dict_merge old b) k = (if k \<in> fst ` set b then dict_get b k else dict_get old k)"
  by (induction b arbitrary: old) (auto simp: dict_merge_def dict_get_update image_iff)

text \<open>What the remote event shows that the proposal does not mention any more.\<close>

definition leftovers :: "calendar_event \<Rightarrow> body \<Rightarrow> bool" where
  "leftovers e old \<longleftrightarrow>
     (str_or_none (ce_location e) = None \<and> or_null (dict_get old ''location'') \<noteq> JNull) \<or>
     (str_or_none (ce_description e) = None \<and> or_null (dict_get old ''description'') \<noteq> JNull)"

lemma to_body_keys:
  "distinct (map fst (to_body e))"
  "''summary'' \<in> fst ` set (to_body e)" "''start'' \<in> fst ` set (to_body e)"
  "''end'' \<in> fst ` set (to_body e)"
  "''location'' \<in> fst ` set (to_body e) \<longleftrightarrow> str_or_none (ce_location e) \<noteq> None"
  "''description'' \<in> fst ` set (to_body e) \<longleftrightarrow> str_or_none (ce_description e) \<noteq> None"
  by (cases "str_or_none (ce_location e)"; cases "str_or_none (ce_description e)";
      simp add: to_body_def)+

lemma merge_shows_event:
  assumes "\<not> leftovers e old"
  shows "same_event (to_body e) (dict_merge old (to_body e))"
  using assms to_body_keys(2-6) [of e]
  by (auto simp: same_event_def dict_get_merge [OF to_body_keys(1)] leftovers_def to_body_fields
      text_json_def or_null_def)

lemma same_event_trans: "same_event a b \<Longrightarrow> same_event b c \<Longrightarrow> same_event a c"
  by (simp add: same_event_def)

lemma body_id_to_body [simp]: "body_id (to_body e) = ce_id e"
  by (simp add: body_id_def to_body_fields jstr_def)

text \<open>What an upsert does to a lawful calendar.\<close>

context calendar_store
begin

lemma upsert_footprint:
  assumes "upsert be cal e w = (res, w')"
  shows "view w' = view w \<or> (\<exists>r. view w' = (view w)(ce_id e \<mapsto> r))"
proof -
  obtain g w1 where g: "cb_get be cal (ce_id e) w = (g, w1)" by fastforce
  then have v1: "view w1 = view w" using get_view by blast
  consider (bad) x where "g = Inl x" | (none) "g = Inr None" | (some) r where "g = Inr (Some r)"
    by (metis option.exhaust sum.exhaust)
  then show ?thesis
  proof cases
    case bad
    then show ?thesis using assms g v1 by (simp add: upsert_def)
  next
    case none
    obtain x w2 where x: "cb_insert be cal (to_body e) w1 = (x, w2)" by fastforce
    have v2: "view w2 = view w \<or> (\<exists>r. view w2 = (view w)(ce_id e \<mapsto> r))"
      using insert_new [OF x] v1 by auto
    obtain h w3 where h: "cb_get be cal (ce_id e) w2 = (h, w3)" by fastforce
    then have v3: "view w3 = view w2" using get_view by blast
    have "w' = w2 \<or> w' = w3"
      using assms g none x h
      by (auto simp: upsert_def split: sum.splits calendar_error.splits option.splits)
    then show ?thesis using v2 v3 by auto
  next
    case (some r)
    obtain x w2 where x: "cb_patch be cal (ce_id e) (to_body e) w1 = (x, w2)" by fastforce
    have "view w2 = view w \<or> (\<exists>r. view w2 = (view w)(ce_id e \<mapsto> r))"
      using patch_known [OF x] v1 by auto
    moreover have "w' = w1 \<or> w' = w2"
      using assms g some x by (auto simp: upsert_def split: sum.splits if_splits)
    ultimately show ?thesis using v1 by auto
  qed
qed

lemma upsert_settles:
  assumes "upsert be cal e w = (Inr wr, w')" "valid_event e"
    and "\<And>old. view w (ce_id e) = Some old \<Longrightarrow> \<not> leftovers e old"
  shows "\<exists>r. view w' (ce_id e) = Some r \<and> \<not> differs_from e r"
proof -
  obtain g w1 where g: "cb_get be cal (ce_id e) w = (g, w1)" by fastforce
  then have v1: "view w1 = view w" and gr: "\<And>r. g = Inr r \<Longrightarrow> r = view w (ce_id e)"
    using get_view by blast+
  consider (bad) x where "g = Inl x" | (none) "g = Inr None" | (some) r where "g = Inr (Some r)"
    by (metis option.exhaust sum.exhaust)
  then show ?thesis
  proof cases
    case bad
    then show ?thesis using assms(1) g by (simp add: upsert_def)
  next
    case none
    then have free: "view w (ce_id e) = None" using gr by simp
    obtain x w2 where x: "cb_insert be cal (to_body e) w1 = (x, w2)" by fastforce
    show ?thesis
    proof (cases "\<exists>r. x = Inr r")
      case True
      then have "w' = w2" using assms(1) g none x by (auto simp: upsert_def)
      moreover obtain r where "view w2 = (view w1)(ce_id e \<mapsto> r)" "same_event (to_body e) r"
        using insert_new [OF x] True by auto
      ultimately show ?thesis using same_event_not_differs assms(2) by auto
    next
      case False
      obtain h w3 where h: "cb_get be cal (ce_id e) w2 = (h, w3)" by fastforce
      have "\<exists>t. x = Inl (Already_exists t)" "\<exists>r. h = Inr (Some r)"
        using assms(1) g none x h False
        by (auto simp: upsert_def split: sum.splits calendar_error.splits option.splits)
      moreover from this(1) have "view w2 = view w" using insert_new [OF x] v1 by auto
      ultimately show ?thesis using free get_view [OF h] by auto
    qed
  next
    case (some r)
    then have old: "view w (ce_id e) = Some r" using gr by simp
    show ?thesis
    proof (cases "differs_from e r")
      case False
      then have "w' = w1" using assms(1) g some by (simp add: upsert_def)
      then show ?thesis using old v1 False by auto
    next
      case True
      obtain x w2 where x: "cb_patch be cal (ce_id e) (to_body e) w1 = (x, w2)" by fastforce
      then obtain p where p: "x = Inr p" "w' = w2"
        using assms(1) g some True by (auto simp: upsert_def split: sum.splits)
      then obtain q where q: "view w2 = (view w1)(ce_id e \<mapsto> q)"
        "same_event (dict_merge r (to_body e)) q"
        using patch_known [OF x] old v1 by auto
      then have "same_event (to_body e) q"
        using merge_shows_event same_event_trans assms(3) [OF old] by blast
      then show ?thesis using p q same_event_not_differs assms(2) by auto
    qed
  qed
qed

lemma upsert_when_there:
  assumes "upsert be cal e w = (res, w')" "view w (ce_id e) = Some r" "\<not> differs_from e r"
  shows "view w' = view w" "res = Inr wr \<Longrightarrow> \<not> wr_created wr \<and> \<not> wr_updated wr"
proof -
  obtain g w1 where g: "cb_get be cal (ce_id e) w = (g, w1)" by fastforce
  then have "view w1 = view w" "g = Inr (Some r) \<or> (\<exists>x. g = Inl x)"
    using get_view [OF g] assms(2) by (auto, metis sum.exhaust)
  then show "view w' = view w" "res = Inr wr \<Longrightarrow> \<not> wr_created wr \<and> \<not> wr_updated wr"
    using assms(1,3) g by (auto simp: upsert_def)
qed

lemma cancel_footprint:
  assumes "calendar_cancel sha be cal seed w = (res, w')"
  shows "view w' = view w \<or> view w' = (view w)(event_id_for sha seed := None)"
proof -
  obtain g w1 where g: "cb_get be cal (event_id_for sha seed) w = (g, w1)" by fastforce
  then have v1: "view w1 = view w" using get_view by blast
  obtain x w2 where x: "cb_delete be cal (event_id_for sha seed) w1 = (x, w2)" by fastforce
  have "w' = w1 \<or> w' = w2"
    using assms g x by (auto simp: calendar_cancel_def Let_def split: sum.splits option.splits)
  then show ?thesis using delete_one [OF x] v1 by auto
qed

end

section \<open>The in-memory calendar keeps the contract\<close>

definition fake_view :: "string \<Rightarrow> fake_calendar \<Rightarrow> string \<Rightarrow> body option" where
  "fake_view cal w i = map_of (fk_events w) (fake_key cal i)"

lemma fake_key_inj [simp]: "fake_key cal i = fake_key cal j \<longleftrightarrow> i = j"
  by (simp add: fake_key_def)

lemma same_event_link: "same_event b (AList.update ''htmlLink'' v b)"
  by (simp add: same_event_def dict_get_update)

lemma fake_backend_sel [simp]:
  "cb_get fake_backend = fake_get" "cb_insert fake_backend = fake_insert"
  "cb_patch fake_backend = fake_patch" "cb_delete fake_backend = fake_delete"
  by (simp_all add: fake_backend_def)

lemma fake_view_update:
  "fake_view cal (w\<lparr>fk_events := AList.update (fake_key cal i) r (fk_events w)\<rparr>) =
    (fake_view cal w)(i \<mapsto> r)"
  "fake_view cal (w\<lparr>fk_inserts := n, fk_events := AList.update (fake_key cal i) r (fk_events w)\<rparr>) =
    (fake_view cal w)(i \<mapsto> r)"
  "fake_view cal (w\<lparr>fk_patches := n, fk_events := AList.update (fake_key cal i) r (fk_events w)\<rparr>) =
    (fake_view cal w)(i \<mapsto> r)"
  "fake_view cal (w\<lparr>fk_events := AList.delete (fake_key cal i) (fk_events w)\<rparr>) =
    (fake_view cal w)(i := None)"
  by (auto simp: fake_view_def update_conv' delete_conv')

interpretation fake: calendar_store fake_backend cal "fake_view cal" for cal
proof
  fix i w res w'
  assume "cb_get fake_backend cal i w = (res, w')"
  then show "fake_view cal w' = fake_view cal w \<and> (\<forall>r. res = Inr r \<longrightarrow> r = fake_view cal w i)"
    by (auto simp: fake_get_def fake_view_def)
next
  fix b w ires w'
  assume a: "cb_insert fake_backend cal b w = (ires, w')"
  show "(fake_view cal w' = fake_view cal w \<and> (\<forall>r. ires \<noteq> Inr r)) \<or>
      (\<exists>r. fake_view cal w (body_id b) = None \<and> fake_view cal w' = (fake_view cal w)(body_id b \<mapsto> r) \<and>
        same_event b r \<and> (ires = Inr r \<or> (\<exists>t. ires = Inl (Calendar_outcome_unknown t))))"
  proof (cases "fake_view cal w (body_id b)")
    case None
    then show ?thesis
      using a by (auto simp: fake_insert_def Let_def fake_view_update same_event_link
          fake_view_def [of cal w "body_id b"])
  next
    case (Some r)
    then show ?thesis using a by (auto simp: fake_insert_def fake_view_def)
  qed
next
  fix i b w ires w'
  assume a: "cb_patch fake_backend cal i b w = (ires, w')"
  show "(fake_view cal w' = fake_view cal w \<and> (\<forall>r. ires \<noteq> Inr r)) \<or>
      (\<exists>old r. fake_view cal w i = Some old \<and> fake_view cal w' = (fake_view cal w)(i \<mapsto> r) \<and>
        same_event (dict_merge old b) r \<and>
        (ires = Inr r \<or> (\<exists>t. ires = Inl (Calendar_outcome_unknown t))))"
  proof (cases "fake_view cal w i")
    case None
    then show ?thesis using a by (auto simp: fake_patch_def fake_view_def)
  next
    case (Some old)
    then show ?thesis
      using a by (auto simp: fake_patch_def Let_def fake_view_update same_event_def
          fake_view_def [of cal w i])
  qed
next
  fix i w dres w'
  assume "cb_delete fake_backend cal i w = (dres, w')"
  then show "fake_view cal w' = fake_view cal w \<or> fake_view cal w' = (fake_view cal w)(i := None)"
    by (auto simp: fake_delete_def fake_view_update)
qed

section \<open>Histories of one calendar\<close>

datatype calendar_op =
    Put_event uid "uid option" string datetime "datetime option" "string option" "string option" string
  | Cancel_event string

fun op_seed :: "calendar_op \<Rightarrow> string" where
  "op_seed (Put_event aid cid title start end_at desc loc tz) =
     (case str_or_none cid of None \<Rightarrow> aid | Some r \<Rightarrow> r)"
| "op_seed (Cancel_event seed) = seed"

fun calendar_step ::
  "(string \<Rightarrow> string) \<Rightarrow> 'w calendar_backend \<Rightarrow> string \<Rightarrow> calendar_op \<Rightarrow> 'w \<Rightarrow> 'w" where
  "calendar_step sha be cal (Put_event aid cid title start end_at desc loc tz) w =
     snd (upsert be cal (build_calendar_event sha aid cid title start end_at desc loc tz) w)"
| "calendar_step sha be cal (Cancel_event seed) w = snd (calendar_cancel sha be cal seed w)"

definition calendar_run ::
  "(string \<Rightarrow> string) \<Rightarrow> 'w calendar_backend \<Rightarrow> string \<Rightarrow> calendar_op list \<Rightarrow> 'w \<Rightarrow> 'w" where
  "calendar_run sha be cal ops w = fold (calendar_step sha be cal) ops w"

context calendar_store
begin

lemma run_footprint:
  assumes "i \<notin> (\<lambda>x. event_id_for sha (op_seed x)) ` set ops"
  shows "view (calendar_run sha be cal ops w) i = view w i"
  using assms
proof (induction ops arbitrary: w)
  case (Cons x ops)
  have "view (calendar_step sha be cal x w) i = view w i"
  proof (cases x)
    case (Put_event aid cid title start end_at desc loc tz)
    let ?e = "build_calendar_event sha aid cid title start end_at desc loc tz"
    obtain res w' where u: "upsert be cal ?e w = (res, w')" by fastforce
    have "ce_id ?e \<noteq> i" using Cons.prems Put_event by (auto simp: build_calendar_event_def)
    then show ?thesis using upsert_footprint [OF u] Put_event u by auto
  next
    case (Cancel_event seed)
    obtain res w' where c: "calendar_cancel sha be cal seed w = (res, w')" by fastforce
    show ?thesis using cancel_footprint [OF c] Cons.prems Cancel_event c by auto
  qed
  moreover have "view (calendar_run sha be cal ops (calendar_step sha be cal x w)) i =
      view (calendar_step sha be cal x w) i"
    using Cons by simp
  ultimately show ?case by (simp add: calendar_run_def)
qed (simp add: calendar_run_def)

lemma run_new_events:
  "dom (view (calendar_run sha be cal ops w)) - dom (view w) \<subseteq> event_id_for sha ` op_seed ` set ops"
proof
  fix i
  assume "i \<in> dom (view (calendar_run sha be cal ops w)) - dom (view w)"
  then have "view (calendar_run sha be cal ops w) i \<noteq> view w i" by auto
  then have "i \<in> (\<lambda>x. event_id_for sha (op_seed x)) ` set ops"
    using run_footprint by metis
  then show "i \<in> event_id_for sha ` op_seed ` set ops" by auto
qed

end

section \<open>Properties\<close>

text \<open>
  An id Google accepts.  From a 32-byte digest \<open>event_id_for\<close> makes a text of exactly 32
  characters of the alphabet \<open>0-9a-v\<close>, the only one the service takes for an id of the
  client; the fact's digest enters with its first 150 bits.
\<close>

theorem event_ids_are_valid:
  assumes "length (sha seed) = 32"
  shows "length (event_id_for sha seed) = id_length \<and> list_all b32hex_char (event_id_for sha seed)"
proof -
  let ?bits = "concat (map byte_bits (sha seed))"
  let ?t = "py_lower (b32_groups ?bits)"
  have "length ?bits = 8 * length (sha seed)"
    by (simp add: length_concat comp_def byte_bits_def sum_list_triv)
  then have len: "length ?t = 52"
    using assms by (simp add: py_lower_def length_b32_groups)
  have "b32hex_char c" if "c \<in> set ?t" for c
  proof -
    obtain d where d: "d \<in> set (b32_groups ?bits)" "c = lower_latin d"
      using \<open>c \<in> set ?t\<close> by (auto simp: py_lower_def)
    then show ?thesis using b32_groups_chars [OF d(1)] b32_digit_props(1) by auto
  qed
  moreover have "list_all b32hex_char id_prefix" by (simp add: id_prefix_def b32hex_char_def)
  ultimately have "list_all b32hex_char (id_prefix @ ?t)" by (auto simp: list_all_iff)
  then have "list_all b32hex_char (take id_length (id_prefix @ ?t))"
    by (meson in_set_takeD list_all_iff)
  then show ?thesis
    by (simp only: event_id_for_eq) (simp add: len id_prefix_def id_length_def)
qed

text \<open>
  One event per fact.  Whatever the sequence of writes and cancellations, by however many
  approvals and with whatever contents, the calendar gains at most one event per fact (the
  root of its versions, or the approval when there is none), under the id of that fact; every
  other event is left as it was.
\<close>

theorem one_event_per_fact:
  "let before = fake_view cal w;
       after = fake_view cal (calendar_run sha fake_backend cal ops w);
       ids = event_id_for sha ` op_seed ` set ops
   in dom after - dom before \<subseteq> ids \<and> card (dom after - dom before) \<le> card (op_seed ` set ops) \<and>
      after |` (- ids) = before |` (- ids)"
proof -
  let ?after = "fake_view cal (calendar_run sha fake_backend cal ops w)"
  let ?ids = "event_id_for sha ` op_seed ` set ops"
  have new: "dom ?after - dom (fake_view cal w) \<subseteq> ?ids" by (rule fake.run_new_events)
  have "card (dom ?after - dom (fake_view cal w)) \<le> card ?ids"
    by (rule card_mono [OF _ new]) simp
  also have "\<dots> \<le> card (op_seed ` set ops)" by (rule card_image_le) simp
  finally have card: "card (dom ?after - dom (fake_view cal w)) \<le> card (op_seed ` set ops)" .
  have "?after |` (- ?ids) = fake_view cal w |` (- ?ids)"
    using fake.run_footprint by (auto simp: restrict_map_def image_image)
  then show ?thesis using new card by (simp add: Let_def)
qed

text \<open>
  Repeating a write changes nothing.  Once an upsert has returned, the calendar shows the
  event as it was confirmed and the same upsert writes nothing, creates nothing and says so,
  however the calendar looked before, unless the event that was there shows a place or a
  description the new version no longer has.
\<close>

theorem second_upsert_writes_nothing:
  assumes "upsert fake_backend cal e w = (Inr wr, w1)" "valid_event e"
    and "\<forall>old. fake_view cal w (ce_id e) = Some old \<longrightarrow> \<not> leftovers e old"
  shows "\<exists>r. fake_view cal w1 (ce_id e) = Some r \<and> \<not> differs_from e r \<and>
    upsert fake_backend cal e w1 = (Inr \<lparr>wr_event = r, wr_created = False, wr_updated = False\<rparr>, w1)"
proof -
  obtain r where r: "fake_view cal w1 (ce_id e) = Some r" "\<not> differs_from e r"
    using fake.upsert_settles [OF assms(1,2)] assms(3) by blast
  have "fake_get cal (ce_id e) w1 = (Inr (Some r), w1)"
    using r(1) by (simp add: fake_get_def fake_view_def)
  then have "upsert fake_backend cal e w1 =
      (Inr \<lparr>wr_event = r, wr_created = False, wr_updated = False\<rparr>, w1)"
    using r(2) by (simp add: upsert_def)
  then show ?thesis using r by blast
qed

text \<open>
  A place that was dropped stays in the calendar.  \<open>to_body\<close> leaves an empty place or
  description out and a patch keeps what it is not told to change, so when a new version of the
  fact has no place and the old one had, the event keeps the old place: it still differs from
  what was confirmed after every upsert, and every upsert patches again and reports an update.
\<close>

theorem dropped_place_stays:
  assumes "fake_view cal w (ce_id e) = Some old" "str_or_none (ce_location e) = None"
    and "or_null (dict_get old ''location'') \<noteq> JNull"
  shows "\<exists>r w'. upsert fake_backend cal e w =
      (Inr \<lparr>wr_event = r, wr_created = False, wr_updated = True\<rparr>, w') \<and>
    fake_view cal w' (ce_id e) = Some r \<and> dict_get r ''location'' = dict_get old ''location'' \<and>
    differs_from e r"
proof -
  let ?r = "dict_merge old (to_body e)"
  have differs: "differs_from e x" if "dict_get x ''location'' = dict_get old ''location''" for x
    using assms(2,3) that by (simp add: differs_from_def text_json_def)
  have loc: "dict_get ?r ''location'' = dict_get old ''location''"
    using assms(2) to_body_keys(5) [of e] by (simp add: dict_get_merge [OF to_body_keys(1)])
  let ?w = "w\<lparr>fk_patches := fk_patches w + 1,
    fk_events := AList.update (fake_key cal (ce_id e)) ?r (fk_events w)\<rparr>"
  have "map_of (fk_events w) (fake_key cal (ce_id e)) = Some old"
    using assms(1) by (simp add: fake_view_def)
  then have "upsert fake_backend cal e w =
      (Inr \<lparr>wr_event = ?r, wr_created = False, wr_updated = True\<rparr>, ?w)"
    using differs by (simp add: upsert_def fake_get_def fake_patch_def Let_def)
  moreover have "fake_view cal ?w (ce_id e) = Some ?r" by (simp add: fake_view_update)
  ultimately show ?thesis using loc differs by blast
qed

section \<open>Witnesses\<close>

definition sample_digest :: "string \<Rightarrow> string" where
  "sample_digest s = replicate 32 (CHR 0x5A)"

definition sample_moment :: datetime where
  "sample_moment = \<lparr>dt_year = 2026, dt_month = 9, dt_day = 12, dt_hour = 9, dt_minute = 30,
     dt_second = 0, dt_micro = 0, dt_offset = None\<rparr>"

definition sample_event :: calendar_event where
  "sample_event = build_calendar_event sample_digest ''a1'' (Some ''c1'') ''Trip'' sample_moment
     (Some sample_moment) None None ''UTC''"

definition empty_calendar :: fake_calendar where
  "empty_calendar = \<lparr>fk_events = [], fk_inserts = 0, fk_patches = 0\<rparr>"

definition old_event :: body where
  "old_event = [(''location'', JStr ''Zoo'')]"

definition placed_calendar :: fake_calendar where
  "placed_calendar = empty_calendar\<lparr>fk_events := [(fake_key ''primary'' (ce_id sample_event), old_event)]\<rparr>"

theorem event_ids_are_valid_witness:
  "length (event_id_for sample_digest ''c1'') = id_length \<and>
   list_all b32hex_char (event_id_for sample_digest ''c1'')"
  by (rule event_ids_are_valid) (simp add: sample_digest_def)

lemma sample_event_valid: "valid_event sample_event"
  by (simp add: valid_event_def sample_event_def build_calendar_event_def aware_def
      sample_moment_def valid_datetime_def valid_time_def days_in_month_def)

theorem second_upsert_writes_nothing_witness:
  "\<exists>wr w1 r. upsert fake_backend ''primary'' sample_event empty_calendar = (Inr wr, w1) \<and>
    wr_created wr \<and> upsert fake_backend ''primary'' sample_event w1 =
      (Inr \<lparr>wr_event = r, wr_created = False, wr_updated = False\<rparr>, w1)"
proof -
  obtain wr w1 where u: "upsert fake_backend ''primary'' sample_event empty_calendar = (Inr wr, w1)"
    "wr_created wr"
    by (simp add: upsert_def fake_get_def fake_insert_def empty_calendar_def Let_def)
  have "\<forall>old. fake_view ''primary'' empty_calendar (ce_id sample_event) = Some old \<longrightarrow>
      \<not> leftovers sample_event old"
    by (simp add: fake_view_def empty_calendar_def)
  from second_upsert_writes_nothing [OF u(1) sample_event_valid this] u show ?thesis by blast
qed

theorem dropped_place_stays_witness:
  "\<exists>r w'. upsert fake_backend ''primary'' sample_event placed_calendar =
      (Inr \<lparr>wr_event = r, wr_created = False, wr_updated = True\<rparr>, w') \<and>
    dict_get r ''location'' = JStr ''Zoo''"
proof -
  have "fake_view ''primary'' placed_calendar (ce_id sample_event) = Some old_event"
    by (simp add: fake_view_def placed_calendar_def)
  moreover have "str_or_none (ce_location sample_event) = None"
    by (simp add: sample_event_def build_calendar_event_def str_or_none_def)
  moreover have "or_null (dict_get old_event ''location'') \<noteq> JNull"
    by (simp add: old_event_def text_json_def str_or_none_def)
  ultimately obtain r w' where "upsert fake_backend ''primary'' sample_event placed_calendar =
      (Inr \<lparr>wr_event = r, wr_created = False, wr_updated = True\<rparr>, w')"
    "dict_get r ''location'' = dict_get old_event ''location''"
    using dropped_place_stays by blast
  then show ?thesis by (auto simp: old_event_def)
qed

end
