(* ===== verification/Outlets.thy ===== *)
theory Outlets
  imports Extractor
begin

text \<open>
  \<open>hermes_cloud/execute/ics.py\<close> and \<open>hermes_cloud/execute/whatsapp.py\<close>: the calendar
  file and the WhatsApp message.  The HTTP client is a parameter that answers with one of the
  outcomes \<open>httpx\<close> distinguishes.
\<close>

section \<open>Calendar files\<close>

definition ics_escapes :: "(string \<times> string) list" where
  "ics_escapes = [([CHR 0x5C], [CHR 0x5C, CHR 0x5C]), ('';'', [CHR 0x5C, CHR '';'']),
     ('','', [CHR 0x5C, CHR '','']), (nl, [CHR 0x5C, CHR ''n''])]"

definition escape_text :: "string \<Rightarrow> string" where
  "escape_text v = foldl (\<lambda>t (raw, escaped). replace_all raw escaped t) v ics_escapes"

fun fold_rest :: "nat \<Rightarrow> string \<Rightarrow> string list" where
  "fold_rest k s = (if s = [] \<or> k = 0 then [] else ('' '' @ take k s) # fold_rest k (drop k s))"

declare fold_rest.simps [simp del]

definition fold_line :: "nat \<Rightarrow> string \<Rightarrow> string list" where
  "fold_line limit line =
     (if length line \<le> limit then [line]
      else take limit line # fold_rest (limit - 1) (drop limit line))"

record ics_event =
  ic_uid :: string
  ic_title :: string
  ic_start :: datetime
  ic_end :: datetime
  ic_description :: "string option"
  ic_location :: "string option"

definition ics_moment :: "datetime \<Rightarrow> datetime" where
  "ics_moment m = to_utc (if dt_offset m = None then m\<lparr>dt_offset := Some 0\<rparr> else m)"

definition ics_stamp :: "datetime \<Rightarrow> string" where
  "ics_stamp m =
     (let u = ics_moment m
      in nat_digits (dt_year u) @ pad2 (dt_month u) @ pad2 (dt_day u) @ ''T'' @
         pad2 (dt_hour u) @ pad2 (dt_minute u) @ pad2 (dt_second u) @ ''Z'')"

definition build_event ::
  "uid \<Rightarrow> string \<Rightarrow> datetime \<Rightarrow> datetime option \<Rightarrow> string option \<Rightarrow> string option \<Rightarrow> ics_event" where
  "build_event aid title start end_at desc loc =
     \<lparr>ic_uid = aid @ ''@'' @ ''hermes-cloud.invalid'', ic_title = title, ic_start = start,
      ic_end = (case end_at of None \<Rightarrow> add_seconds start 3600 | Some t \<Rightarrow> t),
      ic_description = desc, ic_location = loc\<rparr>"

definition crlf :: string where "crlf = [CHR 0x0D, CHR 0x0A]"

definition ics_lines :: "ics_event \<Rightarrow> datetime \<Rightarrow> string list" where
  "ics_lines e now =
     [''BEGIN:VCALENDAR'', ''VERSION:2.0'', ''PRODID:-//Hermes Cloud//Family Ops Assistant//RU'',
      ''CALSCALE:GREGORIAN'', ''METHOD:PUBLISH'', ''BEGIN:VEVENT'', ''UID:'' @ ic_uid e,
      ''DTSTAMP:'' @ ics_stamp now, ''DTSTART:'' @ ics_stamp (ic_start e),
      ''DTEND:'' @ ics_stamp (ic_end e), ''SUMMARY:'' @ escape_text (ic_title e)] @
     (case str_or_none (ic_description e) of None \<Rightarrow> [] | Some t \<Rightarrow> [''DESCRIPTION:'' @ escape_text t]) @
     (case str_or_none (ic_location e) of None \<Rightarrow> [] | Some t \<Rightarrow> [''LOCATION:'' @ escape_text t]) @
     [''END:VEVENT'', ''END:VCALENDAR'']"

definition render_ics :: "ics_event \<Rightarrow> datetime \<Rightarrow> string" where
  "render_ics e now = join crlf (concat (map (fold_line 75) (ics_lines e now))) @ crlf"

text \<open>\<open>str.isalnum\<close> on the first 256 code points.\<close>

definition is_alnum :: "char \<Rightarrow> bool" where
  "is_alnum c \<longleftrightarrow> (let n = of_char c :: nat in
     (48 \<le> n \<and> n \<le> 57) \<or> (65 \<le> n \<and> n \<le> 90) \<or> (97 \<le> n \<and> n \<le> 122) \<or>
     n \<in> {170, 178, 179, 181, 185, 186, 188, 189, 190} \<or> (192 \<le> n \<and> n \<noteq> 215 \<and> n \<noteq> 247))"

definition filename_for :: "string \<Rightarrow> string" where
  "filename_for title =
     (let safe = map (\<lambda>c. if is_alnum c \<or> c \<in> {CHR '' '', CHR ''-'', CHR ''_''} then c else CHR ''_'') title;
          name = take 60 (map (\<lambda>c. if c = CHR '' '' then CHR ''_'' else c) (py_strip safe))
      in (if name = [] then ''event'' else name) @ ''.ics'')"

section \<open>WhatsApp\<close>

datatype wa_error = Wa_rejected string | Wa_outcome_unknown string | Wa_other string

record outgoing_whatsapp =
  wa_to :: string
  wa_text :: string

definition whatsapp_from_payload :: "json \<Rightarrow> outgoing_whatsapp" where
  "whatsapp_from_payload p = \<lparr>wa_to = jtext p ''to'', wa_text = jtext p ''text''\<rparr>"

definition is_e164 :: "string \<Rightarrow> bool" where
  "is_e164 s = (case s of
     p # c # r \<Rightarrow> p = CHR ''+'' \<and> is_digit c \<and> c \<noteq> CHR ''0'' \<and> 7 \<le> length r \<and> length r \<le> 14 \<and>
       list_all is_digit r
   | _ \<Rightarrow> False)"

definition validate_whatsapp :: "outgoing_whatsapp \<Rightarrow> wa_error + outgoing_whatsapp" where
  "validate_whatsapp m =
     (let text = py_strip (wa_text m)
      in if \<not> is_e164 (wa_to m) then Inl (Wa_rejected ''E.164'')
         else if text = [] then Inl (Wa_rejected ''no text'')
         else if length text > 4096 then Inl (Wa_rejected ''too long'')
         else Inr \<lparr>wa_to = wa_to m, wa_text = text\<rparr>)"

text \<open>
  What \<open>client.post\<close> does: answers with a status and, when the body parses, its JSON; runs
  into a read timeout; cannot connect; or raises another transport error.
\<close>

datatype post_outcome =
    Post_response int "json option"
  | Post_read_timeout
  | Post_connect_error
  | Post_other_error string

record 'w whatsapp_sender =
  ws_api_url :: string
  ws_instance :: string
  ws_api_key :: string
  ws_enabled :: bool
  ws_post :: "string \<Rightarrow> string \<Rightarrow> string \<Rightarrow> string \<Rightarrow> string \<Rightarrow> 'w \<Rightarrow> post_outcome \<times> 'w"

definition rstrip_slash :: "string \<Rightarrow> string" where
  "rstrip_slash s = rev (dropWhile (\<lambda>c. c = CHR ''/'') (rev s))"

definition new_whatsapp_sender ::
  "(string \<Rightarrow> string \<Rightarrow> string \<Rightarrow> string \<Rightarrow> string \<Rightarrow> 'w \<Rightarrow> post_outcome \<times> 'w) \<Rightarrow> string \<Rightarrow> string \<Rightarrow> string \<Rightarrow>
   bool \<Rightarrow> 'w whatsapp_sender option" where
  "new_whatsapp_sender post url inst key enabled =
     (if url = [] \<or> inst = [] \<or> key = [] then None
      else Some \<lparr>ws_api_url = rstrip_slash url, ws_instance = inst, ws_api_key = key,
                 ws_enabled = enabled, ws_post = post\<rparr>)"

definition whatsapp_from_env ::
  "(string \<Rightarrow> string \<Rightarrow> string \<Rightarrow> string \<Rightarrow> string \<Rightarrow> 'w \<Rightarrow> post_outcome \<times> 'w) \<Rightarrow> (string \<Rightarrow> string option) \<Rightarrow>
   'w whatsapp_sender option" where
  "whatsapp_from_env post env =
     (let get = (\<lambda>k. case env k of None \<Rightarrow> [] | Some v \<Rightarrow> v)
      in new_whatsapp_sender post (get ''HERMES_WHATSAPP_API_URL'') (get ''HERMES_WHATSAPP_INSTANCE'')
           (get ''HERMES_WHATSAPP_API_KEY'')
           (py_lower (get ''HERMES_WHATSAPP_SEND'') \<in> {''1'', ''true'', ''yes'', ''on''}))"

text \<open>\<open>body.get("key", {}).get("id") if isinstance(body, dict) else None\<close>.\<close>

definition response_id :: "json option \<Rightarrow> wa_error + string" where
  "response_id body =
     (case body of
        None \<Rightarrow> Inl (Wa_rejected ''bad body'')
      | Some (JObj d) \<Rightarrow>
          (case map_of d ''key'' of
             None \<Rightarrow> Inl (Wa_rejected ''no id'')
           | Some (JObj k) \<Rightarrow>
               (case dict_get k ''id'' of
                  JStr s \<Rightarrow> if s = [] then Inl (Wa_rejected ''no id'') else Inr s
                | _ \<Rightarrow> Inl (Wa_rejected ''no id''))
           | Some _ \<Rightarrow> Inl (Wa_other ''AttributeError''))
      | Some _ \<Rightarrow> Inl (Wa_rejected ''no id''))"

definition whatsapp_send ::
  "'w whatsapp_sender \<Rightarrow> outgoing_whatsapp \<Rightarrow> uid \<Rightarrow> 'w \<Rightarrow> (wa_error + string) \<times> 'w" where
  "whatsapp_send sv m effect_id w =
     (case validate_whatsapp m of
        Inl e \<Rightarrow> (Inl e, w)
      | Inr v \<Rightarrow>
          if \<not> ws_enabled sv then (Inl (Wa_rejected ''disabled''), w)
          else
            (case ws_post sv (ws_api_url sv @ ''/message/sendText/'' @ ws_instance sv) (ws_api_key sv)
                    effect_id (tl (wa_to v)) (wa_text v) w of
               (Post_read_timeout, w1) \<Rightarrow> (Inl (Wa_outcome_unknown ''read timeout''), w1)
             | (Post_connect_error, w1) \<Rightarrow> (Inl (Wa_rejected ''unreachable''), w1)
             | (Post_other_error x, w1) \<Rightarrow> (Inl (Wa_other x), w1)
             | (Post_response st body, w1) \<Rightarrow>
                 if 300 \<le> st \<and> st < 400 then (Inl (Wa_rejected ''redirect''), w1)
                 else if st \<ge> 400 then (Inl (Wa_rejected (''HTTP '' @ int_str st)), w1)
                 else (response_id body, w1)))"

section \<open>Escaping is one pass\<close>

definition esc_char_ics :: "char \<Rightarrow> string" where
  "esc_char_ics c =
     (if c = CHR 0x5C then [CHR 0x5C, CHR 0x5C] else if c = CHR '';'' then [CHR 0x5C, CHR '';'']
      else if c = CHR '','' then [CHR 0x5C, CHR '',''] else if c = CHR 0x0A then [CHR 0x5C, CHR ''n'']
      else [c])"

lemma replace_char: "replace_all [x] new s = concat (map (\<lambda>c. if c = x then new else [c]) s)"
proof (induction s)
  case (Cons c s)
  then show ?case
    by (cases "c = x") (simp_all add: replace_hit replace_miss)
qed simp

lemma escape_one_pass: "escape_text v = concat (map esc_char_ics v)"
proof (induction v)
  case Nil
  then show ?case by (simp add: escape_text_def ics_escapes_def)
next
  case (Cons c v)
  have "escape_text (c # v) = escape_text [c] @ escape_text v"
    by (simp add: escape_text_def ics_escapes_def replace_char nl_def)
  moreover have "escape_text [c] = esc_char_ics c"
    by (simp add: escape_text_def ics_escapes_def replace_char nl_def esc_char_ics_def)
  ultimately show ?case using Cons by simp
qed

text \<open>How a reader of the format undoes both steps.\<close>

fun unescape_text :: "string \<Rightarrow> string" where
  "unescape_text [] = []"
| "unescape_text [c] = [c]"
| "unescape_text (c # x # s) =
     (if c = CHR 0x5C then (if x = CHR ''n'' then CHR 0x0A else x) # unescape_text s
      else c # unescape_text (x # s))"

definition unfold_lines :: "string list \<Rightarrow> string" where
  "unfold_lines ls = (case ls of [] \<Rightarrow> [] | l # r \<Rightarrow> l @ concat (map tl r))"

lemma unescape_escape: "unescape_text (concat (map esc_char_ics v)) = v"
proof (induction v)
  case (Cons c v)
  have "unescape_text (c # t) = c # unescape_text t" if "c \<noteq> CHR 0x5C" for t
    using that by (cases t) auto
  then show ?case using Cons by (auto simp: esc_char_ics_def)
qed simp

lemma fold_rest_concat: "0 < k \<Longrightarrow> concat (map tl (fold_rest k s)) = s"
proof (induction k s rule: fold_rest.induct)
  case (1 k s)
  then show ?case by (subst fold_rest.simps) auto
qed

lemma fold_rest_length: "c \<in> set (fold_rest k s) \<Longrightarrow> length c \<le> Suc k \<and> set c \<subseteq> insert (CHR '' '') (set s)"
proof (induction k s rule: fold_rest.induct)
  case (1 k s)
  show ?case
  proof (cases "s = [] \<or> k = 0")
    case True
    then show ?thesis using 1(2) by (simp add: fold_rest.simps)
  next
    case False
    then have "c = '' '' @ take k s \<or> c \<in> set (fold_rest k (drop k s))"
      using 1(2) by (subst (asm) fold_rest.simps) auto
    then show ?thesis using 1(1) False by (auto dest: in_set_takeD in_set_dropD)
  qed
qed

section \<open>Properties\<close>

text \<open>
  Text survives the calendar file.  A text field escaped and folded into content lines is read
  back unchanged by unfolding and unescaping, no line is longer than the limit, and no line feed
  of the text reaches the file, so a title cannot add a line of its own.
\<close>

theorem ics_text_roundtrip:
  assumes "2 \<le> limit"
  shows "unescape_text (unfold_lines (fold_line limit (escape_text v))) = v \<and>
    list_all (\<lambda>l. length l \<le> limit \<and> CHR 0x0A \<notin> set l) (fold_line limit (escape_text v))"
proof
  have unfold: "unfold_lines (fold_line limit s) = s" for s
    using assms by (simp add: unfold_lines_def fold_line_def fold_rest_concat)
  then show "unescape_text (unfold_lines (fold_line limit (escape_text v))) = v"
    by (simp add: escape_one_pass unescape_escape)
  have lf: "CHR 0x0A \<notin> set (escape_text v)"
    by (auto simp: escape_one_pass esc_char_ics_def split: if_splits)
  have len: "length l \<le> limit \<and> set l \<subseteq> insert (CHR '' '') (set s)" if "l \<in> set (fold_line limit s)" for l s
  proof (cases "length s \<le> limit")
    case True
    then show ?thesis using that by (auto simp: fold_line_def)
  next
    case False
    then have "l = take limit s \<or> l \<in> set (fold_rest (limit - 1) (drop limit s))"
      using that by (simp add: fold_line_def)
    then consider "l = take limit s" | "l \<in> set (fold_rest (limit - 1) (drop limit s))"
      by blast
    then show ?thesis
    proof cases
      case 1
      then show ?thesis by (auto dest: in_set_takeD)
    next
      case 2
      have "length l \<le> Suc (limit - 1)" "set l \<subseteq> insert (CHR '' '') (set (drop limit s))"
        using fold_rest_length [OF 2] by auto
      moreover have "set (drop limit s) \<subseteq> set s" by (rule set_drop_subset)
      ultimately show ?thesis using assms by auto
    qed
  qed
  have "length l \<le> limit \<and> CHR 0x0A \<notin> set l" if "l \<in> set (fold_line limit (escape_text v))" for l
    using len [OF that] lf by auto
  then show "list_all (\<lambda>l. length l \<le> limit \<and> CHR 0x0A \<notin> set l) (fold_line limit (escape_text v))"
    by (simp add: list_all_iff)
qed

text \<open>
  What a WhatsApp attempt reports.  Nothing is posted for a message that does not validate or
  while sending is switched off; a delivery is reported only for an answer below 300 that names
  the message; only a read timeout is reported as an unknown outcome.  A refusal or a success
  of the provider is never reported as unknown, but any other broken connection is raised as it
  is, and the executor above takes it for a failure.
\<close>

theorem whatsapp_reports:
  "case whatsapp_send sv m eff w of
     (Inr i, w') \<Rightarrow> ws_enabled sv \<and> i \<noteq> [] \<and> (\<exists>v st body. validate_whatsapp m = Inr v \<and>
        ws_post sv (ws_api_url sv @ ''/message/sendText/'' @ ws_instance sv) (ws_api_key sv) eff
          (tl (wa_to v)) (wa_text v) w = (Post_response st body, w') \<and> st < 300)
   | (Inl (Wa_outcome_unknown _), w') \<Rightarrow> ws_enabled sv \<and> (\<exists>v. validate_whatsapp m = Inr v \<and>
        ws_post sv (ws_api_url sv @ ''/message/sendText/'' @ ws_instance sv) (ws_api_key sv) eff
          (tl (wa_to v)) (wa_text v) w = (Post_read_timeout, w'))
   | (Inl _, w') \<Rightarrow> (ws_enabled sv \<and> (\<exists>v. validate_whatsapp m = Inr v)) \<or> w' = w"
proof (cases "validate_whatsapp m")
  case (Inl e)
  then have "\<exists>r. e = Wa_rejected r" by (auto simp: validate_whatsapp_def Let_def split: if_splits)
  then show ?thesis using Inl by (auto simp: whatsapp_send_def)
next
  case (Inr v)
  have id: "i \<noteq> []" if "response_id body = Inr i" for body i
    using that by (auto simp: response_id_def split: option.splits json.splits if_splits)
  have no: "response_id body \<noteq> Inl (Wa_outcome_unknown t)" for body t
    by (auto simp: response_id_def split: option.splits json.splits)
  obtain o1 w1 where post: "ws_post sv (ws_api_url sv @ ''/message/sendText/'' @ ws_instance sv)
      (ws_api_key sv) eff (tl (wa_to v)) (wa_text v) w = (o1, w1)" by fastforce
  show ?thesis
  proof (cases "ws_enabled sv")
    case False
    then show ?thesis using Inr by (simp add: whatsapp_send_def)
  next
    case True
    show ?thesis
    proof (cases o1)
      case (Post_response st body)
      show ?thesis
        using True Inr post Post_response id no
        by (cases "response_id body") (auto simp: whatsapp_send_def split: wa_error.splits)
    qed (use True Inr post in \<open>simp_all add: whatsapp_send_def\<close>)
  qed
qed

section \<open>Witnesses\<close>

theorem ics_text_roundtrip_witness:
  "unescape_text (unfold_lines (fold_line 75 (escape_text ''Zoo, lions; 9:00''))) = ''Zoo, lions; 9:00''"
  using ics_text_roundtrip [of 75 "''Zoo, lions; 9:00''"] by simp

end
