(* ===== verification/Pipeline.thy ===== *)
theory Pipeline
  imports Approvals Memory Reminders RunContext EmailSend Calendar Cards Outlets
begin

text \<open>
  \<open>hermes_cloud/runner/pipeline.py\<close>: everything before the yes is a proposal, everything
  after it is execution.  A button press becomes a claim, a claim becomes one journaled effect
  (one per item of a bundle), and after a crash the stale effects are settled.

  The channel, the mail backend, the WhatsApp client and the calendar are parameters, as are
  \<open>uuid4\<close>, \<open>secrets.token_hex\<close>, SHA-256, the text of the export and the clock of
  the calendar file; \<open>'w\<close> is the outside world.  A raised exception is the left value of
  the result; what was committed before it stays committed.
\<close>

section \<open>The assembled pipeline\<close>

type_synonym 'w messenger =
  "string \<Rightarrow> int option \<Rightarrow> string \<Rightarrow> (string \<times> string) list \<Rightarrow> 'w \<Rightarrow> (send_failure + unit) \<times> 'w"

record 'w pipe =
  pp_hash :: "string \<Rightarrow> string"
  pp_frepr :: "real \<Rightarrow> string"
  pp_digest :: "string \<Rightarrow> string"
  pp_uuid :: "db \<Rightarrow> uid"
  pp_code :: "db \<Rightarrow> string"
  pp_send :: "'w messenger"
  pp_document :: "string \<Rightarrow> int option \<Rightarrow> string \<Rightarrow> string \<Rightarrow> 'w \<Rightarrow> (send_failure + unit) \<times> 'w"
  pp_calendar :: "('w calendar_backend \<times> string) option"
  pp_mail :: "(send_env \<times> 'w backend) option"
  pp_whatsapp :: "'w whatsapp_sender option"
  pp_export :: "db \<Rightarrow> string"
  pp_utcnow :: datetime

datatype pipe_exn =
    Px_unknown string
  | Px_binding_changed
  | Px_partial string
  | Px_error string

record handled =
  hd_approval_id :: "uid option"
  hd_executed :: "string option"
  hd_message :: "string option"

definition said :: "uid option \<Rightarrow> string \<Rightarrow> handled" where
  "said a t = \<lparr>hd_approval_id = a, hd_executed = None, hd_message = Some t\<rparr>"

text \<open>The channel's failures as exceptions.\<close>

definition channel_exn :: "send_failure \<Rightarrow> pipe_exn" where
  "channel_exn f = (case f of Send_outcome_unknown \<Rightarrow> Px_unknown ''SendOutcomeUnknown'' | Send_error e \<Rightarrow> Px_error e)"

text \<open>\<open>self.transport.send_message(...)\<close> followed by \<open>return handled\<close>.\<close>

definition tell ::
  "'w pipe \<Rightarrow> string \<Rightarrow> int option \<Rightarrow> string \<Rightarrow> handled \<Rightarrow> 'w \<Rightarrow> db \<Rightarrow> (pipe_exn + handled) \<times> 'w \<times> db" where
  "tell p chat thread text h w d =
     (case pp_send p chat thread text [] w of
        (Inl f, w1) \<Rightarrow> (Inl (channel_exn f), w1, d)
      | (Inr _, w1) \<Rightarrow> (Inr h, w1, d))"

section \<open>Rights\<close>

definition capability_for_kind :: "string \<Rightarrow> string" where
  "capability_for_kind k =
     (if k = kind_reminder then ''reminder.create''
      else if k = kind_calendar \<or> k = kind_ics then ''calendar.write''
      else if k = kind_memory then ''memory.append''
      else if k = kind_email then ''email.compose''
      else if k = kind_whatsapp then ''whatsapp.send''
      else if k = kind_export then ''data.export''
      else if k = kind_delete then ''data.delete'' else [])"

definition replayable_kinds :: "string set" where
  "replayable_kinds = {kind_reminder, kind_memory, kind_calendar}"

definition payload_kind :: "json \<Rightarrow> string" where "payload_kind p = jtext p ''kind''"

definition may_confirm :: "run_context \<Rightarrow> json \<Rightarrow> bool" where
  "may_confirm c p =
     (if payload_kind p = kind_bundle then
        (let items = enabled_items p
         in items \<noteq> [] \<and> list_all (\<lambda>it. can c (capability_for_kind (item_kind it))) items)
      else can c (capability_for_kind (payload_kind p)))"

section \<open>The executors\<close>

type_synonym 'w run = "(pipe_exn + string) \<times> 'w \<times> db"

definition fact_root :: "uid option \<Rightarrow> db \<Rightarrow> uid option" where
  "fact_root cid d =
     (case str_or_none cid of None \<Rightarrow> None
      | Some c \<Rightarrow> (case commitment_chain c d of [] \<Rightarrow> Some c | r # _ \<Rightarrow> Some (co_id r)))"

definition date_due :: "date \<Rightarrow> due" where
  "date_due dt = (case dt of (y, m, d) \<Rightarrow> Due_date (int (ymd_ordinal y m d) - 719163))"

definition execute_reminder :: "'w pipe \<Rightarrow> approval \<Rightarrow> json \<Rightarrow> time \<Rightarrow> 'w \<Rightarrow> db \<Rightarrow> 'w run" where
  "execute_reminder p a payload now w d =
     (case Option.bind (need (obj_fields payload) ''due_date'') date_fromiso of
        None \<Rightarrow> (Inl (Px_error ''due_date''), w, d)
      | Some due \<Rightarrow>
          (let d1 = (case jtext_or_none payload ''supersedes_reminder_id'' of None \<Rightarrow> d
                     | Some r \<Rightarrow> snd (reminder_cancel r now d))
           in case reminder_for_approval (ap_id a) d1 of
                Some r \<Rightarrow> (Inr (''REMIND '' @ format_date due @ '' - '' @ re_text r), w, d1)
              | None \<Rightarrow>
                  (case need (obj_fields payload) ''text'' of
                     None \<Rightarrow> (Inl (Px_error ''text''), w, d1)
                   | Some t \<Rightarrow>
                       (Inr (''REMIND '' @ format_date due @ '' - '' @ t), w,
                        snd (reminder_create (pp_uuid p d1) (ap_chat a) t
                          (due_timestamp default_hour (date_due due)) (ap_thread a)
                          (Some (ap_id a)) now d1)))))"

definition execute_memory :: "'w pipe \<Rightarrow> approval \<Rightarrow> json \<Rightarrow> time \<Rightarrow> 'w \<Rightarrow> db \<Rightarrow> 'w run" where
  "execute_memory p a payload now w d =
     (case need (obj_fields payload) ''statement_id'' of
        None \<Rightarrow> (Inl (Px_error ''statement_id''), w, d)
      | Some i \<Rightarrow>
          (case memory_get i d of
             Some s \<Rightarrow>
               if me_status s = Confirmed then (Inr (''REMEMBERED: '' @ me_text s), w, d)
               else (case memory_confirm i a now d of
                  (Inr (Some s'), d1) \<Rightarrow> (Inr (''REMEMBERED: '' @ me_text s'), w, d1)
                | (_, d1) \<Rightarrow> (Inl (Px_error ''memory''), w, d1))
           | None \<Rightarrow>
               (case memory_confirm i a now d of
                  (Inr (Some s'), d1) \<Rightarrow> (Inr (''REMEMBERED: '' @ me_text s'), w, d1)
                | (_, d1) \<Rightarrow> (Inl (Px_error ''memory''), w, d1))))"

definition execute_export :: "'w pipe \<Rightarrow> approval \<Rightarrow> 'w \<Rightarrow> db \<Rightarrow> 'w run" where
  "execute_export p a w d =
     (let content = pp_export p d
      in case pp_document p (ap_chat a) (ap_thread a) ''hermes-export.json'' content w of
           (Inl f, w1) \<Rightarrow> (Inl (channel_exn f), w1, d)
         | (Inr _, w1) \<Rightarrow> (Inr (''EXPORTED '' @ int_str (int (length content))), w1, d))"

definition execute_delete :: "'w pipe \<Rightarrow> time \<Rightarrow> 'w \<Rightarrow> db \<Rightarrow> 'w run" where
  "execute_delete p now w d =
     (let (removed, d1) = wipe_household (pp_frepr p) now d
      in (Inr (''ERASED '' @ int_str (int (sum_list (map snd removed)))), w, d1))"

definition optional_moment :: "json \<Rightarrow> string \<Rightarrow> datetime option option" where
  "optional_moment payload k =
     (case jtext_or_none payload k of None \<Rightarrow> Some None | Some s \<Rightarrow> map_option Some (fromisoformat s))"

definition execute_calendar :: "'w pipe \<Rightarrow> approval \<Rightarrow> json \<Rightarrow> time \<Rightarrow> 'w \<Rightarrow> db \<Rightarrow> 'w run" where
  "execute_calendar p a payload now w d =
     (case pp_calendar p of None \<Rightarrow> (Inl (Px_error ''no calendar''), w, d)
      | Some (be, cal) \<Rightarrow>
          (case (Option.bind (need (obj_fields payload) ''start'') fromisoformat,
                 need (obj_fields payload) ''title'', optional_moment payload ''end'') of
             (Some start, Some title, Some end_at) \<Rightarrow>
               (let e = build_calendar_event (pp_digest p) (ap_id a)
                      (fact_root (jstr (jget payload ''commitment_id'')) d) title start end_at
                      (jstr (jget payload ''description'')) (jstr (jget payload ''location'')) ''UTC''
                in case upsert be cal e w of
                     (Inl (Calendar_outcome_unknown t), w1) \<Rightarrow> (Inl (Px_unknown t), w1, d)
                   | (Inl _, w1) \<Rightarrow> (Inl (Px_error ''calendar''), w1, d)
                   | (Inr wr, w1) \<Rightarrow>
                       (Inr ((if wr_updated wr then ''UPDATED '' else ''ADDED '') @ title @
                          (case str_or_none (written_link wr) of None \<Rightarrow> [] | Some l \<Rightarrow> nl @ l)), w1,
                        (case jtext_or_none payload ''commitment_id'' of None \<Rightarrow> d
                         | Some c \<Rightarrow> commitment_link c None (Some (ce_id e)) now d)))
           | _ \<Rightarrow> (Inl (Px_error ''payload''), w, d)))"

definition execute_ics :: "'w pipe \<Rightarrow> approval \<Rightarrow> json \<Rightarrow> 'w \<Rightarrow> db \<Rightarrow> 'w run" where
  "execute_ics p a payload w d =
     (case (Option.bind (need (obj_fields payload) ''start'') fromisoformat,
            need (obj_fields payload) ''title'', optional_moment payload ''end'') of
        (Some start, Some title, Some end_at) \<Rightarrow>
          (let e = build_event (ap_id a) title start end_at
                 (jstr (jget payload ''description'')) (jstr (jget payload ''location''))
           in case pp_document p (ap_chat a) (ap_thread a) (filename_for title)
                     (render_ics e (pp_utcnow p)) w of
                (Inl f, w1) \<Rightarrow> (Inl (channel_exn f), w1, d)
              | (Inr _, w1) \<Rightarrow> (Inr (''FILE_SENT '' @ title), w1, d))
      | _ \<Rightarrow> (Inl (Px_error ''payload''), w, d))"

fun mail_exn :: "send_exn \<Rightarrow> pipe_exn" where
  "mail_exn (Outcome_unknown t) = Px_unknown t"
| "mail_exn Binding_changed = Px_binding_changed"
| "mail_exn e = Px_error (exn_name e)"

definition execute_email :: "'w pipe \<Rightarrow> approval \<Rightarrow> json \<Rightarrow> uid \<Rightarrow> 'w \<Rightarrow> db \<Rightarrow> 'w run" where
  "execute_email p a payload effect_id w d =
     (case pp_mail p of None \<Rightarrow> (Inl (Px_error ''no mail''), w, d)
      | Some (env, be) \<Rightarrow>
          (case outgoing_from_payload payload of
             Inl e \<Rightarrow> (Inl (mail_exn e), w, d)
           | Inr l \<Rightarrow>
               (case email_send env be l (ap_id a) (Some effect_id) w d of
                  (Inl e, w1, d1) \<Rightarrow> (Inl (mail_exn e), w1, d1)
                | (Inr r, w1, d1) \<Rightarrow> (Inr (''LETTER_SENT '' @ og_to l), w1, d1))))"

fun whatsapp_exn :: "wa_error \<Rightarrow> pipe_exn" where
  "whatsapp_exn (Wa_outcome_unknown t) = Px_unknown t"
| "whatsapp_exn (Wa_rejected t) = Px_error t"
| "whatsapp_exn (Wa_other t) = Px_error t"

definition execute_whatsapp :: "'w pipe \<Rightarrow> json \<Rightarrow> uid \<Rightarrow> 'w \<Rightarrow> db \<Rightarrow> 'w run" where
  "execute_whatsapp p payload effect_id w d =
     (case pp_whatsapp p of None \<Rightarrow> (Inl (Px_error ''no WhatsApp''), w, d)
      | Some sv \<Rightarrow>
          (let m = whatsapp_from_payload payload
           in case whatsapp_send sv m effect_id w of
                (Inl e, w1) \<Rightarrow> (Inl (whatsapp_exn e), w1, d)
              | (Inr i, w1) \<Rightarrow> (Inr (''WHATSAPP_SENT '' @ wa_to m), w1, d)))"

section \<open>Bundles\<close>

definition execute_item :: "'w pipe \<Rightarrow> approval \<Rightarrow> json \<Rightarrow> uid \<Rightarrow> time \<Rightarrow> 'w \<Rightarrow> db \<Rightarrow> 'w run" where
  "execute_item p a payload effect_id now w d =
     (let kind = payload_kind payload
      in if kind = kind_reminder then execute_reminder p a payload now w d
         else if kind = kind_calendar then execute_calendar p a payload now w d
         else if kind = kind_ics then execute_ics p a payload w d
         else if kind = kind_email then execute_email p a payload effect_id w d
         else if kind = kind_whatsapp then execute_whatsapp p payload effect_id w d
         else (Inl (Px_error ''unknown item kind''), w, d))"

definition item_tool :: "nat \<Rightarrow> string" where "item_tool i = ''item-'' @ nat_digits i"

text \<open>The line of a failed item; rendering it may itself raise.\<close>

definition fail_line :: "item \<Rightarrow> string \<Rightarrow> pipe_exn + string" where
  "fail_line it why =
     (case item_line it of None \<Rightarrow> Inl (Px_error ''item_line'') | Some l \<Rightarrow> Inr (''x '' @ l @ why))"

text \<open>
  One enabled item under its own effect: what the journal answers decides whether it is executed,
  and the outcome is journaled before the next item.
\<close>

definition item_payload_in :: "item \<Rightarrow> json \<Rightarrow> json" where
  "item_payload_in it bundle =
     JObj (dict_set (it_payload it) ''commitment_id'' (jget bundle ''commitment_id''))"

definition run_item ::
  "'w pipe \<Rightarrow> approval \<Rightarrow> json \<Rightarrow> time \<Rightarrow> nat \<Rightarrow> item \<Rightarrow> 'w \<Rightarrow> db \<Rightarrow> (pipe_exn + string \<times> nat) \<times> 'w \<times> db" where
  "run_item p a bundle now i it w d =
     (case journal_begin (pp_uuid p d) (ap_id a) (item_tool i) (item_kind it) (Some (ap_id a)) None
             now effect_lease_seconds d of
        (Inl x, d1) \<Rightarrow> (Inl (Px_error ''journal''), w, d1)
      | (Inr (e, fresh), d1) \<Rightarrow>
          if \<not> fresh \<and> settled e then
            (Inr (''ok '' @ (case str_or_none (ef_result e) of None \<Rightarrow> item_kind it | Some r \<Rightarrow> r), 0), w, d1)
          else
            (case execute_item p a (item_payload_in it bundle) (ef_id e) now w d1 of
               (Inr t, w2, d2) \<Rightarrow> (Inr (''ok '' @ t, 0), w2, journal_complete (ef_id e) t now d2)
             | (Inl (Px_unknown m), w2, d2) \<Rightarrow>
                 (map_sum id (\<lambda>l. (l, 1)) (fail_line it '' UNKNOWN''), w2,
                  journal_outcome_unknown (ef_id e) m now d2)
             | (Inl Px_binding_changed, w2, d2) \<Rightarrow>
                 (map_sum id (\<lambda>l. (l, 1)) (fail_line it '' BINDING''), w2,
                  journal_fail (ef_id e) ''EmailBindingChanged'' now d2)
             | (Inl x, w2, d2) \<Rightarrow>
                 (map_sum id (\<lambda>l. (l, 1)) (fail_line it '' FAILED''), w2,
                  journal_fail (ef_id e) ''error'' now d2)))"

fun run_items ::
  "'w pipe \<Rightarrow> approval \<Rightarrow> json \<Rightarrow> time \<Rightarrow> nat \<Rightarrow> item list \<Rightarrow> 'w \<Rightarrow> db \<Rightarrow>
   (pipe_exn + string list \<times> nat) \<times> 'w \<times> db" where
  "run_items p a bundle now i [] w d = (Inr ([], 0), w, d)"
| "run_items p a bundle now i (it # its) w d =
     (if \<not> it_enabled it then run_items p a bundle now (i + 1) its w d
      else
        (case run_item p a bundle now i it w d of
           (Inl x, w1, d1) \<Rightarrow> (Inl x, w1, d1)
         | (Inr (l, k), w1, d1) \<Rightarrow>
             (case run_items p a bundle now (i + 1) its w1 d1 of
                (Inl x, w2, d2) \<Rightarrow> (Inl x, w2, d2)
              | (Inr (ls, n), w2, d2) \<Rightarrow> (Inr (l # ls, k + n), w2, d2))))"

definition execute_bundle :: "'w pipe \<Rightarrow> approval \<Rightarrow> json \<Rightarrow> time \<Rightarrow> 'w \<Rightarrow> db \<Rightarrow> 'w run" where
  "execute_bundle p a payload now w d =
     (case run_items p a payload now 0 (items_of payload) w d of
        (Inl x, w1, d1) \<Rightarrow> (Inl x, w1, d1)
      | (Inr (ls, failures), w1, d1) \<Rightarrow>
          if failures > 0 then (Inl (Px_partial (join nl (ls @ [[], ''TRY_AGAIN'']))), w1, d1)
          else (Inr (join nl ls), w1, d1))"

section \<open>Execution of an approval\<close>

definition confirm_commitment ::
  "approval \<Rightarrow> json \<Rightarrow> time \<Rightarrow> db \<Rightarrow> (pipe_exn + unit) \<times> db" where
  "confirm_commitment a payload now d =
     (case jtext_or_none payload ''commitment_id'' of None \<Rightarrow> (Inr (), d)
      | Some cid \<Rightarrow>
          (case commitment_get cid d of None \<Rightarrow> (Inr (), d)
           | Some c \<Rightarrow>
               if co_status c \<noteq> Candidate then (Inr (), d)
               else
                 (case commitment_confirm cid a now d of
                    (Inl e, d1) \<Rightarrow> (Inl (Px_error ''commitment''), d1)
                  | (Inr _, d1) \<Rightarrow>
                      (let d2 = (case reminder_for_approval (ap_id a) d1 of None \<Rightarrow> d1
                           | Some r \<Rightarrow> commitment_link cid (Some (re_id r)) None now d1)
                       in (Inr (), case jtext_or_none payload ''calendar_event_id'' of None \<Rightarrow> d2
                           | Some ev \<Rightarrow> commitment_link cid None (Some ev) now d2)))))"

definition dispatch :: "'w pipe \<Rightarrow> approval \<Rightarrow> uid \<Rightarrow> time \<Rightarrow> 'w \<Rightarrow> db \<Rightarrow> 'w run" where
  "dispatch p a effect_id now w d =
     (let payload = ap_payload a; kind = payload_kind payload
      in if kind = kind_reminder then execute_reminder p a payload now w d
         else if kind = kind_calendar then execute_calendar p a payload now w d
         else if kind = kind_ics then execute_ics p a payload w d
         else if kind = kind_memory then execute_memory p a payload now w d
         else if kind = kind_export then execute_export p a w d
         else if kind = kind_delete then execute_delete p now w d
         else if kind = kind_email then execute_email p a payload effect_id w d
         else if kind = kind_whatsapp then execute_whatsapp p payload effect_id w d
         else if kind = kind_bundle then execute_bundle p a payload now w d
         else (Inl (Px_error ''unknown kind''), w, d))"

text \<open>The part of \<open>execute\<close> behind the journal: run, settle, mark, tell.\<close>

definition text_gone :: string where "text_gone = ''TEXT_GONE''"
definition text_outcome_unknown :: string where "text_outcome_unknown = ''TEXT_OUTCOME_UNKNOWN''"
definition text_binding_changed :: string where "text_binding_changed = ''TEXT_BINDING_CHANGED''"
definition text_failed :: string where "text_failed = ''TEXT_FAILED''"

definition fail_with ::
  "'w pipe \<Rightarrow> approval \<Rightarrow> string \<Rightarrow> string \<Rightarrow> time \<Rightarrow> 'w \<Rightarrow> db \<Rightarrow> (pipe_exn + handled) \<times> 'w \<times> db" where
  "fail_with p a err text now w d =
     tell p (ap_chat a) (ap_thread a) text (said (Some (ap_id a)) text) w
       (approval_mark (ap_id a) Ap_failed None (Some err) now d)"

definition perform ::
  "'w pipe \<Rightarrow> approval \<Rightarrow> effect \<Rightarrow> time \<Rightarrow> 'w \<Rightarrow> db \<Rightarrow> (pipe_exn + handled) \<times> 'w \<times> db" where
  "perform p a e now w d =
     (case dispatch p a (ef_id e) now w d of
        (Inl (Px_partial t), w1, d1) \<Rightarrow>
          fail_with p a ''bundle'' t now w1 (journal_fail (ef_id e) ''bundle'' now d1)
      | (Inl (Px_unknown m), w1, d1) \<Rightarrow>
          fail_with p a ''outcome_unknown'' text_outcome_unknown now w1
            (journal_outcome_unknown (ef_id e) m now d1)
      | (Inl Px_binding_changed, w1, d1) \<Rightarrow>
          fail_with p a ''email_binding_changed'' text_binding_changed now w1
            (journal_fail (ef_id e) ''EmailBindingChanged'' now d1)
      | (Inl (Px_error m), w1, d1) \<Rightarrow>
          fail_with p a m text_failed now w1 (journal_fail (ef_id e) m now d1)
      | (Inr text, w1, d1) \<Rightarrow>
          (case confirm_commitment a (ap_payload a) now (journal_complete (ef_id e) text now d1) of
             (Inl x, d2) \<Rightarrow> (Inl x, w1, d2)
           | (Inr _, d2) \<Rightarrow>
               tell p (ap_chat a) (ap_thread a) text
                 \<lparr>hd_approval_id = Some (ap_id a), hd_executed = Some (payload_kind (ap_payload a)),
                  hd_message = Some text\<rparr> w1
                 (approval_mark (ap_id a) Ap_done (Some text) None now d2)))"

definition execute ::
  "'w pipe \<Rightarrow> approval \<Rightarrow> time \<Rightarrow> 'w \<Rightarrow> db \<Rightarrow> (pipe_exn + handled) \<times> 'w \<times> db" where
  "execute p a now w d =
     (case journal_find (ap_id a) approval_tool_use_id d of
        None \<Rightarrow>
          (case journal_begin (pp_uuid p d) (ap_id a) approval_tool_use_id
                  (payload_kind (ap_payload a)) (Some (ap_id a)) None now effect_lease_seconds d of
             (Inl x, d1) \<Rightarrow> (Inl (Px_error ''journal''), w, d1)
           | (Inr (e, fresh), d1) \<Rightarrow> perform p a e now w d1)
      | Some e \<Rightarrow>
          if settled e then
            (Inr (said (Some (ap_id a))
               (case str_or_none (ef_result e) of None \<Rightarrow> text_gone | Some r \<Rightarrow> r)), w, d)
          else perform p a e now w d)"

section \<open>Buttons\<close>

definition text_unknown_actor :: string where "text_unknown_actor = ''TEXT_UNKNOWN_ACTOR''"
definition text_no_right :: string where "text_no_right = ''TEXT_NO_RIGHT''"
definition text_rate_limited :: string where "text_rate_limited = ''TEXT_RATE_LIMITED''"
definition text_rejected :: string where "text_rejected = ''TEXT_REJECTED''"
definition text_edit :: string where "text_edit = ''TEXT_EDIT''"

definition reject_commitment :: "uid \<Rightarrow> time \<Rightarrow> db \<Rightarrow> db" where
  "reject_commitment aid now d =
     (case approval_get aid d of None \<Rightarrow> d
      | Some a \<Rightarrow>
          (let d1 = (case jtext_or_none (ap_payload a) ''commitment_id'' of None \<Rightarrow> d
                     | Some c \<Rightarrow> snd (commitment_reject c now d))
           in case jtext_or_none (ap_payload a) ''statement_id'' of None \<Rightarrow> d1
              | Some m \<Rightarrow> snd (memory_reject m now d1)))"

text \<open>\<open>int(text)\<close> for a decimal numeral with an optional sign and white space around it.\<close>

definition py_int :: "string \<Rightarrow> int option" where
  "py_int s =
     (let t = py_strip s;
          (sign, ds) = (case t of [] \<Rightarrow> (1, [])
             | c # r \<Rightarrow> if c = CHR ''-'' then (-1, r) else if c = CHR ''+'' then (1, r) else (1, t))
      in if ds = [] then None else map_option (\<lambda>n. sign * int n) (num (length ds) ds))"

definition toggle_item ::
  "'w pipe \<Rightarrow> uid \<Rightarrow> string option \<Rightarrow> run_context \<Rightarrow> time \<Rightarrow> 'w \<Rightarrow> db \<Rightarrow> (pipe_exn + handled) \<times> 'w \<times> db" where
  "toggle_item p aid index c now w d =
     (case approval_get aid d of
        None \<Rightarrow> tell p (rc_chat_id c) (rc_thread_id c) text_gone (said (Some aid) text_gone) w d
      | Some a \<Rightarrow>
          if ap_status a \<noteq> Ap_staged then
            tell p (rc_chat_id c) (rc_thread_id c) text_gone (said (Some aid) text_gone) w d
          else
            (case py_int (case index of None \<Rightarrow> [] | Some i \<Rightarrow> i) of
               None \<Rightarrow> (Inr \<lparr>hd_approval_id = Some aid, hd_executed = None, hd_message = None\<rparr>, w, d)
             | Some position \<Rightarrow>
                 (let payload = toggled (ap_payload a) position
                  in if payload = ap_payload a then
                       (Inr \<lparr>hd_approval_id = Some aid, hd_executed = None, hd_message = None\<rparr>, w, d)
                     else
                       (let d1 = snd (approval_cancel aid now d);
                            ((nid, code, exp), d2) = stage (pp_hash p) (pp_frepr p) (pp_uuid p d1) (pp_code p d1)
                              kind_bundle payload (ap_chat a) (ap_actor a) (ap_thread a)
                              (ap_context_key a) (ap_event_id a) ttl_seconds now d1
                        in case render_bundle None (items_of payload) (Some nid) (Some code) None
                                  (Some (jtext payload ''header'')) of
                             None \<Rightarrow> (Inl (Px_error ''card''), w, d2)
                           | Some crd \<Rightarrow>
                               (case pp_send p (ap_chat a) (ap_thread a) (cd_text crd)
                                       (map (\<lambda>b. (bt_label b, callback_data b)) (cd_buttons crd)) w of
                                  (Inl f, w1) \<Rightarrow> (Inl (channel_exn f), w1, d2)
                                | (Inr _, w1) \<Rightarrow> (Inr (said (Some nid) (cd_text crd)), w1, d2))))))"

definition handle_callback ::
  "'w pipe \<Rightarrow> string \<Rightarrow> uid \<Rightarrow> run_context \<Rightarrow> string option \<Rightarrow> time \<Rightarrow> 'w \<Rightarrow> db \<Rightarrow>
   (pipe_exn + handled) \<times> 'w \<times> db" where
  "handle_callback p action aid c argument now w d =
     (let say = (\<lambda>t h w d. tell p (rc_chat_id c) (rc_thread_id c) t h w d)
      in if \<not> is_known c then say text_unknown_actor (said None text_unknown_actor) w d
         else if action = action_text Act_toggle then toggle_item p aid argument c now w d
         else if action = action_text Act_reject \<or> action = action_text Act_edit then
           (let t = (if action = action_text Act_reject then text_rejected else text_edit)
            in say t (said (Some aid) t) w (reject_commitment aid now (snd (approval_cancel aid now d))))
         else if action \<noteq> action_text Act_confirm then
           (Inr \<lparr>hd_approval_id = None, hd_executed = None, hd_message = None\<rparr>, w, d)
         else if (case approval_get aid d of None \<Rightarrow> False | Some a \<Rightarrow> \<not> may_confirm c (ap_payload a))
           then say text_no_right (said (Some aid) text_no_right) w d
         else
           (case claim_by_id (pp_hash p) (pp_frepr p) (pp_uuid p d) (pp_uuid p d) aid (rc_chat_id c)
                   (rc_thread_id c) (rc_actor_id c) now d of
              (Inl Rate_limited, d1) \<Rightarrow> say text_rate_limited (said (Some aid) text_rate_limited) w d1
            | (Inl _, d1) \<Rightarrow> (Inl (Px_error ''claim''), w, d1)
            | (Inr None, d1) \<Rightarrow> say text_gone (said (Some aid) text_gone) w d1
            | (Inr (Some a), d1) \<Rightarrow> execute p a now w d1))"

section \<open>After a crash\<close>

definition reconcile_one ::
  "'w pipe \<Rightarrow> time \<Rightarrow> effect \<Rightarrow> 'w \<Rightarrow> db \<Rightarrow> (pipe_exn + handled list) \<times> 'w \<times> db" where
  "reconcile_one p now e w d =
     (let found = (case str_or_none (ef_approval_id e) of None \<Rightarrow> None | Some i \<Rightarrow> approval_get i d)
      in case found of
           None \<Rightarrow> (Inr [], w, journal_outcome_unknown (ef_id e) ''approval not found'' now d)
         | Some a \<Rightarrow>
             if ef_kind e \<in> replayable_kinds then
               (case execute p a now w d of
                  (Inl x, w1, d1) \<Rightarrow> (Inl x, w1, d1)
                | (Inr h, w1, d1) \<Rightarrow> (Inr [h], w1, d1))
             else
               (case tell p (ap_chat a) (ap_thread a) text_outcome_unknown
                       (said (Some (ap_id a)) text_outcome_unknown) w
                       (approval_mark (ap_id a) Ap_failed None (Some ''outcome_unknown'') now
                         (journal_outcome_unknown (ef_id e) ''crashed while sending'' now d)) of
                  (Inl x, w1, d1) \<Rightarrow> (Inl x, w1, d1)
                | (Inr h, w1, d1) \<Rightarrow> (Inr [h], w1, d1)))"

fun reconcile_all ::
  "'w pipe \<Rightarrow> time \<Rightarrow> effect list \<Rightarrow> 'w \<Rightarrow> db \<Rightarrow> (pipe_exn + handled list) \<times> 'w \<times> db" where
  "reconcile_all p now [] w d = (Inr [], w, d)"
| "reconcile_all p now (e # es) w d =
     (case reconcile_one p now e w d of
        (Inl x, w1, d1) \<Rightarrow> (Inl x, w1, d1)
      | (Inr hs, w1, d1) \<Rightarrow>
          (case reconcile_all p now es w1 d1 of
             (Inl x, w2, d2) \<Rightarrow> (Inl x, w2, d2)
           | (Inr hs', w2, d2) \<Rightarrow> (Inr (hs @ hs'), w2, d2)))"

definition reconcile :: "'w pipe \<Rightarrow> time \<Rightarrow> 'w \<Rightarrow> db \<Rightarrow> (pipe_exn + handled list) \<times> 'w \<times> db" where
  "reconcile p now w d = reconcile_all p now (journal_stale now 50 d) w d"

section \<open>What the journal remembers\<close>

text \<open>\<open>entry\<close>: the action is journaled under this id; \<open>settled_entry\<close>: and its outcome is known.\<close>

definition entry :: "string \<Rightarrow> string \<Rightarrow> uid \<Rightarrow> db \<Rightarrow> bool" where
  "entry run tool i d \<longleftrightarrow> (\<exists>e. journal_find run tool d = Some e \<and> ef_id e = i)"

definition settled_entry :: "string \<Rightarrow> string \<Rightarrow> db \<Rightarrow> bool" where
  "settled_entry run tool d \<longleftrightarrow> (\<exists>e. journal_find run tool d = Some e \<and> settled e)"

lemma find_tbl_update:
  assumes "\<And>x. Q (f x) = Q x"
  shows "find Q (tbl_update P f T) = map_option (\<lambda>x. if P x then f x else x) (find Q T)"
  using assms by (induction T) auto

lemma find_settle:
  "journal_find run tool (journal_settle i st r er now d) =
     map_option (\<lambda>e. if ef_id e = i then e\<lparr>ef_status := st, ef_result := r, ef_error := er,
        ef_lease_until := None, ef_updated_at := now\<rparr> else e) (journal_find run tool d)"
  by (simp add: journal_find_def journal_settle_def find_tbl_update)

lemma entry_settle [simp]: "entry run tool j (journal_settle i st r er now d) = entry run tool j d"
  by (cases "journal_find run tool d") (auto simp: entry_def find_settle)

lemma closed_settle:
  "settled_entry run tool d \<Longrightarrow> settled_status st \<Longrightarrow> settled_entry run tool (journal_settle i st r er now d)"
  by (cases "journal_find run tool d") (auto simp: settled_entry_def find_settle settled_def)

lemma settle_closes:
  "entry run tool i d \<Longrightarrow> settled_status st \<Longrightarrow> settled_entry run tool (journal_settle i st r er now d)"
  by (cases "journal_find run tool d") (auto simp: settled_entry_def entry_def find_settle settled_def)

lemma same_effects:
  assumes "t_effects d' = t_effects d"
  shows "journal_find run tool d' = journal_find run tool d" "entry run tool i d' = entry run tool i d"
    "settled_entry run tool d' = settled_entry run tool d" "journal_keys d' = journal_keys d"
  using assms by (simp_all add: journal_find_def entry_def settled_entry_def journal_keys_def)

lemma begin_find:
  assumes "journal_begin nid run tool kind aid sha now lease d = (res, d')"
  shows "journal_find r t d = Some e \<Longrightarrow> journal_find r t d' = Some e"
    and "journal_keys d' \<subseteq> insert (run, tool) (journal_keys d)"
    and "res = Inr (e', fresh) \<Longrightarrow> entry run tool (ef_id e') d'"
    and "res = Inr (e', fresh) \<Longrightarrow> \<not> fresh \<Longrightarrow> journal_find run tool d' = Some e'"
    and "res = Inl x \<Longrightarrow> d' = d"
proof -
  let ?new = "new_effect nid run tool kind aid sha now lease"
  have "(journal_find r t d = Some e \<longrightarrow> journal_find r t d' = Some e) \<and>
    journal_keys d' \<subseteq> insert (run, tool) (journal_keys d) \<and>
    (\<forall>e' fresh. res = Inr (e', fresh) \<longrightarrow> entry run tool (ef_id e') d' \<and>
       (\<not> fresh \<longrightarrow> journal_find run tool d' = Some e')) \<and> (\<forall>x. res = Inl x \<longrightarrow> d' = d)" for r t e
  proof (cases "journal_find run tool d")
    case (Some f)
    then have "d' = d \<and> (res = Inr (f, False) \<or> (\<exists>x. res = Inl x))"
      using assms by (auto simp: journal_begin_def write_tx_def split: if_splits)
    then show ?thesis using Some by (auto simp: entry_def)
  next
    case None
    then have k: "(run, tool) \<notin> effect_key ` set (t_effects d)"
      by (simp add: journal_find_None journal_keys_def)
    let ?d = "d\<lparr>t_effects := t_effects d @ [?new]\<rparr>"
    have "nid \<in> set (map ef_id (t_effects ?d))" by simp
    then obtain g where g: "journal_get nid ?d = Some g" "ef_id g = nid"
      using tbl_get_ex [of nid ef_id "t_effects ?d"] tbl_get_SomeD
      by (metis journal_get_def)
    have "journal_begin nid run tool kind aid sha now lease d = (Inr (g, True), ?d)"
      using None k g by (simp add: journal_begin_def write_tx_def record_attempt_def)
    then have r: "res = Inr (g, True)" "d' = ?d" using assms by auto
    have f: "journal_find run tool ?d = Some ?new"
      using None by (simp add: journal_find_def find_append_case new_effect_def)
    have "journal_find r t d = Some e \<longrightarrow> journal_find r t ?d = Some e"
      by (simp add: journal_find_def find_append_case)
    moreover have "journal_keys ?d = insert (run, tool) (journal_keys d)"
      by (simp add: journal_keys_def)
    ultimately show ?thesis using r f g by (simp add: entry_def)
  qed
  then show "journal_find r t d = Some e \<Longrightarrow> journal_find r t d' = Some e"
    "journal_keys d' \<subseteq> insert (run, tool) (journal_keys d)"
    "res = Inr (e', fresh) \<Longrightarrow> entry run tool (ef_id e') d'"
    "res = Inr (e', fresh) \<Longrightarrow> \<not> fresh \<Longrightarrow> journal_find run tool d' = Some e'"
    "res = Inl x \<Longrightarrow> d' = d" by blast+
qed

lemma begin_when_new:
  assumes "journal_find run tool d = None"
    "journal_begin nid run tool kind aid sha now lease d = (res, d')"
  shows "\<exists>e fresh. res = Inr (e, fresh)"
proof -
  let ?d = "d\<lparr>t_effects := t_effects d @ [new_effect nid run tool kind aid sha now lease]\<rparr>"
  have k: "(run, tool) \<notin> effect_key ` set (t_effects d)"
    using assms(1) by (simp add: journal_find_None journal_keys_def)
  have "nid \<in> set (map ef_id (t_effects ?d))" by simp
  then obtain g where "journal_get nid ?d = Some g"
    using tbl_get_ex [of nid ef_id "t_effects ?d"] by (metis journal_get_def)
  then show ?thesis
    using assms k by (auto simp: journal_begin_def write_tx_def record_attempt_def)
qed

lemma begin_keeps:
  assumes "journal_begin nid run tool kind aid sha now lease d = (res, d')"
  shows "entry r t i d \<Longrightarrow> entry r t i d'" "settled_entry r t d \<Longrightarrow> settled_entry r t d'"
  using begin_find(1) [OF assms] by (auto simp: entry_def settled_entry_def)

text \<open>The executors leave the journal alone.\<close>

lemma store_frames [frame_simps]:
  "t_effects (snd (reminder_cancel i now d)) = t_effects d"
  "t_effects (snd (reminder_create n c tx du th ap now d)) = t_effects d"
  "t_effects (commitment_link c r ev now d) = t_effects d"
  "t_effects (approval_mark i st rc er now d) = t_effects d"
  by (simp_all add: reminder_cancel_def reminder_create_def reminders_set_def commitment_link_def
      commitments_set_def approval_mark_def approvals_set_def Let_def)

lemma memory_confirm_frame: "memory_confirm i a now d = (r, d') \<Longrightarrow> t_effects d' = t_effects d"
  by (auto simp: memory_confirm_def write_tx_def memory_set_def Let_def
      split: if_splits option.splits sum.splits prod.splits)

lemma commitment_confirm_frame: "commitment_confirm i a now d = (r, d') \<Longrightarrow> t_effects d' = t_effects d"
  by (auto simp: commitment_confirm_def commitments_set_def Let_def split: if_splits)

lemma send_settle_frame [frame_simps]: "t_effects (settle_if env r err d) = t_effects d"
  by (simp add: settle_if_def send_settle_def Let_def)

lemma replay_pending_frame: "replay_pending env be q w d = (r, w', d') \<Longrightarrow> t_effects d' = t_effects d"
  by (auto simp: replay_pending_def Let_def frame_simps
      split: if_splits sum.splits prod.splits send_exn.splits)

lemma deliver_frame: "deliver env be q w d = (r, w', d') \<Longrightarrow> t_effects d' = t_effects d"
  by (auto simp: deliver_def Let_def frame_simps
      split: if_splits sum.splits prod.splits send_exn.splits)

lemma send_begin_frame: "send_begin eff appr b sha mid now d = (r, d') \<Longrightarrow> t_effects d' = t_effects d"
  by (auto simp: send_begin_def Let_def split: if_splits option.splits)

lemma email_send_journal_frame:
  assumes "email_send env be l appr eff w d = (r, w', d')"
  shows "t_effects d' = t_effects d"
proof (cases "prepare env l appr eff d")
  case (Inl e)
  then show ?thesis using assms by (simp add: email_send_def)
next
  case (Inr q)
  obtain b d1 where b: "send_begin (rq_effect_id q) appr (rq_binding q) (rq_sha256 q)
      (rq_message_id q) (sv_now env) d = (b, d1)" by fastforce
  then have d1: "t_effects d1 = t_effects d" by (rule send_begin_frame)
  have "d' = d1 \<or> (\<exists>x. x \<in> {d, d1} \<and>
      (deliver env be q w x = (r, w', d') \<or> replay_pending env be q w x = (r, w', d')))"
    using assms Inr b
    by (auto simp: email_send_def split: if_splits sum.splits prod.splits option.splits)
  then show ?thesis using d1 deliver_frame replay_pending_frame by (metis insertE singletonD)
qed

lemma executor_frames:
  "execute_reminder p a pl now w d = (r, w', d') \<Longrightarrow> t_effects d' = t_effects d"
  "execute_memory p a pl now w d = (r, w', d') \<Longrightarrow> t_effects d' = t_effects d"
  "execute_export p a w d = (r, w', d') \<Longrightarrow> t_effects d' = t_effects d"
  "execute_calendar p a pl now w d = (r, w', d') \<Longrightarrow> t_effects d' = t_effects d"
  "execute_ics p a pl w d = (r, w', d') \<Longrightarrow> t_effects d' = t_effects d"
  "execute_email p a pl i w d = (r, w', d') \<Longrightarrow> t_effects d' = t_effects d"
  "execute_whatsapp p pl i w d = (r, w', d') \<Longrightarrow> t_effects d' = t_effects d"
proof -
  show "execute_reminder p a pl now w d = (r, w', d') \<Longrightarrow> t_effects d' = t_effects d"
    by (auto simp: execute_reminder_def Let_def frame_simps split: option.splits)
  show "execute_memory p a pl now w d = (r, w', d') \<Longrightarrow> t_effects d' = t_effects d"
    by (auto simp: execute_memory_def split: option.splits if_splits prod.splits sum.splits
        dest: memory_confirm_frame)
  show "execute_export p a w d = (r, w', d') \<Longrightarrow> t_effects d' = t_effects d"
    by (auto simp: execute_export_def Let_def split: prod.splits sum.splits)
  show "execute_calendar p a pl now w d = (r, w', d') \<Longrightarrow> t_effects d' = t_effects d"
    by (auto simp: execute_calendar_def Let_def frame_simps
        split: option.splits prod.splits sum.splits calendar_error.splits)
  show "execute_ics p a pl w d = (r, w', d') \<Longrightarrow> t_effects d' = t_effects d"
    by (auto simp: execute_ics_def Let_def split: option.splits prod.splits sum.splits)
  show "execute_email p a pl i w d = (r, w', d') \<Longrightarrow> t_effects d' = t_effects d"
    by (auto simp: execute_email_def split: option.splits prod.splits sum.splits
        dest: email_send_journal_frame)
  show "execute_whatsapp p pl i w d = (r, w', d') \<Longrightarrow> t_effects d' = t_effects d"
    by (auto simp: execute_whatsapp_def Let_def split: option.splits prod.splits sum.splits)
qed

lemma execute_item_frame:
  "execute_item p a pl i now w d = (r, w', d') \<Longrightarrow> t_effects d' = t_effects d"
  by (auto simp: execute_item_def Let_def split: if_splits dest: executor_frames)

lemma run_item_journal:
  assumes "run_item p a bundle now i it w d = (res, w', d')"
  shows "journal_keys d' \<subseteq> insert (ap_id a, item_tool i) (journal_keys d)"
    and "entry run tool j d \<Longrightarrow> entry run tool j d'"
    and "settled_entry run tool d \<Longrightarrow> settled_entry run tool d'"
    and "res = Inr v \<Longrightarrow> settled_entry (ap_id a) (item_tool i) d'"
proof -
  obtain b d1 where b: "journal_begin (pp_uuid p d) (ap_id a) (item_tool i) (item_kind it)
      (Some (ap_id a)) None now effect_lease_seconds d = (b, d1)" by fastforce
  note bf = begin_find [OF b] and bk = begin_keeps [OF b]
  have "journal_keys d' \<subseteq> insert (ap_id a, item_tool i) (journal_keys d) \<and>
    (entry run tool j d \<longrightarrow> entry run tool j d') \<and> (settled_entry run tool d \<longrightarrow> settled_entry run tool d') \<and>
    (res = Inr v \<longrightarrow> settled_entry (ap_id a) (item_tool i) d')"
  proof (cases "(\<exists>x. b = Inl x) \<or> (\<exists>e. b = Inr (e, False) \<and> settled e)")
    case True
    then have "d' = d1" "res = Inr v \<Longrightarrow> \<exists>e. b = Inr (e, False) \<and> settled e"
      using assms b by (auto simp: run_item_def)
    moreover have "settled_entry (ap_id a) (item_tool i) d1" if "\<exists>e. b = Inr (e, False) \<and> settled e"
      using that bf(4) by (auto simp: settled_entry_def)
    ultimately show ?thesis using bf(2) bk by blast
  next
    case False
    then obtain e fresh where e: "b = Inr (e, fresh)" "\<not> (\<not> fresh \<and> settled e)"
      by (metis sum.exhaust surj_pair)
    obtain r w2 d2 where x: "execute_item p a (item_payload_in it bundle) (ef_id e) now w d1 = (r, w2, d2)"
      by (metis surj_pair)
    have same: "t_effects d2 = t_effects d1" using execute_item_frame [OF x] .
    obtain st rr er where d': "d' = journal_settle (ef_id e) st rr er now d2" "settled_status st"
    proof (cases r)
      case (Inl y)
      then show thesis
        using assms b e x that
        by (cases y) (auto simp: run_item_def journal_settle_defs)
    next
      case (Inr t)
      then show thesis using assms b e x that by (auto simp: run_item_def journal_settle_defs)
    qed
    have en: "entry (ap_id a) (item_tool i) (ef_id e) d2"
      using bf(3) e(1) same_effects(2) [OF same] by blast
    show ?thesis
      using bf(2) bk same_effects [OF same] closed_settle settle_closes [OF en d'(2)] d'
      by (auto simp: d'(1))
  qed
  then show "journal_keys d' \<subseteq> insert (ap_id a, item_tool i) (journal_keys d)"
    "entry run tool j d \<Longrightarrow> entry run tool j d'" "settled_entry run tool d \<Longrightarrow> settled_entry run tool d'"
    "res = Inr v \<Longrightarrow> settled_entry (ap_id a) (item_tool i) d'" by blast+
qed

text \<open>The keys of the enabled items among the items numbered from \<open>i\<close>.\<close>

fun enabled_tools :: "nat \<Rightarrow> item list \<Rightarrow> string set" where
  "enabled_tools i [] = {}"
| "enabled_tools i (it # its) = (if it_enabled it then {item_tool i} else {}) \<union> enabled_tools (i + 1) its"

lemma enabled_tools_eq:
  "enabled_tools i its = {item_tool (i + k) |k. k < length its \<and> it_enabled (its ! k)}"
proof (induction its arbitrary: i)
  case (Cons it its)
  have "{item_tool (i + k) |k. k < length (it # its) \<and> it_enabled ((it # its) ! k)} =
      (if it_enabled it then {item_tool i} else {}) \<union>
      {item_tool (i + 1 + k) |k. k < length its \<and> it_enabled (its ! k)}" (is "?l = ?r")
  proof (rule set_eqI)
    fix x
    have "x \<in> ?l \<longleftrightarrow> (\<exists>k. x = item_tool (i + k) \<and> k < Suc (length its) \<and> it_enabled ((it # its) ! k))"
      by auto
    also have "\<dots> \<longleftrightarrow> (it_enabled it \<and> x = item_tool i) \<or>
        (\<exists>k. x = item_tool (i + Suc k) \<and> k < length its \<and> it_enabled (its ! k))"
    proof
      assume "\<exists>k. x = item_tool (i + k) \<and> k < Suc (length its) \<and> it_enabled ((it # its) ! k)"
      then obtain k where k: "x = item_tool (i + k)" "k < Suc (length its)" "it_enabled ((it # its) ! k)"
        by blast
      then show "(it_enabled it \<and> x = item_tool i) \<or>
        (\<exists>k. x = item_tool (i + Suc k) \<and> k < length its \<and> it_enabled (its ! k))"
        by (cases k) auto
    next
      assume "(it_enabled it \<and> x = item_tool i) \<or>
        (\<exists>k. x = item_tool (i + Suc k) \<and> k < length its \<and> it_enabled (its ! k))"
      then show "\<exists>k. x = item_tool (i + k) \<and> k < Suc (length its) \<and> it_enabled ((it # its) ! k)"
        by (metis Suc_less_eq add.right_neutral nth_Cons_0 nth_Cons_Suc zero_less_Suc)
    qed
    also have "\<dots> \<longleftrightarrow> x \<in> ?r" by auto
    finally show "x \<in> ?l \<longleftrightarrow> x \<in> ?r" .
  qed
  then show ?case using Cons.IH [of "i + 1"] by simp
qed simp

lemma run_items_journal:
  assumes "run_items p a pl now i its w d = (res, w', d')"
  shows "journal_keys d' \<subseteq> Pair (ap_id a) ` enabled_tools i its \<union> journal_keys d"
    and "entry run tool j d \<Longrightarrow> entry run tool j d'"
    and "settled_entry run tool d \<Longrightarrow> settled_entry run tool d'"
    and "res = Inr v \<Longrightarrow> t \<in> enabled_tools i its \<Longrightarrow> settled_entry (ap_id a) t d'"
proof -
  have "journal_keys d' \<subseteq> Pair (ap_id a) ` enabled_tools i its \<union> journal_keys d \<and>
    (\<forall>run tool j. entry run tool j d \<longrightarrow> entry run tool j d') \<and>
    (\<forall>run tool. settled_entry run tool d \<longrightarrow> settled_entry run tool d') \<and>
    (\<forall>v t. res = Inr v \<longrightarrow> t \<in> enabled_tools i its \<longrightarrow> settled_entry (ap_id a) t d')"
    using assms
  proof (induction its arbitrary: i w d res)
    case (Cons it its)
    show ?case
    proof (cases "it_enabled it")
      case False
      then show ?thesis using Cons by auto
    next
      case True
      obtain x w1 d1 where x: "run_item p a pl now i it w d = (x, w1, d1)" by (metis surj_pair)
      note rj = run_item_journal [OF x]
      show ?thesis
      proof (cases x)
        case (Inl y)
        then have "d' = d1" "res = Inl y" using Cons.prems True x by auto
        then show ?thesis using rj(1-3) True by auto
      next
        case (Inr lk)
        obtain l k where lk: "lk = (l, k)" by fastforce
        obtain r w2 d2 where r: "run_items p a pl now (i + 1) its w1 d1 = (r, w2, d2)"
          by (metis surj_pair)
        have d': "w' = w2" "d' = d2" "\<And>v. res = Inr v \<Longrightarrow> \<exists>u. r = Inr u"
          using Cons.prems True x Inr lk r by (auto split: sum.splits)
        have IH: "journal_keys d2 \<subseteq> Pair (ap_id a) ` enabled_tools (i + 1) its \<union> journal_keys d1 \<and>
          (\<forall>run tool j. entry run tool j d1 \<longrightarrow> entry run tool j d2) \<and>
          (\<forall>run tool. settled_entry run tool d1 \<longrightarrow> settled_entry run tool d2) \<and>
          (\<forall>v t. r = Inr v \<longrightarrow> t \<in> enabled_tools (i + 1) its \<longrightarrow> settled_entry (ap_id a) t d2)"
          using Cons.IH [of "i + 1" w1 d1 r] r d'(1,2) by simp
        show ?thesis
          using IH rj(1-3) rj(4) [OF Inr] True d' by (auto 4 3)
      qed
    qed
  qed auto
  then show "journal_keys d' \<subseteq> Pair (ap_id a) ` enabled_tools i its \<union> journal_keys d"
    "entry run tool j d \<Longrightarrow> entry run tool j d'" "settled_entry run tool d \<Longrightarrow> settled_entry run tool d'"
    "res = Inr v \<Longrightarrow> t \<in> enabled_tools i its \<Longrightarrow> settled_entry (ap_id a) t d'" by blast+
qed

lemma run_item_not_partial: "fst (run_item p a pl now i it w d) \<noteq> Inl (Px_partial t)"
proof -
  obtain b d1 where b: "journal_begin (pp_uuid p d) (ap_id a) (item_tool i) (item_kind it)
      (Some (ap_id a)) None now effect_lease_seconds d = (b, d1)" by fastforce
  have line: "map_sum id g (fail_line it why) \<noteq> Inl (Px_partial t)" for g :: "string \<Rightarrow> string \<times> nat" and why
    by (auto simp: fail_line_def split: option.splits)
  show ?thesis
    using b line by (auto simp: run_item_def split: sum.splits prod.splits pipe_exn.splits)
qed

lemma run_items_not_partial: "fst (run_items p a pl now i its w d) \<noteq> Inl (Px_partial t)"
proof (induction its arbitrary: i w d)
  case (Cons it its)
  obtain x w1 d1 where x: "run_item p a pl now i it w d = (x, w1, d1)" by (metis surj_pair)
  then have "x \<noteq> Inl (Px_partial t)" using run_item_not_partial by (metis fst_conv)
  then show ?case using x Cons.IH [of "i + 1" w1 d1] Cons.IH [of "i + 1" w d]
    by (auto split: sum.splits prod.splits)
qed simp

section \<open>What an execution leaves in the journal\<close>

lemma execute_bundle_journal:
  assumes "execute_bundle p a payload now w d = (res, w', d')"
  shows "journal_keys d' \<subseteq> Pair (ap_id a) ` enabled_tools 0 (items_of payload) \<union> journal_keys d"
    and "entry run tool j d \<Longrightarrow> entry run tool j d'"
    and "res = Inr t \<or> res = Inl (Px_partial t) \<Longrightarrow> tool \<in> enabled_tools 0 (items_of payload) \<Longrightarrow>
      settled_entry (ap_id a) tool d'"
proof -
  obtain r w1 d1 where r: "run_items p a payload now 0 (items_of payload) w d = (r, w1, d1)"
    by (metis surj_pair)
  have d': "d' = d1" using assms r by (auto simp: execute_bundle_def split: sum.splits if_splits)
  note rj = run_items_journal [OF r]
  show "journal_keys d' \<subseteq> Pair (ap_id a) ` enabled_tools 0 (items_of payload) \<union> journal_keys d"
    "entry run tool j d \<Longrightarrow> entry run tool j d'"
    using rj(1,2) d' by simp_all
  have "\<exists>v. r = Inr v" if "res = Inr t \<or> res = Inl (Px_partial t)"
  proof (cases r)
    case (Inl x)
    then have "res = Inl x" using assms r by (simp add: execute_bundle_def)
    then have x: "x = Px_partial t" using that by auto
    have "r \<noteq> Inl (Px_partial t)" for t
      using run_items_not_partial [of p a payload now 0 "items_of payload" w d t] r by simp
    then show ?thesis using Inl x by blast
  qed simp
  then show "res = Inr t \<or> res = Inl (Px_partial t) \<Longrightarrow> tool \<in> enabled_tools 0 (items_of payload) \<Longrightarrow>
      settled_entry (ap_id a) tool d'"
    using rj(4) d' by blast
qed

lemma dispatch_entry:
  assumes "dispatch p a i now w d = (r, w', d')" "payload_kind (ap_payload a) \<noteq> kind_delete"
    "entry run tool j d"
  shows "entry run tool j d'"
proof (cases "payload_kind (ap_payload a) = kind_bundle")
  case True
  then have "execute_bundle p a (ap_payload a) now w d = (r, w', d')"
    using assms(1) by (simp add: dispatch_def Let_def kind_defs)
  from execute_bundle_journal(2) [OF this assms(3)] show ?thesis .
next
  case False
  then have "t_effects d' = t_effects d"
    using assms(1,2) by (auto simp: dispatch_def Let_def split: if_splits dest: executor_frames)
  then show ?thesis using assms(3) same_effects(2) by blast
qed

lemma confirm_commitment_frame: "confirm_commitment a pl now d = (r, d') \<Longrightarrow> t_effects d' = t_effects d"
  by (auto simp: confirm_commitment_def Let_def frame_simps
      split: option.splits if_splits prod.splits sum.splits dest: commitment_confirm_frame)

lemma tell_db: "tell p c t x h w d = (r, w', d') \<Longrightarrow> d' = d"
  by (auto simp: tell_def split: prod.splits sum.splits)

lemma fail_with_frame: "fail_with p a er x now w d = (r, w', d') \<Longrightarrow> t_effects d' = t_effects d"
  by (auto simp: fail_with_def frame_simps dest: tell_db)

lemma perform_settles:
  assumes "perform p a e now w d = (res, w', d')" "payload_kind (ap_payload a) \<noteq> kind_delete"
    "entry (ap_id a) tool (ef_id e) d"
  shows "settled_entry (ap_id a) tool d'"
proof -
  obtain r w1 d1 where x: "dispatch p a (ef_id e) now w d = (r, w1, d1)" by (metis surj_pair)
  have en: "entry (ap_id a) tool (ef_id e) d1" by (rule dispatch_entry [OF x assms(2,3)])
  have "\<exists>st rr er. settled_status st \<and>
      t_effects d' = t_effects (journal_settle (ef_id e) st rr er now d1)"
  proof (cases r)
    case (Inl y)
    have "\<exists>st er m t. settled_status st \<and>
        fail_with p a m t now w1 (journal_settle (ef_id e) st None er now d1) = (res, w', d')"
    proof (cases y)
      case (Px_unknown m)
      then show ?thesis
        using assms(1) x Inl
        by (intro exI [of _ Ef_outcome_unknown])
          (auto simp: perform_def journal_outcome_unknown_def)
    next
      case Px_binding_changed
      then show ?thesis using assms(1) x Inl
        by (intro exI [of _ Ef_failed]) (auto simp: perform_def journal_fail_def)
    next
      case (Px_partial m)
      then show ?thesis using assms(1) x Inl
        by (intro exI [of _ Ef_failed]) (auto simp: perform_def journal_fail_def)
    next
      case (Px_error m)
      then show ?thesis using assms(1) x Inl
        by (intro exI [of _ Ef_failed]) (auto simp: perform_def journal_fail_def)
    qed
    then show ?thesis by (metis fail_with_frame)
  next
    case (Inr t)
    let ?d = "journal_settle (ef_id e) Ef_done (Some t) None now d1"
    obtain c d2 where c: "confirm_commitment a (ap_payload a) now ?d = (c, d2)" by fastforce
    have "t_effects d' = t_effects d2"
      using assms(1) x Inr c
      by (auto simp: perform_def journal_complete_def frame_simps split: sum.splits dest!: tell_db)
    then show ?thesis using confirm_commitment_frame [OF c] by (metis settled_status.simps(2))
  qed
  then show ?thesis using settle_closes [OF en] same_effects(3) by metis
qed

lemma execute_settles:
  assumes "execute p a now w d = (res, w', d')" "payload_kind (ap_payload a) \<noteq> kind_delete"
  shows "settled_entry (ap_id a) approval_tool_use_id d'"
    and "settled_entry (ap_id a) approval_tool_use_id d \<Longrightarrow> w' = w \<and> d' = d \<and> (\<exists>h. res = Inr h)"
proof -
  show "settled_entry (ap_id a) approval_tool_use_id d'"
  proof (cases "journal_find (ap_id a) approval_tool_use_id d")
    case None
    obtain b d1 where b: "journal_begin (pp_uuid p d) (ap_id a) approval_tool_use_id
        (payload_kind (ap_payload a)) (Some (ap_id a)) None now effect_lease_seconds d = (b, d1)"
      by fastforce
    have "\<exists>e fresh. b = Inr (e, fresh)" using begin_when_new [OF None b] .
    then obtain e fresh where e: "b = Inr (e, fresh)" by blast
    then have "perform p a e now w d1 = (res, w', d')" using assms(1) None b by (simp add: execute_def)
    from perform_settles [OF this assms(2) begin_find(3) [OF b e]] show ?thesis .
  next
    case (Some e)
    then have en: "entry (ap_id a) approval_tool_use_id (ef_id e) d" by (auto simp: entry_def)
    show ?thesis
    proof (cases "settled e")
      case True
      then show ?thesis using assms(1) Some by (auto simp: execute_def settled_entry_def)
    next
      case False
      then show ?thesis using assms Some en perform_settles by (simp add: execute_def)
    qed
  qed
  show "settled_entry (ap_id a) approval_tool_use_id d \<Longrightarrow> w' = w \<and> d' = d \<and> (\<exists>h. res = Inr h)"
    using assms(1) by (auto simp: execute_def settled_entry_def)
qed

section \<open>Settling after a crash\<close>

definition outcome_unknown :: "uid \<Rightarrow> db \<Rightarrow> bool" where
  "outcome_unknown i d \<longleftrightarrow> (\<forall>r \<in> set (t_effects d). ef_id r = i \<longrightarrow> ef_status r = Ef_outcome_unknown)"

lemma outcome_unknown_settle:
  "outcome_unknown i (journal_outcome_unknown i er now d)"
  "outcome_unknown j d \<Longrightarrow> outcome_unknown j (journal_outcome_unknown i er now d)"
proof -
  have "t_effects (journal_outcome_unknown i er now d) = tbl_update (\<lambda>e. ef_id e = i)
      (\<lambda>e. e\<lparr>ef_status := Ef_outcome_unknown, ef_result := None, ef_error := Some er,
        ef_lease_until := None, ef_updated_at := now\<rparr>) (t_effects d)" (is "_ = tbl_update ?P ?f _")
    by (simp add: journal_settle_defs)
  then have rows: "r \<in> set (t_effects (journal_outcome_unknown i er now d)) \<Longrightarrow>
      \<exists>x \<in> set (t_effects d). r = (if ?P x then ?f x else x)" for r
    by (simp only: set_tbl_update image_iff)
  have "ef_status r = Ef_outcome_unknown \<or> (r \<in> set (t_effects d) \<and> ef_id r \<noteq> i)"
    if mem: "r \<in> set (t_effects (journal_outcome_unknown i er now d))" for r
  proof -
    obtain x where x: "x \<in> set (t_effects d)" "r = (if ?P x then ?f x else x)"
      using rows [OF mem] by blast
    show ?thesis
    proof (cases "?P x")
      case True
      from x(2) have "r = ?f x" by (rule trans) (rule if_P [OF True])
      then show ?thesis by simp
    qed (use x in simp)
  qed
  then show "outcome_unknown i (journal_outcome_unknown i er now d)"
    "outcome_unknown j d \<Longrightarrow> outcome_unknown j (journal_outcome_unknown i er now d)"
    unfolding outcome_unknown_def by blast+
qed

text \<open>Messages leave the log of deliveries alone.\<close>

definition quiet :: "('w \<Rightarrow> 'l) \<Rightarrow> 'w pipe \<Rightarrow> bool" where
  "quiet lg p \<longleftrightarrow> (\<forall>c th t b w. lg (snd (pp_send p c th t b w)) = lg w)"

lemma tell_quiet: "quiet lg p \<Longrightarrow> tell p c th t h w d = (r, w', d') \<Longrightarrow> lg w' = lg w"
  unfolding quiet_def by (auto simp: tell_def split: prod.splits sum.splits) (metis snd_conv)+

lemma reconcile_one_unknown:
  assumes "reconcile_one p now e w d = (r, w', d')" "ef_kind e \<notin> replayable_kinds"
  shows "outcome_unknown (ef_id e) d'" "outcome_unknown j d \<Longrightarrow> outcome_unknown j d'"
    "quiet lg p \<Longrightarrow> lg w' = lg w"
proof -
  obtain er where d': "t_effects d' = t_effects (journal_outcome_unknown (ef_id e) er now d)"
    and w': "w' = w \<or> (\<exists>c th t h r' x. tell p c th t h w x = (r', w', d'))"
  proof (cases "case str_or_none (ef_approval_id e) of None \<Rightarrow> None | Some i \<Rightarrow> approval_get i d")
    case None
    then show thesis using assms(1) that by (auto simp: reconcile_one_def)
  next
    case (Some a)
    let ?x = "approval_mark (ap_id a) Ap_failed None (Some ''outcome_unknown'') now
      (journal_outcome_unknown (ef_id e) ''crashed while sending'' now d)"
    obtain r' w1 d1 where t: "tell p (ap_chat a) (ap_thread a) text_outcome_unknown
        (said (Some (ap_id a)) text_outcome_unknown) w ?x = (r', w1, d1)"
      by (metis surj_pair)
    then have "w' = w1" "d' = d1"
      using assms Some by (auto simp: reconcile_one_def split: sum.splits)
    moreover have "t_effects d1 = t_effects (journal_outcome_unknown (ef_id e) ''crashed while sending'' now d)"
      using tell_db [OF t] by (simp add: frame_simps)
    ultimately show thesis using that t by blast
  qed
  then show "outcome_unknown (ef_id e) d'" "outcome_unknown j d \<Longrightarrow> outcome_unknown j d'"
    using outcome_unknown_settle unfolding outcome_unknown_def by metis+
  show "quiet lg p \<Longrightarrow> lg w' = lg w" using w' tell_quiet by metis
qed

lemma reconcile_all_unknown:
  assumes "reconcile_all p now es w d = (r, w', d')" "\<forall>e \<in> set es. ef_kind e \<notin> replayable_kinds"
  shows "outcome_unknown j d \<Longrightarrow> outcome_unknown j d'" "quiet lg p \<Longrightarrow> lg w' = lg w"
    "r = Inr hs \<Longrightarrow> \<forall>e \<in> set es. outcome_unknown (ef_id e) d'"
proof -
  have "(outcome_unknown j d \<longrightarrow> outcome_unknown j d') \<and> (quiet lg p \<longrightarrow> lg w' = lg w) \<and>
    (\<forall>hs. r = Inr hs \<longrightarrow> (\<forall>e \<in> set es. outcome_unknown (ef_id e) d'))" for j
    using assms
  proof (induction es arbitrary: w d r j)
    case (Cons e es)
    obtain x w1 d1 where x: "reconcile_one p now e w d = (x, w1, d1)" by (metis surj_pair)
    have nr: "ef_kind e \<notin> replayable_kinds" "\<forall>e \<in> set es. ef_kind e \<notin> replayable_kinds"
      using Cons.prems(2) by auto
    note one = reconcile_one_unknown [OF x nr(1)]
    show ?case
    proof (cases x)
      case (Inl y)
      then have "w' = w1" "d' = d1" "r = Inl y" using Cons.prems(1) x by auto
      then show ?thesis using one by auto
    next
      case (Inr hs)
      obtain y w2 d2 where y: "reconcile_all p now es w1 d1 = (y, w2, d2)" by (metis surj_pair)
      have d': "w' = w2" "d' = d2" "\<And>hs. r = Inr hs \<Longrightarrow> \<exists>ys. y = Inr ys"
        using Cons.prems(1) x Inr y by (auto split: sum.splits)
      have IH: "(outcome_unknown j d1 \<longrightarrow> outcome_unknown j d') \<and> (quiet lg p \<longrightarrow> lg w' = lg w1) \<and>
        (\<forall>hs. y = Inr hs \<longrightarrow> (\<forall>e \<in> set es. outcome_unknown (ef_id e) d'))" for j
        using Cons.IH [of w1 d1 y j] y nr(2) d' by simp
      show ?thesis using IH [of j] IH [of "ef_id e"] one d'(3) by auto
    qed
  qed auto
  then show "outcome_unknown j d \<Longrightarrow> outcome_unknown j d'" "quiet lg p \<Longrightarrow> lg w' = lg w"
    "r = Inr hs \<Longrightarrow> \<forall>e \<in> set es. outcome_unknown (ef_id e) d'" by blast+
qed

text \<open>How many reminders an approval has.\<close>

definition reminders_of :: "uid \<Rightarrow> db \<Rightarrow> nat" where
  "reminders_of aid d = length (filter (\<lambda>r. re_approval_id r = Some aid) (t_reminders d))"

lemma reminders_of_cancel [simp]: "reminders_of aid (snd (reminder_cancel i now d)) = reminders_of aid d"
proof -
  have "length (filter (\<lambda>r. re_approval_id r = Some aid) (tbl_update P f T)) =
      length (filter (\<lambda>r. re_approval_id r = Some aid) T)"
    if "\<And>r. re_approval_id (f r) = re_approval_id r" for P f T
    using that by (induction T) auto
  from this [of "\<lambda>r. r\<lparr>re_status := Re_cancelled, re_lease_until := None, re_updated_at := now\<rparr>"]
  show ?thesis by (simp add: reminders_of_def reminder_cancel_def reminders_set_def Let_def)
qed

lemma reminder_for_approval_iff: "reminder_for_approval aid d = None \<longleftrightarrow> reminders_of aid d = 0"
  by (auto simp: reminder_for_approval_def tbl_first_None_iff reminders_of_def filter_empty_conv)

section \<open>Properties\<close>

text \<open>
  No right, no effect.  A button press by somebody the household does not know, whatever the
  button, and a confirmation by somebody whose rights do not cover the proposal (for a bundle,
  every enabled item of it; an unknown kind is never covered), changes nothing in the
  household's file: no claim, no journal entry, no failed attempt.  The only thing that happens
  is the answer in the chat.
\<close>

theorem no_right_no_effect:
  assumes "handle_callback p action aid c argument now w d = (res, w', d')"
    and "\<not> is_known c \<or> (action = action_text Act_confirm \<and>
      (\<exists>a. approval_get aid d = Some a \<and> \<not> may_confirm c (ap_payload a)))"
  shows "d' = d \<and> (\<exists>t. t \<in> {text_unknown_actor, text_no_right} \<and>
    w' = snd (pp_send p (rc_chat_id c) (rc_thread_id c) t [] w))"
proof -
  have told: "d'' = d \<and> w'' = snd (pp_send p (rc_chat_id c) (rc_thread_id c) t [] w)"
    if "tell p (rc_chat_id c) (rc_thread_id c) t h w d = (r, w'', d'')" for t h r w'' d''
    using that by (auto simp: tell_def split: prod.splits sum.splits)
  show ?thesis
  proof (cases "is_known c")
    case False
    then have "tell p (rc_chat_id c) (rc_thread_id c) text_unknown_actor
        (said None text_unknown_actor) w d = (res, w', d')"
      using assms(1) by (simp add: handle_callback_def Let_def)
    then show ?thesis using told by blast
  next
    case True
    then obtain a where a: "action = action_text Act_confirm" "approval_get aid d = Some a"
      "\<not> may_confirm c (ap_payload a)" using assms(2) by blast
    have "action_text Act_confirm \<noteq> action_text Act_toggle" "action_text Act_confirm \<noteq> action_text Act_reject"
      "action_text Act_confirm \<noteq> action_text Act_edit" by (simp_all add: action_text_def)
    then have "tell p (rc_chat_id c) (rc_thread_id c) text_no_right
        (said (Some aid) text_no_right) w d = (res, w', d')"
      using assms(1) a True by (simp add: handle_callback_def Let_def)
    then show ?thesis using told by blast
  qed
qed

text \<open>
  A returned execution is not repeated.  Whatever happens while an approval is executed (success, a
  refusal, an unknown outcome, a partly failed bundle, even the loss of the message about it), once
  the execution has returned its journal entry has an outcome, and executing the same approval again
  touches neither the file nor the outside world.  After a crash, reconciliation runs the local and
  idempotent kinds again.  Erasure is the exception: it erases the
  journal too.
\<close>

theorem executed_once:
  fixes p p' :: "'w pipe"
  assumes "payload_kind (ap_payload a) \<noteq> kind_delete" "execute p a now w d = (res, w1, d1)"
  shows "settled_entry (ap_id a) approval_tool_use_id d1 \<and>
    (\<forall>a' now' w'. ap_id a' = ap_id a \<longrightarrow>
       (\<exists>h. execute p' a' now' w' d1 = (Inr h, w', d1)))"
proof -
  have s: "settled_entry (ap_id a) approval_tool_use_id d1"
    by (rule execute_settles(1) [OF assms(2,1)])
  have "\<exists>h. execute p' a' now' w' d1 = (Inr h, w', d1)" if "ap_id a' = ap_id a" for a' now' w'
    using s that by (auto simp: execute_def settled_entry_def)
  then show ?thesis using s by blast
qed

text \<open>
  A bundle runs what was enabled.  Executing a bundle opens journal entries for its enabled
  items and for nothing else, and whenever it comes back with an answer (all done or partly
  failed) every enabled item has a settled entry of its own: one item's failure neither skips
  the others nor leaves them open.
\<close>

theorem bundle_runs_what_was_enabled:
  assumes "execute_bundle p a payload now w d = (res, w1, d1)"
  defines "tools \<equiv> {item_tool k |k. k < length (items_of payload) \<and> it_enabled (items_of payload ! k)}"
  shows "journal_keys d1 \<subseteq> journal_keys d \<union> Pair (ap_id a) ` tools \<and>
    ((\<exists>t. res = Inr t \<or> res = Inl (Px_partial t)) \<longrightarrow>
      (\<forall>tool \<in> tools. settled_entry (ap_id a) tool d1))"
proof -
  have t: "tools = enabled_tools 0 (items_of payload)"
    by (simp add: tools_def enabled_tools_eq)
  show ?thesis
    unfolding t using execute_bundle_journal(1,3) [OF assms(1)] by blast
qed

text \<open>
  After a crash nothing is sent again.  Settling the stale effects of kinds that must not be
  repeated calls no executor: apart from the messages about them nothing leaves, even when
  settling breaks off, and when it completes every one of them stands as an unknown outcome.
\<close>

theorem reconcile_never_repeats:
  assumes "quiet lg p" "\<forall>e \<in> set (journal_stale now 50 d). ef_kind e \<notin> replayable_kinds"
    and "reconcile p now w d = (res, w', d')"
  shows "lg w' = lg w \<and> ((\<exists>hs. res = Inr hs) \<longrightarrow>
    (\<forall>e \<in> set (journal_stale now 50 d). outcome_unknown (ef_id e) d'))"
  using reconcile_all_unknown(2,3) [OF assms(3) [unfolded reconcile_def] assms(2)] assms(1) by metis

text \<open>
  A replayed reminder stays one.  Executing a reminder, for the first time or again after a
  crash, calls nothing outside, never leaves an approval with a second reminder, and when it
  answers the approval has one.
\<close>

theorem reminder_replay_adds_none:
  assumes "execute_reminder p a payload now w d = (res, w', d')"
  shows "w' = w \<and> reminders_of (ap_id a) d' \<le> max 1 (reminders_of (ap_id a) d) \<and>
    ((\<exists>t. res = Inr t) \<longrightarrow> 1 \<le> reminders_of (ap_id a) d')"
proof (cases "Option.bind (need (obj_fields payload) ''due_date'') date_fromiso")
  case None
  then show ?thesis using assms by (auto simp: execute_reminder_def)
next
  case (Some due)
  let ?d1 = "case jtext_or_none payload ''supersedes_reminder_id'' of None \<Rightarrow> d
    | Some r \<Rightarrow> snd (reminder_cancel r now d)"
  have n: "reminders_of (ap_id a) ?d1 = reminders_of (ap_id a) d" by (simp split: option.splits)
  have add: "reminders_of (ap_id a) (snd (reminder_create i c t du th (Some (ap_id a)) now x)) =
      Suc (reminders_of (ap_id a) x)" for i c t du th x
    by (simp add: reminders_of_def reminder_create_def Let_def)
  show ?thesis
  proof (cases "reminder_for_approval (ap_id a) ?d1")
    case None
    then have "reminders_of (ap_id a) ?d1 = 0" by (simp add: reminder_for_approval_iff)
    moreover have "w' = w \<and> (d' = ?d1 \<and> (\<nexists>t. res = Inr t) \<or>
        reminders_of (ap_id a) d' = Suc (reminders_of (ap_id a) ?d1))"
      using assms Some None add by (auto simp: execute_reminder_def Let_def split: option.splits)
    ultimately show ?thesis using n by auto
  next
    case (Some r)
    then have "0 < reminders_of (ap_id a) ?d1"
      using reminder_for_approval_iff [of "ap_id a" ?d1] by simp
    moreover have "w' = w" "d' = ?d1"
      using assms Some \<open>_ = Some due\<close> by (auto simp: execute_reminder_def Let_def)
    ultimately show ?thesis using n by simp
  qed
qed

text \<open>
  A stale item of a bundle whose own entry is already settled is never settled: it counts as
  replayable, so it is handed to \<open>execute\<close>, which returns at the settled entry of the bundle.
\<close>

lemma stale_item_is_left_open:
  assumes "ef_approval_id e = Some (ap_id a)" "ap_id a \<noteq> []" "approval_get (ap_id a) d = Some a"
    and "ef_kind e \<in> replayable_kinds" "settled_entry (ap_id a) approval_tool_use_id d"
  shows "\<exists>h. reconcile_one p now e w d = (Inr [h], w, d)"
proof -
  have "str_or_none (ef_approval_id e) = Some (ap_id a)"
    using assms(1,2) by (simp add: str_or_none_def)
  then show ?thesis
    using assms(3-5) by (auto simp: reconcile_one_def execute_def settled_entry_def)
qed

text \<open>The card of a letter received over budget has no items, and nobody can confirm it.\<close>

lemma empty_bundle_cannot_be_confirmed: "\<not> may_confirm c (bundle_payload [] header)"
  by (simp add: may_confirm_def payload_kind_def bundle_payload_def jtext_def jget_def
      dict_get_def enabled_items_def items_of_def)

section \<open>Witnesses\<close>

text \<open>A world that keeps the messages and the documents sent.\<close>

definition sample_pipe :: "(string list \<times> string list) pipe" where
  "sample_pipe = \<lparr>pp_hash = id, pp_frepr = (\<lambda>r. []), pp_digest = id, pp_uuid = (\<lambda>d. ''u1''),
     pp_code = (\<lambda>d. ''c1''), pp_send = (\<lambda>c th t b w. (Inr (), (t # fst w, snd w))),
     pp_document = (\<lambda>c th f x w. (Inr (), (fst w, f # snd w))), pp_calendar = None,
     pp_mail = None, pp_whatsapp = None, pp_export = (\<lambda>d. ''{}''), pp_utcnow = sample_moment\<rparr>"

definition stranger :: run_context where
  "stranger = \<lparr>rc_household_id = ''h'', rc_actor_id = ''x'', rc_chat_id = ''7'', rc_thread_id = None,
     rc_role = Unknown, rc_scope = Personal, rc_read_caps = {}, rc_mutate_caps = {}, rc_run_id = ''r''\<rparr>"

definition sample_claimed :: "json \<Rightarrow> approval" where
  "sample_claimed payload = \<lparr>ap_id = ''a1'', ap_event_id = None, ap_kind = jtext payload ''kind'',
     ap_payload = payload, ap_payload_sha = [], ap_code_sha = [], ap_chat = ''7'', ap_thread = None,
     ap_context_key = None, ap_actor = ''m'', ap_claimed_by = Some ''m'', ap_status = Ap_claimed,
     ap_last_error = None, ap_receipt = None, ap_created_at = 0, ap_expires_at = 900,
     ap_updated_at = 0\<rparr>"

definition sample_export :: json where "sample_export = JObj [(''kind'', JStr ''export'')]"

definition half_bundle :: json where
  "half_bundle = JObj [(''items'', JArr [
     JObj [(''kind'', JStr ''ics''), (''enabled'', JBool False)], JObj [(''kind'', JStr ''reminder'')]])]"

definition crashed_db :: db where
  "crashed_db = empty_db\<lparr>t_effects := [new_effect ''e1'' ''a1'' ''approval'' ''export'' (Some ''a1'') None 0 120],
     t_approvals := [sample_claimed sample_export]\<rparr>"

definition sample_due :: json where
  "sample_due = JObj [(''kind'', JStr ''reminder''), (''due_date'', JStr ''2026-09-08''), (''text'', JStr ''pay'')]"

theorem no_right_no_effect_witness:
  "\<exists>res w'. handle_callback sample_pipe ''confirm'' ''a1'' stranger None 0 ([], []) empty_db = (res, w', empty_db) \<and>
    snd w' = []"
proof -
  obtain res w' d' where h: "handle_callback sample_pipe ''confirm'' ''a1'' stranger None 0 ([], []) empty_db
      = (res, w', d')" by (metis surj_pair)
  have "\<not> is_known stranger" by (simp add: is_known_def stranger_def)
  then have "d' = empty_db \<and> (\<exists>t. t \<in> {text_unknown_actor, text_no_right} \<and>
      w' = snd (pp_send sample_pipe (rc_chat_id stranger) (rc_thread_id stranger) t [] ([], [])))"
    using no_right_no_effect [OF h] by blast
  then show ?thesis using h by (auto simp: sample_pipe_def)
qed

theorem executed_once_witness:
  "\<exists>res w1 d1 h. execute sample_pipe (sample_claimed sample_export) 0 ([], []) empty_db = (res, w1, d1) \<and>
    snd w1 = [''hermes-export.json''] \<and>
    execute sample_pipe (sample_claimed sample_export) 5 w1 d1 = (Inr h, w1, d1)"
proof -
  let ?a = "sample_claimed sample_export"
  obtain res w1 d1 where x: "execute sample_pipe ?a 0 ([], []) empty_db = (res, w1, d1)"
    by (metis surj_pair)
  have "payload_kind (ap_payload ?a) \<noteq> kind_delete"
    by (simp add: sample_claimed_def sample_export_def payload_kind_def jtext_def jget_def dict_get_def
        kind_delete_def)
  from executed_once [OF this x, of sample_pipe]
  obtain h where "execute sample_pipe ?a 5 w1 d1 = (Inr h, w1, d1)" by blast
  moreover have "snd (fst (snd (execute sample_pipe ?a 0 ([], []) empty_db))) = [''hermes-export.json'']"
    by (simp add: execute_def journal_find_def journal_begin_def write_tx_def record_attempt_def
        journal_get_def tbl_get_def new_effect_def perform_def dispatch_def Let_def payload_kind_def
        sample_claimed_def sample_export_def jtext_def jget_def dict_get_def kind_defs
        execute_export_def sample_pipe_def confirm_commitment_def jtext_or_none_def jstr_def
        str_or_none_def tell_def)
  ultimately show ?thesis using x by auto
qed

theorem bundle_runs_what_was_enabled_witness:
  "\<exists>res w1 d1. execute_bundle sample_pipe (sample_claimed half_bundle) half_bundle 0 ([], []) empty_db = (res, w1, d1) \<and>
    journal_keys d1 \<subseteq> {(''a1'', ''item-1'')}"
proof -
  obtain res w1 d1 where x: "execute_bundle sample_pipe (sample_claimed half_bundle) half_bundle 0
      ([], []) empty_db = (res, w1, d1)" by (metis surj_pair)
  have items: "map it_enabled (items_of half_bundle) = [False, True]"
    by (simp add: items_of_def half_bundle_def jget_def dict_get_def item_of_json_def)
  have "k = 1" if "k < length (items_of half_bundle)" "it_enabled (items_of half_bundle ! k)" for k
  proof -
    have "length (items_of half_bundle) = 2" using arg_cong [OF items, of length] by simp
    then have "[False, True] ! k" "k < 2"
      using that nth_map [of k "items_of half_bundle" it_enabled] items by simp_all
    then show "k = 1" by (cases k) auto
  qed
  then have tools: "{item_tool k |k. k < length (items_of half_bundle) \<and> it_enabled (items_of half_bundle ! k)}
      \<subseteq> {item_tool 1}" (is "?T \<subseteq> _") by blast
  have "item_tool 1 = ''item-1''" by code_simp
  then have "Pair ''a1'' ` ?T \<subseteq> {(''a1'', ''item-1'')}" using image_mono [OF tools, of "Pair ''a1''"] by simp
  moreover have "journal_keys empty_db = {}" "ap_id (sample_claimed half_bundle) = ''a1''"
    by (simp_all add: journal_keys_def sample_claimed_def)
  ultimately have "journal_keys d1 \<subseteq> {(''a1'', ''item-1'')}"
    using bundle_runs_what_was_enabled [OF x, THEN conjunct1] by simp
  then show ?thesis using x by blast
qed

theorem reconcile_never_repeats_witness:
  "\<exists>res w' d'. reconcile sample_pipe 200 ([], []) crashed_db = (res, w', d') \<and> snd w' = [] \<and>
    journal_stale 200 50 crashed_db \<noteq> []"
proof -
  obtain res w' d' where r: "reconcile sample_pipe 200 ([], []) crashed_db = (res, w', d')"
    by (metis surj_pair)
  have q: "quiet snd sample_pipe" by (simp add: quiet_def sample_pipe_def)
  have stale: "journal_stale 200 50 crashed_db =
      [new_effect ''e1'' ''a1'' ''approval'' ''export'' (Some ''a1'') None 0 120]"
    by (simp add: journal_stale_def crashed_db_def is_stale_def new_effect_def)
  then have "\<forall>e \<in> set (journal_stale 200 50 crashed_db). ef_kind e \<notin> replayable_kinds"
    by (simp add: new_effect_def replayable_kinds_def kind_defs)
  from reconcile_never_repeats [OF q this r] show ?thesis using r stale by auto
qed

theorem reminder_replay_adds_none_witness:
  "\<exists>res w' d'. execute_reminder sample_pipe (sample_claimed sample_due) sample_due 0 ([], []) empty_db = (res, w', d') \<and>
    reminders_of ''a1'' d' \<le> 1 \<and> (\<exists>t. res = Inr t)"
proof -
  obtain res w' d' where x: "execute_reminder sample_pipe (sample_claimed sample_due) sample_due 0
      ([], []) empty_db = (res, w', d')" by (metis surj_pair)
  have a: "ap_id (sample_claimed sample_due) = ''a1''" by (simp add: sample_claimed_def)
  have "reminders_of ''a1'' empty_db = 0" by (simp add: reminders_of_def)
  then have n: "reminders_of ''a1'' d' \<le> 1" using reminder_replay_adds_none [OF x] a by simp
  have "read_date ''2026-09-08'' = Some (2026, 9, 8)"
    by (simp add: read_date_def num_def is_digit_def digit_val_def days_in_month_def)
  then have "\<exists>t. fst (execute_reminder sample_pipe (sample_claimed sample_due) sample_due 0 ([], []) empty_db) = Inr t"
    by (simp add: execute_reminder_def sample_due_def need_def date_fromiso_def jtext_or_none_def
        jget_def dict_get_def jstr_def str_or_none_def reminder_for_approval_def tbl_first_def Let_def)
  then show ?thesis using x n by auto
qed

end
