(* ===== verification/Usage.thy ===== *)
theory Usage
  imports Schema
begin

text \<open>
  \<open>hermes_cloud/core/usage.py\<close>: the daily cost cap of a household.  Dollar amounts are exact
  reals; \<open>parse_float\<close> is Python's \<open>float\<close> on text.
\<close>

section \<open>Model\<close>

definition default_daily_usd_cap :: real where "default_daily_usd_cap = 5"

definition price_prompt_per_1k :: real where "price_prompt_per_1k = 3 / 1000"

definition price_completion_per_1k :: real where "price_completion_per_1k = 15 / 1000"

definition price_cache_read_per_1k :: real where "price_cache_read_per_1k = 3 / 10000"

definition estimate_usd :: "int \<Rightarrow> int \<Rightarrow> int \<Rightarrow> real" where
  "estimate_usd prompt completion cache =
     of_int (max 0 (prompt - cache)) * price_prompt_per_1k / 1000 +
     of_int cache * price_cache_read_per_1k / 1000 +
     of_int completion * price_completion_per_1k / 1000"

datatype float_value = Nan | Infinite | Finite real

datatype cost_cap_error = Not_a_number | Not_finite | Not_positive

definition parse_daily_cap_usd ::
  "(string \<Rightarrow> float_value option) \<Rightarrow> string option \<Rightarrow> real \<Rightarrow> cost_cap_error + real" where
  "parse_daily_cap_usd parse_float raw dflt =
     (case raw of
        None \<Rightarrow> Inr dflt
      | Some s \<Rightarrow>
          if py_strip s = [] then Inr dflt
          else case parse_float s of
                 None \<Rightarrow> Inl Not_a_number
               | Some Nan \<Rightarrow> Inl Not_finite
               | Some Infinite \<Rightarrow> Inl Not_finite
               | Some (Finite cap) \<Rightarrow> if cap \<le> 0 then Inl Not_positive else Inr cap)"

definition usage_key :: "string \<Rightarrow> string \<Rightarrow> usage_row \<Rightarrow> bool" where
  "usage_key hh day r \<longleftrightarrow> us_household_id r = hh \<and> us_day r = day"

definition usage_get :: "string \<Rightarrow> string \<Rightarrow> db \<Rightarrow> usage_row option" where
  "usage_get hh day d = find (usage_key hh day) (t_usage d)"

definition usage_over_budget :: "string \<Rightarrow> string \<Rightarrow> real \<Rightarrow> db \<Rightarrow> bool" where
  "usage_over_budget hh day cap d =
     (case usage_get hh day d of None \<Rightarrow> False | Some r \<Rightarrow> us_usd_estimate r \<ge> cap)"

definition usage_record :: "string \<Rightarrow> string \<Rightarrow> int \<Rightarrow> int \<Rightarrow> int \<Rightarrow> time \<Rightarrow> db \<Rightarrow> usage_row option \<times> db" where
  "usage_record hh day prompt completion cache now d =
     (let usd = estimate_usd prompt completion cache;
          d' = (case find (usage_key hh day) (t_usage d) of
                  None \<Rightarrow> d\<lparr>t_usage := t_usage d @
                    [\<lparr>us_household_id = hh, us_day = day, us_prompt_tokens = prompt,
                      us_completion_tokens = completion, us_usd_estimate = usd,
                      us_updated_at = now\<rparr>]\<rparr>
                | Some _ \<Rightarrow> d\<lparr>t_usage := tbl_update (usage_key hh day)
                    (\<lambda>r. r\<lparr>us_prompt_tokens := us_prompt_tokens r + prompt,
                       us_completion_tokens := us_completion_tokens r + completion,
                       us_usd_estimate := us_usd_estimate r + usd, us_updated_at := now\<rparr>)
                    (t_usage d)\<rparr>)
      in (usage_get hh day d', d'))"

text \<open>\<open>DailyCostGuard\<close> of one household, day and cap; the counts of a response may be absent.\<close>

record cost_guard =
  cg_household :: string
  cg_day :: string
  cg_cap :: real

record token_usage =
  tu_input :: "int option"
  tu_output :: "int option"
  tu_cache_read :: "int option"

definition tokens :: "int option \<Rightarrow> int" where
  "tokens v = (case v of None \<Rightarrow> 0 | Some n \<Rightarrow> n)"

definition guard_over_budget :: "cost_guard \<Rightarrow> db \<Rightarrow> bool" where
  "guard_over_budget g d = usage_over_budget (cg_household g) (cg_day g) (cg_cap g) d"

definition guard_record :: "cost_guard \<Rightarrow> token_usage option \<Rightarrow> time \<Rightarrow> db \<Rightarrow> db" where
  "guard_record g u now d =
     snd (usage_record (cg_household g) (cg_day g)
       (case u of None \<Rightarrow> 0 | Some x \<Rightarrow> tokens (tu_input x))
       (case u of None \<Rightarrow> 0 | Some x \<Rightarrow> tokens (tu_output x))
       (case u of None \<Rightarrow> 0 | Some x \<Rightarrow> tokens (tu_cache_read x)) now d)"

text \<open>The responses of a day, recorded one after the other, each at its time.\<close>

definition cost_of :: "token_usage option \<Rightarrow> real" where
  "cost_of u = (case u of None \<Rightarrow> 0
     | Some x \<Rightarrow> estimate_usd (tokens (tu_input x)) (tokens (tu_output x)) (tokens (tu_cache_read x)))"

definition spent :: "cost_guard \<Rightarrow> db \<Rightarrow> real" where
  "spent g d = (case usage_get (cg_household g) (cg_day g) d of None \<Rightarrow> 0 | Some r \<Rightarrow> us_usd_estimate r)"

definition record_all :: "cost_guard \<Rightarrow> (token_usage option \<times> time) list \<Rightarrow> db \<Rightarrow> db" where
  "record_all g us d = fold (\<lambda>(u, now). guard_record g u now) us d"

section \<open>Lemmas\<close>

lemma find_append_Some: "find P T = None \<Longrightarrow> P x \<Longrightarrow> find P (T @ [x]) = Some x"
  by (induction T) auto

lemma find_update_Some: "find P T = Some r \<Longrightarrow> (\<And>x. P (f x) = P x) \<Longrightarrow> find P (tbl_update P f T) = Some (f r)"
  by (induction T) (auto split: if_splits)

lemma usage_record_get:
  "usage_get hh day (snd (usage_record hh day p c k now d)) = Some
     (case usage_get hh day d of
        None \<Rightarrow> \<lparr>us_household_id = hh, us_day = day, us_prompt_tokens = p,
          us_completion_tokens = c, us_usd_estimate = estimate_usd p c k, us_updated_at = now\<rparr>
      | Some r \<Rightarrow> r\<lparr>us_prompt_tokens := us_prompt_tokens r + p,
          us_completion_tokens := us_completion_tokens r + c,
          us_usd_estimate := us_usd_estimate r + estimate_usd p c k, us_updated_at := now\<rparr>)"
proof (cases "usage_get hh day d")
  case None
  then have n: "find (usage_key hh day) (t_usage d) = None" by (simp only: usage_get_def)
  have "find (usage_key hh day) (t_usage d @ [x]) = Some x"
    if "us_household_id x = hh" "us_day x = day" for x
    using find_append_Some [OF n, of x] that by (simp add: usage_key_def)
  then show ?thesis using None n by (simp add: usage_record_def usage_get_def Let_def)
next
  case (Some r)
  then have s: "find (usage_key hh day) (t_usage d) = Some r" by (simp only: usage_get_def)
  have "find (usage_key hh day) (tbl_update (usage_key hh day) f (t_usage d)) = Some (f r)"
    if "\<And>x. us_household_id (f x) = us_household_id x \<and> us_day (f x) = us_day x" for f
    using find_update_Some [OF s, of f] that by (simp add: usage_key_def)
  then show ?thesis using Some s by (simp add: usage_record_def usage_get_def Let_def)
qed

lemma estimate_zero [simp]: "estimate_usd 0 0 0 = 0"
  by (simp add: estimate_usd_def)

lemma guard_record_spent:
  "spent g (guard_record g u now d) = spent g d + cost_of u"
  "usage_get (cg_household g) (cg_day g) (guard_record g u now d) \<noteq> None"
  by (auto simp: spent_def guard_record_def usage_record_get cost_of_def split: option.splits)

lemma over_budget_spent:
  "usage_get (cg_household g) (cg_day g) d \<noteq> None \<Longrightarrow> guard_over_budget g d \<longleftrightarrow> cg_cap g \<le> spent g d"
  by (auto simp: guard_over_budget_def usage_over_budget_def spent_def)

lemma record_all_spent:
  "spent g (record_all g us d) = spent g d + sum_list (map (cost_of \<circ> fst) us)"
  unfolding record_all_def
  by (induction us arbitrary: d) (auto simp: guard_record_spent)

lemma record_all_row: "us \<noteq> [] \<Longrightarrow> usage_get (cg_household g) (cg_day g) (record_all g us d) \<noteq> None"
proof (induction us rule: rev_induct)
  case (snoc x xs)
  then show ?case using guard_record_spent(2) [of g "fst x" "snd x" "record_all g xs d"]
    by (simp add: record_all_def case_prod_unfold)
qed simp

section \<open>Properties\<close>

text \<open>
  The brake works.  A cap that \<open>parse_daily_cap_usd\<close> accepts is positive and finite, the
  guard's total is the sum of the costs of the responses recorded that day, and when every
  response costs at least \<open>c > 0\<close>, more than \<open>cap / c\<close> responses put the household over
  budget: no accepted configuration switches the brake off.
\<close>

theorem cost_cap_stops_the_day:
  assumes "parse_daily_cap_usd parse_float raw 5 = Inr (cg_cap g)"
    and "\<And>u t. (u, t) \<in> set us \<Longrightarrow> c \<le> cost_of u" "0 < c" "cg_cap g \<le> of_nat (length us) * c"
    and "usage_get (cg_household g) (cg_day g) d = None"
  shows "0 < cg_cap g \<and> spent g (record_all g us d) = sum_list (map (cost_of \<circ> fst) us) \<and>
    guard_over_budget g (record_all g us d)"
proof -
  have cap: "0 < cg_cap g"
    using assms(1) by (auto simp: parse_daily_cap_usd_def split: option.splits if_splits float_value.splits)
  have "(\<Sum>x\<leftarrow>us. c) \<le> sum_list (map (cost_of \<circ> fst) us)"
    using assms(2) by (intro sum_list_mono) auto
  then have "of_nat (length us) * c \<le> sum_list (map (cost_of \<circ> fst) us)"
    by (simp add: sum_list_triv)
  moreover have "spent g d = 0" using assms(5) by (simp add: spent_def)
  moreover have "us \<noteq> []" using cap assms(4) by auto
  ultimately show ?thesis
    using cap assms(4) over_budget_spent [OF record_all_row, of us g d] record_all_spent [of g us d]
    by simp
qed

theorem cost_cap_stops_the_day_witness:
  "guard_over_budget \<lparr>cg_household = ''h'', cg_day = ''d'', cg_cap = 2\<rparr>
     (record_all \<lparr>cg_household = ''h'', cg_day = ''d'', cg_cap = 2\<rparr>
       [(Some \<lparr>tu_input = Some 1000000, tu_output = None, tu_cache_read = None\<rparr>, 1)] empty_db)"
proof -
  let ?g = "\<lparr>cg_household = ''h'', cg_day = ''d'', cg_cap = 2\<rparr>"
  let ?u = "Some \<lparr>tu_input = Some 1000000, tu_output = None, tu_cache_read = None\<rparr>"
  have strip: "py_strip ''2'' \<noteq> []" by code_simp
  have "parse_daily_cap_usd (\<lambda>s. Some (Finite 2)) (Some ''2'') 5 = Inr (cg_cap ?g)"
    using strip by (simp add: parse_daily_cap_usd_def)
  moreover have "cost_of ?u = 3"
    by (simp add: cost_of_def tokens_def estimate_usd_def price_prompt_per_1k_def
        price_cache_read_per_1k_def price_completion_per_1k_def)
  moreover have "usage_get ''h'' ''d'' empty_db = None" by (simp add: usage_get_def)
  ultimately show ?thesis using cost_cap_stops_the_day [of _ _ ?g "[(?u, 1)]" 3 empty_db] by simp
qed

end
