(* ===== verification/Forwarding.thy ===== *)
theory Forwarding
  imports EmailStore Usage Datetime "HOL-Library.Sublist"
begin

text \<open>
  \<open>hermes_cloud/ingest/forwarding.py\<close>: what arrives in the relay inbox of a Gmail
  household, and the daily check that forwarding still works.  The HMAC of the household's
  secret, the parser of the interval and the mail client of the relay are parameters;
  \<open>'w\<close> is the outside world.
\<close>

section \<open>What a message of the relay inbox is\<close>

datatype relay_message = Rm_confirmation string | Rm_check string | Rm_letter

definition confirmation_sender :: string where
  "confirmation_sender = ''forwarding-noreply@google.com''"

definition confirmation_link_hosts :: "string list" where
  "confirmation_link_hosts = [''mail-settings.google.com'']"

definition confirmation_path_prefix :: string where "confirmation_path_prefix = ''/mail/vf-''"

definition check_subject_prefix :: string where
  "check_subject_prefix = ''Abrolia forwarding check ''"

text \<open>\<open>_email_of\<close>, with \<open>casefold\<close> as \<open>lower\<close>: an address has no letter on which they differ.\<close>

definition last_lt :: "string \<Rightarrow> string" where
  "last_lt t = rev (takeWhile (\<lambda>c. c \<noteq> CHR ''<'') (rev t))"

definition email_of :: "json \<Rightarrow> string" where
  "email_of v =
     (case v of
        JObj d \<Rightarrow> py_lower (py_strip (jtext v ''email''))
      | JStr s \<Rightarrow>
          (let t = py_strip s;
               u = (if CHR ''<'' \<in> set t \<and> last t = CHR ''>'' then butlast (last_lt t) else t)
           in py_lower (py_strip u))
      | _ \<Rightarrow> [])"

text \<open>\<open>_LINK.findall\<close> and \<open>rstrip(".,;")\<close>.\<close>

definition link_scheme :: string where "link_scheme = ''https://''"

definition link_char :: "char \<Rightarrow> bool" where
  "link_char c \<longleftrightarrow> \<not> is_space c \<and> c \<notin> {CHR ''<'', CHR ''>'', CHR 0x22, CHR 0x27, CHR ''('', CHR '')''}"

function find_links :: "string \<Rightarrow> string list" where
  "find_links [] = []"
| "find_links (c # s) =
     (let rest = drop (length link_scheme) (c # s)
      in if prefix link_scheme (c # s) \<and> rest \<noteq> [] \<and> link_char (hd rest)
         then (link_scheme @ takeWhile link_char rest) # find_links (dropWhile link_char rest)
         else find_links s)"
  by pat_completeness auto

termination
proof (relation "measure length")
  show "(dropWhile link_char x, c # s) \<in> measure length" if "x = drop (length link_scheme) (c # s)" for x c s
    using length_dropWhile_le [of link_char x] that by (simp add: link_scheme_def)
qed auto

definition rstrip_punct :: "string \<Rightarrow> string" where
  "rstrip_punct s = rev (dropWhile (\<lambda>c. c \<in> {CHR ''.'', CHR '','', CHR '';''}) (rev s))"

text \<open>
  \<open>urlsplit(link)\<close> of such a link and the test of \<open>_is_confirmation_link\<close>; \<open>None\<close> is
  the \<open>ValueError\<close> of an unbalanced or invalid \<open>[host]\<close>.  \<open>bracket_ok\<close> is
  \<open>ipaddress\<close>'s verdict on the text between the brackets.
\<close>

definition link_netloc :: "string \<Rightarrow> string" where
  "link_netloc link = takeWhile (\<lambda>c. c \<notin> {CHR ''/'', CHR ''?'', CHR ''#''}) (drop (length link_scheme) link)"

definition link_path :: "string \<Rightarrow> string" where
  "link_path link = takeWhile (\<lambda>c. c \<notin> {CHR ''?'', CHR ''#''})
     (dropWhile (\<lambda>c. c \<notin> {CHR ''/'', CHR ''?'', CHR ''#''}) (drop (length link_scheme) link))"

definition bracketed :: "string \<Rightarrow> string" where
  "bracketed netloc = takeWhile (\<lambda>c. c \<noteq> CHR '']'') (tl (dropWhile (\<lambda>c. c \<noteq> CHR ''['') netloc))"

definition link_hostname :: "string \<Rightarrow> string" where
  "link_hostname netloc =
     py_lower (if CHR ''['' \<in> set netloc then bracketed netloc else takeWhile (\<lambda>c. c \<noteq> CHR '':'') netloc)"

definition is_confirmation_link :: "(string \<Rightarrow> bool) \<Rightarrow> string list \<Rightarrow> string \<Rightarrow> bool option" where
  "is_confirmation_link bracket_ok hosts link =
     (let netloc = link_netloc link
      in if (CHR ''['' \<in> set netloc) \<noteq> (CHR '']'' \<in> set netloc) \<or>
            (CHR ''['' \<in> set netloc \<and> \<not> bracket_ok (bracketed netloc)) then None
         else Some (prefix link_scheme link \<and> CHR 0x40 \<notin> set netloc \<and> link_hostname netloc \<in> set hosts \<and>
           prefix confirmation_path_prefix (link_path link)))"

fun confirmation_links :: "(string \<Rightarrow> bool) \<Rightarrow> string list \<Rightarrow> string list \<Rightarrow> string list option" where
  "confirmation_links bracket_ok hosts [] = Some []"
| "confirmation_links bracket_ok hosts (l # ls) =
     (case is_confirmation_link bracket_ok hosts (rstrip_punct l) of
        None \<Rightarrow> None
      | Some b \<Rightarrow> map_option (\<lambda>xs. if b then rstrip_punct l # xs else xs) (confirmation_links bracket_ok hosts ls))"

definition token_char :: "char \<Rightarrow> bool" where
  "token_char c \<longleftrightarrow> (let n = of_char c :: nat in
     (48 \<le> n \<and> n \<le> 57) \<or> (65 \<le> n \<and> n \<le> 90) \<or> (97 \<le> n \<and> n \<le> 122))"

definition check_of_subject :: "string \<Rightarrow> string option" where
  "check_of_subject s =
     (let token = drop (length check_subject_prefix) s
      in if prefix check_subject_prefix s \<and> list_all token_char token \<and> 8 \<le> length token \<and> length token \<le> 64
         then Some token else None)"

definition classify ::
  "(string \<Rightarrow> bool) \<Rightarrow> json \<Rightarrow> string \<Rightarrow> string \<Rightarrow> string list \<Rightarrow> relay_message option" where
  "classify bracket_ok message agent relay hosts =
     (let sender = email_of (jget message ''from''); text = jtext message ''text''
      in if sender = confirmation_sender then
           map_option (\<lambda>ls. case remdups ls of
               [l] \<Rightarrow> if sublist (py_lower agent) (py_lower text) then Rm_confirmation l else Rm_letter
             | _ \<Rightarrow> Rm_letter)
             (confirmation_links bracket_ok hosts (find_links text))
         else if relay \<noteq> [] \<and> sender = py_lower relay then
           Some (case check_of_subject (py_strip (jtext message ''subject'')) of
                   None \<Rightarrow> Rm_letter | Some t \<Rightarrow> Rm_check t)
         else Some Rm_letter)"

section \<open>The forwarding state\<close>

definition fw_key :: "email_binding \<Rightarrow> forwarding_row \<Rightarrow> bool" where
  "fw_key b r \<longleftrightarrow> fw_identity_id r = em_identity_id b \<and> fw_revision r = em_revision b"

definition fw_row :: "email_binding \<Rightarrow> db \<Rightarrow> forwarding_row option" where
  "fw_row b d = find (fw_key b) (t_forwarding d)"

definition fw_set :: "email_binding \<Rightarrow> (forwarding_row \<Rightarrow> forwarding_row) \<Rightarrow> db \<Rightarrow> db" where
  "fw_set b f d = d\<lparr>t_forwarding := tbl_update (fw_key b) f (t_forwarding d)\<rparr>"

definition new_forwarding :: "email_binding \<Rightarrow> time \<Rightarrow> forwarding_row" where
  "new_forwarding b now =
     \<lparr>fw_identity_id = em_identity_id b, fw_revision = em_revision b, fw_state = Fw_pending,
      fw_confirmation_link = None, fw_confirmation_at = None, fw_confirmation_shown_at = None,
      fw_last_letter_at = None, fw_last_check_at = None, fw_created_at = now, fw_updated_at = now,
      fw_check_sent_at = None, fw_check_token = None, fw_check_seen_token = None,
      fw_miss_counted = False, fw_misses = 0, fw_check_requested_at = None, fw_stale_since = None,
      fw_stale_notified_at = None, fw_check_attempts = 0\<rparr>"

definition ensure_pending :: "email_binding \<Rightarrow> time \<Rightarrow> db \<Rightarrow> db" where
  "ensure_pending b now d =
     (case fw_row b d of Some _ \<Rightarrow> d
      | None \<Rightarrow> d\<lparr>t_forwarding := t_forwarding d @ [new_forwarding b now]\<rparr>)"

definition record_confirmation :: "email_binding \<Rightarrow> string \<Rightarrow> time \<Rightarrow> db \<Rightarrow> db" where
  "record_confirmation b link now d =
     fw_set b (\<lambda>r. r\<lparr>fw_confirmation_link := Some link, fw_confirmation_at := Some now,
       fw_confirmation_shown_at := None, fw_updated_at := now\<rparr>) (ensure_pending b now d)"

definition mark_active :: "email_binding \<Rightarrow> bool \<Rightarrow> string option \<Rightarrow> time \<Rightarrow> db \<Rightarrow> db" where
  "mark_active b letter token now d =
     fw_set b (\<lambda>r. r\<lparr>fw_state := Fw_active,
         fw_last_letter_at := (if letter then Some now else fw_last_letter_at r),
         fw_last_check_at := (if letter then fw_last_check_at r else Some now),
         fw_misses := 0, fw_stale_since := None, fw_stale_notified_at := None,
         fw_check_seen_token := coalesce token (fw_check_seen_token r), fw_updated_at := now\<rparr>)
       (ensure_pending b now d)"

definition fw_state_of :: "email_binding \<Rightarrow> db \<Rightarrow> forwarding_status option" where
  "fw_state_of b d = map_option fw_state (fw_row b d)"

definition outstanding_check_token :: "email_binding \<Rightarrow> db \<Rightarrow> string option" where
  "outstanding_check_token b d = (case fw_row b d of None \<Rightarrow> None | Some r \<Rightarrow> fw_check_token r)"

definition request_check :: "email_binding \<Rightarrow> time \<Rightarrow> db \<Rightarrow> db" where
  "request_check b now d =
     fw_set b (\<lambda>r. r\<lparr>fw_check_requested_at := Some now, fw_updated_at := now\<rparr>) (ensure_pending b now d)"

definition record_check_sent :: "email_binding \<Rightarrow> string \<Rightarrow> time \<Rightarrow> db \<Rightarrow> db" where
  "record_check_sent b token now =
     fw_set b (\<lambda>r. r\<lparr>fw_check_sent_at := Some now, fw_check_token := Some token,
       fw_check_attempts := fw_check_attempts r + 1, fw_miss_counted := False,
       fw_check_requested_at := None, fw_updated_at := now\<rparr>)"

definition check_return_window :: time where "check_return_window = 2 * 3600"

definition record_check_return :: "email_binding \<Rightarrow> string \<Rightarrow> time \<Rightarrow> db \<Rightarrow> bool \<times> db" where
  "record_check_return b token received d =
     (case fw_row b d of
        None \<Rightarrow> (False, d)
      | Some r \<Rightarrow>
          (case (fw_check_token r, fw_check_sent_at r) of
             (Some t, Some sent) \<Rightarrow>
               if token \<noteq> t \<or> received - sent > check_return_window then (False, d)
               else (True, mark_active b False (Some token) received d)
           | _ \<Rightarrow> (False, d)))"

definition count_miss :: "email_binding \<Rightarrow> time \<Rightarrow> db \<Rightarrow> nat \<times> db" where
  "count_miss b now d =
     (let d' = fw_set b (\<lambda>r. r\<lparr>fw_misses := fw_misses r + 1, fw_miss_counted := True, fw_updated_at := now\<rparr>) d
      in (case fw_row b d' of None \<Rightarrow> 0 | Some r \<Rightarrow> fw_misses r, d'))"

definition mark_stale :: "email_binding \<Rightarrow> time \<Rightarrow> db \<Rightarrow> db" where
  "mark_stale b now =
     fw_set b (\<lambda>r. r\<lparr>fw_state := Fw_stale, fw_stale_since := Some now, fw_stale_notified_at := None,
       fw_updated_at := now\<rparr>)"

definition take_stale_notice :: "email_binding \<Rightarrow> time \<Rightarrow> db \<Rightarrow> bool \<times> db" where
  "take_stale_notice b now d =
     (case find (\<lambda>r. fw_key b r \<and> fw_state r = Fw_stale \<and> fw_stale_notified_at r = None) (t_forwarding d) of
        None \<Rightarrow> (False, d)
      | Some _ \<Rightarrow> (True, fw_set b (\<lambda>r. r\<lparr>fw_stale_notified_at := Some now, fw_updated_at := now\<rparr>) d))"

definition take_confirmation :: "email_binding \<Rightarrow> time \<Rightarrow> db \<Rightarrow> string option \<times> db" where
  "take_confirmation b now d =
     (case find (\<lambda>r. fw_key b r \<and> fw_confirmation_link r \<noteq> None \<and> fw_confirmation_shown_at r = None) (t_forwarding d) of
        None \<Rightarrow> (None, d)
      | Some r \<Rightarrow> (fw_confirmation_link r,
          fw_set b (\<lambda>r. r\<lparr>fw_confirmation_shown_at := Some now, fw_updated_at := now\<rparr>) d))"

section \<open>The daily check\<close>

record 'w fw_health =
  fh_binding :: email_binding
  fh_agent :: string
  fh_hmac :: "string \<Rightarrow> string"
  fh_outgoing :: "string option"
  fh_hours :: "string option"
  fh_parse_float :: "string \<Rightarrow> float_value option"
  fh_compose :: "string \<Rightarrow> string \<Rightarrow> string \<Rightarrow> 'w \<Rightarrow> (string + unit) \<times> 'w"

datatype fw_outcome = Fo_stale | Fo_sent | Fo_blocked

definition utc_day :: "time \<Rightarrow> string" where
  "utc_day now = (case ordinal_ymd (nat (719163 + \<lfloor>now / 86400\<rfloor>)) of (y, m, d) \<Rightarrow> iso_date y m d)"

definition fw_check_token_of :: "(string \<Rightarrow> string) \<Rightarrow> string \<Rightarrow> nat \<Rightarrow> string" where
  "fw_check_token_of hmac day attempt = take 32 (hmac (day @ '':'' @ nat_digits attempt))"

definition check_interval :: "'w fw_health \<Rightarrow> time" where
  "check_interval h =
     (case (case fh_hours h of None \<Rightarrow> Finite 24
            | Some s \<Rightarrow> (case fh_parse_float h s of None \<Rightarrow> Finite 24 | Some v \<Rightarrow> v)) of
        Finite hours \<Rightarrow> if hours * 3600 \<le> check_return_window then 24 * 3600 else hours * 3600
      | _ \<Rightarrow> 24 * 3600)"

text \<open>\<open>send_check\<close>: \<open>Inl None\<close> is \<open>EgressBlocked\<close>, \<open>Inl (Some e)\<close> the client's failure.\<close>

definition send_check :: "'w fw_health \<Rightarrow> time \<Rightarrow> 'w \<Rightarrow> db \<Rightarrow> (string option + string) \<times> 'w \<times> db" where
  "send_check h now w d =
     (if fh_outgoing h \<noteq> Some ''1'' then (Inl None, w, d)
      else let attempt = (case fw_row (fh_binding h) d of None \<Rightarrow> 1 | Some r \<Rightarrow> fw_check_attempts r + 1);
               token = fw_check_token_of (fh_hmac h) (utc_day now) attempt
           in case fh_compose h (fh_agent h) (check_subject_prefix @ token)
                  (''forwarding-check:'' @ em_identity_id (fh_binding h) @ '':'' @ token) w of
                (Inl e, w') \<Rightarrow> (Inl (Some e), w', d)
              | (Inr _, w') \<Rightarrow> (Inr token, w', record_check_sent (fh_binding h) token now d))"

definition check_overdue :: "time \<Rightarrow> forwarding_row \<Rightarrow> bool" where
  "check_overdue now r \<longleftrightarrow>
     (case fw_check_sent_at r of None \<Rightarrow> False
      | Some sent \<Rightarrow> \<not> fw_miss_counted r \<and> fw_check_seen_token r \<noteq> fw_check_token r \<and>
          now - sent > check_return_window)"

definition check_due :: "'w fw_health \<Rightarrow> time \<Rightarrow> forwarding_row \<Rightarrow> bool" where
  "check_due h now r \<longleftrightarrow> fw_check_requested_at r \<noteq> None \<or>
     (case fw_check_sent_at r of None \<Rightarrow> True | Some sent \<Rightarrow> check_interval h \<le> now - sent)"

definition stale_after_misses :: nat where "stale_after_misses = 2"

definition note_miss :: "email_binding \<Rightarrow> forwarding_row \<Rightarrow> time \<Rightarrow> db \<Rightarrow> fw_outcome option \<times> db" where
  "note_miss b r now d =
     (if check_overdue now r then
        (case count_miss b now d of
           (misses, d1) \<Rightarrow>
             if stale_after_misses \<le> misses \<and> fw_state r = Fw_active then (Some Fo_stale, mark_stale b now d1)
             else (None, d1))
      else (None, d))"

definition fw_tick :: "'w fw_health \<Rightarrow> time \<Rightarrow> 'w \<Rightarrow> db \<Rightarrow> (string + fw_outcome option) \<times> 'w \<times> db" where
  "fw_tick h now w d =
     (case fw_row (fh_binding h) d of
        None \<Rightarrow> (Inr None, w, d)
      | Some r \<Rightarrow>
          (case note_miss (fh_binding h) r now d of
             (outcome, d1) \<Rightarrow>
               if check_due h now r then
                 (case send_check h now w d1 of
                    (Inl None, w2, d2) \<Rightarrow> (Inr (coalesce outcome (Some Fo_blocked)), w2, d2)
                  | (Inl (Some e), w2, d2) \<Rightarrow> (Inl e, w2, d2)
                  | (Inr _, w2, d2) \<Rightarrow> (Inr (coalesce outcome (Some Fo_sent)), w2, d2))
               else (Inr outcome, w, d1)))"

section \<open>Histories\<close>

datatype fw_op =
    Relay_seen time
  | Confirmation_seen string time
  | Letter_seen time
  | Check_seen string time
  | Check_asked time
  | Notice_taken time
  | Link_taken time
  | Ticked time

fun fw_step :: "'w fw_health \<Rightarrow> fw_op \<Rightarrow> 'w \<times> db \<Rightarrow> 'w \<times> db" where
  "fw_step h (Relay_seen t) (w, d) = (w, ensure_pending (fh_binding h) t d)"
| "fw_step h (Confirmation_seen l t) (w, d) = (w, record_confirmation (fh_binding h) l t d)"
| "fw_step h (Letter_seen t) (w, d) = (w, mark_active (fh_binding h) True None t d)"
| "fw_step h (Check_seen k t) (w, d) = (w, snd (record_check_return (fh_binding h) k t d))"
| "fw_step h (Check_asked t) (w, d) = (w, request_check (fh_binding h) t d)"
| "fw_step h (Notice_taken t) (w, d) = (w, snd (take_stale_notice (fh_binding h) t d))"
| "fw_step h (Link_taken t) (w, d) = (w, snd (take_confirmation (fh_binding h) t d))"
| "fw_step h (Ticked t) (w, d) = snd (fw_tick h t w d)"

definition fw_run :: "'w fw_health \<Rightarrow> fw_op list \<Rightarrow> 'w \<times> db \<Rightarrow> 'w \<times> db" where
  "fw_run h ops s = fold (fw_step h) ops s"

section \<open>Lemmas\<close>

text \<open>Every operation acts on the row of the binding as on a value.\<close>

lemma fw_row_set [simp]:
  assumes "\<And>r. fw_identity_id (f r) = fw_identity_id r \<and> fw_revision (f r) = fw_revision r"
  shows "fw_row b (fw_set b f d) = map_option f (fw_row b d)"
proof -
  have "find P (tbl_update P f T) = map_option f (find P T)" if "\<And>r. P (f r) = P r" for P T
    using that by (induction T) auto
  then show ?thesis using assms by (simp add: fw_row_def fw_set_def fw_key_def)
qed

lemma fw_row_ensure [simp]:
  "fw_row b (ensure_pending b now d) = Some (case fw_row b d of None \<Rightarrow> new_forwarding b now | Some r \<Rightarrow> r)"
proof -
  have "fw_key b (new_forwarding b now)" by (simp add: fw_key_def new_forwarding_def)
  then show ?thesis by (simp add: ensure_pending_def fw_row_def find_append_case split: option.splits)
qed

lemma send_check_row:
  "fw_row (fh_binding h) (snd (snd (send_check h now w d))) =
     (case fst (send_check h now w d) of
        Inl _ \<Rightarrow> fw_row (fh_binding h) d
      | Inr token \<Rightarrow> map_option (\<lambda>r. r\<lparr>fw_check_sent_at := Some now, fw_check_token := Some token,
          fw_check_attempts := fw_check_attempts r + 1, fw_miss_counted := False,
          fw_check_requested_at := None, fw_updated_at := now\<rparr>) (fw_row (fh_binding h) d))"
  by (simp add: send_check_def record_check_sent_def Let_def split: prod.split sum.split)

text \<open>The counters of a row: a miss is counted at most once for each check sent.\<close>

definition fw_ok :: "forwarding_row \<Rightarrow> bool" where
  "fw_ok r \<longleftrightarrow> (fw_state r = Fw_stale \<longleftrightarrow> fw_stale_since r \<noteq> None) \<and>
     (fw_state r = Fw_stale \<longrightarrow> 2 \<le> fw_misses r) \<and>
     fw_misses r + (if fw_check_sent_at r = None \<or> fw_miss_counted r then 0 else 1) \<le> fw_check_attempts r"

definition fw_fine :: "email_binding \<Rightarrow> db \<Rightarrow> bool" where
  "fw_fine b d \<longleftrightarrow> pred_option fw_ok (fw_row b d)"

lemma new_forwarding_ok: "fw_ok (new_forwarding b now)"
  by (simp add: fw_ok_def new_forwarding_def)

lemma ensured_ok: "fw_fine b d \<Longrightarrow> fw_ok (case fw_row b d of None \<Rightarrow> new_forwarding b now | Some r \<Rightarrow> r)"
  by (cases "fw_row b d") (simp_all add: fw_fine_def new_forwarding_ok)

lemma fine_store_steps:
  assumes "fw_fine b d"
  shows "fw_fine b (ensure_pending b t d)" "fw_fine b (record_confirmation b l t d)"
    "fw_fine b (mark_active b letter k t d)" "fw_fine b (request_check b t d)"
    "fw_fine b (snd (take_stale_notice b t d))" "fw_fine b (snd (take_confirmation b t d))"
  using assms ensured_ok [OF assms, of t]
  by (auto simp: fw_fine_def record_confirmation_def mark_active_def request_check_def take_stale_notice_def
      take_confirmation_def fw_ok_def option.pred_map split: option.splits)

lemma fine_return: "fw_fine b d \<Longrightarrow> fw_fine b (snd (record_check_return b k t d))"
  by (auto simp: record_check_return_def fine_store_steps split: option.splits)

lemma note_miss_row:
  assumes "fw_row b d = Some r"
  shows "fw_row b (snd (note_miss b r now d)) = Some
    (if check_overdue now r then
       (if 1 \<le> fw_misses r \<and> fw_state r = Fw_active
        then r\<lparr>fw_misses := fw_misses r + 1, fw_miss_counted := True, fw_state := Fw_stale,
               fw_stale_since := Some now, fw_stale_notified_at := None, fw_updated_at := now\<rparr>
        else r\<lparr>fw_misses := fw_misses r + 1, fw_miss_counted := True, fw_updated_at := now\<rparr>)
     else r)"
    "fst (note_miss b r now d) =
      (if check_overdue now r \<and> 1 \<le> fw_misses r \<and> fw_state r = Fw_active then Some Fo_stale else None)"
  using assms by (simp_all add: note_miss_def count_miss_def mark_stale_def stale_after_misses_def Let_def)

lemma tick_row:
  assumes "fw_row (fh_binding h) d = Some r"
  obtains r1 where "fw_row (fh_binding h) (snd (note_miss (fh_binding h) r now d)) = Some r1"
    "fw_row (fh_binding h) (snd (snd (fw_tick h now w d))) = Some r1 \<or>
     (\<exists>token. fw_row (fh_binding h) (snd (snd (fw_tick h now w d))) = Some (r1\<lparr>fw_check_sent_at := Some now,
        fw_check_token := Some token, fw_check_attempts := fw_check_attempts r1 + 1,
        fw_miss_counted := False, fw_check_requested_at := None, fw_updated_at := now\<rparr>))"
proof -
  obtain oc d1 where n: "note_miss (fh_binding h) r now d = (oc, d1)" by fastforce
  obtain r1 where r1: "fw_row (fh_binding h) d1 = Some r1" using note_miss_row(1) [OF assms, of now] n by auto
  have s: "snd (snd (fw_tick h now w d)) = (if check_due h now r then snd (snd (send_check h now w d1)) else d1)"
    using assms n by (simp add: fw_tick_def split: prod.split sum.split option.split)
  show ?thesis
  proof (rule that [of r1])
    show "fw_row (fh_binding h) (snd (note_miss (fh_binding h) r now d)) = Some r1" using n r1 by simp
    show "fw_row (fh_binding h) (snd (snd (fw_tick h now w d))) = Some r1 \<or>
     (\<exists>token. fw_row (fh_binding h) (snd (snd (fw_tick h now w d))) = Some (r1\<lparr>fw_check_sent_at := Some now,
        fw_check_token := Some token, fw_check_attempts := fw_check_attempts r1 + 1,
        fw_miss_counted := False, fw_check_requested_at := None, fw_updated_at := now\<rparr>))"
    proof (cases "check_due h now r")
      case False
      show ?thesis unfolding s if_not_P [OF False] by (rule disjI1 [OF r1])
    next
      case True
      show ?thesis
      proof (cases "fst (send_check h now w d1)")
        case (Inl e)
        show ?thesis unfolding s if_P [OF True] send_check_row r1 Inl sum.case by (rule disjI1 [OF refl])
      next
        case (Inr token)
        show ?thesis unfolding s if_P [OF True] send_check_row r1 Inr sum.case option.map
          by (rule disjI2, rule exI [of _ token], rule refl)
      qed
    qed
  qed
qed

lemma fine_tick:
  assumes "fw_fine (fh_binding h) d"
  shows "fw_fine (fh_binding h) (snd (snd (fw_tick h now w d)))"
proof (cases "fw_row (fh_binding h) d")
  case None
  then show ?thesis using assms by (simp add: fw_tick_def)
next
  case (Some r)
  obtain r1 where r1: "fw_row (fh_binding h) (snd (note_miss (fh_binding h) r now d)) = Some r1"
    "fw_row (fh_binding h) (snd (snd (fw_tick h now w d))) = Some r1 \<or>
     (\<exists>token. fw_row (fh_binding h) (snd (snd (fw_tick h now w d))) = Some (r1\<lparr>fw_check_sent_at := Some now,
        fw_check_token := Some token, fw_check_attempts := fw_check_attempts r1 + 1,
        fw_miss_counted := False, fw_check_requested_at := None, fw_updated_at := now\<rparr>))"
    by (rule tick_row [OF Some])
  have ok: "fw_ok r" using assms Some by (simp add: fw_fine_def)
  have "fw_ok r1"
    using ok r1(1) note_miss_row(1) [OF Some, of now]
    by (auto simp: fw_ok_def check_overdue_def split: if_splits option.splits)
  then show ?thesis
    using r1(2) by (auto simp: fw_fine_def fw_ok_def split: if_splits)
qed

lemma fine_run: "fw_fine (fh_binding h) (snd s) \<Longrightarrow> fw_fine (fh_binding h) (snd (fw_run h ops s))"
proof (induction ops arbitrary: s)
  case (Cons x ops)
  obtain w d where s: "s = (w, d)" by fastforce
  have "fw_fine (fh_binding h) (snd (fw_step h x s))"
    using Cons.prems unfolding s by (cases x) (simp_all add: fine_store_steps fine_return fine_tick)
  then show ?case using Cons.IH by (simp add: fw_run_def)
qed (simp add: fw_run_def)

lemma interval_bound: "check_return_window < check_interval h"
  by (simp add: check_interval_def check_return_window_def split: option.split float_value.split)

text \<open>A tick that has to send and can.\<close>

lemma send_ok:
  assumes "fh_outgoing h = Some ''1''" "\<And>a sub key w. fst (fh_compose h a sub key w) = Inr ()"
    "fw_row (fh_binding h) d = Some r"
  shows "fst (send_check h now w d) = Inr (fw_check_token_of (fh_hmac h) (utc_day now) (fw_check_attempts r + 1))"
proof -
  have c: "fh_compose h a sub key w = (Inr (), snd (fh_compose h a sub key w))" for a sub key
    using assms(2) [of a sub key w] by (cases "fh_compose h a sub key w") simp
  show ?thesis unfolding send_check_def Let_def assms(3) option.case
    by (subst c) (simp add: assms(1))
qed

lemma due_tick:
  assumes "fh_outgoing h = Some ''1''" "\<And>a sub key w. fst (fh_compose h a sub key w) = Inr ()"
    "fw_row (fh_binding h) d = Some r" "check_due h now r"
    "fw_row (fh_binding h) (snd (note_miss (fh_binding h) r now d)) = Some r1"
  shows "fst (fw_tick h now w d) = Inr (coalesce (fst (note_miss (fh_binding h) r now d)) (Some Fo_sent))"
    "fw_row (fh_binding h) (snd (snd (fw_tick h now w d))) = Some (r1\<lparr>fw_check_sent_at := Some now,
       fw_check_token := Some (fw_check_token_of (fh_hmac h) (utc_day now) (fw_check_attempts r1 + 1)),
       fw_check_attempts := fw_check_attempts r1 + 1, fw_miss_counted := False,
       fw_check_requested_at := None, fw_updated_at := now\<rparr>)"
proof -
  obtain oc d1 where n: "note_miss (fh_binding h) r now d = (oc, d1)" by fastforce
  have r1: "fw_row (fh_binding h) d1 = Some r1" using assms(5) n by simp
  obtain w2 d2 where sc: "send_check h now w d1 =
      (Inr (fw_check_token_of (fh_hmac h) (utc_day now) (fw_check_attempts r1 + 1)), w2, d2)"
    using send_ok [OF assms(1,2) r1, of now w] by (metis prod.collapse)
  have t: "fw_tick h now w d = (Inr (coalesce oc (Some Fo_sent)), w2, d2)"
    by (simp only: fw_tick_def assms(3,4) option.case prod.case n if_True sc sum.case)
  show "fst (fw_tick h now w d) = Inr (coalesce (fst (note_miss (fh_binding h) r now d)) (Some Fo_sent))"
    by (simp only: t n fst_conv)
  show "fw_row (fh_binding h) (snd (snd (fw_tick h now w d))) = Some (r1\<lparr>fw_check_sent_at := Some now,
       fw_check_token := Some (fw_check_token_of (fh_hmac h) (utc_day now) (fw_check_attempts r1 + 1)),
       fw_check_attempts := fw_check_attempts r1 + 1, fw_miss_counted := False,
       fw_check_requested_at := None, fw_updated_at := now\<rparr>)"
    using send_check_row [of h now w d1] by (simp only: t sc fst_conv snd_conv sum.case r1 option.map)
qed

section \<open>Properties\<close>

text \<open>
  Stale is earned.  In any history of relay traffic, requests and ticks that starts with an
  empty file, forwarding is declared stale only after at least two checks that did not come back,
  each of which was really sent and counted once; the episode has a beginning exactly as long as
  the state is stale.
\<close>

theorem stale_is_earned:
  assumes "fw_row (fh_binding h) (snd (fw_run h ops (w, empty_db))) = Some r"
  shows "(fw_state r = Fw_stale \<longleftrightarrow> fw_stale_since r \<noteq> None) \<and>
    (if fw_state r = Fw_stale then 2 else 0) \<le> fw_misses r \<and> fw_misses r \<le> fw_check_attempts r"
proof -
  have "fw_fine (fh_binding h) (snd (w, empty_db))" by (simp add: fw_fine_def fw_row_def)
  from fine_run [OF this, of ops] show ?thesis using assms by (simp add: fw_fine_def fw_ok_def)
qed

text \<open>
  A dead forwarding is noticed.  Once forwarding worked and mail may be sent, if no check
  comes back, the first tick sends a check, the second counts a miss and sends another, and the
  third declares forwarding stale, whatever interval is configured (an unusable one falls back to
  a day): a check is always overdue before the next one is due.
\<close>

theorem dead_forwarding_is_noticed:
  assumes "fh_outgoing h = Some ''1''" "\<And>a sub key w. fst (fh_compose h a sub key w) = Inr ()"
    "fw_row (fh_binding h) d = Some r" "fw_state r = Fw_active" "fw_misses r = 0" "fw_check_sent_at r = None"
    "\<And>day n. fw_check_seen_token r \<noteq> Some (fw_check_token_of (fh_hmac h) day n)"
    "t1 + check_interval h \<le> t2" "t2 + check_interval h \<le> t3"
    "fw_tick h t1 w d = (o1, w1, d1)" "fw_tick h t2 w1 d1 = (o2, w2, d2)" "fw_tick h t3 w2 d2 = (o3, w3, d3)"
  shows "o1 = Inr (Some Fo_sent) \<and> o2 = Inr (Some Fo_sent) \<and> o3 = Inr (Some Fo_stale) \<and>
    fw_state_of (fh_binding h) d3 = Some Fw_stale"
proof -
  let ?tok = "\<lambda>t n. fw_check_token_of (fh_hmac h) (utc_day t) n"
  let ?sent = "\<lambda>r t. r\<lparr>fw_check_sent_at := Some t, fw_check_token := Some (?tok t (fw_check_attempts r + 1)),
       fw_check_attempts := fw_check_attempts r + 1, fw_miss_counted := False,
       fw_check_requested_at := None, fw_updated_at := t\<rparr>"
  note gap = interval_bound [of h]
  have n1: "note_miss (fh_binding h) r t1 d = (None, d)" by (simp add: note_miss_def check_overdue_def assms(6))
  have r1: "fw_row (fh_binding h) d1 = Some (?sent r t1)" "o1 = Inr (Some Fo_sent)"
    using due_tick [OF assms(1,2,3), of t1 r w] assms(3,6,10) n1 by (simp_all add: check_due_def)
  have over2: "check_overdue t2 (?sent r t1)" using gap assms(7,8) by (auto simp: check_overdue_def)
  have due2: "check_due h t2 (?sent r t1)" using assms(8) by (simp add: check_due_def)
  let ?r2 = "(?sent r t1)\<lparr>fw_misses := 1, fw_miss_counted := True, fw_updated_at := t2\<rparr>"
  have m2: "fw_row (fh_binding h) (snd (note_miss (fh_binding h) (?sent r t1) t2 d1)) = Some ?r2"
    "fst (note_miss (fh_binding h) (?sent r t1) t2 d1) = None"
    using note_miss_row [OF r1(1), of t2] over2 assms(5) by simp_all
  have r2: "fw_row (fh_binding h) d2 = Some (?sent ?r2 t2)" "o2 = Inr (Some Fo_sent)"
    using due_tick [OF assms(1,2) r1(1) due2 m2(1), of w1] assms(11) m2(2) by simp_all
  have over3: "check_overdue t3 (?sent ?r2 t2)" using gap assms(7,9) by (auto simp: check_overdue_def)
  have due3: "check_due h t3 (?sent ?r2 t2)" using assms(9) by (simp add: check_due_def)
  let ?r3 = "(?sent ?r2 t2)\<lparr>fw_misses := 2, fw_miss_counted := True, fw_state := Fw_stale,
    fw_stale_since := Some t3, fw_stale_notified_at := None, fw_updated_at := t3\<rparr>"
  have m3: "fw_row (fh_binding h) (snd (note_miss (fh_binding h) (?sent ?r2 t2) t3 d2)) = Some ?r3"
    "fst (note_miss (fh_binding h) (?sent ?r2 t2) t3 d2) = Some Fo_stale"
    using note_miss_row [OF r2(1), of t3] over3 assms(4) by simp_all
  have "fw_row (fh_binding h) d3 = Some (?sent ?r3 t3)" "o3 = Inr (Some Fo_stale)"
    using due_tick [OF assms(1,2) r2(1) due3 m3(1), of w2] assms(12) m3(2) by simp_all
  then show ?thesis using r1(2) r2(2) by (simp add: fw_state_of_def)
qed

text \<open>
  A message is taken for Google's confirmation only if it comes from Google's sender, names this
  household's mailbox and holds exactly one distinct https link to the confirm path of an allowed
  host.  A link with an unbalanced bracket makes the whole classification raise.
\<close>

lemma malformed_link_crashes:
  "classify bracket_ok (JObj [(''from'', JStr confirmation_sender), (''text'', JStr ''see https://[mail'')]) a r hosts = None"
proof -
  let ?m = "JObj [(''from'', JStr confirmation_sender), (''text'', JStr ''see https://[mail'')]"
  have e: "email_of (jget ?m ''from'') = confirmation_sender"
    by (simp add: jget_def dict_get_def email_of_def confirmation_sender_def py_strip_def is_space_def
        Let_def py_lower_def lower_latin_def lower_char_def)
  have t: "jtext ?m ''text'' = ''see https://[mail''" by (simp add: jtext_def jget_def dict_get_def)
  have f: "find_links ''see https://[mail'' = [''https://[mail'']"
    by (simp add: link_scheme_def link_char_def is_space_def)
  have l: "rstrip_punct ''https://[mail'' = ''https://[mail''" "link_netloc ''https://[mail'' = ''[mail''"
    by code_simp+
  show ?thesis
    unfolding classify_def Let_def e t f by (simp add: is_confirmation_link_def l)
qed

section \<open>Witnesses\<close>

definition sample_relay :: "unit fw_health" where
  "sample_relay = \<lparr>fh_binding = \<lparr>em_identity_id = ''i'', em_revision = 1, em_provider = ''gmail'',
       em_address = ''a@gmail.com'', em_provider_ref = None, em_secret_names = []\<rparr>,
     fh_agent = ''a@gmail.com'', fh_hmac = (\<lambda>s. s), fh_outgoing = Some ''1'', fh_hours = None,
     fh_parse_float = (\<lambda>s. None), fh_compose = (\<lambda>a s k w. (Inr (), w))\<rparr>"

lemma sample_active:
  obtains r where "fw_row (fh_binding sample_relay) (mark_active (fh_binding sample_relay) True None 0 empty_db) = Some r"
    "fw_state r = Fw_active" "fw_misses r = 0" "fw_check_sent_at r = None" "fw_check_seen_token r = None"
    "fw_check_attempts r = 0" "fw_stale_since r = None"
  using that by (simp add: mark_active_def fw_row_def [of _ empty_db] new_forwarding_def)

theorem stale_is_earned_witness:
  "\<exists>r. fw_row (fh_binding sample_relay) (snd (fw_run sample_relay [Letter_seen 0] ((), empty_db))) = Some r \<and>
     fw_stale_since r = None \<and> fw_misses r \<le> fw_check_attempts r"
proof -
  obtain r where r: "fw_row (fh_binding sample_relay) (snd (fw_run sample_relay [Letter_seen 0] ((), empty_db))) = Some r"
    "fw_stale_since r = None" by (rule sample_active) (simp add: fw_run_def)
  from stale_is_earned [OF r(1)] show ?thesis using r by blast
qed

theorem dead_forwarding_is_noticed_witness:
  "let h = sample_relay; b = fh_binding sample_relay; d = mark_active b True None 0 empty_db;
       (o1, w1, d1) = fw_tick h 1 () d; (o2, w2, d2) = fw_tick h 86401 w1 d1;
       (o3, w3, d3) = fw_tick h 172801 w2 d2
   in o2 = Inr (Some Fo_sent) \<and> o3 = Inr (Some Fo_stale) \<and> fw_state_of b d3 = Some Fw_stale"
proof -
  let ?b = "fh_binding sample_relay"
  obtain r where r: "fw_row ?b (mark_active ?b True None 0 empty_db) = Some r"
    "fw_state r = Fw_active" "fw_misses r = 0" "fw_check_sent_at r = None" "fw_check_seen_token r = None"
    by (rule sample_active)
  obtain o1 w1 d1 where 1: "fw_tick sample_relay 1 () (mark_active ?b True None 0 empty_db) = (o1, w1, d1)" by (metis prod.collapse)
  obtain o2 w2 d2 where 2: "fw_tick sample_relay 86401 w1 d1 = (o2, w2, d2)" by (metis prod.collapse)
  obtain o3 w3 d3 where 3: "fw_tick sample_relay 172801 w2 d2 = (o3, w3, d3)" by (metis prod.collapse)
  have i: "check_interval sample_relay = 86400"
    by (simp add: check_interval_def sample_relay_def check_return_window_def)
  have "fh_outgoing sample_relay = Some ''1''" "\<And>a s k w. fst (fh_compose sample_relay a s k w) = Inr ()"
    by (simp_all add: sample_relay_def)
  from dead_forwarding_is_noticed [OF this r(1-4) _ _ _ 1 2 3]
  show ?thesis using r(5) i 1 2 3 by simp
qed

end
