(* ===== verification/Tools.thy ===== *)
theory Tools
  imports Pipeline Forwarding
begin

text \<open>
  \<open>hermes_cloud/runner/tools.py\<close>: everything the model may ask for.  A tool reads, or stages
  a proposal; it never acts.  Rights are checked by the registry and again by each handler.  The
  arguments are whatever JSON the model sent; \<open>sv_str\<close> is Python's \<open>str\<close> of a value
  that is not a text.
\<close>

section \<open>Services, tools and errors\<close>

record 'w services =
  sv_hash :: "string \<Rightarrow> string"
  sv_frepr :: "real \<Rightarrow> string"
  sv_str :: "json \<Rightarrow> string"
  sv_base64 :: "string \<Rightarrow> string option"
  sv_uuid :: "db \<Rightarrow> uid"
  sv_code :: "db \<Rightarrow> string"
  sv_memory :: bool
  sv_forwarding :: bool
  sv_calendar :: "('w calendar_backend \<times> string) option"
  sv_utcnow :: datetime
  sv_email_binding :: "email_binding option"

datatype tool_exn = Tx_denied string | Tx_unknown_tool | Tx_input string | Tx_other string

type_synonym 'w handler =
  "'w services \<Rightarrow> run_context \<Rightarrow> json \<Rightarrow> time \<Rightarrow> 'w \<Rightarrow> db \<Rightarrow> (tool_exn + json) \<times> 'w \<times> db"

record 'w tool =
  tl_name :: string
  tl_capability :: string
  tl_handler :: "'w handler"

definition mutates :: "'w tool \<Rightarrow> bool" where "mutates t \<longleftrightarrow> tl_capability t \<in> all_write"

section \<open>Reading the arguments\<close>

definition field :: "json \<Rightarrow> string \<Rightarrow> json option" where
  "field p k = map_of (obj_fields p) k"

text \<open>\<open>str(arguments.get(key) or "")\<close>.\<close>

definition arg_str :: "'w services \<Rightarrow> json \<Rightarrow> string \<Rightarrow> string" where
  "arg_str sv p k =
     (let v = jget p k in if \<not> truthy v then [] else (case v of JStr s \<Rightarrow> s | _ \<Rightarrow> sv_str sv v))"

text \<open>\<open>_text\<close> and \<open>_int\<close>.\<close>

definition need_text :: "json \<Rightarrow> string \<Rightarrow> nat \<Rightarrow> tool_exn + string" where
  "need_text p k limit =
     (case jget p k of
        JStr s \<Rightarrow>
          if py_strip s = [] then Inl (Tx_input k)
          else if limit < length (py_strip s) then Inl (Tx_input k) else Inr (py_strip s)
      | _ \<Rightarrow> Inl (Tx_input k))"

definition need_int :: "json option \<Rightarrow> int \<Rightarrow> int \<Rightarrow> int \<Rightarrow> tool_exn + int" where
  "need_int v dflt low high =
     (case (case v of None \<Rightarrow> Some dflt
            | Some (JInt n) \<Rightarrow> Some n
            | Some (JBool b) \<Rightarrow> Some (if b then 1 else 0)
            | Some (JReal r) \<Rightarrow> Some (if r < 0 then \<lceil>r\<rceil> else \<lfloor>r\<rfloor>)
            | Some (JStr s) \<Rightarrow> py_int s
            | Some _ \<Rightarrow> None) of
        None \<Rightarrow> Inl (Tx_input ''int'')
      | Some n \<Rightarrow> Inr (max low (min high n)))"

text \<open>
  \<open>date.fromisoformat\<close> on any text: \<open>YYYY-MM-DD\<close>, \<open>YYYYMMDD\<close> and the week forms
  \<open>YYYY-Www[-D]\<close>, \<open>YYYYWww[D]\<close>.
\<close>

definition ymd_of :: "nat option \<Rightarrow> nat option \<Rightarrow> nat option \<Rightarrow> date option" where
  "ymd_of y m d =
     (case (y, m, d) of
        (Some y, Some m, Some d) \<Rightarrow>
          if 1 \<le> y \<and> 1 \<le> m \<and> m \<le> 12 \<and> 1 \<le> d \<and> d \<le> days_in_month y m then Some (y, m, d) else None
      | _ \<Rightarrow> None)"

definition week_date :: "nat option \<Rightarrow> nat option \<Rightarrow> nat option \<Rightarrow> date option" where
  "week_date y w d =
     (case (y, w, d) of
        (Some y, Some w, Some d) \<Rightarrow>
          (let first = ymd_ordinal y 1 1; weekday = (first + 6) mod 7;
               monday = first - weekday + (if 3 < weekday then 7 else 0);
               long = first mod 7 = 4 \<or> (first mod 7 = 3 \<and> is_leap y);
               day = ordinal_ymd (monday + (w - 1) * 7 + d - 1)
           in if 1 \<le> y \<and> 1 \<le> w \<and> (w \<le> 52 \<or> (w = 53 \<and> long)) \<and> 1 \<le> d \<and> d \<le> 7 \<and> fst day \<le> 9999
              then Some day else None)
      | _ \<Rightarrow> None)"

definition parse_date :: "string \<Rightarrow> date option" where
  "parse_date s =
     (if length s = 10 \<and> s ! 4 = CHR ''-'' \<and> s ! 5 = CHR ''W'' \<and> s ! 8 = CHR ''-'' then
        week_date (num 4 (take 4 s)) (num 2 (take 2 (drop 6 s))) (num 1 (drop 9 s))
      else if length s = 10 then read_date s
      else if length s = 8 \<and> s ! 4 = CHR ''-'' \<and> s ! 5 = CHR ''W'' then
        week_date (num 4 (take 4 s)) (num 2 (drop 6 s)) (Some 1)
      else if length s = 8 \<and> s ! 4 = CHR ''W'' then
        week_date (num 4 (take 4 s)) (num 2 (take 2 (drop 5 s))) (num 1 (drop 7 s))
      else if length s = 8 then ymd_of (num 4 (take 4 s)) (num 2 (take 2 (drop 4 s))) (num 2 (drop 6 s))
      else if length s = 7 \<and> s ! 4 = CHR ''W'' then
        week_date (num 4 (take 4 s)) (num 2 (drop 5 s)) (Some 1)
      else None)"

section \<open>Staging a proposal\<close>

definition propose ::
  "'w services \<Rightarrow> run_context \<Rightarrow> string \<Rightarrow> json \<Rightarrow> time \<Rightarrow> db \<Rightarrow> uid \<times> db" where
  "propose sv c kind payload now d =
     (case stage (sv_hash sv) (sv_frepr sv) (sv_uuid sv d) (sv_code sv d) kind payload (rc_chat_id c)
             (rc_actor_id c) (rc_thread_id c) (Some (''chat:'' @ rc_chat_id c)) None ttl_seconds now d of
        ((i, _, _), d') \<Rightarrow> (i, d'))"

definition proposal_answer :: "uid \<Rightarrow> json" where
  "proposal_answer i = JObj [(''proposal_id'', JStr i), (''status'', JStr ''AWAITS_CONFIRMATION'')]"

text \<open>\<open>context.require(cap)\<close> before the rest of a handler.\<close>

definition guarded :: "string \<Rightarrow> 'w handler \<Rightarrow> 'w handler" where
  "guarded cap f sv c args now w d =
     (case require c cap of
        Inl (Capability_denied k _) \<Rightarrow> (Inl (Tx_denied k), w, d)
      | Inr _ \<Rightarrow> f sv c args now w d)"

section \<open>The reading tools\<close>

definition list_reminders :: "'w handler" where
  "list_reminders = guarded ''tasks.read'' (\<lambda>sv c args now w d.
     case need_int (field args ''limit'') 20 1 50 of
       Inl e \<Rightarrow> (Inl e, w, d)
     | Inr limit \<Rightarrow>
         (Inr (JObj [(''reminders'', JArr (map (\<lambda>r. JObj [(''id'', JStr (re_id r)), (''text'', JStr (re_text r)),
              (''due_at'', JReal (re_due_at r))])
            (take (nat limit) (filter (\<lambda>r. re_chat r = rc_chat_id c)
              (reminders_pending (nat limit * 4) d)))))]), w, d))"

definition list_pending_proposals :: "'w handler" where
  "list_pending_proposals = guarded ''tasks.read'' (\<lambda>sv c args now w d.
     (Inr (JObj [(''proposals'', JArr (map (\<lambda>a. JObj [(''id'', JStr (ap_id a)), (''kind'', JStr (ap_kind a)),
            (''expires_at'', JReal (ap_expires_at a))])
          (pending_for (rc_chat_id c) (rc_thread_id c) now d)))]), w, d))"

definition either_of :: "json \<Rightarrow> json \<Rightarrow> json" where "either_of a b = (if truthy a then a else b)"

definition calendar_list_events :: "'w handler" where
  "calendar_list_events = guarded ''calendar.read'' (\<lambda>sv c args now w d.
     case sv_calendar sv of
       None \<Rightarrow> (Inl (Tx_input ''calendar''), w, d)
     | Some (be, cal) \<Rightarrow>
         (case need_int (field args ''days'') 14 1 60 of
            Inl e \<Rightarrow> (Inl e, w, d)
          | Inr days \<Rightarrow>
              (case upcoming be cal (nat days) (sv_utcnow sv) w of
                 (Inl _, w') \<Rightarrow> (Inl (Tx_other ''CalendarError''), w', d)
               | (Inr events, w') \<Rightarrow>
                   (Inr (JObj [(''events'', JArr (map (\<lambda>e. JObj
                        [(''summary'', dict_get e ''summary''),
                         (''start'', either_of (jget (dict_get e ''start'') ''dateTime'') (jget (dict_get e ''start'') ''date'')),
                         (''location'', dict_get e ''location'')]) events))]), w', d))))"

definition memory_search :: "'w handler" where
  "memory_search = guarded ''memory.read'' (\<lambda>sv c args now w d.
     if \<not> sv_memory sv then (Inl (Tx_input ''memory''), w, d)
     else let k = jget args ''kind''; q = jget args ''query'' in
       if k \<noteq> JNull \<and> (case jstr k of None \<Rightarrow> True | Some s \<Rightarrow> s \<notin> memory_kinds) then (Inl (Tx_input ''kind''), w, d)
       else if truthy q \<and> jstr q = None then (Inl (Tx_other ''AttributeError''), w, d)
       else (Inr (JObj [(''statements'', JArr (map (\<lambda>m. JObj [(''id'', JStr (me_id m)),
          (''kind'', JStr (me_kind m)), (''subject'', opt_json (me_subject m)), (''text'', JStr (me_text m))])
          (recall (jstr q) (jstr k) 20 now d)))]), w, d))"

section \<open>The proposing tools\<close>

definition propose_reminder :: "'w handler" where
  "propose_reminder = guarded ''reminder.create'' (\<lambda>sv c args now w d.
     case need_text args ''text'' 500 of
       Inl e \<Rightarrow> (Inl e, w, d)
     | Inr text \<Rightarrow>
         (case parse_date (case field args ''due_date'' of None \<Rightarrow> [] | Some (JStr s) \<Rightarrow> s | Some v \<Rightarrow> sv_str sv v) of
            None \<Rightarrow> (Inl (Tx_input ''due_date''), w, d)
          | Some due \<Rightarrow>
              (case propose sv c kind_reminder (JObj [(''kind'', JStr kind_reminder), (''text'', JStr text),
                   (''due_date'', JStr (date_text due)),
                   (''due_at'', JReal (due_timestamp default_hour (date_due due)))]) now d of
                 (i, d') \<Rightarrow> (Inr (proposal_answer i), w, d'))))"

definition memory_append :: "'w handler" where
  "memory_append = guarded ''memory.append'' (\<lambda>sv c args now w d.
     if \<not> sv_memory sv then (Inl (Tx_input ''memory''), w, d)
     else case need_text args ''text'' 500 of
       Inl e \<Rightarrow> (Inl e, w, d)
     | Inr text \<Rightarrow>
         (case (if truthy (jget args ''kind'') then jstr (jget args ''kind'') else Some ''fact'') of
            None \<Rightarrow> (Inl (Tx_input ''kind''), w, d)
          | Some kind \<Rightarrow>
              if kind \<notin> memory_kinds then (Inl (Tx_input ''kind''), w, d)
              else (case memory_propose (sv_uuid sv d) text kind (jstr (jget args ''subject'')) (Some (rc_actor_id c))
                       None (jtext_or_none args ''supersedes'') None None None now d of
                      (Inl _, d1) \<Rightarrow> (Inl (Tx_input ''memory''), w, d1)
                    | (Inr None, d1) \<Rightarrow> (Inl (Tx_other ''AttributeError''), w, d1)
                    | (Inr (Some m), d1) \<Rightarrow>
                        (case propose sv c kind_memory (JObj [(''kind'', JStr kind_memory),
                             (''statement_id'', JStr (me_id m)), (''text'', JStr (me_text m)),
                             (''memory_kind'', JStr (me_kind m))]) now d1 of
                           (i, d2) \<Rightarrow>
                             (Inr (JObj [(''proposal_id'', JStr i), (''statement_id'', JStr (me_id m)),
                                (''status'', JStr ''AWAITS_CONFIRMATION'')]), w, d2)))))"

definition attachment_to_payload :: "attachment \<Rightarrow> json" where
  "attachment_to_payload a =
     JObj [(''filename'', JStr (oa_filename a)), (''content_type'', JStr (oa_content_type a)),
       (''content_base64'', JStr (oa_content_base64 a))]"

definition propose_email :: "'w handler" where
  "propose_email = guarded ''email.compose'' (\<lambda>sv c args now w d.
     case attachment_items args of
       Inl _ \<Rightarrow> (Inl (Tx_input ''attachments''), w, d)
     | Inr raw \<Rightarrow>
         (let letter = \<lparr>og_to = arg_str sv args ''to'', og_subject = arg_str sv args ''subject'',
                og_body = arg_str sv args ''body'', og_in_reply_to = jtext_or_none args ''in_reply_to'',
                og_references = None, og_from_identity_id = None, og_binding_revision = None,
                og_from_address = None, og_attachments = map attachment_from_payload raw\<rparr>
          in case validate (sv_base64 sv) letter of
               Inl _ \<Rightarrow> (Inl (Tx_input ''email''), w, d)
             | Inr _ \<Rightarrow>
                 (let payload = [(''kind'', JStr kind_email), (''to'', JStr (og_to letter)),
                        (''subject'', JStr (og_subject letter)), (''body'', JStr (og_body letter)),
                        (''in_reply_to'', opt_json (og_in_reply_to letter)),
                        (''attachments'', JArr (map attachment_to_payload (og_attachments letter)))] @
                        (case sv_email_binding sv of None \<Rightarrow> []
                         | Some b \<Rightarrow> [(''from_identity_id'', JStr (em_identity_id b)),
                             (''binding_revision'', JInt (em_revision b)), (''from_address'', JStr (em_address b))])
                  in case propose sv c kind_bundle (bundle_payload [\<lparr>it_payload = payload, it_enabled = True\<rparr>]
                            (''LETTER_TO '' @ og_to letter)) now d of
                       (i, d') \<Rightarrow> (Inr (proposal_answer i), w, d'))))"

definition propose_whatsapp :: "'w handler" where
  "propose_whatsapp = guarded ''whatsapp.send'' (\<lambda>sv c args now w d.
     case validate_whatsapp \<lparr>wa_to = arg_str sv args ''to'', wa_text = arg_str sv args ''text''\<rparr> of
       Inl _ \<Rightarrow> (Inl (Tx_input ''whatsapp''), w, d)
     | Inr m \<Rightarrow>
         (case propose sv c kind_bundle (bundle_payload [\<lparr>it_payload = [(''kind'', JStr kind_whatsapp),
              (''to'', JStr (wa_to m)), (''text'', JStr (wa_text m))], it_enabled = True\<rparr>]
              (''WHATSAPP_TO '' @ wa_to m)) now d of
            (i, d') \<Rightarrow> (Inr (proposal_answer i), w, d')))"

definition forwarding_recheck :: "'w handler" where
  "forwarding_recheck = guarded ''email.compose'' (\<lambda>sv c args now w d.
     let no = Inr (JObj [(''requested'', JBool False), (''reason'', JStr ''no_gmail_relay'')])
     in case sv_email_binding sv of
          None \<Rightarrow> (no, w, d)
        | Some b \<Rightarrow>
            if \<not> sv_forwarding sv \<or> em_provider b \<noteq> ''gmail'' \<or> fw_state_of b d = None then (no, w, d)
            else (Inr (JObj [(''requested'', JBool True), (''status'', JStr ''CHECK_SOON'')]), w, request_check b now d))"

section \<open>The registry\<close>

definition registry :: "'w tool list" where
  "registry =
    [\<lparr>tl_name = ''list_reminders'', tl_capability = ''tasks.read'', tl_handler = list_reminders\<rparr>,
     \<lparr>tl_name = ''list_pending_proposals'', tl_capability = ''tasks.read'', tl_handler = list_pending_proposals\<rparr>,
     \<lparr>tl_name = ''calendar_list_events'', tl_capability = ''calendar.read'', tl_handler = calendar_list_events\<rparr>,
     \<lparr>tl_name = ''propose_reminder'', tl_capability = ''reminder.create'', tl_handler = propose_reminder\<rparr>,
     \<lparr>tl_name = ''memory_search'', tl_capability = ''memory.read'', tl_handler = memory_search\<rparr>,
     \<lparr>tl_name = ''memory_append'', tl_capability = ''memory.append'', tl_handler = memory_append\<rparr>,
     \<lparr>tl_name = ''propose_email'', tl_capability = ''email.compose'', tl_handler = propose_email\<rparr>,
     \<lparr>tl_name = ''propose_whatsapp'', tl_capability = ''whatsapp.send'', tl_handler = propose_whatsapp\<rparr>,
     \<lparr>tl_name = ''forwarding_recheck'', tl_capability = ''email.compose'', tl_handler = forwarding_recheck\<rparr>]"

definition available :: "run_context \<Rightarrow> 'w tool list" where
  "available c = filter (\<lambda>t. can c (tl_capability t)) registry"

definition invoke :: "'w services \<Rightarrow> run_context \<Rightarrow> string \<Rightarrow> json \<Rightarrow> time \<Rightarrow> 'w \<Rightarrow> db \<Rightarrow> (tool_exn + json) \<times> 'w \<times> db" where
  "invoke sv c name args now w d =
     (case find (\<lambda>t. tl_name t = name) registry of
        None \<Rightarrow> (Inl Tx_unknown_tool, w, d)
      | Some t \<Rightarrow> guarded (tl_capability t) (tl_handler t) sv c args now w d)"

section \<open>What a tool can change\<close>

definition fw_core :: "forwarding_row \<Rightarrow> forwarding_row" where
  "fw_core r = r\<lparr>fw_check_requested_at := None, fw_updated_at := 0\<rparr>"

text \<open>
  Nothing but new staged proposals of this actor in this chat, new candidates of the memory, and
  requests for a check of the forwarding.
\<close>

definition only_proposes :: "run_context \<Rightarrow> db \<Rightarrow> db \<Rightarrow> bool" where
  "only_proposes c d d' \<longleftrightarrow> (\<exists>new mem fw.
     d' = d\<lparr>t_approvals := t_approvals d @ new, t_memory := t_memory d @ mem, t_forwarding := fw\<rparr> \<and>
     (\<forall>a \<in> set new. ap_status a = Ap_staged \<and> ap_chat a = rc_chat_id c \<and> ap_thread a = rc_thread_id c \<and>
        ap_actor a = rc_actor_id c) \<and>
     (\<forall>m \<in> set mem. me_status m = Candidate) \<and>
     map fw_core fw = map fw_core (t_forwarding d))"

lemma only_proposes_refl: "only_proposes c d d"
  unfolding only_proposes_def
  by (rule exI [of _ "[]"], rule exI [of _ "[]"], rule exI [of _ "t_forwarding d"]) simp

lemma only_proposes_trans: "only_proposes c d d1 \<Longrightarrow> only_proposes c d1 d2 \<Longrightarrow> only_proposes c d d2"
  unfolding only_proposes_def
proof (elim exE conjE)
  fix new mem fw new' mem' fw'
  assume "d1 = d\<lparr>t_approvals := t_approvals d @ new, t_memory := t_memory d @ mem, t_forwarding := fw\<rparr>"
    "d2 = d1\<lparr>t_approvals := t_approvals d1 @ new', t_memory := t_memory d1 @ mem', t_forwarding := fw'\<rparr>"
    "\<forall>a \<in> set new. ap_status a = Ap_staged \<and> ap_chat a = rc_chat_id c \<and> ap_thread a = rc_thread_id c \<and> ap_actor a = rc_actor_id c"
    "\<forall>a \<in> set new'. ap_status a = Ap_staged \<and> ap_chat a = rc_chat_id c \<and> ap_thread a = rc_thread_id c \<and> ap_actor a = rc_actor_id c"
    "\<forall>m \<in> set mem. me_status m = Candidate" "\<forall>m \<in> set mem'. me_status m = Candidate"
    "map fw_core fw = map fw_core (t_forwarding d)" "map fw_core fw' = map fw_core (t_forwarding d1)"
  then show "\<exists>new mem fw.
     d2 = d\<lparr>t_approvals := t_approvals d @ new, t_memory := t_memory d @ mem, t_forwarding := fw\<rparr> \<and>
     (\<forall>a \<in> set new. ap_status a = Ap_staged \<and> ap_chat a = rc_chat_id c \<and> ap_thread a = rc_thread_id c \<and> ap_actor a = rc_actor_id c) \<and>
     (\<forall>m \<in> set mem. me_status m = Candidate) \<and> map fw_core fw = map fw_core (t_forwarding d)"
    by (intro exI [of _ "new @ new'"] exI [of _ "mem @ mem'"] exI [of _ fw']) auto
qed

lemma propose_only: "only_proposes c d (snd (propose sv c kind payload now d))"
proof -
  have "\<exists>a. snd (propose sv c kind payload now d) = d\<lparr>t_approvals := t_approvals d @ [a]\<rparr> \<and>
      ap_status a = Ap_staged \<and> ap_chat a = rc_chat_id c \<and> ap_thread a = rc_thread_id c \<and> ap_actor a = rc_actor_id c"
    unfolding propose_def stage_def Let_def prod.case snd_conv by (rule exI, rule conjI, rule refl) simp
  then obtain a where a: "snd (propose sv c kind payload now d) = d\<lparr>t_approvals := t_approvals d @ [a]\<rparr>"
    "ap_status a = Ap_staged \<and> ap_chat a = rc_chat_id c \<and> ap_thread a = rc_thread_id c \<and> ap_actor a = rc_actor_id c"
    by blast
  show ?thesis unfolding a(1) only_proposes_def
    by (rule exI [of _ "[a]"], rule exI [of _ "[]"], rule exI [of _ "t_forwarding d"]) (simp add: a(2))
qed

lemma memory_propose_only:
  "only_proposes c d (snd (memory_propose nid raw kind subj actor run prv obs vfrom vto now d))"
proof (cases rule: memory_propose_cases [of nid raw kind subj actor run prv obs vfrom vto now d])
  case (refused e)
  then show ?thesis by (simp add: only_proposes_refl)
next
  case (new res)
  show ?thesis unfolding new(1) only_proposes_def
    by (rule exI [of _ "[]"], rule exI [of _ "[new_statement nid (py_strip raw) kind subj actor run prv obs vfrom vto now]"],
        rule exI [of _ "t_forwarding d"]) (simp add: new_statement_def)
qed

lemma request_check_only:
  assumes "fw_state_of b d \<noteq> None"
  shows "only_proposes c d (request_check b now d)"
proof -
  have "ensure_pending b now d = d"
    using assms by (auto simp: fw_state_of_def ensure_pending_def)
  then have r: "request_check b now d = d\<lparr>t_forwarding := tbl_update (fw_key b)
      (\<lambda>r. r\<lparr>fw_check_requested_at := Some now, fw_updated_at := now\<rparr>) (t_forwarding d)\<rparr>"
    by (simp add: request_check_def fw_set_def)
  have "fw_core (if fw_key b r then r\<lparr>fw_check_requested_at := Some now, fw_updated_at := now\<rparr> else r) = fw_core r" for r
    by (simp add: fw_core_def)
  then have m: "map fw_core (tbl_update (fw_key b) (\<lambda>r. r\<lparr>fw_check_requested_at := Some now, fw_updated_at := now\<rparr>)
      (t_forwarding d)) = map fw_core (t_forwarding d)"
    unfolding tbl_update_def list.map_comp comp_def by (simp only:)
  show ?thesis unfolding r only_proposes_def
    by (rule exI [of _ "[]"], rule exI [of _ "[]"], rule exI [of _ "tbl_update (fw_key b)
      (\<lambda>r. r\<lparr>fw_check_requested_at := Some now, fw_updated_at := now\<rparr>) (t_forwarding d)"]) (simp add: m)
qed

lemma guarded_only:
  assumes "only_proposes c d (snd (snd (f sv c args now w d)))"
  shows "only_proposes c d (snd (snd (guarded cap f sv c args now w d)))"
  using assms by (simp add: guarded_def require_def only_proposes_refl split: sum.split capability_denied.split)

text \<open>A result whose proposal is staged last.\<close>

lemma staged_only:
  "only_proposes c d (snd (snd (case propose sv c kind payload now d of (i, d') \<Rightarrow> (Inr (g i), w, d'))))"
  using propose_only [of c d sv kind payload now] by (cases "propose sv c kind payload now d") simp

lemma handlers_only:
  "only_proposes c d (snd (snd (list_reminders sv c args now w d)))"
  "only_proposes c d (snd (snd (list_pending_proposals sv c args now w d)))"
  "only_proposes c d (snd (snd (calendar_list_events sv c args now w d)))"
  "only_proposes c d (snd (snd (memory_search sv c args now w d)))"
  "only_proposes c d (snd (snd (propose_reminder sv c args now w d)))"
  "only_proposes c d (snd (snd (propose_email sv c args now w d)))"
  "only_proposes c d (snd (snd (propose_whatsapp sv c args now w d)))"
  "only_proposes c d (snd (snd (forwarding_recheck sv c args now w d)))"
  unfolding list_reminders_def list_pending_proposals_def calendar_list_events_def memory_search_def
    propose_reminder_def propose_email_def propose_whatsapp_def forwarding_recheck_def
  by (intro guarded_only; simp add: only_proposes_refl staged_only request_check_only Let_def
      split: sum.split option.split prod.split)+

lemma memory_append_only: "only_proposes c d (snd (snd (memory_append sv c args now w d)))"
proof -
  have stop: "only_proposes c d d1"
    if "memory_propose nid raw kind subj actor run prv obs vfrom vto now d = (r, d1)"
    for d1 nid raw kind subj actor run prv obs vfrom vto r
    using memory_propose_only [of c d nid raw kind subj actor run prv obs vfrom vto now] that by simp
  have step: "only_proposes c d d2"
    if "propose sv c k p now d1 = (i, d2)" "memory_propose nid raw kind subj actor run prv obs vfrom vto now d = (r, d1)"
    for k p i d1 d2 nid raw kind subj actor run prv obs vfrom vto r
    using only_proposes_trans [OF stop [OF that(2)]] propose_only [of c d1 sv k p now] that(1) by simp
  show ?thesis
    unfolding memory_append_def
    by (rule guarded_only)
      (simp add: only_proposes_refl split: sum.split option.split prod.split, blast intro: stop step)
qed

lemma registry_only: "t \<in> set registry \<Longrightarrow> only_proposes c d (snd (snd (tl_handler t sv c args now w d)))"
  unfolding registry_def by (auto simp: handlers_only memory_append_only)

lemma invoke_only: "only_proposes c d (snd (snd (invoke sv c name args now w d)))"
proof (cases "find (\<lambda>t. tl_name t = name) (registry :: 'a tool list)")
  case None
  then show ?thesis by (simp add: invoke_def only_proposes_refl)
next
  case (Some t)
  then show ?thesis
    using guarded_only [where f = "tl_handler t", OF registry_only] find_Some_mem [OF Some] by (simp add: invoke_def)
qed

end
