(* ===== verification/ToolLoop.thy ===== *)
theory ToolLoop
  imports Tools Usage
begin

text \<open>
  \<open>hermes_cloud/runner/model.py\<close>: one turn of the dialogue.  The provider is a parameter: it
  may answer anything, or fail.  Each \<open>tool_use\<close> goes through the effect journal under the
  turn's run id; a failed call is repeated once, and only while the turn has no effect; the turn
  ends by iterations, time, tokens or the day's cost cap.  Both clocks are read from the world.
\<close>

section \<open>Messages\<close>

datatype block = Text_block string | Tool_use string string json | Other_block

record model_reply =
  mr_stop_reason :: "string option"
  mr_content :: "block list"
  mr_usage :: "token_usage option"

record tool_outcome =
  to_id :: string
  to_content :: string
  to_error :: bool

datatype turn_message =
  User_text string | Assistant_blocks "block list" | Tool_results "tool_outcome list" | Earlier json

text \<open>\<open>json.dumps(payload, ensure_ascii=False, default=str)\<close> of a tool's answer.\<close>

fun json_text :: "(real \<Rightarrow> string) \<Rightarrow> json \<Rightarrow> string" where
  "json_text fr (JArr xs) = ''['' @ join '', '' (map (json_text fr) xs) @ '']''"
| "json_text fr (JObj d) = ''{'' @ join '', '' (map (\<lambda>(k, v). quote_json k @ '': '' @ json_text fr v) d) @ ''}''"
| "json_text fr v = canonical fr v"

section \<open>The loop\<close>

record 'w tool_loop =
  lp_services :: "'w services"
  lp_max_iterations :: nat
  lp_max_seconds :: real
  lp_token_budget :: int
  lp_cost_guard :: "cost_guard option"
  lp_clock :: "'w \<Rightarrow> time"
  lp_now :: "'w \<Rightarrow> time"
  lp_create :: "string list \<Rightarrow> turn_message list \<Rightarrow> 'w \<Rightarrow> (string + model_reply) \<times> 'w"

definition max_iterations :: nat where "max_iterations = 8"
definition max_seconds :: real where "max_seconds = 5 * 60"
definition token_budget :: int where "token_budget = 120000"

datatype stop_reason =
    Stop_completed | Stop_iterations | Stop_timeout | Stop_budget | Stop_cost_cap | Stop_interrupted
  | Stop_refused | Stop_no_tools

record loop_result =
  lr_text :: string
  lr_stopped :: stop_reason
  lr_iterations :: nat
  lr_input_tokens :: int
  lr_output_tokens :: int
  lr_tool_calls :: "string list"
  lr_effects :: "uid list"

definition empty_result :: loop_result where
  "empty_result = \<lparr>lr_text = [], lr_stopped = Stop_completed, lr_iterations = 0, lr_input_tokens = 0,
     lr_output_tokens = 0, lr_tool_calls = [], lr_effects = []\<rparr>"

definition result_tokens :: "loop_result \<Rightarrow> int" where
  "result_tokens r = lr_input_tokens r + lr_output_tokens r"

definition stop :: "loop_result \<Rightarrow> stop_reason \<Rightarrow> loop_result" where
  "stop r reason =
     r\<lparr>lr_stopped := reason,
       lr_text := (if reason = Stop_cost_cap \<and> lr_text r = [] then ''DEGRADED_MESSAGE''
         else if reason \<in> {Stop_iterations, Stop_timeout, Stop_budget} \<and> lr_text r = [] then ''TEXT_LIMIT''
         else lr_text r)\<rparr>"

definition account :: "loop_result \<Rightarrow> model_reply \<Rightarrow> loop_result" where
  "account r m =
     r\<lparr>lr_input_tokens := lr_input_tokens r + (case mr_usage m of None \<Rightarrow> 0 | Some u \<Rightarrow> tokens (tu_input u)),
       lr_output_tokens := lr_output_tokens r + (case mr_usage m of None \<Rightarrow> 0 | Some u \<Rightarrow> tokens (tu_output u))\<rparr>"

definition text_of :: "block list \<Rightarrow> string" where
  "text_of blocks = py_strip (join nl (concat (map (\<lambda>b. case b of Text_block t \<Rightarrow> [py_strip t] | _ \<Rightarrow> []) blocks)))"

subsection \<open>Calling the provider\<close>

datatype call_stop = Cap_reached | Call_failed string

definition over_cap :: "cost_guard option \<Rightarrow> db \<Rightarrow> bool" where
  "over_cap g d = (case g of None \<Rightarrow> False | Some x \<Rightarrow> guard_over_budget x d)"

definition note_cost :: "cost_guard option \<Rightarrow> model_reply \<Rightarrow> time \<Rightarrow> db \<Rightarrow> db" where
  "note_cost g m now d = (case g of None \<Rightarrow> d | Some x \<Rightarrow> guard_record x (mr_usage m) now d)"

definition call_model ::
  "'w tool_loop \<Rightarrow> run_context \<Rightarrow> cost_guard option \<Rightarrow> turn_message list \<Rightarrow> 'w \<Rightarrow> db \<Rightarrow>
   (call_stop + model_reply) \<times> 'w \<times> db" where
  "call_model lp c g msgs w d =
     (let tools = map tl_name (available c :: 'w tool list)
      in if over_cap g d then (Inl Cap_reached, w, d)
         else case lp_create lp tools msgs w of
             (Inr m, w1) \<Rightarrow> (Inr m, w1, note_cost g m (lp_now lp w1) d)
           | (Inl e, w1) \<Rightarrow>
               if journal_has_effects (rc_run_id c) d then (Inl (Call_failed e), w1, d)
               else if over_cap g d then (Inl Cap_reached, w1, d)
               else (case lp_create lp tools msgs w1 of
                   (Inr m, w2) \<Rightarrow> (Inr m, w2, note_cost g m (lp_now lp w2) d)
                 | (Inl e2, w2) \<Rightarrow> (Inl (Call_failed e2), w2, d)))"

subsection \<open>Running one tool\<close>

definition exn_text :: "tool_exn \<Rightarrow> string \<times> string" where
  "exn_text e = (case e of
       Tx_denied cap \<Rightarrow> (''CapabilityDenied: '' @ cap, ''NO_RIGHT: '' @ cap)
     | Tx_unknown_tool \<Rightarrow> (''UnknownTool: '', ''UnknownTool'')
     | Tx_input t \<Rightarrow> (''ToolInputError: '' @ t, t)
     | Tx_other n \<Rightarrow> (n, ''TOOL_FAILED''))"

definition run_tool ::
  "'w tool_loop \<Rightarrow> run_context \<Rightarrow> string \<Rightarrow> string \<Rightarrow> json \<Rightarrow> loop_result \<Rightarrow> 'w \<Rightarrow> db \<Rightarrow>
   (journal_error + tool_outcome) \<times> loop_result \<times> 'w \<times> db" where
  "run_tool lp c tid name args r w d =
     (let r1 = r\<lparr>lr_tool_calls := lr_tool_calls r @ [name]\<rparr>; sv = lp_services lp; now = lp_now lp w
      in case journal_begin (sv_uuid sv d) (rc_run_id c) tid name None None now effect_lease_seconds d of
           (Inl (Effect_in_flight _), d1) \<Rightarrow>
             (Inr \<lparr>to_id = tid, to_content = ''ALREADY_RUNNING'', to_error = True\<rparr>, r1, w, d1)
         | (Inl e, d1) \<Rightarrow> (Inl e, r1, w, d1)
         | (Inr (e, False), d1) \<Rightarrow>
             (Inr (if settled e
                   then \<lparr>to_id = tid,
                     to_content = (case coalesce (str_or_none (ef_result e)) (str_or_none (ef_error e)) of
                        None \<Rightarrow> [] | Some t \<Rightarrow> t),
                     to_error = (ef_status e \<noteq> Ef_done)\<rparr>
                   else \<lparr>to_id = tid, to_content = ''OUTCOME_UNKNOWN'', to_error = True\<rparr>), r1, w, d1)
         | (Inr (e, True), d1) \<Rightarrow>
             (let r2 = r1\<lparr>lr_effects := lr_effects r1 @ [ef_id e]\<rparr>
              in case invoke sv c name args now w d1 of
                   (Inl x, w2, d2) \<Rightarrow>
                     (Inr \<lparr>to_id = tid, to_content = snd (exn_text x), to_error = True\<rparr>, r2, w2,
                      journal_fail (ef_id e) (fst (exn_text x)) (lp_now lp w2) d2)
                 | (Inr payload, w2, d2) \<Rightarrow>
                     (let t = json_text (sv_frepr sv) payload
                      in (Inr \<lparr>to_id = tid, to_content = t, to_error = False\<rparr>, r2, w2,
                          journal_complete (ef_id e) t (lp_now lp w2) d2))))"

fun run_blocks ::
  "'w tool_loop \<Rightarrow> run_context \<Rightarrow> block list \<Rightarrow> loop_result \<Rightarrow> 'w \<Rightarrow> db \<Rightarrow>
   (journal_error + tool_outcome list) \<times> loop_result \<times> 'w \<times> db" where
  "run_blocks lp c [] r w d = (Inr [], r, w, d)"
| "run_blocks lp c (Tool_use tid name args # bs) r w d =
     (case run_tool lp c tid name args r w d of
        (Inl e, r1, w1, d1) \<Rightarrow> (Inl e, r1, w1, d1)
      | (Inr t, r1, w1, d1) \<Rightarrow>
          (case run_blocks lp c bs r1 w1 d1 of
             (Inl e, r2, w2, d2) \<Rightarrow> (Inl e, r2, w2, d2)
           | (Inr ts, r2, w2, d2) \<Rightarrow> (Inr (t # ts), r2, w2, d2)))"
| "run_blocks lp c (_ # bs) r w d = run_blocks lp c bs r w d"

subsection \<open>The turn\<close>

definition interrupted :: "run_context \<Rightarrow> loop_result \<Rightarrow> db \<Rightarrow> loop_result" where
  "interrupted c r d =
     (let finished = filter (\<lambda>e. ef_status e = Ef_done) (journal_for_run (rc_run_id c) d)
      in stop (r\<lparr>lr_text := (if finished = [] then ''TEXT_NOTHING_HAPPENED''
            else join nl (''TEXT_INTERRUPTED'' # map (\<lambda>e. ''- '' @ ef_kind e) finished))\<rparr>) Stop_interrupted)"

text \<open>The argument \<open>n\<close> is the number of iterations left.\<close>

fun turn_loop ::
  "'w tool_loop \<Rightarrow> run_context \<Rightarrow> cost_guard option \<Rightarrow> time \<Rightarrow> nat \<Rightarrow> turn_message list \<Rightarrow> loop_result \<Rightarrow>
   'w \<Rightarrow> db \<Rightarrow> (journal_error + loop_result) \<times> 'w \<times> db" where
  "turn_loop lp c g started 0 msgs r w d = (Inr (stop r Stop_iterations), w, d)"
| "turn_loop lp c g started (Suc n) msgs r w d =
     (if lp_clock lp w - started > lp_max_seconds lp then (Inr (stop r Stop_timeout), w, d)
      else if result_tokens r > lp_token_budget lp then (Inr (stop r Stop_budget), w, d)
      else case call_model lp c g msgs w d of
          (Inl Cap_reached, w1, d1) \<Rightarrow> (Inr (stop r Stop_cost_cap), w1, d1)
        | (Inl (Call_failed _), w1, d1) \<Rightarrow> (Inr (interrupted c r d1), w1, d1)
        | (Inr m, w1, d1) \<Rightarrow>
            (let r1 = account (r\<lparr>lr_iterations := lr_iterations r + 1\<rparr>) m
             in if mr_stop_reason m = Some ''refusal''
                then (Inr (stop (r1\<lparr>lr_text := ''TEXT_REFUSED''\<rparr>) Stop_refused), w1, d1)
                else if mr_stop_reason m \<noteq> Some ''tool_use''
                then (Inr (stop (r1\<lparr>lr_text := text_of (mr_content m)\<rparr>) Stop_completed), w1, d1)
                else case run_blocks lp c (mr_content m) r1 w1 d1 of
                    (Inl e, _, w2, d2) \<Rightarrow> (Inl e, w2, d2)
                  | (Inr ts, r2, w2, d2) \<Rightarrow>
                      turn_loop lp c g started n (msgs @ [Assistant_blocks (mr_content m), Tool_results ts]) r2 w2 d2))"

definition loop_run ::
  "'w tool_loop \<Rightarrow> run_context \<Rightarrow> string \<Rightarrow> turn_message list \<Rightarrow> cost_guard option \<Rightarrow> 'w \<Rightarrow> db \<Rightarrow>
   (journal_error + loop_result) \<times> 'w \<times> db" where
  "loop_run lp c user_text history cost_guard w d =
     (if \<not> has_tools c
      then (Inr (empty_result\<lparr>lr_text := ''TEXT_NO_TOOLS'', lr_stopped := Stop_no_tools\<rparr>), w, d)
      else turn_loop lp c (coalesce cost_guard (lp_cost_guard lp)) (lp_clock lp w) (lp_max_iterations lp)
        (history @ [User_text user_text]) empty_result w d)"

section \<open>What a turn can change\<close>

definition other_run :: "run_context \<Rightarrow> effect \<Rightarrow> bool" where
  "other_run c e \<longleftrightarrow> ef_run_id e \<noteq> rc_run_id c"

text \<open>
  As \<open>only_proposes\<close>, and besides it the journal of this run and the day's usage.
\<close>

definition turn_effect :: "run_context \<Rightarrow> db \<Rightarrow> db \<Rightarrow> bool" where
  "turn_effect c d d' \<longleftrightarrow> (\<exists>eff us. only_proposes c (d\<lparr>t_effects := eff, t_usage := us\<rparr>) d' \<and>
     filter (other_run c) eff = filter (other_run c) (t_effects d))"

lemma only_proposes_frame:
  assumes "only_proposes c d d'"
  shows "t_effects d' = t_effects d" "t_usage d' = t_usage d"
    "only_proposes c (d\<lparr>t_effects := eff, t_usage := us\<rparr>) (d'\<lparr>t_effects := eff, t_usage := us\<rparr>)"
proof -
  obtain new mem fw where d': "d' = d\<lparr>t_approvals := t_approvals d @ new, t_memory := t_memory d @ mem, t_forwarding := fw\<rparr>"
    and rest: "\<forall>a \<in> set new. ap_status a = Ap_staged \<and> ap_chat a = rc_chat_id c \<and> ap_thread a = rc_thread_id c \<and> ap_actor a = rc_actor_id c"
      "\<forall>m \<in> set mem. me_status m = Candidate" "map fw_core fw = map fw_core (t_forwarding d)"
    using assms unfolding only_proposes_def by blast
  show "t_effects d' = t_effects d" "t_usage d' = t_usage d" by (simp_all add: d')
  show "only_proposes c (d\<lparr>t_effects := eff, t_usage := us\<rparr>) (d'\<lparr>t_effects := eff, t_usage := us\<rparr>)"
    unfolding only_proposes_def d' by (rule exI [of _ new], rule exI [of _ mem], rule exI [of _ fw]) (simp add: rest)
qed

lemma turn_effect_refl: "turn_effect c d d"
  unfolding turn_effect_def
  by (rule exI [of _ "t_effects d"], rule exI [of _ "t_usage d"]) (simp add: only_proposes_refl)

lemma turn_effect_tools: "only_proposes c d d' \<Longrightarrow> turn_effect c d d'"
  unfolding turn_effect_def by (rule exI [of _ "t_effects d"], rule exI [of _ "t_usage d"]) simp

lemma turn_effect_trans:
  assumes "turn_effect c d d1" "turn_effect c d1 d2"
  shows "turn_effect c d d2"
proof -
  obtain eff us where 1: "only_proposes c (d\<lparr>t_effects := eff, t_usage := us\<rparr>) d1"
    "filter (other_run c) eff = filter (other_run c) (t_effects d)"
    using assms(1) unfolding turn_effect_def by blast
  obtain eff' us' where 2: "only_proposes c (d1\<lparr>t_effects := eff', t_usage := us'\<rparr>) d2"
    "filter (other_run c) eff' = filter (other_run c) (t_effects d1)"
    using assms(2) unfolding turn_effect_def by blast
  have "only_proposes c (d\<lparr>t_effects := eff', t_usage := us'\<rparr>) (d1\<lparr>t_effects := eff', t_usage := us'\<rparr>)"
    using only_proposes_frame(3) [OF 1(1), where eff = eff' and us = us'] by simp
  then have "only_proposes c (d\<lparr>t_effects := eff', t_usage := us'\<rparr>) d2"
    using 2(1) by (rule only_proposes_trans)
  moreover have "filter (other_run c) eff' = filter (other_run c) (t_effects d)"
    using 2(2) 1(2) only_proposes_frame(1) [OF 1(1)] by simp
  ultimately show ?thesis unfolding turn_effect_def by blast
qed

lemma turn_effect_journal:
  assumes "filter (other_run c) eff = filter (other_run c) (t_effects d)"
  shows "turn_effect c d (d\<lparr>t_effects := eff\<rparr>)"
  unfolding turn_effect_def
  by (rule exI [of _ eff], rule exI [of _ "t_usage d"]) (simp add: only_proposes_refl assms)

lemma guard_record_usage: "\<exists>us. guard_record g u now d = d\<lparr>t_usage := us\<rparr>"
  unfolding guard_record_def usage_record_def Let_def by (auto split: option.split)

lemma turn_effect_cost: "turn_effect c d (note_cost g m now d)"
proof (cases g)
  case None
  then show ?thesis by (simp add: note_cost_def turn_effect_refl)
next
  case (Some x)
  obtain us where "note_cost g m now d = d\<lparr>t_usage := us\<rparr>"
    using guard_record_usage [of x "mr_usage m" now d] Some by (auto simp: note_cost_def)
  then show ?thesis unfolding turn_effect_def
    by (intro exI [of _ "t_effects d"] exI [of _ us]) (simp add: only_proposes_refl)
qed

lemma call_model_effect: "turn_effect c d (snd (snd (call_model lp c g msgs w d)))"
  by (simp add: call_model_def Let_def turn_effect_refl turn_effect_cost split: prod.split sum.split)

text \<open>The ids \<open>uuid4\<close> gives are new to the journal.\<close>

definition fresh_effect_ids :: "'w services \<Rightarrow> bool" where
  "fresh_effect_ids sv \<longleftrightarrow> (\<forall>d. sv_uuid sv d \<notin> ef_id ` set (t_effects d))"

lemma settle_other_run:
  assumes "\<And>e. e \<in> set T \<Longrightarrow> ef_id e = i \<Longrightarrow> \<not> other_run c e" "\<And>e. other_run c (f e) = other_run c e"
  shows "filter (other_run c) (tbl_update (\<lambda>e. ef_id e = i) f T) = filter (other_run c) T"
  using assms(1) by (induction T) (simp_all add: assms(2))

lemma settle_own_run:
  assumes "turn_effect c d d2" "\<And>e. e \<in> set (t_effects d2) \<Longrightarrow> ef_id e = i \<Longrightarrow> \<not> other_run c e"
  shows "turn_effect c d (journal_settle i st res err now d2)"
proof (rule turn_effect_trans [OF assms(1)])
  show "turn_effect c d2 (journal_settle i st res err now d2)"
    unfolding journal_settle_def
    by (rule turn_effect_journal, rule settle_other_run [OF assms(2)]) (simp_all add: other_run_def)
qed

lemma run_tool_effect:
  assumes "fresh_effect_ids (lp_services lp)"
  shows "turn_effect c d (snd (snd (snd (run_tool lp c tid name args r w d))))"
proof -
  let ?sv = "lp_services lp" and ?now = "lp_now lp w"
  let ?new = "new_effect (sv_uuid ?sv d) (rc_run_id c) tid name None None ?now effect_lease_seconds"
  let ?d1 = "d\<lparr>t_effects := t_effects d @ [?new]\<rparr>"
  have fresh: "sv_uuid ?sv d \<notin> set (map ef_id (t_effects d))" using assms by (simp add: fresh_effect_ids_def)
  show ?thesis
  proof (cases rule: begin_cases [of "sv_uuid ?sv d" "rc_run_id c" tid name None None ?now effect_lease_seconds d])
    case (same res)
    then show ?thesis
      by (cases res) (auto simp: run_tool_def Let_def turn_effect_refl split: journal_error.split)
  next
    case (fresh e)
    have e: "e = ?new" using begin_new [OF fresh(2)] \<open>sv_uuid ?sv d \<notin> _\<close> fresh(1) by simp
    have new: "\<not> other_run c ?new" "ef_id ?new = sv_uuid ?sv d" by (simp_all add: other_run_def new_effect_def)
    have d1: "turn_effect c d ?d1" by (rule turn_effect_journal) (simp add: new(1))
    obtain res w2 d2 where inv: "invoke ?sv c name args ?now w ?d1 = (res, w2, d2)" by (metis prod_cases3)
    have only: "only_proposes c ?d1 d2" using invoke_only [of c ?d1 ?sv name args ?now w] inv by simp
    have d2: "turn_effect c d d2" using turn_effect_trans [OF d1 turn_effect_tools [OF only]] .
    have own: "\<not> other_run c x" if "x \<in> set (t_effects d2)" "ef_id x = sv_uuid ?sv d" for x
    proof -
      have "x \<in> set (t_effects d) \<or> x = ?new" using that(1) only_proposes_frame(1) [OF only] by auto
      moreover have "x \<notin> set (t_effects d)"
      proof
        assume "x \<in> set (t_effects d)"
        then have "ef_id x \<in> set (map ef_id (t_effects d))" by simp
        then show False using that(2) \<open>sv_uuid ?sv d \<notin> _\<close> by simp
      qed
      ultimately show ?thesis using new(1) by blast
    qed
    have "turn_effect c d (journal_settle (ef_id e) st rs er n d2)" for st rs er n
      unfolding e new(2) using settle_own_run [OF d2 own] by blast
    then show ?thesis
      using fresh(1) inv e
      by (cases res) (simp_all add: run_tool_def Let_def journal_fail_def journal_complete_def)
  qed
qed

lemma run_blocks_effect:
  assumes "fresh_effect_ids (lp_services lp)"
  shows "turn_effect c d (snd (snd (snd (run_blocks lp c bs r w d))))"
proof (induction bs arbitrary: r w d)
  case (Cons b bs)
  show ?case
  proof (cases b)
    case (Tool_use tid name args)
    obtain t r1 w1 d1 where t: "run_tool lp c tid name args r w d = (t, r1, w1, d1)" by (metis prod_cases4)
    have d1: "turn_effect c d d1" using run_tool_effect [OF assms, of c d tid name args r w] t by simp
    obtain ts r2 w2 d2 where ts: "run_blocks lp c bs r1 w1 d1 = (ts, r2, w2, d2)" by (metis prod_cases4)
    have "turn_effect c d1 d2" using Cons.IH [of d1 r1 w1] ts by simp
    with d1 have "turn_effect c d d2" by (rule turn_effect_trans)
    then show ?thesis using Tool_use t ts d1 by (cases t; cases ts) simp_all
  qed (simp_all add: Cons.IH)
qed (simp add: turn_effect_refl)

lemma turn_loop_effect:
  assumes "fresh_effect_ids (lp_services lp)"
  shows "turn_effect c d (snd (snd (turn_loop lp c g started n msgs r w d)))"
proof (induction n arbitrary: msgs r w d)
  case (Suc n)
  obtain res w1 d1 where cm: "call_model lp c g msgs w d = (res, w1, d1)" by (metis prod_cases3)
  have d1: "turn_effect c d d1" using call_model_effect [of c d lp g msgs w] cm by simp
  have step: "turn_effect c d (snd (snd (case run_blocks lp c (mr_content m) r1 w1 d1 of
        (Inl e, _, w2, d2) \<Rightarrow> (Inl e, w2, d2)
      | (Inr ts, r2, w2, d2) \<Rightarrow>
          turn_loop lp c g started n (msgs @ [Assistant_blocks (mr_content m), Tool_results ts]) r2 w2 d2)))" for m r1
  proof -
    obtain ts r2 w2 d2 where ts: "run_blocks lp c (mr_content m) r1 w1 d1 = (ts, r2, w2, d2)" by (metis prod_cases4)
    have d2: "turn_effect c d d2"
      using turn_effect_trans [OF d1] run_blocks_effect [OF assms, of c d1 "mr_content m" r1 w1] ts by simp
    show ?thesis unfolding ts using d2 turn_effect_trans [OF d2 Suc.IH] by (cases ts) simp_all
  qed
  show ?case
    unfolding turn_loop.simps cm
    by (cases res) (simp_all add: turn_effect_refl d1 Let_def step split: call_stop.split)
qed (simp add: turn_effect_refl)

section \<open>What a turn can cost\<close>

text \<open>The calendar a tool reads is not the provider.\<close>

definition calls_only_model :: "('w \<Rightarrow> nat) \<Rightarrow> 'w tool_loop \<Rightarrow> bool" where
  "calls_only_model calls lp \<longleftrightarrow>
     (\<forall>ts ms w. calls (snd (lp_create lp ts ms w)) = Suc (calls w)) \<and>
     (case sv_calendar (lp_services lp) of None \<Rightarrow> True
      | Some (be, cal) \<Rightarrow> \<forall>a b k w. calls (snd (cb_list be cal a b k w)) = calls w)"

lemma guarded_world:
  assumes "calls (fst (snd (f sv c args now w d))) = calls w"
  shows "calls (fst (snd (guarded cap f sv c args now w d))) = (calls w :: nat)"
  using assms by (simp add: guarded_def split: sum.split capability_denied.split)

lemma handlers_world:
  assumes "case sv_calendar sv of None \<Rightarrow> True
      | Some (be, cal) \<Rightarrow> \<forall>a b k w. calls (snd (cb_list be cal a b k w)) = (calls w :: nat)"
    "t \<in> set registry"
  shows "calls (fst (snd (tl_handler t sv c args now w d))) = calls w"
proof -
  have up: "calls w' = calls w" if "sv_calendar sv = Some (be, cal)" "upcoming be cal n t w = (x, w')" for be cal n t x w'
  proof -
    have "calls (snd (cb_list be cal t (add_seconds t (int n * 86400)) 50 w)) = calls w" using assms(1) that(1) by simp
    then show ?thesis using that(2) by (simp add: upcoming_def)
  qed
  have "calls (fst (snd (calendar_list_events sv c args now w d))) = calls w"
    unfolding calendar_list_events_def
    by (rule guarded_world) (auto simp: up split: option.split sum.split prod.split)
  moreover have "calls (fst (snd (list_reminders sv c args now w d))) = calls w"
    "calls (fst (snd (list_pending_proposals sv c args now w d))) = calls w"
    "calls (fst (snd (memory_search sv c args now w d))) = calls w"
    "calls (fst (snd (propose_reminder sv c args now w d))) = calls w"
    "calls (fst (snd (memory_append sv c args now w d))) = calls w"
    "calls (fst (snd (propose_email sv c args now w d))) = calls w"
    "calls (fst (snd (propose_whatsapp sv c args now w d))) = calls w"
    "calls (fst (snd (forwarding_recheck sv c args now w d))) = calls w"
    unfolding list_reminders_def list_pending_proposals_def memory_search_def propose_reminder_def
      memory_append_def propose_email_def propose_whatsapp_def forwarding_recheck_def
    by (intro guarded_world; simp add: Let_def split: option.split sum.split prod.split)+
  ultimately show ?thesis using assms(2) by (auto simp: registry_def)
qed

lemma invoke_world:
  assumes "case sv_calendar sv of None \<Rightarrow> True
      | Some (be, cal) \<Rightarrow> \<forall>a b k w. calls (snd (cb_list be cal a b k w)) = (calls w :: nat)"
  shows "calls (fst (snd (invoke sv c name args now w d))) = calls w"
proof (cases "find (\<lambda>t. tl_name t = name) (registry :: 'a tool list)")
  case None
  then show ?thesis by (simp add: invoke_def)
next
  case (Some t)
  then have "t \<in> set registry" using find_Some_mem [OF Some] by blast
  from handlers_world [OF assms this] show ?thesis
    unfolding invoke_def Some option.case by (intro guarded_world)
qed

lemma run_tool_world:
  assumes "calls_only_model calls lp"
  shows "calls (fst (snd (snd (run_tool lp c tid name args r w d)))) = calls w"
proof -
  have sv: "case sv_calendar (lp_services lp) of None \<Rightarrow> True
      | Some (be, cal) \<Rightarrow> \<forall>a b k w. calls (snd (cb_list be cal a b k w)) = calls w"
    using assms by (simp add: calls_only_model_def)
  have inv: "calls w2 = calls w" if "invoke (lp_services lp) c name args now w d1 = (x, w2, d2)" for now d1 x w2 d2
    using invoke_world [where calls = calls, OF sv, of c name args now w d1] that by simp
  show ?thesis
    unfolding run_tool_def Let_def
    by (auto dest: inv split: prod.split sum.split journal_error.split bool.split)
qed

lemma run_blocks_world:
  assumes "calls_only_model calls lp"
  shows "calls (fst (snd (snd (run_blocks lp c bs r w d)))) = calls w"
proof (induction bs arbitrary: r w d)
  case (Cons b bs)
  show ?case
  proof (cases b)
    case (Tool_use tid name args)
    obtain t r1 w1 d1 where t: "run_tool lp c tid name args r w d = (t, r1, w1, d1)" by (metis prod_cases4)
    have w1: "calls w1 = calls w" using run_tool_world [OF assms, of c tid name args r w d] t by simp
    obtain ts r2 w2 d2 where ts: "run_blocks lp c bs r1 w1 d1 = (ts, r2, w2, d2)" by (metis prod_cases4)
    have "calls w2 = calls w" using Cons.IH [of r1 w1 d1] ts w1 by simp
    then show ?thesis using Tool_use t ts w1 by (cases t; cases ts) simp_all
  qed (simp_all add: Cons.IH)
qed simp

text \<open>One call of the provider stays below the cap, up to the answer it paid for.\<close>

lemma under_cap: "0 < cg_cap g \<Longrightarrow> \<not> guard_over_budget g d \<Longrightarrow> spent g d < cg_cap g"
  by (cases "usage_get (cg_household g) (cg_day g) d")
    (auto simp: spent_def guard_over_budget_def usage_over_budget_def)

lemma call_model_world:
  assumes "calls_only_model calls lp"
  shows "calls (fst (snd (call_model lp c g msgs w d))) \<le> calls w + 2"
    "over_cap g d \<Longrightarrow> call_model lp c g msgs w d = (Inl Cap_reached, w, d)"
proof -
  have c: "calls w1 = Suc (calls w0)" if "lp_create lp ts ms w0 = (x, w1)" for ts ms w0 x w1
  proof -
    have "calls (snd (lp_create lp ts ms w0)) = Suc (calls w0)" using assms by (simp add: calls_only_model_def)
    then show ?thesis using that by simp
  qed
  show "calls (fst (snd (call_model lp c g msgs w d))) \<le> calls w + 2"
    unfolding call_model_def Let_def by (auto dest!: c split: prod.split sum.split)
  show "over_cap g d \<Longrightarrow> call_model lp c g msgs w d = (Inl Cap_reached, w, d)"
    by (simp add: call_model_def)
qed

definition costs_at_most :: "real \<Rightarrow> 'w tool_loop \<Rightarrow> bool" where
  "costs_at_most k lp \<longleftrightarrow> 0 \<le> k \<and> (\<forall>ts ms w m w'. lp_create lp ts ms w = (Inr m, w') \<longrightarrow> cost_of (mr_usage m) \<le> k)"

lemma call_model_spent:
  assumes "costs_at_most k lp" "0 < cg_cap g"
  shows "spent g (snd (snd (call_model lp c (Some g) msgs w d))) \<le> max (spent g d) (cg_cap g + k)"
proof -
  have m: "spent g (guard_record g (mr_usage m) now d) \<le> cg_cap g + k"
    if "lp_create lp ts ms w0 = (Inr m, w')" "\<not> guard_over_budget g d" for ts ms w0 m w' now
    using guard_record_spent(1) [of g "mr_usage m" now d] under_cap [OF assms(2) that(2)] assms(1) that(1)
    by (force simp: costs_at_most_def)
  show ?thesis
    unfolding call_model_def Let_def over_cap_def note_cost_def
    by (auto dest: m intro: max.coboundedI2 split: prod.split sum.split)
qed

lemma spent_same_usage: "t_usage d' = t_usage d \<Longrightarrow> spent g d' = spent g d"
  by (simp add: spent_def usage_get_def)

lemma journal_settle_usage [simp]: "t_usage (journal_settle i st res err now d) = t_usage d"
  by (simp add: journal_settle_def)

lemma begin_usage: "journal_begin nid run tool kind aid sha now lease d = (x, d1) \<Longrightarrow> t_usage d1 = t_usage d"
  by (cases rule: begin_cases [of nid run tool kind aid sha now lease d]) auto

lemma run_tool_usage: "t_usage (snd (snd (snd (run_tool lp c tid name args r w d)))) = t_usage d"
proof -
  have inv: "t_usage d2 = t_usage d1" if "invoke sv c name args now w d1 = (x, w2, d2)" for sv now w d1 x w2 d2
    using only_proposes_frame(2) [OF invoke_only [of c d1 sv name args now w]] that by simp
  have both: "t_usage d2 = t_usage d"
    if "invoke sv c name args now w d1 = (x, w2, d2)" "journal_begin nid run tool kind aid sha t lease d = (y, d1)"
    for sv now w d1 x w2 d2 nid run tool kind aid sha t lease y
    using inv [OF that(1)] begin_usage [OF that(2)] by simp
  show ?thesis
    unfolding run_tool_def Let_def journal_fail_def journal_complete_def
    by (auto dest: both begin_usage split: prod.split sum.split journal_error.split bool.split)
qed

lemma run_blocks_usage: "t_usage (snd (snd (snd (run_blocks lp c bs r w d)))) = t_usage d"
proof (induction bs arbitrary: r w d)
  case (Cons b bs)
  show ?case
  proof (cases b)
    case (Tool_use tid name args)
    obtain t r1 w1 d1 where t: "run_tool lp c tid name args r w d = (t, r1, w1, d1)" by (metis prod_cases4)
    have u: "t_usage d1 = t_usage d" using run_tool_usage [of lp c tid name args r w d] t by simp
    obtain ts r2 w2 d2 where ts: "run_blocks lp c bs r1 w1 d1 = (ts, r2, w2, d2)" by (metis prod_cases4)
    have "t_usage d2 = t_usage d" using Cons.IH [of r1 w1 d1] ts u by simp
    then show ?thesis using Tool_use t ts u by (cases t; cases ts) simp_all
  qed (simp_all add: Cons.IH)
qed simp

lemma turn_loop_cost:
  assumes "calls_only_model calls lp" "costs_at_most k lp" "0 < cg_cap g"
    "turn_loop lp c (Some g) started n msgs r w d = (res, w', d')"
  shows "calls w' \<le> calls w + 2 * n \<and> spent g d' \<le> max (spent g d) (cg_cap g + k) \<and>
    (guard_over_budget g d \<longrightarrow> w' = w)"
  using assms(4)
proof (induction n arbitrary: msgs r w d res)
  case (Suc n)
  obtain x w1 d1 where cm: "call_model lp c (Some g) msgs w d = (x, w1, d1)" by (metis prod_cases3)
  have w1: "calls w1 \<le> calls w + 2" using call_model_world(1) [OF assms(1), of c "Some g" msgs w d] cm by simp
  have s1: "spent g d1 \<le> max (spent g d) (cg_cap g + k)"
    using call_model_spent [OF assms(2,3), of c msgs w d] cm by simp
  have over: "guard_over_budget g d \<Longrightarrow> x = Inl Cap_reached \<and> w1 = w"
    using call_model_world(2) [OF assms(1), of "Some g" d c msgs w] cm by (simp add: over_cap_def)
  show ?case
  proof (cases "lp_clock lp w - started > lp_max_seconds lp \<or> result_tokens r > lp_token_budget lp")
    case True
    then have "w' = w" "d' = d" using Suc.prems by (auto split: if_splits)
    then show ?thesis by simp
  next
    case False
    show ?thesis
    proof (cases x)
      case (Inl e)
      then have "w' = w1" "d' = d1" using Suc.prems False cm by (auto split: call_stop.splits)
      then show ?thesis using w1 s1 over by auto
    next
      case (Inr m)
      then have nov: "\<not> guard_over_budget g d" using over by auto
      let ?r1 = "account (r\<lparr>lr_iterations := lr_iterations r + 1\<rparr>) m"
      obtain ts r2 w2 d2 where ts: "run_blocks lp c (mr_content m) ?r1 w1 d1 = (ts, r2, w2, d2)" by (metis prod_cases4)
      have w2: "calls w2 = calls w1" using run_blocks_world [OF assms(1), of c "mr_content m" ?r1 w1 d1] ts by simp
      have s2: "spent g d2 = spent g d1"
        using run_blocks_usage [of lp c "mr_content m" ?r1 w1 d1] ts by (intro spent_same_usage) simp
      consider (fin) "w' = w1" "d' = d1" | (failed) "w' = w2" "d' = d2"
        | (more) msgs2 where "turn_loop lp c (Some g) started n msgs2 r2 w2 d2 = (res, w', d')"
        using Suc.prems False cm Inr ts by (cases ts) (auto simp: Let_def split: if_splits)
      then show ?thesis
      proof cases
        case more
        from Suc.IH [OF this] have "calls w' \<le> calls w2 + 2 * n" "spent g d' \<le> max (spent g d2) (cg_cap g + k)" by auto
        then show ?thesis using w1 w2 s1 s2 nov by simp
      qed (use w1 w2 s1 s2 nov in auto)
    qed
  qed
qed simp

section \<open>Properties\<close>

text \<open>
  C40 (the model only proposes).  Whatever the provider answers in a turn, the file differs
  afterwards only by staged proposals of this actor in this chat, by candidates of the memory, by
  a request for a forwarding check, by journal entries of this turn's own run and by the day's
  usage.  No proposal is claimed, no memory confirmed, no reminder, letter or fact changed; and
  an actor without rights gets an answer without any call.
\<close>

theorem model_only_proposes:
  assumes "fresh_effect_ids (lp_services lp)" "loop_run lp c user_text history guard w d = (res, w', d')"
  shows "(\<exists>new mem fw eff us.
      d' = d\<lparr>t_approvals := t_approvals d @ new, t_memory := t_memory d @ mem, t_forwarding := fw,
              t_effects := eff, t_usage := us\<rparr> \<and>
      (\<forall>a \<in> set new. ap_status a = Ap_staged \<and> ap_chat a = rc_chat_id c \<and> ap_thread a = rc_thread_id c \<and>
         ap_actor a = rc_actor_id c) \<and>
      (\<forall>m \<in> set mem. me_status m = Candidate) \<and>
      map (\<lambda>r. r\<lparr>fw_check_requested_at := None, fw_updated_at := 0\<rparr>) fw =
        map (\<lambda>r. r\<lparr>fw_check_requested_at := None, fw_updated_at := 0\<rparr>) (t_forwarding d) \<and>
      filter (\<lambda>e. ef_run_id e \<noteq> rc_run_id c) eff = filter (\<lambda>e. ef_run_id e \<noteq> rc_run_id c) (t_effects d)) \<and>
    (\<not> has_tools c \<longrightarrow> w' = w \<and> d' = d)"
proof -
  have none: "w' = w \<and> d' = d" if "\<not> has_tools c" using assms(2) that by (simp add: loop_run_def)
  have "turn_effect c d d'"
    using turn_loop_effect [OF assms(1), of c d "coalesce guard (lp_cost_guard lp)" "lp_clock lp w"
        "lp_max_iterations lp" "history @ [User_text user_text]" empty_result w] assms(2) none
    by (cases "has_tools c") (simp_all add: loop_run_def turn_effect_refl)
  then obtain eff us new mem fw where "d' = d\<lparr>t_effects := eff, t_usage := us,
        t_approvals := t_approvals d @ new, t_memory := t_memory d @ mem, t_forwarding := fw\<rparr>"
      "\<forall>a \<in> set new. ap_status a = Ap_staged \<and> ap_chat a = rc_chat_id c \<and> ap_thread a = rc_thread_id c \<and> ap_actor a = rc_actor_id c"
      "\<forall>m \<in> set mem. me_status m = Candidate" "map fw_core fw = map fw_core (t_forwarding d)"
      "filter (other_run c) eff = filter (other_run c) (t_effects d)"
    unfolding turn_effect_def only_proposes_def by auto
  then show ?thesis unfolding fw_core_def other_run_def using none
    by (intro conjI impI exI [of _ new] exI [of _ mem] exI [of _ fw] exI [of _ eff] exI [of _ us]) simp_all
qed

text \<open>
  A turn is bounded in calls and in money.  A turn calls the provider at most twice per
  iteration; once the day's cap is reached it calls it no more; and the answers of a turn take
  the day's spending past the cap by at most the price of one answer.
\<close>

theorem turn_is_bounded:
  assumes "calls_only_model calls lp" "costs_at_most k lp" "0 < cg_cap g"
    "loop_run lp c user_text history (Some g) w d = (res, w', d')"
  shows "calls w' \<le> calls w + 2 * lp_max_iterations lp \<and>
    spent g d' \<le> max (spent g d) (cg_cap g + k) \<and> (guard_over_budget g d \<longrightarrow> w' = w)"
proof (cases "has_tools c")
  case True
  then have "turn_loop lp c (Some g) (lp_clock lp w) (lp_max_iterations lp) (history @ [User_text user_text])
      empty_result w d = (res, w', d')" using assms(4) by (simp add: loop_run_def)
  from turn_loop_cost [OF assms(1-3) this] show ?thesis .
next
  case False
  then show ?thesis using assms(4) by (simp add: loop_run_def)
qed

section \<open>Witnesses\<close>

text \<open>A source of fresh ids, a provider that asks for one reminder and then stops, and a known actor.\<close>

definition longer_id :: "db \<Rightarrow> uid" where
  "longer_id d = replicate (Suc (foldr max (map (length \<circ> ef_id) (t_effects d)) 0)) (CHR ''u'')"

lemma longer_id_fresh: "longer_id d \<notin> ef_id ` set (t_effects d)"
proof
  have le: "x \<in> set xs \<Longrightarrow> x \<le> foldr max xs (0::nat)" for x xs by (induction xs) auto
  assume "longer_id d \<in> ef_id ` set (t_effects d)"
  then have "length (longer_id d) \<in> set (map (length \<circ> ef_id) (t_effects d))" by (auto simp: image_iff)
  then have "length (longer_id d) \<le> foldr max (map (length \<circ> ef_id) (t_effects d)) 0" by (rule le)
  then show False by (simp add: longer_id_def)
qed

definition sample_services :: "nat services" where
  "sample_services = \<lparr>sv_hash = (\<lambda>s. s), sv_frepr = (\<lambda>r. ''0.0''), sv_str = (\<lambda>v. []), sv_base64 = (\<lambda>s. Some s),
     sv_uuid = longer_id, sv_code = (\<lambda>d. ''0123456789abcdef''), sv_memory = True, sv_forwarding = True,
     sv_calendar = None, sv_utcnow = \<lparr>dt_year = 2026, dt_month = 9, dt_day = 1, dt_hour = 0, dt_minute = 0,
       dt_second = 0, dt_micro = 0, dt_offset = Some 0\<rparr>, sv_email_binding = None\<rparr>"

definition sample_loop :: "nat tool_loop" where
  "sample_loop = \<lparr>lp_services = sample_services, lp_max_iterations = 8, lp_max_seconds = 300,
     lp_token_budget = 120000, lp_cost_guard = None, lp_clock = (\<lambda>w. 0), lp_now = (\<lambda>w. 5),
     lp_create = (\<lambda>ts ms w. (Inr (if w = 0
        then \<lparr>mr_stop_reason = Some ''tool_use'', mr_content = [Tool_use ''t'' ''propose_reminder''
          (JObj [(''text'', JStr ''Pay''), (''due_date'', JStr ''2026-09-08'')])], mr_usage = None\<rparr>
        else \<lparr>mr_stop_reason = Some ''end_turn'', mr_content = [Text_block ''ok''], mr_usage = None\<rparr>), Suc w))\<rparr>"

definition sample_actor :: run_context where
  "sample_actor = \<lparr>rc_household_id = ''h'', rc_actor_id = ''mama'', rc_chat_id = ''c'', rc_thread_id = None,
     rc_role = Owner, rc_scope = Shared, rc_read_caps = {''tasks.read''}, rc_mutate_caps = {''reminder.create''},
     rc_run_id = ''run''\<rparr>"

theorem model_only_proposes_witness:
  "\<exists>res w' d'. loop_run sample_loop sample_actor ''q'' [] None 0 empty_db = (res, w', d') \<and>
     has_tools sample_actor \<and> t_reminders d' = [] \<and> t_commitments d' = [] \<and>
     (\<forall>a \<in> set (t_approvals d'). ap_status a = Ap_staged \<and> ap_chat a = ''c'' \<and> ap_actor a = ''mama'')"
proof -
  obtain res w' d' where r: "loop_run sample_loop sample_actor ''q'' [] None 0 empty_db = (res, w', d')"
    by (metis prod_cases3)
  have "fresh_effect_ids (lp_services sample_loop)"
    by (simp add: fresh_effect_ids_def sample_loop_def sample_services_def longer_id_fresh)
  from model_only_proposes [OF this r] show ?thesis
    using r by (auto simp: sample_actor_def has_tools_def)
qed

theorem turn_is_bounded_witness:
  "\<exists>res w' d'. loop_run sample_loop sample_actor ''q'' [] (Some \<lparr>cg_household = ''h'', cg_day = ''d'', cg_cap = 5\<rparr>) 0 empty_db = (res, w', d') \<and>
     w' \<le> 16 \<and> spent \<lparr>cg_household = ''h'', cg_day = ''d'', cg_cap = 5\<rparr> d' \<le> 6"
proof -
  let ?g = "\<lparr>cg_household = ''h'', cg_day = ''d'', cg_cap = 5\<rparr>"
  obtain res w' d' where r: "loop_run sample_loop sample_actor ''q'' [] (Some ?g) 0 empty_db = (res, w', d')"
    by (metis prod_cases3)
  have c: "calls_only_model (\<lambda>w. w) sample_loop"
    by (simp add: calls_only_model_def sample_loop_def sample_services_def)
  have k: "costs_at_most 1 sample_loop" by (auto simp: costs_at_most_def sample_loop_def cost_of_def)
  have s: "spent ?g empty_db = 0" by (simp add: spent_def usage_get_def)
  have m: "lp_max_iterations sample_loop = 8" by (simp add: sample_loop_def)
  from turn_is_bounded [OF c k _ r] show ?thesis using r unfolding s m by auto
qed

end
