(* ===== verification/Eml.thy ===== *)
theory Eml
  imports Extractor
begin

text \<open>
  \<open>hermes_cloud/ingest/eml.py\<close>: what is read from a letter, the forwarded chain included.
  The tree of MIME parts is the one \<open>email.message_from_bytes\<close> builds; that parser,
  \<open>parseaddr\<close>, \<open>getaddresses\<close> and \<open>bytes.decode\<close> are parameters.  Texts
  are characters up to code point 255, so the labels in Cyrillic do not occur: the regular
  expression for a labelled line admits no Cyrillic letter either.
\<close>

section \<open>The MIME tree and its reading\<close>

record part_info =
  pi_headers :: "(string \<times> string) list"
  pi_type :: string
  pi_disposition :: "string option"
  pi_filename :: "string option"
  pi_charset :: "string option"

datatype mime = Leaf part_info string | Multi part_info "mime list"

fun mime_info :: "mime \<Rightarrow> part_info" where
  "mime_info (Leaf i raw) = i"
| "mime_info (Multi i ps) = i"

record eml_env =
  ee_parse :: "string \<Rightarrow> mime"
  ee_address :: "string \<Rightarrow> string \<times> string"
  ee_addresses :: "string \<Rightarrow> (string \<times> string) list"
  ee_codec :: "string \<Rightarrow> string \<Rightarrow> string option"
  ee_lenient :: "string \<Rightarrow> string"

record letter_file = mail_attachment +
  mt_inline :: bool

record forwarded_sender = original_sender +
  os_date :: "string option"
  os_subject :: "string option"

datatype parsed =
  Parsed (pe_message_id: "string option") (pe_subject: string) (pe_from_email: string)
    (pe_from_name: "string option") (pe_to: "string list") (pe_date: "string option") (pe_text: string)
    (pe_attachments: "letter_file list") (pe_original_sender: "forwarded_sender option")
    (pe_thread_key: "string option") (pe_nested: "parsed list")

definition max_forward_header_lines :: nat where "max_forward_header_lines = 40"

definition strip_angle :: "string \<Rightarrow> string" where
  "strip_angle s =
     (let P = (\<lambda>c. c = CHR ''<'' \<or> c = CHR ''>'') in rev (dropWhile P (rev (dropWhile P s))))"

text \<open>\<open>str.casefold\<close> up to code point 255: as \<open>lower\<close>, and the sharp s becomes two letters.\<close>

definition casefold :: "string \<Rightarrow> string" where
  "casefold s = concat (map (\<lambda>c. if c = CHR 0xDF then ''ss'' else [lower_latin c]) s)"

definition normalize_message_id :: "string option \<Rightarrow> string option" where
  "normalize_message_id v =
     str_or_none (Some (casefold (py_strip (strip_angle (py_strip (case v of None \<Rightarrow> [] | Some s \<Rightarrow> s))))))"

definition decode_text :: "eml_env \<Rightarrow> string \<Rightarrow> string option \<Rightarrow> string" where
  "decode_text env raw charset =
     (case ee_codec env (case str_or_none charset of None \<Rightarrow> ''utf-8'' | Some c \<Rightarrow> c) raw of
        Some t \<Rightarrow> t
      | None \<Rightarrow> (case ee_codec env ''utf-8'' raw of
          Some t \<Rightarrow> t
        | None \<Rightarrow> (case ee_codec env ''latin-1'' raw of Some t \<Rightarrow> t | None \<Rightarrow> ee_lenient env raw)))"

definition eml_header :: "mime \<Rightarrow> string \<Rightarrow> string" where
  "eml_header m name =
     (case find (\<lambda>(k, v). py_lower k = py_lower name) (pi_headers (mime_info m)) of
        None \<Rightarrow> [] | Some (k, v) \<Rightarrow> py_strip v)"

section \<open>The text of an HTML part\<close>

text \<open>\<open>after_ci lit s\<close>: what follows \<open>lit\<close>, given in lower case, at the start of \<open>s\<close> in any case.\<close>

definition after_ci :: "string \<Rightarrow> string \<Rightarrow> string option" where
  "after_ci lit s = (if py_lower (take (length lit) s) = lit then Some (drop (length lit) s) else None)"

fun seek_ci :: "string \<Rightarrow> string \<Rightarrow> string option" where
  "seek_ci lit s =
     (case after_ci lit s of Some r \<Rightarrow> Some r
      | None \<Rightarrow> (case s of [] \<Rightarrow> None | c # r \<Rightarrow> seek_ci lit r))"

declare seek_ci.simps [simp del]

text \<open>A script or style element at the start of the text: its name ends at a word boundary.\<close>

definition element_at :: "string \<Rightarrow> string \<Rightarrow> string option" where
  "element_at name s =
     (case after_ci (''<'' @ name) s of
        None \<Rightarrow> None
      | Some r \<Rightarrow> if r \<noteq> [] \<and> word_char (hd r) then None else seek_ci (''</'' @ name @ ''>'') r)"

definition block_at :: "string \<Rightarrow> string option" where
  "block_at s = coalesce (element_at ''script'' s) (element_at ''style'' s)"

lemma after_ci_shorter: "after_ci lit s = Some r \<Longrightarrow> length r \<le> length s"
  by (auto simp: after_ci_def split: if_splits)

lemma seek_ci_shorter: "seek_ci lit s = Some r \<Longrightarrow> length r \<le> length s"
  by (induction s) (subst (asm) seek_ci.simps, auto dest: after_ci_shorter split: option.splits)+

lemma block_at_shorter: "block_at (c # s) = Some r \<Longrightarrow> length r < Suc (length s)"
proof -
  assume a: "block_at (c # s) = Some r"
  have "length r < length (c # s)" if el: "element_at name (c # s) = Some r" for name
  proof -
    obtain q where q: "after_ci (''<'' @ name) (c # s) = Some q"
      "seek_ci (''</'' @ name @ ''>'') q = Some r"
      using el by (auto simp: element_at_def split: option.splits if_splits)
    have "length q < length (c # s)" using q(1) by (auto simp: after_ci_def split: if_splits)
    then show ?thesis using seek_ci_shorter [OF q(2)] by simp
  qed
  then show ?thesis using a by (auto simp: block_at_def coalesce_def split: option.splits)
qed

function drop_blocks :: "string \<Rightarrow> string" where
  "drop_blocks [] = []"
| "drop_blocks (c # s) =
     (case block_at (c # s) of Some r \<Rightarrow> CHR '' '' # drop_blocks r | None \<Rightarrow> c # drop_blocks s)"
  by pat_completeness auto
termination by (relation "measure length") (auto dest: block_at_shorter)

definition break_at :: "string \<Rightarrow> string option" where
  "break_at s =
     (case after_ci ''<br'' s of
        Some r \<Rightarrow>
          (let r1 = py_lstrip r; r2 = (if take 1 r1 = ''/'' then tl r1 else r1)
           in if take 1 r2 = ''>'' then Some (tl r2) else None)
      | None \<Rightarrow> coalesce (after_ci ''</p>'' s) (coalesce (after_ci ''</div>'' s) (after_ci ''</tr>'' s)))"

lemma break_at_shorter: "break_at (c # s) = Some r \<Longrightarrow> length r < Suc (length s)"
proof -
  have lit: "length q < Suc (length s)" if "after_ci (a # l) (c # s) = Some q" for a l q
    using that by (auto simp: after_ci_def split: if_splits)
  have lstrip: "length (py_lstrip q) \<le> length q" for q
    by (simp add: py_lstrip_def length_dropWhile_le)
  have tl_if: "length (if take 1 q = ''/'' then tl q else q) \<le> length q" for q :: string by simp
  assume b: "break_at (c # s) = Some r"
  show ?thesis
  proof (cases "after_ci ''<br'' (c # s)")
    case (Some q)
    then have "length r \<le> length q"
      using b tl_if [of "py_lstrip q"] lstrip [of q] by (auto simp: break_at_def Let_def split: if_splits)
    then show ?thesis using lit [OF Some] by simp
  next
    case None
    then show ?thesis using b lit by (auto simp: break_at_def coalesce_def split: option.splits)
  qed
qed

function add_breaks :: "string \<Rightarrow> string" where
  "add_breaks [] = []"
| "add_breaks (c # s) =
     (case break_at (c # s) of Some r \<Rightarrow> CHR 0x0A # add_breaks r | None \<Rightarrow> c # add_breaks s)"
  by pat_completeness auto
termination by (relation "measure length") (auto dest: break_at_shorter)

function drop_tags :: "string \<Rightarrow> string" where
  "drop_tags [] = []"
| "drop_tags (c # s) =
     (if c = CHR ''<'' \<and> CHR ''>'' \<in> set s then drop_tags (tl (dropWhile (\<lambda>x. x \<noteq> CHR ''>'') s))
      else c # drop_tags s)"
  by pat_completeness auto
termination
proof (relation "measure length", goal_cases)
  case (2 c s)
  have "length (tl (dropWhile (\<lambda>x. x \<noteq> CHR ''>'') s)) \<le> length s"
    using length_dropWhile_le [of "\<lambda>x. x \<noteq> CHR ''>''" s] by simp
  then show ?case by simp
qed simp_all

fun trim_line_ends :: "string \<Rightarrow> string" where
  "trim_line_ends [] = []"
| "trim_line_ends (c # s) =
     (if c \<in> {CHR '' '', CHR 0x09} \<and> take 1 (dropWhile (\<lambda>x. x \<in> {CHR '' '', CHR 0x09}) s) = nl
      then trim_line_ends s else c # trim_line_ends s)"

definition html_to_text :: "string \<Rightarrow> string" where
  "html_to_text h = trim_line_ends (drop_tags (add_breaks (drop_blocks h)))"

section \<open>Parts, attachments and nested letters\<close>

definition cat3 :: "('a list \<times> 'b list \<times> 'c list) list \<Rightarrow> 'a list \<times> 'b list \<times> 'c list" where
  "cat3 xs = (concat (map fst xs), concat (map (\<lambda>x. fst (snd x)) xs), concat (map (\<lambda>x. snd (snd x)) xs))"

fun collect_part :: "eml_env \<Rightarrow> mime \<Rightarrow> string list \<times> letter_file list \<times> mime list" where
  "collect_part env (Multi i ps) =
     (if pi_type i = ''message/rfc822'' then ([], [], ps) else cat3 (map (collect_part env) ps))"
| "collect_part env (Leaf i raw) =
     (let disposition = py_lower (case pi_disposition i of None \<Rightarrow> [] | Some d \<Rightarrow> d)
      in if pi_type i = ''message/rfc822'' then ([], [], [])
         else if pi_type i = ''text/plain'' \<and> disposition \<noteq> ''attachment''
           then ([decode_text env raw (pi_charset i)], [], [])
         else if pi_type i = ''text/html'' \<and> disposition \<noteq> ''attachment''
           then ([html_to_text (decode_text env raw (pi_charset i))], [], [])
         else ([], [\<lparr>mt_filename = pi_filename i, mt_content_type = pi_type i, mt_size = length raw,
                    mt_inline = (disposition = ''inline'')\<rparr>], []))"

definition address_of :: "eml_env \<Rightarrow> string \<Rightarrow> string \<times> string option" where
  "address_of env v =
     (case ee_address env v of (name, a) \<Rightarrow> (py_lower (py_strip a), str_or_none (Some (py_strip name))))"

section \<open>The forwarded chain\<close>

definition dashes :: "string \<Rightarrow> string option" where
  "dashes s =
     (let P = (\<lambda>c. c = CHR ''-'' \<or> c = CHR ''_'')
      in if length (takeWhile P s) < 2 then None else Some (dropWhile P s))"

definition dashed_marker :: "string \<Rightarrow> string \<Rightarrow> bool" where
  "dashed_marker line phrase =
     (case dashes (py_lstrip line) of
        None \<Rightarrow> False
      | Some r \<Rightarrow> (case after_ci phrase (py_lstrip r) of
          None \<Rightarrow> False | Some q \<Rightarrow> dashes (py_lstrip q) \<noteq> None))"

definition colon_marker :: "string \<Rightarrow> string \<Rightarrow> bool" where
  "colon_marker line phrase =
     (case after_ci phrase (py_lstrip line) of
        None \<Rightarrow> False | Some r \<Rightarrow> take 1 (py_lstrip r) = '':'')"

definition e_acute :: char where "e_acute = CHR 0xE9"

definition forward_markers :: "string list" where
  "forward_markers =
     [''forwarded message'', ''weitergeleitete nachricht'', ''mensaje reenviado'', ''messaggio inoltrato'',
      ''doorgestuurd bericht'', ''message transfere'', ''message transf'' @ [e_acute] @ ''re'',
      ''message transfer'' @ [e_acute], ''message transf'' @ [e_acute] @ ''r'' @ [e_acute],
      ''original message'', ''urspr'' @ [CHR 0xFC] @ ''ngliche nachricht'',
      ''ursprungliche nachricht'', ''urspruengliche nachricht'']"

definition forward_openings :: "string list" where
  "forward_openings = [''begin forwarded message'', ''anfang der weitergeleiteten nachricht'']"

definition is_marker :: "string \<Rightarrow> bool" where
  "is_marker line \<longleftrightarrow> list_ex (dashed_marker line) forward_markers \<or> list_ex (colon_marker line) forward_openings"

definition subject_forwarded :: "string \<Rightarrow> bool" where
  "subject_forwarded subject \<longleftrightarrow>
     list_ex (colon_marker subject) [''fw'', ''fwd'', ''wg'', ''rv'', ''i'', ''dw'', ''vs'']"

text \<open>
  A labelled line: at most two asterisks or underlines, a label of 2 to 21 letters, blanks and
  dots that is as short as possible, at most two again, a colon and a value.
\<close>

definition label_letter :: "char \<Rightarrow> bool" where
  "label_letter c = (let n = of_char c :: nat in (65 \<le> n \<and> n \<le> 90) \<or> (97 \<le> n \<and> n \<le> 122) \<or> 192 \<le> n)"

definition skip_emphasis :: "string \<Rightarrow> string" where
  "skip_emphasis s = drop (length (takeWhile (\<lambda>c. c = CHR ''*'' \<or> c = CHR ''_'') (take 2 s))) s"

definition label_value :: "nat \<Rightarrow> string \<Rightarrow> (string \<times> string) option" where
  "label_value n s =
     (let label = take n s; r = py_lstrip (skip_emphasis (drop n s))
      in if length label = n \<and> label_letter (hd label) \<and>
            list_all (\<lambda>c. label_letter c \<or> c = CHR '' '' \<or> c = CHR ''.'') (tl label) \<and>
            take 1 r = '':'' \<and> tl r \<noteq> []
         then Some (label, tl r) else None)"

fun first_some :: "('a \<Rightarrow> 'b option) \<Rightarrow> 'a list \<Rightarrow> 'b option" where
  "first_some f [] = None"
| "first_some f (x # xs) = coalesce (f x) (first_some f xs)"

definition labelled_line :: "string \<Rightarrow> (string \<times> string) option" where
  "labelled_line line =
     map_option (\<lambda>(l, v). (rev (dropWhile (\<lambda>c. c = CHR ''.'') (rev (py_lower (py_strip l)))), py_strip v))
       (first_some (\<lambda>n. label_value n (skip_emphasis (py_lstrip line))) [2..<22])"

definition from_labels :: "string list" where
  "from_labels = [''from'', ''von'', ''de'', ''da'', ''van'', ''fra'', ''od'']"

definition date_labels :: "string list" where
  "date_labels = [''date'', ''datum'', ''sent'', ''gesendet'', ''fecha'', ''data'', ''verzonden'', ''enviado'',
     ''inviato'', ''envoy'' @ [e_acute], ''envoye'']"

definition subject_labels :: "string list" where
  "subject_labels = [''subject'', ''betreff'', ''asunto'', ''oggetto'', ''onderwerp'', ''objet'']"

definition to_labels :: "string list" where
  "to_labels = [''to'', ''an'', ''para'', ''a'', ''aan'', [CHR 0xE0]]"

type_synonym fields = "(string \<times> string) list"

definition set_default :: "fields \<Rightarrow> string \<Rightarrow> string \<Rightarrow> fields" where
  "set_default f k v = (if map_of f k = None then f @ [(k, v)] else f)"

definition note_sender :: "string \<Rightarrow> string \<Rightarrow> fields \<Rightarrow> fields" where
  "note_sender label v f =
     (if label \<in> set from_labels then set_default f ''from'' v
      else if label \<in> set date_labels then set_default f ''date'' v
      else if label \<in> set subject_labels then set_default f ''subject'' v else f)"

definition note_field :: "string \<Rightarrow> string \<Rightarrow> fields \<Rightarrow> fields" where
  "note_field label v f =
     (if label \<in> set from_labels \<or> label \<in> set date_labels \<or> label \<in> set subject_labels then note_sender label v f
      else if label \<in> set to_labels then set_default f ''to'' v else f)"

text \<open>The header lines after a marker; an empty line or another one ends the block once it has begun.\<close>

fun header_block :: "string list \<Rightarrow> fields \<Rightarrow> fields" where
  "header_block [] f = f"
| "header_block (l # ls) f =
     (if py_strip l = [] then (if f \<noteq> [] then f else header_block ls f)
      else case labelled_line l of
             None \<Rightarrow> (if f \<noteq> [] then f else header_block ls f)
           | Some (label, v) \<Rightarrow> header_block ls (note_field label v f))"

definition has_from :: "fields \<Rightarrow> bool" where
  "has_from f \<longleftrightarrow> str_or_none (map_of f ''from'') \<noteq> None"

fun forward_block :: "string list \<Rightarrow> fields option" where
  "forward_block [] = None"
| "forward_block (l # ls) =
     (let f = header_block (take max_forward_header_lines ls) []
      in if is_marker l \<and> has_from f then Some f else forward_block ls)"

definition sender_from_lines :: "string list \<Rightarrow> fields option" where
  "sender_from_lines lines =
     (let f = fold (\<lambda>l f. case labelled_line l of None \<Rightarrow> f | Some (label, v) \<Rightarrow> note_sender label v f)
                (take max_forward_header_lines lines) []
      in if has_from f then Some f else None)"

definition found_sender :: "eml_env \<Rightarrow> string \<Rightarrow> string \<Rightarrow> fields \<Rightarrow> forwarded_sender option" where
  "found_sender env how conf f =
     (case address_of env (the (map_of f ''from'')) of
        (a, name) \<Rightarrow>
          if CHR ''@'' \<notin> set a then None
          else Some \<lparr>os_email = a, os_name = name, os_method = how, os_confidence = conf,
                     os_date = map_of f ''date'', os_subject = map_of f ''subject''\<rparr>)"

definition original_sender_of :: "eml_env \<Rightarrow> string \<Rightarrow> string \<Rightarrow> parsed list \<Rightarrow> forwarded_sender option" where
  "original_sender_of env subject text nested =
     (case find (\<lambda>m. pe_from_email m \<noteq> []) nested of
        Some m \<Rightarrow> Some \<lparr>os_email = pe_from_email m, os_name = pe_from_name m, os_method = ''attachment'',
                    os_confidence = ''0.95'', os_date = pe_date m, os_subject = str_or_none (Some (pe_subject m))\<rparr>
      | None \<Rightarrow>
          (case forward_block (splitlines text) of
             Some f \<Rightarrow> found_sender env ''marker'' ''0.85'' f
           | None \<Rightarrow>
               if subject_forwarded subject then
                 (case sender_from_lines (splitlines text) of
                    None \<Rightarrow> None | Some f \<Rightarrow> found_sender env ''subject-only'' ''0.55'' f)
               else None))"

section \<open>The whole letter\<close>

definition thread_key_of :: "mime \<Rightarrow> string option \<Rightarrow> string option" where
  "thread_key_of m message_id =
     (case py_split [] (eml_header m ''References'') of
        r # _ \<Rightarrow> normalize_message_id (Some r)
      | [] \<Rightarrow> coalesce (normalize_message_id (Some (eml_header m ''In-Reply-To''))) message_id)"

lemma size_of_nested: "x \<in> set ps \<Longrightarrow> size x < Suc (size_list size ps)"
  by (induction ps) auto

lemma collected_smaller: "x \<in> set (snd (snd (collect_part env m))) \<Longrightarrow> size x < size m"
proof (induction env m rule: collect_part.induct)
  case (1 env i ps)
  show ?case
  proof (cases "pi_type i = ''message/rfc822''")
    case True
    then show ?thesis using 1(2) size_of_nested by (fastforce simp: less_Suc_eq)
  next
    case False
    then obtain q where q: "q \<in> set ps" "x \<in> set (snd (snd (collect_part env q)))"
      using 1(2) by (auto simp: cat3_def)
    have "size q < size (Multi i ps)" using size_of_nested [OF q(1)] by simp
    then show ?thesis using 1(1) [OF False q] by simp
  qed
qed (auto simp: Let_def split: if_splits)

function parse_message :: "eml_env \<Rightarrow> mime \<Rightarrow> parsed" where
  "parse_message env m =
     (let nested = map (parse_message env) (snd (snd (collect_part env m)));
          text = py_strip (join nl (fst (collect_part env m)));
          subject = eml_header m ''Subject'';
          sender = address_of env (eml_header m ''From'');
          message_id = normalize_message_id (Some (eml_header m ''Message-ID''))
      in Parsed message_id subject (fst sender) (snd sender)
           (filter (\<lambda>a. a \<noteq> []) (map snd (ee_addresses env (eml_header m ''To''))))
           (str_or_none (Some (eml_header m ''Date''))) text (fst (snd (collect_part env m)))
           (original_sender_of env subject text nested) (thread_key_of m message_id) nested)"
  by pat_completeness auto
termination by (relation "measure (\<lambda>(env, m). size m)") (auto dest: collected_smaller)

declare parse_message.simps [simp del]

definition parse_eml :: "eml_env \<Rightarrow> string \<Rightarrow> parsed" where
  "parse_eml env raw = parse_message env (ee_parse env raw)"

definition external_id_of :: "(string \<Rightarrow> string) \<Rightarrow> parsed \<Rightarrow> string \<Rightarrow> string" where
  "external_id_of sha p raw =
     (case pe_message_id p of Some i \<Rightarrow> ''eml:'' @ i | None \<Rightarrow> ''eml:sha256:'' @ sha raw)"

section \<open>No tag survives\<close>

lemma trim_subseq: "subseq (trim_line_ends s) s"
  by (induction s rule: trim_line_ends.induct) (auto intro: subseq_Cons')

lemma drop_tags_set: "set (drop_tags s) \<subseteq> set s"
proof (induction s rule: drop_tags.induct)
  case (2 c s)
  have "set (tl (dropWhile (\<lambda>x. x \<noteq> CHR ''>'') s)) \<subseteq> set s"
    using set_dropWhileD list.set_sel(2) by (metis (no_types, lifting) list.sel(2) subsetI)
  then show ?case using 2 by auto
qed simp

lemma drop_tags_clean: "\<not> subseq ''<>'' (drop_tags s)"
proof (induction s rule: drop_tags.induct)
  case (2 c s)
  have "CHR ''>'' \<notin> set (drop_tags s)" if "CHR ''>'' \<notin> set s" using that drop_tags_set by blast
  then show ?case using 2 by (auto simp: subseq_singleton_left)
qed simp

text \<open>
  No markup reaches the text.  In the text of an HTML part no opening angle bracket is followed
  by a closing one anywhere, so no tag, whole or glued together from pieces, is left in it.
\<close>

theorem no_tag_survives: "\<not> subseq ''<>'' (html_to_text h)"
  unfolding html_to_text_def using drop_tags_clean subseq_order.trans trim_subseq by blast

section \<open>Where the original sender comes from\<close>

definition quotes_sender :: "eml_env \<Rightarrow> string \<Rightarrow> string \<Rightarrow> bool" where
  "quotes_sender env a l \<longleftrightarrow>
     (case labelled_line l of None \<Rightarrow> False
      | Some (label, v) \<Rightarrow> label \<in> set from_labels \<and> fst (address_of env v) = a)"

lemma map_of_set_default:
  "map_of (set_default f k v) k' = Some x \<Longrightarrow> map_of f k' = Some x \<or> k' = k \<and> x = v"
  by (auto simp: set_default_def map_add_def split: if_splits option.splits)

lemma note_sender_from:
  "map_of (note_sender label v f) ''from'' = Some x \<Longrightarrow>
     map_of f ''from'' = Some x \<or> label \<in> set from_labels \<and> x = v"
  by (auto simp: note_sender_def dest: map_of_set_default split: if_splits)

lemma note_field_from:
  "map_of (note_field label v f) ''from'' = Some x \<Longrightarrow>
     map_of f ''from'' = Some x \<or> label \<in> set from_labels \<and> x = v"
  by (auto simp: note_field_def dest: map_of_set_default note_sender_from split: if_splits)

lemma header_block_from:
  "map_of (header_block ls f) ''from'' = Some x \<Longrightarrow> map_of f ''from'' = Some x \<or>
     (\<exists>l \<in> set ls. \<exists>label. labelled_line l = Some (label, x) \<and> label \<in> set from_labels)"
proof (induction ls f rule: header_block.induct)
  case (2 l ls f)
  show ?case
  proof (cases "py_strip l = [] \<or> labelled_line l = None")
    case True
    then show ?thesis using 2 by (cases "f = []") (auto split: if_splits)
  next
    case False
    then obtain label v where lv: "labelled_line l = Some (label, v)" by auto
    then have "map_of (header_block ls (note_field label v f)) ''from'' = Some x" using 2(4) False by simp
    from 2(3) [OF _ lv refl this] False note_field_from show ?thesis using lv by fastforce
  qed
qed simp

lemma forward_block_from:
  assumes "forward_block ls = Some f"
  shows "\<exists>before mark rest l label. ls = before @ mark # rest \<and> is_marker mark \<and>
    l \<in> set (take 40 rest) \<and> labelled_line l = Some (label, the (map_of f ''from'')) \<and> label \<in> set from_labels"
  using assms
proof (induction ls)
  case (Cons m ls)
  let ?f = "header_block (take max_forward_header_lines ls) []"
  show ?case
  proof (cases "is_marker m \<and> has_from ?f")
    case True
    then have "f = ?f" using Cons.prems by (simp add: Let_def)
    moreover obtain v where "map_of ?f ''from'' = Some v"
      using True by (auto simp: has_from_def str_or_none_def split: option.splits)
    ultimately show ?thesis
      using header_block_from [of "take max_forward_header_lines ls" "[]" v] True
      by (fastforce simp: max_forward_header_lines_def intro: exI [of _ "[]"])
  next
    case False
    then have "forward_block ls = Some f" using Cons.prems by (auto simp: Let_def)
    from Cons.IH [OF this] show ?thesis by (metis append_Cons)
  qed
qed simp

lemma fold_sender_from:
  "map_of (fold (\<lambda>l f. case labelled_line l of None \<Rightarrow> f | Some (label, v) \<Rightarrow> note_sender label v f) ls f) ''from'' =
     Some x \<Longrightarrow> map_of f ''from'' = Some x \<or>
     (\<exists>l \<in> set ls. \<exists>label. labelled_line l = Some (label, x) \<and> label \<in> set from_labels)"
proof (induction ls arbitrary: f)
  case (Cons l ls)
  show ?case
  proof (cases "labelled_line l")
    case None
    then show ?thesis using Cons by auto
  next
    case (Some lv)
    then obtain label v where "labelled_line l = Some (label, v)" by (cases lv) auto
    then show ?thesis using Cons.IH [of "note_sender label v f"] Cons.prems note_sender_from by fastforce
  qed
qed simp

lemma sender_from_lines_from:
  assumes "sender_from_lines ls = Some f"
  shows "\<exists>l label. l \<in> set (take 40 ls) \<and> labelled_line l = Some (label, the (map_of f ''from'')) \<and> label \<in> set from_labels"
proof -
  have f: "f = fold (\<lambda>l f. case labelled_line l of None \<Rightarrow> f | Some (label, v) \<Rightarrow> note_sender label v f)
      (take max_forward_header_lines ls) []" "has_from f"
    using assms by (auto simp: sender_from_lines_def Let_def split: if_splits)
  then obtain v where "map_of f ''from'' = Some v"
    by (auto simp: has_from_def str_or_none_def split: option.splits)
  then show ?thesis
    using fold_sender_from [of "take max_forward_header_lines ls" "[]" v] f(1)
    by (auto simp: max_forward_header_lines_def)
qed

lemma found_senderD:
  "found_sender env how conf f = Some o1 \<Longrightarrow>
     os_method o1 = how \<and> CHR ''@'' \<in> set (os_email o1) \<and> os_email o1 = fst (address_of env (the (map_of f ''from'')))"
  by (auto simp: found_sender_def split: prod.splits if_splits)

lemma parse_message_sel:
  "pe_original_sender (parse_message env m) =
     original_sender_of env (pe_subject (parse_message env m)) (pe_text (parse_message env m)) (pe_nested (parse_message env m))"
  "pe_subject (parse_message env m) = eml_header m ''Subject''"
  "pe_from_email (parse_message env m) = fst (address_of env (eml_header m ''From''))"
  "pe_nested (parse_message env m) = map (parse_message env) (snd (snd (collect_part env m)))"
  by (simp_all add: parse_message.simps [of env m] Let_def)

text \<open>
  The original sender is quoted, not guessed.  An address taken for the original sender of a
  forwarded letter is the \<open>From\<close> of a letter attached to it, or stands on a line labelled as a
  sender among the 40 lines after a forwarding marker, or, only if the subject says that the letter
  was forwarded and nothing better is there, among the first 40 lines of the text; the last two
  are addresses with an at sign.
\<close>

theorem original_sender_is_quoted:
  assumes "pe_original_sender (parse_message env m) = Some o1"
  shows "(os_method o1 = ''attachment'' \<and> os_email o1 \<noteq> [] \<and>
       (\<exists>q \<in> set (snd (snd (collect_part env m))). os_email o1 = fst (address_of env (eml_header q ''From'')))) \<or>
     CHR ''@'' \<in> set (os_email o1) \<and>
       (let lines = splitlines (pe_text (parse_message env m))
        in os_method o1 = ''marker'' \<and> (\<exists>before mark rest. lines = before @ mark # rest \<and> is_marker mark \<and>
             list_ex (quotes_sender env (os_email o1)) (take 40 rest)) \<or>
           os_method o1 = ''subject-only'' \<and> subject_forwarded (eml_header m ''Subject'') \<and>
             list_ex (quotes_sender env (os_email o1)) (take 40 lines))"
proof -
  let ?p = "parse_message env m"
  let ?lines = "splitlines (pe_text ?p)"
  have quoted: "list_ex (quotes_sender env (fst (address_of env v))) ls"
    if "l \<in> set ls" "labelled_line l = Some (label, v)" "label \<in> set from_labels" for l ls label v
    using that by (auto simp: list_ex_iff quotes_sender_def intro!: bexI [of _ l])
  have o1: "original_sender_of env (eml_header m ''Subject'') (pe_text ?p) (pe_nested ?p) = Some o1"
    using assms by (simp add: parse_message_sel)
  show ?thesis
  proof (cases "find (\<lambda>m. pe_from_email m \<noteq> []) (pe_nested ?p)")
    case (Some n)
    then have "n \<in> set (pe_nested ?p)" "pe_from_email n \<noteq> []" by (auto dest: find_Some_mem)
    then show ?thesis using o1 Some by (auto simp: original_sender_of_def parse_message_sel(3,4))
  next
    case None
    show ?thesis
    proof (cases "forward_block ?lines")
      case (Some f)
      then have f: "found_sender env ''marker'' ''0.85'' f = Some o1"
        using o1 None by (simp add: original_sender_of_def)
      from forward_block_from [OF Some] found_senderD [OF f] show ?thesis
        unfolding Let_def using quoted by metis
    next
      case none: None
      then obtain f where f: "subject_forwarded (eml_header m ''Subject'')" "sender_from_lines ?lines = Some f"
        "found_sender env ''subject-only'' ''0.55'' f = Some o1"
        using o1 None by (auto simp: original_sender_of_def split: if_splits option.splits)
      from sender_from_lines_from [OF f(2)] found_senderD [OF f(3)] f(1) show ?thesis
        unfolding Let_def using quoted by metis
    qed
  qed
qed

section \<open>Witnesses\<close>

definition sample_forward :: mime where
  "sample_forward =
     Leaf \<lparr>pi_headers = [(''From'', ''parent@home.example''), (''Subject'', ''Fwd: trip'')], pi_type = ''text/plain'',
           pi_disposition = None, pi_filename = None, pi_charset = None\<rparr>
       (join nl [''see below'', ''---------- Forwarded message ---------'', ''Von: office@school.example'', [], ''Dear parents''])"

definition sample_eml_env :: eml_env where
  "sample_eml_env = \<lparr>ee_parse = (\<lambda>s. sample_forward), ee_address = (\<lambda>v. ([], v)), ee_addresses = (\<lambda>v. [([], v)]),
     ee_codec = (\<lambda>c s. Some s), ee_lenient = (\<lambda>s. s)\<rparr>"

lemma sample_sender:
  "pe_original_sender (parse_message sample_eml_env sample_forward) = Some
     \<lparr>os_email = ''office@school.example'', os_name = None, os_method = ''marker'', os_confidence = ''0.85'',
           os_date = None, os_subject = None\<rparr>"
  by code_simp

theorem original_sender_is_quoted_witness:
  "\<exists>o1. pe_original_sender (parse_message sample_eml_env sample_forward) = Some o1 \<and>
     os_method o1 = ''marker'' \<and> CHR ''@'' \<in> set (os_email o1)"
  using original_sender_is_quoted [OF sample_sender] sample_sender by auto

end
