(* ===== verification/Ingress.thy ===== *)
theory Ingress
  imports Events Eml EmailStore
begin

text \<open>
  \<open>hermes_cloud/ingest/rfc822.py\<close> and \<open>inject.py\<close>: the seam every mail provider ends
  in.  The letter is an event of the file before a receipt of the provider's delivery is written, and
  both before the caller may acknowledge.  \<open>sha\<close> is SHA-256 in hexadecimal; \<open>nid\<close> and
  \<open>rid\<close> are the new ids of the event and of the receipt.
\<close>

section \<open>The model\<close>

datatype ingest_error =
    Missing_source
  | Replayed_differently
  | Receipt_without_event
  | Receipt_id_taken
  | Not_accepted event_error

record ingested =
  ig_event :: event
  ig_created :: bool
  ig_parsed :: parsed
  ig_sha256 :: string

definition receipt_key :: "ingress_receipt \<Rightarrow> string \<times> string" where
  "receipt_key r = (ir_source r, ir_provider_event_id r)"

definition receipt_of :: "string \<Rightarrow> string \<Rightarrow> db \<Rightarrow> ingress_receipt option" where
  "receipt_of source pid d = find (\<lambda>r. receipt_key r = (source, pid)) (t_receipts d)"

definition new_receipt ::
  "uid \<Rightarrow> email_binding option \<Rightarrow> string \<Rightarrow> string \<Rightarrow> string option \<Rightarrow> string \<Rightarrow> uid \<Rightarrow> time \<Rightarrow> ingress_receipt" where
  "new_receipt rid b source pid mid digest eid now =
     \<lparr>ir_id = rid, ir_identity_id = map_option em_identity_id b, ir_revision = map_option em_revision b,
      ir_source = source, ir_provider_event_id = pid, ir_message_id = mid, ir_content_sha256 = digest,
      ir_event_id = eid, ir_received_at = now, ir_created_at = now\<rparr>"

definition add_receipt :: "ingress_receipt \<Rightarrow> db \<Rightarrow> (ingest_error + unit) \<times> db" where
  "add_receipt r = write_tx (\<lambda>d.
     if receipt_key r \<in> receipt_key ` set (t_receipts d) then (Inr (), d)
     else if ir_id r \<in> ir_id ` set (t_receipts d) then (Inl Receipt_id_taken, d)
     else (Inr (), d\<lparr>t_receipts := t_receipts d @ [r]\<rparr>))"

definition ingest_rfc822 ::
  "eml_env \<Rightarrow> (string \<Rightarrow> string) \<Rightarrow> uid \<Rightarrow> uid \<Rightarrow> string \<Rightarrow> string \<Rightarrow> string \<Rightarrow> time option \<Rightarrow> time \<Rightarrow>
   email_binding option \<Rightarrow> db \<Rightarrow> (ingest_error + ingested) \<times> db" where
  "ingest_rfc822 env sha nid rid source pid raw received clock b d =
     (if source = [] \<or> pid = [] then (Inl Missing_source, d)
      else
        let p = parse_eml env raw; digest = sha raw;
            now = (case received of None \<Rightarrow> clock | Some t \<Rightarrow> t)
        in case receipt_of source pid d of
             Some r \<Rightarrow>
               if ir_content_sha256 r \<noteq> digest then (Inl Replayed_differently, d)
               else (case events_get (ir_event_id r) d of
                   None \<Rightarrow> (Inl Receipt_without_event, d)
                 | Some e \<Rightarrow> (Inr \<lparr>ig_event = e, ig_created = False, ig_parsed = p, ig_sha256 = digest\<rparr>, d))
           | None \<Rightarrow>
               (case events_append nid source (external_id_of sha p raw) raw (pe_thread_key p) now d of
                  (Inl x, d1) \<Rightarrow> (Inl (Not_accepted x), d1)
                | (Inr (e, created), d1) \<Rightarrow>
                    (case add_receipt (new_receipt rid b source pid (pe_message_id p) digest (ev_id e) now) d1 of
                       (Inl x, d2) \<Rightarrow> (Inl x, d2)
                     | (Inr _, d2) \<Rightarrow>
                         (Inr \<lparr>ig_event = e, ig_created = created, ig_parsed = p, ig_sha256 = digest\<rparr>, d2))))"

definition source_inject :: string where "source_inject = ''inject''"

definition ingest_bytes ::
  "eml_env \<Rightarrow> (string \<Rightarrow> string) \<Rightarrow> uid \<Rightarrow> uid \<Rightarrow> string \<Rightarrow> string \<Rightarrow> time \<Rightarrow> db \<Rightarrow> (ingest_error + ingested) \<times> db" where
  "ingest_bytes env sha nid rid raw source clock =
     ingest_rfc822 env sha nid rid source (''inject:'' @ sha raw) raw None clock None"

section \<open>Receipts point at letters\<close>

definition receipts_ok :: "db \<Rightarrow> bool" where
  "receipts_ok d \<longleftrightarrow> distinct (map receipt_key (t_receipts d)) \<and>
     ir_event_id ` set (t_receipts d) \<subseteq> ev_id ` set (t_events d) \<and> distinct (map ev_id (t_events d))"

lemma receipt_of_None: "receipt_of source pid d = None \<longleftrightarrow> (source, pid) \<notin> receipt_key ` set (t_receipts d)"
  by (simp add: receipt_of_def find_None_all image_iff) metis

lemma receipt_of_Some: "receipt_of source pid d = Some r \<Longrightarrow> r \<in> set (t_receipts d) \<and> receipt_key r = (source, pid)"
  by (auto simp: receipt_of_def dest: find_Some_mem)

lemma new_receipt_sel [simp]:
  "receipt_key (new_receipt rid b source pid mid digest eid now) = (source, pid)"
  "ir_id (new_receipt rid b source pid mid digest eid now) = rid"
  "ir_event_id (new_receipt rid b source pid mid digest eid now) = eid"
  "ir_content_sha256 (new_receipt rid b source pid mid digest eid now) = digest"
  by (simp_all add: new_receipt_def receipt_key_def)

lemma append_keeps:
  assumes "events_append nid source ext raw ctx now d = (res, d1)" "receipts_ok d"
  shows "receipts_ok d1 \<and> t_receipts d1 = t_receipts d \<and>
    (case res of Inl x \<Rightarrow> d1 = d | Inr (e, created) \<Rightarrow> e \<in> set (t_events d1) \<and> ev_external_id e = ext)"
proof (cases rule: append_cases [of nid source ext raw ctx now d])
  case (fresh e)
  then show ?thesis using assms by (auto simp: receipts_ok_def letter_def image_subset_iff)
qed (use assms in auto)

text \<open>What a successful call has put on disk.\<close>

lemma ingest_keeps:
  assumes "ingest_rfc822 env sha nid rid source pid raw received clock b d = (Inr g, d')" "receipts_ok d"
  shows "receipts_ok d' \<and> ig_event g \<in> set (t_events d') \<and> ig_sha256 g = sha raw \<and> source \<noteq> [] \<and> pid \<noteq> [] \<and>
    ig_parsed g = parse_eml env raw \<and>
    (\<exists>r. receipt_of source pid d' = Some r \<and> ir_event_id r = ev_id (ig_event g) \<and> ir_content_sha256 r = sha raw)"
proof (cases "receipt_of source pid d")
  case (Some r)
  then show ?thesis using assms
    by (auto simp: ingest_rfc822_def Let_def events_get_def split: if_splits option.splits
        dest!: tbl_get_SomeD)
next
  case None
  let ?p = "parse_eml env raw" and ?now = "case received of None \<Rightarrow> clock | Some t \<Rightarrow> t"
  obtain e c d1 where app: "events_append nid source (external_id_of sha ?p raw) raw (pe_thread_key ?p) ?now d = (Inr (e, c), d1)"
    using assms(1) None by (auto simp: ingest_rfc822_def Let_def split: if_splits prod.splits sum.splits)
  let ?r = "new_receipt rid b source pid (pe_message_id ?p) (sha raw) (ev_id e) ?now"
  from append_keeps [OF app assms(2)] have d1: "receipts_ok d1" "t_receipts d1 = t_receipts d" "e \<in> set (t_events d1)"
    by auto
  have new: "receipt_key ?r \<notin> receipt_key ` set (t_receipts d1)"
    using None d1(2) by (simp add: receipt_of_None)
  have ne: "source \<noteq> [] \<and> pid \<noteq> []" using assms(1) by (auto simp: ingest_rfc822_def)
  have free: "rid \<notin> ir_id ` set (t_receipts d1)"
    using assms(1) None app new ne by (auto simp: ingest_rfc822_def add_receipt_def write_tx_def)
  then have "add_receipt ?r d1 = (Inr (), d1\<lparr>t_receipts := t_receipts d1 @ [?r]\<rparr>)"
    using new by (simp add: add_receipt_def write_tx_def)
  then have d': "d' = d1\<lparr>t_receipts := t_receipts d1 @ [?r]\<rparr>"
    "g = \<lparr>ig_event = e, ig_created = c, ig_parsed = ?p, ig_sha256 = sha raw\<rparr>"
    using assms(1) None app ne by (auto simp: ingest_rfc822_def Let_def)
  have "find (\<lambda>r. receipt_key r = (source, pid)) (t_receipts d1) = None"
    using new by (simp add: find_None_all image_iff) metis
  then have "receipt_of source pid d' = Some ?r"
    unfolding d'(1) by (simp add: receipt_of_def find_append_case)
  moreover have "receipts_ok d'" using d1 new unfolding d'(1) by (auto simp: receipts_ok_def)
  ultimately show ?thesis using d1(3) d' ne by simp
qed

text \<open>
  A letter taken in stays taken in.  When the call answers, the letter is an event of the file
  and the delivery has a receipt with the hash of its content that points at this event, so the provider's
  cursor may advance; the same delivery reported again, whenever and under whatever ids,
  answers the same event as known and changes nothing, and a delivery of that name with another
  content is refused.
\<close>

theorem delivery_is_idempotent:
  assumes "ingest_rfc822 env sha nid rid source pid raw received clock b d = (Inr g, d')" "receipts_ok d"
  shows "receipts_ok d' \<and> ig_event g \<in> set (t_events d') \<and>
    (\<exists>r \<in> set (t_receipts d'). receipt_key r = (source, pid) \<and> ir_event_id r = ev_id (ig_event g) \<and>
       ir_content_sha256 r = sha raw) \<and>
    ingest_rfc822 env sha nid' rid' source pid raw received' clock' b' d' = (Inr (g\<lparr>ig_created := False\<rparr>), d') \<and>
    (sha raw' \<noteq> sha raw \<longrightarrow>
       ingest_rfc822 env sha nid' rid' source pid raw' received' clock' b' d' = (Inl Replayed_differently, d'))"
proof -
  from ingest_keeps [OF assms] obtain r where
    ok: "receipts_ok d'" "ig_event g \<in> set (t_events d')" "source \<noteq> []" "pid \<noteq> []"
      "ig_parsed g = parse_eml env raw" "ig_sha256 g = sha raw" and
    r: "receipt_of source pid d' = Some r" "ir_event_id r = ev_id (ig_event g)" "ir_content_sha256 r = sha raw"
    by blast
  have "events_get (ir_event_id r) d' = Some (ig_event g)"
    using ok r(2) tbl_get_mem [of ev_id "t_events d'" "ig_event g"] by (simp add: events_get_def receipts_ok_def)
  then have "ingest_rfc822 env sha nid' rid' source pid raw received' clock' b' d' = (Inr (g\<lparr>ig_created := False\<rparr>), d')"
    using ok r by (cases g) (simp add: ingest_rfc822_def Let_def)
  then show ?thesis
    using ok r receipt_of_Some [OF r(1)] by (auto simp: ingest_rfc822_def Let_def)
qed

section \<open>Witnesses\<close>

theorem delivery_is_idempotent_witness:
  "\<exists>g d'. ingest_rfc822 sample_eml_env (\<lambda>s. s) ''e1'' ''r1'' ''imap'' ''7'' ''letter'' None 10 None empty_db = (Inr g, d') \<and>
     ig_created g \<and>
     ingest_rfc822 sample_eml_env (\<lambda>s. s) ''e2'' ''r2'' ''imap'' ''7'' ''letter'' None 20 None d' = (Inr (g\<lparr>ig_created := False\<rparr>), d')"
proof -
  let ?call = "ingest_rfc822 sample_eml_env (\<lambda>s. s) ''e1'' ''r1'' ''imap'' ''7'' ''letter'' None 10 None empty_db"
  obtain g d' where c: "?call = (Inr g, d')" and new: "ig_created g"
    by (simp add: ingest_rfc822_def receipt_of_def events_append_def write_tx_def is_deleted_def
        events_by_external_id_def tbl_get_Cons add_receipt_def Let_def)
  have "receipts_ok empty_db" by (simp add: receipts_ok_def)
  from delivery_is_idempotent [OF c this, of "''e2''" "''r2''" None 20 None] c new show ?thesis by blast
qed

end
