(* ===== verification/WhatsAppIn.thy ===== *)
theory WhatsAppIn
  imports Events RunContext "HOL-Library.Sublist"
begin

text \<open>
  \<open>hermes_cloud/ingest/whatsapp_webhook.py\<close>: a message the relay signed becomes an event.  The
  signature is HMAC-SHA256 in hexadecimal over the body and the timestamp; \<open>json.loads\<close>,
  \<open>str\<close> of a JSON value that is no text, the encoding in UTF-8 and the rendering and the header
  parser of \<open>email\<close> are parameters.
\<close>

section \<open>Errors and parameters\<close>

datatype wa_reject = Wr_rejected string nat | Wr_raised string | Wr_event event_error

record wa_env =
  wv_hmac :: "string \<Rightarrow> string \<Rightarrow> string"
  wv_utf8 :: "string \<Rightarrow> string"
  wv_loads :: "string \<Rightarrow> json option"
  wv_str :: "json \<Rightarrow> string"
  wv_render :: "(string \<times> string) list \<Rightarrow> string \<Rightarrow> string"
  wv_headers :: "string \<Rightarrow> string \<Rightarrow> string option"

record wa_inbound =
  wi_message_id :: string
  wi_chat_id :: string
  wi_actor_id :: string
  wi_text :: string
  wi_display_name :: "string option"
  wi_instance :: string

definition max_whatsapp_webhook_bytes :: nat where "max_whatsapp_webhook_bytes = 256 * 1024"

definition replay_window_seconds :: int where "replay_window_seconds = 300"

section \<open>The signature\<close>

text \<open>
  \<open>int(text)\<close>: white space around, a sign, digits, single underscores between digits.
\<close>

fun digits_value :: "int \<Rightarrow> string \<Rightarrow> int option" where
  "digits_value acc [] = Some acc"
| "digits_value acc (c # s) =
     (let n = of_char c :: nat
      in if 48 \<le> n \<and> n \<le> 57 then digits_value (10 * acc + int (n - 48)) s
         else if c = CHR ''_'' \<and> s \<noteq> [] \<and> 48 \<le> (of_char (hd s) :: nat) \<and> (of_char (hd s) :: nat) \<le> 57
           then digits_value acc s
         else None)"

definition py_int :: "string \<Rightarrow> int option" where
  "py_int text =
     (let s = py_strip text;
          (neg, r) = (if take 1 s = ''-'' then (True, tl s) else if take 1 s = ''+'' then (False, tl s) else (False, s))
      in if r = [] \<or> hd r = CHR ''_'' then None
         else map_option (\<lambda>v. if neg then - v else v) (digits_value 0 r))"

definition signed_text :: "wa_env \<Rightarrow> string \<Rightarrow> string \<Rightarrow> string" where
  "signed_text v payload timestamp = payload @ ''|'' @ wv_utf8 v timestamp"

definition sign_webhook :: "wa_env \<Rightarrow> string \<Rightarrow> string \<Rightarrow> string \<Rightarrow> string" where
  "sign_webhook v payload secret timestamp = wv_hmac v (wv_utf8 v secret) (signed_text v payload timestamp)"

definition remove_prefix :: "string \<Rightarrow> string \<Rightarrow> string" where
  "remove_prefix p s = (if take (length p) s = p then drop (length p) s else s)"

text \<open>\<open>hmac.compare_digest\<close> on two texts: \<open>TypeError\<close> when one is not ASCII.\<close>

definition is_ascii :: "string \<Rightarrow> bool" where
  "is_ascii s \<longleftrightarrow> list_all (\<lambda>c. (of_char c :: nat) < 128) s"

definition compare_digest :: "string \<Rightarrow> string \<Rightarrow> bool option" where
  "compare_digest a b = (if is_ascii a \<and> is_ascii b then Some (a = b) else None)"

definition verify_webhook :: "wa_env \<Rightarrow> string \<Rightarrow> string \<Rightarrow> string \<Rightarrow> string \<Rightarrow> time \<Rightarrow> wa_reject option" where
  "verify_webhook v payload signature secret timestamp now =
     (if secret = [] \<or> signature = [] \<or> timestamp = [] then Some (Wr_rejected ''unauthorized'' 401)
      else case py_int timestamp of
             None \<Rightarrow> Some (Wr_rejected ''timestamp_replay'' 401)
           | Some sent \<Rightarrow>
               if \<bar>(if now < 0 then \<lceil>now\<rceil> else \<lfloor>now\<rfloor>) - sent\<bar> > replay_window_seconds
               then Some (Wr_rejected ''timestamp_replay'' 401)
               else
                 (let supplied = py_lower (py_strip (remove_prefix ''sha256='' signature));
                      expected = sign_webhook v payload secret timestamp
                  in if length supplied \<noteq> length expected then Some (Wr_rejected ''unauthorized'' 401)
                     else case compare_digest supplied expected of
                            None \<Rightarrow> Some (Wr_raised ''TypeError'')
                          | Some same \<Rightarrow> if same then None else Some (Wr_rejected ''unauthorized'' 401)))"

section \<open>The message\<close>

definition wa_text :: "json \<Rightarrow> string \<Rightarrow> nat \<Rightarrow> wa_reject + string" where
  "wa_text value name limit =
     (case value of
        JStr s \<Rightarrow>
          if py_strip s = [] \<or> limit < length (py_strip s) then Inl (Wr_rejected (''invalid_'' @ name) 400)
          else Inr (py_strip s)
      | _ \<Rightarrow> Inl (Wr_rejected (''invalid_'' @ name) 400))"

definition json_or :: "json \<Rightarrow> json \<Rightarrow> json" where
  "json_or a b = (if truthy a then a else b)"

definition is_dict :: "json \<Rightarrow> bool" where
  "is_dict v = (case v of JObj d \<Rightarrow> True | _ \<Rightarrow> False)"

definition str_of :: "wa_env \<Rightarrow> json \<Rightarrow> string" where
  "str_of v j = (case j of JStr s \<Rightarrow> s | _ \<Rightarrow> wv_str v j)"

definition before_at :: "string \<Rightarrow> string" where
  "before_at s = takeWhile (\<lambda>c. c \<noteq> CHR ''@'') s"

text \<open>The message id, chat, actor, text and display name of the relay's own form.\<close>

definition normalized_fields ::
  "json \<Rightarrow> wa_reject + (string \<times> string \<times> string \<times> json \<times> json)" where
  "normalized_fields m =
     (if jget m ''from_me'' = JBool True then Inl (Wr_rejected ''ignored_message'' 409)
      else case wa_text (jget m ''id'') ''message_id'' 256 of
        Inl e \<Rightarrow> Inl e
      | Inr mid \<Rightarrow>
          (case wa_text (jget m ''from'') ''actor_id'' 64 of
             Inl e \<Rightarrow> Inl e
           | Inr sender \<Rightarrow>
               (let actor = remove_prefix ''+'' sender
                in case wa_text (json_or (jget m ''remote_jid'') (JStr (actor @ ''@s.whatsapp.net''))) ''chat_id'' 256 of
                     Inl e \<Rightarrow> Inl e
                   | Inr chat \<Rightarrow> Inr (mid, chat, actor, jget m ''text'', jget m ''push_name''))))"

definition evolution_fields ::
  "wa_env \<Rightarrow> json \<Rightarrow> wa_reject + (string \<times> string \<times> string \<times> json \<times> json)" where
  "evolution_fields v document =
     (let data = jget document ''data''; key = jget data ''key''
      in if \<not> is_dict data then Inl (Wr_rejected ''invalid_payload'' 400)
         else if \<not> is_dict key \<or> jget key ''fromMe'' = JBool True then Inl (Wr_rejected ''ignored_message'' 409)
         else case wa_text (jget key ''id'') ''message_id'' 256 of
             Inl e \<Rightarrow> Inl e
           | Inr mid \<Rightarrow>
               (case wa_text (jget key ''remoteJid'') ''chat_id'' 256 of
                  Inl e \<Rightarrow> Inl e
                | Inr chat \<Rightarrow>
                    (let message = jget data ''message'';
                         direct = jget message ''conversation'';
                         extended = jget message ''extendedTextMessage''
                     in if \<not> is_dict message then Inl (Wr_rejected ''unsupported_message'' 400)
                        else Inr (mid, chat, before_at (str_of v (json_or (jget key ''participant'') (JStr chat))),
                               if \<not> truthy direct \<and> is_dict extended then jget extended ''text'' else direct,
                               jget data ''pushName''))))"

definition parse_webhook :: "wa_env \<Rightarrow> string \<Rightarrow> string \<Rightarrow> wa_reject + wa_inbound" where
  "parse_webhook v payload expected =
     (if payload = [] \<or> max_whatsapp_webhook_bytes < length payload then Inl (Wr_rejected ''payload_too_large'' 413)
      else case wv_loads v payload of
        None \<Rightarrow> Inl (Wr_rejected ''invalid_payload'' 400)
      | Some document \<Rightarrow>
          if \<not> is_dict document then Inl (Wr_rejected ''invalid_payload'' 400)
          else case wa_text (jget document ''instance'') ''instance'' 128 of
            Inl e \<Rightarrow> Inl e
          | Inr inst \<Rightarrow>
              if expected = [] then Inl (Wr_rejected ''wrong_instance'' 403)
              else case compare_digest inst expected of
                None \<Rightarrow> Inl (Wr_raised ''TypeError'')
              | Some False \<Rightarrow> Inl (Wr_rejected ''wrong_instance'' 403)
              | Some True \<Rightarrow>
                  (let m = jget document ''message''
                   in case (if is_dict m then normalized_fields m else evolution_fields v document) of
                        Inl e \<Rightarrow> Inl e
                      | Inr (mid, chat, actor, text, name) \<Rightarrow>
                          (case wa_text (JStr actor) ''actor_id'' 64 of
                             Inl e \<Rightarrow> Inl e
                           | Inr a \<Rightarrow>
                               (case wa_text text ''text'' 4096 of
                                  Inl e \<Rightarrow> Inl e
                                | Inr t \<Rightarrow>
                                    Inr \<lparr>wi_message_id = mid, wi_chat_id = chat, wi_actor_id = a, wi_text = t,
                                         wi_display_name = (if truthy name then str_or_none (Some (py_strip (str_of v name))) else None),
                                         wi_instance = inst\<rparr>))))"

section \<open>The letter the message becomes\<close>

definition header_actor :: string where "header_actor = ''X-Abrolia-WhatsApp-Actor''"

definition header_chat :: string where "header_chat = ''X-Abrolia-WhatsApp-Chat''"

definition plus_actor :: "string \<Rightarrow> string" where
  "plus_actor a = (if take 1 a = ''+'' then a else ''+'' @ a)"

definition wa_headers :: "wa_inbound \<Rightarrow> (string \<times> string) list" where
  "wa_headers i =
     (let digits = filter (\<lambda>c. c \<noteq> CHR ''+'') (wi_actor_id i);
          sender = (if digits = [] then ''unknown'' else digits);
          name = (case wi_display_name i of None \<Rightarrow> ''WhatsApp'' | Some n \<Rightarrow> n)
      in [(''From'', name @ '' <'' @ sender @ ''@whatsapp.invalid>''),
          (''To'', ''assistant@whatsapp.invalid''),
          (''Subject'', ''WhatsApp: '' @ (case wi_display_name i of None \<Rightarrow> wi_actor_id i | Some n \<Rightarrow> n)),
          (''Message-ID'', ''<'' @ wi_message_id i @ ''@'' @ wi_instance i @ ''.whatsapp.invalid>''),
          (header_actor, plus_actor (wi_actor_id i)),
          (header_chat, wi_chat_id i)])"

text \<open>Assigning a header of more than one line raises \<open>ValueError\<close>.\<close>

definition one_line :: "string \<Rightarrow> bool" where
  "one_line s \<longleftrightarrow> length (splitlines s) \<le> 1"

definition as_eml :: "wa_env \<Rightarrow> wa_inbound \<Rightarrow> wa_reject + string" where
  "as_eml v i =
     (if list_all (\<lambda>(k, s). one_line s) (wa_headers i) then Inr (wv_render v (wa_headers i) (wi_text i))
      else Inl (Wr_raised ''ValueError''))"

definition trusted_run_context :: "wa_env \<Rightarrow> string \<Rightarrow> household \<Rightarrow> uid \<Rightarrow> wa_reject + run_context" where
  "trusted_run_context v raw h nid =
     (let actor = (case wv_headers v raw header_actor of None \<Rightarrow> [] | Some s \<Rightarrow> s);
          chat = (case wv_headers v raw header_chat of None \<Rightarrow> [] | Some s \<Rightarrow> s)
      in if actor = [] \<or> chat = [] then Inl (Wr_rejected ''missing_trusted_provenance'' 400)
         else Inr (build_run_context h actor chat None None nid))"

definition wa_receive ::
  "wa_env \<Rightarrow> string \<Rightarrow> string \<Rightarrow> uid \<Rightarrow> string \<Rightarrow> string \<Rightarrow> string \<Rightarrow> time \<Rightarrow> db \<Rightarrow> (wa_reject + event \<times> bool) \<times> db" where
  "wa_receive v secret inst nid payload signature timestamp now d =
     (case verify_webhook v payload signature secret timestamp now of
        Some e \<Rightarrow> (Inl e, d)
      | None \<Rightarrow>
          (case parse_webhook v payload inst of
             Inl e \<Rightarrow> (Inl e, d)
           | Inr i \<Rightarrow>
               (case as_eml v i of
                  Inl e \<Rightarrow> (Inl e, d)
                | Inr raw \<Rightarrow>
                    (case events_append nid ''whatsapp'' (''whatsapp:'' @ wi_instance i @ '':'' @ wi_message_id i)
                            raw (Some (''whatsapp:'' @ wi_chat_id i)) now d of
                       (Inl x, d1) \<Rightarrow> (Inl (Wr_event x), d1)
                     | (Inr a, d1) \<Rightarrow> (Inr a, d1)))))"

section \<open>Authenticity\<close>

definition is_digit_char :: "char \<Rightarrow> bool" where
  "is_digit_char c \<longleftrightarrow> 48 \<le> (of_char c :: nat) \<and> (of_char c :: nat) \<le> 57"

lemma digits_value_chars:
  "digits_value acc s = Some k \<Longrightarrow> c \<in> set s \<Longrightarrow> is_digit_char c \<or> c = CHR ''_''"
  by (induction acc s rule: digits_value.induct) (auto simp: Let_def is_digit_char_def split: if_splits)

lemma strip_set: "c \<in> set s \<Longrightarrow> c \<in> set (py_strip s) \<or> is_space c"
proof -
  assume "c \<in> set s"
  then have "c \<in> set (dropWhile is_space s) \<or> is_space c"
    by (metis Un_iff set_append set_takeWhileD takeWhile_dropWhile_id)
  moreover have "c \<in> set (py_strip s) \<or> is_space c" if "c \<in> set (dropWhile is_space s)"
    using that unfolding py_strip_def
    by (metis Un_iff set_append set_rev set_takeWhileD takeWhile_dropWhile_id)
  ultimately show ?thesis by blast
qed

lemma py_int_no_bar:
  assumes "py_int s = Some k"
  shows "CHR ''|'' \<notin> set s"
proof
  assume "CHR ''|'' \<in> set s"
  then have bar: "CHR ''|'' \<in> set (py_strip s)" using strip_set by (fastforce simp: is_space_def)
  obtain r j where r: "digits_value 0 r = Some j" "set (py_strip s) \<subseteq> insert (CHR ''-'') (insert (CHR ''+'') (set r))"
  proof (cases "py_strip s")
    case Nil
    then show thesis using that assms by (simp add: py_int_def)
  next
    case (Cons c q)
    show thesis
    proof (cases "c = CHR ''-'' \<or> c = CHR ''+''")
      case True
      then show thesis using Cons assms that [of q] by (auto simp: py_int_def subset_insertI2 split: if_splits)
    next
      case False
      then show thesis using Cons assms that [of "c # q"] by (auto simp: py_int_def split: if_splits)
    qed
  qed
  then have "CHR ''|'' \<in> set r" using bar by auto
  then show False using digits_value_chars [OF r(1)] by (fastforce simp: is_digit_char_def)
qed

lemma last_bar:
  assumes "a @ ''|'' @ b = a' @ ''|'' @ b'" "CHR ''|'' \<notin> set b" "CHR ''|'' \<notin> set b'"
  shows "a = a' \<and> b = b'"
proof -
  let ?f = "\<lambda>s. takeWhile (\<lambda>c. c \<noteq> CHR ''|'') (rev s)"
  have "?f (x @ ''|'' @ y) = rev y" if "CHR ''|'' \<notin> set y" for x y
  proof -
    show ?thesis
      using that takeWhile_append2 [of "rev y" "\<lambda>c. c \<noteq> CHR ''|''" "''|'' @ rev x"] by auto
  qed
  then have "rev b = rev b'" using assms by metis
  then show ?thesis using assms(1) by simp
qed

text \<open>What a signature is over tells the body from the timestamp.\<close>

lemma signed_text_inj:
  assumes "signed_text v p t = signed_text v p' t'" "py_int t \<noteq> None" "py_int t' \<noteq> None"
    and "inj (wv_utf8 v)" "\<And>s. CHR ''|'' \<in> set (wv_utf8 v s) \<longleftrightarrow> CHR ''|'' \<in> set s"
  shows "p = p' \<and> t = t'"
proof -
  have "p = p' \<and> wv_utf8 v t = wv_utf8 v t'"
    using assms py_int_no_bar by (intro last_bar) (auto simp: signed_text_def)
  then show ?thesis using assms(4) by (auto dest: injD)
qed

lemma verified:
  "verify_webhook v payload signature secret timestamp now = None \<Longrightarrow>
     secret \<noteq> [] \<and> (\<exists>sent. py_int timestamp = Some sent \<and> \<bar>(if now < 0 then \<lceil>now\<rceil> else \<lfloor>now\<rfloor>) - sent\<bar> \<le> 300) \<and>
     py_lower (py_strip (remove_prefix ''sha256='' signature)) = sign_webhook v payload secret timestamp"
  by (auto simp: verify_webhook_def compare_digest_def Let_def replay_window_seconds_def
      split: if_splits option.splits)

lemma parsed_instance: "parse_webhook v payload inst = Inr i \<Longrightarrow> wi_instance i = inst \<and> inst \<noteq> []"
  by (auto simp: parse_webhook_def compare_digest_def Let_def split: if_splits option.splits sum.splits bool.splits prod.splits)

lemma received:
  assumes "wa_receive v secret inst nid payload signature timestamp now d = (Inr (e, created), d')"
  obtains i raw where "verify_webhook v payload signature secret timestamp now = None"
    "parse_webhook v payload inst = Inr i" "as_eml v i = Inr raw"
    "events_append nid ''whatsapp'' (''whatsapp:'' @ wi_instance i @ '':'' @ wi_message_id i) raw
       (Some (''whatsapp:'' @ wi_chat_id i)) now d = (Inr (e, created), d')"
  using assms by (auto simp: wa_receive_def split: option.splits sum.splits prod.splits)

text \<open>
  C39 (only the relay is heard).  A delivery becomes an event only under a shared secret, within
  five minutes of its timestamp, with the signature of exactly this body and this timestamp (the
  signed text is that of no other pair), and for this runtime's instance; the event is in the file under the
  instance and message id.  A refused delivery changes nothing.
\<close>

theorem only_the_relay_is_heard:
  assumes "wa_receive v secret inst nid payload signature timestamp now d = (res, d')"
    and "inj (wv_utf8 v)" "\<And>s. CHR ''|'' \<in> set (wv_utf8 v s) \<longleftrightarrow> CHR ''|'' \<in> set s"
  shows "case res of
      Inl x \<Rightarrow> d' = d
    | Inr (e, created) \<Rightarrow>
        secret \<noteq> [] \<and>
        (\<exists>sent. py_int timestamp = Some sent \<and> \<bar>(if now < 0 then \<lceil>now\<rceil> else \<lfloor>now\<rfloor>) - sent\<bar> \<le> 300) \<and>
        py_lower (py_strip (remove_prefix ''sha256='' signature)) =
          wv_hmac v (wv_utf8 v secret) (signed_text v payload timestamp) \<and>
        (\<forall>p t. py_int t \<noteq> None \<and> signed_text v p t = signed_text v payload timestamp \<longrightarrow> p = payload \<and> t = timestamp) \<and>
        (\<exists>i. parse_webhook v payload inst = Inr i \<and> wi_instance i = inst \<and> e \<in> set (t_events d') \<and>
           ev_external_id e = ''whatsapp:'' @ inst @ '':'' @ wi_message_id i)"
proof (cases res)
  case (Inl x)
  have "d1 = d" if "events_append n s ext raw c t d = (Inl y, d1)" for n s ext raw c t y d1
    using that by (cases rule: append_cases [of n s ext raw c t d]) auto
  then show ?thesis using assms(1) Inl
    by (auto simp: wa_receive_def split: option.splits sum.splits prod.splits)
next
  case (Inr ec)
  obtain e created where ec: "res = Inr (e, created)" using Inr by (cases ec) auto
  obtain i raw where i: "verify_webhook v payload signature secret timestamp now = None"
    "parse_webhook v payload inst = Inr i" and
    app: "events_append nid ''whatsapp'' (''whatsapp:'' @ wi_instance i @ '':'' @ wi_message_id i) raw
       (Some (''whatsapp:'' @ wi_chat_id i)) now d = (Inr (e, created), d')"
    using received assms(1) unfolding ec by metis
  have e: "e \<in> set (t_events d')" "ev_external_id e = ''whatsapp:'' @ wi_instance i @ '':'' @ wi_message_id i"
    using app by (cases rule: append_cases [of nid "''whatsapp''" "''whatsapp:'' @ wi_instance i @ '':'' @ wi_message_id i"
          raw "Some (''whatsapp:'' @ wi_chat_id i)" now d]; auto simp: letter_def)+
  have uniq: "p = payload \<and> t = timestamp"
    if "py_int t \<noteq> None" "signed_text v p t = signed_text v payload timestamp" for p t
    using signed_text_inj [OF that(2,1) _ assms(2,3)] verified [OF i(1)] by auto
  show ?thesis
    using verified [OF i(1)] uniq e i(2) parsed_instance [OF i(2)] ec by (auto simp: sign_webhook_def)
qed

section \<open>Provenance\<close>

lemma strip_edges: "py_strip s = [] \<or> \<not> is_space (hd (py_strip s)) \<and> \<not> is_space (last (py_strip s))"
proof (cases "py_strip s = []")
  case False
  let ?t = "dropWhile is_space s" and ?r = "dropWhile is_space (rev (dropWhile is_space s))"
  have ne: "?r \<noteq> []" using False by (simp add: py_strip_def)
  have "?t = py_strip s @ rev (takeWhile is_space (rev ?t))"
    unfolding py_strip_def by (metis rev_append rev_rev_ident takeWhile_dropWhile_id)
  then have "hd ?t = hd (py_strip s)" "?t \<noteq> []" using False by (metis hd_append2, force)
  then have "\<not> is_space (hd (py_strip s))" using hd_dropWhile by metis
  moreover have "last (py_strip s) = hd ?r" using ne by (simp add: py_strip_def last_rev)
  ultimately show ?thesis using hd_dropWhile ne by metis
qed simp

lemma py_strip_idem [simp]: "py_strip (py_strip s) = py_strip s"
  using strip_edges py_strip_id by blast

lemma wa_text_clean: "wa_text value name limit = Inr s \<Longrightarrow> s \<noteq> [] \<and> py_strip s = s"
  by (auto simp: wa_text_def split: json.splits if_splits)

lemma parsed_clean:
  "parse_webhook v payload inst = Inr i \<Longrightarrow>
     wi_chat_id i \<noteq> [] \<and> py_strip (wi_chat_id i) = wi_chat_id i \<and> py_strip (wi_actor_id i) = wi_actor_id i"
  by (auto simp: parse_webhook_def normalized_fields_def evolution_fields_def Let_def
      dest: wa_text_clean split: if_splits option.splits sum.splits bool.splits prod.splits)

lemma plus_actor_clean: "py_strip a = a \<Longrightarrow> py_strip (plus_actor a) = plus_actor a"
proof -
  assume "py_strip a = a"
  then have "a = [] \<or> \<not> is_space (last a)" using strip_edges [of a] by auto
  moreover have "\<not> is_space (CHR ''+'')" by (simp add: is_space_def)
  ultimately show ?thesis unfolding plus_actor_def
    using \<open>py_strip a = a\<close> by (auto intro!: py_strip_id split: if_splits)
qed

text \<open>
  Rights come from the relay, not from the message.  The actor and chat the pipeline rebuilds
  from a new event are the ones of the signed delivery, whatever its text and display name say.
\<close>

theorem rights_come_from_the_relay:
  assumes "wa_receive v secret inst nid payload signature timestamp now d = (Inr (e, True), d')"
    and "nid \<notin> ev_id ` set (t_events d)"
    and "parse_webhook v payload inst = Inr i"
    and "\<And>k x. map_of (wa_headers i) k = Some x \<Longrightarrow> py_strip x = x \<Longrightarrow> \<not> sublist ''=?'' x \<Longrightarrow>
      wv_headers v (wv_render v (wa_headers i) (wi_text i)) k = Some x"
    and "\<not> sublist ''=?'' (wi_chat_id i)" "\<not> sublist ''=?'' (plus_actor (wi_actor_id i))"
  shows "trusted_run_context v (ev_raw e) h n =
    Inr (build_run_context h (plus_actor (wi_actor_id i)) (wi_chat_id i) None None n)"
proof -
  obtain raw where raw: "as_eml v i = Inr raw" and
    app: "events_append nid ''whatsapp'' (''whatsapp:'' @ wi_instance i @ '':'' @ wi_message_id i) raw
       (Some (''whatsapp:'' @ wi_chat_id i)) now d = (Inr (e, True), d')"
    using received [OF assms(1)] assms(3) by (metis sum.inject(2))
  have "ev_raw e = raw"
    using app assms(2) by (cases rule: append_cases [of nid "''whatsapp''" "''whatsapp:'' @ wi_instance i @ '':'' @ wi_message_id i"
          raw "Some (''whatsapp:'' @ wi_chat_id i)" now d]) (auto simp: letter_def)
  moreover have "raw = wv_render v (wa_headers i) (wi_text i)" using raw by (auto simp: as_eml_def split: if_splits)
  moreover have "map_of (wa_headers i) header_actor = Some (plus_actor (wi_actor_id i))"
    "map_of (wa_headers i) header_chat = Some (wi_chat_id i)"
    by (simp_all add: wa_headers_def header_actor_def header_chat_def Let_def)
  moreover have "plus_actor (wi_actor_id i) \<noteq> []" by (auto simp: plus_actor_def)
  ultimately show ?thesis
    using assms(4-6) parsed_clean [OF assms(3)] plus_actor_clean by (simp add: trusted_run_context_def)
qed

section \<open>Deliveries that can never be accepted\<close>

text \<open>
  A display name with a line break inside makes the assignment of a header raise \<open>ValueError\<close>,
  which is no \<open>WhatsAppWebhookRejected\<close>: the caller answers that the webhook is unavailable,
  and so it does for every retry.
\<close>

lemma broken_name_is_never_accepted:
  assumes "verify_webhook v payload signature secret timestamp now = None"
    "parse_webhook v payload inst = Inr i" "wi_display_name i = Some name" "\<not> one_line (''WhatsApp: '' @ name)"
  shows "wa_receive v secret inst nid payload signature timestamp now d = (Inl (Wr_raised ''ValueError''), d)"
proof -
  have "\<not> list_all (\<lambda>(k, s). one_line s) (wa_headers i)"
    using assms(3,4) by (simp add: wa_headers_def Let_def)
  then show ?thesis using assms(1,2) by (simp add: wa_receive_def as_eml_def)
qed

text \<open>A signature of the right length with a character beyond ASCII raises instead of being refused.\<close>

lemma foreign_signature_raises:
  assumes "secret \<noteq> []" "py_int timestamp = Some sent" "timestamp \<noteq> []"
    "\<bar>(if now < 0 then \<lceil>now\<rceil> else \<lfloor>now\<rfloor>) - sent\<bar> \<le> 300" "signature \<noteq> []"
    "length (py_strip (remove_prefix ''sha256='' signature)) = length (sign_webhook v payload secret timestamp)"
    "\<not> is_ascii (py_lower (py_strip (remove_prefix ''sha256='' signature)))"
  shows "verify_webhook v payload signature secret timestamp now = Some (Wr_raised ''TypeError'')"
  using assms by (simp add: verify_webhook_def compare_digest_def replay_window_seconds_def Let_def py_lower_def)

section \<open>Witnesses\<close>

definition sample_inbound :: wa_inbound where
  "sample_inbound = \<lparr>wi_message_id = ''m1'', wi_chat_id = ''49@s.whatsapp.net'', wi_actor_id = ''49'', wi_text = ''hi'',
     wi_display_name = None, wi_instance = ''home''\<rparr>"

definition sample_wa :: wa_env where
  "sample_wa = \<lparr>wv_hmac = (\<lambda>k m. ''ab''), wv_utf8 = (\<lambda>s. s),
     wv_loads = (\<lambda>s. Some (JObj [(''instance'', JStr ''home''),
        (''message'', JObj [(''id'', JStr ''m1''), (''from'', JStr ''+49''), (''text'', JStr ''hi'')])])),
     wv_str = (\<lambda>j. []), wv_render = (\<lambda>hs t. t), wv_headers = (\<lambda>raw. map_of (wa_headers sample_inbound))\<rparr>"

definition sample_home :: household where
  "sample_home = \<lparr>hh_id = ''h'', hh_owner = Some ''+49'', hh_family = {}, hh_guests = {}, hh_allowed_chats = {''49@s.whatsapp.net''},
     hh_bindings = None\<rparr>"

lemma sample_parse: "parse_webhook sample_wa ''{}'' ''home'' = Inr sample_inbound"
proof -
  have "is_ascii ''home''" by code_simp
  then show ?thesis
    by (simp add: parse_webhook_def sample_wa_def sample_inbound_def max_whatsapp_webhook_bytes_def is_dict_def jget_def
        dict_get_def wa_text_def py_strip_def is_space_def compare_digest_def normalized_fields_def remove_prefix_def
        json_or_def Let_def)
qed

lemma sample_receive:
  "\<exists>e d'. wa_receive sample_wa ''key'' ''home'' ''e1'' ''{}'' ''sha256=AB'' ''100'' 160 empty_db = (Inr (e, True), d')"
proof -
  have "verify_webhook sample_wa ''{}'' ''sha256=AB'' ''key'' ''100'' 160 = None"
  proof -
    have "py_lower (py_strip (remove_prefix ''sha256='' ''sha256=AB'')) = ''ab''" "py_int ''100'' = Some 100" "is_ascii ''ab''"
      by code_simp+
    then show ?thesis
      by (simp add: verify_webhook_def compare_digest_def sign_webhook_def sample_wa_def replay_window_seconds_def Let_def)
  qed
  moreover have "\<exists>raw. as_eml sample_wa sample_inbound = Inr raw"
  proof -
    have "list_all (\<lambda>(k, s). one_line s) (wa_headers sample_inbound)" by code_simp
    then show ?thesis by (simp add: as_eml_def)
  qed
  ultimately show ?thesis using sample_parse
    by (auto simp: wa_receive_def events_append_def is_deleted_def write_tx_def events_by_external_id_def tbl_get_Cons)
qed

theorem only_the_relay_is_heard_witness:
  "\<exists>e d'. wa_receive sample_wa ''key'' ''home'' ''e1'' ''{}'' ''sha256=AB'' ''100'' 160 empty_db = (Inr (e, True), d') \<and>
     ev_external_id e = ''whatsapp:home:m1''"
proof -
  obtain e d' where r: "wa_receive sample_wa ''key'' ''home'' ''e1'' ''{}'' ''sha256=AB'' ''100'' 160 empty_db = (Inr (e, True), d')"
    using sample_receive by blast
  have "inj (wv_utf8 sample_wa)" "\<And>s. CHR ''|'' \<in> set (wv_utf8 sample_wa s) \<longleftrightarrow> CHR ''|'' \<in> set s"
    by (simp_all add: sample_wa_def)
  from only_the_relay_is_heard [OF r this] show ?thesis
    using r sample_parse by (auto simp: sample_inbound_def)
qed

theorem rights_come_from_the_relay_witness:
  "\<exists>e d'. wa_receive sample_wa ''key'' ''home'' ''e1'' ''{}'' ''sha256=AB'' ''100'' 160 empty_db = (Inr (e, True), d') \<and>
     trusted_run_context sample_wa (ev_raw e) sample_home ''r'' =
       Inr (build_run_context sample_home ''+49'' ''49@s.whatsapp.net'' None None ''r'')"
proof -
  obtain e d' where r: "wa_receive sample_wa ''key'' ''home'' ''e1'' ''{}'' ''sha256=AB'' ''100'' 160 empty_db = (Inr (e, True), d')"
    using sample_receive by blast
  have p: "wi_chat_id sample_inbound = ''49@s.whatsapp.net''" "plus_actor (wi_actor_id sample_inbound) = ''+49''"
    by (simp_all add: sample_inbound_def plus_actor_def)
  have h: "\<And>k x. map_of (wa_headers sample_inbound) k = Some x \<Longrightarrow>
      wv_headers sample_wa (wv_render sample_wa (wa_headers sample_inbound) (wi_text sample_inbound)) k = Some x"
    by (simp add: sample_wa_def)
  have n: "\<not> sublist ''=?'' ''49@s.whatsapp.net''" "\<not> sublist ''=?'' ''+49''" by (simp_all add: sublist_Cons_right)
  show ?thesis
    using rights_come_from_the_relay [OF r _ sample_parse h] n r p by auto
qed

end
