(* ===== verification/Media.thy ===== *)
theory Media
  imports WhatsAppIn
begin

text \<open>
  \<open>hermes_cloud/ingest/media.py\<close>: a photo or voice message becomes a letter with the
  text a describer or transcriber read from it, a parameter that may raise.
\<close>

datatype media_reject = Media_rejected string | Media_raised string | Media_event event_error

record media_envelope =
  mv_external_id :: string
  mv_context_key :: string
  mv_sender :: string
  mv_content :: string
  mv_mime_type :: string

definition max_photo_bytes :: nat where "max_photo_bytes = 10 * 1024 * 1024"

definition max_voice_bytes :: nat where "max_voice_bytes = 25 * 1024 * 1024"

definition photo_mimes :: "string set" where "photo_mimes = {''image/jpeg'', ''image/png'', ''image/webp''}"

definition voice_mimes :: "string set" where
  "voice_mimes = {''audio/ogg'', ''audio/mpeg'', ''audio/mp4'', ''audio/wav''}"

definition media_validate :: "media_envelope \<Rightarrow> string set \<Rightarrow> nat \<Rightarrow> media_reject option" where
  "media_validate m allowed limit =
     (if mv_mime_type m \<notin> allowed then Some (Media_rejected ''unsupported media type'')
      else if mv_content m = [] \<or> limit < length (mv_content m) then Some (Media_rejected ''invalid media size'')
      else if mv_external_id m = [] \<or> mv_context_key m = [] \<or> mv_sender m = []
        then Some (Media_rejected ''media provenance is incomplete'')
      else None)"

definition media_headers :: "media_envelope \<Rightarrow> string \<Rightarrow> (string \<times> string) list" where
  "media_headers m kind =
     [(''From'', mv_sender m), (''To'', ''assistant@media.invalid''), (''Subject'', kind @ '': '' @ mv_external_id m),
      (''Message-ID'', ''<'' @ mv_external_id m @ ''@media.invalid>''), (''X-Abrolia-Media-Kind'', kind)]"

definition canonical_eml ::
  "((string \<times> string) list \<Rightarrow> string \<Rightarrow> string) \<Rightarrow> media_envelope \<Rightarrow> string \<Rightarrow> string \<Rightarrow> media_reject + string" where
  "canonical_eml render m text kind =
     (if list_all (\<lambda>(k, s). one_line s) (media_headers m kind) then Inr (render (media_headers m kind) text)
      else Inl (Media_raised ''ValueError''))"

text \<open>What \<open>photo\<close> and \<open>voice\<close> share: validation, reading, the letter, the event.\<close>

definition media_take ::
  "((string \<times> string) list \<Rightarrow> string \<Rightarrow> string) \<Rightarrow> (string \<Rightarrow> string \<Rightarrow> media_reject + string) \<Rightarrow> string \<Rightarrow> string \<Rightarrow>
   string set \<Rightarrow> nat \<Rightarrow> string \<Rightarrow> uid \<Rightarrow> media_envelope \<Rightarrow> time \<Rightarrow> db \<Rightarrow> (media_reject + event \<times> bool) \<times> db" where
  "media_take render read source kind allowed limit none_text nid m now d =
     (case media_validate m allowed limit of
        Some e \<Rightarrow> (Inl e, d)
      | None \<Rightarrow>
          (case read (mv_content m) (mv_mime_type m) of
             Inl e \<Rightarrow> (Inl e, d)
           | Inr t \<Rightarrow>
               if py_strip t = [] then (Inl (Media_rejected none_text), d)
               else case canonical_eml render m (py_strip t) kind of
                   Inl e \<Rightarrow> (Inl e, d)
                 | Inr raw \<Rightarrow>
                     (case events_append nid source (source @ '':'' @ mv_external_id m) raw (Some (mv_context_key m)) now d of
                        (Inl x, d1) \<Rightarrow> (Inl (Media_event x), d1)
                      | (Inr a, d1) \<Rightarrow> (Inr a, d1))))"

definition media_photo where
  "media_photo render describe = media_take render describe ''photo'' ''Photo'' photo_mimes max_photo_bytes ''photo description is empty''"

definition media_voice where
  "media_voice render transcribe = media_take render transcribe ''voice'' ''Voice'' voice_mimes max_voice_bytes ''voice transcription is empty''"

text \<open>A refused medium leaves the file as it was; an accepted one is in it under its external id.\<close>

lemma media_taken:
  assumes "media_take render read source kind allowed limit none_text nid m now d = (res, d')"
  shows "case res of Inl x \<Rightarrow> d' = d
    | Inr (e, created) \<Rightarrow> e \<in> set (t_events d') \<and> ev_external_id e = source @ '':'' @ mv_external_id m \<and>
        mv_mime_type m \<in> allowed \<and> 0 < length (mv_content m) \<and> length (mv_content m) \<le> limit"
proof -
  have app: "case r of Inl x \<Rightarrow> d1 = d | Inr (e, c) \<Rightarrow> e \<in> set (t_events d1) \<and> ev_external_id e = ext"
    if "events_append nid source ext raw ctx now d = (r, d1)" for ext raw ctx r d1
    using that by (cases rule: append_cases [of nid source ext raw ctx now d]) (auto simp: letter_def)
  show ?thesis
    using assms app [of "source @ '':'' @ mv_external_id m" _ "Some (mv_context_key m)"]
    by (fastforce simp: media_take_def media_validate_def split: option.splits sum.splits prod.splits if_splits)
qed

end
