(* ===== verification/Channels.thy ===== *)
theory Channels
  imports EmailSend RunContext Reminders
begin

text \<open>
  \<open>hermes_cloud/channels/telegram.py\<close> and \<open>fallback.py\<close>: what a call of the Bot API is
  reported as, what an update becomes, and the letter to the family when the channel refuses.
  \<open>urllib\<close>, \<open>json\<close> and \<open>uuid4\<close> are parameters: a request ends in an answer, an HTTP
  status, \<open>URLError\<close> (it could not be sent), or in another exception once it was sent.
\<close>

section \<open>One call of the Bot API\<close>

datatype http_outcome = Answered string | Http_error nat | Url_error | Broken_off string

datatype tg_exn = Transport_error "nat option" bool | Tg_outcome_unknown | Tg_raised string

text \<open>A request: the method, the body and its content type.\<close>

type_synonym 'w http = "string \<Rightarrow> string \<Rightarrow> string \<Rightarrow> 'w \<Rightarrow> http_outcome \<times> 'w"

definition retryable_statuses :: "nat set" where "retryable_statuses = {408, 429}"

definition tg_definitive :: "nat \<Rightarrow> bool" where
  "tg_definitive status \<longleftrightarrow> status < 500 \<and> status \<notin> retryable_statuses"

definition answered :: "(string \<Rightarrow> json option) \<Rightarrow> http_outcome \<Rightarrow> tg_exn + json" where
  "answered loads out =
     (case out of
        Http_error status \<Rightarrow> Inl (Transport_error (Some status) (tg_definitive status))
      | Url_error \<Rightarrow> Inl Tg_outcome_unknown
      | Broken_off e \<Rightarrow> Inl (Tg_raised e)
      | Answered text \<Rightarrow>
          (case loads text of
             Some (JObj body) \<Rightarrow>
               if \<not> truthy (dict_get body ''ok'') then Inl (Transport_error None True)
               else (case map_of body ''result'' of None \<Rightarrow> Inl (Tg_raised ''KeyError'') | Some r \<Rightarrow> Inr r)
           | Some _ \<Rightarrow> Inl (Tg_raised ''AttributeError'')
           | None \<Rightarrow> Inl (Tg_raised ''JSONDecodeError'')))"

record 'w telegram =
  tg_loads :: "string \<Rightarrow> json option"
  tg_dumps :: "json \<Rightarrow> string"
  tg_str :: "json \<Rightarrow> string"
  tg_boundary :: string
  tg_http :: "'w http"

definition py_str :: "(json \<Rightarrow> string) \<Rightarrow> json \<Rightarrow> string" where
  "py_str f j = (case j of JStr s \<Rightarrow> s | JInt i \<Rightarrow> int_str i | JNull \<Rightarrow> ''None'' | _ \<Rightarrow> f j)"

definition tg_call :: "'w telegram \<Rightarrow> string \<Rightarrow> json \<Rightarrow> 'w \<Rightarrow> (tg_exn + json) \<times> 'w" where
  "tg_call t action payload w =
     (case tg_http t action (tg_dumps t payload) ''application/json'' w of
        (out, w1) \<Rightarrow> (answered (tg_loads t) out, w1))"

definition message_id_of :: "'w telegram \<Rightarrow> json \<Rightarrow> tg_exn + string" where
  "message_id_of t r =
     (case r of JObj d \<Rightarrow> (case map_of d ''message_id'' of
          None \<Rightarrow> Inl (Tg_raised ''KeyError'') | Some i \<Rightarrow> Inr (py_str (tg_str t) i))
      | _ \<Rightarrow> Inl (Tg_raised ''TypeError''))"

definition message_payload :: "string \<Rightarrow> int option \<Rightarrow> string \<Rightarrow> (string \<times> string) list \<Rightarrow> json" where
  "message_payload chat thread text buttons =
     JObj ([(''chat_id'', JStr chat), (''text'', JStr text)] @
       (case thread of None \<Rightarrow> [] | Some n \<Rightarrow> [(''message_thread_id'', JInt n)]) @
       (if buttons = [] then []
        else [(''reply_markup'', JObj [(''inline_keyboard'',
                JArr (map (\<lambda>(label, data). JArr [JObj [(''text'', JStr label), (''callback_data'', JStr data)]]) buttons))])]))"

definition tg_send_message ::
  "'w telegram \<Rightarrow> string \<Rightarrow> int option \<Rightarrow> string \<Rightarrow> (string \<times> string) list \<Rightarrow> 'w \<Rightarrow> (tg_exn + string) \<times> 'w" where
  "tg_send_message t chat thread text buttons w =
     (case tg_call t ''sendMessage'' (message_payload chat thread text buttons) w of
        (Inl e, w1) \<Rightarrow> (Inl e, w1)
      | (Inr r, w1) \<Rightarrow> (message_id_of t r, w1))"

definition crlf :: string where "crlf = [CHR 0x0D, CHR 0x0A]"

definition quotes :: "string \<Rightarrow> string" where "quotes s = [CHR 0x22] @ s @ [CHR 0x22]"

definition document_body :: "string \<Rightarrow> string \<Rightarrow> int option \<Rightarrow> string \<Rightarrow> string \<Rightarrow> string \<Rightarrow> string" where
  "document_body boundary chat thread filename content caption =
     (let fields = [(''chat_id'', chat)] @
            (case thread of None \<Rightarrow> [] | Some n \<Rightarrow> [(''message_thread_id'', int_str n)]) @
            (if caption = [] then [] else [(''caption'', caption)]);
          part = (\<lambda>(name, v). ''--'' @ boundary @ crlf @ ''Content-Disposition: form-data; name='' @ quotes name @
            crlf @ crlf @ v @ crlf)
      in concat (map part fields) @
         ''--'' @ boundary @ crlf @ ''Content-Disposition: form-data; name='' @ quotes ''document'' @ ''; filename='' @
         quotes filename @ crlf @ ''Content-Type: text/calendar'' @ crlf @ crlf @ content @
         crlf @ ''--'' @ boundary @ ''--'' @ crlf)"

definition tg_send_document ::
  "'w telegram \<Rightarrow> string \<Rightarrow> int option \<Rightarrow> string \<Rightarrow> string \<Rightarrow> string \<Rightarrow> 'w \<Rightarrow> (tg_exn + string) \<times> 'w" where
  "tg_send_document t chat thread filename content caption w =
     (case tg_http t ''sendDocument'' (document_body (tg_boundary t) chat thread filename content caption)
             (''multipart/form-data; boundary='' @ tg_boundary t) w of
        (out, w1) \<Rightarrow> (case answered (tg_loads t) out of
           Inl e \<Rightarrow> (Inl e, w1) | Inr r \<Rightarrow> (message_id_of t r, w1)))"

definition tg_answer_callback :: "'w telegram \<Rightarrow> string \<Rightarrow> string \<Rightarrow> 'w \<Rightarrow> (tg_exn + unit) \<times> 'w" where
  "tg_answer_callback t i text w =
     (case tg_call t ''answerCallbackQuery'' (JObj [(''callback_query_id'', JStr i), (''text'', JStr text)]) w of
        (Inl e, w1) \<Rightarrow> (Inl e, w1) | (Inr _, w1) \<Rightarrow> (Inr (), w1))"

text \<open>What the pipeline and the scheduler tell apart.\<close>

definition as_failure :: "tg_exn \<Rightarrow> send_failure" where
  "as_failure e = (case e of Tg_outcome_unknown \<Rightarrow> Send_outcome_unknown
     | Transport_error status b \<Rightarrow> Send_error ''TransportError'' | Tg_raised n \<Rightarrow> Send_error n)"

section \<open>Updates\<close>

datatype incoming =
    In_message run_context string int
  | In_callback run_context string uid string "string option"

text \<open>\<open>(value.get(key) or {})\<close>, an error when that is no dict, and \<open>str(d.get("id", ""))\<close>.\<close>

definition sub_dict :: "json \<Rightarrow> string \<Rightarrow> ((string \<times> json) list) option" where
  "sub_dict j k = (case jget j k of JObj d \<Rightarrow> Some d | v \<Rightarrow> if truthy v then None else Some [])"

definition id_text :: "(json \<Rightarrow> string) \<Rightarrow> (string \<times> json) list \<Rightarrow> string" where
  "id_text f d = (case map_of d ''id'' of None \<Rightarrow> [] | Some v \<Rightarrow> py_str f v)"

definition before_colon :: "string \<Rightarrow> string" where "before_colon s = takeWhile (\<lambda>c. c \<noteq> CHR '':'') s"

definition after_colon :: "string \<Rightarrow> string" where "after_colon s = drop (Suc (length (before_colon s))) s"

definition thread_of :: "json \<Rightarrow> int option" where
  "thread_of m = (case jget m ''message_thread_id'' of JInt i \<Rightarrow> Some i | _ \<Rightarrow> None)"

definition parse_callback ::
  "(json \<Rightarrow> string) \<Rightarrow> household \<Rightarrow> uid \<Rightarrow> json \<Rightarrow> string + incoming option" where
  "parse_callback f h nid callback =
     (case sub_dict callback ''message'' of
        None \<Rightarrow> Inl ''AttributeError''
      | Some message \<Rightarrow>
          (case (sub_dict (JObj message) ''chat'', sub_dict callback ''from'') of
             (Some chat_dict, Some from_dict) \<Rightarrow>
               (let chat = id_text f chat_dict; actor = id_text f from_dict;
                    data = (let v = jget callback ''data'' in if truthy v then py_str f v else []);
                    rest = after_colon data
                in if chat = [] \<or> actor = [] \<or> CHR '':'' \<notin> set data then Inr None
                   else Inr (Some (In_callback
                          (build_run_context h actor chat (thread_of (JObj message)) None nid)
                          (before_colon data) (before_colon rest)
                          (case map_of (case callback of JObj d \<Rightarrow> d | _ \<Rightarrow> []) ''id'' of
                             None \<Rightarrow> [] | Some v \<Rightarrow> py_str f v)
                          (str_or_none (Some (after_colon rest))))))
           | _ \<Rightarrow> Inl ''AttributeError''))"

definition parse_incoming_message ::
  "(json \<Rightarrow> string) \<Rightarrow> household \<Rightarrow> uid \<Rightarrow> json \<Rightarrow> string + incoming option" where
  "parse_incoming_message f h nid message =
     (case (sub_dict message ''chat'', sub_dict message ''from'') of
        (Some chat_dict, Some from_dict) \<Rightarrow>
          (let chat = id_text f chat_dict; actor = id_text f from_dict;
               text = (if truthy (jget message ''text'') then py_str f (jget message ''text'')
                       else if truthy (jget message ''caption'') then py_str f (jget message ''caption'') else [])
           in if chat = [] \<or> actor = [] then Inr None
              else (let c = build_run_context h actor chat (thread_of message) None nid
                    in case map_of (case message of JObj d \<Rightarrow> d | _ \<Rightarrow> []) ''message_id'' of
                         None \<Rightarrow> Inr (Some (In_message c text 0))
                       | Some (JInt i) \<Rightarrow> Inr (Some (In_message c text i))
                       | Some _ \<Rightarrow> Inl ''TypeError''))
      | _ \<Rightarrow> Inl ''AttributeError'')"

definition parse_update :: "(json \<Rightarrow> string) \<Rightarrow> household \<Rightarrow> uid \<Rightarrow> json \<Rightarrow> string + incoming option" where
  "parse_update f h nid u =
     (case jget u ''callback_query'' of
        JObj d \<Rightarrow> parse_callback f h nid (JObj d)
      | _ \<Rightarrow>
          (case (if truthy (jget u ''message'') then jget u ''message'' else jget u ''edited_message'') of
             JObj d \<Rightarrow> parse_incoming_message f h nid (JObj d)
           | _ \<Rightarrow> Inr None))"

section \<open>The fallback\<close>

definition notice_window_seconds :: real where "notice_window_seconds = 3600"

record 'w fallback =
  fb_mail :: "(send_env \<times> 'w backend) option"
  fb_sender :: string
  fb_address :: string
  fb_channel :: string
  fb_sha :: "string \<Rightarrow> string"

definition window_of :: "time \<Rightarrow> int" where "window_of now = \<lfloor>now / notice_window_seconds\<rfloor>"

definition notice_id :: "'w fallback \<Rightarrow> time \<Rightarrow> uid" where
  "notice_id fb now =
     ''primary-unavailable-'' @ take 32 (fb_sha fb (join [CHR 0x1F]
        [''primary-unavailable'', fb_channel fb, int_str (window_of now), fb_address fb, fb_sender fb]))"

definition notice_letter :: "'w fallback \<Rightarrow> outgoing" where
  "notice_letter fb =
     \<lparr>og_to = fb_address fb, og_subject = ''Abrolia: NOT_DELIVERED'',
      og_body = ''COULD_NOT_DELIVER_TO '' @ fb_channel fb @ ''. WAITS_IN_ABROLIA.'',
      og_in_reply_to = None, og_references = None, og_from_identity_id = None, og_binding_revision = None,
      og_from_address = None, og_attachments = []\<rparr>"

text \<open>Whatever the notice raises is logged; the caller hears of the channel's own failure.\<close>

definition refused :: "'w fallback \<Rightarrow> time \<Rightarrow> 'w \<Rightarrow> db \<Rightarrow> 'w \<times> db" where
  "refused fb now w d =
     (case fb_mail fb of
        None \<Rightarrow> (w, d)
      | Some (env, be) \<Rightarrow>
          if fb_address fb = [] then (w, d)
          else snd (send_notice env be (notice_letter fb) (notice_id fb now) w d))"

definition fallback_send ::
  "'w fallback \<Rightarrow> ('w \<Rightarrow> (tg_exn + 'a) \<times> 'w) \<Rightarrow> time \<Rightarrow> 'w \<Rightarrow> db \<Rightarrow> (tg_exn + 'a) \<times> 'w \<times> db" where
  "fallback_send fb inner now w d =
     (case inner w of
        (Inl (Transport_error status True), w1) \<Rightarrow> (Inl (Transport_error status True), refused fb now w1 d)
      | (r, w1) \<Rightarrow> (r, w1, d))"

definition fallback_send_message ::
  "'w fallback \<Rightarrow> 'w telegram \<Rightarrow> string \<Rightarrow> int option \<Rightarrow> string \<Rightarrow> (string \<times> string) list \<Rightarrow> time \<Rightarrow> 'w \<Rightarrow> db \<Rightarrow>
   (tg_exn + string) \<times> 'w \<times> db" where
  "fallback_send_message fb t chat thread text buttons =
     fallback_send fb (tg_send_message t chat thread text buttons)"

definition fallback_send_document ::
  "'w fallback \<Rightarrow> 'w telegram \<Rightarrow> string \<Rightarrow> int option \<Rightarrow> string \<Rightarrow> string \<Rightarrow> string \<Rightarrow> time \<Rightarrow> 'w \<Rightarrow> db \<Rightarrow>
   (tg_exn + string) \<times> 'w \<times> db" where
  "fallback_send_document fb t chat thread filename content caption =
     fallback_send fb (tg_send_document t chat thread filename content caption)"

text \<open>A history of sends, each at its time; the results, and the world and file they leave.\<close>

fun fallback_run ::
  "'w fallback \<Rightarrow> (('w \<Rightarrow> (tg_exn + 'a) \<times> 'w) \<times> time) list \<Rightarrow> 'w \<Rightarrow> db \<Rightarrow> (tg_exn + 'a) list \<times> 'w \<times> db" where
  "fallback_run fb [] w d = ([], w, d)"
| "fallback_run fb ((inner, now) # xs) w d =
     (case fallback_send fb inner now w d of
        (r, w1, d1) \<Rightarrow> (case fallback_run fb xs w1 d1 of (rs, s) \<Rightarrow> (r # rs, s)))"

section \<open>Properties\<close>

text \<open>
  A request that was sent and whose answer never came (the read timed out, the connection was reset) is
  not \<open>URLError\<close>, so it is no unknown outcome: the pipeline takes it for a plain failure, and
  the scheduler for one to repeat.
\<close>

lemma lost_answer_is_not_unknown:
  assumes "tg_http t ''sendMessage'' (tg_dumps t (message_payload chat thread text buttons)) ''application/json'' w =
    (Broken_off ''TimeoutError'', w1)"
  shows "tg_send_message t chat thread text buttons w = (Inl (Tg_raised ''TimeoutError''), w1) \<and>
    as_failure (Tg_raised ''TimeoutError'') \<noteq> Send_outcome_unknown"
  using assms by (simp add: tg_send_message_def tg_call_def answered_def as_failure_def)

lemma handed_notice:
  assumes "email_send env be l appr (Some n) w d = (res, w', d')" "sv_send_store env" "backend_logs handed be" "n \<noteq> []"
  shows "handed w' = handed w \<or> handed w' = handed w @ [message_id_for n]"
proof (cases "prepare env l appr (Some n) d")
  case (Inl e)
  then show ?thesis using assms(1) by (simp add: email_send_def)
next
  case (Inr q)
  have q: "rq_message_id q = message_id_for n"
    using Inr assms(4) by (auto simp: prepare_def str_or_none_def Let_def split: if_splits sum.splits option.splits)
  show ?thesis
    using assms(1,2) Inr q deliver_log [OF assms(3)] replay_frame(1) [OF assms(3)]
    by (fastforce simp: email_send_def split: if_splits prod.splits sum.splits option.splits)
qed

lemma notice_id_ne: "notice_id fb now \<noteq> []" by (simp add: notice_id_def)

text \<open>One refusal hands over at most the notice of its hour, and only if that is a new effect.\<close>

lemma refused_log:
  assumes "refused fb now w d = (w', d')" "journaled handed (w, d)"
    and "\<And>env be. fb_mail fb = Some (env, be) \<Longrightarrow> sv_send_store env \<and> backend_logs handed be"
  shows "journaled handed (w', d') \<and> set (handed w') \<subseteq> insert (message_id_for (notice_id fb now)) (set (handed w))"
proof (cases "fb_mail fb = None \<or> fb_address fb = []")
  case True
  then have "w' = w \<and> d' = d" using assms(1) by (auto simp: refused_def split: option.splits)
  then show ?thesis using assms(2) by auto
next
  case False
  then obtain env be where mail: "fb_mail fb = Some (env, be)" by auto
  note ok = assms(3) [OF mail]
  obtain res where e: "email_send env be (notice_letter fb) notice_approval_id (Some (notice_id fb now)) w d = (res, w', d')"
    using assms(1) False mail by (simp add: refused_def send_notice_def) (metis prod.collapse)
  let ?c = "\<lparr>sl_env = env, sl_backend = be, sl_letter = notice_letter fb, sl_approval = notice_approval_id,
       sl_effect = Some (notice_id fb now)\<rparr>"
  have "journaled handed (send_history [Send ?c] (w, d))"
    by (rule history_journaled [OF _ assms(2)]) (simp add: call_ok_def ok)
  then have j: "journaled handed (w', d')" using e by simp
  have "handed w' = handed w \<or> handed w' = handed w @ [message_id_for (notice_id fb now)]"
    using handed_notice [OF e] ok notice_id_ne by blast
  then show ?thesis using j by auto
qed

lemma fallback_passes_on:
  "fst (fallback_send fb inner now v e) = fst (inner v) \<and>
     ((\<nexists>status. fst (inner v) = Inl (Transport_error status True)) \<longrightarrow> snd (fallback_send fb inner now v e) = (snd (inner v), e))"
  by (auto simp: fallback_send_def split: prod.splits sum.splits tg_exn.splits bool.splits)

lemma fallback_send_log:
  assumes "fallback_send fb inner now w d = (r, w', d')" "journaled handed (w, d)"
    and "\<And>env be. fb_mail fb = Some (env, be) \<Longrightarrow> sv_send_store env \<and> backend_logs handed be"
    and "\<And>w. handed (snd (inner w)) = handed w"
  shows "journaled handed (w', d') \<and> r = fst (inner w) \<and>
    set (handed w') \<subseteq> insert (message_id_for (notice_id fb now)) (set (handed w)) \<and>
    ((\<nexists>status. r = Inl (Transport_error status True)) \<longrightarrow> w' = snd (inner w) \<and> d' = d)"
proof -
  obtain r0 w1 where i: "inner w = (r0, w1)" by fastforce
  have h: "handed w1 = handed w" using assms(4) [of w] i by simp
  then have j: "journaled handed (w1, d)" using assms(2) by (simp add: journaled_def)
  show ?thesis
  proof (cases "\<exists>status. r0 = Inl (Transport_error status True)")
    case True
    then have "refused fb now w1 d = (w', d')" "r = r0" using assms(1) i by (auto simp: fallback_send_def)
    then show ?thesis using refused_log [OF _ j assms(3)] i h True by fastforce
  next
    case False
    then have "r = r0 \<and> w' = w1 \<and> d' = d"
      using assms(1) i by (auto simp: fallback_send_def split: sum.splits tg_exn.splits bool.splits)
    then show ?thesis using j i h by auto
  qed
qed

text \<open>
  One letter for an hour of refusals.  Whatever is sent, in any order and at any times, the
  caller of each send gets the channel's own answer; letters leave only on a refusal the channel
  meant, at most one for each hour of the history, under an id that does not depend on what
  was to be said.
\<close>

theorem one_notice_per_hour:
  assumes "fallback_run fb xs w d = (rs, w', d')" "handed w = []" "receipts_match d"
    and "\<And>env be. fb_mail fb = Some (env, be) \<Longrightarrow> sv_send_store env \<and> backend_logs handed be"
    and "\<And>inner now w. (inner, now) \<in> set xs \<Longrightarrow> handed (snd (inner w)) = handed w"
  shows "length (handed w') \<le> card (window_of ` snd ` set xs) \<and>
    set (handed w') \<subseteq> (\<lambda>x. message_id_for (notice_id fb (snd x))) ` set xs \<and>
    fst (fallback_send fb one t v e) = fst (one v) \<and>
    ((\<nexists>status. fst (one v) = Inl (Transport_error status True)) \<longrightarrow> snd (fallback_send fb one t v e) = (snd (one v), e))"
proof -
  have run: "journaled handed (w', d') \<and>
      set (handed w') \<subseteq> set (handed w) \<union> (\<lambda>x. message_id_for (notice_id fb (snd x))) ` set xs"
    if "fallback_run fb xs w d = (rs, w', d')" "journaled handed (w, d)"
      "\<And>inner now w. (inner, now) \<in> set xs \<Longrightarrow> handed (snd (inner w)) = handed w" for xs w d rs
    using that
  proof (induction xs arbitrary: w d rs)
    case (Cons x xs)
    obtain inner now where x: "x = (inner, now)" by fastforce
    obtain r w1 d1 where s: "fallback_send fb inner now w d = (r, w1, d1)" using prod_cases3 by blast
    obtain rs1 where rest: "fallback_run fb xs w1 d1 = (rs1, w', d')"
      using Cons.prems(1) x s by (auto split: prod.splits)
    have inn: "handed (snd (inner v)) = handed v" for v using Cons.prems(3) [of inner now] x by simp
    note one = fallback_send_log [OF s Cons.prems(2) assms(4) inn]
    from Cons.IH [OF rest] one Cons.prems(3) have "journaled handed (w', d')"
      "set (handed w') \<subseteq> set (handed w1) \<union> (\<lambda>x. message_id_for (notice_id fb (snd x))) ` set xs" by auto
    then show ?case using one x by auto
  qed simp
  have "journaled handed (w, d)" using assms(2,3) by (simp add: journaled_def)
  with run [OF assms(1)] assms(5) have "journaled handed (w', d') \<and>
      set (handed w') \<subseteq> set (handed w) \<union> (\<lambda>x. message_id_for (notice_id fb (snd x))) ` set xs" by blast
  then have j: "distinct (handed w')"
    "set (handed w') \<subseteq> (\<lambda>x. message_id_for (notice_id fb (snd x))) ` set xs"
    using assms(2) by (auto simp: journaled_def)
  let ?id = "\<lambda>k. message_id_for (notice_id fb (of_int k * notice_window_seconds))"
  have "window_of (of_int (window_of t) * notice_window_seconds) = window_of t" for t
    by (simp add: window_of_def notice_window_seconds_def)
  then have "notice_id fb t = notice_id fb (of_int (window_of t) * notice_window_seconds)" for t
    by (simp add: notice_id_def)
  then have "(\<lambda>x. message_id_for (notice_id fb (snd x))) ` set xs = ?id ` window_of ` snd ` set xs"
    by (simp add: image_image)
  then have "set (handed w') \<subseteq> ?id ` window_of ` snd ` set xs" using j(2) by simp
  then have "card (set (handed w')) \<le> card (window_of ` snd ` set xs)"
    by (meson card_image_le card_mono finite_imageI finite_set order_trans)
  then show ?thesis using j distinct_card [OF j(1)] fallback_passes_on [of fb one t v e] by auto
qed

section \<open>Witnesses\<close>

definition refusing :: "string list \<Rightarrow> (tg_exn + unit) \<times> string list" where
  "refusing w = (Inl (Transport_error (Some 403) True), w)"

definition sample_fallback :: "string list fallback" where
  "sample_fallback = \<lparr>fb_mail = Some (sample_send_env, sample_backend), fb_sender = [], fb_address = ''family@home.org'',
     fb_channel = ''telegram'', fb_sha = (\<lambda>s. s)\<rparr>"

theorem one_notice_per_hour_witness:
  "length (fst (snd (fallback_run sample_fallback [(refusing, 10), (refusing, 20)] [] empty_db))) \<le> 1"
proof -
  obtain rs w' d' where run: "fallback_run sample_fallback [(refusing, 10), (refusing, 20)] [] empty_db = (rs, w', d')"
    using prod_cases3 by blast
  have "window_of ` snd ` set [(refusing, 10), (refusing, 20 :: time)] = {0}"
    by (auto simp: window_of_def notice_window_seconds_def)
  moreover have mail: "sv_send_store env \<and> backend_logs (\<lambda>w. w) be" if "fb_mail sample_fallback = Some (env, be)" for env be
    using that by (auto simp: sample_fallback_def sample_send_env_def sample_backend_def backend_logs_def)
  moreover have quiet: "snd (inner w) = w" if "(inner, now) \<in> set [(refusing, 10), (refusing, 20 :: time)]" for inner now w
    using that by (auto simp: refusing_def)
  ultimately have "length w' \<le> card {0 :: int}"
    using conjunct1 [OF one_notice_per_hour [where handed = "\<lambda>w. w" and w = "[]" and d = empty_db, OF run refl]]
    by (simp add: receipts_match_def)
  then show ?thesis using run by simp
qed

end
