(* ===== verification/Intake.thy ===== *)
theory Intake
  imports Pipeline Evidence Matching ToolLoop Eml WhatsAppIn Channels
begin

text \<open>
  \<open>hermes_cloud/runner/pipeline.py\<close> (\<open>handle_event\<close>, \<open>handle_update\<close> and
  their helpers) and \<open>hermes_cloud/channels/web.py\<close>: everything before the yes.  A letter
  becomes a run, a reference, a candidate and a staged card; a message becomes a turn of the tool
  loop.  The model client, the channel and the clock are parameters; the clock is read from the
  world, once for each step.
\<close>

section \<open>The facts of a letter\<close>

definition fact_payload :: "extraction_result \<Rightarrow> json" where
  "fact_payload r =
     JObj [(''kind'', JStr (kind_text (xr_kind r))), (''title'', JStr (xr_title r)),
       (''summary'', JStr (xr_summary r)),
       (''start'', opt_json (map_option isoformat (xr_event_start r))),
       (''end'', opt_json (map_option isoformat (xr_event_end r))),
       (''due_date'', opt_json (map_option date_text (xr_due_date r))),
       (''amount_cents'', case xr_amount r of None \<Rightarrow> JNull | Some m \<Rightarrow> JInt (mo_amount_cents m)),
       (''currency'', opt_json (map_option mo_currency (xr_amount r))),
       (''location'', opt_json (xr_location r)), (''responsible'', opt_json (xr_responsible r))]"

text \<open>\<open>divmod(cents, 100)\<close> and \<open>{minor:02d}\<close>; \<open>strftime\<close> of a day.\<close>

definition amount_needles :: "money \<Rightarrow> string list" where
  "amount_needles m =
     (let major = int_str (mo_amount_cents m div 100); minor = pad2 (nat (mo_amount_cents m mod 100))
      in [major @ '','' @ minor, major @ ''.'' @ minor, major])"

definition date_needles :: "date \<Rightarrow> string list" where
  "date_needles dt =
     [format_date dt, (case dt of (y, m, d) \<Rightarrow> pad2 d @ ''.'' @ pad2 m @ ''.''), date_text dt]"

definition evidence_needles :: "extraction_result \<Rightarrow> string list" where
  "evidence_needles r =
     (case xr_amount r of None \<Rightarrow> [] | Some m \<Rightarrow> amount_needles m) @
     (case xr_due_date r of None \<Rightarrow> [] | Some d \<Rightarrow> date_needles d) @
     (case xr_event_start r of None \<Rightarrow> [] | Some t \<Rightarrow> date_needles (date_of t)) @
     (case str_or_none (xr_location r) of None \<Rightarrow> [] | Some l \<Rightarrow> [l])"

section \<open>The assembled intake\<close>

record 'w intake =
  in_pipe :: "'w pipe"
  in_chat :: string
  in_thread :: "int option"
  in_actor :: string
  in_household :: "household option"
  in_cap :: real
  in_loop :: "'w tool_loop option"
  in_eml :: eml_env
  in_wa :: wa_env
  in_model :: string
  in_prompt :: string
  in_create :: "string \<Rightarrow> 'w \<Rightarrow> (string + response) \<times> 'w"
  in_now :: "'w \<Rightarrow> time"
  in_day :: "'w \<Rightarrow> string"
  in_local :: "datetime \<Rightarrow> time"
  in_str :: "json \<Rightarrow> string"
  in_answer :: "string \<Rightarrow> 'w \<Rightarrow> (send_failure + unit) \<times> 'w"

type_synonym 'w handling = "(pipe_exn + handled) \<times> 'w \<times> db"

definition degraded_message :: string where "degraded_message = ''DEGRADED_MESSAGE''"

definition nothing_done :: handled where
  "nothing_done = \<lparr>hd_approval_id = None, hd_executed = None, hd_message = None\<rparr>"

text \<open>\<open>moment.timestamp()\<close>; a moment without a zone is read in the zone of the machine.\<close>

definition timestamp_of :: "(datetime \<Rightarrow> time) \<Rightarrow> datetime \<Rightarrow> time" where
  "timestamp_of local t =
     (case dt_offset t of None \<Rightarrow> local t
      | Some off \<Rightarrow> of_int (to_micros t - (off + 719163 * 86400) * 1000000) / 1000000)"

definition household_name :: "'w intake \<Rightarrow> string" where
  "household_name i = (case in_household i of None \<Rightarrow> ''household'' | Some h \<Rightarrow> hh_id h)"

definition send_card :: "'w intake \<Rightarrow> string \<Rightarrow> card \<Rightarrow> handled \<Rightarrow> 'w \<Rightarrow> db \<Rightarrow> 'w handling" where
  "send_card i text c h w d =
     (case pp_send (in_pipe i) (in_chat i) (in_thread i) text
             (map (\<lambda>b. (bt_label b, callback_data b)) (cd_buttons c)) w of
        (Inl f, w1) \<Rightarrow> (Inl (channel_exn f), w1, d)
      | (Inr _, w1) \<Rightarrow> (Inr h, w1, d))"

section \<open>A letter\<close>

definition letter_sender :: "parsed \<Rightarrow> string" where
  "letter_sender p = (case pe_original_sender p of Some s \<Rightarrow> os_email s | None \<Rightarrow> pe_from_email p)"

text \<open>\<open>record_run\<close> and \<open>add_ref\<close>, which both ways of handling a letter begin with.\<close>

definition file_evidence ::
  "'w intake \<Rightarrow> event \<Rightarrow> parsed \<Rightarrow> string \<Rightarrow> string \<Rightarrow> nat \<Rightarrow> nat \<Rightarrow> string list \<Rightarrow> time \<Rightarrow> db \<Rightarrow>
   extraction_run \<times> evidence_ref option \<times> db" where
  "file_evidence i ev p model psha inp out needles now d =
     (let uuid = pp_uuid (in_pipe i);
          (run, d1) = record_run (uuid d) (Some (ev_id ev)) model psha inp out now d;
          (ref, d2) = add_ref (pp_hash (in_pipe i)) (uuid d1) (er_id run) (Some (ev_id ev)) (pe_text p)
            (Some (letter_sender p)) (pe_date p) needles now d1
      in (run, ref, d2))"

definition stage_bundle ::
  "'w intake \<Rightarrow> event \<Rightarrow> string \<Rightarrow> json \<Rightarrow> string \<Rightarrow> time \<Rightarrow> db \<Rightarrow> (uid \<times> string \<times> time) \<times> db" where
  "stage_bundle i ev kind payload actor now d =
     stage (pp_hash (in_pipe i)) (pp_frepr (in_pipe i)) (pp_uuid (in_pipe i) d) (pp_code (in_pipe i) d)
       kind payload (in_chat i) actor (in_thread i) (ev_context_key ev) (Some (ev_id ev)) ttl_seconds now d"

definition degraded_text :: "parsed \<Rightarrow> string" where
  "degraded_text p =
     (let snippet = take 800 (py_strip (if pe_text p \<noteq> [] then pe_text p else pe_subject p))
      in if snippet = [] then degraded_message else degraded_message @ nl @ nl @ snippet)"

definition degraded_letter :: "'w intake \<Rightarrow> event \<Rightarrow> parsed \<Rightarrow> 'w \<Rightarrow> db \<Rightarrow> 'w handling" where
  "degraded_letter i ev p w d =
     (let now = in_now i w; text = degraded_text p;
          (run, ref, d1) = file_evidence i ev p ''degraded-no-model''
            (content_sha (pp_hash (in_pipe i)) ''degraded'') 0 0 [] now d;
          fact = JObj [(''kind'', JStr ''info''),
            (''title'', JStr (if pe_subject p = [] then ''LETTER'' else pe_subject p)),
            (''summary'', JStr (take 500 text))]
      in case commitment_propose (pp_uuid (in_pipe i) d1) ''info'' fact (Some (er_id run)) (Some 0) None None now d1 of
           (Inr (Some c), d2) \<Rightarrow>
             (let ((nid, code, exp), d3) = stage_bundle i ev kind_bundle
                    (JObj [(''kind'', JStr kind_bundle), (''items'', JArr []), (''header'', JStr text),
                           (''commitment_id'', JStr (co_id c))]) (in_actor i) now d2
              in case render_bundle None [] (Some nid) (Some code) None (Some text) of
                   None \<Rightarrow> (Inl (Px_error ''card''), w, d3)
                 | Some crd \<Rightarrow> send_card i text crd (said (Some nid) text) w d3)
         | (_, d2) \<Rightarrow> (Inl (Px_error ''commitment''), w, d2))"

text \<open>
  The match: the fact that is replaced, the its and the header; \<open>None\<close> is an exception of
  \<open>update_lines\<close>.
\<close>

definition match_letter ::
  "'w intake \<Rightarrow> extraction_result \<Rightarrow> evidence_ref \<Rightarrow> string \<Rightarrow> item list \<Rightarrow> db \<Rightarrow>
   (commitment option \<times> item list \<times> string) option" where
  "match_letter i r ref source its d =
     (let header = join nl (header_lines r (Some source))
      in case find_match (kind_text (xr_kind r)) (xr_title r) (rf_sender_domain ref) 50 d of
           None \<Rightarrow> Some (None, its, header)
         | Some m \<Rightarrow>
             (let c = fm_commitment m
              in if match_sure m then
                   map_option (\<lambda>ls. (Some c, reconcile_items its (co_reminder_id c), join nl ([header, []] @ ls)))
                     (update_lines (in_str i) (co_payload c) (fact_payload r))
                 else if match_maybe m then
                   Some (None, its, join nl [header, [],
                     ''MAYBE_THE_SAME_AS <'' @ py_str (in_str i) (jget (co_payload c) ''title'') @ ''>''])
                 else Some (None, its, header)))"

definition stage_letter ::
  "'w intake \<Rightarrow> event \<Rightarrow> extraction_result \<Rightarrow> extraction_run \<Rightarrow> commitment option \<Rightarrow> item list \<Rightarrow> string \<Rightarrow> time \<Rightarrow>
   'w \<Rightarrow> db \<Rightarrow> 'w handling" where
  "stage_letter i ev r run prv its header now w d =
     (case render_bundle (Some r) its None None None (Some header) of
        None \<Rightarrow> (Inl (Px_error ''card''), w, d)
      | Some preview \<Rightarrow>
          (case commitment_propose (pp_uuid (in_pipe i) d) (kind_text (xr_kind r)) (fact_payload r)
                  (Some (er_id run)) (Some (xr_confidence r))
                  (map_option (timestamp_of (in_local i)) (xr_event_start r)) (map_option co_id prv) now d of
             (Inr (Some c), d1) \<Rightarrow>
               (let proposal = (case cd_proposal preview of None \<Rightarrow> JNull | Some j \<Rightarrow> j);
                    ((nid, code, exp), d2) = stage_bundle i ev (jtext proposal ''kind'')
                      (jset proposal ''commitment_id'' (JStr (co_id c))) (in_actor i) now d1
                in case render_bundle (Some r) its (Some nid) (Some code) None (Some header) of
                     None \<Rightarrow> (Inl (Px_error ''card''), w, d2)
                   | Some crd \<Rightarrow> send_card i (cd_text crd) crd (said (Some nid) (cd_text crd)) w d2)
           | (_, d1) \<Rightarrow> (Inl (Px_error ''commitment''), w, d1)))"

definition propose_letter :: "'w intake \<Rightarrow> event \<Rightarrow> parsed \<Rightarrow> extraction \<Rightarrow> 'w \<Rightarrow> db \<Rightarrow> 'w handling" where
  "propose_letter i ev p x w d =
     (let now = in_now i w; r = xt_result x; sha = pp_hash (in_pipe i);
          (run, found, d1) = file_evidence i ev p (xt_model x) (content_sha sha (in_prompt i))
            (nat (xt_input_tokens x)) (nat (xt_output_tokens x)) (evidence_needles r) now d
      in case found of
           None \<Rightarrow> (Inl (Px_error ''reference''), w, d1)
         | Some ref \<Rightarrow>
             (let source = render_source sha (\<lambda>raw. pe_text (parse_eml (in_eml i) raw)) ref d1;
                  its = items_for r (pp_calendar (in_pipe i) \<noteq> None)
              in if its = [] then
                   (let text = cd_text (render_info r (Some source))
                    in tell (in_pipe i) (in_chat i) (in_thread i) text (said None text) w d1)
                 else case match_letter i r ref source its d1 of
                     None \<Rightarrow> (Inl (Px_error ''update''), w, d1)
                   | Some (prv, its2, header) \<Rightarrow> stage_letter i ev r run prv its2 header now w d1))"

definition user_content :: "parsed \<Rightarrow> string" where
  "user_content p =
     build_user_content (pe_subject p) (pe_text p) (pe_from_email p) (pe_date p)
       (map_option original_sender.truncate (pe_original_sender p))
       (map mail_attachment.truncate (pe_attachments p))"

text \<open>The budget, the one call of the model, the usage it is charged to, the proposal.\<close>

definition handle_letter :: "'w intake \<Rightarrow> event \<Rightarrow> 'w \<Rightarrow> db \<Rightarrow> 'w handling" where
  "handle_letter i ev w d =
     (let p = parse_eml (in_eml i) (ev_raw ev); day = in_day i w
      in if usage_over_budget (household_name i) day (in_cap i) d then degraded_letter i ev p w d
         else case in_create i (user_content p) w of
             (Inl e, w1) \<Rightarrow> (Inl (Px_error e), w1, d)
           | (Inr resp, w1) \<Rightarrow>
               (case extract_text (in_model i) (\<lambda>_. resp) (user_content p) of
                  Inl _ \<Rightarrow> (Inl (Px_error ''ExtractionRefused''), w1, d)
                | Inr x \<Rightarrow>
                    propose_letter i ev p x w1
                      (snd (usage_record (household_name i) day (xt_input_tokens x) (xt_output_tokens x)
                         (xt_cache_read_tokens x) (in_now i w1) d))))"

section \<open>A message\<close>

definition guard_of :: "'w intake \<Rightarrow> run_context \<Rightarrow> 'w \<Rightarrow> cost_guard" where
  "guard_of i c w = \<lparr>cg_household = rc_household_id c, cg_day = in_day i w, cg_cap = in_cap i\<rparr>"

definition whatsapp_reply :: "run_context \<Rightarrow> string \<Rightarrow> json" where
  "whatsapp_reply c text =
     bundle_payload [\<lparr>it_payload = [(''kind'', JStr kind_whatsapp), (''to'', JStr (rc_actor_id c)), (''text'', JStr text)],
       it_enabled = True\<rparr>] (''WHATSAPP_REPLY_FOR '' @ rc_actor_id c)"

definition handle_whatsapp_dialogue :: "'w intake \<Rightarrow> event \<Rightarrow> run_context \<Rightarrow> 'w \<Rightarrow> db \<Rightarrow> 'w handling" where
  "handle_whatsapp_dialogue i ev c w d =
     (let p = parse_eml (in_eml i) (ev_raw ev)
      in case in_loop i of
           None \<Rightarrow> (Inr nothing_done, w, d)
         | Some lp \<Rightarrow>
             if py_strip (pe_text p) = [] then (Inr nothing_done, w, d)
             else if usage_over_budget (rc_household_id c) (in_day i w) (in_cap i) d then
               tell (in_pipe i) (in_chat i) (in_thread i) degraded_message (said None degraded_message) w d
             else case loop_run lp c (pe_text p) [] (Some (guard_of i c w)) w d of
                 (Inl e, w1, d1) \<Rightarrow> (Inl (Px_error ''journal''), w1, d1)
               | (Inr answer, w1, d1) \<Rightarrow>
                   (let payload = whatsapp_reply c (lr_text answer);
                        ((nid, code, exp), d2) = stage_bundle i ev kind_bundle payload (rc_actor_id c) (in_now i w1) d1
                    in case render_bundle None (items_of payload) (Some nid) (Some code) None
                              (Some (jtext payload ''header'')) of
                         None \<Rightarrow> (Inl (Px_error ''card''), w1, d2)
                       | Some crd \<Rightarrow> send_card i (cd_text crd) crd (said (Some nid) (cd_text crd)) w1 d2))"

definition handle_event :: "'w intake \<Rightarrow> event \<Rightarrow> 'w \<Rightarrow> db \<Rightarrow> 'w handling" where
  "handle_event i ev w d =
     (case (ev_source ev = ''whatsapp'', in_household i) of
        (True, Some h) \<Rightarrow>
          (case trusted_run_context (in_wa i) (ev_raw ev) h (pp_uuid (in_pipe i) d) of
             Inl e \<Rightarrow> (Inl (Px_error ''WhatsAppWebhookRejected''), w, d)
           | Inr c \<Rightarrow> if is_known c then handle_whatsapp_dialogue i ev c w d else handle_letter i ev w d)
      | _ \<Rightarrow> handle_letter i ev w d)"

definition dialogue_turn :: "'w intake \<Rightarrow> run_context \<Rightarrow> string \<Rightarrow> 'w \<Rightarrow> db \<Rightarrow> (pipe_exn + handled option) \<times> 'w \<times> db" where
  "dialogue_turn i c text w d =
     (let say = (\<lambda>t w d. case tell (in_pipe i) (rc_chat_id c) (rc_thread_id c) t (said None t) w d of
            (Inl x, w1, d1) \<Rightarrow> (Inl x, w1, d1) | (Inr h, w1, d1) \<Rightarrow> (Inr (Some h), w1, d1))
      in if \<not> is_known c then say text_unknown_actor w d
         else case in_loop i of
             None \<Rightarrow> (Inr None, w, d)
           | Some lp \<Rightarrow>
               if py_strip text = [] then (Inr None, w, d)
               else if usage_over_budget (rc_household_id c) (in_day i w) (in_cap i) d then say degraded_message w d
               else case loop_run lp c text [] (Some (guard_of i c w)) w d of
                   (Inl e, w1, d1) \<Rightarrow> (Inl (Px_error ''journal''), w1, d1)
                 | (Inr answer, w1, d1) \<Rightarrow> say (lr_text answer) w1 d1)"

definition handle_update :: "'w intake \<Rightarrow> json \<Rightarrow> household \<Rightarrow> 'w \<Rightarrow> db \<Rightarrow> (pipe_exn + handled option) \<times> 'w \<times> db" where
  "handle_update i update h w d =
     (case parse_update (in_str i) h (pp_uuid (in_pipe i) d) update of
        Inl e \<Rightarrow> (Inl (Px_error e), w, d)
      | Inr None \<Rightarrow> (Inr None, w, d)
      | Inr (Some (In_callback c action aid cb arg)) \<Rightarrow>
          (case handle_callback (in_pipe i) action aid c arg (in_now i w) w d of
             (Inl x, w1, d1) \<Rightarrow> (Inl x, w1, d1)
           | (Inr hnd, w1, d1) \<Rightarrow>
               if cb = [] then (Inr (Some hnd), w1, d1)
               else case in_answer i cb w1 of
                   (Inl f, w2) \<Rightarrow> (Inl (channel_exn f), w2, d1)
                 | (Inr _, w2) \<Rightarrow> (Inr (Some hnd), w2, d1))
      | Inr (Some (In_message c text _)) \<Rightarrow> dialogue_turn i c text w d)"

text \<open>
  The chat of the web page; \<open>capped\<close> says whether the usage store was given.  The pipeline
  has no \<open>handle_web_event\<close>, so without a loop the text is echoed.
\<close>

definition handle_web_message ::
  "'w tool_loop option \<Rightarrow> bool \<Rightarrow> real \<Rightarrow> string \<Rightarrow> run_context \<Rightarrow> string \<Rightarrow> 'w \<Rightarrow> db \<Rightarrow>
   (journal_error + string) \<times> 'w \<times> db" where
  "handle_web_message lp capped cap day c text w d =
     (if \<not> is_known c then (Inr ''UNKNOWN_ACTOR'', w, d)
      else case lp of
          None \<Rightarrow> (Inr (''Web: '' @ take 500 text), w, d)
        | Some l \<Rightarrow>
            if capped \<and> usage_over_budget (rc_household_id c) day cap d then (Inr degraded_message, w, d)
            else case loop_run l c text []
                   (if capped then Some \<lparr>cg_household = rc_household_id c, cg_day = day, cg_cap = cap\<rparr> else None) w d of
                (Inl e, w1, d1) \<Rightarrow> (Inl e, w1, d1)
              | (Inr a, w1, d1) \<Rightarrow> (Inr (lr_text a), w1, d1))"

section \<open>What an event can change\<close>

definition fact_step :: "commitment list \<Rightarrow> commitment list \<Rightarrow> bool" where
  "fact_step old new \<longleftrightarrow> new = old \<or> (\<exists>prv t c. co_status c = Candidate \<and>
     new = tbl_update (\<lambda>c. prv = Some (co_id c)) (\<lambda>c. c\<lparr>co_status := Superseded, co_updated_at := t\<rparr>) old @ [c])"

text \<open>Proposals, candidates, evidence, usage and the journal of the turn \<open>run\<close>, nothing else.\<close>

definition prepares :: "uid \<Rightarrow> db \<Rightarrow> db \<Rightarrow> bool" where
  "prepares run d d' \<longleftrightarrow> (\<exists>new mem runs refs cs eff us fw.
     d' = d\<lparr>t_approvals := t_approvals d @ new, t_memory := t_memory d @ mem, t_runs := t_runs d @ runs,
             t_refs := t_refs d @ refs, t_commitments := cs, t_effects := eff, t_usage := us, t_forwarding := fw\<rparr> \<and>
     (\<forall>a \<in> set new. ap_status a = Ap_staged) \<and> (\<forall>m \<in> set mem. me_status m = Candidate) \<and>
     fact_step (t_commitments d) cs \<and>
     filter (\<lambda>e. ef_run_id e \<noteq> run) eff = filter (\<lambda>e. ef_run_id e \<noteq> run) (t_effects d) \<and>
     map fw_core fw = map fw_core (t_forwarding d))"

lemma preparesI:
  assumes "d' = d\<lparr>t_approvals := t_approvals d @ new, t_memory := t_memory d @ mem, t_runs := t_runs d @ runs,
      t_refs := t_refs d @ refs, t_commitments := cs, t_effects := eff, t_usage := us, t_forwarding := fw\<rparr>"
    "\<forall>a \<in> set new. ap_status a = Ap_staged" "\<forall>m \<in> set mem. me_status m = Candidate"
    "fact_step (t_commitments d) cs" "map fw_core fw = map fw_core (t_forwarding d)"
    "filter (\<lambda>e. ef_run_id e \<noteq> run) eff = filter (\<lambda>e. ef_run_id e \<noteq> run) (t_effects d)"
  shows "prepares run d d'"
  unfolding prepares_def using assms by blast

lemma prepares_trans:
  assumes "prepares run d d1" "prepares run d1 d2" "t_commitments d1 = t_commitments d \<or> t_commitments d2 = t_commitments d1"
  shows "prepares run d d2"
proof -
  obtain n m r s cs e u f where 1:
    "d1 = d\<lparr>t_approvals := t_approvals d @ n, t_memory := t_memory d @ m, t_runs := t_runs d @ r,
      t_refs := t_refs d @ s, t_commitments := cs, t_effects := e, t_usage := u, t_forwarding := f\<rparr>"
    "\<forall>a \<in> set n. ap_status a = Ap_staged" "\<forall>m \<in> set m. me_status m = Candidate" "fact_step (t_commitments d) cs"
    "filter (\<lambda>e. ef_run_id e \<noteq> run) e = filter (\<lambda>e. ef_run_id e \<noteq> run) (t_effects d)"
    "map fw_core f = map fw_core (t_forwarding d)"
    using assms(1) unfolding prepares_def by blast
  obtain n' m' r' s' cs' e' u' f' where 2:
    "d2 = d1\<lparr>t_approvals := t_approvals d1 @ n', t_memory := t_memory d1 @ m', t_runs := t_runs d1 @ r',
      t_refs := t_refs d1 @ s', t_commitments := cs', t_effects := e', t_usage := u', t_forwarding := f'\<rparr>"
    "\<forall>a \<in> set n'. ap_status a = Ap_staged" "\<forall>m \<in> set m'. me_status m = Candidate" "fact_step (t_commitments d1) cs'"
    "filter (\<lambda>e. ef_run_id e \<noteq> run) e' = filter (\<lambda>e. ef_run_id e \<noteq> run) (t_effects d1)"
    "map fw_core f' = map fw_core (t_forwarding d1)"
    using assms(2) unfolding prepares_def by blast
  have cs: "fact_step (t_commitments d) cs'" using assms(3) 1(1,4) 2(1,4) by auto
  show ?thesis
  proof (rule preparesI [where new = "n @ n'" and mem = "m @ m'" and runs = "r @ r'" and refs = "s @ s'" and cs = cs' and eff = e' and us = u' and fw = f'])
    show "d2 = d\<lparr>t_approvals := t_approvals d @ n @ n', t_memory := t_memory d @ m @ m', t_runs := t_runs d @ r @ r',
      t_refs := t_refs d @ s @ s', t_commitments := cs', t_effects := e', t_usage := u', t_forwarding := f'\<rparr>"
      by (simp add: 1(1) 2(1))
  qed (use 1 2 cs in auto)
qed

lemma prepares_refl [simp]: "prepares run d d"
  by (rule preparesI [where new = "[]" and mem = "[]" and runs = "[]" and refs = "[]" and cs = "t_commitments d" and eff = "t_effects d" and us = "t_usage d" and fw = "t_forwarding d"])
    (simp_all add: fact_step_def)

lemma prepares_evidence:
  assumes "file_evidence i ev p model psha inp out needles now d = (run, ref, d1)"
  shows "prepares k d d1 \<and> t_commitments d1 = t_commitments d"
proof -
  obtain a b where "d1 = d\<lparr>t_runs := t_runs d @ [a], t_refs := t_refs d @ [b]\<rparr>"
    using assms by (auto simp: file_evidence_def record_run_def add_ref_def Let_def)
  then show ?thesis
    by (intro conjI preparesI [where new = "[]" and mem = "[]" and runs = "[a]" and refs = "[b]" and cs = "t_commitments d" and eff = "t_effects d" and us = "t_usage d" and fw = "t_forwarding d"])
      (simp_all add: fact_step_def)
qed

lemma stage_bundle_row:
  assumes "stage_bundle i ev kind payload actor now d = ((nid, code, expiry), d1)"
  obtains a where "d1 = d\<lparr>t_approvals := t_approvals d @ [a]\<rparr>" "ap_id a = nid" "ap_status a = Ap_staged"
    "ap_payload a = payload" "ap_chat a = in_chat i" "ap_thread a = in_thread i" "ap_actor a = actor"
    "ap_kind a = kind" "ap_code_sha a = pp_hash (in_pipe i) code" "ap_event_id a = Some (ev_id ev)"
    "ap_expires_at a = now + ttl_seconds"
  using assms by (auto simp: stage_bundle_def stage_def Let_def)

lemma prepares_stage:
  assumes "stage_bundle i ev kind payload actor now d = ((nid, code, expiry), d1)"
  shows "prepares k d d1 \<and> t_commitments d1 = t_commitments d"
proof -
  obtain a where a: "d1 = d\<lparr>t_approvals := t_approvals d @ [a]\<rparr>" "ap_status a = Ap_staged"
    by (rule stage_bundle_row [OF assms])
  then show ?thesis
    by (intro conjI preparesI [where new = "[a]" and mem = "[]" and runs = "[]" and refs = "[]" and cs = "t_commitments d" and eff = "t_effects d" and us = "t_usage d" and fw = "t_forwarding d"])
      (simp_all add: fact_step_def)
qed

lemma prepares_candidate:
  assumes "commitment_propose nid k p run conf obs prv now d = (res, d1)"
  shows "prepares j d d1"
proof (cases rule: propose_cases [of prv d nid k p run conf obs now])
  case (new x)
  let ?cs = "tbl_update (\<lambda>c. prv = Some (co_id c)) (\<lambda>c. c\<lparr>co_status := Superseded, co_updated_at := now\<rparr>) (t_commitments d) @
      [new_commitment nid k p run conf obs prv now]"
  have "fact_step (t_commitments d) ?cs"
    unfolding fact_step_def by (intro disjI2 exI conjI) (simp_all add: new_commitment_def)
  then show ?thesis using new(1) assms
    by (intro preparesI [where new = "[]" and mem = "[]" and runs = "[]" and refs = "[]" and cs = ?cs and eff = "t_effects d" and us = "t_usage d" and fw = "t_forwarding d"]) simp_all
qed (use assms in simp)

lemma prepares_usage: "prepares k d (d\<lparr>t_usage := us\<rparr>)"
  by (rule preparesI [where new = "[]" and mem = "[]" and runs = "[]" and refs = "[]" and cs = "t_commitments d" and eff = "t_effects d" and us = us and fw = "t_forwarding d"])
    (simp_all add: fact_step_def)

lemma usage_record_only: "\<exists>us. snd (usage_record hh day p c k now d) = d\<lparr>t_usage := us\<rparr>"
  by (auto simp: usage_record_def Let_def split: option.splits)

lemma prepares_turn:
  assumes "fresh_effect_ids (lp_services lp)" "loop_run lp c text hist g w d = (res, w1, d1)"
  shows "prepares (rc_run_id c) d d1 \<and> t_commitments d1 = t_commitments d"
proof -
  have "turn_effect c d d1"
    using turn_loop_effect [OF assms(1), of c d "coalesce g (lp_cost_guard lp)" "lp_clock lp w"
        "lp_max_iterations lp" "hist @ [User_text text]" empty_result w] assms(2)
    by (cases "has_tools c") (simp_all add: loop_run_def turn_effect_refl)
  then obtain eff us new mem fw where e: "d1 = d\<lparr>t_effects := eff, t_usage := us,
        t_approvals := t_approvals d @ new, t_memory := t_memory d @ mem, t_forwarding := fw\<rparr>"
      "\<forall>a \<in> set new. ap_status a = Ap_staged" "\<forall>m \<in> set mem. me_status m = Candidate"
      "map fw_core fw = map fw_core (t_forwarding d)"
      "filter (other_run c) eff = filter (other_run c) (t_effects d)"
    unfolding turn_effect_def only_proposes_def by auto
  then show ?thesis
    by (intro conjI preparesI [where new = new and mem = mem and runs = "[]" and refs = "[]" and cs = "t_commitments d" and eff = eff and us = us and fw = fw])
      (simp_all add: fact_step_def other_run_def [abs_def])
qed

lemma send_card_db: "send_card i t c h w d = (r, w', d') \<Longrightarrow> d' = d"
  by (auto simp: send_card_def split: prod.splits sum.splits)

lemma stage_letter_prepares:
  assumes "stage_letter i ev r run prv its header now w d = (res, w', d')"
  shows "prepares k d d'"
proof (cases "render_bundle (Some r) its None None None (Some header)")
  case None
  then show ?thesis using assms by (simp add: stage_letter_def)
next
  case (Some preview)
  obtain x d1 where c: "commitment_propose (pp_uuid (in_pipe i) d) (kind_text (xr_kind r)) (fact_payload r)
      (Some (er_id run)) (Some (xr_confidence r)) (map_option (timestamp_of (in_local i)) (xr_event_start r))
      (map_option co_id prv) now d = (x, d1)" by (metis prod.collapse)
  note p1 = prepares_candidate [OF c, of k]
  show ?thesis
  proof (cases "\<exists>f. x = Inr (Some f)")
    case True
    then obtain f where x: "x = Inr (Some f)" ..
    define proposal where "proposal = (case cd_proposal preview of None \<Rightarrow> JNull | Some j \<Rightarrow> j)"
    obtain nid code expiry d2 where s: "stage_bundle i ev (jtext proposal ''kind'')
        (jset proposal ''commitment_id'' (JStr (co_id f))) (in_actor i) now d1 = ((nid, code, expiry), d2)"
      by (metis prod.collapse)
    have "d' = d2"
      using assms Some c x s
      by (auto simp: stage_letter_def proposal_def [symmetric] Let_def dest: send_card_db split: option.splits)
    then show ?thesis using prepares_trans [OF p1] prepares_stage [OF s, of k] by auto
  next
    case False
    then have "d' = d1" using assms Some c by (cases x) (auto simp: stage_letter_def split: option.splits)
    then show ?thesis using p1 by simp
  qed
qed

lemma degraded_letter_prepares:
  assumes "degraded_letter i ev p w d = (res, w', d')"
  shows "prepares k d d'"
proof -
  obtain run ref d1 where e: "file_evidence i ev p ''degraded-no-model''
      (content_sha (pp_hash (in_pipe i)) ''degraded'') 0 0 [] (in_now i w) d = (run, ref, d1)" by (metis prod_cases3)
  define fact where "fact = JObj [(''kind'', JStr ''info''),
      (''title'', JStr (if pe_subject p = [] then ''LETTER'' else pe_subject p)),
      (''summary'', JStr (take 500 (degraded_text p)))]"
  obtain x d2 where c: "commitment_propose (pp_uuid (in_pipe i) d1) ''info'' fact (Some (er_id run)) (Some 0) None None
      (in_now i w) d1 = (x, d2)" by (metis prod.collapse)
  have p2: "prepares k d d2"
    using prepares_trans prepares_evidence [OF e, of k] prepares_candidate [OF c, of k] by metis
  show ?thesis
  proof (cases "\<exists>f. x = Inr (Some f)")
    case True
    then obtain f where x: "x = Inr (Some f)" ..
    define payload where "payload = JObj [(''kind'', JStr kind_bundle), (''items'', JArr []), (''header'', JStr (degraded_text p)),
                           (''commitment_id'', JStr (co_id f))]"
    obtain nid code expiry d3 where s: "stage_bundle i ev kind_bundle payload (in_actor i) (in_now i w) d2 = ((nid, code, expiry), d3)"
      by (metis prod.collapse)
    have "d' = d3"
      using assms e c x s
      by (auto simp: degraded_letter_def fact_def payload_def Let_def dest: send_card_db split: option.splits)
    then show ?thesis using prepares_trans [OF p2] prepares_stage [OF s, of k] by auto
  next
    case False
    then have "d' = d2" using assms e c
      by (cases x) (auto simp: degraded_letter_def fact_def Let_def split: option.splits)
    then show ?thesis using p2 by simp
  qed
qed

lemma propose_letter_prepares:
  assumes "propose_letter i ev p x w d = (res, w', d')"
  shows "prepares k d d'"
proof -
  obtain run ref d1 where e: "file_evidence i ev p (xt_model x) (content_sha (pp_hash (in_pipe i)) (in_prompt i))
      (nat (xt_input_tokens x)) (nat (xt_output_tokens x)) (evidence_needles (xt_result x)) (in_now i w) d = (run, ref, d1)"
    by (metis prod_cases3)
  note p1 = prepares_evidence [OF e, of k]
  have "d' = d1 \<or> (\<exists>prv its header. stage_letter i ev (xt_result x) run prv its header (in_now i w) w d1 = (res, w', d'))"
    using assms e by (auto simp: propose_letter_def Let_def dest: tell_db split: option.splits if_splits prod.splits)
  then show ?thesis using p1 prepares_trans [OF conjunct1 [OF p1]] stage_letter_prepares by metis
qed

lemma handle_letter_prepares:
  assumes "handle_letter i ev w d = (res, w', d')"
  shows "prepares k d d'"
proof -
  consider "d' = d" | p where "degraded_letter i ev p w d = (res, w', d')"
    | p x w1 a b c e f where "propose_letter i ev p x w1 (snd (usage_record a b c e f (in_now i w1) d)) = (res, w', d')"
    using assms by (fastforce simp: handle_letter_def Let_def split: if_splits prod.splits sum.splits)
  then show ?thesis
  proof cases
    case (3 p x w1 a b c e f)
    obtain us where "snd (usage_record a b c e f (in_now i w1) d) = d\<lparr>t_usage := us\<rparr>" using usage_record_only by blast
    then show ?thesis using 3 prepares_trans [OF prepares_usage [of k d us] propose_letter_prepares] by simp
  qed (simp_all add: degraded_letter_prepares)
qed

lemma dialogue_prepares:
  assumes "handle_whatsapp_dialogue i ev c w d = (res, w', d')"
    "\<And>lp. in_loop i = Some lp \<Longrightarrow> fresh_effect_ids (lp_services lp)"
  shows "prepares (rc_run_id c) d d'"
proof -
  let ?text = "pe_text (parse_eml (in_eml i) (ev_raw ev))"
  show ?thesis
  proof (cases "d' = d")
    case False
    then obtain lp where lp: "in_loop i = Some lp" "py_strip ?text \<noteq> []"
        "\<not> usage_over_budget (rc_household_id c) (in_day i w) (in_cap i) d"
      using assms(1) by (auto simp: handle_whatsapp_dialogue_def Let_def dest: tell_db split: option.splits if_splits)
    obtain a w1 d1 where r: "loop_run lp c ?text [] (Some (guard_of i c w)) w d = (a, w1, d1)" by (metis prod_cases3)
    note p1 = prepares_turn [OF assms(2) [OF lp(1)] r]
    show ?thesis
    proof (cases a)
      case (Inl e)
      then show ?thesis using assms(1) lp r p1 by (simp add: handle_whatsapp_dialogue_def Let_def)
    next
      case (Inr answer)
      obtain nid code expiry d2 where s: "stage_bundle i ev kind_bundle (whatsapp_reply c (lr_text answer)) (rc_actor_id c)
          (in_now i w1) d1 = ((nid, code, expiry), d2)" by (metis prod.collapse)
      have "d' = d2"
        using assms(1) lp r Inr s
        by (auto simp: handle_whatsapp_dialogue_def Let_def dest: send_card_db split: option.splits)
      then show ?thesis using prepares_trans p1 prepares_stage [OF s, of "rc_run_id c"] by metis
    qed
  qed simp
qed

lemma trusted_run_id: "trusted_run_context v raw h nid = Inr c \<Longrightarrow> rc_run_id c = nid"
  by (auto simp: trusted_run_context_def Let_def build_run_context_def str_or_none_def split: if_splits prod.splits option.splits)

section \<open>The card and the row behind it\<close>

lemma sublist_end: "sublist l (a @ b @ c @ l)"
  unfolding sublist_def by (rule exI [of _ "a @ b @ c"], rule exI [of _ "[]"]) simp

lemma item_rows_mem:
  "item_rows k many its = Some rows \<Longrightarrow> it \<in> set its \<Longrightarrow> \<exists>l row. item_line it = Some l \<and> row \<in> set rows \<and> sublist l row"
proof (induction its arbitrary: k rows)
  case (Cons x its)
  obtain l rest where l: "item_line x = Some l" "item_rows (k + 1) many its = Some rest"
    "rows = (mark_text (it_enabled x) @ '' '' @ (if many then nat_digits (k + 1) @ ''. '' else []) @ l) # rest"
    using Cons.prems(1) by (auto split: option.splits)
  show ?case
  proof (cases "it = x")
    case True
    then show ?thesis using l(1,3) sublist_end list.set_intros(1) by metis
  next
    case False
    then show ?thesis using Cons.IH [OF l(2)] Cons.prems(2) l(3) by auto
  qed
qed simp

lemma card_rows:
  assumes "render_bundle res its aid code source header = Some crd" "item_rows 0 (1 < length its) its = Some rows"
    "row \<in> set rows"
  shows "sublist row (cd_text crd)"
proof -
  show ?thesis
    using assms(1) unfolding render_bundle_def assms(2) option.case Let_def option.inject
    by (rule subst [where P = "\<lambda>c. sublist row (cd_text c)"]) (unfold card.select_convs, rule join_mem, simp add: assms(3))
qed

lemma card_shown:
  assumes "render_bundle res its (Some nid) code source header = Some crd"
  shows "(\<forall>it \<in> set its. \<exists>l. item_line it = Some l \<and> sublist l (cd_text crd)) \<and>
    (nid \<noteq> [] \<longrightarrow> (''YES'', ''confirm:'' @ nid) \<in> set (map (\<lambda>b. (bt_label b, callback_data b)) (cd_buttons crd)))"
proof -
  obtain rows where r: "item_rows 0 (1 < length its) its = Some rows"
    using assms by (cases "item_rows 0 (1 < length its) its") (simp_all add: render_bundle_def)
  have "\<exists>l. item_line it = Some l \<and> sublist l (cd_text crd)" if it: "it \<in> set its" for it
  proof -
    obtain l row where l: "item_line it = Some l" "row \<in> set rows" "sublist l row" using item_rows_mem [OF r it] by blast
    show ?thesis using l card_rows [OF assms r l(2)] sublist_order.order_trans by blast
  qed
  moreover have "(''YES'', ''confirm:'' @ nid) \<in> set (map (\<lambda>b. (bt_label b, callback_data b)) (cd_buttons crd))" if "nid \<noteq> []"
    using assms that
    by (auto simp: render_bundle_def Let_def str_or_none_def callback_data_def action_text_def split: option.splits)
  ultimately show ?thesis by blast
qed

lemma clean_set: "k \<noteq> ''enabled'' \<Longrightarrow> ''enabled'' \<notin> fst ` set d \<Longrightarrow> ''enabled'' \<notin> fst ` set (dict_set d k v)"
  by (induction d k v rule: dict_set.induct) auto

lemma clean_reconcile: "clean_item it \<Longrightarrow> clean_item (reconcile_item r it)"
  using clean_set [of _ "it_payload it"] by (simp add: clean_item_def reconcile_item_def Let_def split: option.splits)

lemma clean_items_for: "list_all clean_item (items_for r c)"
  using items_of_clean [of _ "bundle_payload (items_for r c) []"] by (simp add: items_read_back list_all_iff)

lemma match_letter_clean:
  "match_letter i r ref source its d = Some (prv, its2, header) \<Longrightarrow> list_all clean_item its \<Longrightarrow> list_all clean_item its2"
  by (auto simp: match_letter_def reconcile_items_def list_all_iff clean_reconcile Let_def split: option.splits if_splits)

lemma proposal_items:
  "list_all clean_item its \<Longrightarrow> items_of (jset (bundle_payload its h) ''commitment_id'' v) = its"
  using map_item_json [of its] by (simp add: items_of_def bundle_payload_def jget_def jset_def dict_get_def)

text \<open>What the family reads is what the row would do.\<close>

definition shown :: "'w intake \<Rightarrow> event \<Rightarrow> handled \<Rightarrow> uid \<Rightarrow> 'w \<Rightarrow> db \<Rightarrow> bool" where
  "shown i ev h nid w' d' \<longleftrightarrow> (\<exists>a text btns w1. a \<in> set (t_approvals d') \<and> ap_id a = nid \<and> ap_status a = Ap_staged \<and>
     ap_chat a = in_chat i \<and> ap_thread a = in_thread i \<and> ap_event_id a = Some (ev_id ev) \<and>
     pp_send (in_pipe i) (in_chat i) (in_thread i) text btns w1 = (Inr (), w') \<and> hd_message h = Some text \<and>
     (\<forall>it \<in> set (items_of (ap_payload a)). \<exists>l. item_line it = Some l \<and> sublist l text) \<and>
     (nid \<noteq> [] \<longrightarrow> (''YES'', ''confirm:'' @ nid) \<in> set btns))"

lemma card_is_shown:
  assumes "stage_bundle i ev kind payload actor now d = ((nid, code, expiry), d1)"
    "render_bundle res its (Some nid) (Some code) None (Some header) = Some crd"
    "send_card i text crd (said (Some nid) text) w d1 = (Inr h, w', d')"
    "items_of payload = its" "text = cd_text crd \<or> its = []" "hd_approval_id h = Some k"
  shows "shown i ev h k w' d'"
proof -
  obtain a where a: "d1 = d\<lparr>t_approvals := t_approvals d @ [a]\<rparr>" "ap_id a = nid" "ap_status a = Ap_staged"
    "ap_payload a = payload" "ap_chat a = in_chat i" "ap_thread a = in_thread i" "ap_event_id a = Some (ev_id ev)"
    by (rule stage_bundle_row [OF assms(1)])
  note card = card_shown [OF assms(2)]
  have "d' = d1" by (rule send_card_db [OF assms(3)])
  moreover have "pp_send (in_pipe i) (in_chat i) (in_thread i) text (map (\<lambda>b. (bt_label b, callback_data b)) (cd_buttons crd)) w = (Inr (), w')"
      "h = said (Some nid) text"
    using assms(3) by (auto simp: send_card_def split: prod.splits sum.splits)
  moreover have "\<forall>it \<in> set (items_of (ap_payload a)). \<exists>l. item_line it = Some l \<and> sublist l text"
    using card assms(4,5) a(4) by auto
  moreover have "k = nid" using assms(6) \<open>h = said (Some nid) text\<close> by (simp add: said_def)
  ultimately show ?thesis
    unfolding shown_def using a card
    by (intro exI [of _ a] exI [of _ "text"] exI [of _ "map (\<lambda>b. (bt_label b, callback_data b)) (cd_buttons crd)"] exI [of _ w])
      (simp add: said_def)
qed

lemma stage_letter_shown:
  assumes "stage_letter i ev r run prv its header now w d = (Inr h, w', d')" "hd_approval_id h = Some k"
    "list_all clean_item its"
  shows "shown i ev h k w' d'"
proof -
  obtain preview f d1 where p: "render_bundle (Some r) its None None None (Some header) = Some preview"
    "commitment_propose (pp_uuid (in_pipe i) d) (kind_text (xr_kind r)) (fact_payload r)
      (Some (er_id run)) (Some (xr_confidence r)) (map_option (timestamp_of (in_local i)) (xr_event_start r))
      (map_option co_id prv) now d = (Inr (Some f), d1)"
    using assms(1) by (auto simp: stage_letter_def split: option.splits prod.splits sum.splits)
  obtain hl where pr: "cd_proposal preview = Some (bundle_payload its hl)"
    using p(1) by (auto simp: render_bundle_def Let_def split: option.splits)
  obtain nid code expiry d2 where s: "stage_bundle i ev (jtext (bundle_payload its hl) ''kind'')
        (jset (bundle_payload its hl) ''commitment_id'' (JStr (co_id f))) (in_actor i) now d1 = ((nid, code, expiry), d2)"
    by (metis prod.collapse)
  obtain crd where "render_bundle (Some r) its (Some nid) (Some code) None (Some header) = Some crd"
    "send_card i (cd_text crd) crd (said (Some nid) (cd_text crd)) w d2 = (Inr h, w', d')"
    using assms(1) p pr s by (auto simp: stage_letter_def Let_def split: option.splits)
  from card_is_shown [OF s this proposal_items [OF assms(3)] _ assms(2)] show ?thesis by simp
qed

lemma degraded_letter_shown:
  assumes "degraded_letter i ev p w d = (Inr h, w', d')" "hd_approval_id h = Some k"
  shows "shown i ev h k w' d'"
proof -
  obtain run ref d1 where e: "file_evidence i ev p ''degraded-no-model''
      (content_sha (pp_hash (in_pipe i)) ''degraded'') 0 0 [] (in_now i w) d = (run, ref, d1)" by (metis prod_cases3)
  obtain f d2 where c: "commitment_propose (pp_uuid (in_pipe i) d1) ''info'' (JObj [(''kind'', JStr ''info''),
      (''title'', JStr (if pe_subject p = [] then ''LETTER'' else pe_subject p)),
      (''summary'', JStr (take 500 (degraded_text p)))]) (Some (er_id run)) (Some 0) None None
      (in_now i w) d1 = (Inr (Some f), d2)"
    using assms(1) e by (auto simp: degraded_letter_def Let_def split: option.splits prod.splits sum.splits)
  let ?payload = "JObj [(''kind'', JStr kind_bundle), (''items'', JArr []), (''header'', JStr (degraded_text p)),
                           (''commitment_id'', JStr (co_id f))]"
  obtain nid code expiry d3 where s: "stage_bundle i ev kind_bundle ?payload (in_actor i) (in_now i w) d2 = ((nid, code, expiry), d3)"
    by (metis prod.collapse)
  obtain crd where "render_bundle None [] (Some nid) (Some code) None (Some (degraded_text p)) = Some crd"
    "send_card i (degraded_text p) crd (said (Some nid) (degraded_text p)) w d3 = (Inr h, w', d')"
    using assms(1) e c s by (auto simp: degraded_letter_def Let_def split: option.splits)
  from card_is_shown [OF s this _ _ assms(2)] show ?thesis by (simp add: items_of_def jget_def dict_get_def)
qed

lemma handle_letter_shown:
  assumes "handle_letter i ev w d = (Inr h, w', d')" "hd_approval_id h = Some k"
  shows "shown i ev h k w' d'"
proof -
  consider p where "degraded_letter i ev p w d = (Inr h, w', d')"
    | p x w1 d1 where "propose_letter i ev p x w1 d1 = (Inr h, w', d')"
    using assms by (fastforce simp: handle_letter_def Let_def split: if_splits prod.splits sum.splits)
  then show ?thesis
  proof cases
    case (2 p x w1 d1)
    obtain run ref d2 where e: "file_evidence i ev p (xt_model x) (content_sha (pp_hash (in_pipe i)) (in_prompt i))
        (nat (xt_input_tokens x)) (nat (xt_output_tokens x)) (evidence_needles (xt_result x)) (in_now i w1) d1 = (run, ref, d2)"
      by (metis prod_cases3)
    have quiet: "hd_approval_id h \<noteq> None \<Longrightarrow> tell (in_pipe i) a b t (said None s) w1 d2 \<noteq> (Inr h, w', d')" for a b t s
      by (auto simp: tell_def said_def split: prod.splits sum.splits)
    obtain r source prv its header where m: "match_letter i (xt_result x) r source (items_for (xt_result x) (pp_calendar (in_pipe i) \<noteq> None)) d2 = Some (prv, its, header)"
        "stage_letter i ev (xt_result x) run prv its header (in_now i w1) w1 d2 = (Inr h, w', d')"
      using 2 e quiet assms(2) by (auto simp: propose_letter_def Let_def split: option.splits if_splits prod.splits)
    from stage_letter_shown [OF m(2) assms(2) match_letter_clean [OF m(1) clean_items_for]] show ?thesis .
  qed (rule degraded_letter_shown [OF _ assms(2)])
qed

lemma dialogue_shown:
  assumes "handle_whatsapp_dialogue i ev c w d = (Inr h, w', d')" "hd_approval_id h = Some k"
  shows "shown i ev h k w' d'"
proof -
  let ?text = "pe_text (parse_eml (in_eml i) (ev_raw ev))"
  have quiet: "hd_approval_id h \<noteq> None \<Longrightarrow> tell (in_pipe i) a b t (said None s) w d \<noteq> (Inr h, w', d')" for a b t s
    by (auto simp: tell_def said_def split: prod.splits sum.splits)
  obtain lp answer w1 d1 where l: "in_loop i = Some lp" "py_strip ?text \<noteq> []"
      "\<not> usage_over_budget (rc_household_id c) (in_day i w) (in_cap i) d"
      "loop_run lp c ?text [] (Some (guard_of i c w)) w d = (Inr answer, w1, d1)"
    using assms quiet
    by (auto simp: handle_whatsapp_dialogue_def Let_def nothing_done_def split: option.splits if_splits prod.splits sum.splits)
  let ?payload = "whatsapp_reply c (lr_text answer)"
  obtain nid code expiry d2 where s: "stage_bundle i ev kind_bundle ?payload (rc_actor_id c)
      (in_now i w1) d1 = ((nid, code, expiry), d2)" by (metis prod.collapse)
  obtain crd where "render_bundle None (items_of ?payload) (Some nid) (Some code) None (Some (jtext ?payload ''header'')) = Some crd"
    "send_card i (cd_text crd) crd (said (Some nid) (cd_text crd)) w1 d2 = (Inr h, w', d')"
    using assms(1) l s by (auto simp: handle_whatsapp_dialogue_def Let_def split: option.splits)
  from card_is_shown [OF s this _ _ assms(2)] show ?thesis by simp
qed

section \<open>Properties\<close>

text \<open>
  Before the yes there is only a proposal.  Whatever a letter or a message says and whatever
  the model answers, handling the event adds staged proposals, candidates, evidence and memory
  candidates, charges the day's usage, may change the state of the forwarding check, and writes the
  journal of its own turn; the only old facts touched are ones marked as replaced.  No reminder, letter, calendar entry or sent message is
  in the file, no effect of another run changes, and nothing depends on the mail, the WhatsApp
  sender, the documents or the export: those doors are not used.
\<close>

theorem intake_only_prepares:
  assumes "handle_event i ev w d = (res, w', d')"
    "\<And>lp. in_loop i = Some lp \<Longrightarrow> fresh_effect_ids (lp_services lp)"
  shows "(\<exists>new mem runs refs cs eff us fw.
      d' = d\<lparr>t_approvals := t_approvals d @ new, t_memory := t_memory d @ mem, t_runs := t_runs d @ runs,
              t_refs := t_refs d @ refs, t_commitments := cs, t_effects := eff, t_usage := us, t_forwarding := fw\<rparr> \<and>
      (\<forall>a \<in> set new. ap_status a = Ap_staged) \<and> (\<forall>m \<in> set mem. me_status m = Candidate) \<and>
      (cs = t_commitments d \<or> (\<exists>prv t c. co_status c = Candidate \<and> cs =
         tbl_update (\<lambda>c. prv = Some (co_id c)) (\<lambda>c. c\<lparr>co_status := Superseded, co_updated_at := t\<rparr>) (t_commitments d) @ [c])) \<and>
      filter (\<lambda>e. ef_run_id e \<noteq> pp_uuid (in_pipe i) d) eff = filter (\<lambda>e. ef_run_id e \<noteq> pp_uuid (in_pipe i) d) (t_effects d)) \<and>
    handle_event (i\<lparr>in_pipe := (in_pipe i)\<lparr>pp_mail := m, pp_whatsapp := x, pp_document := g, pp_export := e\<rparr>\<rparr>) ev w d =
      (res, w', d')"
proof
  have "prepares (pp_uuid (in_pipe i) d) d d'"
  proof (cases "handle_letter i ev w d = (res, w', d') \<or> d' = d")
    case True
    then show ?thesis using handle_letter_prepares by auto
  next
    case False
    then obtain h c where "trusted_run_context (in_wa i) (ev_raw ev) h (pp_uuid (in_pipe i) d) = Inr c"
        "handle_whatsapp_dialogue i ev c w d = (res, w', d')"
      using assms(1) by (auto simp: handle_event_def split: bool.splits option.splits sum.splits if_splits)
    then show ?thesis using dialogue_prepares assms(2) trusted_run_id by metis
  qed
  then show "\<exists>new mem runs refs cs eff us fw.
      d' = d\<lparr>t_approvals := t_approvals d @ new, t_memory := t_memory d @ mem, t_runs := t_runs d @ runs,
              t_refs := t_refs d @ refs, t_commitments := cs, t_effects := eff, t_usage := us, t_forwarding := fw\<rparr> \<and>
      (\<forall>a \<in> set new. ap_status a = Ap_staged) \<and> (\<forall>m \<in> set mem. me_status m = Candidate) \<and>
      (cs = t_commitments d \<or> (\<exists>prv t c. co_status c = Candidate \<and> cs =
         tbl_update (\<lambda>c. prv = Some (co_id c)) (\<lambda>c. c\<lparr>co_status := Superseded, co_updated_at := t\<rparr>) (t_commitments d) @ [c])) \<and>
      filter (\<lambda>e. ef_run_id e \<noteq> pp_uuid (in_pipe i) d) eff = filter (\<lambda>e. ef_run_id e \<noteq> pp_uuid (in_pipe i) d) (t_effects d)"
    unfolding prepares_def fact_step_def by blast
next
  let ?i = "i\<lparr>in_pipe := (in_pipe i)\<lparr>pp_mail := m, pp_whatsapp := x, pp_document := g, pp_export := e\<rparr>\<rparr>"
  have fields: "in_chat ?i = in_chat i" "in_thread ?i = in_thread i" "in_actor ?i = in_actor i" "in_loop ?i = in_loop i"
      "in_household ?i = in_household i" "in_cap ?i = in_cap i" "in_eml ?i = in_eml i" "in_wa ?i = in_wa i"
      "in_model ?i = in_model i" "in_prompt ?i = in_prompt i" "in_create ?i = in_create i" "in_now ?i = in_now i"
      "in_day ?i = in_day i" "in_local ?i = in_local i" "in_str ?i = in_str i"
      "pp_uuid (in_pipe ?i) = pp_uuid (in_pipe i)" "pp_code (in_pipe ?i) = pp_code (in_pipe i)"
      "pp_hash (in_pipe ?i) = pp_hash (in_pipe i)" "pp_frepr (in_pipe ?i) = pp_frepr (in_pipe i)"
      "pp_send (in_pipe ?i) = pp_send (in_pipe i)" "pp_calendar (in_pipe ?i) = pp_calendar (in_pipe i)"
    by simp_all
  have tell: "tell (in_pipe ?i) = tell (in_pipe i)" by (intro ext) (simp add: tell_def)
  have base: "stage_bundle ?i = stage_bundle i" "file_evidence ?i = file_evidence i" "send_card ?i = send_card i"
      "match_letter ?i = match_letter i" "guard_of ?i = guard_of i" "household_name ?i = household_name i"
    by (unfold stage_bundle_def file_evidence_def send_card_def match_letter_def guard_of_def
        household_name_def fields, (rule refl)+)
  have stage: "stage_letter ?i = stage_letter i" "degraded_letter ?i = degraded_letter i"
    by (unfold stage_letter_def degraded_letter_def fields base, (rule refl)+)
  have letter: "propose_letter ?i = propose_letter i" "handle_whatsapp_dialogue ?i = handle_whatsapp_dialogue i"
    by (unfold propose_letter_def handle_whatsapp_dialogue_def fields base tell stage, (rule refl)+)
  have whole: "handle_letter ?i = handle_letter i"
    by (intro ext, unfold handle_letter_def fields base stage letter, rule refl)
  have "handle_event ?i = handle_event i"
    by (intro ext, unfold handle_event_def fields letter whole) (rule refl)
  then show "handle_event ?i ev w d = (res, w', d')" using assms(1) by simp
qed

text \<open>
  C5 (the card shows what the row would do).  Whenever handling an event answers with a proposal,
  its row is in the file, staged, for the family's chat and this event; the last thing that happened
  was that the channel took a message in that chat with the button that confirms exactly this row; and
  the message contains the line of every item in the stored payload, which is what a confirmation
  will run.
\<close>

theorem card_shows_what_is_staged:
  assumes "handle_event i ev w d = (Inr h, w', d')" "hd_approval_id h = Some nid"
  shows "\<exists>a text btns w1. a \<in> set (t_approvals d') \<and> ap_id a = nid \<and> ap_status a = Ap_staged \<and>
    ap_chat a = in_chat i \<and> ap_thread a = in_thread i \<and> ap_event_id a = Some (ev_id ev) \<and>
    pp_send (in_pipe i) (in_chat i) (in_thread i) text btns w1 = (Inr (), w') \<and> hd_message h = Some text \<and>
    (\<forall>it \<in> set (items_of (ap_payload a)). \<exists>l. item_line it = Some l \<and> sublist l text) \<and>
    (nid \<noteq> [] \<longrightarrow> (''YES'', ''confirm:'' @ nid) \<in> set btns)"
proof -
  consider "handle_letter i ev w d = (Inr h, w', d')" | c where "handle_whatsapp_dialogue i ev c w d = (Inr h, w', d')"
    using assms(1) by (auto simp: handle_event_def split: bool.splits option.splits sum.splits if_splits)
  then have "shown i ev h nid w' d'" by cases (auto intro: handle_letter_shown dialogue_shown assms(2))
  then show ?thesis by (simp add: shown_def)
qed

definition context_of :: "incoming \<Rightarrow> run_context" where
  "context_of m = (case m of In_message c text k \<Rightarrow> c | In_callback c action aid cb arg \<Rightarrow> c)"

lemma stranger_tell:
  "tell p chat thread t h w d = (res, w', d') \<Longrightarrow> \<exists>r. pp_send p chat thread t [] w = (r, w') \<and> d' = d"
  by (auto simp: tell_def split: prod.splits sum.splits)

text \<open>
  An unknown person only hears no.  An update of an actor the household does not know changes
  nothing in the file, whether it is a message or a button, and reaches no tool and no model: the
  answer does not depend on them, and all the world sees is the line that refuses and the answer
  to the button.
\<close>

theorem strangers_change_nothing:
  assumes "parse_update (in_str i) h (pp_uuid (in_pipe i) d) update = Inr (Some m)" "\<not> is_known (context_of m)"
    "handle_update i update h w d = (res, w', d')"
  shows "d' = d \<and> handle_update (i\<lparr>in_loop := lp, in_create := f\<rparr>) update h w d = (res, w', d') \<and>
    (\<exists>r w1. pp_send (in_pipe i) (rc_chat_id (context_of m)) (rc_thread_id (context_of m)) text_unknown_actor [] w = (r, w1) \<and>
      (w' = w1 \<or> (\<exists>cb a. in_answer i cb w1 = (a, w'))))"
proof (cases m)
  case (In_message c t k)
  then have "\<not> is_known c" using assms(2) by (simp add: context_of_def)
  then show ?thesis using assms(1,3) In_message
    by (auto simp: handle_update_def dialogue_turn_def context_of_def Let_def dest: stranger_tell split: prod.splits sum.splits)
next
  case (In_callback c action aid cb arg)
  then have n: "\<not> is_known c" using assms(2) by (simp add: context_of_def)
  obtain x w1 d1 where t: "tell (in_pipe i) (rc_chat_id c) (rc_thread_id c) text_unknown_actor
      (said None text_unknown_actor) w d = (x, w1, d1)" by (metis prod_cases3)
  have cb: "handle_callback (in_pipe i) action aid c arg (in_now i w) w d = (x, w1, d1)"
    using n t by (simp add: handle_callback_def Let_def)
  obtain r where r: "pp_send (in_pipe i) (rc_chat_id c) (rc_thread_id c) text_unknown_actor [] w = (r, w1)" "d1 = d"
    using stranger_tell [OF t] by blast
  have "d' = d \<and> (w' = w1 \<or> (\<exists>cb a. in_answer i cb w1 = (a, w')))"
    using assms(1,3) In_callback cb r(2) by (auto simp: handle_update_def split: sum.splits if_splits prod.splits)
  moreover have "handle_update (i\<lparr>in_loop := lp, in_create := f\<rparr>) update h w d = (res, w', d')"
    using assms(1,3) In_callback unfolding handle_update_def by (simp split del: if_split cong: option.case_cong sum.case_cong prod.case_cong if_cong)
  ultimately show ?thesis using r(1) In_callback by (auto simp: context_of_def)
qed

text \<open>A refused letter has been paid for and is not charged.\<close>

lemma refusal_is_not_charged:
  assumes "\<not> usage_over_budget (household_name i) (in_day i w) (in_cap i) d"
    "in_create i (user_content (parse_eml (in_eml i) (ev_raw ev))) w = (Inr resp, w1)" "rs_stop_reason resp = Some ''refusal''"
  shows "handle_letter i ev w d = (Inl (Px_error ''ExtractionRefused''), w1, d)"
  using assms by (simp add: handle_letter_def Let_def extract_text_def split: option.splits prod.splits)

text \<open>The text \<open>payments_due\<close> would show of a payment that came from a letter is empty.\<close>

lemma fact_has_no_text: "jget (fact_payload r) ''text'' = JNull"
  by (simp add: fact_payload_def jget_def dict_get_def)

lemma commit_new_some: "\<exists>c d1. commitment_propose nid k p run conf obs None now d = (Inr (Some c), d1)"
proof -
  have "commitment_get nid (d\<lparr>t_commitments := t_commitments d @ [new_commitment nid k p run conf obs None now]\<rparr>) \<noteq> None"
    by (simp add: commitment_get_def tbl_get_None_iff new_commitment_def)
  then show ?thesis by (auto simp: commitment_propose_def write_tx_def)
qed

lemma add_ref_some: "fst (add_ref sha nid run ev text sender date needles now d) \<noteq> None"
  by (simp add: add_ref_def evidence_get_def tbl_get_None_iff Let_def)

text \<open>The first letter of a household that asks for something reaches the family as a card.\<close>

lemma first_letter_reaches_the_family:
  assumes "\<And>c th t b w. \<exists>w'. pp_send (in_pipe i) c th t b w = (Inr (), w')"
    "\<not> usage_over_budget (household_name i) (in_day i w) (in_cap i) d"
    "in_create i (user_content (parse_eml (in_eml i) (ev_raw ev))) w = (Inr resp, w1)"
    "rs_stop_reason resp \<noteq> Some ''refusal''" "dates_ok (rs_parsed resp)"
    "items_for (rs_parsed resp) (pp_calendar (in_pipe i) \<noteq> None) \<noteq> []" "t_commitments d = []"
  shows "\<exists>h w' d' nid. handle_letter i ev w d = (Inr h, w', d') \<and> hd_approval_id h = Some nid"
proof -
  let ?p = "parse_eml (in_eml i) (ev_raw ev)" and ?its = "items_for (rs_parsed resp) (pp_calendar (in_pipe i) \<noteq> None)"
  obtain x where x: "extract_text (in_model i) (\<lambda>_. resp) (user_content ?p) = Inr x" "xt_result x = rs_parsed resp"
  proof -
    obtain a b c where "(case rs_usage resp of None \<Rightarrow> (None, None, None) | Some u \<Rightarrow> u) = (a, b, c)" by (metis prod_cases3)
    then show ?thesis using that assms(4) by (simp add: extract_text_def Let_def)
  qed
  obtain d0 us where d0: "snd (usage_record (household_name i) (in_day i w) (xt_input_tokens x) (xt_output_tokens x)
      (xt_cache_read_tokens x) (in_now i w1) d) = d0" "d0 = d\<lparr>t_usage := us\<rparr>" using usage_record_only by blast
  obtain run found d1 where e: "file_evidence i ev ?p (xt_model x) (content_sha (pp_hash (in_pipe i)) (in_prompt i))
      (nat (xt_input_tokens x)) (nat (xt_output_tokens x)) (evidence_needles (rs_parsed resp)) (in_now i w1) d0 = (run, found, d1)"
    by (metis prod_cases3)
  have "found \<noteq> None"
    using e add_ref_some by (auto simp: file_evidence_def record_run_def Let_def split: prod.splits) (metis fst_conv)
  then obtain ref where ref: "found = Some ref" by blast
  define source where "source = render_source (pp_hash (in_pipe i)) (\<lambda>raw. pe_text (parse_eml (in_eml i) raw)) ref d1"
  define header where "header = join nl (header_lines (rs_parsed resp) (Some source))"
  have "t_commitments d1 = []" using prepares_evidence [OF e] assms(7) d0(2) by simp
  then have m: "match_letter i (rs_parsed resp) ref source ?its d1 = Some (None, ?its, header)"
    by (simp add: match_letter_def find_match_def live_facts_def header_def)
  have can: "render_bundle (Some (rs_parsed resp)) ?its a c s h \<noteq> None" for a c s h
    by (intro render_bundle_rows item_rows_some ballI items_can_be_shown [OF assms(5)])
  obtain preview where pv: "render_bundle (Some (rs_parsed resp)) ?its None None None (Some header) = Some preview" using can by fast
  obtain c d2 where c: "commitment_propose (pp_uuid (in_pipe i) d1) (kind_text (xr_kind (rs_parsed resp))) (fact_payload (rs_parsed resp))
      (Some (er_id run)) (Some (xr_confidence (rs_parsed resp))) (map_option (timestamp_of (in_local i)) (xr_event_start (rs_parsed resp)))
      None (in_now i w1) d1 = (Inr (Some c), d2)" using commit_new_some by blast
  define proposal where "proposal = (case cd_proposal preview of None \<Rightarrow> JNull | Some j \<Rightarrow> j)"
  obtain nid code expiry d3 where s: "stage_bundle i ev (jtext proposal ''kind'')
      (jset proposal ''commitment_id'' (JStr (co_id c))) (in_actor i) (in_now i w1) d2 = ((nid, code, expiry), d3)"
    by (metis prod.collapse)
  obtain crd where crd: "render_bundle (Some (rs_parsed resp)) ?its (Some nid) (Some code) None (Some header) = Some crd" using can by fast
  obtain w2 where w2: "send_card i (cd_text crd) crd (said (Some nid) (cd_text crd)) w1 d3 = (Inr (said (Some nid) (cd_text crd)), w2, d3)"
    using assms(1) unfolding send_card_def by (metis (no_types, lifting) case_prod_conv old.sum.simps(6))
  have "stage_letter i ev (rs_parsed resp) run None ?its header (in_now i w1) w1 d1 = (Inr (said (Some nid) (cd_text crd)), w2, d3)"
    unfolding stage_letter_def pv option.case option.map c prod.case sum.case Let_def
    using s crd w2 by (simp add: proposal_def)
  then have "handle_letter i ev w d = (Inr (said (Some nid) (cd_text crd)), w2, d3)"
    using assms(2,3,6) x d0(1) e ref m
    by (simp add: handle_letter_def propose_letter_def Let_def source_def [symmetric])
  then show ?thesis by (auto simp: said_def)
qed

section \<open>Witnesses\<close>

definition sample_intake :: "(string list \<times> string list) intake" where
  "sample_intake = \<lparr>in_pipe = sample_pipe, in_chat = ''7'', in_thread = None, in_actor = ''system'', in_household = None,
     in_cap = 5, in_loop = None, in_eml = sample_eml_env, in_wa = sample_wa, in_model = ''m'', in_prompt = ''p'',
     in_create = (\<lambda>content w. (Inr \<lparr>rs_stop_reason = Some ''end_turn'', rs_parsed = sample_result, rs_model = None, rs_usage = None\<rparr>, w)),
     in_now = (\<lambda>w. 10), in_day = (\<lambda>w. ''2026-09-01''), in_local = (\<lambda>t. 0), in_str = (\<lambda>j. []),
     in_answer = (\<lambda>cb w. (Inr (), w))\<rparr>"

definition sample_letter_event :: event where
  "sample_letter_event = \<lparr>ev_id = ''e1'', ev_source = ''gmail'', ev_external_id = ''x'', ev_context_key = None, ev_raw = ''raw'',
     ev_received_at = 0, ev_status = Ev_processing, ev_attempts = 0, ev_lease_until = None, ev_leased_by = None,
     ev_last_error = None, ev_updated_at = 0\<rparr>"

theorem intake_only_prepares_witness:
  "\<exists>res w' d'. handle_event sample_intake sample_letter_event ([], []) empty_db = (res, w', d') \<and> t_reminders d' = [] \<and>
     t_sends d' = [] \<and> (\<forall>a \<in> set (t_approvals d'). ap_status a = Ap_staged)"
proof -
  obtain res w' d' where r: "handle_event sample_intake sample_letter_event ([], []) empty_db = (res, w', d')"
    by (metis prod_cases3)
  have n: "in_loop sample_intake = None" by (simp add: sample_intake_def)
  show ?thesis using conjunct1 [OF intake_only_prepares [OF r]] r by (auto simp: n)
qed

theorem card_shows_what_is_staged_witness:
  "\<exists>h w' d' nid a. handle_event sample_intake sample_letter_event ([], []) empty_db = (Inr h, w', d') \<and>
     hd_approval_id h = Some nid \<and> a \<in> set (t_approvals d') \<and> ap_id a = nid"
proof -
  have d: "dates_ok sample_result"
    by (simp add: dates_ok_def sample_result_def valid_datetime_def valid_time_def date_ok_def days_in_month_def is_leap_def)
  have "items_for sample_result False \<noteq> []"
    by (simp add: items_for_def sample_result_def)
  then obtain h w' d' nid where h: "handle_event sample_intake sample_letter_event ([], []) empty_db = (Inr h, w', d')"
      "hd_approval_id h = Some nid"
    using first_letter_reaches_the_family [of sample_intake "([], [])" empty_db sample_letter_event] d
    by (auto simp: sample_intake_def sample_letter_event_def sample_pipe_def handle_event_def household_name_def
        usage_over_budget_def usage_get_def)
  from card_shows_what_is_staged [OF h] show ?thesis using h by blast
qed

theorem strangers_change_nothing_witness:
  "\<exists>res w'. handle_update sample_intake (JObj [(''message'', JObj [(''chat'', JObj [(''id'', JStr ''7'')]),
     (''from'', JObj [(''id'', JStr ''mallory'')]), (''text'', JStr ''hi'')])]) sample_home ([], []) empty_db = (res, w', empty_db)"
proof -
  let ?u = "JObj [(''message'', JObj [(''chat'', JObj [(''id'', JStr ''7'')]), (''from'', JObj [(''id'', JStr ''mallory'')]), (''text'', JStr ''hi'')])]"
  obtain res w' d' where r: "handle_update sample_intake ?u sample_home ([], []) empty_db = (res, w', d')"
    by (metis prod_cases3)
  have p: "parse_update (in_str sample_intake) sample_home (pp_uuid (in_pipe sample_intake) empty_db) ?u =
      Inr (Some (In_message (build_run_context sample_home ''mallory'' ''7'' None None ''u1'') ''hi'' 0))"
    by (simp add: parse_update_def parse_incoming_message_def sub_dict_def id_text_def py_str_def thread_of_def jget_def dict_get_def
        sample_intake_def sample_pipe_def Let_def)
  have "\<not> is_known (context_of (In_message (build_run_context sample_home ''mallory'' ''7'' None None ''u1'') ''hi'' 0))"
    by (simp add: context_of_def is_known_def build_run_context_def sample_home_def role_for_def str_or_none_def Let_def split: prod.split)
  from strangers_change_nothing [OF p this r] show ?thesis using r by blast
qed

end
