(* ===== verification/Queries.thy ===== *)
theory Queries
  imports Tools Matching "HOL-Library.Product_Lexorder" "HOL-Library.List_Lexorder" "HOL-Library.Char_ord"
begin

text \<open>
  \<open>hermes_cloud/core/queries.py\<close>: answers about payments, sources and versions read from the
  tables, without a model.  \<open>parse_date\<close> is \<open>date.fromisoformat\<close>.
\<close>

record due_payment =
  dp_commitment :: commitment
  dp_due_date :: date
  dp_responsible :: json
  dp_amount_cents :: json
  dp_currency :: json

definition payment_text :: "due_payment \<Rightarrow> string" where
  "payment_text p = jtext (co_payload (dp_commitment p)) ''text''"

text \<open>\<open>str(raw)\<close> of a number can be a date in the basic format; of other values it is none.\<close>

definition due_date_of :: "commitment \<Rightarrow> date option" where
  "due_date_of c =
     (let raw = jget (co_payload c) ''due_date''
      in if \<not> truthy raw then None
         else case raw of JStr s \<Rightarrow> parse_date s | JInt i \<Rightarrow> parse_date (int_str i) | _ \<Rightarrow> None)"

definition payments_due :: "date \<Rightarrow> date \<Rightarrow> nat \<Rightarrow> db \<Rightarrow> due_payment list" where
  "payments_due start stop limit d =
     sort_key (\<lambda>p. (dp_due_date p, co_id (dp_commitment p)))
       (concat (map (\<lambda>c.
          case due_date_of c of
            None \<Rightarrow> []
          | Some due \<Rightarrow>
              if start \<le> due \<and> due \<le> stop
              then [\<lparr>dp_commitment = c, dp_due_date = due, dp_responsible = jget (co_payload c) ''responsible'',
                     dp_amount_cents = jget (co_payload c) ''amount_cents'',
                     dp_currency = jget (co_payload c) ''currency''\<rparr>]
              else [])
        (commitments_confirmed (Some ''payment'') limit d)))"

definition source_of :: "(string \<Rightarrow> string) \<Rightarrow> (string \<Rightarrow> string) \<Rightarrow> commitment \<Rightarrow> db \<Rightarrow> string option" where
  "source_of sha text_of c d =
     (case co_run_id c of
        None \<Rightarrow> None
      | Some run \<Rightarrow> (case evidence_for_run run d of [] \<Rightarrow> None | r # _ \<Rightarrow> Some (render_source sha text_of r d)))"

definition tracked_fields :: "string list" where
  "tracked_fields = [''due_date'', ''start'', ''end'', ''amount_cents'', ''currency'', ''location'', ''text'', ''title'']"

text \<open>Python's \<open>==\<close> of two payload values: numbers by value, dicts whatever the order of their keys.\<close>

fun norm_json :: "json \<Rightarrow> json" where
  "norm_json (JBool b) = JReal (if b then 1 else 0)"
| "norm_json (JInt i) = JReal (of_int i)"
| "norm_json (JArr xs) = JArr (map norm_json xs)"
| "norm_json (JObj kvs) = JObj (sort_key fst (map (\<lambda>kv. (fst kv, norm_json (snd kv))) kvs))"
| "norm_json j = j"

definition py_equal :: "json \<Rightarrow> json \<Rightarrow> bool" where
  "py_equal a b \<longleftrightarrow> norm_json a = norm_json b"

definition version_delta :: "uid \<Rightarrow> db \<Rightarrow> (string \<times> json \<times> json) list" where
  "version_delta i d =
     (let chain = commitment_chain i d
      in if length chain < 2 then []
         else let was = co_payload (chain ! (length chain - 2)); now = co_payload (last chain)
              in map (\<lambda>f. (f, jget was f, jget now f))
                   (filter (\<lambda>f. \<not> py_equal (jget was f) (jget now f) \<and> (jget was f \<noteq> JNull \<or> jget now f \<noteq> JNull)) tracked_fields))"

text \<open>
  The answer is what the family believes, and all of it.  The payments listed are exactly the
  confirmed ones with a deadline in the window, each once, in the order of the deadline, as long as the
  family has no more confirmed payments than the limit; a candidate, a rejected or a replaced version is
  never among them.
\<close>

lemma payments_due_are_the_confirmed_ones:
  assumes "length (filter (\<lambda>c. co_status c = Confirmed \<and> co_kind c = ''payment'') (t_commitments d)) \<le> limit"
  shows "mset (map (\<lambda>p. (dp_due_date p, dp_commitment p)) (payments_due start stop limit d)) =
      mset (concat (map (\<lambda>c. case due_date_of c of None \<Rightarrow> [] | Some due \<Rightarrow> if start \<le> due \<and> due \<le> stop then [(due, c)] else [])
        (filter (\<lambda>c. co_status c = Confirmed \<and> co_kind c = ''payment'') (t_commitments d)))) \<and>
    sorted (map dp_due_date (payments_due start stop limit d))"
proof -
  let ?conf = "filter (\<lambda>c. co_status c = Confirmed \<and> co_kind c = ''payment'') (t_commitments d)"
  let ?row = "\<lambda>c due. \<lparr>dp_commitment = c, dp_due_date = due, dp_responsible = jget (co_payload c) ''responsible'',
       dp_amount_cents = jget (co_payload c) ''amount_cents'', dp_currency = jget (co_payload c) ''currency''\<rparr>"
  let ?f = "\<lambda>c. case due_date_of c of None \<Rightarrow> [] | Some due \<Rightarrow> if start \<le> due \<and> due \<le> stop then [?row c due] else []"
  let ?g = "\<lambda>c. case due_date_of c of None \<Rightarrow> [] | Some due \<Rightarrow> if start \<le> due \<and> due \<le> stop then [(due, c)] else []"
  let ?key = "\<lambda>p. (dp_due_date p, co_id (dp_commitment p))"
  have all: "commitments_confirmed (Some ''payment'') limit d = sort_key (\<lambda>c. - co_recorded_at c) ?conf"
    using assms by (simp add: commitments_confirmed_def)
  have eq: "map (\<lambda>p. (dp_due_date p, dp_commitment p)) (concat (map ?f cs)) = concat (map ?g cs)" for cs
    by (induction cs) (auto split: option.splits)
  have "mset (concat (map ?g (sort_key (\<lambda>c. - co_recorded_at c) ?conf))) = mset (concat (map ?g ?conf))"
    by (simp add: mset_concat flip: sum_mset_sum_list)
  moreover have "mset (map (\<lambda>p. (dp_due_date p, dp_commitment p)) (payments_due start stop limit d)) =
      mset (concat (map ?g (sort_key (\<lambda>c. - co_recorded_at c) ?conf)))"
    unfolding payments_due_def all using arg_cong [OF eq, of mset] by (simp add: mset_map)
  moreover have "sorted (map ?key (payments_due start stop limit d))"
    unfolding payments_due_def by (rule sorted_sort_key)
  then have "sorted (map dp_due_date (payments_due start stop limit d))"
    by (induction "payments_due start stop limit d") (auto simp: sorted_wrt_map elim: sorted_wrt_mono_rel [rotated])
  ultimately show ?thesis by simp
qed

text \<open>What changed between two versions is a tracked field whose values differ, and only that.\<close>

lemma version_delta_differs:
  assumes "(f, was, now) \<in> set (version_delta i d)"
  shows "f \<in> set tracked_fields \<and> \<not> py_equal was now \<and>
    was = jget (co_payload (commitment_chain i d ! (length (commitment_chain i d) - 2))) f \<and>
    now = jget (co_payload (last (commitment_chain i d))) f"
  using assms by (auto simp: version_delta_def Let_def split: if_splits)

lemma first_version_has_no_delta: "length (commitment_chain i d) < 2 \<Longrightarrow> version_delta i d = []"
  by (simp add: version_delta_def Let_def)

end
