(* ===== verification/CpSchema.thy ===== *)
theory CpSchema
  imports Payload
begin

text \<open>
  The control plane's own SQLite file, \<open>control_plane/migrations/*.sql\<close>: one record per
  table the modelled repositories work on, and the record \<open>cpdb\<close> of all of them.  A column
  of ciphertext (AES-GCM under the row's own associated data, \<open>control_plane/crypto.py\<close>) holds
  the value that decrypting it gives back; keyed digests are computed by a parameter.
\<close>

record cp_account =
  ac_id :: uid
  ac_lookup :: string
  ac_email :: string
  ac_verified_at :: time
  ac_status :: string
  ac_created_at :: time
  ac_updated_at :: time

record cp_household =
  ch_id :: uid
  ch_status :: string
  ch_revision :: nat
  ch_runtime_ref :: "string option"
  ch_created_at :: time
  ch_updated_at :: time
  ch_deleted_at :: "time option"
  ch_slug :: string
  ch_language :: "string option"
  ch_timezone :: "string option"
  ch_country :: "string option"
  ch_residency :: string

record cp_membership =
  cm_account :: uid
  cm_household :: uid
  cm_role :: string
  cm_status :: string
  cm_created_at :: time

record cp_token =
  ct_id :: uid
  ct_hash :: string
  ct_purpose :: string
  ct_account :: "uid option"
  ct_email :: "string option"
  ct_expires_at :: time
  ct_used_at :: "time option"
  ct_attempts :: nat
  ct_created_at :: time

record cp_session =
  cs_id :: uid
  cs_hash :: string
  cs_account :: uid
  cs_csrf :: string
  cs_idle :: time
  cs_absolute :: time
  cs_reauth :: time
  cs_seen :: time
  cs_revoked :: "time option"
  cs_created_at :: time

record cp_bucket =
  bk_hmac :: string
  bk_kind :: string
  bk_started :: time
  bk_attempts :: nat
  bk_updated :: time

record binding_row =
  cb_id :: uid
  cb_household :: uid
  cb_channel :: string
  cb_external_id :: string
  cb_chat_id :: "string option"
  cb_hmac :: "string option"
  cb_actor :: string
  cb_role :: string
  cb_verified_at :: time
  cb_verified_by :: string
  cb_published :: "nat option"
  cb_account :: "uid option"

record challenge_row =
  cc_id :: uid
  cc_household :: uid
  cc_channel :: string
  cc_external_id :: string
  cc_chat_id :: string
  cc_actor :: string
  cc_role :: string
  cc_hash :: string
  cc_issued_by :: string
  cc_expires_at :: time
  cc_attempts :: nat
  cc_consumed_at :: "time option"
  cc_created_at :: time
  cc_account :: "uid option"

datatype job_status =
    Jb_pending | Jb_running | Jb_waiting_user | Jb_succeeded | Jb_failed | Jb_outcome_unknown | Jb_cancelled

record cp_job =
  jb_id :: uid
  jb_household :: uid
  jb_workflow :: uid
  jb_kind :: string
  jb_operation :: string
  jb_intent :: string
  jb_revision :: "nat option"
  jb_request :: json
  jb_request_sha :: string
  jb_status :: job_status
  jb_provider :: string
  jb_external_ref :: "json option"
  jb_result :: "json option"
  jb_error :: "string option"
  jb_attempts :: nat
  jb_not_before :: "time option"
  jb_lease_until :: "time option"
  jb_leased_by :: "string option"
  jb_created_at :: time
  jb_updated_at :: time
  jb_settled_at :: "time option"

section \<open>Onboarding\<close>

datatype step_kind = Kd_profile | Kd_email | Kd_whatsapp | Kd_channel | Kd_runtime

datatype step_status =
    St_locked | St_available | St_selected | St_provisioning | St_waiting_user | St_verifying | St_verified
  | St_failed | St_cancelled

datatype workflow_state =
    Wf_profile_required | Wf_in_progress | Wf_runtime_provisioning | Wf_activating | Wf_complete | Wf_cancelled

record cp_profile =
  prf_household :: uid
  prf_first :: string
  prf_last :: string
  prf_created_at :: time
  prf_updated_at :: time

record cp_workflow =
  wfl_id :: uid
  wfl_household :: uid
  wfl_state :: workflow_state
  wfl_step :: step_kind
  wfl_version :: nat
  wfl_created_at :: time
  wfl_updated_at :: time
  wfl_completed_at :: "time option"

record cp_step =
  stp_workflow :: uid
  stp_kind :: step_kind
  stp_ordinal :: nat
  stp_status :: step_status
  stp_selection_kind :: "string option"
  stp_selection :: "json option"
  stp_result :: "json option"
  stp_public :: json
  stp_error :: "string option"
  stp_attempt :: nat
  stp_updated_at :: time

record cp_transition =
  trn_id :: uid
  trn_workflow :: uid
  trn_version :: nat
  trn_command :: string
  trn_from :: workflow_state
  trn_to :: workflow_state
  trn_step :: "step_kind option"
  trn_from_step :: "step_status option"
  trn_to_step :: "step_status option"
  trn_account :: uid
  trn_session :: "string option"
  trn_request :: string
  trn_job :: "uid option"
  trn_metadata :: json
  trn_created_at :: time

text \<open>
  \<open>StepSnapshot\<close> and \<open>OnboardingSnapshot\<close> of \<open>control_plane/models.py\<close>; a stored reply keeps
  the snapshot its JSON text is the dump of, or the payload of \<open>HouseholdService.create_idempotent\<close>.
\<close>

record step_snapshot =
  ss_kind :: step_kind
  ss_ordinal :: nat
  ss_status :: step_status
  ss_selection_kind :: "string option"
  ss_public :: json
  ss_error :: "string option"

record onboarding_snapshot =
  sn_household :: uid
  sn_workflow :: uid
  sn_version :: nat
  sn_state :: workflow_state
  sn_step :: step_kind
  sn_synthetic :: bool
  sn_steps :: "step_snapshot list"

record household_payload =
  pay_id :: uid
  pay_slug :: string
  pay_status :: string
  pay_version :: nat
  pay_created :: bool

datatype reply_body = Rb_snapshot onboarding_snapshot | Rb_household household_payload

record cp_idempotency =
  idm_account :: uid
  idm_route :: string
  idm_key :: string
  idm_sha :: string
  idm_body :: reply_body
  idm_created_at :: time
  idm_expires_at :: time

section \<open>Provisioned resources, configurations and consents\<close>

datatype resource_status = Er_planned | Er_creating | Er_ready | Er_deleting | Er_deleted | Er_outcome_unknown

record cp_resource =
  res_id :: uid
  res_household :: uid
  res_provider :: string
  res_type :: string
  res_name :: string
  res_external :: json
  res_status :: resource_status
  res_revision :: "nat option"
  res_created_at :: time
  res_updated_at :: time

datatype config_status = Cf_planned | Cf_issued | Cf_claimed | Cf_active | Cf_superseded | Cf_revoked

record cp_config =
  cfg_id :: uid
  cfg_household :: uid
  cfg_revision :: nat
  cfg_schema :: nat
  cfg_manifest :: json
  cfg_sha :: string
  cfg_status :: config_status
  cfg_created_at :: time
  cfg_issued_at :: "time option"
  cfg_claimed_at :: "time option"
  cfg_activated_at :: "time option"

record cp_bootstrap =
  bts_id :: uid
  bts_hash :: string
  bts_household :: uid
  bts_runtime_ref :: string
  bts_revision :: nat
  bts_sha :: string
  bts_expires_at :: time
  bts_used_at :: "time option"
  bts_revoked_at :: "time option"
  bts_created_at :: time

record cp_receipt =
  rct_id :: uid
  rct_household :: "uid option"
  rct_account :: "uid option"
  rct_purpose :: string
  rct_version :: string
  rct_sha :: string
  rct_locale :: string
  rct_accepted_at :: time
  rct_revoked_at :: "time option"
  rct_created_at :: time

section \<open>The household's mailbox\<close>

datatype email_option = Eo_managed | Eo_gmail | Eo_domain

datatype email_status =
    Ei_selected | Ei_provisioning | Ei_waiting_user | Ei_verified | Ei_activating | Ei_active
  | Ei_needs_attention | Ei_disconnecting | Ei_deleted | Ei_outcome_unknown

record cp_email =
  eid_id :: uid
  eid_household :: uid
  eid_option :: email_option
  eid_status :: email_status
  eid_address :: "string option"
  eid_lookup :: "string option"
  eid_domain :: "string option"
  eid_subject :: "string option"
  eid_refs :: json
  eid_secret_binding :: "string option"
  eid_scopes :: "string list"
  eid_version :: nat
  eid_verified_at :: "time option"
  eid_activated_at :: "time option"
  eid_disconnected_at :: "time option"
  eid_created_at :: time
  eid_updated_at :: time

datatype reservation_status = Rv_held | Rv_consumed | Rv_released | Rv_expired

record cp_reservation =
  rsv_id :: uid
  rsv_domain :: string
  rsv_local :: string
  rsv_household :: uid
  rsv_identity :: uid
  rsv_status :: reservation_status
  rsv_expires_at :: time
  rsv_created_at :: time
  rsv_consumed_at :: "time option"

record cp_activation =
  eac_identity :: uid
  eac_revision :: nat
  eac_runtime_ref :: string
  eac_provider :: string
  eac_inbound :: string
  eac_outbound :: string
  eac_checked_at :: time
  eac_digest :: string
  eac_status :: email_status

section \<open>Where a household is reached\<close>

record cp_preference =
  pre_household :: uid
  pre_primary :: string
  pre_account :: uid
  pre_verified_at :: "time option"
  pre_updated_at :: time

section \<open>The file\<close>

record cpdb =
  c_accounts :: "cp_account list"
  c_households :: "cp_household list"
  c_memberships :: "cp_membership list"
  c_tokens :: "cp_token list"
  c_sessions :: "cp_session list"
  c_buckets :: "cp_bucket list"
  c_bindings :: "binding_row list"
  c_challenges :: "challenge_row list"
  c_jobs :: "cp_job list"
  c_profiles :: "cp_profile list"
  c_workflows :: "cp_workflow list"
  c_steps :: "cp_step list"
  c_transitions :: "cp_transition list"
  c_replies :: "cp_idempotency list"
  c_resources :: "cp_resource list"
  c_configs :: "cp_config list"
  c_bootstraps :: "cp_bootstrap list"
  c_receipts :: "cp_receipt list"
  c_emails :: "cp_email list"
  c_reservations :: "cp_reservation list"
  c_activations :: "cp_activation list"
  c_preferences :: "cp_preference list"

definition empty_cpdb :: cpdb where
  "empty_cpdb = \<lparr>c_accounts = [], c_households = [], c_memberships = [], c_tokens = [], c_sessions = [],
     c_buckets = [], c_bindings = [], c_challenges = [], c_jobs = [],
     c_profiles = [], c_workflows = [], c_steps = [], c_transitions = [], c_replies = [], c_resources = [],
     c_configs = [], c_bootstraps = [], c_receipts = [], c_emails = [], c_reservations = [], c_activations = [], c_preferences = []\<rparr>"

lemma empty_cpdb_tables [simp]:
  "c_accounts empty_cpdb = []" "c_households empty_cpdb = []" "c_memberships empty_cpdb = []"
  "c_tokens empty_cpdb = []" "c_sessions empty_cpdb = []" "c_buckets empty_cpdb = []"
  "c_bindings empty_cpdb = []" "c_challenges empty_cpdb = []" "c_jobs empty_cpdb = []"
  "c_profiles empty_cpdb = []" "c_workflows empty_cpdb = []" "c_steps empty_cpdb = []"
  "c_transitions empty_cpdb = []" "c_replies empty_cpdb = []" "c_resources empty_cpdb = []"
  "c_configs empty_cpdb = []" "c_bootstraps empty_cpdb = []" "c_receipts empty_cpdb = []"
  "c_emails empty_cpdb = []" "c_reservations empty_cpdb = []" "c_activations empty_cpdb = []"
  "c_preferences empty_cpdb = []"
  by (simp_all add: empty_cpdb_def)

end
