(* ===== verification/Bindings.thy ===== *)
theory Bindings
  imports CpSchema WhatsAppIn "HOL-Library.Product_Lexorder" "HOL-Library.List_Lexorder" "HOL-Library.Char_ord" "HOL-Library.Sublist"
begin

text \<open>
  \<open>control_plane/channels.py\<close>, \<open>control_plane/repositories/bindings.py\<close> and
  \<open>control_plane/bindings_resolution.py\<close>: which member of which household a sender on a channel
  is.  A challenge is issued under the owner, answered once, and becomes a binding; the gateway
  asks for the one household that holds a sender.  The keyed digests, the random code and the ids are
  parameters.
\<close>

section \<open>Identities of a channel\<close>

definition stripped :: "string \<Rightarrow> string \<Rightarrow> string + string" where
  "stripped value field = (let t = py_strip value in if t = [] then Inl (field @ '' is required'') else Inr t)"

definition is_digit :: "char \<Rightarrow> bool" where
  "is_digit c \<longleftrightarrow> (let n = of_char c :: nat in 48 \<le> n \<and> n \<le> 57)"

definition synthetic :: "string \<Rightarrow> bool" where "synthetic s \<longleftrightarrow> prefix ''synthetic-'' s"

text \<open>The patterns \<open>\+[0-9]{1,31}\<close>, \<open>[0-9][0-9-]{0,63}@[a-z0-9.-]{1,64}\<close> and \<open>0|-?[1-9][0-9]{0,30}\<close>.\<close>

definition whatsapp_sender :: "string \<Rightarrow> bool" where
  "whatsapp_sender s \<longleftrightarrow> (case s of [] \<Rightarrow> False
     | c # ds \<Rightarrow> c = CHR ''+'' \<and> ds \<noteq> [] \<and> length ds \<le> 31 \<and> list_all is_digit ds)"

definition domain_char :: "char \<Rightarrow> bool" where
  "domain_char c \<longleftrightarrow> (let n = of_char c :: nat in 97 \<le> n \<and> n \<le> 122) \<or> is_digit c \<or> c = CHR ''.'' \<or> c = CHR ''-''"

definition whatsapp_chat :: "string \<Rightarrow> bool" where
  "whatsapp_chat s \<longleftrightarrow>
     (let l = takeWhile (\<lambda>c. c \<noteq> CHR ''@'') s; r = drop (Suc (length l)) s
      in length l < length s \<and> l \<noteq> [] \<and> is_digit (hd l) \<and> list_all (\<lambda>c. is_digit c \<or> c = CHR ''-'') (tl l) \<and> length l \<le> 64 \<and>
         r \<noteq> [] \<and> length r \<le> 64 \<and> list_all domain_char r)"

definition telegram_id :: "string \<Rightarrow> bool" where
  "telegram_id s \<longleftrightarrow> s = ''0'' \<or>
     (let ds = (if take 1 s = ''-'' then tl s else s)
      in ds \<noteq> [] \<and> is_digit (hd ds) \<and> hd ds \<noteq> CHR ''0'' \<and> list_all is_digit (tl ds) \<and> length ds \<le> 31)"

definition canonical_sender :: "string \<Rightarrow> string \<Rightarrow> string + string" where
  "canonical_sender channel value =
     (case stripped value ''external ID'' of
        Inl e \<Rightarrow> Inl e
      | Inr text \<Rightarrow>
          if synthetic text then Inr text
          else if channel = ''whatsapp'' then
            (let cand = (if prefix ''+'' text then text else CHR ''+'' # text)
             in if whatsapp_sender cand then Inr cand else Inl ''a WhatsApp sender is a phone number'')
          else if channel = ''telegram'' then
            (if telegram_id text then Inr text else Inl ''a Telegram sender is a numeric user ID as JSON renders it'')
          else Inr text)"

definition canonical_chat :: "string \<Rightarrow> string \<Rightarrow> string + string" where
  "canonical_chat channel value =
     (case stripped value ''chat ID'' of
        Inl e \<Rightarrow> Inl e
      | Inr text \<Rightarrow>
          if synthetic text then Inr text
          else if channel = ''whatsapp'' then
            (let cand = py_lower text
             in if whatsapp_chat cand then Inr cand else Inl ''a WhatsApp conversation is a JID, not a phone number'')
          else if channel = ''telegram'' then
            (if telegram_id text then Inr text else Inl ''a Telegram chat is a numeric chat ID as JSON renders it'')
          else Inr text)"

section \<open>The repository\<close>

definition challenge_ttl_seconds :: time where "challenge_ttl_seconds = 15 * 60"
definition challenge_roles :: "string set" where "challenge_roles = {''adult''}"
definition channels :: "string set" where "channels = {''telegram'', ''whatsapp'', ''web''}"
definition web_seat_chat_id :: "string \<Rightarrow> string" where "web_seat_chat_id actor = ''web:'' @ actor"
definition max_open_challenges :: nat where "max_open_challenges = 10"
definition max_bindings :: nat where "max_bindings = 25"

text \<open>\<open>BindingError\<close>, and the exception of SQLite when a unique index or a trigger refuses a row.\<close>

datatype binding_error = Binding_refused string | Integrity_error

record bind_env =
  be_digest :: "string \<Rightarrow> string"
  be_hmac :: "string \<Rightarrow> string \<Rightarrow> string"
  be_key :: string
  be_uuid :: "cpdb \<Rightarrow> uid"
  be_code :: "cpdb \<Rightarrow> string"

definition sender_digest :: "bind_env \<Rightarrow> string \<Rightarrow> string option" where
  "sender_digest env ext = (if be_key env = [] then None else Some (be_hmac env (be_key env) ext))"

definition backfill_sender_digests :: "bind_env \<Rightarrow> cpdb \<Rightarrow> nat \<times> cpdb" where
  "backfill_sender_digests env d =
     (if be_key env = [] then (0, d)
      else (tbl_count (\<lambda>r. cb_hmac r = None) (c_bindings d),
            d\<lparr>c_bindings := tbl_update (\<lambda>r. cb_hmac r = None) (\<lambda>r. r\<lparr>cb_hmac := sender_digest env (cb_external_id r)\<rparr>)
               (c_bindings d)\<rparr>))"

definition seat_order :: "binding_row \<Rightarrow> time \<times> uid" where "seat_order r = (cb_verified_at r, cb_id r)"

definition binding_record :: "binding_row \<Rightarrow> binding_error + binding_row" where
  "binding_record r =
     (if cb_chat_id r = None then Inl (Binding_refused ''binding row predates the chat/sender split'') else Inr r)"

fun all_records :: "binding_row list \<Rightarrow> binding_error + binding_row list" where
  "all_records [] = Inr []"
| "all_records (r # rs) =
     (case binding_record r of Inl e \<Rightarrow> Inl e
      | Inr x \<Rightarrow> (case all_records rs of Inl e \<Rightarrow> Inl e | Inr xs \<Rightarrow> Inr (x # xs)))"

definition bindings_verified :: "uid \<Rightarrow> cpdb \<Rightarrow> binding_error + binding_row list" where
  "bindings_verified hh d = all_records (sort_key seat_order (filter (\<lambda>r. cb_household r = hh) (c_bindings d)))"

definition owner_actor :: "uid \<Rightarrow> cpdb \<Rightarrow> string option" where
  "owner_actor hh d = map_option cb_actor (tbl_first seat_order (\<lambda>r. cb_household r = hh \<and> cb_role r = ''owner'') (c_bindings d))"

definition routable_web_seat :: "uid \<Rightarrow> uid \<Rightarrow> cpdb \<Rightarrow> (string \<times> string) option" where
  "routable_web_seat hh account d =
     (case tbl_first seat_order (\<lambda>r. cb_household r = hh \<and> cb_channel r = ''web'' \<and> cb_account r = Some account \<and>
              cb_published r \<noteq> None) (c_bindings d) of
        None \<Rightarrow> None
      | Some r \<Rightarrow> map_option (\<lambda>chat. (cb_actor r, chat)) (cb_chat_id r))"

definition canonical_pair :: "string \<Rightarrow> string \<Rightarrow> string \<Rightarrow> string \<Rightarrow> binding_error + string \<times> string \<times> string" where
  "canonical_pair channel ext chat actor =
     (case canonical_sender channel ext of Inl e \<Rightarrow> Inl (Binding_refused e)
      | Inr x \<Rightarrow> (case canonical_chat channel chat of Inl e \<Rightarrow> Inl (Binding_refused e)
      | Inr y \<Rightarrow> (case canonical_sender channel actor of Inl e \<Rightarrow> Inl (Binding_refused e)
      | Inr z \<Rightarrow> Inr (x, y, z))))"

definition as_identity :: "string \<Rightarrow> string \<Rightarrow> string" where
  "as_identity channel v = (case canonical_sender channel v of Inl e \<Rightarrow> v | Inr x \<Rightarrow> x)"

definition as_chat :: "string \<Rightarrow> string \<Rightarrow> string" where
  "as_chat channel v = (case canonical_chat channel v of Inl e \<Rightarrow> v | Inr x \<Rightarrow> x)"

definition holds :: "string \<Rightarrow> string \<Rightarrow> binding_row \<Rightarrow> bool" where
  "holds channel ext r \<longleftrightarrow> cb_channel r = channel \<and>
     (ext = as_identity channel (cb_external_id r) \<or> ext = as_identity channel (cb_actor r))"

definition holders :: "string \<Rightarrow> string \<Rightarrow> cpdb \<Rightarrow> binding_row list" where
  "holders channel ext d = filter (holds channel ext) (c_bindings d)"

definition foreign_holder :: "string \<Rightarrow> string \<Rightarrow> uid \<Rightarrow> cpdb \<Rightarrow> bool" where
  "foreign_holder channel ext hh d \<longleftrightarrow> list_ex (\<lambda>r. cb_household r \<noteq> hh) (holders channel ext d)"

definition household_is_full :: "uid \<Rightarrow> cpdb \<Rightarrow> bool" where
  "household_is_full hh d \<longleftrightarrow> max_bindings \<le> tbl_count (\<lambda>r. cb_household r = hh) (c_bindings d)"

text \<open>The unique indexes of the table, and the checks a row of it must pass: the channel is one of the
  three, the household and the account exist.\<close>

definition collides :: "binding_row \<Rightarrow> binding_row \<Rightarrow> bool" where
  "collides a b \<longleftrightarrow> cb_id a = cb_id b \<or>
     cb_household a = cb_household b \<and> cb_channel a = cb_channel b \<and>
       (cb_external_id a = cb_external_id b \<or> cb_account a \<noteq> None \<and> cb_account a = cb_account b)"

definition known_household :: "uid \<Rightarrow> cpdb \<Rightarrow> bool" where
  "known_household hh d \<longleftrightarrow> list_ex (\<lambda>h. ch_id h = hh) (c_households d)"

definition admissible :: "cpdb \<Rightarrow> binding_row \<Rightarrow> bool" where
  "admissible d r \<longleftrightarrow> cb_channel r \<in> channels \<and> known_household (cb_household r) d \<and>
     (case cb_account r of None \<Rightarrow> True | Some a \<Rightarrow> list_ex (\<lambda>x. ac_id x = a) (c_accounts d)) \<and>
     \<not> list_ex (collides r) (c_bindings d)"

definition insert_binding ::
  "bind_env \<Rightarrow> uid \<Rightarrow> string \<Rightarrow> string \<Rightarrow> string \<Rightarrow> string \<Rightarrow> string \<Rightarrow> time \<Rightarrow> string \<Rightarrow> uid option \<Rightarrow> cpdb \<Rightarrow>
   (binding_error + binding_row) \<times> cpdb" where
  "insert_binding env hh channel ext0 chat0 actor0 role verified_at by_actor account d =
     (case canonical_pair channel ext0 chat0 actor0 of
        Inl e \<Rightarrow> (Inl e, d)
      | Inr (ext, chat, actor) \<Rightarrow>
          if actor \<noteq> ext then (Inl (Binding_refused ''actor is not the sender''), d)
          else if household_is_full hh d then (Inl (Binding_refused ''this household has as many bindings as it may hold''), d)
          else
            (let r = \<lparr>cb_id = be_uuid env d, cb_household = hh, cb_channel = channel, cb_external_id = ext,
                   cb_chat_id = Some chat, cb_hmac = sender_digest env ext, cb_actor = actor, cb_role = role,
                   cb_verified_at = verified_at, cb_verified_by = by_actor, cb_published = None, cb_account = account\<rparr>
             in if admissible d r then (Inr r, d\<lparr>c_bindings := c_bindings d @ [r]\<rparr>) else (Inl Integrity_error, d)))"

definition retire_superseded :: "uid \<Rightarrow> cpdb \<Rightarrow> cpdb" where
  "retire_superseded hh d =
     (let abandoned = map (\<lambda>r. (cb_channel r, cb_chat_id r)) (filter (\<lambda>r. cb_household r = hh \<and> cb_role r = ''owner'') (c_bindings d))
      in d\<lparr>c_bindings := tbl_delete (\<lambda>r. cb_household r = hh \<and>
             (cb_role r = ''owner'' \<or> cb_chat_id r \<noteq> None \<and> (cb_channel r, cb_chat_id r) \<in> set abandoned)) (c_bindings d),
           c_challenges := tbl_delete (\<lambda>c. cc_household c = hh \<and> cc_consumed_at c = None) (c_challenges d)\<rparr>)"

definition ensure_owner_binding ::
  "bind_env \<Rightarrow> uid \<Rightarrow> string \<Rightarrow> string \<Rightarrow> string \<Rightarrow> string \<Rightarrow> uid option \<Rightarrow> time \<Rightarrow> cpdb \<Rightarrow>
   (binding_error + binding_row) \<times> cpdb" where
  "ensure_owner_binding env hh channel ext0 chat0 actor0 account now d =
     (case canonical_pair channel ext0 chat0 actor0 of
        Inl e \<Rightarrow> (Inl e, d)
      | Inr (ext, chat, actor) \<Rightarrow>
          (let existing = find (\<lambda>r. cb_household r = hh) (holders channel ext d)
           in case existing of
                Some r \<Rightarrow>
                  if cb_role r = ''owner'' \<and> cb_actor r = actor \<and> cb_chat_id r = Some chat \<and> cb_account r = account
                    then (binding_record r, d)
                  else if foreign_holder channel ext hh d
                    then (Inl (Binding_refused ''this channel is already bound to another household''), d)
                  else if cb_role r \<noteq> ''owner''
                    then (Inl (Binding_refused ''this identity is already bound to another member of the household''), d)
                  else insert_binding env hh channel ext chat actor ''owner'' now actor account (retire_superseded hh d)
              | None \<Rightarrow>
                  if foreign_holder channel ext hh d
                    then (Inl (Binding_refused ''this channel is already bound to another household''), d)
                  else insert_binding env hh channel ext chat actor ''owner'' now actor account (retire_superseded hh d)))"

definition owner_seat :: "uid \<Rightarrow> binding_row \<Rightarrow> bool" where
  "owner_seat hh r \<longleftrightarrow> cb_household r = hh \<and> cb_channel r = ''web'' \<and> cb_role r = ''owner''"

text \<open>\<open>str(None)\<close> of a chat that is missing is the text \<open>None\<close>.\<close>

definition ensure_owner_web_seat ::
  "bind_env \<Rightarrow> uid \<Rightarrow> string \<Rightarrow> string \<Rightarrow> uid \<Rightarrow> time \<Rightarrow> cpdb \<Rightarrow> (binding_error + binding_row) \<times> cpdb" where
  "ensure_owner_web_seat env hh actor0 chat0 account now d =
     (let existing = sort_key seat_order (filter (owner_seat hh) (c_bindings d));
          chat1 = (case existing of [] \<Rightarrow> chat0 | r # _ \<Rightarrow> (case cb_chat_id r of None \<Rightarrow> ''None'' | Some c \<Rightarrow> c))
      in case canonical_pair ''web'' actor0 chat1 actor0 of
           Inl e \<Rightarrow> (Inl e, d)
         | Inr (ext, chat, actor) \<Rightarrow>
             (case find (\<lambda>r. cb_actor r = actor \<and> cb_chat_id r = Some chat \<and> cb_account r = Some account) existing of
                Some r \<Rightarrow> (binding_record r, d)
              | None \<Rightarrow>
                  insert_binding env hh ''web'' ext chat actor ''owner'' now actor (Some account)
                    (d\<lparr>c_bindings := tbl_delete (owner_seat hh) (c_bindings d)\<rparr>)))"

definition retire_staged_members :: "uid \<Rightarrow> cpdb \<Rightarrow> nat \<times> cpdb" where
  "retire_staged_members hh d =
     (let P = (\<lambda>r. cb_household r = hh \<and> cb_role r \<noteq> ''owner'' \<and> cb_published r = None)
      in (tbl_count P (c_bindings d), d\<lparr>c_bindings := tbl_delete P (c_bindings d)\<rparr>))"

definition active_member :: "uid \<Rightarrow> uid \<Rightarrow> cpdb \<Rightarrow> bool" where
  "active_member hh account d \<longleftrightarrow>
     list_ex (\<lambda>m. cm_household m = hh \<and> cm_account m = account \<and> cm_status m = ''active'') (c_memberships d)"

definition open_challenges :: "uid \<Rightarrow> time \<Rightarrow> cpdb \<Rightarrow> nat" where
  "open_challenges hh now d =
     tbl_count (\<lambda>c. cc_household c = hh \<and> cc_consumed_at c = None \<and> now < cc_expires_at c) (c_challenges d)"

text \<open>The checks of an account: required on web, refused elsewhere.\<close>

definition account_refusal :: "string \<Rightarrow> uid \<Rightarrow> uid option \<Rightarrow> cpdb \<Rightarrow> string option" where
  "account_refusal channel hh account d =
     (if channel = ''web'' then
        (case str_or_none account of
           None \<Rightarrow> Some ''a web binding needs the account it belongs to''
         | Some a \<Rightarrow> if active_member hh a d then None else Some ''that account is not an active member of this household'')
      else if str_or_none account \<noteq> None then Some ''a binding is identified by its sender, not an account'' else None)"

definition issue_challenge ::
  "bind_env \<Rightarrow> uid \<Rightarrow> string \<Rightarrow> string \<Rightarrow> string \<Rightarrow> string \<Rightarrow> string \<Rightarrow> string \<Rightarrow> uid option \<Rightarrow> time \<Rightarrow> time \<Rightarrow> cpdb \<Rightarrow>
   (binding_error + challenge_row \<times> string) \<times> cpdb" where
  "issue_challenge env hh channel ext0 actor0 role issued_by chat0 account now ttl d =
     (if channel \<notin> channels then (Inl (Binding_refused ''unknown channel''), d)
      else if role \<notin> challenge_roles then (Inl (Binding_refused ''a challenge cannot confer this role''), d)
      else case canonical_pair channel ext0 chat0 actor0 of
        Inl e \<Rightarrow> (Inl e, d)
      | Inr (ext, chat, actor) \<Rightarrow>
          if actor \<noteq> ext then (Inl (Binding_refused ''actor is not the sender''), d)
          else if actor = issued_by then (Inl (Binding_refused ''a challenge cannot rebind its issuer''), d)
          else if foreign_holder channel ext hh d
            then (Inl (Binding_refused ''this channel is already bound to another household''), d)
          else case find (\<lambda>r. cb_household r = hh) (holders channel ext d) of
            Some r \<Rightarrow>
              (Inl (Binding_refused (if as_identity channel (cb_actor r) = actor
                 then ''this channel is already bound to that member''
                 else ''this channel is already bound to another member'')), d)
          | None \<Rightarrow>
              (case account_refusal channel hh account d of
                 Some e \<Rightarrow> (Inl (Binding_refused e), d)
               | None \<Rightarrow>
                   if max_open_challenges \<le> open_challenges hh now d
                     then (Inl (Binding_refused ''too many outstanding challenges for this household''), d)
                   else
                     (let code = be_code env d;
                          c = \<lparr>cc_id = be_uuid env d, cc_household = hh, cc_channel = channel, cc_external_id = ext,
                            cc_chat_id = chat, cc_actor = actor, cc_role = role, cc_hash = be_digest env code,
                            cc_issued_by = issued_by, cc_expires_at = now + ttl, cc_attempts = 0, cc_consumed_at = None,
                            cc_created_at = now, cc_account = account\<rparr>
                      in if \<not> known_household hh d \<or> list_ex (\<lambda>x. cc_id x = cc_id c \<or> cc_hash x = cc_hash c) (c_challenges d)
                         then (Inl Integrity_error, d)
                         else (Inr (c, code), d\<lparr>c_challenges := c_challenges d @ [c]\<rparr>))))"

definition consume_challenge :: "uid \<Rightarrow> time \<Rightarrow> cpdb \<Rightarrow> cpdb" where
  "consume_challenge i now d =
     d\<lparr>c_challenges := tbl_update (\<lambda>c. cc_id c = i)
         (\<lambda>c. c\<lparr>cc_consumed_at := Some now, cc_attempts := cc_attempts c + 1\<rparr>) (c_challenges d)\<rparr>"

definition verify_challenge ::
  "bind_env \<Rightarrow> string \<Rightarrow> uid \<Rightarrow> string \<Rightarrow> time \<Rightarrow> cpdb \<Rightarrow> (binding_error + binding_row) \<times> cpdb" where
  "verify_challenge env code hh owner now d =
     (case find (\<lambda>c. cc_hash c = be_digest env code \<and> cc_household c = hh) (c_challenges d) of
        None \<Rightarrow> (Inl (Binding_refused ''invalid or expired challenge''), d)
      | Some c \<Rightarrow>
          if cc_consumed_at c \<noteq> None \<or> cc_expires_at c \<le> now \<or> cc_issued_by c \<noteq> owner
            then (Inl (Binding_refused ''invalid or expired challenge''), d)
          else
            (let d1 = consume_challenge (cc_id c) now d
             in if foreign_holder (cc_channel c) (cc_external_id c) (cc_household c) d1
                  then (Inl (Binding_refused ''this channel is already bound to another household''), d1)
                else case find (\<lambda>r. cb_household r = cc_household c) (holders (cc_channel c) (cc_external_id c) d1) of
                    Some r \<Rightarrow>
                      if as_identity (cc_channel c) (cb_actor r) \<noteq> cc_actor c
                        then (Inl (Binding_refused ''this channel is already bound to another member''), d1)
                      else if as_chat (cc_channel c) (case cb_chat_id r of None \<Rightarrow> ''None'' | Some s \<Rightarrow> s) \<noteq> cc_chat_id c
                        then (Inl (Binding_refused ''this sender is already bound in a different conversation''), d1)
                      else (binding_record r, d1)
                  | None \<Rightarrow>
                      insert_binding env (cc_household c) (cc_channel c) (cc_external_id c) (cc_chat_id c) (cc_actor c)
                        (cc_role c) now owner (cc_account c) d1))"

section \<open>Resolving a sender\<close>

record resolved =
  rv_household :: uid
  rv_runtime_ref :: "string option"

datatype lookup_error = Not_routable string | Lookup_unavailable | Lookup_raised string

definition bound_to :: "string \<Rightarrow> string option \<Rightarrow> string option \<Rightarrow> binding_row \<Rightarrow> bool" where
  "bound_to channel ext hmac r \<longleftrightarrow> cb_channel r = channel \<and> cb_published r \<noteq> None \<and>
     (case hmac of Some h \<Rightarrow> cb_hmac r = Some h | None \<Rightarrow> Some (cb_external_id r) = ext)"

definition resolve_sender :: "string \<Rightarrow> string option \<Rightarrow> string option \<Rightarrow> cpdb \<Rightarrow> lookup_error + resolved" where
  "resolve_sender channel ext hmac d =
     (if (ext = None) = (hmac = None) then Inl (Lookup_raised ''ValueError'')
      else case concat (map (\<lambda>b. map (\<lambda>h. (b, h)) (filter (\<lambda>h. ch_id h = cb_household b) (c_households d)))
                 (filter (bound_to channel ext hmac) (c_bindings d))) of
          [] \<Rightarrow> Inl (Not_routable ''unknown_sender'')
        | [(b, h)] \<Rightarrow> Inr \<lparr>rv_household = cb_household b, rv_runtime_ref = ch_runtime_ref h\<rparr>
        | _ \<Rightarrow> Inl (Not_routable ''ambiguous_sender''))"

text \<open>\<open>BootstrapService.activate\<close> publishes the staged bindings of a household.\<close>

definition publish_bindings :: "uid \<Rightarrow> nat \<Rightarrow> cpdb \<Rightarrow> cpdb" where
  "publish_bindings hh revision d =
     d\<lparr>c_bindings := tbl_update (\<lambda>r. cb_household r = hh \<and> cb_published r = None) (\<lambda>r. r\<lparr>cb_published := Some revision\<rparr>)
        (c_bindings d)\<rparr>"

section \<open>The transactions of the endpoints\<close>

text \<open>
  \<open>control_plane/api/bindings.py\<close>: the owner's actor is read, then the challenge is issued or answered,
  and a refusal rolls the transaction back.  The steps are the transactions that change the two tables: the
  endpoints, the planner's owner and seat, the reset, the backfill and the activation, the deletion of old
  challenges by \<open>privacy/retention.py\<close>, and the deletion of a household by \<open>privacy/delete.py\<close>, of which
  only the cascade to these two tables is here.  Adopting a challenge also issues a new revision in the
  same transaction (\<open>api/bindings.py\<close>); that part is the planner's and is not repeated here.
\<close>

datatype endpoint_error = No_owner | Refused binding_error

definition issue_binding_challenge ::
  "bind_env \<Rightarrow> uid \<Rightarrow> string \<Rightarrow> string \<Rightarrow> string \<Rightarrow> string \<Rightarrow> uid option \<Rightarrow> time \<Rightarrow> cpdb \<Rightarrow>
   (endpoint_error + challenge_row \<times> string) \<times> cpdb" where
  "issue_binding_challenge env hh channel ext chat actor account now =
     write_tx (\<lambda>d. case owner_actor hh d of
         None \<Rightarrow> (Inl No_owner, d)
       | Some owner \<Rightarrow>
           (case issue_challenge env hh channel ext actor ''adult'' owner chat account now challenge_ttl_seconds d of
              (Inl e, d') \<Rightarrow> (Inl (Refused e), d')
            | (Inr x, d') \<Rightarrow> (Inr x, d')))"

definition verify_binding ::
  "bind_env \<Rightarrow> string \<Rightarrow> uid \<Rightarrow> time \<Rightarrow> cpdb \<Rightarrow> (endpoint_error + binding_row) \<times> cpdb" where
  "verify_binding env code hh now =
     write_tx (\<lambda>d. case owner_actor hh d of
         None \<Rightarrow> (Inl No_owner, d)
       | Some owner \<Rightarrow>
           (case verify_challenge env code hh owner now d of
              (Inl e, d') \<Rightarrow> (Inl (Refused e), d')
            | (Inr x, d') \<Rightarrow> (Inr x, d')))"

text \<open>The two deletions from outside: what a day has passed over, and everything of an erased household.\<close>

definition forget_challenges :: "time \<Rightarrow> cpdb \<Rightarrow> nat \<times> cpdb" where
  "forget_challenges now d =
     (let P = (\<lambda>c. (case cc_consumed_at c of None \<Rightarrow> cc_expires_at c | Some t \<Rightarrow> t) < now - 24 * 3600)
      in (tbl_count P (c_challenges d), d\<lparr>c_challenges := tbl_delete P (c_challenges d)\<rparr>))"

definition erase_household :: "uid \<Rightarrow> cpdb \<Rightarrow> cpdb" where
  "erase_household hh d =
     d\<lparr>c_households := tbl_delete (\<lambda>h. ch_id h = hh) (c_households d),
       c_bindings := tbl_delete (\<lambda>r. cb_household r = hh) (c_bindings d),
       c_challenges := tbl_delete (\<lambda>c. cc_household c = hh) (c_challenges d)\<rparr>"

datatype binding_op =
    Op_owner uid string string string string "uid option" time
  | Op_seat uid string string uid time
  | Op_retire uid
  | Op_issue uid string string string string "uid option" time
  | Op_verify string uid time
  | Op_backfill
  | Op_publish uid nat
  | Op_forget time
  | Op_erase uid

definition binding_step :: "bind_env \<Rightarrow> binding_op \<Rightarrow> cpdb \<Rightarrow> cpdb" where
  "binding_step env op d =
     (case op of
        Op_owner hh ch ext chat actor account now \<Rightarrow>
          snd (write_tx (ensure_owner_binding env hh ch ext chat actor account now) d)
      | Op_seat hh actor chat account now \<Rightarrow> snd (write_tx (ensure_owner_web_seat env hh actor chat account now) d)
      | Op_retire hh \<Rightarrow> snd (retire_staged_members hh d)
      | Op_issue hh ch ext chat actor account now \<Rightarrow> snd (issue_binding_challenge env hh ch ext chat actor account now d)
      | Op_verify code hh now \<Rightarrow> snd (verify_binding env code hh now d)
      | Op_backfill \<Rightarrow> snd (backfill_sender_digests env d)
      | Op_publish hh revision \<Rightarrow> publish_bindings hh revision d
      | Op_forget now \<Rightarrow> snd (forget_challenges now d)
      | Op_erase hh \<Rightarrow> erase_household hh d)"

section \<open>The laws of an identity\<close>

lemma digit_facts: "is_digit c \<Longrightarrow> \<not> is_space c \<and> lower_latin c = c \<and> c \<noteq> CHR ''s'' \<and> c \<noteq> CHR ''@''"
  by (auto simp: is_digit_def is_space_def lower_latin_def lower_char_def Let_def)

lemma of_char_shift: "n \<le> 222 \<Longrightarrow> of_char (char_of (n + 32) :: char) = (n + 32 :: nat)"
  by (simp add: take_bit_nat_eq_self)

lemma lower_latin_idem [simp]: "lower_latin (lower_latin c) = lower_latin c"
  by (auto simp: lower_latin_def lower_char_def Let_def of_char_shift)

lemma py_lower_idem [simp]: "py_lower (py_lower s) = py_lower s"
  by (simp add: py_lower_def)

lemma stripped_Inr: "stripped v field = Inr t \<longleftrightarrow> t = py_strip v \<and> t \<noteq> []"
  by (auto simp: stripped_def Let_def)

lemma strip_of_clean: "(\<And>c. c \<in> set s \<Longrightarrow> \<not> is_space c) \<Longrightarrow> py_strip s = s"
  by (rule py_strip_id) (cases "s = []", auto)

lemma whatsapp_sender_clean:
  assumes "whatsapp_sender s"
  shows "py_strip s = s" "s \<noteq> []" "\<not> synthetic s" "prefix ''+'' s"
proof -
  obtain ds where s: "s = CHR ''+'' # ds" and ds: "list_all is_digit ds"
    using assms by (auto simp: whatsapp_sender_def split: list.splits)
  have "\<not> is_space c" if "c \<in> set s" for c
  proof (cases "c = CHR ''+''")
    case False
    then have "is_digit c" using that ds by (simp add: s list_all_iff)
    then show ?thesis using digit_facts by blast
  qed (simp add: is_space_def)
  then show "py_strip s = s" by (rule strip_of_clean)
  show "s \<noteq> []" "\<not> synthetic s" "prefix ''+'' s" by (simp_all add: s synthetic_def)
qed

lemma whatsapp_chat_clean: "whatsapp_chat s \<Longrightarrow> py_strip s = s \<and> s \<noteq> [] \<and> \<not> synthetic s"
proof -
  assume w: "whatsapp_chat s"
  define l where "l = takeWhile (\<lambda>c. c \<noteq> CHR ''@'') s"
  define r where "r = drop (Suc (length l)) s"
  have f: "length l < length s" "l \<noteq> []" "is_digit (hd l)" "list_all (\<lambda>c. is_digit c \<or> c = CHR ''-'') (tl l)"
    "list_all domain_char r"
    using w unfolding whatsapp_chat_def Let_def l_def [symmetric] r_def [symmetric] by blast+
  have at: "s ! length l = CHR ''@''" using nth_length_takeWhile f(1) unfolding l_def by fastforce
  have tk: "take (length l) s = l" unfolding l_def by (metis takeWhile_eq_take)
  have "take (length l) s @ s ! length l # r = s" unfolding r_def by (rule id_take_nth_drop [OF f(1), symmetric])
  then have s: "s = l @ CHR ''@'' # r" unfolding at tk by (rule sym)
  have "\<not> is_space c" if "c \<in> set s" for c
  proof -
    have "c = hd l \<or> c \<in> set (tl l) \<or> c = CHR ''@'' \<or> c \<in> set r" using that f(2) unfolding s by (cases l) auto
    then have "is_digit c \<or> c = CHR ''-'' \<or> c = CHR ''@'' \<or> domain_char c"
      using f(3-5) unfolding list_all_iff by blast
    moreover have "domain_char c \<Longrightarrow> \<not> is_space c"
      using digit_facts [of c] by (auto simp: domain_char_def is_space_def Let_def)
    ultimately show ?thesis using digit_facts [of c] by (auto simp: is_space_def)
  qed
  then have "py_strip s = s" by (rule strip_of_clean)
  moreover obtain a l' where l: "l = a # l'" "is_digit a" using f(2,3) by (cases l) auto
  have "\<not> synthetic s" using digit_facts [OF l(2)] by (auto simp: s l(1) synthetic_def)
  ultimately show ?thesis using f(1) by (cases s) auto
qed

lemma telegram_id_clean: "telegram_id s \<Longrightarrow> py_strip s = s \<and> s \<noteq> [] \<and> \<not> synthetic s"
proof -
  assume t: "telegram_id s"
  have "\<not> is_space c \<and> c \<noteq> CHR ''s''" if "c \<in> set s" for c
  proof (cases "s = ''0''")
    case False
    define ds where "ds = (if take 1 s = ''-'' then tl s else s)"
    have "ds \<noteq> []" "is_digit (hd ds)" "list_all is_digit (tl ds)"
      using t False unfolding telegram_id_def Let_def ds_def [symmetric] by auto
    then have "\<And>x. x \<in> set ds \<Longrightarrow> is_digit x" by (cases ds) (auto simp: list_all_iff)
    moreover have "c = CHR ''-'' \<or> c \<in> set ds" using that unfolding ds_def by (cases s) (auto split: if_splits)
    ultimately show ?thesis using digit_facts by (auto simp: is_space_def)
  qed (use that in \<open>auto simp: is_space_def\<close>)
  moreover have ne: "s \<noteq> []" using t by (auto simp: telegram_id_def Let_def)
  ultimately have "hd s \<noteq> CHR ''s''" "py_strip s = s" using strip_of_clean by auto
  then show ?thesis using ne by (cases s) (auto simp: synthetic_def)
qed

lemma canonical_sender_Inr:
  "canonical_sender ch v = Inr x \<longleftrightarrow>
     (let t = py_strip v in t \<noteq> [] \<and>
       (if synthetic t then x = t
        else if ch = ''whatsapp'' then x = (if prefix ''+'' t then t else CHR ''+'' # t) \<and> whatsapp_sender x
        else x = t \<and> (ch = ''telegram'' \<longrightarrow> telegram_id t)))"
  unfolding canonical_sender_def stripped_def Let_def
  by (cases "py_strip v = []"; cases "synthetic (py_strip v)"; cases "ch = ''whatsapp''"; cases "ch = ''telegram''")
    (simp_all, (metis | blast)+)

lemma canonical_sender_idem:
  assumes "canonical_sender ch v = Inr x"
  shows "canonical_sender ch x = Inr x"
proof -
  define t where "t = py_strip v"
  have t: "py_strip t = t" by (simp add: t_def)
  note h = assms [unfolded canonical_sender_Inr Let_def, folded t_def]
  show ?thesis
  proof (cases "\<not> synthetic t \<and> ch = ''whatsapp''")
    case True
    then have x: "whatsapp_sender x" using h True by metis
    from whatsapp_sender_clean [OF this] True show ?thesis unfolding canonical_sender_Inr Let_def
      by (simp only: x if_False if_True simp_thms list.simps)
  next
    case False
    then have "x = t" using h by (simp split: if_splits)
    then show ?thesis using h t False unfolding canonical_sender_Inr Let_def by (simp split: if_splits)
  qed
qed

lemma canonical_chat_Inr:
  "canonical_chat ch v = Inr x \<longleftrightarrow>
     (let t = py_strip v in t \<noteq> [] \<and>
       (if synthetic t then x = t
        else if ch = ''whatsapp'' then x = py_lower t \<and> whatsapp_chat x
        else x = t \<and> (ch = ''telegram'' \<longrightarrow> telegram_id t)))"
  unfolding canonical_chat_def stripped_def Let_def
  by (cases "py_strip v = []"; cases "synthetic (py_strip v)"; cases "ch = ''whatsapp''"; cases "ch = ''telegram''")
    (simp_all, (metis | blast)+)

lemma canonical_chat_idem:
  assumes "canonical_chat ch v = Inr x"
  shows "canonical_chat ch x = Inr x"
proof -
  define t where "t = py_strip v"
  have t: "py_strip t = t" by (simp add: t_def)
  note h = assms [unfolded canonical_chat_Inr Let_def, folded t_def]
  show ?thesis
  proof (cases "\<not> synthetic t \<and> ch = ''whatsapp''")
    case True
    then have x: "whatsapp_chat x" "x = py_lower t" using h True by metis+
    have "py_lower x = x" by (simp add: x(2))
    with whatsapp_chat_clean [OF x(1)] True show ?thesis unfolding canonical_chat_Inr Let_def
      by (simp only: x(1) if_False if_True simp_thms list.simps)
  next
    case False
    then have "x = t" using h by (simp split: if_splits)
    then show ?thesis using h t False unfolding canonical_chat_Inr Let_def by (simp split: if_splits)
  qed
qed

lemma as_identity_canonical: "canonical_sender ch x = Inr x \<Longrightarrow> as_identity ch x = x"
  by (simp add: as_identity_def)

lemma canonical_pair_Inr:
  "canonical_pair ch e c a = Inr (x, y, z) \<longleftrightarrow>
     canonical_sender ch e = Inr x \<and> canonical_chat ch c = Inr y \<and> canonical_sender ch a = Inr z"
  by (auto simp: canonical_pair_def split: sum.splits)

lemma canonical_pair_idem: "canonical_pair ch e c a = Inr (x, y, z) \<Longrightarrow> canonical_pair ch x y z = Inr (x, y, z)"
  unfolding canonical_pair_Inr by (auto dest: canonical_sender_idem canonical_chat_idem)

section \<open>The table of bindings\<close>

text \<open>
  What every row is, and what the rows are together: the sender of a binding is in its channel's form,
  the actor is the sender, the conversation is in its channel's form; a household holds a sender
  once, and on a channel with a gateway only one household holds it.
\<close>

definition identity_ok :: "binding_row \<Rightarrow> bool" where
  "identity_ok r \<longleftrightarrow> cb_channel r \<in> channels \<and>
     canonical_sender (cb_channel r) (cb_external_id r) = Inr (cb_external_id r) \<and> cb_actor r = cb_external_id r \<and>
     (case cb_chat_id r of None \<Rightarrow> False | Some c \<Rightarrow> canonical_chat (cb_channel r) c = Inr c)"

definition one_household :: "binding_row list \<Rightarrow> bool" where
  "one_household B \<longleftrightarrow>
     list_all (\<lambda>r. list_all (\<lambda>s. cb_channel r \<noteq> ''web'' \<and> cb_channel s = cb_channel r \<and> cb_external_id s = cb_external_id r \<longrightarrow>
       cb_household s = cb_household r) B) B"

definition rows_ok :: "binding_row list \<Rightarrow> bool" where
  "rows_ok B \<longleftrightarrow> list_all identity_ok B \<and> distinct (map cb_id B) \<and>
     distinct (map (\<lambda>r. (cb_household r, cb_channel r, cb_external_id r)) B) \<and> one_household B \<and>
     list_all (\<lambda>r. tbl_count (\<lambda>s. cb_household s = cb_household r) B \<le> max_bindings) B"

definition question_ok :: "challenge_row \<Rightarrow> bool" where
  "question_ok c \<longleftrightarrow> cc_channel c \<in> channels \<and> cc_role c \<in> challenge_roles \<and> cc_actor c = cc_external_id c \<and>
     cc_actor c \<noteq> cc_issued_by c \<and>
     canonical_pair (cc_channel c) (cc_external_id c) (cc_chat_id c) (cc_actor c) =
       Inr (cc_external_id c, cc_chat_id c, cc_actor c)"

definition bindings_ok :: "cpdb \<Rightarrow> bool" where
  "bindings_ok d \<longleftrightarrow> rows_ok (c_bindings d) \<and> list_all question_ok (c_challenges d) \<and>
     distinct (map cc_hash (c_challenges d)) \<and> distinct (map cc_id (c_challenges d))"

lemma count_filter_le: "tbl_count P (filter Q T) \<le> tbl_count P T"
  by (induction T) (auto simp: tbl_count_def)

lemma rows_ok_filter: "rows_ok B \<Longrightarrow> rows_ok (filter P B)"
  unfolding rows_ok_def one_household_def list_all_iff
  by (auto simp: distinct_map_filter intro: le_trans [OF count_filter_le])

lemma rows_ok_delete: "rows_ok B \<Longrightarrow> rows_ok (tbl_delete P B)"
  unfolding tbl_delete_def by (rule rows_ok_filter)

lemma rows_ok_update:
  assumes "rows_ok B" and f: "\<And>r. identity_ok (f r) = identity_ok r" "\<And>r. cb_id (f r) = cb_id r"
    "\<And>r. cb_household (f r) = cb_household r" "\<And>r. cb_channel (f r) = cb_channel r"
    "\<And>r. cb_external_id (f r) = cb_external_id r"
  shows "rows_ok (tbl_update P f B)"
proof -
  define g where "g r = (if P r then f r else r)" for r
  have g: "identity_ok (g r) = identity_ok r" "cb_id (g r) = cb_id r" "cb_household (g r) = cb_household r"
    "cb_channel (g r) = cb_channel r" "cb_external_id (g r) = cb_external_id r" for r
    by (simp_all add: g_def f)
  have u: "tbl_update P f B = map g B" by (simp add: tbl_update_def g_def)
  have c: "tbl_count (\<lambda>s. cb_household s = h) (map g B) = tbl_count (\<lambda>s. cb_household s = h) B" for h
    by (induction B) (auto simp: tbl_count_def g)
  have "one_household (map g B) = one_household B" by (simp add: one_household_def g list.pred_map comp_def)
  moreover have "list_all identity_ok (map g B) = list_all identity_ok B" by (simp add: g list.pred_map comp_def)
  moreover have "list_all (\<lambda>r. tbl_count (\<lambda>s. cb_household s = cb_household r) (map g B) \<le> max_bindings) (map g B) =
      list_all (\<lambda>r. tbl_count (\<lambda>s. cb_household s = cb_household r) B \<le> max_bindings) B"
    unfolding c by (simp add: g list.pred_map comp_def)
  moreover have "map cb_id (map g B) = map cb_id B"
    "map (\<lambda>r. (cb_household r, cb_channel r, cb_external_id r)) (map g B) =
     map (\<lambda>r. (cb_household r, cb_channel r, cb_external_id r)) B" by (simp_all add: g)
  ultimately show ?thesis using assms(1) unfolding u rows_ok_def by presburger
qed

lemma rows_ok_snoc:
  assumes "rows_ok B" "identity_ok r" "\<not> list_ex (collides r) B" "\<not> max_bindings \<le> tbl_count (\<lambda>s. cb_household s = cb_household r) B"
    and "\<And>s. s \<in> set B \<Longrightarrow> cb_channel r \<noteq> ''web'' \<Longrightarrow> cb_channel s = cb_channel r \<Longrightarrow> cb_external_id s = cb_external_id r \<Longrightarrow>
       cb_household s = cb_household r"
  shows "rows_ok (B @ [r])"
proof -
  have n: "tbl_count (\<lambda>s. cb_household s = h) (B @ [r]) = tbl_count (\<lambda>s. cb_household s = h) B + (if cb_household r = h then 1 else 0)"
    for h by (simp add: tbl_count_def)
  have c: "cb_id r \<noteq> cb_id s" "(cb_household r, cb_channel r, cb_external_id r) \<noteq> (cb_household s, cb_channel s, cb_external_id s)"
    if "s \<in> set B" for s
    using assms(3) that by (auto simp: list_ex_iff collides_def)
  have "one_household (B @ [r])"
    unfolding one_household_def list_all_iff
  proof (intro ballI impI, elim conjE)
    fix a b
    assume h: "a \<in> set (B @ [r])" "b \<in> set (B @ [r])" "cb_channel a \<noteq> ''web''" "cb_channel b = cb_channel a"
      "cb_external_id b = cb_external_id a"
    have "a \<in> set B \<or> a = r" "b \<in> set B \<or> b = r" using h by auto
    moreover have "a \<in> set B \<Longrightarrow> b \<in> set B \<Longrightarrow> cb_household b = cb_household a"
      using assms(1) h(3-5) unfolding rows_ok_def one_household_def list_all_iff by blast
    ultimately show "cb_household b = cb_household a" using assms(5) [of a] assms(5) [of b] h(3-5) by metis
  qed
  moreover have "list_all (\<lambda>s. tbl_count (\<lambda>x. cb_household x = cb_household s) (B @ [r]) \<le> max_bindings) (B @ [r])"
    using assms(1,4) unfolding n rows_ok_def by (auto simp: list_all_iff not_le)
  moreover have "cb_id r \<notin> set (map cb_id B)"
    "(cb_household r, cb_channel r, cb_external_id r) \<notin> set (map (\<lambda>r. (cb_household r, cb_channel r, cb_external_id r)) B)"
    using c by (auto simp only: set_map image_iff)
  ultimately show ?thesis
    using assms(1,2) unfolding rows_ok_def by simp
qed

lemma holders_exact:
  assumes "rows_ok (c_bindings d)"
  shows "holders ch ext d = filter (\<lambda>r. cb_channel r = ch \<and> cb_external_id r = ext) (c_bindings d)"
  unfolding holders_def
proof (rule filter_cong [OF refl])
  fix r assume "r \<in> set (c_bindings d)"
  then have "identity_ok r" using assms by (simp add: rows_ok_def list_all_iff)
  then show "holds ch ext r = (cb_channel r = ch \<and> cb_external_id r = ext)"
    by (auto simp: holds_def identity_ok_def as_identity_canonical)
qed

lemma foreign_holder_exact:
  assumes "rows_ok (c_bindings d)"
  shows "foreign_holder ch ext hh d \<longleftrightarrow>
    (\<exists>r \<in> set (c_bindings d). cb_channel r = ch \<and> cb_external_id r = ext \<and> cb_household r \<noteq> hh)"
  by (auto simp: foreign_holder_def holders_exact [OF assms] list_ex_iff)

lemma insert_binding_Inr:
  assumes "insert_binding env hh ch ext0 chat0 actor0 role now by_actor account d = (Inr r, d')"
  shows "d' = d\<lparr>c_bindings := c_bindings d @ [r]\<rparr>" "identity_ok r" "admissible d r"
    "canonical_pair ch ext0 chat0 actor0 = Inr (cb_external_id r, the (cb_chat_id r), cb_actor r)"
    "cb_household r = hh" "cb_channel r = ch" "cb_role r = role" "cb_published r = None" "cb_account r = account"
    "\<not> household_is_full hh d" "cb_verified_at r = now" "cb_verified_by r = by_actor"
    "cb_hmac r = sender_digest env (cb_external_id r)"
proof -
  obtain x where x: "canonical_pair ch ext0 chat0 actor0 = Inr x"
    using assms unfolding insert_binding_def by (cases "canonical_pair ch ext0 chat0 actor0") auto
  obtain ext chat actor where p: "canonical_pair ch ext0 chat0 actor0 = Inr (ext, chat, actor)"
    using x by (cases x) auto
  have e: "actor = ext" "\<not> household_is_full hh d"
    using assms unfolding insert_binding_def p by (auto split: if_splits)
  define row where "row = \<lparr>cb_id = be_uuid env d, cb_household = hh, cb_channel = ch, cb_external_id = ext,
       cb_chat_id = Some chat, cb_hmac = sender_digest env ext, cb_actor = actor, cb_role = role,
       cb_verified_at = now, cb_verified_by = by_actor, cb_published = None, cb_account = account\<rparr>"
  have "admissible d row \<and> r = row \<and> d' = d\<lparr>c_bindings := c_bindings d @ [row]\<rparr>"
    using assms e unfolding insert_binding_def p Let_def row_def by (auto split: if_splits)
  then have a: "admissible d r" and r: "r = row" and d': "d' = d\<lparr>c_bindings := c_bindings d @ [r]\<rparr>" by auto
  note f = r [unfolded row_def]
  show "identity_ok r" using a canonical_pair_idem [OF p] e
    by (simp add: identity_ok_def f admissible_def canonical_pair_Inr)
  show "d' = d\<lparr>c_bindings := c_bindings d @ [r]\<rparr>" "admissible d r" "\<not> household_is_full hh d" by fact+
  show "canonical_pair ch ext0 chat0 actor0 = Inr (cb_external_id r, the (cb_chat_id r), cb_actor r)"
    "cb_household r = hh" "cb_channel r = ch" "cb_role r = role" "cb_published r = None" "cb_account r = account"
    "cb_verified_at r = now" "cb_verified_by r = by_actor" "cb_hmac r = sender_digest env (cb_external_id r)"
    using p by (simp_all add: f)
qed

lemma insert_binding_rows:
  assumes "rows_ok (c_bindings d)" "insert_binding env hh ch ext0 chat0 actor0 role now by_actor account d = (Inr r, d')"
    and "ch \<noteq> ''web'' \<Longrightarrow> \<not> foreign_holder ch (cb_external_id r) hh d"
  shows "rows_ok (c_bindings d')"
proof -
  note i = insert_binding_Inr [OF assms(2)]
  have "rows_ok (c_bindings d @ [r])"
    using assms(3) i(3,10) unfolding foreign_holder_exact [OF assms(1)]
    by (intro rows_ok_snoc [OF assms(1) i(2)]) (auto simp: admissible_def household_is_full_def i(5,6))
  then show ?thesis by (simp add: i(1))
qed

end
