(* ===== verification/Gateway.thy ===== *)
theory Gateway
  imports Bindings
begin

text \<open>
  \<open>gateway/whatsapp_router.py\<close> and \<open>gateway/app.py\<close>, with the endpoint the gateway asks,
  \<open>control_plane/api/internal_bindings.py\<close>: a signed message is routed to the household that holds its
  sender, kept in a write-ahead log until that household's runtime took it, and redelivered.  The clock is
  read several times in a call and every reading is a separate field of the world; the answers of the control
  plane and of the runtime are parameters of each step.
\<close>

section \<open>Keys and signatures\<close>

text \<open>\<open>gateway_hmac_key\<close>, \<open>relay_root\<close> and the pinned \<open>relay_keys\<close> of the router; the HMAC and
  UTF-8 are those of the runtime's webhook.\<close>

record gateway_env =
  ge_wa :: wa_env
  ge_sender_key :: "string option"
  ge_root :: "string option"
  ge_pinned :: "(uid \<times> string) list"

definition relay_key_label :: string where "relay_key_label = ''abrolia-relay-key-v1:''"

definition sender_hmac :: "gateway_env \<Rightarrow> string \<Rightarrow> string \<Rightarrow> string" where
  "sender_hmac env sender key = wv_hmac (ge_wa env) key (wv_utf8 (ge_wa env) sender)"

definition derive_relay_secret :: "gateway_env \<Rightarrow> string \<Rightarrow> uid \<Rightarrow> string" where
  "derive_relay_secret env master hh = wv_hmac (ge_wa env) master (wv_utf8 (ge_wa env) (relay_key_label @ hh))"

definition relay_key :: "gateway_env \<Rightarrow> uid \<Rightarrow> string option" where
  "relay_key env hh =
     (case map_of (ge_pinned env) hh of
        Some k \<Rightarrow> Some k
      | None \<Rightarrow> map_option (\<lambda>master. derive_relay_secret env master hh) (ge_root env))"

definition relay_hmac :: "gateway_env \<Rightarrow> string \<Rightarrow> string \<Rightarrow> string \<Rightarrow> string" where
  "relay_hmac env key body timestamp = wv_hmac (ge_wa env) key (signed_text (ge_wa env) body timestamp)"

text \<open>\<open>None\<close> is the \<open>TypeError\<close> of \<open>hmac.compare_digest\<close>.\<close>

definition verify_relay_hmac :: "gateway_env \<Rightarrow> string \<Rightarrow> string \<Rightarrow> string \<Rightarrow> string \<Rightarrow> bool option" where
  "verify_relay_hmac env key body timestamp signature =
     (let expected = relay_hmac env key body timestamp;
          supplied = py_lower (py_strip (remove_prefix ''sha256='' signature))
      in if length supplied \<noteq> length expected then Some False else compare_digest supplied expected)"

section \<open>The write-ahead log\<close>

record g_row =
  g_id :: uid
  g_payload :: string
  g_sender :: string
  g_received :: time
  g_attempts :: nat
  g_next :: time
  g_error :: "string option"
  g_channel :: "string option"
  g_household :: "uid option"
  g_timestamp :: "string option"
  g_signature :: "string option"

definition persist_before_ack ::
  "uid \<Rightarrow> string \<Rightarrow> string \<Rightarrow> string \<Rightarrow> uid option \<Rightarrow> string \<Rightarrow> string \<Rightarrow> time \<Rightarrow> g_row list \<Rightarrow> g_row list" where
  "persist_before_ack i payload sender channel hh timestamp signature now rows =
     rows @ [\<lparr>g_id = i, g_payload = payload, g_sender = sender, g_received = now, g_attempts = 0, g_next = now,
        g_error = None, g_channel = Some channel, g_household = hh, g_timestamp = Some timestamp,
        g_signature = Some signature\<rparr>]"

definition mark_delivered :: "uid \<Rightarrow> g_row list \<Rightarrow> g_row list" where
  "mark_delivered i rows = tbl_delete (\<lambda>r. g_id r = i) rows"

definition defer_row :: "uid \<Rightarrow> string \<Rightarrow> time \<Rightarrow> bool \<Rightarrow> g_row list \<Rightarrow> g_row list" where
  "defer_row i error not_before spend rows =
     tbl_update (\<lambda>r. g_id r = i)
       (\<lambda>r. r\<lparr>g_attempts := g_attempts r + (if spend then 1 else 0), g_next := not_before, g_error := Some error\<rparr>) rows"

definition due_rows :: "time \<Rightarrow> nat \<Rightarrow> g_row list \<Rightarrow> g_row list" where
  "due_rows now limit rows = take limit (sort_key g_received (filter (\<lambda>r. g_next r \<le> now) rows))"

section \<open>Routing\<close>

record g_result =
  gr_delivered :: bool
  gr_code :: string
  gr_household :: "uid option"
  gr_runtime :: "string option"

record delivery =
  dv_household :: uid
  dv_runtime :: "string option"
  dv_payload :: string
  dv_timestamp :: string
  dv_signature :: string

datatype deliver_answer = Took | Runtime_unavailable | Deliver_raised

record g_world =
  gw_enabled :: bool
  gw_now :: time
  gw_route :: time
  gw_after :: time
  gw_resolve :: "string \<Rightarrow> string option \<Rightarrow> string option \<Rightarrow> lookup_error + resolved"
  gw_deliver :: "delivery \<Rightarrow> deliver_answer"

definition denied :: "string \<Rightarrow> g_result" where
  "denied code = \<lparr>gr_delivered = False, gr_code = code, gr_household = None, gr_runtime = None\<rparr>"

text \<open>\<open>int\<close> of a float cuts towards zero.\<close>

definition py_trunc :: "time \<Rightarrow> int" where
  "py_trunc x = (if x < 0 then \<lceil>x\<rceil> else \<lfloor>x\<rfloor>)"

definition fresh :: "time \<Rightarrow> string \<Rightarrow> bool" where
  "fresh now timestamp =
     (case py_int timestamp of None \<Rightarrow> False | Some sent \<Rightarrow> \<bar>py_trunc now - sent\<bar> \<le> replay_window_seconds)"

definition lookup :: "gateway_env \<Rightarrow> g_world \<Rightarrow> string \<Rightarrow> string \<Rightarrow> string + g_result" where
  "lookup env w sender channel =
     (case (case ge_sender_key env of
              Some k \<Rightarrow> gw_resolve w channel None (Some (sender_hmac env sender k))
            | None \<Rightarrow> gw_resolve w channel (Some sender) None) of
        Inl (Not_routable code) \<Rightarrow> Inr (denied code)
      | Inl Lookup_unavailable \<Rightarrow> Inr (denied ''lookup_unavailable'')
      | Inl (Lookup_raised e) \<Rightarrow> Inl e
      | Inr v \<Rightarrow> Inr \<lparr>gr_delivered = True, gr_code = ''ok'', gr_household = Some (rv_household v), gr_runtime = rv_runtime_ref v\<rparr>)"

definition route :: "gateway_env \<Rightarrow> g_world \<Rightarrow> string \<Rightarrow> string \<Rightarrow> string option \<Rightarrow> string + g_result" where
  "route env w sender channel timestamp =
     (case timestamp of
        None \<Rightarrow> if ge_sender_key env \<noteq> None then Inr (denied ''timestamp_replay'') else lookup env w sender channel
      | Some t \<Rightarrow> if fresh (gw_route w) t then lookup env w sender channel else Inr (denied ''timestamp_replay''))"

section \<open>An incoming message\<close>

definition base_backoff_seconds :: time where "base_backoff_seconds = 30"
definition max_attempts :: nat where "max_attempts = 8"
definition max_age_seconds :: time where "max_age_seconds = 24 * 60 * 60"

text \<open>The answer or the exception, the deliveries that were tried, and the log.  \<open>uuid4\<close> gives the row's id.\<close>

type_synonym gateway_step = "(string + g_result) \<times> delivery list \<times> g_row list"

definition deliver_or_keep ::
  "gateway_env \<Rightarrow> g_world \<Rightarrow> uid \<Rightarrow> string \<Rightarrow> string \<Rightarrow> string \<Rightarrow> g_result \<Rightarrow> uid \<Rightarrow> string \<Rightarrow> g_row list \<Rightarrow> gateway_step" where
  "deliver_or_keep env w i payload timestamp signature routed hh key rows =
     (case verify_relay_hmac env key payload timestamp signature of
        None \<Rightarrow> (Inl ''TypeError'', [], rows)
      | Some False \<Rightarrow> (Inr (denied ''hmac_rejected''), [], mark_delivered i rows)
      | Some True \<Rightarrow>
          (let dv = \<lparr>dv_household = hh, dv_runtime = gr_runtime routed, dv_payload = payload,
                 dv_timestamp = timestamp, dv_signature = signature\<rparr>
           in if gw_deliver w dv = Took then (Inr routed, [dv], mark_delivered i rows)
              else (Inr (denied ''runtime_unavailable''), [dv],
                    defer_row i ''runtime_unavailable'' (gw_after w + base_backoff_seconds) True rows)))"

definition handle_webhook ::
  "gateway_env \<Rightarrow> g_world \<Rightarrow> uid \<Rightarrow> string \<Rightarrow> string \<Rightarrow> string \<Rightarrow> string \<Rightarrow> string \<Rightarrow> g_row list \<Rightarrow> gateway_step" where
  "handle_webhook env w i payload sender channel timestamp signature rows =
     (if \<not> gw_enabled w then (Inr (denied ''flag_disabled''), [], rows)
      else if timestamp = [] \<or> signature = [] then (Inr (denied ''hmac_rejected''), [], rows)
      else case route env w sender channel (Some timestamp) of
        Inl e \<Rightarrow> (Inl e, [], rows)
      | Inr routed \<Rightarrow>
          if gr_code routed = ''lookup_unavailable'' then
            (Inr routed, [],
             defer_row i ''lookup_unavailable'' (gw_after w + base_backoff_seconds) True
               (persist_before_ack i payload sender channel None timestamp signature (gw_now w) rows))
          else if \<not> gr_delivered routed then (Inr routed, [], rows)
          else
            (let kept = persist_before_ack i payload sender channel (gr_household routed) timestamp signature (gw_now w) rows
             in case (case gr_household routed of None \<Rightarrow> None | Some hh \<Rightarrow>
                        if hh = [] then None else
                        (case relay_key env hh of None \<Rightarrow> None | Some k \<Rightarrow> if k = [] then None else Some (hh, k))) of
                  None \<Rightarrow> (Inr (denied ''relay_key_absent''), [],
                     defer_row i ''relay_key_absent'' (gw_after w + base_backoff_seconds) True kept)
                | Some (hh, k) \<Rightarrow> deliver_or_keep env w i payload timestamp signature routed hh k kept))"

section \<open>Redelivery\<close>

datatype g_outcome = Oc_delivered | Oc_deferred | Oc_exhausted | Oc_expired | Oc_undeliverable | Oc_unverifiable | Oc_held

definition has_provenance :: "g_row \<Rightarrow> bool" where
  "has_provenance r \<longleftrightarrow> g_channel r \<noteq> None \<and> g_timestamp r \<noteq> None \<and> g_signature r \<noteq> None"

definition worker_defer :: "g_row \<Rightarrow> time \<Rightarrow> string \<Rightarrow> g_row list \<Rightarrow> g_outcome \<times> g_row list" where
  "worker_defer r now error rows =
     (let attempts = g_attempts r + 1
      in if max_attempts \<le> attempts then (Oc_exhausted, mark_delivered (g_id r) rows)
         else (Oc_deferred, defer_row (g_id r) error (now + base_backoff_seconds * 2 ^ (attempts - 1)) True rows))"

definition worker_hold :: "g_row \<Rightarrow> time \<Rightarrow> g_row list \<Rightarrow> g_row list" where
  "worker_hold r now rows = defer_row (g_id r) ''flag_disabled'' (now + base_backoff_seconds) False rows"

text \<open>The outcome of one row, or the exception that leaves \<open>_process\<close>.\<close>

type_synonym worker_step = "(string + g_outcome) \<times> delivery list \<times> g_row list"

definition done_with :: "g_outcome \<Rightarrow> g_row \<Rightarrow> g_row list \<Rightarrow> worker_step" where
  "done_with oc r rows = (Inr oc, [], mark_delivered (g_id r) rows)"

definition deferred :: "g_row \<Rightarrow> time \<Rightarrow> string \<Rightarrow> delivery list \<Rightarrow> g_row list \<Rightarrow> worker_step" where
  "deferred r now error dvs rows = (case worker_defer r now error rows of (oc, rows') \<Rightarrow> (Inr oc, dvs, rows'))"

definition redeliver ::
  "gateway_env \<Rightarrow> g_world \<Rightarrow> g_row \<Rightarrow> string \<Rightarrow> uid \<Rightarrow> string option \<Rightarrow> string option \<Rightarrow> g_row list \<Rightarrow> worker_step" where
  "redeliver env w r stamp hh runtime key rows =
     (if \<not> gw_enabled w then (Inr Oc_held, [], worker_hold r (gw_now w) rows)
      else case key of
        None \<Rightarrow> deferred r (gw_now w) ''relay_key_absent'' [] rows
      | Some k \<Rightarrow>
          (let dv = \<lparr>dv_household = hh, dv_runtime = runtime, dv_payload = g_payload r, dv_timestamp = stamp,
                 dv_signature = relay_hmac env k (g_payload r) stamp\<rparr>
           in case gw_deliver w dv of
                Took \<Rightarrow> (Inr Oc_delivered, [dv], mark_delivered (g_id r) rows)
              | Runtime_unavailable \<Rightarrow> deferred r (gw_after w) ''runtime_unavailable'' [dv] rows
              | Deliver_raised \<Rightarrow> (Inl ''Exception'', [dv], rows)))"

definition process_row :: "gateway_env \<Rightarrow> g_world \<Rightarrow> g_row \<Rightarrow> g_row list \<Rightarrow> worker_step" where
  "process_row env w r rows =
     (if max_age_seconds < gw_now w - g_received r then done_with Oc_expired r rows
      else case (g_channel r, g_timestamp r, g_signature r) of
        (Some channel, Some sent, Some signature) \<Rightarrow>
          (let stamp = int_str (py_trunc (gw_now w))
           in case route env w (g_sender r) channel (Some stamp) of
                Inl e \<Rightarrow> (Inl e, [], rows)
              | Inr routed \<Rightarrow>
                  if \<not> gr_delivered routed \<or> gr_household routed \<noteq> g_household r then done_with Oc_undeliverable r rows
                  else
                    (case gr_household routed of
                       None \<Rightarrow> (Inl ''TypeError'', [], rows)
                     | Some hh \<Rightarrow>
                         (let key = relay_key env hh
                          in case (case key of None \<Rightarrow> Some True
                                     | Some k \<Rightarrow> verify_relay_hmac env k (g_payload r) sent signature) of
                               None \<Rightarrow> (Inl ''TypeError'', [], rows)
                             | Some False \<Rightarrow> done_with Oc_unverifiable r rows
                             | Some True \<Rightarrow> redeliver env w r stamp hh (gr_runtime routed) key rows)))
      | _ \<Rightarrow> done_with Oc_unverifiable r rows)"

text \<open>One pass: each due row is processed in the world it meets; an exception defers the row.\<close>

definition settle_row :: "gateway_env \<Rightarrow> g_world \<Rightarrow> g_row \<Rightarrow> g_row list \<Rightarrow> g_outcome \<times> delivery list \<times> g_row list" where
  "settle_row env w r rows =
     (case process_row env w r rows of
        (Inr oc, dvs, rows') \<Rightarrow> (oc, dvs, rows')
      | (Inl e, dvs, rows') \<Rightarrow> (case worker_defer r (gw_after w) ''worker_error'' rows' of (oc, rows'') \<Rightarrow> (oc, dvs, rows'')))"

fun settle_rows :: "gateway_env \<Rightarrow> (uid \<Rightarrow> g_world) \<Rightarrow> g_row list \<Rightarrow> g_row list \<Rightarrow> g_outcome list \<times> delivery list \<times> g_row list" where
  "settle_rows env world [] rows = ([], [], rows)"
| "settle_rows env world (r # rs) rows =
     (case settle_row env (world (g_id r)) r rows of
        (oc, dvs, rows1) \<Rightarrow> (case settle_rows env world rs rows1 of (ocs, dvs', rows2) \<Rightarrow> (oc # ocs, dvs @ dvs', rows2)))"

definition run_once ::
  "gateway_env \<Rightarrow> time \<Rightarrow> (uid \<Rightarrow> g_world) \<Rightarrow> nat \<Rightarrow> g_row list \<Rightarrow> (g_outcome \<Rightarrow> nat) \<times> delivery list \<times> g_row list" where
  "run_once env now world limit rows =
     (case settle_rows env world (due_rows now limit rows) rows of
        (ocs, dvs, rows') \<Rightarrow> (\<lambda>oc. length (filter (\<lambda>x. x = oc) ocs), dvs, rows'))"

end
