(* ===== verification/BindingLaws.thy ===== *)
theory BindingLaws
  imports Bindings
begin

text \<open>
  What the table of bindings keeps through every transaction on it, what a challenge confers, and what
  the gateway's question is answered with: the properties of
  \<open>control_plane/repositories/bindings.py\<close> and \<open>bindings_resolution.py\<close>.
\<close>

section \<open>Every transaction keeps the table\<close>

lemma insert_binding_frame:
  "c_challenges (snd (insert_binding env hh ch ext chat actor role now by_actor account d)) = c_challenges d"
  "c_households (snd (insert_binding env hh ch ext chat actor role now by_actor account d)) = c_households d"
  by (auto simp: insert_binding_def Let_def split: sum.splits prod.splits)

lemma retire_superseded_ok: "bindings_ok d \<Longrightarrow> bindings_ok (retire_superseded hh d)"
  by (auto simp: bindings_ok_def retire_superseded_def Let_def rows_ok_delete distinct_tbl_delete list_all_iff)

lemma retire_superseded_sub: "set (c_bindings (retire_superseded hh d)) \<subseteq> set (c_bindings d)"
  by (auto simp: retire_superseded_def Let_def)

lemma insert_binding_ok:
  assumes "bindings_ok d" "insert_binding env hh ch ext chat actor role now by_actor account d = (Inr r, d')"
    and "ch \<noteq> ''web'' \<Longrightarrow> \<not> foreign_holder ch (cb_external_id r) hh d"
  shows "bindings_ok d'"
proof -
  have "rows_ok (c_bindings d')" using insert_binding_rows [OF _ assms(2,3)] assms(1) by (simp add: bindings_ok_def)
  moreover have "c_challenges d' = c_challenges d" using insert_binding_frame(1) assms(2) by (metis snd_conv)
  ultimately show ?thesis using assms(1) by (simp add: bindings_ok_def)
qed

lemma ensure_owner_cases:
  assumes "ensure_owner_binding env hh ch ext0 chat0 actor0 account now d = (Inr r, d')"
  obtains "d' = d"
    | ext chat actor where "canonical_pair ch ext0 chat0 actor0 = Inr (ext, chat, actor)" "\<not> foreign_holder ch ext hh d"
        "insert_binding env hh ch ext chat actor ''owner'' now actor account (retire_superseded hh d) = (Inr r, d')"
proof -
  obtain x where x: "canonical_pair ch ext0 chat0 actor0 = Inr x"
    using assms unfolding ensure_owner_binding_def by (cases "canonical_pair ch ext0 chat0 actor0") auto
  obtain ext chat actor where p: "canonical_pair ch ext0 chat0 actor0 = Inr (ext, chat, actor)" using x by (cases x) auto
  show thesis
    using assms that(1) that(2) [OF p]
    unfolding ensure_owner_binding_def p Let_def
    by (auto split: option.splits if_splits)
qed

lemma ensure_owner_ok:
  assumes "bindings_ok d" "ensure_owner_binding env hh ch ext0 chat0 actor0 account now d = (Inr r, d')"
  shows "bindings_ok d'"
  using assms(2)
proof (cases rule: ensure_owner_cases)
  case 1
  then show ?thesis using assms(1) by simp
next
  case (2 ext chat actor)
  have e: "cb_external_id r = ext"
    using insert_binding_Inr(4) [OF 2(3)] canonical_pair_idem [OF 2(1)] by simp
  have "\<not> foreign_holder ch ext hh (retire_superseded hh d)"
    using 2(2) retire_superseded_sub [of hh d] by (auto simp: foreign_holder_def holders_def list_ex_iff)
  then show ?thesis using insert_binding_ok [OF retire_superseded_ok [OF assms(1)] 2(3)] by (simp add: e)
qed

lemma ensure_seat_cases:
  assumes "ensure_owner_web_seat env hh actor0 chat0 account now d = (Inr r, d')"
  obtains "d' = d"
    | ext chat actor where
        "insert_binding env hh ''web'' ext chat actor ''owner'' now actor (Some account)
           (d\<lparr>c_bindings := tbl_delete (owner_seat hh) (c_bindings d)\<rparr>) = (Inr r, d')"
  using assms unfolding ensure_owner_web_seat_def Let_def
  by (auto split: sum.splits prod.splits option.splits list.splits)

lemma ensure_seat_ok:
  assumes "bindings_ok d" "ensure_owner_web_seat env hh actor0 chat0 account now d = (Inr r, d')"
  shows "bindings_ok d'"
  using assms(2)
proof (cases rule: ensure_seat_cases)
  case 1
  then show ?thesis using assms(1) by simp
next
  case (2 ext chat actor)
  have "bindings_ok (d\<lparr>c_bindings := tbl_delete (owner_seat hh) (c_bindings d)\<rparr>)"
    using assms(1) by (simp add: bindings_ok_def rows_ok_delete)
  from insert_binding_ok [OF this 2] show ?thesis by simp
qed

lemma issue_challenge_Inr:
  assumes "issue_challenge env hh ch ext0 actor0 role owner chat0 account now ttl d = (Inr (c, code), d')"
  shows "d' = d\<lparr>c_challenges := c_challenges d @ [c]\<rparr>" "question_ok c"
    "cc_hash c \<notin> cc_hash ` set (c_challenges d)" "cc_id c \<notin> cc_id ` set (c_challenges d)"
    "cc_household c = hh" "cc_issued_by c = owner" "cc_hash c = be_digest env code" "cc_expires_at c = now + ttl"
    "cc_consumed_at c = None" "cc_channel c = ch" "code = be_code env d"
    "open_challenges hh now d < max_open_challenges"
    "holders ch (cc_external_id c) d = []"
proof -
  obtain x where x: "canonical_pair ch ext0 chat0 actor0 = Inr x"
    using assms unfolding issue_challenge_def by (cases "canonical_pair ch ext0 chat0 actor0") (auto split: if_splits)
  obtain ext chat actor where p: "canonical_pair ch ext0 chat0 actor0 = Inr (ext, chat, actor)" using x by (cases x) auto
  define q where "q = \<lparr>cc_id = be_uuid env d, cc_household = hh, cc_channel = ch, cc_external_id = ext,
                            cc_chat_id = chat, cc_actor = actor, cc_role = role, cc_hash = be_digest env (be_code env d),
                            cc_issued_by = owner, cc_expires_at = now + ttl, cc_attempts = 0, cc_consumed_at = None,
                            cc_created_at = now, cc_account = account\<rparr>"
  have f: "ch \<in> channels" "role \<in> challenge_roles" "actor = ext" "actor \<noteq> owner" "\<not> foreign_holder ch ext hh d"
    "find (\<lambda>r. cb_household r = hh) (holders ch ext d) = None" "\<not> max_open_challenges \<le> open_challenges hh now d"
    "\<not> list_ex (\<lambda>x. cc_id x = cc_id q \<or> cc_hash x = cc_hash q) (c_challenges d)"
    "c = q \<and> code = be_code env d \<and> d' = d\<lparr>c_challenges := c_challenges d @ [q]\<rparr>"
    using assms unfolding issue_challenge_def p Let_def q_def by (auto split: if_splits option.splits)
  show "question_ok c" using f p canonical_pair_idem [OF p] by (auto simp: question_ok_def q_def)
  show "holders ch (cc_external_id c) d = []"
    using f(5,6,9) by (auto simp: foreign_holder_def find_None_all list_ex_iff q_def)
  show "d' = d\<lparr>c_challenges := c_challenges d @ [c]\<rparr>"
    "cc_hash c \<notin> cc_hash ` set (c_challenges d)" "cc_id c \<notin> cc_id ` set (c_challenges d)"
    "cc_household c = hh" "cc_issued_by c = owner" "cc_hash c = be_digest env code" "cc_expires_at c = now + ttl"
    "cc_consumed_at c = None" "cc_channel c = ch" "code = be_code env d"
    "open_challenges hh now d < max_open_challenges"
    using f(7,8,9) by (auto simp: q_def list_ex_iff)
qed

lemma issue_challenge_ok:
  assumes "bindings_ok d" "issue_challenge env hh ch ext0 actor0 role owner chat0 account now ttl d = (Inr x, d')"
  shows "bindings_ok d'"
proof -
  obtain c code where x: "x = (c, code)" by (cases x)
  note i = issue_challenge_Inr [OF assms(2) [unfolded x]]
  show ?thesis using assms(1) i(2,3,4) by (simp add: bindings_ok_def i(1))
qed

section \<open>What a challenge confers\<close>

lemma consume_challenge_frame [simp]:
  "c_bindings (consume_challenge i now d) = c_bindings d" "c_households (consume_challenge i now d) = c_households d"
  by (simp_all add: consume_challenge_def)

lemma consume_foreign [simp]:
  "foreign_holder ch ext hh (consume_challenge i now d) = foreign_holder ch ext hh d"
  "holders ch ext (consume_challenge i now d) = holders ch ext d"
  by (simp_all add: foreign_holder_def holders_def)

lemma consume_challenge_ok: "bindings_ok d \<Longrightarrow> bindings_ok (consume_challenge i now d)"
proof -
  assume "bindings_ok d"
  then show ?thesis
    by (auto simp: bindings_ok_def consume_challenge_def question_ok_def list_all_iff tbl_update_ids set_tbl_update)
qed

definition answers :: "bind_env \<Rightarrow> string \<Rightarrow> uid \<Rightarrow> string \<Rightarrow> time \<Rightarrow> challenge_row \<Rightarrow> bool" where
  "answers env code hh owner now c \<longleftrightarrow> cc_hash c = be_digest env code \<and> cc_household c = hh \<and>
     cc_consumed_at c = None \<and> now < cc_expires_at c \<and> cc_issued_by c = owner"

lemma verify_challenge_Inr:
  assumes "verify_challenge env code hh owner now d = (Inr r, d')"
  obtains c where "find (\<lambda>c. cc_hash c = be_digest env code \<and> cc_household c = hh) (c_challenges d) = Some c"
    "answers env code hh owner now c" "\<not> foreign_holder (cc_channel c) (cc_external_id c) hh d"
    "d' = consume_challenge (cc_id c) now d \<and> r \<in> set (holders (cc_channel c) (cc_external_id c) d) \<and> cb_household r = hh \<or>
     insert_binding env hh (cc_channel c) (cc_external_id c) (cc_chat_id c) (cc_actor c) (cc_role c) now owner
       (cc_account c) (consume_challenge (cc_id c) now d) = (Inr r, d')"
proof -
  obtain c where c: "find (\<lambda>c. cc_hash c = be_digest env code \<and> cc_household c = hh) (c_challenges d) = Some c"
    using assms unfolding verify_challenge_def
    by (cases "find (\<lambda>c. cc_hash c = be_digest env code \<and> cc_household c = hh) (c_challenges d)") auto
  have h: "cc_hash c = be_digest env code" "cc_household c = hh" using find_Some_mem [OF c] by auto
  have a: "answers env code hh owner now c" "\<not> foreign_holder (cc_channel c) (cc_external_id c) hh d"
    using assms h unfolding verify_challenge_def c answers_def Let_def by (auto split: if_splits)
  show thesis
  proof (cases "find (\<lambda>r. cb_household r = cc_household c) (holders (cc_channel c) (cc_external_id c) d)")
    case None
    then show ?thesis using assms a h that [OF c a] unfolding verify_challenge_def c answers_def Let_def by (auto split: if_splits)
  next
    case (Some s)
    have "s \<in> set (holders (cc_channel c) (cc_external_id c) d)" "cb_household s = hh" using find_Some_mem [OF Some] h by auto
    moreover have "d' = consume_challenge (cc_id c) now d \<and> binding_record s = Inr r"
      using assms a h Some unfolding verify_challenge_def c answers_def Let_def by (auto split: if_splits)
    ultimately show ?thesis using that [OF c a] by (auto simp: binding_record_def split: if_splits)
  qed
qed

lemma verify_challenge_ok:
  assumes "bindings_ok d" "verify_challenge env code hh owner now d = (Inr r, d')"
  shows "bindings_ok d'"
proof -
  obtain c where c: "find (\<lambda>c. cc_hash c = be_digest env code \<and> cc_household c = hh) (c_challenges d) = Some c"
    "\<not> foreign_holder (cc_channel c) (cc_external_id c) hh d"
    "d' = consume_challenge (cc_id c) now d \<or>
     insert_binding env hh (cc_channel c) (cc_external_id c) (cc_chat_id c) (cc_actor c) (cc_role c) now owner
       (cc_account c) (consume_challenge (cc_id c) now d) = (Inr r, d')"
    by (rule verify_challenge_Inr [OF assms(2)]) auto
  note ok = consume_challenge_ok [OF assms(1), where i = "cc_id c" and now = now]
  have q: "question_ok c" using find_Some_mem [OF c(1)] assms(1) by (auto simp: bindings_ok_def list_all_iff)
  from c(3) show ?thesis
  proof
    assume i: "insert_binding env hh (cc_channel c) (cc_external_id c) (cc_chat_id c) (cc_actor c) (cc_role c) now owner
       (cc_account c) (consume_challenge (cc_id c) now d) = (Inr r, d')"
    have "cb_external_id r = cc_external_id c" using insert_binding_Inr(4) [OF i] q by (simp add: question_ok_def)
    then show ?thesis using insert_binding_ok [OF ok i] c(2) by simp
  qed (use ok in simp)
qed

section \<open>The properties\<close>

lemma write_tx_cases:
  obtains "snd (write_tx body d) = d" | v where "body d = (Inr v, snd (write_tx body d))"
  by (cases "body d"; cases "fst (body d)") (auto simp: write_tx_def)

lemma identity_ok_update [simp]:
  "identity_ok (r\<lparr>cb_hmac := x\<rparr>) = identity_ok r" "identity_ok (r\<lparr>cb_published := y\<rparr>) = identity_ok r"
  by (cases "cb_chat_id r"; simp add: identity_ok_def)+

lemma binding_step_ok: "bindings_ok d \<Longrightarrow> bindings_ok (binding_step env op d)"
proof -
  assume ok: "bindings_ok d"
  show ?thesis
  proof (cases op)
    case (Op_owner hh ch ext chat actor account now)
    then show ?thesis using ok ensure_owner_ok [OF ok]
      by (cases rule: write_tx_cases [of "ensure_owner_binding env hh ch ext chat actor account now" d])
        (auto simp: binding_step_def)
  next
    case (Op_seat hh actor chat account now)
    then show ?thesis using ok ensure_seat_ok [OF ok]
      by (cases rule: write_tx_cases [of "ensure_owner_web_seat env hh actor chat account now" d])
        (auto simp: binding_step_def)
  next
    case (Op_retire hh)
    then show ?thesis using ok by (simp add: binding_step_def retire_staged_members_def Let_def bindings_ok_def rows_ok_delete)
  next
    case (Op_issue hh ch ext chat actor account now)
    then show ?thesis using ok issue_challenge_ok [OF ok]
      by (auto simp: binding_step_def issue_binding_challenge_def write_tx_def split: option.splits prod.splits sum.splits)
  next
    case (Op_verify code hh now)
    then show ?thesis using ok verify_challenge_ok [OF ok]
      by (auto simp: binding_step_def verify_binding_def write_tx_def split: option.splits prod.splits sum.splits)
  next
    case Op_backfill
    then show ?thesis using ok
      by (auto simp: binding_step_def backfill_sender_digests_def bindings_ok_def intro!: rows_ok_update)
  next
    case (Op_publish hh revision)
    then show ?thesis using ok
      by (auto simp: binding_step_def publish_bindings_def bindings_ok_def intro!: rows_ok_update)
  next
    case (Op_forget now)
    then show ?thesis using ok
      by (auto simp: binding_step_def forget_challenges_def Let_def bindings_ok_def list_all_iff distinct_tbl_delete)
  next
    case (Op_erase hh)
    then show ?thesis using ok
      by (auto simp: binding_step_def erase_household_def bindings_ok_def rows_ok_delete list_all_iff distinct_tbl_delete)
  qed
qed

lemma binding_steps_ok: "bindings_ok d \<Longrightarrow> bindings_ok (fold (binding_step env) ops d)"
  by (induction ops arbitrary: d) (simp_all add: binding_step_ok)

definition unbound :: "cpdb \<Rightarrow> cpdb" where
  "unbound d = d\<lparr>c_bindings := [], c_challenges := []\<rparr>"

lemma unbound_ok: "bindings_ok (unbound d)"
  by (simp add: unbound_def bindings_ok_def rows_ok_def one_household_def)

text \<open>C14 (type): whatever the owners, the planner, the worker and the activation do, every row of the
  table is a well-formed identity: its channel is one of the three, its sender and its conversation are
  the strings that channel's own ingest produces, and its actor is its sender.\<close>

theorem bindings_are_canonical:
  "list_all identity_ok (c_bindings (fold (binding_step env) ops (unbound d)))"
  using binding_steps_ok [OF unbound_ok] by (simp add: bindings_ok_def rows_ok_def)

lemma ensure_owner_households:
  "c_households (snd (ensure_owner_binding env hh ch e c a acct now d)) = c_households d"
  by (auto simp: ensure_owner_binding_def Let_def insert_binding_frame retire_superseded_def
      split: sum.splits prod.splits option.splits)

lemma binding_step_households:
  "c_households (binding_step env op d) = (case op of Op_erase hh \<Rightarrow> tbl_delete (\<lambda>h. ch_id h = hh) (c_households d) | x \<Rightarrow> c_households d)"
proof (cases op)
  case (Op_owner hh ch e c a acct now)
  then show ?thesis using ensure_owner_households [of env hh ch e c a acct now d]
    by (auto simp: binding_step_def write_tx_def split: prod.splits sum.splits)
next
  case (Op_seat hh a c acct now)
  have "c_households (snd (ensure_owner_web_seat env hh a c acct now d)) = c_households d"
    by (auto simp: ensure_owner_web_seat_def Let_def insert_binding_frame split: sum.splits prod.splits option.splits)
  then show ?thesis using Op_seat by (auto simp: binding_step_def write_tx_def split: prod.splits sum.splits)
next
  case (Op_issue hh ch e c a acct now)
  have "c_households (snd (issue_challenge env hh ch e a r ow c acct now ttl d)) = c_households d" for r ow ttl
    by (auto simp: issue_challenge_def Let_def split: sum.splits prod.splits option.splits)
  from this [of "''adult''" _ challenge_ttl_seconds] show ?thesis using Op_issue
    by (auto simp: binding_step_def issue_binding_challenge_def write_tx_def split: prod.splits sum.splits option.splits)
      (metis snd_conv)+
next
  case (Op_verify code hh now)
  have "c_households (snd (verify_challenge env code hh ow now d)) = c_households d" for ow
    by (auto simp: verify_challenge_def Let_def insert_binding_frame split: sum.splits prod.splits option.splits)
  then show ?thesis using Op_verify
    by (auto simp: binding_step_def verify_binding_def write_tx_def split: prod.splits sum.splits option.splits)
      (metis snd_conv)+
qed (simp_all add: binding_step_def retire_staged_members_def Let_def backfill_sender_digests_def publish_bindings_def
    forget_challenges_def erase_household_def)

lemma binding_steps_households:
  "distinct (map ch_id (c_households d)) \<Longrightarrow> distinct (map ch_id (c_households (fold (binding_step env) ops d)))"
proof (induction ops arbitrary: d)
  case (Cons op ops)
  have "distinct (map ch_id (c_households (binding_step env op d)))"
    using Cons.prems by (simp add: binding_step_households distinct_tbl_delete split: binding_op.split)
  then show ?case using Cons.IH by simp
qed simp

lemma filter_single:
  assumes "distinct T" "\<And>r s. r \<in> set T \<Longrightarrow> s \<in> set T \<Longrightarrow> P r \<Longrightarrow> P s \<Longrightarrow> r = s"
  shows "filter P T = [] \<or> (\<exists>r \<in> set T. P r \<and> filter P T = [r])"
proof (cases "filter P T")
  case (Cons r rs)
  then have "r \<in> set (filter P T)" by simp
  then have r: "r \<in> set T" "P r" by auto
  have "rs = []"
  proof (cases rs)
    case (Cons s ss)
    then have "s \<in> set (filter P T)" using \<open>filter P T = r # rs\<close> by simp
    then have "r = s" using assms(2) r by auto
    then show ?thesis using assms(1) \<open>filter P T = r # rs\<close> Cons by (metis distinct_filter distinct_length_2_or_more)
  qed simp
  then show ?thesis using r Cons by blast
qed simp

lemma rows_okD:
  assumes "rows_ok B" "r \<in> set B" "s \<in> set B" "cb_channel r \<noteq> ''web''" "cb_channel s = cb_channel r"
    "cb_external_id s = cb_external_id r"
  shows "cb_household s = cb_household r"
  using assms unfolding rows_ok_def one_household_def list_all_iff by blast

lemma find_filter_single: "filter P T = [r] \<Longrightarrow> find P T = Some r"
  by (induction T) (auto split: if_splits)

lemma bound_rows:
  assumes "rows_ok B" "ch \<noteq> ''web''"
  shows "filter (bound_to ch (Some ext) None) B = [] \<or>
    (\<exists>r \<in> set B. bound_to ch (Some ext) None r \<and> filter (bound_to ch (Some ext) None) B = [r])"
proof (rule filter_single)
  show "distinct B" using assms(1) by (auto simp: rows_ok_def distinct_map)
  fix r s assume m: "r \<in> set B" "s \<in> set B" and b: "bound_to ch (Some ext) None r" "bound_to ch (Some ext) None s"
  have "cb_channel r = ch" "cb_channel s = ch" "cb_external_id r = ext" "cb_external_id s = ext"
    using b by (auto simp: bound_to_def)
  moreover from this have "cb_household s = cb_household r"
    using assms m unfolding rows_ok_def one_household_def list_all_iff by blast
  ultimately show "r = s"
    using distinct_same_row [of "\<lambda>r. (cb_household r, cb_channel r, cb_external_id r)" B r s] m assms(1)
    by (simp add: rows_ok_def)
qed

lemma household_rows:
  assumes "distinct (map ch_id H)"
  shows "filter (\<lambda>h. ch_id h = i) H = (case find (\<lambda>h. ch_id h = i) H of None \<Rightarrow> [] | Some h \<Rightarrow> [h])"
proof -
  have "filter (\<lambda>h. ch_id h = i) H = [] \<or> (\<exists>h \<in> set H. ch_id h = i \<and> filter (\<lambda>h. ch_id h = i) H = [h])"
    using assms by (intro filter_single) (auto simp: distinct_map dest: inj_onD)
  then show ?thesis
  proof
    assume e: "filter (\<lambda>h. ch_id h = i) H = []"
    then have "find (\<lambda>h. ch_id h = i) H = None" by (auto simp: find_None_all filter_empty_conv)
    then show ?thesis by (simp add: e)
  next
    assume "\<exists>h \<in> set H. ch_id h = i \<and> filter (\<lambda>h. ch_id h = i) H = [h]"
    then obtain h where h: "filter (\<lambda>h. ch_id h = i) H = [h]" by blast
    from find_filter_single [OF h] show ?thesis by (simp add: h)
  qed
qed

lemma resolve_single:
  assumes "rows_ok (c_bindings d)" "distinct (map ch_id (c_households d))" "ch \<noteq> ''web''"
  shows "resolve_sender ch (Some ext) None d =
    (case find (bound_to ch (Some ext) None) (c_bindings d) of
       None \<Rightarrow> Inl (Not_routable ''unknown_sender'')
     | Some r \<Rightarrow> (case find (\<lambda>h. ch_id h = cb_household r) (c_households d) of
           None \<Rightarrow> Inl (Not_routable ''unknown_sender'')
         | Some h \<Rightarrow> Inr \<lparr>rv_household = cb_household r, rv_runtime_ref = ch_runtime_ref h\<rparr>))"
proof (cases "filter (bound_to ch (Some ext) None) (c_bindings d) = []")
  case True
  then have "find (bound_to ch (Some ext) None) (c_bindings d) = None" by (auto simp: find_None_all filter_empty_conv)
  then show ?thesis by (simp add: resolve_sender_def True)
next
  case False
  then obtain r where r: "r \<in> set (c_bindings d)" "filter (bound_to ch (Some ext) None) (c_bindings d) = [r]"
    using bound_rows [OF assms(1,3), of ext] by auto
  from find_filter_single [OF r(2)] have "find (bound_to ch (Some ext) None) (c_bindings d) = Some r" .
  then show ?thesis
    by (auto simp: resolve_sender_def r(2) household_rows [OF assms(2)] split: option.splits)
qed

text \<open>C11 (invariant): from a table with no bindings, whatever transactions the owners of all households,
  the planner, the worker, the activation and the deletions run, in any order and with any refusals between them, a
  sender of a channel with a gateway is never held twice: asking for it has one household as its answer,
  or none, and never the refusal of an ambiguous sender.\<close>

theorem a_sender_reaches_one_household:
  assumes "distinct (map ch_id (c_households d))" "channel \<noteq> ''web''"
  shows "resolve_sender channel (Some ext) None (fold (binding_step env) ops (unbound d))
     \<noteq> Inl (Not_routable ''ambiguous_sender'')"
proof -
  have "rows_ok (c_bindings (fold (binding_step env) ops (unbound d)))"
    using binding_steps_ok [OF unbound_ok] by (simp add: bindings_ok_def)
  moreover have "distinct (map ch_id (c_households (fold (binding_step env) ops (unbound d))))"
    using binding_steps_households [of "unbound d"] assms(1) by (simp add: unbound_def)
  ultimately show ?thesis by (simp add: resolve_single [OF _ _ assms(2)] split: option.splits)
qed

lemma verify_binding_Inr:
  assumes "verify_binding env code hh now d = (Inr r, d')"
  obtains owner where "owner_actor hh d = Some owner" "verify_challenge env code hh owner now d = (Inr r, d')"
  using assms by (auto simp: verify_binding_def write_tx_def split: option.splits prod.splits sum.splits)

lemma challenge_confers_once_rows:
  assumes "bindings_ok d" "verify_binding env code hh now d = (Inr r, d')"
  shows "(\<exists>c owner. c \<in> set (c_challenges d) \<and> owner_actor hh d = Some owner \<and> answers env code hh owner now c \<and>
      cb_household r = hh \<and> cb_channel r = cc_channel c \<and> cb_external_id r = cc_external_id c \<and>
      (c_bindings d' = c_bindings d \<and> r \<in> set (c_bindings d) \<or>
       c_bindings d' = c_bindings d @ [r] \<and> cb_chat_id r = Some (cc_chat_id c) \<and> cb_role r = ''adult'' \<and>
       cb_actor r = cc_actor c \<and> cb_account r = cc_account c \<and> cb_verified_at r = now \<and>
       cb_published r = None \<and> cb_verified_by r = owner))"
proof -
  obtain owner where o: "owner_actor hh d = Some owner" "verify_challenge env code hh owner now d = (Inr r, d')"
    using verify_binding_Inr [OF assms(2)] .
  obtain c where c: "find (\<lambda>c. cc_hash c = be_digest env code \<and> cc_household c = hh) (c_challenges d) = Some c"
    "answers env code hh owner now c"
    "d' = consume_challenge (cc_id c) now d \<and> r \<in> set (holders (cc_channel c) (cc_external_id c) d) \<and> cb_household r = hh \<or>
     insert_binding env hh (cc_channel c) (cc_external_id c) (cc_chat_id c) (cc_actor c) (cc_role c) now owner
       (cc_account c) (consume_challenge (cc_id c) now d) = (Inr r, d')"
    by (rule verify_challenge_Inr [OF o(2)]) auto
  have m: "c \<in> set (c_challenges d)" "cc_hash c = be_digest env code" using find_Some_mem [OF c(1)] by auto
  then have q: "question_ok c" using assms(1) by (auto simp: bindings_ok_def list_all_iff)
  have rows: "rows_ok (c_bindings d)" using assms(1) by (simp add: bindings_ok_def)
  have "cb_household r = hh \<and> cb_channel r = cc_channel c \<and> cb_external_id r = cc_external_id c \<and>
      (c_bindings d' = c_bindings d \<and> r \<in> set (c_bindings d) \<or>
       c_bindings d' = c_bindings d @ [r] \<and> cb_chat_id r = Some (cc_chat_id c) \<and> cb_role r = ''adult'' \<and>
       cb_actor r = cc_actor c \<and> cb_account r = cc_account c \<and> cb_verified_at r = now \<and>
       cb_published r = None \<and> cb_verified_by r = owner)"
    using c(3)
  proof
    assume "d' = consume_challenge (cc_id c) now d \<and> r \<in> set (holders (cc_channel c) (cc_external_id c) d) \<and> cb_household r = hh"
    then show ?thesis by (auto simp: holders_exact [OF rows])
  next
    assume i: "insert_binding env hh (cc_channel c) (cc_external_id c) (cc_chat_id c) (cc_actor c) (cc_role c) now owner
       (cc_account c) (consume_challenge (cc_id c) now d) = (Inr r, d')"
    note f = insert_binding_Inr [OF i]
    have "cb_chat_id r = Some (cc_chat_id c)" using f(2,4) q
      by (auto simp: question_ok_def identity_ok_def split: option.splits)
    then show ?thesis using f q by (auto simp: question_ok_def challenge_roles_def)
  qed
  then show ?thesis using m(1) o(1) c(2) by blast
qed

lemma used_code_is_refused:
  assumes "bindings_ok d" "verify_binding env code hh now d = (Inr r, d')"
  shows "\<exists>e. verify_binding env code hh2 now2 d' = (Inl e, d')"
proof -
  obtain owner where o: "verify_challenge env code hh owner now d = (Inr r, d')"
    using verify_binding_Inr [OF assms(2)] .
  obtain c where c: "find (\<lambda>c. cc_hash c = be_digest env code \<and> cc_household c = hh) (c_challenges d) = Some c"
    "d' = consume_challenge (cc_id c) now d \<or>
     insert_binding env hh (cc_channel c) (cc_external_id c) (cc_chat_id c) (cc_actor c) (cc_role c) now owner
       (cc_account c) (consume_challenge (cc_id c) now d) = (Inr r, d')"
    by (rule verify_challenge_Inr [OF o]) auto
  have m: "c \<in> set (c_challenges d)" "cc_hash c = be_digest env code" using find_Some_mem [OF c(1)] by auto
  have ch: "c_challenges d' = c_challenges (consume_challenge (cc_id c) now d)"
    using c(2) insert_binding_frame(1) by (metis snd_conv)
  have used: "cc_consumed_at x \<noteq> None" if "x \<in> set (c_challenges d')" "cc_hash x = be_digest env code" for x
  proof -
    note h = that
    obtain y where y: "y \<in> set (c_challenges d)"
      "x = (if cc_id y = cc_id c then y\<lparr>cc_consumed_at := Some now, cc_attempts := cc_attempts y + 1\<rparr> else y)"
      using h(1) unfolding ch by (auto simp: consume_challenge_def tbl_update_def)
    then have "cc_hash y = cc_hash c" using h(2) m(2) by (auto split: if_splits)
    then have "y = c" using distinct_same_row [of cc_hash "c_challenges d" y c] y(1) m(1) assms(1) by (simp add: bindings_ok_def)
    then show ?thesis using y(2) by simp
  qed
  have "\<exists>e. verify_challenge env code hh2 ow now2 d' = (Inl e, d')" for ow
  proof (cases "find (\<lambda>c. cc_hash c = be_digest env code \<and> cc_household c = hh2) (c_challenges d')")
    case (Some x)
    then have "cc_consumed_at x \<noteq> None" using find_Some_mem [OF Some] used by blast
    then show ?thesis unfolding verify_challenge_def Some by simp
  qed (simp add: verify_challenge_def)
  then show ?thesis
    by (auto simp: verify_binding_def write_tx_def split: option.splits prod.splits sum.splits)
      (metis prod.inject sum.distinct(1))
qed

text \<open>C12 (safety): a code confers what it names and nothing else, once.  When an owner answers a
  challenge, it is an unanswered one of the owner's own household, unexpired, which the present owner
  issued; either the binding was there already, and the table is unchanged, or exactly one row is
  appended, with the channel, sender, actor, conversation, account and role the challenge names, an adult and
  never an owner, dated at the answer, staged and not yet routable.  The same code is then refused, whoever presents it and when.\<close>

theorem challenge_confers_once:
  assumes "bindings_ok d" "verify_binding env code hh now d = (Inr r, d')"
  shows "(\<exists>c owner. c \<in> set (c_challenges d) \<and> owner_actor hh d = Some owner \<and> answers env code hh owner now c \<and>
      cb_household r = hh \<and> cb_channel r = cc_channel c \<and> cb_external_id r = cc_external_id c \<and>
      (c_bindings d' = c_bindings d \<and> r \<in> set (c_bindings d) \<or>
       c_bindings d' = c_bindings d @ [r] \<and> cb_chat_id r = Some (cc_chat_id c) \<and> cb_role r = ''adult'' \<and>
       cb_actor r = cc_actor c \<and> cb_account r = cc_account c \<and> cb_verified_at r = now \<and>
       cb_published r = None \<and> cb_verified_by r = owner)) \<and>
    (\<exists>e. verify_binding env code hh2 now2 d' = (Inl e, d'))"
  using challenge_confers_once_rows [OF assms] used_code_is_refused [OF assms] by blast

lemma verify_binding_ok: "bindings_ok d \<Longrightarrow> verify_binding env code hh now d = (Inr r, d') \<Longrightarrow> bindings_ok d'"
  using verify_challenge_ok by (auto elim!: verify_binding_Inr)

lemma resolve_same_rows:
  "c_bindings d' = c_bindings d \<or> (\<exists>r. c_bindings d' = c_bindings d @ [r] \<and> cb_published r = None) \<Longrightarrow>
   c_households d' = c_households d \<Longrightarrow> resolve_sender ch e h d' = resolve_sender ch e h d"
  by (auto simp: resolve_sender_def bound_to_def)

text \<open>C13 (functional): a member whose challenge was answered is not routed to before the revision that
  carries them is live, and is afterwards: verification changes no answer of the gateway's question on
  any channel, and once the household's activation has published its staged rows the sender resolves to
  exactly that household and its runtime.\<close>

theorem verified_member_is_reached:
  assumes "bindings_ok d" "distinct (map ch_id (c_households d))" "verify_binding env code hh now d = (Inr r, d')"
    and "cb_channel r \<noteq> ''web''" "h \<in> set (c_households d)" "ch_id h = hh"
  shows "resolve_sender ch e k d' = resolve_sender ch e k d \<and>
    resolve_sender (cb_channel r) (Some (cb_external_id r)) None (publish_bindings hh revision d') =
      Inr \<lparr>rv_household = hh, rv_runtime_ref = ch_runtime_ref h\<rparr>"
proof
  have rows: "c_bindings d' = c_bindings d \<and> r \<in> set (c_bindings d) \<or> c_bindings d' = c_bindings d @ [r] \<and> cb_published r = None"
    and hh: "cb_household r = hh"
    using challenge_confers_once_rows [OF assms(1,3)] by auto
  have hs: "c_households d' = c_households d"
    using binding_step_households [of env "Op_verify code hh now" d] assms(3) by (simp add: binding_step_def)
  show "resolve_sender ch e k d' = resolve_sender ch e k d" using rows hs by (intro resolve_same_rows) auto
  let ?d = "publish_bindings hh revision d'"
  have ok: "rows_ok (c_bindings ?d)"
    using binding_step_ok [OF verify_binding_ok [OF assms(1,3)], of env "Op_publish hh revision"]
    by (simp add: binding_step_def bindings_ok_def)
  have hs': "c_households ?d = c_households d" by (simp add: publish_bindings_def hs)
  define s where "s = (if cb_published r = None then r\<lparr>cb_published := Some revision\<rparr> else r)"
  have "r \<in> set (c_bindings d')" using rows by auto
  then have "s \<in> set (c_bindings ?d)" using hh by (auto simp: publish_bindings_def tbl_update_def s_def image_iff)
  then have s: "s \<in> set (c_bindings ?d)" "cb_channel s = cb_channel r" "cb_external_id s = cb_external_id r"
    "cb_household s = hh" "cb_published s \<noteq> None"
    using hh by (auto simp: s_def)
  then obtain t where t: "find (bound_to (cb_channel r) (Some (cb_external_id r)) None) (c_bindings ?d) = Some t"
    by (cases "find (bound_to (cb_channel r) (Some (cb_external_id r)) None) (c_bindings ?d)")
      (auto simp: find_None_all bound_to_def)
  have "t \<in> set (c_bindings ?d)" "cb_channel t = cb_channel r" "cb_external_id t = cb_external_id r"
    using find_Some_mem [OF t] by (auto simp: bound_to_def)
  then have th: "cb_household t = hh"
    using rows_okD [OF ok s(1), of t] s(2-4) assms(4) by simp
  have fh: "find (\<lambda>x. ch_id x = hh) (c_households d) = Some h"
    using assms(2,5,6) tbl_get_mem [of ch_id "c_households d" h] by (simp add: tbl_get_def)
  have dh: "distinct (map ch_id (c_households ?d))" unfolding hs' by (rule assms(2))
  show "resolve_sender (cb_channel r) (Some (cb_external_id r)) None ?d = Inr \<lparr>rv_household = hh, rv_runtime_ref = ch_runtime_ref h\<rparr>"
    unfolding resolve_single [OF ok dh assms(4)] t hs' by (simp add: th fh)
qed

section \<open>Witnesses\<close>

definition sample_bind_env :: bind_env where
  "sample_bind_env = \<lparr>be_digest = (\<lambda>c. c), be_hmac = (\<lambda>k s. k @ s), be_key = ''k'', be_uuid = (\<lambda>d. ''n''), be_code = (\<lambda>d. ''secret'')\<rparr>"

definition sample_home :: cp_household where
  "sample_home = \<lparr>ch_id = ''h1'', ch_status = ''active'', ch_revision = 1, ch_runtime_ref = Some ''fly:app'',
     ch_created_at = 0, ch_updated_at = 0, ch_deleted_at = None, ch_slug = ''hh-h1'', ch_language = Some ''de'',
     ch_timezone = Some ''Europe/Berlin'', ch_country = Some ''DE'', ch_residency = ''eu-app''\<rparr>"

definition sample_owner_row :: binding_row where
  "sample_owner_row = \<lparr>cb_id = ''b1'', cb_household = ''h1'', cb_channel = ''telegram'', cb_external_id = ''11'',
     cb_chat_id = Some ''-100'', cb_hmac = None, cb_actor = ''11'', cb_role = ''owner'', cb_verified_at = 0,
     cb_verified_by = ''11'', cb_published = Some 1, cb_account = None\<rparr>"

definition sample_challenge :: challenge_row where
  "sample_challenge = \<lparr>cc_id = ''c1'', cc_household = ''h1'', cc_channel = ''whatsapp'', cc_external_id = ''+99'',
     cc_chat_id = ''99@g.us'', cc_actor = ''+99'', cc_role = ''adult'', cc_hash = ''secret'', cc_issued_by = ''11'',
     cc_expires_at = 900, cc_attempts = 0, cc_consumed_at = None, cc_created_at = 0, cc_account = None\<rparr>"

definition sample_cpdb :: cpdb where
  "sample_cpdb = empty_cpdb\<lparr>c_households := [sample_home], c_bindings := [sample_owner_row], c_challenges := [sample_challenge]\<rparr>"

definition sample_member :: binding_row where
  "sample_member = \<lparr>cb_id = ''n'', cb_household = ''h1'', cb_channel = ''whatsapp'', cb_external_id = ''+99'',
     cb_chat_id = Some ''99@g.us'', cb_hmac = Some ''k+99'', cb_actor = ''+99'', cb_role = ''adult'', cb_verified_at = 5,
     cb_verified_by = ''11'', cb_published = None, cb_account = None\<rparr>"

lemma sample_strings:
  "canonical_pair ''whatsapp'' ''+99'' ''99@g.us'' ''+99'' = Inr (''+99'', ''99@g.us'', ''+99'')"
  "canonical_sender ''telegram'' ''11'' = Inr ''11''" "canonical_chat ''telegram'' ''-100'' = Inr ''-100''"
  by code_simp+

lemma sample_cpdb_ok: "bindings_ok sample_cpdb"
  using sample_strings
  by (simp add: bindings_ok_def sample_cpdb_def rows_ok_def one_household_def identity_ok_def question_ok_def
      sample_owner_row_def sample_challenge_def channels_def challenge_roles_def tbl_count_def max_bindings_def)

lemma sample_verified:
  "verify_binding sample_bind_env ''secret'' ''h1'' 5 sample_cpdb =
     (Inr sample_member,
      (consume_challenge ''c1'' 5 sample_cpdb)\<lparr>c_bindings := [sample_owner_row, sample_member]\<rparr>)"
  using sample_strings
  by (simp add: verify_binding_def write_tx_def owner_actor_def tbl_first_def verify_challenge_def sample_cpdb_def
      sample_owner_row_def sample_challenge_def sample_bind_env_def insert_binding_def household_is_full_def tbl_count_def
      max_bindings_def admissible_def channels_def known_household_def collides_def sample_home_def sample_member_def
      consume_challenge_def foreign_holder_def holders_def holds_def sender_digest_def Let_def)

theorem a_sender_reaches_one_household_witness:
  "resolve_sender ''telegram'' (Some ''11'') None (fold (binding_step sample_bind_env) [Op_backfill] (unbound sample_cpdb))
     \<noteq> Inl (Not_routable ''ambiguous_sender'')"
  by (rule a_sender_reaches_one_household) (simp_all add: sample_cpdb_def)

theorem challenge_confers_once_witness:
  "\<exists>e d'. verify_binding sample_bind_env ''secret'' ''h1'' 5 sample_cpdb = (Inr sample_member, d') \<and>
     verify_binding sample_bind_env ''secret'' ''h1'' 6 d' = (Inl e, d')"
  using challenge_confers_once [OF sample_cpdb_ok sample_verified, where ?hh2.0 = "''h1''" and ?now2.0 = 6] sample_verified by blast

theorem verified_member_is_reached_witness:
  "\<exists>d'. verify_binding sample_bind_env ''secret'' ''h1'' 5 sample_cpdb = (Inr sample_member, d') \<and>
     resolve_sender ''whatsapp'' (Some ''+99'') None (publish_bindings ''h1'' 2 d') =
       Inr \<lparr>rv_household = ''h1'', rv_runtime_ref = Some ''fly:app''\<rparr>"
  using verified_member_is_reached [OF sample_cpdb_ok _ sample_verified, where h = sample_home and revision = 2]
    sample_verified by (auto simp: sample_cpdb_def sample_home_def sample_member_def)

section \<open>The room of the owner's web seat\<close>

text \<open>When the owner's state has changed, reconciling the primary channel removes the web seat with the
  other rows of the owner, so the seat that is then asked for is a new one in a new room.\<close>

lemma reset_removes_the_web_seat:
  assumes "ensure_owner_binding env hh ch ext0 chat0 actor0 account now d = (Inr r, d')" "ch \<noteq> ''web''" "d' \<noteq> d"
  shows "filter (owner_seat hh) (c_bindings d') = []"
  using assms(1)
proof (cases rule: ensure_owner_cases)
  case (2 ext chat actor)
  note i = insert_binding_Inr [OF 2(3)]
  show ?thesis using i(1,6) assms(2) by (auto simp: owner_seat_def filter_empty_conv retire_superseded_def Let_def)
qed (use assms(3) in simp)

lemma new_seat_new_room:
  assumes "filter (owner_seat hh) (c_bindings d) = []" "ensure_owner_web_seat env hh actor (web_seat_chat_id actor) account now d = (Inr r, d')"
    "canonical_pair ''web'' actor (web_seat_chat_id actor) actor = Inr (x, y, z)"
  shows "cb_chat_id r = Some y"
proof -
  have "insert_binding env hh ''web'' x y z ''owner'' now z (Some account)
      (d\<lparr>c_bindings := tbl_delete (owner_seat hh) (c_bindings d)\<rparr>) = (Inr r, d')"
    using assms(2) unfolding ensure_owner_web_seat_def assms(1) Let_def by (simp add: assms(3))
  note i = insert_binding_Inr [OF this]
  show ?thesis using i(2,4) canonical_pair_idem [OF assms(3)] by (auto simp: identity_ok_def split: option.splits)
qed

end
