(* ===== verification/GatewayLaws.thy ===== *)
theory GatewayLaws
  imports Gateway BindingLaws
begin

text \<open>
  What the gateway delivers, to whom, and what becomes of a message it took: the properties of
  \<open>gateway/whatsapp_router.py\<close>.
\<close>

section \<open>Numerals\<close>

lemma digits_value_snoc:
  assumes "list_all is_digit_char xs" "m < 10"
  shows "digits_value acc (xs @ [char_of (m + 48 :: nat)]) = map_option (\<lambda>v. 10 * v + int m) (digits_value acc xs)"
  using assms(1)
proof (induction xs arbitrary: acc)
  case Nil
  have "m + 48 < 256" using assms(2) by simp
  then have "(of_char (char_of (m + 48) :: char) :: nat) = m + 48" by (simp add: take_bit_nat_eq_self)
  then show ?case using assms(2) by (simp add: Let_def)
qed (simp add: Let_def is_digit_char_def)

lemma nat_digits_are_digits: "list_all is_digit_char (nat_digits n)"
proof (induction n rule: nat_digits.induct)
  case (1 n)
  have d: "is_digit_char (char_of (m + 48 :: nat))" if "m < 10" for m
  proof -
    have "(of_char (char_of (m + 48) :: char) :: nat) = m + 48" using that by (simp add: take_bit_nat_eq_self)
    then show ?thesis using that by (simp add: is_digit_char_def)
  qed
  show ?case using 1 d by (subst nat_digits.simps) simp
qed

lemma digits_value_nat_digits: "digits_value 0 (nat_digits n) = Some (int n)"
proof (induction n rule: nat_digits.induct)
  case (1 n)
  show ?case
  proof (cases "n < 10")
    case True
    then show ?thesis using digits_value_snoc [of "[]" n 0] by (subst nat_digits.simps) simp
  next
    case False
    have "n = 10 * (n div 10) + n mod 10" by simp
    then have "10 * int (n div 10) + int (n mod 10) = int n" by (metis of_nat_add of_nat_mult of_nat_numeral)
    then show ?thesis using False 1 digits_value_snoc [OF nat_digits_are_digits, of "n mod 10" 0 "n div 10"]
      by (subst nat_digits.simps) simp
  qed
qed

lemma digit_char_no_space: "is_digit_char c \<Longrightarrow> \<not> is_space c"
  by (auto simp: is_space_def is_digit_char_def)

lemma py_int_int_str: "py_int (int_str i) = Some i"
proof -
  define ds where "ds = nat_digits (nat \<bar>i\<bar>)"
  have ne: "ds \<noteq> []" unfolding ds_def by (subst nat_digits.simps) simp
  have d: "is_digit_char c" if "c \<in> set ds" for c
    using that nat_digits_are_digits unfolding ds_def list_all_iff by blast
  have s: "int_str i = (if i < 0 then CHR ''-'' # ds else ds)" by (auto simp: int_str_def ds_def)
  have clean: "\<not> is_space c" if "c \<in> set (int_str i)" for c
    using that d digit_char_no_space by (auto simp: s is_space_def [of "CHR ''-''"] split: if_splits)
  have st: "py_strip (int_str i) = int_str i" by (rule strip_of_clean) (rule clean)
  obtain c cs where c: "ds = c # cs" "is_digit_char c" using ne d by (cases ds) auto
  then have "c \<noteq> CHR ''-''" "c \<noteq> CHR ''+''" "c \<noteq> CHR ''_''" by (auto simp: is_digit_char_def)
  moreover have "digits_value 0 ds = Some \<bar>i\<bar>" by (simp add: ds_def digits_value_nat_digits)
  ultimately show ?thesis unfolding py_int_def st unfolding s c(1)
    by (cases "i < 0") (simp_all add: Let_def c(1) del: digits_value.simps)
qed

section \<open>What is delivered\<close>

lemma lookup_delivered:
  "lookup env w sender ch = Inr routed \<Longrightarrow> gr_delivered routed \<Longrightarrow> gr_household routed \<noteq> None"
  by (auto simp: lookup_def denied_def split: sum.splits lookup_error.splits option.splits)

lemma route_delivered:
  "route env w sender ch t = Inr routed \<Longrightarrow> gr_delivered routed \<Longrightarrow>
     gr_household routed \<noteq> None \<and> lookup env w sender ch = Inr routed"
  using lookup_delivered by (auto simp: route_def denied_def split: option.splits if_splits)

text \<open>The delivery a row entitles to, in the world it is processed in.\<close>

definition entitled :: "gateway_env \<Rightarrow> g_world \<Rightarrow> g_row \<Rightarrow> delivery \<Rightarrow> bool" where
  "entitled env w r dv \<longleftrightarrow> gw_enabled w \<and> gw_now w - g_received r \<le> max_age_seconds \<and>
     g_household r = Some (dv_household dv) \<and> dv_payload dv = g_payload r \<and>
     dv_timestamp dv = int_str (py_trunc (gw_now w)) \<and>
     (case (g_channel r, g_timestamp r, g_signature r, relay_key env (dv_household dv)) of
        (Some ch, Some sent, Some signature, Some k) \<Rightarrow>
          lookup env w (g_sender r) ch = Inr \<lparr>gr_delivered = True, gr_code = ''ok'',
              gr_household = Some (dv_household dv), gr_runtime = dv_runtime dv\<rparr> \<and>
          verify_relay_hmac env k (g_payload r) sent signature = Some True \<and>
          dv_signature dv = relay_hmac env k (g_payload r) (dv_timestamp dv)
      | _ \<Rightarrow> False)"

lemma lookup_result:
  "lookup env w sender ch = Inr routed \<Longrightarrow> gr_delivered routed \<Longrightarrow>
     routed = \<lparr>gr_delivered = True, gr_code = ''ok'', gr_household = gr_household routed, gr_runtime = gr_runtime routed\<rparr>"
  by (auto simp: lookup_def denied_def split: sum.splits lookup_error.splits option.splits)

lemma redeliver_delivers:
  assumes "redeliver env w r stamp hh rt key rows = (res, dvs, rows')" "dv \<in> set dvs"
  shows "gw_enabled w \<and> dvs = [dv] \<and> (\<exists>k. key = Some k \<and>
     dv = \<lparr>dv_household = hh, dv_runtime = rt, dv_payload = g_payload r, dv_timestamp = stamp,
           dv_signature = relay_hmac env k (g_payload r) stamp\<rparr>)"
  using assms
  by (auto simp: redeliver_def deferred_def Let_def split: if_splits option.splits deliver_answer.splits prod.splits)

lemma process_row_cases:
  assumes "process_row env w r rows = (res, dvs, rows')"
  obtains (kept) e where "res = Inl e" "dvs = []" "rows' = rows" "gw_now w - g_received r \<le> max_age_seconds"
    | (dropped) oc where "oc \<in> {Oc_expired, Oc_undeliverable, Oc_unverifiable}" "(res, dvs, rows') = done_with oc r rows"
    | (tried) ch sent signature routed hh where
        "gw_now w - g_received r \<le> max_age_seconds" "g_channel r = Some ch" "g_timestamp r = Some sent"
        "g_signature r = Some signature" "lookup env w (g_sender r) ch = Inr routed" "gr_delivered routed"
        "gr_household routed = Some hh" "g_household r = Some hh"
        "case relay_key env hh of None \<Rightarrow> True | Some k \<Rightarrow> verify_relay_hmac env k (g_payload r) sent signature = Some True"
        "redeliver env w r (int_str (py_trunc (gw_now w))) hh (gr_runtime routed) (relay_key env hh) rows = (res, dvs, rows')"
proof (cases "max_age_seconds < gw_now w - g_received r")
  case True
  then show thesis using assms dropped [of Oc_expired] by (simp add: process_row_def)
next
  case age: False
  show thesis
  proof (cases "g_channel r = None \<or> g_timestamp r = None \<or> g_signature r = None")
    case True
    then show thesis using assms age dropped [of Oc_unverifiable]
      by (auto simp: process_row_def split: option.splits)
  next
    case False
    then obtain ch sent signature where p: "g_channel r = Some ch" "g_timestamp r = Some sent" "g_signature r = Some signature"
      by auto
    define stamp where "stamp = int_str (py_trunc (gw_now w))"
    note step = assms [unfolded process_row_def Let_def p, folded stamp_def]
    show thesis
    proof (cases "route env w (g_sender r) ch (Some stamp)")
      case (Inl e)
      then show thesis using step age kept [of e] by auto
    next
      case (Inr routed)
      show thesis
      proof (cases "gr_delivered routed \<and> gr_household routed = g_household r")
        case False
        then show thesis using step age Inr dropped [of Oc_undeliverable] by auto
      next
        case True
        then obtain hh where hh: "gr_household routed = Some hh" "g_household r = Some hh" and lk: "lookup env w (g_sender r) ch = Inr routed"
          using route_delivered [OF Inr] by auto
        let ?v = "case relay_key env hh of None \<Rightarrow> Some True | Some k \<Rightarrow> verify_relay_hmac env k (g_payload r) sent signature"
        consider "?v = None" | "?v = Some False" | "?v = Some True" by (cases ?v) auto
        then show thesis
        proof cases
          case 1
          then show thesis using step age Inr True hh kept [of "''TypeError''"] by auto
        next
          case 2
          then show thesis using step age Inr True hh dropped [of Oc_unverifiable] by simp
        next
          case 3
          then have "redeliver env w r stamp hh (gr_runtime routed) (relay_key env hh) rows = (res, dvs, rows')"
            using step age Inr True hh by simp
          moreover have "case relay_key env hh of None \<Rightarrow> True | Some k \<Rightarrow> verify_relay_hmac env k (g_payload r) sent signature = Some True"
            using 3 by (auto split: option.splits)
          ultimately show thesis using tried [OF _ p lk _ hh] True age unfolding stamp_def by simp
        qed
      qed
    qed
  qed
qed

lemma process_row_entitled:
  assumes "process_row env w r rows = (res, dvs, rows')" "dv \<in> set dvs"
  shows "entitled env w r dv \<and> dvs = [dv]"
  using assms(1)
proof (cases rule: process_row_cases)
  case (tried ch sent signature routed hh)
  from redeliver_delivers [OF tried(10) assms(2)] lookup_result [OF tried(5,6)] show ?thesis
    using tried by (auto simp: entitled_def split: option.splits)
qed (use assms(2) in \<open>auto simp: done_with_def\<close>)

lemma settle_row_entitled:
  "settle_row env w r rows = (oc, dvs, rows') \<Longrightarrow> dv \<in> set dvs \<Longrightarrow> entitled env w r dv"
  using process_row_entitled [of env w r rows] by (auto simp: settle_row_def split: prod.splits sum.splits)

lemma settle_rows_entitled:
  "settle_rows env world rs rows = (ocs, dvs, rows') \<Longrightarrow> dv \<in> set dvs \<Longrightarrow>
     \<exists>r \<in> set rs. entitled env (world (g_id r)) r dv"
  by (induction env world rs rows arbitrary: ocs dvs rows' rule: settle_rows.induct)
    (auto split: prod.splits dest: settle_row_entitled)

lemma due_rows_sub: "set (due_rows now limit rows) \<subseteq> {r \<in> set rows. g_next r \<le> now}"
  by (auto simp: due_rows_def dest: in_set_takeD)

text \<open>C8 (safety): whatever a pass of the redelivery worker sends, the switch is on, the row is a row of
  the log that is due and less than a day old, and it goes to the household the row was accepted for, with
  the body the row holds; the control plane names that household and its runtime for the row's sender at
  that moment, the signature the row arrived with verifies under that household's key, and the new
  signature is over the same body under the same key.\<close>

theorem redelivers_only_where_accepted:
  assumes "run_once env now world limit rows = (counts, dvs, rows')" "dv \<in> set dvs"
  shows "\<exists>r \<in> set rows. g_next r \<le> now \<and> entitled env (world (g_id r)) r dv"
proof -
  obtain ocs where "settle_rows env world (due_rows now limit rows) rows = (ocs, dvs, rows')"
    using assms(1) by (auto simp: run_once_def split: prod.splits)
  from settle_rows_entitled [OF this assms(2)] show ?thesis using due_rows_sub by fastforce
qed

section \<open>The signature at the runtime\<close>

definition hex_char :: "char \<Rightarrow> bool" where
  "hex_char c \<longleftrightarrow> is_digit_char c \<or> (let n = of_char c :: nat in 97 \<le> n \<and> n \<le> 102)"

lemma hex_char_facts: "hex_char c \<Longrightarrow> \<not> is_space c \<and> lower_latin c = c \<and> (of_char c :: nat) < 128 \<and> c \<noteq> CHR ''s''"
  by (auto simp: hex_char_def is_digit_char_def is_space_def lower_latin_def lower_char_def Let_def)

lemma hex_clean:
  assumes "list_all hex_char h"
  shows "py_lower (py_strip (remove_prefix ''sha256='' h)) = h" "is_ascii h"
proof -
  have c: "hex_char c" if "c \<in> set h" for c using that assms by (simp add: list_all_iff)
  have "take (length ''sha256='') h \<noteq> ''sha256=''" using c hex_char_facts by (cases h) auto
  then have "remove_prefix ''sha256='' h = h" by (simp only: remove_prefix_def if_False)
  moreover have "py_strip h = h" by (rule strip_of_clean) (use c hex_char_facts in blast)
  moreover have "py_lower h = h" using c hex_char_facts by (auto simp: py_lower_def intro: map_idI)
  ultimately show "py_lower (py_strip (remove_prefix ''sha256='' h)) = h" by simp
  show "is_ascii h" using c hex_char_facts by (auto simp: is_ascii_def list_all_iff)
qed

lemma int_str_nonempty: "int_str i \<noteq> []"
  using py_int_int_str [of i] by (auto simp: py_int_def py_strip_def)

text \<open>C10 (roundtrip): what the worker signs, the runtime takes: a redelivered body with its new signature
  and timestamp passes the signature check of the household's own webhook, for the secret whose encoding is
  the household's relay key, while the runtime's clock is within the replay window of the worker's.  The
  HMAC is assumed to print as lower-case hexadecimal, as \<open>hexdigest\<close> does.\<close>

theorem redelivery_passes_the_runtime:
  assumes "process_row env w r rows = (res, dvs, rows')" "dv \<in> set dvs"
    and hex: "\<And>k m. list_all hex_char (wv_hmac (ge_wa env) k m) \<and> wv_hmac (ge_wa env) k m \<noteq> []"
    and key: "relay_key env (dv_household dv) = Some (wv_utf8 (ge_wa env) secret)" "secret \<noteq> []"
    and clock: "\<bar>py_trunc now2 - py_trunc (gw_now w)\<bar> \<le> replay_window_seconds"
  shows "verify_webhook (ge_wa env) (dv_payload dv) (dv_signature dv) secret (dv_timestamp dv) now2 = None"
proof -
  have e: "entitled env w r dv" using process_row_entitled [OF assms(1,2)] by blast
  have t: "dv_timestamp dv = int_str (py_trunc (gw_now w))" and
    sg: "dv_signature dv = sign_webhook (ge_wa env) (dv_payload dv) secret (dv_timestamp dv)"
    using e key(1) by (auto simp: entitled_def relay_hmac_def sign_webhook_def split: option.splits)
  let ?h = "sign_webhook (ge_wa env) (dv_payload dv) secret (dv_timestamp dv)"
  have h: "list_all hex_char ?h" "?h \<noteq> []" using hex by (simp_all add: sign_webhook_def)
  have p: "py_int (dv_timestamp dv) = Some (py_trunc (gw_now w))" by (simp add: t py_int_int_str)
  have f: "\<not> \<bar>(if now2 < 0 then \<lceil>now2\<rceil> else \<lfloor>now2\<rfloor>) - py_trunc (gw_now w)\<bar> > replay_window_seconds"
    using clock by (simp add: py_trunc_def)
  have "dv_timestamp dv \<noteq> []" by (simp add: t int_str_nonempty)
  then show ?thesis
    using f h key(2) unfolding verify_webhook_def sg p hex_clean(1) [OF h(1)]
    by (simp add: hex_clean [OF h(1)] compare_digest_def Let_def)
qed

section \<open>What becomes of a row\<close>

definition same_message :: "g_row \<Rightarrow> g_row \<Rightarrow> bool" where
  "same_message r s \<longleftrightarrow> g_id s = g_id r \<and> g_payload s = g_payload r \<and> g_sender s = g_sender r \<and>
     g_received s = g_received r \<and> g_channel s = g_channel r \<and> g_household s = g_household r \<and>
     g_timestamp s = g_timestamp r \<and> g_signature s = g_signature r"

text \<open>A row after its turn: gone, or held by the switch with its attempts unspent, or one attempt
  older and still below the limit; it is less than a day old when it stays.\<close>

definition after_turn :: "g_world \<Rightarrow> g_row \<Rightarrow> g_outcome \<Rightarrow> g_row option \<Rightarrow> bool" where
  "after_turn w r oc x \<longleftrightarrow>
     (case x of
        None \<Rightarrow> oc \<in> {Oc_delivered, Oc_exhausted, Oc_expired, Oc_undeliverable, Oc_unverifiable}
      | Some s \<Rightarrow> same_message r s \<and> gw_now w - g_received r \<le> max_age_seconds \<and>
          (oc = Oc_held \<and> \<not> gw_enabled w \<and> g_attempts s = g_attempts r \<or>
           oc = Oc_deferred \<and> g_attempts s = g_attempts r + 1 \<and> g_attempts s < max_attempts))"

lemma get_mark [simp]: "tbl_get g_id j (mark_delivered i rows) = (if j = i then None else tbl_get g_id j rows)"
  by (induction rows) (auto simp: mark_delivered_def tbl_delete_def tbl_get_Cons)

lemma get_defer:
  "tbl_get g_id j (defer_row i e t sp rows) =
     map_option (\<lambda>r. if g_id r = i then r\<lparr>g_attempts := g_attempts r + (if sp then 1 else 0), g_next := t, g_error := Some e\<rparr> else r)
       (tbl_get g_id j rows)"
  unfolding defer_row_def by (rule tbl_get_update) simp

lemma get_id: "tbl_get g_id j rows = Some r \<Longrightarrow> g_id r = j"
  using tbl_get_SomeD by metis

lemma get_defer_other [simp]: "j \<noteq> i \<Longrightarrow> tbl_get g_id j (defer_row i e t sp rows) = tbl_get g_id j rows"
  by (cases "tbl_get g_id j rows") (auto simp: get_defer dest: get_id)

lemma worker_defer_turn:
  assumes "worker_defer r now e rows = (oc, rows')" "tbl_get g_id (g_id r) rows = Some r"
    "gw_now w - g_received r \<le> max_age_seconds"
  shows "after_turn w r oc (tbl_get g_id (g_id r) rows')"
  using assms by (auto simp: worker_defer_def Let_def get_defer after_turn_def same_message_def split: if_splits)

lemma worker_defer_other:
  "worker_defer r now e rows = (oc, rows') \<Longrightarrow> j \<noteq> g_id r \<Longrightarrow> tbl_get g_id j rows' = tbl_get g_id j rows"
  by (auto simp: worker_defer_def Let_def split: if_splits)

lemma redeliver_turn:
  assumes "redeliver env w r stamp hh rt key rows = (res, dvs, rows')" "tbl_get g_id (g_id r) rows = Some r"
    "gw_now w - g_received r \<le> max_age_seconds"
  shows "case res of Inl e \<Rightarrow> rows' = rows | Inr oc \<Rightarrow> after_turn w r oc (tbl_get g_id (g_id r) rows')"
  using assms worker_defer_turn [OF _ assms(2,3)]
  by (auto simp: redeliver_def deferred_def Let_def after_turn_def same_message_def worker_hold_def get_defer
      split: if_splits option.splits deliver_answer.splits prod.splits)

lemma redeliver_other:
  assumes "redeliver env w r stamp hh rt key rows = (res, dvs, rows')" "j \<noteq> g_id r"
  shows "tbl_get g_id j rows' = tbl_get g_id j rows"
  using assms worker_defer_other [OF _ assms(2)]
  by (auto simp: redeliver_def deferred_def Let_def worker_hold_def
      split: if_splits option.splits deliver_answer.splits prod.splits)

lemma settle_row_turn:
  assumes "settle_row env w r rows = (oc, dvs, rows')" "tbl_get g_id (g_id r) rows = Some r"
  shows "after_turn w r oc (tbl_get g_id (g_id r) rows')" "j \<noteq> g_id r \<Longrightarrow> tbl_get g_id j rows' = tbl_get g_id j rows"
proof -
  obtain res dvs0 rows0 where p: "process_row env w r rows = (res, dvs0, rows0)" by (cases "process_row env w r rows") auto
  have "(case res of Inl e \<Rightarrow> rows0 = rows \<and> gw_now w - g_received r \<le> max_age_seconds
          | Inr oc \<Rightarrow> after_turn w r oc (tbl_get g_id (g_id r) rows0)) \<and>
        (j \<noteq> g_id r \<longrightarrow> tbl_get g_id j rows0 = tbl_get g_id j rows)" for j
    using p
  proof (cases rule: process_row_cases)
    case (dropped oc)
    then show ?thesis by (auto simp: done_with_def after_turn_def)
  next
    case (tried ch sent signature routed hh)
    from redeliver_turn [OF tried(10) assms(2) tried(1)] redeliver_other [OF tried(10), of j] tried(1)
    show ?thesis by (auto split: sum.splits)
  qed simp
  then show "after_turn w r oc (tbl_get g_id (g_id r) rows')" "j \<noteq> g_id r \<Longrightarrow> tbl_get g_id j rows' = tbl_get g_id j rows"
    using assms p worker_defer_turn [OF _ assms(2)] worker_defer_other
    by (auto simp: settle_row_def split: sum.splits prod.splits)
qed

lemma settle_rows_turns:
  assumes "settle_rows env world rs rows = (ocs, dvs, rows')" "distinct (map g_id rs)"
    "\<And>r. r \<in> set rs \<Longrightarrow> tbl_get g_id (g_id r) rows = Some r"
  shows "length ocs = length rs \<and> (\<forall>r \<in> set rs. \<exists>oc \<in> set ocs. after_turn (world (g_id r)) r oc (tbl_get g_id (g_id r) rows')) \<and>
     (\<forall>j. j \<notin> g_id ` set rs \<longrightarrow> tbl_get g_id j rows' = tbl_get g_id j rows)"
  using assms
proof (induction rs arbitrary: rows ocs dvs)
  case Nil
  then show ?case by simp
next
  case (Cons r rs)
  obtain oc dvs1 rows1 where s: "settle_row env (world (g_id r)) r rows = (oc, dvs1, rows1)"
    by (cases "settle_row env (world (g_id r)) r rows") auto
  obtain ocs2 dvs2 where t: "settle_rows env world rs rows1 = (ocs2, dvs2, rows')" "ocs = oc # ocs2"
    using Cons.prems(1) by (auto simp: s split: prod.splits)
  note turn = settle_row_turn [OF s Cons.prems(3) [of r, simplified]]
  have other: "tbl_get g_id (g_id x) rows1 = Some x" if "x \<in> set rs" for x
  proof -
    have "g_id x \<noteq> g_id r" using Cons.prems(2) that by (auto simp: image_iff)
    from turn(2) [OF this] show ?thesis using Cons.prems(3) [of x] that by simp
  qed
  have IH: "length ocs2 = length rs" "\<And>x. x \<in> set rs \<Longrightarrow> \<exists>oc \<in> set ocs2. after_turn (world (g_id x)) x oc (tbl_get g_id (g_id x) rows')"
    "\<And>j. j \<notin> g_id ` set rs \<Longrightarrow> tbl_get g_id j rows' = tbl_get g_id j rows1"
    using Cons.IH [OF t(1) _ other] Cons.prems(2) by auto
  have "tbl_get g_id (g_id r) rows' = tbl_get g_id (g_id r) rows1" using IH(3) Cons.prems(2) by auto
  then have "after_turn (world (g_id r)) r oc (tbl_get g_id (g_id r) rows')" using turn(1) by simp
  then show ?case using IH turn(2) by (auto simp: t(2))
qed

lemma due_rows_rows:
  assumes "distinct (map g_id rows)"
  shows "distinct (map g_id (due_rows now limit rows))"
    "r \<in> set (due_rows now limit rows) \<Longrightarrow> tbl_get g_id (g_id r) rows = Some r"
proof -
  have "distinct (map g_id (filter (\<lambda>r. g_next r \<le> now) rows))" using assms by (simp add: distinct_map_filter)
  then have "distinct (map g_id (sort_key g_received (filter (\<lambda>r. g_next r \<le> now) rows)))" by (simp add: distinct_map)
  then show "distinct (map g_id (due_rows now limit rows))" unfolding due_rows_def
    by (metis distinct_take take_map)
  show "r \<in> set (due_rows now limit rows) \<Longrightarrow> tbl_get g_id (g_id r) rows = Some r"
    using due_rows_sub assms by (intro tbl_get_mem) auto
qed

text \<open>A pass gives every row it takes exactly one outcome:
  the counts of the report add up to the rows that were due, a row that stays is less than a day old and is
  either held by the switch, which costs it nothing, or one attempt older and below the eight, and rows
  that were not due are untouched.\<close>

theorem every_due_row_has_one_outcome:
  assumes "distinct (map g_id rows)" "run_once env now world limit rows = (counts, dvs, rows')"
  shows "counts Oc_delivered + counts Oc_deferred + counts Oc_exhausted + counts Oc_expired + counts Oc_undeliverable +
        counts Oc_unverifiable + counts Oc_held = length (due_rows now limit rows) \<and>
     (\<forall>r \<in> set (due_rows now limit rows). \<exists>oc. 0 < counts oc \<and>
        after_turn (world (g_id r)) r oc (tbl_get g_id (g_id r) rows')) \<and>
     (\<forall>j. j \<notin> g_id ` set (due_rows now limit rows) \<longrightarrow> tbl_get g_id j rows' = tbl_get g_id j rows)"
proof -
  obtain ocs where s: "settle_rows env world (due_rows now limit rows) rows = (ocs, dvs, rows')"
    and c: "counts = (\<lambda>oc. length (filter (\<lambda>x. x = oc) ocs))"
    using assms(2) by (auto simp: run_once_def split: prod.splits)
  have "tbl_get g_id (g_id r) rows = Some r" if "r \<in> set (due_rows now limit rows)" for r
    using due_rows_rows(2) [OF assms(1) that] .
  note t = settle_rows_turns [OF s due_rows_rows(1) [OF assms(1)] this]
  have "length (filter (\<lambda>x. x = Oc_delivered) xs) + length (filter (\<lambda>x. x = Oc_deferred) xs) +
      length (filter (\<lambda>x. x = Oc_exhausted) xs) + length (filter (\<lambda>x. x = Oc_expired) xs) +
      length (filter (\<lambda>x. x = Oc_undeliverable) xs) + length (filter (\<lambda>x. x = Oc_unverifiable) xs) +
      length (filter (\<lambda>x. x = Oc_held) xs) = length xs" for xs
  proof (induction xs)
    case (Cons x xs)
    then show ?case by (cases x) auto
  qed simp
  note total = this [of ocs]
  have "0 < counts oc" if "oc \<in> set ocs" for oc using that by (auto simp: c filter_empty_conv)
  then have "\<exists>oc. 0 < counts oc \<and> after_turn (world (g_id r)) r oc (tbl_get g_id (g_id r) rows')"
    if "r \<in> set (due_rows now limit rows)" for r using t that by blast
  then show ?thesis using t total unfolding c by simp
qed

section \<open>An incoming message\<close>

text \<open>The codes of a refusal, as \<open>SenderNotRoutable\<close> is raised.\<close>

definition plain_refusals :: "g_world \<Rightarrow> bool" where
  "plain_refusals w \<longleftrightarrow> (\<forall>ch e h code. gw_resolve w ch e h = Inl (Not_routable code) \<longrightarrow>
     code = ''unknown_sender'' \<or> code = ''ambiguous_sender'')"

definition retryable_codes :: "string list" where
  "retryable_codes = [''lookup_unavailable'', ''relay_key_absent'', ''runtime_unavailable'']"

definition kept_as :: "g_row \<Rightarrow> uid \<Rightarrow> string \<Rightarrow> string \<Rightarrow> string \<Rightarrow> string \<Rightarrow> string \<Rightarrow> bool" where
  "kept_as row i payload sender channel timestamp signature \<longleftrightarrow>
     g_id row = i \<and> g_payload row = payload \<and> g_sender row = sender \<and> g_channel row = Some channel \<and>
     g_timestamp row = Some timestamp \<and> g_signature row = Some signature \<and> g_attempts row = 1"

lemma defer_snoc:
  "i \<notin> g_id ` set rows \<Longrightarrow> g_id r = i \<Longrightarrow> defer_row i e t sp (rows @ [r]) =
     rows @ [r\<lparr>g_attempts := g_attempts r + (if sp then 1 else 0), g_next := t, g_error := Some e\<rparr>]"
  unfolding defer_row_def tbl_update_append by (subst tbl_update_none) (auto simp: image_iff)

lemma mark_snoc: "i \<notin> g_id ` set rows \<Longrightarrow> g_id r = i \<Longrightarrow> mark_delivered i (rows @ [r]) = rows"
  by (auto simp: mark_delivered_def tbl_delete_def filter_id_conv image_iff)

lemma route_codes:
  assumes "plain_refusals w" "route env w sender ch t = Inr routed" "\<not> gr_delivered routed"
  shows "gr_code routed \<in> {''timestamp_replay'', ''unknown_sender'', ''ambiguous_sender'', ''lookup_unavailable''}"
proof -
  have p: "gw_resolve w ch e h = Inl (Not_routable code) \<Longrightarrow> code \<in> {''unknown_sender'', ''ambiguous_sender''}" for ch e h code
    using assms(1) unfolding plain_refusals_def by blast
  show ?thesis using assms(2,3)
    by (auto simp: route_def lookup_def denied_def split: option.splits if_splits sum.splits lookup_error.splits dest!: p)
qed

lemma a_message_is_taken_or_kept_row:
  assumes "handle_webhook env w i payload sender channel timestamp signature rows = (Inr res, dvs, rows')"
    and "i \<notin> g_id ` set rows" "plain_refusals w"
  shows "if gr_code res \<in> set retryable_codes
     then \<exists>row. rows' = rows @ [row] \<and> kept_as row i payload sender channel timestamp signature \<and>
        (g_household row = None \<longleftrightarrow> gr_code res = ''lookup_unavailable'')
     else rows' = rows \<and> (gr_code res = ''ok'' \<longrightarrow> (\<exists>dv. dvs = [dv] \<and> dv_payload dv = payload \<and> gw_deliver w dv = Took))"
proof (cases "\<not> gw_enabled w \<or> timestamp = [] \<or> signature = []")
  case True
  then show ?thesis using assms(1) by (auto simp: handle_webhook_def denied_def retryable_codes_def split: if_splits)
next
  case False
  note step = assms(1) [unfolded handle_webhook_def]
  obtain routed where r: "route env w sender channel (Some timestamp) = Inr routed"
    using step False by (cases "route env w sender channel (Some timestamp)") auto
  show ?thesis
  proof (cases "gr_delivered routed")
    case nd: False
    from route_codes [OF assms(3) r nd] show ?thesis
      using step False r nd defer_snoc [OF assms(2)]
      by (auto simp: retryable_codes_def persist_before_ack_def kept_as_def)
  next
    case True
    obtain hh where hh: "gr_household routed = Some hh" using route_delivered [OF r True] by auto
    have code: "gr_code routed = ''ok''" using lookup_result route_delivered [OF r True] True by (metis g_result.select_convs(2))
    show ?thesis
    proof (cases "hh = [] \<or> relay_key env hh = None \<or> relay_key env hh = Some []")
      case True
      then show ?thesis
        using step False r \<open>gr_delivered routed\<close> hh code defer_snoc [OF assms(2)]
        by (auto simp: retryable_codes_def persist_before_ack_def kept_as_def denied_def Let_def split: option.splits if_splits)
    next
      case keyed: False
      then obtain k where k: "relay_key env hh = Some k" "k \<noteq> []" "hh \<noteq> []" by auto
      have "deliver_or_keep env w i payload timestamp signature routed hh k
          (persist_before_ack i payload sender channel (Some hh) timestamp signature (gw_now w) rows) = (Inr res, dvs, rows')"
        using step False r True hh code k by (simp add: Let_def)
      then show ?thesis
        using code hh defer_snoc [OF assms(2)] mark_snoc [OF assms(2)]
        by (auto simp: deliver_or_keep_def persist_before_ack_def retryable_codes_def kept_as_def denied_def Let_def
            split: option.splits bool.splits if_splits)
    qed
  qed
qed

text \<open>C9 (functional): a message the gateway answers for is delivered or kept.  When the answer is one of the
  retryable refusals, exactly one row is appended that holds the message as it arrived, one attempt old, for
  the household that was resolved or for none when the lookup was what failed; on every other answer the
  log is as before, and the answer is success only when one delivery of this body was made and taken.\<close>

theorem a_message_is_taken_or_kept:
  assumes "handle_webhook env w i payload sender channel timestamp signature rows = (Inr res, dvs, rows')"
    and "i \<notin> g_id ` set rows" "plain_refusals w"
  shows "if gr_code res \<in> set retryable_codes
     then \<exists>row. rows' = rows @ [row] \<and> kept_as row i payload sender channel timestamp signature \<and>
        (g_household row = None \<longleftrightarrow> gr_code res = ''lookup_unavailable'')
     else rows' = rows \<and> (gr_code res = ''ok'' \<longrightarrow> (\<exists>dv. dvs = [dv] \<and> dv_payload dv = payload \<and> gw_deliver w dv = Took))"
  using a_message_is_taken_or_kept_row [OF assms] .

text \<open>C17 (error): a message that arrives while the control plane does not answer is never delivered.  The
  gateway keeps it without a household, and the worker compares the household of every later answer with
  that of the row: whenever its turn comes, whatever the control plane says then, nothing is sent for it, and
  unless an exception interrupts the turn, the row is deleted.\<close>

theorem a_lookup_outage_loses_the_message:
  assumes "handle_webhook env w i payload sender channel timestamp signature [] = (Inr res, dvs, [row])"
    and "gr_code res = ''lookup_unavailable''" "plain_refusals w"
  shows "\<exists>out kept. process_row env w2 row rows = (out, [], kept) \<and> out \<noteq> Inr Oc_delivered \<and> out \<noteq> Inr Oc_deferred \<and>
     (case out of Inl e \<Rightarrow> kept = rows | Inr oc \<Rightarrow> kept = mark_delivered i rows)"
proof -
  have "row \<in> set [row] \<and> g_household row = None \<and> g_id row = i"
    using a_message_is_taken_or_kept_row [OF assms(1) _ assms(3)] assms(2) by (auto simp: retryable_codes_def kept_as_def)
  then have h: "g_household row = None" "g_id row = i" by auto
  obtain out dvs2 kept where p: "process_row env w2 row rows = (out, dvs2, kept)" by (cases "process_row env w2 row rows") auto
  then show ?thesis
  proof (cases rule: process_row_cases)
    case (dropped oc)
    then show ?thesis using p h by (auto simp: done_with_def)
  qed (use p h in auto)
qed

text \<open>The same loss when the lookup fails again at a redelivery of a row that has a household.\<close>

lemma outage_at_redelivery_drops:
  assumes "\<And>ch e h. gw_resolve w ch e h = Inl Lookup_unavailable" "has_provenance r"
  shows "\<exists>oc. process_row env w r rows = done_with oc r rows \<and> oc \<in> {Oc_expired, Oc_undeliverable}"
  using assms by (auto simp: process_row_def has_provenance_def route_def lookup_def denied_def Let_def split: option.splits)

section \<open>Witnesses\<close>

lemma verify_own:
  "list_all hex_char (relay_hmac env k body t) \<Longrightarrow> verify_relay_hmac env k body t (relay_hmac env k body t) = Some True"
  by (simp add: verify_relay_hmac_def hex_clean compare_digest_def)

definition sample_digest :: "string \<Rightarrow> string \<Rightarrow> string" where
  "sample_digest k m = ''0'' @ map (\<lambda>c. if is_digit_char c then c else CHR ''a'') m"

definition sample_gateway :: gateway_env where
  "sample_gateway = \<lparr>ge_wa = \<lparr>wv_hmac = sample_digest, wv_utf8 = (\<lambda>s. s), wv_loads = (\<lambda>s. None), wv_str = (\<lambda>j. []),
     wv_render = (\<lambda>h b. b), wv_headers = (\<lambda>r h. None)\<rparr>, ge_sender_key = None, ge_root = Some ''root'', ge_pinned = []\<rparr>"

lemma sample_hex: "list_all hex_char (wv_hmac (ge_wa sample_gateway) k m) \<and> wv_hmac (ge_wa sample_gateway) k m \<noteq> []"
  by (auto simp: sample_gateway_def sample_digest_def list_all_iff hex_char_def is_digit_char_def)

definition sample_relay_secret :: string where
  "sample_relay_secret = derive_relay_secret sample_gateway ''root'' ''h1''"

lemma sample_relay_key: "relay_key sample_gateway ''h1'' = Some sample_relay_secret" "sample_relay_secret \<noteq> []"
proof -
  show "relay_key sample_gateway ''h1'' = Some sample_relay_secret"
    by (simp add: relay_key_def sample_relay_secret_def) (simp add: sample_gateway_def derive_relay_secret_def)
  show "sample_relay_secret \<noteq> []" using sample_hex by (simp add: sample_relay_secret_def derive_relay_secret_def)
qed

definition sample_world :: g_world where
  "sample_world = \<lparr>gw_enabled = True, gw_now = 100, gw_route = 100, gw_after = 101,
     gw_resolve = (\<lambda>ch e h. Inr \<lparr>rv_household = ''h1'', rv_runtime_ref = Some ''app''\<rparr>), gw_deliver = (\<lambda>dv. Took)\<rparr>"

definition sample_waiting :: g_row where
  "sample_waiting = \<lparr>g_id = ''i1'', g_payload = ''hi'', g_sender = ''+99'', g_received = 90, g_attempts = 1, g_next = 95,
     g_error = None, g_channel = Some ''whatsapp'', g_household = Some ''h1'', g_timestamp = Some ''90'',
     g_signature = Some (relay_hmac sample_gateway sample_relay_secret ''hi'' ''90'')\<rparr>"

definition sample_delivery :: delivery where
  "sample_delivery = \<lparr>dv_household = ''h1'', dv_runtime = Some ''app'', dv_payload = ''hi'', dv_timestamp = ''100'',
     dv_signature = relay_hmac sample_gateway sample_relay_secret ''hi'' ''100''\<rparr>"

lemma sample_stamps: "int_str 100 = ''100''" "py_int ''100'' = Some 100"
  by code_simp+

lemma sample_processed:
  "process_row sample_gateway sample_world sample_waiting [sample_waiting] = (Inr Oc_delivered, [sample_delivery], [])"
proof -
  have "verify_relay_hmac sample_gateway sample_relay_secret ''hi'' ''90'' (relay_hmac sample_gateway sample_relay_secret ''hi'' ''90'') = Some True"
    by (rule verify_own) (use sample_hex in \<open>simp add: relay_hmac_def\<close>)
  moreover have "ge_sender_key sample_gateway = None" by (simp add: sample_gateway_def)
  ultimately show ?thesis
    by (simp add: process_row_def sample_world_def sample_waiting_def max_age_seconds_def Let_def py_trunc_def sample_stamps
        route_def fresh_def replay_window_seconds_def lookup_def sample_relay_key redeliver_def sample_delivery_def
        mark_delivered_def tbl_delete_def)
qed

lemma sample_pass:
  "run_once sample_gateway 100 (\<lambda>i. sample_world) 10 [sample_waiting] =
     (\<lambda>oc. if oc = Oc_delivered then 1 else 0, [sample_delivery], [])"
proof -
  have "due_rows 100 10 [sample_waiting] = [sample_waiting]" by (simp add: due_rows_def sample_waiting_def)
  then show ?thesis by (auto simp: run_once_def settle_row_def sample_processed)
qed

theorem redelivers_only_where_accepted_witness:
  "\<exists>r \<in> set [sample_waiting]. g_next r \<le> 100 \<and> entitled sample_gateway sample_world r sample_delivery"
  using redelivers_only_where_accepted [OF sample_pass] by simp

theorem redelivery_passes_the_runtime_witness:
  "verify_webhook (ge_wa sample_gateway) ''hi'' (dv_signature sample_delivery) sample_relay_secret ''100'' 160 = None"
proof -
  have u: "wv_utf8 (ge_wa sample_gateway) s = s" for s by (simp add: sample_gateway_def)
  have "verify_webhook (ge_wa sample_gateway) (dv_payload sample_delivery) (dv_signature sample_delivery) sample_relay_secret
      (dv_timestamp sample_delivery) 160 = None"
    by (rule redelivery_passes_the_runtime [OF sample_processed _ sample_hex])
      (simp_all add: u sample_relay_key, simp_all add: sample_delivery_def sample_relay_key sample_world_def py_trunc_def replay_window_seconds_def)
  then show ?thesis by (simp add: sample_delivery_def)
qed

theorem every_due_row_has_one_outcome_witness:
  "\<exists>oc. 0 < (if oc = Oc_delivered then 1 else 0 :: nat) \<and>
     after_turn sample_world sample_waiting oc (tbl_get g_id (g_id sample_waiting) [])"
proof -
  have d: "due_rows 100 10 [sample_waiting] = [sample_waiting]" by (simp add: due_rows_def sample_waiting_def)
  show ?thesis using every_due_row_has_one_outcome [OF _ sample_pass] unfolding d by auto
qed

definition sample_outage :: g_world where
  "sample_outage = sample_world\<lparr>gw_resolve := (\<lambda>ch e h. Inl Lookup_unavailable)\<rparr>"

definition sample_orphan :: g_row where
  "sample_orphan = \<lparr>g_id = ''i1'', g_payload = ''hi'', g_sender = ''+99'', g_received = 100, g_attempts = 1, g_next = 131,
     g_error = Some ''lookup_unavailable'', g_channel = Some ''whatsapp'', g_household = None, g_timestamp = Some ''100'',
     g_signature = Some (relay_hmac sample_gateway sample_relay_secret ''hi'' ''100'')\<rparr>"

lemma sample_lost:
  "handle_webhook sample_gateway sample_outage ''i1'' ''hi'' ''+99'' ''whatsapp'' ''100''
     (relay_hmac sample_gateway sample_relay_secret ''hi'' ''100'') [] =
   (Inr (denied ''lookup_unavailable''), [], [sample_orphan])"
proof -
  have ne: "relay_hmac sample_gateway sample_relay_secret ''hi'' ''100'' \<noteq> []" using sample_hex by (simp add: relay_hmac_def)
  have "ge_sender_key sample_gateway = None" by (simp add: sample_gateway_def)
  then show ?thesis using ne
    by (simp add: handle_webhook_def sample_outage_def sample_world_def route_def fresh_def sample_stamps py_trunc_def
        replay_window_seconds_def lookup_def denied_def persist_before_ack_def defer_row_def base_backoff_seconds_def
        sample_orphan_def)
qed

lemma sample_outage_plain: "plain_refusals sample_outage" "plain_refusals sample_world"
  by (simp_all add: plain_refusals_def sample_outage_def sample_world_def)

theorem a_message_is_taken_or_kept_witness:
  "\<exists>row. [sample_orphan] = [] @ [row] \<and> g_household row = None \<and> g_payload row = ''hi''"
  using a_message_is_taken_or_kept [OF sample_lost _ sample_outage_plain(1)]
  by (auto simp: denied_def retryable_codes_def kept_as_def)

theorem a_lookup_outage_loses_the_message_witness:
  "\<exists>out kept. process_row sample_gateway sample_world sample_orphan [sample_orphan] = (out, [], kept) \<and> out \<noteq> Inr Oc_delivered"
  using a_lookup_outage_loses_the_message [OF sample_lost _ sample_outage_plain(1), where ?w2.0 = sample_world and rows = "[sample_orphan]"]
  by (auto simp: denied_def)

end
