(* ===== verification/GatewayApp.thy ===== *)
theory GatewayApp
  imports GatewayLaws
begin

text \<open>
  \<open>gateway/app.py\<close> and \<open>control_plane/api/internal_bindings.py\<close>: the gateway's HTTP entrypoint, the
  question it asks the control plane and the endpoint that answers it, and the delivery to a runtime.
  An HTTP exchange is a status and a JSON body, or no answer.
\<close>

datatype http_answer = No_answer | Answer nat json

section \<open>Who holds a sender, over HTTP\<close>

definition lower_hex :: "char \<Rightarrow> bool" where
  "lower_hex c \<longleftrightarrow> is_digit c \<or> (let n = of_char c :: nat in 97 \<le> n \<and> n \<le> 102)"

text \<open>The patterns of \<open>ResolveRequest\<close>.\<close>

definition valid_resolve_request :: "string \<Rightarrow> string option \<Rightarrow> string option \<Rightarrow> bool" where
  "valid_resolve_request channel ext hmac \<longleftrightarrow> channel \<in> channels \<and>
     (case hmac of None \<Rightarrow> True | Some h \<Rightarrow> length h = 64 \<and> list_all lower_hex h) \<and>
     (case ext of None \<Rightarrow> True | Some e \<Rightarrow> 1 \<le> length e \<and> length e \<le> 256)"

definition bearer :: "string option \<Rightarrow> string option" where
  "bearer authorization =
     (case authorization of None \<Rightarrow> None
      | Some a \<Rightarrow> if take 7 a = ''Bearer '' then Some (drop 7 a) else None)"

text \<open>\<open>_authorized\<close>: the status it raises, or none; \<open>privately\<close> is what it makes of the host and scheme of
  the request, \<open>in_limit\<close> the answer of the rate limiter.\<close>

definition lookup_refusal :: "string \<Rightarrow> string option \<Rightarrow> bool \<Rightarrow> bool \<Rightarrow> nat option" where
  "lookup_refusal expected authorization privately in_limit =
     (if expected = [] then Some 401
      else case bearer authorization of
        None \<Rightarrow> Some 401
      | Some token \<Rightarrow>
          (case compare_digest token expected of
             None \<Rightarrow> Some 500
           | Some False \<Rightarrow> Some 401
           | Some True \<Rightarrow> if \<not> privately then Some 403 else if \<not> in_limit then Some 429 else None))"

definition resolved_json :: "resolved \<Rightarrow> json" where
  "resolved_json v = JObj [(''household_id'', JStr (rv_household v)),
     (''runtime_ref'', case rv_runtime_ref v of None \<Rightarrow> JNull | Some r \<Rightarrow> JStr r)]"

definition resolve_endpoint ::
  "string \<Rightarrow> string option \<Rightarrow> bool \<Rightarrow> bool \<Rightarrow> string \<Rightarrow> string option \<Rightarrow> string option \<Rightarrow> cpdb \<Rightarrow> http_answer" where
  "resolve_endpoint expected authorization privately in_limit channel ext hmac d =
     (if \<not> valid_resolve_request channel ext hmac then Answer 422 JNull
      else case lookup_refusal expected authorization privately in_limit of
        Some status \<Rightarrow> Answer status JNull
      | None \<Rightarrow>
          if (ext = None) = (hmac = None) then Answer 422 JNull
          else (case resolve_sender channel ext hmac d of
                  Inr v \<Rightarrow> Answer 200 (resolved_json v)
                | Inl (Not_routable c) \<Rightarrow> Answer 404 JNull
                | Inl e \<Rightarrow> Answer 500 JNull))"

text \<open>\<open>RemoteBindingResolver.resolve\<close>: the household is \<open>str\<close> of the value under its key; the endpoint
  sends a runtime that is text or null, and any other value is read as none.\<close>

definition remote_resolve :: "(json \<Rightarrow> string) \<Rightarrow> http_answer \<Rightarrow> lookup_error + resolved" where
  "remote_resolve to_str answer =
     (case answer of
        No_answer \<Rightarrow> Inl Lookup_unavailable
      | Answer status body \<Rightarrow>
          if status = 404 then Inl (Not_routable ''unknown_sender'')
          else if status \<noteq> 200 then Inl Lookup_unavailable
          else (case body of
                  JObj kvs \<Rightarrow>
                    (case map_of kvs ''household_id'' of
                       None \<Rightarrow> Inl Lookup_unavailable
                     | Some j \<Rightarrow>
                         Inr \<lparr>rv_household = (case j of JStr s \<Rightarrow> s | _ \<Rightarrow> to_str j),
                              rv_runtime_ref = (case map_of kvs ''runtime_ref'' of Some (JStr r) \<Rightarrow> Some r | _ \<Rightarrow> None)\<rparr>)
                | _ \<Rightarrow> Inl Lookup_unavailable))"

section \<open>The delivery to a runtime\<close>

definition base32_char :: "char \<Rightarrow> bool" where
  "base32_char c \<longleftrightarrow> (let n = of_char c :: nat in 97 \<le> n \<and> n \<le> 122 \<or> 50 \<le> n \<and> n \<le> 55)"

definition managed_ref :: "string \<Rightarrow> bool" where
  "managed_ref ref \<longleftrightarrow> take 11 ref = ''abrolia-hh-'' \<and> length ref = 37 \<and> list_all base32_char (drop 11 ref)"

definition runtime_url :: "string \<Rightarrow> string" where
  "runtime_url ref = ''http://'' @ ref @ ''.internal:8080/v1/whatsapp/webhook''"

text \<open>\<open>RuntimeRelayDeliverer\<close>: the request it makes, if any, and what it makes of the answer.\<close>

definition runtime_request :: "delivery \<Rightarrow> string option" where
  "runtime_request dv =
     (case dv_runtime dv of None \<Rightarrow> None | Some ref \<Rightarrow> if ref \<noteq> [] \<and> managed_ref ref then Some (runtime_url ref) else None)"

definition runtime_deliver :: "(string \<Rightarrow> delivery \<Rightarrow> http_answer) \<Rightarrow> delivery \<Rightarrow> deliver_answer" where
  "runtime_deliver http dv =
     (case runtime_request dv of
        None \<Rightarrow> Runtime_unavailable
      | Some url \<Rightarrow> (case http url dv of Answer status body \<Rightarrow> if status = 200 then Took else Runtime_unavailable
                    | No_answer \<Rightarrow> Runtime_unavailable))"

section \<open>The entrypoint\<close>

record g_request =
  hq_path :: string
  hq_method :: string
  hq_length :: "string option"
  hq_body :: "(nat \<Rightarrow> string) option"
  hq_auth :: "string option"
  hq_sender :: "string option"
  hq_signature :: "string option"
  hq_timestamp :: "string option"
  hq_channel :: "string option"

definition or_text :: "string option \<Rightarrow> string \<Rightarrow> string" where
  "or_text v other = (case str_or_none v of None \<Rightarrow> other | Some s \<Rightarrow> s)"

text \<open>\<open>_adapter_is_authentic\<close>; \<open>None\<close> is the \<open>TypeError\<close> of \<open>hmac.compare_digest\<close>.\<close>

definition adapter_is_authentic :: "string option \<Rightarrow> g_request \<Rightarrow> bool option" where
  "adapter_is_authentic token q =
     (case str_or_none token of
        None \<Rightarrow> Some False
      | Some expected \<Rightarrow>
          (let presented = or_text (hq_auth q) []
           in if take 7 presented \<noteq> ''Bearer '' then Some False else compare_digest (drop 7 presented) expected))"

definition status_for :: "g_result \<Rightarrow> nat \<times> string" where
  "status_for res =
     (if gr_code res \<in> {''hmac_rejected'', ''timestamp_replay''} then (403, gr_code res)
      else if gr_code res = ''flag_disabled'' then (503, gr_code res)
      else (200, gr_code res))"

type_synonym app_step = "(string + nat \<times> string) \<times> delivery list \<times> g_row list"

definition app_webhook :: "gateway_env \<Rightarrow> string option \<Rightarrow> g_world \<Rightarrow> uid \<Rightarrow> g_request \<Rightarrow> g_row list \<Rightarrow> app_step" where
  "app_webhook env token w i q rows =
     (case py_int (or_text (hq_length q) ''0'') of
        None \<Rightarrow> (Inr (400, ''invalid_request''), [], rows)
      | Some n \<Rightarrow>
          if n < 1 then (Inr (400, ''invalid_request''), [], rows)
          else if int max_whatsapp_webhook_bytes < n then (Inr (413, ''payload_too_large''), [], rows)
          else (case hq_body q of
            None \<Rightarrow> (Inr (400, ''invalid_request''), [], rows)
          | Some read \<Rightarrow>
              (let payload = read (nat n)
               in if int (length payload) \<noteq> n then (Inr (400, ''invalid_request''), [], rows)
                  else case adapter_is_authentic token q of
                    None \<Rightarrow> (Inl ''TypeError'', [], rows)
                  | Some False \<Rightarrow> (Inr (401, ''unauthenticated''), [], rows)
                  | Some True \<Rightarrow>
                      if or_text (hq_sender q) [] = [] then (Inr (400, ''invalid_request''), [], rows)
                      else (case handle_webhook env w i payload (or_text (hq_sender q) []) (or_text (hq_channel q) ''whatsapp'')
                                   (or_text (hq_timestamp q) []) (or_text (hq_signature q) []) rows of
                              (Inl e, dvs, rows') \<Rightarrow> (Inl e, dvs, rows')
                            | (Inr res, dvs, rows') \<Rightarrow> (Inr (status_for res), dvs, rows')))))"

definition app_respond :: "gateway_env \<Rightarrow> string option \<Rightarrow> g_world \<Rightarrow> uid \<Rightarrow> g_request \<Rightarrow> g_row list \<Rightarrow> app_step" where
  "app_respond env token w i q rows =
     (if hq_path q = ''/healthz'' \<and> hq_method q = ''GET'' then (Inr (200, ''ok''), [], rows)
      else if hq_path q \<noteq> ''/v1/whatsapp/webhook'' then (Inr (404, ''not_found''), [], rows)
      else if hq_method q \<noteq> ''POST'' then (Inr (405, ''method_not_allowed''), [], rows)
      else app_webhook env token w i q rows)"

section \<open>The properties\<close>

text \<open>C16 (equivalence): the gateway on its own volume routes as one with the database beside it would: for
  a request the endpoint takes, asked with the lookup credential on private transport within the rate
  limit, the resolver that asks the control plane gives the answer of the resolver that reads the table,
  except that an ambiguous sender is reported as an unknown one.\<close>

theorem remote_lookup_is_the_local_one:
  assumes "valid_resolve_request channel ext hmac" "(ext = None) \<noteq> (hmac = None)" "token \<noteq> []" "is_ascii token"
  shows "remote_resolve to_str (resolve_endpoint token (Some (''Bearer '' @ token)) True True channel ext hmac d) =
    (case resolve_sender channel ext hmac d of
       Inl (Not_routable code) \<Rightarrow> Inl (Not_routable ''unknown_sender'')
     | answer \<Rightarrow> answer)"
proof -
  have "lookup_refusal token (Some (''Bearer '' @ token)) True True = None"
    using assms(3,4) by (simp add: lookup_refusal_def bearer_def compare_digest_def)
  moreover have "resolve_sender channel ext hmac d \<noteq> Inl Lookup_unavailable" "resolve_sender channel ext hmac d \<noteq> Inl (Lookup_raised e)" for e
    using assms(2) by (auto simp: resolve_sender_def split: list.splits)
  ultimately show ?thesis
    using assms(1,2)
    by (auto simp: resolve_endpoint_def remote_resolve_def resolved_json_def split: sum.splits lookup_error.splits option.splits)
qed

text \<open>C15 (safety): a caller that does not hold the adapter's credential learns nothing about who is bound: for
  every request it can make, the response is the same whatever the keys, the control plane's answers, the
  runtime, the switch and the log are, nothing is delivered and the log is as before.\<close>

theorem strangers_learn_nothing:
  assumes "adapter_is_authentic token q \<noteq> Some True"
  shows "app_respond env token w i q rows = (fst (app_respond env' token w' i' q []), [], rows)"
  using assms
  by (auto simp: app_respond_def app_webhook_def Let_def split: option.splits bool.splits if_splits)

text \<open>A delivery leaves for a runtime of the managed namespace or not at all.\<close>

lemma requests_stay_in_the_namespace:
  "runtime_request dv = Some url \<Longrightarrow> \<exists>ref. dv_runtime dv = Some ref \<and> managed_ref ref \<and> url = runtime_url ref"
  by (auto simp: runtime_request_def split: option.splits if_splits)

text \<open>The status does not tell a bound sender from an unbound one: an authentic caller whose signature is
  refused by no key gets 200 for both.\<close>

lemma status_hides_the_binding:
  "gr_code res \<notin> {''hmac_rejected'', ''timestamp_replay'', ''flag_disabled''} \<Longrightarrow> fst (status_for res) = 200"
  by (simp add: status_for_def)

theorem remote_lookup_is_the_local_one_witness:
  "remote_resolve (\<lambda>j. []) (resolve_endpoint ''t'' (Some (''Bearer '' @ ''t'')) True True ''telegram'' (Some ''11'') None sample_cpdb) =
     Inr \<lparr>rv_household = ''h1'', rv_runtime_ref = Some ''fly:app''\<rparr>"
proof -
  have "resolve_sender ''telegram'' (Some ''11'') None sample_cpdb = Inr \<lparr>rv_household = ''h1'', rv_runtime_ref = Some ''fly:app''\<rparr>"
    by (simp add: resolve_sender_def sample_cpdb_def bound_to_def sample_owner_row_def sample_home_def)
  then show ?thesis
    by (subst remote_lookup_is_the_local_one) (simp_all add: valid_resolve_request_def channels_def is_ascii_def)
qed

definition sample_request :: g_request where
  "sample_request = \<lparr>hq_path = ''/v1/whatsapp/webhook'', hq_method = ''POST'', hq_length = Some ''2'',
     hq_body = Some (\<lambda>n. ''hi''), hq_auth = Some ''Bearer wrong'', hq_sender = Some ''+99'', hq_signature = Some ''s'',
     hq_timestamp = Some ''100'', hq_channel = None\<rparr>"

theorem strangers_learn_nothing_witness:
  "adapter_is_authentic (Some ''right'') sample_request = Some False \<and>
   app_respond sample_gateway (Some ''right'') sample_world ''i'' sample_request [sample_waiting] =
     (fst (app_respond sample_gateway (Some ''right'') sample_outage ''j'' sample_request []), [], [sample_waiting])"
proof -
  have a: "adapter_is_authentic (Some ''right'') sample_request = Some False"
    by (simp add: adapter_is_authentic_def sample_request_def str_or_none_def or_text_def compare_digest_def is_ascii_def)
  then show ?thesis
    using strangers_learn_nothing [where token = "Some ''right''" and q = sample_request and env = sample_gateway
        and env' = sample_gateway and w = sample_world and w' = sample_outage and i = "''i''" and i' = "''j''"
        and rows = "[sample_waiting]"] by simp
qed

end
