(* ===== verification/Jobs.thy ===== *)
theory Jobs
  imports CpSchema "HOL-Library.Sublist"
begin

text \<open>
  \<open>control_plane/repositories/jobs.py\<close> and \<open>OnboardingService._supersede_unsettled_jobs\<close>: the
  durable queue of provisioning intents.  One intent is one row; a worker leases the oldest job that is
  due, and an intent interrupted while the provider may have acted is quarantined for a person to
  reconcile.  The digest of a request and the new ids are parameters.
\<close>

section \<open>Rows\<close>

text \<open>\<open>requires_reconciliation\<close> compares the bytes; SQLite's \<open>LIKE\<close> ignores the case of ASCII.\<close>

definition reconciliation_suffix :: string where
  "reconciliation_suffix = ''_requires_reconciliation''"

definition requires_reconciliation :: "string option \<Rightarrow> bool" where
  "requires_reconciliation code = (case code of None \<Rightarrow> False | Some s \<Rightarrow> suffix reconciliation_suffix s)"

definition like_reconciliation :: "string option \<Rightarrow> bool" where
  "like_reconciliation code = (case code of None \<Rightarrow> False | Some s \<Rightarrow> suffix reconciliation_suffix (map lower_char s))"

datatype job_error = Job_unknown uid | Job_integrity

definition job_kinds :: "string list" where
  "job_kinds = [''email_identity'', ''whatsapp_identity'', ''channel_binding'', ''runtime'', ''cleanup'', ''bootstrap_cleanup'']"

record job_env =
  je_uuid :: "cpdb \<Rightarrow> uid"
  je_sha :: "json \<Rightarrow> string"

record job_request =
  jq_household :: uid
  jq_workflow :: uid
  jq_kind :: string
  jq_operation :: string
  jq_intent :: string
  jq_request :: json
  jq_provider :: string
  jq_revision :: "nat option"

definition job_row :: "job_env \<Rightarrow> uid \<Rightarrow> job_request \<Rightarrow> time \<Rightarrow> cp_job" where
  "job_row E i q now =
     \<lparr>jb_id = i, jb_household = jq_household q, jb_workflow = jq_workflow q, jb_kind = jq_kind q,
      jb_operation = jq_operation q, jb_intent = jq_intent q, jb_revision = jq_revision q,
      jb_request = jq_request q, jb_request_sha = je_sha E (jq_request q), jb_status = Jb_pending,
      jb_provider = jq_provider q, jb_external_ref = None, jb_result = None, jb_error = None, jb_attempts = 0,
      jb_not_before = None, jb_lease_until = None, jb_leased_by = None, jb_created_at = now,
      jb_updated_at = now, jb_settled_at = None\<rparr>"

definition jobs_create :: "job_env \<Rightarrow> job_request \<Rightarrow> time \<Rightarrow> cpdb \<Rightarrow> (job_error + uid \<times> bool) \<times> cpdb" where
  "jobs_create E q now d =
     (case find (\<lambda>r. jb_intent r = jq_intent q) (c_jobs d) of
        Some r \<Rightarrow> (Inr (jb_id r, False), d)
      | None \<Rightarrow>
          let i = je_uuid E d in
          if jq_kind q \<notin> set job_kinds \<or> i \<in> jb_id ` set (c_jobs d) then (Inl Job_integrity, d)
          else (Inr (i, True), d\<lparr>c_jobs := c_jobs d @ [job_row E i q now]\<rparr>))"

section \<open>Reads\<close>

definition jobs_get :: "uid \<Rightarrow> cpdb \<Rightarrow> cp_job option" where
  "jobs_get i d = tbl_get jb_id i (c_jobs d)"

definition jobs_request :: "uid \<Rightarrow> cpdb \<Rightarrow> job_error + json" where
  "jobs_request i d = (case jobs_get i d of None \<Rightarrow> Inl (Job_unknown i) | Some r \<Rightarrow> Inr (jb_request r))"

definition jobs_result :: "uid \<Rightarrow> cpdb \<Rightarrow> job_error + json option" where
  "jobs_result i d = (case jobs_get i d of None \<Rightarrow> Inl (Job_unknown i) | Some r \<Rightarrow> Inr (jb_result r))"

definition jobs_external_ref :: "uid \<Rightarrow> cpdb \<Rightarrow> job_error + string option" where
  "jobs_external_ref i d =
     (case jobs_get i d of None \<Rightarrow> Inl (Job_unknown i)
      | Some r \<Rightarrow> Inr (case jb_external_ref r of Some (JStr s) \<Rightarrow> Some s | _ \<Rightarrow> None))"

section \<open>The lease\<close>

definition due_by :: "time \<Rightarrow> time option \<Rightarrow> bool" where
  "due_by now t = (case t of None \<Rightarrow> False | Some x \<Rightarrow> x \<le> now)"

definition job_available :: "time \<Rightarrow> cp_job \<Rightarrow> bool" where
  "job_available now r \<longleftrightarrow>
     jb_status r = Jb_pending \<and> (jb_not_before r = None \<or> due_by now (jb_not_before r))
   \<or> jb_status r = Jb_running \<and> due_by now (jb_lease_until r)
   \<or> jb_status r = Jb_waiting_user \<and> jb_operation r = ''inspect'' \<and> due_by now (jb_not_before r)"

definition job_order :: "cp_job \<Rightarrow> time \<times> uid" where "job_order r = (jb_created_at r, jb_id r)"

definition lease_row :: "string \<Rightarrow> real \<Rightarrow> time \<Rightarrow> cp_job \<Rightarrow> cp_job" where
  "lease_row worker seconds now r =
     r\<lparr>jb_status := Jb_running, jb_leased_by := Some worker, jb_lease_until := Some (now + seconds),
       jb_attempts := jb_attempts r + 1, jb_updated_at := now\<rparr>"

definition jobs_lease :: "bool \<Rightarrow> string \<Rightarrow> real \<Rightarrow> time \<Rightarrow> cpdb \<Rightarrow> (cp_job \<times> bool) option \<times> cpdb" where
  "jobs_lease paused worker seconds now d =
     (if paused then (None, d)
      else case tbl_first job_order (job_available now) (c_jobs d) of
        None \<Rightarrow> (None, d)
      | Some r \<Rightarrow>
          let d' = d\<lparr>c_jobs := tbl_update (\<lambda>x. jb_id x = jb_id r) (lease_row worker seconds now) (c_jobs d)\<rparr>
          in (map_option (\<lambda>c. (c, jb_status r = Jb_running)) (jobs_get (jb_id r) d'), d'))"

section \<open>Outcomes\<close>

definition on_job :: "uid \<Rightarrow> (cp_job \<Rightarrow> cp_job) \<Rightarrow> cpdb \<Rightarrow> (job_error + unit) \<times> cpdb" where
  "on_job i f d =
     (if jobs_get i d = None then (Inl (Job_unknown i), d)
      else (Inr (), d\<lparr>c_jobs := tbl_update (\<lambda>r. jb_id r = i) f (c_jobs d)\<rparr>))"

definition schedule_waiting_inspect ::
  "job_env \<Rightarrow> uid \<Rightarrow> json \<Rightarrow> time option \<Rightarrow> string \<Rightarrow> time \<Rightarrow> cpdb \<Rightarrow> (job_error + unit) \<times> cpdb" where
  "schedule_waiting_inspect E i request not_before code now =
     on_job i (\<lambda>r. r\<lparr>jb_operation := ''inspect'', jb_request_sha := je_sha E request, jb_request := request,
        jb_status := Jb_waiting_user, jb_not_before := not_before, jb_error := Some code,
        jb_lease_until := None, jb_leased_by := None, jb_settled_at := None, jb_updated_at := now\<rparr>)"

definition terminal_job :: "job_status \<Rightarrow> bool" where
  "terminal_job s \<longleftrightarrow> s \<in> {Jb_succeeded, Jb_failed, Jb_outcome_unknown, Jb_cancelled}"

definition settle_job ::
  "job_status \<Rightarrow> json option \<Rightarrow> string option \<Rightarrow> string option \<Rightarrow> time \<Rightarrow> cp_job \<Rightarrow> cp_job" where
  "settle_job status result ref code now r =
     r\<lparr>jb_status := status, jb_result := coalesce result (jb_result r),
       jb_external_ref := coalesce (map_option JStr ref) (jb_external_ref r), jb_error := code,
       jb_lease_until := None, jb_leased_by := None, jb_updated_at := now,
       jb_settled_at := (if terminal_job status then Some now else None)\<rparr>"

definition jobs_settle ::
  "uid \<Rightarrow> job_status \<Rightarrow> json option \<Rightarrow> string option \<Rightarrow> string option \<Rightarrow> time \<Rightarrow> cpdb \<Rightarrow> (job_error + unit) \<times> cpdb" where
  "jobs_settle i status result ref code now = on_job i (settle_job status result ref code now)"

definition record_result :: "uid \<Rightarrow> json \<Rightarrow> string \<Rightarrow> time \<Rightarrow> cpdb \<Rightarrow> (job_error + unit) \<times> cpdb" where
  "record_result i result ref now =
     on_job i (\<lambda>r. r\<lparr>jb_result := Some result, jb_external_ref := Some (JStr ref), jb_updated_at := now\<rparr>)"

definition retry_later :: "uid \<Rightarrow> time \<Rightarrow> string \<Rightarrow> time \<Rightarrow> cpdb \<Rightarrow> cpdb" where
  "retry_later i not_before code now d =
     d\<lparr>c_jobs := tbl_update
        (\<lambda>r. jb_id r = i \<and> jb_status r \<in> {Jb_running, Jb_outcome_unknown} \<and>
             \<not> (jb_status r = Jb_outcome_unknown \<and> like_reconciliation (jb_error r)))
        (\<lambda>r. r\<lparr>jb_status := Jb_pending, jb_not_before := Some not_before, jb_error := Some code,
               jb_lease_until := None, jb_leased_by := None, jb_settled_at := None, jb_updated_at := now\<rparr>)
        (c_jobs d)\<rparr>"

definition cancel_row :: "time \<Rightarrow> cp_job \<Rightarrow> cp_job" where
  "cancel_row now r =
     r\<lparr>jb_status := Jb_cancelled, jb_settled_at := Some now, jb_updated_at := now,
       jb_lease_until := None, jb_leased_by := None\<rparr>"

definition cancel_household :: "uid \<Rightarrow> time \<Rightarrow> cpdb \<Rightarrow> nat \<times> cpdb" where
  "cancel_household hh now d =
     (let open_job = (\<lambda>r. jb_household r = hh \<and> jb_status r \<in> {Jb_pending, Jb_waiting_user})
      in (tbl_count open_job (c_jobs d), d\<lparr>c_jobs := tbl_update open_job (cancel_row now) (c_jobs d)\<rparr>))"

section \<open>Superseding an attempt\<close>

definition supersedable :: "uid \<Rightarrow> string list option \<Rightarrow> cp_job \<Rightarrow> bool" where
  "supersedable hh kinds r \<longleftrightarrow>
     jb_household r = hh \<and> jb_kind r \<notin> {''cleanup'', ''bootstrap_cleanup''} \<and>
     jb_operation r \<noteq> ''revoke_consent'' \<and> (case kinds of None \<Rightarrow> True | Some ks \<Rightarrow> jb_kind r \<in> set ks)"

definition quarantine_row :: "string \<Rightarrow> time \<Rightarrow> cp_job \<Rightarrow> cp_job" where
  "quarantine_row reason now r =
     r\<lparr>jb_status := Jb_outcome_unknown, jb_settled_at := Some now, jb_updated_at := now, jb_lease_until := None,
       jb_leased_by := None, jb_error := Some (reason @ reconciliation_suffix)\<rparr>"

definition supersede_unsettled_jobs :: "uid \<Rightarrow> string \<Rightarrow> string list option \<Rightarrow> time \<Rightarrow> cpdb \<Rightarrow> cpdb" where
  "supersede_unsettled_jobs hh reason kinds now d =
     d\<lparr>c_jobs :=
        tbl_update
          (\<lambda>r. supersedable hh kinds r \<and> jb_status r \<in> {Jb_running, Jb_waiting_user, Jb_outcome_unknown} \<and>
               \<not> like_reconciliation (jb_error r))
          (quarantine_row reason now)
          (tbl_update (\<lambda>r. supersedable hh kinds r \<and> jb_status r = Jb_pending)
            (\<lambda>r. (cancel_row now r)\<lparr>jb_error := Some (reason @ ''_before_provider_call'')\<rparr>) (c_jobs d))\<rparr>"

section \<open>A history of the queue\<close>

datatype job_op =
    Jo_create job_request time
  | Jo_lease bool string real time
  | Jo_schedule uid json "time option" string time
  | Jo_settle uid job_status "json option" "string option" "string option" time
  | Jo_record uid json string time
  | Jo_retry uid time string time
  | Jo_cancel uid time
  | Jo_supersede uid string "string list option" time

fun job_step :: "job_env \<Rightarrow> job_op \<Rightarrow> cpdb \<Rightarrow> cpdb" where
  "job_step E (Jo_create q now) d = snd (jobs_create E q now d)"
| "job_step E (Jo_lease paused worker seconds now) d = snd (jobs_lease paused worker seconds now d)"
| "job_step E (Jo_schedule i request not_before code now) d = snd (schedule_waiting_inspect E i request not_before code now d)"
| "job_step E (Jo_settle i status result ref code now) d = snd (jobs_settle i status result ref code now d)"
| "job_step E (Jo_record i result ref now) d = snd (record_result i result ref now d)"
| "job_step E (Jo_retry i not_before code now) d = retry_later i not_before code now d"
| "job_step E (Jo_cancel hh now) d = snd (cancel_household hh now d)"
| "job_step E (Jo_supersede hh reason kinds now) d = supersede_unsettled_jobs hh reason kinds now d"

end
