(* ===== verification/JobLaws.thy ===== *)
theory JobLaws
  imports Jobs
begin

text \<open>
  Laws of the job queue: an intent is one row through any history, a lease is exclusive until it
  expires, a recorded answer of a provider survives, a quarantined job leaves the quarantine only by an
  explicit settlement, and every due job is leased.
\<close>

section \<open>What a step does to a row\<close>

fun touch :: "job_env \<Rightarrow> job_op \<Rightarrow> cpdb \<Rightarrow> cp_job \<Rightarrow> cp_job" where
  "touch E (Jo_create q now) d r = r"
| "touch E (Jo_lease paused worker seconds now) d r =
     (if paused then r
      else case tbl_first job_order (job_available now) (c_jobs d) of
        None \<Rightarrow> r
      | Some r0 \<Rightarrow> if jb_id r = jb_id r0 then lease_row worker seconds now r else r)"
| "touch E (Jo_schedule i request not_before code now) d r =
     (if jb_id r = i
      then r\<lparr>jb_operation := ''inspect'', jb_request_sha := je_sha E request, jb_request := request,
        jb_status := Jb_waiting_user, jb_not_before := not_before, jb_error := Some code,
        jb_lease_until := None, jb_leased_by := None, jb_settled_at := None, jb_updated_at := now\<rparr> else r)"
| "touch E (Jo_settle i status result ref code now) d r = (if jb_id r = i then settle_job status result ref code now r else r)"
| "touch E (Jo_record i result ref now) d r =
     (if jb_id r = i then r\<lparr>jb_result := Some result, jb_external_ref := Some (JStr ref), jb_updated_at := now\<rparr> else r)"
| "touch E (Jo_retry i not_before code now) d r =
     (if jb_id r = i \<and> jb_status r \<in> {Jb_running, Jb_outcome_unknown} \<and>
         \<not> (jb_status r = Jb_outcome_unknown \<and> like_reconciliation (jb_error r))
      then r\<lparr>jb_status := Jb_pending, jb_not_before := Some not_before, jb_error := Some code,
        jb_lease_until := None, jb_leased_by := None, jb_settled_at := None, jb_updated_at := now\<rparr> else r)"
| "touch E (Jo_cancel hh now) d r =
     (if jb_household r = hh \<and> jb_status r \<in> {Jb_pending, Jb_waiting_user} then cancel_row now r else r)"
| "touch E (Jo_supersede hh reason kinds now) d r =
     (if supersedable hh kinds r \<and> jb_status r = Jb_pending
      then (cancel_row now r)\<lparr>jb_error := Some (reason @ ''_before_provider_call'')\<rparr>
      else if supersedable hh kinds r \<and> jb_status r \<in> {Jb_running, Jb_waiting_user, Jb_outcome_unknown} \<and>
         \<not> like_reconciliation (jb_error r)
      then quarantine_row reason now r else r)"

fun added :: "job_env \<Rightarrow> job_op \<Rightarrow> cpdb \<Rightarrow> cp_job list" where
  "added E (Jo_create q now) d =
     (if find (\<lambda>r. jb_intent r = jq_intent q) (c_jobs d) \<noteq> None \<or> jq_kind q \<notin> set job_kinds \<or>
         je_uuid E d \<in> jb_id ` set (c_jobs d) then [] else [job_row E (je_uuid E d) q now])"
| "added E op d = []"

lemma on_job_jobs: "c_jobs (snd (on_job i f d)) = map (\<lambda>r. if jb_id r = i then f r else r) (c_jobs d)"
proof (cases "jobs_get i d = None")
  case True
  then have "i \<notin> set (map jb_id (c_jobs d))" by (simp only: jobs_get_def tbl_get_None_iff not_False_eq_True)
  then have "map (\<lambda>r. if jb_id r = i then f r else r) (c_jobs d) = c_jobs d" by (intro map_idI) auto
  then show ?thesis using True by (simp add: on_job_def)
next
  case False
  then have "snd (on_job i f d) = d\<lparr>c_jobs := tbl_update (\<lambda>r. jb_id r = i) f (c_jobs d)\<rparr>"
    unfolding on_job_def by (simp only: if_False snd_conv)
  then show ?thesis by (simp add: tbl_update_def)
qed

lemma job_step_jobs: "c_jobs (job_step E op d) = map (touch E op d) (c_jobs d) @ added E op d"
proof (cases op)
  case (Jo_create q now)
  have "map (touch E op d) (c_jobs d) = c_jobs d" by (intro map_idI) (simp add: Jo_create)
  then show ?thesis by (simp add: Jo_create jobs_create_def Let_def split: option.split)
next
  case (Jo_lease paused worker seconds now)
  have same: "map (touch E op d) (c_jobs d) = c_jobs d"
    if "paused \<or> tbl_first job_order (job_available now) (c_jobs d) = None"
    using that by (intro map_idI) (auto simp: Jo_lease)
  show ?thesis
  proof (cases "paused \<or> tbl_first job_order (job_available now) (c_jobs d) = None")
    case True
    then have "snd (jobs_lease paused worker seconds now d) = d" by (auto simp: jobs_lease_def)
    then show ?thesis using same [OF True] Jo_lease by simp
  next
    case False
    then obtain r0 where "\<not> paused" "tbl_first job_order (job_available now) (c_jobs d) = Some r0" by blast
    then show ?thesis using Jo_lease by (simp add: jobs_lease_def Let_def tbl_update_def)
  qed
next
  case (Jo_supersede hh reason kinds now)
  let ?cancel = "\<lambda>r. if supersedable hh kinds r \<and> jb_status r = Jb_pending
    then (cancel_row now r)\<lparr>jb_error := Some (reason @ ''_before_provider_call'')\<rparr> else r"
  let ?mark = "\<lambda>r. if supersedable hh kinds r \<and> jb_status r \<in> {Jb_running, Jb_waiting_user, Jb_outcome_unknown} \<and>
      \<not> like_reconciliation (jb_error r) then quarantine_row reason now r else r"
  have "?mark (?cancel r) = touch E op d r" for r
    by (cases "jb_status r") (simp_all add: Jo_supersede cancel_row_def)
  then show ?thesis
    by (simp only: Jo_supersede job_step.simps supersede_unsettled_jobs_def tbl_update_def map_map comp_def
        added.simps append_Nil2 cpdb.select_convs cpdb.update_convs cpdb.surjective) simp
qed (simp_all add: schedule_waiting_inspect_def jobs_settle_def record_result_def on_job_jobs retry_later_def
      cancel_household_def tbl_update_def Let_def)

named_theorems job_rows

lemmas job_row_defs = lease_row_def settle_job_def cancel_row_def quarantine_row_def

lemma touch_keys [job_rows]:
  "jb_id (touch E op d r) = jb_id r" "jb_intent (touch E op d r) = jb_intent r"
  "jb_household (touch E op d r) = jb_household r" "jb_kind (touch E op d r) = jb_kind r"
  "jb_created_at (touch E op d r) = jb_created_at r" "jb_provider (touch E op d r) = jb_provider r"
  by (cases op; simp add: job_row_defs split: option.split)+

definition jobs_ok :: "cpdb \<Rightarrow> bool" where
  "jobs_ok d \<longleftrightarrow> distinct (map jb_id (c_jobs d)) \<and> distinct (map jb_intent (c_jobs d))"

lemma jobs_get_mem: "jobs_get i d = Some r \<Longrightarrow> r \<in> set (c_jobs d) \<and> jb_id r = i"
  unfolding jobs_get_def by (rule tbl_get_SomeD)

lemma jobs_ok_get: "jobs_ok d \<Longrightarrow> r \<in> set (c_jobs d) \<Longrightarrow> jobs_get (jb_id r) d = Some r"
  unfolding jobs_ok_def jobs_get_def by (rule tbl_get_mem) auto

lemma jobs_ok_same: "jobs_ok d \<Longrightarrow> jobs_get i d = Some r \<Longrightarrow> r0 \<in> set (c_jobs d) \<Longrightarrow> jb_id r0 = i \<Longrightarrow> r0 = r"
  using jobs_ok_get by fastforce

lemma jobs_ok_step: "jobs_ok d \<Longrightarrow> jobs_ok (job_step E op d)"
proof -
  assume ok: "jobs_ok d"
  have keys: "map jb_id (map (touch E op d) (c_jobs d)) = map jb_id (c_jobs d)"
    "map jb_intent (map (touch E op d) (c_jobs d)) = map jb_intent (c_jobs d)"
    by (simp_all only: map_map comp_def job_rows)
  have new: "added E op d = [] \<or> (\<exists>r. added E op d = [r] \<and> jb_id r \<notin> set (map jb_id (c_jobs d)) \<and>
      jb_intent r \<notin> set (map jb_intent (c_jobs d)))"
    by (cases op) (auto simp: job_row_def find_None_all)
  show ?thesis
    using ok new unfolding jobs_ok_def job_step_jobs map_append keys by (elim disjE exE conjE) simp_all
qed

lemma jobs_ok_run: "jobs_ok d \<Longrightarrow> jobs_ok (fold (job_step E) ops d)"
  by (induction ops arbitrary: d) (simp_all add: jobs_ok_step)

lemma jobs_get_step:
  assumes "jobs_get i d = Some r"
  shows "jobs_get i (job_step E op d) = Some (touch E op d r)"
proof -
  have "tbl_get jb_id i (map (touch E op d) T) = map_option (touch E op d) (tbl_get jb_id i T)" for T
    by (induction T) (simp_all add: tbl_get_Cons job_rows)
  then show ?thesis using assms by (simp add: jobs_get_def job_step_jobs tbl_get_append)
qed

text \<open>A fact about one row that every step keeps holds through a history.\<close>

lemma row_through_history:
  assumes "jobs_ok d" "jobs_get i d = Some r" "P r"
    "\<And>op d r. op \<in> set ops \<Longrightarrow> jobs_ok d \<Longrightarrow> jobs_get i d = Some r \<Longrightarrow> P r \<Longrightarrow> P (touch E op d r)"
  shows "\<exists>r'. jobs_get i (fold (job_step E) ops d) = Some r' \<and> P r'"
  using assms
proof (induction ops arbitrary: d r)
  case (Cons op ops)
  have "P (touch E op d r)" using Cons.prems by simp
  then have "\<exists>r'. jobs_get i (fold (job_step E) ops (job_step E op d)) = Some r' \<and> P r'"
    using Cons.IH [OF jobs_ok_step [OF Cons.prems(1)] jobs_get_step [OF Cons.prems(2)]] Cons.prems(4) by simp
  then show ?case by simp
qed auto

section \<open>One intent, one row\<close>

lemma created_is_there:
  assumes "jobs_ok d" "jobs_create E q now d = (Inr (i, b), d')"
  shows "\<exists>r. jobs_get i d' = Some r \<and> jb_intent r = jq_intent q"
proof (cases "find (\<lambda>r. jb_intent r = jq_intent q) (c_jobs d)")
  case None
  then have i: "i = je_uuid E d" and d': "d' = d\<lparr>c_jobs := c_jobs d @ [job_row E i q now]\<rparr>"
    and new: "i \<notin> jb_id ` set (c_jobs d)"
    using assms by (auto simp: jobs_create_def Let_def split: if_splits)
  have "tbl_get jb_id i (c_jobs d) = None" using new by (simp add: tbl_get_None_iff)
  then show ?thesis by (simp add: d' jobs_get_def tbl_get_append tbl_get_Cons job_row_def)
next
  case (Some r)
  then have i: "i = jb_id r" "d' = d" using assms by (auto simp: jobs_create_def)
  have m: "r \<in> set (c_jobs d)" "jb_intent r = jq_intent q" using find_Some_mem [OF Some] by auto
  then show ?thesis using jobs_ok_get [OF assms(1)] i by blast
qed

lemma known_intent_is_found:
  assumes "jobs_ok d" "jobs_get i d = Some r" "jb_intent r = jq_intent q"
  shows "jobs_create E q now d = (Inr (i, False), d)"
proof -
  have m: "r \<in> set (c_jobs d)" "jb_id r = i" using jobs_get_mem [OF assms(2)] by auto
  then have "find (\<lambda>r. jb_intent r = jq_intent q) (c_jobs d) \<noteq> None"
    using assms(3) by (simp only: find_None_all) blast
  then obtain r' where r': "find (\<lambda>r. jb_intent r = jq_intent q) (c_jobs d) = Some r'" by blast
  then have "r' = r"
    using find_Some_mem [OF r'] m assms(1,3) by (auto simp: jobs_ok_def intro: distinct_same_row)
  then show ?thesis using r' m by (simp add: jobs_create_def)
qed

text \<open>
  C23 (a provisioning intent is queued once).  Whatever happens to the queue after an intent is created,
  creating it again answers the id of the first row and adds none.
\<close>

theorem one_job_per_intent:
  assumes "jobs_ok d" "jobs_create E q now d = (Inr (i, b), d')" "jq_intent q2 = jq_intent q"
  shows "jobs_create E q2 now2 (fold (job_step E) ops d') = (Inr (i, False), fold (job_step E) ops d')"
proof -
  have ok: "jobs_ok d'" using jobs_ok_step [OF assms(1), of E "Jo_create q now"] assms(2) by simp
  obtain r where r: "jobs_get i d' = Some r" "jb_intent r = jq_intent q" using created_is_there [OF assms(1,2)] by blast
  obtain r' where "jobs_get i (fold (job_step E) ops d') = Some r'" "jb_intent r' = jq_intent q"
    using row_through_history [OF ok r(1), of "\<lambda>r. jb_intent r = jq_intent q"] r(2) by (auto simp: job_rows)
  then show ?thesis using known_intent_is_found [OF jobs_ok_run [OF ok]] assms(3) by metis
qed

section \<open>The lease\<close>

lemma leased_row:
  assumes "jobs_ok d" "jobs_lease paused w s t d = (Some (j, rc), d')"
  obtains r0 where "\<not> paused" "jobs_get (jb_id j) d = Some r0" "job_available t r0" "rc = (jb_status r0 = Jb_running)"
    "\<And>r. r \<in> set (c_jobs d) \<Longrightarrow> job_available t r \<Longrightarrow> job_order r0 \<le> job_order r"
    "j = lease_row w s t r0" "jobs_get (jb_id j) d' = Some j"
    "d' = d\<lparr>c_jobs := tbl_update (\<lambda>x. jb_id x = jb_id j) (lease_row w s t) (c_jobs d)\<rparr>"
    "tbl_first job_order (job_available t) (c_jobs d) = Some r0" "jb_id r0 = jb_id j"
proof -
  have p: "\<not> paused" using assms(2) by (auto simp: jobs_lease_def split: if_splits)
  obtain r0 where r0: "tbl_first job_order (job_available t) (c_jobs d) = Some r0"
    using assms(2) p by (auto simp: jobs_lease_def split: option.splits)
  let ?d = "d\<lparr>c_jobs := tbl_update (\<lambda>x. jb_id x = jb_id r0) (lease_row w s t) (c_jobs d)\<rparr>"
  note first = tbl_first_SomeD [OF r0]
  have g: "jobs_get (jb_id r0) d = Some r0"
    by (rule jobs_ok_get [OF assms(1) first(1)])
  have g': "jobs_get (jb_id r0) ?d = Some (lease_row w s t r0)"
    using g by (simp add: jobs_get_def tbl_get_update lease_row_def)
  have "jobs_lease paused w s t d = (Some (lease_row w s t r0, jb_status r0 = Jb_running), ?d)"
    using p r0 g' by (simp add: jobs_lease_def Let_def)
  then have j: "j = lease_row w s t r0" and rc: "rc = (jb_status r0 = Jb_running)" and d': "d' = ?d"
    using assms(2) by auto
  have i: "jb_id j = jb_id r0" by (simp add: j lease_row_def)
  show ?thesis
    by (rule that [OF p _ first(2) rc first(3) j _ _ r0]) (simp_all add: i g d' g' j [symmetric])
qed

text \<open>The steps that give a running job back: its outcome, or the end of the attempt it belongs to.\<close>

fun gives_back :: "cp_job \<Rightarrow> job_op \<Rightarrow> bool" where
  "gives_back j (Jo_settle i status result ref code now) \<longleftrightarrow> i = jb_id j"
| "gives_back j (Jo_schedule i request not_before code now) \<longleftrightarrow> i = jb_id j"
| "gives_back j (Jo_retry i not_before code now) \<longleftrightarrow> i = jb_id j"
| "gives_back j (Jo_supersede hh reason kinds now) \<longleftrightarrow> supersedable hh kinds j"
| "gives_back j op \<longleftrightarrow> False"

fun lease_length_ok :: "job_op \<Rightarrow> bool" where
  "lease_length_ok (Jo_lease paused worker seconds now) \<longleftrightarrow> 0 \<le> seconds"
| "lease_length_ok op \<longleftrightarrow> True"

definition held_until :: "cp_job \<Rightarrow> time \<Rightarrow> cp_job \<Rightarrow> bool" where
  "held_until j T r \<longleftrightarrow> jb_id r = jb_id j \<and> jb_household r = jb_household j \<and> jb_kind r = jb_kind j \<and>
     jb_operation r = jb_operation j \<and> jb_status r = Jb_running \<and> (\<exists>u. jb_lease_until r = Some u \<and> T \<le> u) \<and> jb_attempts j \<le> jb_attempts r"

lemma held_is_not_available: "held_until j T r \<Longrightarrow> job_available now r \<Longrightarrow> T \<le> now"
  by (auto simp: held_until_def job_available_def due_by_def)

lemma held_supersedable: "held_until j T r \<Longrightarrow> supersedable hh kinds r = supersedable hh kinds j"
  unfolding held_until_def supersedable_def by (elim conjE) (simp only:)

lemma held_stays:
  assumes "jobs_ok d" "jobs_get i d = Some r" "held_until j T r" "\<not> gives_back j op" "lease_length_ok op"
  shows "held_until j T (touch E op d r)"
proof (cases op)
  case (Jo_lease paused worker seconds now)
  show ?thesis
  proof (cases "tbl_first job_order (job_available now) (c_jobs d)")
    case (Some r0)
    note first = tbl_first_SomeD [OF Some]
    show ?thesis
    proof (cases "jb_id r = jb_id r0 \<and> \<not> paused")
      case True
      have "r0 = r" using jobs_ok_same [OF assms(1,2) first(1)] True jobs_get_mem [OF assms(2)] by simp
      then have "T \<le> now" using held_is_not_available assms(3) first(2) by blast
      then show ?thesis using assms(3,5) Some True Jo_lease by (auto simp: held_until_def lease_row_def)
    next
      case False
      then show ?thesis using assms(3) Some Jo_lease by auto
    qed
  qed (use assms(3) Jo_lease in simp)
next
  case (Jo_supersede hh reason kinds now)
  then show ?thesis using assms(3,4) held_supersedable by (auto simp: held_until_def)
qed (use assms(3,4) in \<open>auto simp: held_until_def\<close>)

text \<open>
  C24 (a live lease belongs to one worker).  After a worker leased a job for some seconds, no lease of
  any worker returns that job before the time is over, unless its outcome was reported or its attempt was
  superseded; the one that does return it is told that the job was reclaimed.
\<close>

theorem a_live_lease_is_exclusive:
  assumes "jobs_ok d" "jobs_lease False w s t d = (Some (j, rc), d')"
    "\<And>op. op \<in> set ops \<Longrightarrow> \<not> gives_back j op \<and> lease_length_ok op"
    "jobs_lease False w2 s2 t2 (fold (job_step E) ops d') = (Some (j2, rc2), d2)" "jb_id j2 = jb_id j"
  shows "t + s \<le> t2 \<and> rc2 \<and> jb_attempts j < jb_attempts j2"
proof -
  have ok: "jobs_ok d'" using jobs_ok_step [OF assms(1), of E "Jo_lease False w s t"] assms(2) by simp
  obtain r0 where j: "j = lease_row w s t r0" and g: "jobs_get (jb_id j) d' = Some j"
    using leased_row [OF assms(1,2)] by metis
  have "held_until j (t + s) j" by (simp add: held_until_def j lease_row_def)
  then obtain r where r: "jobs_get (jb_id j) (fold (job_step E) ops d') = Some r" "held_until j (t + s) r"
    using row_through_history [OF ok g, of "held_until j (t + s)"] held_stays assms(3) by blast
  obtain r2 where r2: "jobs_get (jb_id j2) (fold (job_step E) ops d') = Some r2" "job_available t2 r2"
      "rc2 = (jb_status r2 = Jb_running)" "j2 = lease_row w2 s2 t2 r2"
    using leased_row [OF jobs_ok_run [OF ok] assms(4)] by metis
  have "r2 = r" using r(1) r2(1) assms(5) by simp
  then show ?thesis using r(2) r2 held_is_not_available by (auto simp: held_until_def lease_row_def)
qed

text \<open>Leases at one moment take the jobs that are due, oldest first, each once.\<close>

fun lease_many :: "nat \<Rightarrow> string \<Rightarrow> real \<Rightarrow> time \<Rightarrow> cpdb \<Rightarrow> uid list" where
  "lease_many 0 w s t d = []"
| "lease_many (Suc n) w s t d =
     (case jobs_lease False w s t d of
        (None, d') \<Rightarrow> []
      | (Some (j, rc), d') \<Rightarrow> jb_id j # lease_many n w s t d')"

lemma leased_is_not_due:
  assumes "0 < s"
  shows "filter (job_available t) (tbl_update (\<lambda>x. jb_id x = i) (lease_row w s t) T) =
    filter (\<lambda>x. job_available t x \<and> jb_id x \<noteq> i) T"
  using assms by (induction T) (auto simp: job_available_def lease_row_def due_by_def)

text \<open>
  C25 (no due job is passed over).  As many leases as there are due jobs return every one of them, in the
  order they were created, none twice.
\<close>

theorem every_due_job_is_leased:
  assumes "jobs_ok d" "0 < s"
  shows "lease_many n w s t d = take n (map jb_id (sort_key job_order (filter (job_available t) (c_jobs d))))"
  using assms(1)
proof (induction n arbitrary: d)
  case (Suc n)
  let ?q = "\<lambda>d. sort_key job_order (filter (job_available t) (c_jobs d))"
  show ?case
  proof (cases "jobs_lease False w s t d")
    case (Pair res d')
    show ?thesis
    proof (cases res)
      case None
      have "tbl_first job_order (job_available t) (c_jobs d) = None"
      proof (rule ccontr)
        assume "tbl_first job_order (job_available t) (c_jobs d) \<noteq> None"
        then obtain r0 where r0: "tbl_first job_order (job_available t) (c_jobs d) = Some r0" by blast
        have "jobs_get (jb_id r0) d = Some r0"
          by (rule jobs_ok_get [OF Suc.prems tbl_first_SomeD(1) [OF r0]])
        then show False using Pair None r0 by (simp add: jobs_lease_def Let_def jobs_get_def tbl_get_update lease_row_def)
      qed
      then have "filter (job_available t) (c_jobs d) = []" by (simp add: tbl_first_None_iff filter_empty_conv)
      then show ?thesis using Pair None by simp
    next
      case (Some jr)
      obtain j rc where jr: "jr = (j, rc)" by (cases jr)
      have l: "jobs_lease False w s t d = (Some (j, rc), d')" using Pair Some jr by simp
      obtain r0 where r0: "tbl_first job_order (job_available t) (c_jobs d) = Some r0" and i: "jb_id r0 = jb_id j"
        and d': "d' = d\<lparr>c_jobs := tbl_update (\<lambda>x. jb_id x = jb_id j) (lease_row w s t) (c_jobs d)\<rparr>"
        by (rule leased_row [OF Suc.prems l])
      have "?q d = r0 # sort_key job_order (filter (\<lambda>x. job_available t x \<and> jb_id x \<noteq> jb_id r0) (c_jobs d))"
        using sort_key_tl [OF r0, where rid = jb_id] Suc.prems by (simp add: jobs_ok_def)
      then have "?q d = r0 # ?q d'" by (simp add: d' i leased_is_not_due [OF assms(2)])
      moreover have "jobs_ok d'" using jobs_ok_step [OF Suc.prems, of E "Jo_lease False w s t"] l by simp
      ultimately show ?thesis using l i Suc.IH by simp
    qed
  qed
qed simp

section \<open>Quarantine\<close>

definition quarantined :: "uid \<Rightarrow> string \<Rightarrow> cp_job \<Rightarrow> bool" where
  "quarantined i reason r \<longleftrightarrow> jb_id r = i \<and> jb_status r = Jb_outcome_unknown \<and> jb_error r = Some (reason @ reconciliation_suffix)"

lemma quarantine_is_recognised: "like_reconciliation (Some (reason @ reconciliation_suffix))"
  "requires_reconciliation (Some (reason @ reconciliation_suffix))"
proof -
  have "map lower_char reconciliation_suffix = reconciliation_suffix" by code_simp
  then show "like_reconciliation (Some (reason @ reconciliation_suffix))" by (simp add: like_reconciliation_def suffix_def)
qed (simp add: requires_reconciliation_def suffix_def)

lemma quarantined_is_not_available: "quarantined i reason r \<Longrightarrow> \<not> job_available t r"
  by (simp add: quarantined_def job_available_def)

text \<open>What ends a quarantine: an outcome or a new attempt written for this very job, by whomever.\<close>

fun decides_job :: "uid \<Rightarrow> job_op \<Rightarrow> bool" where
  "decides_job i (Jo_settle k status result ref code now) \<longleftrightarrow> k = i"
| "decides_job i (Jo_schedule k request not_before code now) \<longleftrightarrow> k = i"
| "decides_job i op \<longleftrightarrow> False"

lemma quarantined_stays:
  assumes "jobs_ok d" "jobs_get i d = Some r" "quarantined i reason r" "\<not> decides_job i op"
  shows "quarantined i reason (touch E op d r)"
proof (cases op)
  case (Jo_lease paused worker seconds now)
  have "jb_id r \<noteq> jb_id r0" if "tbl_first job_order (job_available now) (c_jobs d) = Some r0" for r0
  proof
    note first = tbl_first_SomeD [OF that]
    assume "jb_id r = jb_id r0"
    then have "r0 = r" using jobs_ok_same [OF assms(1,2) first(1)] jobs_get_mem [OF assms(2)] by simp
    then show False using first(2) quarantined_is_not_available assms(3) by blast
  qed
  then show ?thesis using assms(3) Jo_lease by (auto split: option.split)
qed (use assms(3,4) quarantine_is_recognised in \<open>auto simp: quarantined_def\<close>)

definition in_flight :: "cp_job \<Rightarrow> bool" where
  "in_flight r \<longleftrightarrow> jb_status r \<in> {Jb_running, Jb_waiting_user, Jb_outcome_unknown}"

text \<open>
  An interrupted intent is quarantined.  When an attempt is superseded while the provider may already have
  acted, its job is marked for reconciliation; from then on no lease returns it, and no retry, cancellation or
  later reset changes the mark, until its outcome is settled or another attempt is scheduled, by a person or by
  the worker's own cleanup of a cancelled attempt.
\<close>

theorem quarantine_outlasts_everything:
  assumes "jobs_ok d" "jobs_get i d = Some r" "supersedable hh kinds r" "in_flight r" "\<not> like_reconciliation (jb_error r)"
    "\<And>op. op \<in> set ops \<Longrightarrow> \<not> decides_job i op"
  shows "\<exists>r'. jobs_get i (fold (job_step E) ops (supersede_unsettled_jobs hh reason kinds now d)) = Some r' \<and>
    quarantined i reason r' \<and> requires_reconciliation (jb_error r') \<and>
    (\<forall>w s t j rc d2. jobs_lease False w s t (fold (job_step E) ops (supersede_unsettled_jobs hh reason kinds now d)) =
       (Some (j, rc), d2) \<longrightarrow> jb_id j \<noteq> i)"
proof -
  let ?d = "job_step E (Jo_supersede hh reason kinds now) d"
  have i: "jb_id r = i" using jobs_get_mem [OF assms(2)] by simp
  have g: "jobs_get i ?d = Some (quarantine_row reason now r)"
    using jobs_get_step [OF assms(2), of E "Jo_supersede hh reason kinds now"] assms(3-5) by (auto simp: in_flight_def)
  have "quarantined i reason (quarantine_row reason now r)" using i by (simp add: quarantined_def quarantine_row_def)
  then obtain r' where r': "jobs_get i (fold (job_step E) ops ?d) = Some r'" "quarantined i reason r'"
    using row_through_history [OF jobs_ok_step [OF assms(1)] g, of "quarantined i reason"] quarantined_stays assms(6)
    by blast
  have "jb_id j \<noteq> i" if "jobs_lease False w s t (fold (job_step E) ops ?d) = (Some (j, rc), d2)" for w s t j rc d2
  proof
    note leased = that
    assume "jb_id j = i"
    moreover obtain r0 where "jobs_get (jb_id j) (fold (job_step E) ops ?d) = Some r0" "job_available t r0"
      by (rule leased_row [OF jobs_ok_run [OF jobs_ok_step [OF assms(1)]] leased])
    ultimately show False using r' quarantined_is_not_available by auto
  qed
  then show ?thesis using r' quarantine_is_recognised by (auto simp: quarantined_def)
qed

section \<open>Recorded answers\<close>

lemma coalesce_Some_ex: "coalesce a (Some v) \<noteq> None"
  by (cases a) auto

text \<open>What a provider answered is never erased, only replaced by a newer answer.\<close>

lemma recorded_answer_survives:
  assumes "jobs_ok d" "jobs_get i d = Some r" "jb_result r \<noteq> None" "jb_external_ref r \<noteq> None"
  shows "\<exists>r'. jobs_get i (fold (job_step E) ops d) = Some r' \<and> jb_result r' \<noteq> None \<and> jb_external_ref r' \<noteq> None"
proof -
  have keep: "jb_result (touch E op d r) \<noteq> None \<and> jb_external_ref (touch E op d r) \<noteq> None"
    if "jb_result r \<noteq> None \<and> jb_external_ref r \<noteq> None" for op d r
    using that by (cases op) (auto simp: job_row_defs coalesce_Some_ex [simplified] split: option.split)
  show ?thesis
    using row_through_history [OF assms(1,2), of "\<lambda>r. jb_result r \<noteq> None \<and> jb_external_ref r \<noteq> None"] assms(3,4) keep by blast
qed

text \<open>After a sweep of everything, no job of the attempt is pending or in flight.\<close>

lemma superseded_is_closed:
  assumes "r \<in> set (c_jobs (supersede_unsettled_jobs hh reason kinds now d))" "supersedable hh kinds r"
  shows "jb_status r \<notin> {Jb_pending, Jb_running, Jb_waiting_user} \<or> like_reconciliation (jb_error r)"
  using assms by (auto simp: supersede_unsettled_jobs_def tbl_update_def cancel_row_def quarantine_row_def split: if_splits)

section \<open>Concrete inputs\<close>

definition sample_job_env :: job_env where
  "sample_job_env = \<lparr>je_uuid = (\<lambda>d. replicate (length (c_jobs d)) (CHR ''j'')), je_sha = (\<lambda>j. ''sha'')\<rparr>"

definition sample_intent :: "string \<Rightarrow> job_request" where
  "sample_intent key = \<lparr>jq_household = ''h1'', jq_workflow = ''wf1'', jq_kind = ''email_identity'', jq_operation = ''ensure'',
     jq_intent = key, jq_request = JObj [], jq_provider = ''fake-email'', jq_revision = None\<rparr>"

definition sample_first :: cp_job where "sample_first = job_row sample_job_env ''j1'' (sample_intent ''h1:email:1'') 1"

definition sample_second :: cp_job where "sample_second = job_row sample_job_env ''j2'' (sample_intent ''h1:email:2'') 2"

definition sample_queue :: cpdb where "sample_queue = empty_cpdb\<lparr>c_jobs := [sample_second, sample_first]\<rparr>"

definition sample_running :: cp_job where "sample_running = lease_row ''w1'' 120 10 sample_first"

definition sample_leased :: cpdb where "sample_leased = empty_cpdb\<lparr>c_jobs := [sample_second, sample_running]\<rparr>"

lemmas sample_queue_defs = sample_queue_def sample_leased_def sample_running_def sample_first_def sample_second_def
  sample_intent_def job_row_def

lemma sample_queue_ok: "jobs_ok sample_queue" "jobs_ok sample_leased"
  by (simp_all add: jobs_ok_def sample_queue_defs lease_row_def)

lemma sample_lease: "jobs_lease False ''w1'' 120 10 sample_queue = (Some (sample_running, False), sample_leased)"
  by (simp add: jobs_lease_def tbl_first_def sample_queue_defs job_available_def job_order_def jobs_get_def
      tbl_get_Cons lease_row_def empty_cpdb_def less_eq_prod_def Let_def)

lemma one_job_per_intent_witness:
  "jobs_create sample_job_env (sample_intent ''h1:email:9'') 8
     (fold (job_step sample_job_env) [Jo_lease False ''w'' 60 6] (sample_queue\<lparr>c_jobs := c_jobs sample_queue @
       [job_row sample_job_env ''jj'' (sample_intent ''h1:email:9'') 5]\<rparr>)) =
   (Inr (''jj'', False), fold (job_step sample_job_env) [Jo_lease False ''w'' 60 6] (sample_queue\<lparr>c_jobs := c_jobs sample_queue @
       [job_row sample_job_env ''jj'' (sample_intent ''h1:email:9'') 5]\<rparr>))"
proof (rule one_job_per_intent [OF sample_queue_ok(1)])
  show "jobs_create sample_job_env (sample_intent ''h1:email:9'') 5 sample_queue = (Inr (''jj'', True),
      sample_queue\<lparr>c_jobs := c_jobs sample_queue @ [job_row sample_job_env ''jj'' (sample_intent ''h1:email:9'') 5]\<rparr>)"
    by (simp add: jobs_create_def sample_queue_defs sample_job_env_def job_kinds_def numeral_2_eq_2 Let_def)
qed (simp add: sample_intent_def)

definition sample_again :: cpdb where
  "sample_again = sample_leased\<lparr>c_jobs := [lease_row ''w2'' 60 20 sample_second, sample_running]\<rparr>"

lemma a_live_lease_is_exclusive_witness:
  "jobs_lease False ''w3'' 60 131 sample_again =
     (Some (lease_row ''w3'' 60 131 sample_running, True), sample_again\<lparr>c_jobs := [lease_row ''w2'' 60 20 sample_second,
        lease_row ''w3'' 60 131 sample_running]\<rparr>) \<and> (10::real) + 120 \<le> 131"
proof -
  have step: "fold (job_step sample_job_env) [Jo_lease False ''w2'' 60 20] sample_leased = sample_again"
    by (simp add: jobs_lease_def tbl_first_def sample_queue_defs sample_again_def job_available_def job_order_def
        lease_row_def empty_cpdb_def due_by_def Let_def)
  have take: "jobs_lease False ''w3'' 60 131 sample_again =
     (Some (lease_row ''w3'' 60 131 sample_running, True), sample_again\<lparr>c_jobs := [lease_row ''w2'' 60 20 sample_second,
        lease_row ''w3'' 60 131 sample_running]\<rparr>)"
    by (simp add: jobs_lease_def tbl_first_def sample_again_def sample_queue_defs job_available_def job_order_def jobs_get_def
        tbl_get_Cons lease_row_def empty_cpdb_def due_by_def less_eq_prod_def Let_def)
  have "(10::real) + 120 \<le> 131 \<and> True \<and> jb_attempts sample_running < jb_attempts (lease_row ''w3'' 60 131 sample_running)"
    by (rule a_live_lease_is_exclusive [OF sample_queue_ok(1) sample_lease, where E = sample_job_env
        and ops = "[Jo_lease False ''w2'' 60 20]" and ?w2.0 = "''w3''" and ?s2.0 = 60, unfolded step, OF _ take])
      (auto simp: lease_row_def sample_running_def)
  then show ?thesis using take by simp
qed

lemma every_due_job_is_leased_witness: "lease_many 2 ''w'' 60 5 sample_queue = [''j1'', ''j2'']"
  using every_due_job_is_leased [OF sample_queue_ok(1), of 60 2 "''w''" 5]
  by (simp add: sample_queue_defs job_available_def job_order_def less_eq_prod_def)

lemma quarantine_outlasts_everything_witness:
  "\<exists>r'. jobs_get ''j1'' (fold (job_step sample_job_env) [Jo_retry ''j1'' 30 ''again'' 20, Jo_cancel ''h1'' 25]
      (supersede_unsettled_jobs ''h1'' ''cancel'' None 15 sample_leased)) = Some r' \<and>
    jb_error r' = Some ''cancel_requires_reconciliation''"
proof -
  have "jobs_get ''j1'' sample_leased = Some sample_running"
    by (simp add: jobs_get_def sample_queue_defs tbl_get_Cons lease_row_def)
  moreover have "supersedable ''h1'' None sample_running" "in_flight sample_running"
    "\<not> like_reconciliation (jb_error sample_running)"
    by (simp_all add: supersedable_def in_flight_def like_reconciliation_def sample_queue_defs lease_row_def)
  moreover have "\<not> decides_job ''j1'' op" if "op \<in> set [Jo_retry ''j1'' 30 ''again'' 20, Jo_cancel ''h1'' 25]" for op
    using that by auto
  ultimately have "\<exists>r'. jobs_get ''j1'' (fold (job_step sample_job_env) [Jo_retry ''j1'' 30 ''again'' 20, Jo_cancel ''h1'' 25]
      (supersede_unsettled_jobs ''h1'' ''cancel'' None 15 sample_leased)) = Some r' \<and> quarantined ''j1'' ''cancel'' r'"
    using quarantine_outlasts_everything [OF sample_queue_ok(2), where r = sample_running and E = sample_job_env and reason = "''cancel''"]
    by blast
  then show ?thesis by (auto simp: quarantined_def reconciliation_suffix_def)
qed

end
