(* ===== verification/Accounts.thy ===== *)
theory Accounts
  imports CpSchema
begin

text \<open>
  Accounts, sessions and households of the control plane: \<open>repositories/auth.py\<close>,
  \<open>repositories/accounts.py\<close>, \<open>repositories/households.py\<close>, \<open>auth/sessions.py\<close>,
  \<open>auth/tokens.py\<close>, \<open>auth/rate_limit.py\<close>, \<open>services/accounts.py\<close>,
  \<open>services/households.py\<close> and the guards of \<open>api/dependencies.py\<close>.  The keyed digests, the
  random tokens and ids, NFKC and the mailer (whether it accepts a recipient, and whether a letter is
  delivered) are parameters; a request reads the clock once.
\<close>

section \<open>Environment and errors\<close>

record auth_env =
  ae_uuid :: "nat \<Rightarrow> cpdb \<Rightarrow> uid"
  ae_random :: "nat \<Rightarrow> cpdb \<Rightarrow> string"
  ae_digest :: "string \<Rightarrow> string"
  ae_lookup :: "string \<Rightarrow> string"
  ae_sha :: "nat \<Rightarrow> string"
  ae_nfkc :: "string \<Rightarrow> string"
  ae_slug :: "uid \<Rightarrow> string"
  ae_zone :: "string \<Rightarrow> bool"
  ae_mailbox :: "string \<Rightarrow> bool"
  ae_origin :: string
  ae_signup :: bool
  ae_delivers :: "string \<Rightarrow> string \<Rightarrow> string \<Rightarrow> cpdb \<Rightarrow> bool"

datatype auth_error =
    Invalid_credential string
  | Permission_refused string
  | Value_refused string
  | Rate_limit_exceeded
  | Household_missing uid
  | Account_missing uid
  | Integrity_refused
  | Replay_conflict
  | Version_conflict nat nat
  | Mail_undelivered

section \<open>Addresses\<close>

definition rstrip_dots :: "string \<Rightarrow> string" where
  "rstrip_dots s = rev (dropWhile (\<lambda>c. c = CHR ''.'') (rev s))"

definition normalize_email :: "auth_env \<Rightarrow> string \<Rightarrow> auth_error + string" where
  "normalize_email E value =
     (let t = py_strip (ae_nfkc E value);
          local_part = takeWhile (\<lambda>c. c \<noteq> CHR ''@'') t;
          rest = dropWhile (\<lambda>c. c \<noteq> CHR ''@'') t
      in case rest of
           [] \<Rightarrow> Inl (Value_refused ''invalid email address'')
         | sep # domain \<Rightarrow>
             if local_part = [] \<or> domain = [] \<or> CHR ''@'' \<in> set domain then Inl (Value_refused ''invalid email address'')
             else Inr (local_part @ ''@'' @ rstrip_dots (py_lower (ae_nfkc E domain))))"

definition email_lookup :: "auth_env \<Rightarrow> string \<Rightarrow> auth_error + string" where
  "email_lookup E address =
     (case normalize_email E address of Inl e \<Rightarrow> Inl e | Inr a \<Rightarrow> Inr (ae_lookup E a))"

section \<open>Accounts\<close>

definition accounts_get :: "uid \<Rightarrow> cpdb \<Rightarrow> cp_account option" where
  "accounts_get i d = tbl_get ac_id i (c_accounts d)"

definition account_by_email :: "auth_env \<Rightarrow> string \<Rightarrow> cpdb \<Rightarrow> auth_error + cp_account option" where
  "account_by_email E address d =
     (case email_lookup E address of Inl e \<Rightarrow> Inl e
      | Inr h \<Rightarrow> Inr (find (\<lambda>a. ac_lookup a = h) (c_accounts d)))"

definition create_verified :: "auth_env \<Rightarrow> string \<Rightarrow> time \<Rightarrow> cpdb \<Rightarrow> (auth_error + cp_account) \<times> cpdb" where
  "create_verified E address now d =
     (case email_lookup E address of
        Inl e \<Rightarrow> (Inl e, d)
      | Inr h \<Rightarrow>
          let a = \<lparr>ac_id = ae_uuid E 0 d, ac_lookup = h, ac_email = py_strip address, ac_verified_at = now,
                   ac_status = ''active'', ac_created_at = now, ac_updated_at = now\<rparr>
          in if (\<exists>x \<in> set (c_accounts d). ac_id x = ac_id a \<or> ac_lookup x = h) then (Inl Integrity_refused, d)
             else (Inr a, d\<lparr>c_accounts := c_accounts d @ [a]\<rparr>))"

definition set_status :: "uid \<Rightarrow> string \<Rightarrow> time \<Rightarrow> cpdb \<Rightarrow> (auth_error + unit) \<times> cpdb" where
  "set_status i status now d =
     (if status \<notin> {''active'', ''locked'', ''deleting'', ''deleted''} then (Inl Integrity_refused, d)
      else if accounts_get i d = None then (Inl (Account_missing i), d)
      else (Inr (), d\<lparr>c_accounts := tbl_update (\<lambda>a. ac_id a = i)
              (\<lambda>a. a\<lparr>ac_status := status, ac_updated_at := now\<rparr>) (c_accounts d)\<rparr>))"

definition masked_email :: "cp_account \<Rightarrow> string" where
  "masked_email a =
     (let s = rev (ac_email a);
          domain = rev (takeWhile (\<lambda>c. c \<noteq> CHR ''@'') s);
          local_part = rev (tl (dropWhile (\<lambda>c. c \<noteq> CHR ''@'') s))
      in take 1 local_part @ ''***@'' @ domain)"

section \<open>Households of an account\<close>

definition active_in :: "uid \<Rightarrow> cp_household \<Rightarrow> cpdb \<Rightarrow> bool" where
  "active_in account h d \<longleftrightarrow>
     (\<exists>m \<in> set (c_memberships d). cm_account m = account \<and> cm_household m = ch_id h \<and> cm_status m = ''active'') \<and>
     ch_status h \<notin> {''deleting'', ''deleted''}"

definition households_get :: "uid \<Rightarrow> cpdb \<Rightarrow> cp_household option" where
  "households_get i d = tbl_get ch_id i (c_households d)"

definition for_account :: "uid \<Rightarrow> cpdb \<Rightarrow> cp_household list" where
  "for_account account d = sort_key ch_created_at (filter (\<lambda>h. active_in account h d) (c_households d))"

definition authorized :: "uid \<Rightarrow> uid \<Rightarrow> cpdb \<Rightarrow> auth_error + cp_household" where
  "authorized account hh d =
     (case households_get hh d of
        None \<Rightarrow> Inl (Household_missing hh)
      | Some h \<Rightarrow> if active_in account h d then Inr h else Inl (Household_missing hh))"

definition current_for_account :: "uid \<Rightarrow> cpdb \<Rightarrow> auth_error + cp_household" where
  "current_for_account account d =
     (case for_account account d of [] \<Rightarrow> Inl (Household_missing account) | h # _ \<Rightarrow> Inr h)"

definition first_step :: "uid \<Rightarrow> time \<Rightarrow> nat \<times> step_kind \<Rightarrow> cp_step" where
  "first_step wid now k =
     \<lparr>stp_workflow = wid, stp_kind = snd k, stp_ordinal = fst k,
      stp_status = (if fst k = 0 then St_available else St_locked), stp_selection_kind = None, stp_selection = None,
      stp_result = None, stp_public = JObj [], stp_error = None, stp_attempt = 0, stp_updated_at = now\<rparr>"

definition create_for_owner :: "auth_env \<Rightarrow> uid \<Rightarrow> time \<Rightarrow> cpdb \<Rightarrow> (auth_error + cp_household) \<times> cpdb" where
  "create_for_owner E account now d =
     (let hh = ae_uuid E 1 d; wid = ae_uuid E 2 d;
          h = \<lparr>ch_id = hh, ch_status = ''draft'', ch_revision = 0, ch_runtime_ref = None, ch_created_at = now,
               ch_updated_at = now, ch_deleted_at = None, ch_slug = ae_slug E hh, ch_language = None,
               ch_timezone = None, ch_country = None, ch_residency = ''eu-app''\<rparr>;
          m = \<lparr>cm_account = account, cm_household = hh, cm_role = ''owner'', cm_status = ''active'', cm_created_at = now\<rparr>;
          w = \<lparr>wfl_id = wid, wfl_household = hh, wfl_state = Wf_profile_required, wfl_step = Kd_profile, wfl_version = 0,
               wfl_created_at = now, wfl_updated_at = now, wfl_completed_at = None\<rparr>;
          steps = map (first_step wid now) [(0, Kd_profile), (1, Kd_email), (2, Kd_whatsapp), (3, Kd_channel)]
      in if for_account account d \<noteq> [] then (Inl (Value_refused ''pilot account already owns an active household''), d)
         else if (\<exists>x \<in> set (c_households d). ch_id x = hh \<or> ch_slug x = ae_slug E hh)
              \<or> accounts_get account d = None \<or> wid \<in> wfl_id ` set (c_workflows d) then (Inl Integrity_refused, d)
         else (Inr h, d\<lparr>c_households := c_households d @ [h], c_memberships := c_memberships d @ [m],
                c_workflows := c_workflows d @ [w], c_steps := c_steps d @ steps\<rparr>))"

record profile_input =
  pin_first :: string
  pin_last :: string
  pin_language :: string
  pin_timezone :: string
  pin_country :: string
  pin_residency :: string

definition put_profile :: "uid \<Rightarrow> profile_input \<Rightarrow> time \<Rightarrow> cp_profile list \<Rightarrow> cp_profile list" where
  "put_profile hh p now T =
     (if hh \<in> prf_household ` set T
      then tbl_update (\<lambda>r. prf_household r = hh)
             (\<lambda>r. r\<lparr>prf_first := pin_first p, prf_last := pin_last p, prf_updated_at := now\<rparr>) T
      else T @ [\<lparr>prf_household = hh, prf_first = pin_first p, prf_last = pin_last p, prf_created_at = now, prf_updated_at = now\<rparr>])"

definition save_household_profile :: "auth_env \<Rightarrow> uid \<Rightarrow> profile_input \<Rightarrow> time \<Rightarrow> cpdb \<Rightarrow> (auth_error + unit) \<times> cpdb" where
  "save_household_profile E hh p now d =
     (if \<not> ae_zone E (pin_timezone p) then (Inl (Value_refused ''timezone must be a valid IANA name''), d)
      else if pin_residency p = ''eu-strict''
      then (Inl (Value_refused ''eu-strict is unavailable without an approved EU provider''), d)
      else if households_get hh d = None then (Inl Integrity_refused, d)
      else (Inr (), d\<lparr>c_profiles := put_profile hh p now (c_profiles d),
             c_households := tbl_update (\<lambda>h. ch_id h = hh \<and> ch_status h \<notin> {''deleting'', ''deleted''})
               (\<lambda>h. h\<lparr>ch_status := ''onboarding'', ch_language := Some (pin_language p),
                  ch_timezone := Some (pin_timezone p), ch_country := Some (pin_country p),
                  ch_residency := pin_residency p, ch_updated_at := now\<rparr>) (c_households d)\<rparr>))"

definition profile_country :: "uid \<Rightarrow> cpdb \<Rightarrow> string option" where
  "profile_country hh d =
     (if hh \<in> prf_household ` set (c_profiles d)
      then (case households_get hh d of None \<Rightarrow> None | Some h \<Rightarrow> ch_country h) else None)"

section \<open>Credentials\<close>

definition issue_token ::
  "auth_env \<Rightarrow> string \<Rightarrow> string \<Rightarrow> time \<Rightarrow> uid option \<Rightarrow> string option \<Rightarrow> time \<Rightarrow> cpdb \<Rightarrow> (auth_error + uid) \<times> cpdb" where
  "issue_token E raw purpose expires account address now d =
     (case (case address of None \<Rightarrow> Inr None | Some a \<Rightarrow> map_sum id Some (normalize_email E a)) of
        Inl e \<Rightarrow> (Inl e, d)
      | Inr _ \<Rightarrow>
          let t = \<lparr>ct_id = ae_uuid E 3 d, ct_hash = ae_digest E raw, ct_purpose = purpose, ct_account = account,
                   ct_email = map_option py_strip address, ct_expires_at = expires, ct_used_at = None,
                   ct_attempts = 0, ct_created_at = now\<rparr>
          in if (\<exists>x \<in> set (c_tokens d). ct_id x = ct_id t \<or> ct_hash x = ct_hash t)
                \<or> purpose \<notin> {''invite'', ''login'', ''reauth''}
                \<or> (case account of None \<Rightarrow> False | Some i \<Rightarrow> accounts_get i d = None)
             then (Inl Integrity_refused, d)
             else (Inr (ct_id t), d\<lparr>c_tokens := c_tokens d @ [t]\<rparr>))"

definition consume_token_in :: "auth_env \<Rightarrow> string \<Rightarrow> string option \<Rightarrow> time \<Rightarrow> cpdb \<Rightarrow> (auth_error + cp_token) \<times> cpdb" where
  "consume_token_in E raw purpose now d =
     (case find (\<lambda>t. ct_hash t = ae_digest E raw) (c_tokens d) of
        None \<Rightarrow> (Inl (Invalid_credential ''invalid or expired magic link''), d)
      | Some t \<Rightarrow>
          if ct_used_at t \<noteq> None \<or> ct_expires_at t \<le> now
          then (Inl (Invalid_credential ''invalid or expired magic link''), d)
          else if purpose \<noteq> None \<and> purpose \<noteq> Some (ct_purpose t)
          then (Inl (Invalid_credential ''magic-link purpose mismatch''), d)
          else (Inr t, d\<lparr>c_tokens := tbl_update (\<lambda>x. ct_id x = ct_id t)
                 (\<lambda>x. x\<lparr>ct_used_at := Some now, ct_attempts := ct_attempts x + 1\<rparr>) (c_tokens d)\<rparr>))"

definition consume_token :: "auth_env \<Rightarrow> string \<Rightarrow> string option \<Rightarrow> time \<Rightarrow> cpdb \<Rightarrow> (auth_error + cp_token) \<times> cpdb" where
  "consume_token E raw purpose now = write_tx (consume_token_in E raw purpose now)"

definition create_session ::
  "auth_env \<Rightarrow> string \<Rightarrow> string \<Rightarrow> uid \<Rightarrow> time \<Rightarrow> time \<Rightarrow> time \<Rightarrow> time \<Rightarrow> cpdb \<Rightarrow> (auth_error + cp_session) \<times> cpdb" where
  "create_session E raw csrf account idle absolute reauth now d =
     (let s = \<lparr>cs_id = ae_uuid E 4 d, cs_hash = ae_digest E raw, cs_account = account, cs_csrf = ae_digest E csrf,
               cs_idle = idle, cs_absolute = absolute, cs_reauth = reauth, cs_seen = now, cs_revoked = None,
               cs_created_at = now\<rparr>
      in if (\<exists>x \<in> set (c_sessions d). cs_id x = cs_id s \<or> cs_hash x = cs_hash s) \<or> absolute < idle
            \<or> accounts_get account d = None
         then (Inl Integrity_refused, d) else (Inr s, d\<lparr>c_sessions := c_sessions d @ [s]\<rparr>))"

definition session_idle_ttl :: real where "session_idle_ttl = 24 * 60 * 60"
definition session_absolute_ttl :: real where "session_absolute_ttl = 30 * 24 * 60 * 60"
definition fresh_reauth_seconds :: real where "fresh_reauth_seconds = 10 * 60"
definition magic_link_ttl :: real where "magic_link_ttl = 15 * 60"

definition session_valid :: "time \<Rightarrow> cp_session \<Rightarrow> bool" where
  "session_valid now s \<longleftrightarrow> cs_revoked s = None \<and> now < cs_idle s \<and> now < cs_absolute s"

definition authenticate_session :: "auth_env \<Rightarrow> string \<Rightarrow> time \<Rightarrow> real \<Rightarrow> cpdb \<Rightarrow> (auth_error + cp_session) \<times> cpdb" where
  "authenticate_session E raw now idle_ttl d =
     (case find (\<lambda>s. cs_hash s = ae_digest E raw \<and>
               (\<exists>a \<in> set (c_accounts d). ac_id a = cs_account s \<and> ac_status a = ''active'')) (c_sessions d) of
        None \<Rightarrow> (Inl (Invalid_credential ''invalid or expired session''), d)
      | Some s \<Rightarrow>
          if \<not> session_valid now s then (Inl (Invalid_credential ''invalid or expired session''), d)
          else let idle = min (now + idle_ttl) (cs_absolute s)
               in (Inr (s\<lparr>cs_idle := idle\<rparr>),
                   d\<lparr>c_sessions := tbl_update (\<lambda>x. cs_id x = cs_id s) (\<lambda>x. x\<lparr>cs_seen := now, cs_idle := idle\<rparr>) (c_sessions d)\<rparr>))"

definition verify_csrf :: "auth_env \<Rightarrow> uid \<Rightarrow> string \<Rightarrow> cpdb \<Rightarrow> bool" where
  "verify_csrf E session raw d =
     (case tbl_get cs_id session (c_sessions d) of None \<Rightarrow> False | Some s \<Rightarrow> cs_csrf s = ae_digest E raw)"

definition revoke_session :: "uid \<Rightarrow> time \<Rightarrow> cpdb \<Rightarrow> cpdb" where
  "revoke_session i now d =
     d\<lparr>c_sessions := tbl_update (\<lambda>s. cs_id s = i \<and> cs_revoked s = None) (\<lambda>s. s\<lparr>cs_revoked := Some now\<rparr>) (c_sessions d)\<rparr>"

definition revoke_account_sessions :: "uid \<Rightarrow> time \<Rightarrow> cpdb \<Rightarrow> nat \<times> cpdb" where
  "revoke_account_sessions account now d =
     (let open_session = (\<lambda>s. cs_account s = account \<and> cs_revoked s = None)
      in (tbl_count open_session (c_sessions d),
          d\<lparr>c_sessions := tbl_update open_session (\<lambda>s. s\<lparr>cs_revoked := Some now\<rparr>) (c_sessions d)\<rparr>))"

record issued_session =
  is_id :: uid
  is_token :: string
  is_csrf :: string
  is_account :: uid
  is_idle :: time
  is_absolute :: time

definition session_issue :: "auth_env \<Rightarrow> uid \<Rightarrow> time \<Rightarrow> cpdb \<Rightarrow> (auth_error + issued_session) \<times> cpdb" where
  "session_issue E account now d =
     (let raw = ae_random E 0 d; csrf = ae_random E 1 d;
          idle = now + session_idle_ttl; absolute = now + session_absolute_ttl
      in case create_session E raw csrf account idle absolute now now d of
           (Inl e, d') \<Rightarrow> (Inl e, d')
         | (Inr s, d') \<Rightarrow> (Inr \<lparr>is_id = cs_id s, is_token = raw, is_csrf = csrf, is_account = account, is_idle = idle,
             is_absolute = absolute\<rparr>, d'))"

definition require_fresh :: "cp_session \<Rightarrow> time \<Rightarrow> auth_error + unit" where
  "require_fresh s now =
     (if fresh_reauth_seconds < now - cs_reauth s then Inl (Permission_refused ''fresh re-authentication required'') else Inr ())"

section \<open>Magic links\<close>

text \<open>The mail a link is sent in: its recipient, the page with the token in the fragment, the purpose.\<close>

record sent_link =
  sl_recipient :: string
  sl_url :: string
  sl_purpose :: string

definition magic_link_issue ::
  "auth_env \<Rightarrow> string \<Rightarrow> string \<Rightarrow> uid option \<Rightarrow> time \<Rightarrow> cpdb \<Rightarrow> (auth_error + sent_link) \<times> cpdb" where
  "magic_link_issue E address purpose account now d =
     (if \<not> ae_mailbox E address then (Inl (Value_refused ''recipient''), d)
      else let raw = ae_random E 2 d
           in case write_tx (issue_token E raw purpose (now + magic_link_ttl) account
                     (if account = None then Some address else None) now) d of
                (Inl e, d') \<Rightarrow> (Inl e, d')
              | (Inr i, d') \<Rightarrow>
                  let url = ae_origin E @ ''/auth/verify#token='' @ raw
                  in if \<not> ae_delivers E address url purpose d' then (Inl Mail_undelivered, d')
                     else (Inr \<lparr>sl_recipient = address, sl_url = url, sl_purpose = purpose\<rparr>, d'))"

record link_target =
  lt_account :: "uid option"
  lt_email :: string
  lt_purpose :: string

definition requested_link_target :: "auth_env \<Rightarrow> string \<Rightarrow> uid option \<Rightarrow> cpdb \<Rightarrow> auth_error + link_target option" where
  "requested_link_target E address authenticated d =
     (case account_by_email E address d of
        Inl e \<Rightarrow> Inl e
      | Inr None \<Rightarrow>
          Inr (if ae_signup E then Some \<lparr>lt_account = None, lt_email = address, lt_purpose = ''invite''\<rparr> else None)
      | Inr (Some a) \<Rightarrow>
          Inr (if ac_status a \<noteq> ''active'' then None
               else Some \<lparr>lt_account = Some (ac_id a), lt_email = ac_email a,
                 lt_purpose = (if authenticated = Some (ac_id a) then ''reauth'' else ''login'')\<rparr>))"

record login =
  lg_account :: cp_account
  lg_household :: cp_household
  lg_session :: issued_session

definition invited_account :: "auth_env \<Rightarrow> cp_token \<Rightarrow> time \<Rightarrow> cpdb \<Rightarrow> (auth_error + cp_account \<times> cp_household) \<times> cpdb" where
  "invited_account E t now d =
     (case (ct_account t, ct_email t) of
        (None, Some address) \<Rightarrow>
          (case account_by_email E address d of
             Inl e \<Rightarrow> (Inl e, d)
           | Inr found \<Rightarrow>
               (case (case found of None \<Rightarrow> create_verified E address now d
                      | Some a \<Rightarrow> (if ac_status a \<noteq> ''active''
                          then (Inl (Permission_refused ''invite does not identify an active account''), d)
                          else (Inr a, d))) of
                  (Inl e, d1) \<Rightarrow> (Inl e, d1)
                | (Inr a, d1) \<Rightarrow>
                    (case for_account (ac_id a) d1 of
                       h # _ \<Rightarrow> (Inr (a, h), d1)
                     | [] \<Rightarrow> (case create_for_owner E (ac_id a) now d1 of
                                (Inl e, d2) \<Rightarrow> (Inl e, d2) | (Inr h, d2) \<Rightarrow> (Inr (a, h), d2)))))
      | _ \<Rightarrow> (Inl (Permission_refused ''invite token has an invalid account binding''), d))"

definition login_account :: "cp_token \<Rightarrow> cpdb \<Rightarrow> auth_error + cp_account \<times> cp_household" where
  "login_account t d =
     (case (ct_account t, ct_email t) of
        (Some i, None) \<Rightarrow>
          if ct_purpose t \<notin> {''login'', ''reauth''} then Inl (Permission_refused ''login token has an invalid account binding'')
          else (case accounts_get i d of
             None \<Rightarrow> Inl (Permission_refused ''login token does not identify an active account'')
           | Some a \<Rightarrow>
               if ac_status a \<noteq> ''active'' then Inl (Permission_refused ''login token does not identify an active account'')
               else (case current_for_account (ac_id a) d of Inl e \<Rightarrow> Inl e | Inr h \<Rightarrow> Inr (a, h)))
      | _ \<Rightarrow> Inl (Permission_refused ''login token has an invalid account binding''))"

definition end_previous :: "uid option \<Rightarrow> time \<Rightarrow> cpdb \<Rightarrow> cpdb" where
  "end_previous previous now d = (case previous of None \<Rightarrow> d | Some i \<Rightarrow> if i = [] then d else revoke_session i now d)"

definition consume_magic_link_in :: "auth_env \<Rightarrow> string \<Rightarrow> uid option \<Rightarrow> time \<Rightarrow> cpdb \<Rightarrow> (auth_error + login) \<times> cpdb" where
  "consume_magic_link_in E raw previous now d =
     (case consume_token_in E raw None now d of
        (Inl e, d1) \<Rightarrow> (Inl e, d1)
      | (Inr t, d1) \<Rightarrow>
          (case (if ct_purpose t = ''invite'' then invited_account E t now d1 else (login_account t d1, d1)) of
             (Inl e, d2) \<Rightarrow> (Inl e, d2)
           | (Inr (a, h), d2) \<Rightarrow>
               (case session_issue E (ac_id a) now (end_previous previous now d2) of
                  (Inl e, d3) \<Rightarrow> (Inl e, d3)
                | (Inr s, d3) \<Rightarrow> (Inr \<lparr>lg_account = a, lg_household = h, lg_session = s\<rparr>, d3))))"

definition consume_magic_link :: "auth_env \<Rightarrow> string \<Rightarrow> uid option \<Rightarrow> time \<Rightarrow> cpdb \<Rightarrow> (auth_error + login) \<times> cpdb" where
  "consume_magic_link E raw previous now = write_tx (consume_magic_link_in E raw previous now)"

section \<open>Fixed-window limits\<close>

definition rate_check :: "auth_env \<Rightarrow> string \<Rightarrow> string \<Rightarrow> nat \<Rightarrow> real \<Rightarrow> time \<Rightarrow> cpdb \<Rightarrow> (auth_error + unit) \<times> cpdb" where
  "rate_check E kind identifier limit window now d =
     (let bucket = ae_digest E (''rate:'' @ kind @ '':'' @ identifier);
          fresh = \<lparr>bk_hmac = bucket, bk_kind = kind, bk_started = now, bk_attempts = 1, bk_updated = now\<rparr>
      in case tbl_get bk_hmac bucket (c_buckets d) of
           None \<Rightarrow> (Inr (), d\<lparr>c_buckets := c_buckets d @ [fresh]\<rparr>)
         | Some b \<Rightarrow>
             if bk_started b + window \<le> now
             then (Inr (), d\<lparr>c_buckets := tbl_update (\<lambda>x. bk_hmac x = bucket) (\<lambda>x. fresh) (c_buckets d)\<rparr>)
             else if limit \<le> bk_attempts b then (Inl Rate_limit_exceeded, d)
             else (Inr (), d\<lparr>c_buckets := tbl_update (\<lambda>x. bk_hmac x = bucket)
                    (\<lambda>x. x\<lparr>bk_attempts := bk_attempts x + 1, bk_updated := now\<rparr>) (c_buckets d)\<rparr>))"

section \<open>One household under command preconditions\<close>

definition household_route :: string where "household_route = ''/api/v1/households''"
definition idempotency_ttl :: real where "idempotency_ttl = 24 * 60 * 60"

definition same_command :: "uid \<Rightarrow> string \<Rightarrow> string \<Rightarrow> cp_idempotency \<Rightarrow> bool" where
  "same_command account route key r \<longleftrightarrow> idm_account r = account \<and> idm_route r = route \<and> idm_key r = key"

definition converge_household ::
  "auth_env \<Rightarrow> uid \<Rightarrow> nat \<Rightarrow> time \<Rightarrow> cpdb \<Rightarrow> (auth_error + cp_household \<times> nat \<times> bool) \<times> cpdb" where
  "converge_household E account expected now d =
     (case filter (\<lambda>h. ch_id h \<in> wfl_household ` set (c_workflows d)) (for_account account d) of
        [] \<Rightarrow> (if expected \<noteq> 0 then (Inl (Version_conflict expected 0), d)
               else (case create_for_owner E account now d of
                       (Inl e, d') \<Rightarrow> (Inl e, d') | (Inr h, d') \<Rightarrow> (Inr (h, 0, True), d')))
      | h # _ \<Rightarrow>
          (case find (\<lambda>w. wfl_household w = ch_id h) (c_workflows d) of
             None \<Rightarrow> (Inl (Household_missing (ch_id h)), d)
           | Some w \<Rightarrow> if wfl_version w \<noteq> expected then (Inl (Version_conflict expected (wfl_version w)), d)
                       else (Inr (h, wfl_version w, False), d)))"

definition answer_household ::
  "auth_env \<Rightarrow> uid \<Rightarrow> string \<Rightarrow> nat \<Rightarrow> time \<Rightarrow> cpdb \<Rightarrow> (auth_error + household_payload \<times> bool) \<times> cpdb" where
  "answer_household E account key expected now d =
     (case converge_household E account expected now d of
        (Inl e, d') \<Rightarrow> (Inl e, d')
      | (Inr (h, v, c), d') \<Rightarrow>
          let p = \<lparr>pay_id = ch_id h, pay_slug = ch_slug h, pay_status = ch_status h, pay_version = v, pay_created = c\<rparr>
          in (Inr (p, False), d'\<lparr>c_replies := c_replies d' @
               [\<lparr>idm_account = account, idm_route = household_route, idm_key = key, idm_sha = ae_sha E expected,
                 idm_body = Rb_household p, idm_created_at = now, idm_expires_at = now + idempotency_ttl\<rparr>]\<rparr>))"

definition create_idempotent_in ::
  "auth_env \<Rightarrow> uid \<Rightarrow> string \<Rightarrow> nat \<Rightarrow> time \<Rightarrow> cpdb \<Rightarrow> (auth_error + household_payload \<times> bool) \<times> cpdb" where
  "create_idempotent_in E account idem expected now d =
     (let key = ae_lookup E idem; mine = same_command account household_route key
      in case find mine (c_replies d) of
           None \<Rightarrow> answer_household E account key expected now d
         | Some r \<Rightarrow>
             if now < idm_expires_at r
             then (if idm_sha r \<noteq> ae_sha E expected then (Inl Replay_conflict, d)
                   else case idm_body r of Rb_household p \<Rightarrow> (Inr (p, True), d) | Rb_snapshot s \<Rightarrow> (Inl Replay_conflict, d))
             else answer_household E account key expected now (d\<lparr>c_replies := tbl_delete mine (c_replies d)\<rparr>))"

definition create_idempotent ::
  "auth_env \<Rightarrow> uid \<Rightarrow> string \<Rightarrow> nat \<Rightarrow> time \<Rightarrow> cpdb \<Rightarrow> (auth_error + household_payload \<times> bool) \<times> cpdb" where
  "create_idempotent E account idem expected now = write_tx (create_idempotent_in E account idem expected now)"

section \<open>The guards of a request\<close>

record browser_request =
  br_origin :: "string option"
  br_cookie :: string
  br_csrf :: string
  br_client :: string

definition require_origin :: "auth_env \<Rightarrow> browser_request \<Rightarrow> bool" where
  "require_origin E q \<longleftrightarrow> br_origin q = Some (ae_origin E)"

definition authenticate :: "auth_env \<Rightarrow> browser_request \<Rightarrow> time \<Rightarrow> cpdb \<Rightarrow> ((nat \<times> string) + cp_session) \<times> cpdb" where
  "authenticate E q now d =
     (if br_cookie q = [] then (Inl (401, ''authentication required''), d)
      else case write_tx (authenticate_session E (br_cookie q) now session_idle_ttl) d of
             (Inl e, d') \<Rightarrow> (Inl (401, ''authentication required''), d') | (Inr s, d') \<Rightarrow> (Inr s, d'))"

definition require_private_mutation ::
  "auth_env \<Rightarrow> browser_request \<Rightarrow> time \<Rightarrow> cpdb \<Rightarrow> ((nat \<times> string) + cp_session) \<times> cpdb" where
  "require_private_mutation E q now d =
     (if \<not> require_origin E q then (Inl (403, ''same-origin request required''), d)
      else case authenticate E q now d of
             (Inl e, d') \<Rightarrow> (Inl e, d')
           | (Inr s, d') \<Rightarrow> if br_csrf q = [] \<or> \<not> verify_csrf E (cs_id s) (br_csrf q) d'
                            then (Inl (403, ''CSRF validation failed''), d') else (Inr s, d'))"

definition fresh_or_refused :: "time \<Rightarrow> ((nat \<times> string) + 'a) \<times> cpdb \<Rightarrow> ('a \<Rightarrow> cp_session) \<Rightarrow> ((nat \<times> string) + 'a) \<times> cpdb" where
  "fresh_or_refused now r session =
     (case r of (Inl e, d') \<Rightarrow> (Inl e, d')
      | (Inr x, d') \<Rightarrow> (case require_fresh (session x) now of
           Inl e \<Rightarrow> (Inl (403, ''fresh re-authentication required''), d') | Inr u \<Rightarrow> (Inr x, d')))"

definition require_fresh_mutation ::
  "auth_env \<Rightarrow> browser_request \<Rightarrow> time \<Rightarrow> cpdb \<Rightarrow> ((nat \<times> string) + cp_session) \<times> cpdb" where
  "require_fresh_mutation E q now d = fresh_or_refused now (require_private_mutation E q now d) id"

definition with_household ::
  "((nat \<times> string) + cp_session) \<times> cpdb \<Rightarrow> ((nat \<times> string) + cp_session \<times> cp_household) \<times> cpdb" where
  "with_household r =
     (case r of (Inl e, d') \<Rightarrow> (Inl e, d')
      | (Inr s, d') \<Rightarrow> (case current_for_account (cs_account s) d' of
           Inl e \<Rightarrow> (Inl (404, ''household not found''), d') | Inr h \<Rightarrow> (Inr (s, h), d')))"

definition current_household where "current_household E q now d = with_household (authenticate E q now d)"

definition current_household_mutation where
  "current_household_mutation E q now d = with_household (require_private_mutation E q now d)"

definition current_household_owner_mutation ::
  "auth_env \<Rightarrow> browser_request \<Rightarrow> time \<Rightarrow> cpdb \<Rightarrow> ((nat \<times> string) + cp_session \<times> cp_household) \<times> cpdb" where
  "current_household_owner_mutation E q now d =
     (case current_household_mutation E q now d of
        (Inl e, d') \<Rightarrow> (Inl e, d')
      | (Inr (s, h), d') \<Rightarrow>
          (case find (\<lambda>m. cm_household m = ch_id h \<and> cm_account m = cs_account s \<and> cm_status m = ''active'') (c_memberships d') of
             Some m \<Rightarrow> if cm_role m = ''owner'' then (Inr (s, h), d') else (Inl (403, ''household owner role required''), d')
           | None \<Rightarrow> (Inl (403, ''household owner role required''), d')))"

definition current_household_fresh_mutation where
  "current_household_fresh_mutation E q now d = fresh_or_refused now (current_household_mutation E q now d) fst"

section \<open>The public sign-in routes\<close>

definition session_of_cookie ::
  "auth_env \<Rightarrow> browser_request \<Rightarrow> time \<Rightarrow> cpdb \<Rightarrow> (auth_error + cp_session option) \<times> cpdb" where
  "session_of_cookie E q now d =
     (if br_cookie q = [] then (Inr None, d)
      else case write_tx (authenticate_session E (br_cookie q) now session_idle_ttl) d of
             (Inl (Invalid_credential m), d') \<Rightarrow> (Inr None, d')
           | (Inl e, d') \<Rightarrow> (Inl e, d')
           | (Inr s, d') \<Rightarrow> (Inr (Some s), d'))"

definition issue_requested_link :: "auth_env \<Rightarrow> browser_request \<Rightarrow> string \<Rightarrow> time \<Rightarrow> cpdb \<Rightarrow> (auth_error + sent_link option) \<times> cpdb" where
  "issue_requested_link E q address now d =
     (case session_of_cookie E q now d of
        (Inl e, d1) \<Rightarrow> (Inl e, d1)
      | (Inr s, d1) \<Rightarrow>
          (case requested_link_target E address (map_option cs_account s) d1 of
             Inl e \<Rightarrow> (Inl e, d1)
           | Inr None \<Rightarrow> (Inr None, d1)
           | Inr (Some t) \<Rightarrow>
               (case magic_link_issue E (lt_email t) (lt_purpose t) (lt_account t) now d1 of
                  (Inl e, d2) \<Rightarrow> (Inl e, d2) | (Inr m, d2) \<Rightarrow> (Inr (Some m), d2))))"

text \<open>
  The three classes of exceptions the route hides; every other one is a failure the caller sees.
\<close>

datatype link_reply = Lr_forbidden | Lr_accepted | Lr_failed auth_error

fun link_reply_of :: "auth_error \<Rightarrow> link_reply" where
  "link_reply_of Mail_undelivered = Lr_accepted"
| "link_reply_of Rate_limit_exceeded = Lr_accepted"
| "link_reply_of (Value_refused m) = Lr_accepted"
| "link_reply_of e = Lr_failed e"

definition request_link ::
  "auth_env \<Rightarrow> browser_request \<Rightarrow> string \<Rightarrow> time \<Rightarrow> cpdb \<Rightarrow> link_reply \<times> sent_link option \<times> cpdb" where
  "request_link E q address now d =
     (if \<not> require_origin E q then (Lr_forbidden, None, d)
      else case rate_check E ''request-link-network'' (br_client q) 10 3600 now d of
             (Inl e, d1) \<Rightarrow> (link_reply_of e, None, d1)
           | (Inr u, d1) \<Rightarrow>
               (case rate_check E ''request-link-address'' address 5 3600 now d1 of
                  (Inl e, d2) \<Rightarrow> (link_reply_of e, None, d2)
                | (Inr u, d2) \<Rightarrow>
                    (case issue_requested_link E q address now d2 of
                       (Inl e, d3) \<Rightarrow> (link_reply_of e, None, d3)
                     | (Inr m, d3) \<Rightarrow> (Lr_accepted, m, d3))))"

definition consume_route ::
  "auth_env \<Rightarrow> browser_request \<Rightarrow> string \<Rightarrow> time \<Rightarrow> cpdb \<Rightarrow> ((nat \<times> string) + login) \<times> cpdb" where
  "consume_route E q raw now d =
     (if \<not> require_origin E q then (Inl (403, ''same-origin request required''), d)
      else case rate_check E ''consume-network'' (br_client q) 30 3600 now d of
             (Inl e, d1) \<Rightarrow> (Inl (429, ''try again later''), d1)
           | (Inr u, d1) \<Rightarrow>
               (case rate_check E ''consume-token'' raw 5 900 now d1 of
                  (Inl e, d2) \<Rightarrow> (Inl (429, ''try again later''), d2)
                | (Inr u, d2) \<Rightarrow>
                    (case session_of_cookie E q now d2 of
                       (Inl e, d3) \<Rightarrow> (Inl (500, []), d3)
                     | (Inr s, d3) \<Rightarrow>
                         (case consume_magic_link E raw (map_option cs_id s) now d3 of
                            (Inr l, d4) \<Rightarrow> (Inr l, d4)
                          | (Inl (Invalid_credential m), d4) \<Rightarrow> (Inl (401, ''invalid or expired link''), d4)
                          | (Inl (Permission_refused m), d4) \<Rightarrow> (Inl (401, ''invalid or expired link''), d4)
                          | (Inl e, d4) \<Rightarrow> (Inl (500, []), d4)))))"

definition logout_route :: "auth_env \<Rightarrow> browser_request \<Rightarrow> time \<Rightarrow> cpdb \<Rightarrow> ((nat \<times> string) + unit) \<times> cpdb" where
  "logout_route E q now d =
     (case require_private_mutation E q now d of
        (Inl e, d') \<Rightarrow> (Inl e, d') | (Inr s, d') \<Rightarrow> (Inr (), revoke_session (cs_id s) now d'))"

end
