(* ===== verification/AccountLaws.thy ===== *)
theory AccountLaws
  imports Accounts
begin

text \<open>
  Laws of accounts: a magic link opens one session while it is fresh, a session ends by the clock or by
  its revocation, a limit bounds what any interval lets through, and an account has one live household.
\<close>

section \<open>A history of the account service\<close>

datatype auth_op =
    Ao_link string string "uid option" time
  | Ao_request browser_request string time
  | Ao_consume string "uid option" time
  | Ao_consume_route browser_request string time
  | Ao_authenticate string time
  | Ao_revoke uid time
  | Ao_revoke_account uid time
  | Ao_rate string string nat real time
  | Ao_household uid string nat time
  | Ao_profile uid profile_input time
  | Ao_status uid string time

fun auth_step :: "auth_env \<Rightarrow> auth_op \<Rightarrow> cpdb \<Rightarrow> cpdb" where
  "auth_step E (Ao_link address purpose account now) d = snd (magic_link_issue E address purpose account now d)"
| "auth_step E (Ao_request q address now) d = snd (snd (request_link E q address now d))"
| "auth_step E (Ao_consume raw previous now) d = snd (consume_magic_link E raw previous now d)"
| "auth_step E (Ao_consume_route q raw now) d = snd (consume_route E q raw now d)"
| "auth_step E (Ao_authenticate raw now) d = snd (write_tx (authenticate_session E raw now session_idle_ttl) d)"
| "auth_step E (Ao_revoke i now) d = revoke_session i now d"
| "auth_step E (Ao_revoke_account i now) d = snd (revoke_account_sessions i now d)"
| "auth_step E (Ao_rate kind identifier limit window now) d = snd (rate_check E kind identifier limit window now d)"
| "auth_step E (Ao_household account key expected now) d = snd (create_idempotent E account key expected now d)"
| "auth_step E (Ao_profile hh p now) d = snd (write_tx (save_household_profile E hh p now) d)"
| "auth_step E (Ao_status i status now) d = snd (write_tx (set_status i status now) d)"

section \<open>Frames\<close>

text \<open>Tables an operation does not touch.\<close>

lemma write_tx_frame: "(\<And>d. g (snd (body d)) = g d) \<Longrightarrow> g (snd (write_tx body d)) = g d"
  by (simp add: write_tx_def split: prod.split sum.split) (metis snd_conv)

lemma write_tx_rel:
  assumes "R d d" "R d (snd (body d))"
  shows "R d (snd (write_tx body d))"
  using assms by (cases "body d") (auto simp: write_tx_def split: sum.split)

named_theorems auth_frames

lemma create_verified_frame [auth_frames]:
  "c_tokens (snd (create_verified E a now d)) = c_tokens d" "c_sessions (snd (create_verified E a now d)) = c_sessions d"
  "c_households (snd (create_verified E a now d)) = c_households d"
  "c_memberships (snd (create_verified E a now d)) = c_memberships d"
  by (simp_all add: create_verified_def Let_def split: sum.split)

lemma create_for_owner_frame [auth_frames]:
  "c_tokens (snd (create_for_owner E a now d)) = c_tokens d" "c_sessions (snd (create_for_owner E a now d)) = c_sessions d"
  "c_accounts (snd (create_for_owner E a now d)) = c_accounts d"
  by (simp_all add: create_for_owner_def Let_def)

lemma set_status_frame [auth_frames]:
  "c_tokens (snd (set_status i s now d)) = c_tokens d" "c_sessions (snd (set_status i s now d)) = c_sessions d"
  "c_households (snd (set_status i s now d)) = c_households d"
  "c_memberships (snd (set_status i s now d)) = c_memberships d"
  by (simp_all add: set_status_def)

lemma save_profile_frame [auth_frames]:
  "c_tokens (snd (save_household_profile E hh p now d)) = c_tokens d"
  "c_sessions (snd (save_household_profile E hh p now d)) = c_sessions d"
  "c_memberships (snd (save_household_profile E hh p now d)) = c_memberships d"
  by (simp_all add: save_household_profile_def)

lemma issue_token_frame [auth_frames]:
  "c_sessions (snd (issue_token E raw p x acc a now d)) = c_sessions d"
  "c_households (snd (issue_token E raw p x acc a now d)) = c_households d"
  "c_memberships (snd (issue_token E raw p x acc a now d)) = c_memberships d"
  by (simp_all add: issue_token_def Let_def split: sum.split option.split)

lemma consume_token_frame [auth_frames]:
  "c_sessions (snd (consume_token_in E raw p now d)) = c_sessions d"
  "c_households (snd (consume_token_in E raw p now d)) = c_households d"
  "c_memberships (snd (consume_token_in E raw p now d)) = c_memberships d"
  by (simp_all add: consume_token_in_def split: option.split)

lemma create_session_frame [auth_frames]:
  "c_tokens (snd (create_session E raw csrf acc i a r now d)) = c_tokens d"
  "c_households (snd (create_session E raw csrf acc i a r now d)) = c_households d"
  "c_memberships (snd (create_session E raw csrf acc i a r now d)) = c_memberships d"
  by (simp_all add: create_session_def Let_def)

lemma session_issue_sessions: "snd (session_issue E acc now d) =
    snd (create_session E (ae_random E 0 d) (ae_random E 1 d) acc (now + session_idle_ttl) (now + session_absolute_ttl) now now d)"
  by (simp add: session_issue_def Let_def split: prod.split sum.split)

lemma authenticate_session_frame [auth_frames]:
  "c_tokens (snd (authenticate_session E raw now ttl d)) = c_tokens d"
  "c_households (snd (authenticate_session E raw now ttl d)) = c_households d"
  "c_memberships (snd (authenticate_session E raw now ttl d)) = c_memberships d"
  by (simp_all add: authenticate_session_def Let_def split: option.split)

lemma revoke_session_frame [auth_frames]:
  "c_tokens (revoke_session i now d) = c_tokens d" "c_households (revoke_session i now d) = c_households d"
  "c_memberships (revoke_session i now d) = c_memberships d"
  by (simp_all add: revoke_session_def)

lemma end_previous_frame [auth_frames]:
  "c_tokens (end_previous p now d) = c_tokens d" "c_households (end_previous p now d) = c_households d"
  "c_memberships (end_previous p now d) = c_memberships d"
  by (simp_all add: end_previous_def auth_frames split: option.split)

lemma rate_check_frame [auth_frames]:
  "c_tokens (snd (rate_check E k i l w now d)) = c_tokens d" "c_sessions (snd (rate_check E k i l w now d)) = c_sessions d"
  "c_households (snd (rate_check E k i l w now d)) = c_households d"
  "c_memberships (snd (rate_check E k i l w now d)) = c_memberships d"
  by (simp_all add: rate_check_def Let_def split: option.split)

lemma session_issue_frame [auth_frames]:
  "c_tokens (snd (session_issue E acc now d)) = c_tokens d" "c_households (snd (session_issue E acc now d)) = c_households d"
  "c_memberships (snd (session_issue E acc now d)) = c_memberships d"
  by (simp_all add: session_issue_sessions auth_frames)

lemma invited_account_frame [auth_frames]:
  "c_tokens (snd (invited_account E t now d)) = c_tokens d" "c_sessions (snd (invited_account E t now d)) = c_sessions d"
proof -
  have r: "\<And>x y z. create_verified E x now d = (y, z) \<Longrightarrow> c_tokens z = c_tokens d \<and> c_sessions z = c_sessions d"
    using create_verified_frame by (metis snd_conv)
  have c: "\<And>x y z d'. create_for_owner E x now d' = (y, z) \<Longrightarrow> c_tokens z = c_tokens d' \<and> c_sessions z = c_sessions d'"
    using create_for_owner_frame by (metis snd_conv)
  show "c_tokens (snd (invited_account E t now d)) = c_tokens d" "c_sessions (snd (invited_account E t now d)) = c_sessions d"
    by (auto simp: invited_account_def split: option.split sum.split prod.split list.split if_split dest: r c dest!: c)
qed

section \<open>What every step keeps\<close>

text \<open>
  A relation between the file before and after that holds for each statement of the repositories
  holds for each request, since a request is a composition of them inside a transaction.
\<close>

locale auth_contract =
  fixes R :: "cpdb \<Rightarrow> cpdb \<Rightarrow> bool" and E :: auth_env
  assumes R_refl: "R d d"
    and R_trans: "R a b \<Longrightarrow> R b c \<Longrightarrow> R a c"
    and R_token: "R d (snd (issue_token E raw purpose expires account addr now d))"
    and R_consume: "R d (snd (consume_token_in E raw p now d))"
    and R_verified: "R d (snd (create_verified E address now d))"
    and R_owner: "R d (snd (create_for_owner E acc now d))"
    and R_session: "R d (snd (create_session E raw csrf acc idle absolute now now d))"
    and R_authenticate: "R d (snd (authenticate_session E raw now session_idle_ttl d))"
    and R_revoke: "R d (revoke_session i now d)"
    and R_revoke_account: "R d (snd (revoke_account_sessions i now d))"
    and R_rate: "R d (snd (rate_check E kind identifier limit window now d))"
    and R_replies: "R d (d\<lparr>c_replies := rs\<rparr>)"
    and R_profile: "R d (snd (save_household_profile E hh prof now d))"
    and R_status: "R d (snd (set_status i status now d))"
begin

lemma R_tx: "R d (snd (body d)) \<Longrightarrow> R d (snd (write_tx body d))"
  using R_refl by (cases "body d") (auto simp: write_tx_def split: sum.split)

lemma R_pair: "R d (snd (g d)) \<Longrightarrow> g d = (x, d') \<Longrightarrow> R d d'"
  by simp

lemma R_issue: "R d (snd (session_issue E acc now d))"
  by (simp add: session_issue_sessions R_session)

lemma R_previous: "R d (end_previous p now d)"
  by (simp add: end_previous_def R_refl R_revoke split: option.split)

lemma R_invited: "R d (snd (invited_account E t now d))"
proof -
  have v: "R d d1" if "create_verified E x now d = (y, d1)" for x y d1 using R_verified [of d x now] that by simp
  have o: "R d1 d2" if "create_for_owner E x now d1 = (y, d2)" for x y d1 d2 using R_owner [of d1 x now] that by simp
  show ?thesis
    by (auto simp: invited_account_def R_refl split: option.split sum.split prod.split list.split if_split
        intro: v o R_trans [OF v o])
qed

lemma R_link: "R d (snd (consume_magic_link E raw previous now d))"
proof -
  have c: "R d d1" if "consume_token_in E raw None now d = (y, d1)" for y d1
    using R_consume [of d raw None now] that by simp
  have i: "R d d2" if "consume_token_in E raw None now d = (y, d1)" "invited_account E t now d1 = (z, d2)" for y d1 t z d2
    using R_trans [OF c [OF that(1)]] R_invited [of d1 t now] that(2) by simp
  have s: "R d d3" if "R d d2" "session_issue E a now (end_previous previous now d2) = (z, d3)" for d2 a z d3
    using R_trans [OF R_trans [OF that(1) R_previous]] R_issue that(2) by (metis snd_conv)
  have "R d (snd (consume_magic_link_in E raw previous now d))"
    unfolding consume_magic_link_in_def
    by (auto split: sum.split prod.split if_split intro: c i s [OF i] s [OF c])
  then show ?thesis unfolding consume_magic_link_def by (rule R_tx)
qed

lemma R_auth_tx: "R d (snd (write_tx (authenticate_session E raw now session_idle_ttl) d))"
  by (rule R_tx) (rule R_authenticate)

lemma R_cookie: "R d (snd (session_of_cookie E q now d))"
proof -
  obtain y d1 where y: "write_tx (authenticate_session E (br_cookie q) now session_idle_ttl) d = (y, d1)" by fastforce
  then have "R d d1" using R_auth_tx [of d "br_cookie q" now] by simp
  then show ?thesis using y by (simp add: session_of_cookie_def R_refl split: sum.split auth_error.split)
qed

lemma R_magic: "R d (snd (magic_link_issue E address purpose account now d))"
proof -
  let ?body = "issue_token E (ae_random E 2 d) purpose (now + magic_link_ttl) account (if account = None then Some address else None) now"
  obtain y d1 where y: "write_tx ?body d = (y, d1)" by fastforce
  have "R d (snd (write_tx ?body d))" by (rule R_tx) (rule R_token)
  then have "R d d1" using y by simp
  then show ?thesis using y by (simp add: magic_link_issue_def Let_def R_refl split: sum.split)
qed

lemma R_requested: "R d (snd (issue_requested_link E q address now d))"
proof -
  obtain s d1 where s: "session_of_cookie E q now d = (s, d1)" by (cases "session_of_cookie E q now d")
  have d1: "R d d1" using R_cookie [of d q now] s by simp
  have m: "R d d2" if "magic_link_issue E a p acc now d1 = (y, d2)" for a p acc y d2
    using R_trans [OF d1] R_magic [of d1 a p acc now] that by simp
  show ?thesis using s d1 m by (auto simp: issue_requested_link_def split: sum.split option.split prod.split)
qed

lemma R_request: "R d (snd (snd (request_link E q address now d)))"
proof -
  obtain u1 d1 where 1: "rate_check E ''request-link-network'' (br_client q) 10 3600 now d = (u1, d1)" by fastforce
  obtain u2 d2 where 2: "rate_check E ''request-link-address'' address 5 3600 now d1 = (u2, d2)" by fastforce
  obtain m d3 where 3: "issue_requested_link E q address now d2 = (m, d3)" by fastforce
  have d1: "R d d1" using R_rate [of d "''request-link-network''" "br_client q" 10 3600 now] 1 by simp
  have d2: "R d d2" using R_trans [OF d1] R_rate [of d1 "''request-link-address''" address 5 3600 now] 2 by simp
  have d3: "R d d3" using R_trans [OF d2] R_requested [of d2 q address now] 3 by simp
  show ?thesis
    using 1 2 3 d1 d2 d3 R_refl by (cases u1; cases u2; cases m; simp add: request_link_def)
qed

lemma R_consume_route: "R d (snd (consume_route E q raw now d))"
proof -
  obtain u1 d1 where 1: "rate_check E ''consume-network'' (br_client q) 30 3600 now d = (u1, d1)" by fastforce
  obtain u2 d2 where 2: "rate_check E ''consume-token'' raw 5 900 now d1 = (u2, d2)" by fastforce
  obtain s d3 where 3: "session_of_cookie E q now d2 = (s, d3)" by fastforce
  obtain m d4 where 4: "consume_magic_link E raw (map_option cs_id (case s of Inl e \<Rightarrow> None | Inr x \<Rightarrow> x)) now d3 = (m, d4)" by fastforce
  have d1: "R d d1" using R_rate [of d "''consume-network''" "br_client q" 30 3600 now] 1 by simp
  have d2: "R d d2" using R_trans [OF d1] R_rate [of d1 "''consume-token''" raw 5 900 now] 2 by simp
  have d3: "R d d3" using R_trans [OF d2] R_cookie [of d2 q now] 3 by simp
  have d4: "R d d4" using R_trans [OF d3] R_link [of d3 raw "map_option cs_id (case s of Inl e \<Rightarrow> None | Inr x \<Rightarrow> x)" now] 4 by simp
  show ?thesis
    using 1 2 3 4 d1 d2 d3 d4 R_refl by (cases u1; cases u2; cases s; cases m; simp add: consume_route_def split: auth_error.split)
qed

lemma R_converge: "R d (snd (converge_household E acc expected now d))"
proof -
  obtain y d1 where y: "create_for_owner E acc now d = (y, d1)" by fastforce
  have "R d d1" using R_owner [of d acc now] y by simp
  then show ?thesis using y R_refl by (simp add: converge_household_def split: list.split option.split sum.split)
qed

lemma R_answer: "R d (snd (answer_household E acc key expected now d))"
proof -
  obtain y d1 where y: "converge_household E acc expected now d = (y, d1)" by fastforce
  have "R d d1" using R_converge [of d acc expected now] y by simp
  then show ?thesis using y R_trans [OF _ R_replies] by (auto simp: answer_household_def Let_def split: sum.split)
qed

lemma R_household: "R d (snd (create_idempotent E acc idem expected now d))"
proof -
  have "R d (snd (answer_household E acc key expected now (d\<lparr>c_replies := rs\<rparr>)))" for key rs
    by (rule R_trans [OF R_replies R_answer])
  then have "R d (snd (create_idempotent_in E acc idem expected now d))"
    by (simp add: create_idempotent_in_def Let_def R_refl R_answer split: option.split reply_body.split)
  then show ?thesis unfolding create_idempotent_def by (rule R_tx)
qed

lemma R_step: "R d (auth_step E op d)"
  by (cases op) (simp_all add: R_magic R_request R_link R_consume_route R_auth_tx R_revoke R_revoke_account
      R_rate R_household R_tx R_profile R_status)

lemma R_run: "R d (fold (auth_step E) ops d)"
  by (induction ops arbitrary: d) (auto intro: R_refl R_trans [OF R_step])

end

section \<open>Magic links\<close>

definition tok_le :: "cpdb \<Rightarrow> cpdb \<Rightarrow> bool" where
  "tok_le d d' \<longleftrightarrow> (\<exists>f new. c_tokens d' = map f (c_tokens d) @ new \<and>
     (\<forall>t. ct_hash (f t) = ct_hash t \<and> ct_expires_at (f t) = ct_expires_at t \<and> (ct_used_at t \<noteq> None \<longrightarrow> ct_used_at (f t) \<noteq> None)))"

lemma tok_le_same: "c_tokens d' = c_tokens d \<Longrightarrow> tok_le d d'"
  unfolding tok_le_def by (intro exI [of _ id] exI [of _ "[]"]) simp

lemma tok_le_trans: "tok_le a b \<Longrightarrow> tok_le b c \<Longrightarrow> tok_le a c"
proof -
  assume "tok_le a b" "tok_le b c"
  then obtain f n g m where f: "c_tokens b = map f (c_tokens a) @ n"
      "\<And>t. ct_hash (f t) = ct_hash t \<and> ct_expires_at (f t) = ct_expires_at t \<and> (ct_used_at t \<noteq> None \<longrightarrow> ct_used_at (f t) \<noteq> None)"
    and g: "c_tokens c = map g (c_tokens b) @ m"
      "\<And>t. ct_hash (g t) = ct_hash t \<and> ct_expires_at (g t) = ct_expires_at t \<and> (ct_used_at t \<noteq> None \<longrightarrow> ct_used_at (g t) \<noteq> None)"
    unfolding tok_le_def by blast
  show ?thesis unfolding tok_le_def
    by (intro exI [of _ "g \<circ> f"] exI [of _ "map g n @ m"]) (use f g in auto)
qed

lemma tok_le_update:
  assumes "c_tokens d' = tbl_update P f (c_tokens d)"
    "\<And>t. ct_hash (f t) = ct_hash t \<and> ct_expires_at (f t) = ct_expires_at t \<and> (ct_used_at t \<noteq> None \<longrightarrow> ct_used_at (f t) \<noteq> None)"
  shows "tok_le d d'"
  unfolding tok_le_def
  by (intro exI [of _ "\<lambda>t. if P t then f t else t"] exI [of _ "[]"]) (use assms in \<open>auto simp: tbl_update_def\<close>)

lemma tok_le_append: "c_tokens d' = c_tokens d @ n \<Longrightarrow> tok_le d d'"
  unfolding tok_le_def by (intro exI [of _ id] exI [of _ n]) simp

lemma tok_le_token: "tok_le d (snd (issue_token E raw purpose expires account address now d))"
  by (auto simp: issue_token_def Let_def split: sum.split option.split intro: tok_le_same tok_le_append)

lemma tok_le_consume: "tok_le d (snd (consume_token_in E raw p now d))"
  by (auto simp: consume_token_in_def split: option.split intro: tok_le_same tok_le_update)

lemma revoke_account_frame [auth_frames]:
  "c_tokens (snd (revoke_account_sessions i now d)) = c_tokens d"
  "c_households (snd (revoke_account_sessions i now d)) = c_households d"
  "c_memberships (snd (revoke_account_sessions i now d)) = c_memberships d"
  by (simp_all add: revoke_account_sessions_def Let_def)

interpretation token_history: auth_contract tok_le E for E :: auth_env
  by unfold_locales (auto intro: tok_le_same tok_le_trans tok_le_token tok_le_consume simp: auth_frames)

lemma found_token_persists:
  assumes "tok_le d d'" "find (\<lambda>t. ct_hash t = h) (c_tokens d) = Some t"
  shows "\<exists>t'. find (\<lambda>t. ct_hash t = h) (c_tokens d') = Some t' \<and> ct_expires_at t' = ct_expires_at t \<and>
    (ct_used_at t \<noteq> None \<longrightarrow> ct_used_at t' \<noteq> None)"
proof -
  obtain f n where f: "c_tokens d' = map f (c_tokens d) @ n"
      "\<And>t. ct_hash (f t) = ct_hash t \<and> ct_expires_at (f t) = ct_expires_at t \<and> (ct_used_at t \<noteq> None \<longrightarrow> ct_used_at (f t) \<noteq> None)"
    using assms(1) unfolding tok_le_def by blast
  have "find (\<lambda>t. ct_hash t = h) (map f T @ n) = Some (f t)" if "find (\<lambda>t. ct_hash t = h) T = Some t" for T
    using that by (induction T) (auto simp: f(2) split: if_splits)
  then show ?thesis using assms(2) f by auto
qed

lemma find_fresh_append: "(\<forall>x \<in> set T. \<not> P x) \<Longrightarrow> P y \<Longrightarrow> find P (T @ [y]) = Some y"
  by (simp add: find_append_case find_None_all split: option.split) (metis find_None_all option.distinct(1))

lemma issued_link_is_found:
  assumes "magic_link_issue E address purpose account now d = (Inr m, d')"
  shows "\<exists>t. find (\<lambda>t. ct_hash t = ae_digest E (ae_random E 2 d)) (c_tokens d') = Some t \<and> ct_expires_at t = now + magic_link_ttl"
proof -
  let ?a = "if account = None then Some address else None"
  obtain i where "write_tx (issue_token E (ae_random E 2 d) purpose (now + magic_link_ttl) account ?a now) d = (Inr i, d')"
    using assms by (auto simp: magic_link_issue_def Let_def split: if_splits prod.splits sum.splits)
  then have "issue_token E (ae_random E 2 d) purpose (now + magic_link_ttl) account ?a now d = (Inr i, d')"
    by (simp add: write_tx_Inr)
  then obtain t where "c_tokens d' = c_tokens d @ [t]" "ct_hash t = ae_digest E (ae_random E 2 d)"
      "ct_expires_at t = now + magic_link_ttl" "\<forall>x \<in> set (c_tokens d). ct_hash x \<noteq> ct_hash t"
    unfolding issue_token_def Let_def by (auto split: sum.splits if_splits)
  then show ?thesis using find_fresh_append [of "c_tokens d" "\<lambda>x. ct_hash x = ct_hash t" t] by auto
qed

lemma consumed_token:
  assumes "consume_magic_link E raw previous now d = (Inr l, d')"
  shows "\<exists>t. find (\<lambda>t. ct_hash t = ae_digest E raw) (c_tokens d) = Some t \<and> now < ct_expires_at t \<and> ct_used_at t = None"
    and "\<exists>t. find (\<lambda>t. ct_hash t = ae_digest E raw) (c_tokens d') = Some t \<and> ct_used_at t \<noteq> None"
proof -
  have c: "consume_magic_link_in E raw previous now d = (Inr l, d')"
    using assms by (simp add: consume_magic_link_def write_tx_Inr)
  then obtain t d1 where t: "consume_token_in E raw None now d = (Inr t, d1)"
    by (auto simp: consume_magic_link_in_def split: prod.splits sum.splits)
  then have f: "find (\<lambda>t. ct_hash t = ae_digest E raw) (c_tokens d) = Some t" "now < ct_expires_at t" "ct_used_at t = None"
    and d1: "d1 = d\<lparr>c_tokens := tbl_update (\<lambda>x. ct_id x = ct_id t)
                 (\<lambda>x. x\<lparr>ct_used_at := Some now, ct_attempts := ct_attempts x + 1\<rparr>) (c_tokens d)\<rparr>"
    by (auto simp: consume_token_in_def split: option.splits if_splits)
  then show "\<exists>t. find (\<lambda>t. ct_hash t = ae_digest E raw) (c_tokens d) = Some t \<and> now < ct_expires_at t \<and> ct_used_at t = None"
    by blast
  have keep: "c_tokens d' = c_tokens d1"
  proof -
    obtain y d2 where y: "(if ct_purpose t = ''invite'' then invited_account E t now d1 else (login_account t d1, d1)) = (y, d2)"
      by fastforce
    then have "c_tokens d2 = c_tokens d1" using invited_account_frame(1) [of E t now d1] by (auto split: if_splits)
    then show ?thesis
      using c t y session_issue_frame(1) end_previous_frame(1)
      by (auto simp: consume_magic_link_in_def split: prod.splits sum.splits) (metis snd_conv)
  qed
  have "find (\<lambda>t. ct_hash t = ae_digest E raw) (tbl_update (\<lambda>x. ct_id x = ct_id t)
      (\<lambda>x. x\<lparr>ct_used_at := Some now, ct_attempts := ct_attempts x + 1\<rparr>) T) =
      Some (t\<lparr>ct_used_at := Some now, ct_attempts := ct_attempts t + 1\<rparr>)"
    if "find (\<lambda>t. ct_hash t = ae_digest E raw) T = Some t" for T
    using that by (induction T) (auto split: if_splits)
  then show "\<exists>t. find (\<lambda>t. ct_hash t = ae_digest E raw) (c_tokens d') = Some t \<and> ct_used_at t \<noteq> None"
    using f(1) d1 keep by auto
qed

text \<open>
  C18 (a magic link opens one session, while it is fresh).  Through any history of requests, the token
  of an issued link is accepted only within fifteen minutes of the issue, and after it opened a session it
  is refused as invalid for good.
\<close>

theorem magic_link_opens_one_session:
  assumes "magic_link_issue E address purpose account t0 d = (Inr m, d1)"
    "consume_magic_link E (ae_random E 2 d) previous now (fold (auth_step E) ops d1) = (Inr l, d2)"
  shows "now < t0 + magic_link_ttl \<and>
    fst (consume_magic_link E (ae_random E 2 d) previous2 now2 (fold (auth_step E) ops2 d2)) =
      Inl (Invalid_credential ''invalid or expired magic link'')"
proof -
  obtain t where t: "find (\<lambda>t. ct_hash t = ae_digest E (ae_random E 2 d)) (c_tokens d1) = Some t"
      "ct_expires_at t = t0 + magic_link_ttl"
    using issued_link_is_found [OF assms(1)] by blast
  have "now < t0 + magic_link_ttl"
    using found_token_persists [OF token_history.R_run t(1), of E ops] consumed_token(1) [OF assms(2)] t(2) by auto
  moreover obtain t2 where t2: "find (\<lambda>t. ct_hash t = ae_digest E (ae_random E 2 d)) (c_tokens d2) = Some t2" "ct_used_at t2 \<noteq> None"
    using consumed_token(2) [OF assms(2)] by blast
  moreover obtain t3 where "find (\<lambda>t. ct_hash t = ae_digest E (ae_random E 2 d)) (c_tokens (fold (auth_step E) ops2 d2)) = Some t3"
      "ct_used_at t3 \<noteq> None"
    using found_token_persists [OF token_history.R_run t2(1), of E ops2] t2(2) by auto
  ultimately show ?thesis by (simp add: consume_magic_link_def write_tx_def consume_magic_link_in_def consume_token_in_def)
qed

section \<open>Sessions\<close>

definition same_session :: "cp_session \<Rightarrow> cp_session \<Rightarrow> bool" where
  "same_session s s' \<longleftrightarrow> cs_id s' = cs_id s \<and> cs_hash s' = cs_hash s \<and> cs_absolute s' = cs_absolute s \<and>
     cs_account s' = cs_account s \<and> cs_reauth s' = cs_reauth s \<and> (cs_revoked s \<noteq> None \<longrightarrow> cs_revoked s' \<noteq> None)"

definition ses_le :: "cpdb \<Rightarrow> cpdb \<Rightarrow> bool" where
  "ses_le d d' \<longleftrightarrow> (\<exists>f new. c_sessions d' = map f (c_sessions d) @ new \<and> (\<forall>s. same_session s (f s)) \<and>
     cs_hash ` set new \<inter> cs_hash ` set (c_sessions d) = {})"

lemma same_session_refl [simp]: "same_session s s"
  by (simp add: same_session_def)

lemma same_session_trans: "same_session a b \<Longrightarrow> same_session b c \<Longrightarrow> same_session a c"
  by (auto simp: same_session_def)

lemma ses_le_same: "c_sessions d' = c_sessions d \<Longrightarrow> ses_le d d'"
  unfolding ses_le_def by (intro exI [of _ id] exI [of _ "[]"]) simp

lemma ses_leE:
  assumes "ses_le d d'"
  obtains f n where "c_sessions d' = map f (c_sessions d) @ n" "\<forall>s. same_session s (f s)"
    "cs_hash ` set n \<inter> cs_hash ` set (c_sessions d) = {}"
  using assms unfolding ses_le_def by (elim exE conjE) (rule that)

lemma ses_le_trans: "ses_le a b \<Longrightarrow> ses_le b c \<Longrightarrow> ses_le a c"
proof -
  assume ab: "ses_le a b" and bc: "ses_le b c"
  obtain f n where f: "c_sessions b = map f (c_sessions a) @ n" "\<forall>s. same_session s (f s)"
      "cs_hash ` set n \<inter> cs_hash ` set (c_sessions a) = {}"
    using ab by (rule ses_leE)
  obtain g m where g: "c_sessions c = map g (c_sessions b) @ m" "\<forall>s. same_session s (g s)"
      "cs_hash ` set m \<inter> cs_hash ` set (c_sessions b) = {}"
    using bc by (rule ses_leE)
  have h: "cs_hash (f s) = cs_hash s" "cs_hash (g s) = cs_hash s" for s
    using f(2) g(2) by (auto simp: same_session_def)
  have "cs_hash ` set (map g n @ m) \<inter> cs_hash ` set (c_sessions a) = {}"
  proof -
    have "cs_hash ` set (c_sessions b) = cs_hash ` set (c_sessions a) \<union> cs_hash ` set n"
      "cs_hash ` set (map g n @ m) = cs_hash ` set n \<union> cs_hash ` set m"
      by (simp_all add: f(1) h image_Un image_image)
    then show ?thesis using f(3) g(3) by blast
  qed
  moreover have "c_sessions c = map (g \<circ> f) (c_sessions a) @ (map g n @ m)" by (simp add: f(1) g(1))
  moreover have "same_session s ((g \<circ> f) s)" for s
    unfolding comp_def by (rule same_session_trans [OF f(2) [rule_format] g(2) [rule_format]])
  ultimately show ?thesis unfolding ses_le_def by (intro exI [of _ "g \<circ> f"] exI [of _ "map g n @ m"] conjI allI)
qed

lemma ses_le_update:
  assumes "c_sessions d' = tbl_update P f (c_sessions d)" "\<And>s. same_session s (f s)"
  shows "ses_le d d'"
  unfolding ses_le_def
  by (intro exI [of _ "\<lambda>s. if P s then f s else s"] exI [of _ "[]"]) (use assms in \<open>auto simp: tbl_update_def\<close>)

lemma ses_le_create: "ses_le d (snd (create_session E raw csrf acc idle absolute r now d))"
proof (cases "fst (create_session E raw csrf acc idle absolute r now d)")
  case (Inl e)
  then show ?thesis by (intro ses_le_same) (auto simp: create_session_def Let_def split: if_splits)
next
  case (Inr s)
  then have "c_sessions (snd (create_session E raw csrf acc idle absolute r now d)) = map id (c_sessions d) @ [s]"
    "cs_hash ` set [s] \<inter> cs_hash ` set (c_sessions d) = {}"
    by (auto simp: create_session_def Let_def split: if_splits)
  moreover have "\<forall>s. same_session s (id s)" by simp
  ultimately show ?thesis unfolding ses_le_def by blast
qed

lemma ses_le_authenticate: "ses_le d (snd (authenticate_session E raw now ttl d))"
proof (cases "fst (authenticate_session E raw now ttl d)")
  case (Inl e)
  then show ?thesis
    by (intro ses_le_same) (auto simp: authenticate_session_def Let_def split: option.splits if_splits)
next
  case (Inr s)
  then obtain P i where "c_sessions (snd (authenticate_session E raw now ttl d)) =
      tbl_update P (\<lambda>x. x\<lparr>cs_seen := now, cs_idle := i\<rparr>) (c_sessions d)"
    by (auto simp: authenticate_session_def Let_def split: option.splits if_splits)
  then show ?thesis by (rule ses_le_update) (simp add: same_session_def)
qed

lemma ses_le_revoke: "ses_le d (revoke_session i now d)"
  unfolding revoke_session_def by (rule ses_le_update, simp) (simp add: same_session_def)

lemma ses_le_revoke_account: "ses_le d (snd (revoke_account_sessions a now d))"
  unfolding revoke_account_sessions_def Let_def by (rule ses_le_update, simp) (simp add: same_session_def)

interpretation session_history: auth_contract ses_le E for E :: auth_env
  by unfold_locales
    (auto intro: ses_le_same ses_le_trans ses_le_create ses_le_authenticate ses_le_revoke ses_le_revoke_account simp: auth_frames)

text \<open>What holds of every session with a digest, and survives its changes, holds for good.\<close>

definition each_session :: "string \<Rightarrow> (cp_session \<Rightarrow> bool) \<Rightarrow> cpdb \<Rightarrow> bool" where
  "each_session h P d \<longleftrightarrow> h \<in> cs_hash ` set (c_sessions d) \<and> (\<forall>s \<in> set (c_sessions d). cs_hash s = h \<longrightarrow> P s)"

lemma each_session_persists:
  assumes "ses_le d d'" "each_session h P d" "\<And>s s'. same_session s s' \<Longrightarrow> P s \<Longrightarrow> P s'"
  shows "each_session h P d'"
proof -
  obtain f n where f: "c_sessions d' = map f (c_sessions d) @ n" "\<forall>s. same_session s (f s)"
      "cs_hash ` set n \<inter> cs_hash ` set (c_sessions d) = {}"
    using assms(1) by (rule ses_leE)
  have h: "cs_hash (f s) = cs_hash s" for s using f(2) by (auto simp: same_session_def)
  have "P (f s)" if "s \<in> set (c_sessions d)" "cs_hash s = h" for s
    using assms(2) assms(3) [OF f(2) [rule_format]] that by (auto simp: each_session_def)
  moreover have "cs_hash s \<noteq> h" if "s \<in> set n" for s
    using assms(2) f(3) that by (auto simp: each_session_def disjoint_iff)
  moreover have "h \<in> set (map cs_hash (c_sessions d'))"
    using assms(2) by (simp add: each_session_def f(1) h comp_def)
  ultimately have all: "\<forall>s' \<in> set (c_sessions d'). cs_hash s' = h \<longrightarrow> P s'" "h \<in> set (map cs_hash (c_sessions d'))"
    by (auto simp: f(1) h)
  then show ?thesis by (simp add: each_session_def)
qed

lemma authenticated_row:
  assumes "authenticate_session E raw now ttl d = (Inr s, d')" "each_session (ae_digest E raw) P d"
  obtains s0 where "P s0" "session_valid now s0" "cs_id s = cs_id s0" "cs_account s = cs_account s0"
    "\<exists>a \<in> set (c_accounts d). ac_id a = cs_account s0 \<and> ac_status a = ''active''"
proof -
  let ?q = "\<lambda>s. cs_hash s = ae_digest E raw \<and> (\<exists>a \<in> set (c_accounts d). ac_id a = cs_account s \<and> ac_status a = ''active'')"
  obtain s0 where s0: "find ?q (c_sessions d) = Some s0"
    using assms(1) by (cases "find ?q (c_sessions d)") (simp_all add: authenticate_session_def)
  have "session_valid now s0" "s = s0\<lparr>cs_idle := min (now + ttl) (cs_absolute s0)\<rparr>"
    using assms(1) s0 by (auto simp: authenticate_session_def Let_def split: if_splits)
  moreover have "s0 \<in> set (c_sessions d) \<and> ?q s0" by (rule find_Some_mem [OF s0])
  ultimately show ?thesis using that [of s0] assms(2) by (auto simp: each_session_def)
qed

lemma login_session:
  assumes "consume_magic_link E raw previous now d = (Inr l, d')"
  shows "each_session (ae_digest E (is_token (lg_session l)))
    (\<lambda>s. cs_absolute s = now + session_absolute_ttl \<and> cs_id s = is_id (lg_session l) \<and> cs_account s = ac_id (lg_account l)) d'"
proof -
  have c: "consume_magic_link_in E raw previous now d = (Inr l, d')"
    using assms by (simp add: consume_magic_link_def write_tx_Inr)
  then obtain acc d2 s where i: "session_issue E acc now d2 = (Inr s, d')" "lg_session l = s" "ac_id (lg_account l) = acc"
    by (auto simp: consume_magic_link_in_def split: prod.splits sum.splits)
  obtain y d3 where y: "create_session E (ae_random E 0 d2) (ae_random E 1 d2) acc (now + session_idle_ttl)
        (now + session_absolute_ttl) now now d2 = (y, d3)" by fastforce
  obtain c where c: "y = Inr c" using i(1) y by (cases y) (simp_all add: session_issue_def Let_def)
  have cs: "create_session E (ae_random E 0 d2) (ae_random E 1 d2) acc (now + session_idle_ttl)
        (now + session_absolute_ttl) now now d2 = (Inr c, d')" "is_token s = ae_random E 0 d2" "is_id s = cs_id c"
    using i(1) y c by (auto simp: session_issue_def Let_def)
  then have "c_sessions d' = c_sessions d2 @ [c]" "\<forall>x \<in> set (c_sessions d2). cs_hash x \<noteq> cs_hash c"
      "cs_hash c = ae_digest E (is_token s)" "cs_absolute c = now + session_absolute_ttl" "cs_account c = acc"
    by (auto simp: create_session_def Let_def split: if_splits)
  then show ?thesis using i cs(3) by (auto simp: each_session_def)
qed

fun ends_session :: "uid \<Rightarrow> uid \<Rightarrow> auth_op \<Rightarrow> bool" where
  "ends_session i acc (Ao_revoke k now) \<longleftrightarrow> k = i"
| "ends_session i acc (Ao_revoke_account a now) \<longleftrightarrow> a = acc"
| "ends_session i acc op \<longleftrightarrow> False"

lemma each_session_ended:
  assumes "each_session h Q d" "\<And>s. Q s \<Longrightarrow> P s \<or> cs_revoked s \<noteq> None"
    "c_sessions d' = tbl_update P (\<lambda>s. s\<lparr>cs_revoked := Some now\<rparr>) (c_sessions d)"
  shows "each_session h (\<lambda>s. cs_revoked s \<noteq> None) d'"
proof -
  have "cs_hash ` set (c_sessions d') = cs_hash ` set (c_sessions d)" by (simp add: assms(3) image_tbl_update)
  then show ?thesis using assms(1,2) by (auto simp: each_session_def assms(3) set_tbl_update)
qed

lemma ended_session:
  assumes "ends_session i acc op" "each_session h (\<lambda>s. cs_id s = i \<and> cs_account s = acc) d"
  shows "each_session h (\<lambda>s. cs_revoked s \<noteq> None) (auth_step E op d)"
proof (cases op)
  case (Ao_revoke k now)
  show ?thesis using assms Ao_revoke
    by (intro each_session_ended [OF assms(2), where P = "\<lambda>s. cs_id s = i \<and> cs_revoked s = None"]) (auto simp: revoke_session_def)
next
  case (Ao_revoke_account a now)
  show ?thesis using assms Ao_revoke_account
    by (intro each_session_ended [OF assms(2), where P = "\<lambda>s. cs_account s = acc \<and> cs_revoked s = None"])
      (auto simp: revoke_account_sessions_def Let_def)
qed (use assms(1) in auto)

text \<open>
  C19 (a session ends).  The session a magic link opened is accepted only for thirty days, only while the
  account that signed in is active, and after it or all sessions of its account were revoked, never again,
  whatever other requests come in between.
\<close>

theorem a_session_ends:
  assumes "consume_magic_link E raw previous t0 d = (Inr l, d1)"
    "authenticate_session E (is_token (lg_session l)) now ttl (fold (auth_step E) ops d1) = (Inr s, d2)"
  shows "now < t0 + session_absolute_ttl \<and> cs_account s = ac_id (lg_account l) \<and>
    (\<exists>a \<in> set (c_accounts (fold (auth_step E) ops d1)). ac_id a = ac_id (lg_account l) \<and> ac_status a = ''active'') \<and>
    \<not> (\<exists>op \<in> set ops. ends_session (is_id (lg_session l)) (ac_id (lg_account l)) op)"
proof -
  let ?h = "ae_digest E (is_token (lg_session l))"
  let ?P = "\<lambda>s. cs_absolute s = t0 + session_absolute_ttl \<and> cs_id s = is_id (lg_session l) \<and> cs_account s = ac_id (lg_account l)"
  have p: "each_session ?h ?P d1" by (rule login_session [OF assms(1)])
  have keep: "each_session ?h ?P (fold (auth_step E) xs d1)" for xs
    by (rule each_session_persists [OF session_history.R_run p]) (auto simp: same_session_def)
  obtain s0 where s0: "?P s0" "session_valid now s0" "cs_account s = cs_account s0"
      "\<exists>a \<in> set (c_accounts (fold (auth_step E) ops d1)). ac_id a = cs_account s0 \<and> ac_status a = ''active''"
    by (rule authenticated_row [OF assms(2) keep]) blast
  have "\<not> (\<exists>op \<in> set ops. ends_session (is_id (lg_session l)) (ac_id (lg_account l)) op)"
  proof
    assume "\<exists>op \<in> set ops. ends_session (is_id (lg_session l)) (ac_id (lg_account l)) op"
    then obtain xs op ys where ops: "ops = xs @ op # ys" "ends_session (is_id (lg_session l)) (ac_id (lg_account l)) op"
      by (metis split_list)
    have "each_session ?h (\<lambda>s. cs_id s = is_id (lg_session l) \<and> cs_account s = ac_id (lg_account l)) (fold (auth_step E) xs d1)"
      using keep [of xs] by (auto simp: each_session_def)
    then have "each_session ?h (\<lambda>s. cs_revoked s \<noteq> None) (auth_step E op (fold (auth_step E) xs d1))"
      by (rule ended_session [OF ops(2)])
    then have "each_session ?h (\<lambda>s. cs_revoked s \<noteq> None) (fold (auth_step E) ops d1)"
      unfolding ops(1) by (simp, intro each_session_persists [OF session_history.R_run]) (auto simp: same_session_def)
    then show False
      by (rule authenticated_row [OF assms(2)]) (auto simp: session_valid_def)
  qed
  then show ?thesis using s0 by (auto simp: session_valid_def)
qed

section \<open>Limits\<close>

text \<open>One bucket as a window of its own: the start of the window and the requests it let through.\<close>

fun window_step :: "nat \<Rightarrow> real \<Rightarrow> time \<Rightarrow> (time \<times> nat) option \<Rightarrow> bool \<times> (time \<times> nat) option" where
  "window_step L W t None = (True, Some (t, 1))"
| "window_step L W t (Some (s, n)) =
     (if s + W \<le> t then (True, Some (t, 1)) else if L \<le> n then (False, Some (s, n)) else (True, Some (s, n + 1)))"

fun window_passed :: "nat \<Rightarrow> real \<Rightarrow> time \<Rightarrow> time list \<Rightarrow> (time \<times> nat) option \<Rightarrow> nat" where
  "window_passed L W a [] st = 0"
| "window_passed L W a (t # ts) st =
     (if fst (window_step L W t st) \<and> a \<le> t \<and> t < a + W then 1 else 0) + window_passed L W a ts (snd (window_step L W t st))"

lemma window_passed_late: "(\<forall>t \<in> set ts. a + W \<le> t) \<Longrightarrow> window_passed L W a ts st = 0"
  by (induction ts arbitrary: st) auto

lemma window_passed_inside:
  assumes "sorted ts" "a \<le> s" "\<forall>t \<in> set ts. s \<le> t" "n \<le> L"
  shows "window_passed L W a ts (Some (s, n)) \<le> L - n"
  using assms
proof (induction ts arbitrary: n)
  case (Cons t ts)
  consider "s + W \<le> t" | "t < s + W" "L \<le> n" | "t < s + W" "n < L" by linarith
  then show ?case
  proof cases
    case 1
    then have "\<forall>x \<in> set ts. a + W \<le> x" using Cons.prems by fastforce
    then show ?thesis using 1 Cons.prems by (simp add: window_passed_late)
  next
    case 2
    have "window_passed L W a ts (Some (s, n)) \<le> L - n" using Cons.prems by (intro Cons.IH) auto
    then show ?thesis using 2 by simp
  next
    case 3
    then have "window_passed L W a ts (Some (s, n + 1)) \<le> L - (n + 1)" using Cons by simp
    then show ?thesis using 3 by auto
  qed
qed simp

lemma window_passed_after:
  assumes "sorted ts" "\<forall>t \<in> set ts. a \<le> t" "n \<le> L" "0 < L"
  shows "window_passed L W a ts (Some (s, n)) \<le> (L - n) + L"
  using assms
proof (induction ts arbitrary: n)
  case (Cons t ts)
  consider "s + W \<le> t" | "t < s + W" "L \<le> n" | "t < s + W" "n < L" by linarith
  then show ?case
  proof cases
    case 1
    have "window_passed L W a ts (Some (t, 1)) \<le> L - 1"
      using Cons.prems by (intro window_passed_inside) auto
    then show ?thesis using 1 Cons.prems(4) by auto
  next
    case 2
    have "window_passed L W a ts (Some (s, n)) \<le> (L - n) + L" using Cons.prems by (intro Cons.IH) auto
    then show ?thesis using 2 by simp
  next
    case 3
    then have "window_passed L W a ts (Some (s, n + 1)) \<le> (L - (n + 1)) + L" using Cons by simp
    then show ?thesis using 3 by auto
  qed
qed simp

definition in_limit :: "nat \<Rightarrow> (time \<times> nat) option \<Rightarrow> bool" where
  "in_limit L st \<longleftrightarrow> (case st of None \<Rightarrow> True | Some (s, n) \<Rightarrow> n \<le> L)"

lemma in_limit_step: "in_limit L st \<Longrightarrow> 0 < L \<Longrightarrow> in_limit L (snd (window_step L W t st))"
  by (cases st) (auto simp: in_limit_def)

lemma window_passed_bound:
  assumes "sorted ts" "in_limit L st" "0 < L"
  shows "window_passed L W a ts st \<le> 2 * L"
  using assms
proof (induction ts arbitrary: st)
  case (Cons t ts)
  show ?case
  proof (cases "t < a")
    case True
    then show ?thesis using Cons.IH [OF _ in_limit_step [OF Cons.prems(2,3)], of W t] Cons.prems by simp
  next
    case False
    then have late: "\<forall>x \<in> set (t # ts). a \<le> x" using Cons.prems(1) by fastforce
    show ?thesis
    proof (cases st)
      case None
      have "window_passed L W a ts (Some (t, 1)) \<le> (L - 1) + L"
        using Cons.prems late by (intro window_passed_after) auto
      then show ?thesis using None Cons.prems(3) by auto
    next
      case (Some sn)
      obtain s n where sn: "sn = (s, n)" by (cases sn)
      have "window_passed L W a (t # ts) (Some (s, n)) \<le> (L - n) + L"
        by (rule window_passed_after [OF Cons.prems(1) late])
          (use Cons.prems Some sn in \<open>auto simp: in_limit_def\<close>)
      then show ?thesis using Some sn by simp
    qed
  qed
qed simp

definition window_of :: "string \<Rightarrow> cpdb \<Rightarrow> (time \<times> nat) option" where
  "window_of b d = map_option (\<lambda>r. (bk_started r, bk_attempts r)) (tbl_get bk_hmac b (c_buckets d))"

definition bucket_of :: "auth_env \<Rightarrow> string \<times> string \<Rightarrow> string" where
  "bucket_of E ki = ae_digest E (''rate:'' @ fst ki @ '':'' @ snd ki)"

lemma tbl_get_update_other:
  "(\<And>r. P r \<Longrightarrow> rid r \<noteq> i) \<Longrightarrow> (\<And>r. P r \<Longrightarrow> rid (f r) \<noteq> i) \<Longrightarrow> tbl_get rid i (tbl_update P f T) = tbl_get rid i T"
  by (induction T) (auto simp: tbl_get_Cons)

lemma tbl_get_update_own:
  "(\<And>r. rid r = i \<Longrightarrow> rid (f r) = i) \<Longrightarrow> tbl_get rid i (tbl_update (\<lambda>r. rid r = i) f T) = map_option f (tbl_get rid i T)"
  by (induction T) (auto simp: tbl_get_Cons)

lemma rate_check_window:
  "(fst (rate_check E k i L W t d) = Inr (), window_of (bucket_of E (k, i)) (snd (rate_check E k i L W t d))) =
    window_step L W t (window_of (bucket_of E (k, i)) d)"
  by (cases "tbl_get bk_hmac (bucket_of E (k, i)) (c_buckets d)")
    (auto simp: rate_check_def Let_def window_of_def bucket_of_def tbl_get_append tbl_get_Cons tbl_get_update_own)

lemma rate_check_other_window:
  assumes "bucket_of E (k, i) \<noteq> b"
  shows "window_of b (snd (rate_check E k i L W t d)) = window_of b d"
  using assms
  by (auto simp: rate_check_def Let_def window_of_def bucket_of_def tbl_get_append tbl_get_Cons tbl_get_update_other
      split: option.split)

text \<open>
  The checks of all limits in the order of the requests: each is of a kind, which fixes its limit and its
  window, for an identifier.  \<open>let_through\<close> counts those of one kind and identifier that pass between
  \<open>a\<close> and the length of a window later.
\<close>

fun let_through ::
  "auth_env \<Rightarrow> (string \<Rightarrow> nat \<times> real) \<Rightarrow> string \<times> string \<Rightarrow> time \<Rightarrow> ((string \<times> string) \<times> time) list \<Rightarrow> cpdb \<Rightarrow> nat" where
  "let_through E policy ki a [] d = 0"
| "let_through E policy ki a ((kj, t) # cs) d =
     (case rate_check E (fst kj) (snd kj) (fst (policy (fst kj))) (snd (policy (fst kj))) t d of
        (r, d') \<Rightarrow> (if kj = ki \<and> r = Inr () \<and> a \<le> t \<and> t < a + snd (policy (fst ki)) then 1 else 0) + let_through E policy ki a cs d')"

lemma let_through_window:
  assumes "\<And>kj. bucket_of E kj = bucket_of E ki \<Longrightarrow> kj = ki"
  shows "let_through E policy ki a cs d =
    window_passed (fst (policy (fst ki))) (snd (policy (fst ki))) a (map snd (filter (\<lambda>c. fst c = ki) cs)) (window_of (bucket_of E ki) d)"
proof (induction cs arbitrary: d)
  case (Cons c cs)
  obtain kj t where c: "c = (kj, t)" by (cases c)
  obtain r d' where r: "rate_check E (fst kj) (snd kj) (fst (policy (fst kj))) (snd (policy (fst kj))) t d = (r, d')" by fastforce
  show ?case
  proof (cases "kj = ki")
    case True
    have "window_step (fst (policy (fst ki))) (snd (policy (fst ki))) t (window_of (bucket_of E ki) d) =
        (r = Inr (), window_of (bucket_of E ki) d')"
      using rate_check_window [of E "fst ki" "snd ki" "fst (policy (fst ki))" "snd (policy (fst ki))" t d] r True by simp
    then show ?thesis using c r True Cons.IH by simp
  next
    case False
    then have "bucket_of E (fst kj, snd kj) \<noteq> bucket_of E ki" using assms [of kj] by (auto simp: prod.collapse)
    then have "window_of (bucket_of E ki) d' = window_of (bucket_of E ki) d"
      using rate_check_other_window [of E "fst kj" "snd kj" "bucket_of E ki" "fst (policy (fst kj))" "snd (policy (fst kj))" t d] r
      by simp
    then show ?thesis using c r False Cons.IH by simp
  qed
qed simp

text \<open>
  C22 (what a limit lets through).  Under a clock that does not run backwards, in any interval as long as
  the window a caller passes a limit at most twice its number of times, whatever other callers do.
\<close>

theorem limit_bounds_every_interval:
  assumes "\<And>kj. bucket_of E kj = bucket_of E ki \<Longrightarrow> kj = ki" "sorted (map snd cs)" "0 < fst (policy (fst ki))"
    "\<And>r. r \<in> set (c_buckets d) \<Longrightarrow> bk_attempts r \<le> fst (policy (fst ki))"
  shows "let_through E policy ki a cs d \<le> 2 * fst (policy (fst ki))"
proof -
  have "sorted (map snd (filter (\<lambda>c. fst c = ki) cs))" using assms(2) by (induction cs) auto
  moreover have "in_limit (fst (policy (fst ki))) (window_of (bucket_of E ki) d)"
    using assms(4) tbl_get_SomeD [of bk_hmac "bucket_of E ki" "c_buckets d"]
    by (auto simp: in_limit_def window_of_def split: option.split)
  ultimately show ?thesis using let_through_window [OF assms(1)] window_passed_bound assms(3) by simp
qed

section \<open>One live household per account\<close>

definition homes_ok :: "cpdb \<Rightarrow> bool" where
  "homes_ok d \<longleftrightarrow> (\<forall>a. length (filter (\<lambda>h. active_in a h d) (c_households d)) \<le> 1) \<and>
     (\<forall>m \<in> set (c_memberships d). cm_household m \<in> ch_id ` set (c_households d))"

lemma homes_ok_frame:
  "c_households d' = c_households d \<Longrightarrow> c_memberships d' = c_memberships d \<Longrightarrow> homes_ok d \<longrightarrow> homes_ok d'"
  by (simp add: homes_ok_def active_in_def)

lemma homes_ok_owner: "homes_ok d \<longrightarrow> homes_ok (snd (create_for_owner E acc now d))"
proof
  assume ok: "homes_ok d"
  obtain r d' where r: "create_for_owner E acc now d = (r, d')" by fastforce
  show "homes_ok (snd (create_for_owner E acc now d))"
  proof (cases r)
    case (Inl e)
    then have "d' = d" using r by (auto simp: create_for_owner_def Let_def split: if_splits)
    then show ?thesis using r ok by simp
  next
    case (Inr h)
    then obtain m where m: "c_households d' = c_households d @ [h]" "c_memberships d' = c_memberships d @ [m]"
        "cm_account m = acc" "cm_household m = ch_id h" "for_account acc d = []" "\<forall>x \<in> set (c_households d). ch_id x \<noteq> ch_id h"
      using r by (auto simp: create_for_owner_def Let_def split: if_splits)
    have none: "filter (\<lambda>x. active_in acc x d) (c_households d) = []"
      using m(5) length_sort [of ch_created_at "filter (\<lambda>x. active_in acc x d) (c_households d)"] by (auto simp: for_account_def)
    have old: "active_in a x d' \<longleftrightarrow> active_in a x d" if "x \<in> set (c_households d)" for a x
      using m(2,4,6) that by (auto simp: active_in_def)
    have new: "active_in a h d' \<Longrightarrow> a = acc" for a
      using m ok by (fastforce simp: active_in_def homes_ok_def)
    have "length (filter (\<lambda>x. active_in a x d') (c_households d')) \<le> 1" for a
    proof (cases "a = acc")
      case True
      have "filter (\<lambda>x. active_in acc x d') (c_households d) = []" using none old by (auto simp: filter_empty_conv)
      then show ?thesis using True by (simp add: m(1))
    next
      case False
      have "filter (\<lambda>x. active_in a x d') (c_households d) = filter (\<lambda>x. active_in a x d) (c_households d)"
        using old by (intro filter_cong) auto
      moreover have "length (filter (\<lambda>x. active_in a x d) (c_households d)) \<le> 1" using ok by (simp add: homes_ok_def)
      ultimately show ?thesis using False new [of a] by (auto simp: m(1))
    qed
    then show ?thesis using r m ok by (auto simp: homes_ok_def)
  qed
qed

lemma homes_ok_profile: "homes_ok d \<longrightarrow> homes_ok (snd (save_household_profile E hh p now d))"
proof
  assume ok: "homes_ok d"
  let ?d = "snd (save_household_profile E hh p now d)"
  show "homes_ok ?d"
  proof (cases "c_households ?d = c_households d")
    case True
    then show ?thesis using ok homes_ok_frame save_profile_frame(3) by blast
  next
    case False
    let ?P = "\<lambda>h. ch_id h = hh \<and> ch_status h \<notin> {''deleting'', ''deleted''}"
    obtain f where f: "c_households ?d = tbl_update ?P f (c_households d)"
        "\<And>h. ch_id (f h) = ch_id h \<and> ch_status (f h) = ''onboarding''"
      using False by (auto simp: save_household_profile_def split: if_splits)
    have same: "active_in a (if ?P h then f h else h) ?d = active_in a h d" for a h
      using f(2) [of h] by (auto simp: active_in_def auth_frames)
    have "length (filter (\<lambda>h. active_in a h ?d) (tbl_update ?P f T)) = length (filter (\<lambda>h. active_in a h d) T)" for a T
    proof (induction T)
      case (Cons h T)
      then show ?case using same [of a h] by simp
    qed simp
    moreover have "ch_id ` set (c_households ?d) = ch_id ` set (c_households d)"
      by (simp only: f(1)) (rule image_tbl_update, simp add: f(2))
    ultimately show ?thesis using ok by (simp add: homes_ok_def f(1) auth_frames)
  qed
qed

interpretation homes: auth_contract "\<lambda>d d'. homes_ok d \<longrightarrow> homes_ok d'" E for E :: auth_env
  by unfold_locales
    (blast | rule homes_ok_owner | rule homes_ok_profile
      | (rule homes_ok_frame; simp add: auth_frames revoke_session_def))+

text \<open>
  C20 (an account has one household).  Through any history of sign-ups, sign-ins and household commands, no
  account ever holds two live households.
\<close>

theorem one_household_per_account:
  assumes "homes_ok d"
  shows "length (for_account a (fold (auth_step E) ops d)) \<le> 1"
  using homes.R_run [of d E ops] assms by (auto simp: homes_ok_def for_account_def)

section \<open>The public form\<close>

definition fresh_tokens :: "auth_env \<Rightarrow> bool" where
  "fresh_tokens E \<longleftrightarrow> (\<forall>d. ae_uuid E 3 d \<notin> ct_id ` set (c_tokens d) \<and> ae_digest E (ae_random E 2 d) \<notin> ct_hash ` set (c_tokens d))"

definition hidden :: "auth_error + 'a \<Rightarrow> bool" where
  "hidden r \<longleftrightarrow> (case r of Inl e \<Rightarrow> link_reply_of e = Lr_accepted | Inr x \<Rightarrow> True)"

lemma hidden_simps [simp]: "hidden (Inl e) \<longleftrightarrow> link_reply_of e = Lr_accepted" "hidden (Inr x)"
  by (simp_all add: hidden_def)

lemma normalize_email_error:
  assumes "normalize_email E a = Inl e"
  shows "link_reply_of e = Lr_accepted"
proof -
  have "\<exists>m. e = Value_refused m"
    using assms by (auto simp: normalize_email_def Let_def split: list.split_asm if_split_asm)
  then show ?thesis by auto
qed

lemma fresh_token_is_issued:
  assumes "fresh_tokens E" "pu \<in> {''invite'', ''login'', ''reauth''}" "\<forall>i. acc = Some i \<longrightarrow> accounts_get i d \<noteq> None"
  shows "hidden (fst (issue_token E (ae_random E 2 d) pu x acc ad now d))"
proof -
  let ?n = "case ad of None \<Rightarrow> Inr None | Some a \<Rightarrow> map_sum id Some (normalize_email E a)"
  have ok: "\<not> ((\<exists>x \<in> set (c_tokens d). ct_id x = ae_uuid E 3 d \<or> ct_hash x = ae_digest E (ae_random E 2 d)) \<or>
      pu \<notin> {''invite'', ''login'', ''reauth''} \<or> (case acc of None \<Rightarrow> False | Some i \<Rightarrow> accounts_get i d = None))"
  proof -
    have "ae_uuid E 3 d \<notin> ct_id ` set (c_tokens d) \<and> ae_digest E (ae_random E 2 d) \<notin> ct_hash ` set (c_tokens d)"
      using assms(1) unfolding fresh_tokens_def by blast
    then have "\<not> (\<exists>x \<in> set (c_tokens d). ct_id x = ae_uuid E 3 d \<or> ct_hash x = ae_digest E (ae_random E 2 d))" by force
    then show ?thesis using assms(2,3) by (simp split: option.split)
  qed
  show ?thesis
  proof (cases ?n)
    case (Inl e)
    then have "link_reply_of e = Lr_accepted"
      using normalize_email_error by (cases ad; cases "normalize_email E (the ad)") auto
    then show ?thesis using Inl by (simp add: issue_token_def)
  next
    case (Inr v)
    then show ?thesis using ok by (simp add: issue_token_def Let_def)
  qed
qed

lemma magic_link_is_issued:
  assumes "fresh_tokens E" "pu \<in> {''invite'', ''login'', ''reauth''}" "\<forall>i. acc = Some i \<longrightarrow> accounts_get i d \<noteq> None"
  shows "hidden (fst (magic_link_issue E a pu acc now d))"
proof -
  let ?ad = "if acc = None then Some a else None"
  obtain y d' where y: "issue_token E (ae_random E 2 d) pu (now + magic_link_ttl) acc ?ad now d = (y, d')" by fastforce
  have "hidden y"
    using fresh_token_is_issued [OF assms, of "now + magic_link_ttl" ?ad now] y by simp
  then show ?thesis using y by (cases y) (simp_all add: magic_link_issue_def Let_def write_tx_def)
qed

lemma link_target_ok:
  assumes "requested_link_target E address p d = Inr (Some t)"
  shows "lt_purpose t \<in> {''invite'', ''login'', ''reauth''}" "\<forall>i. lt_account t = Some i \<longrightarrow> accounts_get i d \<noteq> None"
proof -
  show "lt_purpose t \<in> {''invite'', ''login'', ''reauth''}"
    using assms by (auto simp: requested_link_target_def split: sum.splits option.splits if_splits)
  show "\<forall>i. lt_account t = Some i \<longrightarrow> accounts_get i d \<noteq> None"
  proof (intro allI impI)
    fix i assume "lt_account t = Some i"
    then obtain h a where a: "find (\<lambda>x. ac_lookup x = h) (c_accounts d) = Some a" "ac_id a = i"
      using assms by (auto simp: requested_link_target_def account_by_email_def split: sum.splits option.splits if_splits)
    have "a \<in> set (c_accounts d)" using find_Some_mem [OF a(1)] by simp
    then have "i \<in> set (map ac_id (c_accounts d))" using a(2) by auto
    then show "accounts_get i d \<noteq> None" unfolding accounts_get_def by (simp only: tbl_get_None_iff not_not)
  qed
qed

lemma link_target_error: "hidden (requested_link_target E address p d)"
  using normalize_email_error
  by (auto simp: requested_link_target_def account_by_email_def email_lookup_def split: sum.splits option.splits)

lemma session_of_cookie_Inr: "\<exists>s d1. session_of_cookie E q now d = (Inr s, d1)"
  by (auto simp: session_of_cookie_def write_tx_def authenticate_session_def Let_def split: option.split)

lemma requested_link_is_issued:
  assumes "fresh_tokens E"
  shows "hidden (fst (issue_requested_link E q address now d))"
proof -
  obtain s d1 where s: "session_of_cookie E q now d = (Inr s, d1)" using session_of_cookie_Inr by blast
  show ?thesis
  proof (cases "requested_link_target E address (map_option cs_account s) d1")
    case (Inl e)
    then show ?thesis using s link_target_error [of E address "map_option cs_account s" d1] by (simp add: issue_requested_link_def)
  next
    case (Inr t)
    show ?thesis
    proof (cases t)
      case (Some x)
      obtain y d2 where y: "magic_link_issue E (lt_email x) (lt_purpose x) (lt_account x) now d1 = (y, d2)" by fastforce
      have "hidden y"
        using magic_link_is_issued [OF assms link_target_ok [OF Inr [unfolded Some]], of "lt_email x" now] y by simp
      then show ?thesis using s Inr Some y by (cases y) (simp_all add: issue_requested_link_def)
    qed (use s Inr in \<open>simp add: issue_requested_link_def\<close>)
  qed
qed

lemma rate_check_error: "hidden (fst (rate_check E kind i limit window now d))"
  by (auto simp: rate_check_def Let_def split: option.split)

text \<open>
  C21 (the sign-in form reveals nothing).  When ids and tokens are fresh, the answer to a request for a link
  is the same for every address, every state of the accounts and whether or not the mail is delivered: only the
  origin of the request decides it, and no exception gets past the three classes the route hides.
\<close>

theorem sign_in_form_reveals_nothing:
  assumes "fresh_tokens E"
  shows "fst (request_link E q address now d) = (if require_origin E q then Lr_accepted else Lr_forbidden)"
proof -
  obtain u1 d1 where 1: "rate_check E ''request-link-network'' (br_client q) 10 3600 now d = (u1, d1)" by fastforce
  obtain u2 d2 where 2: "rate_check E ''request-link-address'' address 5 3600 now d1 = (u2, d2)" by fastforce
  obtain m d3 where 3: "issue_requested_link E q address now d2 = (m, d3)" by fastforce
  have "hidden u1" "hidden u2" "hidden m"
    using rate_check_error [of E "''request-link-network''" "br_client q" 10 3600 now d]
      rate_check_error [of E "''request-link-address''" address 5 3600 now d1]
      requested_link_is_issued [OF assms, of q address now d2] 1 2 3 by simp_all
  then show ?thesis
    using 1 2 3 by (cases u1; cases u2; cases m; simp add: request_link_def)
qed

section \<open>Concrete inputs\<close>

definition sample_auth :: auth_env where
  "sample_auth = \<lparr>ae_uuid = (\<lambda>n d. CHR ''i'' # replicate n (CHR ''u'') @ concat (map ct_id (c_tokens d))),
     ae_random = (\<lambda>n d. if n = 0 then ''sess'' else if n = 1 then ''csrf'' else ''tok'' @ concat (map ct_hash (c_tokens d))),
     ae_digest = id, ae_lookup = id, ae_sha = (\<lambda>n. ''sha''), ae_nfkc = id, ae_slug = id, ae_zone = (\<lambda>z. True),
     ae_mailbox = (\<lambda>m. True), ae_origin = ''https://abrolia.test'', ae_signup = True,
     ae_delivers = (\<lambda>r u p d. True)\<rparr>"

definition sample_account :: cp_account where
  "sample_account = \<lparr>ac_id = ''a1'', ac_lookup = ''o@x.test'', ac_email = ''o@x.test'', ac_verified_at = 0,
     ac_status = ''active'', ac_created_at = 0, ac_updated_at = 0\<rparr>"

definition sample_house :: cp_household where
  "sample_house = \<lparr>ch_id = ''h1'', ch_status = ''active'', ch_revision = 1, ch_runtime_ref = None, ch_created_at = 0,
     ch_updated_at = 0, ch_deleted_at = None, ch_slug = ''hh-h1'', ch_language = Some ''de'',
     ch_timezone = Some ''Europe/Berlin'', ch_country = Some ''DE'', ch_residency = ''eu-app''\<rparr>"

definition sample_seat :: cp_membership where
  "sample_seat = \<lparr>cm_account = ''a1'', cm_household = ''h1'', cm_role = ''owner'', cm_status = ''active'', cm_created_at = 0\<rparr>"

definition sample_accounts :: cpdb where
  "sample_accounts = empty_cpdb\<lparr>c_accounts := [sample_account], c_households := [sample_house], c_memberships := [sample_seat]\<rparr>"

definition sample_token :: "time option \<Rightarrow> nat \<Rightarrow> cp_token" where
  "sample_token used n = \<lparr>ct_id = ''iuuu'', ct_hash = ''tok'', ct_purpose = ''login'', ct_account = Some ''a1'', ct_email = None,
     ct_expires_at = 900, ct_used_at = used, ct_attempts = n, ct_created_at = 0\<rparr>"

definition sample_session :: cp_session where
  "sample_session = \<lparr>cs_id = ''iuuuuiuuu'', cs_hash = ''sess'', cs_account = ''a1'', cs_csrf = ''csrf'', cs_idle = 5 + session_idle_ttl,
     cs_absolute = 5 + session_absolute_ttl, cs_reauth = 5, cs_seen = 5, cs_revoked = None, cs_created_at = 5\<rparr>"

definition sample_login :: login where
  "sample_login = \<lparr>lg_account = sample_account, lg_household = sample_house, lg_session = \<lparr>is_id = ''iuuuuiuuu'', is_token = ''sess'',
     is_csrf = ''csrf'', is_account = ''a1'', is_idle = 5 + session_idle_ttl, is_absolute = 5 + session_absolute_ttl\<rparr>\<rparr>"

definition sample_issued :: cpdb where "sample_issued = sample_accounts\<lparr>c_tokens := [sample_token None 0]\<rparr>"

definition sample_signed_in :: cpdb where
  "sample_signed_in = sample_accounts\<lparr>c_tokens := [sample_token (Some 5) 1], c_sessions := [sample_session]\<rparr>"

lemma sample_auth_tokens [simp]:
  "ae_random sample_auth 2 sample_accounts = ''tok''" "ae_digest sample_auth x = x"
  by (simp_all add: sample_auth_def sample_accounts_def)

lemma sample_link: "\<exists>m. magic_link_issue sample_auth ''o@x.test'' ''login'' (Some ''a1'') 0 sample_accounts = (Inr m, sample_issued)"
  by (simp add: magic_link_issue_def issue_token_def write_tx_def Let_def sample_auth_def sample_accounts_def sample_issued_def
      sample_token_def accounts_get_def tbl_get_Cons sample_account_def magic_link_ttl_def numeral_3_eq_3 empty_cpdb_def)

lemma sample_sign_in: "consume_magic_link sample_auth ''tok'' None 5 sample_issued = (Inr sample_login, sample_signed_in)"
proof -
  have t: "consume_token_in sample_auth ''tok'' None 5 sample_issued = (Inr (sample_token None 0), sample_accounts\<lparr>c_tokens := [sample_token (Some 5) 1]\<rparr>)"
    by (simp add: consume_token_in_def sample_issued_def sample_token_def)
  have a: "login_account (sample_token None 0) (sample_accounts\<lparr>c_tokens := [sample_token (Some 5) 1]\<rparr>) = Inr (sample_account, sample_house)"
    by (simp add: login_account_def sample_token_def accounts_get_def tbl_get_Cons sample_accounts_def sample_account_def
        current_for_account_def for_account_def active_in_def sample_house_def sample_seat_def)
  have s: "session_issue sample_auth ''a1'' 5 (sample_accounts\<lparr>c_tokens := [sample_token (Some 5) 1]\<rparr>) =
      (Inr (lg_session sample_login), sample_signed_in)"
    by (simp add: session_issue_def create_session_def Let_def sample_auth_def sample_accounts_def sample_signed_in_def sample_login_def
        sample_session_def sample_token_def accounts_get_def tbl_get_Cons sample_account_def session_idle_ttl_def
        session_absolute_ttl_def numeral_eq_Suc empty_cpdb_def)
  show ?thesis
    using t a s by (simp add: consume_magic_link_def write_tx_def consume_magic_link_in_def end_previous_def sample_token_def
        sample_account_def sample_login_def)
qed

lemma magic_link_opens_one_session_witness:
  "fst (consume_magic_link sample_auth ''tok'' None 9 sample_signed_in) = Inl (Invalid_credential ''invalid or expired magic link'')"
proof -
  obtain m where m: "magic_link_issue sample_auth ''o@x.test'' ''login'' (Some ''a1'') 0 sample_accounts = (Inr m, sample_issued)"
    using sample_link by blast
  show ?thesis
    using magic_link_opens_one_session [OF m, where ops = "[]" and ?ops2.0 = "[]" and previous = None and now = 5
        and ?previous2.0 = None and ?now2.0 = 9] sample_sign_in by simp
qed

lemma a_session_ends_witness:
  "\<exists>s d. authenticate_session sample_auth ''sess'' 10 session_idle_ttl sample_signed_in = (Inr s, d) \<and> cs_account s = ''a1'' \<and>
    (10::real) < 5 + session_absolute_ttl"
proof -
  obtain s d where a: "authenticate_session sample_auth ''sess'' 10 session_idle_ttl sample_signed_in = (Inr s, d)"
    by (simp add: authenticate_session_def sample_signed_in_def sample_accounts_def sample_account_def sample_session_def
        session_valid_def session_idle_ttl_def session_absolute_ttl_def Let_def)
  show ?thesis
    using a a_session_ends [OF sample_sign_in, where ops = "[]" and now = 10 and ttl = session_idle_ttl] 
    by (simp add: sample_login_def sample_account_def)
qed

lemma limit_bounds_every_interval_witness:
  "let_through sample_auth (\<lambda>k. (2, 60)) (''consume'', ''x'') 5 (map (\<lambda>t. ((''consume'', ''x''), t)) [0, 10, 20, 59, 60, 61, 62]) empty_cpdb \<le> 4"
proof -
  have one: "bucket_of sample_auth kj = bucket_of sample_auth (''consume'', ''x'') \<Longrightarrow> kj = (''consume'', ''x'')" for kj
  proof -
    assume "bucket_of sample_auth kj = bucket_of sample_auth (''consume'', ''x'')"
    then have "''consume'' @ CHR '':'' # ''x'' = fst kj @ CHR '':'' # snd kj" by (simp add: bucket_of_def)
    then have "fst kj = ''consume'' \<and> snd kj = ''x''"
      by (subst (asm) append_Cons_eq_iff) auto
    then show ?thesis by (simp add: prod_eq_iff)
  qed
  have "let_through sample_auth (\<lambda>k. (2, 60)) (''consume'', ''x'') 5 (map (\<lambda>t. ((''consume'', ''x''), t)) [0, 10, 20, 59, 60, 61, 62]) empty_cpdb
      \<le> 2 * fst ((\<lambda>k. (2::nat, 60::real)) (fst (''consume'', ''x'')))"
    by (rule limit_bounds_every_interval [OF one]) simp_all
  then show ?thesis by (simp del: let_through.simps list.map)
qed

lemma one_household_per_account_witness:
  "length (for_account ''a1'' (fold (auth_step sample_auth) [Ao_household ''a1'' ''key'' 0 7] sample_accounts)) \<le> 1"
  by (rule one_household_per_account)
    (simp add: homes_ok_def sample_accounts_def sample_seat_def sample_house_def active_in_def)

lemma concat_bounds: "x \<in> set xs \<Longrightarrow> length x \<le> length (concat xs)"
  by (induction xs) auto

lemma sign_in_form_reveals_nothing_witness:
  "fst (request_link sample_auth \<lparr>br_origin = Some ''https://abrolia.test'', br_cookie = [], br_csrf = [], br_client = ''c''\<rparr>
     ''nobody@x.test'' 3 sample_accounts) = Lr_accepted"
proof -
  have new: "c # ys @ concat xs \<notin> set xs" for c ys and xs :: "string list"
  proof
    assume "c # ys @ concat xs \<in> set xs"
    then show False using concat_bounds by fastforce
  qed
  have "ae_uuid sample_auth 3 d \<notin> ct_id ` set (c_tokens d) \<and> ae_digest sample_auth (ae_random sample_auth 2 d) \<notin> ct_hash ` set (c_tokens d)" for d
    using new [of "CHR ''i''" "replicate 3 (CHR ''u'')" "map ct_id (c_tokens d)"] new [of "CHR ''t''" "''ok''" "map ct_hash (c_tokens d)"]
    by (simp add: sample_auth_def)
  then have "fresh_tokens sample_auth" by (simp add: fresh_tokens_def)
  then show ?thesis by (simp add: sign_in_form_reveals_nothing require_origin_def sample_auth_def)
qed

end
