(* ===== verification/EmailIdentity.thy ===== *)
theory EmailIdentity
  imports Jobs Accounts
begin

text \<open>
  \<open>control_plane/email/repository.py\<close>, \<open>email/service.py\<close>, \<open>email/local_part.py\<close> and
  \<open>owners.py\<close>: the mailbox a household chose, its reservation, and what happens to both until the
  mailbox is active or torn down.  The canonical form of a domain (IDNA and the public suffix list) and
  the check for secret-shaped fields are parameters.
\<close>

section \<open>Local parts\<close>

definition lower_alnum :: "char \<Rightarrow> bool" where
  "lower_alnum c \<longleftrightarrow> (let n = of_char c :: nat in 97 \<le> n \<and> n \<le> 122 \<or> 48 \<le> n \<and> n \<le> 57)"

definition local_sep :: "char \<Rightarrow> bool" where "local_sep c \<longleftrightarrow> c \<in> {CHR ''.'', CHR ''_'', CHR ''-''}"

text \<open>The expression \<open>[a-z0-9]+(?:[._-][a-z0-9]+)*\<close> over the whole string.\<close>

fun local_form :: "bool \<Rightarrow> string \<Rightarrow> bool" where
  "local_form inside [] = inside"
| "local_form inside (c # cs) = (if lower_alnum c then local_form True cs else local_sep c \<and> inside \<and> local_form False cs)"

definition reserved_local_parts :: "string list" where
  "reserved_local_parts = [''abuse'', ''admin'', ''billing'', ''hello'', ''no-reply'', ''noreply'', ''postmaster'', ''privacy'',
     ''security'', ''support'', ''team'', ''webmaster'']"

datatype email_error =
    Email_value string
  | Mailbox_refused string
  | Email_integrity string

definition normalize_local_part :: "string \<Rightarrow> email_error + string" where
  "normalize_local_part value =
     (let s = py_lower (py_strip value)
      in if length s < 3 \<or> 48 < length s \<or> \<not> local_form False s
         then Inl (Email_value ''local part must be 3-48 lowercase ASCII characters'')
         else if s \<in> set reserved_local_parts then Inl (Email_value ''local part is reserved'') else Inr s)"

definition rstrip_seps :: "string \<Rightarrow> string" where
  "rstrip_seps s = rev (dropWhile local_sep (rev s))"

definition collision_candidate :: "string \<Rightarrow> nat \<Rightarrow> email_error + string" where
  "collision_candidate base sequence =
     (if sequence < 2 then normalize_local_part base
      else let suffix = nat_digits sequence
           in case normalize_local_part base of
                Inl e \<Rightarrow> Inl e
              | Inr b \<Rightarrow> normalize_local_part (rstrip_seps (take (48 - length suffix) b) @ suffix))"

section \<open>Environment\<close>

record email_env =
  ee_auth :: auth_env
  ee_uuid :: "nat \<Rightarrow> cpdb \<Rightarrow> uid"
  ee_domain :: "string \<Rightarrow> string option"
  ee_public :: "json \<Rightarrow> string option \<Rightarrow> string list \<Rightarrow> bool"

definition reservation_ttl :: real where "reservation_ttl = 15 * 60"
definition relay_prefix :: string where "relay_prefix = ''fwd-''"

definition lookup_of :: "email_env \<Rightarrow> string \<Rightarrow> email_error + string" where
  "lookup_of E address =
     (case normalize_email (ee_auth E) address of
        Inl e \<Rightarrow> Inl (Email_value ''invalid email address'') | Inr a \<Rightarrow> Inr (ae_lookup (ee_auth E) a))"

definition local_of :: "string \<Rightarrow> string" where "local_of a = takeWhile (\<lambda>c. c \<noteq> CHR ''@'') a"
definition domain_of :: "string \<Rightarrow> string" where "domain_of a = tl (dropWhile (\<lambda>c. c \<noteq> CHR ''@'') a)"

section \<open>The rows' constraints\<close>

definition live_email :: "email_status \<Rightarrow> bool" where
  "live_email s \<longleftrightarrow> s \<notin> {Ei_disconnecting, Ei_deleted}"

text \<open>The three partial unique indexes: a live mailbox per household, an address of a live mailbox, an owned domain.\<close>

definition email_collides :: "cp_email \<Rightarrow> cp_email \<Rightarrow> bool" where
  "email_collides x y \<longleftrightarrow>
     live_email (eid_status x) \<and> live_email (eid_status y) \<and> eid_household x = eid_household y
   \<or> live_email (eid_status x) \<and> live_email (eid_status y) \<and> eid_lookup x \<noteq> None \<and> eid_lookup x = eid_lookup y
   \<or> eid_option x = Eo_domain \<and> eid_option y = Eo_domain \<and> eid_domain x \<noteq> None \<and> eid_domain x = eid_domain y
       \<and> eid_status x \<noteq> Ei_deleted \<and> eid_status y \<noteq> Ei_deleted"

definition email_get :: "uid \<Rightarrow> cpdb \<Rightarrow> cp_email option" where
  "email_get i d = tbl_get eid_id i (c_emails d)"

definition newest_email :: "(cp_email \<Rightarrow> bool) \<Rightarrow> cp_email list \<Rightarrow> cp_email option" where
  "newest_email P T = tbl_first (\<lambda>r. - eid_created_at r) P T"

definition current_for_household :: "uid \<Rightarrow> cpdb \<Rightarrow> cp_email option" where
  "current_for_household hh d = newest_email (\<lambda>r. eid_household r = hh \<and> live_email (eid_status r)) (c_emails d)"

section \<open>Choosing a mailbox\<close>

definition reservation_free :: "time \<Rightarrow> cp_reservation \<Rightarrow> bool" where
  "reservation_free now r \<longleftrightarrow>
     rsv_status r \<in> {Rv_released, Rv_expired} \<or> rsv_status r = Rv_held \<and> rsv_expires_at r \<le> now"

text \<open>The upsert of a reservation, and its row count.\<close>

definition reserve :: "cp_reservation \<Rightarrow> cp_reservation list \<Rightarrow> nat \<times> cp_reservation list" where
  "reserve r T =
     (let same = (\<lambda>x. rsv_domain x = rsv_domain r \<and> rsv_local x = rsv_local r)
      in if \<exists>x \<in> set T. same x
         then (tbl_count (\<lambda>x. same x \<and> reservation_free (rsv_created_at r) x) T,
               tbl_update (\<lambda>x. same x \<and> reservation_free (rsv_created_at r) x) (\<lambda>x. r) T)
         else (1, T @ [r]))"

definition legacy_claim :: "string \<Rightarrow> cpdb \<Rightarrow> bool" where
  "legacy_claim domain d \<longleftrightarrow>
     (\<exists>r \<in> set (c_reservations d). \<exists>i \<in> set (c_emails d). eid_id i = rsv_identity r \<and> rsv_domain r = domain \<and>
        eid_option i = Eo_domain \<and> eid_status i \<noteq> Ei_deleted)"

definition selected_row ::
  "email_env \<Rightarrow> uid \<Rightarrow> email_option \<Rightarrow> string option \<Rightarrow> string option \<Rightarrow> time \<Rightarrow> cpdb \<Rightarrow> cp_email" where
  "selected_row E hh opt address domain now d =
     \<lparr>eid_id = ee_uuid E 0 d, eid_household = hh, eid_option = opt, eid_status = Ei_selected, eid_address = address,
      eid_lookup = map_option (ae_lookup (ee_auth E)) address, eid_domain = domain, eid_subject = None, eid_refs = JObj [],
      eid_secret_binding = None, eid_scopes = [], eid_version = 1, eid_verified_at = None, eid_activated_at = None,
      eid_disconnected_at = None, eid_created_at = now, eid_updated_at = now\<rparr>"

definition insert_email :: "cp_email \<Rightarrow> cpdb \<Rightarrow> (email_error + cp_email) \<times> cpdb" where
  "insert_email r d =
     (if eid_id r \<in> eid_id ` set (c_emails d) \<or> households_get (eid_household r) d = None
         \<or> (\<exists>x \<in> set (c_emails d). email_collides x r) \<or> eid_option r = Eo_domain \<and> eid_domain r = None
      then (Inl (Email_integrity ''constraint''), d)
      else (Inr r, d\<lparr>c_emails := c_emails d @ [r]\<rparr>))"

definition hold_address :: "email_env \<Rightarrow> cp_email \<Rightarrow> time \<Rightarrow> cpdb \<Rightarrow> (email_error + cp_email) \<times> cpdb" where
  "hold_address E r now d =
     (case eid_address r of
        None \<Rightarrow> (Inr r, d)
      | Some a \<Rightarrow>
          (case normalize_local_part (local_of a) of
             Inl e \<Rightarrow> (Inl e, d)
           | Inr l \<Rightarrow>
               (case reserve \<lparr>rsv_id = ee_uuid E 1 d, rsv_domain = domain_of a, rsv_local = l, rsv_household = eid_household r,
                       rsv_identity = eid_id r, rsv_status = Rv_held, rsv_expires_at = now + reservation_ttl,
                       rsv_created_at = now, rsv_consumed_at = None\<rparr> (c_reservations d) of
                  (n, T) \<Rightarrow> if n \<noteq> 1 then (Inl (Email_integrity ''email address is already reserved''), d)
                            else (Inr r, d\<lparr>c_reservations := T\<rparr>))))"

definition prepare_row ::
  "email_env \<Rightarrow> uid \<Rightarrow> email_option \<Rightarrow> string option \<Rightarrow> time \<Rightarrow> cpdb \<Rightarrow> email_error + cp_email" where
  "prepare_row E hh opt address now d =
     (if opt = Eo_domain \<and> address = None then Inl (Email_value ''owned-domain identities require a mailbox address'')
      else if \<exists>x \<in> set (c_emails d). eid_household x = hh \<and> eid_status x = Ei_disconnecting
      then Inl (Email_value ''email cleanup must finish before reconnect'')
      else case address of
        None \<Rightarrow> Inr (selected_row E hh opt None None now d)
      | Some raw \<Rightarrow>
          (case normalize_email (ee_auth E) raw of
             Inl e \<Rightarrow> Inl (Email_value ''invalid email address'')
           | Inr a \<Rightarrow>
               if opt \<noteq> Eo_domain then Inr (selected_row E hh opt (Some a) None now d)
               else (case ee_domain E (domain_of a) of
                  None \<Rightarrow> Inl (Email_value ''domain'')
                | Some domain \<Rightarrow>
                    if legacy_claim domain d then Inl (Email_integrity ''email domain is already claimed'')
                    else Inr (selected_row E hh opt (Some a) (Some (ae_lookup (ee_auth E) (''email-domain:'' @ domain))) now d))))"

definition create_selected ::
  "email_env \<Rightarrow> uid \<Rightarrow> email_option \<Rightarrow> string option \<Rightarrow> time \<Rightarrow> cpdb \<Rightarrow> (email_error + cp_email) \<times> cpdb" where
  "create_selected E hh opt address now d =
     (case prepare_row E hh opt address now d of
        Inl e \<Rightarrow> (Inl e, d)
      | Inr row \<Rightarrow>
          (case insert_email row d of
             (Inl e, d1) \<Rightarrow> (Inl e, d1)
           | (Inr r, d1) \<Rightarrow> hold_address E r now d1))"

definition address_available :: "email_env \<Rightarrow> string \<Rightarrow> string \<Rightarrow> time \<Rightarrow> cpdb \<Rightarrow> email_error + bool" where
  "address_available E domain local_part now d =
     (case normalize_local_part local_part of
        Inl e \<Rightarrow> Inl e
      | Inr l \<Rightarrow>
          let dm = rstrip_dots (py_lower (py_strip domain))
          in case lookup_of E (l @ ''@'' @ dm) of
               Inl e \<Rightarrow> Inl e
             | Inr h \<Rightarrow>
                 Inr (if \<exists>x \<in> set (c_emails d). eid_lookup x = Some h \<and> eid_status x \<noteq> Ei_deleted then False
                      else case find (\<lambda>r. rsv_domain r = dm \<and> rsv_local r = l) (c_reservations d) of
                             None \<Rightarrow> True | Some r \<Rightarrow> reservation_free now r))"

section \<open>The life of a mailbox\<close>

definition move_email :: "(cp_email \<Rightarrow> bool) \<Rightarrow> email_status \<Rightarrow> time \<Rightarrow> cpdb \<Rightarrow> cpdb" where
  "move_email P status now d =
     d\<lparr>c_emails := tbl_update P (\<lambda>r. r\<lparr>eid_status := status, eid_version := eid_version r + 1, eid_updated_at := now\<rparr>) (c_emails d)\<rparr>"

definition mark_provisioning :: "uid \<Rightarrow> time \<Rightarrow> cpdb \<Rightarrow> cpdb" where
  "mark_provisioning i = move_email (\<lambda>r. eid_id r = i \<and> eid_status r = Ei_selected) Ei_provisioning"

definition retry_provisioning :: "uid \<Rightarrow> time \<Rightarrow> cpdb \<Rightarrow> (email_error + unit) \<times> cpdb" where
  "retry_provisioning i now d =
     (let P = (\<lambda>r. eid_id r = i \<and> eid_status r \<in> {Ei_provisioning, Ei_waiting_user, Ei_needs_attention, Ei_outcome_unknown})
      in if tbl_count P (c_emails d) \<noteq> 1 then (Inl (Email_value ''email identity cannot be retried from its current state''), d)
         else (Inr (), move_email P Ei_provisioning now d))"

definition mark_problem :: "uid \<Rightarrow> email_status \<Rightarrow> time \<Rightarrow> cpdb \<Rightarrow> (email_error + unit) \<times> cpdb" where
  "mark_problem i status now d =
     (if status \<notin> {Ei_waiting_user, Ei_needs_attention, Ei_outcome_unknown}
      then (Inl (Email_value ''invalid email identity problem state''), d)
      else (Inr (), move_email (\<lambda>r. eid_id r = i \<and> live_email (eid_status r)) status now d))"

record verified_mailbox =
  vm_address :: string
  vm_subject :: "string option"
  vm_refs :: json
  vm_secret :: "string option"
  vm_scopes :: "string list"

definition verifiable :: "email_status \<Rightarrow> bool" where
  "verifiable s \<longleftrightarrow> s \<in> {Ei_selected, Ei_provisioning, Ei_waiting_user, Ei_outcome_unknown}"

definition verified_row :: "email_env \<Rightarrow> verified_mailbox \<Rightarrow> string \<Rightarrow> time \<Rightarrow> cp_email \<Rightarrow> cp_email" where
  "verified_row E m a now r =
     r\<lparr>eid_status := Ei_verified, eid_address := Some a, eid_lookup := Some (ae_lookup (ee_auth E) a),
       eid_subject := str_or_none (vm_subject m), eid_refs := vm_refs m, eid_secret_binding := vm_secret m,
       eid_scopes := sort (remdups (vm_scopes m)), eid_verified_at := Some now, eid_version := eid_version r + 1,
       eid_updated_at := now\<rparr>"

definition domain_mismatch :: "email_env \<Rightarrow> cp_email \<Rightarrow> string \<Rightarrow> email_error option" where
  "domain_mismatch E r a =
     (case eid_domain r of
        None \<Rightarrow> None
      | Some h \<Rightarrow>
          (case ee_domain E (domain_of a) of
             None \<Rightarrow> Some (Email_value ''domain'')
           | Some dm \<Rightarrow> if h \<noteq> ae_lookup (ee_auth E) (''email-domain:'' @ dm)
               then Some (Email_value ''provider address does not match the claimed domain'') else None))"

definition verify_check :: "email_env \<Rightarrow> uid \<Rightarrow> verified_mailbox \<Rightarrow> time \<Rightarrow> cpdb \<Rightarrow> email_error + string" where
  "verify_check E i m now d =
     (if \<not> ee_public E (vm_refs m) (vm_secret m) (vm_scopes m) then Inl (Email_value ''secret field'')
      else case normalize_email (ee_auth E) (vm_address m) of
        Inl e \<Rightarrow> Inl (Email_value ''invalid email address'')
      | Inr a \<Rightarrow>
          (case email_get i d of
             None \<Rightarrow> Inl (Email_value ''email identity does not exist'')
           | Some r \<Rightarrow>
               if eid_lookup r \<noteq> None \<and> eid_lookup r \<noteq> Some (ae_lookup (ee_auth E) a)
               then Inl (Email_value ''provider address does not match the selected mailbox'')
               else (case domain_mismatch E r a of
                  Some e \<Rightarrow> Inl e
                | None \<Rightarrow>
                    if \<not> verifiable (eid_status r)
                    then Inl (Email_value ''email identity is not verifiable from its current state'')
                    else if \<exists>x \<in> set (c_emails d). eid_id x \<noteq> i \<and> email_collides x (verified_row E m a now r)
                    then Inl (Email_integrity ''constraint'')
                    else Inr a)))"

definition mark_verified :: "email_env \<Rightarrow> uid \<Rightarrow> verified_mailbox \<Rightarrow> time \<Rightarrow> cpdb \<Rightarrow> (email_error + unit) \<times> cpdb" where
  "mark_verified E i m now d =
     (case verify_check E i m now d of
        Inl e \<Rightarrow> (Inl e, d)
      | Inr a \<Rightarrow> (Inr (), d\<lparr>c_emails := tbl_update (\<lambda>x. eid_id x = i) (verified_row E m a now) (c_emails d),
           c_reservations := tbl_update (\<lambda>x. rsv_identity x = i \<and> rsv_status x = Rv_held)
             (\<lambda>x. x\<lparr>rsv_status := Rv_consumed, rsv_consumed_at := Some now\<rparr>) (c_reservations d)\<rparr>))"

definition begin_disconnect :: "uid \<Rightarrow> time \<Rightarrow> cpdb \<Rightarrow> cpdb" where
  "begin_disconnect hh = move_email (\<lambda>r. eid_household r = hh \<and> live_email (eid_status r)) Ei_disconnecting"

definition begin_activation :: "uid \<Rightarrow> time \<Rightarrow> cpdb \<Rightarrow> (email_error + unit) \<times> cpdb" where
  "begin_activation i now d =
     (let P = (\<lambda>r. eid_id r = i \<and> eid_status r = Ei_verified)
      in if tbl_count P (c_emails d) \<noteq> 1 then (Inl (Email_value ''only a verified email identity can activate''), d)
         else (Inr (), move_email P Ei_activating now d))"

definition hex_char :: "char \<Rightarrow> bool" where "hex_char c \<longleftrightarrow> c \<in> set ''0123456789abcdef''"

definition activation_status :: "string \<Rightarrow> string \<Rightarrow> email_status" where
  "activation_status inbound outbound =
     (if ''failed'' \<in> {inbound, outbound} then Ei_needs_attention
      else if {inbound, outbound} = {''healthy''} then Ei_active else Ei_activating)"

definition put_activation :: "cp_activation \<Rightarrow> cp_activation list \<Rightarrow> cp_activation list" where
  "put_activation r T =
     (let same = (\<lambda>x. eac_identity x = eac_identity r \<and> eac_revision x = eac_revision r)
      in if \<exists>x \<in> set T. same x then tbl_update same (\<lambda>x. r) T else T @ [r])"

definition receipt_refusal :: "uid \<Rightarrow> nat \<Rightarrow> string \<Rightarrow> string \<Rightarrow> string \<Rightarrow> cpdb \<Rightarrow> email_error option" where
  "receipt_refusal i revision inbound outbound digest d =
     (if \<not> {inbound, outbound} \<subseteq> {''pending'', ''healthy'', ''failed''} then Some (Email_value ''invalid activation check'')
      else if length digest \<noteq> 64 \<or> \<not> list_all hex_char digest then Some (Email_value ''invalid activation receipt digest'')
      else if email_get i d = None \<or> revision = 0 then Some (Email_integrity ''constraint'') else None)"

definition receipt_row :: "email_status \<Rightarrow> time \<Rightarrow> cp_email \<Rightarrow> cp_email" where
  "receipt_row status now r =
     r\<lparr>eid_status := status, eid_activated_at := (if status = Ei_active then Some now else eid_activated_at r),
       eid_version := eid_version r + 1, eid_updated_at := now\<rparr>"

definition record_activation_receipt ::
  "uid \<Rightarrow> nat \<Rightarrow> string \<Rightarrow> string \<Rightarrow> string \<Rightarrow> string \<Rightarrow> string \<Rightarrow> time \<Rightarrow> cpdb \<Rightarrow> (email_error + email_status) \<times> cpdb" where
  "record_activation_receipt i revision runtime_ref provider inbound outbound digest now d =
     (case receipt_refusal i revision inbound outbound digest d of
        Some e \<Rightarrow> (Inl e, d)
      | None \<Rightarrow>
          let status = activation_status inbound outbound
          in (Inr status, d\<lparr>c_activations := put_activation \<lparr>eac_identity = i, eac_revision = revision,
                 eac_runtime_ref = runtime_ref, eac_provider = provider, eac_inbound = inbound, eac_outbound = outbound,
                 eac_checked_at = now, eac_digest = digest, eac_status = status\<rparr> (c_activations d),
               c_emails := tbl_update (\<lambda>r. eid_id r = i \<and> eid_status r \<in> {Ei_verified, Ei_activating, Ei_active, Ei_needs_attention})
                 (receipt_row status now) (c_emails d)\<rparr>))"

text \<open>What still stands between a disconnecting mailbox and its end.\<close>

definition cleanup_pending :: "uid \<Rightarrow> cpdb \<Rightarrow> bool" where
  "cleanup_pending hh d \<longleftrightarrow>
     (\<exists>j \<in> set (c_jobs d). jb_household j = hh \<and> jb_kind j = ''bootstrap_cleanup'' \<and>
        jb_operation j = ''delete_email_secret'' \<and> jb_status j \<noteq> Jb_succeeded)
   \<or> (\<exists>j \<in> set (c_jobs d). jb_household j = hh \<and> jb_kind j = ''email_identity'' \<and>
        jb_status j \<in> {Jb_pending, Jb_running, Jb_waiting_user, Jb_outcome_unknown})
   \<or> (\<exists>r \<in> set (c_resources d). res_household r = hh \<and> res_type r = ''email_identity'' \<and> res_status r \<noteq> Er_deleted)"

definition finish_disconnect :: "uid \<Rightarrow> time \<Rightarrow> cpdb \<Rightarrow> bool \<times> cpdb" where
  "finish_disconnect i now d =
     (case find (\<lambda>r. eid_id r = i \<and> eid_status r = Ei_disconnecting) (c_emails d) of
        None \<Rightarrow> (False, d)
      | Some r \<Rightarrow>
          if cleanup_pending (eid_household r) d then (False, d)
          else (True, d\<lparr>c_emails := tbl_update (\<lambda>x. eid_id x = i \<and> eid_status x = Ei_disconnecting)
                  (\<lambda>x. x\<lparr>eid_status := Ei_deleted, eid_disconnected_at := Some now, eid_version := eid_version x + 1,
                         eid_updated_at := now\<rparr>) (c_emails d),
                c_reservations := tbl_update (\<lambda>x. rsv_identity x = i \<and> rsv_status x \<in> {Rv_held, Rv_consumed})
                  (\<lambda>x. x\<lparr>rsv_status := Rv_released\<rparr>) (c_reservations d)\<rparr>))"

definition expire_reservations :: "time \<Rightarrow> cpdb \<Rightarrow> nat \<times> cpdb" where
  "expire_reservations now d =
     (let P = (\<lambda>x. rsv_status x = Rv_held \<and> rsv_expires_at x \<le> now)
      in (tbl_count P (c_reservations d), d\<lparr>c_reservations := tbl_update P (\<lambda>x. x\<lparr>rsv_status := Rv_expired\<rparr>) (c_reservations d)\<rparr>))"

section \<open>The service\<close>

definition active_owner :: "uid \<Rightarrow> cp_account \<Rightarrow> cpdb \<Rightarrow> bool" where
  "active_owner hh a d \<longleftrightarrow> ac_status a = ''active'' \<and>
     (\<exists>m \<in> set (c_memberships d). cm_account m = ac_id a \<and> cm_household m = hh \<and> cm_role m = ''owner'' \<and> cm_status m = ''active'')"

definition fallback_owner :: "uid \<Rightarrow> cpdb \<Rightarrow> uid option" where
  "fallback_owner hh d =
     (let owners = [(cm_created_at m, ac_id a). a \<leftarrow> c_accounts d, ac_status a = ''active'', m \<leftarrow> c_memberships d,
            cm_account m = ac_id a \<and> cm_household m = hh \<and> cm_role m = ''owner'' \<and> cm_status m = ''active'']
      in map_option snd (tbl_first id (\<lambda>x. True) owners))"

definition owner_contact :: "email_env \<Rightarrow> uid \<Rightarrow> string \<Rightarrow> cpdb \<Rightarrow> email_error + bool" where
  "owner_contact E hh address d =
     (case lookup_of E address of
        Inl e \<Rightarrow> Inl e
      | Inr h \<Rightarrow> Inr (\<exists>a \<in> set (c_accounts d). active_owner hh a d \<and> ac_lookup a = h))"

datatype email_choice =
    Choose_managed string
  | Choose_gmail
  | Choose_domain string string

definition choice_option :: "email_choice \<Rightarrow> email_option" where
  "choice_option c = (case c of Choose_managed l \<Rightarrow> Eo_managed | Choose_gmail \<Rightarrow> Eo_gmail | Choose_domain l m \<Rightarrow> Eo_domain)"

definition choice_address :: "email_choice \<Rightarrow> email_error + string option" where
  "choice_address c =
     (case c of
        Choose_gmail \<Rightarrow> Inr None
      | Choose_managed l \<Rightarrow>
          (case normalize_local_part l of
             Inl e \<Rightarrow> Inl e
           | Inr n \<Rightarrow> if take 4 n = relay_prefix then Inl (Mailbox_refused ''that address form is reserved; choose another'')
                      else Inr (Some (n @ ''@abrolia.com'')))
      | Choose_domain l dm \<Rightarrow> (case normalize_local_part l of Inl e \<Rightarrow> Inl e | Inr n \<Rightarrow> Inr (Some (n @ ''@'' @ dm))))"

definition select_email :: "email_env \<Rightarrow> uid \<Rightarrow> email_choice \<Rightarrow> time \<Rightarrow> cpdb \<Rightarrow> (email_error + cp_email) \<times> cpdb" where
  "select_email E hh c now d =
     (case choice_address c of
        Inl e \<Rightarrow> (Inl e, d)
      | Inr address \<Rightarrow>
          (case (case address of None \<Rightarrow> Inr False | Some a \<Rightarrow> owner_contact E hh a d) of
             Inl e \<Rightarrow> (Inl e, d)
           | Inr True \<Rightarrow> (Inl (Mailbox_refused ''that mailbox is an owner's own contact address (self-ingestion loop)''), d)
           | Inr False \<Rightarrow>
               (case create_selected E hh (choice_option c) address now d of
                  (Inl (Email_integrity m), d') \<Rightarrow> (Inl (Mailbox_refused ''that assistant address is already taken; choose another''), d')
                | (Inl e, d') \<Rightarrow> (Inl e, d')
                | (Inr r, d') \<Rightarrow>
                    let d2 = mark_provisioning (eid_id r) now d'
                    in (case email_get (eid_id r) d2 of None \<Rightarrow> (Inr r, d2) | Some r2 \<Rightarrow> (Inr r2, d2)))))"

definition suggestion_attempts :: nat where "suggestion_attempts = 20"

definition suggest :: "email_env \<Rightarrow> string \<Rightarrow> time \<Rightarrow> cpdb \<Rightarrow> string" where
  "suggest E base now d =
     (case filter (\<lambda>c. address_available E ''abrolia.com'' c now d = Inr True)
         (List.map_filter (\<lambda>n. case collision_candidate base n of Inl e \<Rightarrow> None | Inr c \<Rightarrow> Some c) [1..<suggestion_attempts + 1]) of
        [] \<Rightarrow> base | c # _ \<Rightarrow> c)"

end
