(* ===== verification/EmailLaws.thy ===== *)
theory EmailLaws
  imports EmailIdentity AccountLaws
begin

text \<open>
  Laws of the mailboxes: no two live mailboxes share a household or an address, and no two that are not deleted
  an owned domain; an address that was verified stays with its household until the teardown is over; an address
  whose reservation lapsed before that is given away while the old mailbox still exists.
\<close>

section \<open>A history of the mailboxes\<close>

text \<open>
  The operations of the mailboxes, in any order.  The teardown also reads the jobs and the provider resources,
  which the provisioning worker writes: \<open>Em_outside\<close> lets these two tables become anything between two steps.
\<close>

datatype email_op =
    Em_select uid email_choice time
  | Em_retry uid time
  | Em_problem uid email_status time
  | Em_verify uid verified_mailbox time
  | Em_disconnect uid time
  | Em_finish uid time
  | Em_activate uid time
  | Em_receipt uid nat string string string string string time
  | Em_expire time
  | Em_outside "cp_job list" "cp_resource list"

fun email_step :: "email_env \<Rightarrow> email_op \<Rightarrow> cpdb \<Rightarrow> cpdb" where
  "email_step E (Em_select hh c now) d = snd (write_tx (select_email E hh c now) d)"
| "email_step E (Em_retry i now) d = snd (retry_provisioning i now d)"
| "email_step E (Em_problem i status now) d = snd (mark_problem i status now d)"
| "email_step E (Em_verify i m now) d = snd (mark_verified E i m now d)"
| "email_step E (Em_disconnect hh now) d = begin_disconnect hh now d"
| "email_step E (Em_finish i now) d = snd (finish_disconnect i now d)"
| "email_step E (Em_activate i now) d = snd (begin_activation i now d)"
| "email_step E (Em_receipt i revision runtime provider inbound outbound digest now) d =
     snd (record_activation_receipt i revision runtime provider inbound outbound digest now d)"
| "email_step E (Em_expire now) d = snd (expire_reservations now d)"
| "email_step E (Em_outside js rs) d = d\<lparr>c_jobs := js, c_resources := rs\<rparr>"

section \<open>Unique mailboxes\<close>

definition emails_ok :: "cpdb \<Rightarrow> bool" where
  "emails_ok d \<longleftrightarrow> distinct (map eid_id (c_emails d)) \<and>
     (\<forall>x \<in> set (c_emails d). \<forall>y \<in> set (c_emails d). email_collides x y \<longrightarrow> eid_id x = eid_id y)"

lemma collides_sym: "email_collides x y = email_collides y x"
  unfolding email_collides_def by (rule iffI; elim disjE conjE; simp)

text \<open>A change that keeps a row's keys and revives nothing.\<close>

definition quiet :: "(cp_email \<Rightarrow> cp_email) \<Rightarrow> bool" where
  "quiet f \<longleftrightarrow> (\<forall>r. eid_id (f r) = eid_id r \<and> eid_household (f r) = eid_household r \<and> eid_option (f r) = eid_option r \<and>
     eid_lookup (f r) = eid_lookup r \<and> eid_domain (f r) = eid_domain r \<and> eid_address (f r) = eid_address r \<and>
     (live_email (eid_status (f r)) \<longrightarrow> live_email (eid_status r)) \<and> (eid_status (f r) \<noteq> Ei_deleted \<longrightarrow> eid_status r \<noteq> Ei_deleted))"

lemma quiet_collides: "quiet f \<Longrightarrow> email_collides (f x) (f y) \<Longrightarrow> email_collides x y"
  unfolding quiet_def email_collides_def by (elim disjE conjE; simp; metis)

lemma emails_ok_quiet:
  assumes "emails_ok d" "c_emails d' = map f (c_emails d)" "quiet f"
  shows "emails_ok d'"
proof -
  have "map eid_id (c_emails d') = map eid_id (c_emails d)" using assms(2,3) by (simp add: quiet_def)
  moreover have "eid_id x = eid_id y" if xy: "x \<in> set (c_emails d')" "y \<in> set (c_emails d')" "email_collides x y" for x y
  proof -
    obtain a b where ab: "a \<in> set (c_emails d)" "x = f a" "b \<in> set (c_emails d)" "y = f b"
      using xy(1,2) assms(2) by auto
    then have "email_collides a b" using quiet_collides [OF assms(3)] xy(3) by blast
    then have "eid_id a = eid_id b" using assms(1) ab by (auto simp: emails_ok_def)
    then show ?thesis using ab assms(3) by (simp add: quiet_def)
  qed
  ultimately show ?thesis using assms(1) by (simp add: emails_ok_def)
qed

lemma emails_ok_same: "emails_ok d \<Longrightarrow> c_emails d' = c_emails d \<Longrightarrow> emails_ok d'"
  by (simp add: emails_ok_def)

text \<open>The operations that only move a mailbox along its life.\<close>

lemma move_email_quiet:
  assumes "emails_ok d" "\<And>r. P r \<Longrightarrow> (live_email status \<longrightarrow> live_email (eid_status r)) \<and> (status \<noteq> Ei_deleted \<longrightarrow> eid_status r \<noteq> Ei_deleted)"
  shows "emails_ok (move_email P status now d)"
  by (rule emails_ok_quiet [OF assms(1), of _ "\<lambda>r. if P r then r\<lparr>eid_status := status, eid_version := eid_version r + 1, eid_updated_at := now\<rparr> else r"])
    (use assms(2) in \<open>auto simp: move_email_def tbl_update_def quiet_def\<close>)

lemma live_not_deleted: "live_email s \<Longrightarrow> s \<noteq> Ei_deleted"
  by (simp add: live_email_def)

lemma emails_ok_insert:
  assumes "emails_ok d" "insert_email r d = (Inr x, d')"
  shows "emails_ok d'"
proof -
  have d': "d' = d\<lparr>c_emails := c_emails d @ [r]\<rparr>" and new: "eid_id r \<notin> eid_id ` set (c_emails d)"
    and clear: "\<forall>x \<in> set (c_emails d). \<not> email_collides x r"
    using assms(2) by (auto simp: insert_email_def split: if_splits)
  have "\<forall>x \<in> set (c_emails d). \<not> email_collides r x" using clear collides_sym [of r] by blast
  then show ?thesis using assms(1) new clear unfolding d' emails_ok_def by auto
qed

lemma hold_address_emails: "c_emails (snd (hold_address E r now d)) = c_emails d"
  by (simp add: hold_address_def Let_def split: option.split sum.split prod.split)

lemma emails_ok_create:
  assumes "emails_ok d"
  shows "emails_ok (snd (create_selected E hh opt a now d))"
proof (cases "prepare_row E hh opt a now d")
  case (Inl e)
  then show ?thesis using assms by (simp add: create_selected_def)
next
  case (Inr row)
  obtain y d1 where y: "insert_email row d = (y, d1)" by fastforce
  show ?thesis
  proof (cases y)
    case (Inl e)
    then have "d1 = d" using y by (auto simp: insert_email_def split: if_splits)
    then show ?thesis using Inl Inr y assms by (simp add: create_selected_def)
  next
    case (Inr r)
    then have "emails_ok d1" using emails_ok_insert [OF assms] y by simp
    then show ?thesis
      using \<open>prepare_row E hh opt a now d = Inr row\<close> Inr y hold_address_emails emails_ok_same by (simp add: create_selected_def)
  qed
qed

lemma emails_ok_select:
  assumes "emails_ok d"
  shows "emails_ok (snd (write_tx (select_email E hh c now) d))"
proof (cases "select_email E hh c now d")
  case (Pair y d')
  show ?thesis
  proof (cases y)
    case (Inl e)
    then show ?thesis using Pair assms by (simp add: write_tx_def)
  next
    case (Inr r)
    then obtain opt a r0 d1 where c: "create_selected E hh opt a now d = (Inr r0, d1)" "d' = mark_provisioning (eid_id r0) now d1"
      using Pair by (auto simp: select_email_def Let_def split: sum.splits option.splits prod.splits bool.splits email_error.splits)
    have "emails_ok d1" using emails_ok_create [OF assms, of E hh opt a now] c(1) by simp
    then have "emails_ok d'"
      unfolding c(2) mark_provisioning_def by (rule move_email_quiet) (simp add: live_email_def)
    then show ?thesis using Pair Inr by (simp add: write_tx_def)
  qed
qed

lemma verified_is_checked:
  assumes "verify_check E i m now d = Inr a"
  obtains r where "email_get i d = Some r" "verifiable (eid_status r)"
    "\<forall>x \<in> set (c_emails d). eid_id x \<noteq> i \<longrightarrow> \<not> email_collides x (verified_row E m a now r)"
  using assms unfolding verify_check_def by (auto split: if_splits sum.splits option.splits)

lemma emails_ok_verify:
  assumes "emails_ok d"
  shows "emails_ok (snd (mark_verified E i m now d))"
proof (cases "fst (mark_verified E i m now d)")
  case (Inl e)
  then have "snd (mark_verified E i m now d) = d" by (auto simp: mark_verified_def split: sum.splits)
  then show ?thesis using assms by simp
next
  case (Inr u)
  then obtain a where a: "verify_check E i m now d = Inr a"
    by (auto simp: mark_verified_def split: sum.splits)
  then obtain r where g: "email_get i d = Some r" "verifiable (eid_status r)"
      "\<forall>x \<in> set (c_emails d). eid_id x \<noteq> i \<longrightarrow> \<not> email_collides x (verified_row E m a now r)"
    by (rule verified_is_checked)
  have upd: "c_emails (snd (mark_verified E i m now d)) = tbl_update (\<lambda>x. eid_id x = i) (verified_row E m a now) (c_emails d)"
    by (simp add: mark_verified_def a)
  have r: "r \<in> set (c_emails d)" "eid_id r = i" using tbl_get_SomeD g(1) by (auto simp: email_get_def dest: tbl_get_SomeD)
  have only: "x = r" if "x \<in> set (c_emails d)" "eid_id x = i" for x
    using assms r that by (auto simp: emails_ok_def intro: distinct_same_row)
  have id: "eid_id (verified_row E m a now x) = eid_id x" for x by (simp add: verified_row_def)
  let ?f = "\<lambda>x. if eid_id x = i then verified_row E m a now x else x"
  have "eid_id x = eid_id y" if xy: "x \<in> set (c_emails d)" "y \<in> set (c_emails d)" "email_collides (?f x) (?f y)" for x y
  proof (cases "eid_id x = i"; cases "eid_id y = i")
    assume "eid_id x = i" "eid_id y \<noteq> i"
    then have "email_collides (verified_row E m a now r) y" using xy(1,3) only by simp
    then have "email_collides y (verified_row E m a now r)" by (simp only: collides_sym [of y])
    then show ?thesis using g(3) xy(2) \<open>eid_id y \<noteq> i\<close> by blast
  next
    assume "eid_id x \<noteq> i" "eid_id y = i"
    then have "email_collides x (verified_row E m a now r)" using xy(2,3) only by simp
    then show ?thesis using g(3) xy(1) \<open>eid_id x \<noteq> i\<close> by blast
  next
    assume "eid_id x \<noteq> i" "eid_id y \<noteq> i"
    then show ?thesis using xy assms by (auto simp: emails_ok_def)
  qed simp
  moreover have "map eid_id (c_emails (snd (mark_verified E i m now d))) = map eid_id (c_emails d)"
    unfolding upd by (rule tbl_update_ids) (rule id)
  moreover have "eid_id (?f x) = eid_id x" for x by (simp add: id)
  ultimately have "\<forall>x \<in> set (c_emails d). \<forall>y \<in> set (c_emails d). email_collides (?f x) (?f y) \<longrightarrow> eid_id (?f x) = eid_id (?f y)"
    "distinct (map eid_id (c_emails (snd (mark_verified E i m now d))))"
    using assms by (simp_all add: emails_ok_def)
  then show ?thesis unfolding emails_ok_def upd set_tbl_update by blast
qed

lemma emails_ok_receipt:
  assumes "emails_ok d"
  shows "emails_ok (snd (record_activation_receipt i revision rt p inb outb dg now d))"
proof -
  let ?s = "activation_status inb outb"
  let ?P = "\<lambda>r. eid_id r = i \<and> eid_status r \<in> {Ei_verified, Ei_activating, Ei_active, Ei_needs_attention}"
  have "?s \<in> {Ei_needs_attention, Ei_active, Ei_activating}" by (simp add: activation_status_def)
  then have "quiet (\<lambda>r. if ?P r then receipt_row ?s now r else r)" by (auto simp: quiet_def receipt_row_def live_email_def)
  moreover have "c_emails (snd (record_activation_receipt i revision rt p inb outb dg now d)) = c_emails d \<or>
      c_emails (snd (record_activation_receipt i revision rt p inb outb dg now d)) = map (\<lambda>r. if ?P r then receipt_row ?s now r else r) (c_emails d)"
    by (simp add: record_activation_receipt_def Let_def tbl_update_def split: option.split)
  ultimately show ?thesis using assms emails_ok_same emails_ok_quiet by blast
qed

lemma emails_ok_finish:
  assumes "emails_ok d"
  shows "emails_ok (snd (finish_disconnect i now d))"
proof -
  let ?f = "\<lambda>x. if eid_id x = i \<and> eid_status x = Ei_disconnecting
    then x\<lparr>eid_status := Ei_deleted, eid_disconnected_at := Some now, eid_version := eid_version x + 1, eid_updated_at := now\<rparr> else x"
  have "quiet ?f" by (auto simp: quiet_def live_email_def)
  moreover have "c_emails (snd (finish_disconnect i now d)) = c_emails d \<or> c_emails (snd (finish_disconnect i now d)) = map ?f (c_emails d)"
    by (auto simp: finish_disconnect_def tbl_update_def split: option.split)
  ultimately show ?thesis using assms emails_ok_same emails_ok_quiet by blast
qed

lemma emails_ok_step: "emails_ok d \<Longrightarrow> emails_ok (email_step E op d)"
proof (cases op)
  case (Em_retry i now)
  assume "emails_ok d"
  then show ?thesis using Em_retry
    by (auto simp: retry_provisioning_def Let_def live_email_def intro: move_email_quiet)
next
  case (Em_problem i status now)
  assume "emails_ok d"
  then show ?thesis using Em_problem
    by (auto simp: mark_problem_def live_email_def intro!: move_email_quiet)
next
  case (Em_disconnect hh now)
  assume "emails_ok d"
  then show ?thesis using Em_disconnect
    by (auto simp: begin_disconnect_def live_email_def intro: move_email_quiet)
next
  case (Em_activate i now)
  assume "emails_ok d"
  then show ?thesis using Em_activate
    by (auto simp: begin_activation_def Let_def live_email_def intro: move_email_quiet)
next
  case (Em_expire now)
  assume "emails_ok d"
  then show ?thesis using Em_expire by (auto simp: expire_reservations_def Let_def intro: emails_ok_same)
next
  case (Em_outside js rs)
  assume "emails_ok d"
  then show ?thesis using Em_outside by (simp add: emails_ok_def)
qed (simp_all add: emails_ok_select emails_ok_verify emails_ok_finish emails_ok_receipt)

lemma emails_ok_run: "emails_ok d \<Longrightarrow> emails_ok (fold (email_step E) ops d)"
  by (induction ops arbitrary: d) (simp_all add: emails_ok_step)

text \<open>
  C26 (a mailbox belongs to one household).  Through any history of choices, retries, provider answers and
  teardowns, a household has at most one live mailbox, an address is in use by at most one live mailbox, and an
  owned domain is taken by at most one mailbox that is not deleted, one under teardown or cancelled included.
\<close>

theorem mailboxes_are_unique:
  assumes "emails_ok d" "x \<in> set (c_emails (fold (email_step E) ops d))" "y \<in> set (c_emails (fold (email_step E) ops d))"
    "live_email (eid_status x) \<and> live_email (eid_status y) \<and> eid_household x = eid_household y \<or>
     live_email (eid_status x) \<and> live_email (eid_status y) \<and> eid_lookup x \<noteq> None \<and> eid_lookup x = eid_lookup y \<or>
     eid_option x = Eo_domain \<and> eid_option y = Eo_domain \<and> eid_status x \<noteq> Ei_deleted \<and> eid_status y \<noteq> Ei_deleted \<and>
       eid_domain x \<noteq> None \<and> eid_domain x = eid_domain y"
  shows "x = y"
proof -
  have ok: "emails_ok (fold (email_step E) ops d)" by (rule emails_ok_run [OF assms(1)])
  have "email_collides x y" using assms(4) by (auto simp: email_collides_def)
  then have "eid_id x = eid_id y" using ok assms(2,3) by (auto simp: emails_ok_def)
  then show ?thesis using ok assms(2,3) by (auto simp: emails_ok_def intro: distinct_same_row)
qed

section \<open>Normal local parts\<close>

lemma local_char: "lower_alnum c \<or> local_sep c \<Longrightarrow> lower_latin c = c \<and> \<not> is_space c \<and> c \<noteq> CHR ''@''"
proof -
  assume h: "lower_alnum c \<or> local_sep c"
  show ?thesis
  proof (cases "local_sep c")
    case True
    then show ?thesis by (auto simp: local_sep_def lower_latin_def lower_char_def is_space_def Let_def)
  next
    case False
    then have n: "97 \<le> (of_char c :: nat) \<and> (of_char c :: nat) \<le> 122 \<or> 48 \<le> (of_char c :: nat) \<and> (of_char c :: nat) \<le> 57"
      using h by (simp add: lower_alnum_def Let_def)
    then have "c \<noteq> CHR ''@''" by auto
    then show ?thesis using n by (auto simp: lower_latin_def lower_char_def is_space_def Let_def)
  qed
qed

lemma local_form_chars: "local_form b s \<Longrightarrow> c \<in> set s \<Longrightarrow> lower_alnum c \<or> local_sep c"
  by (induction s arbitrary: b) (auto split: if_splits)

lemma normal_local_part:
  assumes "normalize_local_part raw = Inr l"
  shows "normalize_local_part l = Inr l" "CHR ''@'' \<notin> set l" "l \<noteq> []" "\<forall>c \<in> set l. \<not> is_space c"
proof -
  have l: "3 \<le> length l" "length l \<le> 48" "local_form False l" "l \<notin> set reserved_local_parts"
    using assms by (auto simp: normalize_local_part_def Let_def not_less split: if_splits)
  have c: "lower_latin c = c \<and> \<not> is_space c \<and> c \<noteq> CHR ''@''" if "c \<in> set l" for c
    using local_char local_form_chars [OF l(3) that] by blast
  show ne: "l \<noteq> []" using l(1) by auto
  show "CHR ''@'' \<notin> set l" "\<forall>c \<in> set l. \<not> is_space c" using c by blast+
  have "py_strip l = l" using ne c by (intro py_strip_id) simp
  moreover have "py_lower l = l" using c by (simp add: py_lower_def map_idI)
  ultimately show "normalize_local_part l = Inr l" using l by (simp add: normalize_local_part_def Let_def)
qed

definition platform_domain :: string where "platform_domain = ''abrolia.com''"

text \<open>NFKC leaves ASCII as it is; these are the two texts it is asked about here.\<close>

definition ascii_kept :: "email_env \<Rightarrow> string \<Rightarrow> bool" where
  "ascii_kept E l \<longleftrightarrow> ae_nfkc (ee_auth E) (l @ ''@'' @ platform_domain) = l @ ''@'' @ platform_domain \<and>
     ae_nfkc (ee_auth E) platform_domain = platform_domain"

lemma platform_address:
  assumes "normalize_local_part raw = Inr l" "ascii_kept E l"
  shows "normalize_email (ee_auth E) (l @ ''@'' @ platform_domain) = Inr (l @ ''@'' @ platform_domain)"
    "local_of (l @ ''@'' @ platform_domain) = l" "domain_of (l @ ''@'' @ platform_domain) = platform_domain"
proof -
  note l = normal_local_part [OF assms(1)]
  have at: "\<forall>c \<in> set l. c \<noteq> CHR ''@''" using l(2) by metis
  have split: "takeWhile (\<lambda>c. c \<noteq> CHR ''@'') (l @ ''@'' @ platform_domain) = l"
    "dropWhile (\<lambda>c. c \<noteq> CHR ''@'') (l @ ''@'' @ platform_domain) = ''@'' @ platform_domain"
    using at by (simp_all add: takeWhile_append dropWhile_append)
  show "local_of (l @ ''@'' @ platform_domain) = l" "domain_of (l @ ''@'' @ platform_domain) = platform_domain"
    by (simp_all only: local_of_def domain_of_def split) simp
  have strip: "py_strip (l @ ''@'' @ platform_domain) = l @ ''@'' @ platform_domain"
  proof (rule py_strip_id)
    have "\<not> is_space (hd l)" using l(3,4) by simp
    moreover have "\<not> is_space (last (''@'' @ platform_domain))" by (simp add: platform_domain_def is_space_def)
    ultimately show "l @ ''@'' @ platform_domain = [] \<or>
        \<not> is_space (hd (l @ ''@'' @ platform_domain)) \<and> \<not> is_space (last (l @ ''@'' @ platform_domain))"
      using l(3) by (simp add: platform_domain_def)
  qed
  have dom: "rstrip_dots (py_lower platform_domain) = platform_domain" "CHR ''@'' \<notin> set platform_domain" "platform_domain \<noteq> []"
    by code_simp+
  show "normalize_email (ee_auth E) (l @ ''@'' @ platform_domain) = Inr (l @ ''@'' @ platform_domain)"
    using assms(2) l(3) dom unfolding normalize_email_def ascii_kept_def
    by (simp only: strip [unfolded append_Cons append_Nil] split [unfolded append_Cons append_Nil] Let_def append_Cons append_Nil
        list.case simp_thms if_False)
qed

section \<open>A verified address\<close>

definition reservation_key :: "cp_reservation \<Rightarrow> string \<times> string" where
  "reservation_key r = (rsv_domain r, rsv_local r)"

definition reservations_ok :: "cpdb \<Rightarrow> bool" where
  "reservations_ok d \<longleftrightarrow> distinct (map reservation_key (c_reservations d))"

definition consumed_by :: "uid \<Rightarrow> string \<times> string \<Rightarrow> cpdb \<Rightarrow> bool" where
  "consumed_by i k d \<longleftrightarrow> (\<exists>r \<in> set (c_reservations d). reservation_key r = k \<and> rsv_identity r = i \<and> rsv_status r = Rv_consumed)"

lemma create_reservations:
  "c_reservations (snd (create_selected E hh opt a now d)) = c_reservations d \<or>
   (\<exists>r. c_reservations (snd (create_selected E hh opt a now d)) = snd (reserve r (c_reservations d)))"
proof -
  have i: "c_reservations d1 = c_reservations d" if "insert_email row d = (y, d1)" for row y d1
    using that by (auto simp: insert_email_def split: if_splits)
  have h: "c_reservations (snd (hold_address E r now d1)) = c_reservations d1 \<or>
      (\<exists>x. c_reservations (snd (hold_address E r now d1)) = snd (reserve x (c_reservations d1)))" for r d1
  proof (cases "eid_address r")
    case (Some b)
    show ?thesis
    proof (cases "normalize_local_part (local_of b)")
      case (Inr l)
      let ?x = "\<lparr>rsv_id = ee_uuid E 1 d1, rsv_domain = domain_of b, rsv_local = l, rsv_household = eid_household r,
        rsv_identity = eid_id r, rsv_status = Rv_held, rsv_expires_at = now + reservation_ttl, rsv_created_at = now, rsv_consumed_at = None\<rparr>"
      obtain n T where "reserve ?x (c_reservations d1) = (n, T)" by fastforce
      then show ?thesis using Some Inr by (auto simp: hold_address_def intro: exI [of _ ?x])
    qed (simp add: hold_address_def Some)
  qed (simp add: hold_address_def)
  show ?thesis
  proof (cases "prepare_row E hh opt a now d")
    case (Inr row)
    obtain y d1 where y: "insert_email row d = (y, d1)" by fastforce
    show ?thesis
    proof (cases y)
      case (Inr r)
      then have "create_selected E hh opt a now d = hold_address E r now d1"
        using \<open>prepare_row E hh opt a now d = Inr row\<close> y by (simp add: create_selected_def)
      then show ?thesis using h [of r d1] i [OF y] by simp
    qed (use Inr y i [OF y] in \<open>simp add: create_selected_def\<close>)
  qed (simp add: create_selected_def)
qed

lemma select_reservations:
  "c_reservations (snd (write_tx (select_email E hh c now) d)) = c_reservations d \<or>
   (\<exists>r. c_reservations (snd (write_tx (select_email E hh c now) d)) = snd (reserve r (c_reservations d)))"
proof (cases "select_email E hh c now d")
  case (Pair y d')
  show ?thesis
  proof (cases y)
    case (Inr r)
    then obtain opt a r0 d1 where s: "create_selected E hh opt a now d = (Inr r0, d1)" "d' = mark_provisioning (eid_id r0) now d1"
      using Pair by (auto simp: select_email_def Let_def split: sum.splits option.splits prod.splits bool.splits email_error.splits)
    have "c_reservations d' = c_reservations d1" by (simp add: s(2) mark_provisioning_def move_email_def)
    then show ?thesis using create_reservations [of E hh opt a now d] s(1) Pair Inr by (simp add: write_tx_def)
  qed (use Pair in \<open>simp add: write_tx_def\<close>)
qed

lemma reserve_ok: "distinct (map reservation_key T) \<Longrightarrow> distinct (map reservation_key (snd (reserve r T)))"
proof -
  assume d: "distinct (map reservation_key T)"
  let ?same = "\<lambda>x. rsv_domain x = rsv_domain r \<and> rsv_local x = rsv_local r"
  have "map reservation_key (tbl_update (\<lambda>x. ?same x \<and> reservation_free (rsv_created_at r) x) (\<lambda>x. r) T) = map reservation_key T"
    by (induction T) (auto simp: reservation_key_def)
  moreover have "reservation_key r \<notin> set (map reservation_key T)" if "\<not> (\<exists>x \<in> set T. ?same x)"
    using that by (auto simp: reservation_key_def)
  ultimately show ?thesis using d by (simp add: reserve_def Let_def)
qed

lemma reserve_keeps: "x \<in> set T \<Longrightarrow> rsv_status x = Rv_consumed \<Longrightarrow> x \<in> set (snd (reserve r T))"
  by (auto simp: reserve_def Let_def set_tbl_update reservation_free_def image_iff intro!: bexI [of _ x])

lemma tbl_update_keeps: "x \<in> set T \<Longrightarrow> \<not> P x \<Longrightarrow> x \<in> set (tbl_update P f T)"
  by (auto simp: set_tbl_update image_iff intro!: bexI [of _ x])

lemma map_key_update: "(\<And>x. reservation_key (f x) = reservation_key x) \<Longrightarrow> map reservation_key (tbl_update P f T) = map reservation_key T"
  by (rule tbl_update_ids)

text \<open>A mailbox that is being torn down and has nothing left to wait for.\<close>

definition teardown_due :: "uid \<Rightarrow> cpdb \<Rightarrow> bool" where
  "teardown_due i d \<longleftrightarrow>
     (\<exists>x \<in> set (c_emails d). eid_id x = i \<and> eid_status x = Ei_disconnecting \<and> \<not> cleanup_pending (eid_household x) d)"

lemma other_reservations:
  "c_reservations (snd (retry_provisioning i now d)) = c_reservations d" "c_reservations (snd (mark_problem i s now d)) = c_reservations d"
  "c_reservations (begin_disconnect hh now d) = c_reservations d" "c_reservations (snd (begin_activation i now d)) = c_reservations d"
  "c_reservations (snd (record_activation_receipt i v rt p a b dg now d)) = c_reservations d"
  by (simp_all add: retry_provisioning_def mark_problem_def begin_disconnect_def begin_activation_def move_email_def
      record_activation_receipt_def Let_def split: option.split)

lemma reservations_ok_step: "reservations_ok d \<Longrightarrow> reservations_ok (email_step E op d)"
proof (cases op)
  case (Em_select hh c now)
  assume "reservations_ok d"
  then show ?thesis using select_reservations [of E hh c now d] reserve_ok Em_select by (auto simp: reservations_ok_def)
next
  case (Em_verify i m now)
  assume "reservations_ok d"
  then show ?thesis using Em_verify
    by (auto simp: mark_verified_def reservations_ok_def reservation_key_def map_key_update split: sum.split)
next
  case (Em_finish i now)
  assume "reservations_ok d"
  then show ?thesis using Em_finish
    by (auto simp: finish_disconnect_def reservations_ok_def reservation_key_def map_key_update split: option.split)
next
  case (Em_expire now)
  assume "reservations_ok d"
  then show ?thesis using Em_expire
    by (auto simp: expire_reservations_def Let_def reservations_ok_def reservation_key_def map_key_update)
qed (simp_all add: reservations_ok_def other_reservations)

lemma early_finish: "\<not> teardown_due i d \<Longrightarrow> snd (finish_disconnect i now d) = d"
  by (fastforce simp: finish_disconnect_def teardown_due_def find_Some_iff in_set_conv_nth split: option.split)

lemma consumed_by_step:
  assumes "consumed_by i k d" "\<And>now. op = Em_finish i now \<Longrightarrow> \<not> teardown_due i d"
  shows "consumed_by i k (email_step E op d)"
proof -
  obtain r where r: "r \<in> set (c_reservations d)" "reservation_key r = k" "rsv_identity r = i" "rsv_status r = Rv_consumed"
    using assms(1) by (auto simp: consumed_by_def)
  have "r \<in> set (c_reservations (email_step E op d))"
  proof (cases op)
    case (Em_select hh c now)
    then show ?thesis using select_reservations [of E hh c now d] reserve_keeps [OF r(1,4)] r(1) by auto
  next
    case (Em_verify j m now)
    then show ?thesis using r by (auto simp: mark_verified_def intro!: tbl_update_keeps split: sum.split)
  next
    case (Em_finish j now)
    show ?thesis
    proof (cases "j = i")
      case True
      then show ?thesis using Em_finish r(1) assms(2) [of now] by (simp add: early_finish)
    next
      case False
      then show ?thesis using r Em_finish by (auto simp: finish_disconnect_def intro!: tbl_update_keeps split: option.split)
    qed
  next
    case (Em_expire now)
    then show ?thesis using r by (auto simp: expire_reservations_def Let_def intro!: tbl_update_keeps)
  qed (use r(1) in \<open>simp_all add: other_reservations\<close>)
  then show ?thesis using r by (auto simp: consumed_by_def)
qed

lemma consumed_by_run:
  assumes "consumed_by i k d" "reservations_ok d"
    "\<And>ops1 now ops2. ops = ops1 @ Em_finish i now # ops2 \<Longrightarrow> \<not> teardown_due i (fold (email_step E) ops1 d)"
  shows "consumed_by i k (fold (email_step E) ops d) \<and> reservations_ok (fold (email_step E) ops d)"
  using assms
proof (induction ops arbitrary: d)
  case (Cons op ops)
  have "\<not> teardown_due i d" if "op = Em_finish i now" for now
    using Cons.prems(3) [of "[]" now ops] that by simp
  then have "consumed_by i k (email_step E op d)" using consumed_by_step [OF Cons.prems(1)] by blast
  moreover have "reservations_ok (email_step E op d)" by (rule reservations_ok_step [OF Cons.prems(2)])
  moreover have "\<not> teardown_due i (fold (email_step E) ops1 (email_step E op d))" if "ops = ops1 @ Em_finish i now # ops2" for ops1 now ops2
    using Cons.prems(3) [of "op # ops1" now ops2] that by simp
  ultimately show ?case using Cons.IH [of "email_step E op d"] by simp
qed simp

lemma taken_address_is_refused:
  assumes "consumed_by i (platform_domain, l) d" "reservations_ok d" "normalize_local_part raw = Inr l" "ascii_kept E l"
  shows "\<exists>e. fst (select_email E hh (Choose_managed raw) now d) = Inl e"
proof (rule ccontr)
  assume "\<not> ?thesis"
  then obtain r d' where "select_email E hh (Choose_managed raw) now d = (Inr r, d')"
    by (metis prod.collapse sum.exhaust)
  then obtain a r0 d1 where s: "create_selected E hh Eo_managed a now d = (Inr r0, d1)" "choice_address (Choose_managed raw) = Inr a"
    by (auto simp: select_email_def Let_def choice_option_def split: sum.splits option.splits prod.splits bool.splits email_error.splits)
  have a: "a = Some (l @ ''@'' @ platform_domain)"
    using s(2) assms(3) by (auto simp: choice_address_def platform_domain_def split: if_splits)
  note p = platform_address [OF assms(3,4)]
  obtain row y d2 where row: "prepare_row E hh Eo_managed a now d = Inr row" "insert_email row d = (y, d2)"
      and h: "y = Inr r0' \<Longrightarrow> hold_address E r0' now d2 = (Inr r0, d1)" and y: "\<exists>x. y = Inr x" for r0'
    using s(1) by (auto simp: create_selected_def split: sum.splits prod.splits)
  have "row = selected_row E hh Eo_managed (Some (l @ ''@'' @ platform_domain)) None now d"
    using row(1) p(1) unfolding a prepare_row_def by (auto split: if_splits)
  then have ad: "eid_address row = Some (l @ ''@'' @ platform_domain)" by (simp add: selected_row_def)
  have y2: "y = Inr row" "c_reservations d2 = c_reservations d"
    using row(2) y by (auto simp: insert_email_def split: if_splits)
  let ?x = "\<lparr>rsv_id = ee_uuid E 1 d2, rsv_domain = platform_domain, rsv_local = l, rsv_household = eid_household row,
     rsv_identity = eid_id row, rsv_status = Rv_held, rsv_expires_at = now + reservation_ttl, rsv_created_at = now, rsv_consumed_at = None\<rparr>"
  have one: "fst (reserve ?x (c_reservations d)) = 1"
    using h [OF y2(1)] y2(2) ad p(2,3) normal_local_part(1) [OF assms(3)]
    by (auto simp: hold_address_def split: prod.splits if_splits)
  obtain r1 where r1: "r1 \<in> set (c_reservations d)" "reservation_key r1 = (platform_domain, l)" "rsv_status r1 = Rv_consumed"
    using assms(1) by (auto simp: consumed_by_def)
  have "x = r1" if "x \<in> set (c_reservations d)" "rsv_domain x = platform_domain" "rsv_local x = l" for x
    using that r1 assms(2) by (auto simp: reservations_ok_def reservation_key_def intro: distinct_same_row)
  then have "tbl_count (\<lambda>x. (rsv_domain x = platform_domain \<and> rsv_local x = l) \<and> reservation_free now x) (c_reservations d) = 0"
    using r1(3) by (auto simp: tbl_count_0 reservation_free_def)
  moreover have "\<exists>x \<in> set (c_reservations d). rsv_domain x = platform_domain \<and> rsv_local x = l"
    using r1 by (auto simp: reservation_key_def)
  ultimately show False using one by (simp add: reserve_def)
qed

text \<open>
  C27 (a verified address is kept until the teardown is over).  A managed address is confirmed by the provider
  while its mailbox still holds the reservation.  Then through any history, with teardowns begun and finishes
  attempted at any time, no household can choose the address, unless at one point of that history the teardown
  was finished when nothing of it was left: the mailbox was disconnecting, the deletion of its secret had
  succeeded, no mailbox job of its household was open, and every mailbox resource was deleted.
\<close>

theorem verified_address_is_kept:
  assumes "reservations_ok d" "mark_verified E i m t d = (Inr (), d1)"
    "\<exists>r \<in> set (c_reservations d). reservation_key r = (platform_domain, l) \<and> rsv_identity r = i \<and> rsv_status r = Rv_held"
    "normalize_local_part raw = Inr l" "ascii_kept E l"
  shows "(\<exists>e. fst (select_email E hh (Choose_managed raw) now (fold (email_step E) ops d1)) = Inl e) \<or>
    (\<exists>ops1 t' ops2. ops = ops1 @ Em_finish i t' # ops2 \<and> teardown_due i (fold (email_step E) ops1 d1))"
proof (rule disjCI)
  assume early: "\<not> (\<exists>ops1 t' ops2. ops = ops1 @ Em_finish i t' # ops2 \<and> teardown_due i (fold (email_step E) ops1 d1))"
  have "consumed_by i (platform_domain, l) d1"
  proof -
    obtain r where r: "r \<in> set (c_reservations d)" "reservation_key r = (platform_domain, l)" "rsv_identity r = i" "rsv_status r = Rv_held"
      using assms(3) by blast
    have "c_reservations d1 = tbl_update (\<lambda>x. rsv_identity x = i \<and> rsv_status x = Rv_held)
        (\<lambda>x. x\<lparr>rsv_status := Rv_consumed, rsv_consumed_at := Some t\<rparr>) (c_reservations d)"
      using assms(2) by (auto simp: mark_verified_def split: sum.splits)
    then have "r\<lparr>rsv_status := Rv_consumed, rsv_consumed_at := Some t\<rparr> \<in> set (c_reservations d1)"
      using r by (auto simp: set_tbl_update image_iff intro!: bexI [of _ r])
    then show ?thesis
      unfolding consumed_by_def using r(2,3)
      by (intro bexI [of _ "r\<lparr>rsv_status := Rv_consumed, rsv_consumed_at := Some t\<rparr>"]) (auto simp: reservation_key_def)
  qed
  moreover have "reservations_ok d1" using reservations_ok_step [OF assms(1), of E "Em_verify i m t"] assms(2) by simp
  ultimately have "consumed_by i (platform_domain, l) (fold (email_step E) ops d1) \<and> reservations_ok (fold (email_step E) ops d1)"
    using early by (intro consumed_by_run) blast+
  then show "\<exists>e. fst (select_email E hh (Choose_managed raw) now (fold (email_step E) ops d1)) = Inl e"
    using taken_address_is_refused assms(4,5) by blast
qed

section \<open>An address that is given away\<close>

definition sample_mail :: email_env where
  "sample_mail = \<lparr>ee_auth = sample_auth, ee_uuid = (\<lambda>n d. CHR ''e'' # replicate (length (c_emails d)) (CHR ''x'')),
     ee_domain = (\<lambda>s. Some s), ee_public = (\<lambda>a b c. True)\<rparr>"

definition other_house :: cp_household where
  "other_house = sample_house\<lparr>ch_id := ''h2'', ch_slug := ''hh-h2''\<rparr>"

definition two_homes :: cpdb where "two_homes = sample_accounts\<lparr>c_households := [sample_house, other_house]\<rparr>"

definition first_mailbox :: "email_status \<Rightarrow> nat \<Rightarrow> time \<Rightarrow> cp_email" where
  "first_mailbox status version now = \<lparr>eid_id = ''e'', eid_household = ''h1'', eid_option = Eo_managed, eid_status = status,
     eid_address = Some ''fam@abrolia.com'', eid_lookup = Some ''fam@abrolia.com'', eid_domain = None, eid_subject = None,
     eid_refs = JObj [], eid_secret_binding = None, eid_scopes = [], eid_version = version, eid_verified_at = None,
     eid_activated_at = None, eid_disconnected_at = None, eid_created_at = 0, eid_updated_at = now\<rparr>"

definition first_hold :: cp_reservation where
  "first_hold = \<lparr>rsv_id = ''ex'', rsv_domain = ''abrolia.com'', rsv_local = ''fam'', rsv_household = ''h1'', rsv_identity = ''e'',
     rsv_status = Rv_held, rsv_expires_at = reservation_ttl, rsv_created_at = 0, rsv_consumed_at = None\<rparr>"

definition chosen :: cpdb where
  "chosen = two_homes\<lparr>c_emails := [first_mailbox Ei_provisioning 2 0], c_reservations := [first_hold]\<rparr>"

definition under_cleanup :: cpdb where
  "under_cleanup = two_homes\<lparr>c_emails := [first_mailbox Ei_disconnecting 3 1000], c_reservations := [first_hold]\<rparr>"

lemma fam_is_normal: "normalize_local_part ''fam'' = Inr ''fam''"
  by code_simp

lemma fam_is_kept: "ascii_kept sample_mail l"
  by (simp add: ascii_kept_def sample_mail_def sample_auth_def)

lemma fam_address:
  "normalize_email sample_auth ''fam@abrolia.com'' = Inr ''fam@abrolia.com''" "local_of ''fam@abrolia.com'' = ''fam''"
  "domain_of ''fam@abrolia.com'' = ''abrolia.com''"
  using platform_address [OF fam_is_normal fam_is_kept] by (simp_all add: platform_domain_def sample_mail_def)

lemmas mailbox_samples = two_homes_def other_house_def sample_accounts_def sample_house_def sample_seat_def sample_account_def

lemma first_choice: "snd (write_tx (select_email sample_mail ''h1'' (Choose_managed ''fam'') 0) two_homes) = chosen"
proof -
  have a: "choice_address (Choose_managed ''fam'') = Inr (Some ''fam@abrolia.com'')"
    by (simp add: choice_address_def fam_is_normal relay_prefix_def)
  have o: "owner_contact sample_mail ''h1'' ''fam@abrolia.com'' two_homes = Inr False"
    by (simp add: owner_contact_def lookup_of_def fam_address sample_mail_def mailbox_samples) (simp add: sample_auth_def)
  have c: "create_selected sample_mail ''h1'' Eo_managed (Some ''fam@abrolia.com'') 0 two_homes =
      (Inr (first_mailbox Ei_selected 1 0), two_homes\<lparr>c_emails := [first_mailbox Ei_selected 1 0], c_reservations := [first_hold]\<rparr>)"
    by (simp add: create_selected_def prepare_row_def selected_row_def insert_email_def hold_address_def reserve_def Let_def
        sample_mail_def fam_address fam_is_normal first_mailbox_def first_hold_def mailbox_samples households_get_def tbl_get_Cons
        empty_cpdb_def sample_auth_def [THEN arg_cong, where f = ae_lookup])
  show ?thesis
    using a o c by (simp add: write_tx_def select_email_def choice_option_def mark_provisioning_def move_email_def email_get_def
        tbl_get_Cons first_mailbox_def chosen_def Let_def)
qed

text \<open>
  One history, computed: a household chooses an address and starts over after the quarter of an hour its
  reservation lasts, before the mailbox was confirmed.  While the old mailbox is still being torn down, the
  service answers that the address is not available, and yet the next household that chooses it gets it.
\<close>

lemma an_address_under_cleanup_is_given_away:
  "fold (email_step sample_mail) [Em_select ''h1'' (Choose_managed ''fam'') 0, Em_disconnect ''h1'' 1000] two_homes = under_cleanup \<and>
   address_available sample_mail ''abrolia.com'' ''fam'' 1000 under_cleanup = Inr False \<and>
   (\<exists>r d. select_email sample_mail ''h2'' (Choose_managed ''fam'') 1000 under_cleanup = (Inr r, d) \<and>
     eid_address r = Some ''fam@abrolia.com'' \<and> eid_status r = Ei_provisioning)"
proof (intro conjI)
  show "fold (email_step sample_mail) [Em_select ''h1'' (Choose_managed ''fam'') 0, Em_disconnect ''h1'' 1000] two_homes = under_cleanup"
    using first_choice by (simp add: begin_disconnect_def move_email_def chosen_def under_cleanup_def first_mailbox_def live_email_def)
  have d: "rstrip_dots (py_lower (py_strip ''abrolia.com'')) = ''abrolia.com''" by code_simp
  have l: "lookup_of sample_mail ''fam@abrolia.com'' = Inr ''fam@abrolia.com''"
    by (simp add: lookup_of_def fam_address sample_mail_def) (simp add: sample_auth_def)
  show "address_available sample_mail ''abrolia.com'' ''fam'' 1000 under_cleanup = Inr False"
    by (simp add: address_available_def fam_is_normal d l Let_def under_cleanup_def first_mailbox_def)
  have a: "choice_address (Choose_managed ''fam'') = Inr (Some ''fam@abrolia.com'')"
    by (simp add: choice_address_def fam_is_normal relay_prefix_def)
  have o: "owner_contact sample_mail ''h2'' ''fam@abrolia.com'' under_cleanup = Inr False"
    by (simp add: owner_contact_def l under_cleanup_def mailbox_samples)
  let ?r = "selected_row sample_mail ''h2'' Eo_managed (Some ''fam@abrolia.com'') None 1000 under_cleanup"
  have p: "prepare_row sample_mail ''h2'' Eo_managed (Some ''fam@abrolia.com'') 1000 under_cleanup = Inr ?r"
    by (simp add: prepare_row_def sample_mail_def fam_address under_cleanup_def first_mailbox_def)
  have r: "eid_id ?r = ''ex''" "eid_household ?r = ''h2''" "eid_status ?r = Ei_selected" "eid_address ?r = Some ''fam@abrolia.com''"
    "eid_option ?r = Eo_managed"
    by (simp_all add: selected_row_def sample_mail_def under_cleanup_def)
  have i: "insert_email ?r under_cleanup = (Inr ?r, under_cleanup\<lparr>c_emails := c_emails under_cleanup @ [?r]\<rparr>)"
    using r by (simp add: insert_email_def email_collides_def live_email_def under_cleanup_def first_mailbox_def
        mailbox_samples households_get_def tbl_get_Cons)
  obtain d1 where h: "hold_address sample_mail ?r 1000 (under_cleanup\<lparr>c_emails := c_emails under_cleanup @ [?r]\<rparr>) = (Inr ?r, d1)"
      "c_emails d1 = c_emails under_cleanup @ [?r]"
    using r by (simp add: hold_address_def fam_address fam_is_normal reserve_def Let_def under_cleanup_def first_hold_def
        reservation_free_def reservation_ttl_def tbl_count_def)
  have g: "email_get ''ex'' (mark_provisioning ''ex'' 1000 d1) = Some (?r\<lparr>eid_status := Ei_provisioning,
      eid_version := eid_version ?r + 1, eid_updated_at := 1000\<rparr>)"
    using r by (simp add: email_get_def mark_provisioning_def move_email_def h(2) under_cleanup_def first_mailbox_def tbl_get_Cons)
  show "\<exists>r d. select_email sample_mail ''h2'' (Choose_managed ''fam'') 1000 under_cleanup = (Inr r, d) \<and>
     eid_address r = Some ''fam@abrolia.com'' \<and> eid_status r = Ei_provisioning"
    using a o p i h(1) g r by (simp add: select_email_def choice_option_def create_selected_def Let_def)
qed

section \<open>Concrete inputs\<close>

definition sample_confirmed :: verified_mailbox where
  "sample_confirmed = \<lparr>vm_address = ''fam@abrolia.com'', vm_subject = None, vm_refs = JObj [], vm_secret = None, vm_scopes = []\<rparr>"

lemma mailboxes_are_unique_witness:
  "first_mailbox Ei_provisioning 2 0 \<in> set (c_emails (fold (email_step sample_mail) [Em_disconnect ''h2'' 5] chosen)) \<and>
   the_elem (set (c_emails chosen)) = first_mailbox Ei_provisioning 2 0"
proof -
  let ?x = "first_mailbox Ei_provisioning 2 0"
  have ok: "emails_ok chosen" by (simp add: emails_ok_def chosen_def)
  have m: "?x \<in> set (c_emails (fold (email_step sample_mail) [Em_disconnect ''h2'' 5] chosen))"
    by (simp add: chosen_def begin_disconnect_def move_email_def tbl_update_def first_mailbox_def)
  have l: "live_email (eid_status ?x)" by (simp add: first_mailbox_def live_email_def)
  have "?x = the_elem (set (c_emails chosen))"
    by (rule mailboxes_are_unique [OF ok m]) (use m l in \<open>simp_all add: chosen_def begin_disconnect_def move_email_def tbl_update_def first_mailbox_def\<close>)
  then show ?thesis using m by simp
qed

definition confirmed :: cpdb where
  "confirmed = snd (mark_verified sample_mail ''e'' sample_confirmed 10 chosen)"

lemma fam_is_confirmed: "mark_verified sample_mail ''e'' sample_confirmed 10 chosen = (Inr (), confirmed)"
proof -
  have n: "normalize_email sample_auth ''fam@abrolia.com'' = Inr ''fam@abrolia.com''"
    using fam_address by (simp add: sample_mail_def)
  show ?thesis
    by (simp add: confirmed_def mark_verified_def verify_check_def sample_confirmed_def sample_mail_def n chosen_def email_get_def
        first_mailbox_def domain_mismatch_def verifiable_def tbl_get_Cons) (simp add: sample_auth_def)
qed

text \<open>The provider still has the inbox when the worker tries to finish the teardown.\<close>

definition inbox_left :: cp_resource where
  "inbox_left = \<lparr>res_id = ''r'', res_household = ''h1'', res_provider = ''agentmail'', res_type = ''email_identity'', res_name = ''fam'',
     res_external = JObj [], res_status = Er_ready, res_revision = None, res_created_at = 0, res_updated_at = 0\<rparr>"

lemma finish_is_early: "\<not> teardown_due ''e'' (fold (email_step sample_mail) [Em_disconnect ''h1'' 1000, Em_outside [] [inbox_left]] confirmed)"
proof -
  have "\<forall>x \<in> set (c_emails confirmed). eid_household x = ''h1''"
    by (auto simp: confirmed_def mark_verified_def verified_row_def set_tbl_update chosen_def first_mailbox_def split: sum.split)
  then have "\<forall>x \<in> set (c_emails (begin_disconnect ''h1'' 1000 confirmed)). eid_household x = ''h1''"
    by (auto simp: begin_disconnect_def move_email_def set_tbl_update)
  then show ?thesis by (simp add: teardown_due_def cleanup_pending_def inbox_left_def)
qed

lemma verified_address_is_kept_witness:
  "\<exists>e. fst (select_email sample_mail ''h2'' (Choose_managed ''fam'') 2000 (fold (email_step sample_mail)
     [Em_disconnect ''h1'' 1000, Em_outside [] [inbox_left], Em_finish ''e'' 1200, Em_expire 1500] confirmed)) = Inl e"
proof -
  let ?ops = "[Em_disconnect ''h1'' 1000, Em_outside [] [inbox_left], Em_finish ''e'' 1200, Em_expire 1500]"
  have "ops1 = [Em_disconnect ''h1'' 1000, Em_outside [] [inbox_left]]" if "?ops = ops1 @ Em_finish ''e'' t # ops2" for ops1 t ops2
    using that by (auto simp: Cons_eq_append_conv)
  then have "\<not> (\<exists>ops1 t ops2. ?ops = ops1 @ Em_finish ''e'' t # ops2 \<and> teardown_due ''e'' (fold (email_step sample_mail) ops1 confirmed))"
    using finish_is_early by blast
  moreover have "reservations_ok chosen" by (simp add: reservations_ok_def chosen_def)
  moreover have "\<exists>r \<in> set (c_reservations chosen). reservation_key r = (platform_domain, ''fam'') \<and> rsv_identity r = ''e'' \<and> rsv_status r = Rv_held"
    by (simp add: chosen_def first_hold_def reservation_key_def platform_domain_def)
  ultimately show ?thesis
    using verified_address_is_kept [OF _ fam_is_confirmed _ fam_is_normal fam_is_kept, of "''h2''" 2000 ?ops] by blast
qed

end
