(* ===== verification/Onboarding.thy ===== *)
theory Onboarding
  imports Jobs EmailIdentity
begin

text \<open>
  The commands of the onboarding: \<open>control_plane/onboarding/state.py\<close>, \<open>onboarding/contracts.py\<close>,
  \<open>onboarding/service.py\<close>, \<open>repositories/onboarding.py\<close>, \<open>feature_flags.py\<close>,
  \<open>privacy/art9.py\<close> and the receipts of \<open>privacy/consent.py\<close>.  A command is one transaction: a
  replayed answer, the household's workflow under its expected version, the step's transition, the
  provider jobs, one new version and its journal row, the remembered answer.  Pydantic's validation of a
  selection, the digests, the new ids and the environment variables are parameters.
\<close>

section \<open>Transactions that can fail\<close>

datatype onb_error =
    Ob_missing uid
  | Ob_stale nat nat
  | Ob_replay string
  | Ob_conflict string
  | Ob_transition string
  | Ob_invalid
  | Ob_profile auth_error
  | Ob_email email_error
  | Ob_integrity
  | Ob_crash string
  | Ob_not_held uid string
  | Ob_plan string
  | Ob_superseded
  | Ob_rejected string

type_synonym 'a onb = "cpdb \<Rightarrow> (onb_error + 'a) \<times> cpdb"

definition andthen :: "'a onb \<Rightarrow> ('a \<Rightarrow> 'b onb) \<Rightarrow> 'b onb" where
  "andthen m f d = (case m d of (Inl e, d1) \<Rightarrow> (Inl e, d1) | (Inr x, d1) \<Rightarrow> f x d1)"

definition answer :: "'a \<Rightarrow> 'a onb" where "answer x d = (Inr x, d)"
definition fail_with :: "onb_error \<Rightarrow> 'a onb" where "fail_with e d = (Inl e, d)"
definition demand :: "bool \<Rightarrow> onb_error \<Rightarrow> unit onb" where "demand ok e d = (if ok then (Inr (), d) else (Inl e, d))"
definition refuse_on :: "(cpdb \<Rightarrow> onb_error option) \<Rightarrow> unit onb" where
  "refuse_on f d = (case f d of None \<Rightarrow> (Inr (), d) | Some e \<Rightarrow> (Inl e, d))"
definition look :: "(cpdb \<Rightarrow> 'a) \<Rightarrow> 'a onb" where "look f d = (Inr (f d), d)"
definition found :: "onb_error \<Rightarrow> (cpdb \<Rightarrow> 'a option) \<Rightarrow> 'a onb" where
  "found e f d = (case f d of None \<Rightarrow> (Inl e, d) | Some x \<Rightarrow> (Inr x, d))"
definition edit :: "(cpdb \<Rightarrow> cpdb) \<Rightarrow> unit onb" where "edit f d = (Inr (), f d)"
definition raising :: "('e \<Rightarrow> onb_error) \<Rightarrow> (cpdb \<Rightarrow> ('e + 'a) \<times> cpdb) \<Rightarrow> 'a onb" where
  "raising h m d = (case m d of (Inl e, d1) \<Rightarrow> (Inl (h e), d1) | (Inr x, d1) \<Rightarrow> (Inr x, d1))"

lemma onb_Inr:
  "andthen m f d = (Inr y, d') \<longleftrightarrow> (\<exists>x d1. m d = (Inr x, d1) \<and> f x d1 = (Inr y, d'))"
  "answer x d = (Inr x1, d') \<longleftrightarrow> x1 = x \<and> d' = d"
  "fail_with e d \<noteq> (Inr y, d')"
  "demand ok e d = (Inr u, d') \<longleftrightarrow> ok \<and> d' = d"
  "refuse_on g d = (Inr u, d') \<longleftrightarrow> g d = None \<and> d' = d"
  "look h d = (Inr z, d') \<longleftrightarrow> z = h d \<and> d' = d"
  "found e k d = (Inr w, d') \<longleftrightarrow> k d = Some w \<and> d' = d"
  "edit j d = (Inr u, d') \<longleftrightarrow> d' = j d"
  "raising r n d = (Inr v, d') \<longleftrightarrow> n d = (Inr v, d')"
  by (auto simp: andthen_def answer_def fail_with_def demand_def refuse_on_def look_def found_def edit_def raising_def
      split: prod.splits sum.splits option.splits)

section \<open>The transition table\<close>

datatype onb_command = Cmd_save_profile | Cmd_select | Cmd_retry | Cmd_check | Cmd_verify_result | Cmd_reset

definition provider_transitions :: "step_kind \<Rightarrow> ((step_kind \<times> step_status \<times> onb_command) \<times> step_status) list" where
  "provider_transitions k =
     [((k, St_available, Cmd_select), St_provisioning),
      ((k, St_failed, Cmd_retry), St_provisioning),
      ((k, St_waiting_user, Cmd_check), St_verifying),
      ((k, St_provisioning, Cmd_verify_result), St_verified),
      ((k, St_waiting_user, Cmd_verify_result), St_verified),
      ((k, St_verifying, Cmd_verify_result), St_verified),
      ((k, St_verified, Cmd_reset), St_available)]"

definition transitions :: "((step_kind \<times> step_status \<times> onb_command) \<times> step_status) list" where
  "transitions = ((Kd_profile, St_available, Cmd_save_profile), St_verified) #
     provider_transitions Kd_email @ provider_transitions Kd_whatsapp @ provider_transitions Kd_channel"

definition next_status :: "step_kind \<Rightarrow> step_status \<Rightarrow> onb_command \<Rightarrow> step_status option" where
  "next_status k s c = map_of transitions (k, s, c)"

fun kind_str :: "step_kind \<Rightarrow> string" where
  "kind_str Kd_profile = ''profile''"
| "kind_str Kd_email = ''email_identity''"
| "kind_str Kd_whatsapp = ''whatsapp_identity''"
| "kind_str Kd_channel = ''primary_channel''"
| "kind_str Kd_runtime = ''runtime''"

fun option_str :: "email_option \<Rightarrow> string" where
  "option_str Eo_managed = ''managed_abrolia''"
| "option_str Eo_gmail = ''gmail''"
| "option_str Eo_domain = ''own_domain''"

definition user_steps :: "step_kind list" where "user_steps = [Kd_email, Kd_whatsapp, Kd_channel]"

definition job_kind_of :: "step_kind \<Rightarrow> string" where
  "job_kind_of k = (if k = Kd_channel then ''channel_binding'' else kind_str k)"

section \<open>The service\<close>

record onb_env =
  oe_auth :: auth_env
  oe_jobs :: job_env
  oe_mail :: "email_env option"
  oe_uuid :: "cpdb \<Rightarrow> uid"
  oe_sha :: "json \<Rightarrow> string"
  oe_text_sha :: "string \<Rightarrow> string"
  oe_getenv :: "string \<Rightarrow> string option"
  oe_valid :: "step_kind \<Rightarrow> json \<Rightarrow> json option"
  oe_synthetic :: bool
  oe_runtime_provider :: string
  oe_email_provider :: string
  oe_gmail_provider :: string
  oe_byo_provider :: string
  oe_real_email :: bool
  oe_allowlist :: "uid list"
  oe_all_households :: bool
  oe_gmail_allowed :: "(uid \<Rightarrow> bool) option"

record command_context =
  cmx_account :: uid
  cmx_session :: string
  cmx_request :: string
  cmx_key :: string
  cmx_expected :: nat

section \<open>Answers and the journal\<close>

definition key_of :: "onb_env \<Rightarrow> command_context \<Rightarrow> string" where
  "key_of E c = ae_lookup (oe_auth E) (cmx_key c)"

definition replay :: "onb_env \<Rightarrow> command_context \<Rightarrow> string \<Rightarrow> string \<Rightarrow> time \<Rightarrow> onboarding_snapshot option onb" where
  "replay E c route sha now d =
     (let mine = same_command (cmx_account c) route (key_of E c)
      in case find mine (c_replies d) of
           None \<Rightarrow> (Inr None, d)
         | Some r \<Rightarrow>
             if idm_expires_at r \<le> now
             then (Inr None, d\<lparr>c_replies := tbl_delete (\<lambda>x. mine x \<and> idm_expires_at x \<le> now) (c_replies d)\<rparr>)
             else if idm_sha r \<noteq> sha then (Inl (Ob_replay ''idempotency key was already used with another body''), d)
             else (case idm_body r of
                     Rb_household p \<Rightarrow> (Inl Ob_invalid, d)
                   | Rb_snapshot s \<Rightarrow> (Inr (Some (s\<lparr>sn_synthetic := oe_synthetic E\<rparr>)), d)))"

definition remember :: "onb_env \<Rightarrow> command_context \<Rightarrow> string \<Rightarrow> string \<Rightarrow> onboarding_snapshot \<Rightarrow> time \<Rightarrow> cpdb \<Rightarrow> cpdb" where
  "remember E c route sha s now d =
     d\<lparr>c_replies := c_replies d @ [\<lparr>idm_account = cmx_account c, idm_route = route, idm_key = key_of E c, idm_sha = sha,
        idm_body = Rb_snapshot s, idm_created_at = now, idm_expires_at = now + idempotency_ttl\<rparr>]\<rparr>"

definition scoped_workflow :: "uid \<Rightarrow> uid \<Rightarrow> cpdb \<Rightarrow> cp_workflow option" where
  "scoped_workflow account hh d =
     find (\<lambda>w. wfl_household w = hh \<and> (\<exists>h \<in> set (c_households d). ch_id h = hh \<and> active_in account h d)) (c_workflows d)"

definition workflow_for_household :: "uid \<Rightarrow> cpdb \<Rightarrow> cp_workflow option" where
  "workflow_for_household hh d = find (\<lambda>w. wfl_household w = hh) (c_workflows d)"

definition step_row :: "uid \<Rightarrow> step_kind \<Rightarrow> cpdb \<Rightarrow> cp_step option" where
  "step_row wid k d = find (\<lambda>s. stp_workflow s = wid \<and> stp_kind s = k) (c_steps d)"

definition step_view :: "cp_step \<Rightarrow> step_snapshot" where
  "step_view s = \<lparr>ss_kind = stp_kind s, ss_ordinal = stp_ordinal s, ss_status = stp_status s,
     ss_selection_kind = stp_selection_kind s, ss_public = stp_public s, ss_error = stp_error s\<rparr>"

definition snapshot :: "onb_env \<Rightarrow> uid \<Rightarrow> cpdb \<Rightarrow> onboarding_snapshot option" where
  "snapshot E hh d =
     (case workflow_for_household hh d of
        None \<Rightarrow> None
      | Some w \<Rightarrow> Some \<lparr>sn_household = hh, sn_workflow = wfl_id w, sn_version = wfl_version w, sn_state = wfl_state w,
          sn_step = wfl_step w, sn_synthetic = oe_synthetic E,
          sn_steps = map step_view (sort_key stp_ordinal (filter (\<lambda>s. stp_workflow s = wfl_id w) (c_steps d)))\<rparr>)"

record moved =
  mv_command :: string
  mv_to :: workflow_state
  mv_step :: "step_kind option"
  mv_from_step :: "step_status option"
  mv_to_step :: "step_status option"
  mv_job :: "uid option"
  mv_metadata :: json

definition transition_row :: "uid \<Rightarrow> cp_workflow \<Rightarrow> uid \<Rightarrow> string option \<Rightarrow> string \<Rightarrow> moved \<Rightarrow> time \<Rightarrow> cp_transition" where
  "transition_row i w account session request mv now =
     \<lparr>trn_id = i, trn_workflow = wfl_id w, trn_version = wfl_version w + 1, trn_command = mv_command mv,
      trn_from = wfl_state w, trn_to = mv_to mv, trn_step = mv_step mv, trn_from_step = mv_from_step mv,
      trn_to_step = mv_to_step mv, trn_account = account, trn_session = session, trn_request = request,
      trn_job = mv_job mv, trn_metadata = mv_metadata mv, trn_created_at = now\<rparr>"

definition append_transition ::
  "onb_env \<Rightarrow> cp_workflow \<Rightarrow> uid \<Rightarrow> string option \<Rightarrow> string \<Rightarrow> moved \<Rightarrow> time \<Rightarrow> unit onb" where
  "append_transition E w account session request mv now d =
     (let r = transition_row (oe_uuid E d) w account session request mv now
      in if \<exists>x \<in> set (c_transitions d). trn_id x = trn_id r \<or>
              trn_workflow x = trn_workflow r \<and> trn_version x = trn_version r
         then (Inl Ob_integrity, d) else (Inr (), d\<lparr>c_transitions := c_transitions d @ [r]\<rparr>))"

section \<open>One command\<close>

text \<open>What every command does before its own work, and what it ends with.\<close>

definition run_command ::
  "onb_env \<Rightarrow> command_context \<Rightarrow> string \<Rightarrow> string \<Rightarrow> uid \<Rightarrow> time \<Rightarrow> (cp_workflow \<Rightarrow> onboarding_snapshot onb) \<Rightarrow>
   (onboarding_snapshot \<times> bool) onb" where
  "run_command E c route sha hh now body =
     write_tx
       (andthen (replay E c route sha now) (\<lambda>r.
          case r of
            Some s \<Rightarrow> answer (s, True)
          | None \<Rightarrow>
              andthen (found (Ob_missing hh) (scoped_workflow (cmx_account c) hh)) (\<lambda>w.
              andthen (body w) (\<lambda>s.
              andthen (edit (remember E c route sha s now)) (\<lambda>u.
              answer (s, False))))))"

definition put_workflow :: "uid \<Rightarrow> (cp_workflow \<Rightarrow> cp_workflow) \<Rightarrow> cpdb \<Rightarrow> cpdb" where
  "put_workflow wid f d = d\<lparr>c_workflows := tbl_update (\<lambda>x. wfl_id x = wid) f (c_workflows d)\<rparr>"

definition put_step :: "uid \<Rightarrow> step_kind \<Rightarrow> (cp_step \<Rightarrow> cp_step) \<Rightarrow> cpdb \<Rightarrow> cpdb" where
  "put_step wid k f d = d\<lparr>c_steps := tbl_update (\<lambda>s. stp_workflow s = wid \<and> stp_kind s = k) f (c_steps d)\<rparr>"

definition finish_command ::
  "onb_env \<Rightarrow> command_context \<Rightarrow> uid \<Rightarrow> cp_workflow \<Rightarrow> (cp_workflow \<Rightarrow> cp_workflow) \<Rightarrow> moved \<Rightarrow> time \<Rightarrow> onboarding_snapshot onb" where
  "finish_command E c hh w f mv now =
     andthen (edit (put_workflow (wfl_id w) (\<lambda>x. (f x)\<lparr>wfl_version := wfl_version w + 1, wfl_updated_at := now\<rparr>))) (\<lambda>u.
     andthen (append_transition E w (cmx_account c) (Some (cmx_session c)) (cmx_request c) mv now) (\<lambda>u.
     found (Ob_missing hh) (snapshot E hh)))"

definition check_version :: "command_context \<Rightarrow> cp_workflow \<Rightarrow> unit onb" where
  "check_version c w = demand (wfl_version w = cmx_expected c) (Ob_stale (cmx_expected c) (wfl_version w))"

definition current_row :: "cp_workflow \<Rightarrow> step_kind \<Rightarrow> cp_step onb" where
  "current_row w k = found (Ob_crash ''step'') (step_row (wfl_id w) k)"

definition advance :: "step_kind \<Rightarrow> cp_step \<Rightarrow> onb_command \<Rightarrow> step_status onb" where
  "advance k s c = found (Ob_transition (kind_str k)) (\<lambda>d. next_status k (stp_status s) c)"

definition queue :: "onb_env \<Rightarrow> job_request \<Rightarrow> time \<Rightarrow> (uid \<times> bool) onb" where
  "queue E q now = raising (\<lambda>e. Ob_integrity) (jobs_create (oe_jobs E) q now)"

fun intent :: "string list \<Rightarrow> string" where
  "intent [] = []"
| "intent [p] = p"
| "intent (p # q # ps) = p @ '':'' @ intent (q # ps)"

section \<open>Which options are on offer\<close>

definition flag_enabled :: "onb_env \<Rightarrow> string \<Rightarrow> bool" where
  "flag_enabled E name = (py_strip (case oe_getenv E name of None \<Rightarrow> ''0'' | Some v \<Rightarrow> v) = ''1'')"

definition provider_flags :: "(string \<times> string) list" where
  "provider_flags = [(''byo_email'', ''ABROLIA_BYO_EMAIL_ENABLED''), (''gmail'', ''ABROLIA_GMAIL_ENABLED''),
     (''whatsapp_shared'', ''ABROLIA_WHATSAPP_SHARED_ENABLED'')]"

definition provider_enabled :: "onb_env \<Rightarrow> string \<Rightarrow> bool" where
  "provider_enabled E p = (case map_of provider_flags p of None \<Rightarrow> False | Some v \<Rightarrow> flag_enabled E v)"

definition cut_email_options :: "(string \<times> string \<times> string) list" where
  "cut_email_options = [(''gmail_agent'', ''google-oauth'', ''gmail''), (''family_domain'', ''nerve-byo-domain'', ''byo_email'')]"

definition gated_email_options :: "(string \<times> string) list" where
  "gated_email_options = map (\<lambda>(k, p, f). (k, f)) cut_email_options"

definition provider_for :: "onb_env \<Rightarrow> step_kind \<Rightarrow> string \<Rightarrow> string" where
  "provider_for E k sk =
     (if k = Kd_whatsapp \<and> sk = ''disabled'' then ''local-configuration''
      else if \<not> oe_synthetic E \<and> k = Kd_channel \<and> sk = ''web'' then ''local-configuration''
      else if k = Kd_email \<and> sk = ''family_domain'' then oe_byo_provider E
      else if k = Kd_email \<and> sk = ''gmail_agent'' then oe_gmail_provider E
      else if k = Kd_email then oe_email_provider E
      else if k = Kd_whatsapp then ''fake-whatsapp'' else ''fake-channel'')"

definition option_refusal :: "onb_env \<Rightarrow> string \<Rightarrow> uid option \<Rightarrow> onb_error option" where
  "option_refusal E option account =
     (if \<not> oe_synthetic E \<and> \<not> oe_real_email E \<and> option \<noteq> ''gmail_agent''
      then Some (Ob_transition ''Email setup is temporarily unavailable'')
      else case map_of gated_email_options option of
             None \<Rightarrow> None
           | Some flag \<Rightarrow>
               if \<not> provider_enabled E flag
               then Some (Ob_transition (''provider '' @ flag @ '' disabled by flag (fail-closed)''))
               else (case (account, oe_gmail_allowed E) of
                       (Some a, Some allowed) \<Rightarrow>
                         if option = ''gmail_agent'' \<and> \<not> allowed a
                         then Some (Ob_transition ''Gmail is not available for this account yet; choose another option'')
                         else None
                     | _ \<Rightarrow> None))"

definition email_option_offered :: "onb_env \<Rightarrow> string \<Rightarrow> uid option \<Rightarrow> bool" where
  "email_option_offered E option account \<longleftrightarrow> option_refusal E option account = None"

section \<open>Real content\<close>

definition synthetic_email_providers :: "string list" where
  "synthetic_email_providers = [''fake-email'', ''synthetic'']"

definition processes_real_content :: "string option \<Rightarrow> bool" where
  "processes_real_content p = (case str_or_none p of None \<Rightarrow> True | Some s \<Rightarrow> s \<notin> set synthetic_email_providers)"

definition option_processes_real_content :: "onb_env \<Rightarrow> string \<Rightarrow> bool" where
  "option_processes_real_content E option = processes_real_content (Some (provider_for E Kd_email option))"

text \<open>The recorded results; \<open>True\<close> where no prerequisite is outstanding.\<close>

definition art9_determinations :: "(string \<times> bool) list" where
  "art9_determinations = [(''DE'', True), (''NL'', True), (''ES'', True), (''IT'', False)]"

definition upper_char :: "char \<Rightarrow> char" where
  "upper_char c = (let n = of_char c :: nat in if 97 \<le> n \<and> n \<le> 122 then char_of (n - 32) else c)"

definition country_refused :: "string option \<Rightarrow> bool" where
  "country_refused country =
     (case str_or_none country of
        None \<Rightarrow> True
      | Some c \<Rightarrow> map_of art9_determinations (map upper_char c) \<noteq> Some True)"

definition permitted_countries :: "string list" where
  "permitted_countries = map fst (filter snd art9_determinations)"

definition restriction_purpose :: string where "restriction_purpose = ''special_category_content_restriction''"
definition content_purpose :: string where "content_purpose = ''special_category_household_content''"

definition consent_versions :: "(string \<times> string) list" where
  "consent_versions =
     [(restriction_purpose, ''special-category-content-restriction-v2''),
      (content_purpose, ''special-category-household-content-v1''),
      (''whatsapp_channel_privacy'', ''whatsapp-channel-privacy-v1''),
      (''whatsapp_linked_device_risk'', ''whatsapp-linked-device-risk-v1'')]"

definition consent_version :: "string \<Rightarrow> string" where
  "consent_version purpose = (case map_of consent_versions purpose of None \<Rightarrow> [] | Some v \<Rightarrow> v)"

definition consent_fields :: "string list" where
  "consent_fields = [''special_category_restriction_acknowledged'', ''special_category_restriction_receipt_id'',
     ''special_category_restriction_text_version'', ''special_category_restriction_text_sha256'',
     ''special_category_household_consent'', ''special_category_household_receipt_id'',
     ''special_category_household_text_version'', ''special_category_household_text_sha256'']"

definition provider_safe_selection :: "step_kind \<Rightarrow> json \<Rightarrow> json" where
  "provider_safe_selection k sel =
     (if k \<noteq> Kd_email then sel
      else case sel of JObj d \<Rightarrow> JObj (filter (\<lambda>(n, v). n \<notin> set consent_fields) d) | _ \<Rightarrow> sel)"

definition ticked :: "json \<Rightarrow> string \<Rightarrow> bool" where "ticked sel k \<longleftrightarrow> jget sel k = JBool True"

definition rollout_refusal :: "onb_env \<Rightarrow> uid \<Rightarrow> json \<Rightarrow> uid \<Rightarrow> cpdb \<Rightarrow> onb_error option" where
  "rollout_refusal E hh sel account d =
     (let option = jtext sel ''kind''
      in case option_refusal E option (Some account) of
           Some e \<Rightarrow> Some e
         | None \<Rightarrow>
             if \<not> processes_real_content (Some (provider_for E Kd_email option)) then None
             else if oe_real_email E \<and> \<not> oe_all_households E \<and> option \<noteq> ''gmail_agent'' \<and> hh \<notin> set (oe_allowlist E)
             then Some (Ob_transition (''real email is not enabled for this household yet (household '' @ hh @
               ''). Ask the operator to enable it, then choose this option again.''))
             else if \<not> ticked sel ''special_category_restriction_acknowledged'' \<or>
                  jtext sel ''special_category_restriction_receipt_id'' = []
             then Some (Ob_transition ''real email requires the special-category content restriction receipt'')
             else if \<not> ticked sel ''special_category_household_consent'' \<or>
                  jtext sel ''special_category_household_receipt_id'' = []
             then Some (Ob_transition ''real email requires the Art 9(2)(a) household content consent'')
             else if country_refused (profile_country hh d) then Some (Ob_transition ''real email is not permitted'')
             else None)"

section \<open>Receipts\<close>

definition current_receipt :: "onb_env \<Rightarrow> uid \<Rightarrow> string \<Rightarrow> cpdb \<Rightarrow> bool" where
  "current_receipt E hh purpose d \<longleftrightarrow>
     (\<exists>r \<in> set (c_receipts d). rct_household r = Some hh \<and> rct_purpose r = purpose \<and>
        rct_version r = consent_version purpose \<and> rct_sha r = oe_text_sha E purpose \<and> rct_revoked_at r = None)"

definition required_purposes :: "string option \<Rightarrow> bool \<Rightarrow> bool \<Rightarrow> string list" where
  "required_purposes provider dedicated whatsapp =
     [restriction_purpose] @ (if whatsapp then [''whatsapp_channel_privacy''] else []) @
     (if whatsapp \<and> dedicated then [''whatsapp_linked_device_risk''] else []) @
     (if processes_real_content provider then [content_purpose] else [])"

definition manifest_purposes :: "json \<Rightarrow> string list" where
  "manifest_purposes manifest =
     (let declared = (case jget (jget manifest ''consent'') ''required_purposes'' of JArr xs \<Rightarrow> List.map_filter jstr xs | _ \<Rightarrow> []);
          known = filter (\<lambda>p. p \<in> fst ` set consent_versions) declared
      in if restriction_purpose \<in> set known then known else known @ [restriction_purpose])"

definition consent_receipt :: "onb_env \<Rightarrow> uid \<Rightarrow> uid \<Rightarrow> uid \<Rightarrow> string \<Rightarrow> string \<Rightarrow> time \<Rightarrow> cp_receipt" where
  "consent_receipt E i hh account purpose locale now =
     \<lparr>rct_id = i, rct_household = Some hh, rct_account = Some account, rct_purpose = purpose,
      rct_version = consent_version purpose, rct_sha = oe_text_sha E purpose, rct_locale = locale, rct_accepted_at = now,
      rct_revoked_at = None, rct_created_at = now\<rparr>"

definition same_receipt :: "onb_env \<Rightarrow> uid \<Rightarrow> uid \<Rightarrow> string \<Rightarrow> bool \<Rightarrow> cp_receipt \<Rightarrow> bool" where
  "same_receipt E hh account purpose texts r \<longleftrightarrow>
     rct_household r = Some hh \<and> rct_account r = Some account \<and> rct_purpose r = purpose \<and>
     (texts \<longrightarrow> rct_version r = consent_version purpose \<and> rct_sha r = oe_text_sha E purpose)"

definition keep_receipt :: "onb_env \<Rightarrow> uid \<Rightarrow> uid \<Rightarrow> uid \<Rightarrow> string \<Rightarrow> bool \<Rightarrow> string \<Rightarrow> time \<Rightarrow> unit onb" where
  "keep_receipt E i hh account purpose texts locale now d =
     (case tbl_get rct_id i (c_receipts d) of
        Some r \<Rightarrow> (if same_receipt E hh account purpose texts r then (Inr (), d)
                   else (Inl (Ob_replay ''consent receipt belongs to another command''), d))
      | None \<Rightarrow> (Inr (), d\<lparr>c_receipts := c_receipts d @ [consent_receipt E i hh account purpose locale now]\<rparr>))"

definition record_email_receipt ::
  "onb_env \<Rightarrow> json \<Rightarrow> uid \<Rightarrow> uid \<Rightarrow> string \<Rightarrow> string \<Rightarrow> string \<Rightarrow> string \<Rightarrow> time \<Rightarrow> unit onb" where
  "record_email_receipt E sel hh account purpose field accepted mismatch now =
     (let i = jtext sel (field @ ''_receipt_id'')
      in if \<not> ticked sel accepted \<or> i = [] then answer ()
         else if jget sel (field @ ''_text_version'') \<noteq> JStr (consent_version purpose) \<or>
              jget sel (field @ ''_text_sha256'') \<noteq> JStr (oe_text_sha E purpose)
         then fail_with (Ob_transition mismatch)
         else keep_receipt E i hh account purpose True ''en'' now)"

definition record_email_receipts :: "onb_env \<Rightarrow> json \<Rightarrow> uid \<Rightarrow> uid \<Rightarrow> time \<Rightarrow> unit onb" where
  "record_email_receipts E sel hh account now =
     andthen (record_email_receipt E sel hh account restriction_purpose ''special_category_restriction''
        ''special_category_restriction_acknowledged''
        ''special-category content restriction text version does not match'' now) (\<lambda>u.
     record_email_receipt E sel hh account content_purpose ''special_category_household''
        ''special_category_household_consent''
        ''Art 9(2)(a) household content consent text version does not match'' now)"

definition record_whatsapp_consents :: "onb_env \<Rightarrow> json \<Rightarrow> uid \<Rightarrow> uid \<Rightarrow> string \<Rightarrow> time \<Rightarrow> unit onb" where
  "record_whatsapp_consents E sel hh account locale now =
     andthen (keep_receipt E (jtext sel ''privacy_notice_receipt_id'') hh account ''whatsapp_channel_privacy'' False locale now) (\<lambda>u.
     if jget sel ''kind'' = JStr ''dedicated_number''
     then keep_receipt E (jtext sel ''linked_device_risk_receipt_id'') hh account ''whatsapp_linked_device_risk'' False locale now
     else answer ())"

section \<open>The profile\<close>

definition profile_route :: string where "profile_route = ''/api/v1/onboarding/profile''"

definition profile_json :: "profile_input \<Rightarrow> json" where
  "profile_json p = JObj [(''first_name'', JStr (pin_first p)), (''last_name'', JStr (pin_last p)),
     (''family_language'', JStr (pin_language p)), (''timezone'', JStr (pin_timezone p)),
     (''country_code'', JStr (pin_country p)), (''residency_mode'', JStr (pin_residency p))]"

definition namespace_request :: "onb_env \<Rightarrow> uid \<Rightarrow> uid \<Rightarrow> string \<Rightarrow> job_request" where
  "namespace_request E hh wid key =
     \<lparr>jq_household = hh, jq_workflow = wid, jq_kind = ''runtime'', jq_operation = ''ensure_secret_namespace'',
      jq_intent = key, jq_request = JObj [(''household_id'', JStr hh)], jq_provider = oe_runtime_provider E, jq_revision = None\<rparr>"

definition save_profile_body ::
  "onb_env \<Rightarrow> command_context \<Rightarrow> uid \<Rightarrow> profile_input \<Rightarrow> time \<Rightarrow> cp_workflow \<Rightarrow> onboarding_snapshot onb" where
  "save_profile_body E c hh p now w =
     andthen (check_version c w) (\<lambda>u.
     andthen (current_row w Kd_profile) (\<lambda>s.
     andthen (advance Kd_profile s Cmd_save_profile) (\<lambda>ns.
     andthen (raising Ob_profile (save_household_profile (oe_auth E) hh p now)) (\<lambda>u.
     andthen (queue E (namespace_request E hh (wfl_id w) (intent [hh, ''secret-namespace''])) now) (\<lambda>job.
     andthen (edit (put_step (wfl_id w) Kd_profile (\<lambda>r. r\<lparr>stp_status := ns,
        stp_public := JObj [(''state'', JStr ''complete'')], stp_updated_at := now\<rparr>))) (\<lambda>u.
     andthen (edit (put_step (wfl_id w) Kd_email (\<lambda>r. if stp_status r = St_locked
        then r\<lparr>stp_status := St_available, stp_updated_at := now\<rparr> else r))) (\<lambda>u.
     finish_command E c hh w (\<lambda>x. x\<lparr>wfl_state := Wf_in_progress, wfl_step := Kd_email\<rparr>)
       \<lparr>mv_command = ''save_profile'', mv_to = Wf_in_progress, mv_step = Some Kd_profile,
        mv_from_step = Some (stp_status s), mv_to_step = Some ns, mv_job = Some (fst job), mv_metadata = JObj []\<rparr> now)))))))"

definition onb_save_profile ::
  "onb_env \<Rightarrow> command_context \<Rightarrow> uid \<Rightarrow> profile_input \<Rightarrow> time \<Rightarrow> (onboarding_snapshot \<times> bool) onb" where
  "onb_save_profile E c hh p now =
     run_command E c profile_route (oe_sha E (profile_json p)) hh now (save_profile_body E c hh p now)"

section \<open>Choosing\<close>

definition step_route :: "step_kind \<Rightarrow> string \<Rightarrow> string" where
  "step_route k command = ''/api/v1/onboarding/steps/'' @ kind_str k @ ''/'' @ command"

definition channel_identity :: "onb_env \<Rightarrow> uid \<Rightarrow> string \<times> string" where
  "channel_identity E hh =
     (if oe_synthetic E then (''synthetic-owner.'' @ hh, ''synthetic-chat.'' @ hh)
      else (''web-owner.'' @ hh, ''web-chat.'' @ hh))"

definition parse_selection :: "onb_env \<Rightarrow> step_kind \<Rightarrow> json \<Rightarrow> uid \<Rightarrow> onb_error + json" where
  "parse_selection E k sel hh =
     (if k \<notin> set user_steps then Inl (Ob_transition (kind_str k @ '' is not a selectable user step''))
      else if \<not> oe_synthetic E \<and> k = Kd_whatsapp \<and> jget sel ''kind'' \<noteq> JStr ''disabled''
      then Inl (Ob_conflict ''WhatsApp is not available; continue without connecting it'')
      else if \<not> oe_synthetic E \<and> k = Kd_channel \<and> jget sel ''kind'' \<noteq> JStr ''web''
      then Inl (Ob_conflict ''Only web chat is available'')
      else case oe_valid E k
             (if k = Kd_channel
              then jset (jset sel ''actor_id'' (JStr (fst (channel_identity E hh)))) ''chat_id'' (JStr (snd (channel_identity E hh)))
              else sel) of
             None \<Rightarrow> Inl Ob_invalid
           | Some p \<Rightarrow> Inr p)"

definition email_choice_of :: "json \<Rightarrow> email_choice option" where
  "email_choice_of sel =
     (if jtext sel ''kind'' = ''abrolia_managed'' then Some (Choose_managed (jtext sel ''local_part''))
      else if jtext sel ''kind'' = ''gmail_agent'' then Some Choose_gmail
      else if jtext sel ''kind'' = ''family_domain'' then Some (Choose_domain (jtext sel ''local_part'') (jtext sel ''domain''))
      else None)"

definition choose_email :: "onb_env \<Rightarrow> uid \<Rightarrow> step_kind \<Rightarrow> json \<Rightarrow> time \<Rightarrow> cp_email option onb" where
  "choose_email E hh k sel now =
     (case oe_mail E of
        None \<Rightarrow> answer None
      | Some M \<Rightarrow>
          if k \<noteq> Kd_email then answer None
          else case email_choice_of sel of
                 None \<Rightarrow> fail_with (Ob_crash ''kind'')
               | Some ch \<Rightarrow> andthen (raising Ob_email (select_email M hh ch now)) (\<lambda>r. answer (Some r)))"

definition record_consents :: "onb_env \<Rightarrow> uid \<Rightarrow> uid \<Rightarrow> step_kind \<Rightarrow> json \<Rightarrow> time \<Rightarrow> unit onb" where
  "record_consents E hh account k sel now =
     (if k = Kd_email then record_email_receipts E sel hh account now
      else if k = Kd_whatsapp \<and> jget sel ''kind'' \<noteq> JStr ''disabled''
      then andthen (found (Ob_crash ''household'') (households_get hh)) (\<lambda>h.
           record_whatsapp_consents E sel hh account (case str_or_none (ch_language h) of None \<Rightarrow> ''en'' | Some l \<Rightarrow> l) now)
      else answer ())"

definition email_part :: "uid \<Rightarrow> cp_email option \<Rightarrow> (string \<times> json) list" where
  "email_part hh e =
     (case e of None \<Rightarrow> []
      | Some r \<Rightarrow> [(''email_identity_id'', JStr (eid_id r)), (''household_id'', JStr hh), (''option'', JStr (option_str (eid_option r)))])"

definition attempt_intent :: "uid \<Rightarrow> step_kind \<Rightarrow> cp_email option \<Rightarrow> string \<Rightarrow> nat \<Rightarrow> string" where
  "attempt_intent hh k e sk attempt =
     intent ([hh, kind_str k] @ (case e of None \<Rightarrow> [] | Some r \<Rightarrow> [eid_id r]) @ [sk, nat_digits attempt])"

definition ensure_request :: "onb_env \<Rightarrow> uid \<Rightarrow> uid \<Rightarrow> step_kind \<Rightarrow> cp_email option \<Rightarrow> json \<Rightarrow> nat \<Rightarrow> job_request" where
  "ensure_request E hh wid k e sel attempt =
     \<lparr>jq_household = hh, jq_workflow = wid, jq_kind = job_kind_of k, jq_operation = ''ensure'',
      jq_intent = attempt_intent hh k e (jtext sel ''kind'') attempt,
      jq_request = JObj ([(''step_kind'', JStr (kind_str k)), (''selection'', provider_safe_selection k sel),
        (''attempt'', JInt (int attempt))] @ email_part hh e),
      jq_provider = provider_for E k (jtext sel ''kind''), jq_revision = None\<rparr>"

definition select_body ::
  "onb_env \<Rightarrow> command_context \<Rightarrow> uid \<Rightarrow> step_kind \<Rightarrow> json \<Rightarrow> time \<Rightarrow> cp_workflow \<Rightarrow> onboarding_snapshot onb" where
  "select_body E c hh k sel now w =
     andthen (refuse_on (\<lambda>d. if k = Kd_email then rollout_refusal E hh sel (cmx_account c) d else None)) (\<lambda>u.
     andthen (check_version c w) (\<lambda>u.
     andthen (demand (wfl_step w = k) (Ob_transition ''onboarding steps cannot be skipped or reordered'')) (\<lambda>u.
     andthen (current_row w k) (\<lambda>s.
     andthen (record_consents E hh (cmx_account c) k sel now) (\<lambda>u.
     andthen (choose_email E hh k sel now) (\<lambda>e.
     andthen (advance k s Cmd_select) (\<lambda>ns.
     andthen (queue E (ensure_request E hh (wfl_id w) k e sel (stp_attempt s + 1)) now) (\<lambda>job.
     andthen (edit (put_step (wfl_id w) k (\<lambda>r. r\<lparr>stp_status := ns, stp_selection_kind := Some (jtext sel ''kind''),
        stp_selection := Some sel, stp_result := None,
        stp_public := JObj [(''state'', JStr ''setting_up''), (''option'', JStr (jtext sel ''kind''))],
        stp_error := None, stp_attempt := stp_attempt s + 1, stp_updated_at := now\<rparr>))) (\<lambda>u.
     finish_command E c hh w id
       \<lparr>mv_command = ''select'', mv_to = wfl_state w, mv_step = Some k, mv_from_step = Some (stp_status s),
        mv_to_step = Some ns, mv_job = Some (fst job),
        mv_metadata = JObj [(''selection_kind'', JStr (jtext sel ''kind''))]\<rparr> now)))))))))"

definition onb_select ::
  "onb_env \<Rightarrow> command_context \<Rightarrow> uid \<Rightarrow> step_kind \<Rightarrow> json \<Rightarrow> time \<Rightarrow> (onboarding_snapshot \<times> bool) onb" where
  "onb_select E c hh k selection now =
     (case parse_selection E k selection hh of
        Inl e \<Rightarrow> fail_with e
      | Inr sel \<Rightarrow> run_command E c (step_route k ''select'') (oe_sha E sel) hh now (select_body E c hh k sel now))"

section \<open>Trying again\<close>

definition live_resource :: "resource_status \<Rightarrow> bool" where
  "live_resource s \<longleftrightarrow> s \<in> {Er_creating, Er_ready, Er_outcome_unknown}"

definition has_namespace :: "uid \<Rightarrow> cpdb \<Rightarrow> bool" where
  "has_namespace hh d \<longleftrightarrow>
     (\<exists>r \<in> set (c_resources d). res_household r = hh \<and> res_type r = ''secret_namespace'' \<and> live_resource (res_status r))"

definition unsettled_namespace :: "uid \<Rightarrow> cpdb \<Rightarrow> bool" where
  "unsettled_namespace hh d \<longleftrightarrow>
     (\<exists>j \<in> set (c_jobs d). jb_household j = hh \<and> jb_operation j = ''ensure_secret_namespace'' \<and>
        jb_status j \<in> {Jb_pending, Jb_running, Jb_outcome_unknown})"

definition retry_email :: "onb_env \<Rightarrow> uid \<Rightarrow> uid \<Rightarrow> step_kind \<Rightarrow> nat \<Rightarrow> time \<Rightarrow> cp_email option onb" where
  "retry_email E hh wid k attempt now =
     (if k \<noteq> Kd_email \<or> oe_mail E = None then answer None
      else
        andthen (found (Ob_transition ''email retry has no durable identity'') (current_for_household hh)) (\<lambda>r.
        andthen (raising Ob_email (retry_provisioning (eid_id r) now)) (\<lambda>u.
        andthen (look (\<lambda>d. \<not> has_namespace hh d \<and> \<not> unsettled_namespace hh d)) (\<lambda>missing.
        if missing
        then andthen (queue E (namespace_request E hh wid (intent [hh, ''secret-namespace'', ''retry'', nat_digits attempt])) now)
               (\<lambda>j. answer (Some r))
        else answer (Some r)))))"

definition retry_body ::
  "onb_env \<Rightarrow> command_context \<Rightarrow> uid \<Rightarrow> step_kind \<Rightarrow> json \<Rightarrow> time \<Rightarrow> cp_workflow \<Rightarrow> onboarding_snapshot onb" where
  "retry_body E c hh k sel now w =
     andthen (refuse_on (\<lambda>d. if k = Kd_email then rollout_refusal E hh sel (cmx_account c) d else None)) (\<lambda>u.
     andthen (check_version c w) (\<lambda>u.
     andthen (current_row w k) (\<lambda>s.
     andthen (advance k s Cmd_retry) (\<lambda>ns.
     andthen (retry_email E hh (wfl_id w) k (stp_attempt s + 1) now) (\<lambda>e.
     andthen (queue E (ensure_request E hh (wfl_id w) k e sel (stp_attempt s + 1))
        (now + (if k = Kd_email then 0.000001 else 0))) (\<lambda>job.
     andthen (edit (put_step (wfl_id w) k (\<lambda>r. r\<lparr>stp_status := ns, stp_error := None, stp_attempt := stp_attempt s + 1,
        stp_public := JObj [(''state'', JStr ''setting_up''), (''option'', JStr (jtext sel ''kind''))],
        stp_updated_at := now\<rparr>))) (\<lambda>u.
     finish_command E c hh w id
       \<lparr>mv_command = ''retry'', mv_to = wfl_state w, mv_step = Some k, mv_from_step = Some (stp_status s),
        mv_to_step = Some ns, mv_job = Some (fst job), mv_metadata = JObj []\<rparr> now)))))))"

definition onb_retry ::
  "onb_env \<Rightarrow> command_context \<Rightarrow> uid \<Rightarrow> step_kind \<Rightarrow> time \<Rightarrow> (onboarding_snapshot \<times> bool) onb" where
  "onb_retry E c hh k now d =
     (case authorized (cmx_account c) hh d of
        Inl e \<Rightarrow> (Inl (Ob_missing hh), d)
      | Inr h \<Rightarrow>
          (case workflow_for_household hh d of
             None \<Rightarrow> (Inl (Ob_missing hh), d)
           | Some w \<Rightarrow>
               (case step_row (wfl_id w) k d of
                  None \<Rightarrow> (Inl (Ob_missing (wfl_id w)), d)
                | Some s \<Rightarrow>
                    (case stp_selection s of
                       None \<Rightarrow> (Inl (Ob_transition ''failed step has no durable selection to retry''), d)
                     | Some selection \<Rightarrow>
                         (case parse_selection E k selection hh of
                            Inl e \<Rightarrow> (Inl e, d)
                          | Inr sel \<Rightarrow>
                              run_command E c (step_route k ''retry'') (oe_sha E sel) hh now (retry_body E c hh k sel now) d)))))"

section \<open>Asking a provider again\<close>

definition latest_job :: "(cp_job \<Rightarrow> bool) \<Rightarrow> cpdb \<Rightarrow> cp_job option" where
  "latest_job P d = (case rev (sort_key job_order (filter P (c_jobs d))) of [] \<Rightarrow> None | r # rs \<Rightarrow> Some r)"

definition stable_ref :: "cp_job \<Rightarrow> json" where
  "stable_ref j =
     (if jb_operation j \<noteq> ''inspect'' then JStr (jb_intent j)
      else case jb_request j of
             JObj o' \<Rightarrow> (case map_of o' ''stable_ref'' of None \<Rightarrow> JStr (jb_intent j) | Some v \<Rightarrow> v)
           | _ \<Rightarrow> JStr (jb_intent j))"

definition inspected_email :: "onb_env \<Rightarrow> uid \<Rightarrow> uid \<Rightarrow> step_kind \<Rightarrow> (string \<times> json) list onb" where
  "inspected_email E hh wid k =
     (if k \<noteq> Kd_email \<or> oe_mail E = None then answer []
      else
        andthen (found (Ob_transition ''email check has no durable identity'') (current_for_household hh)) (\<lambda>r.
        andthen (found (Ob_missing wid) (step_row wid k)) (\<lambda>s.
        answer (email_part hh (Some r) @ [(''selection'', (case stp_selection s of None \<Rightarrow> JNull | Some v \<Rightarrow> provider_safe_selection k v))]))))"

definition inspect_request ::
  "onb_env \<Rightarrow> uid \<Rightarrow> cp_workflow \<Rightarrow> step_kind \<Rightarrow> nat \<Rightarrow> cp_job \<Rightarrow> (string \<times> json) list \<Rightarrow> job_request" where
  "inspect_request E hh w k attempt j extra =
     \<lparr>jq_household = hh, jq_workflow = wfl_id w, jq_kind = job_kind_of k, jq_operation = ''inspect'',
      jq_intent = intent [hh, kind_str k, ''inspect'', nat_digits attempt, nat_digits (wfl_version w + 1)],
      jq_request = JObj ([(''step_kind'', JStr (kind_str k)), (''stable_ref'', stable_ref j), (''attempt'', JInt (int attempt))] @ extra),
      jq_provider = jb_provider j, jq_revision = None\<rparr>"

definition cancel_waiting :: "uid \<Rightarrow> time \<Rightarrow> cpdb \<Rightarrow> cpdb" where
  "cancel_waiting i now d =
     d\<lparr>c_jobs := tbl_update (\<lambda>r. jb_id r = i \<and> jb_status r = Jb_waiting_user)
        (\<lambda>r. r\<lparr>jb_status := Jb_cancelled, jb_settled_at := Some now, jb_updated_at := now\<rparr>) (c_jobs d)\<rparr>"

definition check_body ::
  "onb_env \<Rightarrow> command_context \<Rightarrow> uid \<Rightarrow> step_kind \<Rightarrow> time \<Rightarrow> cp_workflow \<Rightarrow> onboarding_snapshot onb" where
  "check_body E c hh k now w =
     andthen (check_version c w) (\<lambda>u.
     andthen (demand (wfl_step w = k) (Ob_transition ''only the current waiting step can be checked'')) (\<lambda>u.
     andthen (current_row w k) (\<lambda>s.
     andthen (advance k s Cmd_check) (\<lambda>ns.
     andthen (found (Ob_transition ''waiting step has no inspectable provider intent'')
        (latest_job (\<lambda>r. jb_workflow r = wfl_id w \<and> jb_kind r = job_kind_of k \<and> jb_status r = Jb_waiting_user))) (\<lambda>j.
     andthen (edit (cancel_waiting (jb_id j) now)) (\<lambda>u.
     andthen (inspected_email E hh (wfl_id w) k) (\<lambda>extra.
     andthen (queue E (inspect_request E hh w k (stp_attempt s) j extra) now) (\<lambda>job.
     andthen (edit (put_step (wfl_id w) k (\<lambda>r. r\<lparr>stp_status := ns, stp_public := JObj [(''state'', JStr ''checking'')],
        stp_error := None, stp_updated_at := now\<rparr>))) (\<lambda>u.
     finish_command E c hh w id
       \<lparr>mv_command = ''check'', mv_to = wfl_state w, mv_step = Some k, mv_from_step = Some (stp_status s),
        mv_to_step = Some ns, mv_job = Some (fst job), mv_metadata = JObj []\<rparr> now)))))))))"

definition onb_check ::
  "onb_env \<Rightarrow> command_context \<Rightarrow> uid \<Rightarrow> step_kind \<Rightarrow> time \<Rightarrow> (onboarding_snapshot \<times> bool) onb" where
  "onb_check E c hh k now =
     (if k \<notin> set user_steps then fail_with (Ob_transition ''only a user identity/channel step can be checked'')
      else run_command E c (step_route k ''check'') (oe_sha E (JObj [(''kind'', JStr (kind_str k))])) hh now
             (check_body E c hh k now))"

section \<open>Taking resources down\<close>

definition cleanup_rank :: "string \<Rightarrow> nat" where
  "cleanup_rank t =
     (case map_of [(''email_identity'', 5), (''whatsapp_identity'', 4), (''channel_binding'', 3), (''runtime'', 2),
        (''secret_namespace'', 1)] t of None \<Rightarrow> 0 | Some n \<Rightarrow> n)"

definition cleanup_order :: "cp_resource \<Rightarrow> nat \<times> time \<times> uid" where
  "cleanup_order r = (cleanup_rank (res_type r), res_created_at r, res_id r)"

definition to_clean :: "uid \<Rightarrow> string list option \<Rightarrow> cpdb \<Rightarrow> cp_resource list" where
  "to_clean hh types d =
     rev (sort_key cleanup_order
       (filter (\<lambda>r. res_household r = hh \<and> live_resource (res_status r) \<and>
          (case types of None \<Rightarrow> True | Some ts \<Rightarrow> res_type r \<in> set ts)) (c_resources d)))"

definition cleanup_ref :: "cp_resource \<Rightarrow> json" where
  "cleanup_ref r =
     (if res_type r \<noteq> ''runtime'' then res_external r
      else case res_external r of
             JObj o' \<Rightarrow> JObj (filter (\<lambda>(k, v). k \<noteq> ''config_sha256'') o')
           | v \<Rightarrow> v)"

definition synthetic_email_secret :: string where "synthetic_email_secret = ''ABROLIA_EMAIL_PROVIDER_KEY''"

definition cleanup_request ::
  "uid \<Rightarrow> uid \<Rightarrow> nat \<Rightarrow> uid option \<Rightarrow> uid option \<Rightarrow> cp_resource \<Rightarrow> job_request" where
  "cleanup_request hh wid version mail waiting r =
     \<lparr>jq_household = hh, jq_workflow = wid, jq_kind = ''cleanup'', jq_operation = ''deprovision'',
      jq_intent = intent [hh, ''cleanup'', res_id r, nat_digits version],
      jq_request = JObj ([(''resource_id'', JStr (res_id r)), (''resource_type'', JStr (res_type r)), (''external_ref'', cleanup_ref r)] @
        (if res_type r \<noteq> ''email_identity'' then []
         else case mail of
                Some i \<Rightarrow> (''email_identity_id'', JStr i) # (case waiting of None \<Rightarrow> [] | Some j \<Rightarrow> [(''parent_job_id'', JStr j)])
              | None \<Rightarrow> if res_provider r = ''fake-email'' then [(''legacy_secret_binding_ref'', JStr synthetic_email_secret)] else [])),
      jq_provider = res_provider r, jq_revision = None\<rparr>"

definition mark_deleting :: "uid \<Rightarrow> time \<Rightarrow> cpdb \<Rightarrow> cpdb" where
  "mark_deleting i now d =
     d\<lparr>c_resources := tbl_update (\<lambda>r. res_id r = i) (\<lambda>r. r\<lparr>res_status := Er_deleting, res_updated_at := now\<rparr>) (c_resources d)\<rparr>"

fun queue_cleanups ::
  "onb_env \<Rightarrow> uid \<Rightarrow> uid \<Rightarrow> nat \<Rightarrow> uid option \<Rightarrow> uid option \<Rightarrow> time \<Rightarrow> nat \<Rightarrow> cp_resource list \<Rightarrow> uid list onb" where
  "queue_cleanups E hh wid version mail waiting now n [] = answer []"
| "queue_cleanups E hh wid version mail waiting now n (r # rs) =
     andthen (queue E (cleanup_request hh wid version mail waiting r) (now + real n * 0.000001)) (\<lambda>job.
     andthen (edit (mark_deleting (res_id r) now)) (\<lambda>u.
     andthen (queue_cleanups E hh wid version mail waiting now (Suc n) rs) (\<lambda>js. answer (fst job # js))))"

definition schedule_cleanup ::
  "onb_env \<Rightarrow> uid \<Rightarrow> uid \<Rightarrow> nat \<Rightarrow> string list option \<Rightarrow> time \<Rightarrow> uid list onb" where
  "schedule_cleanup E hh wid version types now d =
     queue_cleanups E hh wid version
       (map_option eid_id (newest_email (\<lambda>r. eid_household r = hh \<and> eid_status r \<noteq> Ei_deleted) (c_emails d)))
       (map_option jb_id (latest_job (\<lambda>j. jb_household j = hh \<and> jb_kind j = ''email_identity'' \<and> jb_status j = Jb_waiting_user) d))
       now 0 (to_clean hh types d) d"

definition finish_safe_disconnect :: "uid \<Rightarrow> time \<Rightarrow> cpdb \<Rightarrow> cpdb" where
  "finish_safe_disconnect hh now d =
     (case newest_email (\<lambda>r. eid_household r = hh \<and> eid_status r = Ei_disconnecting) (c_emails d) of
        None \<Rightarrow> d
      | Some r \<Rightarrow> snd (finish_disconnect (eid_id r) now d))"

definition drop_mailbox :: "onb_env \<Rightarrow> uid \<Rightarrow> time \<Rightarrow> cpdb \<Rightarrow> cpdb" where
  "drop_mailbox E hh now d =
     (if oe_mail E = None then d else finish_safe_disconnect hh now (begin_disconnect hh now d))"

definition revoke_configs :: "config_status list \<Rightarrow> uid \<Rightarrow> cpdb \<Rightarrow> nat \<times> cpdb" where
  "revoke_configs ss hh d =
     (let P = (\<lambda>r. cfg_household r = hh \<and> cfg_status r \<in> set ss)
      in (tbl_count P (c_configs d), d\<lparr>c_configs := tbl_update P (\<lambda>r. r\<lparr>cfg_status := Cf_revoked\<rparr>) (c_configs d)\<rparr>))"

definition revoke_bootstraps :: "uid \<Rightarrow> time \<Rightarrow> cpdb \<Rightarrow> cpdb" where
  "revoke_bootstraps hh now d =
     d\<lparr>c_bootstraps := tbl_update (\<lambda>r. bts_household r = hh \<and> bts_used_at r = None \<and> bts_revoked_at r = None)
        (\<lambda>r. r\<lparr>bts_revoked_at := Some now\<rparr>) (c_bootstraps d)\<rparr>"

definition unserve_household :: "string \<Rightarrow> uid \<Rightarrow> time \<Rightarrow> cpdb \<Rightarrow> cpdb" where
  "unserve_household status hh now d =
     d\<lparr>c_households := tbl_update (\<lambda>h. ch_id h = hh)
        (\<lambda>h. h\<lparr>ch_status := status, ch_runtime_ref := None, ch_revision := 0, ch_updated_at := now\<rparr>) (c_households d)\<rparr>"

section \<open>Starting over\<close>

definition resettable :: "step_kind \<Rightarrow> step_status \<Rightarrow> bool" where
  "resettable k s \<longleftrightarrow> s = St_verified \<or> k = Kd_email \<and> s = St_waiting_user"

definition reset_types :: "step_kind \<Rightarrow> string list" where
  "reset_types k =
     (if k = Kd_email then [''email_identity'', ''whatsapp_identity'', ''channel_binding'', ''runtime'']
      else if k = Kd_whatsapp then [''whatsapp_identity'', ''channel_binding'', ''runtime'']
      else [''channel_binding'', ''runtime''])"

definition blank_step :: "step_status \<Rightarrow> time \<Rightarrow> cp_step \<Rightarrow> cp_step" where
  "blank_step status now r =
     r\<lparr>stp_status := status, stp_selection_kind := None, stp_selection := None, stp_result := None, stp_error := None,
       stp_public := JObj [], stp_updated_at := now\<rparr>"

fun blank_from :: "uid \<Rightarrow> step_status \<Rightarrow> time \<Rightarrow> step_kind list \<Rightarrow> cpdb \<Rightarrow> cpdb" where
  "blank_from wid status now [] d = d"
| "blank_from wid status now (k # ks) d = blank_from wid St_locked now ks (put_step wid k (blank_step status now) d)"

definition reset_body ::
  "onb_env \<Rightarrow> command_context \<Rightarrow> uid \<Rightarrow> step_kind \<Rightarrow> time \<Rightarrow> cp_workflow \<Rightarrow> onboarding_snapshot onb" where
  "reset_body E c hh k now w =
     andthen (check_version c w) (\<lambda>u.
     andthen (current_row w k) (\<lambda>s.
     andthen (demand (resettable k (stp_status s))
        (Ob_transition ''only a verified choice or pending email domain can be reset explicitly'')) (\<lambda>u.
     andthen (schedule_cleanup E hh (wfl_id w) (wfl_version w + 1) (Some (reset_types k)) now) (\<lambda>js.
     andthen (edit (supersede_unsettled_jobs hh ''reset'' None now)) (\<lambda>u.
     andthen (look (\<lambda>d. k = Kd_email \<and> \<not> has_namespace hh d)) (\<lambda>missing.
     andthen (if missing
        then queue E (namespace_request E hh (wfl_id w) (intent [hh, ''secret-namespace'', ''reset'', nat_digits (wfl_version w + 1)]))
               (now + real (length js + 1) * 0.000001)
        else answer ([], False)) (\<lambda>u.
     andthen (edit (\<lambda>d. if k = Kd_email then drop_mailbox E hh now d else d)) (\<lambda>u.
     andthen (edit (blank_from (wfl_id w) St_available now (dropWhile (\<lambda>x. x \<noteq> k) user_steps))) (\<lambda>u.
     andthen (edit (\<lambda>d. snd (revoke_configs [Cf_planned, Cf_issued, Cf_claimed, Cf_active] hh d))) (\<lambda>u.
     andthen (edit (revoke_bootstraps hh now)) (\<lambda>u.
     andthen (edit (unserve_household ''onboarding'' hh now)) (\<lambda>u.
     finish_command E c hh w (\<lambda>x. x\<lparr>wfl_state := Wf_in_progress, wfl_step := k, wfl_completed_at := None\<rparr>)
       \<lparr>mv_command = ''reset'', mv_to = Wf_in_progress, mv_step = Some k, mv_from_step = Some (stp_status s),
        mv_to_step = Some St_available, mv_job = (case js of [] \<Rightarrow> None | j # x \<Rightarrow> Some j),
        mv_metadata = JObj [(''cleanup_jobs'', JInt (int (length js)))]\<rparr> now))))))))))))"

definition onb_reset ::
  "onb_env \<Rightarrow> command_context \<Rightarrow> uid \<Rightarrow> step_kind \<Rightarrow> time \<Rightarrow> (onboarding_snapshot \<times> bool) onb" where
  "onb_reset E c hh k now =
     (if k \<notin> set user_steps then fail_with (Ob_transition ''profile reset is not a product step reset'')
      else run_command E c (''/api/v1/onboarding/reset/'' @ kind_str k) (oe_sha E (JObj [(''kind'', JStr (kind_str k))])) hh now
             (reset_body E c hh k now))"

section \<open>Cancelling\<close>

definition cancel_body ::
  "onb_env \<Rightarrow> command_context \<Rightarrow> uid \<Rightarrow> time \<Rightarrow> cp_workflow \<Rightarrow> onboarding_snapshot onb" where
  "cancel_body E c hh now w =
     andthen (check_version c w) (\<lambda>u.
     andthen (demand (wfl_state w \<notin> {Wf_complete, Wf_cancelled}) (Ob_transition ''workflow is already terminal'')) (\<lambda>u.
     andthen (schedule_cleanup E hh (wfl_id w) (wfl_version w + 1) None now) (\<lambda>js.
     andthen (edit (supersede_unsettled_jobs hh ''cancel'' None now)) (\<lambda>u.
     andthen (edit (drop_mailbox E hh now)) (\<lambda>u.
     andthen (edit (\<lambda>d. d\<lparr>c_steps := tbl_update (\<lambda>s. stp_workflow s = wfl_id w \<and> stp_status s \<noteq> St_verified)
        (\<lambda>s. s\<lparr>stp_status := St_cancelled, stp_updated_at := now\<rparr>) (c_steps d)\<rparr>)) (\<lambda>u.
     andthen (edit (\<lambda>d. snd (revoke_configs [Cf_planned, Cf_issued, Cf_claimed] hh d))) (\<lambda>u.
     andthen (edit (revoke_bootstraps hh now)) (\<lambda>u.
     andthen (edit (unserve_household ''draft'' hh now)) (\<lambda>u.
     finish_command E c hh w (\<lambda>x. x\<lparr>wfl_state := Wf_cancelled\<rparr>)
       \<lparr>mv_command = ''cancel'', mv_to = Wf_cancelled, mv_step = None, mv_from_step = None, mv_to_step = None,
        mv_job = (case js of [] \<Rightarrow> None | j # x \<Rightarrow> Some j),
        mv_metadata = JObj [(''cleanup_jobs'', JInt (int (length js)))]\<rparr> now)))))))))"

definition onb_cancel ::
  "onb_env \<Rightarrow> command_context \<Rightarrow> uid \<Rightarrow> time \<Rightarrow> (onboarding_snapshot \<times> bool) onb" where
  "onb_cancel E c hh now =
     run_command E c ''/api/v1/onboarding/cancel'' (oe_sha E (JObj [(''cancel'', JBool True)])) hh now (cancel_body E c hh now)"

section \<open>Taking down what a withdrawn consent authorised\<close>

definition withdrawn_types :: "onb_env \<Rightarrow> string list \<Rightarrow> string list" where
  "withdrawn_types E types = (if oe_mail E = None then filter (\<lambda>t. t \<noteq> ''email_identity'') types else types)"

definition disconnect_for_withdrawal :: "onb_env \<Rightarrow> uid \<Rightarrow> string list \<Rightarrow> time \<Rightarrow> uid list onb" where
  "disconnect_for_withdrawal E hh types now d =
     (case (withdrawn_types E types, workflow_for_household hh d) of
        ([], x) \<Rightarrow> (Inr [], d)
      | (t # ts, None) \<Rightarrow> (Inr [], d)
      | (t # ts, Some w) \<Rightarrow>
          andthen (edit (supersede_unsettled_jobs hh ''withdrawal'' (Some (t # ts)) now)) (\<lambda>u.
          andthen (schedule_cleanup E hh (wfl_id w) (wfl_version w) (Some (t # ts)) now) (\<lambda>js.
          andthen (edit (\<lambda>d. if ''email_identity'' \<in> set (t # ts) then drop_mailbox E hh now d else d)) (\<lambda>u.
          answer js))) d)"

end
