(* ===== verification/Withdraw.thy ===== *)
theory Withdraw
  imports Onboarding GatewayApp
begin

text \<open>
  The withdrawal of a consent: \<open>control_plane/privacy/withdraw.py\<close> and the scopes of
  \<open>privacy/consent.py\<close>.  One transaction marks the receipts, revokes what embeds them, takes down the
  resources the consent authorised and queues the stop of the runtime.  The digest of the intent key is a
  parameter.
\<close>

section \<open>What a withdrawal ends\<close>

definition content_resource_types :: "string list" where
  "content_resource_types = [''email_identity'', ''whatsapp_identity'', ''channel_binding'']"

definition withdrawal_scopes :: "(string \<times> string list \<times> bool) list" where
  "withdrawal_scopes =
     [(content_purpose, content_resource_types, True),
      (restriction_purpose, content_resource_types, True),
      (''whatsapp_channel_privacy'', [''whatsapp_identity'', ''channel_binding''], False),
      (''whatsapp_linked_device_risk'', [''whatsapp_identity'', ''channel_binding''], False)]"

section \<open>The service\<close>

record withdraw_env =
  we_jobs :: job_env
  we_onboarding :: "onb_env option"
  we_fingerprint :: "string list \<Rightarrow> string"

record withdrawal =
  wd_household :: uid
  wd_purpose :: string
  wd_receipts :: nat
  wd_revisions :: nat
  wd_job :: "uid option"
  wd_cleanup :: "uid list"

definition email_disconnected :: "withdrawal \<Rightarrow> bool" where "email_disconnected r \<longleftrightarrow> wd_cleanup r \<noteq> []"
definition runtime_notified :: "withdrawal \<Rightarrow> bool" where "runtime_notified r \<longleftrightarrow> wd_job r \<noteq> None"

definition of_purpose :: "uid \<Rightarrow> string \<Rightarrow> cp_receipt \<Rightarrow> bool" where
  "of_purpose hh purpose r \<longleftrightarrow> rct_household r = Some hh \<and> rct_purpose r = purpose"

definition consent_cycle :: "uid \<Rightarrow> string \<Rightarrow> cpdb \<Rightarrow> uid list" where
  "consent_cycle hh purpose d =
     (let mine = filter (of_purpose hh purpose) (c_receipts d);
          standing = filter (\<lambda>r. rct_revoked_at r = None) mine;
          times = List.map_filter rct_revoked_at mine
      in sort (map rct_id (if standing \<noteq> [] then standing
                else filter (\<lambda>r. times \<noteq> [] \<and> rct_revoked_at r = Some (Max (set times))) mine)))"

definition revoke_receipts :: "uid \<Rightarrow> string \<Rightarrow> time \<Rightarrow> cpdb \<Rightarrow> nat \<times> cpdb" where
  "revoke_receipts hh purpose now d =
     (let P = (\<lambda>r. of_purpose hh purpose r \<and> rct_revoked_at r = None)
      in (tbl_count P (c_receipts d), d\<lparr>c_receipts := tbl_update P (\<lambda>r. r\<lparr>rct_revoked_at := Some now\<rparr>) (c_receipts d)\<rparr>))"

definition stop_request :: "withdraw_env \<Rightarrow> uid \<Rightarrow> uid \<Rightarrow> string \<Rightarrow> string \<Rightarrow> uid list \<Rightarrow> job_request" where
  "stop_request W hh wid runtime purpose cycle =
     \<lparr>jq_household = hh, jq_workflow = wid, jq_kind = ''runtime'', jq_operation = ''revoke_consent'',
      jq_intent = intent [hh, ''consent-revoke'', we_fingerprint W (runtime # purpose # cycle)],
      jq_request = JObj [(''runtime_ref'', JStr runtime), (''purpose'', JStr purpose), (''receipt_ids'', JArr (map JStr cycle))],
      jq_provider = ''dry-run-runtime'', jq_revision = None\<rparr>"

definition enqueue_runtime_stop :: "withdraw_env \<Rightarrow> uid \<Rightarrow> string \<Rightarrow> uid list \<Rightarrow> time \<Rightarrow> uid option onb" where
  "enqueue_runtime_stop W hh purpose cycle now d =
     (let runtime = (case households_get hh d of None \<Rightarrow> [] | Some h \<Rightarrow> (case ch_runtime_ref h of None \<Rightarrow> [] | Some r \<Rightarrow> r))
      in if \<not> managed_ref runtime then (Inr None, d)
         else case workflow_for_household hh d of
                None \<Rightarrow> (Inr None, d)
              | Some w \<Rightarrow>
                  andthen (raising (\<lambda>e. Ob_integrity) (jobs_create (we_jobs W) (stop_request W hh (wfl_id w) runtime purpose cycle) now))
                    (\<lambda>j. answer (Some (fst j))) d)"

definition withdraw_body :: "withdraw_env \<Rightarrow> uid \<Rightarrow> string \<Rightarrow> string list \<Rightarrow> bool \<Rightarrow> time \<Rightarrow> withdrawal onb" where
  "withdraw_body W hh purpose types stops now =
     andthen (look (consent_cycle hh purpose)) (\<lambda>cycle.
     andthen (\<lambda>d. (Inr (fst (revoke_receipts hh purpose now d)), snd (revoke_receipts hh purpose now d))) (\<lambda>revoked.
     andthen (refuse_on (\<lambda>d. if revoked = 0 \<and> \<not> (\<exists>r \<in> set (c_receipts d). of_purpose hh purpose r)
        then Some (Ob_not_held hh purpose) else None)) (\<lambda>u.
     andthen (\<lambda>d. if stops
        then (Inr (fst (revoke_configs [Cf_planned, Cf_issued, Cf_claimed, Cf_active] hh d)),
              snd (revoke_configs [Cf_planned, Cf_issued, Cf_claimed, Cf_active] hh d))
        else (Inr 0, d)) (\<lambda>revisions.
     andthen (case we_onboarding W of None \<Rightarrow> answer [] | Some E \<Rightarrow> disconnect_for_withdrawal E hh types now) (\<lambda>cleanup.
     andthen (if stops then enqueue_runtime_stop W hh purpose cycle now else answer None) (\<lambda>job.
     answer \<lparr>wd_household = hh, wd_purpose = purpose, wd_receipts = revoked, wd_revisions = revisions,
       wd_job = job, wd_cleanup = cleanup\<rparr>))))))"

definition withdraw :: "withdraw_env \<Rightarrow> uid \<Rightarrow> string \<Rightarrow> time \<Rightarrow> withdrawal onb" where
  "withdraw W hh purpose now =
     (case (map_of consent_versions purpose, map_of withdrawal_scopes purpose) of
        (None, x) \<Rightarrow> fail_with (Ob_missing purpose)
      | (Some v, None) \<Rightarrow> fail_with (Ob_missing purpose)
      | (Some v, Some (types, stops)) \<Rightarrow> write_tx (withdraw_body W hh purpose types stops now))"

end
