(* ===== verification/Planner.thy ===== *)
theory Planner
  imports Onboarding Bindings
begin

text \<open>
  The desired configuration of a household: \<open>control_plane/provisioning/planner.py\<close>, the contract of
  \<open>provisioning/manifest.py\<close>, \<open>repositories/configs.py\<close> and \<open>channel_preferences.py\<close>.  The
  planner reads the verified results of the onboarding, the standing consents and the owner, writes the
  owner's bindings and preference, and adds the next revision.  The digest of a manifest, the new ids and
  the scan for secret fields are parameters; what is written at one call carries one clock value.
\<close>

section \<open>Where a household is reached\<close>

definition allowed_primary :: "string list" where "allowed_primary = [''telegram'', ''whatsapp'', ''web'']"

definition preference_of :: "uid \<Rightarrow> cpdb \<Rightarrow> cp_preference option" where
  "preference_of hh d = tbl_get pre_household hh (c_preferences d)"

definition fallback_refusal :: "uid \<Rightarrow> uid \<Rightarrow> cpdb \<Rightarrow> onb_error option" where
  "fallback_refusal hh account d =
     (case find (\<lambda>a. ac_id a = account \<and> active_owner hh a d) (c_accounts d) of
        None \<Rightarrow> Some (Ob_plan ''a fallback must be an active owner of this household'')
      | Some a \<Rightarrow>
          if \<exists>r \<in> set (c_emails d). eid_household r = hh \<and> eid_lookup r = Some (ac_lookup a) \<and> live_email (eid_status r)
          then Some (Ob_plan ''fallback must not be the household's agent inbox (self-ingestion loop)'') else None)"

definition put_preference :: "cp_preference \<Rightarrow> cp_preference list \<Rightarrow> cp_preference list" where
  "put_preference r T =
     (if pre_household r \<in> pre_household ` set T then tbl_update (\<lambda>x. pre_household x = pre_household r) (\<lambda>x. r) T else T @ [r])"

definition set_household_preference :: "uid \<Rightarrow> string \<Rightarrow> uid \<Rightarrow> time option \<Rightarrow> time \<Rightarrow> unit onb" where
  "set_household_preference hh primary account verified_at now =
     andthen (demand (primary \<in> set allowed_primary) (Ob_plan ''unknown primary_channel'')) (\<lambda>u.
     andthen (found (Ob_plan ''household not found or deleted'') (households_get hh)) (\<lambda>h.
     andthen (demand (ch_status h \<notin> {''deleting'', ''deleted''}) (Ob_plan ''household not found or deleted'')) (\<lambda>u.
     andthen (refuse_on (fallback_refusal hh account)) (\<lambda>u.
     edit (\<lambda>d. d\<lparr>c_preferences := put_preference \<lparr>pre_household = hh, pre_primary = primary, pre_account = account,
        pre_verified_at = verified_at, pre_updated_at = now\<rparr> (c_preferences d)\<rparr>)))))"

section \<open>Revisions\<close>

definition config_get :: "uid \<Rightarrow> nat \<Rightarrow> cpdb \<Rightarrow> cp_config option" where
  "config_get hh revision d = find (\<lambda>r. cfg_household r = hh \<and> cfg_revision r = revision) (c_configs d)"

definition config_manifest :: "uid \<Rightarrow> nat \<Rightarrow> json onb" where
  "config_manifest hh revision = andthen (found (Ob_missing hh) (config_get hh revision)) (\<lambda>r. answer (cfg_manifest r))"

definition last_revision :: "uid \<Rightarrow> cpdb \<Rightarrow> nat" where
  "last_revision hh d = foldr max (map cfg_revision (filter (\<lambda>r. cfg_household r = hh) (c_configs d))) 0"

definition create_revision :: "(cpdb \<Rightarrow> uid) \<Rightarrow> uid \<Rightarrow> nat \<Rightarrow> json \<Rightarrow> string \<Rightarrow> time \<Rightarrow> cp_config onb" where
  "create_revision uuid hh schema manifest sha now d =
     (let revision = last_revision hh d + 1;
          r = \<lparr>cfg_id = uuid d, cfg_household = hh, cfg_revision = revision, cfg_schema = schema, cfg_manifest = manifest,
               cfg_sha = sha, cfg_status = Cf_planned, cfg_created_at = now, cfg_issued_at = None,
               cfg_claimed_at = None, cfg_activated_at = None\<rparr>
      in if jget manifest ''config_revision'' \<noteq> JInt (int revision)
         then (Inl (Ob_plan ''manifest config revision is not the next immutable revision''), d)
         else if (\<exists>x \<in> set (c_configs d). cfg_id x = cfg_id r \<or> cfg_household x = hh \<and> cfg_sha x = sha) \<or> schema = 0
         then (Inl Ob_integrity, d)
         else (Inr r, d\<lparr>c_configs := c_configs d @ [r]\<rparr>))"

definition issue_bootstrap ::
  "(cpdb \<Rightarrow> uid) \<Rightarrow> (string \<Rightarrow> string) \<Rightarrow> string \<Rightarrow> uid \<Rightarrow> string \<Rightarrow> nat \<Rightarrow> string \<Rightarrow> time \<Rightarrow> time \<Rightarrow> uid onb" where
  "issue_bootstrap uuid digest raw hh runtime revision sha expires_at now d =
     (let i = uuid d;
          r = \<lparr>bts_id = i, bts_hash = digest raw, bts_household = hh, bts_runtime_ref = runtime, bts_revision = revision,
               bts_sha = sha, bts_expires_at = expires_at, bts_used_at = None, bts_revoked_at = None, bts_created_at = now\<rparr>;
          d1 = d\<lparr>c_bootstraps := tbl_update (\<lambda>x. bts_household x = hh \<and> bts_revision x = revision \<and> bts_used_at x = None \<and>
                   bts_revoked_at x = None) (\<lambda>x. x\<lparr>bts_revoked_at := Some now\<rparr>) (c_bootstraps d),
                 c_configs := tbl_update (\<lambda>x. cfg_household x = hh \<and> cfg_revision x = revision \<and>
                   cfg_status x \<in> {Cf_planned, Cf_issued, Cf_claimed})
                   (\<lambda>x. x\<lparr>cfg_status := Cf_issued, cfg_issued_at := Some now\<rparr>) (c_configs d)\<rparr>
      in if \<exists>x \<in> set (c_bootstraps d). bts_id x = i \<or> bts_hash x = digest raw then (Inl Ob_integrity, d1)
         else (Inr i, d1\<lparr>c_bootstraps := c_bootstraps d1 @ [r]\<rparr>))"

section \<open>The contract\<close>

record spec_binding =
  sb_channel :: string
  sb_actor :: string
  sb_chat :: string
  sb_ref :: "string option"

record spec_email =
  se_inbox :: string
  se_fallback :: string
  se_provider :: string
  se_ref :: "string option"
  se_secret :: "string option"
  se_in_kind :: "string option"
  se_in_ref :: "string option"
  se_in_secret :: "string option"

record spec_receipt =
  sr_id :: uid
  sr_purpose :: string
  sr_version :: string
  sr_sha :: string

record household_spec =
  sp_household :: uid
  sp_revision :: nat
  sp_sha :: string
  sp_language :: string
  sp_timezone :: string
  sp_country :: string
  sp_residency :: string
  sp_owner :: string
  sp_family :: "string list"
  sp_primary :: string
  sp_bindings :: "spec_binding list"
  sp_email :: spec_email
  sp_purposes :: "string list"
  sp_receipts :: "spec_receipt list"
  sp_refs :: "(string \<times> string) list"

text \<open>\<open>model_dump\<close>; \<open>nulls\<close> tells whether the absent optional fields are written.\<close>

definition opt_field :: "bool \<Rightarrow> string \<Rightarrow> string option \<Rightarrow> (string \<times> json) list" where
  "opt_field nulls k v = (case v of None \<Rightarrow> if nulls then [(k, JNull)] else [] | Some s \<Rightarrow> [(k, JStr s)])"

definition binding_json :: "bool \<Rightarrow> spec_binding \<Rightarrow> json" where
  "binding_json nulls b = JObj ([(''channel'', JStr (sb_channel b)), (''actor_id'', JStr (sb_actor b)), (''chat_id'', JStr (sb_chat b)),
     (''verified'', JBool True)] @ opt_field nulls ''external_ref'' (sb_ref b))"

definition email_json :: "bool \<Rightarrow> spec_email \<Rightarrow> json" where
  "email_json nulls e = JObj ([(''agent_inbox'', JStr (se_inbox e)), (''fallback'', JStr (se_fallback e)),
     (''provider_kind'', JStr (se_provider e))] @ opt_field nulls ''provider_binding_ref'' (se_ref e) @
     opt_field nulls ''secret_binding_ref'' (se_secret e) @ opt_field nulls ''inbound_provider_kind'' (se_in_kind e) @
     opt_field nulls ''inbound_binding_ref'' (se_in_ref e) @ opt_field nulls ''inbound_secret_binding_ref'' (se_in_secret e))"

definition receipt_json :: "spec_receipt \<Rightarrow> json" where
  "receipt_json r = JObj [(''receipt_id'', JStr (sr_id r)), (''purpose'', JStr (sr_purpose r)),
     (''text_version'', JStr (sr_version r)), (''text_sha256'', JStr (sr_sha r))]"

definition spec_fields :: "bool \<Rightarrow> household_spec \<Rightarrow> (string \<times> json) list" where
  "spec_fields nulls s =
     [(''household_id'', JStr (sp_household s)), (''config_revision'', JInt (int (sp_revision s))),
      (''family_language'', JStr (sp_language s)), (''timezone'', JStr (sp_timezone s)), (''country_code'', JStr (sp_country s)),
      (''residency_mode'', JStr (sp_residency s)),
      (''actors'', JObj [(''owner'', JStr (sp_owner s)), (''family'', JArr (map JStr (sp_family s))), (''guests'', JArr [])]),
      (''channels'', JObj [(''primary'', JStr (sp_primary s))]),
      (''channel_bindings'', JArr (map (binding_json nulls) (sp_bindings s))),
      (''email'', email_json nulls (sp_email s)),
      (''consent'', JObj [(''authority'', JStr ''control_plane''), (''enforcement'', JStr ''required''),
         (''required_purposes'', JArr (map JStr (sp_purposes s))), (''receipts'', JArr (map receipt_json (sp_receipts s)))]),
      (''provider_refs'', JObj (map (\<lambda>(k, v). (k, JStr v)) (sp_refs s)))]"

definition spec_json :: "household_spec \<Rightarrow> json" where
  "spec_json s = JObj ([(''schema_version'', JInt 1)] @ spec_fields True s @ [(''config_sha256'', JStr (sp_sha s))])"

definition spec_payload :: "household_spec \<Rightarrow> json" where
  "spec_payload s = JObj ([(''schema_version'', JInt 1)] @ spec_fields False s)"

record plan_env =
  pe_onb :: onb_env
  pe_bind :: bind_env
  pe_uuid :: "cpdb \<Rightarrow> uid"
  pe_digest :: "json \<Rightarrow> string"
  pe_public :: "json \<Rightarrow> bool"

definition relay_whole :: "spec_email \<Rightarrow> bool" where
  "relay_whole e \<longleftrightarrow>
     (let inbound = [se_in_kind e, se_in_ref e, se_in_secret e]
      in list_all (\<lambda>x. x = None) inbound \<or>
         se_provider e = ''gmail'' \<and> list_all (\<lambda>x. str_or_none x \<noteq> None) inbound \<and> se_in_kind e = Some ''nerve'')"

definition receipt_shape :: "spec_receipt \<Rightarrow> bool" where
  "receipt_shape r \<longleftrightarrow> 1 \<le> length (sr_id r) \<and> length (sr_id r) \<le> 128 \<and> sr_purpose r \<in> fst ` set consent_versions \<and>
     1 \<le> length (sr_version r) \<and> length (sr_version r) \<le> 64 \<and> length (sr_sha r) = 64 \<and> list_all hex_char (sr_sha r)"

definition receipts_complete :: "household_spec \<Rightarrow> bool" where
  "receipts_complete s \<longleftrightarrow> sp_purposes s \<noteq> [] \<and> set (sp_purposes s) \<subseteq> fst ` set consent_versions \<and>
     set (sp_purposes s) \<subseteq> sr_purpose ` set (sp_receipts s) \<and> distinct (map sr_id (sp_receipts s)) \<and> list_all receipt_shape (sp_receipts s)"

definition spec_valid :: "plan_env \<Rightarrow> household_spec \<Rightarrow> bool" where
  "spec_valid P s \<longleftrightarrow>
     0 < sp_revision s \<and> sp_residency s \<in> {''eu-app'', ''eu-strict''} \<and> sp_primary s \<in> set allowed_primary \<and>
     list_all (\<lambda>b. sb_channel b \<in> set allowed_primary) (sp_bindings s) \<and>
     relay_whole (sp_email s) \<and> receipts_complete s \<and> pe_public P (spec_json s) \<and>
     (\<exists>b \<in> set (sp_bindings s). sb_channel b = sp_primary s \<and> sb_actor b = sp_owner s) \<and>
     (case (normalize_email (oe_auth (pe_onb P)) (se_inbox (sp_email s)), normalize_email (oe_auth (pe_onb P)) (se_fallback (sp_email s))) of
        (Inr a, Inr b) \<Rightarrow> a \<noteq> b
      | _ \<Rightarrow> False)"

definition with_hash :: "plan_env \<Rightarrow> household_spec \<Rightarrow> household_spec" where
  "with_hash P s = s\<lparr>sp_sha := pe_digest P (spec_payload s)\<rparr>"

section \<open>Planning a revision\<close>

definition household_profile :: "uid \<Rightarrow> cpdb \<Rightarrow> cp_household option" where
  "household_profile hh d = (if hh \<in> prf_household ` set (c_profiles d) then households_get hh d else None)"

definition step_verified :: "uid \<Rightarrow> cpdb \<Rightarrow> step_kind \<Rightarrow> bool" where
  "step_verified wid d k \<longleftrightarrow> (case step_row wid k d of None \<Rightarrow> False | Some s \<Rightarrow> stp_status s = St_verified)"

definition step_result :: "uid \<Rightarrow> step_kind \<Rightarrow> cpdb \<Rightarrow> json" where
  "step_result wid k d =
     (case step_row wid k d of None \<Rightarrow> JNull | Some s \<Rightarrow> (case stp_result s of None \<Rightarrow> JNull | Some r \<Rightarrow> r))"

definition unverified_refusal :: "uid \<Rightarrow> cpdb \<Rightarrow> onb_error option" where
  "unverified_refusal wid d =
     (if \<not> list_all (step_verified wid d) user_steps
      then Some (Ob_plan ''desired spec can only be built from verified results'')
      else if \<not> list_all (\<lambda>k. truthy (jget (step_result wid k d) ''verified'')) user_steps
      then Some (Ob_plan ''provider results are missing durable verification'') else None)"

definition public_result :: "json \<Rightarrow> json" where "public_result r = jget r ''public_result''"

definition provider_kind_of :: "json \<Rightarrow> string" where
  "provider_kind_of public =
     (case jget public ''provider'' of
        JStr p \<Rightarrow> p
      | _ \<Rightarrow> (case jget public ''mode'' of JStr m \<Rightarrow> m | _ \<Rightarrow> ''synthetic''))"

definition whatsapp_selection :: "uid \<Rightarrow> cpdb \<Rightarrow> json" where
  "whatsapp_selection wid d =
     (case step_row wid Kd_whatsapp d of None \<Rightarrow> JNull | Some s \<Rightarrow> (case stp_selection s of None \<Rightarrow> JNull | Some v \<Rightarrow> v))"

definition whatsapp_enabled :: "json \<Rightarrow> bool" where
  "whatsapp_enabled sel \<longleftrightarrow> \<not> truthy sel \<or> jget sel ''kind'' \<noteq> JStr ''disabled''"

definition owed_purposes :: "string \<Rightarrow> json \<Rightarrow> string list" where
  "owed_purposes provider sel = required_purposes (Some provider) (jget sel ''kind'' = JStr ''dedicated_number'') (whatsapp_enabled sel)"

definition receipt_order :: "cp_receipt \<Rightarrow> time \<times> uid" where "receipt_order r = (rct_accepted_at r, rct_id r)"

definition standing_receipt :: "uid \<Rightarrow> string \<Rightarrow> cpdb \<Rightarrow> cp_receipt option" where
  "standing_receipt hh purpose d =
     (case rev (sort_key receipt_order (filter (\<lambda>r. rct_household r = Some hh \<and> rct_revoked_at r = None \<and> rct_purpose r = purpose)
        (c_receipts d))) of [] \<Rightarrow> None | r # rs \<Rightarrow> Some r)"

definition receipt_is_current :: "onb_env \<Rightarrow> uid \<Rightarrow> cpdb \<Rightarrow> string \<Rightarrow> bool" where
  "receipt_is_current E hh d purpose \<longleftrightarrow>
     (case standing_receipt hh purpose d of None \<Rightarrow> False
      | Some r \<Rightarrow> rct_version r = consent_version purpose \<and> rct_sha r = oe_text_sha E purpose)"

definition owner_account :: "uid \<Rightarrow> cpdb \<Rightarrow> cp_account option" where
  "owner_account hh d = (case fallback_owner hh d of None \<Rightarrow> None | Some i \<Rightarrow> accounts_get i d)"

definition once_each :: "'a list \<Rightarrow> 'a list" where "once_each xs = rev (remdups (rev xs))"

definition projected_binding :: "string \<Rightarrow> string \<Rightarrow> binding_row \<Rightarrow> spec_binding" where
  "projected_binding primary ref r =
     \<lparr>sb_channel = cb_channel r, sb_actor = cb_actor r, sb_chat = (case cb_chat_id r of None \<Rightarrow> [] | Some c \<Rightarrow> c),
      sb_ref = (if cb_role r = ''owner'' \<and> cb_channel r = primary then Some ref else None)\<rparr>"

definition spec_email_of :: "json \<Rightarrow> string \<Rightarrow> spec_email" where
  "spec_email_of result fallback =
     (let public = public_result result
      in \<lparr>se_inbox = jtext public ''agent_inbox'', se_fallback = fallback, se_provider = provider_kind_of public,
          se_ref = Some (jtext result ''external_ref''), se_secret = jtext_or_none public ''secret_binding_ref'',
          se_in_kind = (if truthy (jget public ''inbound_binding_ref'') then Some ''nerve'' else None),
          se_in_ref = jstr (jget public ''inbound_binding_ref''),
          se_in_secret = jstr (jget public ''inbound_secret_binding_ref'')\<rparr>)"

definition spec_receipt_of :: "uid \<Rightarrow> cpdb \<Rightarrow> string \<Rightarrow> spec_receipt" where
  "spec_receipt_of hh d purpose =
     (case standing_receipt hh purpose d of
        None \<Rightarrow> \<lparr>sr_id = [], sr_purpose = purpose, sr_version = [], sr_sha = []\<rparr>
      | Some r \<Rightarrow> \<lparr>sr_id = rct_id r, sr_purpose = purpose, sr_version = rct_version r, sr_sha = rct_sha r\<rparr>)"

definition desired_spec ::
  "cp_household \<Rightarrow> json \<Rightarrow> json \<Rightarrow> json \<Rightarrow> json \<Rightarrow> string \<Rightarrow> nat \<Rightarrow> binding_row list \<Rightarrow> cpdb \<Rightarrow> household_spec" where
  "desired_spec h er wr cr wsel fallback revision bound d =
     (let primary = jtext (public_result cr) ''channel''; actor = jtext (public_result cr) ''actor_id'';
          purposes = owed_purposes (provider_kind_of (public_result er)) wsel
      in \<lparr>sp_household = ch_id h, sp_revision = revision, sp_sha = [],
          sp_language = (case ch_language h of None \<Rightarrow> [] | Some l \<Rightarrow> l), sp_timezone = (case ch_timezone h of None \<Rightarrow> [] | Some z \<Rightarrow> z),
          sp_country = (case ch_country h of None \<Rightarrow> [] | Some k \<Rightarrow> k), sp_residency = ch_residency h,
          sp_owner = actor, sp_family = once_each (actor # map cb_actor bound), sp_primary = primary,
          sp_bindings = map (projected_binding primary (jtext cr ''external_ref'')) bound,
          sp_email = spec_email_of er fallback, sp_purposes = purposes, sp_receipts = map (spec_receipt_of (ch_id h) d) purposes,
          sp_refs = [(''email'', jtext er ''external_ref'')] @
            (if whatsapp_enabled wsel then [(''whatsapp'', jtext wr ''external_ref'')] else []) @
            [(''primary_channel'', jtext cr ''external_ref''), (''consent_authority'', ''control_plane'')]\<rparr>)"

definition plan_refusal :: "plan_env \<Rightarrow> uid \<Rightarrow> uid \<Rightarrow> cpdb \<Rightarrow> onb_error option" where
  "plan_refusal P hh wid d =
     (if list_all (receipt_is_current (pe_onb P) hh d)
           (owed_purposes (provider_kind_of (public_result (step_result wid Kd_email d))) (whatsapp_selection wid d))
      then None else Some (Ob_plan ''authoritative onboarding consent receipt is missing, revoked, or superseded''))"

definition refused_binding :: "binding_error \<Rightarrow> onb_error" where "refused_binding e = Ob_plan ''channel binding refused''"

definition seat_owner :: "plan_env \<Rightarrow> uid \<Rightarrow> cp_account \<Rightarrow> string \<Rightarrow> string \<Rightarrow> string \<Rightarrow> time \<Rightarrow> unit onb" where
  "seat_owner P hh a primary actor chat now =
     andthen (raising refused_binding (ensure_owner_binding (pe_bind P) hh primary actor chat actor
        (if primary = ''web'' then Some (ac_id a) else None) now)) (\<lambda>r.
     if primary = ''web'' then answer ()
     else andthen (raising refused_binding (ensure_owner_web_seat (pe_bind P) hh actor (web_seat_chat_id actor) (ac_id a) now))
            (\<lambda>r. answer ()))"

definition plan_issue :: "plan_env \<Rightarrow> uid \<Rightarrow> time \<Rightarrow> (household_spec \<times> cp_config) onb" where
  "plan_issue P hh now =
     andthen (found (Ob_plan ''household profile is incomplete'') (household_profile hh)) (\<lambda>h.
     andthen (found (Ob_missing hh) (workflow_for_household hh)) (\<lambda>w.
     andthen (refuse_on (unverified_refusal (wfl_id w))) (\<lambda>u.
     andthen (found (Ob_plan ''household has no active account owner'') (owner_account hh)) (\<lambda>a.
     andthen (refuse_on (plan_refusal P hh (wfl_id w))) (\<lambda>u.
     andthen (look (step_result (wfl_id w) Kd_email)) (\<lambda>er.
     andthen (look (step_result (wfl_id w) Kd_whatsapp)) (\<lambda>wr.
     andthen (look (step_result (wfl_id w) Kd_channel)) (\<lambda>cr.
     andthen (look (whatsapp_selection (wfl_id w))) (\<lambda>wsel.
     andthen (look (\<lambda>d. last_revision hh d + 1)) (\<lambda>revision.
     andthen (seat_owner P hh a (jtext (public_result cr) ''channel'') (jtext (public_result cr) ''actor_id'')
        (jtext (public_result cr) ''chat_id'') now) (\<lambda>u.
     andthen (set_household_preference hh (jtext (public_result cr) ''channel'') (ac_id a) (Some (ac_verified_at a)) now) (\<lambda>u.
     andthen (raising refused_binding (\<lambda>d. (bindings_verified hh d, d))) (\<lambda>bound.
     andthen (look (desired_spec h er wr cr wsel (ac_email a) revision bound)) (\<lambda>s0.
     andthen (demand (spec_valid P s0) (Ob_plan ''invalid household spec'')) (\<lambda>u.
     andthen (create_revision (pe_uuid P) hh 1 (spec_json (with_hash P s0)) (sp_sha (with_hash P s0)) now) (\<lambda>r.
     answer (with_hash P s0, r)))))))))))))))))"

end
