(* ===== verification/Provision.thy ===== *)
theory Provision
  imports Withdraw Planner
begin

text \<open>
  What the worker does with a provider's answer: \<open>ProvisioningWorker\<close> of
  \<open>control_plane/provisioning/worker.py\<close> for the jobs of a step, of a secret namespace and of a
  teardown.  The providers, the validation of what they return for a mailbox and the secret sink are
  parameters; a runtime's launch and its activation are not modelled here.
\<close>

section \<open>Answers and results\<close>

record provision_result =
  pv_ref :: string
  pv_public :: json
  pv_secret :: bool

datatype failure_kind = Fk_safe_retry | Fk_degraded | Fk_user_action | Fk_definitive | Fk_auth_revoked | Fk_unknown

datatype provider_answer =
    Pa_result provision_result
  | Pa_waiting json "string option" string
  | Pa_rate_limited time
  | Pa_email_failure failure_kind
  | Pa_secret_field
  | Pa_rejected string
  | Pa_unknown

datatype inspect_state = Is_pending | Is_ready | Is_failed | Is_absent | Is_unknown

record work_result =
  wr_job :: uid
  wr_status :: string
  wr_error :: "string option"

record work_env =
  wk_plan :: plan_env
  wk_withdraw :: withdraw_env
  wk_uuid :: "cpdb \<Rightarrow> uid"
  wk_validated :: "cp_job \<Rightarrow> json \<Rightarrow> provision_result \<Rightarrow> cpdb \<Rightarrow> json option"
  wk_waiting :: "cp_job \<Rightarrow> json \<Rightarrow> json \<Rightarrow> string option \<Rightarrow> (json \<times> string option) option"
  wk_max_attempts :: nat
  wk_all_households :: bool
  wk_authorized :: "uid list"

definition wk_onb :: "work_env \<Rightarrow> onb_env" where "wk_onb W = pe_onb (wk_plan W)"

fun status_str :: "job_status \<Rightarrow> string" where
  "status_str Jb_pending = ''pending''"
| "status_str Jb_running = ''running''"
| "status_str Jb_waiting_user = ''waiting_user''"
| "status_str Jb_succeeded = ''succeeded''"
| "status_str Jb_failed = ''failed''"
| "status_str Jb_outcome_unknown = ''outcome_unknown''"
| "status_str Jb_cancelled = ''cancelled''"

definition result_of :: "uid \<Rightarrow> job_status \<Rightarrow> string option \<Rightarrow> work_result" where
  "result_of i status code = \<lparr>wr_job = i, wr_status = status_str status, wr_error = code\<rparr>"

definition durable_result :: "uid \<Rightarrow> string \<Rightarrow> cpdb \<Rightarrow> work_result" where
  "durable_result i fallback d =
     (case jobs_get i d of
        None \<Rightarrow> result_of i Jb_cancelled (Some ''job_missing'')
      | Some r \<Rightarrow> result_of i (jb_status r) (Some (case str_or_none (jb_error r) of None \<Rightarrow> fallback | Some e \<Rightarrow> e)))"

section \<open>Resources\<close>

definition external_resource ::
  "work_env \<Rightarrow> cp_job \<Rightarrow> json \<Rightarrow> resource_status \<Rightarrow> nat option \<Rightarrow> string \<Rightarrow> time \<Rightarrow> uid onb" where
  "external_resource W job ref status revision rtype now d =
     (case find (\<lambda>r. res_provider r = jb_provider job \<and> res_type r = rtype \<and> res_name r = jb_intent job) (c_resources d) of
        Some r \<Rightarrow> (Inr (res_id r), d\<lparr>c_resources := tbl_update (\<lambda>x. res_id x = res_id r)
            (\<lambda>x. x\<lparr>res_external := ref, res_status := status, res_revision := revision, res_updated_at := now\<rparr>) (c_resources d)\<rparr>)
      | None \<Rightarrow>
          if wk_uuid W d \<in> res_id ` set (c_resources d) then (Inl Ob_integrity, d)
          else (Inr (wk_uuid W d), d\<lparr>c_resources := c_resources d @
            [\<lparr>res_id = wk_uuid W d, res_household = jb_household job, res_provider = jb_provider job, res_type = rtype,
              res_name = jb_intent job, res_external = ref, res_status = status, res_revision = revision,
              res_created_at = now, res_updated_at = now\<rparr>]\<rparr>))"

definition settle :: "uid \<Rightarrow> job_status \<Rightarrow> json option \<Rightarrow> string option \<Rightarrow> string option \<Rightarrow> time \<Rightarrow> unit onb" where
  "settle i status result ref code now = raising (\<lambda>e. Ob_missing i) (jobs_settle i status result ref code now)"

section \<open>Questions asked at a barrier\<close>

definition requires_content_restriction :: "cp_job \<Rightarrow> bool" where
  "requires_content_restriction j \<longleftrightarrow>
     jb_kind j = ''email_identity'' \<and> jb_provider j \<noteq> ''fake-email'' \<or>
     jb_kind j = ''runtime'' \<and> jb_operation j \<noteq> ''ensure_secret_namespace''"

definition required_consents :: "cp_job \<Rightarrow> cpdb \<Rightarrow> string list" where
  "required_consents j d =
     (case (jb_kind j = ''runtime'', jb_revision j) of
        (True, Some n) \<Rightarrow>
          (case config_get (jb_household j) n d of None \<Rightarrow> [restriction_purpose] | Some r \<Rightarrow> manifest_purposes (cfg_manifest r))
      | _ \<Rightarrow> [restriction_purpose] @ (if processes_real_content (Some (jb_provider j)) then [content_purpose] else []))"

definition missing_consent :: "work_env \<Rightarrow> cp_job \<Rightarrow> cpdb \<Rightarrow> string option" where
  "missing_consent W j d = find (\<lambda>p. \<not> current_receipt (wk_onb W) (jb_household j) p d) (required_consents j d)"

definition job_code :: "uid \<Rightarrow> cpdb \<Rightarrow> string option" where
  "job_code i d = (case jobs_get i d of None \<Rightarrow> None | Some r \<Rightarrow> jb_error r)"

definition is_shutdown_action :: "cp_job \<Rightarrow> cpdb \<Rightarrow> bool" where
  "is_shutdown_action j d \<longleftrightarrow> jb_operation j = ''revoke_consent'' \<or> requires_reconciliation (job_code (jb_id j) d)"

definition superseded :: "cp_job option \<Rightarrow> bool" where
  "superseded current \<longleftrightarrow>
     (case current of None \<Rightarrow> True | Some r \<Rightarrow> jb_status r = Jb_cancelled \<or> requires_reconciliation (jb_error r))"

definition owned_by_deletion :: "cp_job \<Rightarrow> cpdb \<Rightarrow> bool" where
  "owned_by_deletion j d \<longleftrightarrow>
     (case households_get (jb_household j) d of None \<Rightarrow> False | Some h \<Rightarrow> ch_status h \<in> {''deleting'', ''deleted''})"

definition nerve_providers :: "string list" where "nerve_providers = [''nerve-managed'', ''nerve-byo-domain'']"

definition gated_email_providers :: "(string \<times> string) list" where
  "gated_email_providers = map (\<lambda>(k, p, f). (p, f)) cut_email_options"

definition kill_switch :: "work_env \<Rightarrow> cp_job \<Rightarrow> cpdb \<Rightarrow> string option" where
  "kill_switch W j d =
     (let flag = map_of gated_email_providers (jb_provider j); real_mail = jb_provider j \<in> set nerve_providers
      in if jb_kind j \<noteq> ''email_identity'' \<or> flag = None \<and> \<not> real_mail \<or> is_shutdown_action j d then None
         else if real_mail \<and> \<not> ((wk_all_households W \<or> jb_household j \<in> set (wk_authorized W)) \<and>
              flag_enabled (wk_onb W) ''ABROLIA_REAL_EMAIL_ENABLED'') then Some ''real_email_disabled''
         else case flag of None \<Rightarrow> None
              | Some f \<Rightarrow> if provider_enabled (wk_onb W) f then None else Some (''email_option_disabled:'' @ f))"

section \<open>A step that did not succeed\<close>

definition dns_delay :: "nat \<Rightarrow> time" where "dns_delay attempts = min (30 * 2 ^ (attempts - 1)) 300"

definition merge_public :: "string \<Rightarrow> json \<Rightarrow> json" where
  "merge_public state public =
     (case public of JObj o' \<Rightarrow> JObj (foldl (\<lambda>acc (k, v). dict_set acc k v) [(''state'', JStr state)] o') | _ \<Rightarrow> JObj [(''state'', JStr state)])"

definition request_step :: "json \<Rightarrow> step_kind option" where
  "request_step request = find (\<lambda>k. JStr (kind_str k) = jget request ''step_kind'') [Kd_profile, Kd_email, Kd_whatsapp, Kd_channel]"

definition request_mailbox :: "work_env \<Rightarrow> cp_job \<Rightarrow> json \<Rightarrow> uid option" where
  "request_mailbox W job request =
     (if jb_kind job = ''email_identity'' \<and> oe_mail (wk_onb W) \<noteq> None then jtext_or_none request ''email_identity_id'' else None)"

definition live_workflow :: "uid \<Rightarrow> cpdb \<Rightarrow> bool" where
  "live_workflow wid d \<longleftrightarrow>
     (\<exists>w \<in> set (c_workflows d). wfl_id w = wid \<and> wfl_state w \<noteq> Wf_cancelled \<and>
        (\<exists>h \<in> set (c_households d). ch_id h = wfl_household w \<and> ch_status h \<notin> {''draft'', ''deleting'', ''deleted''}))"

definition in_progress :: "step_status \<Rightarrow> bool" where
  "in_progress s \<longleftrightarrow> s \<in> {St_provisioning, St_waiting_user, St_verifying}"

definition problem_step :: "job_status \<Rightarrow> step_status" where
  "problem_step s = (if s = Jb_waiting_user then St_waiting_user else if s = Jb_outcome_unknown then St_verifying else St_failed)"

definition problem_text :: "step_status \<Rightarrow> string" where
  "problem_text s = (if s = St_waiting_user then ''waiting_for_you'' else if s = St_verifying then ''needs_reconciliation''
     else ''needs_attention'')"

definition problem_mail :: "job_status \<Rightarrow> email_status" where
  "problem_mail s = (if s = Jb_waiting_user then Ei_waiting_user else if s = Jb_outcome_unknown then Ei_outcome_unknown
     else Ei_needs_attention)"

definition project_problem :: "uid \<Rightarrow> step_kind \<Rightarrow> job_status \<Rightarrow> string \<Rightarrow> json \<Rightarrow> time \<Rightarrow> cpdb \<Rightarrow> cpdb" where
  "project_problem wid k status code public now d =
     (if \<not> live_workflow wid d then d
      else put_step wid k (\<lambda>s. if in_progress (stp_status s)
             then s\<lparr>stp_status := problem_step status, stp_error := Some code,
                    stp_public := merge_public (problem_text (problem_step status)) public, stp_updated_at := now\<rparr> else s) d)"

definition restore_settled_household :: "cp_job \<Rightarrow> time \<Rightarrow> cpdb \<Rightarrow> cpdb" where
  "restore_settled_household j now d =
     (let live = filter (\<lambda>r. cfg_household r = jb_household j \<and> cfg_status r = Cf_active) (c_configs d)
      in if \<exists>r \<in> set (c_resources d). res_household r = jb_household j \<and> res_type r = ''runtime'' \<and>
              jb_revision j \<noteq> None \<and> res_revision r = jb_revision j then d
         else if live = [] then d
         else d\<lparr>c_households := tbl_update (\<lambda>h. ch_id h = jb_household j \<and> ch_status h = ''provisioning'')
                (\<lambda>h. h\<lparr>ch_status := ''active'', ch_revision := Max (set (map cfg_revision live)), ch_updated_at := now\<rparr>)
                (c_households d)\<rparr>)"

definition settle_problem :: "work_env \<Rightarrow> cp_job \<Rightarrow> json \<Rightarrow> job_status \<Rightarrow> string \<Rightarrow> time \<Rightarrow> unit onb" where
  "settle_problem W job request status code now =
     (if status = Jb_waiting_user \<and> jb_kind job = ''email_identity'' \<and> jb_provider job = ''nerve-byo-domain''
      then raising (\<lambda>e. Ob_missing (jb_id job))
        (schedule_waiting_inspect (oe_jobs (wk_onb W)) (jb_id job)
          (jset request ''stable_ref'' (case jget request ''stable_ref'' of JNull \<Rightarrow> JStr (jb_intent job) | v \<Rightarrow> v))
          (if jb_attempts job < 5 then Some (now + dns_delay (jb_attempts job)) else None) code now)
      else settle (jb_id job) status None None (Some code) now)"

definition apply_problem ::
  "work_env \<Rightarrow> cp_job \<Rightarrow> json \<Rightarrow> job_status \<Rightarrow> string \<Rightarrow> json \<Rightarrow> string option \<Rightarrow> time \<Rightarrow> work_result onb" where
  "apply_problem W job request status code public ref now =
     andthen (settle_problem W job request status code now) (\<lambda>u.
     andthen (case str_or_none ref of
        Some r \<Rightarrow> if status = Jb_waiting_user then external_resource W job (JStr r) Er_creating None (jb_kind job) now else answer []
      | None \<Rightarrow> answer []) (\<lambda>u.
     andthen (case request_mailbox W job request of
        None \<Rightarrow> answer ()
      | Some i \<Rightarrow> andthen (raising Ob_email (mark_problem i (problem_mail status) now)) (\<lambda>u.
                  edit (\<lambda>d. snd (finish_disconnect i now d)))) (\<lambda>u.
     andthen (edit (\<lambda>d. if jb_kind job = ''runtime'' \<and> status = Jb_failed then snd (retire_staged_members (jb_household job) d) else d)) (\<lambda>u.
     andthen (edit (\<lambda>d. if jb_operation job = ''reprovision_runtime'' \<and> status = Jb_failed then restore_settled_household job now d else d)) (\<lambda>u.
     andthen (edit (\<lambda>d. case request_step request of
        None \<Rightarrow> d | Some k \<Rightarrow> project_problem (jb_workflow job) k status code public now d)) (\<lambda>u.
     answer (result_of (jb_id job) status (Some code))))))))"

definition mark_step_problem ::
  "work_env \<Rightarrow> cp_job \<Rightarrow> json \<Rightarrow> job_status \<Rightarrow> string \<Rightarrow> json \<Rightarrow> string option \<Rightarrow> time \<Rightarrow> work_result onb" where
  "mark_step_problem W job request status code public ref now =
     write_tx (\<lambda>d.
       case jobs_get (jb_id job) d of
         None \<Rightarrow> (Inr (result_of (jb_id job) Jb_cancelled (Some ''job_missing'')), d)
       | Some cur \<Rightarrow>
           if jb_status cur = Jb_cancelled
           then (if status \<noteq> Jb_outcome_unknown then (Inr (result_of (jb_id job) Jb_cancelled None), d)
                 else andthen (settle (jb_id job) Jb_outcome_unknown None None (Some ''cancelled_provider_outcome_unknown'') now)
                        (\<lambda>u. answer (result_of (jb_id job) Jb_outcome_unknown (Some ''cancelled_provider_outcome_unknown''))) d)
           else if jb_status cur = Jb_outcome_unknown \<and> requires_reconciliation (jb_error cur) \<and> status = Jb_waiting_user
           then (Inr (result_of (jb_id job) Jb_outcome_unknown (jb_error cur)), d)
           else if jb_status cur \<notin> {Jb_running, Jb_outcome_unknown}
           then (Inr (result_of (jb_id job) (jb_status cur) (Some (status_str (jb_status cur)))), d)
           else apply_problem W job request status code public ref now d)"

section \<open>A step that succeeded\<close>

definition durable_json :: "string \<Rightarrow> json \<Rightarrow> json" where
  "durable_json ref public = JObj [(''external_ref'', JStr ref), (''public_result'', public), (''verified'', JBool True)]"

text \<open>\<open>str\<close> of a reference is modelled for texts, which is what the validated binding holds.\<close>

definition mailbox_of :: "provision_result \<Rightarrow> json \<Rightarrow> verified_mailbox" where
  "mailbox_of r public =
     \<lparr>vm_address = jtext public ''agent_inbox'', vm_subject = jtext_or_none public ''provider_subject'',
      vm_refs = (case jget public ''provider_refs'' of JObj o' \<Rightarrow> JObj o' | _ \<Rightarrow> JObj [(''external_ref'', JStr (pv_ref r))]),
      vm_secret = jtext_or_none public ''secret_binding_ref'',
      vm_scopes = (case jget public ''granted_scopes'' of JArr xs \<Rightarrow> List.map_filter jstr xs | _ \<Rightarrow> [])\<rparr>"

definition verify_mailbox :: "work_env \<Rightarrow> cp_job \<Rightarrow> step_kind \<Rightarrow> json \<Rightarrow> provision_result \<Rightarrow> json \<Rightarrow> time \<Rightarrow> unit onb" where
  "verify_mailbox W job k request r public now =
     (case (oe_mail (wk_onb W), jtext_or_none request ''email_identity_id'') of
        (Some M, Some i) \<Rightarrow>
          if k \<noteq> Kd_email then answer ()
          else if jtext public ''agent_inbox'' = [] then fail_with (Ob_rejected ''email provider returned no verified address'')
          else raising (\<lambda>e. case e of Email_integrity m \<Rightarrow> Ob_integrity
                 | x \<Rightarrow> Ob_rejected ''email provider returned a mismatched identity'') (mark_verified M i (mailbox_of r public) now)
      | x \<Rightarrow> answer ())"

definition finished_step :: "step_status \<Rightarrow> json \<Rightarrow> json \<Rightarrow> time \<Rightarrow> cp_step \<Rightarrow> cp_step" where
  "finished_step ns result public now s =
     s\<lparr>stp_status := ns, stp_result := Some result, stp_public := merge_public ''verified'' public, stp_error := None, stp_updated_at := now\<rparr>"

definition open_next :: "uid \<Rightarrow> step_kind \<Rightarrow> time \<Rightarrow> cpdb \<Rightarrow> cpdb" where
  "open_next wid k now =
     put_step wid k (\<lambda>s. if stp_status s = St_locked then s\<lparr>stp_status := St_available, stp_updated_at := now\<rparr> else s)"

definition runtime_request :: "work_env \<Rightarrow> cp_job \<Rightarrow> household_spec \<times> cp_config \<Rightarrow> job_request" where
  "runtime_request W job p =
     \<lparr>jq_household = jb_household job, jq_workflow = jb_workflow job, jq_kind = ''runtime'', jq_operation = ''ensure_runtime'',
      jq_intent = intent [jb_household job, ''runtime'', nat_digits (cfg_revision (snd p))],
      jq_request = JObj [(''step_kind'', JStr ''runtime''), (''manifest'', spec_json (fst p))],
      jq_provider = oe_runtime_provider (wk_onb W), jq_revision = Some (cfg_revision (snd p))\<rparr>"

definition owner_of :: "uid \<Rightarrow> cpdb \<Rightarrow> uid option" where
  "owner_of hh d =
     map_option cm_account (find (\<lambda>m. cm_household m = hh \<and> cm_role m = ''owner'' \<and> cm_status m = ''active'') (c_memberships d))"

text \<open>What follows the step: a runtime after the channel, the next step otherwise.  The answer is the related job.\<close>

definition move_on :: "work_env \<Rightarrow> cp_job \<Rightarrow> step_kind \<Rightarrow> cp_workflow \<Rightarrow> time \<Rightarrow> (uid \<times> workflow_state) onb" where
  "move_on W job k w now =
     (if k = Kd_channel
      then andthen (plan_issue (wk_plan W) (jb_household job) now) (\<lambda>p.
           andthen (queue (wk_onb W) (runtime_request W job p) now) (\<lambda>j.
           andthen (edit (put_workflow (jb_workflow job) (\<lambda>x. x\<lparr>wfl_state := Wf_runtime_provisioning, wfl_step := Kd_runtime,
              wfl_version := wfl_version w + 1, wfl_updated_at := now\<rparr>))) (\<lambda>u.
           andthen (edit (\<lambda>d. d\<lparr>c_households := tbl_update (\<lambda>h. ch_id h = jb_household job)
              (\<lambda>h. h\<lparr>ch_status := ''provisioning'', ch_revision := cfg_revision (snd p), ch_updated_at := now\<rparr>) (c_households d)\<rparr>)) (\<lambda>u.
           answer (fst j, Wf_runtime_provisioning)))))
      else let next_kind = (if k = Kd_email then Kd_whatsapp else Kd_channel)
           in andthen (edit (open_next (jb_workflow job) next_kind now)) (\<lambda>u.
              andthen (edit (put_workflow (jb_workflow job) (\<lambda>x. x\<lparr>wfl_step := next_kind, wfl_version := wfl_version w + 1,
                wfl_updated_at := now\<rparr>))) (\<lambda>u.
              answer (jb_id job, wfl_state w))))"

definition finish_body :: "work_env \<Rightarrow> cp_job \<Rightarrow> step_kind \<Rightarrow> json \<Rightarrow> provision_result \<Rightarrow> json \<Rightarrow> time \<Rightarrow> work_result onb" where
  "finish_body W job k request r public now =
     andthen (found Ob_superseded (jobs_get (jb_id job))) (\<lambda>cur.
     andthen (demand (jb_status cur \<in> {Jb_running, Jb_outcome_unknown} \<and> \<not> requires_reconciliation (jb_error cur)) Ob_superseded) (\<lambda>u.
     andthen (found Ob_superseded (step_row (jb_workflow job) k)) (\<lambda>s.
     andthen (refuse_on (\<lambda>d. if in_progress (stp_status s) \<and> live_workflow (jb_workflow job) d then None else Some Ob_superseded)) (\<lambda>u.
     andthen (verify_mailbox W job k request r public now) (\<lambda>u.
     andthen (advance k s Cmd_verify_result) (\<lambda>ns.
     andthen (edit (put_step (jb_workflow job) k (finished_step ns (durable_json (pv_ref r) public) public now))) (\<lambda>u.
     andthen (settle (jb_id job) Jb_succeeded (Some (durable_json (pv_ref r) public)) (Some (pv_ref r)) None now) (\<lambda>u.
     andthen (external_resource W job (JStr (pv_ref r)) Er_ready None (jb_kind job) now) (\<lambda>u.
     andthen (found (Ob_crash ''workflow'') (\<lambda>d. find (\<lambda>w. wfl_id w = jb_workflow job) (c_workflows d))) (\<lambda>w.
     andthen (move_on W job k w now) (\<lambda>x.
     andthen (found (Ob_crash ''owner'') (owner_of (jb_household job))) (\<lambda>owner.
     andthen (append_transition (wk_onb W) w owner None (''worker:'' @ jb_id job)
       \<lparr>mv_command = ''provider_result'', mv_to = snd x, mv_step = Some k, mv_from_step = Some (stp_status s),
        mv_to_step = Some St_verified, mv_job = Some (fst x), mv_metadata = JObj [(''provider'', JStr (jb_provider job))]\<rparr> now) (\<lambda>u.
     answer (result_of (jb_id job) Jb_succeeded None))))))))))))))"

definition finish_step :: "work_env \<Rightarrow> cp_job \<Rightarrow> json \<Rightarrow> provision_result \<Rightarrow> time \<Rightarrow> work_result onb" where
  "finish_step W job request r now d =
     (case find (\<lambda>k. JStr (kind_str k) = jget request ''step_kind'') [Kd_profile, Kd_email, Kd_whatsapp, Kd_channel, Kd_runtime] of
        None \<Rightarrow> (Inl (Ob_crash ''step_kind''), d)
      | Some k \<Rightarrow>
          (case (if k = Kd_email then wk_validated W job request r d else Some (pv_public r)) of
             None \<Rightarrow> (Inl (Ob_rejected ''email provider returned an invalid public binding''), d)
           | Some public \<Rightarrow> write_tx (finish_body W job k request r public now) d))"

section \<open>The consent that a job needs\<close>

definition back_to_email :: "work_env \<Rightarrow> cp_job \<Rightarrow> cp_workflow \<Rightarrow> uid \<Rightarrow> time \<Rightarrow> unit onb" where
  "back_to_email W job w owner now =
     andthen (edit (\<lambda>d. snd (revoke_configs [Cf_planned, Cf_issued, Cf_claimed] (jb_household job) d))) (\<lambda>u.
     andthen (edit (revoke_bootstraps (jb_household job) now)) (\<lambda>u.
     andthen (edit (\<lambda>d. d\<lparr>c_households := tbl_update (\<lambda>h. ch_id h = jb_household job \<and> ch_status h \<notin> {''deleting'', ''deleted''})
        (\<lambda>h. h\<lparr>ch_status := ''onboarding'', ch_updated_at := now\<rparr>) (c_households d)\<rparr>)) (\<lambda>u.
     andthen (edit (put_workflow (wfl_id w) (\<lambda>x. x\<lparr>wfl_state := Wf_in_progress, wfl_step := Kd_email,
        wfl_version := wfl_version w + 1, wfl_updated_at := now, wfl_completed_at := None\<rparr>))) (\<lambda>u.
     append_transition (wk_onb W) w owner None (''worker:'' @ jb_id job @ '':content-restriction'')
       \<lparr>mv_command = ''require_content_restriction_acknowledgement'', mv_to = Wf_in_progress, mv_step = Some Kd_email,
        mv_from_step = None, mv_to_step = None, mv_job = Some (jb_id job),
        mv_metadata = JObj [(''reason'', JStr ''current_receipt_required'')]\<rparr> now))))"

definition receipt_code :: string where "receipt_code = ''content_restriction_receipt_required''"

definition block_runtime :: "work_env \<Rightarrow> cp_job \<Rightarrow> time \<Rightarrow> work_result onb" where
  "block_runtime W job now d =
     (case jobs_get (jb_id job) d of
        None \<Rightarrow> (Inr (result_of (jb_id job) Jb_cancelled (Some ''job_missing'')), d)
      | Some cur \<Rightarrow>
          if jb_status cur \<notin> {Jb_running, Jb_outcome_unknown}
          then (Inr (result_of (jb_id job) (jb_status cur) (Some (status_str (jb_status cur)))), d)
          else
            andthen (settle (jb_id job) Jb_failed None None (Some receipt_code) now) (\<lambda>u.
            andthen (edit (\<lambda>d. snd (retire_staged_members (jb_household job) d))) (\<lambda>u.
            andthen (look (\<lambda>d. (find (\<lambda>w. wfl_id w = jb_workflow job \<and> wfl_household w = jb_household job) (c_workflows d),
               owner_of (jb_household job) d))) (\<lambda>wo.
            andthen (case wo of
                (Some w, Some owner) \<Rightarrow>
                  if wfl_state w \<in> {Wf_runtime_provisioning, Wf_activating} then back_to_email W job w owner now else answer ()
              | x \<Rightarrow> answer ()) (\<lambda>u.
            answer (result_of (jb_id job) Jb_failed (Some receipt_code)))))) d)"

definition block_for_missing_consent :: "work_env \<Rightarrow> cp_job \<Rightarrow> json \<Rightarrow> time \<Rightarrow> work_result onb" where
  "block_for_missing_consent W job request now =
     (if jb_kind job \<noteq> ''runtime'' then mark_step_problem W job request Jb_failed receipt_code (JObj []) None now
      else write_tx (block_runtime W job now))"

definition brake_option :: "work_env \<Rightarrow> cp_job \<Rightarrow> bool \<Rightarrow> json \<Rightarrow> string \<Rightarrow> time \<Rightarrow> work_result onb" where
  "brake_option W job reclaimed request code now =
     (if \<not> (jb_status job = Jb_outcome_unknown \<or> reclaimed \<or> 1 < jb_attempts job)
      then mark_step_problem W job request Jb_failed code (JObj []) None now
      else if jb_status job = Jb_outcome_unknown then answer (result_of (jb_id job) Jb_outcome_unknown (jb_error job))
      else mark_step_problem W job request Jb_outcome_unknown code (JObj []) None now)"

section \<open>An answer that came too late\<close>

definition late_waiting_cleanup :: "work_env \<Rightarrow> cp_job \<Rightarrow> json \<Rightarrow> string \<Rightarrow> time \<Rightarrow> work_result option onb" where
  "late_waiting_cleanup W job request ref now d =
     (case jobs_get (jb_id job) d of
        None \<Rightarrow> (Inr None, d)
      | Some cur \<Rightarrow>
          if (jb_status cur = Jb_running \<and> \<not> owned_by_deletion job d)
             \<or> jb_status cur \<notin> {Jb_running, Jb_outcome_unknown}
             \<or> \<not> (requires_reconciliation (jb_error cur) \<or> owned_by_deletion job d) then (Inr None, d)
          else write_tx
            (andthen (if jb_status cur = Jb_running then settle (jb_id job) Jb_outcome_unknown None None (jb_error cur) now else answer ()) (\<lambda>u.
             andthen (external_resource W job (JStr ref) Er_deleting (jb_revision job) (jb_kind job) now) (\<lambda>rid.
             andthen (queue (wk_onb W)
               \<lparr>jq_household = jb_household job, jq_workflow = jb_workflow job, jq_kind = ''cleanup'', jq_operation = ''deprovision'',
                jq_intent = intent [jb_household job, ''late-waiting-cleanup'', jb_id job],
                jq_request = JObj [(''resource_id'', JStr rid), (''resource_type'', JStr (jb_kind job)), (''external_ref'', JStr ref),
                  (''email_identity_id'', jget request ''email_identity_id''), (''parent_job_id'', JStr (jb_id job))],
                jq_provider = jb_provider job, jq_revision = jb_revision job\<rparr> now) (\<lambda>j.
             answer (Some (result_of (jb_id job) Jb_outcome_unknown (jb_error cur))))))) d)"

definition record_waiting :: "work_env \<Rightarrow> cp_job \<Rightarrow> json \<Rightarrow> json \<Rightarrow> string option \<Rightarrow> string \<Rightarrow> time \<Rightarrow> work_result onb" where
  "record_waiting W job request public ref code now =
     andthen (case ref of
        Some r \<Rightarrow> if jb_kind job \<in> set content_resource_types then late_waiting_cleanup W job request r now else answer None
      | None \<Rightarrow> answer None) (\<lambda>x.
     case x of
       Some res \<Rightarrow> answer res
     | None \<Rightarrow> andthen (look (owned_by_deletion job)) (\<lambda>deleting.
         mark_step_problem W job request (if deleting then Jb_outcome_unknown else Jb_waiting_user) code public ref now))"

definition provider_waiting :: "work_env \<Rightarrow> cp_job \<Rightarrow> json \<Rightarrow> json \<Rightarrow> string option \<Rightarrow> string \<Rightarrow> time \<Rightarrow> work_result onb" where
  "provider_waiting W job request public ref code now =
     (if jb_kind job \<noteq> ''email_identity'' then record_waiting W job request public ref code now
      else case wk_waiting W job request public ref of
             None \<Rightarrow> mark_step_problem W job request Jb_outcome_unknown ''provider_result_invalid'' (JObj []) None now
           | Some (p, r) \<Rightarrow> record_waiting W job request p r code now)"

section \<open>After the provider's call\<close>

definition try_again :: "cp_job \<Rightarrow> time \<Rightarrow> string \<Rightarrow> time \<Rightarrow> work_result onb" where
  "try_again job not_before code now =
     andthen (edit (retry_later (jb_id job) not_before code now)) (\<lambda>u. look (durable_result (jb_id job) code))"

definition email_failure :: "work_env \<Rightarrow> cp_job \<Rightarrow> json \<Rightarrow> failure_kind \<Rightarrow> time \<Rightarrow> work_result onb" where
  "email_failure W job request f now =
     (if f \<in> {Fk_safe_retry, Fk_degraded}
      then (if wk_max_attempts W \<le> jb_attempts job
            then mark_step_problem W job request Jb_failed ''email_retry_exhausted'' (JObj []) None now
            else try_again job (now + 30) ''email_retry_scheduled'' now)
      else case f of
             Fk_user_action \<Rightarrow> mark_step_problem W job request Jb_waiting_user ''email_user_action_required'' (JObj []) None now
           | Fk_definitive \<Rightarrow> mark_step_problem W job request Jb_failed ''email_provider_rejected'' (JObj []) None now
           | Fk_auth_revoked \<Rightarrow> mark_step_problem W job request Jb_failed ''email_auth_revoked'' (JObj []) None now
           | _ \<Rightarrow> mark_step_problem W job request Jb_outcome_unknown ''email_outcome_unknown'' (JObj []) None now)"

definition rate_limited :: "work_env \<Rightarrow> cp_job \<Rightarrow> json \<Rightarrow> time \<Rightarrow> time \<Rightarrow> work_result onb" where
  "rate_limited W job request after now =
     andthen (look (jobs_get (jb_id job))) (\<lambda>cur.
     if cur = None \<or> jb_status (the cur) = Jb_cancelled then answer (result_of (jb_id job) Jb_cancelled None)
     else if wk_max_attempts W \<le> jb_attempts job
     then mark_step_problem W job request Jb_failed ''rate_limit_exhausted'' (JObj []) None now
     else try_again job (now + after) ''rate_limited'' now)"

section \<open>A result nobody wants any more\<close>

definition set_resource :: "uid \<Rightarrow> resource_status \<Rightarrow> time \<Rightarrow> cpdb \<Rightarrow> cpdb" where
  "set_resource i status now d =
     d\<lparr>c_resources := tbl_update (\<lambda>r. res_id r = i) (\<lambda>r. r\<lparr>res_status := status, res_updated_at := now\<rparr>) (c_resources d)\<rparr>"

definition namespace_order :: "cp_resource \<Rightarrow> time \<times> uid" where "namespace_order r = (res_updated_at r, res_id r)"

definition namespace_ref :: "bool \<Rightarrow> uid \<Rightarrow> cpdb \<Rightarrow> string option" where
  "namespace_ref deleting hh d =
     (case rev (sort_key namespace_order (filter (\<lambda>r. res_household r = hh \<and> res_type r = ''secret_namespace'' \<and>
         res_status r \<in> (if deleting then {Er_ready, Er_deleting, Er_outcome_unknown} else {Er_ready})) (c_resources d))) of
        [] \<Rightarrow> None
      | r # rs \<Rightarrow> str_or_none (jstr (res_external r)))"

definition compensated :: "uid \<Rightarrow> time \<Rightarrow> unit onb" where
  "compensated i now d =
     (case jobs_get i d of
        None \<Rightarrow> (Inr (), d)
      | Some r \<Rightarrow>
          if jb_status r \<in> {Jb_running, Jb_outcome_unknown, Jb_cancelled}
          then settle i Jb_cancelled None None (Some ''cancelled_and_compensated'') now d else (Inr (), d))"

definition late_secret_request :: "cp_job \<Rightarrow> uid \<Rightarrow> string option \<Rightarrow> string \<Rightarrow> json \<Rightarrow> job_request" where
  "late_secret_request job rid ns name mail =
     \<lparr>jq_household = jb_household job, jq_workflow = jb_workflow job, jq_kind = ''bootstrap_cleanup'',
      jq_operation = ''delete_email_secret'', jq_intent = intent [jb_household job, ''late-email-secret-cleanup'', jb_id job],
      jq_request = JObj [(''runtime_ref'', (case ns of None \<Rightarrow> JNull | Some n \<Rightarrow> JStr n)), (''name'', JStr name),
        (''parent_job_id'', JStr (jb_id job)), (''resource_id'', JStr rid), (''email_identity_id'', mail),
        (''cleanup_authorization'', JStr ''email_identity_cancelled'')],
      jq_provider = ''internal-secret-sink'', jq_revision = None\<rparr>"

definition late_cleanup_request :: "cp_job \<Rightarrow> uid \<Rightarrow> string \<Rightarrow> json \<Rightarrow> job_request" where
  "late_cleanup_request job rid ref mail =
     \<lparr>jq_household = jb_household job, jq_workflow = jb_workflow job, jq_kind = ''cleanup'', jq_operation = ''deprovision'',
      jq_intent = intent [jb_household job, ''late-cleanup'', jb_id job],
      jq_request = JObj [(''resource_id'', JStr rid), (''resource_type'', JStr (jb_kind job)), (''external_ref'', JStr ref),
        (''email_identity_id'', mail), (''parent_job_id'', JStr (jb_id job))],
      jq_provider = jb_provider job, jq_revision = None\<rparr>"

text \<open>
  \<open>gone\<close> is what \<open>deprovision\<close> reported, if it did not fail; \<open>sink\<close> whether the secret sink
  proved the mailbox's secret deleted.
\<close>

definition after_deprovision ::
  "work_env \<Rightarrow> cp_job \<Rightarrow> uid \<Rightarrow> string \<Rightarrow> json \<Rightarrow> bool \<Rightarrow> inspect_state option \<Rightarrow> time \<Rightarrow> unit onb" where
  "after_deprovision W job rid ref mail secret_unknown gone now =
     write_tx
       (andthen (edit (set_resource rid (if gone = Some Is_absent then Er_deleted else Er_outcome_unknown) now)) (\<lambda>u.
        andthen (if gone = Some Is_absent \<and> \<not> secret_unknown
          then andthen (compensated (jb_id job) now) (\<lambda>u.
               edit (\<lambda>d. case (oe_mail (wk_onb W), mail) of
                 (Some M, JStr i) \<Rightarrow> if jb_kind job = ''email_identity'' then snd (finish_disconnect i now d) else d
               | x \<Rightarrow> d))
          else answer ()) (\<lambda>u.
        if gone = Some Is_absent then answer ()
        else andthen (queue (wk_onb W) (late_cleanup_request job rid ref mail) now) (\<lambda>j. answer ()))))"

definition cancelled_result ::
  "work_env \<Rightarrow> cp_job \<Rightarrow> provision_result \<Rightarrow> inspect_state option \<Rightarrow> bool \<Rightarrow> time \<Rightarrow> work_result onb" where
  "cancelled_result W job r gone sink now =
     andthen (found (Ob_missing (jb_id job)) (jobs_get (jb_id job))) (\<lambda>cur.
     andthen (look (\<lambda>d. jb_kind job = ''email_identity'' \<and> wk_validated W job (jb_request cur) r d = None)) (\<lambda>invalid.
     if invalid
     then mark_step_problem W job (jb_request cur) Jb_outcome_unknown ''cancelled_provider_result_invalid'' (JObj []) None now
     else
       (let mail = (if jb_kind job = ''email_identity'' then jget (jb_request cur) ''email_identity_id'' else JNull);
            name = (if jb_kind job = ''email_identity'' then jtext (pv_public r) ''secret_binding_ref'' else [])
        in andthen (write_tx (external_resource W job (JStr (pv_ref r)) Er_deleting (jb_revision job) (jb_kind job) now)) (\<lambda>rid.
           andthen (look (namespace_ref True (jb_household job))) (\<lambda>ns.
           (let secret_unknown = name \<noteq> [] \<and> (ns = None \<or> \<not> sink)
            in andthen (if secret_unknown
                 then write_tx (andthen (queue (wk_onb W) (late_secret_request job rid ns name mail) now) (\<lambda>j. answer ()))
                 else answer ()) (\<lambda>u.
               andthen (after_deprovision W job rid (pv_ref r) mail secret_unknown gone now) (\<lambda>u.
               answer (if \<not> secret_unknown \<and> gone = Some Is_absent then result_of (jb_id job) Jb_cancelled None
                       else result_of (jb_id job) Jb_outcome_unknown (Some ''cancelled_cleanup_unknown''))))))))))"

section \<open>Settling a step job\<close>

definition settle_result ::
  "work_env \<Rightarrow> cp_job \<Rightarrow> json \<Rightarrow> provision_result \<Rightarrow> bool \<Rightarrow> inspect_state option \<Rightarrow> bool \<Rightarrow> time \<Rightarrow> work_result onb" where
  "settle_result W job request r staged gone sink now d =
     (if jb_kind job = ''email_identity'' \<and> \<not> staged
      then mark_step_problem W job request Jb_outcome_unknown ''secret_handoff_unknown'' (JObj []) None now d
      else if jb_kind job \<noteq> ''email_identity'' \<and> pv_secret r
      then mark_step_problem W job request Jb_failed ''provider_rejected'' (JObj []) None now d
      else case finish_step W job request r now d of
             (Inl Ob_superseded, d1) \<Rightarrow> cancelled_result W job r gone sink now d1
           | (Inl (Ob_rejected m), d1) \<Rightarrow> mark_step_problem W job request Jb_failed ''provider_rejected'' (JObj []) None now d1
           | (x, d1) \<Rightarrow> (x, d1))"

definition after_ensure ::
  "work_env \<Rightarrow> cp_job \<Rightarrow> json \<Rightarrow> provider_answer \<Rightarrow> bool \<Rightarrow> inspect_state option \<Rightarrow> bool \<Rightarrow> time \<Rightarrow> work_result onb" where
  "after_ensure W job request ans staged gone sink now =
     (case ans of
        Pa_result r \<Rightarrow>
          andthen (look (\<lambda>d. superseded (jobs_get (jb_id job) d))) (\<lambda>late.
          if late then cancelled_result W job r gone sink now else settle_result W job request r staged gone sink now)
      | Pa_waiting public ref code \<Rightarrow> provider_waiting W job request public ref code now
      | Pa_rate_limited after \<Rightarrow> rate_limited W job request after now
      | Pa_email_failure f \<Rightarrow> email_failure W job request f now
      | Pa_secret_field \<Rightarrow>
          if jb_kind job = ''email_identity''
          then mark_step_problem W job request Jb_outcome_unknown ''provider_result_invalid'' (JObj []) None now
          else mark_step_problem W job request Jb_failed ''provider_rejected'' (JObj []) None now
      | Pa_rejected code \<Rightarrow> mark_step_problem W job request Jb_failed code (JObj []) None now
      | Pa_unknown \<Rightarrow> mark_step_problem W job request Jb_outcome_unknown ''outcome_unknown'' (JObj []) None now)"

definition namespace_gate :: "work_env \<Rightarrow> cp_job \<Rightarrow> json \<Rightarrow> time \<Rightarrow> work_result option onb" where
  "namespace_gate W job request now d =
     (if jb_kind job \<noteq> ''email_identity'' \<or> namespace_ref False (jb_household job) d \<noteq> None then (Inr None, d)
      else
        (let failed = (case latest_job (\<lambda>j. jb_household j = jb_household job \<and> jb_operation j = ''ensure_secret_namespace'') d of
               None \<Rightarrow> False | Some j \<Rightarrow> jb_status j = Jb_failed)
         in andthen (if failed then mark_step_problem W job request Jb_failed ''secret_namespace_failed'' (JObj []) None now
              else try_again job (now + 5) ''secret_namespace_not_ready'' now) (\<lambda>x. answer (Some x)) d))"

definition gate :: "work_env \<Rightarrow> cp_job \<Rightarrow> bool \<Rightarrow> json \<Rightarrow> time \<Rightarrow> work_result option onb" where
  "gate W job reclaimed request now d =
     (if requires_content_restriction job \<and> \<not> is_shutdown_action job d \<and> missing_consent W job d \<noteq> None
      then andthen (block_for_missing_consent W job request now) (\<lambda>x. answer (Some x)) d
      else case kill_switch W job d of
             Some code \<Rightarrow> andthen (brake_option W job reclaimed request code now) (\<lambda>x. answer (Some x)) d
           | None \<Rightarrow> namespace_gate W job request now d)"

text \<open>
  What the outside answers to one job: the inspection of a reclaimed job, the call itself, whether the
  secret was staged, and the teardown of a result that came too late.
\<close>

record outside =
  os_inspect :: "inspect_state \<times> provision_result option \<times> string option"
  os_answer :: provider_answer
  os_staged :: bool
  os_gone :: "inspect_state option"
  os_sink :: bool

definition after_gate :: "work_env \<Rightarrow> cp_job \<Rightarrow> bool \<Rightarrow> json \<Rightarrow> outside \<Rightarrow> time \<Rightarrow> work_result onb" where
  "after_gate W job reclaimed request o' now =
     (let ensure = (\<lambda>a. after_ensure W job request a (os_staged o') (os_gone o') (os_sink o') now)
      in if \<not> reclaimed then ensure (os_answer o')
         else case os_inspect o' of
                (Is_ready, Some r, c) \<Rightarrow> ensure (Pa_result r)
              | (Is_failed, x, c) \<Rightarrow>
                  mark_step_problem W job request Jb_failed (case str_or_none c of None \<Rightarrow> ''provider_rejected'' | Some e \<Rightarrow> e)
                    (JObj []) None now
              | (Is_absent, x, c) \<Rightarrow> ensure (os_answer o')
              | (y, x, c) \<Rightarrow> mark_step_problem W job request Jb_outcome_unknown ''lease_reclaim_inconclusive'' (JObj []) None now)"

definition step_job :: "cp_job \<Rightarrow> bool" where
  "step_job j \<longleftrightarrow> jb_kind j \<in> {''email_identity'', ''whatsapp_identity'', ''channel_binding''} \<and> jb_operation j = ''ensure''"

definition work_step_job :: "work_env \<Rightarrow> cp_job \<Rightarrow> bool \<Rightarrow> outside \<Rightarrow> time \<Rightarrow> work_result onb" where
  "work_step_job W job reclaimed o' now =
     andthen (found (Ob_missing (jb_id job)) (jobs_get (jb_id job))) (\<lambda>cur.
     andthen (gate W job reclaimed (jb_request cur) now) (\<lambda>x.
     case x of Some res \<Rightarrow> answer res | None \<Rightarrow> after_gate W job reclaimed (jb_request cur) o' now))"

section \<open>Namespaces and teardowns\<close>

definition finish_namespace :: "work_env \<Rightarrow> cp_job \<Rightarrow> provision_result \<Rightarrow> time \<Rightarrow> work_result onb" where
  "finish_namespace W job r now d =
     (if pv_secret r then (Inl (Ob_rejected ''secret namespace creation returned unexpected secret material''), d)
      else write_tx (\<lambda>d.
        case (jobs_get (jb_id job) d, find (\<lambda>w. wfl_id w = jb_workflow job) (c_workflows d), households_get (jb_household job) d) of
          (Some cur, Some w, Some h) \<Rightarrow>
            if jb_status cur = Jb_succeeded then (Inr (result_of (jb_id job) Jb_succeeded None), d)
            else if jb_status cur = Jb_cancelled \<or> wfl_state w = Wf_cancelled \<or> ch_status h \<in> {''draft'', ''deleting'', ''deleted''}
            then (Inl Ob_superseded, d)
            else if jb_status cur \<notin> {Jb_running, Jb_outcome_unknown}
            then (Inr (result_of (jb_id job) (jb_status cur) (Some (status_str (jb_status cur)))), d)
            else andthen (settle (jb_id job) Jb_succeeded (Some (durable_json (pv_ref r) (pv_public r))) (Some (pv_ref r)) None now) (\<lambda>u.
                 andthen (external_resource W job (JStr (pv_ref r)) Er_ready None ''secret_namespace'' now) (\<lambda>u.
                 answer (result_of (jb_id job) Jb_succeeded None))) d
        | x \<Rightarrow> (Inr (result_of (jb_id job) Jb_cancelled (Some ''job_missing'')), d)) d)"

definition email_cleanup_pending :: "uid \<Rightarrow> cpdb \<Rightarrow> bool" where
  "email_cleanup_pending hh d \<longleftrightarrow>
     (\<exists>r \<in> set (c_emails d). eid_household r = hh \<and> eid_status r = Ei_disconnecting) \<and> cleanup_pending hh d"

definition settle_parent :: "json \<Rightarrow> time \<Rightarrow> unit onb" where
  "settle_parent parent now = (case parent of JStr i \<Rightarrow> compensated i now | x \<Rightarrow> answer ())"

definition finish_cleanup :: "work_env \<Rightarrow> cp_job \<Rightarrow> json \<Rightarrow> time \<Rightarrow> work_result onb" where
  "finish_cleanup W job request now =
     write_tx
       (andthen (settle (jb_id job) Jb_succeeded None None None now) (\<lambda>u.
        andthen (edit (\<lambda>d. if jtext request ''resource_id'' = [] then d else set_resource (jtext request ''resource_id'') Er_deleted now d)) (\<lambda>u.
        andthen (if jb_provider job = ''local-configuration'' then settle_parent (jget request ''parent_job_id'') now else answer ()) (\<lambda>u.
        andthen (case (oe_mail (wk_onb W), jget request ''email_identity_id'') of
            (Some M, JStr i) \<Rightarrow>
              if jtext request ''resource_type'' = ''email_identity''
              then andthen (settle_parent (jget request ''parent_job_id'') now) (\<lambda>u. edit (\<lambda>d. snd (finish_disconnect i now d)))
              else answer ()
          | x \<Rightarrow> answer ()) (\<lambda>u.
        answer (result_of (jb_id job) Jb_succeeded None))))))"

definition cleanup_problem :: "work_env \<Rightarrow> cp_job \<Rightarrow> json \<Rightarrow> job_status \<Rightarrow> string \<Rightarrow> time \<Rightarrow> work_result onb" where
  "cleanup_problem W job request status code now =
     andthen (mark_step_problem W job request status code (JObj []) None now) (\<lambda>u. answer (result_of (jb_id job) status (Some code)))"

definition work_cleanup :: "work_env \<Rightarrow> cp_job \<Rightarrow> json \<Rightarrow> inspect_state \<Rightarrow> bool \<Rightarrow> time \<Rightarrow> work_result onb" where
  "work_cleanup W job request inspected sink now d =
     (if jtext request ''resource_type'' \<in> {''runtime'', ''secret_namespace''} \<and> email_cleanup_pending (jb_household job) d
      then try_again job (now + 5) ''email_cleanup_pending'' now d
      else if \<not> truthy (jget request ''external_ref'') \<and> \<not> truthy (jget (jget request ''result'') ''external_ref'')
      then cleanup_problem W job request Jb_failed ''missing_external_ref'' now d
      else if inspected = Is_failed then cleanup_problem W job request Jb_failed ''cleanup_rejected'' now d
      else if inspected \<noteq> Is_absent then cleanup_problem W job request Jb_outcome_unknown ''cleanup_unknown'' now d
      else if jtext request ''resource_type'' = ''email_identity'' \<and> \<not> sink
      then cleanup_problem W job request Jb_outcome_unknown ''secret_cleanup_unknown'' now d
      else finish_cleanup W job request now d)"

end
