(* ===== verification/OnboardingLaws.thy ===== *)
theory OnboardingLaws
  imports Provision
begin

text \<open>
  Properties of the onboarding: the journal of a workflow is its history, steps open in order, a repeated
  command is answered and not run again, providers learn nothing about consents, real content needs its
  receipts and a permitted country, and a cancelled household keeps nothing running.
\<close>

section \<open>What an operation leaves alone\<close>

definition keeps :: "(cpdb \<Rightarrow> 'p) \<Rightarrow> 'a onb \<Rightarrow> bool" where
  "keeps \<pi> m \<longleftrightarrow> (\<forall>d x d'. m d = (Inr x, d') \<longrightarrow> \<pi> d' = \<pi> d)"

lemma keepsD: "keeps \<pi> m \<Longrightarrow> m d = (Inr x, d') \<Longrightarrow> \<pi> d' = \<pi> d"
  by (simp add: keeps_def)

named_theorems keeping

lemma keeps_andthen [keeping]: "keeps \<pi> m \<Longrightarrow> (\<And>x. keeps \<pi> (f x)) \<Longrightarrow> keeps \<pi> (andthen m f)"
  by (auto simp: keeps_def onb_Inr)

lemma keeps_write_tx [keeping]: "keeps \<pi> m \<Longrightarrow> keeps \<pi> (write_tx m)"
  by (auto simp: keeps_def write_tx_Inr)

lemma keeps_basic [keeping]:
  "keeps \<pi> (answer v)" "keeps \<pi> (fail_with e)" "keeps \<pi> (demand ok e)" "keeps \<pi> (refuse_on g)" "keeps \<pi> (look h)" "keeps \<pi> (found e k)"
  by (auto simp: keeps_def onb_Inr)

lemma keeps_edit [keeping]: "(\<And>d. \<pi> (f d) = \<pi> d) \<Longrightarrow> keeps \<pi> (edit f)"
  by (auto simp: keeps_def onb_Inr)

lemma keeps_raising [keeping]: "(\<And>d x d'. m d = (Inr x, d') \<Longrightarrow> \<pi> d' = \<pi> d) \<Longrightarrow> keeps \<pi> (raising h m)"
  by (auto simp: keeps_def onb_Inr)

lemma keeps_if [keeping]: "(b \<Longrightarrow> keeps \<pi> m) \<Longrightarrow> (\<not> b \<Longrightarrow> keeps \<pi> n) \<Longrightarrow> keeps \<pi> (if b then m else n)"
  by simp

text \<open>The tables of the onboarding itself, and the answers it remembers.\<close>

definition core :: "cpdb \<Rightarrow> cp_workflow list \<times> cp_step list \<times> cp_transition list \<times> cp_idempotency list" where
  "core d = (c_workflows d, c_steps d, c_transitions d, c_replies d)"

lemma jobs_create_frame: "jobs_create E q now d = (r, d') \<Longrightarrow> d' = d\<lparr>c_jobs := c_jobs d'\<rparr>"
  by (auto simp: jobs_create_def Let_def split: option.splits if_splits)

lemma queue_core [keeping]: "keeps core (queue E q now)"
proof -
  have "core (d\<lparr>c_jobs := js\<rparr>) = core d" for d :: cpdb and js by (simp add: core_def)
  then show ?thesis unfolding queue_def by (intro keeps_raising) (metis jobs_create_frame)
qed

lemma reserve_frames:
  "create_selected M hh opt a now d = (r, d') \<Longrightarrow> core d' = core d"
  by (auto simp: create_selected_def insert_email_def hold_address_def core_def Let_def split: sum.splits prod.splits option.splits if_splits)

lemma select_email_core: "select_email M hh ch now d = (r, d') \<Longrightarrow> core d' = core d"
proof -
  assume h: "select_email M hh ch now d = (r, d')"
  obtain y d1 where c: "create_selected M hh (choice_option ch) (case choice_address ch of Inl e \<Rightarrow> None | Inr a \<Rightarrow> a) now d = (y, d1)"
    by fastforce
  have "core d1 = core d" by (rule reserve_frames [OF c])
  moreover have "core (mark_provisioning i now d1) = core d1" for i
    by (simp add: mark_provisioning_def move_email_def core_def)
  ultimately show ?thesis
    using h c by (auto simp: select_email_def Let_def split: sum.splits option.splits bool.splits email_error.splits)
qed

lemma keep_receipt_core [keeping]: "keeps core (keep_receipt E i hh a purpose texts locale now)"
  by (auto simp: keeps_def keep_receipt_def core_def split: option.splits if_splits)

lemma record_consents_core [keeping]: "keeps core (record_consents E hh a k sel now)"
  by (auto simp: record_consents_def record_email_receipts_def record_email_receipt_def record_whatsapp_consents_def Let_def
      intro!: keeping)

lemma choose_email_core [keeping]: "keeps core (choose_email E hh k sel now)"
  by (auto simp: choose_email_def split: option.split intro!: keeping select_email_core)

lemma retry_email_core [keeping]: "keeps core (retry_email E hh wid k n now)"
  by (auto simp: retry_email_def retry_provisioning_def move_email_def core_def Let_def split: if_splits intro!: keeping)

lemma inspected_email_core [keeping]: "keeps core (inspected_email E hh wid k)"
  by (auto simp: inspected_email_def intro!: keeping)

lemma queue_cleanups_core [keeping]: "keeps core (queue_cleanups E hh wid v mail wt now n rs)"
  by (induction rs arbitrary: n) (auto simp: mark_deleting_def core_def intro!: keeping)

lemma schedule_cleanup_core [keeping]: "keeps core (schedule_cleanup E hh wid v types now)"
  using queue_cleanups_core by (auto simp: keeps_def schedule_cleanup_def)

lemma edits_core:
  "core (cancel_waiting i now d) = core d" "core (supersede_unsettled_jobs hh reason kinds now d) = core d"
  "core (drop_mailbox E hh now d) = core d" "core (snd (revoke_configs ss hh d)) = core d" "core (revoke_bootstraps hh now d) = core d"
  "core (unserve_household status hh now d) = core d" "core (snd (finish_disconnect i now d)) = core d"
  "core (snd (retire_staged_members hh d)) = core d" "core (restore_settled_household j now d) = core d"
  "core (retry_later i nb code now d) = core d" "core (set_resource i rs now d) = core d"
  by (auto simp: core_def cancel_waiting_def supersede_unsettled_jobs_def drop_mailbox_def finish_safe_disconnect_def finish_disconnect_def
      begin_disconnect_def move_email_def revoke_configs_def revoke_bootstraps_def unserve_household_def retire_staged_members_def
      restore_settled_household_def retry_later_def set_resource_def Let_def split: option.splits if_splits)

lemma settle_core [keeping]: "keeps core (settle i status result ref code now)"
  unfolding settle_def
  by (rule keeps_raising) (auto simp: jobs_settle_def on_job_def core_def split: if_splits)

lemma external_resource_core [keeping]: "keeps core (external_resource W job ref status revision rtype now)"
  by (auto simp: keeps_def external_resource_def core_def split: option.splits if_splits)

lemma verify_mailbox_core [keeping]: "keeps core (verify_mailbox W job k request r public now)"
proof -
  have "core d' = core d" if "mark_verified M i m now d = (Inr x, d')" for M i m d x d'
    using that by (auto simp: mark_verified_def core_def split: sum.splits)
  then show ?thesis by (auto simp: verify_mailbox_def split: option.split intro!: keeping)
qed

lemma insert_binding_core: "insert_binding env hh ch e c a role v b acc d = (r, d') \<Longrightarrow> core d' = core d"
  by (auto simp: insert_binding_def core_def Let_def split: sum.splits prod.splits if_splits)

lemma owner_binding_core: "ensure_owner_binding env hh ch e c a acc now d = (r, d') \<Longrightarrow> core d' = core d"
proof -
  have "core (retire_superseded hh d) = core d" by (simp add: retire_superseded_def core_def Let_def)
  then show "ensure_owner_binding env hh ch e c a acc now d = (r, d') \<Longrightarrow> core d' = core d"
    by (auto simp: ensure_owner_binding_def Let_def dest: insert_binding_core split: sum.splits prod.splits option.splits if_splits)
qed

lemma web_seat_core: "ensure_owner_web_seat env hh a ch acc now d = (r, d') \<Longrightarrow> core d' = core d"
proof -
  have "core (d\<lparr>c_bindings := bs\<rparr>) = core d" for bs by (simp add: core_def)
  then show "ensure_owner_web_seat env hh a ch acc now d = (r, d') \<Longrightarrow> core d' = core d"
    by (auto simp: ensure_owner_web_seat_def Let_def dest: insert_binding_core split: sum.splits prod.splits option.splits if_splits)
qed

lemma plan_issue_core [keeping]: "keeps core (plan_issue P hh now)"
proof -
  have "keeps core (seat_owner P hh a primary actor chat now)" for a primary actor chat
    unfolding seat_owner_def by (intro keeping) (blast dest: owner_binding_core web_seat_core)+
  moreover have "keeps core (set_household_preference hh primary account v now)" for primary account v
    unfolding set_household_preference_def by (intro keeping) (simp add: core_def)
  moreover have "keeps core (create_revision uuid hh n m sha now)" for uuid n m sha
    by (auto simp: keeps_def create_revision_def Let_def core_def split: if_splits)
  ultimately show ?thesis unfolding plan_issue_def by (intro keeping) auto
qed

section \<open>What an operation does to the steps\<close>

definition steps_to :: "uid \<Rightarrow> (step_kind \<Rightarrow> step_status \<Rightarrow> step_status) \<Rightarrow> cpdb \<Rightarrow> cpdb \<Rightarrow> bool" where
  "steps_to wid \<sigma> d d' \<longleftrightarrow>
     (\<exists>g. c_steps d' = map g (c_steps d) \<and>
       (\<forall>x. stp_workflow (g x) = stp_workflow x \<and> stp_kind (g x) = stp_kind x \<and>
          stp_status (g x) = (if stp_workflow x = wid then \<sigma> (stp_kind x) (stp_status x) else stp_status x)))"

lemma steps_to_same: "core d' = core d \<Longrightarrow> steps_to wid (\<lambda>k s. s) d d'"
  by (auto simp: steps_to_def core_def intro!: exI [of _ "\<lambda>x. x"])

lemma steps_to_trans: "steps_to wid \<sigma> d d1 \<Longrightarrow> steps_to wid \<tau> d1 d2 \<Longrightarrow> steps_to wid (\<lambda>k s. \<tau> k (\<sigma> k s)) d d2"
  unfolding steps_to_def by (elim exE conjE, rename_tac g h, rule_tac x = "h \<circ> g" in exI) auto

lemma steps_to_core: "steps_to wid \<sigma> d d1 \<Longrightarrow> core d = core e \<Longrightarrow> core d1 = core e1 \<Longrightarrow> steps_to wid \<sigma> e e1"
  by (auto simp: steps_to_def core_def)

lemma steps_to_put:
  "(\<And>x. stp_workflow (f x) = stp_workflow x \<and> stp_kind (f x) = stp_kind x \<and> stp_status (f x) = t (stp_status x)) \<Longrightarrow>
   steps_to wid (\<lambda>k' s. if k' = k then t s else s) d (put_step wid k f d)"
  unfolding steps_to_def put_step_def tbl_update_def by (intro exI [of _ "\<lambda>r. if stp_workflow r = wid \<and> stp_kind r = k then f r else r"]) auto

text \<open>A step of the journal.\<close>

definition journals :: "cp_workflow \<Rightarrow> cpdb \<Rightarrow> cpdb \<Rightarrow> bool" where
  "journals w d d' \<longleftrightarrow>
     (\<exists>f r. c_workflows d' = tbl_update (\<lambda>x. wfl_id x = wfl_id w) f (c_workflows d) \<and> c_transitions d' = c_transitions d @ [r] \<and>
        trn_workflow r = wfl_id w \<and> trn_version r = wfl_version w + 1 \<and> trn_from r = wfl_state w \<and>
        (\<forall>x. wfl_id (f x) = wfl_id x \<and> wfl_household (f x) = wfl_household x \<and> wfl_version (f x) = wfl_version w + 1) \<and>
        wfl_state (f w) = trn_to r)"

lemma append_transition_effect:
  "append_transition E w a s q mv now d = (Inr u, d') \<Longrightarrow>
   \<exists>i. d' = d\<lparr>c_transitions := c_transitions d @ [transition_row i w a s q mv now]\<rparr>"
  by (auto simp: append_transition_def Let_def split: if_splits)

lemma finish_command_effect:
  assumes "finish_command E c hh w f mv now d = (Inr y, d')"
    "\<And>x. wfl_id (f x) = wfl_id x \<and> wfl_household (f x) = wfl_household x" "wfl_state (f w) = mv_to mv"
  shows "journals w d d' \<and> c_steps d' = c_steps d \<and> c_replies d' = c_replies d \<and> snapshot E hh d' = Some y"
proof -
  obtain i where d': "d' = (put_workflow (wfl_id w) (\<lambda>x. (f x)\<lparr>wfl_version := wfl_version w + 1, wfl_updated_at := now\<rparr>) d)
      \<lparr>c_transitions := c_transitions d @ [transition_row i w (cmx_account c) (Some (cmx_session c)) (cmx_request c) mv now]\<rparr>"
    and y: "snapshot E hh d' = Some y"
    using assms(1) by (auto simp: finish_command_def onb_Inr put_workflow_def dest!: append_transition_effect)
  have "journals w d d'"
    unfolding journals_def d'
    by (rule exI [of _ "\<lambda>x. (f x)\<lparr>wfl_version := wfl_version w + 1, wfl_updated_at := now\<rparr>"],
        rule exI [of _ "transition_row i w (cmx_account c) (Some (cmx_session c)) (cmx_request c) mv now"])
      (use assms(2,3) in \<open>simp add: put_workflow_def transition_row_def\<close>)
  then show ?thesis using y by (simp add: d' put_workflow_def)
qed

section \<open>The commands\<close>

text \<open>A change of the steps of one workflow, one version and one row of the journal, and no answer remembered.\<close>

definition moves :: "cp_workflow \<Rightarrow> (step_kind \<Rightarrow> step_status \<Rightarrow> step_status) \<Rightarrow> cpdb \<Rightarrow> cpdb \<Rightarrow> bool" where
  "moves w \<sigma> d d' \<longleftrightarrow> steps_to (wfl_id w) \<sigma> d d' \<and> journals w d d' \<and> c_replies d' = c_replies d"

lemma movesI:
  assumes "core d1 = core d" "steps_to (wfl_id w) \<sigma> d1 d2" "c_workflows d2 = c_workflows d1" "c_transitions d2 = c_transitions d1"
    "c_replies d2 = c_replies d1" "finish_command E c hh w f mv now d2 = (Inr y, d')"
    "\<And>x. wfl_id (f x) = wfl_id x \<and> wfl_household (f x) = wfl_household x" "wfl_state (f w) = mv_to mv"
  shows "moves w \<sigma> d d'"
proof -
  have e: "journals w d2 d'" "c_steps d' = c_steps d2" "c_replies d' = c_replies d2"
    using finish_command_effect [OF assms(6-8)] by auto
  have "steps_to (wfl_id w) \<sigma> d d'" using assms(1,2) e(2) by (auto simp: steps_to_def core_def)
  moreover have "journals w d d'" using e(1) assms(1,3,4) by (simp add: journals_def core_def)
  ultimately show ?thesis using e(3) assms(1,5) by (simp add: moves_def core_def)
qed

lemma put_step_rest:
  "c_workflows (put_step wid k f d) = c_workflows d" "c_transitions (put_step wid k f d) = c_transitions d"
  "c_replies (put_step wid k f d) = c_replies d" "c_jobs (put_step wid k f d) = c_jobs d"
  by (simp_all add: put_step_def)

definition step_at :: "cp_workflow \<Rightarrow> step_kind \<Rightarrow> cpdb \<Rightarrow> cp_step \<Rightarrow> bool" where
  "step_at w k d s \<longleftrightarrow> step_row (wfl_id w) k d = Some s"

lemmas body_reads = check_version_def current_row_def advance_def step_at_def

lemma save_profile_effect:
  assumes "save_profile_body E c hh p now w d = (Inr y, d')"
  shows "\<exists>s. step_at w Kd_profile d s \<and> stp_status s = St_available \<and>
    moves w (\<lambda>k st. if k = Kd_profile then St_verified else if k = Kd_email \<and> st = St_locked then St_available else st) d d'"
proof -
  obtain s ns d1 job d2 where a: "step_row (wfl_id w) Kd_profile d = Some s" "next_status Kd_profile (stp_status s) Cmd_save_profile = Some ns"
      "save_household_profile (oe_auth E) hh p now d = (Inr (), d1)"
      "queue E (namespace_request E hh (wfl_id w) (intent [hh, ''secret-namespace''])) now d1 = (Inr job, d2)"
    and f: "finish_command E c hh w (\<lambda>x. x\<lparr>wfl_state := Wf_in_progress, wfl_step := Kd_email\<rparr>)
       \<lparr>mv_command = ''save_profile'', mv_to = Wf_in_progress, mv_step = Some Kd_profile,
        mv_from_step = Some (stp_status s), mv_to_step = Some ns, mv_job = Some (fst job), mv_metadata = JObj []\<rparr> now
       (put_step (wfl_id w) Kd_email (\<lambda>r. if stp_status r = St_locked then r\<lparr>stp_status := St_available, stp_updated_at := now\<rparr> else r)
         (put_step (wfl_id w) Kd_profile (\<lambda>r. r\<lparr>stp_status := ns, stp_public := JObj [(''state'', JStr ''complete'')], stp_updated_at := now\<rparr>) d2)) = (Inr y, d')"
    using assms by (auto simp: save_profile_body_def onb_Inr body_reads)
  have "core d1 = core d" using a(3) by (auto simp: save_household_profile_def core_def split: if_splits)
  then have c: "core d2 = core d" using keepsD [OF queue_core a(4)] by simp
  have ns: "stp_status s = St_available \<and> ns = St_verified"
    using a(2) by (cases "stp_status s") (simp_all add: next_status_def transitions_def provider_transitions_def)
  let ?d3 = "put_step (wfl_id w) Kd_profile (\<lambda>r. r\<lparr>stp_status := ns, stp_public := JObj [(''state'', JStr ''complete'')], stp_updated_at := now\<rparr>) d2"
  have 1: "steps_to (wfl_id w) (\<lambda>k st. if k = Kd_profile then ns else st) d2 ?d3" by (rule steps_to_put) simp
  have 2: "steps_to (wfl_id w) (\<lambda>k st. if k = Kd_email then if st = St_locked then St_available else st else st) ?d3
     (put_step (wfl_id w) Kd_email (\<lambda>r. if stp_status r = St_locked then r\<lparr>stp_status := St_available, stp_updated_at := now\<rparr> else r) ?d3)"
    by (rule steps_to_put) simp
  have e: "(\<lambda>k st. if k = Kd_email then if (if k = Kd_profile then ns else st) = St_locked then St_available
        else (if k = Kd_profile then ns else st) else (if k = Kd_profile then ns else st)) =
      (\<lambda>k st. if k = Kd_profile then St_verified else if k = Kd_email \<and> st = St_locked then St_available else st)"
    using ns by (auto simp: fun_eq_iff)
  have "moves w (\<lambda>k st. if k = Kd_profile then St_verified else if k = Kd_email \<and> st = St_locked then St_available else st) d d'"
    by (rule movesI [OF c steps_to_trans [OF 1 2, unfolded e] _ _ _ f]) (simp_all add: put_step_rest)
  then show ?thesis using a(1) ns by (auto simp: step_at_def)
qed

lemma one_step_moves:
  assumes "core d1 = core d" "finish_command E c hh w id mv now (put_step (wfl_id w) k f d1) = (Inr y, d')" "mv_to mv = wfl_state w"
    "\<And>x. stp_workflow (f x) = stp_workflow x \<and> stp_kind (f x) = stp_kind x \<and> stp_status (f x) = ns"
  shows "moves w (\<lambda>k' st. if k' = k then ns else st) d d'"
  by (rule movesI [OF assms(1) steps_to_put [of f "\<lambda>st. ns" "wfl_id w" k d1] _ _ _ assms(2)]) (use assms(3,4) in \<open>simp_all add: put_step_rest\<close>)

lemma select_effect:
  assumes "select_body E c hh k sel now w d = (Inr y, d')"
  shows "wfl_step w = k \<and> (\<exists>s ns. step_at w k d s \<and> next_status k (stp_status s) Cmd_select = Some ns \<and>
    moves w (\<lambda>k' st. if k' = k then ns else st) d d')"
proof -
  obtain s ns d1 d2 e d3 job where a: "wfl_step w = k" "step_row (wfl_id w) k d = Some s" "next_status k (stp_status s) Cmd_select = Some ns"
      "record_consents E hh (cmx_account c) k sel now d = (Inr (), d1)" "choose_email E hh k sel now d1 = (Inr e, d2)"
      "queue E (ensure_request E hh (wfl_id w) k e sel (stp_attempt s + 1)) now d2 = (Inr job, d3)"
    and f: "finish_command E c hh w id
       \<lparr>mv_command = ''select'', mv_to = wfl_state w, mv_step = Some k, mv_from_step = Some (stp_status s),
        mv_to_step = Some ns, mv_job = Some (fst job),
        mv_metadata = JObj [(''selection_kind'', JStr (jtext sel ''kind''))]\<rparr> now
        (put_step (wfl_id w) k (\<lambda>r. r\<lparr>stp_status := ns, stp_selection_kind := Some (jtext sel ''kind''),
        stp_selection := Some sel, stp_result := None,
        stp_public := JObj [(''state'', JStr ''setting_up''), (''option'', JStr (jtext sel ''kind''))],
        stp_error := None, stp_attempt := stp_attempt s + 1, stp_updated_at := now\<rparr>) d3) = (Inr y, d')"
    using assms by (auto simp: select_body_def onb_Inr body_reads)
  have "core d3 = core d"
    using keepsD [OF record_consents_core a(4)] keepsD [OF choose_email_core a(5)] keepsD [OF queue_core a(6)] by simp
  then have "moves w (\<lambda>k' st. if k' = k then ns else st) d d'" by (rule one_step_moves [OF _ f]) simp_all
  then show ?thesis using a(1-3) by (auto simp: step_at_def)
qed

lemma retry_effect:
  assumes "retry_body E c hh k sel now w d = (Inr y, d')"
  shows "\<exists>s ns. step_at w k d s \<and> next_status k (stp_status s) Cmd_retry = Some ns \<and> moves w (\<lambda>k' st. if k' = k then ns else st) d d'"
proof -
  obtain s ns d2 e d3 job where a: "step_row (wfl_id w) k d = Some s" "next_status k (stp_status s) Cmd_retry = Some ns"
      "retry_email E hh (wfl_id w) k (stp_attempt s + 1) now d = (Inr e, d2)"
      "queue E (ensure_request E hh (wfl_id w) k e sel (stp_attempt s + 1)) (now + (if k = Kd_email then 0.000001 else 0)) d2 = (Inr job, d3)"
    and f: "finish_command E c hh w id
       \<lparr>mv_command = ''retry'', mv_to = wfl_state w, mv_step = Some k, mv_from_step = Some (stp_status s),
        mv_to_step = Some ns, mv_job = Some (fst job), mv_metadata = JObj []\<rparr> now
        (put_step (wfl_id w) k (\<lambda>r. r\<lparr>stp_status := ns, stp_error := None, stp_attempt := stp_attempt s + 1,
        stp_public := JObj [(''state'', JStr ''setting_up''), (''option'', JStr (jtext sel ''kind''))],
        stp_updated_at := now\<rparr>) d3) = (Inr y, d')"
    using assms by (auto simp: retry_body_def onb_Inr body_reads simp del: of_nat_Suc)
  have "core d3 = core d" using keepsD [OF retry_email_core a(3)] keepsD [OF queue_core a(4)] by simp
  then have "moves w (\<lambda>k' st. if k' = k then ns else st) d d'" by (rule one_step_moves [OF _ f]) simp_all
  then show ?thesis using a(1,2) by (auto simp: step_at_def)
qed

lemma check_effect:
  assumes "check_body E c hh k now w d = (Inr y, d')"
  shows "\<exists>s ns. step_at w k d s \<and> next_status k (stp_status s) Cmd_check = Some ns \<and> moves w (\<lambda>k' st. if k' = k then ns else st) d d'"
proof -
  obtain s ns j d2 extra d3 job where a: "step_row (wfl_id w) k d = Some s" "next_status k (stp_status s) Cmd_check = Some ns"
      "inspected_email E hh (wfl_id w) k (cancel_waiting (jb_id j) now d) = (Inr extra, d2)"
      "queue E (inspect_request E hh w k (stp_attempt s) j extra) now d2 = (Inr job, d3)"
    and f: "finish_command E c hh w id
       \<lparr>mv_command = ''check'', mv_to = wfl_state w, mv_step = Some k, mv_from_step = Some (stp_status s),
        mv_to_step = Some ns, mv_job = Some (fst job), mv_metadata = JObj []\<rparr> now
        (put_step (wfl_id w) k (\<lambda>r. r\<lparr>stp_status := ns, stp_public := JObj [(''state'', JStr ''checking'')],
        stp_error := None, stp_updated_at := now\<rparr>) d3) = (Inr y, d')"
    using assms by (auto simp: check_body_def onb_Inr body_reads)
  have "core d3 = core d"
    using keepsD [OF inspected_email_core a(3)] keepsD [OF queue_core a(4)] by (simp add: edits_core)
  then have "moves w (\<lambda>k' st. if k' = k then ns else st) d d'" by (rule one_step_moves [OF _ f]) simp_all
  then show ?thesis using a(1,2) by (auto simp: step_at_def)
qed

lemma blank_from_effect:
  "distinct ks \<Longrightarrow>
   steps_to wid (\<lambda>k st. if k \<in> set ks then if k = hd ks then status else St_locked else st) d (blank_from wid status now ks d) \<and>
   c_workflows (blank_from wid status now ks d) = c_workflows d \<and> c_transitions (blank_from wid status now ks d) = c_transitions d \<and>
   c_replies (blank_from wid status now ks d) = c_replies d"
proof (induction ks arbitrary: status d)
  case Nil
  then show ?case using steps_to_same [of d d] by simp
next
  case (Cons k ks)
  let ?d = "put_step wid k (blank_step status now) d"
  have 1: "steps_to wid (\<lambda>k' st. if k' = k then status else st) d ?d" by (rule steps_to_put) (simp add: blank_step_def)
  have 2: "steps_to wid (\<lambda>k st. if k \<in> set ks then if k = hd ks then St_locked else St_locked else st) ?d (blank_from wid St_locked now ks ?d)"
    by (rule conjunct1 [OF Cons.IH]) (use Cons.prems in simp)
  have e: "(\<lambda>k' st. if k' \<in> set ks then if k' = hd ks then St_locked else St_locked else (if k' = k then status else st)) =
      (\<lambda>k' st. if k' \<in> set (k # ks) then if k' = hd (k # ks) then status else St_locked else st)"
    using Cons.prems by (auto simp: fun_eq_iff)
  have r: "c_workflows (blank_from wid St_locked now ks ?d) = c_workflows d \<and> c_transitions (blank_from wid St_locked now ks ?d) = c_transitions d \<and>
      c_replies (blank_from wid St_locked now ks ?d) = c_replies d"
    using conjunct2 [OF Cons.IH [of St_locked ?d]] Cons.prems by (simp add: put_step_rest)
  show ?case unfolding blank_from.simps by (rule conjI [OF steps_to_trans [OF 1 2, unfolded e] r])
qed

definition after :: "step_kind \<Rightarrow> step_kind list" where "after k = dropWhile (\<lambda>x. x \<noteq> k) user_steps"

lemma reset_effect:
  assumes "reset_body E c hh k now w d = (Inr y, d')"
  shows "\<exists>s. step_at w k d s \<and> resettable k (stp_status s) \<and>
    moves w (\<lambda>k' st. if k' \<in> set (after k) then if k' = hd (after k) then St_available else St_locked else st) d d'"
proof -
  let ?e = "\<lambda>m d. if k = Kd_email then drop_mailbox E hh m d else d"
  obtain s js d1 d2 u where a: "step_row (wfl_id w) k d = Some s" "resettable k (stp_status s)"
      "schedule_cleanup E hh (wfl_id w) (wfl_version w + 1) (Some (reset_types k)) now d = (Inr js, d1)"
      "(if k = Kd_email \<and> \<not> has_namespace hh (supersede_unsettled_jobs hh ''reset'' None now d1)
        then queue E (namespace_request E hh (wfl_id w) (intent [hh, ''secret-namespace'', ''reset'', nat_digits (wfl_version w + 1)]))
               (now + real (length js + 1) * 0.000001)
        else answer ([], False)) (supersede_unsettled_jobs hh ''reset'' None now d1) = (Inr u, d2)"
    and f: "finish_command E c hh w (\<lambda>x. x\<lparr>wfl_state := Wf_in_progress, wfl_step := k, wfl_completed_at := None\<rparr>)
       \<lparr>mv_command = ''reset'', mv_to = Wf_in_progress, mv_step = Some k, mv_from_step = Some (stp_status s),
        mv_to_step = Some St_available, mv_job = (case js of [] \<Rightarrow> None | j # x \<Rightarrow> Some j),
        mv_metadata = JObj [(''cleanup_jobs'', JInt (int (length js)))]\<rparr> now
       (unserve_household ''onboarding'' hh now (revoke_bootstraps hh now (snd (revoke_configs [Cf_planned, Cf_issued, Cf_claimed, Cf_active] hh
         (blank_from (wfl_id w) St_available now (after k) (?e now d2)))))) = (Inr y, d')"
    using assms by (auto simp: reset_body_def onb_Inr body_reads after_def split del: if_split simp del: of_nat_Suc of_nat_add)
  have "core d2 = core (supersede_unsettled_jobs hh ''reset'' None now d1)"
    using a(4) keepsD [OF queue_core] by (auto simp: onb_Inr split: if_splits)
  then have c: "core (?e now d2) = core d" using keepsD [OF schedule_cleanup_core a(3)] by (simp add: edits_core)
  have dk: "distinct (after k)" by (cases k) (simp_all add: after_def user_steps_def)
  let ?b = "blank_from (wfl_id w) St_available now (after k) (?e now d2)"
  let ?d3 = "unserve_household ''onboarding'' hh now (revoke_bootstraps hh now (snd (revoke_configs [Cf_planned, Cf_issued, Cf_claimed, Cf_active] hh ?b)))"
  have b: "core ?d3 = core ?b" by (simp add: edits_core)
  have "steps_to (wfl_id w) (\<lambda>k' st. if k' \<in> set (after k) then if k' = hd (after k) then St_available else St_locked else st) (?e now d2) ?d3"
    using conjunct1 [OF blank_from_effect [OF dk]] steps_to_core [OF _ refl b [symmetric]] by blast
  moreover have "c_workflows ?d3 = c_workflows (?e now d2) \<and> c_transitions ?d3 = c_transitions (?e now d2) \<and> c_replies ?d3 = c_replies (?e now d2)"
    using b blank_from_effect [OF dk, of "wfl_id w" St_available "?e now d2" now] by (simp add: core_def)
  ultimately have "moves w (\<lambda>k' st. if k' \<in> set (after k) then if k' = hd (after k) then St_available else St_locked else st) d d'"
    by (intro movesI [OF c _ _ _ _ f]) simp_all
  then show ?thesis using a(1,2) by (auto simp: step_at_def)
qed

lemma cancel_effect:
  assumes "cancel_body E c hh now w d = (Inr y, d')"
  shows "wfl_state w \<notin> {Wf_complete, Wf_cancelled} \<and> moves w (\<lambda>k st. if st = St_verified then st else St_cancelled) d d'"
proof -
  obtain js d1 where a: "wfl_state w \<notin> {Wf_complete, Wf_cancelled}"
      "schedule_cleanup E hh (wfl_id w) (wfl_version w + 1) None now d = (Inr js, d1)"
    and f: "finish_command E c hh w (\<lambda>x. x\<lparr>wfl_state := Wf_cancelled\<rparr>)
       \<lparr>mv_command = ''cancel'', mv_to = Wf_cancelled, mv_step = None, mv_from_step = None, mv_to_step = None,
        mv_job = (case js of [] \<Rightarrow> None | j # x \<Rightarrow> Some j),
        mv_metadata = JObj [(''cleanup_jobs'', JInt (int (length js)))]\<rparr> now
       (unserve_household ''draft'' hh now (revoke_bootstraps hh now (snd (revoke_configs [Cf_planned, Cf_issued, Cf_claimed] hh
         ((\<lambda>d. d\<lparr>c_steps := tbl_update (\<lambda>s. stp_workflow s = wfl_id w \<and> stp_status s \<noteq> St_verified)
        (\<lambda>s. s\<lparr>stp_status := St_cancelled, stp_updated_at := now\<rparr>) (c_steps d)\<rparr>)
          (drop_mailbox E hh now (supersede_unsettled_jobs hh ''cancel'' None now d1))))))) = (Inr y, d')"
    using assms by (auto simp: cancel_body_def onb_Inr body_reads)
  let ?d2 = "drop_mailbox E hh now (supersede_unsettled_jobs hh ''cancel'' None now d1)"
  let ?b = "?d2\<lparr>c_steps := tbl_update (\<lambda>s. stp_workflow s = wfl_id w \<and> stp_status s \<noteq> St_verified)
        (\<lambda>s. s\<lparr>stp_status := St_cancelled, stp_updated_at := now\<rparr>) (c_steps ?d2)\<rparr>"
  let ?d3 = "unserve_household ''draft'' hh now (revoke_bootstraps hh now (snd (revoke_configs [Cf_planned, Cf_issued, Cf_claimed] hh ?b)))"
  have c: "core ?d2 = core d" using keepsD [OF schedule_cleanup_core a(2)] by (simp add: edits_core)
  have b: "core ?d3 = core ?b" by (simp add: edits_core)
  have "steps_to (wfl_id w) (\<lambda>k st. if st = St_verified then st else St_cancelled) ?d2 ?b"
    unfolding steps_to_def tbl_update_def
    by (rule exI [of _ "\<lambda>r. if stp_workflow r = wfl_id w \<and> stp_status r \<noteq> St_verified then r\<lparr>stp_status := St_cancelled, stp_updated_at := now\<rparr> else r"]) auto
  then have "steps_to (wfl_id w) (\<lambda>k st. if st = St_verified then st else St_cancelled) ?d2 ?d3"
    using steps_to_core [OF _ refl b [symmetric]] by blast
  moreover have "c_workflows ?d3 = c_workflows ?d2 \<and> c_transitions ?d3 = c_transitions ?d2 \<and> c_replies ?d3 = c_replies ?d2"
    using b by (simp add: core_def)
  ultimately have "moves w (\<lambda>k st. if st = St_verified then st else St_cancelled) d d'"
    by (intro movesI [OF c _ _ _ _ f [unfolded Let_def]]) simp_all
  then show ?thesis using a(1) by simp
qed

end
