(* ===== verification/StepOrder.thy ===== *)
theory StepOrder
  imports OnboardingLaws
begin

text \<open>
  The invariant of the onboarding: through any history of commands, of the worker and of withdrawals a
  workflow has one row per step, a step is open only when the steps before it are verified, and the
  journal of a workflow is exactly its history.
\<close>

section \<open>The invariant\<close>

fun place :: "step_kind \<Rightarrow> nat" where
  "place Kd_profile = 0"
| "place Kd_email = 1"
| "place Kd_whatsapp = 2"
| "place Kd_channel = 3"
| "place Kd_runtime = 4"

definition opened :: "step_status \<Rightarrow> bool" where "opened s \<longleftrightarrow> s \<notin> {St_locked, St_cancelled}"

definition verified_at :: "uid \<Rightarrow> step_kind \<Rightarrow> cpdb \<Rightarrow> bool" where
  "verified_at wid k d \<longleftrightarrow> (\<exists>t \<in> set (c_steps d). stp_workflow t = wid \<and> stp_kind t = k \<and> stp_status t = St_verified)"

definition in_order :: "cpdb \<Rightarrow> bool" where
  "in_order d \<longleftrightarrow> (\<forall>s \<in> set (c_steps d). \<forall>k. opened (stp_status s) \<longrightarrow> place k < place (stp_kind s) \<longrightarrow> verified_at (stp_workflow s) k d)"

definition one_row_each :: "cpdb \<Rightarrow> bool" where
  "one_row_each d \<longleftrightarrow> distinct (map wfl_id (c_workflows d)) \<and> distinct (map (\<lambda>s. (stp_workflow s, stp_kind s)) (c_steps d)) \<and>
     (\<forall>s \<in> set (c_steps d). stp_workflow s \<in> wfl_id ` set (c_workflows d) \<and> stp_kind s \<noteq> Kd_runtime)"

definition journal_of :: "uid \<Rightarrow> cpdb \<Rightarrow> cp_transition list" where
  "journal_of wid d = filter (\<lambda>r. trn_workflow r = wid) (c_transitions d)"

definition history_of :: "cp_workflow \<Rightarrow> cp_transition list \<Rightarrow> bool" where
  "history_of w J \<longleftrightarrow> map trn_version J = [1..<Suc (wfl_version w)] \<and>
     map trn_from J @ [wfl_state w] = Wf_profile_required # map trn_to J"

definition journalled :: "cpdb \<Rightarrow> bool" where
  "journalled d \<longleftrightarrow> (\<forall>w \<in> set (c_workflows d). history_of w (journal_of (wfl_id w) d)) \<and>
     (\<forall>r \<in> set (c_transitions d). trn_workflow r \<in> wfl_id ` set (c_workflows d))"

definition sound :: "cpdb \<Rightarrow> bool" where "sound d \<longleftrightarrow> one_row_each d \<and> in_order d \<and> journalled d"

lemma sound_core: "core d' = core d \<Longrightarrow> sound d' = sound d"
  by (simp add: core_def sound_def one_row_each_def in_order_def journalled_def journal_of_def verified_at_def)

section \<open>Its parts under one operation\<close>

lemma journals_ids: "journals w d d' \<Longrightarrow> map wfl_id (c_workflows d') = map wfl_id (c_workflows d)"
  by (auto simp: journals_def tbl_update_def)

lemma one_row_step:
  assumes "one_row_each d" "steps_to wid \<sigma> d d'" "map wfl_id (c_workflows d') = map wfl_id (c_workflows d)"
  shows "one_row_each d'"
proof -
  obtain g where g: "c_steps d' = map g (c_steps d)" "\<And>x. stp_workflow (g x) = stp_workflow x \<and> stp_kind (g x) = stp_kind x"
    using assms(2) by (auto simp: steps_to_def)
  have "map (\<lambda>s. (stp_workflow s, stp_kind s)) (c_steps d') = map (\<lambda>s. (stp_workflow s, stp_kind s)) (c_steps d)"
    by (simp add: g comp_def)
  then have "distinct (map (\<lambda>s. (stp_workflow s, stp_kind s)) (c_steps d'))" using assms(1) by (simp add: one_row_each_def)
  moreover have "wfl_id ` set (c_workflows d') = wfl_id ` set (c_workflows d)" by (metis assms(3) list.set_map)
  ultimately show ?thesis using assms(1,3) unfolding one_row_each_def by (auto simp: g(2) g(1))
qed

lemma in_order_step:
  assumes "in_order d" "steps_to wid \<sigma> d d'"
    "\<And>s k. s \<in> set (c_steps d) \<Longrightarrow> stp_workflow s = wid \<Longrightarrow> opened (\<sigma> (stp_kind s) (stp_status s)) \<Longrightarrow> place k < place (stp_kind s) \<Longrightarrow>
       \<exists>t \<in> set (c_steps d). stp_workflow t = wid \<and> stp_kind t = k \<and> \<sigma> k (stp_status t) = St_verified"
  shows "in_order d'"
proof -
  obtain g where g: "c_steps d' = map g (c_steps d)"
      "\<And>x. stp_workflow (g x) = stp_workflow x" "\<And>x. stp_kind (g x) = stp_kind x"
      "\<And>x. stp_status (g x) = (if stp_workflow x = wid then \<sigma> (stp_kind x) (stp_status x) else stp_status x)"
    using assms(2) by (auto simp: steps_to_def)
  have "verified_at (stp_workflow s) k d'" if s: "s \<in> set (c_steps d)" and o: "opened (stp_status (g s))" "place k < place (stp_kind s)" for s k
  proof (cases "stp_workflow s = wid")
    case True
    then have "opened (\<sigma> (stp_kind s) (stp_status s))" using o(1) by (simp add: g)
    then obtain t where "t \<in> set (c_steps d)" "stp_workflow t = wid" "stp_kind t = k" "\<sigma> k (stp_status t) = St_verified"
      using assms(3) [OF s True _ o(2)] by blast
    then show ?thesis using True unfolding verified_at_def g(1) by (intro bexI [of _ "g t"]) (simp_all add: g)
  next
    case False
    then have "verified_at (stp_workflow s) k d" using assms(1) s o by (auto simp: in_order_def g)
    then obtain t where "t \<in> set (c_steps d)" "stp_workflow t = stp_workflow s" "stp_kind t = k" "stp_status t = St_verified"
      by (auto simp: verified_at_def)
    then show ?thesis using False unfolding verified_at_def g(1) by (intro bexI [of _ "g t"]) (simp_all add: g)
  qed
  then show ?thesis by (auto simp: in_order_def g)
qed

lemma journalled_step:
  assumes "journalled d" "distinct (map wfl_id (c_workflows d))" "w \<in> set (c_workflows d)" "journals w d d'"
  shows "journalled d'"
proof -
  obtain f r where j: "c_workflows d' = tbl_update (\<lambda>x. wfl_id x = wfl_id w) f (c_workflows d)"
      "c_transitions d' = c_transitions d @ [r]" "trn_workflow r = wfl_id w" "trn_version r = wfl_version w + 1"
      "trn_from r = wfl_state w" "\<And>x. wfl_id (f x) = wfl_id x \<and> wfl_version (f x) = wfl_version w + 1" "wfl_state (f w) = trn_to r"
    using assms(4) by (auto simp: journals_def)
  have unique: "x = w" if "x \<in> set (c_workflows d)" "wfl_id x = wfl_id w" for x
    using assms(2,3) that by (auto simp: distinct_map inj_on_def)
  have w: "history_of w (journal_of (wfl_id w) d)" using assms(1,3) by (simp add: journalled_def)
  have "history_of (f w) (journal_of (wfl_id w) d')"
    using w by (simp add: history_of_def journal_of_def j)
  moreover have "journal_of i d' = journal_of i d" if "i \<noteq> wfl_id w" for i using that by (simp add: journal_of_def j)
  ultimately have "history_of (if wfl_id x = wfl_id w then f x else x)
      (journal_of (wfl_id (if wfl_id x = wfl_id w then f x else x)) d')" if "x \<in> set (c_workflows d)" for x
    using assms(1) that unique [OF that] by (cases "wfl_id x = wfl_id w") (simp_all add: journalled_def j(6))
  then have "\<forall>x \<in> set (c_workflows d'). history_of x (journal_of (wfl_id x) d')"
    unfolding j(1) set_tbl_update by blast
  moreover have "wfl_id ` set (c_workflows d') = wfl_id ` set (c_workflows d)" by (metis journals_ids [OF assms(4)] list.set_map)
  ultimately show ?thesis using assms(1,3) by (auto simp: journalled_def j(2,3))
qed

lemma sound_moves:
  assumes "sound d" "w \<in> set (c_workflows d)" "moves w \<sigma> d d'"
    "\<And>s k. s \<in> set (c_steps d) \<Longrightarrow> stp_workflow s = wfl_id w \<Longrightarrow> opened (\<sigma> (stp_kind s) (stp_status s)) \<Longrightarrow> place k < place (stp_kind s) \<Longrightarrow>
       \<exists>t \<in> set (c_steps d). stp_workflow t = wfl_id w \<and> stp_kind t = k \<and> \<sigma> k (stp_status t) = St_verified"
  shows "sound d'"
proof -
  have s: "one_row_each d" "in_order d" "journalled d" using assms(1) by (simp_all add: sound_def)
  have m: "steps_to (wfl_id w) \<sigma> d d'" "journals w d d'" using assms(3) by (simp_all add: moves_def)
  have "one_row_each d'" by (rule one_row_step [OF s(1) m(1) journals_ids [OF m(2)]])
  moreover have "in_order d'" by (rule in_order_step [OF s(2) m(1)]) (rule assms(4))
  moreover have "journalled d'"
    by (rule journalled_step [OF s(3) _ assms(2) m(2)]) (use s(1) in \<open>simp add: one_row_each_def\<close>)
  ultimately show ?thesis by (simp add: sound_def)
qed

text \<open>Where nothing opens and nothing verified is lost.\<close>

lemma closed_step:
  assumes "in_order d"
    "\<And>s. s \<in> set (c_steps d) \<Longrightarrow> stp_workflow s = wid \<Longrightarrow> opened (\<sigma> (stp_kind s) (stp_status s)) \<Longrightarrow> opened (stp_status s)"
    "\<And>s. s \<in> set (c_steps d) \<Longrightarrow> stp_workflow s = wid \<Longrightarrow> stp_status s = St_verified \<Longrightarrow> \<sigma> (stp_kind s) (stp_status s) = St_verified"
    "s \<in> set (c_steps d)" "stp_workflow s = wid" "opened (\<sigma> (stp_kind s) (stp_status s))" "place k < place (stp_kind s)"
  shows "\<exists>t \<in> set (c_steps d). stp_workflow t = wid \<and> stp_kind t = k \<and> \<sigma> k (stp_status t) = St_verified"
proof -
  have "verified_at wid k d" using assms(1,4,5,7) assms(2) [OF assms(4-6)] by (auto simp: in_order_def)
  then show ?thesis using assms(3) by (fastforce simp: verified_at_def)
qed

lemma the_row:
  assumes "one_row_each d" "step_row wid k d = Some s"
  shows "s \<in> set (c_steps d) \<and> stp_workflow s = wid \<and> stp_kind s = k \<and>
    (\<forall>t \<in> set (c_steps d). stp_workflow t = wid \<longrightarrow> stp_kind t = k \<longrightarrow> t = s)"
proof -
  have s: "s \<in> set (c_steps d)" "stp_workflow s = wid" "stp_kind s = k"
    using assms(2) by (auto simp: step_row_def find_Some_iff)
  moreover have "inj_on (\<lambda>s. (stp_workflow s, stp_kind s)) (set (c_steps d))"
    using assms(1) by (simp add: one_row_each_def distinct_map)
  ultimately show ?thesis unfolding inj_on_def by blast
qed

lemma sound_one_step:
  assumes "sound d" "w \<in> set (c_workflows d)" "step_at w k d s" "opened (stp_status s)" "stp_status s \<noteq> St_verified"
    "moves w (\<lambda>k' st. if k' = k then ns else st) d d'"
  shows "sound d'"
proof (rule sound_moves [OF assms(1,2,6)])
  have i: "in_order d" and o: "one_row_each d" using assms(1) by (simp_all add: sound_def)
  fix x j
  assume x: "x \<in> set (c_steps d)" "stp_workflow x = wfl_id w"
    "opened (if stp_kind x = k then ns else stp_status x)" "place j < place (stp_kind x)"
  have row: "y = s" if "y \<in> set (c_steps d)" "stp_workflow y = wfl_id w" "stp_kind y = k" for y
    using the_row [OF o assms(3) [unfolded step_at_def]] that by blast
  show "\<exists>t \<in> set (c_steps d). stp_workflow t = wfl_id w \<and> stp_kind t = j \<and> (if j = k then ns else stp_status t) = St_verified"
  proof (rule closed_step [where \<sigma> = "\<lambda>k' st. if k' = k then ns else st", OF i _ _ x(1,2) x(3) x(4)])
    fix y
    assume y: "y \<in> set (c_steps d)" "stp_workflow y = wfl_id w"
    show "opened (stp_status y)" if "opened (if stp_kind y = k then ns else stp_status y)"
      using row [OF y] assms(4) that by (cases "stp_kind y = k") simp_all
    show "(if stp_kind y = k then ns else stp_status y) = St_verified" if "stp_status y = St_verified"
      using row [OF y] assms(5) that by (cases "stp_kind y = k") simp_all
  qed
qed

lemma next_status_opened:
  "next_status k s c = Some ns \<Longrightarrow> opened s \<and> (c \<noteq> Cmd_reset \<longrightarrow> s \<noteq> St_verified)"
  by (cases k; cases s; cases c) (simp_all add: next_status_def transitions_def provider_transitions_def opened_def)

section \<open>Transactions that keep it\<close>

text \<open>\<open>stays\<close> speaks of a body that committed, \<open>safely\<close> of every outcome.\<close>

definition stays :: "'a onb \<Rightarrow> bool" where
  "stays m \<longleftrightarrow> (\<forall>d x d'. sound d \<longrightarrow> m d = (Inr x, d') \<longrightarrow> sound d')"

definition safely :: "'a onb \<Rightarrow> bool" where
  "safely m \<longleftrightarrow> (\<forall>d. sound d \<longrightarrow> sound (snd (m d)))"

named_theorems staying

lemma stays_keeps: "keeps core m \<Longrightarrow> stays m"
  unfolding stays_def keeps_def by (metis sound_core)

lemma stays_andthen [staying]: "stays m \<Longrightarrow> (\<And>x. stays (f x)) \<Longrightarrow> stays (andthen m f)"
  unfolding stays_def onb_Inr by (elim exE conjE | intro allI impI)+ blast

lemma stays_if [staying]: "(b \<Longrightarrow> stays m) \<Longrightarrow> (\<not> b \<Longrightarrow> stays n) \<Longrightarrow> stays (if b then m else n)"
  by simp

lemma stays_edit [staying]: "(\<And>d. sound d \<Longrightarrow> sound (f d)) \<Longrightarrow> stays (edit f)"
  by (simp add: stays_def onb_Inr)

lemma stays_basic [staying]:
  "stays (answer v)" "stays (fail_with e)" "stays (demand ok e)" "stays (refuse_on g)" "stays (look h)" "stays (found e k)"
  by (simp_all add: stays_def onb_Inr)

lemma safely_tx [staying]: "stays m \<Longrightarrow> safely (write_tx m)"
  unfolding safely_def stays_def write_tx_def by (auto split: prod.splits sum.splits)

lemma safely_andthen [staying]: "safely m \<Longrightarrow> (\<And>x. safely (f x)) \<Longrightarrow> safely (andthen m f)"
  unfolding safely_def andthen_def by (simp split: prod.split sum.split) (metis snd_conv)

lemma safely_if [staying]: "(b \<Longrightarrow> safely m) \<Longrightarrow> (\<not> b \<Longrightarrow> safely n) \<Longrightarrow> safely (if b then m else n)"
  by simp

lemma safely_edit [staying]: "(\<And>d. sound d \<Longrightarrow> sound (f d)) \<Longrightarrow> safely (edit f)"
  by (simp add: safely_def edit_def)

lemma safely_basic [staying]:
  "safely (answer v)" "safely (fail_with e)" "safely (demand ok e)" "safely (refuse_on g)" "safely (look h)" "safely (found e k)"
  by (auto simp: safely_def answer_def fail_with_def demand_def refuse_on_def look_def found_def split: option.splits)

lemma sound_tables:
  "c_workflows d' = c_workflows d \<Longrightarrow> c_steps d' = c_steps d \<Longrightarrow> c_transitions d' = c_transitions d \<Longrightarrow> sound d' = sound d"
  by (simp add: sound_def one_row_each_def in_order_def journalled_def journal_of_def verified_at_def)

section \<open>The commands\<close>

lemma replay_tables:
  "Onboarding.replay E c rt sha now d = (r, d') \<Longrightarrow>
   c_workflows d' = c_workflows d \<and> c_steps d' = c_steps d \<and> c_transitions d' = c_transitions d"
  by (auto simp: Onboarding.replay_def Let_def split: option.splits if_splits reply_body.splits)

lemma remember_sound: "sound (remember E c rt sha s now d) = sound d"
  by (rule sound_tables) (simp_all add: remember_def)

lemma scoped_workflow_in: "scoped_workflow a hh d = Some w \<Longrightarrow> w \<in> set (c_workflows d) \<and> wfl_household w = hh"
  by (auto simp: scoped_workflow_def find_Some_iff)

lemma run_command_safe:
  assumes "\<And>w d y d'. sound d \<Longrightarrow> w \<in> set (c_workflows d) \<Longrightarrow> body w d = (Inr y, d') \<Longrightarrow> sound d'"
  shows "safely (run_command E c rt sha hh now body)"
proof -
  have "stays (Onboarding.replay E c rt sha now)" unfolding stays_def using replay_tables sound_tables by blast
  moreover have "stays (andthen (found (Ob_missing hh) (scoped_workflow (cmx_account c) hh)) (\<lambda>w.
      andthen (body w) (\<lambda>s. andthen (edit (remember E c rt sha s now)) (\<lambda>u. answer (s, False)))))"
    unfolding stays_def onb_Inr using assms scoped_workflow_in remember_sound by blast
  ultimately show ?thesis unfolding run_command_def by (intro staying) (auto split: option.split intro: staying)
qed

lemma save_profile_sound:
  assumes "sound d" "w \<in> set (c_workflows d)" "save_profile_body E c hh p now w d = (Inr y, d')"
  shows "sound d'"
proof -
  obtain s where s: "step_at w Kd_profile d s" "stp_status s = St_available"
    and m: "moves w (\<lambda>k st. if k = Kd_profile then St_verified else if k = Kd_email \<and> st = St_locked then St_available else st) d d'"
    using save_profile_effect [OF assms(3)] by blast
  have i: "in_order d" and o: "one_row_each d" using assms(1) by (simp_all add: sound_def)
  note row = the_row [OF o s(1) [unfolded step_at_def]]
  have n: "\<not> verified_at (wfl_id w) Kd_profile d" using row s(2) by (auto simp: verified_at_def)
  show ?thesis
  proof (rule sound_moves [OF assms(1,2) m])
    fix x k
    assume x: "x \<in> set (c_steps d)" "stp_workflow x = wfl_id w"
      "opened (if stp_kind x = Kd_profile then St_verified else if stp_kind x = Kd_email \<and> stp_status x = St_locked then St_available else stp_status x)"
      "place k < place (stp_kind x)"
    have "\<not> opened (stp_status x)"
      using i n x(1,2,4) by (fastforce simp: in_order_def dest: bspec [OF _ x(1)] spec [of _ Kd_profile])
    then have "stp_kind x = Kd_email \<or> stp_kind x = Kd_profile" using x(3) by (auto split: if_splits)
    then have "k = Kd_profile" using x(4) by (cases k) auto
    then show "\<exists>t \<in> set (c_steps d). stp_workflow t = wfl_id w \<and> stp_kind t = k \<and>
        (if k = Kd_profile then St_verified else if k = Kd_email \<and> stp_status t = St_locked then St_available else stp_status t) = St_verified"
      using row by auto
  qed
qed

lemma reset_sound:
  assumes "sound d" "w \<in> set (c_workflows d)" "k \<in> set user_steps" "reset_body E c hh k now w d = (Inr y, d')"
  shows "sound d'"
proof -
  let ?a = "\<lambda>k' st. if k' \<in> set (after k) then if k' = hd (after k) then St_available else St_locked else st"
  obtain s where s: "step_at w k d s" "resettable k (stp_status s)" and m: "moves w ?a d d'"
    using reset_effect [OF assms(4)] by blast
  have i: "in_order d" and o: "one_row_each d" using assms(1) by (simp_all add: sound_def)
  note row = the_row [OF o s(1) [unfolded step_at_def]]
  have hk: "hd (after k) = k" and later: "j \<in> set (after k) \<longleftrightarrow> place k \<le> place j \<and> j \<noteq> Kd_runtime" for j
    using assms(3) by (auto simp: after_def user_steps_def) (cases j; simp)+
  show ?thesis
  proof (rule sound_moves [OF assms(1,2) m])
    fix x j
    assume x: "x \<in> set (c_steps d)" "stp_workflow x = wfl_id w" "opened (?a (stp_kind x) (stp_status x))" "place j < place (stp_kind x)"
    have nr: "stp_kind x \<noteq> Kd_runtime" using o x(1) by (auto simp: one_row_each_def)
    have e: "opened (stp_status x) \<and> place j < place k"
    proof (cases "stp_kind x \<in> set (after k)")
      case True
      then have "stp_kind x = k" using x(3) by (simp add: hk opened_def split: if_splits)
      then show ?thesis using row s(2) x(1,2,4) by (auto simp: resettable_def opened_def)
    next
      case False
      then show ?thesis using x(3,4) nr by (auto simp: later)
    qed
    then have "verified_at (wfl_id w) j d" using i x(1,2,4) by (auto simp: in_order_def)
    moreover have "j \<notin> set (after k)" using e later by simp
    ultimately show "\<exists>t \<in> set (c_steps d). stp_workflow t = wfl_id w \<and> stp_kind t = j \<and> ?a j (stp_status t) = St_verified"
      by (auto simp: verified_at_def)
  qed
qed

lemma cancel_sound:
  assumes "sound d" "w \<in> set (c_workflows d)" "cancel_body E c hh now w d = (Inr y, d')"
  shows "sound d'"
proof (rule sound_moves [OF assms(1,2)])
  let ?c = "\<lambda>(k :: step_kind) st. if st = St_verified then st else St_cancelled"
  show "moves w ?c d d'" using cancel_effect [OF assms(3)] by blast
  fix x j
  assume x: "x \<in> set (c_steps d)" "stp_workflow x = wfl_id w" "opened (?c (stp_kind x) (stp_status x))" "place j < place (stp_kind x)"
  show "\<exists>t \<in> set (c_steps d). stp_workflow t = wfl_id w \<and> stp_kind t = j \<and> ?c j (stp_status t) = St_verified"
    by (rule closed_step [where \<sigma> = ?c, OF _ _ _ x]) (use assms(1) in \<open>auto simp: sound_def opened_def split: if_splits\<close>)
qed

lemma commands_safe [staying]:
  "safely (onb_save_profile E c hh p now)" "safely (onb_select E c hh k sel now)" "safely (onb_retry E c hh k now)"
  "safely (onb_check E c hh k now)" "safely (onb_reset E c hh k now)" "safely (onb_cancel E c hh now)"
proof -
  show "safely (onb_save_profile E c hh p now)"
    unfolding onb_save_profile_def by (rule run_command_safe) (rule save_profile_sound)
  have "safely (run_command E c rt sha hh now (select_body E c hh k v now))" for rt sha v
    by (rule run_command_safe) (metis select_effect sound_one_step next_status_opened onb_command.distinct)
  then show "safely (onb_select E c hh k sel now)"
    unfolding onb_select_def by (auto split: sum.split intro: staying)
  have "safely (run_command E c rt sha hh now (retry_body E c hh k v now))" for rt sha v
    by (rule run_command_safe) (metis retry_effect sound_one_step next_status_opened onb_command.distinct)
  then show "safely (onb_retry E c hh k now)"
    unfolding onb_retry_def safely_def by (auto split: sum.split option.split)
  have "safely (run_command E c rt sha hh now (check_body E c hh k now))" for rt sha
    by (rule run_command_safe) (metis check_effect sound_one_step next_status_opened onb_command.distinct)
  then show "safely (onb_check E c hh k now)"
    unfolding onb_check_def by (auto intro: staying)
  have "safely (run_command E c rt sha hh now (reset_body E c hh k now))" if "k \<in> set user_steps" for rt sha
    by (rule run_command_safe) (rule reset_sound [OF _ _ that])
  then show "safely (onb_reset E c hh k now)"
    unfolding onb_reset_def by (auto intro: staying)
  show "safely (onb_cancel E c hh now)"
    unfolding onb_cancel_def by (rule run_command_safe) (rule cancel_sound)
qed

end
