(* ===== verification/WorkerOrder.thy ===== *)
theory WorkerOrder
  imports StepOrder AccountLaws
begin

text \<open>
  The worker, the withdrawals and the sign-up keep the invariant of the onboarding; the properties that
  hold in every history of them.
\<close>

section \<open>A problem with a step\<close>

lemma project_problem_sound: "sound d \<Longrightarrow> sound (project_problem wid k status code public now d)"
proof (cases "live_workflow wid d")
  case True
  let ?t = "\<lambda>st. if in_progress st then problem_step status else st"
  let ?\<sigma> = "\<lambda>k' st. if k' = k then ?t st else st"
  let ?d = "project_problem wid k status code public now d"
  assume s: "sound d"
  have m: "steps_to wid ?\<sigma> d ?d"
    using True by (simp add: project_problem_def) (rule steps_to_put, simp)
  have i: "in_order d" and o: "one_row_each d" and j: "journalled d" using s by (simp_all add: sound_def)
  have r: "c_workflows ?d = c_workflows d" "c_transitions ?d = c_transitions d"
    using True by (simp_all add: project_problem_def put_step_rest)
  have t: "opened (?t st) \<longrightarrow> opened st" "st = St_verified \<longrightarrow> ?t st = St_verified" for st
    by (auto simp: in_progress_def opened_def problem_step_def)
  have "in_order ?d"
  proof (rule in_order_step [OF i m])
    fix x kk
    assume x: "x \<in> set (c_steps d)" "stp_workflow x = wid" "opened (?\<sigma> (stp_kind x) (stp_status x))" "place kk < place (stp_kind x)"
    show "\<exists>y \<in> set (c_steps d). stp_workflow y = wid \<and> stp_kind y = kk \<and> ?\<sigma> kk (stp_status y) = St_verified"
    proof (rule closed_step [where \<sigma> = ?\<sigma>, OF i _ _ x])
      show "opened (stp_status y)" if "opened (?\<sigma> (stp_kind y) (stp_status y))" for y
        using that t(1) [of "stp_status y"] by (cases "stp_kind y = k") auto
      show "?\<sigma> (stp_kind y) (stp_status y) = St_verified" if "stp_status y = St_verified" for y
        using that t(2) [of "stp_status y"] by (cases "stp_kind y = k") auto
    qed
  qed
  moreover have "one_row_each ?d" by (rule one_row_step [OF o m]) (simp add: r)
  moreover have "journalled ?d" using j by (simp add: journalled_def journal_of_def r)
  ultimately show ?thesis by (simp add: sound_def)
qed (simp add: project_problem_def)

lemma settle_problem_core [keeping]: "keeps core (settle_problem W job request status code now)"
proof -
  have "keeps core (raising h (schedule_waiting_inspect J i r nb code now))" for h J i r nb
    by (rule keeps_raising) (auto simp: schedule_waiting_inspect_def on_job_def core_def split: if_splits)
  then show ?thesis unfolding settle_problem_def by (intro keeps_if settle_core)
qed

lemma mark_problem_core [keeping]: "keeps core (raising Ob_email (mark_problem i st now))"
  by (rule keeps_raising) (auto simp: mark_problem_def move_email_def core_def split: if_splits option.splits)

lemma mark_step_problem_safe [staying]: "safely (mark_step_problem W job request status code public ref now)"
proof -
  have mail: "stays (case request_mailbox W job request of None \<Rightarrow> answer ()
      | Some i \<Rightarrow> andthen (raising Ob_email (mark_problem i (problem_mail status) now)) (\<lambda>u. edit (\<lambda>d. snd (finish_disconnect i now d))))"
    by (rule stays_keeps) (auto split: option.split intro!: keeping simp: edits_core)
  have res: "stays (case str_or_none ref of Some r \<Rightarrow>
      if status = Jb_waiting_user then external_resource W job (JStr r) Er_creating None (jb_kind job) now else answer []
      | None \<Rightarrow> answer [])"
    by (rule stays_keeps) (auto split: option.split intro!: keeping)
  have part: "stays (edit (\<lambda>d. if b then snd (retire_staged_members i d) else d))"
    "stays (edit (\<lambda>d. if b then restore_settled_household job now d else d))" for b i
    by (rule stays_keeps, rule keeps_edit, simp add: edits_core)+
  have proj: "stays (edit (\<lambda>d. case request_step request of None \<Rightarrow> d
      | Some k \<Rightarrow> project_problem (jb_workflow job) k status code public now d))"
    by (rule stays_edit) (simp add: project_problem_sound split: option.split)
  have body: "stays (apply_problem W job request status code public ref now)"
    unfolding apply_problem_def
    by (rule stays_andthen [OF stays_keeps [OF settle_problem_core]], rule stays_andthen [OF res], rule stays_andthen [OF mail],
        rule stays_andthen [OF part(1)], rule stays_andthen [OF part(2)], rule stays_andthen [OF proj], rule stays_basic(1))
  have late: "stays (andthen (settle (jb_id job) Jb_outcome_unknown None None (Some c) now) (\<lambda>u. answer x))" for c and x :: work_result
    by (rule stays_keeps) (intro keeping)
  show ?thesis
    unfolding mark_step_problem_def
  proof (rule safely_tx, unfold stays_def, intro allI impI)
    fix d x d'
    let ?late = "andthen (settle (jb_id job) Jb_outcome_unknown None None (Some ''cancelled_provider_outcome_unknown'') now)
      (\<lambda>u. answer (result_of (jb_id job) Jb_outcome_unknown (Some ''cancelled_provider_outcome_unknown'')))"
    assume s: "sound d"
      and h: "(case jobs_get (jb_id job) d of
          None \<Rightarrow> (Inr (result_of (jb_id job) Jb_cancelled (Some ''job_missing'')), d)
        | Some cur \<Rightarrow>
            if jb_status cur = Jb_cancelled
            then (if status \<noteq> Jb_outcome_unknown then (Inr (result_of (jb_id job) Jb_cancelled None), d) else ?late d)
            else if jb_status cur = Jb_outcome_unknown \<and> requires_reconciliation (jb_error cur) \<and> status = Jb_waiting_user
            then (Inr (result_of (jb_id job) Jb_outcome_unknown (jb_error cur)), d)
            else if jb_status cur \<notin> {Jb_running, Jb_outcome_unknown}
            then (Inr (result_of (jb_id job) (jb_status cur) (Some (status_str (jb_status cur)))), d)
            else apply_problem W job request status code public ref now d) = (Inr x, d')"
    have "d' = d \<or> ?late d = (Inr x, d') \<or> apply_problem W job request status code public ref now d = (Inr x, d')"
      using h by (cases "jobs_get (jb_id job) d") (simp_all split: if_split_asm)
    then show "sound d'" using s body late unfolding stays_def by blast
  qed
qed

section \<open>A step that succeeded\<close>

lemma move_on_moves:
  assumes "sound d" "step_at w k d s" "w \<in> set (c_workflows d)" "wfl_id w = jb_workflow job" "k \<noteq> Kd_channel"
    "core d1 = core (put_step (wfl_id w) k (finished_step St_verified result public now) d)"
    "move_on W job k w now d1 = (Inr x, d2)"
    "append_transition E w owner None req \<lparr>mv_command = c, mv_to = snd x, mv_step = st, mv_from_step = fs, mv_to_step = ts,
       mv_job = jj, mv_metadata = md\<rparr> now d2 = (Inr u, d')"
  shows "moves w (\<lambda>k' st. if k' = k then St_verified
    else if k' = (if k = Kd_email then Kd_whatsapp else Kd_channel) \<and> st = St_locked then St_available else st) d d'"
proof -
  let ?n = "if k = Kd_email then Kd_whatsapp else Kd_channel"
  let ?f = "\<lambda>y. y\<lparr>wfl_step := ?n, wfl_version := wfl_version w + 1, wfl_updated_at := now\<rparr>"
  let ?p = "put_step (wfl_id w) k (finished_step St_verified result public now) d"
  have d2: "d2 = put_workflow (wfl_id w) ?f (open_next (wfl_id w) ?n now d1)" "snd x = wfl_state w"
    using assms(4,5,7) by (auto simp: move_on_def onb_Inr Let_def)
  obtain i where d': "d' = d2\<lparr>c_transitions := c_transitions d2 @ [transition_row i w owner None req
      \<lparr>mv_command = c, mv_to = snd x, mv_step = st, mv_from_step = fs, mv_to_step = ts, mv_job = jj, mv_metadata = md\<rparr> now]\<rparr>"
    using append_transition_effect [OF assms(8)] by blast
  have 1: "steps_to (wfl_id w) (\<lambda>k' st. if k' = k then St_verified else st) d ?p"
    by (rule steps_to_put) (simp add: finished_step_def)
  have 2: "steps_to (wfl_id w) (\<lambda>k' st. if k' = ?n then if st = St_locked then St_available else st else st) d1 (open_next (wfl_id w) ?n now d1)"
    unfolding open_next_def by (rule steps_to_put) simp
  have "steps_to (wfl_id w) (\<lambda>k' st. if k' = k then St_verified else st) d d1"
    by (rule steps_to_core [OF 1 refl]) (simp add: assms(6))
  from steps_to_trans [OF this 2]
  have st: "steps_to (wfl_id w) (\<lambda>k' st. if k' = k then St_verified else if k' = ?n \<and> st = St_locked then St_available else st) d (open_next (wfl_id w) ?n now d1)"
    by (rule back_subst [of "\<lambda>z. steps_to (wfl_id w) z d (open_next (wfl_id w) ?n now d1)"]) (auto simp: fun_eq_iff)
  have t: "c_workflows d1 = c_workflows d" "c_transitions d1 = c_transitions d" "c_replies d1 = c_replies d"
    using assms(6) by (simp_all add: core_def put_step_rest)
  have r: "c_workflows d' = tbl_update (\<lambda>y. wfl_id y = wfl_id w) ?f (c_workflows d)" "c_steps d' = c_steps (open_next (wfl_id w) ?n now d1)"
      "c_replies d' = c_replies d"
      "c_transitions d' = c_transitions d @ [transition_row i w owner None req
        \<lparr>mv_command = c, mv_to = snd x, mv_step = st, mv_from_step = fs, mv_to_step = ts, mv_job = jj, mv_metadata = md\<rparr> now]"
    by (simp_all add: d' d2(1) put_workflow_def open_next_def put_step_rest t)
  have "steps_to (wfl_id w) (\<lambda>k' st. if k' = k then St_verified else if k' = ?n \<and> st = St_locked then St_available else st) d d'"
    using st by (simp only: steps_to_def r(2))
  moreover have "journals w d d'"
    unfolding journals_def r(1,4) by (rule exI [of _ ?f]) (simp add: transition_row_def d2(2))
  ultimately show ?thesis using r(3) by (simp add: moves_def)
qed

lemma finish_order:
  assumes "sound d" "step_row wid k d = Some s" "in_progress (stp_status s)" "\<And>st. \<sigma> k st = St_verified"
    "\<And>kk st. st = St_verified \<Longrightarrow> \<sigma> kk st = St_verified"
    "\<And>kk st. opened (\<sigma> kk st) \<Longrightarrow> kk = k \<or> opened st \<or> place kk = Suc (place k)"
    "x \<in> set (c_steps d)" "stp_workflow x = wid" "opened (\<sigma> (stp_kind x) (stp_status x))" "place kk < place (stp_kind x)"
  shows "\<exists>t \<in> set (c_steps d). stp_workflow t = wid \<and> stp_kind t = kk \<and> \<sigma> kk (stp_status t) = St_verified"
proof -
  have i: "in_order d" and o: "one_row_each d" using assms(1) by (simp_all add: sound_def)
  note row = the_row [OF o assms(2)]
  have os: "opened (stp_status s)" using assms(3) by (auto simp: in_progress_def opened_def)
  have lower: "verified_at wid kk d" if "place kk < place k"
    using i row os that by (auto simp: in_order_def)
  have own: "verified_at wid kk d" if "opened (stp_status x)"
    using i assms(7,8,10) that by (auto simp: in_order_def)
  have inj: "place a = place b \<Longrightarrow> a = b" for a b by (cases a; cases b) simp_all
  have "kk = k \<or> verified_at wid kk d"
    using assms(6) [OF assms(9)] assms(10) lower own inj [of kk k] by (auto simp: less_Suc_eq)
  then show ?thesis
  proof
    assume "kk = k" then show ?thesis using row assms(4) by blast
  next
    assume "verified_at wid kk d" then show ?thesis using assms(5) by (auto simp: verified_at_def)
  qed
qed

lemma core_put_step: "core d = core e \<Longrightarrow> core (put_step wid k f d) = core (put_step wid k f e)"
  by (simp add: core_def put_step_def)

lemma verify_status: "next_status k st Cmd_verify_result = Some ns \<Longrightarrow> ns = St_verified \<and> k \<in> {Kd_email, Kd_whatsapp, Kd_channel}"
  by (cases k; cases st) (simp_all add: next_status_def transitions_def provider_transitions_def)

lemma channel_moves:
  assumes "w \<in> set (c_workflows d)" "wfl_id w = jb_workflow job"
    "core d1 = core (put_step (wfl_id w) Kd_channel (finished_step St_verified result public now) d)"
    "move_on W job Kd_channel w now d1 = (Inr x, d2)"
    "append_transition E w owner None req \<lparr>mv_command = c, mv_to = snd x, mv_step = st, mv_from_step = fs, mv_to_step = ts,
       mv_job = jj, mv_metadata = md\<rparr> now d2 = (Inr u, d')"
  shows "moves w (\<lambda>k' st. if k' = Kd_channel then St_verified else st) d d'"
proof -
  let ?f = "\<lambda>y. y\<lparr>wfl_state := Wf_runtime_provisioning, wfl_step := Kd_runtime, wfl_version := wfl_version w + 1, wfl_updated_at := now\<rparr>"
  let ?p = "put_step (wfl_id w) Kd_channel (finished_step St_verified result public now) d"
  obtain p da j db where a: "plan_issue (wk_plan W) (jb_household job) now d1 = (Inr p, da)" "queue (wk_onb W) (runtime_request W job p) now da = (Inr j, db)"
      and d2: "d2 = (put_workflow (wfl_id w) ?f db)\<lparr>c_households := tbl_update (\<lambda>h. ch_id h = jb_household job)
          (\<lambda>h. h\<lparr>ch_status := ''provisioning'', ch_revision := cfg_revision (snd p), ch_updated_at := now\<rparr>) (c_households db)\<rparr>"
        "snd x = Wf_runtime_provisioning"
    using assms(2,4) by (auto simp: move_on_def onb_Inr put_workflow_def)
  obtain i where d': "d' = d2\<lparr>c_transitions := c_transitions d2 @ [transition_row i w owner None req
      \<lparr>mv_command = c, mv_to = snd x, mv_step = st, mv_from_step = fs, mv_to_step = ts, mv_job = jj, mv_metadata = md\<rparr> now]\<rparr>"
    using append_transition_effect [OF assms(5)] by blast
  have "core db = core ?p" using keepsD [OF plan_issue_core a(1)] keepsD [OF queue_core a(2)] assms(3) by simp
  then have t: "c_workflows db = c_workflows d" "c_transitions db = c_transitions d" "c_replies db = c_replies d" "c_steps db = c_steps ?p"
    by (simp_all add: core_def put_step_rest)
  have "steps_to (wfl_id w) (\<lambda>k' st. if k' = Kd_channel then St_verified else st) d ?p"
    by (rule steps_to_put) (simp add: finished_step_def)
  moreover have r: "c_workflows d' = tbl_update (\<lambda>y. wfl_id y = wfl_id w) ?f (c_workflows d)" "c_steps d' = c_steps ?p" "c_replies d' = c_replies d"
      "c_transitions d' = c_transitions d @ [transition_row i w owner None req
        \<lparr>mv_command = c, mv_to = snd x, mv_step = st, mv_from_step = fs, mv_to_step = ts, mv_job = jj, mv_metadata = md\<rparr> now]"
    by (simp_all add: d' d2(1) put_workflow_def t)
  moreover have "journals w d d'"
    unfolding journals_def r(1,4) by (rule exI [of _ ?f]) (simp add: transition_row_def d2(2))
  ultimately show ?thesis by (simp add: moves_def steps_to_def)
qed

lemma finish_body_sound:
  assumes s: "sound d" and h: "finish_body W job k request r public now d = (Inr y, d')"
  shows "sound d'"
proof -
  let ?F = "finished_step St_verified (durable_json (pv_ref r) public) public now"
  obtain s ns d1 d3 u4 d4 w x d5 owner where a: "step_row (jb_workflow job) k d = Some s" "in_progress (stp_status s)"
      "verify_mailbox W job k request r public now d = (Inr (), d1)" "next_status k (stp_status s) Cmd_verify_result = Some ns"
      "settle (jb_id job) Jb_succeeded (Some (durable_json (pv_ref r) public)) (Some (pv_ref r)) None now
         (put_step (jb_workflow job) k (finished_step ns (durable_json (pv_ref r) public) public now) d1) = (Inr (), d3)"
      "external_resource W job (JStr (pv_ref r)) Er_ready None (jb_kind job) now d3 = (Inr u4, d4)"
      "find (\<lambda>w. wfl_id w = jb_workflow job) (c_workflows d4) = Some w"
      "move_on W job k w now d4 = (Inr x, d5)"
    and app: "append_transition (wk_onb W) w owner None (''worker:'' @ jb_id job)
       \<lparr>mv_command = ''provider_result'', mv_to = snd x, mv_step = Some k, mv_from_step = Some (stp_status s),
        mv_to_step = Some St_verified, mv_job = Some (fst x), mv_metadata = JObj [(''provider'', JStr (jb_provider job))]\<rparr> now d5 = (Inr (), d')"
    using h by (auto simp: finish_body_def onb_Inr body_reads split: if_split_asm)
  have ns: "ns = St_verified" "k \<in> {Kd_email, Kd_whatsapp, Kd_channel}" using verify_status [OF a(4)] by simp_all
  have "core d1 = core d" by (rule keepsD [OF verify_mailbox_core a(3)])
  then have c: "core d4 = core (put_step (jb_workflow job) k ?F d)"
    using keepsD [OF settle_core a(5)] keepsD [OF external_resource_core a(6)] core_put_step ns(1) by metis
  then have w: "w \<in> set (c_workflows d)" "wfl_id w = jb_workflow job"
    using a(7) by (auto simp: core_def put_step_rest find_Some_iff)
  have at: "step_at w k d s" using a(1) w(2) by (simp add: step_at_def)
  show ?thesis
  proof (cases "k = Kd_channel")
    case True
    let ?\<sigma> = "\<lambda>k' st. if k' = Kd_channel then St_verified else st"
    have "moves w ?\<sigma> d d'"
      using channel_moves [OF w c [unfolded True, folded w(2)] a(8) [unfolded True] app] .
    then show ?thesis
      by (rule sound_moves [OF s w(1)])
        (rule finish_order [where \<sigma> = ?\<sigma>, OF s a(1) [folded w(2)] a(2)], auto simp: True)
  next
    case False
    let ?n = "if k = Kd_email then Kd_whatsapp else Kd_channel"
    let ?\<sigma> = "\<lambda>k' st. if k' = k then St_verified else if k' = ?n \<and> st = St_locked then St_available else st"
    have "moves w ?\<sigma> d d'"
      using move_on_moves [OF s at w False c [folded w(2)] a(8) app] .
    then show ?thesis
      by (rule sound_moves [OF s w(1)])
        (rule finish_order [where \<sigma> = ?\<sigma>, OF s a(1) [folded w(2)] a(2)], use ns(2) False in \<open>auto split: if_splits\<close>)
  qed
qed

section \<open>The worker\<close>

lemma finish_step_safe [staying]: "safely (finish_step W job request r now)"
proof -
  have "safely (write_tx (finish_body W job k request r public now))" for k public
    by (rule safely_tx) (use finish_body_sound in \<open>unfold stays_def, blast\<close>)
  then show ?thesis unfolding finish_step_def safely_def by (auto split: option.split)
qed

lemma back_to_email_sound:
  assumes "sound d" "w \<in> set (c_workflows d)" "back_to_email W job w owner now d = (Inr u, d')"
  shows "sound d'"
proof -
  let ?f = "\<lambda>x. x\<lparr>wfl_state := Wf_in_progress, wfl_step := Kd_email, wfl_version := wfl_version w + 1, wfl_updated_at := now, wfl_completed_at := None\<rparr>"
  define d1 where "d1 = (\<lambda>d. d\<lparr>c_households := tbl_update (\<lambda>h. ch_id h = jb_household job \<and> ch_status h \<notin> {''deleting'', ''deleted''})
        (\<lambda>h. h\<lparr>ch_status := ''onboarding'', ch_updated_at := now\<rparr>) (c_households d)\<rparr>)
      (revoke_bootstraps (jb_household job) now (snd (revoke_configs [Cf_planned, Cf_issued, Cf_claimed] (jb_household job) d)))"
  define mv where "mv = \<lparr>mv_command = ''require_content_restriction_acknowledgement'', mv_to = Wf_in_progress, mv_step = Some Kd_email,
        mv_from_step = None, mv_to_step = None, mv_job = Some (jb_id job),
        mv_metadata = JObj [(''reason'', JStr ''current_receipt_required'')]\<rparr>"
  have m: "mv_to mv = Wf_in_progress" by (simp add: mv_def)
  have "core d1 = core (revoke_bootstraps (jb_household job) now (snd (revoke_configs [Cf_planned, Cf_issued, Cf_claimed] (jb_household job) d)))"
    by (simp add: d1_def core_def)
  moreover have "append_transition (wk_onb W) w owner None (''worker:'' @ jb_id job @ '':content-restriction'') mv now (put_workflow (wfl_id w) ?f d1) = (Inr u, d')"
    using assms(3) by (simp add: back_to_email_def onb_Inr d1_def mv_def)
  ultimately obtain i where "core d1 = core d"
    and d': "d' = (put_workflow (wfl_id w) ?f d1)\<lparr>c_transitions := c_transitions (put_workflow (wfl_id w) ?f d1) @
        [transition_row i w owner None (''worker:'' @ jb_id job @ '':content-restriction'') mv now]\<rparr>"
    by (auto simp: edits_core dest!: append_transition_effect)
  then have t: "c_workflows d1 = c_workflows d" "c_transitions d1 = c_transitions d" "c_replies d1 = c_replies d" "c_steps d1 = c_steps d"
    by (simp_all add: core_def)
  have "journals w d d'"
    unfolding journals_def by (rule exI [of _ ?f]) (simp add: d' put_workflow_def transition_row_def m t)
  moreover have "steps_to (wfl_id w) (\<lambda>k st. st) d d'"
    unfolding steps_to_def by (rule exI [of _ "\<lambda>x. x"]) (simp add: d' put_workflow_def t)
  ultimately have "moves w (\<lambda>k st. st) d d'" by (simp add: moves_def d' put_workflow_def t)
  then show ?thesis
    by (rule sound_moves [OF assms(1,2)]) (rule closed_step [where \<sigma> = "\<lambda>k st. st"], use assms(1) in \<open>auto simp: sound_def\<close>)
qed

lemma block_runtime_stays: "stays (block_runtime W job now)"
  unfolding stays_def
proof (intro allI impI)
  fix d x d'
  assume s: "sound d" and h: "block_runtime W job now d = (Inr x, d')"
  have "d' = d \<or> (\<exists>d1. core d1 = core d \<and> (d' = d1 \<or>
      (\<exists>w owner. w \<in> set (c_workflows d1) \<and> back_to_email W job w owner now d1 = (Inr (), d'))))"
  proof (cases "jobs_get (jb_id job) d")
    case None
    then show ?thesis using h by (simp add: block_runtime_def)
  next
    case (Some cur)
    show ?thesis
    proof (cases "jb_status cur \<notin> {Jb_running, Jb_outcome_unknown}")
      case True
      then show ?thesis using h Some by (simp add: block_runtime_def)
    next
      case False
      obtain d0 where d0: "settle (jb_id job) Jb_failed None None (Some receipt_code) now d = (Inr (), d0)"
        and r: "(case (find (\<lambda>w. wfl_id w = jb_workflow job \<and> wfl_household w = jb_household job) (c_workflows (snd (retire_staged_members (jb_household job) d0))),
               owner_of (jb_household job) (snd (retire_staged_members (jb_household job) d0))) of
                (Some w, Some owner) \<Rightarrow>
                  if wfl_state w \<in> {Wf_runtime_provisioning, Wf_activating} then back_to_email W job w owner now else answer ()
              | x \<Rightarrow> answer ()) (snd (retire_staged_members (jb_household job) d0)) = (Inr (), d')"
        using h Some False by (auto simp: block_runtime_def onb_Inr)
      have c: "core (snd (retire_staged_members (jb_household job) d0)) = core d"
        using keepsD [OF settle_core d0] by (simp add: edits_core)
      show ?thesis
        using r c by (auto simp: onb_Inr find_Some_iff split: option.splits if_split_asm)
    qed
  qed
  then show "sound d'" using s back_to_email_sound sound_core by metis
qed

lemma try_again_safe [staying]: "safely (try_again job nb code now)"
  unfolding try_again_def
  by (intro safely_andthen safely_edit safely_basic) (simp add: sound_core [OF edits_core(10)])

lemma safely_pick:
  "(\<And>c. safely (m c)) \<Longrightarrow> safely (\<lambda>d. case f d of None \<Rightarrow> (Inr v, d) | Some c \<Rightarrow> if P c d then (Inr v', d) else m c d)"
  by (simp add: safely_def split: option.split)

lemma late_waiting_safe [staying]: "safely (late_waiting_cleanup W job request ref now)"
proof -
  have body: "safely (write_tx (andthen (if b then settle i Jb_outcome_unknown None None c now else answer ()) (\<lambda>u.
      andthen (external_resource W job (JStr ref) Er_deleting (jb_revision job) (jb_kind job) now) (\<lambda>rid.
      andthen (queue E (q rid) now) (\<lambda>j. answer (v :: work_result option))))))" for b i c E q v
    by (intro safely_tx stays_keeps keeping)
  show ?thesis
    unfolding late_waiting_cleanup_def [abs_def]
    by (rule safely_pick) (rule body)
qed

lemma cancelled_result_safe [staying]: "safely (cancelled_result W job r gone sink now)"
proof -
  have comp: "keeps core (compensated i now)" for i
    using settle_core by (auto simp: compensated_def keeps_def split: option.splits if_split_asm)
  have dis: "keeps core (edit (\<lambda>d. case (oe_mail (wk_onb W), mail) of
        (Some M, JStr i) \<Rightarrow> if b then snd (finish_disconnect i now d) else d | x \<Rightarrow> d))" for mail b
    by (rule keeps_edit) (simp add: edits_core split: option.split json.split)
  have "keeps core (edit (set_resource rid st now))" for rid st
    by (rule keeps_edit) (simp add: edits_core)
  then have "safely (after_deprovision W job rid ref mail unk gone now)" for rid ref mail unk
    unfolding after_deprovision_def
    by (intro safely_tx stays_keeps keeps_andthen keeps_if comp dis keeps_basic queue_core)
  moreover have "safely (write_tx (external_resource W job ref st rev ty now))" for ref st rev ty
    by (rule safely_tx [OF stays_keeps [OF external_resource_core]])
  moreover have "safely (write_tx (andthen (queue E q now) (\<lambda>j. answer ())))" for E q
    by (intro safely_tx stays_keeps keeping)
  ultimately show ?thesis
    unfolding cancelled_result_def Let_def
    by (intro staying) (auto intro: stays_keeps [OF queue_core] stays_keeps [OF external_resource_core])
qed

lemma record_waiting_safe [staying]: "safely (record_waiting W job request public ref code now)"
proof -
  have "safely (case ref of Some r \<Rightarrow> if jb_kind job \<in> set content_resource_types then late_waiting_cleanup W job request r now else answer None
      | None \<Rightarrow> answer None)"
    by (auto split: option.split intro: staying)
  moreover have "safely (case x of Some res \<Rightarrow> answer res | None \<Rightarrow> andthen (look (owned_by_deletion job)) (\<lambda>deleting.
         mark_step_problem W job request (if deleting then Jb_outcome_unknown else Jb_waiting_user) code public ref now))" for x
    by (auto split: option.split intro: staying)
  ultimately show ?thesis unfolding record_waiting_def by (rule safely_andthen)
qed

lemma provider_waiting_safe [staying]: "safely (provider_waiting W job request public ref code now)"
  unfolding provider_waiting_def by (auto split: option.split intro: staying)

lemma email_failure_safe [staying]: "safely (email_failure W job request f now)"
  unfolding email_failure_def by (cases f) (auto intro: staying)

lemma rate_limited_safe [staying]: "safely (rate_limited W job request wait now)"
  unfolding rate_limited_def by (intro staying)

lemma settle_result_safe [staying]: "safely (settle_result W job request r staged gone sink now)"
proof -
  have f: "sound (snd (finish_step W job request r now d))" if "sound d" for d
    using finish_step_safe that by (simp add: safely_def)
  have "sound (snd (settle_result W job request r staged gone sink now d))" if "sound d" for d
  proof (cases "finish_step W job request r now d")
    case (Pair x d1)
    have "sound d1" using f [OF that] Pair by simp
    then show ?thesis
      using that mark_step_problem_safe cancelled_result_safe Pair
      unfolding settle_result_def safely_def by (simp split: sum.split onb_error.split)
  qed
  then show ?thesis by (simp add: safely_def)
qed

lemma after_ensure_safe [staying]: "safely (after_ensure W job request ans staged gone sink now)"
  unfolding after_ensure_def by (cases ans) (auto intro!: staying)

lemma gate_safe [staying]: "safely (gate W job reclaimed request now)"
proof -
  have "safely (block_for_missing_consent W job request now)"
    unfolding block_for_missing_consent_def by (intro staying block_runtime_stays)
  then have "safely (andthen (block_for_missing_consent W job request now) (\<lambda>x. answer (Some x)))" by (intro staying)
  moreover have "safely (brake_option W job reclaimed request code now)" for code
    unfolding brake_option_def by (intro staying)
  then have "safely (andthen (brake_option W job reclaimed request code now) (\<lambda>x. answer (Some x)))" for code by (intro staying)
  moreover have "safely (andthen (if b then mark_step_problem W job request Jb_failed ''secret_namespace_failed'' (JObj []) None now
              else try_again job (now + 5) ''secret_namespace_not_ready'' now) (\<lambda>x. answer (Some x)))" for b
    by (intro staying)
  then have "safely (namespace_gate W job request now)"
    unfolding namespace_gate_def safely_def by (simp add: Let_def)
  ultimately show ?thesis unfolding gate_def safely_def by (simp split: option.split)
qed

lemma work_step_job_safe [staying]: "safely (work_step_job W job reclaimed o' now)"
proof -
  have "safely (after_gate W job reclaimed request o' now)" for request
    unfolding after_gate_def Let_def
    by (auto split: prod.split inspect_state.split option.split intro: staying)
  then have "safely (case x of Some res \<Rightarrow> answer res | None \<Rightarrow> after_gate W job reclaimed request o' now)" for x request
    by (auto split: option.split intro: staying)
  then show ?thesis unfolding work_step_job_def by (intro safely_andthen safely_basic gate_safe)
qed

lemma finish_namespace_safe [staying]: "safely (finish_namespace W job r now)"
proof -
  let ?done = "andthen (settle (jb_id job) Jb_succeeded (Some (durable_json (pv_ref r) (pv_public r))) (Some (pv_ref r)) None now) (\<lambda>u.
    andthen (external_resource W job (JStr (pv_ref r)) Er_ready None ''secret_namespace'' now) (\<lambda>u. answer (result_of (jb_id job) Jb_succeeded None)))"
  have body: "stays ?done" by (intro stays_keeps keeping)
  let ?m = "\<lambda>d. case (jobs_get (jb_id job) d, find (\<lambda>w. wfl_id w = jb_workflow job) (c_workflows d), households_get (jb_household job) d) of
          (Some cur, Some w, Some h) \<Rightarrow>
            if jb_status cur = Jb_succeeded then (Inr (result_of (jb_id job) Jb_succeeded None), d)
            else if jb_status cur = Jb_cancelled \<or> wfl_state w = Wf_cancelled \<or> ch_status h \<in> {''draft'', ''deleting'', ''deleted''}
            then (Inl Ob_superseded, d)
            else if jb_status cur \<notin> {Jb_running, Jb_outcome_unknown}
            then (Inr (result_of (jb_id job) (jb_status cur) (Some (status_str (jb_status cur)))), d)
            else ?done d
        | x \<Rightarrow> (Inr (result_of (jb_id job) Jb_cancelled (Some ''job_missing'')), d)"
  have "?m d = (Inr x, d') \<Longrightarrow> d' = d \<or> ?done d = (Inr x, d')" for d x d'
    by (cases "jobs_get (jb_id job) d"; cases "find (\<lambda>w. wfl_id w = jb_workflow job) (c_workflows d)"; cases "households_get (jb_household job) d")
      (simp_all only: option.case prod.case prod.inject sum.inject sum.distinct split: if_split_asm, blast+)
  then have "stays ?m" using body unfolding stays_def by blast
  then have "safely (write_tx ?m)" by (rule safely_tx)
  then show ?thesis unfolding finish_namespace_def safely_def by simp
qed

lemma work_cleanup_safe [staying]: "safely (work_cleanup W job request inspected sink now)"
proof -
  have comp: "keeps core (settle_parent v now)" for v
    using settle_core by (auto simp: settle_parent_def compensated_def keeps_def onb_Inr split: json.splits option.splits if_split_asm)
  have res: "keeps core (edit (\<lambda>d. if b then d else set_resource i st now d))" for b i st
    by (rule keeps_edit) (simp add: edits_core)
  have dis: "keeps core (edit (\<lambda>d. snd (finish_disconnect i now d)))" for i
    by (rule keeps_edit) (simp add: edits_core)
  have mail: "keeps core (case (oe_mail (wk_onb W), v) of (Some M, JStr i) \<Rightarrow>
        if b then andthen (settle_parent q now) (\<lambda>u. edit (\<lambda>d. snd (finish_disconnect i now d))) else answer ()
      | x \<Rightarrow> answer ())" for v b q
    by (auto split: option.split json.split intro!: keeps_andthen comp dis keeps_basic)
  have "safely (finish_cleanup W job request now)"
    unfolding finish_cleanup_def
    by (intro safely_tx stays_keeps keeps_andthen settle_core res keeps_if comp mail keeps_basic)
  moreover have "safely (cleanup_problem W job request st code now)" for st code
    unfolding cleanup_problem_def by (intro staying)
  moreover have "safely (try_again job nb code now)" for nb code by (rule try_again_safe)
  ultimately show ?thesis unfolding work_cleanup_def [abs_def] safely_def by simp
qed

section \<open>Withdrawals, sign-ups and the queue\<close>

lemma withdraw_safe [staying]: "safely (withdraw W hh purpose now)"
proof -
  have rec: "keeps core (\<lambda>d. (Inr (fst (revoke_receipts hh purpose now d)), snd (revoke_receipts hh purpose now d)))"
    by (simp add: keeps_def revoke_receipts_def Let_def core_def)
  have cfg: "keeps core (\<lambda>d. if stops then (Inr (fst (revoke_configs ss hh d)), snd (revoke_configs ss hh d)) else (Inr 0, d))" for stops ss
    by (auto simp: keeps_def edits_core)
  have drop: "keeps core (edit (\<lambda>d. if b then drop_mailbox E hh now d else d))" for b E
    by (rule keeps_edit) (simp add: edits_core)
  have sup: "keeps core (edit (supersede_unsettled_jobs hh x ts now))" for x ts
    by (rule keeps_edit) (simp add: edits_core)
  have dis: "keeps core (disconnect_for_withdrawal E hh types now)" for E types
  proof -
    have m: "keeps core (andthen (edit (supersede_unsettled_jobs hh ''withdrawal'' (Some ts) now)) (\<lambda>u.
          andthen (schedule_cleanup E hh (wfl_id w) (wfl_version w) (Some ts) now) (\<lambda>js.
          andthen (edit (\<lambda>d. if b then drop_mailbox E hh now d else d)) (\<lambda>u. answer js))))" for ts w b
      by (intro keeps_andthen sup drop keeps_basic schedule_cleanup_core)
    show ?thesis
      unfolding keeps_def disconnect_for_withdrawal_def
      by (auto split: list.splits option.splits dest: keepsD [OF m])
  qed
  have job: "keeps core (raising h (jobs_create J q now))" for h J q
    using queue_core [of "undefined\<lparr>oe_jobs := J\<rparr>" q now] by (simp add: queue_def keeps_def onb_Inr)
  have stop: "keeps core (enqueue_runtime_stop W hh purpose cycle now)" for cycle
    using job by (auto simp: enqueue_runtime_stop_def keeps_def onb_Inr Let_def split: option.splits if_split_asm)
  have "keeps core (case we_onboarding W of None \<Rightarrow> answer [] | Some E \<Rightarrow> disconnect_for_withdrawal E hh types now)" for types
    using dis by (auto split: option.split intro: keeps_basic)
  then have "keeps core (withdraw_body W hh purpose types stops now)" for types stops
    unfolding withdraw_body_def by (intro keeps_andthen rec cfg stop keeps_if keeps_basic)
  then have "safely (write_tx (withdraw_body W hh purpose types stops now))" for types stops
    by (intro safely_tx stays_keeps)
  then show ?thesis unfolding withdraw_def by (auto split: option.split intro: staying)
qed

lemma job_step_core: "core (job_step E op d) = core d"
  by (cases op)
    (auto simp: core_def jobs_create_def jobs_lease_def schedule_waiting_inspect_def jobs_settle_def record_result_def on_job_def retry_later_def
      cancel_household_def supersede_unsettled_jobs_def Let_def split: option.splits)

lemma create_for_owner_sound: "sound d \<Longrightarrow> sound (snd (create_for_owner E acc now d))"
proof -
  assume s: "sound d"
  let ?d = "snd (create_for_owner E acc now d)"
  let ?new = "map (first_step (ae_uuid E 2 d) now) [(0, Kd_profile), (1, Kd_email), (2, Kd_whatsapp), (3, Kd_channel)]"
  show "sound ?d"
  proof (cases "c_workflows ?d = c_workflows d \<and> c_steps ?d = c_steps d")
    case True
    moreover have "c_transitions ?d = c_transitions d" by (simp add: create_for_owner_def Let_def)
    ultimately show ?thesis using s sound_tables by blast
  next
    case False
    then obtain w where w: "c_workflows ?d = c_workflows d @ [w]" "c_steps ?d = c_steps d @ ?new" "wfl_id w = ae_uuid E 2 d"
        "wfl_state w = Wf_profile_required" "wfl_version w = 0" "ae_uuid E 2 d \<notin> wfl_id ` set (c_workflows d)"
      and t: "c_transitions ?d = c_transitions d"
      by (simp add: create_for_owner_def Let_def split: if_splits)
    have o: "one_row_each d" "in_order d" "journalled d" using s by (simp_all add: sound_def)
    have fresh: "stp_workflow x \<noteq> ae_uuid E 2 d" if "x \<in> set (c_steps d)" for x
      using o(1) w(6) that unfolding one_row_each_def by metis
    have "one_row_each ?d"
      using o(1) w(3,6) fresh unfolding one_row_each_def w(1,2) by (auto simp: first_step_def)
    moreover have "in_order ?d"
    proof -
      have "verified_at i k ?d" if "verified_at i k d" for i k using that by (auto simp: verified_at_def w(2))
      then show ?thesis using o(2) unfolding in_order_def w(2) by (auto simp: first_step_def opened_def)
    qed
    moreover have "journalled ?d"
    proof -
      have "journal_of (wfl_id w) d = []"
        using o(3) w(3,6) unfolding journalled_def journal_of_def filter_empty_conv by metis
      then show ?thesis using o(3) w(4,5) unfolding journalled_def w(1) t by (simp add: journal_of_def t history_of_def)
    qed
    ultimately show ?thesis by (simp add: sound_def)
  qed
qed

interpretation onboarding: auth_contract "\<lambda>d d'. sound d \<longrightarrow> sound d'" E for E :: auth_env
  by unfold_locales
    (blast | (rule impI, rule create_for_owner_sound, assumption)
      | (rule impI, erule sound_tables [THEN iffD2, rotated -1];
         simp add: issue_token_def consume_token_in_def create_verified_def create_session_def authenticate_session_def revoke_session_def
           revoke_account_sessions_def rate_check_def save_household_profile_def set_status_def Let_def split: sum.split option.split))+

end
