(* ===== verification/OnboardingSamples.thy ===== *)
theory OnboardingSamples
  imports OnboardingLaws AccountLaws
begin

text \<open>
  A service and the start of a household, on which the properties of the onboarding are instantiated.
\<close>

definition sample_onb :: onb_env where
  "sample_onb = \<lparr>oe_auth = sample_auth, oe_jobs = \<lparr>je_uuid = (\<lambda>d. replicate (length (c_jobs d)) (CHR ''j'')), je_sha = (\<lambda>j. ''sha'')\<rparr>,
     oe_mail = None, oe_uuid = (\<lambda>d. replicate (length (c_transitions d)) (CHR ''t'')), oe_sha = (\<lambda>j. ''sha''),
     oe_text_sha = (\<lambda>p. replicate 64 (CHR ''a'')), oe_getenv = (\<lambda>n. None), oe_valid = (\<lambda>k j. Some j), oe_synthetic = True,
     oe_runtime_provider = ''fake-runtime'', oe_email_provider = ''fake-email'', oe_gmail_provider = ''google-oauth'',
     oe_byo_provider = ''nerve-byo-domain'', oe_real_email = False, oe_allowlist = [], oe_all_households = False,
     oe_gmail_allowed = None\<rparr>"

definition sample_context :: "string \<Rightarrow> nat \<Rightarrow> command_context" where
  "sample_context key version = \<lparr>cmx_account = ''a1'', cmx_session = ''s1'', cmx_request = ''r1'', cmx_key = key, cmx_expected = version\<rparr>"

definition sample_profile :: profile_input where
  "sample_profile = \<lparr>pin_first = ''O'', pin_last = ''P'', pin_language = ''de'', pin_timezone = ''Europe/Berlin'',
     pin_country = ''DE'', pin_residency = ''eu-app''\<rparr>"

definition sample_start :: cpdb where "sample_start = empty_cpdb\<lparr>c_accounts := [sample_account]\<rparr>"

text \<open>After the household is created, and after its profile is saved.\<close>

definition sample_draft_house :: cp_household where
  "sample_draft_house = \<lparr>ch_id = ''iu'', ch_status = ''draft'', ch_revision = 0, ch_runtime_ref = None, ch_created_at = 7,
     ch_updated_at = 7, ch_deleted_at = None, ch_slug = ''iu'', ch_language = None, ch_timezone = None, ch_country = None,
     ch_residency = ''eu-app''\<rparr>"

definition sample_workflow :: cp_workflow where
  "sample_workflow = \<lparr>wfl_id = ''iuu'', wfl_household = ''iu'', wfl_state = Wf_profile_required, wfl_step = Kd_profile,
     wfl_version = 0, wfl_created_at = 7, wfl_updated_at = 7, wfl_completed_at = None\<rparr>"

definition sample_steps :: "cp_step list" where
  "sample_steps = map (first_step ''iuu'' 7) [(0, Kd_profile), (1, Kd_email), (2, Kd_whatsapp), (3, Kd_channel)]"

definition sample_reply :: cp_idempotency where
  "sample_reply = \<lparr>idm_account = ''a1'', idm_route = household_route, idm_key = ''k0'', idm_sha = ''sha'',
     idm_body = Rb_household \<lparr>pay_id = ''iu'', pay_slug = ''iu'', pay_status = ''draft'', pay_version = 0, pay_created = True\<rparr>,
     idm_created_at = 7, idm_expires_at = 7 + idempotency_ttl\<rparr>"

definition sample_draft :: cpdb where
  "sample_draft = sample_start\<lparr>c_households := [sample_draft_house],
     c_memberships := [\<lparr>cm_account = ''a1'', cm_household = ''iu'', cm_role = ''owner'', cm_status = ''active'', cm_created_at = 7\<rparr>],
     c_workflows := [sample_workflow], c_steps := sample_steps, c_replies := [sample_reply]\<rparr>"

lemma sample_draft_created: "snd (create_idempotent sample_auth ''a1'' ''k0'' 0 7 sample_start) = sample_draft"
  by (simp add: create_idempotent_def write_tx_def create_idempotent_in_def answer_household_def converge_household_def
      create_for_owner_def Let_def sample_start_def sample_auth_def for_account_def accounts_get_def tbl_get_Cons sample_account_def
      sample_draft_def sample_draft_house_def sample_workflow_def sample_steps_def sample_reply_def empty_cpdb_def numeral_2_eq_2)

lemma sample_saved:
  "\<exists>s d. onb_save_profile sample_onb (sample_context ''k1'' 0) ''iu'' sample_profile 8 sample_draft = (Inr (s, False), d) \<and>
     map stp_kind (c_steps d) = [Kd_profile, Kd_email, Kd_whatsapp, Kd_channel] \<and>
     map stp_status (c_steps d) = [St_verified, St_available, St_locked, St_locked] \<and>
     map stp_workflow (c_steps d) = [''iuu'', ''iuu'', ''iuu'', ''iuu''] \<and>
     map wfl_id (c_workflows d) = [''iuu''] \<and> map wfl_version (c_workflows d) = [1] \<and> map wfl_state (c_workflows d) = [Wf_in_progress]"
  by (simp add: onb_save_profile_def run_command_def write_tx_def andthen_def Onboarding.replay_def Let_def found_def answer_def
      edit_def demand_def raising_def
      save_profile_body_def check_version_def current_row_def advance_def queue_def finish_command_def put_workflow_def put_step_def
      remember_def scoped_workflow_def step_row_def next_status_def transitions_def provider_transitions_def
      save_household_profile_def households_get_def active_in_def tbl_get_Cons tbl_update_def put_profile_def
      jobs_create_def job_kinds_def namespace_request_def job_row_def snapshot_def workflow_for_household_def append_transition_def transition_row_def
      same_command_def key_of_def household_route_def profile_route_def
      sample_onb_def sample_context_def sample_profile_def sample_draft_def sample_start_def sample_auth_def
      sample_draft_house_def sample_workflow_def sample_steps_def first_step_def sample_reply_def empty_cpdb_def)

lemma sample_cancelled:
  "\<exists>s d. onb_cancel sample_onb (sample_context ''k2'' 0) ''iu'' 9 sample_draft = (Inr (s, False), d)"
  by (simp add: onb_cancel_def run_command_def write_tx_def andthen_def Onboarding.replay_def Let_def found_def answer_def
      edit_def demand_def cancel_body_def check_version_def finish_command_def put_workflow_def schedule_cleanup_def to_clean_def
      remember_def scoped_workflow_def active_in_def snapshot_def workflow_for_household_def append_transition_def transition_row_def
      supersede_unsettled_jobs_def drop_mailbox_def revoke_configs_def revoke_bootstraps_def unserve_household_def tbl_update_def
      same_command_def household_route_def sample_onb_def sample_context_def sample_draft_def sample_start_def
      sample_draft_house_def sample_workflow_def sample_reply_def empty_cpdb_def)

end
