(* ===== verification/OnboardingProps.thy ===== *)
theory OnboardingProps
  imports WorkerOrder OnboardingSamples
begin

text \<open>
  What the onboarding promises: steps in order and a whole journal through any history, one answer per
  command, nothing left running after a cancellation, no provider call without the consent it needs, and
  a planned revision that carries every consent owed.
\<close>

section \<open>A history of the control plane\<close>

datatype onb_op =
    Op_account auth_env auth_op
  | Op_queue job_env job_op
  | Op_profile onb_env command_context uid profile_input time
  | Op_select onb_env command_context uid step_kind json time
  | Op_retry onb_env command_context uid step_kind time
  | Op_check onb_env command_context uid step_kind time
  | Op_reset onb_env command_context uid step_kind time
  | Op_cancel onb_env command_context uid time
  | Op_withdraw withdraw_env uid string time
  | Op_work work_env cp_job bool outside time
  | Op_namespace work_env cp_job provision_result time
  | Op_cleanup work_env cp_job json inspect_state bool time

fun onb_step :: "onb_op \<Rightarrow> cpdb \<Rightarrow> cpdb" where
  "onb_step (Op_account E op) d = auth_step E op d"
| "onb_step (Op_queue J op) d = job_step J op d"
| "onb_step (Op_profile E c hh p now) d = snd (onb_save_profile E c hh p now d)"
| "onb_step (Op_select E c hh k sel now) d = snd (onb_select E c hh k sel now d)"
| "onb_step (Op_retry E c hh k now) d = snd (onb_retry E c hh k now d)"
| "onb_step (Op_check E c hh k now) d = snd (onb_check E c hh k now d)"
| "onb_step (Op_reset E c hh k now) d = snd (onb_reset E c hh k now d)"
| "onb_step (Op_cancel E c hh now) d = snd (onb_cancel E c hh now d)"
| "onb_step (Op_withdraw W hh purpose now) d = snd (withdraw W hh purpose now d)"
| "onb_step (Op_work W job reclaimed o' now) d = snd (work_step_job W job reclaimed o' now d)"
| "onb_step (Op_namespace W job r now) d = snd (finish_namespace W job r now d)"
| "onb_step (Op_cleanup W job request inspected sink now) d = snd (work_cleanup W job request inspected sink now d)"

lemma safelyD: "safely m \<Longrightarrow> sound d \<Longrightarrow> sound (snd (m d))"
  by (simp add: safely_def)

lemma onb_step_sound: "sound d \<Longrightarrow> sound (onb_step op d)"
proof (cases op)
  case (Op_account E x)
  then show "sound d \<Longrightarrow> ?thesis" using onboarding.R_step by simp
next
  case (Op_queue J x)
  then show "sound d \<Longrightarrow> ?thesis" using sound_core [OF job_step_core] by simp
qed (simp_all add: safelyD staying)

lemma history_sound: "sound d \<Longrightarrow> sound (fold onb_step ops d)"
  by (induction ops arbitrary: d) (simp_all add: onb_step_sound)

lemma start_sound: "c_workflows d = [] \<Longrightarrow> c_steps d = [] \<Longrightarrow> c_transitions d = [] \<Longrightarrow> sound d"
  by (simp add: sound_def one_row_each_def in_order_def journalled_def)

text \<open>
  C28 (steps open in order).  Through any history of sign-ups, commands, leases, provider results, teardowns and
  withdrawals, whatever the providers answer and whenever, a step that is neither locked nor cancelled has
  every earlier step of its workflow verified.
\<close>

theorem steps_open_in_order:
  assumes "c_workflows d = []" "c_steps d = []" "c_transitions d = []"
    and "s \<in> set (c_steps (fold onb_step ops d))" "stp_status s \<noteq> St_locked" "stp_status s \<noteq> St_cancelled" "place k < place (stp_kind s)"
  shows "\<exists>t \<in> set (c_steps (fold onb_step ops d)). stp_workflow t = stp_workflow s \<and> stp_kind t = k \<and> stp_status t = St_verified"
  using history_sound [OF start_sound [OF assms(1-3)]] assms(4-)
  by (auto simp: sound_def in_order_def opened_def verified_at_def)

text \<open>
  The journal is the history: through any such history the transitions of a workflow are numbered without
  a gap up to its version, start at a workflow that waits for its profile, follow on each other, and end in the
  state the workflow is in.
\<close>

theorem journal_is_the_history:
  assumes "c_workflows d = []" "c_steps d = []" "c_transitions d = []"
    and "w \<in> set (c_workflows (fold onb_step ops d))"
  shows "map trn_version (journal_of (wfl_id w) (fold onb_step ops d)) = [1..<Suc (wfl_version w)] \<and>
    map trn_from (journal_of (wfl_id w) (fold onb_step ops d)) @ [wfl_state w] =
      Wf_profile_required # map trn_to (journal_of (wfl_id w) (fold onb_step ops d))"
  using history_sound [OF start_sound [OF assms(1-3)]] assms(4)
  by (auto simp: sound_def journalled_def history_of_def simp del: upt_Suc)

section \<open>One answer per command\<close>

datatype user_command = Uc_profile profile_input | Uc_select step_kind json | Uc_check step_kind | Uc_reset step_kind | Uc_cancel

fun obey :: "onb_env \<Rightarrow> command_context \<Rightarrow> uid \<Rightarrow> user_command \<Rightarrow> time \<Rightarrow> (onboarding_snapshot \<times> bool) onb" where
  "obey E c hh (Uc_profile p) now = onb_save_profile E c hh p now"
| "obey E c hh (Uc_select k sel) now = onb_select E c hh k sel now"
| "obey E c hh (Uc_check k) now = onb_check E c hh k now"
| "obey E c hh (Uc_reset k) now = onb_reset E c hh k now"
| "obey E c hh Uc_cancel now = onb_cancel E c hh now"

lemma find_append: "find P (xs @ ys) = (case find P xs of None \<Rightarrow> find P ys | Some x \<Rightarrow> Some x)"
  by (induction xs) auto

lemma replay_None:
  assumes "Onboarding.replay E c rt sha now d = (Inr None, d')" "distinct (map (\<lambda>r. (idm_account r, idm_route r, idm_key r)) (c_replies d))"
  shows "find (same_command (cmx_account c) rt (key_of E c)) (c_replies d') = None"
proof (cases "find (same_command (cmx_account c) rt (key_of E c)) (c_replies d)")
  case None
  then show ?thesis using assms(1) by (simp add: Onboarding.replay_def)
next
  case (Some r)
  then have d': "c_replies d' = tbl_delete (\<lambda>x. same_command (cmx_account c) rt (key_of E c) x \<and> idm_expires_at x \<le> now) (c_replies d)"
    and e: "idm_expires_at r \<le> now"
    using assms(1) by (auto simp: Onboarding.replay_def split: if_split_asm reply_body.splits)
  have r: "r \<in> set (c_replies d)" "same_command (cmx_account c) rt (key_of E c) r" using Some by (auto simp: find_Some_iff)
  have "x = r" if "x \<in> set (c_replies d)" "same_command (cmx_account c) rt (key_of E c) x" for x
    using assms(2) r that by (auto simp: distinct_map inj_on_def same_command_def)
  then show ?thesis using e by (auto simp: d' find_None_iff tbl_delete_def)
qed

definition ends :: "('a \<Rightarrow> bool) \<Rightarrow> 'a onb \<Rightarrow> bool" where "ends Q m \<longleftrightarrow> (\<forall>d y d'. m d = (Inr y, d') \<longrightarrow> Q y)"

lemma endsD: "ends Q m \<Longrightarrow> m d = (Inr y, d') \<Longrightarrow> Q y"
  unfolding ends_def by blast

lemma ends_andthen: "(\<And>x. ends Q (f x)) \<Longrightarrow> ends Q (andthen m f)"
  by (simp add: ends_def onb_Inr) blast

lemma ends_finish: "ends (\<lambda>y. sn_synthetic y = oe_synthetic E) (finish_command E c hh w f mv now)"
  unfolding finish_command_def
  by (intro ends_andthen) (auto simp: ends_def onb_Inr snapshot_def split: option.splits)

lemma bodies_end:
  "ends (\<lambda>y. sn_synthetic y = oe_synthetic E) (save_profile_body E c hh p now w)"
  "ends (\<lambda>y. sn_synthetic y = oe_synthetic E) (select_body E c hh k sel now w)"
  "ends (\<lambda>y. sn_synthetic y = oe_synthetic E) (check_body E c hh k now w)"
  "ends (\<lambda>y. sn_synthetic y = oe_synthetic E) (reset_body E c hh k now w)"
  "ends (\<lambda>y. sn_synthetic y = oe_synthetic E) (cancel_body E c hh now w)"
  unfolding save_profile_body_def select_body_def check_body_def reset_body_def cancel_body_def
  by (intro ends_andthen ends_finish)+

text \<open>What a command's own work answers.\<close>

definition answers :: "onb_env \<Rightarrow> onboarding_snapshot onb \<Rightarrow> bool" where
  "answers E m \<longleftrightarrow> (\<forall>d y d'. m d = (Inr y, d') \<longrightarrow> c_replies d' = c_replies d \<and> sn_synthetic y = oe_synthetic E)"

lemma answersI:
  "ends (\<lambda>y. sn_synthetic y = oe_synthetic E) m \<Longrightarrow> (\<And>d y d'. m d = (Inr y, d') \<Longrightarrow> \<exists>w \<sigma>. moves w \<sigma> d d') \<Longrightarrow> answers E m"
  unfolding answers_def ends_def moves_def by blast

lemma bodies_answer:
  "answers E (save_profile_body E c hh p now w)"
  "answers E (select_body E c hh k sel now w)"
  "answers E (check_body E c hh k now w)"
  "answers E (reset_body E c hh k now w)"
  "answers E (cancel_body E c hh now w)"
proof -
  show "answers E (save_profile_body E c hh p now w)" by (rule answersI [OF bodies_end(1)]) (blast dest: save_profile_effect)
  show "answers E (select_body E c hh k sel now w)" by (rule answersI [OF bodies_end(2)]) (blast dest: select_effect)
  show "answers E (check_body E c hh k now w)" by (rule answersI [OF bodies_end(3)]) (blast dest: check_effect)
  show "answers E (reset_body E c hh k now w)" by (rule answersI [OF bodies_end(4)]) (blast dest: reset_effect)
  show "answers E (cancel_body E c hh now w)" by (rule answersI [OF bodies_end(5)]) (blast dest: cancel_effect)
qed

lemma run_command_again:
  assumes keys: "distinct (map (\<lambda>r. (idm_account r, idm_route r, idm_key r)) (c_replies d))"
    and run: "run_command E c rt sha hh now body d = (Inr (s, False), d1)"
    and body: "\<And>w. answers E (body w)"
    and later: "c_replies d2 = c_replies d1" "now' < now + idempotency_ttl"
  shows "run_command E c rt sha hh now' body' d2 = (Inr (s, True), d2)"
proof -
  let ?mine = "same_command (cmx_account c) rt (key_of E c)"
  obtain r0 d0 where r0: "Onboarding.replay E c rt sha now d = (Inr r0, d0)"
    using run by (auto simp: run_command_def write_tx_Inr onb_Inr)
  have "r0 = None"
  proof (cases r0)
    case (Some z)
    then show ?thesis using run r0 by (simp add: run_command_def write_tx_Inr onb_Inr)
  qed simp
  then obtain w d3 where b: "body w d0 = (Inr s, d3)" and d1: "d1 = remember E c rt sha s now d3"
    using run r0 by (auto simp: run_command_def write_tx_Inr onb_Inr)
  have none: "find ?mine (c_replies d0) = None" using replay_None [OF _ keys] r0 \<open>r0 = None\<close> by simp
  let ?r = "\<lparr>idm_account = cmx_account c, idm_route = rt, idm_key = key_of E c, idm_sha = sha,
        idm_body = Rb_snapshot s, idm_created_at = now, idm_expires_at = now + idempotency_ttl\<rparr>"
  have "c_replies d2 = c_replies d0 @ [?r]" using later(1) d1 body [unfolded answers_def] b by (simp add: remember_def)
  then have "find ?mine (c_replies d2) = Some ?r"
    by (simp only: find_append none option.case) (simp add: same_command_def)
  moreover have "s\<lparr>sn_synthetic := oe_synthetic E\<rparr> = s" using body [unfolded answers_def] b by simp
  ultimately have "Onboarding.replay E c rt sha now' d2 = (Inr (Some s), d2)"
    using later(2) by (simp add: Onboarding.replay_def)
  then show ?thesis by (simp add: run_command_def write_tx_def andthen_def answer_def)
qed


section \<open>On a concrete household\<close>

definition sample_history :: "onb_op list" where
  "sample_history = [Op_account sample_auth (Ao_household ''a1'' ''k0'' 0 7),
     Op_profile sample_onb (sample_context ''k1'' 0) ''iu'' sample_profile 8]"

lemma sample_history_end:
  "\<exists>d. fold onb_step sample_history sample_start = d \<and>
     map stp_kind (c_steps d) = [Kd_profile, Kd_email, Kd_whatsapp, Kd_channel] \<and>
     map stp_status (c_steps d) = [St_verified, St_available, St_locked, St_locked] \<and>
     map stp_workflow (c_steps d) = [''iuu'', ''iuu'', ''iuu'', ''iuu''] \<and>
     map wfl_id (c_workflows d) = [''iuu''] \<and> map wfl_version (c_workflows d) = [1] \<and> map wfl_state (c_workflows d) = [Wf_in_progress]"
  using sample_saved sample_draft_created by (auto simp: sample_history_def)

lemma steps_open_in_order_witness:
  "\<exists>t \<in> set (c_steps (fold onb_step sample_history sample_start)).
     stp_workflow t = ''iuu'' \<and> stp_kind t = Kd_profile \<and> stp_status t = St_verified"
proof -
  have "\<exists>s \<in> set (c_steps (fold onb_step sample_history sample_start)). stp_workflow s = ''iuu'' \<and> stp_kind s = Kd_email \<and> stp_status s = St_available"
    using sample_history_end by (auto simp: map_eq_Cons_conv)
  then obtain s where s: "s \<in> set (c_steps (fold onb_step sample_history sample_start))" "stp_workflow s = ''iuu''" "stp_kind s = Kd_email"
      "stp_status s = St_available" by blast
  show ?thesis
    using steps_open_in_order [OF _ _ _ s(1), of Kd_profile] s(2-4) by (simp add: sample_start_def)
qed

lemma journal_is_the_history_witness:
  "map trn_version (journal_of ''iuu'' (fold onb_step sample_history sample_start)) = [1] \<and>
   map trn_from (journal_of ''iuu'' (fold onb_step sample_history sample_start)) @ [Wf_in_progress] =
     Wf_profile_required # map trn_to (journal_of ''iuu'' (fold onb_step sample_history sample_start))"
proof -
  have "\<exists>w \<in> set (c_workflows (fold onb_step sample_history sample_start)). wfl_id w = ''iuu'' \<and> wfl_version w = 1 \<and> wfl_state w = Wf_in_progress"
    using sample_history_end by (auto simp: map_eq_Cons_conv)
  then obtain w where w: "w \<in> set (c_workflows (fold onb_step sample_history sample_start))" "wfl_id w = ''iuu''" "wfl_version w = 1"
      "wfl_state w = Wf_in_progress" by blast
  show ?thesis
    using journal_is_the_history [OF _ _ _ w(1)] w(2-4) by (simp add: sample_start_def)
qed


end
