(* ===== verification/OnboardingEnds.thy ===== *)
theory OnboardingEnds
  imports OnboardingSamples
begin

text \<open>
  How the onboarding stops: what a cancellation and a withdrawal leave behind, what happens to a provider's
  result that nobody wants any more, the consent a provider call needs, and what a planned revision carries.
\<close>

section \<open>The consent a call needs\<close>

lemma mark_problem_jobs [keeping]: "keeps c_jobs (raising Ob_email (mark_problem i st now))"
  by (rule keeps_raising) (auto simp: mark_problem_def move_email_def split: if_splits option.splits)

lemma edits_jobs:
  "c_jobs (snd (finish_disconnect i now d)) = c_jobs d" "c_jobs (snd (retire_staged_members hh d)) = c_jobs d"
  "c_jobs (restore_settled_household j now d) = c_jobs d" "c_jobs (project_problem wid k st code public now d) = c_jobs d"
  "c_jobs (set_resource i rs now d) = c_jobs d"
  by (auto simp: finish_disconnect_def move_email_def retire_staged_members_def restore_settled_household_def project_problem_def put_step_def
      set_resource_def Let_def split: option.splits if_splits)

lemma apply_problem_jobs:
  assumes "apply_problem W job request status code public None now d = (Inr x, d')" "status \<noteq> Jb_waiting_user"
  shows "\<exists>d1. settle (jb_id job) status None None (Some code) now d = (Inr (), d1) \<and> c_jobs d' = c_jobs d1"
proof -
  have mail: "keeps c_jobs (case request_mailbox W job request of None \<Rightarrow> answer ()
      | Some i \<Rightarrow> andthen (raising Ob_email (mark_problem i (problem_mail status) now)) (\<lambda>u. edit (\<lambda>d. snd (finish_disconnect i now d))))"
    by (auto split: option.split intro!: keeping simp: edits_jobs)
  obtain d1 d2 where s: "settle (jb_id job) status None None (Some code) now d = (Inr (), d1)"
    and m: "(case request_mailbox W job request of None \<Rightarrow> answer ()
      | Some i \<Rightarrow> andthen (raising Ob_email (mark_problem i (problem_mail status) now)) (\<lambda>u. edit (\<lambda>d. snd (finish_disconnect i now d)))) d1 = (Inr (), d2)"
    and r: "c_jobs d' = c_jobs d2"
    using assms by (auto simp: apply_problem_def settle_problem_def onb_Inr edits_jobs str_or_none_def split: option.splits)
  then show ?thesis using keepsD [OF mail m] by auto
qed

lemma settle_get:
  "settle i status result ref code now d = (Inr (), d') \<Longrightarrow> jobs_get i d = Some r \<Longrightarrow>
   jobs_get i d' = Some (settle_job status result ref code now r)"
  using tbl_get_SomeD [of jb_id i "c_jobs d" r]
  by (auto simp: settle_def onb_Inr jobs_settle_def on_job_def jobs_get_def tbl_get_update settle_job_def)

text \<open>
  C30 (no call without the consent).  A job that brings real mail to a household which lacks a receipt the job
  needs fails with that reason, whatever the providers would answer: no answer of theirs has any effect.
\<close>

theorem no_call_without_consent:
  assumes "jobs_get (jb_id job) d = Some cur" "jb_status cur = Jb_running" "\<not> requires_reconciliation (jb_error cur)"
    and "jb_kind job = ''email_identity''" "processes_real_content (Some (jb_provider job))" "jb_operation job = ''ensure''"
    and "p \<in> {restriction_purpose, content_purpose}" "\<not> current_receipt (wk_onb W) (jb_household job) p d"
    and "work_step_job W job reclaimed o1 now d = (Inr res, d')"
  shows "work_step_job W job reclaimed o2 now d = (Inr res, d') \<and> res = result_of (jb_id job) Jb_failed (Some receipt_code) \<and>
    (\<exists>j. jobs_get (jb_id job) d' = Some j \<and> jb_status j = Jb_failed \<and> jb_error j = Some receipt_code)"
proof -
  have need: "p \<in> set (required_consents job d)" using assms(4,5,7) by (auto simp: required_consents_def)
  then have "missing_consent W job d \<noteq> None" using assms(8) by (auto simp: missing_consent_def find_None_iff)
  moreover have "requires_content_restriction job"
    using assms(4,5) by (auto simp: requires_content_restriction_def processes_real_content_def synthetic_email_providers_def str_or_none_def split: if_splits)
  moreover have "\<not> is_shutdown_action job d" using assms(1,3,6) by (simp add: is_shutdown_action_def job_code_def)
  ultimately have run: "work_step_job W job reclaimed o' now d = mark_step_problem W job (jb_request cur) Jb_failed receipt_code (JObj []) None now d" for o'
    using assms(1,4)
    by (auto simp: work_step_job_def gate_def block_for_missing_consent_def andthen_def found_def answer_def split: prod.splits sum.splits)
  have "apply_problem W job (jb_request cur) Jb_failed receipt_code (JObj []) None now d = (Inr res, d')"
    using assms(1,2,9) run by (simp add: mark_step_problem_def write_tx_Inr)
  moreover from this have "res = result_of (jb_id job) Jb_failed (Some receipt_code)"
    by (simp add: apply_problem_def onb_Inr) blast
  moreover obtain d1 where "settle (jb_id job) Jb_failed None None (Some receipt_code) now d = (Inr (), d1)" "c_jobs d' = c_jobs d1"
    using apply_problem_jobs [OF calculation(1)] by auto
  then have "jobs_get (jb_id job) d' = Some (settle_job Jb_failed None None (Some receipt_code) now cur)"
    using settle_get [OF _ assms(1)] by (simp add: jobs_get_def)
  moreover have "work_step_job W job reclaimed o2 now d = (Inr res, d')" using run [of o1] run [of o2] assms(9) by simp
  ultimately show ?thesis by (simp add: settle_job_def)
qed

section \<open>A planned revision\<close>

lemma standing_current: "receipt_is_current E hh d p \<Longrightarrow> current_receipt E hh p d"
proof -
  assume h: "receipt_is_current E hh d p"
  then obtain r rs where r: "rev (sort_key receipt_order (filter (\<lambda>r. rct_household r = Some hh \<and> rct_revoked_at r = None \<and> rct_purpose r = p)
      (c_receipts d))) = r # rs" and t: "rct_version r = consent_version p" "rct_sha r = oe_text_sha E p"
    by (auto simp: receipt_is_current_def standing_receipt_def split: list.splits)
  have "r \<in> set (rev (sort_key receipt_order (filter (\<lambda>r. rct_household r = Some hh \<and> rct_revoked_at r = None \<and> rct_purpose r = p) (c_receipts d))))"
    by (simp only: r) simp
  then show ?thesis using t by (auto simp: current_receipt_def)
qed

lemma spec_json_fields:
  "jget (spec_json s) ''config_revision'' = JInt (int (sp_revision s))"
  "jget (jget (spec_json s) ''consent'') ''required_purposes'' = JArr (map JStr (sp_purposes s))"
  by (simp_all add: spec_json_def spec_fields_def jget_def dict_get_def)

lemma manifest_purposes_spec:
  assumes "set (sp_purposes s) \<subseteq> fst ` set consent_versions" "restriction_purpose \<in> set (sp_purposes s)"
  shows "manifest_purposes (spec_json s) = sp_purposes s"
proof -
  have "List.map_filter jstr (map JStr xs) = xs" for xs by (induction xs) (simp_all add: List.map_filter_def jstr_def)
  moreover have "filter (\<lambda>p. p \<in> fst ` set consent_versions) (sp_purposes s) = sp_purposes s"
    using assms(1) by (auto simp: filter_id_conv)
  ultimately show ?thesis using assms(2) unfolding manifest_purposes_def spec_json_fields Let_def by simp
qed

lemma plan_issue_shape:
  assumes "plan_issue P hh now d = (Inr (spec, cfg), d')"
  shows "\<exists>w d2 s0 h (a :: cp_account) bound. workflow_for_household hh d = Some w \<and> unverified_refusal (wfl_id w) d = None \<and>
      plan_refusal P hh (wfl_id w) d = None \<and> spec = with_hash P s0 \<and> spec_valid P s0 \<and>
      create_revision (pe_uuid P) hh (Suc 0) (spec_json (with_hash P s0)) (sp_sha (with_hash P s0)) now d2 = (Inr cfg, d') \<and>
      s0 = desired_spec h (step_result (wfl_id w) Kd_email d) (step_result (wfl_id w) Kd_whatsapp d)
        (step_result (wfl_id w) Kd_channel d) (whatsapp_selection (wfl_id w) d) (ac_email a) (Suc (last_revision hh d)) bound d2"
  using assms
  by (simp add: plan_issue_def onb_Inr) (elim exE conjE, intro exI conjI, assumption+, rule refl)


section \<open>Taking everything down\<close>

definition deleting :: "uid set \<Rightarrow> time \<Rightarrow> cp_resource list \<Rightarrow> cp_resource list" where
  "deleting ids now T = tbl_update (\<lambda>r. res_id r \<in> ids) (\<lambda>r. r\<lparr>res_status := Er_deleting, res_updated_at := now\<rparr>) T"

lemma queue_resources: "queue E q now d = (Inr j, d') \<Longrightarrow> c_resources d' = c_resources d"
  using arg_cong [OF jobs_create_frame, of "oe_jobs E" q now d "Inr j" d' c_resources] by (auto simp: queue_def onb_Inr)

lemma queue_cleanups_resources:
  "queue_cleanups E hh wid v mail wt now n rs d = (Inr js, d') \<Longrightarrow> c_resources d' = deleting (res_id ` set rs) now (c_resources d)"
proof (induction rs arbitrary: n js d)
  case Nil
  then show ?case by (simp add: onb_Inr deleting_def tbl_update_def)
next
  case (Cons r rs)
  obtain j d1 js' where q: "queue E (cleanup_request hh wid v mail wt r) (now + real n * 0.000001) d = (Inr j, d1)"
    and c: "queue_cleanups E hh wid v mail wt now (Suc n) rs (mark_deleting (res_id r) now d1) = (Inr js', d')"
    using Cons.prems by (auto simp: onb_Inr)
  show ?case
    using Cons.IH [OF c] queue_resources [OF q] by (simp add: mark_deleting_def deleting_def tbl_update_def)
qed

lemma schedule_cleanup_resources:
  assumes "schedule_cleanup E hh wid v types now d = (Inr js, d')" "r \<in> set (c_resources d')" "res_household r = hh"
    "case types of None \<Rightarrow> True | Some ts \<Rightarrow> res_type r \<in> set ts"
  shows "\<not> live_resource (res_status r)"
proof -
  have e: "c_resources d' = deleting (res_id ` set (to_clean hh types d)) now (c_resources d)"
    using assms(1) queue_cleanups_resources by (auto simp: schedule_cleanup_def)
  then obtain x where x: "x \<in> set (c_resources d)"
      "r = (if res_id x \<in> res_id ` set (to_clean hh types d) then x\<lparr>res_status := Er_deleting, res_updated_at := now\<rparr> else x)"
    using assms(2) by (auto simp: deleting_def set_tbl_update)
  show ?thesis
  proof (cases "res_id x \<in> res_id ` set (to_clean hh types d)")
    case True
    then show ?thesis using x(2) by (simp add: live_resource_def)
  next
    case False
    then have "x \<notin> set (to_clean hh types d)" by blast
    then show ?thesis using False x assms(3,4) by (auto simp: to_clean_def)
  qed
qed

text \<open>The teardown of a resource is queued, under the version it belongs to.\<close>

definition teardown_queued :: "uid \<Rightarrow> nat \<Rightarrow> cpdb \<Rightarrow> cp_resource \<Rightarrow> bool" where
  "teardown_queued hh version d r \<longleftrightarrow>
     (\<exists>j \<in> set (c_jobs d). jb_intent j = intent [hh, ''cleanup'', res_id r, nat_digits version])"

lemma created_intent:
  assumes "jobs_create J q now d = (Inr x, d')"
  shows "\<exists>j \<in> set (c_jobs d'). jb_id j = fst x \<and> jb_intent j = jq_intent q" "set (c_jobs d) \<subseteq> set (c_jobs d')"
proof -
  note r = assms [unfolded jobs_create_def Let_def]
  show "\<exists>j \<in> set (c_jobs d'). jb_id j = fst x \<and> jb_intent j = jq_intent q"
  proof (cases "find (\<lambda>r. jb_intent r = jq_intent q) (c_jobs d)")
    case (Some y)
    then have "y \<in> set (c_jobs d)" "jb_intent y = jq_intent q" using find_Some_mem by fast+
    then show ?thesis using r Some by auto
  qed (use r in \<open>auto simp: job_row_def split: if_splits\<close>)
  show "set (c_jobs d) \<subseteq> set (c_jobs d')" using r by (auto split: option.splits if_splits)
qed

lemma teardown_queued_mono: "set (c_jobs d) \<subseteq> set (c_jobs d') \<Longrightarrow> teardown_queued hh v d r \<Longrightarrow> teardown_queued hh v d' r"
  unfolding teardown_queued_def by blast

lemma queue_cleanups_queues:
  "queue_cleanups E hh wid v mail wt now n rs d = (Inr js, d') \<Longrightarrow>
   set (c_jobs d) \<subseteq> set (c_jobs d') \<and> list_all (teardown_queued hh v d') rs"
proof (induction rs arbitrary: n js d)
  case (Cons r rs)
  obtain j d1 js' where q: "jobs_create (oe_jobs E) (cleanup_request hh wid v mail wt r) (now + real n * 0.000001) d = (Inr j, d1)"
    and c: "queue_cleanups E hh wid v mail wt now (Suc n) rs (mark_deleting (res_id r) now d1) = (Inr js', d')"
    using Cons.prems by (auto simp: onb_Inr queue_def)
  have "c_jobs (mark_deleting (res_id r) now d1) = c_jobs d1" by (simp add: mark_deleting_def)
  then have h: "set (c_jobs d1) \<subseteq> set (c_jobs d')" "list_all (teardown_queued hh v d') rs" using Cons.IH [OF c] by simp_all
  have "teardown_queued hh v d1 r" using created_intent(1) [OF q] by (auto simp: teardown_queued_def cleanup_request_def)
  then show ?case using h created_intent(2) [OF q] teardown_queued_mono by fastforce
qed (simp add: onb_Inr)

lemma schedule_cleanup_queues:
  assumes "schedule_cleanup E hh wid v types now d = (Inr js, d')" "r \<in> set (c_resources d)" "res_household r = hh" "live_resource (res_status r)"
    "case types of None \<Rightarrow> True | Some ts \<Rightarrow> res_type r \<in> set ts"
  shows "teardown_queued hh v d' r"
proof -
  have "r \<in> set (to_clean hh types d)" using assms(2-5) by (simp add: to_clean_def)
  then show ?thesis using queue_cleanups_queues [OF assms(1) [unfolded schedule_cleanup_def]] unfolding list_all_iff by blast
qed

lemma teardown_queued_supersede:
  assumes "teardown_queued hh v d r"
  shows "teardown_queued hh v (supersede_unsettled_jobs h reason kinds now d) r"
proof -
  have u: "jb_intent ` set (tbl_update P f T) = jb_intent ` set T" if "\<And>j. jb_intent (f j) = jb_intent j" for P f T
    unfolding set_tbl_update image_image using that by (intro image_cong) simp_all
  have "jb_intent ` set (c_jobs (supersede_unsettled_jobs h reason kinds now d)) = jb_intent ` set (c_jobs d)"
    by (simp add: supersede_unsettled_jobs_def u quarantine_row_def cancel_row_def)
  then show ?thesis using assms unfolding teardown_queued_def by (metis imageE imageI)
qed

lemma tbl_update_row: "x \<in> set (tbl_update P f T) \<Longrightarrow> \<exists>y \<in> set T. x = (if P y then f y else y)"
  unfolding set_tbl_update by blast

lemma superseded_jobs:
  assumes "j \<in> set (c_jobs (supersede_unsettled_jobs hh reason kinds now d))" "supersedable hh kinds j"
    "jb_status j \<in> {Jb_pending, Jb_running, Jb_waiting_user}"
  shows "like_reconciliation (jb_error j)"
proof -
  let ?f = "\<lambda>r. (cancel_row now r)\<lparr>jb_error := Some (reason @ ''_before_provider_call'')\<rparr>"
  let ?Q = "\<lambda>r. supersedable hh kinds r \<and> jb_status r \<in> {Jb_running, Jb_waiting_user, Jb_outcome_unknown} \<and> \<not> like_reconciliation (jb_error r)"
  let ?P = "\<lambda>r. supersedable hh kinds r \<and> jb_status r = Jb_pending"
  have jobs: "c_jobs (supersede_unsettled_jobs hh reason kinds now d) = tbl_update ?Q (quarantine_row reason now) (tbl_update ?P ?f (c_jobs d))"
    by (simp add: supersede_unsettled_jobs_def)
  obtain y where y1: "y \<in> set (tbl_update ?P ?f (c_jobs d))" and j: "j = (if ?Q y then quarantine_row reason now y else y)"
    using tbl_update_row [OF assms(1) [unfolded jobs]] by (elim bexE)
  obtain x where y: "y = (if ?P x then ?f x else x)"
    using tbl_update_row [OF y1] by (elim bexE)
  have "\<not> ?Q y" using j assms(3) by (cases "?Q y") (simp_all add: quarantine_row_def)
  then have e: "j = y" using j by (simp only: if_False)
  have n: "\<not> (supersedable hh kinds x \<and> jb_status x = Jb_pending)"
    using y assms(3) e by (cases "supersedable hh kinds x \<and> jb_status x = Jb_pending") (simp_all add: cancel_row_def)
  then have "y = x" using y by (simp only: if_False)
  then have "jb_status j \<noteq> Jb_pending" using n e assms(2) by blast
  then show ?thesis using assms(2,3) \<open>\<not> ?Q y\<close> e by blast
qed

definition rest :: "cpdb \<Rightarrow> cp_job list \<times> cp_resource list" where "rest d = (c_jobs d, c_resources d)"

lemma drop_mailbox_rest: "rest (drop_mailbox E hh now d) = rest d"
  by (simp add: rest_def drop_mailbox_def finish_safe_disconnect_def finish_disconnect_def begin_disconnect_def move_email_def Let_def
      split: option.split)

lemma tbl_update_all: "x \<in> set (tbl_update P f T) \<Longrightarrow> (\<And>y. y \<in> set T \<Longrightarrow> Q (if P y then f y else y)) \<Longrightarrow> Q x"
  unfolding set_tbl_update by blast

lemma revoke_configs_none:
  assumes "r \<in> set (c_configs (snd (revoke_configs ss hh d)))" "cfg_household r = hh" "Cf_revoked \<notin> set ss"
  shows "cfg_status r \<notin> set ss"
proof -
  have "r \<in> set (tbl_update (\<lambda>r. cfg_household r = hh \<and> cfg_status r \<in> set ss) (\<lambda>r. r\<lparr>cfg_status := Cf_revoked\<rparr>) (c_configs d))"
    using assms(1) by (simp add: revoke_configs_def Let_def)
  then have "cfg_household r = hh \<longrightarrow> cfg_status r \<notin> set ss"
    by (rule tbl_update_all) (simp add: assms(3))
  then show ?thesis using assms(2) by simp
qed

lemma revoke_bootstraps_none:
  assumes "r \<in> set (c_bootstraps (revoke_bootstraps hh now d))"
  shows "bts_household r = hh \<longrightarrow> bts_used_at r \<noteq> None \<or> bts_revoked_at r \<noteq> None"
  using assms unfolding revoke_bootstraps_def by simp (erule tbl_update_all, simp)

lemma unserve_household_all:
  assumes "h \<in> set (c_households (unserve_household status hh now d))"
  shows "ch_id h = hh \<longrightarrow> ch_status h = status \<and> ch_runtime_ref h = None"
  using assms unfolding unserve_household_def by simp (erule tbl_update_all, simp)

lemma later_tables:
  "c_configs (revoke_bootstraps hh now d) = c_configs d" "c_configs (unserve_household st hh now d) = c_configs d"
  "c_bootstraps (unserve_household st hh now d) = c_bootstraps d"
  "rest (unserve_household st hh now d) = rest d" "rest (revoke_bootstraps hh now d) = rest d" "rest (snd (revoke_configs ss hh d)) = rest d"
  "c_resources (supersede_unsettled_jobs hh reason kinds now d) = c_resources d"
  by (simp_all add: revoke_bootstraps_def unserve_household_def revoke_configs_def supersede_unsettled_jobs_def rest_def Let_def)

lemma finish_command_tables:
  "finish_command E c hh w f mv now d = (Inr y, d') \<Longrightarrow>
   rest d' = rest d \<and> c_configs d' = c_configs d \<and> c_bootstraps d' = c_bootstraps d \<and> c_households d' = c_households d"
  by (auto simp: finish_command_def onb_Inr put_workflow_def rest_def dest!: append_transition_effect)

text \<open>Nothing of the household runs, serves or can be claimed any more.\<close>

definition stopped :: "uid \<Rightarrow> cpdb \<Rightarrow> bool" where
  "stopped hh d \<longleftrightarrow>
     (\<forall>j \<in> set (c_jobs d). supersedable hh None j \<longrightarrow> jb_status j \<in> {Jb_pending, Jb_running, Jb_waiting_user} \<longrightarrow> like_reconciliation (jb_error j)) \<and>
     (\<forall>r \<in> set (c_resources d). res_household r = hh \<longrightarrow> \<not> live_resource (res_status r)) \<and>
     (\<forall>r \<in> set (c_configs d). cfg_household r = hh \<longrightarrow> cfg_status r \<notin> {Cf_planned, Cf_issued, Cf_claimed}) \<and>
     (\<forall>b \<in> set (c_bootstraps d). bts_household b = hh \<longrightarrow> bts_used_at b \<noteq> None \<or> bts_revoked_at b \<noteq> None) \<and>
     (\<forall>h \<in> set (c_households d). ch_id h = hh \<longrightarrow> ch_status h = ''draft'' \<and> ch_runtime_ref h = None)"

lemma cancel_stops:
  assumes "cancel_body E c hh now w d = (Inr y, d')"
  shows "stopped hh d'"
    "x \<in> set (c_resources d) \<Longrightarrow> res_household x = hh \<Longrightarrow> live_resource (res_status x) \<Longrightarrow> teardown_queued hh (cmx_expected c + 1) d' x"
proof -
  have version: "wfl_version w = cmx_expected c" using assms by (auto simp: cancel_body_def onb_Inr check_version_def)
  obtain js d1 mv where a: "schedule_cleanup E hh (wfl_id w) (wfl_version w + 1) None now d = (Inr js, d1)"
    and f: "finish_command E c hh w (\<lambda>x. x\<lparr>wfl_state := Wf_cancelled\<rparr>) mv now
       (unserve_household ''draft'' hh now (revoke_bootstraps hh now (snd (revoke_configs [Cf_planned, Cf_issued, Cf_claimed] hh
         ((\<lambda>d. d\<lparr>c_steps := tbl_update (\<lambda>s. stp_workflow s = wfl_id w \<and> stp_status s \<noteq> St_verified)
        (\<lambda>s. s\<lparr>stp_status := St_cancelled, stp_updated_at := now\<rparr>) (c_steps d)\<rparr>)
          (drop_mailbox E hh now (supersede_unsettled_jobs hh ''cancel'' None now d1))))))) = (Inr y, d')"
    using assms by (auto simp: cancel_body_def onb_Inr check_version_def)
  let ?d2 = "supersede_unsettled_jobs hh ''cancel'' None now d1"
  let ?d3 = "(\<lambda>d. d\<lparr>c_steps := tbl_update (\<lambda>s. stp_workflow s = wfl_id w \<and> stp_status s \<noteq> St_verified)
        (\<lambda>s. s\<lparr>stp_status := St_cancelled, stp_updated_at := now\<rparr>) (c_steps d)\<rparr>) (drop_mailbox E hh now ?d2)"
  let ?d4 = "snd (revoke_configs [Cf_planned, Cf_issued, Cf_claimed] hh ?d3)"
  let ?d5 = "revoke_bootstraps hh now ?d4"
  note t = finish_command_tables [OF f]
  have "rest ?d3 = rest ?d2" using drop_mailbox_rest [of E hh now ?d2] by (simp add: rest_def)
  then have r: "rest d' = rest ?d2" using t by (simp only: later_tables)
  have "\<not> live_resource (res_status x)" if "x \<in> set (c_resources d')" "res_household x = hh" for x
    using schedule_cleanup_resources [OF a, of x] r that by (simp add: rest_def later_tables)
  moreover have "like_reconciliation (jb_error j)"
    if "j \<in> set (c_jobs d')" "supersedable hh None j" "jb_status j \<in> {Jb_pending, Jb_running, Jb_waiting_user}" for j
    using superseded_jobs [of j hh "''cancel''" None now d1] r that by (simp add: rest_def)
  moreover have "cfg_status x \<notin> {Cf_planned, Cf_issued, Cf_claimed}" if "x \<in> set (c_configs d')" "cfg_household x = hh" for x
    using revoke_configs_none [of x "[Cf_planned, Cf_issued, Cf_claimed]" hh ?d3] t that by (simp add: later_tables)
  moreover have "bts_used_at x \<noteq> None \<or> bts_revoked_at x \<noteq> None" if "x \<in> set (c_bootstraps d')" "bts_household x = hh" for x
    using revoke_bootstraps_none [of x hh now ?d4] t that by (simp add: later_tables)
  moreover have "ch_status x = ''draft'' \<and> ch_runtime_ref x = None" if "x \<in> set (c_households d')" "ch_id x = hh" for x
    using unserve_household_all [of x "''draft''" hh now ?d5] t that by simp
  ultimately show "stopped hh d'" unfolding stopped_def by blast
  show "teardown_queued hh (cmx_expected c + 1) d' x" if "x \<in> set (c_resources d)" "res_household x = hh" "live_resource (res_status x)"
    using teardown_queued_supersede [OF schedule_cleanup_queues [OF a that(1,2,3)]] r by (simp add: version teardown_queued_def rest_def)
qed


section \<open>On a concrete household\<close>

definition sample_plan :: plan_env where
  "sample_plan = \<lparr>pe_onb = sample_onb, pe_bind = \<lparr>be_digest = id, be_hmac = (@), be_key = [], be_uuid = (\<lambda>d. ''b''), be_code = (\<lambda>d. ''c'')\<rparr>,
     pe_uuid = (\<lambda>d. replicate (length (c_configs d)) (CHR ''c'')), pe_digest = (\<lambda>j. ''sha''), pe_public = (\<lambda>j. True)\<rparr>"

definition sample_work :: work_env where
  "sample_work = \<lparr>wk_plan = sample_plan, wk_withdraw = \<lparr>we_jobs = oe_jobs sample_onb, we_onboarding = Some sample_onb, we_fingerprint = concat\<rparr>,
     wk_uuid = (\<lambda>d. replicate (length (c_resources d)) (CHR ''r'')), wk_validated = (\<lambda>j q r d. Some (pv_public r)),
     wk_waiting = (\<lambda>j q p r. Some (p, r)), wk_max_attempts = 5, wk_all_households = False, wk_authorized = []\<rparr>"

definition sample_running :: cp_job where
  "sample_running = (job_row (oe_jobs sample_onb) ''j1'' \<lparr>jq_household = ''iu'', jq_workflow = ''iuu'', jq_kind = ''email_identity'',
     jq_operation = ''ensure'', jq_intent = ''k'', jq_request = JObj [(''step_kind'', JStr ''email_identity'')],
     jq_provider = ''nerve-managed'', jq_revision = None\<rparr> 8)\<lparr>jb_status := Jb_running, jb_attempts := 1\<rparr>"

definition sample_leased :: cpdb where "sample_leased = sample_draft\<lparr>c_jobs := [sample_running]\<rparr>"


lemma sample_blocked:
  "\<exists>res d'. work_step_job sample_work sample_running False o1 9 sample_leased = (Inr res, d')"
proof -
  have got: "jobs_get ''j1'' sample_leased = Some sample_running" "jb_id sample_running = ''j1''"
    by (simp_all add: jobs_get_def tbl_get_Cons sample_leased_def sample_running_def job_row_def)
  have m: "missing_consent sample_work sample_running sample_leased \<noteq> None" "requires_content_restriction sample_running"
      "\<not> is_shutdown_action sample_running sample_leased"
    by (simp_all add: missing_consent_def required_consents_def current_receipt_def sample_leased_def sample_draft_def sample_start_def
        requires_content_restriction_def is_shutdown_action_def sample_running_def job_row_def job_code_def jobs_get_def tbl_get_Cons requires_reconciliation_def)
  show ?thesis
    using m
    by (simp add: work_step_job_def gate_def block_for_missing_consent_def mark_step_problem_def apply_problem_def settle_problem_def settle_def
        andthen_def found_def answer_def write_tx_def got raising_def jobs_settle_def on_job_def edit_def str_or_none_def request_mailbox_def
        sample_running_def job_row_def sample_work_def sample_plan_def sample_onb_def wk_onb_def)
qed

definition sample_verified :: "json \<Rightarrow> string \<Rightarrow> json" where
  "sample_verified public ref = JObj [(''external_ref'', JStr ref), (''public_result'', public), (''verified'', JBool True)]"

definition sample_done :: "nat \<Rightarrow> step_kind \<Rightarrow> json \<Rightarrow> json \<Rightarrow> cp_step" where
  "sample_done n k sel result = (first_step ''iuu'' 7 (n, k))\<lparr>stp_status := St_verified, stp_selection := Some sel, stp_result := Some result\<rparr>"

definition sample_receipt :: "uid \<Rightarrow> string \<Rightarrow> cp_receipt" where
  "sample_receipt i p = consent_receipt sample_onb i ''iu'' ''a1'' p ''de'' 8"

definition sample_seat_row :: binding_row where
  "sample_seat_row = \<lparr>cb_id = ''b1'', cb_household = ''iu'', cb_channel = ''web'', cb_external_id = ''web-owner.iu'',
     cb_chat_id = Some ''web-chat.iu'', cb_hmac = None, cb_actor = ''web-owner.iu'', cb_role = ''owner'', cb_verified_at = 0,
     cb_verified_by = ''web-owner.iu'', cb_published = None, cb_account = Some ''a1''\<rparr>"

definition sample_ready :: cpdb where
  "sample_ready = sample_draft\<lparr>c_households := [sample_draft_house\<lparr>ch_status := ''onboarding'', ch_language := Some ''de'',
       ch_timezone := Some ''Europe/Berlin'', ch_country := Some ''DE''\<rparr>],
     c_profiles := [\<lparr>prf_household = ''iu'', prf_first = ''O'', prf_last = ''P'', prf_created_at = 8, prf_updated_at = 8\<rparr>],
     c_steps := [sample_done 0 Kd_profile JNull JNull,
       sample_done 1 Kd_email JNull (sample_verified (JObj [(''agent_inbox'', JStr ''fam@mail.test''), (''provider'', JStr ''nerve-managed'')]) ''m''),
       sample_done 2 Kd_whatsapp (JObj [(''kind'', JStr ''disabled'')]) (sample_verified (JObj [(''state'', JStr ''off'')]) ''w''),
       sample_done 3 Kd_channel JNull (sample_verified (JObj [(''channel'', JStr ''web''), (''actor_id'', JStr ''web-owner.iu''),
         (''chat_id'', JStr ''web-chat.iu'')]) ''ch'')],
     c_receipts := [sample_receipt ''rc1'' restriction_purpose, sample_receipt ''rc2'' content_purpose],
     c_bindings := [sample_seat_row]\<rparr>"

lemma sample_web: "canonical_pair ''web'' ''web-owner.iu'' ''web-chat.iu'' ''web-owner.iu'' = Inr (''web-owner.iu'', ''web-chat.iu'', ''web-owner.iu'')"
  by code_simp

lemma sample_mail: "normalize_email sample_auth ''fam@mail.test'' = Inr ''fam@mail.test''" "normalize_email sample_auth ''o@x.test'' = Inr ''o@x.test''"
  by code_simp+

lemma sample_canonical:
  "canonical_sender ''web'' ''web-owner.iu'' = Inr ''web-owner.iu''" by code_simp

lemma sample_results:
  "step_result ''iuu'' Kd_email sample_ready = sample_verified (JObj [(''agent_inbox'', JStr ''fam@mail.test''), (''provider'', JStr ''nerve-managed'')]) ''m''"
  "step_result ''iuu'' Kd_whatsapp sample_ready = sample_verified (JObj [(''state'', JStr ''off'')]) ''w''"
  "step_result ''iuu'' Kd_channel sample_ready = sample_verified (JObj [(''channel'', JStr ''web''), (''actor_id'', JStr ''web-owner.iu''),
         (''chat_id'', JStr ''web-chat.iu'')]) ''ch''"
  "whatsapp_selection ''iuu'' sample_ready = JObj [(''kind'', JStr ''disabled'')]"
  "unverified_refusal ''iuu'' sample_ready = None"
  by (simp_all add: step_result_def whatsapp_selection_def step_row_def sample_ready_def sample_done_def first_step_def
      unverified_refusal_def step_verified_def user_steps_def sample_verified_def jget_def dict_get_def)

lemma sample_owed:
  "owed_purposes ''nerve-managed'' (JObj [(''kind'', JStr ''disabled'')]) = [restriction_purpose, content_purpose]"
  by (simp add: owed_purposes_def required_purposes_def whatsapp_enabled_def jget_def dict_get_def processes_real_content_def
      synthetic_email_providers_def str_or_none_def)

lemma sample_receipt_sel [simp]:
  "rct_id (sample_receipt i p) = i" "rct_purpose (sample_receipt i p) = p" "rct_version (sample_receipt i p) = consent_version p"
  "rct_sha (sample_receipt i p) = oe_text_sha sample_onb p" "rct_household (sample_receipt i p) = Some ''iu''"
  "rct_revoked_at (sample_receipt i p) = None" "rct_accepted_at (sample_receipt i p) = 8"
  by (simp_all add: sample_receipt_def consent_receipt_def)

lemma sample_verified_sel [simp]:
  "public_result (sample_verified p r) = p" "jtext (sample_verified p r) ''external_ref'' = r"
  by (simp_all add: public_result_def sample_verified_def jget_def dict_get_def jtext_def)

lemma sample_ready_sel [simp]:
  "c_accounts sample_ready = [sample_account]" "c_configs sample_ready = []" "c_bindings sample_ready = [sample_seat_row]"
  "c_emails sample_ready = []" "c_preferences sample_ready = []"
  "c_receipts sample_ready = [sample_receipt ''rc1'' restriction_purpose, sample_receipt ''rc2'' content_purpose]"
  "c_workflows sample_ready = [sample_workflow]" "prf_household ` set (c_profiles sample_ready) = {''iu''}"
  "c_households sample_ready = [sample_draft_house\<lparr>ch_status := ''onboarding'', ch_language := Some ''de'',
       ch_timezone := Some ''Europe/Berlin'', ch_country := Some ''DE''\<rparr>]"
  "c_memberships sample_ready = [\<lparr>cm_account = ''a1'', cm_household = ''iu'', cm_role = ''owner'', cm_status = ''active'', cm_created_at = 7\<rparr>]"
  by (simp_all add: sample_ready_def sample_draft_def sample_start_def)

lemma sample_standing:
  assumes "c_receipts d = c_receipts sample_ready"
  shows "standing_receipt ''iu'' restriction_purpose d = Some (sample_receipt ''rc1'' restriction_purpose)"
    "standing_receipt ''iu'' content_purpose d = Some (sample_receipt ''rc2'' content_purpose)"
  by (simp_all add: standing_receipt_def assms) (simp_all add: restriction_purpose_def content_purpose_def)

lemma sample_planned: "\<exists>spec cfg d'. plan_issue sample_plan ''iu'' 9 sample_ready = (Inr (spec, cfg), d')"
proof -
  have e: "pe_onb sample_plan = sample_onb" by (simp add: sample_plan_def)
  have pk: "provider_kind_of (JObj [(''agent_inbox'', JStr ''fam@mail.test''), (''provider'', JStr ''nerve-managed'')]) = ''nerve-managed''"
    by (simp add: provider_kind_of_def jget_def dict_get_def)
  have refusal: "plan_refusal sample_plan ''iu'' ''iuu'' sample_ready = None"
    by (simp add: plan_refusal_def sample_results pk sample_owed receipt_is_current_def sample_standing e)
  have owner: "owner_account ''iu'' sample_ready = Some sample_account"
    by (simp add: owner_account_def fallback_owner_def sample_account_def accounts_get_def tbl_get_Cons tbl_first_def)
  have seat: "seat_owner sample_plan ''iu'' sample_account ''web'' ''web-owner.iu'' ''web-chat.iu'' 9 sample_ready = (Inr (), sample_ready)"
    by (simp add: seat_owner_def andthen_def raising_def answer_def ensure_owner_binding_def sample_web holders_def holds_def as_identity_def
        sample_canonical sample_seat_row_def binding_record_def sample_account_def)
  let ?d = "sample_ready\<lparr>c_preferences := [\<lparr>pre_household = ''iu'', pre_primary = ''web'', pre_account = ''a1'',
        pre_verified_at = Some 0, pre_updated_at = 9\<rparr>]\<rparr>"
  have pref: "set_household_preference ''iu'' ''web'' ''a1'' (Some 0) 9 sample_ready = (Inr (), ?d)"
    by (simp add: set_household_preference_def andthen_def demand_def found_def refuse_on_def edit_def allowed_primary_def households_get_def
        tbl_get_Cons sample_draft_house_def fallback_refusal_def sample_account_def active_owner_def put_preference_def answer_def)
  have bound: "bindings_verified ''iu'' ?d = Inr [sample_seat_row]"
    by (simp add: bindings_verified_def sample_seat_row_def binding_record_def)
  have channel: "jtext (JObj [(''channel'', JStr ''web''), (''actor_id'', JStr ''web-owner.iu''), (''chat_id'', JStr ''web-chat.iu'')]) ''channel'' = ''web''"
    "jtext (JObj [(''channel'', JStr ''web''), (''actor_id'', JStr ''web-owner.iu''), (''chat_id'', JStr ''web-chat.iu'')]) ''actor_id'' = ''web-owner.iu''"
    "jtext (JObj [(''channel'', JStr ''web''), (''actor_id'', JStr ''web-owner.iu''), (''chat_id'', JStr ''web-chat.iu'')]) ''chat_id'' = ''web-chat.iu''"
    by (simp_all add: jget_def jtext_def dict_get_def)
  have ids: "wfl_id sample_workflow = ''iuu''" "wfl_household sample_workflow = ''iu''" "ch_id sample_draft_house = ''iu''"
      "ac_id sample_account = ''a1''" "ac_verified_at sample_account = 0"
    by (simp_all add: sample_workflow_def sample_draft_house_def sample_account_def)
  have mail: "spec_email_of (sample_verified (JObj [(''agent_inbox'', JStr ''fam@mail.test''), (''provider'', JStr ''nerve-managed'')]) ''m'') (ac_email sample_account) =
      \<lparr>se_inbox = ''fam@mail.test'', se_fallback = ''o@x.test'', se_provider = ''nerve-managed'', se_ref = Some ''m'', se_secret = None,
       se_in_kind = None, se_in_ref = None, se_in_secret = None\<rparr>"
    using pk by (simp add: spec_email_of_def sample_verified_def str_or_none_def public_result_def pk Let_def jtext_def jtext_or_none_def jget_def dict_get_def jstr_def sample_account_def)
  have off: "\<not> whatsapp_enabled (JObj [(''kind'', JStr ''disabled'')])"
    by (simp add: whatsapp_enabled_def jget_def dict_get_def)
  have rec: "spec_receipt_of ''iu'' ?d restriction_purpose = \<lparr>sr_id = ''rc1'', sr_purpose = restriction_purpose, sr_version = consent_version restriction_purpose, sr_sha = replicate 64 (CHR ''a'')\<rparr>"
    "spec_receipt_of ''iu'' ?d content_purpose = \<lparr>sr_id = ''rc2'', sr_purpose = content_purpose, sr_version = consent_version content_purpose, sr_sha = replicate 64 (CHR ''a'')\<rparr>"
    by (simp_all add: spec_receipt_of_def sample_standing sample_onb_def)
  have hex: "list_all EmailIdentity.hex_char (replicate 64 (CHR ''a''))" by code_simp
  have shape: "receipts_complete s"
    if "sp_purposes s = [restriction_purpose, content_purpose]"
      "sp_receipts s = [spec_receipt_of ''iu'' ?d restriction_purpose, spec_receipt_of ''iu'' ?d content_purpose]" for s
    using that hex
    by (simp add: receipts_complete_def rec receipt_shape_def) (simp add: consent_version_def consent_versions_def restriction_purpose_def content_purpose_def)
  have parts: "pe_public sample_plan j" "ch_residency sample_draft_house = ''eu-app''" "oe_auth (pe_onb sample_plan) = sample_auth" for j
    by (simp_all add: sample_plan_def sample_draft_house_def sample_onb_def)
  have valid: "spec_valid sample_plan (desired_spec (sample_draft_house\<lparr>ch_status := ''onboarding'', ch_language := Some ''de'',
       ch_timezone := Some ''Europe/Berlin'', ch_country := Some ''DE''\<rparr>) (step_result ''iuu'' Kd_email sample_ready)
       (step_result ''iuu'' Kd_whatsapp sample_ready) (step_result ''iuu'' Kd_channel sample_ready) (whatsapp_selection ''iuu'' sample_ready)
       (ac_email sample_account) (Suc (last_revision ''iu'' sample_ready)) [sample_seat_row] ?d)"
    by (simp add: spec_valid_def desired_spec_def sample_results Let_def mail pk channel ids sample_owed off sample_seat_row_def projected_binding_def
        allowed_primary_def relay_whole_def shape parts sample_mail)
  show ?thesis
    by (simp add: plan_issue_def onb_Inr refusal sample_results owner workflow_for_household_def household_profile_def households_get_def
        tbl_get_Cons ids seat channel pref bound valid [unfolded sample_results])
      (simp add: create_revision_def last_revision_def Let_def spec_json_fields with_hash_def desired_spec_def)
qed

lemma no_call_without_consent_witness:
  "\<forall>o1 o2. \<exists>d. work_step_job sample_work sample_running False o1 9 sample_leased = (Inr (result_of ''j1'' Jb_failed (Some receipt_code)), d) \<and>
     work_step_job sample_work sample_running False o2 9 sample_leased = (Inr (result_of ''j1'' Jb_failed (Some receipt_code)), d)"
proof (intro allI)
  fix o1 o2
  obtain res d where run: "work_step_job sample_work sample_running False o1 9 sample_leased = (Inr res, d)"
    using sample_blocked by blast
  have job: "jb_id sample_running = ''j1''" "jobs_get (jb_id sample_running) sample_leased = Some sample_running"
      "jb_status sample_running = Jb_running" "\<not> requires_reconciliation (jb_error sample_running)" "jb_kind sample_running = ''email_identity''"
      "processes_real_content (Some (jb_provider sample_running))" "jb_operation sample_running = ''ensure''"
      "\<not> current_receipt (wk_onb sample_work) (jb_household sample_running) content_purpose sample_leased"
    by (simp_all add: jobs_get_def tbl_get_Cons sample_leased_def sample_running_def job_row_def requires_reconciliation_def
        processes_real_content_def synthetic_email_providers_def str_or_none_def current_receipt_def sample_draft_def sample_start_def)
  show "\<exists>d. work_step_job sample_work sample_running False o1 9 sample_leased = (Inr (result_of ''j1'' Jb_failed (Some receipt_code)), d) \<and>
     work_step_job sample_work sample_running False o2 9 sample_leased = (Inr (result_of ''j1'' Jb_failed (Some receipt_code)), d)"
    using no_call_without_consent [OF job(2-7) _ job(8) run, of o2] run job(1) by auto
qed



end
