(* ===== verification/WithdrawLaws.thy ===== *)
theory WithdrawLaws
  imports EmailLaws OnboardingEnds
begin

text \<open>
  Laws of the withdrawal of a consent: what one transaction of \<open>control_plane/privacy/withdraw.py\<close> leaves
  behind.
\<close>

section \<open>What a teardown touches\<close>

text \<open>The tables that only the withdrawal itself writes.\<close>

definition kept_tables :: "cpdb \<Rightarrow> cp_receipt list \<times> cp_config list \<times> cp_household list \<times> cp_workflow list" where
  "kept_tables d = (c_receipts d, c_configs d, c_households d, c_workflows d)"

lemma created_row:
  assumes "jobs_create J q now d = (Inr x, d')"
  shows "kept_tables d' = kept_tables d" "c_resources d' = c_resources d" "c_emails d' = c_emails d"
    "j \<in> set (c_jobs d') \<Longrightarrow> j \<in> set (c_jobs d) \<or> jb_kind j = jq_kind q \<and> jb_operation j = jq_operation q"
proof -
  note r = assms [unfolded jobs_create_def Let_def]
  show "kept_tables d' = kept_tables d" "c_resources d' = c_resources d" "c_emails d' = c_emails d"
    using r by (auto simp: kept_tables_def split: option.splits if_splits)
  show "j \<in> set (c_jobs d') \<Longrightarrow> j \<in> set (c_jobs d) \<or> jb_kind j = jq_kind q \<and> jb_operation j = jq_operation q"
    using r by (auto simp: job_row_def split: option.splits if_splits)
qed

lemma queue_cleanups_frame:
  "queue_cleanups E hh wid v mail wt now n rs d = (Inr js, d') \<Longrightarrow>
   kept_tables d' = kept_tables d \<and> (\<forall>j \<in> set (c_jobs d'). j \<in> set (c_jobs d) \<or> jb_kind j = ''cleanup'')"
proof (induction rs arbitrary: n js d)
  case (Cons r rs)
  obtain j d1 js' where q: "jobs_create (oe_jobs E) (cleanup_request hh wid v mail wt r) (now + real n * 0.000001) d = (Inr j, d1)"
    and c: "queue_cleanups E hh wid v mail wt now (Suc n) rs (mark_deleting (res_id r) now d1) = (Inr js', d')"
    using Cons.prems by (auto simp: onb_Inr queue_def)
  have "kept_tables (mark_deleting (res_id r) now d1) = kept_tables d1" "c_jobs (mark_deleting (res_id r) now d1) = c_jobs d1"
    by (simp_all add: mark_deleting_def kept_tables_def)
  moreover have "jq_kind (cleanup_request hh wid v mail wt r) = ''cleanup''" by (simp add: cleanup_request_def)
  ultimately show ?case using Cons.IH [OF c] created_row(1,4) [OF q] by metis
qed (simp add: onb_Inr)

lemma finish_frame: "kept_tables (snd (finish_disconnect i now d)) = kept_tables d"
  by (simp add: finish_disconnect_def kept_tables_def split: option.split)

lemma drop_mailbox_frame: "kept_tables (drop_mailbox E hh now d) = kept_tables d"
proof -
  have "kept_tables (begin_disconnect hh now d) = kept_tables d" by (simp add: begin_disconnect_def move_email_def kept_tables_def)
  then show ?thesis by (simp add: drop_mailbox_def finish_safe_disconnect_def finish_frame split: option.split)
qed

lemma finish_rows:
  "z \<in> set (c_emails (snd (finish_disconnect i now d))) \<Longrightarrow> z \<in> set (c_emails d) \<or> eid_status z = Ei_deleted"
  by (auto simp: finish_disconnect_def set_tbl_update split: option.splits if_splits)

lemma drop_mailbox_lives:
  assumes "oe_mail E \<noteq> None" "x \<in> set (c_emails (drop_mailbox E hh now d))" "eid_household x = hh"
  shows "\<not> live_email (eid_status x)"
proof -
  have b: "\<not> live_email (eid_status y)" if "y \<in> set (c_emails (begin_disconnect hh now d))" "eid_household y = hh" for y
  proof -
    have "y \<in> set (tbl_update (\<lambda>r. eid_household r = hh \<and> live_email (eid_status r))
        (\<lambda>r. r\<lparr>eid_status := Ei_disconnecting, eid_version := eid_version r + 1, eid_updated_at := now\<rparr>) (c_emails d))"
      using that(1) by (simp add: begin_disconnect_def move_email_def)
    then have "eid_household y = hh \<longrightarrow> \<not> live_email (eid_status y)" by (rule tbl_update_all) (simp add: live_email_def)
    then show ?thesis using that(2) by simp
  qed
  have "x \<in> set (c_emails (begin_disconnect hh now d)) \<or> eid_status x = Ei_deleted"
    using assms(1,2) by (auto simp: drop_mailbox_def finish_safe_disconnect_def split: option.splits dest: finish_rows)
  then show ?thesis using b assms(3) by (auto simp: live_email_def)
qed

text \<open>What the teardown of one withdrawal leaves of the resources, the intents and the mailbox.\<close>

definition torn_down :: "onb_env \<Rightarrow> uid \<Rightarrow> string list \<Rightarrow> cpdb \<Rightarrow> bool" where
  "torn_down E hh types d \<longleftrightarrow>
     (\<forall>x \<in> set (c_resources d). res_household x = hh \<and> res_type x \<in> set types \<longrightarrow> \<not> live_resource (res_status x)) \<and>
     (\<forall>j \<in> set (c_jobs d). supersedable hh (Some types) j \<and> jb_status j \<in> {Jb_pending, Jb_running, Jb_waiting_user} \<longrightarrow>
        like_reconciliation (jb_error j)) \<and>
     (''email_identity'' \<in> set types \<longrightarrow> (\<forall>x \<in> set (c_emails d). eid_household x = hh \<longrightarrow> \<not> live_email (eid_status x)))"

lemma disconnect_tears_down:
  assumes "disconnect_for_withdrawal E hh types now d = (Inr js, d')" "workflow_for_household hh d = Some w"
  shows "torn_down E hh (withdrawn_types E types) d' \<and> kept_tables d' = kept_tables d \<and>
    (\<forall>x \<in> set (c_resources d). res_household x = hh \<and> res_type x \<in> set (withdrawn_types E types) \<and> live_resource (res_status x) \<longrightarrow>
       teardown_queued hh (wfl_version w) d' x)"
proof (cases "withdrawn_types E types")
  case Nil
  then show ?thesis using assms by (simp add: disconnect_for_withdrawal_def torn_down_def supersedable_def)
next
  case (Cons t ts)
  let ?k = "t # ts" let ?d1 = "supersede_unsettled_jobs hh ''withdrawal'' (Some ?k) now d"
  have m: "oe_mail E \<noteq> None" if "''email_identity'' \<in> set ?k"
    using that unfolding Cons [symmetric] by (auto simp: withdrawn_types_def split: if_splits)
  obtain d2 where s: "schedule_cleanup E hh (wfl_id w) (wfl_version w) (Some ?k) now ?d1 = (Inr js, d2)"
    and d': "d' = (if ''email_identity'' \<in> set ?k then drop_mailbox E hh now d2 else d2)"
    using assms Cons by (auto simp: disconnect_for_withdrawal_def onb_Inr)
  have q: "kept_tables d2 = kept_tables ?d1" "\<forall>j \<in> set (c_jobs d2). j \<in> set (c_jobs ?d1) \<or> jb_kind j = ''cleanup''"
    using queue_cleanups_frame s unfolding schedule_cleanup_def by blast+
  have e: "c_jobs d' = c_jobs d2" "c_resources d' = c_resources d2" "kept_tables d' = kept_tables d2"
    using drop_mailbox_rest [of E hh now d2] by (simp_all add: d' drop_mailbox_frame rest_def)
  have k: "kept_tables d' = kept_tables d" using e(3) q(1) by (simp add: kept_tables_def supersede_unsettled_jobs_def)
  have "\<not> live_resource (res_status x)" if "x \<in> set (c_resources d')" "res_household x = hh" "res_type x \<in> set ?k" for x
    using schedule_cleanup_resources [OF s, of x] e(2) that by simp
  moreover have "like_reconciliation (jb_error j)"
    if "j \<in> set (c_jobs d')" "supersedable hh (Some ?k) j" "jb_status j \<in> {Jb_pending, Jb_running, Jb_waiting_user}" for j
    using superseded_jobs [of j hh "''withdrawal''" "Some ?k" now d] q(2) e(1) that by (auto simp: supersedable_def)
  moreover have "\<not> live_email (eid_status x)" if "''email_identity'' \<in> set ?k" "x \<in> set (c_emails d')" "eid_household x = hh" for x
    using drop_mailbox_lives [OF m [OF that(1)]] that d' by simp
  moreover have "teardown_queued hh (wfl_version w) d' x"
    if "x \<in> set (c_resources d)" "res_household x = hh" "res_type x \<in> set ?k" "live_resource (res_status x)" for x
    using schedule_cleanup_queues [OF s, of x] that e(1) by (simp add: supersede_unsettled_jobs_def teardown_queued_def)
  ultimately show ?thesis using k unfolding torn_down_def Cons by blast
qed

lemma stop_is_queued:
  assumes "enqueue_runtime_stop W hh purpose cycle now d = (Inr job, d')"
  shows "kept_tables d' = kept_tables d" "torn_down E hh types d \<Longrightarrow> torn_down E hh types d'" "set (c_jobs d) \<subseteq> set (c_jobs d')"
    "households_get hh d = Some h \<Longrightarrow> ch_runtime_ref h = Some runtime \<Longrightarrow> managed_ref runtime \<Longrightarrow> workflow_for_household hh d = Some w \<Longrightarrow>
     \<exists>j \<in> set (c_jobs d'). job = Some (jb_id j) \<and> jb_intent j = jq_intent (stop_request W hh (wfl_id w) runtime purpose cycle)"
proof -
  have s: "d' = d \<or> (\<exists>wid rt x. jobs_create (we_jobs W) (stop_request W hh wid rt purpose cycle) now d = (Inr x, d'))"
    using assms by (auto simp: enqueue_runtime_stop_def Let_def onb_Inr split: if_splits option.splits)
  show "kept_tables d' = kept_tables d" using s created_row(1) by metis
  show "set (c_jobs d) \<subseteq> set (c_jobs d')" using s created_intent(2) by blast
  have op: "jq_operation (stop_request W hh wid rt purpose cycle) = ''revoke_consent''" for wid rt by (simp add: stop_request_def)
  have "c_resources d' = c_resources d" "c_emails d' = c_emails d" using s created_row(2,3) by metis+
  moreover have "j \<in> set (c_jobs d) \<or> \<not> supersedable hh (Some types) j" if "j \<in> set (c_jobs d')" for j
  proof (rule disjE [OF s])
    assume "\<exists>wid rt x. jobs_create (we_jobs W) (stop_request W hh wid rt purpose cycle) now d = (Inr x, d')"
    then obtain wid rt x where "jobs_create (we_jobs W) (stop_request W hh wid rt purpose cycle) now d = (Inr x, d')" by blast
    then have "j \<in> set (c_jobs d) \<or> jb_operation j = ''revoke_consent''" using created_row(4) [OF _ that] op by metis
    then show ?thesis by (auto simp: supersedable_def)
  qed (use that in simp)
  ultimately show "torn_down E hh types d'" if "torn_down E hh types d"
    using that unfolding torn_down_def by auto
  show "\<exists>j \<in> set (c_jobs d'). job = Some (jb_id j) \<and> jb_intent j = jq_intent (stop_request W hh (wfl_id w) runtime purpose cycle)"
    if got: "households_get hh d = Some h" "ch_runtime_ref h = Some runtime" "managed_ref runtime" "workflow_for_household hh d = Some w"
  proof -
    obtain x where x: "jobs_create (we_jobs W) (stop_request W hh (wfl_id w) runtime purpose cycle) now d = (Inr x, d')" "job = Some (fst x)"
      using assms got by (auto simp: enqueue_runtime_stop_def Let_def onb_Inr)
    show ?thesis using created_intent(1) [OF x(1)] x(2) by metis
  qed
qed


section \<open>Concrete inputs\<close>

text \<open>A household with a live mailbox resource, an open intent and a runtime, which withdraws its content consent.\<close>

definition sample_runtime :: string where
  "sample_runtime = ''abrolia-hh-'' @ replicate 26 (CHR ''a'')"

definition sample_inbox :: cp_resource where
  "sample_inbox = \<lparr>res_id = ''r1'', res_household = ''iu'', res_provider = ''fake-email'', res_type = ''email_identity'', res_name = ''m'',
     res_external = JObj [], res_status = Er_ready, res_revision = None, res_created_at = 7, res_updated_at = 7\<rparr>"

definition sample_serving :: cpdb where
  "sample_serving = sample_draft\<lparr>c_households := [sample_draft_house\<lparr>ch_runtime_ref := Some sample_runtime\<rparr>],
     c_receipts := [sample_receipt ''c1'' content_purpose], c_jobs := [sample_running], c_resources := [sample_inbox]\<rparr>"

definition sample_service :: onb_env where "sample_service = sample_onb\<lparr>oe_mail := Some sample_mail\<rparr>"

definition sample_withdraw :: withdraw_env where
  "sample_withdraw = \<lparr>we_jobs = oe_jobs sample_onb, we_onboarding = Some sample_service, we_fingerprint = (\<lambda>l. ''f'')\<rparr>"

lemma created_fresh:
  assumes "\<forall>j \<in> set (c_jobs d). jb_intent j \<noteq> jq_intent q \<and> jb_id j \<noteq> je_uuid J d" "jq_kind q \<in> set job_kinds"
  shows "jobs_create J q now d = (Inr (je_uuid J d, True), d\<lparr>c_jobs := c_jobs d @ [job_row J (je_uuid J d) q now]\<rparr>)"
proof -
  have "find (\<lambda>r. jb_intent r = jq_intent q) (c_jobs d) = None" using assms(1) by (simp add: find_None_iff)
  then show ?thesis using assms by (auto simp: jobs_create_def Let_def)
qed

lemma sample_disconnected:
  assumes "c_jobs d = [sample_running]" "c_resources d = [sample_inbox]" "c_workflows d = [sample_workflow]" "c_emails d = []"
  shows "\<exists>js d' j k. disconnect_for_withdrawal sample_service ''iu'' content_resource_types now d = (Inr js, d') \<and>
    c_jobs d' = [j, k] \<and> jb_id j = ''j1'' \<and> jb_intent j = ''k'' \<and> jb_id k = ''j'' \<and> take 5 (jb_intent k) = ''iu:cl''"
proof -
  let ?d1 = "supersede_unsettled_jobs ''iu'' ''withdrawal'' (Some content_resource_types) now d"
  let ?j = "quarantine_row ''withdrawal'' now sample_running"
  have jobs: "c_jobs ?d1 = [?j]"
    using assms(1) by (simp add: supersede_unsettled_jobs_def sample_running_def job_row_def supersedable_def content_resource_types_def
        quarantine_row_def like_reconciliation_def)
  have rest: "c_resources ?d1 = [sample_inbox]" "c_emails ?d1 = []" by (simp_all add: supersede_unsettled_jobs_def assms)
  have w: "workflow_for_household ''iu'' d = Some sample_workflow" using assms(3) by (simp add: workflow_for_household_def sample_workflow_def)
  have types: "withdrawn_types sample_service content_resource_types = ''email_identity'' # [''whatsapp_identity'', ''channel_binding'']"
    by (simp add: withdrawn_types_def sample_service_def content_resource_types_def)
  have clean: "to_clean ''iu'' (Some content_resource_types) ?d1 = [sample_inbox]"
    unfolding to_clean_def rest by (simp add: sample_inbox_def live_resource_def content_resource_types_def)
  have "\<exists>js d2. schedule_cleanup sample_service ''iu'' (wfl_id sample_workflow) (wfl_version sample_workflow) (Some content_resource_types) now ?d1 = (Inr js, d2) \<and>
      (\<exists>k. c_jobs d2 = [?j, k] \<and> jb_id k = ''j'' \<and> take 5 (jb_intent k) = ''iu:cl'')"
  proof -
    let ?q = "cleanup_request ''iu'' (wfl_id sample_workflow) (wfl_version sample_workflow) None None sample_inbox"
    have u: "je_uuid (oe_jobs sample_service) ?d1 = ''j''" by (simp add: sample_service_def sample_onb_def jobs)
    have j: "jb_id ?j = ''j1''" "jb_intent ?j = ''k''" by (simp_all add: quarantine_row_def sample_running_def job_row_def)
    have i: "take 5 (jq_intent ?q) = ''iu:cl''" "jq_kind ?q = ''cleanup''" by (simp_all add: cleanup_request_def)
    then have "jq_intent ?q \<noteq> ''k''" by auto
    then have "jobs_create (oe_jobs sample_service) ?q (now + real 0 * 0.000001) ?d1 =
        (Inr (''j'', True), ?d1\<lparr>c_jobs := [?j, job_row (oe_jobs sample_service) ''j'' ?q (now + real 0 * 0.000001)]\<rparr>)"
      using created_fresh [of ?d1 ?q "oe_jobs sample_service"] by (simp add: jobs j u i(2) job_kinds_def)
    moreover have "latest_job P ?d1 = None" if "\<not> P ?j" for P using that by (simp add: latest_job_def jobs tbl_first_def)
    ultimately show ?thesis
      by (simp add: schedule_cleanup_def clean rest newest_email_def tbl_first_def queue_def raising_def andthen_def answer_def edit_def
          mark_deleting_def i(1) job_row_def quarantine_row_def)
  qed
  then obtain js d2 k where s: "schedule_cleanup sample_service ''iu'' (wfl_id sample_workflow) (wfl_version sample_workflow) (Some content_resource_types) now ?d1 = (Inr js, d2)"
      "c_jobs d2 = [?j, k]" "jb_id k = ''j''" "take 5 (jb_intent k) = ''iu:cl''" by blast
  have "c_jobs (drop_mailbox sample_service ''iu'' now d2) = [?j, k]" using drop_mailbox_rest [of sample_service "''iu''" now d2] s(2) by (simp add: rest_def)
  moreover have "jb_id ?j = ''j1''" "jb_intent ?j = ''k''" by (simp_all add: quarantine_row_def sample_running_def job_row_def)
  ultimately show ?thesis using s types w unfolding content_resource_types_def by (simp add: disconnect_for_withdrawal_def andthen_def edit_def answer_def)
qed

lemma sample_withdrawn:
  "\<exists>r d'. withdraw sample_withdraw ''iu'' content_purpose 9 sample_serving = (Inr r, d')"
proof -
  let ?d1 = "snd (revoke_receipts ''iu'' content_purpose 9 sample_serving)"
  let ?d2 = "snd (revoke_configs [Cf_planned, Cf_issued, Cf_claimed, Cf_active] ''iu'' ?d1)"
  have t: "c_jobs ?d2 = [sample_running]" "c_resources ?d2 = [sample_inbox]" "c_workflows ?d2 = [sample_workflow]" "c_emails ?d2 = []"
      "households_get ''iu'' ?d2 = Some (sample_draft_house\<lparr>ch_runtime_ref := Some sample_runtime\<rparr>)"
    by (simp_all add: revoke_receipts_def revoke_configs_def Let_def sample_serving_def sample_draft_def sample_start_def empty_cpdb_def
        households_get_def tbl_get_Cons sample_draft_house_def)
  have w: "workflow_for_household ''iu'' ?d2 = Some sample_workflow" using t(3) by (simp add: workflow_for_household_def sample_workflow_def)
  obtain js d3 j k where c: "disconnect_for_withdrawal sample_service ''iu'' content_resource_types 9 ?d2 = (Inr js, d3)"
    and jobs: "c_jobs d3 = [j, k]" "jb_id j = ''j1''" "jb_intent j = ''k''" "jb_id k = ''j''" "take 5 (jb_intent k) = ''iu:cl''"
    using sample_disconnected [OF t(1-4)] by blast
  have kt: "kept_tables d3 = kept_tables ?d2" using disconnect_tears_down [OF c w] by simp
  then have h: "households_get ''iu'' d3 = Some (sample_draft_house\<lparr>ch_runtime_ref := Some sample_runtime\<rparr>)"
      "workflow_for_household ''iu'' d3 = Some sample_workflow"
    using t(5) w by (simp_all add: households_get_def workflow_for_household_def kept_tables_def)
  have m: "managed_ref sample_runtime" by code_simp
  let ?q = "stop_request sample_withdraw ''iu'' (wfl_id sample_workflow) sample_runtime content_purpose (consent_cycle ''iu'' content_purpose sample_serving)"
  have q: "take 5 (jq_intent ?q) = ''iu:co''" "jq_kind ?q = ''runtime''" by (simp_all add: stop_request_def)
  have "jq_intent ?q \<noteq> ''k''" "jq_intent ?q \<noteq> jb_intent k" using q(1) jobs(5) by auto
  moreover have "je_uuid (we_jobs sample_withdraw) d3 = ''jj''" by (simp add: sample_withdraw_def sample_onb_def jobs(1))
  ultimately have "jobs_create (we_jobs sample_withdraw) ?q 9 d3 = (Inr (''jj'', True), d3\<lparr>c_jobs := c_jobs d3 @ [job_row (we_jobs sample_withdraw) ''jj'' ?q 9]\<rparr>)"
    using created_fresh [of d3 ?q "we_jobs sample_withdraw" 9] q(2) jobs by (simp add: job_kinds_def)
  then have e: "\<exists>x d4. enqueue_runtime_stop sample_withdraw ''iu'' content_purpose (consent_cycle ''iu'' content_purpose sample_serving) 9 d3 = (Inr x, d4)"
    using h m by (simp add: enqueue_runtime_stop_def raising_def andthen_def answer_def)
  have v: "map_of consent_versions content_purpose = Some ''special-category-household-content-v1''"
    "map_of withdrawal_scopes content_purpose = Some (content_resource_types, True)" by code_simp+
  have "fst (revoke_receipts ''iu'' content_purpose 9 sample_serving) \<noteq> 0"
    by (simp add: revoke_receipts_def Let_def tbl_count_def sample_serving_def of_purpose_def sample_receipt_def consent_receipt_def)
  then show ?thesis
    using v c e by (auto simp: withdraw_def withdraw_body_def write_tx_def andthen_def look_def refuse_on_def answer_def sample_withdraw_def
        [THEN arg_cong, where f = we_onboarding])
qed


end
