(* ===== verification/Spec2Isabelle.thy ===== *)
theory Spec2Isabelle
  imports Events Evidence Matching Retention ToolLoop Pipeline Ingress Media Channels Intake Queries GatewayApp JobLaws AccountLaws EmailLaws OnboardingProps WithdrawLaws
begin

text \<open>
  \<^bold>\<open>What is verified.\<close>  The repository is an assistant for a household that reads letters and
  messages, proposes what to do, and acts only after a person of the family said yes.  This library
  models three Python packages under \<open>src\<close>: \<open>hermes_cloud\<close>, the runtime of one household
  with its stores and the code between an incoming letter and an outgoing effect; \<open>gateway\<close>, which
  takes WhatsApp messages for all households and hands each to its runtime; and \<open>control_plane\<close>,
  where a family signs up, chooses its mailbox and channels, gives and withdraws its consents, and where a
  durable queue drives the providers.

  \<^bold>\<open>How the parts interact.\<close>  A letter becomes one event of the queue; a worker leases it, reads
  it, asks the model for a structured result and stages a proposal, a bundle of items on a card.
  A button press or a typed code claims the proposal, bound to chat, thread, expiry and the payload
  shown; the claim writes the first row of the effect journal in its own transaction.  Execution
  runs the executor of the kind (reminder, calendar, letter, WhatsApp, memory, export, erasure),
  settles the effect and reports.  After a crash, stale effects are either replayed, when they are
  local and idempotent, or reported as unknown.  A dialogue turn runs a loop of model calls and
  tools that can only propose.  A scheduler delivers reminders, retention blanks and deletes, and a
  check of the mail forwarding notices when mail stops arriving.
  The gateway resolves a sender through the bindings of the control plane, signs the message for the
  runtime, and keeps what it cannot deliver in a write-ahead log that a worker drains.
  In the control plane a magic link opens a session; a command of the onboarding moves one step of the
  household's workflow, writes one row of its journal and queues a provider intent; the worker leases the
  intent, asks for the consents it needs, settles the provider's answer and opens the next step, and after
  the last one plans the configuration of the runtime.  A cancellation, a reset or a withdrawal quarantines
  what is in flight and queues the teardown.

  \<^bold>\<open>State.\<close>  \<open>Schema\<close> and \<open>CpSchema\<close> have one record per table and the records
  \<open>db\<close> and \<open>cpdb\<close> of all tables, each a list in insertion order.  \<open>write_tx\<close> of
  \<open>Prelude\<close> is \<open>Database.write\<close>: a raised exception, a left value, restores the file.
  Where code may raise outside a transaction, what was committed before stays, as in the source.  The
  onboarding composes its statements with \<open>andthen\<close>, which stops at the first left value.  The
  world outside is a type variable \<open>'w\<close>, threaded through the calls of the channel, mail backend,
  calendar service and model client, or, for the provisioning worker, a record of what the outside answers
  to one job.

  \<^bold>\<open>Theories and files of the runtime\<close> (under \<open>src/hermes_cloud\<close>).
  \<open>Prelude\<close>: tables, transactions, Python's string methods.
  \<open>Payload\<close>: JSON values and the canonical text that is hashed.
  \<open>Schema\<close>: the tables.  \<open>Interfaces\<close>: the locales of keyed insertion and of versioned statements.
  \<open>Events\<close>: \<open>core/events.py\<close>, \<open>ingest/worker.py\<close>.
  \<open>Effects\<close>: \<open>core/effects.py\<close>.  \<open>Approvals\<close>: \<open>core/approvals.py\<close>.
  \<open>Dsar\<close>: \<open>core/dsar.py\<close>.  \<open>Commitments\<close>, \<open>Memory\<close>: the files of the same name in \<open>core\<close>.
  \<open>Reminders\<close>: \<open>execute/reminder.py\<close>, \<open>scheduler.py\<close>.
  \<open>RunContext\<close>: \<open>core/runcontext.py\<close>.  \<open>Usage\<close>: \<open>core/usage.py\<close>.
  \<open>EmailStore\<close>: \<open>email/contracts.py\<close>, \<open>email/receipts.py\<close>.
  \<open>EmailSend\<close>: \<open>execute/email_send.py\<close>.
  \<open>Datetime\<close>, \<open>Calendar\<close>: dates of the standard library and \<open>execute/gcal.py\<close>.
  \<open>Extractor\<close>: \<open>runner/extraction.py\<close>.
  \<open>Cards\<close>: \<open>runner/card.py\<close>, \<open>runner/bundle.py\<close>.
  \<open>Outlets\<close>: \<open>execute/ics.py\<close>, \<open>execute/whatsapp.py\<close>.
  \<open>Pipeline\<close>, \<open>Intake\<close>: \<open>runner/pipeline.py\<close>, from the yes on and up to the proposal.
  \<open>Evidence\<close>, \<open>Matching\<close>, \<open>Retention\<close>, \<open>Queries\<close>: the files of the same name in \<open>core\<close>.
  \<open>Forwarding\<close>: \<open>ingest/forwarding.py\<close>.  \<open>Eml\<close>: \<open>ingest/eml.py\<close>.
  \<open>Ingress\<close>: \<open>ingest/rfc822.py\<close>, \<open>ingest/inject.py\<close>.  \<open>WhatsAppIn\<close>: \<open>ingest/whatsapp_webhook.py\<close>.
  \<open>Media\<close>: \<open>ingest/media.py\<close>.  \<open>Channels\<close>: \<open>channels/telegram.py\<close>, \<open>fallback.py\<close>, \<open>web.py\<close>.
  \<open>Tools\<close>: \<open>runner/tools.py\<close>.  \<open>ToolLoop\<close>: \<open>runner/model.py\<close>.

  \<^bold>\<open>Theories and files of gateway and control plane.\<close>
  \<open>CpSchema\<close>: the tables of \<open>control_plane/migrations\<close> and the enumerations of \<open>models.py\<close>.
  \<open>Bindings\<close>: \<open>channels.py\<close>, \<open>repositories/bindings.py\<close>, \<open>bindings_resolution.py\<close>, the binding endpoints.
  \<open>Gateway\<close>, \<open>GatewayApp\<close>: \<open>gateway/whatsapp_router.py\<close>, \<open>gateway/app.py\<close>, \<open>privacy/runtime.py\<close>.
  \<open>Jobs\<close>: \<open>repositories/jobs.py\<close>.
  \<open>Accounts\<close>: \<open>repositories/accounts.py\<close>, \<open>auth.py\<close>, \<open>households.py\<close>, the services, tokens, sessions
  and rate limits of sign-in, and its routes.
  \<open>EmailIdentity\<close>: \<open>email/repository.py\<close>, \<open>email/service.py\<close>, \<open>email/local_part.py\<close>.
  \<open>Onboarding\<close>: \<open>onboarding/service.py\<close>, \<open>state.py\<close>, \<open>contracts.py\<close>, \<open>repositories/onboarding.py\<close>,
  \<open>feature_flags.py\<close>, \<open>privacy/art9.py\<close>, \<open>privacy/consent.py\<close>.
  \<open>Withdraw\<close>: \<open>privacy/withdraw.py\<close>.
  \<open>Planner\<close>: \<open>provisioning/planner.py\<close>, \<open>manifest.py\<close>, \<open>repositories/configs.py\<close>, \<open>channel_preferences.py\<close>.
  \<open>Provision\<close>: the jobs of a step, a namespace and a teardown in \<open>provisioning/worker.py\<close>.
  The laws of these are in \<open>BindingLaws\<close>, \<open>GatewayLaws\<close>, \<open>JobLaws\<close>, \<open>AccountLaws\<close>, \<open>EmailLaws\<close>,
  \<open>OnboardingLaws\<close> (what each command does to the steps and the journal), \<open>StepOrder\<close> and \<open>WorkerOrder\<close>
  (the invariant of the onboarding, kept by commands and by the worker), \<open>OnboardingProps\<close> (histories),
  \<open>OnboardingEnds\<close> (consents, plans, cancellation) and \<open>WithdrawLaws\<close> (what a withdrawal leaves);
  \<open>OnboardingSamples\<close> has the household on which the properties of the onboarding are instantiated.

  \<^bold>\<open>What the lemmas show.\<close>  Single use of approvals, effects, external ids and message ids, each over
  any history of operations and through the locale \<open>insert_once\<close>; the binding of a claim to
  what was shown; bounds on guesses, model calls and money; refinement of the effect journal to a map;
  termination of the walks through versions; serial threads and an emptied queue; that a turn of the
  model, and everything else before the yes, leaves only proposals.  For the gateway: one household per
  sender, delivery or keeping of every message, redelivery only where the row was accepted for.  For the
  control plane: links, sessions and limits; one row per intent, exclusive leases and a quarantine that
  only an outcome or a new attempt ends; unique mailboxes, and an address that is kept until its teardown is over; steps that open in order, a journal that is the history of its
  workflow, one answer per command, no provider call without the consent it needs, a planned revision that
  carries every consent owed, a cancelled household with nothing left running, and a withdrawn consent that
  leaves nothing it covered alive.

  \<^bold>\<open>Crashes and surroundings.\<close>  A process may die inside a send of \<open>EmailSend\<close>: after the journal entry, after
  the hand-over to the transport, and before the entry is settled; histories contain such events.  The
  histories of the mailboxes let other parts rewrite the jobs and the provider resources between two steps, and
  those of the bindings contain the deletions of the retention and of an erased household.  Whether a sign-in
  mail can be delivered is an input; the route hides that failure, a full bucket and a refused value, and
  every other error leaves it as a failure.

  \<^bold>\<open>Bounds.\<close>  A kept message is tried eight times within twenty-four hours; a signature is fresh for
  three hundred seconds; a household has at most ten open challenges and twenty-five bindings; a link and
  a reservation last fifteen minutes, a session twenty-four hours idle and thirty days at most; a limit lets
  at most twice its number through in any interval as long as its window; an answer of a command is kept
  for a day.  Loops recurse on what gets smaller, so no fuel is needed; the walks that follow references end
  because a row is not visited twice, or are partial functions with a proof that they return.

  \<^bold>\<open>Parameters.\<close>  SHA-256, HMAC, \<open>float.__repr__\<close>, \<open>uuid4\<close>, \<open>secrets\<close>, the MIME parser
  and renderer, address parsing, NFKC, the public form of a domain, codecs, the HTTP clients and the model
  provider are arguments; so are pydantic's validation of a selection, the scan for secret fields, the
  validation of a mail provider's public result, environment variables and digests.  Hypotheses on them state
  documented behaviour, such as that a new id is not in use, and each property with a hypothesis has a
  witness.  Time is an exact real, money an exact real, a text a list of characters up to code point 255;
  texts the source shows in Russian are stood for by tags in capitals, refusal messages are abbreviated.
  A \<open>SELECT\<close> without an order takes rows in insertion order, a step reads the clock once.

  \<^bold>\<open>Not modelled.\<close>  Command line, environment, files, logging and backup; the HTTP servers and their
  routing; the clients of mail providers, Fly and Google; the polling doors of ingress.  Of the control plane:
  launch, activation and rollout of a runtime and the health columns of its receipts, the worker's inspection
  jobs, bootstrap cleanup, delivery of a stop and reconciliation, export, deletion and retention, the
  sending of mail, and the immediate second pass of \<open>run_once\<close> after a namespace.  The masked address of a
  mailbox is not stored, and the suggestion of one starts from a parameter.  \<open>FallbackTransport\<close> may write rows
  of \<open>email_sends\<close> that the state of \<open>Pipeline\<close> does not show.
\<close>

end
